(* ===== verification/Prelude.thy ===== *)
theory Prelude
  imports Main "HOL-Library.Word" "HOL-Library.Signed_Division" "HOL-Library.Multiset"
    "HOL-Library.Monad_Syntax"
begin

text \<open>
  Shared vocabulary of the development: the type synonyms of the model, the
  two collections the component proofs use, and generic lemmas on lists,
  options and maps.

  Conventions of every theory: a C pointer to an object of a heap is an
  address option (None is NULL); a heap is a map from addresses to objects;
  an operation that dereferences memory returns an option whose None means
  undefined behaviour (a NULL or dangling pointer, an index out of range), so
  a theorem that an operation returns Some is a memory-safety theorem.
\<close>

section \<open>Types\<close>

type_synonym addr = nat
type_synonym ptr = "addr option"
type_synonym 'n heap = "addr \<Rightarrow> 'n option"
type_synonym u32 = "32 word"
type_synonym u64 = "64 word"

section \<open>Collections\<close>

text \<open>
  c_simps: rewriting of the C-level helpers (pointers, arrays);
  c_frame: facts that an update elsewhere in the heap changes nothing.
\<close>

named_theorems c_simps
named_theorems c_frame

section \<open>Arrays\<close>

text \<open>Reading and writing a C array by an int index: None outside the bounds.\<close>

definition arr_get :: "'a list \<Rightarrow> int \<Rightarrow> 'a option" where
  "arr_get xs i = (if 0 \<le> i \<and> i < int (length xs) then Some (xs ! nat i) else None)"

definition arr_set :: "'a list \<Rightarrow> int \<Rightarrow> 'a \<Rightarrow> 'a list option" where
  "arr_set xs i v = (if 0 \<le> i \<and> i < int (length xs) then Some (xs[nat i := v]) else None)"

lemma arr_get_nat [simp, c_simps]:
  "arr_get xs (int i) = (if i < length xs then Some (xs ! i) else None)"
  by (simp add: arr_get_def)

lemma arr_set_nat [simp, c_simps]:
  "arr_set xs (int i) v = (if i < length xs then Some (xs[i := v]) else None)"
  by (simp add: arr_set_def)

lemma arr_get_Some: "arr_get xs i = Some v \<longleftrightarrow> 0 \<le> i \<and> i < int (length xs) \<and> v = xs ! nat i"
  by (auto simp: arr_get_def)

lemma arr_set_Some:
  "arr_set xs i v = Some ys \<longleftrightarrow> 0 \<le> i \<and> i < int (length xs) \<and> ys = xs[nat i := v]"
  by (auto simp: arr_set_def)

lemma arr_set_length [c_simps]: "arr_set xs i v = Some ys \<Longrightarrow> length ys = length xs"
  by (simp add: arr_set_Some)

section \<open>Lists\<close>

lemma take_Suc_update:
  assumes "i < length xs"
  shows "take (Suc i) (xs[i := v]) = take i xs @ [v]"
  using assms by (simp add: take_Suc_conv_app_nth)

lemma set_update_other:
  assumes "j < length xs" "x \<noteq> xs ! j" "x \<noteq> v"
  shows "x \<in> set (xs[j := v]) \<longleftrightarrow> x \<in> set xs"
proof -
  have "set xs = set (take j xs @ xs ! j # drop (Suc j) xs)"
    using id_take_nth_drop [OF assms(1)] by simp
  then show ?thesis using assms by (simp add: upd_conv_take_nth_drop)
qed

lemma map_filter_append:
  "List.map_filter f (xs @ ys) = List.map_filter f xs @ List.map_filter f ys"
  by (simp add: List.map_filter_def)

lemma sum_list_update_nat:
  fixes xs :: "nat list"
  assumes "i < length xs"
  shows "sum_list (xs[i := v]) + xs ! i = sum_list xs + v"
  using assms elem_le_sum_list [OF assms] by (simp add: sum_list_update)

section \<open>C integer arithmetic\<close>

text \<open>C99 division truncates towards zero.\<close>

lemma sdiv_nonneg [c_simps]: "0 \<le> a \<Longrightarrow> 0 \<le> b \<Longrightarrow> a sdiv b = a div (b::int)"
  by (simp add: signed_divide_int_def sgn_if split: if_splits)

lemma smod_nonneg [c_simps]: "0 \<le> a \<Longrightarrow> 0 \<le> b \<Longrightarrow> a smod b = a mod (b::int)"
  by (simp add: signed_modulo_int_def minus_div_mult_eq_mod sgn_if split: if_splits)

end
