(* ===== verification/DList.thy ===== *)
theory DList
  imports Prelude
begin

text \<open>
  Doubly linked lists in a heap.  numatop links its pages (page.c), the
  processes of a hash chain (proc.c) and the call-chain entries (sym.c)
  through next and prev pointers inside the nodes.  The predicate dseg says
  that the nodes of a list of addresses are linked in that order; the locale
  dnodes is the interface a node type offers (reading and writing its two
  links), and carries the lemmas about linking and unlinking once for all of
  them.
\<close>

section \<open>Segments\<close>

definition firstp :: "addr list \<Rightarrow> ptr \<Rightarrow> ptr" where
  "firstp xs q = (case xs of [] \<Rightarrow> q | a # _ \<Rightarrow> Some a)"

definition lastp :: "ptr \<Rightarrow> addr list \<Rightarrow> ptr" where
  "lastp p xs = (if xs = [] then p else Some (last xs))"

lemma firstp_simps [simp, c_simps]:
  "firstp [] q = q" "firstp (a # xs) q = Some a"
  by (simp_all add: firstp_def)

lemma lastp_simps [simp, c_simps]:
  "lastp p [] = p" "lastp p (a # xs) = lastp (Some a) xs" "lastp p (xs @ [a]) = Some a"
  by (simp_all add: lastp_def)

lemma firstp_append: "firstp (xs @ ys) q = firstp xs (firstp ys q)"
  by (cases xs) simp_all

lemma lastp_append: "lastp p (xs @ ys) = lastp (lastp p xs) ys"
  by (simp add: lastp_def)

lemma lastp_None_iff [simp]: "lastp None xs = None \<longleftrightarrow> xs = []"
  by (simp add: lastp_def)

lemma firstp_None_iff [simp]: "firstp xs None = None \<longleftrightarrow> xs = []"
  by (cases xs) simp_all

fun dseg :: "('n \<Rightarrow> ptr) \<Rightarrow> ('n \<Rightarrow> ptr) \<Rightarrow> 'n heap \<Rightarrow> ptr \<Rightarrow> addr list \<Rightarrow> ptr \<Rightarrow> bool" where
  "dseg nx pv h p [] q = True"
| "dseg nx pv h p (a # as) q =
     (case h a of None \<Rightarrow> False
      | Some n \<Rightarrow> pv n = p \<and> nx n = firstp as q \<and> dseg nx pv h (Some a) as q)"

lemma dseg_append:
  "dseg nx pv h p (xs @ ys) q =
     (dseg nx pv h p xs (firstp ys q) \<and> dseg nx pv h (lastp p xs) ys q)"
  by (induction xs arbitrary: p) (auto simp: firstp_append split: option.splits)

lemma dseg_dom: "dseg nx pv h p xs q \<Longrightarrow> set xs \<subseteq> dom h"
  by (induction xs arbitrary: p) (auto split: option.splits)

lemma dseg_cong:
  "(\<And>a. a \<in> set xs \<Longrightarrow> h' a = h a) \<Longrightarrow> dseg nx pv h' p xs q = dseg nx pv h p xs q"
  by (induction xs arbitrary: p) (auto split: option.splits)

lemma dseg_links:
  "(\<And>a. a \<in> set xs \<Longrightarrow>
      \<exists>n n'. h a = Some n \<and> h' a = Some n' \<and> nx n' = nx n \<and> pv n' = pv n) \<Longrightarrow>
   dseg nx pv h' p xs q = dseg nx pv h p xs q"
  by (induction xs arbitrary: p) (fastforce split: option.splits)+

lemma dseg_upd_notin [simp, c_frame]:
  "a \<notin> set xs \<Longrightarrow> dseg nx pv (h(a := v)) p xs q = dseg nx pv h p xs q"
  by (rule dseg_cong) auto

lemma dseg_node:
  assumes "dseg nx pv h p (xs @ a # ys) q"
  obtains n where "h a = Some n" "pv n = lastp p xs" "nx n = firstp ys q"
  using assms by (auto simp: dseg_append split: option.splits)

section \<open>The interface of a linked node\<close>

locale dnodes =
  fixes nx :: "'n \<Rightarrow> ptr" and pv :: "'n \<Rightarrow> ptr"
    and set_nx :: "ptr \<Rightarrow> 'n \<Rightarrow> 'n" and set_pv :: "ptr \<Rightarrow> 'n \<Rightarrow> 'n"
  assumes nx_set_nx [simp]: "nx (set_nx q n) = q"
    and pv_set_nx [simp]: "pv (set_nx q n) = pv n"
    and nx_set_pv [simp]: "nx (set_pv q n) = nx n"
    and pv_set_pv [simp]: "pv (set_pv q n) = q"
begin

text \<open>Redirecting the outgoing link of the last node, and the incoming one of the first.\<close>

lemma relink_last:
  assumes "dseg nx pv h p (xs @ [a]) q" "distinct (xs @ [a])" "h a = Some n"
  shows "dseg nx pv (h(a \<mapsto> set_nx r n)) p (xs @ [a]) r"
  using assms by (simp add: dseg_append)

lemma relink_first:
  assumes "dseg nx pv h p (a # xs) q" "distinct (a # xs)" "h a = Some n"
  shows "dseg nx pv (h(a \<mapsto> set_pv r n)) r (a # xs) q"
  using assms by simp

text \<open>Appending a node behind the tail.\<close>

lemma append_node:
  assumes "dseg nx pv h p (xs @ [a]) None" "distinct (xs @ [a])" "b \<notin> set (xs @ [a])"
    and "h a = Some n" "nx m = None" "pv m = Some a"
  shows "dseg nx pv (h(a \<mapsto> set_nx (Some b) n, b \<mapsto> m)) p (xs @ [a, b]) None"
proof -
  have "dseg nx pv (h(a \<mapsto> set_nx (Some b) n)) p (xs @ [a]) (Some b)"
    by (rule relink_last [OF assms(1,2,4)])
  then have "dseg nx pv (h(a \<mapsto> set_nx (Some b) n, b \<mapsto> m)) p (xs @ [a]) (Some b)"
    using assms(3) by (subst dseg_upd_notin) simp_all
  then show ?thesis
    using assms(5,6) dseg_append [of nx pv _ p "xs @ [a]" "[b]" None] by simp
qed

text \<open>Cutting the list behind a node.\<close>

lemma cut_after:
  assumes "dseg nx pv h p (xs @ a # ys) None" "distinct (xs @ a # ys)" "h a = Some n"
  shows "dseg nx pv (h(a \<mapsto> set_nx None n)) p (xs @ [a]) None"
proof -
  have "dseg nx pv h p (xs @ [a]) (firstp ys None)"
    using assms(1) by (auto simp: dseg_append split: option.splits)
  then show ?thesis using assms(2,3) by (intro relink_last) auto
qed

text \<open>Pushing a node in front of the head.\<close>

lemma push_nonempty:
  assumes "dseg nx pv h None (a # xs) q" "distinct (a # xs)" "b \<notin> set (a # xs)"
    and "h a = Some n" "pv m = None" "nx m = Some a"
  shows "dseg nx pv (h(a \<mapsto> set_pv (Some b) n, b \<mapsto> m)) None (b # a # xs) q"
  using assms by simp

text \<open>Unlinking a node in the middle: both neighbours are joined.\<close>

lemma unlink_middle:
  assumes seg: "dseg nx pv h p (xs @ [a] @ [b] @ [c] @ ys) q"
    and dist: "distinct (xs @ [a] @ [b] @ [c] @ ys)"
    and ha: "h a = Some na" and hc: "h c = Some nc"
  shows "dseg nx pv (h(a \<mapsto> set_nx (Some c) na, c \<mapsto> set_pv (Some a) nc)) p
           (xs @ [a] @ [c] @ ys) q"
  using assms by (auto simp: dseg_append firstp_append split: option.splits)

lemma unlink_first:
  assumes "dseg nx pv h None (b # c # ys) q" "distinct (b # c # ys)" "h c = Some nc"
  shows "dseg nx pv (h(c \<mapsto> set_pv None nc)) None (c # ys) q"
  using assms by (auto split: option.splits)

lemma unlink_last:
  assumes "dseg nx pv h p (xs @ [a, b]) q" "distinct (xs @ [a, b])" "h a = Some na"
  shows "dseg nx pv (h(a \<mapsto> set_nx q na)) p (xs @ [a]) q"
  using assms by (auto simp: dseg_append split: option.splits)

text \<open>Unlinking any node: its neighbours, if there are any, are joined.\<close>

lemma unlink:
  assumes seg: "dseg nx pv h p (xs @ b # ys) q" and dist: "distinct (xs @ b # ys)"
    and h1: "h1 = (if xs = [] then h else h(last xs \<mapsto> set_nx (firstp ys q) (the (h (last xs)))))"
    and h2: "h2 = (case ys of [] \<Rightarrow> h1 | c # _ \<Rightarrow> h1(c \<mapsto> set_pv (lastp p xs) (the (h1 c))))"
  shows "dseg nx pv h2 p (xs @ ys) q"
proof -
  have left: "dseg nx pv h1 p xs (firstp ys q)"
  proof (cases xs rule: rev_cases)
    case (snoc zs a)
    then show ?thesis
      using seg dist unfolding h1 by (auto simp: dseg_append firstp_append split: option.splits)
  qed simp
  have right: "dseg nx pv h1 (Some b) ys q"
  proof -
    have "dseg nx pv h (Some b) ys q" using seg by (auto simp: dseg_append split: option.splits)
    moreover have "xs \<noteq> [] \<Longrightarrow> last xs \<notin> set ys" using dist last_in_set [of xs] by (meson disjoint_iff distinct_append set_subset_Cons subsetD)
    ultimately show ?thesis by (simp add: h1)
  qed
  show ?thesis
  proof (cases ys)
    case Nil
    then show ?thesis using left by (simp add: h2)
  next
    case (Cons c zs)
    then have "c \<notin> set xs" using dist by auto
    then show ?thesis
      using left right dist unfolding h2 Cons by (auto simp: dseg_append split: option.splits)
  qed
qed

end

end
