(* ===== verification/Types.thy ===== *)
theory Types
  imports Prelude
begin

text \<open>
  The enumerations and command structures the components share: window types
  (include/win.h), command identifiers and the command union (include/cmd.h),
  counter identifiers and sort keys (include/types.h, x86/include/types.h).
  C enumerators become datatype constructors.
\<close>

datatype win_type =
    WIN_TYPE_RAW_NUM | WIN_TYPE_TOPNPROC | WIN_TYPE_TOPNLWP | WIN_TYPE_MONILWP
  | WIN_TYPE_MONIPROC | WIN_TYPE_LAT_PROC | WIN_TYPE_LAT_LWP | WIN_TYPE_LATNODE_PROC
  | WIN_TYPE_LATNODE_LWP | WIN_TYPE_NODE_OVERVIEW | WIN_TYPE_NODE_DETAIL
  | WIN_TYPE_CALLCHAIN | WIN_TYPE_LLCALLCHAIN | WIN_TYPE_ACCDST_PROC | WIN_TYPE_ACCDST_LWP
  | WIN_TYPE_PQOS_CMT_TOPNPROC | WIN_TYPE_PQOS_CMT_MONIPROC | WIN_TYPE_PQOS_CMT_MONILWP
  | WIN_TYPE_PQOS_MBM_MONIPROC | WIN_TYPE_PQOS_MBM_MONILWP

datatype cmd_id =
    CMD_INVALID_ID | CMD_HOME_ID | CMD_IR_NORMALIZE_ID | CMD_MONITOR_ID | CMD_LWP_ID
  | CMD_LAT_ID | CMD_LATNODE_ID | CMD_NODE_OVERVIEW_ID | CMD_NODE_DETAIL_ID
  | CMD_CALLCHAIN_ID | CMD_LLCALLCHAIN_ID | CMD_ACCDST_ID | CMD_MAP_GET_ID
  | CMD_MAP_STOP_ID | CMD_1_ID | CMD_2_ID | CMD_3_ID | CMD_4_ID | CMD_5_ID
  | CMD_REFRESH_ID | CMD_QUIT_ID | CMD_BACK_ID | CMD_RESIZE_ID | CMD_PQOS_CMT_ID
  | CMD_PQOS_MBM_ID

text \<open>
  The union cmd_t.  Its members share the identifier and, where they have one,
  the pid (the node number nid of cmd_node_detail_t is the word at the offset
  of pid), so that one record with the union of the remaining fields models it.
\<close>

record cmd =
  c_id :: cmd_id
  c_pid :: int
  c_lwpid :: int
  c_addr :: nat
  c_size :: nat
  c_flags :: int

definition cmd_zero :: cmd where
  "cmd_zero = \<lparr>c_id = CMD_INVALID_ID, c_pid = 0, c_lwpid = 0, c_addr = 0, c_size = 0, c_flags = 0\<rparr>"

datatype ui_count_id =
    UI_COUNT_INVALID | UI_COUNT_CORE_CLK | UI_COUNT_RMA | UI_COUNT_CLK | UI_COUNT_IR
  | UI_COUNT_LMA

text \<open>Counters of a processor; the x86 enumeration has five of them.\<close>

datatype perf_count_id =
    PERF_COUNT_INVALID | PERF_COUNT_CORE_CLK | PERF_COUNT_RMA | PERF_COUNT_CLK
  | PERF_COUNT_IR | PERF_COUNT_LMA

datatype sort_key =
    SORT_KEY_INVALID | SORT_KEY_CPU | SORT_KEY_PID | SORT_KEY_RPI | SORT_KEY_LPI
  | SORT_KEY_CPI | SORT_KEY_RMA | SORT_KEY_LMA | SORT_KEY_RL

section \<open>Counters of the user interface\<close>

text \<open>
  The x86 table: number and list of the processor counters of a UI counter.
  The lookup answers None for the invalid UI counter.
\<close>

definition ui_perf_count_map :: "ui_count_id \<Rightarrow> (int \<times> perf_count_id list) option" where
  "ui_perf_count_map u =
     (case u of
        UI_COUNT_INVALID \<Rightarrow> None
      | UI_COUNT_CORE_CLK \<Rightarrow> Some (0, [PERF_COUNT_INVALID, PERF_COUNT_INVALID])
      | UI_COUNT_RMA \<Rightarrow> Some (1, [PERF_COUNT_RMA, PERF_COUNT_INVALID])
      | UI_COUNT_CLK \<Rightarrow> Some (1, [PERF_COUNT_CLK, PERF_COUNT_INVALID])
      | UI_COUNT_IR \<Rightarrow> Some (1, [PERF_COUNT_IR, PERF_COUNT_INVALID])
      | UI_COUNT_LMA \<Rightarrow> Some (1, [PERF_COUNT_LMA, PERF_COUNT_INVALID]))"

definition get_ui_perf_count_map :: "ui_count_id \<Rightarrow> int \<times> perf_count_id list" where
  "get_ui_perf_count_map u =
     (case ui_perf_count_map u of None \<Rightarrow> (-1, []) | Some nm \<Rightarrow> nm)"

definition ui_perf_count_aggr :: "ui_count_id \<Rightarrow> (perf_count_id \<Rightarrow> u64) \<Rightarrow> u64" where
  "ui_perf_count_aggr u counts =
     (case get_ui_perf_count_map u of (n, is) \<Rightarrow> sum_list (map counts (take (nat n) is)))"

end
