(* ===== verification/Clib.thy ===== *)
theory Clib
  imports Prelude
begin

text \<open>
  The two functions of the C library the program's tables rest on.  bsearch is
  the halving loop over the array; its comparison function may dereference
  memory and therefore returns an option.  qsort is any function that permutes
  the array into comparison order: the locale sorts states that contract and is
  interpreted on an insertion sort, which the model uses; nothing beyond the
  contract is used of it.
\<close>

section \<open>Binary search\<close>

function bsearch_loop :: "('a \<Rightarrow> int option) \<Rightarrow> 'a list \<Rightarrow> nat \<Rightarrow> nat \<Rightarrow> nat option option" where
  "bsearch_loop cmp xs l u =
     (if l < u then
        let idx = (l + u) div 2 in
        do {
          r \<leftarrow> cmp (xs ! idx);
          if r < 0 then bsearch_loop cmp xs l idx
          else if r > 0 then bsearch_loop cmp xs (idx + 1) u
          else Some (Some idx)
        }
      else Some None)"
  by pat_completeness auto

termination by (relation "measure (\<lambda>(_, _, l, u). u - l)") auto

declare bsearch_loop.simps [simp del]

definition bsearch :: "('a \<Rightarrow> int option) \<Rightarrow> 'a list \<Rightarrow> nat option option" where
  "bsearch cmp xs = bsearch_loop cmp xs 0 (length xs)"

text \<open>
  The contract: when the comparison, from the left of the array to the right,
  first says "behind", then "here", then "before", the search answers an element
  for which it says "here" if there is one.
\<close>

lemma bsearch_loop_mono:
  assumes "u \<le> length xs"
    and "\<And>i. i < length xs \<Longrightarrow> cmp (xs ! i) = Some (c i)"
    and "\<And>i j. i \<le> j \<Longrightarrow> j < length xs \<Longrightarrow> (c i < 0 \<longrightarrow> c j < 0) \<and> (c j > 0 \<longrightarrow> c i > 0)"
    and "\<And>i. i < length xs \<Longrightarrow> c i = 0 \<Longrightarrow> l \<le> i \<and> i < u"
  shows "\<exists>r. bsearch_loop cmp xs l u = Some r \<and>
     (case r of None \<Rightarrow> \<forall>i<length xs. c i \<noteq> 0 | Some i \<Rightarrow> i < length xs \<and> c i = (0::int))"
  using assms
proof (induction cmp xs l u rule: bsearch_loop.induct)
  case (1 cmp xs l u)
  show ?case
  proof (cases "l < u")
    case False
    then show ?thesis
      using "1.prems"(4) by (fastforce simp: bsearch_loop.simps)
  next
    case True
    define idx where "idx = (l + u) div 2"
    have idx: "l \<le> idx" "idx < u" "idx < length xs" using True "1.prems"(1) by (auto simp: idx_def)
    consider "c idx < 0" | "c idx > 0" | "c idx = 0" by linarith
    then show ?thesis
    proof cases
      case 1
      then have "l \<le> i \<and> i < idx" if "i < length xs" "c i = 0" for i
        using "1.prems"(4) [of i] "1.prems"(3) [of idx i] that by force
      then show ?thesis
        using "1.IH"(1) [OF True idx_def] "1.prems" idx 1
        by (subst bsearch_loop.simps) (simp add: True Let_def flip: idx_def)
    next
      case 2
      then have "idx + 1 \<le> i \<and> i < u" if "i < length xs" "c i = 0" for i
        using "1.prems"(4) [of i] "1.prems"(3) [of i idx] that idx by force
      then show ?thesis
        using "1.IH"(2) [OF True idx_def] "1.prems" idx 2
        by (subst bsearch_loop.simps) (simp add: True Let_def flip: idx_def)
    next
      case 3
      then show ?thesis
        using "1.prems"(2) [OF idx(3)] idx
        by (subst bsearch_loop.simps) (simp add: True Let_def flip: idx_def)
    qed
  qed
qed

lemma bsearch_mono:
  assumes "\<And>i. i < length xs \<Longrightarrow> cmp (xs ! i) = Some (c i)"
    and "\<And>i j. i \<le> j \<Longrightarrow> j < length xs \<Longrightarrow> (c i < 0 \<longrightarrow> c j < 0) \<and> (c j > 0 \<longrightarrow> c i > 0)"
  obtains (found) i where "bsearch cmp xs = Some (Some i)" "i < length xs" "c i = (0::int)"
    | (absent) "bsearch cmp xs = Some None" "\<forall>i<length xs. c i \<noteq> 0"
proof -
  obtain r where "bsearch_loop cmp xs 0 (length xs) = Some r"
    "case r of None \<Rightarrow> \<forall>i<length xs. c i \<noteq> 0 | Some i \<Rightarrow> i < length xs \<and> c i = 0"
    using bsearch_loop_mono [of "length xs" xs cmp c 0] assms by auto
  then show ?thesis using found absent by (cases r) (simp_all add: bsearch_def)
qed

text \<open>On an array sorted by f, with a comparison that tells the sign of k - f x.\<close>

lemma bsearch_correct:
  assumes "sorted (map f xs)"
    and "\<And>x. x \<in> set xs \<Longrightarrow> cmp x = Some (sgn (k - f x))"
  obtains (found) i where "bsearch cmp xs = Some (Some i)" "i < length xs" "f (xs ! i) = (k::int)"
    | (absent) "bsearch cmp xs = Some None" "k \<notin> f ` set xs"
proof (rule bsearch_mono [of xs cmp "\<lambda>i. sgn (k - f (xs ! i))"])
  show "cmp (xs ! i) = Some (sgn (k - f (xs ! i)))" if "i < length xs" for i using assms(2) that by simp
  show "(sgn (k - f (xs ! i)) < 0 \<longrightarrow> sgn (k - f (xs ! j)) < 0) \<and>
      (sgn (k - f (xs ! j)) > 0 \<longrightarrow> sgn (k - f (xs ! i)) > 0)" if "i \<le> j" "j < length xs" for i j
    using sorted_nth_mono [OF assms(1), of i j] that by (simp add: sgn_less sgn_greater)
next
  fix i assume "bsearch cmp xs = Some (Some i)" "i < length xs" "sgn (k - f (xs ! i)) = 0"
  then show thesis using found [of i] by (simp add: sgn_0_0)
next
  assume "bsearch cmp xs = Some None" "\<forall>i<length xs. sgn (k - f (xs ! i)) \<noteq> 0"
  moreover from this have "k \<notin> f ` set xs" by (auto simp: in_set_conv_nth sgn_0_0)
  ultimately show thesis using absent by blast
qed

section \<open>Sorting\<close>

text \<open>What the C standard says of qsort for a comparison that is a total preorder.\<close>

definition cmp_preorder :: "('a \<Rightarrow> 'a \<Rightarrow> int) \<Rightarrow> bool" where
  "cmp_preorder cmp \<longleftrightarrow>
     (\<forall>x y. cmp x y \<le> 0 \<or> cmp y x \<le> 0) \<and> (\<forall>x y z. cmp x y \<le> 0 \<longrightarrow> cmp y z \<le> 0 \<longrightarrow> cmp x z \<le> 0)"

locale sorts =
  fixes qs :: "('a \<Rightarrow> 'a \<Rightarrow> int) \<Rightarrow> 'a list \<Rightarrow> 'a list"
  assumes perm: "mset (qs cmp xs) = mset xs"
    and ordered: "cmp_preorder cmp \<Longrightarrow> sorted_wrt (\<lambda>x y. cmp x y \<le> 0) (qs cmp xs)"
begin

lemma set_eq: "set (qs cmp xs) = set xs"
  using perm by (metis set_mset_mset)

lemma length_eq: "length (qs cmp xs) = length xs"
  using perm by (metis size_mset)

lemma distinct_eq: "distinct (qs cmp xs) = distinct xs"
  using perm by (metis mset_eq_imp_distinct_iff)

text \<open>A comparison by an integer key, ascending or descending.\<close>

lemma by_key:
  fixes f :: "'a \<Rightarrow> int"
  assumes "\<And>x y. cmp x y \<le> 0 \<longleftrightarrow> f x \<le> f y"
  shows "sorted (map f (qs cmp xs))"
proof -
  have "cmp_preorder cmp" unfolding cmp_preorder_def using assms by force
  then show ?thesis using ordered [of cmp xs] assms by (simp add: sorted_wrt_map)
qed

lemma by_key_strict:
  fixes f :: "'a \<Rightarrow> int"
  assumes "\<And>x y. cmp x y \<le> 0 \<longleftrightarrow> f x \<le> f y" "distinct (map f xs)"
  shows "sorted_wrt (<) (map f (qs cmp xs))"
proof -
  have "mset (map f (qs cmp xs)) = mset (map f xs)" using perm by simp
  then have "distinct (map f (qs cmp xs))" using assms(2) mset_eq_imp_distinct_iff by blast
  then show ?thesis using by_key [OF assms(1)] by (simp add: strict_sorted_iff)
qed

end

fun qs_insert :: "('a \<Rightarrow> 'a \<Rightarrow> int) \<Rightarrow> 'a \<Rightarrow> 'a list \<Rightarrow> 'a list" where
  "qs_insert cmp x [] = [x]"
| "qs_insert cmp x (y # ys) = (if cmp x y \<le> 0 then x # y # ys else y # qs_insert cmp x ys)"

definition qsort :: "('a \<Rightarrow> 'a \<Rightarrow> int) \<Rightarrow> 'a list \<Rightarrow> 'a list" where
  "qsort cmp xs = foldr (qs_insert cmp) xs []"

lemma mset_qs_insert [simp]: "mset (qs_insert cmp x ys) = add_mset x (mset ys)"
  by (induction ys) simp_all

lemma set_qs_insert [simp]: "set (qs_insert cmp x ys) = insert x (set ys)"
  by (induction ys) auto

lemma sorted_qs_insert:
  assumes "cmp_preorder cmp" "sorted_wrt (\<lambda>x y. cmp x y \<le> 0) ys"
  shows "sorted_wrt (\<lambda>x y. cmp x y \<le> 0) (qs_insert cmp x ys)"
  using assms(2)
proof (induction ys)
  case (Cons y ys)
  have total: "cmp x y \<le> 0 \<or> cmp y x \<le> 0" and trans: "\<And>z. cmp x y \<le> 0 \<Longrightarrow> cmp y z \<le> 0 \<Longrightarrow> cmp x z \<le> 0"
    using assms(1) unfolding cmp_preorder_def by blast+
  show ?case using Cons total trans by auto
qed simp

interpretation qs: sorts qsort
proof
  show "mset (qsort cmp xs) = mset xs" for cmp :: "'a \<Rightarrow> 'a \<Rightarrow> int" and xs
    by (induction xs) (simp_all add: qsort_def)
  show "sorted_wrt (\<lambda>x y. cmp x y \<le> 0) (qsort cmp xs)" if "cmp_preorder cmp"
    for cmp :: "'a \<Rightarrow> 'a \<Rightarrow> int" and xs
    by (induction xs) (simp_all add: qsort_def sorted_qs_insert [OF that])
qed

text \<open>The comparison functions of the program on ints.\<close>

definition int_cmp :: "int \<Rightarrow> int \<Rightarrow> int" where
  "int_cmp a b = (if a > b then 1 else if a < b then -1 else 0)"

lemma int_cmp_sgn: "int_cmp a b = sgn (a - b)"
  by (simp add: int_cmp_def)

lemma int_cmp_le: "int_cmp a b \<le> 0 \<longleftrightarrow> a \<le> b"
  by (simp add: int_cmp_def)

end
