(* ===== verification/Sysfs.thy ===== *)
theory Sysfs
  imports Prelude "HOL-Library.Char_ord"
begin

text \<open>
  The text the kernel exports about nodes and processors (common/os/os_util.c):
  the C library scanners the program uses, the list format of
  /sys/devices/system/node/online and cpulist ("0-3,8,10-11"), the sizes of a
  meminfo file and the type files of the uncore units.

  The contents of the files are arguments (None: the file cannot be opened).
  A result None of the scanners is undefined behaviour: an array written
  outside its bounds, a string read past its end.
\<close>

section \<open>The C library on strings\<close>

definition c_isdigit :: "char \<Rightarrow> bool" where
  "c_isdigit c \<longleftrightarrow> CHR ''0'' \<le> c \<and> c \<le> CHR ''9''"

definition c_isspace :: "char \<Rightarrow> bool" where
  "c_isspace c \<longleftrightarrow> c = CHR '' '' \<or> (CHR 0x09 \<le> c \<and> c \<le> CHR 0x0D)"

definition digit_val :: "char \<Rightarrow> int" where
  "digit_val c = int (of_char c) - 48"

definition digits_val :: "string \<Rightarrow> int" where
  "digits_val ds = foldl (\<lambda>v c. 10 * v + digit_val c) 0 ds"

text \<open>
  strtol and strtoll in base 10 on a 64-bit system: the value, clamped to the
  range of long, whether errno is ERANGE, and the rest of the string; the rest
  is the whole string when there is nothing to convert.
\<close>

definition LONG_MAX :: int where "LONG_MAX = 2 ^ 63 - 1"
definition LONG_MIN :: int where "LONG_MIN = - (2 ^ 63)"

definition strtol :: "string \<Rightarrow> int \<times> bool \<times> string" where
  "strtol s =
     (let s1 = dropWhile c_isspace s;
          neg = (s1 \<noteq> [] \<and> hd s1 = CHR ''-'');
          s2 = (if s1 \<noteq> [] \<and> (hd s1 = CHR ''-'' \<or> hd s1 = CHR ''+'') then tl s1 else s1);
          ds = takeWhile c_isdigit s2;
          v = (if neg then - digits_val ds else digits_val ds)
      in if ds = [] then (0, False, s)
         else if v > LONG_MAX then (LONG_MAX, True, dropWhile c_isdigit s2)
         else if v < LONG_MIN then (LONG_MIN, True, dropWhile c_isdigit s2)
         else (v, False, dropWhile c_isdigit s2))"

text \<open>The range of int, and the conversion of a long to it.\<close>

definition int32_ok :: "int \<Rightarrow> bool" where
  "int32_ok v \<longleftrightarrow> - (2 ^ 31) \<le> v \<and> v < 2 ^ 31"

definition to_int32 :: "int \<Rightarrow> int" where
  "to_int32 v = (v + 2 ^ 31) mod 2 ^ 32 - 2 ^ 31"

text \<open>fgets: a line of at most size - 1 characters, with its newline.\<close>

definition fgets :: "nat \<Rightarrow> string \<Rightarrow> string" where
  "fgets sz s =
     (let l = takeWhile (\<lambda>c. c \<noteq> CHR 0x0A) s;
          r = (if length l < length s then l @ [CHR 0x0A] else l)
      in take (sz - 1) r)"

definition cstr :: "string \<Rightarrow> string" where
  "cstr s = takeWhile (\<lambda>c. c \<noteq> CHR 0x00) s"

fun strstr :: "string \<Rightarrow> string \<Rightarrow> bool" where
  "strstr [] pat = (pat = [])"
| "strstr (c # s) pat = (take (length pat) (c # s) = pat \<or> strstr s pat)"

section \<open>Lists of small integers\<close>

definition LINE_SIZE :: nat where "LINE_SIZE = 512"
definition DIGIT_LEN_MAX :: nat where "DIGIT_LEN_MAX = 512"

definition int_get :: "string \<Rightarrow> int option" where
  "int_get str =
     (case strtol str of (val, erange, end) \<Rightarrow>
        if erange \<and> (val = LONG_MAX \<or> val = LONG_MIN) then None
        else if end = str then None
        else Some (to_int32 val))"

text \<open>
  sscanf(str, "%511[^-]", tmp) and sscanf(str, "%*[^-]-%511s", tmp): the
  number before the first hyphen and the word after it.
\<close>

definition scan_before_hyphen :: "string \<Rightarrow> string option" where
  "scan_before_hyphen str =
     (let t = takeWhile (\<lambda>c. c \<noteq> CHR ''-'') str
      in if t = [] then None else Some (take 511 t))"

definition scan_after_hyphen :: "string \<Rightarrow> string option" where
  "scan_after_hyphen str =
     (let t = takeWhile (\<lambda>c. c \<noteq> CHR ''-'') str; r = dropWhile (\<lambda>c. c \<noteq> CHR ''-'') str
      in if t = [] \<or> r = [] then None
         else let w = takeWhile (\<lambda>c. \<not> c_isspace c) (dropWhile c_isspace (tl r))
              in if w = [] then None else Some (take 511 w))"

definition hyphen_int_extract :: "string \<Rightarrow> (int \<times> int) option" where
  "hyphen_int_extract str =
     (if length str \<ge> DIGIT_LEN_MAX then None
      else do {
        t1 \<leftarrow> scan_before_hyphen str;
        start \<leftarrow> int_get t1;
        t2 \<leftarrow> scan_after_hyphen str;
        fin \<leftarrow> int_get t2;
        Some (start, fin)
      })"

text \<open>
  arrary_add writes num consecutive values from value on, at index; the outer
  option is undefined behaviour (a negative index, index + num beyond the
  range of int), the inner one the result B_FALSE.
\<close>

fun arr_fill :: "int list \<Rightarrow> int \<Rightarrow> int \<Rightarrow> nat \<Rightarrow> int list option" where
  "arr_fill arr index value 0 = Some arr"
| "arr_fill arr index value (Suc n) =
     do { arr1 \<leftarrow> arr_set arr index value; arr_fill arr1 (index + 1) (value + 1) n }"

definition arrary_add :: "int list \<Rightarrow> int \<Rightarrow> int \<Rightarrow> int \<Rightarrow> int list option option" where
  "arrary_add arr index value num =
     (if index \<ge> int (length arr) then Some None
      else if \<not> int32_ok (index + num) then None
      else if index + num > int (length arr) then Some None
      else do { arr1 \<leftarrow> arr_fill arr index value (nat num); Some (Some arr1) })"

text \<open>
  The number of values of a range is computed in ints: it overflows, which is
  undefined, when it does not fit in 32 bits.
\<close>

definition range_num :: "int \<Rightarrow> int \<Rightarrow> int option" where
  "range_num start fin =
     (if int32_ok (fin - start) \<and> int32_ok (fin - start + 1) then Some (fin - start + 1) else None)"

text \<open>
  str_int_extract walks the comma-separated segments; a segment that is not a
  number or a range is skipped.  The result is the array and, for B_TRUE, the
  number of values.
\<close>

definition seg_extract :: "string \<Rightarrow> int list \<Rightarrow> int \<Rightarrow> (int list \<times> int option) option" where
  "seg_extract cur arr tot =
     (if CHR ''-'' \<in> set cur then
        (case hyphen_int_extract cur of
           None \<Rightarrow> Some (arr, Some tot)
         | Some (start, fin) \<Rightarrow>
             do {
               num \<leftarrow> range_num start fin;
               a \<leftarrow> arrary_add arr tot start num;
               (case a of None \<Rightarrow> Some (arr, None) | Some arr1 \<Rightarrow> Some (arr1, Some (tot + num)))
             })
      else
        (case int_get cur of
           None \<Rightarrow> Some (arr, Some tot)
         | Some start \<Rightarrow>
             do {
               a \<leftarrow> arrary_add arr tot start 1;
               (case a of None \<Rightarrow> Some (arr, None) | Some arr1 \<Rightarrow> Some (arr1, Some (tot + 1)))
             }))"

definition seg_rest :: "string \<Rightarrow> string" where
  "seg_rest cur = tl (dropWhile (\<lambda>c. c \<noteq> CHR '','') cur)"

lemma length_seg_rest: "cur \<noteq> [] \<Longrightarrow> length (seg_rest cur) < length cur"
proof -
  assume "cur \<noteq> []"
  then have "0 < length cur" by simp
  then show ?thesis
    using length_dropWhile_le [of "\<lambda>c. c \<noteq> CHR '',''" cur]
    unfolding seg_rest_def length_tl by linarith
qed

function str_int_loop :: "string \<Rightarrow> int list \<Rightarrow> int \<Rightarrow> (int list \<times> int option) option" where
  "str_int_loop cur arr tot =
     (if cur = [] then Some (arr, Some tot)
      else
        (case seg_extract (takeWhile (\<lambda>c. c \<noteq> CHR '','') cur) arr tot of
           None \<Rightarrow> None
         | Some (arr1, None) \<Rightarrow> Some (arr1, None)
         | Some (arr1, Some tot1) \<Rightarrow> str_int_loop (seg_rest cur) arr1 tot1))"
  by pat_completeness auto

termination
  by (relation "measure (\<lambda>(cur, _, _). length cur)") (simp_all add: length_seg_rest)

declare str_int_loop.simps [simp del]

definition str_int_extract :: "bool \<Rightarrow> string \<Rightarrow> int list \<Rightarrow> (int list \<times> int option) option" where
  "str_int_extract dup_ok str arr =
     (if \<not> dup_ok then Some (arr, None) else str_int_loop str arr 0)"

definition file_int_extract ::
  "bool \<Rightarrow> string option \<Rightarrow> int list \<Rightarrow> (int list \<times> int option) option" where
  "file_int_extract dup_ok file arr =
     (case file of
        None \<Rightarrow> Some (arr, None)
      | Some s \<Rightarrow> if s = [] then Some (arr, None)
                  else str_int_extract dup_ok (cstr (fgets LINE_SIZE s)) arr)"

section \<open>The files of nodes and processors\<close>

text \<open>
  The contents of the files the functions read: the list of online nodes, the
  processors of a node, the online processors, the lines of a node's meminfo,
  and the type files of the uncore units; and whether strdup finds memory.
\<close>

record sysfs =
  sf_node_online :: "string option"
  sf_node_cpulist :: "int \<Rightarrow> string option"
  sf_cpu_online :: "string option"
  sf_meminfo :: "int \<Rightarrow> string list option"
  sf_uncore_qpi :: "nat \<Rightarrow> string option"
  sf_uncore_upi :: "nat \<Rightarrow> string option"
  sf_uncore_imc :: "nat \<Rightarrow> string option"
  sf_dup_ok :: bool

definition os_sysfs_node_enum :: "sysfs \<Rightarrow> int list \<Rightarrow> (int list \<times> int option) option" where
  "os_sysfs_node_enum fs node_arr = file_int_extract (sf_dup_ok fs) (sf_node_online fs) node_arr"

definition os_sysfs_cpu_enum :: "sysfs \<Rightarrow> int \<Rightarrow> int list \<Rightarrow> (int list \<times> int option) option" where
  "os_sysfs_cpu_enum fs nid cpu_arr = file_int_extract (sf_dup_ok fs) (sf_node_cpulist fs nid) cpu_arr"

definition os_sysfs_online_ncpus :: "sysfs \<Rightarrow> nat \<Rightarrow> int option" where
  "os_sysfs_online_ncpus fs ncpus_max =
     do {
       (_, num) \<leftarrow> file_int_extract (sf_dup_ok fs) (sf_cpu_online fs) (replicate ncpus_max 0);
       Some (case num of None \<Rightarrow> -1 | Some n \<Rightarrow> n)
     }"

section \<open>Memory sizes of a node\<close>

record node_meminfo =
  mi_mem_total :: u64
  mi_mem_free :: u64
  mi_active :: u64
  mi_inactive :: u64
  mi_dirty :: u64
  mi_writeback :: u64
  mi_mapped :: u64

definition meminfo_zero :: node_meminfo where
  "meminfo_zero = \<lparr>mi_mem_total = 0, mi_mem_free = 0, mi_active = 0, mi_inactive = 0,
     mi_dirty = 0, mi_writeback = 0, mi_mapped = 0\<rparr>"

text \<open>
  memsize_parse: the digits behind the first colon, in kilobytes; the product
  is computed in long long, where an overflow is undefined (outer None).
\<close>

definition KB_BYTES :: int where "KB_BYTES = 1024"

definition memsize_parse :: "string \<Rightarrow> u64 option option" where
  "memsize_parse str =
     (case dropWhile (\<lambda>c. c \<noteq> CHR '':'') str of
        [] \<Rightarrow> Some None
      | _ # p \<Rightarrow>
          let skipped = takeWhile (\<lambda>c. \<not> c_isdigit c) p;
              ds = takeWhile c_isdigit (dropWhile (\<lambda>c. \<not> c_isdigit c) p);
              v = fst (strtol (take 511 ds)) * KB_BYTES
          in if skipped = [] \<or> ds = [] then Some None
             else if v \<le> LONG_MAX then Some (Some (word_of_int v)) else None)"

text \<open>The field a line is about, by the first of the labels it contains.\<close>

definition meminfo_field :: "string \<Rightarrow> (u64 \<Rightarrow> node_meminfo \<Rightarrow> node_meminfo) option" where
  "meminfo_field line =
     (if strstr line ''MemTotal:'' then Some (\<lambda>v i. i\<lparr>mi_mem_total := v\<rparr>)
      else if strstr line ''MemFree:'' then Some (\<lambda>v i. i\<lparr>mi_mem_free := v\<rparr>)
      else if strstr line ''Active:'' then Some (\<lambda>v i. i\<lparr>mi_active := v\<rparr>)
      else if strstr line ''Inactive:'' then Some (\<lambda>v i. i\<lparr>mi_inactive := v\<rparr>)
      else if strstr line ''Dirty:'' then Some (\<lambda>v i. i\<lparr>mi_dirty := v\<rparr>)
      else if strstr line ''Writeback:'' then Some (\<lambda>v i. i\<lparr>mi_writeback := v\<rparr>)
      else if strstr line ''Mapped:'' then Some (\<lambda>v i. i\<lparr>mi_mapped := v\<rparr>)
      else None)"

definition MEMINFO_NUM :: nat where "MEMINFO_NUM = 7"

fun meminfo_loop :: "string list \<Rightarrow> nat \<Rightarrow> node_meminfo \<Rightarrow> (node_meminfo \<times> bool) option" where
  "meminfo_loop [] i info = Some (info, True)"
| "meminfo_loop (line # lines) i info =
     (if i \<ge> MEMINFO_NUM then Some (info, True)
      else case meminfo_field line of
        None \<Rightarrow> meminfo_loop lines i info
      | Some upd \<Rightarrow>
          (case memsize_parse line of
             None \<Rightarrow> None
           | Some None \<Rightarrow> Some (info, False)
           | Some (Some v) \<Rightarrow> meminfo_loop lines (i + 1) (upd v info)))"

definition os_sysfs_meminfo :: "sysfs \<Rightarrow> int \<Rightarrow> (node_meminfo \<times> bool) option" where
  "os_sysfs_meminfo fs nid =
     (case sf_meminfo fs nid of
        None \<Rightarrow> Some (meminfo_zero, False)
      | Some ls \<Rightarrow> meminfo_loop ls 0 meminfo_zero)"

section \<open>Uncore units\<close>

text \<open>
  atoi on the 32 bytes read from a file.  The buffer is not terminated: the
  value is only defined (Some) when the scan stops inside of what was read.
\<close>

definition atoi_buf :: "string \<Rightarrow> int option" where
  "atoi_buf content =
     (let buf = take 32 content;
          s1 = dropWhile c_isspace buf;
          s2 = (if s1 \<noteq> [] \<and> (hd s1 = CHR ''-'' \<or> hd s1 = CHR ''+'') then tl s1 else s1)
      in if dropWhile c_isdigit s2 = [] then None else Some (to_int32 (fst (strtol buf))))"

record qpi_info =
  qi_id :: int
  qi_type :: int
  qi_fd :: int
  qi_config :: int
  qi_values :: "u64 list"
  qi_value_scaled :: u64

record imc_info =
  ii_id :: int
  ii_type :: int
  ii_fd :: int
  ii_values :: "u64 list"
  ii_value_scaled :: u64

text \<open>The loop of the three functions: it stops at the first unit without a type file.\<close>

function uncore_loop ::
  "(nat \<Rightarrow> string option) \<Rightarrow> (nat \<Rightarrow> int \<Rightarrow> 'u) \<Rightarrow> nat \<Rightarrow> nat \<Rightarrow> 'u list \<Rightarrow> ('u list \<times> nat) option" where
  "uncore_loop typ mk num i us =
     (if i < num then
        (case typ i of
           None \<Rightarrow> Some (us, i)
         | Some content \<Rightarrow>
             (case atoi_buf content of
                None \<Rightarrow> None
              | Some t \<Rightarrow>
                  (case arr_set us (int i) (mk i t) of
                     None \<Rightarrow> None
                   | Some us1 \<Rightarrow> uncore_loop typ mk num (i + 1) us1)))
      else Some (us, i))"
  by pat_completeness auto

termination by (relation "measure (\<lambda>(_, _, num, i, _). num - i)") auto

declare uncore_loop.simps [simp del]

definition INVALID_FD :: int where "INVALID_FD = -1"

definition os_sysfs_uncore_qpi_init :: "sysfs \<Rightarrow> nat \<Rightarrow> qpi_info list \<Rightarrow> (qpi_info list \<times> nat) option" where
  "os_sysfs_uncore_qpi_init fs num qpi =
     uncore_loop (sf_uncore_qpi fs)
       (\<lambda>i t. \<lparr>qi_id = int i, qi_type = t, qi_fd = INVALID_FD, qi_config = 0x600,
               qi_values = [0, 0, 0], qi_value_scaled = 0\<rparr>) num 0 qpi"

definition os_sysfs_uncore_upi_init :: "sysfs \<Rightarrow> nat \<Rightarrow> qpi_info list \<Rightarrow> (qpi_info list \<times> nat) option" where
  "os_sysfs_uncore_upi_init fs num qpi =
     uncore_loop (sf_uncore_upi fs)
       (\<lambda>i t. \<lparr>qi_id = int i, qi_type = t, qi_fd = INVALID_FD, qi_config = 0x0f02,
               qi_values = [0, 0, 0], qi_value_scaled = 0\<rparr>) num 0 qpi"

definition os_sysfs_uncore_imc_init :: "sysfs \<Rightarrow> nat \<Rightarrow> imc_info list \<Rightarrow> (imc_info list \<times> nat) option" where
  "os_sysfs_uncore_imc_init fs num imc =
     uncore_loop (sf_uncore_imc fs)
       (\<lambda>i t. \<lparr>ii_id = int i, ii_type = t, ii_fd = INVALID_FD,
               ii_values = [0, 0, 0], ii_value_scaled = 0\<rparr>) num 0 imc"

section \<open>The kernel's list format is read back\<close>

text \<open>How the kernel prints a set of numbers: ranges in decimal, separated by commas.\<close>

fun show_nat :: "nat \<Rightarrow> string" where
  "show_nat n = (if n < 10 then [char_of (48 + n)] else show_nat (n div 10) @ [char_of (48 + n mod 10)])"

declare show_nat.simps [simp del]

definition range_str :: "nat \<times> nat \<Rightarrow> string" where
  "range_str r = (if fst r = snd r then show_nat (fst r) else show_nat (fst r) @ ''-'' @ show_nat (snd r))"

fun cpulist_str :: "(nat \<times> nat) list \<Rightarrow> string" where
  "cpulist_str [] = [CHR 0x0A]"
| "cpulist_str [r] = range_str r @ [CHR 0x0A]"
| "cpulist_str (r # rs) = range_str r @ '','' @ cpulist_str rs"

definition range_vals :: "nat \<times> nat \<Rightarrow> int list" where
  "range_vals r = map int [fst r..<Suc (snd r)]"

definition cpulist_vals :: "(nat \<times> nat) list \<Rightarrow> int list" where
  "cpulist_vals rs = concat (map range_vals rs)"

lemma digit_char:
  assumes "d < 10"
  shows "c_isdigit (char_of (48 + d))" "digit_val (char_of (48 + d)) = int d"
proof -
  have "d \<in> {0,1,2,3,4,5,6,7,8,9}" using assms by force
  then show "c_isdigit (char_of (48 + d))" "digit_val (char_of (48 + d)) = int d"
    by (auto simp: c_isdigit_def digit_val_def less_eq_char_def)
qed

lemma digits_val_snoc: "digits_val (ds @ [c]) = 10 * digits_val ds + digit_val c"
  by (simp add: digits_val_def)

lemma show_nat_props:
  "show_nat n \<noteq> [] \<and> (\<forall>c \<in> set (show_nat n). c_isdigit c) \<and> digits_val (show_nat n) = int n"
proof (induction n rule: show_nat.induct)
  case (1 n)
  show ?case
  proof (cases "n < 10")
    case True
    then show ?thesis
      using digit_char [OF True] by (subst (1 2 3) show_nat.simps) (simp add: digits_val_def)
  next
    case False
    then show ?thesis
      using 1 digit_char [of "n mod 10"]
      by (subst (1 2 3) show_nat.simps) (auto simp: digits_val_snoc zdiv_int zmod_int)
  qed
qed

lemma length_show_nat: "n < 10 ^ k \<Longrightarrow> 0 < k \<Longrightarrow> length (show_nat n) \<le> k"
proof (induction k arbitrary: n)
  case (Suc k)
  show ?case
  proof (cases "n < 10")
    case False
    then have "0 < k" using Suc.prems by (cases k) auto
    moreover have "n div 10 < 10 ^ k" using Suc.prems by (simp add: div_less_iff_less_mult mult.commute)
    ultimately have "length (show_nat (n div 10)) \<le> k" using Suc.IH by blast
    then show ?thesis using False by (subst show_nat.simps) simp
  qed (subst show_nat.simps, simp)
qed simp

lemma digit_not:
  "c_isdigit c \<Longrightarrow> c \<noteq> CHR ''-'' \<and> c \<noteq> CHR '','' \<and> c \<noteq> CHR ''+'' \<and> c \<noteq> CHR 0x0A \<and> \<not> c_isspace c"
  by (auto simp: c_isdigit_def c_isspace_def less_eq_char_def)

text \<open>Segments end with the string, a comma or the newline.\<close>

definition seg_end :: "string \<Rightarrow> bool" where
  "seg_end t \<longleftrightarrow> t = [] \<or> t = [CHR 0x0A]"

lemma strtol_show_nat:
  assumes "n < 2 ^ 31" "t = [] \<or> \<not> c_isdigit (hd t)"
  shows "strtol (show_nat n @ t) = (int n, False, t)"
proof -
  obtain c cs where n: "show_nat n = c # cs" and dig: "\<forall>x \<in> set (c # cs). c_isdigit x"
    and val: "digits_val (c # cs) = int n"
    using show_nat_props [of n] by (cases "show_nat n") auto
  have hd: "\<not> c_isspace c" "c \<noteq> CHR ''-''" "c \<noteq> CHR ''+''" using digit_not [of c] dig by auto
  have tw: "takeWhile c_isdigit (cs @ t) = cs" "dropWhile c_isdigit (cs @ t) = t"
    using dig assms(2) by (auto simp: takeWhile_append dropWhile_append takeWhile_eq_Nil_iff dropWhile_eq_self_iff)
  have "int n \<le> LONG_MAX" using assms(1) by (simp add: LONG_MAX_def)
  then show ?thesis
    using hd dig tw val by (simp add: strtol_def n LONG_MIN_def)
qed

lemma int_get_show_nat:
  assumes "n < 2 ^ 31" "seg_end t"
  shows "int_get (show_nat n @ t) = Some (int n)"
proof -
  have "t = [] \<or> \<not> c_isdigit (hd t)"
    using assms(2) by (auto simp: seg_end_def c_isdigit_def less_eq_char_def)
  then have "strtol (show_nat n @ t) = (int n, False, t)" by (rule strtol_show_nat [OF assms(1)])
  then show ?thesis
    using assms(1) show_nat_props [of n] by (simp add: int_get_def to_int32_def)
qed

lemma hyphen_int_extract_range:
  assumes "a < 2 ^ 31" "b < 2 ^ 31" "seg_end t"
  shows "hyphen_int_extract (show_nat a @ ''-'' @ show_nat b @ t) = Some (int a, int b)"
proof -
  have len: "length (show_nat a) \<le> 10" "length (show_nat b) \<le> 10"
    using assms by (auto intro!: length_show_nat)
  have na: "\<forall>c \<in> set (show_nat a). c \<noteq> CHR ''-''"
    using show_nat_props [of a] digit_not by blast
  obtain c cs where b: "show_nat b = c # cs" and nb: "\<forall>x \<in> set (c # cs). \<not> c_isspace x"
    using show_nat_props [of b] digit_not by (cases "show_nat b") auto
  have before: "scan_before_hyphen (show_nat a @ ''-'' @ show_nat b @ t) = Some (show_nat a)"
    using show_nat_props [of a] len na
    by (simp add: scan_before_hyphen_def takeWhile_append)
  have tl: "takeWhile (\<lambda>c. \<not> c_isspace c) (show_nat b @ t) = show_nat b"
  proof (cases "t = []")
    case True
    then show ?thesis using nb by (simp add: b takeWhile_eq_all_conv)
  next
    case False
    then have "t = [CHR 0x0A]" "c_isspace (CHR 0x0A)"
      using assms(3) by (simp_all add: seg_end_def c_isspace_def less_eq_char_def)
    then show ?thesis using nb by (simp add: b takeWhile_append)
  qed
  have drop: "dropWhile c_isspace (show_nat b @ t) = show_nat b @ t"
    using nb by (simp add: b)
  have dw: "dropWhile (\<lambda>c. c \<noteq> CHR ''-'') (show_nat a @ ''-'' @ show_nat b @ t) = ''-'' @ show_nat b @ t"
    using na by (subst dropWhile_append2) simp_all
  have tw: "takeWhile (\<lambda>c. c \<noteq> CHR ''-'') (show_nat a @ ''-'' @ show_nat b @ t) = show_nat a"
    using na by (subst takeWhile_append2) simp_all
  have after: "scan_after_hyphen (show_nat a @ ''-'' @ show_nat b @ t) = Some (show_nat b)"
    using show_nat_props [of a] show_nat_props [of b] len
    unfolding scan_after_hyphen_def dw tw by (simp add: Let_def drop tl)
  have "length t \<le> 1" using assms(3) by (auto simp: seg_end_def)
  then show ?thesis
    using len int_get_show_nat [OF assms(1), of "[]"] int_get_show_nat [OF assms(2), of "[]"]
    by (simp add: hyphen_int_extract_def DIGIT_LEN_MAX_def before [simplified] after [simplified] seg_end_def)
qed

lemma arr_fill_append:
  "n \<le> length ys \<Longrightarrow>
   arr_fill (xs @ ys) (int (length xs)) v n
     = Some (xs @ map (\<lambda>i. v + int i) [0..<n] @ drop n ys)"
proof (induction n arbitrary: xs ys v)
  case (Suc n)
  then obtain y ys' where ys: "ys = y # ys'" by (cases ys) auto
  have "arr_fill (xs @ ys) (int (length xs)) v (Suc n) = arr_fill ((xs @ [v]) @ ys') (int (length (xs @ [v]))) (v + 1) n"
    by (simp add: ys add.commute)
  also have "\<dots> = Some ((xs @ [v]) @ map (\<lambda>i. v + 1 + int i) [0..<n] @ drop n ys')"
    by (rule Suc.IH) (use Suc.prems ys in simp)
  also have "map (\<lambda>i. v + 1 + int i) [0..<n] = map (\<lambda>i. v + int i) [1..<Suc n]"
    by (simp add: map_Suc_upt [symmetric] o_def algebra_simps del: upt_Suc)
  finally show ?case by (simp add: ys upt_conv_Cons del: upt_Suc)
qed simp

lemma arrary_add_append:
  assumes "0 < n" "n \<le> length ys" "length xs + length ys < 2 ^ 31"
  shows "arrary_add (xs @ ys) (int (length xs)) v (int n)
     = Some (Some (xs @ map (\<lambda>i. v + int i) [0..<n] @ drop n ys))"
proof -
  have "int32_ok (int (length xs) + int n)" using assms by (simp add: int32_ok_def)
  moreover have "ys \<noteq> []" using assms by auto
  ultimately show ?thesis using assms arr_fill_append [OF assms(2)] by (simp add: arrary_add_def)
qed

lemma range_vals_eq:
  "a \<le> b \<Longrightarrow> range_vals (a, b) = map (\<lambda>i. int a + int i) [0..<Suc (b - a)]"
  by (rule nth_equalityI) (auto simp: range_vals_def simp del: upt_Suc)

text \<open>One segment appends the values of its range.\<close>

lemma seg_extract_range:
  assumes "a \<le> b" "b < 2 ^ 31 - 1" "seg_end t" "Suc (b - a) \<le> length ys" "length xs + length ys < 2 ^ 31"
  shows "seg_extract (range_str (a, b) @ t) (xs @ ys) (int (length xs)) =
     Some (xs @ range_vals (a, b) @ drop (Suc (b - a)) ys, Some (int (length xs + Suc (b - a))))"
proof -
  have fill: "arrary_add (xs @ ys) (int (length xs)) (int a) (int (Suc (b - a)))
     = Some (Some (xs @ range_vals (a, b) @ drop (Suc (b - a)) ys))"
    unfolding range_vals_eq [OF assms(1)] by (rule arrary_add_append) (use assms in simp_all)
  have nota: "CHR ''-'' \<notin> set (show_nat a)" using show_nat_props [of a] digit_not by blast
  have nott: "CHR ''-'' \<notin> set t" using assms(3) by (auto simp: seg_end_def)
  show ?thesis
  proof (cases "a = b")
    case True
    then show ?thesis
      using assms fill int_get_show_nat [of a t] nota nott
      by (simp add: seg_extract_def range_str_def del: upt_Suc)
  next
    case False
    have num: "range_num (int a) (int b) = Some (int (Suc (b - a)))"
      using assms by (simp add: range_num_def int32_ok_def of_nat_diff)
    have "hyphen_int_extract (show_nat a @ ''-'' @ show_nat b @ t) = Some (int a, int b)"
      using assms by (intro hyphen_int_extract_range) simp_all
    then show ?thesis
      using False fill num by (simp add: seg_extract_def range_str_def del: of_nat_Suc)
  qed
qed

lemma range_str_no_comma: "\<forall>c \<in> set (range_str r). c \<noteq> CHR '',''"
  using show_nat_props [of "fst r"] show_nat_props [of "snd r"] digit_not by (auto simp: range_str_def)

lemma range_str_not_Nil: "range_str r \<noteq> []"
  using show_nat_props [of "fst r"] show_nat_props [of "snd r"] by (simp add: range_str_def)

lemma length_range_vals: "length (range_vals r) = Suc (snd r) - fst r"
  by (simp add: range_vals_def del: upt_Suc)

definition ranges_ok :: "(nat \<times> nat) list \<Rightarrow> bool" where
  "ranges_ok rs \<longleftrightarrow> (\<forall>r \<in> set rs. fst r \<le> snd r \<and> snd r < 2 ^ 31 - 1)"

lemma str_int_loop_seg:
  assumes "seg \<noteq> []" "\<forall>c \<in> set seg. c \<noteq> CHR '',''" "seg_extract seg arr tot = Some (arr1, Some tot1)"
  shows "str_int_loop seg arr tot = Some (arr1, Some tot1)"
    and "str_int_loop (seg @ CHR '','' # rest) arr tot = str_int_loop rest arr1 tot1"
proof -
  have dw: "dropWhile (\<lambda>c. c \<noteq> CHR '','') seg = []"
    using assms(2) unfolding dropWhile_eq_Nil_conv by blast
  have tw: "takeWhile (\<lambda>c. c \<noteq> CHR '','') seg = seg" "seg_rest seg = []"
    using assms(2) by (simp add: takeWhile_eq_all_conv) (simp add: seg_rest_def dw)
  show "str_int_loop seg arr tot = Some (arr1, Some tot1)"
    using assms(1,3) by (subst str_int_loop.simps) (simp add: tw str_int_loop.simps [of "[]"])
  have "takeWhile (\<lambda>c. c \<noteq> CHR '','') (seg @ CHR '','' # rest) = seg"
    "dropWhile (\<lambda>c. c \<noteq> CHR '','') (seg @ CHR '','' # rest) = CHR '','' # rest"
    using assms(2) by (subst takeWhile_append2 dropWhile_append2; simp)+
  then show "str_int_loop (seg @ CHR '','' # rest) arr tot = str_int_loop rest arr1 tot1"
    using assms by (subst str_int_loop.simps) (simp add: seg_rest_def)
qed

lemma str_int_loop_cpulist:
  assumes "ranges_ok rs" "length (cpulist_vals rs) \<le> length ys" "length xs + length ys < 2 ^ 31"
  shows "str_int_loop (cpulist_str rs) (xs @ ys) (int (length xs)) =
     Some (xs @ cpulist_vals rs @ drop (length (cpulist_vals rs)) ys,
           Some (int (length xs + length (cpulist_vals rs))))"
  using assms
proof (induction rs arbitrary: xs ys rule: cpulist_str.induct)
  case 1
  have "seg_extract [CHR 0x0A] (xs @ ys) (int (length xs)) = Some (xs @ ys, Some (int (length xs)))"
    by (simp add: seg_extract_def int_get_def strtol_def c_isspace_def less_eq_char_def)
  then show ?case
    using str_int_loop_seg(1) [of "[CHR 0x0A]"] by (simp add: cpulist_vals_def)
next
  case (2 r)
  obtain a b where r: "r = (a, b)" by (cases r)
  have "seg_extract (range_str r @ [CHR 0x0A]) (xs @ ys) (int (length xs)) =
     Some (xs @ range_vals r @ drop (Suc (b - a)) ys, Some (int (length xs + Suc (b - a))))"
    unfolding r by (rule seg_extract_range)
      (use 2 r in \<open>simp_all add: ranges_ok_def seg_end_def cpulist_vals_def length_range_vals Suc_diff_le\<close>)
  then have "str_int_loop (range_str r @ [CHR 0x0A]) (xs @ ys) (int (length xs)) =
     Some (xs @ range_vals r @ drop (Suc (b - a)) ys, Some (int (length xs + Suc (b - a))))"
    by (rule str_int_loop_seg(1) [rotated 2]) (use range_str_no_comma [of r] in auto)
  then show ?case
    using 2 by (simp add: cpulist_vals_def length_range_vals r ranges_ok_def Suc_diff_le)
next
  case (3 r r' rs)
  obtain a b where r: "r = (a, b)" by (cases r)
  let ?n = "Suc (b - a)" and ?rs = "r' # rs"
  have n: "length (range_vals r) = ?n" using 3 by (simp add: length_range_vals r ranges_ok_def Suc_diff_le)
  have "seg_extract (range_str r @ []) (xs @ ys) (int (length xs)) =
     Some (xs @ range_vals r @ drop ?n ys, Some (int (length xs + ?n)))"
    unfolding r by (rule seg_extract_range)
      (use 3 r n in \<open>simp_all add: ranges_ok_def seg_end_def cpulist_vals_def\<close>)
  then have "str_int_loop (range_str r @ CHR '','' # cpulist_str ?rs) (xs @ ys) (int (length xs)) =
     str_int_loop (cpulist_str ?rs) ((xs @ range_vals r) @ drop ?n ys) (int (length (xs @ range_vals r)))"
    using str_int_loop_seg(2) [OF range_str_not_Nil range_str_no_comma, of r] n by simp
  also have "\<dots> = Some ((xs @ range_vals r) @ cpulist_vals ?rs @ drop (length (cpulist_vals ?rs)) (drop ?n ys),
      Some (int (length (xs @ range_vals r) + length (cpulist_vals ?rs))))"
    by (rule "3.IH") (use "3.prems" n in \<open>auto simp: ranges_ok_def cpulist_vals_def\<close>)
  finally show ?case using n by (simp add: cpulist_vals_def add.commute add.left_commute)
qed

text \<open>
  C31: Reading back a list the kernel prints, str_int_extract fills the array
  with the numbers of its ranges in order, leaves the rest of the array alone
  and returns their number, for every list of ranges of ints that fits in the
  array, the empty list included; no access is outside of the array.
\<close>

theorem cpulist_roundtrip:
  assumes "ranges_ok rs" "length (cpulist_vals rs) \<le> length arr" "length arr < 2 ^ 31"
  shows "str_int_extract True (cpulist_str rs) arr =
     Some (cpulist_vals rs @ drop (length (cpulist_vals rs)) arr, Some (int (length (cpulist_vals rs))))"
  using str_int_loop_cpulist [OF assms(1), of arr "[]"] assms(2,3) by (simp add: str_int_extract_def)

theorem cpulist_roundtrip_witness:
  "str_int_extract True ''0-2,8,10-11\<newline>'' (replicate 8 0) = Some ([0, 1, 2, 8, 10, 11, 0, 0], Some 6)"
proof -
  have s: "cpulist_str [(0, 2), (8, 8), (10, 11)] = ''0-2,8,10-11\<newline>''"
    by code_simp
  have v: "cpulist_vals [(0, 2), (8, 8), (10, 11)] = [0, 1, 2, 8, 10, 11]"
    by (simp add: cpulist_vals_def range_vals_def upt_rec)
  have "drop 6 (replicate 8 (0::int)) = [0, 0]" by (simp add: numeral_eq_Suc)
  then show ?thesis
    using cpulist_roundtrip [of "[(0, 2), (8, 8), (10, 11)]" "replicate 8 0"]
    unfolding s v by (simp add: ranges_ok_def)
qed

text \<open>
  A descending range makes the number of values found so far negative, and
  the next number is then written before the start of the array: for a list
  such as "5-2,7" the function is undefined whatever the array.
\<close>

theorem descending_range_writes_before_array:
  "str_int_extract True ''5-2,7'' (x # xs) = None"
proof -
  have seg: "takeWhile (\<lambda>c. c \<noteq> CHR '','') ''5-2,7'' = ''5-2''" "seg_rest ''5-2,7'' = ''7''"
    "takeWhile (\<lambda>c. c \<noteq> CHR '','') ''7'' = ''7''"
    by code_simp+
  have h: "hyphen_int_extract ''5-2'' = Some (5, 2)" "int_get ''7'' = Some 7" by code_simp+
  have "seg_extract ''5-2'' (x # xs) 0 = Some (x # xs, Some (-2))"
    by (simp add: seg_extract_def h range_num_def int32_ok_def arrary_add_def)
  moreover have "seg_extract ''7'' (x # xs) (-2) = None"
    by (simp add: seg_extract_def h arrary_add_def int32_ok_def arr_set_def)
  ultimately show ?thesis
    by (simp add: str_int_extract_def str_int_loop.simps [of "''5-2,7''"] str_int_loop.simps [of "''7''"] seg)
qed

section \<open>Whole files\<close>

definition cpulist_file :: "(nat \<times> nat) list \<Rightarrow> bool" where
  "cpulist_file rs \<longleftrightarrow> ranges_ok rs \<and> length (cpulist_str rs) < LINE_SIZE"

lemma cpulist_str_chars:
  "\<exists>s. cpulist_str rs = s @ [CHR 0x0A] \<and> (\<forall>c \<in> set s. c \<noteq> CHR 0x0A \<and> c \<noteq> CHR 0x00)"
proof -
  have nd: "c \<noteq> CHR 0x00 \<and> c \<noteq> CHR 0x0A" if "c \<in> set (show_nat n)" for c n
  proof -
    have "c_isdigit c" using that show_nat_props [of n] by blast
    then show ?thesis by (auto simp: c_isdigit_def less_eq_char_def)
  qed
  have r: "\<forall>c \<in> set (range_str r). c \<noteq> CHR 0x0A \<and> c \<noteq> CHR 0x00" for r
    unfolding range_str_def using nd [of _ "fst r"] nd [of _ "snd r"] by (simp add: ball_Un)
  show ?thesis
  proof (induction rs rule: cpulist_str.induct)
    case (3 r r' rs)
    then obtain s where "cpulist_str (r' # rs) = s @ [CHR 0x0A]" "\<forall>c \<in> set s. c \<noteq> CHR 0x0A \<and> c \<noteq> CHR 0x00"
      by blast
    then show ?case using r [of r] by (intro exI [of _ "range_str r @ '','' @ s"]) (simp add: ball_Un)
  next
    case 1
    show ?case by (intro exI [of _ "[]"]) simp
  next
    case (2 r)
    show ?case using r [of r] by (intro exI [of _ "range_str r"]) simp
  qed
qed

lemma file_int_extract_cpulist:
  assumes "cpulist_file rs" "length (cpulist_vals rs) \<le> length arr" "length arr < 2 ^ 31"
  shows "file_int_extract True (Some (cpulist_str rs)) arr =
     Some (cpulist_vals rs @ drop (length (cpulist_vals rs)) arr, Some (int (length (cpulist_vals rs))))"
proof -
  obtain s where s: "cpulist_str rs = s @ [CHR 0x0A]" "\<forall>c \<in> set s. c \<noteq> CHR 0x0A \<and> c \<noteq> CHR 0x00"
    using cpulist_str_chars by blast
  have tw: "takeWhile (\<lambda>c. c \<noteq> CHR 0x0A) (s @ [CHR 0x0A]) = s"
    using s(2) by (subst takeWhile_append2) auto
  have "fgets LINE_SIZE (cpulist_str rs) = cpulist_str rs"
    using assms(1) s(1) by (simp add: fgets_def tw cpulist_file_def less_eq_Suc_le Suc_le_eq [symmetric]
        le_diff_conv2 LINE_SIZE_def del: take_append)
  moreover have "cstr (cpulist_str rs) = cpulist_str rs"
    using s by (auto simp: cstr_def takeWhile_eq_all_conv)
  ultimately show ?thesis
    using assms s str_int_loop_cpulist [of rs arr "[]"]
    by (simp add: file_int_extract_def str_int_extract_def cpulist_file_def)
qed

lemma arr_fill_length: "arr_fill arr i v n = Some arr1 \<Longrightarrow> length arr1 = length arr"
  by (induction arr i v n rule: arr_fill.induct) (auto simp: arr_set_Some Option.bind_eq_Some_conv)

lemma arrary_add_length: "arrary_add arr i v n = Some (Some arr1) \<Longrightarrow> length arr1 = length arr"
  by (auto simp: arrary_add_def Option.bind_eq_Some_conv arr_fill_length split: if_splits)

lemma seg_extract_length:
  assumes "seg_extract s arr t = Some (arr1, r)"
  shows "length arr1 = length arr"
proof (cases "CHR ''-'' \<in> set s")
  case True
  then show ?thesis
    using assms unfolding seg_extract_def if_P [OF True]
    by (auto simp: Option.bind_eq_Some_conv split: option.splits) (use arrary_add_length in blast)
next
  case False
  then show ?thesis
    using assms unfolding seg_extract_def if_not_P [OF False]
    by (auto simp: Option.bind_eq_Some_conv intro: arrary_add_length split: option.splits)
qed

lemma str_int_loop_length: "str_int_loop s arr t = Some (arr1, r) \<Longrightarrow> length arr1 = length arr"
proof (induction s arr t rule: str_int_loop.induct)
  case (1 cur arr tot)
  show ?case
  proof (cases "cur = []")
    case True
    then show ?thesis using "1.prems" by (simp add: str_int_loop.simps)
  next
    case False
    let ?seg = "takeWhile (\<lambda>c. c \<noteq> CHR '','') cur"
    obtain a x where seg: "seg_extract ?seg arr tot = Some (a, x)"
      using "1.prems" False by (cases "seg_extract ?seg arr tot") (auto simp: str_int_loop.simps [of cur])
    have len: "length a = length arr" using seg by (rule seg_extract_length)
    show ?thesis
    proof (cases x)
      case None
      then show ?thesis using "1.prems" False seg len by (simp add: str_int_loop.simps [of cur])
    next
      case (Some t1)
      then have "str_int_loop (seg_rest cur) a t1 = Some (arr1, r)"
        using "1.prems" False seg by (simp add: str_int_loop.simps [of cur])
      then show ?thesis using "1.IH" [OF False seg refl Some] len by simp
    qed
  qed
qed

lemma file_int_extract_length: "file_int_extract d f arr = Some (arr1, r) \<Longrightarrow> length arr1 = length arr"
  by (auto simp: file_int_extract_def str_int_extract_def str_int_loop_length
      split: option.splits if_splits)

end
