(* ===== verification/Cpu.thy ===== *)
theory Cpu
  imports Types Sysfs
begin

text \<open>
  The slots a node keeps for its processors (perf_cpu_t of
  common/include/os/os_perf.h) and the operations on the array of slots of
  common/os/os_perf.c: finding a processor, choosing a slot for a new one,
  reconciling the array with the list of online processors; the difference of
  two counter readings; and the release of the kernel resources of a processor
  (pf_resource_free of common/os/pfwrapper.c).

  The slots of a node are a list of the length ncpus_max.  Arrays indexed by
  perf_count_id_t are functions of the identifier.
\<close>

section \<open>Processors\<close>

type_synonym count_value = "perf_count_id \<Rightarrow> u64"

definition counter_ids :: "perf_count_id list" where
  "counter_ids = [PERF_COUNT_CORE_CLK, PERF_COUNT_RMA, PERF_COUNT_CLK, PERF_COUNT_IR, PERF_COUNT_LMA]"

record perf_cpu =
  cpu_cpuid :: int
  cpu_fds :: "perf_count_id \<Rightarrow> int"
  cpu_group_idx :: int
  cpu_map_len :: int
  cpu_map_mask :: int
  cpu_map_base :: ptr
  cpu_hit :: bool
  cpu_hotadd :: bool
  cpu_hotremove :: bool
  cpu_countval_last :: count_value

definition INVALID_CPUID :: int where "INVALID_CPUID = -1"

abbreviation cpu_valid :: "perf_cpu \<Rightarrow> bool" where
  "cpu_valid c \<equiv> cpu_cpuid c \<noteq> INVALID_CPUID"

definition perf_cpu_zero :: perf_cpu where
  "perf_cpu_zero = \<lparr>cpu_cpuid = 0, cpu_fds = (\<lambda>_. 0), cpu_group_idx = 0, cpu_map_len = 0, cpu_map_mask = 0,
     cpu_map_base = None,
     cpu_hit = False, cpu_hotadd = False, cpu_hotremove = False, cpu_countval_last = (\<lambda>_. 0)\<rparr>"

definition cpu_init :: "perf_cpu \<Rightarrow> perf_cpu" where
  "cpu_init c = c\<lparr>cpu_fds := (\<lambda>_. INVALID_FD), cpu_map_base := None\<rparr>"

definition event_valid :: "perf_cpu \<Rightarrow> bool" where
  "event_valid c \<longleftrightarrow> cpu_map_base c \<noteq> None"

section \<open>Kernel resources\<close>

text \<open>The event descriptors that are open and the ring buffers that are mapped.\<close>

record kern =
  k_fds :: "int set"
  k_maps :: "addr set"

fun close_fds :: "perf_count_id list \<Rightarrow> perf_cpu \<Rightarrow> 'a kern_scheme \<Rightarrow> perf_cpu \<times> 'a kern_scheme" where
  "close_fds [] c k = (c, k)"
| "close_fds (i # is) c k =
     (if cpu_fds c i \<noteq> INVALID_FD then
        close_fds is (c\<lparr>cpu_fds := (cpu_fds c)(i := INVALID_FD)\<rparr>) (k\<lparr>k_fds := k_fds k - {cpu_fds c i}\<rparr>)
      else close_fds is c k)"

definition pf_resource_free :: "perf_cpu \<Rightarrow> 'a kern_scheme \<Rightarrow> perf_cpu \<times> 'a kern_scheme" where
  "pf_resource_free c k =
     (case close_fds counter_ids c k of (c1, k1) \<Rightarrow>
        (case cpu_map_base c1 of
           None \<Rightarrow> (c1, k1)
         | Some m \<Rightarrow> (c1\<lparr>cpu_map_base := None, cpu_map_len := 0\<rparr>, k1\<lparr>k_maps := k_maps k1 - {m}\<rparr>)))"

lemma close_fds_frame:
  assumes "close_fds is c k = (c1, k1)"
  shows "cpu_cpuid c1 = cpu_cpuid c" "cpu_hotremove c1 = cpu_hotremove c" "cpu_hotadd c1 = cpu_hotadd c"
    "cpu_map_base c1 = cpu_map_base c" "k_maps k1 = k_maps k"
    "cpu_fds c1 = (\<lambda>i. if i \<in> set is then INVALID_FD else cpu_fds c i)"
    "k_fds k1 = k_fds k - (cpu_fds c ` set is - {INVALID_FD})"
  using assms by (induction "is" c k rule: close_fds.induct) (auto split: if_splits)

lemma pf_resource_free_cpuid:
  "pf_resource_free c k = (c1, k1) \<Longrightarrow> cpu_cpuid c1 = cpu_cpuid c"
  by (auto simp: pf_resource_free_def split: prod.splits option.splits dest: close_fds_frame)

section \<open>The array of slots\<close>

definition os_perf_cpuarr_init :: "bool \<Rightarrow> perf_cpu list \<Rightarrow> perf_cpu list" where
  "os_perf_cpuarr_init hotadd cs =
     map (\<lambda>c. cpu_init (c\<lparr>cpu_cpuid := INVALID_CPUID, cpu_hotadd := hotadd\<rparr>)) cs"

definition os_perf_cpuarr_fini :: "bool \<Rightarrow> perf_cpu list \<Rightarrow> perf_cpu list" where
  "os_perf_cpuarr_fini hotremove cs =
     map (\<lambda>c. if cpu_valid c then c\<lparr>cpu_hotremove := hotremove\<rparr> else c) cs"

fun cpu_find_from :: "nat \<Rightarrow> perf_cpu list \<Rightarrow> int \<Rightarrow> nat option" where
  "cpu_find_from i [] cpuid = None"
| "cpu_find_from i (c # cs) cpuid =
     (if cpu_cpuid c = cpuid then Some i else cpu_find_from (i + 1) cs cpuid)"

definition cpu_find :: "perf_cpu list \<Rightarrow> int \<Rightarrow> nat option" where
  "cpu_find cs cpuid = cpu_find_from 0 cs cpuid"

definition free_idx_get :: "perf_cpu list \<Rightarrow> nat \<Rightarrow> nat option" where
  "free_idx_get cs prefer_idx =
     (if prefer_idx < length cs \<and> cpu_cpuid (cs ! prefer_idx) = INVALID_CPUID then Some prefer_idx
      else cpu_find cs INVALID_CPUID)"

text \<open>
  os_perf_cpuarr_refresh: the online processors are looked up, new ones take a
  free slot, and the ones that were not hit are marked for removal.  The loop
  over the identifiers carries the position, which is the preferred slot.
\<close>

definition cpu_new :: "bool \<Rightarrow> perf_cpu \<Rightarrow> int \<Rightarrow> perf_cpu" where
  "cpu_new init c cpuid =
     c\<lparr>cpu_cpuid := cpuid, cpu_map_base := None, cpu_fds := (\<lambda>_. INVALID_FD), cpu_hit := True,
       cpu_hotadd := \<not> init\<rparr>"

fun cpuarr_hit :: "bool \<Rightarrow> nat \<Rightarrow> int list \<Rightarrow> perf_cpu list \<Rightarrow> perf_cpu list \<times> int" where
  "cpuarr_hit init i [] cs = (cs, 0)"
| "cpuarr_hit init i (cpuid # ids) cs =
     (case cpu_find cs cpuid of
        Some j \<Rightarrow> cpuarr_hit init (i + 1) ids (cs[j := (cs ! j)\<lparr>cpu_hit := True\<rparr>])
      | None \<Rightarrow>
          (case free_idx_get cs i of
             None \<Rightarrow> (cs, -1)
           | Some j \<Rightarrow> cpuarr_hit init (i + 1) ids (cs[j := cpu_new init (cs ! j) cpuid])))"

definition os_perf_cpuarr_refresh :: "bool \<Rightarrow> int list \<Rightarrow> perf_cpu list \<Rightarrow> perf_cpu list \<times> int" where
  "os_perf_cpuarr_refresh init ids cs =
     (case cpuarr_hit init 0 ids (map (\<lambda>c. c\<lparr>cpu_hit := False\<rparr>) cs) of
        (cs1, r) \<Rightarrow>
          if r \<noteq> 0 then (cs1, -1)
          else (map (\<lambda>c. if \<not> cpu_hit c \<and> cpu_valid c then c\<lparr>cpu_hotremove := True\<rparr> else c) cs1, 0))"

section \<open>Counter readings\<close>

definition countval_diff_base :: "perf_cpu \<Rightarrow> count_value \<Rightarrow> perf_cpu" where
  "countval_diff_base c new = c\<lparr>cpu_countval_last := new\<rparr>"

definition countval_diff :: "perf_cpu \<Rightarrow> count_value \<Rightarrow> perf_cpu \<times> count_value" where
  "countval_diff c new =
     (c\<lparr>cpu_countval_last := new\<rparr>,
      \<lambda>i. if cpu_countval_last c i \<le> new i then new i - cpu_countval_last c i else 0)"

text \<open>
  The differences of a run of readings add up to what the counter gained, when
  it never went backwards.
\<close>

fun countval_run :: "perf_cpu \<Rightarrow> count_value list \<Rightarrow> count_value" where
  "countval_run c [] = (\<lambda>_. 0)"
| "countval_run c (new # news) =
     (case countval_diff c new of (c1, d) \<Rightarrow> \<lambda>i. d i + countval_run c1 news i)"

lemma countval_run_telescopes:
  "sorted (map (\<lambda>v. v i) (cpu_countval_last c # news)) \<Longrightarrow>
   countval_run c news i = last (cpu_countval_last c # news) i - cpu_countval_last c i"
  by (induction news arbitrary: c) (auto simp: countval_diff_def)

section \<open>Reconciliation with the online processors\<close>

definition cpu_ids :: "perf_cpu list \<Rightarrow> int set" where
  "cpu_ids cs = {cpu_cpuid c | c. c \<in> set cs \<and> cpu_valid c}"

definition distinct_cpus :: "perf_cpu list \<Rightarrow> bool" where
  "distinct_cpus cs \<longleftrightarrow> (\<forall>i < length cs. \<forall>j < length cs. cpu_valid (cs ! i) \<longrightarrow>
     cpu_cpuid (cs ! i) = cpu_cpuid (cs ! j) \<longrightarrow> i = j)"

lemma cpu_find_from_Some:
  "cpu_find_from i cs cpuid = Some j \<Longrightarrow> i \<le> j \<and> j < i + length cs \<and> cpu_cpuid (cs ! (j - i)) = cpuid"
proof (induction cs arbitrary: i)
  case (Cons c cs)
  then show ?case by (fastforce simp: nth_Cons' split: if_splits)
qed simp

lemma cpu_find_from_None: "cpu_find_from i cs cpuid = None \<longleftrightarrow> cpuid \<notin> cpu_cpuid ` set cs"
  by (induction cs arbitrary: i) auto

lemma cpu_find_Some: "cpu_find cs cpuid = Some j \<Longrightarrow> j < length cs \<and> cpu_cpuid (cs ! j) = cpuid"
  using cpu_find_from_Some [of 0 cs cpuid j] by (simp add: cpu_find_def)

lemma cpu_find_None: "cpu_find cs cpuid = None \<longleftrightarrow> cpuid \<notin> cpu_cpuid ` set cs"
  by (simp add: cpu_find_def cpu_find_from_None)

lemma free_idx_get_Some:
  "free_idx_get cs p = Some j \<Longrightarrow> j < length cs \<and> cpu_cpuid (cs ! j) = INVALID_CPUID"
  by (auto simp: free_idx_get_def split: if_splits dest: cpu_find_Some)

lemma free_idx_get_None: "free_idx_get cs p = None \<Longrightarrow> \<forall>c \<in> set cs. cpu_valid c"
  by (force simp: free_idx_get_def cpu_find_None split: if_splits)

text \<open>What the loop over the online processors does to every slot.\<close>

definition hit_slot :: "bool \<Rightarrow> int set \<Rightarrow> int set \<Rightarrow> perf_cpu \<Rightarrow> perf_cpu \<Rightarrow> bool" where
  "hit_slot init ids old c c' \<longleftrightarrow>
     (if cpu_valid c then c' = c\<lparr>cpu_hit := cpu_hit c \<or> cpu_cpuid c \<in> ids\<rparr>
      else c' = c \<or> (\<exists>x \<in> ids - old. c' = cpu_new init c x))"

definition hit_rel :: "bool \<Rightarrow> int set \<Rightarrow> perf_cpu list \<Rightarrow> perf_cpu list \<Rightarrow> bool" where
  "hit_rel init ids cs cs' \<longleftrightarrow>
     length cs' = length cs \<and> (\<forall>k < length cs. hit_slot init ids (cpu_ids cs) (cs ! k) (cs' ! k))"

lemma cpu_ids_map: "cpu_ids cs = set (map cpu_cpuid cs) - {INVALID_CPUID}"
  by (auto simp: cpu_ids_def)

lemma map_cpuid_upd:
  "cpu_cpuid c = cpu_cpuid (cs ! j) \<Longrightarrow> map cpu_cpuid (cs[j := c]) = map cpu_cpuid cs"
  by (simp add: map_update) (metis list_update_id list_update_overwrite map_update)

lemma cpu_ids_hit: "cpu_cpuid c = cpu_cpuid (cs ! j) \<Longrightarrow> cpu_ids (cs[j := c]) = cpu_ids cs"
  unfolding cpu_ids_map by (simp only: map_cpuid_upd)

lemma cpu_ids_new:
  assumes "\<not> cpu_valid (cs ! j)" "cpu_valid c" "j < length cs"
  shows "cpu_ids (cs[j := c]) = insert (cpu_cpuid c) (cpu_ids cs)"
proof -
  have cs: "cs = take j cs @ cs ! j # drop (Suc j) cs" using assms(3) by (rule id_take_nth_drop)
  have "set (map cpu_cpuid cs) = cpu_cpuid ` set (take j cs) \<union> {INVALID_CPUID} \<union> cpu_cpuid ` set (drop (Suc j) cs)"
    using assms(1) by (subst cs) auto
  then show ?thesis
    unfolding cpu_ids_map upd_conv_take_nth_drop [OF assms(3)] using assms(2) by auto
qed

lemma distinct_cpus_hit:
  assumes "distinct_cpus cs" "cpu_cpuid c = cpu_cpuid (cs ! j)"
  shows "distinct_cpus (cs[j := c])"
proof -
  have "cpu_cpuid (cs[j := c] ! i) = cpu_cpuid (cs ! i)" if "i < length cs" for i
    using assms(2) that by (cases "i = j") simp_all
  then show ?thesis using assms(1) by (simp add: distinct_cpus_def)
qed

lemma distinct_cpus_new:
  assumes "distinct_cpus cs" "cpu_cpuid c \<notin> cpu_cpuid ` set cs" "j < length cs"
  shows "distinct_cpus (cs[j := c])"
  unfolding distinct_cpus_def
proof (intro allI impI)
  fix i k
  assume ik: "i < length (cs[j := c])" "k < length (cs[j := c])"
    "cpu_valid (cs[j := c] ! i)" "cpu_cpuid (cs[j := c] ! i) = cpu_cpuid (cs[j := c] ! k)"
  have ne: "cpu_cpuid c \<noteq> cpu_cpuid (cs ! k)" if "k < length cs" for k
    using assms(2) that by (metis image_eqI nth_mem)
  have ne': "cpu_cpuid (cs ! i) \<noteq> cpu_cpuid c" "cpu_cpuid c \<noteq> cpu_cpuid (cs ! k)"
    using ne [of i] ne [of k] ik by auto
  show "i = k"
    using assms(1,3) ik ne' by (cases "i = j"; cases "k = j") (simp_all add: distinct_cpus_def)
qed

lemma card_cpu_ids: "distinct_cpus cs \<Longrightarrow> \<forall>c \<in> set cs. cpu_valid c \<Longrightarrow> card (cpu_ids cs) = length cs"
proof -
  assume d: "distinct_cpus cs" and v: "\<forall>c \<in> set cs. cpu_valid c"
  have "inj_on (\<lambda>k. cpu_cpuid (cs ! k)) {..<length cs}"
    using d v by (auto simp: inj_on_def distinct_cpus_def)
  moreover have "(\<lambda>k. cpu_cpuid (cs ! k)) ` {..<length cs} = cpu_ids cs"
  proof -
    have "INVALID_CPUID \<notin> set (map cpu_cpuid cs)" using v by auto
    then have "cpu_ids cs = set (map cpu_cpuid cs)" by (simp add: cpu_ids_map)
    also have "\<dots> = (\<lambda>k. cpu_cpuid (cs ! k)) ` {..<length cs}"
      by (force simp: in_set_conv_nth)
    finally show ?thesis by simp
  qed
  ultimately show ?thesis by (metis card_image card_lessThan)
qed

lemma finite_cpu_ids [simp]: "finite (cpu_ids cs)"
proof -
  have "cpu_ids cs \<subseteq> cpu_cpuid ` set cs" by (auto simp: cpu_ids_def)
  then show ?thesis by (rule finite_subset) simp
qed

lemma cpuarr_hit_result:
  assumes "cpuarr_hit init i ids cs = (cs', r)" "INVALID_CPUID \<notin> set ids" "distinct_cpus cs"
  shows "r = 0 \<and> hit_rel init (set ids) cs cs' \<and> distinct_cpus cs' \<and> cpu_ids cs' = cpu_ids cs \<union> set ids
    \<or> r = -1 \<and> length cs < card (cpu_ids cs \<union> set ids)"
  using assms
proof (induction init i ids cs rule: cpuarr_hit.induct)
  case (1 init i cs)
  then show ?case by (auto simp: hit_rel_def hit_slot_def)
next
  case (2 init i cpuid ids cs)
  show ?case
  proof (cases "cpu_find cs cpuid")
    case (Some j)
    let ?cs = "cs[j := (cs ! j)\<lparr>cpu_hit := True\<rparr>]"
    have j: "j < length cs" "cpu_cpuid (cs ! j) = cpuid" using cpu_find_Some [OF Some] by auto
    have v: "cpu_valid (cs ! j)" using 2(4) j by auto
    have same: "cpu_ids ?cs = cpu_ids cs" using j by (intro cpu_ids_hit) simp_all
    have inids: "cpuid \<in> cpu_ids cs" using j v by (force simp: cpu_ids_def)
    have "r = 0 \<and> hit_rel init (set ids) ?cs cs' \<and> distinct_cpus cs' \<and> cpu_ids cs' = cpu_ids ?cs \<union> set ids
        \<or> r = -1 \<and> length ?cs < card (cpu_ids ?cs \<union> set ids)"
      by (rule "2.IH"(2) [OF Some]) (use "2.prems" Some j in \<open>auto intro: distinct_cpus_hit\<close>)
    moreover have "hit_rel init (set (cpuid # ids)) cs cs'" if h: "hit_rel init (set ids) ?cs cs'"
      unfolding hit_rel_def
    proof (intro conjI allI impI)
      show "length cs' = length cs" using h by (simp add: hit_rel_def)
      fix k assume k: "k < length cs"
      then have slot: "hit_slot init (set ids) (cpu_ids cs) (?cs ! k) (cs' ! k)"
        using h unfolding hit_rel_def same by simp
      have "cpu_cpuid (cs ! k) \<noteq> cpuid" if "k \<noteq> j" "cpu_valid (cs ! k)"
        using "2.prems"(3) j k that v unfolding distinct_cpus_def by blast
      then show "hit_slot init (set (cpuid # ids)) (cpu_ids cs) (cs ! k) (cs' ! k)"
        using slot j v inids by (cases "k = j") (auto simp: hit_slot_def split: if_splits)
    qed
    ultimately show ?thesis using inids by (simp add: same insert_absorb) blast
  next
    case None
    then have new: "cpuid \<notin> cpu_cpuid ` set cs" by (simp add: cpu_find_None)
    then have notin: "cpuid \<notin> cpu_ids cs" by (auto simp: cpu_ids_def)
    show ?thesis
    proof (cases "free_idx_get cs i")
      case None
      then have "card (cpu_ids cs) = length cs"
        using card_cpu_ids [OF "2.prems"(3)] free_idx_get_None by blast
      then have "length cs < card (insert cpuid (cpu_ids cs))" using notin by simp
      also have "\<dots> \<le> card (cpu_ids cs \<union> set (cpuid # ids))" by (rule card_mono) auto
      finally show ?thesis using "2.prems"(1) \<open>cpu_find cs cpuid = None\<close> None by simp
    next
      case (Some j)
      let ?cs = "cs[j := cpu_new init (cs ! j) cpuid]"
      have j: "j < length cs" "\<not> cpu_valid (cs ! j)" using free_idx_get_Some [OF Some] by auto
      have v: "cpu_valid (cpu_new init (cs ! j) cpuid)" using "2.prems"(2) by (simp add: cpu_new_def)
      have ids: "cpu_ids ?cs = insert cpuid (cpu_ids cs)"
        using cpu_ids_new [OF j(2) v j(1)] by (simp add: cpu_new_def)
      have "r = 0 \<and> hit_rel init (set ids) ?cs cs' \<and> distinct_cpus cs' \<and> cpu_ids cs' = cpu_ids ?cs \<union> set ids
          \<or> r = -1 \<and> length ?cs < card (cpu_ids ?cs \<union> set ids)"
        by (rule "2.IH"(1) [OF \<open>cpu_find cs cpuid = None\<close> Some])
          (use "2.prems" Some \<open>cpu_find cs cpuid = None\<close> j new in \<open>auto intro!: distinct_cpus_new simp: cpu_new_def\<close>)
      moreover have "hit_rel init (set (cpuid # ids)) cs cs'" if h: "hit_rel init (set ids) ?cs cs'"
        unfolding hit_rel_def
      proof (intro conjI allI impI)
        show "length cs' = length cs" using h by (simp add: hit_rel_def)
        fix k assume k: "k < length cs"
        then have slot: "hit_slot init (set ids) (insert cpuid (cpu_ids cs)) (?cs ! k) (cs' ! k)"
          using h unfolding hit_rel_def ids by simp
        show "hit_slot init (set (cpuid # ids)) (cpu_ids cs) (cs ! k) (cs' ! k)"
        proof (cases "k = j")
          case True
          then have "cs' ! k = cpu_new init (cs ! j) cpuid"
            using slot v j by (simp add: hit_slot_def cpu_new_def)
          then show ?thesis using True j notin by (auto simp: hit_slot_def)
        next
          case False
          moreover have "cpu_cpuid (cs ! k) \<noteq> cpuid" using new k by auto
          ultimately show ?thesis using slot by (auto simp: hit_slot_def split: if_splits)
        qed
      qed
      ultimately show ?thesis by (simp add: ids) blast
    qed
  qed
qed

text \<open>
  The whole reconciliation, slot by slot: a known processor keeps its slot and
  its kernel resources and is marked for removal when it is not online; a slot
  that was free may hold a new online processor without kernel resources.
\<close>

definition refresh_slot :: "bool \<Rightarrow> int set \<Rightarrow> int set \<Rightarrow> perf_cpu \<Rightarrow> perf_cpu \<Rightarrow> bool" where
  "refresh_slot init ids old c c' \<longleftrightarrow>
     cpu_countval_last c' = cpu_countval_last c \<and>
     (if cpu_valid c then
        cpu_cpuid c' = cpu_cpuid c \<and> cpu_fds c' = cpu_fds c \<and> cpu_map_base c' = cpu_map_base c \<and>
        cpu_hotadd c' = cpu_hotadd c \<and> cpu_hotremove c' = (cpu_hotremove c \<or> cpu_cpuid c \<notin> ids)
      else if cpu_valid c' then
        cpu_cpuid c' \<in> ids - old \<and> cpu_hotadd c' = (\<not> init) \<and> cpu_hotremove c' = cpu_hotremove c \<and>
        cpu_map_base c' = None \<and> cpu_fds c' = (\<lambda>_. INVALID_FD)
      else cpu_hotadd c' = cpu_hotadd c \<and> cpu_hotremove c' = cpu_hotremove c)"

lemma cpuarr_refresh_result:
  assumes "os_perf_cpuarr_refresh init ids cs = (cs', r)" "INVALID_CPUID \<notin> set ids" "distinct_cpus cs"
  shows "r = 0 \<and> length cs' = length cs \<and> distinct_cpus cs' \<and> cpu_ids cs' = cpu_ids cs \<union> set ids \<and>
      (\<forall>k < length cs. refresh_slot init (set ids) (cpu_ids cs) (cs ! k) (cs' ! k))
    \<or> r = -1 \<and> length cs < card (cpu_ids cs \<union> set ids)"
proof -
  let ?cs = "map (\<lambda>c. c\<lparr>cpu_hit := False\<rparr>) cs"
  let ?mark = "\<lambda>c. if \<not> cpu_hit c \<and> cpu_valid c then c\<lparr>cpu_hotremove := True\<rparr> else c"
  obtain cs1 r1 where hit: "cpuarr_hit init 0 ids ?cs = (cs1, r1)" by fastforce
  have ids: "cpu_ids ?cs = cpu_ids cs" by (simp add: cpu_ids_map image_image)
  have "distinct_cpus ?cs" using assms(3) by (simp add: distinct_cpus_def)
  from cpuarr_hit_result [OF hit assms(2) this] consider
      (ok) "r1 = 0" "hit_rel init (set ids) ?cs cs1" "distinct_cpus cs1" "cpu_ids cs1 = cpu_ids cs \<union> set ids"
    | (full) "r1 = -1" "length cs < card (cpu_ids cs \<union> set ids)"
    unfolding ids by auto
  then show ?thesis
  proof cases
    case full
    then show ?thesis using assms(1) hit by (simp add: os_perf_cpuarr_refresh_def)
  next
    case ok
    then have cs': "r = 0" "cs' = map ?mark cs1"
      using assms(1) hit by (simp_all add: os_perf_cpuarr_refresh_def)
    have len: "length cs1 = length cs" using ok by (simp add: hit_rel_def)
    have "map cpu_cpuid cs' = map cpu_cpuid cs1" by (simp add: cs')
    then have ids': "cpu_ids cs' = cpu_ids cs1" by (simp only: cpu_ids_map)
    have "cpu_cpuid (cs' ! k) = cpu_cpuid (cs1 ! k)" if "k < length cs1" for k using that by (simp add: cs')
    then have "distinct_cpus cs'" using ok(3) by (simp add: distinct_cpus_def cs'(2))
    moreover have "refresh_slot init (set ids) (cpu_ids cs) (cs ! k) (cs' ! k)" if k: "k < length cs" for k
    proof -
      have h: "hit_slot init (set ids) (cpu_ids cs) ((cs ! k)\<lparr>cpu_hit := False\<rparr>) (cs1 ! k)"
        using ok(2) k unfolding hit_rel_def ids by simp
      have c': "cs' ! k = ?mark (cs1 ! k)" using k len by (simp add: cs')
      show ?thesis
        using h assms(2) unfolding c' hit_slot_def refresh_slot_def
        by (cases "cpu_valid (cs ! k)") (auto simp: cpu_new_def)
    qed
    ultimately show ?thesis using ok(4) len ids' by (simp add: cs')
  qed
qed

end
