(* ===== verification/Node.thy ===== *)
theory Node
  imports Cpu
begin

text \<open>
  The NUMA nodes (common/os/node.c): one slot per possible node, each with the
  array of its processors, its counters and its memory sizes; the refresh of
  the group from sysfs, which only marks what went away, and the walk of the
  perf thread over the processors, which removes it.

  A node whose processor array could not be allocated has n_cpus = None; the
  functions that touch its processors are then undefined.
\<close>

section \<open>Nodes and the group\<close>

record node =
  n_nid :: int
  n_ncpus :: int
  n_cpus :: "perf_cpu list option"
  n_countval :: count_value
  n_meminfo :: node_meminfo
  n_qpi :: "qpi_info list"
  n_imc :: "imc_info list"
  n_hotadd :: bool
  n_hotremove :: bool

definition INVALID_NID :: int where "INVALID_NID = -1"
definition NODE_ALL :: int where "NODE_ALL = -1"

definition NODE_VALID :: "node \<Rightarrow> bool" where
  "NODE_VALID n \<longleftrightarrow> n_nid n \<noteq> INVALID_NID"

record node_group =
  ng_nodes :: "node list"
  ng_nnodes :: int
  ng_cpuid_max :: int
  ng_intval_ms :: int
  ng_inited :: bool
  ng_ncpus :: int

text \<open>
  The surroundings: sysfs, the number of possible processors (ncpus_max; the
  number of possible nodes, nnodes_max, is the length of the array of nodes),
  and which allocations succeed: the array of a node's processors, and the
  scratch arrays of node_group_refresh and cpu_refresh.
\<close>

record node_env = sysfs +
  ne_ncpus_max :: nat
  ne_cpus_ok :: "int \<Rightarrow> bool"
  ne_node_arr_ok :: bool
  ne_cpu_arr_ok :: bool

definition node_zero :: node where
  "node_zero = \<lparr>n_nid = 0, n_ncpus = 0, n_cpus = None, n_countval = (\<lambda>_. 0), n_meminfo = meminfo_zero,
     n_qpi = [], n_imc = [], n_hotadd = False, n_hotremove = False\<rparr>"

definition node_init :: "'a node_env_scheme \<Rightarrow> int \<Rightarrow> bool \<Rightarrow> node \<times> int" where
  "node_init env nid hotadd =
     (let n = node_zero\<lparr>n_nid := nid, n_hotadd := hotadd\<rparr>
      in if \<not> NODE_VALID n then (n, 0)
         else if \<not> ne_cpus_ok env nid then (n, -1)
         else (n\<lparr>n_cpus := Some (os_perf_cpuarr_init hotadd (replicate (ne_ncpus_max env) perf_cpu_zero))\<rparr>, 0))"

definition node_fini :: "node \<Rightarrow> node option" where
  "node_fini n =
     (if \<not> NODE_VALID n then Some n
      else do {
        _ \<leftarrow> n_cpus n;
        Some (n\<lparr>n_ncpus := 0, n_cpus := None, n_nid := INVALID_NID\<rparr>)
      })"

definition node_hotremove :: "node \<Rightarrow> node option" where
  "node_hotremove n =
     do {
       cs \<leftarrow> n_cpus n;
       Some (n\<lparr>n_hotremove := True, n_cpus := Some (os_perf_cpuarr_fini True cs)\<rparr>)
     }"

definition node_get :: "node_group \<Rightarrow> int \<Rightarrow> node option" where
  "node_get g nid = arr_get (ng_nodes g) nid"

definition node_num :: "node_group \<Rightarrow> int" where
  "node_num g = ng_nnodes g"

definition node_ncpus :: "node \<Rightarrow> int" where
  "node_ncpus n = n_ncpus n"

definition node_intval_get :: "node_group \<Rightarrow> int" where
  "node_intval_get g = ng_intval_ms g"

definition node_intval_update :: "int \<Rightarrow> node_group \<Rightarrow> node_group" where
  "node_intval_update intval_ms g = g\<lparr>ng_intval_ms := intval_ms\<rparr>"

definition node_cpuid_max :: "node_group \<Rightarrow> int" where
  "node_cpuid_max g = ng_cpuid_max g + 1"

section \<open>Refreshing the group\<close>

fun nid_find_from :: "nat \<Rightarrow> int \<Rightarrow> int list \<Rightarrow> nat option" where
  "nid_find_from i nid [] = None"
| "nid_find_from i nid (x # xs) = (if x = nid then Some i else nid_find_from (i + 1) nid xs)"

definition nid_find :: "int \<Rightarrow> int list \<Rightarrow> nat option" where
  "nid_find nid xs = (if nid = INVALID_NID then None else nid_find_from 0 nid xs)"

definition cpuid_max_get :: "int list \<Rightarrow> int" where
  "cpuid_max_get xs = foldl (\<lambda>m x. if m < x then x else m) (-1) xs"

text \<open>
  cpu_refresh: the processors of every valid node.  The loop stops at the first
  failure; the nodes before it are updated.
\<close>

fun cpu_refresh_nodes ::
  "'a node_env_scheme \<Rightarrow> bool \<Rightarrow> node list \<Rightarrow> int list \<Rightarrow> int \<Rightarrow> (node list \<times> int option) option" where
  "cpu_refresh_nodes env init [] cpu_arr cpuid_max = Some ([], Some cpuid_max)"
| "cpu_refresh_nodes env init (n # ns) cpu_arr cpuid_max =
     (if \<not> NODE_VALID n then
        do {
          (ns1, r) \<leftarrow> cpu_refresh_nodes env init ns cpu_arr cpuid_max;
          Some (n # ns1, r)
        }
      else do {
        (arr, res) \<leftarrow> os_sysfs_cpu_enum (sysfs.truncate env) (n_nid n) cpu_arr;
        (case res of
           None \<Rightarrow> Some (n # ns, None)
         | Some num \<Rightarrow>
             if num < 0 \<or> num > int (ne_ncpus_max env) then Some (n # ns, None)
             else do {
               cs \<leftarrow> n_cpus n;
               let ids = take (nat num) arr;
               let (cs1, r) = os_perf_cpuarr_refresh init ids cs;
               if r \<noteq> 0 then Some (n\<lparr>n_cpus := Some cs1\<rparr> # ns, None)
               else do {
                 (ns1, r1) \<leftarrow> cpu_refresh_nodes env init ns arr (max cpuid_max (cpuid_max_get ids));
                 Some (n\<lparr>n_cpus := Some cs1, n_ncpus := num\<rparr> # ns1, r1)
               }
             })
      })"

definition cpu_refresh :: "'a node_env_scheme \<Rightarrow> bool \<Rightarrow> node_group \<Rightarrow> (node_group \<times> int) option" where
  "cpu_refresh env init g =
     (if \<not> ne_cpu_arr_ok env then Some (g, -1)
      else do {
        (ns, r) \<leftarrow> cpu_refresh_nodes env init (ng_nodes g) (replicate (ne_ncpus_max env) 0) (-1);
        (case r of
           None \<Rightarrow> Some (g\<lparr>ng_nodes := ns\<rparr>, -1)
         | Some m \<Rightarrow>
             do {
               online \<leftarrow> os_sysfs_online_ncpus (sysfs.truncate env) (ne_ncpus_max env);
               Some (g\<lparr>ng_nodes := ns, ng_cpuid_max := max (ng_cpuid_max g) m, ng_ncpus := online\<rparr>, 0)
             })
      })"

fun meminfo_refresh_nodes :: "sysfs \<Rightarrow> node list \<Rightarrow> (node list \<times> int) option" where
  "meminfo_refresh_nodes fs [] = Some ([], 0)"
| "meminfo_refresh_nodes fs (n # ns) =
     (if \<not> NODE_VALID n then
        do { (ns1, r) \<leftarrow> meminfo_refresh_nodes fs ns; Some (n # ns1, r) }
      else do {
        (info, ok) \<leftarrow> os_sysfs_meminfo fs (n_nid n);
        if \<not> ok then Some (n\<lparr>n_meminfo := info\<rparr> # ns, -1)
        else do {
          (ns1, r) \<leftarrow> meminfo_refresh_nodes fs ns;
          Some (n\<lparr>n_meminfo := info\<rparr> # ns1, r)
        }
      })"

definition meminfo_refresh :: "'a node_env_scheme \<Rightarrow> node_group \<Rightarrow> (node_group \<times> int) option" where
  "meminfo_refresh env g =
     do {
       (ns, r) \<leftarrow> meminfo_refresh_nodes (sysfs.truncate env) (ng_nodes g);
       Some (g\<lparr>ng_nodes := ns\<rparr>, r)
     }"

text \<open>
  The two loops of node_group_refresh: nodes that are not online any more are
  marked, and free slots of online nodes are initialised.  Entries of node_arr
  that have been dealt with are overwritten with INVALID_NID.
\<close>

fun refresh_gone :: "node list \<Rightarrow> int list \<Rightarrow> int \<Rightarrow> (node list \<times> int list \<times> int) option" where
  "refresh_gone [] node_arr nnodes = Some ([], node_arr, nnodes)"
| "refresh_gone (n # ns) node_arr nnodes =
     (if \<not> NODE_VALID n then
        do {
          (ns1, arr1, nn1) \<leftarrow> refresh_gone ns node_arr nnodes;
          Some (n # ns1, arr1, nn1)
        }
      else
        (case nid_find (n_nid n) node_arr of
           None \<Rightarrow>
             do {
               n1 \<leftarrow> node_hotremove n;
               (ns1, arr1, nn1) \<leftarrow> refresh_gone ns node_arr (nnodes - 1);
               Some (n1 # ns1, arr1, nn1)
             }
         | Some j \<Rightarrow>
             do {
               (ns1, arr1, nn1) \<leftarrow> refresh_gone ns (node_arr[j := INVALID_NID]) nnodes;
               Some (n # ns1, arr1, nn1)
             }))"

fun refresh_new ::
  "'a node_env_scheme \<Rightarrow> bool \<Rightarrow> int \<Rightarrow> node list \<Rightarrow> int list \<Rightarrow> int \<Rightarrow> node list \<times> int \<times> int" where
  "refresh_new env init i [] node_arr nnodes = ([], nnodes, 0)"
| "refresh_new env init i (n # ns) node_arr nnodes =
     (if NODE_VALID n then
        (case refresh_new env init (i + 1) ns node_arr nnodes of (ns1, nn1, r) \<Rightarrow> (n # ns1, nn1, r))
      else
        (case nid_find i node_arr of
           None \<Rightarrow>
             (case refresh_new env init (i + 1) ns node_arr nnodes of (ns1, nn1, r) \<Rightarrow> (n # ns1, nn1, r))
         | Some j \<Rightarrow>
             (case node_init env i (\<not> init) of
                (n1, r1) \<Rightarrow>
                  if r1 \<noteq> 0 then (n1 # ns, nnodes, -1)
                  else
                    (case refresh_new env init (i + 1) ns (node_arr[j := INVALID_NID]) (nnodes + 1) of
                       (ns1, nn1, r) \<Rightarrow> (n1 # ns1, nn1, r)))))"

definition node_group_refresh :: "'a node_env_scheme \<Rightarrow> bool \<Rightarrow> node_group \<Rightarrow> (node_group \<times> int) option" where
  "node_group_refresh env init g =
     (if \<not> ne_node_arr_ok env then Some (g, -1)
      else do {
        (arr, res) \<leftarrow> os_sysfs_node_enum (sysfs.truncate env) (replicate (length (ng_nodes g)) 0);
        (case res of
           None \<Rightarrow> Some (g, -1)
         | Some num \<Rightarrow>
             if num < 0 \<or> num > int (length (ng_nodes g)) then Some (g, -1)
             else do {
               (ns1, arr1, nn1) \<leftarrow> refresh_gone (ng_nodes g) (take (nat num) arr) (ng_nnodes g);
               let (ns2, nn2, r2) = refresh_new env init 0 ns1 arr1 nn1;
               let g2 = g\<lparr>ng_nodes := ns2, ng_nnodes := nn2\<rparr>;
               if r2 \<noteq> 0 then Some (g2, -1)
               else do {
                 (g3, r3) \<leftarrow> cpu_refresh env init g2;
                 if r3 \<noteq> 0 then Some (g3, -1)
                 else do {
                   (g4, r4) \<leftarrow> meminfo_refresh env g3;
                   Some (g4, if r4 \<noteq> 0 then -1 else 0)
                 }
               }
             })
      })"

text \<open>
  node_group_init: possible nodes and processors come from libnuma; the slots
  are created without a node, then the group is refreshed.  node_group_fini
  clears the nodes.
\<close>

definition node_group_zero :: node_group where
  "node_group_zero = \<lparr>ng_nodes = [], ng_nnodes = 0, ng_cpuid_max = 0, ng_intval_ms = 0,
     ng_inited = False, ng_ncpus = 0\<rparr>"

definition node_group_init :: "'a node_env_scheme \<Rightarrow> bool \<Rightarrow> nat \<Rightarrow> bool \<Rightarrow> (node_group \<times> int) option" where
  "node_group_init env numa_ok nnodes_max nodes_ok =
     (if \<not> numa_ok \<or> \<not> nodes_ok then Some (node_group_zero, -1)
      else node_group_refresh env True
             (node_group_zero\<lparr>ng_nodes := replicate nnodes_max (fst (node_init env INVALID_NID False)),
                ng_inited := True\<rparr>))"

fun node_fini_all :: "node list \<Rightarrow> node list option" where
  "node_fini_all [] = Some []"
| "node_fini_all (n # ns) = do { n1 \<leftarrow> node_fini n; ns1 \<leftarrow> node_fini_all ns; Some (n1 # ns1) }"

definition node_group_fini :: "node_group \<Rightarrow> node_group option" where
  "node_group_fini g =
     (if ng_inited g then
        do { ns \<leftarrow> node_fini_all (ng_nodes g); Some (g\<lparr>ng_nodes := ns, ng_nnodes := 0\<rparr>) }
      else Some g)"

section \<open>Looking nodes up\<close>

fun node_by_cpu_from :: "nat \<Rightarrow> node list \<Rightarrow> int \<Rightarrow> nat option option" where
  "node_by_cpu_from i [] cpuid = Some None"
| "node_by_cpu_from i (n # ns) cpuid =
     (if \<not> NODE_VALID n then node_by_cpu_from (i + 1) ns cpuid
      else do {
        cs \<leftarrow> n_cpus n;
        if cpuid \<in> cpu_cpuid ` set cs then Some (Some i) else node_by_cpu_from (i + 1) ns cpuid
      })"

definition node_by_cpu :: "node_group \<Rightarrow> int \<Rightarrow> nat option option" where
  "node_by_cpu g cpuid =
     (if cpuid = INVALID_CPUID then Some None else node_by_cpu_from 0 (ng_nodes g) cpuid)"

fun node_valid_from :: "nat \<Rightarrow> node list \<Rightarrow> int \<Rightarrow> nat \<Rightarrow> nat option" where
  "node_valid_from i [] node_idx nvalid = None"
| "node_valid_from i (n # ns) node_idx nvalid =
     (if NODE_VALID n then
        if node_idx = int nvalid then Some i else node_valid_from (i + 1) ns node_idx (nvalid + 1)
      else node_valid_from (i + 1) ns node_idx nvalid)"

definition node_valid_get :: "node_group \<Rightarrow> int \<Rightarrow> nat option" where
  "node_valid_get g node_idx = node_valid_from 0 (ng_nodes g) node_idx 0"

definition node_meminfo_get :: "node_group \<Rightarrow> int \<Rightarrow> node_meminfo \<Rightarrow> node_meminfo option" where
  "node_meminfo_get g nid info =
     do { n \<leftarrow> node_get g nid; Some (if NODE_VALID n then n_meminfo n else info) }"

section \<open>Counters\<close>

definition node_countval_update :: "perf_count_id \<Rightarrow> u64 \<Rightarrow> node \<Rightarrow> node" where
  "node_countval_update i v n = n\<lparr>n_countval := (n_countval n)(i := n_countval n i + v)\<rparr>"

definition node_countval_get :: "node \<Rightarrow> ui_count_id \<Rightarrow> u64" where
  "node_countval_get n u = ui_perf_count_aggr u (n_countval n)"

definition node_profiling_clear :: "node_group \<Rightarrow> node_group" where
  "node_profiling_clear g = g\<lparr>ng_nodes := map (\<lambda>n. n\<lparr>n_countval := (\<lambda>_. 0)\<rparr>) (ng_nodes g)\<rparr>"

text \<open>
  countval_sum adds up a per-processor array over the processors of a node; it
  stops after ncpus of them.
\<close>

fun countval_sum_cpus :: "count_value list \<Rightarrow> ui_count_id \<Rightarrow> perf_cpu list \<Rightarrow> int \<Rightarrow> u64 option" where
  "countval_sum_cpus arr u [] left = Some 0"
| "countval_sum_cpus arr u (c # cs) left =
     (if left \<le> 0 then Some 0
      else if cpu_valid c then
        do {
          v \<leftarrow> arr_get arr (cpu_cpuid c);
          rest \<leftarrow> countval_sum_cpus arr u cs (left - 1);
          Some (ui_perf_count_aggr u v + rest)
        }
      else countval_sum_cpus arr u cs left)"

definition countval_sum :: "node_group \<Rightarrow> count_value list \<Rightarrow> int \<Rightarrow> ui_count_id \<Rightarrow> u64 option" where
  "countval_sum g arr nid u =
     do {
       n \<leftarrow> node_get g nid;
       if \<not> NODE_VALID n then Some 0
       else do { cs \<leftarrow> n_cpus n; countval_sum_cpus arr u cs (n_ncpus n) }
     }"

fun countval_sum_nodes :: "node_group \<Rightarrow> count_value list \<Rightarrow> nat \<Rightarrow> nat \<Rightarrow> ui_count_id \<Rightarrow> u64 option" where
  "countval_sum_nodes g arr i 0 u = Some 0"
| "countval_sum_nodes g arr i (Suc k) u =
     do {
       v \<leftarrow> countval_sum g arr (int i) u;
       rest \<leftarrow> countval_sum_nodes g arr (i + 1) k u;
       Some (v + rest)
     }"

definition node_countval_sum :: "node_group \<Rightarrow> count_value list \<Rightarrow> int \<Rightarrow> ui_count_id \<Rightarrow> u64 option" where
  "node_countval_sum g arr nid u =
     (if nid \<noteq> NODE_ALL then countval_sum g arr nid u
      else countval_sum_nodes g arr 0 (length (ng_nodes g)) u)"

section \<open>Walking the processors\<close>

text \<open>
  node_cpu_traverse: a processor marked for removal is released and its slot
  freed; a new one is given to hotadd_func; func is called for the valid ones
  that are not waiting for a hotadd_func.  With err_ret the walk stops at the
  first result that is not 0.  The state the functions work on extends the
  kernel resources.
\<close>

type_synonym 'a cpu_op = "perf_cpu \<Rightarrow> 'a kern_scheme \<Rightarrow> (perf_cpu \<times> 'a kern_scheme \<times> int) option"

definition cpu_visit ::
  "'a cpu_op option \<Rightarrow> bool \<Rightarrow> 'a cpu_op option \<Rightarrow> perf_cpu \<Rightarrow> 'a kern_scheme
    \<Rightarrow> (perf_cpu \<times> 'a kern_scheme \<times> int) option" where
  "cpu_visit func err_ret hotadd_func c k =
     (if cpu_hotremove c then
        (case pf_resource_free c k of
           (c1, k1) \<Rightarrow> Some (c1\<lparr>cpu_hotremove := False, cpu_cpuid := INVALID_CPUID\<rparr>, k1, 0))
      else do {
        (c1, k1) \<leftarrow>
          (case hotadd_func of
             Some f \<Rightarrow>
               if cpu_hotadd c then
                 do { (c1, k1, _) \<leftarrow> f c k; Some (c1\<lparr>cpu_hotadd := False\<rparr>, k1) }
               else Some (c, k)
           | None \<Rightarrow> Some (c, k));
        (case func of
           Some f \<Rightarrow>
             if cpu_valid c1 \<and> \<not> cpu_hotadd c1 then
               do {
                 (c2, k2, ret) \<leftarrow> f c1 k1;
                 Some (c2, k2, if err_ret then ret else 0)
               }
             else Some (c1, k1, 0)
         | None \<Rightarrow> Some (c1, k1, 0))
      })"

fun cpus_visit ::
  "'a cpu_op option \<Rightarrow> bool \<Rightarrow> 'a cpu_op option \<Rightarrow> perf_cpu list \<Rightarrow> 'a kern_scheme
    \<Rightarrow> (perf_cpu list \<times> 'a kern_scheme \<times> int) option" where
  "cpus_visit func err_ret hotadd_func [] k = Some ([], k, 0)"
| "cpus_visit func err_ret hotadd_func (c # cs) k =
     do {
       (c1, k1, ret) \<leftarrow> cpu_visit func err_ret hotadd_func c k;
       if ret \<noteq> 0 then Some (c1 # cs, k1, ret)
       else do {
         (cs1, k2, r) \<leftarrow> cpus_visit func err_ret hotadd_func cs k1;
         Some (c1 # cs1, k2, r)
       }
     }"

fun nodes_visit ::
  "'a cpu_op option \<Rightarrow> bool \<Rightarrow> 'a cpu_op option \<Rightarrow> node list \<Rightarrow> 'a kern_scheme
    \<Rightarrow> (node list \<times> 'a kern_scheme \<times> int) option" where
  "nodes_visit func err_ret hotadd_func [] k = Some ([], k, 0)"
| "nodes_visit func err_ret hotadd_func (n # ns) k =
     (if \<not> NODE_VALID n then
        do {
          (ns1, k1, r) \<leftarrow> nodes_visit func err_ret hotadd_func ns k;
          Some (n # ns1, k1, r)
        }
      else do {
        cs \<leftarrow> n_cpus n;
        (cs1, k1, ret) \<leftarrow> cpus_visit func err_ret hotadd_func cs k;
        let n1 = n\<lparr>n_cpus := Some cs1\<rparr>;
        if ret \<noteq> 0 then Some (n1 # ns, k1, ret)
        else do {
          let n2 = (if n_hotremove n1 then n1\<lparr>n_nid := INVALID_NID, n_hotremove := False\<rparr> else n1);
          (ns1, k2, r) \<leftarrow> nodes_visit func err_ret hotadd_func ns k1;
          Some (n2 # ns1, k2, r)
        }
      })"

definition node_cpu_traverse ::
  "'a cpu_op option \<Rightarrow> bool \<Rightarrow> 'a cpu_op option \<Rightarrow> node_group \<Rightarrow> 'a kern_scheme
    \<Rightarrow> (node_group \<times> 'a kern_scheme \<times> int) option" where
  "node_cpu_traverse func err_ret hotadd_func g k =
     do {
       (ns, k1, r) \<leftarrow> nodes_visit func err_ret hotadd_func (ng_nodes g) k;
       Some (g\<lparr>ng_nodes := ns\<rparr>, k1, r)
     }"

section \<open>Uncore units\<close>

definition NODE_QPI_MAX :: nat where "NODE_QPI_MAX = 3"
definition NODE_IMC_MAX :: nat where "NODE_IMC_MAX = 8"

text \<open>
  The units found are copied to every valid node; of a node's array only the
  first qpi_num (imc_num) entries are kept in the model, the only ones read.
\<close>

definition node_qpi_init :: "sysfs \<Rightarrow> qpi_info list \<Rightarrow> node_group \<Rightarrow> (node_group \<times> int) option" where
  "node_qpi_init fs qpi_tmp g =
     do {
       (q1, n1) \<leftarrow> os_sysfs_uncore_qpi_init fs NODE_QPI_MAX qpi_tmp;
       (q, num) \<leftarrow> (if n1 = 0 then os_sysfs_uncore_upi_init fs NODE_QPI_MAX q1 else Some (q1, n1));
       Some (g\<lparr>ng_nodes := map (\<lambda>n. if NODE_VALID n \<and> num > 0 then n\<lparr>n_qpi := take num q\<rparr> else n)
                             (ng_nodes g)\<rparr>, 0)
     }"

definition node_imc_init :: "sysfs \<Rightarrow> imc_info list \<Rightarrow> node_group \<Rightarrow> (node_group \<times> int) option" where
  "node_imc_init fs imc_tmp g =
     do {
       (q, num) \<leftarrow> os_sysfs_uncore_imc_init fs NODE_IMC_MAX imc_tmp;
       Some (g\<lparr>ng_nodes := map (\<lambda>n. if NODE_VALID n \<and> num > 0 then n\<lparr>n_imc := take num q\<rparr> else n)
                             (ng_nodes g)\<rparr>, 0)
     }"

section \<open>Sums over the processors\<close>

definition cpus_sum :: "count_value list \<Rightarrow> ui_count_id \<Rightarrow> perf_cpu list \<Rightarrow> u64" where
  "cpus_sum arr u cs = sum_list (map (\<lambda>c. ui_perf_count_aggr u (arr ! nat (cpu_cpuid c))) cs)"

definition cpus_in :: "count_value list \<Rightarrow> perf_cpu list \<Rightarrow> bool" where
  "cpus_in arr cs \<longleftrightarrow> (\<forall>c \<in> set cs. cpu_valid c \<longrightarrow> 0 \<le> cpu_cpuid c \<and> cpu_cpuid c < int (length arr))"

lemma countval_sum_cpus_eq:
  "cpus_in arr cs \<Longrightarrow>
   countval_sum_cpus arr u cs left = Some (cpus_sum arr u (take (nat left) (filter cpu_valid cs)))"
proof (induction arr u cs left rule: countval_sum_cpus.induct)
  case (2 arr u c cs left)
  show ?case
  proof (cases "left \<le> 0")
    case False
    then have n: "nat left = Suc (nat (left - 1))" by simp
    have "cpus_in arr cs" using 2(3) by (simp add: cpus_in_def)
    then show ?thesis
      using 2 False by (auto simp: cpus_sum_def cpus_in_def arr_get_def n)
  qed (simp add: cpus_sum_def)
qed (simp add: cpus_sum_def)

definition node_online :: "node \<Rightarrow> perf_cpu list" where
  "node_online n = (if NODE_VALID n then filter cpu_valid (the (n_cpus n)) else [])"

definition node_counts :: "count_value list \<Rightarrow> node \<Rightarrow> bool" where
  "node_counts arr n \<longleftrightarrow>
     (NODE_VALID n \<longrightarrow> (\<exists>cs. n_cpus n = Some cs \<and> cpus_in arr cs \<and> n_ncpus n = int (length (filter cpu_valid cs))))"

lemma countval_sum_eq:
  assumes "i < length (ng_nodes g)" "node_counts arr (ng_nodes g ! i)"
  shows "countval_sum g arr (int i) u = Some (cpus_sum arr u (node_online (ng_nodes g ! i)))"
  using assms
  by (auto simp: countval_sum_def node_get_def node_counts_def node_online_def countval_sum_cpus_eq cpus_sum_def)

lemma countval_sum_nodes_eq:
  "i + k = length (ng_nodes g) \<Longrightarrow> \<forall>n \<in> set (ng_nodes g). node_counts arr n \<Longrightarrow>
   countval_sum_nodes g arr i k u = Some (cpus_sum arr u (concat (map node_online (drop i (ng_nodes g)))))"
proof (induction g arr i k u rule: countval_sum_nodes.induct)
  case (2 g arr i k u)
  then have i: "i < length (ng_nodes g)" by simp
  have "drop i (ng_nodes g) = ng_nodes g ! i # drop (Suc i) (ng_nodes g)"
    using i by (simp add: Cons_nth_drop_Suc)
  then show ?case
    using 2 countval_sum_eq [OF i, of arr u] i by (simp add: cpus_sum_def)
qed (simp add: cpus_sum_def)

text \<open>
  The counters of a process or thread, kept per processor, are added up
  over all nodes: when every node knows the number of its processors and the
  array reaches up to their identifiers, the result is the sum over all
  processors of all valid nodes (modulo 2^64), and no access is outside of the
  array.
\<close>

theorem node_countval_sum_all:
  assumes "\<forall>n \<in> set (ng_nodes g). node_counts arr n"
  shows "node_countval_sum g arr NODE_ALL u
     = Some (cpus_sum arr u (concat (map node_online (ng_nodes g))))"
  using countval_sum_nodes_eq [of 0 _ g arr u] assms by (simp add: node_countval_sum_def)

theorem node_countval_sum_all_witness:
  "node_countval_sum
     (node_group_zero\<lparr>ng_nodes :=
        [node_zero\<lparr>n_nid := 0, n_ncpus := 1, n_cpus := Some [perf_cpu_zero\<lparr>cpu_cpuid := 1\<rparr>]\<rparr>,
         node_zero\<lparr>n_nid := 1, n_ncpus := 1,
           n_cpus := Some [perf_cpu_zero\<lparr>cpu_cpuid := -1\<rparr>, perf_cpu_zero]\<rparr>]\<rparr>)
     [\<lambda>_. 5, \<lambda>_. 7] NODE_ALL UI_COUNT_RMA = Some 12"
  by (subst node_countval_sum_all)
    (simp_all add: node_group_zero_def node_zero_def perf_cpu_zero_def node_counts_def cpus_in_def
      INVALID_CPUID_def cpus_sum_def node_online_def NODE_VALID_def INVALID_NID_def
      ui_perf_count_aggr_def get_ui_perf_count_map_def ui_perf_count_map_def)

section \<open>Hot-plugging\<close>

lemma nid_find_from_Some:
  "nid_find_from i nid xs = Some j \<Longrightarrow> i \<le> j \<and> j < i + length xs \<and> xs ! (j - i) = nid"
proof (induction i nid xs rule: nid_find_from.induct)
  case (2 i nid x xs)
  then show ?case by (fastforce simp: nth_Cons' split: if_splits)
qed simp

lemma nid_find_Some: "nid_find nid xs = Some j \<Longrightarrow> j < length xs \<and> xs ! j = nid \<and> nid \<noteq> INVALID_NID"
  using nid_find_from_Some [of 0 nid xs j] by (simp add: nid_find_def split: if_splits)

lemma nid_find_from_None: "nid_find_from i nid xs = None \<longleftrightarrow> nid \<notin> set xs"
  by (induction i nid xs rule: nid_find_from.induct) auto

lemma nid_find_None: "nid_find nid xs = None \<longleftrightarrow> nid = INVALID_NID \<or> nid \<notin> set xs"
  by (simp add: nid_find_def nid_find_from_None)

text \<open>Overwriting an entry of a list without repetitions.\<close>

definition nids :: "int list \<Rightarrow> int list" where
  "nids xs = filter (\<lambda>x. x \<noteq> INVALID_NID) xs"

lemma nids_upd:
  assumes "distinct (nids xs)" "j < length xs" "xs ! j \<noteq> INVALID_NID"
  shows "distinct (nids (xs[j := INVALID_NID]))"
    and "set (nids (xs[j := INVALID_NID])) = set (nids xs) - {xs ! j}"
proof -
  have xs: "xs = take j xs @ xs ! j # drop (Suc j) xs" using assms(2) by (rule id_take_nth_drop)
  have n: "nids xs = nids (take j xs) @ xs ! j # nids (drop (Suc j) xs)"
    using assms(3) by (subst xs) (simp add: nids_def)
  have n': "nids (xs[j := INVALID_NID]) = nids (take j xs) @ nids (drop (Suc j) xs)"
    using assms(2) by (simp add: upd_conv_take_nth_drop nids_def)
  show "distinct (nids (xs[j := INVALID_NID]))" using assms(1) unfolding n n' by simp
  show "set (nids (xs[j := INVALID_NID])) = set (nids xs) - {xs ! j}"
    using assms(1) unfolding n n' by auto
qed

text \<open>A node that counts: valid and not marked for removal.\<close>

definition node_live :: "node \<Rightarrow> bool" where
  "node_live n \<longleftrightarrow> NODE_VALID n \<and> \<not> n_hotremove n"

definition num_live :: "node list \<Rightarrow> int" where
  "num_live ns = int (length (filter node_live ns))"

lemma num_live_Cons: "num_live (n # ns) = (if node_live n then 1 else 0) + num_live ns"
  by (simp add: num_live_def)

definition gone_mark :: "int set \<Rightarrow> node \<Rightarrow> node" where
  "gone_mark on n =
     (if NODE_VALID n \<and> n_nid n \<notin> on
      then n\<lparr>n_hotremove := True, n_cpus := map_option (os_perf_cpuarr_fini True) (n_cpus n)\<rparr> else n)"

lemma refresh_gone_result:
  assumes "\<forall>n \<in> set ns. NODE_VALID n \<longrightarrow> n_cpus n \<noteq> None \<and> \<not> n_hotremove n"
    and "distinct (map n_nid (filter NODE_VALID ns))" "distinct (nids arr)"
  shows "\<exists>arr1. refresh_gone ns arr nn
       = Some (map (gone_mark (set (nids arr))) ns, arr1,
               nn - num_live ns + num_live (map (gone_mark (set (nids arr))) ns)) \<and>
     set (nids arr1) = set (nids arr) - n_nid ` set (filter NODE_VALID ns)"
  using assms
proof (induction ns arr nn rule: refresh_gone.induct)
  case (2 n ns arr nn)
  show ?case
  proof (cases "NODE_VALID n")
    case False
    then show ?thesis
      using "2.IH"(1) [OF False] "2.prems"
      by (auto simp: gone_mark_def num_live_def node_live_def)
  next
    case valid: True
    show ?thesis
    proof (cases "nid_find (n_nid n) arr")
      case None
      then have off: "n_nid n \<notin> set (nids arr)" by (auto simp: nid_find_None nids_def)
      obtain cs where cs: "n_cpus n = Some cs" using "2.prems"(1) valid by auto
      have "\<exists>arr1. refresh_gone ns arr (nn - 1)
         = Some (map (gone_mark (set (nids arr))) ns, arr1,
                 nn - 1 - num_live ns + num_live (map (gone_mark (set (nids arr))) ns)) \<and>
       set (nids arr1) = set (nids arr) - n_nid ` set (filter NODE_VALID ns)"
        by (rule "2.IH"(2)) (use "2.prems" valid None cs in \<open>auto simp: node_hotremove_def\<close>)
      moreover have "gone_mark (set (nids arr)) n = n\<lparr>n_hotremove := True, n_cpus := Some (os_perf_cpuarr_fini True cs)\<rparr>"
        using valid off cs by (simp add: gone_mark_def)
      moreover have "node_live n" using valid "2.prems"(1) by (simp add: node_live_def)
      ultimately show ?thesis
        using valid None off cs by (auto simp: num_live_Cons node_hotremove_def node_live_def nids_def)
    next
      case (Some j)
      then have j: "j < length arr" "arr ! j = n_nid n" "n_nid n \<noteq> INVALID_NID"
        using nid_find_Some by blast+
      then have on: "n_nid n \<in> set (nids arr)" using nth_mem [of j arr] by (simp add: nids_def)
      let ?arr = "arr[j := INVALID_NID]"
      have upd: "distinct (nids ?arr)" "set (nids ?arr) = set (nids arr) - {n_nid n}"
        using nids_upd [OF "2.prems"(3), of j] j by auto
      have ih: "\<exists>arr1. refresh_gone ns ?arr nn
         = Some (map (gone_mark (set (nids ?arr))) ns, arr1,
                 nn - num_live ns + num_live (map (gone_mark (set (nids ?arr))) ns)) \<and>
       set (nids arr1) = set (nids ?arr) - n_nid ` set (filter NODE_VALID ns)"
        by (rule "2.IH"(3)) (use "2.prems" valid Some upd in auto)
      have same: "map (gone_mark (set (nids ?arr))) ns = map (gone_mark (set (nids arr))) ns"
      proof (rule map_cong [OF refl])
        fix m assume "m \<in> set ns"
        moreover have "n_nid n \<notin> n_nid ` set (filter NODE_VALID ns)" using "2.prems"(2) valid by simp
        ultimately have "n_nid m \<noteq> n_nid n" if "NODE_VALID m"
          using that by (auto simp: image_iff)
        then show "gone_mark (set (nids ?arr)) m = gone_mark (set (nids arr)) m"
          by (auto simp: gone_mark_def upd(2))
      qed
      have hd: "gone_mark (set (nids arr)) n = n" using on by (simp add: gone_mark_def)
      show ?thesis
        using ih [unfolded same] valid Some on upd(2) hd
        by (auto simp: num_live_Cons)
    qed
  qed
qed (simp add: num_live_def)

definition new_slot :: "'a node_env_scheme \<Rightarrow> bool \<Rightarrow> int set \<Rightarrow> int \<Rightarrow> node \<Rightarrow> node \<Rightarrow> bool" where
  "new_slot env init on i n n1 \<longleftrightarrow>
     (if \<not> NODE_VALID n \<and> i \<in> on
      then ne_cpus_ok env i \<and> n1 = fst (node_init env i (\<not> init)) else n1 = n)"

lemma refresh_new_result:
  assumes "refresh_new env init i ns arr nn = (ns1, nn1, 0)" "0 \<le> i"
    and "\<forall>n \<in> set ns. \<not> NODE_VALID n \<longrightarrow> \<not> n_hotremove n"
  shows "length ns1 = length ns \<and> nn1 = nn - num_live ns + num_live ns1 \<and>
     (\<forall>k < length ns. new_slot env init (set arr) (i + int k) (ns ! k) (ns1 ! k))"
  using assms
proof (induction env init i ns arr nn arbitrary: ns1 nn1 rule: refresh_new.induct)
  case (2 env init i n ns arr nn)
  have i: "i \<noteq> INVALID_NID" using "2.prems"(2) by (simp add: INVALID_NID_def)
  consider (valid) "NODE_VALID n" | (none) "\<not> NODE_VALID n" "nid_find i arr = None"
    | (some) j where "\<not> NODE_VALID n" "nid_find i arr = Some j"
    by (cases "nid_find i arr") auto
  then show ?case
  proof cases
    case valid
    then obtain ns2 where r: "refresh_new env init (i + 1) ns arr nn = (ns2, nn1, 0)" "ns1 = n # ns2"
      using "2.prems"(1) by (auto split: prod.splits)
    show ?thesis
      using "2.IH"(1) [OF valid r(1)] "2.prems"(2,3) valid r(2)
      by (simp add: All_less_Suc2 num_live_Cons add.assoc) (simp add: new_slot_def)
  next
    case none
    then obtain ns2 where r: "refresh_new env init (i + 1) ns arr nn = (ns2, nn1, 0)" "ns1 = n # ns2"
      using "2.prems"(1) by (auto split: prod.splits)
    have "i \<notin> set arr" using none(2) i by (simp add: nid_find_None)
    then show ?thesis
      using "2.IH"(2) [OF none r(1)] "2.prems"(2,3) none r(2)
      by (simp add: All_less_Suc2 num_live_Cons add.assoc) (simp add: new_slot_def)
  next
    case some
    have j: "j < length arr" "arr ! j = i" using nid_find_Some [OF some(2)] by auto
    define n1 where "n1 = fst (node_init env i (\<not> init))"
    have ok: "ne_cpus_ok env i"
      using "2.prems"(1) some i
      by (auto simp: node_init_def NODE_VALID_def Let_def node_zero_def split: if_splits)
    have n1: "n_nid n1 = i" "\<not> n_hotremove n1" and init: "node_init env i (\<not> init) = (n1, 0)"
      using ok i by (auto simp: n1_def node_init_def NODE_VALID_def Let_def node_zero_def)
    obtain ns2 where r: "refresh_new env init (i + 1) ns (arr[j := INVALID_NID]) (nn + 1) = (ns2, nn1, 0)"
        "ns1 = n1 # ns2"
      using "2.prems"(1) some by (auto simp: init split: prod.splits)
    have mem: "i + 1 + int k \<in> set (arr[j := INVALID_NID]) \<longleftrightarrow> i + 1 + int k \<in> set arr" for k
    proof -
      have "i + 1 + int k \<noteq> arr ! j" "i + 1 + int k \<noteq> INVALID_NID"
        using j "2.prems"(2) by (simp_all add: INVALID_NID_def)
      then show ?thesis using j(1) by (intro set_update_other)
    qed
    have "i \<in> set arr" using nth_mem [OF j(1)] j(2) by simp
    then have hd: "new_slot env init (set arr) i n n1"
      using some(1) ok by (simp add: new_slot_def n1_def)
    have live: "node_live n1" "\<not> node_live n"
      using n1 i some(1) by (simp_all add: node_live_def NODE_VALID_def)
    have tl: "new_slot env init (set (arr[j := INVALID_NID])) (i + 1 + int k) m m'
       = new_slot env init (set arr) (i + 1 + int k) m m'" for k m m'
      by (simp only: new_slot_def mem)
    have "length ns2 = length ns \<and> nn1 = (nn + 1) - num_live ns + num_live ns2 \<and>
       (\<forall>k < length ns. new_slot env init (set (arr[j := INVALID_NID])) (i + 1 + int k) (ns ! k) (ns2 ! k))"
      by (rule "2.IH"(3) [OF some init [symmetric] _ r(1)]) (use "2.prems"(2,3) in auto)
    then show ?thesis
      using hd live unfolding r(2) tl
      by (simp add: All_less_Suc2 num_live_Cons add.assoc)
  qed
qed (simp add: num_live_def)

text \<open>What sysfs shows: the online nodes, and the processors of each of them.\<close>

definition sysfs_shows ::
  "'a node_env_scheme \<Rightarrow> nat \<Rightarrow> (nat \<times> nat) list \<Rightarrow> (int \<Rightarrow> (nat \<times> nat) list) \<Rightarrow> bool" where
  "sysfs_shows env nmax rs crs \<longleftrightarrow>
     sf_dup_ok env \<and> nmax < 2 ^ 31 \<and> ne_ncpus_max env < 2 ^ 31 \<and>
     sf_node_online env = Some (cpulist_str rs) \<and> cpulist_file rs \<and>
     distinct (cpulist_vals rs) \<and> set (cpulist_vals rs) \<subseteq> {0..<int nmax} \<and>
     (\<forall>i \<in> set (cpulist_vals rs).
        sf_node_cpulist env i = Some (cpulist_str (crs i)) \<and> cpulist_file (crs i) \<and>
        length (cpulist_vals (crs i)) \<le> ne_ncpus_max env)"

lemma truncate_sysfs [simp]:
  "sf_dup_ok (sysfs.truncate env) = sf_dup_ok env"
  "sf_node_online (sysfs.truncate env) = sf_node_online env"
  "sf_node_cpulist (sysfs.truncate env) = sf_node_cpulist env"
  "sf_cpu_online (sysfs.truncate env) = sf_cpu_online env"
  "sf_meminfo (sysfs.truncate env) = sf_meminfo env"
  by (simp_all add: sysfs.truncate_def)

lemma cpulist_vals_nonneg: "x \<in> set (cpulist_vals rs) \<Longrightarrow> 0 \<le> x"
  by (auto simp: cpulist_vals_def range_vals_def simp del: upt_Suc)

definition cpu_slot ::
  "bool \<Rightarrow> (int \<Rightarrow> (nat \<times> nat) list) \<Rightarrow> int set \<Rightarrow> node \<Rightarrow> node \<Rightarrow> bool" where
  "cpu_slot init crs on n n1 \<longleftrightarrow>
     (if \<not> NODE_VALID n then n1 = n
      else n_nid n1 = n_nid n \<and> n_hotremove n1 = n_hotremove n \<and>
        (\<exists>cs cs1. n_cpus n = Some cs \<and> n_cpus n1 = Some cs1 \<and>
           (n_nid n \<in> on \<longrightarrow>
              os_perf_cpuarr_refresh init (cpulist_vals (crs (n_nid n))) cs = (cs1, 0) \<and>
              n_ncpus n1 = int (length (cpulist_vals (crs (n_nid n)))))))"

lemma cpu_refresh_nodes_result:
  assumes "cpu_refresh_nodes env init ns arr m = Some (ns1, Some m1)"
    and "length arr = ne_ncpus_max env" "sysfs_shows env nmax rs crs"
  shows "list_all2 (cpu_slot init crs (set (cpulist_vals rs))) ns ns1"
  using assms
proof (induction env init ns arr m arbitrary: ns1 rule: cpu_refresh_nodes.induct)
  case (2 env init n ns arr m)
  show ?case
  proof (cases "NODE_VALID n")
    case False
    then obtain ns2 where "cpu_refresh_nodes env init ns arr m = Some (ns2, Some m1)" "ns1 = n # ns2"
      using "2.prems"(1) by (auto simp: Option.bind_eq_Some_conv)
    then show ?thesis
      using "2.IH"(1) [OF False] "2.prems" False by (simp add: cpu_slot_def)
  next
    case valid: True
    obtain arr1 num where
        enum: "os_sysfs_cpu_enum (sysfs.truncate env) (n_nid n) arr = Some (arr1, Some num)"
        "\<not> (num < 0 \<or> num > int (ne_ncpus_max env))"
      using "2.prems"(1) valid
      by (cases "os_sysfs_cpu_enum (sysfs.truncate env) (n_nid n) arr")
        (auto split: option.splits if_splits)
    obtain cs where cs1: "n_cpus n = Some cs"
      using "2.prems"(1) valid enum by (cases "n_cpus n") auto
    obtain cs1 where cs2: "os_perf_cpuarr_refresh init (take (nat num) arr1) cs = (cs1, 0)"
      using "2.prems"(1) valid enum cs1
      by (cases "os_perf_cpuarr_refresh init (take (nat num) arr1) cs") (auto split: if_splits)
    note cs = cs1 cs2
    obtain ns2 where rest:
        "cpu_refresh_nodes env init ns arr1 (max m (cpuid_max_get (take (nat num) arr1))) = Some (ns2, Some m1)"
        "ns1 = n\<lparr>n_cpus := Some cs1, n_ncpus := num\<rparr> # ns2"
      using "2.prems"(1) valid enum cs by (auto simp: Option.bind_eq_Some_conv)
    have len: "length arr1 = ne_ncpus_max env"
      using enum(1) "2.prems"(2) by (auto simp: os_sysfs_cpu_enum_def dest: file_int_extract_length)
    have ids: "take (nat num) arr1 = cpulist_vals (crs (n_nid n))" "num = int (length (cpulist_vals (crs (n_nid n))))"
      if "n_nid n \<in> set (cpulist_vals rs)"
    proof -
      have "os_sysfs_cpu_enum (sysfs.truncate env) (n_nid n) arr =
        Some (cpulist_vals (crs (n_nid n)) @ drop (length (cpulist_vals (crs (n_nid n)))) arr,
              Some (int (length (cpulist_vals (crs (n_nid n))))))"
        using that "2.prems"(2,3) file_int_extract_cpulist [of "crs (n_nid n)" arr]
        by (simp add: os_sysfs_cpu_enum_def sysfs_shows_def)
      then show "take (nat num) arr1 = cpulist_vals (crs (n_nid n))"
        "num = int (length (cpulist_vals (crs (n_nid n))))"
        using enum(1) by auto
    qed
    have "list_all2 (cpu_slot init crs (set (cpulist_vals rs))) ns ns2"
      by (rule "2.IH"(2) [OF _ enum(1) refl refl enum(2) cs(1) refl refl cs(2) [symmetric] _ rest(1) len])
        (use valid "2.prems"(3) in auto)
    moreover have "cpu_slot init crs (set (cpulist_vals rs)) n (n\<lparr>n_cpus := Some cs1, n_ncpus := num\<rparr>)"
      using valid cs ids by (auto simp: cpu_slot_def)
    ultimately show ?thesis by (simp add: rest(2))
  qed
qed simp

lemma cpu_refresh_nodes_files:
  "cpu_refresh_nodes env init ns arr m = Some (ns1, Some m1) \<Longrightarrow>
   \<forall>n \<in> set ns. NODE_VALID n \<longrightarrow> sf_node_cpulist env (n_nid n) \<noteq> None"
proof (induction env init ns arr m arbitrary: ns1 rule: cpu_refresh_nodes.induct)
  case (2 env init n ns arr m)
  show ?case
  proof (cases "NODE_VALID n")
    case False
    then show ?thesis using 2 by (auto simp: Option.bind_eq_Some_conv)
  next
    case valid: True
    then obtain arr1 num where enum: "os_sysfs_cpu_enum (sysfs.truncate env) (n_nid n) arr = Some (arr1, Some num)"
        "\<not> (num < 0 \<or> num > int (ne_ncpus_max env))"
      using "2.prems"(1)
      by (cases "os_sysfs_cpu_enum (sysfs.truncate env) (n_nid n) arr") (auto split: option.splits if_splits)
    obtain cs where cs1: "n_cpus n = Some cs"
      using "2.prems"(1) valid enum by (cases "n_cpus n") auto
    obtain cs1 where cs2: "os_perf_cpuarr_refresh init (take (nat num) arr1) cs = (cs1, 0)"
      using "2.prems"(1) valid enum cs1
      by (cases "os_perf_cpuarr_refresh init (take (nat num) arr1) cs") (auto split: if_splits)
    obtain ns2 where rest:
        "cpu_refresh_nodes env init ns arr1 (max m (cpuid_max_get (take (nat num) arr1))) = Some (ns2, Some m1)"
      using "2.prems"(1) valid enum cs1 cs2 by (auto simp: Option.bind_eq_Some_conv)
    have "\<forall>n \<in> set ns. NODE_VALID n \<longrightarrow> sf_node_cpulist env (n_nid n) \<noteq> None"
      by (rule "2.IH"(2) [OF _ enum(1) refl refl enum(2) cs1 refl refl cs2 [symmetric] _ rest]) (use valid in auto)
    moreover have "sf_node_cpulist env (n_nid n) \<noteq> None"
      using enum(1) by (auto simp: os_sysfs_cpu_enum_def file_int_extract_def split: option.splits)
    ultimately show ?thesis by simp
  qed
qed simp

lemma meminfo_refresh_nodes_result:
  "meminfo_refresh_nodes fs ns = Some (ns1, r) \<Longrightarrow> list_all2 (\<lambda>n n1. \<exists>mi. n1 = n\<lparr>n_meminfo := mi\<rparr>) ns ns1"
proof (induction ns arbitrary: ns1 r)
  case (Cons n ns)
  have same: "list_all2 (\<lambda>n n1. \<exists>mi. n1 = n\<lparr>n_meminfo := mi\<rparr>) xs xs" for xs :: "node list"
    by (rule list_all2_refl) (metis node.surjective node.update_convs(5))
  show ?case
  proof (cases "NODE_VALID n")
    case False
    then obtain ns2 where "meminfo_refresh_nodes fs ns = Some (ns2, r)" "ns1 = n # ns2"
      using Cons.prems by (auto simp: Option.bind_eq_Some_conv)
    then show ?thesis using Cons.IH same [of "[n]"] by simp
  next
    case True
    then show ?thesis
      using Cons.prems Cons.IH same by (auto simp: Option.bind_eq_Some_conv split: if_splits)
  qed
qed simp

text \<open>The walk: a function that leaves the identity and the mark of a processor alone.\<close>

definition op_keeps :: "'a cpu_op option \<Rightarrow> bool" where
  "op_keeps f \<longleftrightarrow>
     (\<forall>g c k. f = Some g \<longrightarrow>
        (\<exists>c1 k1 r. g c k = Some (c1, k1, r) \<and> cpu_cpuid c1 = cpu_cpuid c \<and> cpu_hotremove c1 = cpu_hotremove c))"

definition visit_slot :: "perf_cpu \<Rightarrow> perf_cpu \<Rightarrow> bool" where
  "visit_slot c c1 \<longleftrightarrow>
     \<not> cpu_hotremove c1 \<and> cpu_cpuid c1 = (if cpu_hotremove c then INVALID_CPUID else cpu_cpuid c)"

lemma op_keepsE:
  assumes "op_keeps (Some g)"
  obtains c1 k1 r where "g c k = Some (c1, k1, r)" "cpu_cpuid c1 = cpu_cpuid c" "cpu_hotremove c1 = cpu_hotremove c"
  using assms unfolding op_keeps_def by blast

lemma cpu_visit_result:
  assumes "op_keeps func" "op_keeps hfunc"
  shows "\<exists>c1 k1. cpu_visit func False hfunc c k = Some (c1, k1, 0) \<and> visit_slot c c1"
proof (cases "cpu_hotremove c")
  case True
  then show ?thesis by (auto simp: cpu_visit_def visit_slot_def split: prod.splits)
next
  case False
  let ?c1 = "case hfunc of
      Some f \<Rightarrow> if cpu_hotadd c then do { (c1, k1, _) \<leftarrow> f c k; Some (c1\<lparr>cpu_hotadd := False\<rparr>, k1) } else Some (c, k)
    | None \<Rightarrow> Some (c, k)"
  obtain c1 k1 where 1: "?c1 = Some (c1, k1)" "cpu_cpuid c1 = cpu_cpuid c" "\<not> cpu_hotremove c1"
  proof (cases hfunc)
    case None
    then show ?thesis using that [of c k] False by simp
  next
    case (Some f)
    then obtain c1 k1 r where f: "f c k = Some (c1, k1, r)" "cpu_cpuid c1 = cpu_cpuid c"
        "cpu_hotremove c1 = cpu_hotremove c"
      using assms(2) op_keepsE by blast
    then show ?thesis
    proof (cases "cpu_hotadd c")
      case True
      show ?thesis
        by (rule that [of "c1\<lparr>cpu_hotadd := False\<rparr>" k1]) (use f Some True False in simp_all)
    next
      case no: False
      show ?thesis by (rule that [of c k]) (use Some no False in simp_all)
    qed
  qed
  show ?thesis
  proof (cases func)
    case None
    then show ?thesis using 1 False by (simp add: cpu_visit_def visit_slot_def)
  next
    case (Some f)
    then obtain c2 k2 r where "f c1 k1 = Some (c2, k2, r)" "cpu_cpuid c2 = cpu_cpuid c1" "cpu_hotremove c2 = cpu_hotremove c1"
      using assms(1) op_keepsE by blast
    then show ?thesis using 1 False Some by (simp add: cpu_visit_def visit_slot_def)
  qed
qed

lemma cpus_visit_result:
  assumes "op_keeps func" "op_keeps hfunc"
  shows "\<exists>cs1 k1. cpus_visit func False hfunc cs k = Some (cs1, k1, 0) \<and> list_all2 visit_slot cs cs1"
proof (induction cs arbitrary: k)
  case (Cons c cs)
  obtain c1 k1 where "cpu_visit func False hfunc c k = Some (c1, k1, 0)" "visit_slot c c1"
    using cpu_visit_result [OF assms] by blast
  then show ?case using Cons [of k1] by auto
qed simp

definition visit_node :: "node \<Rightarrow> node \<Rightarrow> bool" where
  "visit_node n n1 \<longleftrightarrow>
     (if \<not> NODE_VALID n then n1 = n
      else \<not> n_hotremove n1 \<and> n_ncpus n1 = n_ncpus n \<and>
        n_nid n1 = (if n_hotremove n then INVALID_NID else n_nid n) \<and>
        (\<exists>cs1. n_cpus n1 = Some cs1 \<and> list_all2 visit_slot (the (n_cpus n)) cs1))"

lemma nodes_visit_result:
  assumes "op_keeps func" "op_keeps hfunc" "\<forall>n \<in> set ns. NODE_VALID n \<longrightarrow> n_cpus n \<noteq> None"
  shows "\<exists>ns1 k1. nodes_visit func False hfunc ns k = Some (ns1, k1, 0) \<and> list_all2 visit_node ns ns1"
  using assms(3)
proof (induction ns arbitrary: k)
  case (Cons n ns)
  show ?case
  proof (cases "NODE_VALID n")
    case False
    then have "visit_node n n" by (simp add: visit_node_def)
    then show ?thesis using Cons.IH [of k] Cons.prems False by auto
  next
    case True
    then obtain cs where cs: "n_cpus n = Some cs" using Cons.prems by auto
    obtain cs1 k1 where v: "cpus_visit func False hfunc cs k = Some (cs1, k1, 0)" "list_all2 visit_slot cs cs1"
      using cpus_visit_result [OF assms(1,2)] by blast
    let ?n = "n\<lparr>n_cpus := Some cs1\<rparr>"
    have "visit_node n (if n_hotremove ?n then ?n\<lparr>n_nid := INVALID_NID, n_hotremove := False\<rparr> else ?n)"
      using True cs v by (simp add: visit_node_def)
    then show ?thesis
      using Cons.IH [of k1] Cons.prems True cs v by (auto simp: Let_def)
  qed
qed simp

text \<open>A group at rest: no mark is pending, every node sits in its slot.\<close>

definition cpus_ok :: "nat \<Rightarrow> perf_cpu list \<Rightarrow> bool" where
  "cpus_ok m cs \<longleftrightarrow> length cs = m \<and> distinct_cpus cs \<and> (\<forall>c \<in> set cs. \<not> cpu_hotremove c)"

definition node_settled :: "nat \<Rightarrow> int \<Rightarrow> node \<Rightarrow> bool" where
  "node_settled m i n \<longleftrightarrow>
     \<not> n_hotremove n \<and> (NODE_VALID n \<longrightarrow> n_nid n = i \<and> (\<exists>cs. n_cpus n = Some cs \<and> cpus_ok m cs))"

definition settled :: "nat \<Rightarrow> node_group \<Rightarrow> bool" where
  "settled m g \<longleftrightarrow> ng_nnodes g = num_live (ng_nodes g) \<and>
     (\<forall>k < length (ng_nodes g). node_settled m (int k) (ng_nodes g ! k))"

lemma cpus_chain:
  assumes "cpus_ok m cs" "os_perf_cpuarr_refresh init ids cs = (cs1, 0)" "INVALID_CPUID \<notin> set ids"
    and "list_all2 visit_slot cs1 cs2"
  shows "cpus_ok m cs2 \<and> cpu_ids cs2 = set ids"
proof -
  have r: "length cs1 = length cs" "distinct_cpus cs1" "cpu_ids cs1 = cpu_ids cs \<union> set ids"
      "\<And>k. k < length cs \<Longrightarrow> refresh_slot init (set ids) (cpu_ids cs) (cs ! k) (cs1 ! k)"
    using cpuarr_refresh_result [OF assms(2,3)] assms(1) by (auto simp: cpus_ok_def)
  have len: "length cs2 = length cs" using assms(4) r(1) by (simp add: list_all2_lengthD [symmetric])
  have v: "visit_slot (cs1 ! k) (cs2 ! k)" if "k < length cs" for k
    using assms(4) that r(1) by (simp add: list_all2_conv_all_nth)
  have mark: "cpu_hotremove (cs1 ! k) \<longleftrightarrow> cpu_cpuid (cs1 ! k) \<notin> set ids"
    if k: "k < length cs" "cpu_valid (cs1 ! k)" for k
  proof -
    have "\<not> cpu_hotremove (cs ! k)" using assms(1) k by (simp add: cpus_ok_def)
    then show ?thesis using r(4) [OF k(1)] k(2) by (auto simp: refresh_slot_def split: if_splits)
  qed
  have cpuid: "cpu_cpuid (cs2 ! k)
     = (if cpu_cpuid (cs1 ! k) \<in> set ids then cpu_cpuid (cs1 ! k) else INVALID_CPUID)" if k: "k < length cs" for k
    using v [OF k] mark [OF k] assms(3) by (cases "cpu_valid (cs1 ! k)") (auto simp: visit_slot_def)
  have "distinct_cpus cs2"
    unfolding distinct_cpus_def
  proof (intro allI impI)
    fix i j
    assume "i < length cs2" "j < length cs2" "cpu_valid (cs2 ! i)" "cpu_cpuid (cs2 ! i) = cpu_cpuid (cs2 ! j)"
    then show "i = j"
      using r(1,2) len cpuid [of i] cpuid [of j] unfolding distinct_cpus_def
      by (auto split: if_splits)
  qed
  moreover have "\<forall>c \<in> set cs2. \<not> cpu_hotremove c" using v len by (auto simp: in_set_conv_nth visit_slot_def)
  moreover have "cpu_ids cs2 = set ids"
  proof -
    have "map cpu_cpuid cs2 = map (\<lambda>x. if x \<in> set ids then x else INVALID_CPUID) (map cpu_cpuid cs1)"
      using cpuid len r(1) by (intro nth_equalityI) auto
    then have "cpu_ids cs2 = (\<lambda>x. if x \<in> set ids then x else INVALID_CPUID) ` set (map cpu_cpuid cs1) - {INVALID_CPUID}"
      unfolding cpu_ids_map by (simp only: set_map)
    also have "\<dots> = cpu_ids cs1 \<inter> set ids" unfolding cpu_ids_map by auto
    finally show ?thesis using r(3) by blast
  qed
  ultimately show ?thesis using assms(1) len by (simp add: cpus_ok_def)
qed

lemma cpus_ok_init: "cpus_ok m (os_perf_cpuarr_init hot (replicate m perf_cpu_zero))"
  by (auto simp: cpus_ok_def os_perf_cpuarr_init_def distinct_cpus_def perf_cpu_zero_def cpu_init_def)

text \<open>One node through the refresh and the walk.\<close>

lemma node_chain:
  assumes "node_settled m i n" "0 \<le> i" "m = ne_ncpus_max env"
    and new: "new_slot env init new_on i (gone_mark on n) n2"
    and new_on: "\<not> NODE_VALID n \<Longrightarrow> i \<in> new_on \<longleftrightarrow> i \<in> on"
    and cpu: "cpu_slot init crs on n2 n3" and mem: "n4 = n3\<lparr>n_meminfo := mi\<rparr>"
  shows "(NODE_VALID n4 \<longrightarrow> n_cpus n4 \<noteq> None) \<and> (node_live n2 \<longleftrightarrow> i \<in> on) \<and>
    (visit_node n4 n5 \<longrightarrow>
       node_settled m i n5 \<and> (NODE_VALID n5 \<longleftrightarrow> i \<in> on) \<and>
       (i \<in> on \<longrightarrow> (\<exists>cs. n_cpus n5 = Some cs \<and> cpu_ids cs = set (cpulist_vals (crs i))) \<and>
          n_ncpus n5 = int (length (cpulist_vals (crs i)))))"
proof -
  have i: "i \<noteq> INVALID_NID" using assms(2) by (simp add: INVALID_NID_def)
  have noinv: "INVALID_CPUID \<notin> set (cpulist_vals (crs i))"
    using cpulist_vals_nonneg [of INVALID_CPUID] by (auto simp: INVALID_CPUID_def)
  consider (on) "i \<in> on" | (gone) "i \<notin> on" "NODE_VALID n" | (off) "i \<notin> on" "\<not> NODE_VALID n" by blast
  then show ?thesis
  proof cases
    case on
    have n2: "n_nid n2 = i" "\<not> n_hotremove n2" "\<exists>cs. n_cpus n2 = Some cs \<and> cpus_ok m cs"
    proof -
      have "n2 = (if NODE_VALID n then n else fst (node_init env i (\<not> init))) \<and> (NODE_VALID n \<or> ne_cpus_ok env i)"
        using assms(1) new new_on on by (auto simp: new_slot_def gone_mark_def node_settled_def split: if_splits)
      then show "n_nid n2 = i" "\<not> n_hotremove n2" "\<exists>cs. n_cpus n2 = Some cs \<and> cpus_ok m cs"
        using assms(1,3) i cpus_ok_init [of m]
        by (auto simp: node_settled_def node_init_def node_zero_def NODE_VALID_def Let_def split: if_splits)
    qed
    then have v2: "NODE_VALID n2" using i by (simp add: NODE_VALID_def)
    obtain cs cs1 where cs: "n_cpus n2 = Some cs" "cpus_ok m cs" "n_cpus n3 = Some cs1"
        "os_perf_cpuarr_refresh init (cpulist_vals (crs i)) cs = (cs1, 0)"
        "n_nid n3 = i" "\<not> n_hotremove n3" "n_ncpus n3 = int (length (cpulist_vals (crs i)))"
      using cpu v2 n2 on by (auto simp: cpu_slot_def)
    show ?thesis
    proof (intro conjI impI)
      assume v: "visit_node n4 n5"
      obtain cs2 where cs2: "n_cpus n5 = Some cs2" "list_all2 visit_slot cs1 cs2" "n_nid n5 = i" "\<not> n_hotremove n5"
          "n_ncpus n5 = int (length (cpulist_vals (crs i)))"
        using v cs i by (auto simp: visit_node_def mem NODE_VALID_def)
      note cs3 = cpus_chain [OF cs(2,4) noinv cs2(2)]
      show "node_settled m i n5" using cs2 cs3 by (simp add: node_settled_def)
      show "NODE_VALID n5 \<longleftrightarrow> i \<in> on" using cs2 i on by (simp add: NODE_VALID_def)
      show "\<exists>cs. n_cpus n5 = Some cs \<and> cpu_ids cs = set (cpulist_vals (crs i))" using cs2 cs3 by blast
      show "n_ncpus n5 = int (length (cpulist_vals (crs i)))" by (rule cs2(5))
    qed (use cs n2 v2 on in \<open>simp_all add: mem node_live_def\<close>)
  next
    case gone
    then have n2: "NODE_VALID n2" "n_hotremove n2" "n_nid n2 = i"
      using assms(1) new by (auto simp: new_slot_def gone_mark_def node_settled_def NODE_VALID_def)
    then have n3: "n_nid n3 = i" "n_hotremove n3" "n_cpus n3 \<noteq> None" using cpu by (auto simp: cpu_slot_def)
    then show ?thesis
      using gone n2 i by (auto simp: mem node_live_def visit_node_def NODE_VALID_def node_settled_def)
  next
    case off
    then have "n2 = n" using new new_on by (simp add: new_slot_def gone_mark_def)
    moreover have "n3 = n" using cpu off calculation by (simp add: cpu_slot_def)
    ultimately show ?thesis
      using off assms(1) by (auto simp: mem node_live_def visit_node_def NODE_VALID_def node_settled_def)
  qed
qed

lemma num_live_cong:
  assumes "length xs = length ys" "\<And>k. k < length xs \<Longrightarrow> node_live (xs ! k) = node_live (ys ! k)"
  shows "num_live xs = num_live ys"
proof -
  have "map node_live xs = map node_live ys" using assms by (intro nth_equalityI) auto
  then have "length (filter id (map node_live xs)) = length (filter id (map node_live ys))" by simp
  then show ?thesis by (simp add: num_live_def filter_map o_def)
qed

lemma num_live_card:
  assumes "\<And>k. k < length ns \<Longrightarrow> node_live (ns ! k) \<longleftrightarrow> int k \<in> on" "on \<subseteq> {0..<int (length ns)}"
  shows "num_live ns = int (card on)"
proof -
  have "int ` {k. k < length ns \<and> node_live (ns ! k)} = on"
  proof (intro set_eqI iffI)
    fix x assume x: "x \<in> on"
    then have "x \<in> {0..<int (length ns)}" using assms(2) by blast
    then have "0 \<le> x" "nat x < length ns" by auto
    then show "x \<in> int ` {k. k < length ns \<and> node_live (ns ! k)}"
      using x assms(1) [of "nat x"] by (intro image_eqI [of _ _ "nat x"]) simp_all
  qed (use assms in auto)
  then have "card {k. k < length ns \<and> node_live (ns ! k)} = card on"
    by (metis card_image inj_on_of_nat)
  then show ?thesis by (simp add: num_live_def length_filter_conv_card)
qed

text \<open>The steps of a successful refresh.\<close>

lemma node_group_refresh_steps:
  assumes "node_group_refresh env init g = Some (g1, 0)" "settled (ne_ncpus_max env) g"
    and "sysfs_shows env (length (ng_nodes g)) rs crs"
  obtains arr1 ns2 ns3 where
    "set (nids arr1) = set (cpulist_vals rs) - n_nid ` set (filter NODE_VALID (ng_nodes g))"
    "length ns2 = length (ng_nodes g)" "ng_nnodes g1 = num_live ns2"
    "\<And>k. k < length (ng_nodes g) \<Longrightarrow> new_slot env init (set arr1) (int k)
        (gone_mark (set (cpulist_vals rs)) (ng_nodes g ! k)) (ns2 ! k)"
    "list_all2 (cpu_slot init crs (set (cpulist_vals rs))) ns2 ns3"
    "list_all2 (\<lambda>n n1. \<exists>mi. n1 = n\<lparr>n_meminfo := mi\<rparr>) ns3 (ng_nodes g1)"
    "\<forall>n \<in> set ns2. NODE_VALID n \<longrightarrow> sf_node_cpulist env (n_nid n) \<noteq> None"
proof -
  let ?ns = "ng_nodes g" and ?vals = "cpulist_vals rs"
  define rest :: "int list" where "rest = drop (length ?vals) (replicate (length ?ns) 0)"
  have sub: "set ?vals \<subseteq> {0..<int (length ?ns)}" and dist: "distinct ?vals"
    using assms(3) by (auto simp: sysfs_shows_def)
  then have len: "length ?vals \<le> length ?ns"
    using card_mono [OF _ sub] by (simp add: distinct_card)
  have enum: "os_sysfs_node_enum (sysfs.truncate env) (replicate (length ?ns) 0) = Some (?vals @ rest, Some (int (length ?vals)))"
    unfolding rest_def using assms(3) len file_int_extract_cpulist [of rs "replicate (length ?ns) 0"]
    by (simp add: os_sysfs_node_enum_def sysfs_shows_def)
  have nids: "nids ?vals = ?vals"
    using sub by (auto simp: nids_def INVALID_NID_def filter_id_conv)
  have nodes: "\<not> n_hotremove (?ns ! k)" "NODE_VALID (?ns ! k) \<Longrightarrow> n_nid (?ns ! k) = int k \<and> n_cpus (?ns ! k) \<noteq> None"
    if "k < length ?ns" for k
    using assms(2) that by (auto simp: settled_def node_settled_def)
  have dn: "distinct (map n_nid (filter NODE_VALID ?ns))"
  proof -
    have "map n_nid (filter NODE_VALID ?ns) = map (\<lambda>k. int k) (filter (\<lambda>k. NODE_VALID (?ns ! k)) [0..<length ?ns])"
    proof -
      have "filter NODE_VALID ?ns = map (\<lambda>k. ?ns ! k) (filter (\<lambda>k. NODE_VALID (?ns ! k)) [0..<length ?ns])"
        by (subst map_nth [symmetric]) (simp add: filter_map o_def del: upt_Suc)
      then show ?thesis using nodes by simp
    qed
    then show ?thesis by (simp add: distinct_map inj_on_def)
  qed
  have ok: "\<forall>n \<in> set ?ns. NODE_VALID n \<longrightarrow> n_cpus n \<noteq> None \<and> \<not> n_hotremove n"
    using nodes by (auto simp: in_set_conv_nth)
  obtain arr1 where gone: "refresh_gone ?ns ?vals (ng_nnodes g)
       = Some (map (gone_mark (set ?vals)) ?ns, arr1, num_live (map (gone_mark (set ?vals)) ?ns))"
     "set (nids arr1) = set ?vals - n_nid ` set (filter NODE_VALID ?ns)"
    using refresh_gone_result [OF ok dn, of ?vals "ng_nnodes g"] assms(2) dist by (auto simp: nids settled_def)
  obtain ns2 nn2 r2 where new: "refresh_new env init 0 (map (gone_mark (set ?vals)) ?ns) arr1
      (num_live (map (gone_mark (set ?vals)) ?ns)) = (ns2, nn2, r2)"
    by (metis prod_cases3)
  have r2: "r2 = 0" using assms(1) len new
    by (auto simp: node_group_refresh_def enum gone(1) Let_def split: if_splits)
  obtain g3 where g3: "cpu_refresh env init (g\<lparr>ng_nodes := ns2, ng_nnodes := nn2\<rparr>) = Some (g3, 0)"
      "meminfo_refresh env g3 = Some (g1, 0)"
    using assms(1) len new r2
    by (auto simp: node_group_refresh_def enum gone(1) Let_def Option.bind_eq_Some_conv split: if_splits)
  have nohot: "\<forall>n \<in> set (map (gone_mark (set ?vals)) ?ns). \<not> NODE_VALID n \<longrightarrow> \<not> n_hotremove n"
    using nodes by (auto simp: gone_mark_def in_set_conv_nth NODE_VALID_def)
  note new' = refresh_new_result [OF new [unfolded r2] order.refl nohot]
  obtain ns3 m1 where ns3: "cpu_refresh_nodes env init ns2 (replicate (ne_ncpus_max env) 0) (-1) = Some (ns3, Some m1)"
      "ng_nodes g3 = ns3" "ng_nnodes g3 = nn2"
    using g3(1) by (auto simp: cpu_refresh_def Option.bind_eq_Some_conv split: if_splits option.splits)
  have mem: "list_all2 (\<lambda>n n1. \<exists>mi. n1 = n\<lparr>n_meminfo := mi\<rparr>) ns3 (ng_nodes g1)" "ng_nnodes g1 = nn2"
    using g3(2) ns3 meminfo_refresh_nodes_result by (auto simp: meminfo_refresh_def Option.bind_eq_Some_conv)
  show ?thesis
  proof (rule that [OF gone(2)])
    show "list_all2 (cpu_slot init crs (set ?vals)) ns2 ns3"
      by (rule cpu_refresh_nodes_result [OF ns3(1) _ assms(3)]) simp
    show "\<forall>n \<in> set ns2. NODE_VALID n \<longrightarrow> sf_node_cpulist env (n_nid n) \<noteq> None"
      by (rule cpu_refresh_nodes_files [OF ns3(1)])
  qed (use new' mem in simp_all)
qed

text \<open>
  C4: Hot-plugging converges.  When sysfs shows the online nodes and their
  processors in the kernel's list format, a refresh of a group at rest that
  succeeds, followed by one complete walk of the perf thread, leaves exactly
  the online nodes valid, each with exactly its online processors, the number
  of nodes right and the group at rest again; the walk does not fail.
\<close>

theorem hotplug_converges:
  assumes "node_group_refresh env init g = Some (g1, 0)" "settled (ne_ncpus_max env) g"
    and "sysfs_shows env (length (ng_nodes g)) rs crs" "op_keeps func" "op_keeps hfunc"
  shows "\<exists>g2 k2. node_cpu_traverse func False hfunc g1 k = Some (g2, k2, 0) \<and>
     settled (ne_ncpus_max env) g2 \<and> node_num g2 = int (length (cpulist_vals rs)) \<and>
     length (ng_nodes g2) = length (ng_nodes g) \<and>
     (\<forall>i < length (ng_nodes g). let n = ng_nodes g2 ! i in
        (NODE_VALID n \<longleftrightarrow> int i \<in> set (cpulist_vals rs)) \<and>
        (NODE_VALID n \<longrightarrow> cpu_ids (the (n_cpus n)) = set (cpulist_vals (crs (int i))) \<and>
           node_ncpus n = int (length (cpulist_vals (crs (int i))))))"
proof -
  let ?ns = "ng_nodes g" and ?on = "set (cpulist_vals rs)"
  obtain arr1 ns2 ns3 where st:
    "set (nids arr1) = ?on - n_nid ` set (filter NODE_VALID ?ns)"
    "length ns2 = length ?ns" "ng_nnodes g1 = num_live ns2"
    "\<And>k. k < length ?ns \<Longrightarrow> new_slot env init (set arr1) (int k) (gone_mark ?on (?ns ! k)) (ns2 ! k)"
    "list_all2 (cpu_slot init crs ?on) ns2 ns3"
    "list_all2 (\<lambda>n n1. \<exists>mi. n1 = n\<lparr>n_meminfo := mi\<rparr>) ns3 (ng_nodes g1)"
    by (rule node_group_refresh_steps [OF assms(1-3)]) (rule that; assumption)
  have len: "length ns3 = length ?ns" "length (ng_nodes g1) = length ?ns"
    using st(2) list_all2_lengthD [OF st(5)] list_all2_lengthD [OF st(6)] by simp_all
  have set_k: "node_settled (ne_ncpus_max env) (int k) (?ns ! k)" if "k < length ?ns" for k
    using assms(2) that by (simp add: settled_def)
  have new_on: "int k \<in> set arr1 \<longleftrightarrow> int k \<in> ?on" if k: "k < length ?ns" "\<not> NODE_VALID (?ns ! k)" for k
  proof -
    have "int k \<notin> n_nid ` set (filter NODE_VALID ?ns)"
    proof
      assume "int k \<in> n_nid ` set (filter NODE_VALID ?ns)"
      then obtain j where "j < length ?ns" "NODE_VALID (?ns ! j)" "n_nid (?ns ! j) = int k"
        by (auto simp: in_set_conv_nth)
      then show False using set_k [of j] k by (simp add: node_settled_def)
    qed
    moreover have "int k \<in> set arr1 \<longleftrightarrow> int k \<in> set (nids arr1)" by (simp add: nids_def INVALID_NID_def)
    ultimately show ?thesis using st(1) by simp
  qed
  have chain: "(NODE_VALID n4 \<longrightarrow> n_cpus n4 \<noteq> None) \<and> (node_live (ns2 ! k) \<longleftrightarrow> int k \<in> ?on) \<and>
      (visit_node n4 n5 \<longrightarrow> node_settled (ne_ncpus_max env) (int k) n5 \<and> (NODE_VALID n5 \<longleftrightarrow> int k \<in> ?on) \<and>
       (int k \<in> ?on \<longrightarrow> (\<exists>cs. n_cpus n5 = Some cs \<and> cpu_ids cs = set (cpulist_vals (crs (int k)))) \<and>
          n_ncpus n5 = int (length (cpulist_vals (crs (int k))))))"
    if k: "k < length ?ns" and n4: "n4 = ng_nodes g1 ! k" for k n4 n5
  proof -
    obtain mi where mi: "n4 = (ns3 ! k)\<lparr>n_meminfo := mi\<rparr>"
      using st(6) k len unfolding n4 by (auto simp: list_all2_conv_all_nth)
    have slot: "cpu_slot init crs ?on (ns2 ! k) (ns3 ! k)"
      using st(2,5) k len by (auto simp: list_all2_conv_all_nth)
    show ?thesis
      by (rule node_chain [OF set_k [OF k] of_nat_0_le_iff refl st(4) [OF k] new_on [OF k] slot mi])
  qed
  have cpus: "\<forall>n \<in> set (ng_nodes g1). NODE_VALID n \<longrightarrow> n_cpus n \<noteq> None"
  proof (intro ballI impI)
    fix n assume n: "n \<in> set (ng_nodes g1)" "NODE_VALID n"
    then obtain j where "j < length ?ns" "n = ng_nodes g1 ! j" using len(2) by (metis in_set_conv_nth)
    then show "n_cpus n \<noteq> None" using chain [THEN conjunct1] n(2) by blast
  qed
  obtain ns5 k2 where v: "nodes_visit func False hfunc (ng_nodes g1) k = Some (ns5, k2, 0)"
      "list_all2 visit_node (ng_nodes g1) ns5"
    using nodes_visit_result [OF assms(4,5) cpus] by blast
  let ?g2 = "g1\<lparr>ng_nodes := ns5\<rparr>"
  have len5: "length ns5 = length ?ns" using v(2) len by (auto dest: list_all2_lengthD)
  have fin: "node_settled (ne_ncpus_max env) (int k) (ns5 ! k)" "NODE_VALID (ns5 ! k) \<longleftrightarrow> int k \<in> ?on"
      "int k \<in> ?on \<Longrightarrow> cpu_ids (the (n_cpus (ns5 ! k))) = set (cpulist_vals (crs (int k))) \<and>
         n_ncpus (ns5 ! k) = int (length (cpulist_vals (crs (int k))))"
      "node_live (ns2 ! k) \<longleftrightarrow> int k \<in> ?on"
    if "k < length ?ns" for k
  proof -
    have vis: "visit_node (ng_nodes g1 ! k) (ns5 ! k)" using v(2) that len by (simp add: list_all2_conv_all_nth)
    note c = chain [OF that refl, of "ns5 ! k", THEN conjunct2]
    note c2 = c [THEN conjunct2, THEN mp, OF vis]
    show "node_settled (ne_ncpus_max env) (int k) (ns5 ! k)" by (rule c2 [THEN conjunct1])
    show "NODE_VALID (ns5 ! k) \<longleftrightarrow> int k \<in> ?on" by (rule c2 [THEN conjunct2, THEN conjunct1])
    show "node_live (ns2 ! k) \<longleftrightarrow> int k \<in> ?on" by (rule c [THEN conjunct1])
    assume "int k \<in> ?on"
    note c3 = c2 [THEN conjunct2, THEN conjunct2, THEN mp, OF this]
    obtain cs where "n_cpus (ns5 ! k) = Some cs" "cpu_ids cs = set (cpulist_vals (crs (int k)))"
      using c3 [THEN conjunct1] by (elim exE conjE)
    then have "cpu_ids (the (n_cpus (ns5 ! k))) = set (cpulist_vals (crs (int k)))"
      by (simp only: option.sel)
    then show "cpu_ids (the (n_cpus (ns5 ! k))) = set (cpulist_vals (crs (int k))) \<and>
         n_ncpus (ns5 ! k) = int (length (cpulist_vals (crs (int k))))"
      by (rule conjI [OF _ c3 [THEN conjunct2]])
  qed
  have live5: "node_live (ns5 ! k) \<longleftrightarrow> int k \<in> ?on" if "k < length ?ns" for k
  proof -
    have "\<not> n_hotremove (ns5 ! k)" using fin(1) [OF that] by (simp add: node_settled_def)
    then show ?thesis unfolding node_live_def fin(2) [OF that] by simp
  qed
  have nn: "ng_nnodes g1 = num_live ns5"
    unfolding st(3)
  proof (rule num_live_cong)
    show "node_live (ns2 ! k) = node_live (ns5 ! k)" if "k < length ns2" for k
      using fin(4) live5 that unfolding st(2) by blast
  qed (simp add: st(2) len5)
  have sub: "?on \<subseteq> {0..<int (length ns5)}" "distinct (cpulist_vals rs)"
    using assms(3) unfolding len5 sysfs_shows_def by blast+
  have "num_live ns5 = int (card ?on)"
    by (rule num_live_card [OF _ sub(1)]) (simp only: live5 len5)
  then have card: "num_live ns5 = int (length (cpulist_vals rs))"
    by (simp only: distinct_card [OF sub(2)])
  have "settled (ne_ncpus_max env) ?g2"
    unfolding settled_def using fin(1) by (simp add: len5 nn)
  moreover have "node_cpu_traverse func False hfunc g1 k = Some (?g2, k2, 0)"
    by (simp add: node_cpu_traverse_def v(1))
  moreover have "node_num ?g2 = int (length (cpulist_vals rs))" by (simp add: node_num_def nn card)
  moreover have "\<forall>i < length ?ns. let n = ng_nodes ?g2 ! i in
        (NODE_VALID n \<longleftrightarrow> int i \<in> ?on) \<and>
        (NODE_VALID n \<longrightarrow> cpu_ids (the (n_cpus n)) = set (cpulist_vals (crs (int i))) \<and>
           node_ncpus n = int (length (cpulist_vals (crs (int i)))))"
    using fin(2,3) by (simp add: Let_def node_ncpus_def)
  moreover have "length (ng_nodes ?g2) = length ?ns" by (simp add: len5)
  ultimately show ?thesis by blast
qed

text \<open>Two nodes of one processor each, the second of which is plugged in.\<close>

definition env_demo :: node_env where
  "env_demo = \<lparr>sf_node_online = Some ''0-1\<newline>'',
     sf_node_cpulist = (\<lambda>i. if i = 0 then Some ''0\<newline>'' else Some ''2\<newline>''),
     sf_cpu_online = Some ''0,2\<newline>'', sf_meminfo = (\<lambda>_. Some [''Node 0 MemTotal:  12 kB\<newline>'']),
     sf_uncore_qpi = (\<lambda>_. None), sf_uncore_upi = (\<lambda>_. None), sf_uncore_imc = (\<lambda>_. None), sf_dup_ok = True,
     ne_ncpus_max = 2, ne_cpus_ok = (\<lambda>_. True), ne_node_arr_ok = True, ne_cpu_arr_ok = True\<rparr>"

definition group_demo :: node_group where
  "group_demo = node_group_zero\<lparr>ng_nodes :=
     [node_zero\<lparr>n_cpus := Some [perf_cpu_zero, perf_cpu_zero\<lparr>cpu_cpuid := -1\<rparr>]\<rparr>,
      node_zero\<lparr>n_nid := -1\<rparr>], ng_nnodes := 1\<rparr>"

lemma demo_refresh: "\<exists>g1. node_group_refresh env_demo False group_demo = Some (g1, 0)"
proof -
  have "(case node_group_refresh env_demo False group_demo of None \<Rightarrow> False | Some (g1, r) \<Rightarrow> r = 0)"
    by code_simp
  then show ?thesis by (auto split: option.splits)
qed

theorem hotplug_converges_witness:
  "\<exists>g1 g2 k2. node_group_refresh env_demo False group_demo = Some (g1, 0) \<and>
     node_cpu_traverse None False None g1 \<lparr>k_fds = {}, k_maps = {}\<rparr> = Some (g2, k2, 0) \<and>
     node_num g2 = 2 \<and> cpu_ids (the (n_cpus (ng_nodes g2 ! 1))) = {2}"
proof -
  obtain g1 where g1: "node_group_refresh env_demo False group_demo = Some (g1, 0)" using demo_refresh by blast
  let ?crs = "\<lambda>i. if i = 0 then [(0, 0)] else [(2, 2::nat)]"
  have strs: "cpulist_str [(0, 1)] = ''0-1\<newline>''" "cpulist_str [(0, 0)] = ''0\<newline>''" "cpulist_str [(2, 2)] = ''2\<newline>''"
    by code_simp+
  have vals: "cpulist_vals [(0, 1)] = [0, 1]" "cpulist_vals [(0, 0)] = [0]" "cpulist_vals [(2, 2)] = [2]"
    by code_simp+
  have shown: "sysfs_shows env_demo (length (ng_nodes group_demo)) [(0, 1)] ?crs"
    by (simp add: sysfs_shows_def env_demo_def group_demo_def strs vals cpulist_file_def ranges_ok_def LINE_SIZE_def
        del: cpulist_str.simps One_nat_def)
  have "settled (ne_ncpus_max env_demo) group_demo"
    by (simp add: settled_def group_demo_def env_demo_def num_live_def node_live_def node_settled_def
        NODE_VALID_def node_zero_def INVALID_NID_def cpus_ok_def distinct_cpus_def perf_cpu_zero_def
        INVALID_CPUID_def node_group_zero_def All_less_Suc numeral_2_eq_2)
  note conv = hotplug_converges [OF g1 this shown, of None None "\<lparr>k_fds = {}, k_maps = {}\<rparr>"]
  have keeps: "op_keeps None" by (simp add: op_keeps_def)
  have len: "length (ng_nodes group_demo) = 2" by (simp add: group_demo_def)
  show ?thesis
    using conv [OF keeps keeps, unfolded vals len Let_def] g1
    by (auto simp: numeral_2_eq_2 All_less_Suc vals [unfolded numeral_2_eq_2])
qed

text \<open>
  The refresh that notices that a node went away fails: the node stays
  valid until the perf thread has walked over it, and cpu_refresh still reads
  the list of its processors, which is not there any more.
\<close>

theorem node_removal_fails_refresh:
  assumes "settled (ne_ncpus_max env) g" "sysfs_shows env (length (ng_nodes g)) rs crs"
    and "k < length (ng_nodes g)" "NODE_VALID (ng_nodes g ! k)" "int k \<notin> set (cpulist_vals rs)"
    and "sf_node_cpulist env (int k) = None"
  shows "node_group_refresh env init g \<noteq> Some (g1, 0)"
proof
  assume r: "node_group_refresh env init g = Some (g1, 0)"
  obtain arr1 ns2 ns3 where st: "length ns2 = length (ng_nodes g)"
    "\<And>k. k < length (ng_nodes g) \<Longrightarrow> new_slot env init (set arr1) (int k)
        (gone_mark (set (cpulist_vals rs)) (ng_nodes g ! k)) (ns2 ! k)"
    "\<forall>n \<in> set ns2. NODE_VALID n \<longrightarrow> sf_node_cpulist env (n_nid n) \<noteq> None"
    by (rule node_group_refresh_steps [OF r assms(1,2)]) (rule that; assumption)
  have "n_nid (ng_nodes g ! k) = int k" using assms(1,3,4) by (simp add: settled_def node_settled_def)
  then have "NODE_VALID (ns2 ! k)" "n_nid (ns2 ! k) = int k"
    using st(2) [OF assms(3)] assms(4,5) by (auto simp: new_slot_def gone_mark_def NODE_VALID_def)
  moreover have "ns2 ! k \<in> set ns2" using st(1) assms(3) by simp
  ultimately show False using st(3) assms(6) by force
qed

text \<open>The demonstration group once node 0 is off line.\<close>

definition env_gone :: node_env where
  "env_gone = env_demo
     \<lparr>sf_node_online := Some ''1\<newline>'', sf_node_cpulist := (\<lambda>i. if i = 1 then Some ''2\<newline>'' else None)\<rparr>"

theorem node_removal_fails_refresh_witness:
  "node_group_refresh env_gone False group_demo \<noteq> None \<and>
   (\<forall>g1. node_group_refresh env_gone False group_demo \<noteq> Some (g1, 0))"
proof -
  have strs: "cpulist_str [(1, 1)] = ''1\<newline>''" "cpulist_str [(2, 2)] = ''2\<newline>''" by code_simp+
  have vals: "cpulist_vals [(1, 1)] = [1]" "cpulist_vals [(2, 2)] = [2]" by code_simp+
  have shown: "sysfs_shows env_gone (length (ng_nodes group_demo)) [(1, 1)] (\<lambda>_. [(2, 2)])"
    by (simp add: sysfs_shows_def env_gone_def env_demo_def group_demo_def strs vals cpulist_file_def ranges_ok_def LINE_SIZE_def
        del: cpulist_str.simps One_nat_def)
  have "settled (ne_ncpus_max env_gone) group_demo"
    by (simp add: settled_def group_demo_def env_gone_def env_demo_def num_live_def node_live_def node_settled_def
        NODE_VALID_def node_zero_def INVALID_NID_def cpus_ok_def distinct_cpus_def perf_cpu_zero_def
        INVALID_CPUID_def node_group_zero_def All_less_Suc numeral_2_eq_2)
  then have "node_group_refresh env_gone False group_demo \<noteq> Some (g1, 0)" for g1
    by (rule node_removal_fails_refresh [OF _ shown, of 0])
      (simp_all add: vals env_gone_def group_demo_def NODE_VALID_def node_zero_def INVALID_NID_def del: One_nat_def)
  moreover have "node_group_refresh env_gone False group_demo \<noteq> None" by code_simp
  ultimately show ?thesis by blast
qed

end
