(* ===== verification/Util.thy ===== *)
theory Util
  imports Sysfs
begin

text \<open>
  The services of common/util.c: milliseconds between two time stamps, the list
  of identifiers in a directory of /proc, the cache of the dump file, and the
  arrays that double when they are full (array_alloc), which hold call chains
  and latency records.  The text a printf-like function formats, the entries of
  a directory and what malloc answers are parameters.
\<close>

section \<open>Time\<close>

text \<open>struct timeval; tv_usec is below a million in what gettimeofday returns.\<close>

record timeval =
  tv_sec :: int
  tv_usec :: int

definition MAX_VALUE :: int where "MAX_VALUE = 4294967295"
definition MS_SEC :: int where "MS_SEC = 1000"
definition MICROSEC :: int where "MICROSEC = 1000000"

definition msdiff :: "timeval \<Rightarrow> timeval \<Rightarrow> u32" where
  "msdiff tva tvb =
     (let sdiff = tv_sec tva - tv_sec tvb;
          udiff = tv_usec tva - tv_usec tvb
      in if sdiff < 0 then 0
         else
           let (sdiff, udiff) = (if udiff < 0 then (sdiff - 1, udiff + MICROSEC) else (sdiff, udiff))
           in if sdiff < 0 then 0
              else if sdiff \<ge> MAX_VALUE div MS_SEC then word_of_int MAX_VALUE
              else word_of_int (sdiff * MS_SEC + udiff sdiv MS_SEC))"

definition current_ms :: "timeval \<Rightarrow> timeval \<Rightarrow> u64" where
  "current_ms tvnow tvbase = ucast (msdiff tvnow tvbase)"

definition tv_ok :: "timeval \<Rightarrow> bool" where
  "tv_ok t \<longleftrightarrow> 0 \<le> tv_usec t \<and> tv_usec t < MICROSEC"

definition tv_us :: "timeval \<Rightarrow> int" where
  "tv_us t = tv_sec t * MICROSEC + tv_usec t"

section \<open>Allocation\<close>

text \<open>zalloc: ok tells whether malloc finds the memory; the bytes are zero.\<close>

definition zalloc :: "bool \<Rightarrow> nat \<Rightarrow> 8 word list option" where
  "zalloc ok n = (if n = 0 \<or> \<not> ok then None else Some (replicate n 0))"

section \<open>Identifiers in /proc\<close>

definition PROCFS_ID_NUM :: nat where "PROCFS_ID_NUM = 4096"

text \<open>
  A directory stream is a list of the names readdir returns.  procfs_walk takes
  the array and its number of elements; grow tells for a number of elements
  whether realloc finds the memory.  The result: the array (None after the
  failure, when it has been freed), the number, the return value, and whether
  the stream was closed.
\<close>

definition name_id :: "string \<Rightarrow> int" where
  "name_id name = to_int32 (fst (strtol name))"

fun procfs_loop ::
  "(nat \<Rightarrow> bool) \<Rightarrow> string list \<Rightarrow> int list \<Rightarrow> nat \<Rightarrow> (int list option \<times> nat \<times> int \<times> bool) option" where
  "procfs_loop grow [] arr i = Some (Some arr, i, 0, True)"
| "procfs_loop grow (name # names) arr i =
     (if name \<noteq> [] \<and> hd name = CHR ''.'' then procfs_loop grow names arr i
      else if name_id name = 0 then procfs_loop grow names arr i
      else if i \<ge> length arr then
        (if \<not> grow (length arr * 2) then Some (None, 0, -1, False)
         else do {
           arr1 \<leftarrow> arr_set (arr @ replicate (length arr) 0) (int i) (name_id name);
           procfs_loop grow names arr1 (i + 1)
         })
      else do {
        arr1 \<leftarrow> arr_set arr (int i) (name_id name);
        procfs_loop grow names arr1 (i + 1)
      })"

definition procfs_walk ::
  "(nat \<Rightarrow> bool) \<Rightarrow> string list option \<Rightarrow> int list \<Rightarrow> (int list option \<times> nat \<times> int \<times> bool) option" where
  "procfs_walk grow dir arr =
     (case dir of
        None \<Rightarrow> Some (Some arr, length arr, -1, True)
      | Some names \<Rightarrow> procfs_loop grow names arr 0)"

text \<open>The array with the number of identifiers in it, or None for the return value -1.\<close>

definition procfs_enum_id ::
  "bool \<Rightarrow> (nat \<Rightarrow> bool) \<Rightarrow> string list option \<Rightarrow> (int list \<times> nat) option option" where
  "procfs_enum_id ok grow dir =
     (if \<not> ok then Some None
      else do {
        (arr, num, ret, _) \<leftarrow> procfs_walk grow dir (replicate PROCFS_ID_NUM 0);
        if ret \<noteq> 0 then Some None
        else do { a \<leftarrow> arr; Some (Some (a, num)) }
      })"

definition procfs_proc_enum ::
  "bool \<Rightarrow> (nat \<Rightarrow> bool) \<Rightarrow> (string \<Rightarrow> string list option) \<Rightarrow> (int list \<times> nat) option option" where
  "procfs_proc_enum ok grow opendir = procfs_enum_id ok grow (opendir ''/proc'')"

section \<open>The dump file and its cache\<close>

definition DUMP_CACHE_SIZE :: nat where "DUMP_CACHE_SIZE = 256 * 1024"

text \<open>
  dump_ctl_t: the file is what has been written to it, the position pcur is an
  offset into the cache.
\<close>

record dump_ctl =
  dc_fout :: "string option"
  dc_cache :: "string option"
  dc_pcur :: int
  dc_rest_size :: int
  dc_cache_mode :: bool

definition dump_zero :: dump_ctl where
  "dump_zero = \<lparr>dc_fout = None, dc_cache = None, dc_pcur = 0, dc_rest_size = 0, dc_cache_mode = False\<rparr>"

definition dump_init :: "bool \<Rightarrow> bool \<Rightarrow> dump_ctl \<times> int" where
  "dump_init has_file ok =
     (if \<not> has_file then (dump_zero, 0)
      else let d = dump_zero\<lparr>dc_fout := Some []\<rparr>
           in if \<not> ok then (d, -1)
              else (d\<lparr>dc_cache := Some (replicate DUMP_CACHE_SIZE (CHR 0x00)), dc_pcur := 0,
                      dc_rest_size := int DUMP_CACHE_SIZE\<rparr>, 0))"

text \<open>
  vsnprintf into the cache: with the size 0 nothing is stored, otherwise at most
  size - 1 characters and a NUL; a negative size becomes a huge size_t.  The
  characters stored behind the cache are undefined.
\<close>

definition store_at :: "string \<Rightarrow> int \<Rightarrow> string \<Rightarrow> string option" where
  "store_at buf pos s =
     (if 0 \<le> pos \<and> nat pos + length s \<le> length buf
      then Some (take (nat pos) buf @ s @ drop (nat pos + length s) buf) else None)"

definition vsnprintf_at :: "string \<Rightarrow> int \<Rightarrow> int \<Rightarrow> string \<Rightarrow> string option" where
  "vsnprintf_at buf pos sz s =
     (if sz = 0 then Some buf
      else if sz < 0 then store_at buf pos (s @ [CHR 0x00])
      else store_at buf pos (take (nat sz - 1) s @ [CHR 0x00]))"

definition dump_write :: "string \<Rightarrow> dump_ctl \<Rightarrow> dump_ctl option" where
  "dump_write s d =
     (case dc_fout d of
        None \<Rightarrow> Some d
      | Some out \<Rightarrow>
          if \<not> dc_cache_mode d then Some (d\<lparr>dc_fout := Some (out @ s)\<rparr>)
          else do {
            cache \<leftarrow> dc_cache d;
            cache1 \<leftarrow> vsnprintf_at cache (dc_pcur d) (dc_rest_size d) s;
            Some (d\<lparr>dc_cache := Some cache1, dc_pcur := dc_pcur d + int (length s),
                    dc_rest_size := dc_rest_size d - int (length s)\<rparr>)
          })"

definition dump_cache_enable :: "dump_ctl \<Rightarrow> dump_ctl" where
  "dump_cache_enable d = d\<lparr>dc_cache_mode := True\<rparr>"

definition dump_cache_disable :: "dump_ctl \<Rightarrow> dump_ctl" where
  "dump_cache_disable d = d\<lparr>dc_cache_mode := False\<rparr>"

text \<open>The string in a buffer ends at the first NUL; without one, printing it reads outside.\<close>

definition c_str :: "string \<Rightarrow> string option" where
  "c_str buf = (if CHR 0x00 \<in> set buf then Some (takeWhile (\<lambda>c. c \<noteq> CHR 0x00) buf) else None)"

definition dump_cache_flush :: "dump_ctl \<Rightarrow> dump_ctl option" where
  "dump_cache_flush d =
     (case dc_fout d of
        None \<Rightarrow> Some d
      | Some out \<Rightarrow>
          do {
            cache \<leftarrow> dc_cache d;
            s \<leftarrow> c_str cache;
            Some (d\<lparr>dc_fout := Some (out @ s), dc_cache := Some (replicate DUMP_CACHE_SIZE (CHR 0x00)),
                    dc_pcur := 0, dc_rest_size := int DUMP_CACHE_SIZE, dc_cache_mode := False\<rparr>)
          })"

text \<open>The message exit_msg_put leaves in its buffer, and what exit_msg_print prints.\<close>

definition EXIT_MSG_SIZE :: nat where "EXIT_MSG_SIZE = 128"

definition exit_msg_put :: "string \<Rightarrow> string \<Rightarrow> string option" where
  "exit_msg_put s buf = vsnprintf_at buf 0 (int EXIT_MSG_SIZE) s"

definition exit_msg_print :: "string \<Rightarrow> string option" where
  "exit_msg_print buf = c_str buf"

section \<open>Arrays that double\<close>

record 'a darr =
  da_arr :: "'a list option"
  da_cur :: int
  da_max :: int

definition darr_zero :: "'a darr" where
  "darr_zero = \<lparr>da_arr = None, da_cur = 0, da_max = 0\<rparr>"

text \<open>
  array_alloc: sz is the size of an element, num the length of the first array,
  z an element of zeros; ok tells for a number of elements whether the memory is
  found.  The product of the length and sz is an int, whose overflow is undefined.
\<close>

definition array_alloc :: "(int \<Rightarrow> bool) \<Rightarrow> int \<Rightarrow> int \<Rightarrow> 'a \<Rightarrow> 'a darr \<Rightarrow> ('a darr \<times> int) option" where
  "array_alloc ok sz num z d =
     (if da_cur d \<noteq> da_max d then Some (d, 0)
      else
        (case da_arr d of
           None \<Rightarrow>
             if \<not> ok num then Some (d, -1)
             else Some (d\<lparr>da_arr := Some (replicate (nat num) z), da_max := num\<rparr>, 0)
         | Some arr \<Rightarrow>
             let i = da_max d * 2 in
             if i * sz \<ge> 2 ^ 31 then None
             else if \<not> ok i then Some (d\<lparr>da_arr := None\<rparr>, -1)
             else Some (d\<lparr>da_arr := Some (take (nat i) arr @ replicate (nat i - length arr) z), da_max := i\<rparr>, 0)))"

text \<open>The way chain_add and llrec_add use it: make room, store behind the last element, count it.\<close>

definition array_push :: "(int \<Rightarrow> bool) \<Rightarrow> int \<Rightarrow> int \<Rightarrow> 'a \<Rightarrow> 'a \<Rightarrow> 'a darr \<Rightarrow> ('a darr \<times> int) option" where
  "array_push ok sz num z v d =
     do {
       (d1, r) \<leftarrow> array_alloc ok sz num z d;
       if r \<noteq> 0 then Some (d1, -1)
       else do {
         arr \<leftarrow> da_arr d1;
         arr1 \<leftarrow> arr_set arr (da_cur d1) v;
         Some (d1\<lparr>da_arr := Some arr1, da_cur := da_cur d1 + 1\<rparr>, 0)
       }
     }"

section \<open>Milliseconds\<close>

text \<open>
  The interval between two time stamps is their distance in milliseconds,
  rounded down; it is 0 when the clock went backwards, and the largest 32-bit
  number from 4294967 seconds on.
\<close>

theorem msdiff_result:
  assumes "tv_ok a" "tv_ok b"
  shows "uint (msdiff a b) =
     (if tv_us a < tv_us b then 0
      else if (tv_us a - tv_us b) div MICROSEC \<ge> 4294967 then MAX_VALUE
      else (tv_us a - tv_us b) div 1000)"
proof -
  define s where "s = tv_sec a - tv_sec b"
  define u where "u = tv_usec a - tv_usec b"
  have d: "tv_us a - tv_us b = s * 1000000 + u" by (simp add: tv_us_def MICROSEC_def s_def u_def algebra_simps)
  have u: "- 1000000 < u" "u < 1000000" using assms by (auto simp: u_def tv_ok_def MICROSEC_def)
  have lt: "tv_us a < tv_us b \<longleftrightarrow> s * 1000000 + u < 0" using d by linarith
  define s' where "s' = (if u < 0 then s - 1 else s)"
  define u' where "u' = (if u < 0 then u + 1000000 else u)"
  have su: "s * 1000000 + u = s' * 1000000 + u'" "0 \<le> u'" "u' < 1000000"
    using u by (auto simp: s'_def u'_def)
  have neg: "s * 1000000 + u < 0 \<longleftrightarrow> s' < 0" using su by linarith
  have q: "(s * 1000000 + u) div 1000000 = s'" using su by simp
  have m: "(s * 1000000 + u) div 1000 = s' * 1000 + u' div 1000"
    using su(1) by (simp add: div_mult_self3 flip: mult.assoc) 
  have sd: "u < 0 \<Longrightarrow> (u + 1000000) sdiv 1000 = (u + 1000000) div 1000" "\<not> u < 0 \<Longrightarrow> u sdiv 1000 = u div 1000"
    using u by (simp_all add: sdiv_nonneg)
  have ms: "msdiff a b = (if s' < 0 then 0 else if s' \<ge> 4294967 then word_of_int 4294967295
      else word_of_int (s' * 1000 + u' div 1000))"
    using su by (simp add: msdiff_def Let_def s_def [symmetric] u_def [symmetric] s'_def u'_def
        MAX_VALUE_def MS_SEC_def MICROSEC_def sd) 
      
  have r: "uint (word_of_int (s' * 1000 + u' div 1000) :: u32) = s' * 1000 + u' div 1000"
    if "0 \<le> s'" "s' < 4294967"
  proof -
    have "u' div 1000 < 1000" "0 \<le> u' div 1000" using su by auto
    then show ?thesis using that by (subst uint_word_of_int) simp
  qed
  show ?thesis using r
    by (simp add: lt neg d q m ms MICROSEC_def MAX_VALUE_def not_less not_le uint_word_of_int)
qed

theorem msdiff_result_witness:
  "uint (msdiff \<lparr>tv_sec = 5, tv_usec = 100\<rparr> \<lparr>tv_sec = 3, tv_usec = 600000\<rparr>) = 1400"
  by (subst msdiff_result) (simp_all add: tv_ok_def tv_us_def MICROSEC_def)

section \<open>The identifiers in a directory\<close>

definition name_ids :: "string list \<Rightarrow> int list" where
  "name_ids names = filter (\<lambda>i. i \<noteq> 0) (map name_id (filter (\<lambda>n. n = [] \<or> hd n \<noteq> CHR ''.'') names))"

lemma name_ids_simps [simp]:
  "name_ids [] = []"
  "name_ids (n # ns) = (if n \<noteq> [] \<and> hd n = CHR ''.'' \<or> name_id n = 0 then name_ids ns else name_id n # name_ids ns)"
  by (auto simp: name_ids_def)

fun procfs_res :: "(nat \<Rightarrow> bool) \<Rightarrow> int list \<Rightarrow> int list option \<times> nat \<times> int \<times> bool \<Rightarrow> bool" where
  "procfs_res grow ids (Some arr, n, ret, closed) \<longleftrightarrow> ret = 0 \<and> closed \<and> n \<le> length arr \<and> take n arr = ids"
| "procfs_res grow ids (None, n, ret, closed) \<longleftrightarrow> ret = -1 \<and> n = 0 \<and> \<not> closed \<and> \<not> (\<forall>m. grow m)"

lemma procfs_loop_result:
  assumes "i \<le> length arr" "0 < length arr"
  shows "\<exists>r. procfs_loop grow names arr i = Some r \<and> procfs_res grow (take i arr @ name_ids names) r"
  using assms
proof (induction names arbitrary: arr i)
  case (Cons name names)
  have *: "take (Suc i) (xs[i := v]) = take i xs @ [v]" if "i < length xs" for xs :: "int list" and v
    using that by (simp add: take_Suc_update)
  let ?arr = "(arr @ replicate (length arr) 0)[i := name_id name]"
  show ?case
  proof (cases "name \<noteq> [] \<and> hd name = CHR ''.'' \<or> name_id name = 0")
    case True
    then have ids: "name_ids (name # names) = name_ids names"
      and lp: "procfs_loop grow (name # names) arr i = procfs_loop grow names arr i" by auto
    show ?thesis unfolding ids lp by (rule Cons.IH [OF Cons.prems])
  next
    case skip: False
    then have ids: "name_ids (name # names) = name_id name # name_ids names"
      and lp: "procfs_loop grow (name # names) arr i =
        (if i \<ge> length arr then
           (if \<not> grow (length arr * 2) then Some (None, 0, -1, False)
            else do {
              arr1 \<leftarrow> arr_set (arr @ replicate (length arr) 0) (int i) (name_id name);
              procfs_loop grow names arr1 (i + 1)
            })
         else do { arr1 \<leftarrow> arr_set arr (int i) (name_id name); procfs_loop grow names arr1 (i + 1) })"
      by auto
    consider (room) "i < length arr" | (grow) "i = length arr" "grow (length arr * 2)"
      | (fail) "i = length arr" "\<not> grow (length arr * 2)" using Cons.prems by linarith
    then show ?thesis
    proof cases
      case room
      then show ?thesis
        unfolding ids lp using Cons.IH [of "Suc i" "arr[i := name_id name]"] Cons.prems by (simp add: *)
    next
      case grow
      have "take (Suc i) ?arr = arr @ [name_id name]"
        unfolding grow(1) using Cons.prems(2) by (subst take_Suc_update) auto
      then show ?thesis
        unfolding ids lp using grow Cons.IH [of "Suc i" ?arr] Cons.prems by simp
    next
      case fail
      then show ?thesis unfolding ids lp by auto
    qed
  qed
qed simp

text \<open>
  Listing the processes or threads never touches memory outside the array it
  grows.  It answers the identifiers of the entries in order, without hidden
  entries and names that are not numbers, however many there are; it fails only
  when the directory cannot be opened or memory is short.
\<close>

theorem procfs_enum_id_result:
  "\<exists>r. procfs_enum_id ok grow dir = Some r \<and>
     (case r of
        Some (arr, n) \<Rightarrow> n \<le> length arr \<and> map_option name_ids dir = Some (take n arr)
      | None \<Rightarrow> \<not> (ok \<and> dir \<noteq> None \<and> (\<forall>m. grow m)))"
proof (cases "ok \<and> dir \<noteq> None")
  case True
  then obtain names where ok: "ok" "dir = Some names" by auto
  have "0 \<le> length (replicate PROCFS_ID_NUM (0::int))" "0 < length (replicate PROCFS_ID_NUM (0::int))"
    by (simp_all add: PROCFS_ID_NUM_def)
  from procfs_loop_result [OF this, of grow names] obtain a n ret cl where
    r: "procfs_loop grow names (replicate PROCFS_ID_NUM 0) 0 = Some (a, n, ret, cl)"
    "procfs_res grow (name_ids names) (a, n, ret, cl)" by auto
  then show ?thesis using ok by (cases a) (auto simp: procfs_enum_id_def procfs_walk_def)
qed (auto simp: procfs_enum_id_def procfs_walk_def)

section \<open>Doubling arrays\<close>

definition darr_list :: "'a darr \<Rightarrow> 'a list" where
  "darr_list d = (case da_arr d of None \<Rightarrow> [] | Some arr \<Rightarrow> take (nat (da_cur d)) arr)"

definition darr_ok :: "'a darr \<Rightarrow> bool" where
  "darr_ok d \<longleftrightarrow>
     (case da_arr d of
        None \<Rightarrow> da_cur d = 0 \<and> da_max d = 0
      | Some arr \<Rightarrow> 0 \<le> da_cur d \<and> da_cur d \<le> da_max d \<and> 0 < da_max d \<and> int (length arr) = da_max d)"

text \<open>An array that was lost while it was doubled: the counts are still those of the lost one.\<close>

definition darr_lost :: "int \<Rightarrow> 'a darr \<Rightarrow> bool" where
  "darr_lost num d \<longleftrightarrow> da_arr d = None \<and> da_cur d = da_max d \<and> num \<le> da_cur d"

lemma darr_zero_ok [simp]: "darr_ok darr_zero" "darr_list darr_zero = []"
  by (simp_all add: darr_ok_def darr_list_def darr_zero_def)

lemma darr_push_stored:
  assumes "darr_ok d" "da_cur d < da_max d" "da_arr d = Some arr"
  shows "array_push ok sz num z v d =
      Some (d\<lparr>da_arr := Some (arr[nat (da_cur d) := v]), da_cur := da_cur d + 1\<rparr>, 0)"
    and "darr_ok (d\<lparr>da_arr := Some (arr[nat (da_cur d) := v]), da_cur := da_cur d + 1\<rparr>)"
    and "darr_list (d\<lparr>da_arr := Some (arr[nat (da_cur d) := v]), da_cur := da_cur d + 1\<rparr>) = darr_list d @ [v]"
proof -
  have i: "nat (da_cur d) < length arr" "0 \<le> da_cur d" using assms by (auto simp: darr_ok_def)
  then have s: "arr_set arr (da_cur d) v = Some (arr[nat (da_cur d) := v])" by (simp add: arr_set_Some)
  show "array_push ok sz num z v d =
      Some (d\<lparr>da_arr := Some (arr[nat (da_cur d) := v]), da_cur := da_cur d + 1\<rparr>, 0)"
    using assms(2,3) s by (simp add: array_push_def array_alloc_def)
  show "darr_ok (d\<lparr>da_arr := Some (arr[nat (da_cur d) := v]), da_cur := da_cur d + 1\<rparr>)"
    using assms by (simp add: darr_ok_def)
  have "nat (da_cur d + 1) = Suc (nat (da_cur d))" using i by linarith
  then show "darr_list (d\<lparr>da_arr := Some (arr[nat (da_cur d) := v]), da_cur := da_cur d + 1\<rparr>) = darr_list d @ [v]"
    using i assms(3) by (simp add: darr_list_def take_Suc_update)
qed

text \<open>What array_alloc leaves is as array_push needs it, or the array is lost.\<close>

lemma array_alloc_result:
  assumes "darr_ok d" "0 < num" "0 < sz" "da_max d * 2 * sz < 2 ^ 31" "num \<le> da_max d \<or> da_max d = 0"
  shows "\<exists>d1 r. array_alloc ok sz num z d = Some (d1, r) \<and>
     (if r = 0 then darr_ok d1 \<and> da_cur d1 < da_max d1 \<and> (\<exists>arr. da_arr d1 = Some arr) \<and> darr_list d1 = darr_list d
        \<and> num \<le> da_max d1
      else r = -1 \<and> (d1 = d \<and> darr_list d = [] \<or> darr_lost num d1) \<and> \<not> (\<forall>n. ok n))"
proof (cases "da_cur d = da_max d")
  case False
  then show ?thesis using assms by (cases "da_arr d") (auto simp: array_alloc_def darr_ok_def)
next
  case full: True
  show ?thesis
  proof (cases "da_arr d")
    case None
    then show ?thesis using assms full by (auto simp: array_alloc_def darr_ok_def darr_list_def)
  next
    case (Some arr)
    then have l: "length arr = nat (da_max d)" "0 < da_max d" using assms(1) by (auto simp: darr_ok_def)
    show ?thesis
    proof (cases "ok (da_max d * 2)")
      case True
      then have "array_alloc ok sz num z d =
          Some (d\<lparr>da_arr := Some (arr @ replicate (length arr) z), da_max := da_max d * 2\<rparr>, 0)"
        using assms full Some l by (simp add: array_alloc_def Let_def nat_mult_distrib)
      then show ?thesis using assms full Some l by (simp add: darr_ok_def darr_list_def)
    next
      case False
      then have "array_alloc ok sz num z d = Some (d\<lparr>da_arr := None\<rparr>, -1)"
        using assms full Some l by (simp add: array_alloc_def Let_def nat_mult_distrib)
      then show ?thesis using assms full l False by (auto simp: darr_lost_def)
    qed
  qed
qed

text \<open>
  While memory lasts, the array holds at most twice the elements it stores, so
  that a bound on the number of elements keeps the sizes within an int.
\<close>

definition darr_grown :: "int \<Rightarrow> 'a darr \<Rightarrow> bool" where
  "darr_grown num d \<longleftrightarrow> darr_ok d \<and> (da_max d = 0 \<or> num \<le> da_max d) \<and> da_max d \<le> max num (2 * da_cur d)"

lemma darr_grown_zero [simp]: "0 \<le> num \<Longrightarrow> darr_grown num darr_zero"
  by (simp add: darr_grown_def) (simp add: darr_zero_def)

lemma darr_ok_length: "darr_ok d \<Longrightarrow> int (length (darr_list d)) = da_cur d"
  by (auto simp: darr_ok_def darr_list_def split: option.splits)

lemma array_push_grown:
  assumes g: "darr_grown num d" and num: "0 < num" and sz: "0 < sz" and ok: "\<forall>n. ok n"
    and small: "2 * num * sz < 2 ^ 31" "4 * da_cur d * sz < 2 ^ 31"
  shows "\<exists>d1. array_push ok sz num z v d = Some (d1, 0) \<and> darr_grown num d1 \<and>
     darr_list d1 = darr_list d @ [v] \<and> da_cur d1 = da_cur d + 1"
proof -
  have d: "darr_ok d" "num \<le> da_max d \<or> da_max d = 0" "da_max d \<le> max num (2 * da_cur d)"
    using g by (auto simp: darr_grown_def)
  have "da_max d * 2 * sz < 2 ^ 31"
  proof (cases "da_max d \<le> num")
    case True
    then have "da_max d * (2 * sz) \<le> num * (2 * sz)" using sz by (intro mult_right_mono) simp_all
    then show ?thesis using small(1) by (simp add: mult.commute mult.left_commute)
  next
    case False
    then have "da_max d * (2 * sz) \<le> (2 * da_cur d) * (2 * sz)" using sz d(3) by (intro mult_right_mono) simp_all
    then show ?thesis using small(2) by (simp add: mult.commute mult.left_commute)
  qed
  from array_alloc_result [OF d(1) num sz this d(2), of ok z] ok obtain d1 where
    a: "array_alloc ok sz num z d = Some (d1, 0)" and
    d1: "darr_ok d1" "da_cur d1 < da_max d1" "darr_list d1 = darr_list d" "num \<le> da_max d1"
      "\<exists>arr. da_arr d1 = Some arr"
    by (auto split: if_splits)
  then obtain arr where arr: "da_arr d1 = Some arr" by blast
  have m: "da_max d1 \<le> max num (2 * da_cur d + 2)" "da_cur d1 = da_cur d"
    using a d by (auto simp: array_alloc_def Let_def split: if_splits option.splits)
  have p: "array_push ok sz num z v d = array_push ok sz num z v d1"
    using a d1(2) by (simp add: array_push_def) (simp add: array_alloc_def)
  have l: "da_cur d1 \<ge> 0" using darr_ok_length [OF d1(1)] by linarith
  show ?thesis
    using p darr_push_stored(1) [OF d1(1,2) arr, of ok sz num z v] darr_push_stored(2,3) [OF d1(1,2) arr, of v]
      m d1(3,4) l
    by (auto simp: darr_grown_def)
qed

text \<open>
  Storing behind the last element of an array that doubles when it is full
  never leaves the array, and adds the element to those stored before; when
  memory is short the element is not stored.  The first allocation failing
  changes nothing; a failed doubling loses all elements.
\<close>

theorem array_push_result:
  assumes "darr_ok d" "0 < num" "0 < sz" "da_max d * 2 * sz < 2 ^ 31" "num \<le> da_max d \<or> da_max d = 0"
  shows "\<exists>d1 r. array_push ok sz num z v d = Some (d1, r) \<and>
     (if r = 0 then darr_ok d1 \<and> darr_list d1 = darr_list d @ [v] \<and> num \<le> da_max d1
      else r = -1 \<and> (d1 = d \<and> darr_list d = [] \<or> darr_lost num d1) \<and> \<not> (\<forall>n. ok n))"
proof -
  from array_alloc_result [OF assms, of ok z] obtain d1 r where
    a: "array_alloc ok sz num z d = Some (d1, r)" and
    r: "if r = 0 then darr_ok d1 \<and> da_cur d1 < da_max d1 \<and> (\<exists>arr. da_arr d1 = Some arr) \<and> darr_list d1 = darr_list d
          \<and> num \<le> da_max d1
        else r = -1 \<and> (d1 = d \<and> darr_list d = [] \<or> darr_lost num d1) \<and> \<not> (\<forall>n. ok n)"
    by blast
  show ?thesis
  proof (cases "r = 0")
    case True
    then obtain arr where d1: "darr_ok d1" "da_cur d1 < da_max d1" "da_arr d1 = Some arr"
      "darr_list d1 = darr_list d" "num \<le> da_max d1" using r by auto
    have "array_push ok sz num z v d = array_push ok sz num z v d1"
      using a True d1(2) by (simp add: array_push_def) (simp add: array_alloc_def)
    then show ?thesis using darr_push_stored(1) [OF d1(1-3), of ok sz num z v] darr_push_stored(2,3) [OF d1(1-3), of v] d1 by auto
  next
    case False
    then show ?thesis using a r by (simp add: array_push_def)
  qed
qed

definition darr_demo :: "nat darr" where
  "darr_demo = \<lparr>da_arr = Some [7, 8], da_cur = 2, da_max = 2\<rparr>"

theorem array_push_result_witness:
  "\<exists>d1. array_push (\<lambda>_. True) 4 2 0 9 darr_demo = Some (d1, 0) \<and> darr_list d1 = [7, 8, 9]"
proof -
  have "darr_ok darr_demo" "(0::int) < 2" "(0::int) < 4" "da_max darr_demo * 2 * 4 < 2 ^ 31"
    "2 \<le> da_max darr_demo \<or> da_max darr_demo = 0" by (simp_all add: darr_ok_def darr_demo_def)
  from array_push_result [OF this, of "\<lambda>_. True" 0 9] show ?thesis
    by (auto simp: darr_list_def darr_demo_def split: if_splits)
qed

text \<open>
  After a failed doubling the array is gone but its counts are not reset, so
  that the next element stored, memory permitting, is written behind a new array
  that is too short.
\<close>

theorem array_push_after_loss:
  assumes "darr_lost num d" "0 < num" "ok num"
  shows "array_push ok sz num z v d = None"
  using assms by (simp add: array_push_def array_alloc_def darr_lost_def arr_set_def)

theorem array_push_after_loss_witness:
  "\<exists>d1. array_push (\<lambda>_. False) 4 2 0 9 darr_demo = Some (d1, -1) \<and> array_push (\<lambda>_. True) 4 2 0 9 d1 = None"
proof -
  have a: "array_push (\<lambda>_. False) 4 2 0 9 darr_demo = Some (darr_demo\<lparr>da_arr := None\<rparr>, -1)"
    by (simp add: array_push_def array_alloc_def darr_demo_def)
  have "darr_lost 2 (darr_demo\<lparr>da_arr := None\<rparr>)" by (simp add: darr_lost_def darr_demo_def)
  from array_push_after_loss [OF this, of "\<lambda>_. True" 4 0 9] a show ?thesis by simp
qed

section \<open>The dump file as a log\<close>

datatype dump_op = DWrite string | DEnable | DDisable | DFlush

fun dump_step :: "dump_op \<Rightarrow> dump_ctl \<Rightarrow> dump_ctl option" where
  "dump_step (DWrite s) d = dump_write s d"
| "dump_step DEnable d = Some (dump_cache_enable d)"
| "dump_step DDisable d = Some (dump_cache_disable d)"
| "dump_step DFlush d = dump_cache_flush d"

fun dump_run :: "dump_op list \<Rightarrow> dump_ctl \<Rightarrow> dump_ctl option" where
  "dump_run [] d = Some d"
| "dump_run (op # ops) d = do { d1 \<leftarrow> dump_step op d; dump_run ops d1 }"

text \<open>
  What the dump file promises: a log and a pending text, which writing extends
  while the cache is on and flushing appends to the log.  None when the pending
  text would not fit into the cache with its NUL.
\<close>

fun log_step :: "dump_op \<Rightarrow> string \<times> string \<times> bool \<Rightarrow> (string \<times> string \<times> bool) option" where
  "log_step (DWrite s) (log, pend, mode) =
     (if \<not> mode then Some (log @ s, pend, mode)
      else if length pend + length s < DUMP_CACHE_SIZE then Some (log, pend @ s, mode) else None)"
| "log_step DEnable (log, pend, mode) = Some (log, pend, True)"
| "log_step DDisable (log, pend, mode) = Some (log, pend, False)"
| "log_step DFlush (log, pend, mode) = Some (log @ pend, [], False)"

fun log_run :: "dump_op list \<Rightarrow> string \<times> string \<times> bool \<Rightarrow> (string \<times> string \<times> bool) option" where
  "log_run [] l = Some l"
| "log_run (op # ops) l = do { l1 \<leftarrow> log_step op l; log_run ops l1 }"

abbreviation NUL :: char where "NUL \<equiv> CHR 0x00"

fun op_text_ok :: "dump_op \<Rightarrow> bool" where
  "op_text_ok (DWrite s) \<longleftrightarrow> NUL \<notin> set s"
| "op_text_ok _ \<longleftrightarrow> True"

fun dump_abs :: "dump_ctl \<Rightarrow> string \<times> string \<times> bool \<Rightarrow> bool" where
  "dump_abs d (log, pend, mode) \<longleftrightarrow>
     dc_fout d = Some log \<and> dc_cache d = Some (pend @ replicate (DUMP_CACHE_SIZE - length pend) NUL) \<and>
     dc_pcur d = int (length pend) \<and> dc_rest_size d = int DUMP_CACHE_SIZE - int (length pend) \<and>
     length pend < DUMP_CACHE_SIZE \<and> NUL \<notin> set pend \<and> dc_cache_mode d = mode"

lemma dump_init_abs: "dump_abs (fst (dump_init True True)) ([], [], False)"
  by (simp add: dump_init_def dump_zero_def DUMP_CACHE_SIZE_def)

lemma vsnprintf_fits:
  assumes "length pend + length s < n"
  shows "vsnprintf_at (pend @ replicate (n - length pend) NUL) (int (length pend)) (int n - int (length pend)) s =
    Some ((pend @ s) @ replicate (n - length (pend @ s)) NUL)"
proof -
  have sz: "int n - int (length pend) > 0" "nat (int n - int (length pend)) - 1 \<ge> length s" using assms by auto
  have e: "n - (length pend + length s) = Suc (n - Suc (length pend + length s))" using assms by simp
  have r: "s @ NUL # replicate (n - Suc (length pend + length s)) NUL = s @ replicate (n - (length pend + length s)) NUL"
    by (simp add: e)
  have d: "n - length pend - (length s + Suc 0) = n - Suc (length pend + length s)" by simp
  have "store_at (pend @ replicate (n - length pend) NUL) (int (length pend)) (s @ [NUL]) =
      Some (pend @ s @ NUL # replicate (n - Suc (length pend + length s)) NUL)"
    using assms by (simp add: store_at_def)
  then show ?thesis using sz r by (simp add: vsnprintf_at_def)
qed

lemma store_at_inside:
  "a + length s \<le> length buf \<Longrightarrow> \<exists>c. store_at buf (int a) s = Some c \<and> length c = length buf"
  by (simp add: store_at_def)

lemma c_str_pend:
  "NUL \<notin> set pend \<Longrightarrow> length pend < n \<Longrightarrow> c_str (pend @ replicate (n - length pend) NUL) = Some pend"
  by (auto simp: c_str_def takeWhile_eq_all_conv takeWhile_append)

lemma dump_step_refines:
  assumes "dump_abs d l" "op_text_ok op" "log_step op l = Some l1"
  shows "\<exists>d1. dump_step op d = Some d1 \<and> dump_abs d1 l1"
proof -
  obtain log pend mode where l: "l = (log, pend, mode)" by (cases l) auto
  show ?thesis
  proof (cases op)
    case (DWrite s)
    show ?thesis
    proof (cases mode)
      case True
      then have fit: "length pend + length s < DUMP_CACHE_SIZE" "l1 = (log, pend @ s, True)"
        using assms DWrite l by (auto split: if_splits)
      from vsnprintf_fits [OF fit(1)] show ?thesis
        using assms(1,2) True DWrite l fit by (auto simp: dump_write_def)
    qed (use assms DWrite l in \<open>auto simp: dump_write_def\<close>)
  next
    case DFlush
    then show ?thesis
      using assms l c_str_pend [of pend DUMP_CACHE_SIZE] by (auto simp: dump_cache_flush_def DUMP_CACHE_SIZE_def)
  qed (use assms l in \<open>auto simp: dump_cache_enable_def dump_cache_disable_def\<close>)
qed

lemma dump_run_abs:
  "dump_abs d l \<Longrightarrow> list_all op_text_ok ops \<Longrightarrow> log_run ops l = Some l1 \<Longrightarrow>
   \<exists>d1. dump_run ops d = Some d1 \<and> dump_abs d1 l1"
proof (induction ops arbitrary: d l)
  case (Cons op ops)
  then obtain l2 where l2: "log_step op l = Some l2" "log_run ops l2 = Some l1" by (auto split: bind_splits)
  then obtain d2 where d2: "dump_step op d = Some d2" "dump_abs d2 l2"
    using dump_step_refines Cons.prems by (metis list.pred_inject(2))
  then show ?case using Cons.IH [OF d2(2) _ l2(2)] Cons.prems by simp
qed simp

text \<open>
  C30: The dump file implements a log with a pending text.  After any sequence of
  writes, switches of the cache mode and flushes whose cached text fits, all
  accesses stayed inside the cache and the file holds exactly the log.
\<close>

theorem dump_run_refines:
  assumes "log_run ops ([], [], False) = Some (log, pend, mode)" "list_all op_text_ok ops"
  shows "\<exists>d. dump_run ops (fst (dump_init True True)) = Some d \<and> dc_fout d = Some log \<and> dc_cache_mode d = mode"
  using dump_run_abs [OF dump_init_abs assms(2,1)] by auto

theorem dump_run_refines_witness:
  "\<exists>d. dump_run [DWrite ''a'', DEnable, DWrite ''bc'', DDisable, DWrite ''d'', DFlush, DWrite ''e'']
         (fst (dump_init True True)) = Some d \<and> dc_fout d = Some ''adbce'' \<and> dc_cache_mode d = False"
  by (rule dump_run_refines [of _ _ "[]"]) (simp_all add: DUMP_CACHE_SIZE_def)

text \<open>
  A message that does not fit into the cache is cut, but the position and the
  rest are moved by its full length, so that the next message, which should be
  dropped, is written behind the cache.
\<close>

theorem dump_write_overruns:
  assumes "dump_abs d (log, pend, True)" "length pend + length s > DUMP_CACHE_SIZE"
  shows "\<exists>d1. dump_write s d = Some d1 \<and> dump_write t d1 = None"
proof -
  let ?c = "pend @ replicate (DUMP_CACHE_SIZE - length pend) NUL"
  let ?x = "take (nat (int DUMP_CACHE_SIZE - int (length pend)) - 1) s @ [NUL]"
  have pend: "length pend < DUMP_CACHE_SIZE" using assms(1) by simp
  then have len: "length pend + length ?x = DUMP_CACHE_SIZE" "length ?c = DUMP_CACHE_SIZE"
    using assms(2) by simp_all
  obtain c1 where c1: "store_at ?c (int (length pend)) ?x = Some c1" "length c1 = DUMP_CACHE_SIZE"
    using store_at_inside [OF eq_imp_le, of "length pend" ?x ?c] unfolding len by blast
  then have "vsnprintf_at ?c (int (length pend)) (int DUMP_CACHE_SIZE - int (length pend)) s = Some c1"
    using assms by (simp add: vsnprintf_at_def)
  moreover have "vsnprintf_at c1 (int (length pend) + int (length s))
      (int DUMP_CACHE_SIZE - int (length pend) - int (length s)) t = None"
    using assms(2) c1(2) by (simp add: vsnprintf_at_def store_at_def nat_add_distrib)
  ultimately show ?thesis using assms by (auto simp: dump_write_def)
qed

theorem dump_write_overruns_witness:
  "\<exists>d d1. dump_run [DEnable] (fst (dump_init True True)) = Some d \<and>
     dump_write (replicate (256 * 1024 + 1) (CHR ''x'')) d = Some d1 \<and> dump_write ''y'' d1 = None"
proof -
  obtain d where d: "dump_run [DEnable] (fst (dump_init True True)) = Some d" "dump_abs d ([], [], True)"
    using dump_run_abs [OF dump_init_abs, of "[DEnable]" "([], [], True)"] by auto
  have "length ([] :: string) + length (replicate (256 * 1024 + 1) (CHR ''x'')) > DUMP_CACHE_SIZE"
    by (simp add: DUMP_CACHE_SIZE_def)
  from dump_write_overruns [OF d(2) this, of "''y''"] d(1) show ?thesis by blast
qed

end
