(* ===== verification/Ring.thy ===== *)
theory Ring
  imports Prelude
begin

text \<open>
  The ring buffer the kernel shares with the program (common/os/pfwrapper.c,
  struct perf_event_mmap_page): reading, skipping and resetting.

  The mapping is one page of meta data followed by the data pages.  The model
  holds the two positions of the meta page and the bytes of the data pages; the
  kernel only moves data_head, which is read once per operation.
\<close>

unbundle bit_operations_syntax

section \<open>State\<close>

type_synonym byte = "8 word"

record ring =
  rg_head :: u64
  rg_tail :: u64
  rg_data :: "byte list"

text \<open>The globals g_pagesize, s_mapsize and s_mapmask.\<close>

record ring_conf =
  rc_pagesize :: int
  rc_mapsize :: int
  rc_mapmask :: int

datatype precise = PRECISE_NORMAL | PRECISE_HIGH | PRECISE_LOW

definition PF_MAP_NPAGES_MAX :: int where "PF_MAP_NPAGES_MAX = 1024"
definition PF_MAP_NPAGES_MIN :: int where "PF_MAP_NPAGES_MIN = 64"
definition PF_MAP_NPAGES_NORMAL :: int where "PF_MAP_NPAGES_NORMAL = 256"

definition pf_ringsize_init :: "precise \<Rightarrow> ring_conf \<Rightarrow> ring_conf \<times> int" where
  "pf_ringsize_init p c =
     (let n = (case p of PRECISE_HIGH \<Rightarrow> PF_MAP_NPAGES_MAX
               | PRECISE_LOW \<Rightarrow> PF_MAP_NPAGES_MIN
               | PRECISE_NORMAL \<Rightarrow> PF_MAP_NPAGES_NORMAL);
          c1 = c\<lparr>rc_mapsize := rc_pagesize c * (n + 1), rc_mapmask := rc_pagesize c * n - 1\<rparr>
      in (c1, rc_mapsize c1 - rc_pagesize c1))"

section \<open>Reading, skipping, resetting\<close>

text \<open>memcpy out of the data pages; behind them nothing is mapped.\<close>

definition read_bytes :: "byte list \<Rightarrow> nat \<Rightarrow> nat \<Rightarrow> byte list option" where
  "read_bytes d i n = (if i + n \<le> length d then Some (take n (drop i d)) else None)"

text \<open>The value of a 64-bit word converted to int.\<close>

definition int_of_u64 :: "u64 \<Rightarrow> int" where
  "int_of_u64 w = sint (ucast w :: 32 word)"

text \<open>
  mmap_buffer_read: the bytes, or None for the return value -1 when fewer than
  size bytes are available.
\<close>

definition mmap_buffer_read :: "ring_conf \<Rightarrow> ring \<Rightarrow> nat \<Rightarrow> (ring \<times> byte list option) option" where
  "mmap_buffer_read c r sz =
     (if sint (rg_head r - rg_tail r) < int sz then Some (r, None)
      else
        let data_tail = rg_tail r AND word_of_int (rc_mapmask c);
            ncopies = int_of_u64 (word_of_int (rc_mapsize c) - data_tail)
        in do {
             buf \<leftarrow>
               (if ncopies < int sz then
                  (if ncopies < 0 then None
                   else do {
                     x \<leftarrow> read_bytes (rg_data r) (unat data_tail) (nat ncopies);
                     y \<leftarrow> read_bytes (rg_data r) 0 (sz - nat ncopies);
                     Some (x @ y)
                   })
                else read_bytes (rg_data r) (unat data_tail) sz);
             Some (r\<lparr>rg_tail := rg_tail r + of_nat sz\<rparr>, Some buf)
           })"

definition mmap_buffer_skip :: "ring \<Rightarrow> int \<Rightarrow> ring" where
  "mmap_buffer_skip r sz =
     (let data_head = int_of_u64 (rg_head r);
          size1 = (if int_of_u64 (rg_tail r + word_of_int sz) > data_head
                   then int_of_u64 (word_of_int data_head - rg_tail r) else sz)
      in r\<lparr>rg_tail := rg_tail r + word_of_int size1\<rparr>)"

definition mmap_buffer_reset :: "ring \<Rightarrow> ring" where
  "mmap_buffer_reset r = r\<lparr>rg_tail := word_of_int (int_of_u64 (rg_head r))\<rparr>"

section \<open>Little-endian words\<close>

fun le64 :: "byte list \<Rightarrow> u64" where
  "le64 [] = 0"
| "le64 (b # bs) = ucast b OR push_bit 8 (le64 bs)"

fun bytes_of :: "nat \<Rightarrow> u64 \<Rightarrow> byte list" where
  "bytes_of 0 w = []"
| "bytes_of (Suc n) w = ucast w # bytes_of n (drop_bit 8 w)"

lemma length_bytes_of [simp]: "length (bytes_of n w) = n"
  by (induction n arbitrary: w) simp_all

lemma le64_bytes_of: "le64 (bytes_of n w) = take_bit (8 * n) w"
proof (induction n arbitrary: w)
  case (Suc n)
  show ?case
    unfolding le64.simps bytes_of.simps Suc
    by (rule bit_word_eqI) (auto simp: bit_simps not_less)
qed simp

lemma le64_bytes [simp]: "le64 (bytes_of 8 w) = w"
  by (simp add: le64_bytes_of take_bit_word_eq_self)

section \<open>What is available\<close>

text \<open>
  The ring is used as documented by the kernel: the data pages are a power of two
  bytes large, the positions are 64-bit counters, data_tail is behind data_head
  by at most the size of the ring, and every record is a multiple of eight bytes
  long.
\<close>

definition ring_ok :: "ring_conf \<Rightarrow> ring \<Rightarrow> bool" where
  "ring_ok c r \<longleftrightarrow>
     (\<exists>k. 3 \<le> k \<and> k \<le> 30 \<and> length (rg_data r) = 2 ^ k \<and> rc_mapmask c = 2 ^ k - 1 \<and>
        rc_mapsize c = 2 ^ k + rc_pagesize c \<and> 0 < rc_pagesize c \<and> rc_mapsize c < 2 ^ 31) \<and>
     8 dvd unat (rg_tail r) \<and> unat (rg_tail r) \<le> unat (rg_head r) \<and>
     unat (rg_head r) - unat (rg_tail r) \<le> length (rg_data r)"

text \<open>The bytes between data_tail and data_head.\<close>

definition avail :: "ring \<Rightarrow> byte list" where
  "avail r = map (\<lambda>i. rg_data r ! (i mod length (rg_data r))) [unat (rg_tail r) ..< unat (rg_head r)]"

lemma length_avail [simp]: "length (avail r) = unat (rg_head r) - unat (rg_tail r)"
  by (simp add: avail_def)

lemma ring_diff:
  assumes "ring_ok c r"
  shows "unat (rg_head r - rg_tail r) = length (avail r)" "sint (rg_head r - rg_tail r) = int (length (avail r))"
proof -
  have le: "rg_tail r \<le> rg_head r" and small: "unat (rg_head r) - unat (rg_tail r) \<le> 2 ^ 30"
  proof -
    obtain k where "k \<le> 30" "length (rg_data r) = 2 ^ k" using assms by (auto simp: ring_ok_def)
    moreover have "(2::nat) ^ k \<le> 2 ^ 30" using \<open>k \<le> 30\<close> by (intro power_increasing) simp_all
    ultimately show "unat (rg_head r) - unat (rg_tail r) \<le> 2 ^ 30" using assms by (simp add: ring_ok_def)
    show "rg_tail r \<le> rg_head r" using assms by (simp add: ring_ok_def word_le_nat_alt)
  qed
  show u: "unat (rg_head r - rg_tail r) = length (avail r)" using le by (simp add: unat_sub)
  have "uint (rg_head r - rg_tail r) < 2 ^ 63" using u small by (simp add: uint_nat)
  then have "sint (rg_head r - rg_tail r) = uint (rg_head r - rg_tail r)"
    using signed_take_bit_int_eq_self [of 63 "uint (rg_head r - rg_tail r)"]
    by (simp add: sint_uint order_trans [OF _ unsigned_greater_eq])
  then show "sint (rg_head r - rg_tail r) = int (length (avail r))" using u by (simp add: uint_nat)
qed


text \<open>A read of eight bytes never wraps: positions and sizes are multiples of eight.\<close>

lemma mask_offset:
  fixes t :: u64
  assumes "rc_mapmask c = 2 ^ k - 1"
  shows "unat (t AND word_of_int (rc_mapmask c)) = unat t mod 2 ^ k"
proof -
  have "word_of_int (rc_mapmask c) = (mask k :: u64)" using assms by (simp add: mask_eq_exp_minus_1)
  then have "t AND word_of_int (rc_mapmask c) = take_bit k t" by (simp only: take_bit_eq_mask)
  then have "unat (t AND word_of_int (rc_mapmask c)) = take_bit k (unat t)" by (simp only: unsigned_take_bit_eq)
  then show ?thesis by (simp only: take_bit_eq_mod)
qed

lemma room_to_end:
  fixes t :: u64
  assumes "rc_mapmask c = 2 ^ k - 1" "rc_mapsize c = 2 ^ k + rc_pagesize c" "0 < rc_pagesize c" "rc_mapsize c < 2 ^ 31"
  shows "int_of_u64 (word_of_int (rc_mapsize c) - (t AND word_of_int (rc_mapmask c)))
     = rc_mapsize c - int (unat t mod 2 ^ k)"
proof -
  let ?w = "t AND word_of_int (rc_mapmask c)" and ?x = "unat t mod 2 ^ k"
  have w: "unat ?w = ?x" by (rule mask_offset [OF assms(1)])
  have "?w = word_of_nat ?x" by (simp flip: w)
  then have e: "word_of_int (rc_mapsize c) - ?w = word_of_int (rc_mapsize c - int ?x)" by simp
  have "?x < 2 ^ k" by simp
  then have xr: "int ?x < 2 ^ k" by (metis of_nat_less_iff of_nat_numeral of_nat_power)
  have iw: "int_of_u64 (word_of_int v) = v" if "0 \<le> v" "v < 2 ^ 31" for v
    using that by (simp add: int_of_u64_def sint_uint uint_word_of_int ucast_eq signed_take_bit_int_eq_self take_bit_int_eq_self)
  show ?thesis unfolding e by (rule iw) (use assms(2-4) xr in linarith)+
qed

lemma ring_mask:
  assumes "ring_ok c r"
  shows "unat (rg_tail r AND word_of_int (rc_mapmask c)) = unat (rg_tail r) mod length (rg_data r)"
proof -
  obtain k where "length (rg_data r) = 2 ^ k" "rc_mapmask c = 2 ^ k - 1" using assms by (auto simp: ring_ok_def)
  then show ?thesis using mask_offset [of c k "rg_tail r"] by presburger
qed

lemma mod_room:
  assumes "8 dvd t" "(n::nat) = 2 ^ k" "3 \<le> k"
  shows "t mod n + 8 \<le> n" "\<And>j. j < 8 \<Longrightarrow> (t + j) mod n = t mod n + j"
proof -
  have "2 ^ 3 dvd n" unfolding assms(2) by (rule le_imp_power_dvd [OF assms(3)])
  then have "8 dvd n" by simp
  then obtain m where m: "n = 8 * m" by (elim dvdE)
  have pos: "0 < n" using assms(2) by simp
  have "8 dvd t mod n" using assms(1) \<open>8 dvd n\<close> by (simp add: dvd_mod)
  moreover have "t mod n < n" using pos by simp
  ultimately show room: "t mod n + 8 \<le> n" using m by (elim dvdE) simp
  show "(t + j) mod n = t mod n + j" if "j < 8" for j
  proof -
    have "(t + j) mod n = (t mod n + j) mod n" by (simp add: mod_add_left_eq)
    then show ?thesis using room that by simp
  qed
qed

lemma take_8_avail:
  assumes ok: "ring_ok c r" and "8 \<le> length (avail r)"
  shows "take 8 (avail r) = take 8 (drop (unat (rg_tail r) mod length (rg_data r)) (rg_data r))"
proof -
  let ?d = "rg_data r" and ?t = "unat (rg_tail r)"
  obtain k where k: "3 \<le> k" "length ?d = 2 ^ k" using ok by (auto simp: ring_ok_def)
  have t: "8 dvd ?t" using ok by (simp add: ring_ok_def)
  note room = mod_room [OF t k(2,1)]
  show ?thesis
  proof (rule nth_equalityI)
    show "length (take 8 (avail r)) = length (take 8 (drop (?t mod length ?d) ?d))"
      using assms(2) room(1) by simp
    fix i assume "i < length (take 8 (avail r))"
    then have i: "i < 8" "?t + i < unat (rg_head r)" using assms(2) by (simp, simp, linarith)
    then have u: "[?t ..< unat (rg_head r)] ! i = ?t + i" by (intro nth_upt)
    have "i < length [?t ..< unat (rg_head r)]" using i(2) by simp
    then have "take 8 (avail r) ! i = ?d ! ((?t + i) mod length ?d)"
      unfolding avail_def nth_take [OF i(1)] by (subst nth_map) (assumption, simp only: u)
    also have "\<dots> = ?d ! (?t mod length ?d + i)" using room(2) [OF i(1)] by simp
    finally show "take 8 (avail r) ! i = take 8 (drop (?t mod length ?d) ?d) ! i"
      using i(1) room(1) by simp
  qed
qed

text \<open>Moving data_tail forward within what is available.\<close>

lemma ring_advance:
  assumes ok: "ring_ok c r" and n: "8 dvd n" "n \<le> length (avail r)"
  shows "unat (rg_tail r + of_nat n) = unat (rg_tail r) + n"
    "ring_ok c (r\<lparr>rg_tail := rg_tail r + of_nat n\<rparr>)"
    "avail (r\<lparr>rg_tail := rg_tail r + of_nat n\<rparr>) = drop n (avail r)"
proof -
  have "unat (rg_tail r) \<le> unat (rg_head r)" using ok by (simp add: ring_ok_def)
  then have "unat (rg_tail r) + n \<le> unat (rg_head r)" using n(2) unfolding length_avail by linarith
  also have "\<dots> < 2 ^ 64" using unsigned_less [of "rg_head r"] by simp
  finally have "unat (rg_tail r) + n < 2 ^ 64" .
  then show u: "unat (rg_tail r + of_nat n) = unat (rg_tail r) + n"
    by (simp add: unat_word_ariths unat_of_nat)
  show "ring_ok c (r\<lparr>rg_tail := rg_tail r + of_nat n\<rparr>)"
    using ok n unfolding ring_ok_def by (simp add: u) auto
  show "avail (r\<lparr>rg_tail := rg_tail r + of_nat n\<rparr>) = drop n (avail r)"
    by (simp add: avail_def u drop_map)
qed

lemma mmap_buffer_read_8:
  assumes ok: "ring_ok c r"
  shows "mmap_buffer_read c r 8 = Some (if length (avail r) < 8 then (r, None)
     else (r\<lparr>rg_tail := rg_tail r + of_nat 8\<rparr>, Some (take 8 (avail r))))"
proof (cases "length (avail r) < 8")
  case True
  then show ?thesis using ring_diff(2) [OF ok] by (simp add: mmap_buffer_read_def)
next
  case False
  obtain k where k: "3 \<le> k" "length (rg_data r) = 2 ^ k" "rc_mapmask c = 2 ^ k - 1"
    "rc_mapsize c = 2 ^ k + rc_pagesize c" "0 < rc_pagesize c" "rc_mapsize c < 2 ^ 31"
    using ok by (auto simp: ring_ok_def)
  have t: "8 dvd unat (rg_tail r)" using ok by (simp add: ring_ok_def)
  note room = mod_room(1) [OF t k(2,1)]
  define x where "x = unat (rg_tail r) mod length (rg_data r)"
  let ?w = "rg_tail r AND word_of_int (rc_mapmask c)"
  have w: "unat ?w = x" using ring_mask [OF ok] by (simp add: x_def)
  have "int x + 8 \<le> 2 ^ k" using room k(2) unfolding x_def by (metis of_nat_add of_nat_le_iff of_nat_numeral of_nat_power)
  then have nc: "\<not> int_of_u64 (word_of_int (rc_mapsize c) - ?w) < int 8"
    using room_to_end [OF k(3-6), of "rg_tail r"] k(2,4,5) unfolding x_def by simp
  have "read_bytes (rg_data r) x 8 = Some (take 8 (avail r))"
    using take_8_avail [OF ok] False room by (simp add: read_bytes_def x_def)
  moreover have "\<not> sint (rg_head r - rg_tail r) < int 8" unfolding ring_diff(2) [OF ok] using False by linarith
  ultimately show ?thesis
    using False nc w by (simp add: mmap_buffer_read_def Let_def)
qed


section \<open>Properties\<close>

lemma int_of_u64_half:
  "int_of_u64 w = int (unat w mod 2 ^ 31) - (if odd (unat w div 2 ^ 31) then 2 ^ 31 else 0)"
proof -
  have "int_of_u64 w = signed_take_bit 31 (uint w)"
    by (simp add: int_of_u64_def sint_uint unsigned_ucast_eq signed_take_bit_take_bit)
  also have "\<dots> = take_bit 31 (uint w) - 2 ^ 31 * of_bool (bit (uint w) 31)"
    using signed_take_bit_eq_take_bit_minus [of 31 "uint w"] take_bit_Suc_from_most [of 31 "uint w"] by simp
  also have "take_bit 31 (uint w) = int (unat w mod 2 ^ 31)"
    unfolding take_bit_eq_mod uint_nat by (simp add: zmod_int)
  also have "bit (uint w) 31 \<longleftrightarrow> odd (unat w div 2 ^ 31)"
  proof -
    have "uint w div 2 ^ 31 = int (unat w div 2 ^ 31)"
      by (simp only: uint_nat zdiv_int of_nat_power of_nat_numeral)
    then show ?thesis by (simp only: bit_iff_odd even_of_nat_iff)
  qed
  finally show ?thesis by simp
qed

text \<open>A skip that does not leave its 2 GB block moves over the given bytes.\<close>

lemma mmap_buffer_skip_ok:
  assumes ok: "ring_ok c r" and n: "8 dvd n" "n \<le> length (avail r)"
    and half: "unat (rg_tail r) div 2 ^ 31 = unat (rg_head r) div 2 ^ 31"
  shows "mmap_buffer_skip r (int n) = r\<lparr>rg_tail := rg_tail r + of_nat n\<rparr>"
proof -
  let ?t = "unat (rg_tail r)" and ?h = "unat (rg_head r)"
  have u: "unat (rg_tail r + of_nat n) = ?t + n" by (rule ring_advance(1) [OF ok n])
  have le: "?t + n \<le> ?h" using n(2) ok unfolding length_avail ring_ok_def by linarith
  have q: "(?t + n) div 2 ^ 31 = ?h div 2 ^ 31"
  proof (rule antisym)
    show "(?t + n) div 2 ^ 31 \<le> ?h div 2 ^ 31" by (rule div_le_mono [OF le])
    show "?h div 2 ^ 31 \<le> (?t + n) div 2 ^ 31" unfolding half [symmetric] by (rule div_le_mono) simp
  qed
  have "(?t + n) mod 2 ^ 31 \<le> ?h mod 2 ^ 31"
    using le q by (metis add_le_cancel_left div_mult_mod_eq)
  then have "\<not> int_of_u64 (rg_tail r + of_nat n) > int_of_u64 (rg_head r)"
    unfolding int_of_u64_half u q by simp
  then show ?thesis by (simp add: mmap_buffer_skip_def Let_def)
qed

text \<open>
  C19: Reading from the ring.  While the ring is used as the kernel documents it,
  a read of eight bytes stays inside the mapping: it fails, changing nothing, if
  fewer than eight bytes are available, and otherwise returns the next eight
  bytes and moves data_tail behind them.
\<close>

theorem ring_read_safe:
  assumes "ring_ok c r"
  shows "\<exists>r1. ring_ok c r1 \<and> rg_head r1 = rg_head r \<and>
     mmap_buffer_read c r 8 = Some (r1, if length (avail r) < 8 then None else Some (take 8 (avail r))) \<and>
     avail r1 = (if length (avail r) < 8 then avail r else drop 8 (avail r))"
proof (cases "length (avail r) < 8")
  case True
  then show ?thesis using mmap_buffer_read_8 [OF assms] assms by (intro exI [of _ r]) simp
next
  case False
  let ?r = "r\<lparr>rg_tail := rg_tail r + of_nat 8\<rparr>"
  have n: "8 dvd (8::nat)" "8 \<le> length (avail r)" using False by simp_all
  have "ring_ok c ?r" "avail ?r = drop 8 (avail r)" by (rule ring_advance [OF assms n])+
  then show ?thesis using mmap_buffer_read_8 [OF assms] False by (intro exI [of _ ?r]) simp
qed

text \<open>A ring of one page of eight bytes that holds one word behind two that were read.\<close>

definition ring_demo :: ring where
  "ring_demo = \<lparr>rg_head = 24, rg_tail = 16, rg_data = bytes_of 8 5\<rparr>"

definition conf_demo :: ring_conf where
  "conf_demo = \<lparr>rc_pagesize = 8, rc_mapsize = 16, rc_mapmask = 7\<rparr>"

lemma ring_demo_ok: "ring_ok conf_demo ring_demo"
  unfolding ring_ok_def by (intro conjI exI [of _ 3]) (simp_all add: ring_demo_def conf_demo_def)

theorem ring_read_safe_witness:
  "\<exists>r1. mmap_buffer_read conf_demo ring_demo 8 = Some (r1, Some (bytes_of 8 5)) \<and> avail r1 = []"
proof -
  have "avail ring_demo = bytes_of 8 5" by code_simp
  then show ?thesis using ring_read_safe [OF ring_demo_ok] by auto
qed

text \<open>
  The wrap-around of a read is not handled.  The size that mmap_buffer_read
  compares with includes the page of meta data, so that a read that starts in the
  last bytes of the data pages and would have to continue at their start is done
  in one piece and runs behind the mapping.
\<close>

theorem ring_wrap_reads_outside:
  assumes "length (rg_data r) = 2 ^ k" "k \<le> 30" "rc_mapmask c = 2 ^ k - 1" "rc_mapsize c = 2 ^ k + rc_pagesize c"
    and "0 < n" "int n \<le> rc_pagesize c" "rc_mapsize c < 2 ^ 31"
    and "int n \<le> sint (rg_head r - rg_tail r)" "2 ^ k < unat (rg_tail r) mod 2 ^ k + n"
  shows "mmap_buffer_read c r n = None"
proof -
  define x where "x = unat (rg_tail r) mod 2 ^ k"
  let ?w = "rg_tail r AND word_of_int (rc_mapmask c)"
  have w: "unat ?w = x" unfolding x_def by (rule mask_offset [OF assms(3)])
  have "x < 2 ^ k" by (simp add: x_def)
  then have xr: "int x < 2 ^ k" by (metis of_nat_less_iff of_nat_numeral of_nat_power)
  have "\<not> int_of_u64 (word_of_int (rc_mapsize c) - ?w) < int n"
    using room_to_end [OF assms(3,4) _ assms(7), of "rg_tail r"] assms(4-6) xr unfolding x_def by linarith
  moreover have "read_bytes (rg_data r) x n = None" using assms(1,9) by (simp add: read_bytes_def x_def)
  ultimately show ?thesis using assms(8) w by (simp add: mmap_buffer_read_def Let_def)
qed

theorem ring_wrap_reads_outside_witness:
  "mmap_buffer_read conf_demo \<lparr>rg_head = 12, rg_tail = 4, rg_data = bytes_of 8 5\<rparr> 8 = None"
  by (rule ring_wrap_reads_outside [where k = 3]) (simp_all add: conf_demo_def)

text \<open>
  A reset after 2 GB.  mmap_buffer_reset takes data_head through an int.
  Once the kernel has written 2 GB, and until it has written 4 GB, data_tail is
  not set to data_head: 2 ^ 32 bytes seem to be available, so that the next read
  returns old bytes instead of failing.
\<close>

theorem reset_after_2GB_reads_stale:
  assumes "ring_ok c r" "8 dvd unat (rg_head r)" "2 ^ 31 \<le> unat (rg_head r)" "unat (rg_head r) < 2 ^ 32"
  shows "sint (rg_head r - rg_tail (mmap_buffer_reset r)) = 2 ^ 32 \<and>
     (\<exists>r1 buf. mmap_buffer_read c (mmap_buffer_reset r) 8 = Some (r1, Some buf))"
proof -
  let ?h = "unat (rg_head r)" and ?r = "mmap_buffer_reset r"
  have "?h div 2 ^ 31 = 1"
    by (rule div_nat_eqI) (use assms(3,4) in simp_all)
  moreover have "?h = ?h div 2 ^ 31 * 2 ^ 31 + ?h mod 2 ^ 31" by (rule div_mult_mod_eq [symmetric])
  ultimately have q: "?h div 2 ^ 31 = 1" and "?h = 2 ^ 31 + ?h mod 2 ^ 31" by simp_all
  then have q2: "int ?h = 2 ^ 31 + int (?h mod 2 ^ 31)" by (metis of_nat_add of_nat_numeral of_nat_power)
  have "int_of_u64 (rg_head r) = int (?h mod 2 ^ 31) - 2 ^ 31" unfolding int_of_u64_half q by simp
  then have "int_of_u64 (rg_head r) = int ?h - 2 ^ 32" using q2 by simp
  then have t: "rg_tail ?r = rg_head r - 2 ^ 32"
    by (simp add: mmap_buffer_reset_def)
  then have d: "rg_head r - rg_tail ?r = 2 ^ 32" by simp
  then have s: "sint (rg_head r - rg_tail ?r) = 2 ^ 32" by simp
  obtain k where k: "3 \<le> k" "k \<le> 30" "length (rg_data r) = 2 ^ k" "rc_mapmask c = 2 ^ k - 1"
    "rc_mapsize c = 2 ^ k + rc_pagesize c" "0 < rc_pagesize c" "rc_mapsize c < 2 ^ 31"
    using assms(1) by (auto simp: ring_ok_def)
  define x where "x = unat (rg_tail ?r) mod 2 ^ k"
  let ?w = "rg_tail ?r AND word_of_int (rc_mapmask c)"
  have w: "unat ?w = x" unfolding x_def by (rule mask_offset [OF k(4)])
  have "unat (rg_head r - 2 ^ 32) = ?h + (2 ^ 64 - 2 ^ 32)"
    using assms(4) by (simp add: unat_sub_if_size word_size)
  then have "8 dvd unat (rg_tail ?r)" unfolding t using assms(2) by simp
  then have room: "x + 8 \<le> 2 ^ k" unfolding x_def by (rule mod_room(1) [OF _ refl k(1)])
  have xr: "int x + 8 \<le> 2 ^ k" using room by (metis of_nat_add of_nat_le_iff of_nat_numeral of_nat_power)
  then have nc: "\<not> int_of_u64 (word_of_int (rc_mapsize c) - ?w) < int 8"
    using room_to_end [OF k(4-7), of "rg_tail ?r"] k(5,6) unfolding x_def by simp
  have "rg_data ?r = rg_data r" "rg_head ?r = rg_head r" by (simp_all add: mmap_buffer_reset_def)
  then have "mmap_buffer_read c ?r 8 \<noteq> None \<and> map_option snd (mmap_buffer_read c ?r 8) \<noteq> Some None"
    using s nc w room k(3) by (simp add: mmap_buffer_read_def read_bytes_def Let_def)
  then show ?thesis using s by (cases "mmap_buffer_read c ?r 8") auto
qed


theorem reset_after_2GB_reads_stale_witness:
  "let r = \<lparr>rg_head = 2147483656, rg_tail = 2147483656, rg_data = bytes_of 8 5\<rparr>
   in \<exists>r1 buf. avail r = [] \<and> mmap_buffer_read conf_demo (mmap_buffer_reset r) 8 = Some (r1, Some buf)"
proof -
  let ?r = "\<lparr>rg_head = 2147483656, rg_tail = 2147483656, rg_data = bytes_of 8 5\<rparr>"
  have "ring_ok conf_demo ?r"
    unfolding ring_ok_def by (intro conjI exI [of _ 3]) (simp_all add: conf_demo_def)
  then show ?thesis using reset_after_2GB_reads_stale [of conf_demo ?r] by (simp add: avail_def)
qed

end
