(* ===== verification/Sample.thy ===== *)
theory Sample
  imports Ring Cpu
begin

text \<open>
  The records in the ring buffer (common/os/pfwrapper.c): the readers of
  profiling samples and of load-latency samples and the loops that drain the
  ring into a buffer.

  The scaling of a counter uses double precision and is a parameter.  The
  buffer and the place for the number of records are both given or both NULL.
\<close>

section \<open>Reading words\<close>

definition is_userspace :: "u64 \<Rightarrow> bool" where
  "is_userspace ip \<longleftrightarrow> ip < 0xffffffff80000000"

definition IP_NUM :: nat where "IP_NUM = 32"
definition PERF_RECORD_SAMPLE :: u32 where "PERF_RECORD_SAMPLE = 9"

definition read_u64 :: "ring_conf \<Rightarrow> ring \<Rightarrow> (ring \<times> u64 option) option" where
  "read_u64 c r = do { (r1, b) \<leftarrow> mmap_buffer_read c r 8; Some (r1, map_option le64 b) }"

text \<open>A read with the branch for the return value -1 and the rest of the function.\<close>

definition on_read ::
  "(ring \<times> u64 option) option \<Rightarrow> (ring \<Rightarrow> 'b option) \<Rightarrow> (ring \<Rightarrow> u64 \<Rightarrow> 'b option) \<Rightarrow> 'b option" where
  "on_read x fail ok =
     (case x of None \<Rightarrow> None | Some (r, None) \<Rightarrow> fail r | Some (r, Some v) \<Rightarrow> ok r v)"

text \<open>The two 32-bit halves of a word in memory, and the fields of struct perf_event_header.\<close>

definition low32 :: "u64 \<Rightarrow> u32" where "low32 w = ucast w"
definition high32 :: "u64 \<Rightarrow> u32" where "high32 w = ucast (drop_bit 32 w)"
definition hdr_type :: "u64 \<Rightarrow> u32" where "hdr_type w = low32 w"
definition hdr_size :: "u64 \<Rightarrow> int" where "hdr_size w = uint (ucast (drop_bit 48 w) :: 16 word)"

text \<open>What is left of a record is skipped when a reader returns.\<close>

definition skip_rest :: "ring \<Rightarrow> int \<Rightarrow> ring" where
  "skip_rest r sz = (if sz > 0 then mmap_buffer_skip r sz else r)"

text \<open>The call chain: the first IP_NUM user-space addresses; the loop counter runs up to nr.\<close>

fun sample_ips ::
  "ring_conf \<Rightarrow> nat \<Rightarrow> ring \<Rightarrow> int \<Rightarrow> u64 list \<Rightarrow> nat \<Rightarrow> (ring \<times> int \<times> u64 list \<times> nat \<times> bool) option" where
  "sample_ips c 0 r sz ips j = Some (r, sz, ips, j, True)"
| "sample_ips c (Suc n) r sz ips j =
     (if j \<ge> IP_NUM then Some (r, sz, ips, j, True)
      else on_read (read_u64 c r)
        (\<lambda>r. Some (r, sz, ips, j, False))
        (\<lambda>r v. if is_userspace v
           then do { ips1 \<leftarrow> arr_set ips (int j) v; sample_ips c n r (sz - 8) ips1 (j + 1) }
           else sample_ips c n r (sz - 8) ips j))"

section \<open>Profiling samples\<close>

record pf_profiling_rec =
  pr_pid :: u32
  pr_tid :: u32
  pr_period :: u64
  pr_countval :: count_value
  pr_ip_num :: nat
  pr_ips :: "u64 list"

text \<open>The counters of the group, scaled; counts has PERF_COUNT_NUM elements.\<close>

fun sample_values ::
  "ring_conf \<Rightarrow> (u64 \<Rightarrow> u64) \<Rightarrow> nat \<Rightarrow> nat \<Rightarrow> ring \<Rightarrow> int \<Rightarrow> count_value \<Rightarrow> (ring \<times> int \<times> count_value \<times> bool) option" where
  "sample_values c scaled i 0 r sz cv = Some (r, sz, cv, True)"
| "sample_values c scaled i (Suc n) r sz cv =
     on_read (read_u64 c r)
       (\<lambda>r. Some (r, sz, cv, False))
       (\<lambda>r v. do {
          u \<leftarrow> arr_get counter_ids (int i);
          sample_values c scaled (i + 1) n r (sz - 8) (cv(u := scaled v))
        })"

definition profiling_sample_read ::
  "ring_conf \<Rightarrow> (u64 \<Rightarrow> u64 \<Rightarrow> u64 \<Rightarrow> u64) \<Rightarrow> ring \<Rightarrow> int \<Rightarrow> pf_profiling_rec \<Rightarrow> (ring \<times> pf_profiling_rec \<times> int) option" where
  "profiling_sample_read c scale r sz rec =
     (let fail = (\<lambda>sz r. Some (skip_rest r sz, rec, -1))
      in on_read (read_u64 c r) (fail sz) (\<lambda>r idw.
         on_read (read_u64 c r) (fail (sz - 8)) (\<lambda>r nr.
         on_read (read_u64 c r) (fail (sz - 16)) (\<lambda>r te.
         on_read (read_u64 c r) (fail (sz - 24)) (\<lambda>r tr.
         do {
           (r, sz, cv, ok) \<leftarrow> sample_values c (\<lambda>v. scale v te tr) 0 (unat nr) r (sz - 32) (pr_countval rec);
           let rec = rec\<lparr>pr_countval := cv\<rparr>;
           if \<not> ok then Some (skip_rest r sz, rec, -1)
           else on_read (read_u64 c r) (\<lambda>r. Some (skip_rest r sz, rec, -1)) (\<lambda>r nr.
             do {
               (r, sz, ips, j, ok) \<leftarrow> sample_ips c (unat nr) r (sz - 8) (pr_ips rec) 0;
               let rec = rec\<lparr>pr_ips := ips\<rparr>;
               if \<not> ok then Some (r, rec, -1)
               else Some (skip_rest r sz, rec\<lparr>pr_ip_num := j, pr_pid := low32 idw, pr_tid := high32 idw\<rparr>, 0)
             })
         })))))"

definition profiling_recbuf_update ::
  "(pf_profiling_rec list \<times> int) \<Rightarrow> pf_profiling_rec \<Rightarrow> (pf_profiling_rec list \<times> int) option" where
  "profiling_recbuf_update out rec =
     (if pr_pid rec = 0 \<or> pr_tid rec = 0 then Some out
      else do { arr \<leftarrow> arr_set (fst out) (snd out) rec; Some (arr, snd out + 1) })"

partial_function (option) profiling_loop ::
  "ring_conf \<Rightarrow> (u64 \<Rightarrow> u64 \<Rightarrow> u64 \<Rightarrow> u64) \<Rightarrow> ring \<Rightarrow> pf_profiling_rec \<Rightarrow> (pf_profiling_rec list \<times> int) option \<Rightarrow>
     (ring \<times> (pf_profiling_rec list \<times> int) option) option" where
  "profiling_loop c scale r rec out =
     do {
       (r, h) \<leftarrow> read_u64 c r;
       case h of None \<Rightarrow> Some (r, out) | Some hw \<Rightarrow>
       if hdr_size hw - 8 \<le> 0 then Some (mmap_buffer_reset r, out)
       else if hdr_type hw = PERF_RECORD_SAMPLE \<and> out \<noteq> None then do {
         (r, rec, ret) \<leftarrow> profiling_sample_read c scale r (hdr_size hw - 8) rec;
         if ret = 0 then do {
           out1 \<leftarrow> profiling_recbuf_update (the out) rec;
           profiling_loop c scale r rec (Some out1)
         }
         else Some (r, out)
       }
       else profiling_loop c scale (mmap_buffer_skip r (hdr_size hw - 8)) rec out
     }"

text \<open>pf_profiling_record; the local record starts with whatever is on the stack.\<close>

definition pf_profiling_record ::
  "ring_conf \<Rightarrow> (u64 \<Rightarrow> u64 \<Rightarrow> u64 \<Rightarrow> u64) \<Rightarrow> ring \<Rightarrow> pf_profiling_rec \<Rightarrow> pf_profiling_rec list option \<Rightarrow>
     (ring \<times> (pf_profiling_rec list \<times> int) option) option" where
  "pf_profiling_record c scale r stack rec_arr =
     profiling_loop c scale r stack (map_option (\<lambda>a. (a, 0)) rec_arr)"

section \<open>Load-latency samples\<close>

record pf_ll_rec =
  lr_pid :: u32
  lr_tid :: u32
  lr_addr :: u64
  lr_cpu :: u64
  lr_latency :: u64
  lr_ip_num :: nat
  lr_ips :: "u64 list"

definition PERF_MEM_OP_NA :: u64 where "PERF_MEM_OP_NA = 1"
definition PERF_MEM_OP_EXEC :: u64 where "PERF_MEM_OP_EXEC = 16"

definition ll_sample_read ::
  "ring_conf \<Rightarrow> ring \<Rightarrow> int \<Rightarrow> pf_ll_rec \<Rightarrow> (ring \<times> pf_ll_rec \<times> int) option" where
  "ll_sample_read c r sz rec =
     (let fail = (\<lambda>sz r. Some (skip_rest r sz, rec, -1))
      in on_read (read_u64 c r) (fail sz) (\<lambda>r idw.
         if low32 idw = -1 then fail sz r else
         on_read (read_u64 c r) (fail (sz - 8)) (\<lambda>r addr.
         on_read (read_u64 c r) (fail (sz - 16)) (\<lambda>r cpu.
         on_read (read_u64 c r) (fail (sz - 24)) (\<lambda>r nr.
         do {
           (r, sz, ips, j, ok) \<leftarrow> sample_ips c (unat nr) r (sz - 32) (lr_ips rec) 0;
           let rec = rec\<lparr>lr_ips := ips\<rparr>;
           if \<not> ok then Some (skip_rest r sz, rec, -1)
           else on_read (read_u64 c r) (\<lambda>r. Some (skip_rest r sz, rec, -1)) (\<lambda>r weight.
                on_read (read_u64 c r) (\<lambda>r. Some (skip_rest r (sz - 8), rec, -1)) (\<lambda>r src.
                  let mem_op = take_bit 5 src;
                      addr = (if mem_op = PERF_MEM_OP_NA \<or> mem_op = PERF_MEM_OP_EXEC then 0 else addr)
                  in Some (skip_rest r (sz - 16), rec\<lparr>lr_ip_num := j, lr_pid := low32 idw, lr_tid := high32 idw,
                       lr_addr := addr, lr_cpu := cpu, lr_latency := weight\<rparr>, 0)))
         })))))"

definition ll_recbuf_update :: "(pf_ll_rec list \<times> int) \<Rightarrow> pf_ll_rec \<Rightarrow> (pf_ll_rec list \<times> int) option" where
  "ll_recbuf_update out rec =
     (if lr_pid rec = 0 \<or> lr_tid rec = 0 \<or> lr_addr rec = 0 then Some out
      else do { arr \<leftarrow> arr_set (fst out) (snd out) rec; Some (arr, snd out + 1) })"

partial_function (option) ll_loop ::
  "ring_conf \<Rightarrow> ring \<Rightarrow> pf_ll_rec \<Rightarrow> pf_ll_rec list \<times> int \<Rightarrow> (ring \<times> pf_ll_rec list \<times> int) option" where
  "ll_loop c r rec out =
     do {
       (r, h) \<leftarrow> read_u64 c r;
       case h of None \<Rightarrow> Some (r, out) | Some hw \<Rightarrow>
       if hdr_size hw - 8 \<le> 0 then Some (r, out)
       else if hdr_type hw = PERF_RECORD_SAMPLE then do {
         (r, rec, ret) \<leftarrow> ll_sample_read c r (hdr_size hw - 8) rec;
         if ret = 0 then do { out1 \<leftarrow> ll_recbuf_update out rec; ll_loop c r rec out1 }
         else Some (r, out)
       }
       else ll_loop c (mmap_buffer_skip r (hdr_size hw - 8)) rec out
     }"

definition pf_ll_record ::
  "ring_conf \<Rightarrow> ring \<Rightarrow> pf_ll_rec \<Rightarrow> pf_ll_rec list \<Rightarrow> (ring \<times> pf_ll_rec list \<times> int) option" where
  "pf_ll_record c r stack rec_arr = ll_loop c r stack (rec_arr, 0)"

section \<open>The words of the ring\<close>

text \<open>The words that are available, on a ring whose positions are in the same 2 GB block.\<close>

definition ring_at :: "ring_conf \<Rightarrow> ring \<Rightarrow> u64 list \<Rightarrow> bool" where
  "ring_at c r ws \<longleftrightarrow> ring_ok c r \<and> avail r = concat (map (bytes_of 8) ws) \<and>
     unat (rg_tail r) div 2 ^ 31 = unat (rg_head r) div 2 ^ 31"

definition ring_adv :: "ring \<Rightarrow> nat \<Rightarrow> ring" where
  "ring_adv r n = r\<lparr>rg_tail := rg_tail r + of_nat (8 * n)\<rparr>"

lemma length_words [simp]: "length (concat (map (bytes_of 8) ws)) = 8 * length ws"
  by (induction ws) simp_all

lemma ring_adv_add: "ring_adv (ring_adv r m) n = ring_adv r (m + n)"
  by (simp add: ring_adv_def algebra_simps)

lemma ring_adv_0 [simp]: "ring_adv r 0 = r"
  by (simp add: ring_adv_def)

lemma ring_at_adv:
  assumes "ring_at c r (xs @ ys)"
  shows "ring_at c (ring_adv r (length xs)) ys"
proof -
  have ok: "ring_ok c r" and av: "avail r = concat (map (bytes_of 8) (xs @ ys))"
    and half: "unat (rg_tail r) div 2 ^ 31 = unat (rg_head r) div 2 ^ 31"
    using assms by (simp_all add: ring_at_def)
  have n: "8 dvd 8 * length xs" "8 * length xs \<le> length (avail r)" by (simp, simp only: av length_words, simp)
  note adv = ring_advance [OF ok n]
  have "unat (rg_tail r) + 8 * length xs \<le> unat (rg_head r)"
    using n(2) ok unfolding length_avail ring_ok_def by linarith
  then have "(unat (rg_tail r) + 8 * length xs) div 2 ^ 31 \<le> unat (rg_head r) div 2 ^ 31" by (rule div_le_mono)
  moreover have "unat (rg_tail r) div 2 ^ 31 \<le> (unat (rg_tail r) + 8 * length xs) div 2 ^ 31"
    by (rule div_le_mono) simp
  ultimately have "(unat (rg_tail r) + 8 * length xs) div 2 ^ 31 = unat (rg_head r) div 2 ^ 31"
    using half by linarith
  then have h1: "unat (rg_tail r + of_nat (8 * length xs)) div 2 ^ 31 = unat (rg_head r) div 2 ^ 31"
    by (simp only: adv(1))
  have a1: "avail (ring_adv r (length xs)) = concat (map (bytes_of 8) ys)"
    unfolding ring_adv_def adv(3) av map_append concat_append by (simp only: append_eq_conv_conj [THEN iffD1, THEN conjunct2, OF refl] drop_append length_words) simp
  show ?thesis
    using adv(2) a1 h1 unfolding ring_at_def by (simp add: ring_adv_def)
qed

lemma read_u64_Cons:
  assumes "ring_at c r (w # ws)"
  shows "read_u64 c r = Some (ring_adv r 1, Some w)" "ring_at c (ring_adv r 1) ws"
proof -
  have ok: "ring_ok c r" and av: "avail r = bytes_of 8 w @ concat (map (bytes_of 8) ws)"
    using assms by (simp_all add: ring_at_def)
  have len: "\<not> length (avail r) < 8" unfolding av by simp
  have "take 8 (avail r) = bytes_of 8 w" unfolding av by simp
  then show "read_u64 c r = Some (ring_adv r 1, Some w)"
    using mmap_buffer_read_8 [OF ok] len by (simp add: read_u64_def ring_adv_def)
  show "ring_at c (ring_adv r 1) ws" using ring_at_adv [of c r "[w]" ws] assms by simp
qed

lemma read_u64_Nil:
  assumes "ring_at c r []" shows "read_u64 c r = Some (r, None)"
proof -
  have "ring_ok c r" "length (avail r) < 8" using assms by (simp_all only: ring_at_def) simp
  then show ?thesis using mmap_buffer_read_8 [of c r] by (simp add: read_u64_def)
qed

lemma skip_words:
  assumes "ring_at c r (xs @ ys)"
  shows "mmap_buffer_skip r (8 * int (length xs)) = ring_adv r (length xs)"
proof -
  have ok: "ring_ok c r" and av: "avail r = concat (map (bytes_of 8) (xs @ ys))"
    and half: "unat (rg_tail r) div 2 ^ 31 = unat (rg_head r) div 2 ^ 31"
    using assms by (simp_all add: ring_at_def)
  have n: "8 dvd 8 * length xs" "8 * length xs \<le> length (avail r)" by (simp, simp only: av length_words, simp)
  have "8 * int (length xs) = int (8 * length xs)" by simp
  then show ?thesis using mmap_buffer_skip_ok [OF ok n half] unfolding ring_adv_def by metis
qed

lemma skip_rest_words:
  assumes "ring_at c r (xs @ ys)"
  shows "skip_rest r (8 * int (length xs)) = ring_adv r (length xs)"
  using skip_words [OF assms] by (cases xs) (simp_all add: skip_rest_def)

lemma on_read_Cons:
  assumes "ring_at c r (w # ws)"
  shows "on_read (read_u64 c r) f g = g (ring_adv r 1) w"
  using read_u64_Cons(1) [OF assms] by (simp add: on_read_def)


text \<open>A ring of 512 bytes that holds the given words.\<close>

definition record_conf :: ring_conf where
  "record_conf = \<lparr>rc_pagesize = 8, rc_mapsize = 520, rc_mapmask = 511\<rparr>"

definition ring_of :: "u64 list \<Rightarrow> ring" where
  "ring_of ws = \<lparr>rg_head = of_nat (8 * length ws), rg_tail = 0,
     rg_data = concat (map (bytes_of 8) ws) @ replicate (512 - 8 * length ws) 0\<rparr>"

lemma ring_of_at:
  assumes "8 * length ws \<le> 512" shows "ring_at record_conf (ring_of ws) ws"
proof -
  let ?n = "8 * length ws"
  let ?d = "concat (map (bytes_of 8) ws) @ replicate (512 - ?n) 0"
  have len: "length ?d = 512" using assms by simp
  have h: "unat (of_nat ?n :: u64) = ?n" using assms by (subst unat_of_nat) simp
  have "ring_ok record_conf (ring_of ws)"
    unfolding ring_ok_def by (intro conjI exI [of _ 9]) (use len h assms in \<open>simp_all add: record_conf_def ring_of_def\<close>)
  moreover have "avail (ring_of ws) = concat (map (bytes_of 8) ws)"
  proof -
    have "avail (ring_of ws) = map (\<lambda>i. ?d ! (i mod 512)) [0 ..< ?n]"
      using len h by (simp add: avail_def ring_of_def)
    also have "\<dots> = map ((!) ?d) [0 ..< ?n]" using assms by (intro map_cong refl) simp
    also have "\<dots> = take ?n ?d" using len assms by (intro nth_equalityI) (simp_all add: nth_append)
    finally show ?thesis by simp
  qed
  moreover have "unat (rg_head (ring_of ws)) div 2 ^ 31 = 0"
    using h assms by (simp add: ring_of_def)
  ultimately show ?thesis by (simp add: ring_at_def ring_of_def)
qed

section \<open>The records the kernel writes\<close>

text \<open>
  A record is a header with its size in bytes and its payload, here in words of
  eight bytes: a profiling sample as pf_profiling_setup asks for it, or a record
  of another type.
\<close>

datatype rb_record =
    RbSample "16 word" u32 u32 u64 u64 "u64 list" "u64 list"
  | RbOther "16 word" u32 "u64 list"

definition id_word :: "u32 \<Rightarrow> u32 \<Rightarrow> u64" where
  "id_word pid tid = ucast pid OR push_bit 32 (ucast tid)"

definition hdr_word :: "u32 \<Rightarrow> 16 word \<Rightarrow> nat \<Rightarrow> u64" where
  "hdr_word t misc n = ucast t OR push_bit 32 (ucast misc) OR push_bit 48 (of_nat n)"

fun rb_payload :: "rb_record \<Rightarrow> u64 list" where
  "rb_payload (RbSample misc pid tid te tr vs ips) =
     id_word pid tid # of_nat (length vs) # te # tr # vs @ of_nat (length ips) # ips"
| "rb_payload (RbOther misc t ws) = ws"

fun rb_type :: "rb_record \<Rightarrow> u32" where
  "rb_type (RbSample misc pid tid te tr vs ips) = PERF_RECORD_SAMPLE"
| "rb_type (RbOther misc t ws) = t"

fun rb_misc :: "rb_record \<Rightarrow> 16 word" where
  "rb_misc (RbSample misc pid tid te tr vs ips) = misc"
| "rb_misc (RbOther misc t ws) = misc"

definition rb_words :: "rb_record \<Rightarrow> u64 list" where
  "rb_words rb = hdr_word (rb_type rb) (rb_misc rb) (8 * (1 + length (rb_payload rb))) # rb_payload rb"

definition rb_ok :: "rb_record \<Rightarrow> bool" where
  "rb_ok rb \<longleftrightarrow> rb_payload rb \<noteq> [] \<and> 8 * (1 + length (rb_payload rb)) < 2 ^ 16 \<and>
     (case rb of RbSample misc pid tid te tr vs ips \<Rightarrow> length vs = length counter_ids
      | RbOther misc t ws \<Rightarrow> t \<noteq> PERF_RECORD_SAMPLE)"

text \<open>What the program makes of a sample: only the samples of user processes, and only their first user-space addresses.\<close>

definition rec_view :: "pf_profiling_rec \<Rightarrow> u32 \<times> u32 \<times> u64 list \<times> u64 list" where
  "rec_view rec = (pr_pid rec, pr_tid rec, map (pr_countval rec) counter_ids, take (pr_ip_num rec) (pr_ips rec))"

fun rb_view :: "(u64 \<Rightarrow> u64 \<Rightarrow> u64 \<Rightarrow> u64) \<Rightarrow> rb_record \<Rightarrow> (u32 \<times> u32 \<times> u64 list \<times> u64 list) list" where
  "rb_view scale (RbSample misc pid tid te tr vs ips) =
     (if pid = 0 \<or> tid = 0 then []
      else [(pid, tid, map (\<lambda>v. scale v te tr) vs, take IP_NUM (filter is_userspace ips))])"
| "rb_view scale (RbOther misc t ws) = []"

lemma id_word_halves [simp]: "low32 (id_word pid tid) = pid" "high32 (id_word pid tid) = tid"
  unfolding low32_def high32_def id_word_def
  by (rule bit_word_eqI; auto simp: bit_simps dest: bit_imp_le_length)+

lemma hdr_word_fields:
  "hdr_type (hdr_word t misc n) = t" "n < 2 ^ 16 \<Longrightarrow> hdr_size (hdr_word t misc n) = int n"
proof -
  show "hdr_type (hdr_word t misc n) = t"
    unfolding hdr_type_def low32_def hdr_word_def by (rule bit_word_eqI) (auto simp: bit_simps dest: bit_imp_le_length)
  have "(ucast (drop_bit 48 (hdr_word t misc n)) :: 16 word) = of_nat n"
    unfolding hdr_word_def by (rule bit_word_eqI) (auto simp: bit_simps dest: bit_imp_le_length)
  then show "hdr_size (hdr_word t misc n) = int n" if "n < 2 ^ 16"
    using that by (simp add: hdr_size_def uint_nat unat_of_nat)
qed

section \<open>Reading a call chain and the counters\<close>

lemma sample_ips_result:
  assumes "ring_at c r (ips @ ws)" "length arr = IP_NUM" "j \<le> IP_NUM"
  shows "\<exists>k arr1. sample_ips c (length ips) r sz arr j
       = Some (ring_adv r k, sz - 8 * int k, arr1, j + length (take (IP_NUM - j) (filter is_userspace ips)), True) \<and>
     k \<le> length ips \<and> length arr1 = IP_NUM \<and>
     take (j + length (take (IP_NUM - j) (filter is_userspace ips))) arr1
       = take j arr @ take (IP_NUM - j) (filter is_userspace ips) \<and>
     (j + length (filter is_userspace (butlast ips)) < IP_NUM \<longrightarrow> k = length ips)"
  using assms
proof (induction ips arbitrary: r sz arr j)
  case Nil
  then show ?case by (intro exI [of _ 0] exI [of _ arr]) simp
next
  case (Cons v ips)
  have at: "ring_at c r (v # ips @ ws)" using Cons.prems(1) by simp
  note rd = on_read_Cons [OF at]
  have at1: "ring_at c (ring_adv r 1) (ips @ ws)" by (rule read_u64_Cons(2) [OF at])
  show ?case
  proof (cases "j \<ge> IP_NUM")
    case True
    then show ?thesis using Cons.prems by (intro exI [of _ 0] exI [of _ arr]) auto
  next
    case False
    show ?thesis
    proof (cases "is_userspace v")
      case True
      let ?arr = "arr[j := v]"
      have j1: "j + 1 \<le> IP_NUM" "length ?arr = IP_NUM" using False Cons.prems(2) by simp_all
      obtain k arr1 where IH: "sample_ips c (length ips) (ring_adv r 1) (sz - 8) ?arr (j + 1)
         = Some (ring_adv (ring_adv r 1) k, sz - 8 - 8 * int k, arr1,
             j + 1 + length (take (IP_NUM - (j + 1)) (filter is_userspace ips)), True)"
        "k \<le> length ips" "length arr1 = IP_NUM"
        and tk: "take (j + 1 + length (take (IP_NUM - (j + 1)) (filter is_userspace ips))) arr1
         = take (j + 1) ?arr @ take (IP_NUM - (j + 1)) (filter is_userspace ips)"
        and nb: "j + 1 + length (filter is_userspace (butlast ips)) < IP_NUM \<longrightarrow> k = length ips"
        using Cons.IH [OF at1 j1(2,1), of "sz - 8"] by blast
      have sub: "IP_NUM - j = Suc (IP_NUM - (j + 1))" using False by simp
      have ta: "take (j + 1) ?arr = take j arr @ [v]"
        using take_Suc_update [of j arr v] False Cons.prems(2) by simp
      have kk: "j + length (filter is_userspace (butlast (v # ips))) < IP_NUM \<longrightarrow> k + 1 = length (v # ips)"
        using nb IH(2) True by (cases ips) simp_all
      have st: "arr_set arr (int j) v = Some ?arr" using False Cons.prems(2) by simp
      show ?thesis
        using IH(1-3) tk ta kk st True False
        by (intro exI [of _ "k + 1"] exI [of _ arr1]) (simp add: rd sub ring_adv_add)
    next
      case user: False
      obtain k arr1 where IH: "sample_ips c (length ips) (ring_adv r 1) (sz - 8) arr j
         = Some (ring_adv (ring_adv r 1) k, sz - 8 - 8 * int k, arr1,
             j + length (take (IP_NUM - j) (filter is_userspace ips)), True)"
        "k \<le> length ips" "length arr1 = IP_NUM"
        and tk: "take (j + length (take (IP_NUM - j) (filter is_userspace ips))) arr1
         = take j arr @ take (IP_NUM - j) (filter is_userspace ips)"
        and nb: "j + length (filter is_userspace (butlast ips)) < IP_NUM \<longrightarrow> k = length ips"
        using Cons.IH [OF at1 Cons.prems(2,3), of "sz - 8"] by blast
      have kk: "j + length (filter is_userspace (butlast (v # ips))) < IP_NUM \<longrightarrow> k + 1 = length (v # ips)"
        using nb IH(2) user by (cases ips) simp_all
      show ?thesis
        using IH(1-3) tk kk user False
        by (intro exI [of _ "k + 1"] exI [of _ arr1]) (simp add: rd ring_adv_add)
    qed
  qed
qed

fun set_counters :: "(u64 \<Rightarrow> u64) \<Rightarrow> perf_count_id list \<Rightarrow> u64 list \<Rightarrow> count_value \<Rightarrow> count_value" where
  "set_counters f (u # us) (v # vs) cv = set_counters f us vs (cv(u := f v))"
| "set_counters f _ _ cv = cv"

lemma sample_values_result:
  assumes "ring_at c r (vs @ ws)" "i + length vs \<le> length counter_ids"
  shows "sample_values c f i (length vs) r sz cv = Some (ring_adv r (length vs), sz - 8 * int (length vs),
     set_counters f (drop i counter_ids) vs cv, True)"
  using assms
proof (induction vs arbitrary: r sz cv i)
  case (Cons v vs)
  have at: "ring_at c r (v # vs @ ws)" using Cons.prems(1) by simp
  have i: "i < length counter_ids" using Cons.prems(2) by simp
  then have dr: "drop i counter_ids = counter_ids ! i # drop (Suc i) counter_ids" by (rule Cons_nth_drop_Suc [symmetric])
  have "sample_values c f (i + 1) (length vs) (ring_adv r 1) (sz - 8) (cv(counter_ids ! i := f v))
     = Some (ring_adv (ring_adv r 1) (length vs), sz - 8 - 8 * int (length vs),
         set_counters f (drop (i + 1) counter_ids) vs (cv(counter_ids ! i := f v)), True)"
    by (rule Cons.IH [OF read_u64_Cons(2) [OF at]]) (use Cons.prems(2) in simp)
  then show ?case using i by (simp add: on_read_Cons [OF at] dr ring_adv_add)
qed simp

lemma counters_set:
  assumes "length vs = length counter_ids"
  shows "map (set_counters f counter_ids vs cv) counter_ids = map f vs"
proof -
  have "length vs = Suc (Suc (Suc (Suc (Suc 0))))" using assms by (simp add: counter_ids_def)
  then obtain a b d e g where "vs = [a, b, d, e, g]" by (auto simp: length_Suc_conv)
  then show ?thesis by (simp add: counter_ids_def)
qed

lemma profiling_sample_result:
  assumes at: "ring_at c r (rb_payload (RbSample misc pid tid te tr vs ips) @ ws)"
    and ok: "rb_ok (RbSample misc pid tid te tr vs ips)" and len: "length (pr_ips rec) = IP_NUM"
  obtains rec1 where
    "profiling_sample_read c scale r (8 * int (length (rb_payload (RbSample misc pid tid te tr vs ips)))) rec
       = Some (ring_adv r (length (rb_payload (RbSample misc pid tid te tr vs ips))), rec1, 0)"
    "rec_view rec1 = (pid, tid, map (\<lambda>v. scale v te tr) vs, take IP_NUM (filter is_userspace ips))"
    "pr_pid rec1 = pid" "pr_tid rec1 = tid" "length (pr_ips rec1) = IP_NUM"
proof -
  let ?us = "take IP_NUM (filter is_userspace ips)"
  let ?n = "length vs" and ?m = "length ips"
  have lv: "?n = length counter_ids" and small: "6 + ?n + ?m < 2 ^ 13" using ok by (simp_all add: rb_ok_def)
  have un: "unat (of_nat ?n :: u64) = ?n" "unat (of_nat ?m :: u64) = ?m"
    using small by (simp_all add: unat_of_nat)
  have a0: "ring_at c r (id_word pid tid # of_nat ?n # te # tr # vs @ of_nat ?m # ips @ ws)" using at by simp
  note a1 = read_u64_Cons(2) [OF a0] and r0 = on_read_Cons [OF a0]
  note a2 = read_u64_Cons(2) [OF a1] and r1 = on_read_Cons [OF a1]
  note a3 = read_u64_Cons(2) [OF a2] and r2 = on_read_Cons [OF a2]
  note a4 = read_u64_Cons(2) [OF a3] and r3 = on_read_Cons [OF a3]
  have adv4: "ring_adv (ring_adv (ring_adv (ring_adv r 1) 1) 1) 1 = ring_adv r 4"
    by (simp add: ring_adv_add numeral_eq_Suc)
  note a4 = a4 [unfolded adv4]
  let ?cv = "set_counters (\<lambda>v. scale v te tr) counter_ids vs (pr_countval rec)"
  have v: "sample_values c (\<lambda>v. scale v te tr) 0 ?n (ring_adv r 4) (8 * int (1 + ?n + ?m)) (pr_countval rec)
      = Some (ring_adv r (4 + ?n), 8 * int (1 + ?n + ?m) - 8 * int ?n, ?cv, True)"
    using sample_values_result [OF a4, of 0 "\<lambda>v. scale v te tr"] lv
    by (simp add: ring_adv_add algebra_simps)
  have a5: "ring_at c (ring_adv r (4 + ?n)) (of_nat ?m # ips @ ws)"
    using ring_at_adv [OF a4] by (simp add: ring_adv_add)
  note a6 = read_u64_Cons(2) [OF a5] and r5 = on_read_Cons [OF a5]
  obtain k arr1 where s: "sample_ips c ?m (ring_adv (ring_adv r (4 + ?n)) 1) (8 * int ?m) (pr_ips rec) 0
      = Some (ring_adv (ring_adv (ring_adv r (4 + ?n)) 1) k, 8 * int ?m - 8 * int k, arr1, 0 + length (take (IP_NUM - 0) (filter is_userspace ips)), True)"
    and k: "k \<le> ?m" "length arr1 = IP_NUM" "take (0 + length (take (IP_NUM - 0) (filter is_userspace ips))) arr1 = take 0 (pr_ips rec) @ take (IP_NUM - 0) (filter is_userspace ips)"
    using sample_ips_result [OF a6 len, of 0 "8 * int ?m"] by auto
  have "ring_at c (ring_adv (ring_adv (ring_adv r (4 + ?n)) 1) k) (drop k ips @ ws)"
  proof -
    have "ips @ ws = take k ips @ drop k ips @ ws" by (simp flip: append_assoc)
    then have "ring_at c (ring_adv (ring_adv r (4 + ?n)) 1) (take k ips @ drop k ips @ ws)" using a6 by (simp only:)
    from ring_at_adv [OF this] show ?thesis using k(1) by simp
  qed
  then have "skip_rest (ring_adv (ring_adv (ring_adv r (4 + ?n)) 1) k) (8 * int (length (drop k ips)))
      = ring_adv (ring_adv (ring_adv (ring_adv r (4 + ?n)) 1) k) (length (drop k ips))"
    by (rule skip_rest_words)
  then have sk: "skip_rest (ring_adv (ring_adv (ring_adv r (4 + ?n)) 1) k) (8 * int ?m - 8 * int k)
      = ring_adv r (5 + ?n + ?m)"
    using k(1) by (simp add: ring_adv_add of_nat_diff algebra_simps)
  let ?rec = "rec\<lparr>pr_countval := ?cv, pr_ips := arr1, pr_ip_num := length ?us, pr_pid := pid, pr_tid := tid\<rparr>"
  have run: "profiling_sample_read c scale r (8 * int (5 + ?n + ?m)) rec = Some (ring_adv r (5 + ?n + ?m), ?rec, 0)"
    unfolding profiling_sample_read_def Let_def r0 r1 r2 r3 un adv4
    using v s sk by (simp add: r5 un ring_adv_add)
  have lp: "length (rb_payload (RbSample misc pid tid te tr vs ips)) = 5 + ?n + ?m" by simp
  have vw: "rec_view ?rec = (pid, tid, map (\<lambda>v. scale v te tr) vs, ?us)"
    using counters_set [OF lv] k(3) by (simp add: rec_view_def)
  show ?thesis
    by (rule that [of ?rec]) (simp_all only: lp run vw, simp_all add: k(2))
qed

section \<open>Draining the ring\<close>

lemma profiling_loop_Nil:
  assumes "ring_at c r []" shows "profiling_loop c scale r rec out = Some (r, out)"
  using read_u64_Nil [OF assms] by (subst profiling_loop.simps) simp

text \<open>A record of another type, or any record when there is no buffer.\<close>

lemma rb_header:
  assumes "rb_ok rb"
  shows "hdr_type (hd (rb_words rb)) = rb_type rb" "hdr_size (hd (rb_words rb)) - 8 = 8 * int (length (rb_payload rb))"
    "\<not> hdr_size (hd (rb_words rb)) - 8 \<le> 0"
  using assms hdr_word_fields by (simp_all add: rb_words_def rb_ok_def)

lemma profiling_loop_step:
  assumes at: "ring_at c r (rb_words rb @ ws)" and ok: "rb_ok rb"
  shows "profiling_loop c scale r rec out =
     (if rb_type rb = PERF_RECORD_SAMPLE \<and> out \<noteq> None then do {
        (r, rec, ret) \<leftarrow> profiling_sample_read c scale (ring_adv r 1) (8 * int (length (rb_payload rb))) rec;
        if ret = 0 then do {
          out1 \<leftarrow> profiling_recbuf_update (the out) rec;
          profiling_loop c scale r rec (Some out1)
        }
        else Some (r, out)
      }
      else profiling_loop c scale (ring_adv r (length (rb_words rb))) rec out)"
    "ring_at c (ring_adv r 1) (rb_payload rb @ ws)" "ring_at c (ring_adv r (length (rb_words rb))) ws"
proof -
  have w: "rb_words rb = hd (rb_words rb) # rb_payload rb" by (simp add: rb_words_def)
  have a: "ring_at c r (hd (rb_words rb) # rb_payload rb @ ws)" using at by (simp add: rb_words_def)
  show p: "ring_at c (ring_adv r 1) (rb_payload rb @ ws)" by (rule read_u64_Cons(2) [OF a])
  show "ring_at c (ring_adv r (length (rb_words rb))) ws" by (rule ring_at_adv [OF at])
  have sk: "mmap_buffer_skip (ring_adv r 1) (8 * int (length (rb_payload rb))) = ring_adv r (length (rb_words rb))"
    unfolding skip_words [OF p] by (simp add: ring_adv_add rb_words_def)
  have h: "\<not> hdr_size (hd (rb_words rb)) \<le> 8" using rb_header(3) [OF ok] by simp
  show "profiling_loop c scale r rec out =
     (if rb_type rb = PERF_RECORD_SAMPLE \<and> out \<noteq> None then do {
        (r, rec, ret) \<leftarrow> profiling_sample_read c scale (ring_adv r 1) (8 * int (length (rb_payload rb))) rec;
        if ret = 0 then do {
          out1 \<leftarrow> profiling_recbuf_update (the out) rec;
          profiling_loop c scale r rec (Some out1)
        }
        else Some (r, out)
      }
      else profiling_loop c scale (ring_adv r (length (rb_words rb))) rec out)"
    using read_u64_Cons(1) [OF a] rb_header(1,2) [OF ok] h sk
    by (subst profiling_loop.simps; cases out) simp_all
qed

lemma profiling_loop_drain:
  assumes "ring_at c r (concat (map rb_words rbs))" "\<forall>rb \<in> set rbs. rb_ok rb"
  shows "profiling_loop c scale r rec None = Some (ring_adv r (length (concat (map rb_words rbs))), None)"
  using assms
proof (induction rbs arbitrary: r)
  case Nil
  then show ?case by (simp add: profiling_loop_Nil)
next
  case (Cons rb rbs)
  have at: "ring_at c r (rb_words rb @ concat (map rb_words rbs))" and ok: "rb_ok rb" using Cons.prems by simp_all
  show ?case
    using profiling_loop_step(1) [OF at ok, of scale rec None] Cons.IH [OF profiling_loop_step(3) [OF at ok]] Cons.prems(2)
    by (simp add: ring_adv_add)
qed

lemma profiling_loop_result:
  assumes "ring_at c r (concat (map rb_words rbs))" "\<forall>rb \<in> set rbs. rb_ok rb"
    and "length (pr_ips rec) = IP_NUM" "n + length (concat (map (rb_view scale) rbs)) \<le> length arr"
  shows "\<exists>arr1. profiling_loop c scale r rec (Some (arr, int n))
       = Some (ring_adv r (length (concat (map rb_words rbs))),
               Some (arr1, int (n + length (concat (map (rb_view scale) rbs))))) \<and>
     map rec_view (take (n + length (concat (map (rb_view scale) rbs))) arr1)
       = map rec_view (take n arr) @ concat (map (rb_view scale) rbs)"
  using assms
proof (induction rbs arbitrary: r rec n arr)
  case Nil
  then show ?case by (simp add: profiling_loop_Nil)
next
  case (Cons rb rbs)
  let ?vs = "concat (map (rb_view scale) rbs)"
  have at: "ring_at c r (rb_words rb @ concat (map rb_words rbs))" and ok: "rb_ok rb" using Cons.prems by simp_all
  have oks: "\<forall>rb \<in> set rbs. rb_ok rb" using Cons.prems(2) by simp
  note st = profiling_loop_step [OF at ok]
  show ?case
  proof (cases rb)
    case (RbOther misc t ws)
    then have v: "rb_view scale rb = []" and t: "rb_type rb \<noteq> PERF_RECORD_SAMPLE" using ok by (simp_all add: rb_ok_def)
    have "n + length ?vs \<le> length arr" using Cons.prems(4) v by simp
    from Cons.IH [OF st(3) oks Cons.prems(3) this] show ?thesis
      using st(1) [of scale rec "Some (arr, int n)"] t v by (simp add: ring_adv_add)
  next
    case (RbSample misc pid tid te tr vs ips)
    have at1: "ring_at c (ring_adv r 1) (rb_payload (RbSample misc pid tid te tr vs ips) @ concat (map rb_words rbs))"
      using st(2) RbSample by simp
    obtain rec1 where rd: "profiling_sample_read c scale (ring_adv r 1) (8 * int (length (rb_payload rb))) rec
        = Some (ring_adv (ring_adv r 1) (length (rb_payload rb)), rec1, 0)"
      and vw: "rec_view rec1 = (pid, tid, map (\<lambda>v. scale v te tr) vs, take IP_NUM (filter is_userspace ips))"
      and ids: "pr_pid rec1 = pid" "pr_tid rec1 = tid" and li: "length (pr_ips rec1) = IP_NUM"
      using profiling_sample_result [OF at1 _ Cons.prems(3), of scale] ok RbSample by blast
    have fin: "ring_adv (ring_adv r 1) (length (rb_payload rb)) = ring_adv r (length (rb_words rb))"
      by (simp add: ring_adv_add rb_words_def)
    have ty: "rb_type rb = PERF_RECORD_SAMPLE" using RbSample by simp
    show ?thesis
    proof (cases "pid = 0 \<or> tid = 0")
      case True
      then have v: "rb_view scale rb = []" using RbSample by simp
      have "n + length ?vs \<le> length arr" using Cons.prems(4) v by simp
      from Cons.IH [OF st(3) oks li this] show ?thesis
        using st(1) [of scale rec "Some (arr, int n)"] ty v rd fin True ids
        by (simp add: ring_adv_add profiling_recbuf_update_def)
    next
      case False
      then have v: "rb_view scale rb = [rec_view rec1]" using RbSample vw by simp
      have n: "n < length arr" "n + 1 + length ?vs \<le> length (arr[n := rec1])" using Cons.prems(4) v by simp_all
      have "profiling_recbuf_update (arr, int n) rec1 = Some (arr[n := rec1], int (n + 1))"
        using False ids n(1) by (simp add: profiling_recbuf_update_def)
      moreover have "take (n + 1) (arr[n := rec1]) = take n arr @ [rec1]"
        using take_Suc_update [OF n(1)] by simp
      ultimately show ?thesis
        using Cons.IH [OF st(3) oks li n(2)] st(1) [of scale rec "Some (arr, int n)"] ty v rd fin
        by (simp add: ring_adv_add)
    qed
  qed
qed

text \<open>
  C6: Draining the ring of profiling samples.  If the kernel has written a
  sequence of records (profiling samples of the group of counters and records of
  other types) within one 2 GB block of the stream and the buffer has room, then
  pf_profiling_record terminates, stores exactly the samples of user processes in
  order, each with its identifiers, its scaled counters and its first user-space
  addresses, and leaves the ring empty.  Without a buffer it empties the ring.
\<close>

theorem pf_profiling_record_decodes:
  assumes "ring_at c r (concat (map rb_words rbs))" "\<forall>rb \<in> set rbs. rb_ok rb" "length (pr_ips stack) = IP_NUM"
    and "length (concat (map (rb_view scale) rbs)) \<le> length arr"
  shows "(\<exists>r1 arr1. pf_profiling_record c scale r stack (Some arr)
         = Some (r1, Some (arr1, int (length (concat (map (rb_view scale) rbs))))) \<and>
       avail r1 = [] \<and>
       map rec_view (take (length (concat (map (rb_view scale) rbs))) arr1) = concat (map (rb_view scale) rbs)) \<and>
     (\<exists>r1. pf_profiling_record c scale r stack None = Some (r1, None) \<and> avail r1 = [])"
proof -
  let ?r1 = "ring_adv r (length (concat (map rb_words rbs)))"
  have "ring_at c ?r1 []" using ring_at_adv [of c r "concat (map rb_words rbs)" "[]"] assms(1) by simp
  then have av: "avail ?r1 = []" by (simp add: ring_at_def)
  have "0 + length (concat (map (rb_view scale) rbs)) \<le> length arr" using assms(4) by simp
  from profiling_loop_result [OF assms(1-3) this] obtain arr1
    where "pf_profiling_record c scale r stack (Some arr)
         = Some (?r1, Some (arr1, int (length (concat (map (rb_view scale) rbs)))))"
      "map rec_view (take (length (concat (map (rb_view scale) rbs))) arr1) = concat (map (rb_view scale) rbs)"
    by (auto simp: pf_profiling_record_def)
  moreover have "pf_profiling_record c scale r stack None = Some (?r1, None)"
    using profiling_loop_drain [OF assms(1,2)] by (simp add: pf_profiling_record_def)
  ultimately show ?thesis using av by blast
qed


text \<open>A record of another type and a sample.\<close>

definition rbs_demo :: "rb_record list" where
  "rbs_demo = [RbOther 0 2 [77], RbSample 0 5 6 1 1 [10, 20, 30, 40, 50] [0xffffffff80000001, 64]]"

lemma rbs_demo_at: "ring_at record_conf (ring_of (concat (map rb_words rbs_demo))) (concat (map rb_words rbs_demo))"
  by (rule ring_of_at) (simp add: rbs_demo_def rb_words_def)

definition stack_demo :: pf_profiling_rec where
  "stack_demo = \<lparr>pr_pid = 0, pr_tid = 0, pr_period = 0, pr_countval = (\<lambda>_. 0), pr_ip_num = 0, pr_ips = replicate 32 0\<rparr>"

theorem pf_profiling_record_decodes_witness:
  "\<exists>r1 arr1. pf_profiling_record record_conf (\<lambda>v _ _. v) (ring_of (concat (map rb_words rbs_demo))) stack_demo (Some (replicate 2 stack_demo))
       = Some (r1, Some (arr1, 1)) \<and>
     map rec_view (take 1 arr1) = [(5, 6, [10, 20, 30, 40, 50], [64])]"
proof -
  have vs: "concat (map (rb_view (\<lambda>v _ _. v)) rbs_demo) = [(5, 6, [10, 20, 30, 40, 50], [64])]"
    by (simp add: rbs_demo_def is_userspace_def IP_NUM_def)
  have "\<forall>rb \<in> set rbs_demo. rb_ok rb"
    by (simp add: rbs_demo_def rb_ok_def PERF_RECORD_SAMPLE_def counter_ids_def)
  from pf_profiling_record_decodes [OF rbs_demo_at this, of stack_demo "\<lambda>v _ _. v" "replicate 2 stack_demo"]
  show ?thesis unfolding vs by (auto simp: IP_NUM_def stack_demo_def [THEN arg_cong [where f = pr_ips]])
qed

section \<open>The size of the buffer\<close>

text \<open>os_perf_init allocates one record for every sizeof (pf_profiling_rbrec_t) bytes of the ring, and one more.\<close>

definition profiling_recbuf_len :: "nat \<Rightarrow> nat" where
  "profiling_recbuf_len ringsize = ringsize div 72 + 1"

lemma rb_view_words:
  assumes "rb_ok rb" shows "11 * length (rb_view scale rb) \<le> length (rb_words rb)"
  using assms by (cases rb) (simp_all add: rb_words_def rb_ok_def counter_ids_def)

text \<open>
  C33: The buffer for samples is large enough.  Whatever whole records are in the
  ring, they hold fewer samples than os_perf_init made room for, so that no
  record is stored behind the buffer while the kernel adds nothing.
\<close>

theorem profiling_buffer_suffices:
  assumes "ring_at c r (concat (map rb_words rbs))" "\<forall>rb \<in> set rbs. rb_ok rb"
  shows "length (concat (map (rb_view scale) rbs)) < profiling_recbuf_len (length (rg_data r))"
proof -
  have "11 * length (concat (map (rb_view scale) rbs)) \<le> length (concat (map rb_words rbs))"
    using assms(2)
  proof (induction rbs)
    case (Cons rb rbs)
    then show ?case using rb_view_words [of rb scale] by simp
  qed simp
  moreover have "8 * length (concat (map rb_words rbs)) = length (avail r)"
    using assms(1) by (simp only: ring_at_def length_words)
  moreover have "length (avail r) \<le> length (rg_data r)"
    using assms(1) unfolding length_avail ring_at_def ring_ok_def by blast
  ultimately have "72 * length (concat (map (rb_view scale) rbs)) \<le> length (rg_data r)" by linarith
  then show ?thesis unfolding profiling_recbuf_len_def
    by (metis div_le_mono less_Suc_eq_le nonzero_mult_div_cancel_left zero_neq_numeral Suc_eq_plus1)
qed

theorem profiling_buffer_suffices_witness:
  "length (concat (map (rb_view (\<lambda>v _ _. v)) rbs_demo)) < profiling_recbuf_len 512"
proof -
  have "length (concat (map rb_words rbs_demo)) = 15" by (simp add: rbs_demo_def rb_words_def)
  then have len: "length (rg_data (ring_of (concat (map rb_words rbs_demo)))) = 512"
    by (simp add: ring_of_def del: length_concat)
  have "\<forall>rb \<in> set rbs_demo. rb_ok rb"
    by (simp add: rbs_demo_def rb_ok_def PERF_RECORD_SAMPLE_def counter_ids_def)
  from profiling_buffer_suffices [OF rbs_demo_at this] show ?thesis unfolding len .
qed

section \<open>Load-latency samples\<close>

definition ll_payload :: "u32 \<Rightarrow> u32 \<Rightarrow> u64 \<Rightarrow> u64 \<Rightarrow> u64 list \<Rightarrow> u64 \<Rightarrow> u64 \<Rightarrow> u64 list" where
  "ll_payload pid tid addr cpu ips weight src =
     id_word pid tid # addr # cpu # of_nat (length ips) # ips @ [weight, src]"

text \<open>Running ll_sample_read up to the call chain.\<close>

lemma ll_sample_start:
  assumes at: "ring_at c r (ll_payload pid tid addr cpu ips weight src @ ws)"
    and small: "length ips < 2 ^ 13" and pid: "pid \<noteq> -1"
  shows "ring_at c (ring_adv r 4) (ips @ weight # src # ws)"
    "ll_sample_read c r (8 * int (length (ll_payload pid tid addr cpu ips weight src))) rec =
     do {
       (r, sz, ips1, j, ok) \<leftarrow> sample_ips c (length ips) (ring_adv r 4) (8 * int (length ips) + 16) (lr_ips rec) 0;
       let rec = rec\<lparr>lr_ips := ips1\<rparr>;
       if \<not> ok then Some (skip_rest r sz, rec, -1)
       else on_read (read_u64 c r) (\<lambda>r. Some (skip_rest r sz, rec, -1)) (\<lambda>r weight.
            on_read (read_u64 c r) (\<lambda>r. Some (skip_rest r (sz - 8), rec, -1)) (\<lambda>r src.
              let mem_op = take_bit 5 src;
                  addr = (if mem_op = PERF_MEM_OP_NA \<or> mem_op = PERF_MEM_OP_EXEC then 0 else addr)
              in Some (skip_rest r (sz - 16), rec\<lparr>lr_ip_num := j, lr_pid := pid, lr_tid := tid,
                   lr_addr := addr, lr_cpu := cpu, lr_latency := weight\<rparr>, 0)))
     }"
proof -
  have un: "unat (of_nat (length ips) :: u64) = length ips" using small by (simp add: unat_of_nat)
  have a0: "ring_at c r (id_word pid tid # addr # cpu # of_nat (length ips) # ips @ weight # src # ws)"
    using at by (simp add: ll_payload_def)
  note a1 = read_u64_Cons(2) [OF a0] and r0 = on_read_Cons [OF a0]
  note a2 = read_u64_Cons(2) [OF a1] and r1 = on_read_Cons [OF a1]
  note a3 = read_u64_Cons(2) [OF a2] and r2 = on_read_Cons [OF a2]
  note a4 = read_u64_Cons(2) [OF a3] and r3 = on_read_Cons [OF a3]
  have adv4: "ring_adv (ring_adv (ring_adv (ring_adv r 1) 1) 1) 1 = ring_adv r 4"
    by (simp add: ring_adv_add numeral_eq_Suc)
  show "ring_at c (ring_adv r 4) (ips @ weight # src # ws)" using a4 unfolding adv4 .
  have sz: "8 * int (length (ll_payload pid tid addr cpu ips weight src)) - 32 = 8 * int (length ips) + 16"
    by (simp add: ll_payload_def)
  show "ll_sample_read c r (8 * int (length (ll_payload pid tid addr cpu ips weight src))) rec =
     do {
       (r, sz, ips1, j, ok) \<leftarrow> sample_ips c (length ips) (ring_adv r 4) (8 * int (length ips) + 16) (lr_ips rec) 0;
       let rec = rec\<lparr>lr_ips := ips1\<rparr>;
       if \<not> ok then Some (skip_rest r sz, rec, -1)
       else on_read (read_u64 c r) (\<lambda>r. Some (skip_rest r sz, rec, -1)) (\<lambda>r weight.
            on_read (read_u64 c r) (\<lambda>r. Some (skip_rest r (sz - 8), rec, -1)) (\<lambda>r src.
              let mem_op = take_bit 5 src;
                  addr = (if mem_op = PERF_MEM_OP_NA \<or> mem_op = PERF_MEM_OP_EXEC then 0 else addr)
              in Some (skip_rest r (sz - 16), rec\<lparr>lr_ip_num := j, lr_pid := pid, lr_tid := tid,
                   lr_addr := addr, lr_cpu := cpu, lr_latency := weight\<rparr>, 0)))
     }"
    unfolding ll_sample_read_def Let_def r0 r1 r2 r3 un adv4 sz id_word_halves by (simp only: pid if_False)
qed

text \<open>
  Reading a load-latency sample.  If the call chain has at most IP_NUM
  user-space addresses, not counting its last entry, ll_sample_read returns the
  sample: identifiers, processor, latency, the data address (0 for an operation
  that is not a load or store) and the user-space addresses, and moves behind the
  record.
\<close>

theorem ll_sample_read_decodes:
  assumes at: "ring_at c r (ll_payload pid tid addr cpu ips weight src @ ws)"
    and small: "length ips < 2 ^ 13" and pid: "pid \<noteq> -1" and len: "length (lr_ips rec) = IP_NUM"
    and few: "length (filter is_userspace (butlast ips)) < IP_NUM"
  shows "\<exists>rec1. ll_sample_read c r (8 * int (length (ll_payload pid tid addr cpu ips weight src))) rec
       = Some (ring_adv r (length (ll_payload pid tid addr cpu ips weight src)), rec1, 0) \<and>
     lr_pid rec1 = pid \<and> lr_tid rec1 = tid \<and> lr_cpu rec1 = cpu \<and> lr_latency rec1 = weight \<and>
     lr_addr rec1 = (if take_bit 5 src \<in> {PERF_MEM_OP_NA, PERF_MEM_OP_EXEC} then 0 else addr) \<and>
     take (lr_ip_num rec1) (lr_ips rec1) = take IP_NUM (filter is_userspace ips)"
proof -
  note st = ll_sample_start [OF at small pid]
  let ?us = "take IP_NUM (filter is_userspace ips)" and ?m = "length ips"
  obtain arr1 where s: "sample_ips c ?m (ring_adv r 4) (8 * int ?m + 16) (lr_ips rec) 0
      = Some (ring_adv (ring_adv r 4) ?m, 16, arr1, length ?us, True)" "take (length ?us) arr1 = ?us"
    using sample_ips_result [OF st(1) len, of 0 "8 * int ?m + 16"] few by auto
  have a5: "ring_at c (ring_adv (ring_adv r 4) ?m) (weight # src # ws)" by (rule ring_at_adv [OF st(1)])
  note a6 = read_u64_Cons(2) [OF a5] and r5 = on_read_Cons [OF a5] and r6 = on_read_Cons [OF read_u64_Cons(2) [OF a5]]
  have fin: "ring_adv (ring_adv (ring_adv (ring_adv r 4) ?m) 1) 1 = ring_adv r (length (ll_payload pid tid addr cpu ips weight src))"
    by (simp add: ring_adv_add ll_payload_def numeral_eq_Suc)
  show ?thesis
    unfolding st(2) s(1) Option.bind.bind_lunit prod.case Let_def r5 r6 fin
    using s(2) by (simp add: skip_rest_def r5 r6 fin)
qed

text \<open>
  C34: A deep call chain spoils the latency.  When the first IP_NUM entries of
  the call chain are user-space addresses and there are more, ll_sample_read
  stops reading the chain but takes the next entry for the latency: the
  sample is stored with a code address as its latency.
\<close>

theorem deep_chain_spoils_latency:
  assumes at: "ring_at c r (ll_payload pid tid addr cpu (us @ ip # ips) weight src @ ws)"
    and small: "length (us @ ip # ips) < 2 ^ 13" and pid: "pid \<noteq> -1" and len: "length (lr_ips rec) = IP_NUM"
    and deep: "length us = IP_NUM" "\<forall>u \<in> set us. is_userspace u"
  shows "\<exists>r1 rec1. ll_sample_read c r (8 * int (length (ll_payload pid tid addr cpu (us @ ip # ips) weight src))) rec
       = Some (r1, rec1, 0) \<and> lr_pid rec1 = pid \<and> lr_tid rec1 = tid \<and> lr_latency rec1 = ip"
proof -
  note st = ll_sample_start [OF at small pid]
  let ?n = "length (ip # ips)" and ?sz = "8 * int (length (us @ ip # ips)) + 16"
  have at1: "ring_at c (ring_adv r 4) (us @ (ip # ips) @ weight # src # ws)" using st(1) by simp
  have more: "sample_ips c (length us + n) q sz arr j = Some (ring_adv q (length us), z, arr1, IP_NUM, True)"
    if "sample_ips c (length us) q sz arr j = Some (ring_adv q (length us), z, arr1, IP_NUM, True)"
      "ring_at c q (us @ ys)" "j + length us = IP_NUM" "\<forall>u \<in> set us. is_userspace u" "length arr = IP_NUM"
    for us n q sz arr j z arr1 ys
    using that
  proof (induction us arbitrary: q sz arr j)
    case Nil
    then show ?case by (cases n) auto
  next
    case (Cons u us)
    have at: "ring_at c q (u # us @ ys)" using Cons.prems(2) by simp
    have j: "\<not> IP_NUM \<le> j" "is_userspace u" "j < length arr" using Cons.prems(3-5) by auto
    have adv: "ring_adv q (length (u # us)) = ring_adv (ring_adv q 1) (length us)" by (simp add: ring_adv_add)
    have "sample_ips c (length us) (ring_adv q 1) (sz - 8) (arr[j := u]) (j + 1)
        = Some (ring_adv (ring_adv q 1) (length us), z, arr1, IP_NUM, True)"
      using Cons.prems(1) j by (simp add: on_read_Cons [OF at] ring_adv_add)
    then have "sample_ips c (length us + n) (ring_adv q 1) (sz - 8) (arr[j := u]) (j + 1)
        = Some (ring_adv (ring_adv q 1) (length us), z, arr1, IP_NUM, True)"
      by (rule Cons.IH) (use Cons.prems read_u64_Cons(2) [OF at] in simp_all)
    then show ?case using j adv by (simp add: on_read_Cons [OF at])
  qed
  have us: "filter is_userspace us = us" using deep(2) by simp
  have "length us \<noteq> 0" using deep(1) by (simp add: IP_NUM_def)
  then have "filter is_userspace (butlast us) = butlast us" "length (butlast us) < IP_NUM"
    using deep by (auto simp: filter_id_conv dest: in_set_butlastD)
  then obtain arr1 where "sample_ips c (length us) (ring_adv r 4) ?sz (lr_ips rec) 0
      = Some (ring_adv (ring_adv r 4) (length us), ?sz - 8 * int (length us), arr1, IP_NUM, True)"
    using sample_ips_result [OF at1 len, of 0 ?sz] us deep(1) by auto
  from more [OF this at1 _ deep(2) len, of ?n] deep(1)
  have s: "sample_ips c (length (us @ ip # ips)) (ring_adv r 4) ?sz (lr_ips rec) 0
      = Some (ring_adv (ring_adv r 4) (length us), ?sz - 8 * int (length us), arr1, IP_NUM, True)" by simp
  have a5: "ring_at c (ring_adv (ring_adv r 4) (length us)) (ip # ips @ weight # src # ws)"
    using ring_at_adv [OF at1] by simp
  obtain v vs where v: "ips @ weight # src # ws = v # vs" by (cases "ips @ weight # src # ws") simp_all
  have a6: "ring_at c (ring_adv (ring_adv (ring_adv r 4) (length us)) 1) (v # vs)"
    using read_u64_Cons(2) [OF a5] v by simp
  note r5 = on_read_Cons [OF a5] and r6 = on_read_Cons [OF a6]
  show ?thesis
    unfolding st(2) s Option.bind.bind_lunit prod.case Let_def r5 r6 by (simp add: r5 r6)
qed


definition ll_stack_demo :: pf_ll_rec where
  "ll_stack_demo = \<lparr>lr_pid = 0, lr_tid = 0, lr_addr = 0, lr_cpu = 0, lr_latency = 0, lr_ip_num = 0, lr_ips = replicate 32 0\<rparr>"

theorem ll_sample_read_decodes_witness:
  "\<exists>r1 rec1. ll_sample_read record_conf (ring_of (ll_payload 5 6 4096 0 [64] 300 2)) 56 ll_stack_demo = Some (r1, rec1, 0) \<and>
     lr_pid rec1 = 5 \<and> lr_addr rec1 = 4096 \<and> lr_latency rec1 = 300"
proof -
  have "ring_at record_conf (ring_of (ll_payload 5 6 4096 0 [64] 300 2)) (ll_payload 5 6 4096 0 [64] 300 2 @ [])"
    by (simp add: ring_of_at ll_payload_def)
  from ll_sample_read_decodes [OF this, of ll_stack_demo]
  show ?thesis
    by (auto simp: ll_stack_demo_def IP_NUM_def ll_payload_def PERF_MEM_OP_NA_def PERF_MEM_OP_EXEC_def take_bit_eq_mod)
qed

theorem deep_chain_spoils_latency_witness:
  "\<exists>r1 rec1. ll_sample_read record_conf (ring_of (ll_payload 5 6 4096 0 (replicate 32 64 @ [128]) 300 2)) 312 ll_stack_demo
      = Some (r1, rec1, 0) \<and> lr_latency rec1 = 128"
proof -
  have "ring_at record_conf (ring_of (ll_payload 5 6 4096 0 (replicate 32 64 @ 128 # []) 300 2))
      (ll_payload 5 6 4096 0 (replicate 32 64 @ 128 # []) 300 2 @ [])"
    by (simp add: ring_of_at ll_payload_def)
  from deep_chain_spoils_latency [OF this, of ll_stack_demo]
  show ?thesis by (auto simp: ll_stack_demo_def IP_NUM_def ll_payload_def is_userspace_def)
qed

end
