(* ===== verification/Recs.thy ===== *)
theory Recs
  imports Util Sample
begin

text \<open>
  What a tracked process or thread collects from the samples
  (common/include/perf.h, common/include/os/os_perf.h): call chains per counter,
  latency records, and the values of cache monitoring; with the functions of
  common/os/os_perf.c that store a sample (chain_add, llrec_add) and those that
  drop what was collected.
\<close>

section \<open>Records\<close>

record callchain =
  cc_ip_num :: nat
  cc_ips :: "u64 list"

record chainrec =
  ch_count_value :: u64
  ch_callchain :: callchain

record llrec =
  lx_addr :: u64
  lx_cpu :: u64
  lx_latency :: u64
  lx_callchain :: callchain

definition callchain_zero :: callchain where
  "callchain_zero = \<lparr>cc_ip_num = 0, cc_ips = replicate IP_NUM 0\<rparr>"

definition chainrec_zero :: chainrec where
  "chainrec_zero = \<lparr>ch_count_value = 0, ch_callchain = callchain_zero\<rparr>"

definition llrec_zero :: llrec where
  "llrec_zero = \<lparr>lx_addr = 0, lx_cpu = 0, lx_latency = 0, lx_callchain = callchain_zero\<rparr>"

text \<open>perf_countchain_t: one group of call chains per counter.\<close>

type_synonym countchain = "perf_count_id \<Rightarrow> chainrec darr"
type_synonym llrecgrp = "llrec darr"

definition PERF_REC_NUM :: int where "PERF_REC_NUM = 512"

text \<open>The sizes of perf_chainrec_t and os_perf_llrec_t on a 64-bit system.\<close>

definition chainrec_bytes :: int where "chainrec_bytes = 8 + 8 + 8 * int IP_NUM"
definition llrec_bytes :: int where "llrec_bytes = 24 + 8 + 8 * int IP_NUM"

section \<open>Storing and dropping\<close>

definition chain_add ::
  "(int \<Rightarrow> bool) \<Rightarrow> perf_count_id \<Rightarrow> u64 \<Rightarrow> u64 list \<Rightarrow> nat \<Rightarrow> countchain \<Rightarrow> (countchain \<times> int) option" where
  "chain_add ok i count_value ips ip_num cc =
     do {
       (g, r) \<leftarrow> array_push ok chainrec_bytes PERF_REC_NUM chainrec_zero
                  \<lparr>ch_count_value = count_value, ch_callchain = \<lparr>cc_ip_num = ip_num, cc_ips = ips\<rparr>\<rparr> (cc i);
       Some (cc(i := g), r)
     }"

definition llrec_add :: "(int \<Rightarrow> bool) \<Rightarrow> pf_ll_rec \<Rightarrow> llrecgrp \<Rightarrow> (llrecgrp \<times> int) option" where
  "llrec_add ok rec grp =
     array_push ok llrec_bytes PERF_REC_NUM llrec_zero
       \<lparr>lx_addr = lr_addr rec, lx_cpu = lr_cpu rec, lx_latency = lr_latency rec,
        lx_callchain = \<lparr>cc_ip_num = lr_ip_num rec, cc_ips = lr_ips rec\<rparr>\<rparr> grp"

definition os_perf_countchain_reset :: "countchain \<Rightarrow> countchain" where
  "os_perf_countchain_reset cc = (\<lambda>_. darr_zero)"

definition perf_countchain_reset :: "countchain \<Rightarrow> countchain" where
  "perf_countchain_reset = os_perf_countchain_reset"

definition perf_llrecgrp_reset :: "llrecgrp \<Rightarrow> llrecgrp" where
  "perf_llrecgrp_reset grp = darr_zero"

section \<open>Cache monitoring\<close>

record perf_pqos =
  pq_task_id :: int
  pq_flags :: int
  pq_occupancy_scaled :: u64
  pq_totalbw_scaled :: u64
  pq_localbw_scaled :: u64
  pq_totalbw :: u64
  pq_localbw :: u64

definition pqos_zero :: perf_pqos where
  "pqos_zero = \<lparr>pq_task_id = 0, pq_flags = 0, pq_occupancy_scaled = 0, pq_totalbw_scaled = 0,
     pq_localbw_scaled = 0, pq_totalbw = 0, pq_localbw = 0\<rparr>"

definition pf_pqos_resource_free :: "perf_pqos \<Rightarrow> perf_pqos" where
  "pf_pqos_resource_free pqos = pqos_zero"

definition os_perf_pqos_free :: "perf_pqos \<Rightarrow> perf_pqos" where
  "os_perf_pqos_free pqos = pf_pqos_resource_free pqos"

end
