(* ===== verification/Lwp.thy ===== *)
theory Lwp
  imports Node Clib Recs
begin

text \<open>
  The tracked threads (common/lwp.c, common/include/lwp.h).  A thread is an
  object of a heap; the threads of a process are an array of pointers sorted by
  thread id.  A thread that is still referenced when its process drops it is
  only marked, and freed by whoever releases the last reference.

  Mutexes are held for the length of an operation, so that an operation is one
  step.
\<close>

section \<open>Threads\<close>

record track_lwp =
  l_ref_count :: int
  l_id :: int
  l_intval_ms :: int
  l_cpuid_max :: int
  l_key :: u64
  l_removing :: bool
  l_quitting :: bool
  l_inited :: bool
  l_proc :: ptr
  l_countval_arr :: "count_value list"
  l_count_chain :: countchain
  l_llrec_grp :: llrecgrp
  l_pqos :: perf_pqos

definition lwp_zero :: track_lwp where
  "lwp_zero = \<lparr>l_ref_count = 0, l_id = 0, l_intval_ms = 0, l_cpuid_max = 0, l_key = 0, l_removing = False,
     l_quitting = False, l_inited = False, l_proc = None, l_countval_arr = [],
     l_count_chain = (\<lambda>_. darr_zero), l_llrec_grp = darr_zero, l_pqos = pqos_zero\<rparr>"

text \<open>The list of the threads of a process (proc_lwplist_t).\<close>

record proc_lwplist =
  ll_nlwps :: int
  ll_sort_idx :: int
  ll_id_arr :: "ptr list option"
  ll_sort_arr :: "ptr list option"

definition lwplist_zero :: proc_lwplist where
  "lwplist_zero = \<lparr>ll_nlwps = 0, ll_sort_idx = 0, ll_id_arr = None, ll_sort_arr = None\<rparr>"

text \<open>
  The surroundings: the threads /proc shows for a process, node_cpuid_max, the
  address malloc finds for the thread with a given id (None: one of the
  allocations of lwp_alloc fails), and whether the array of pointers can be
  allocated.
\<close>

record lwp_env =
  le_lwp_enum :: "int \<Rightarrow> int list option"
  le_cpuid_max :: int
  le_lwp_malloc :: "int \<Rightarrow> track_lwp heap \<Rightarrow> ptr"
  le_lwparr_ok :: "int \<Rightarrow> bool"

text \<open>What malloc promises: memory that is not in use; and that it does not run out.\<close>

definition lwp_malloc_fresh :: "'a lwp_env_scheme \<Rightarrow> bool" where
  "lwp_malloc_fresh env \<longleftrightarrow> (\<forall>i h a. finite (dom h) \<longrightarrow> le_lwp_malloc env i h = Some a \<longrightarrow> h a = None)"

definition lwp_malloc_total :: "'a lwp_env_scheme \<Rightarrow> bool" where
  "lwp_malloc_total env \<longleftrightarrow> 0 < le_cpuid_max env \<and> (\<forall>i h. finite (dom h) \<longrightarrow> le_lwp_malloc env i h \<noteq> None)"

definition lwp_alloc :: "'a lwp_env_scheme \<Rightarrow> int \<Rightarrow> track_lwp heap \<Rightarrow> ptr \<times> track_lwp heap" where
  "lwp_alloc env i h =
     (if le_cpuid_max env \<le> 0 then (None, h)
      else (case le_lwp_malloc env i h of
              None \<Rightarrow> (None, h)
            | Some a \<Rightarrow>
                (Some a, h(a \<mapsto> lwp_zero\<lparr>l_countval_arr := replicate (nat (le_cpuid_max env)) (\<lambda>_. 0),
                                      l_cpuid_max := le_cpuid_max env, l_inited := True\<rparr>))))"

definition lwp_free :: "addr \<Rightarrow> track_lwp heap \<Rightarrow> (track_lwp heap \<times> int) option" where
  "lwp_free a h =
     do {
       l \<leftarrow> h a;
       if l_ref_count l > 0 then Some (h(a \<mapsto> l\<lparr>l_removing := True\<rparr>), -1)
       else Some (h(a := None), 0)
     }"

definition lwp_refcount_inc :: "addr \<Rightarrow> track_lwp heap \<Rightarrow> (track_lwp heap \<times> int) option" where
  "lwp_refcount_inc a h =
     do {
       l \<leftarrow> h a;
       if \<not> l_removing l \<and> \<not> l_quitting l
       then Some (h(a \<mapsto> l\<lparr>l_ref_count := l_ref_count l + 1\<rparr>), 0)
       else Some (h, -1)
     }"

definition lwp_refcount_dec :: "addr \<Rightarrow> track_lwp heap \<Rightarrow> track_lwp heap option" where
  "lwp_refcount_dec a h =
     do {
       l \<leftarrow> h a;
       let l1 = l\<lparr>l_ref_count := l_ref_count l - 1\<rparr>;
       let h1 = h(a \<mapsto> l1);
       if l_ref_count l1 = 0 \<and> l_removing l1 then do { (h2, _) \<leftarrow> lwp_free a h1; Some h2 }
       else Some h1
     }"

definition lwp_quitting_set :: "addr \<Rightarrow> track_lwp heap \<Rightarrow> track_lwp heap option" where
  "lwp_quitting_set a h = do { l \<leftarrow> h a; Some (h(a \<mapsto> l\<lparr>l_quitting := True\<rparr>)) }"

definition lwp_intval_get :: "track_lwp \<Rightarrow> int" where
  "lwp_intval_get l = l_intval_ms l"

definition intval_update :: "int \<Rightarrow> track_lwp \<Rightarrow> track_lwp" where
  "intval_update intval_ms l = l\<lparr>l_intval_ms := intval_ms\<rparr>"

section \<open>Counters\<close>

text \<open>
  Growing a per-processor array when a processor beyond its end reports (the
  same code for threads and processes): realloc_ok tells whether realloc finds
  memory.  A processor beyond the new array is an access out of bounds.
\<close>

definition countval_grow ::
  "bool \<Rightarrow> int \<Rightarrow> int \<Rightarrow> int \<Rightarrow> count_value list \<Rightarrow> (count_value list \<times> int) option" where
  "countval_grow realloc_ok new_max cpu cpuid_max arr =
     (if cpu \<ge> cpuid_max then
        if realloc_ok
        then Some (take (nat cpuid_max) arr @ replicate (nat (new_max - cpuid_max)) (\<lambda>_. 0), new_max)
        else None
      else Some (arr, cpuid_max))"

definition countval_add :: "count_value list \<Rightarrow> int \<Rightarrow> perf_count_id \<Rightarrow> u64 \<Rightarrow> count_value list option" where
  "countval_add arr cpu i v =
     do { c \<leftarrow> arr_get arr cpu; arr_set arr cpu (c(i := c i + v)) }"

definition lwp_countval_update ::
  "bool \<Rightarrow> int \<Rightarrow> int \<Rightarrow> perf_count_id \<Rightarrow> u64 \<Rightarrow> track_lwp \<Rightarrow> (track_lwp \<times> int) option" where
  "lwp_countval_update realloc_ok node_max cpu i v l =
     (case countval_grow realloc_ok node_max cpu (l_cpuid_max l) (l_countval_arr l) of
        None \<Rightarrow> Some (l, -1)
      | Some (arr, m) \<Rightarrow>
          do {
            arr1 \<leftarrow> countval_add arr cpu i v;
            Some (l\<lparr>l_countval_arr := arr1, l_cpuid_max := m\<rparr>, 0)
          })"

definition lwp_key_compute :: "node_group \<Rightarrow> sort_key \<Rightarrow> track_lwp \<Rightarrow> track_lwp option" where
  "lwp_key_compute g sortkey l =
     (if sortkey = SORT_KEY_CPU then
        do { k \<leftarrow> node_countval_sum g (l_countval_arr l) NODE_ALL UI_COUNT_CLK; Some (l\<lparr>l_key := k\<rparr>) }
      else Some l)"

section \<open>Enumerating the threads of a process\<close>

text \<open>
  lwp_sort_next returns the current entry of the sorted array and moves on; an
  index beyond the array is undefined.
\<close>

definition lwp_sort_next :: "proc_lwplist \<Rightarrow> (proc_lwplist \<times> ptr) option" where
  "lwp_sort_next ll =
     (case ll_sort_arr ll of
        None \<Rightarrow> Some (ll, None)
      | Some arr \<Rightarrow>
          if ll_sort_idx ll < ll_nlwps ll
          then do { p \<leftarrow> arr_get arr (ll_sort_idx ll); Some (ll\<lparr>ll_sort_idx := ll_sort_idx ll + 1\<rparr>, p) }
          else Some (ll, None))"

definition lwp_new :: "'a lwp_env_scheme \<Rightarrow> addr \<Rightarrow> int \<Rightarrow> track_lwp heap \<Rightarrow> ptr \<times> track_lwp heap" where
  "lwp_new env proc i h =
     (case lwp_alloc env i h of
        (None, h1) \<Rightarrow> (None, h1)
      | (Some a, h1) \<Rightarrow> (Some a, h1(a \<mapsto> (the (h1 a))\<lparr>l_id := i, l_proc := Some proc\<rparr>)))"

text \<open>
  The merge of the sorted new ids with the old array: common ids keep their
  object, new ones get a new one (NULL when there is no memory), and the
  objects of the ids that are gone are freed.
\<close>

fun lwp_merge ::
  "'a lwp_env_scheme \<Rightarrow> addr \<Rightarrow> int list \<Rightarrow> ptr list \<Rightarrow> track_lwp heap \<Rightarrow> (ptr list \<times> track_lwp heap) option" where
  "lwp_merge env proc [] [] h = Some ([], h)"
| "lwp_merge env proc (i # is) [] h =
     (case lwp_new env proc i h of
        (p, h1) \<Rightarrow> do { (ps, h2) \<leftarrow> lwp_merge env proc is [] h1; Some (p # ps, h2) })"
| "lwp_merge env proc [] (q # qs) h =
     do { a \<leftarrow> q; (h1, _) \<leftarrow> lwp_free a h; lwp_merge env proc [] qs h1 }"
| "lwp_merge env proc (i # is) (q # qs) h =
     do {
       a \<leftarrow> q;
       l \<leftarrow> h a;
       if i = l_id l then do { (ps, h1) \<leftarrow> lwp_merge env proc is qs h; Some (q # ps, h1) }
       else if i < l_id l then
         (case lwp_new env proc i h of
            (p, h1) \<Rightarrow> do { (ps, h2) \<leftarrow> lwp_merge env proc is (q # qs) h1; Some (p # ps, h2) })
       else do { (h1, _) \<leftarrow> lwp_free a h; lwp_merge env proc (i # is) qs h1 }
     }"

definition lwp_enum_update ::
  "'a lwp_env_scheme \<Rightarrow> int \<Rightarrow> addr \<Rightarrow> proc_lwplist \<Rightarrow> track_lwp heap \<Rightarrow> (proc_lwplist \<times> track_lwp heap) option" where
  "lwp_enum_update env pid proc ll h =
     (case le_lwp_enum env pid of
        None \<Rightarrow> Some (ll, h)
      | Some ids \<Rightarrow>
          let lwps_new = qsort int_cmp ids
          in if lwps_new = [] \<or> \<not> le_lwparr_ok env pid then Some (ll, h)
             else do {
               old \<leftarrow> (case ll_id_arr ll of
                         None \<Rightarrow> Some []
                       | Some arr \<Rightarrow> if ll_nlwps ll \<le> int (length arr) then Some (take (nat (ll_nlwps ll)) arr) else None);
               (arr_new, h1) \<leftarrow> lwp_merge env proc lwps_new old h;
               Some (ll\<lparr>ll_id_arr := Some arr_new, ll_nlwps := int (length ids)\<rparr>, h1)
             })"

section \<open>The list of threads stays sorted and complete\<close>

definition lwp_ids :: "track_lwp heap \<Rightarrow> addr list \<Rightarrow> int list" where
  "lwp_ids h as = map (\<lambda>a. l_id (the (h a))) as"

definition lwps_live :: "addr \<Rightarrow> track_lwp heap \<Rightarrow> addr list \<Rightarrow> bool" where
  "lwps_live proc h as \<longleftrightarrow>
     (\<forall>a \<in> set as. \<exists>l. h a = Some l \<and> l_proc l = Some proc \<and> \<not> l_removing l) \<and>
     distinct as \<and> sorted_wrt (<) (lwp_ids h as)"

text \<open>A new thread.\<close>

definition lwp_fresh :: "'a lwp_env_scheme \<Rightarrow> addr \<Rightarrow> int \<Rightarrow> track_lwp" where
  "lwp_fresh env proc i = lwp_zero\<lparr>l_countval_arr := replicate (nat (le_cpuid_max env)) (\<lambda>_. 0),
     l_cpuid_max := le_cpuid_max env, l_inited := True, l_id := i, l_proc := Some proc\<rparr>"

lemma lwp_fresh_simps [simp]:
  "l_id (lwp_fresh env proc i) = i" "l_proc (lwp_fresh env proc i) = Some proc"
  "\<not> l_removing (lwp_fresh env proc i)" "l_ref_count (lwp_fresh env proc i) = 0"
  by (simp_all add: lwp_fresh_def lwp_zero_def)

lemma lwp_new_ok:
  assumes "lwp_malloc_fresh env" "lwp_malloc_total env" "finite (dom h)"
  obtains a where "lwp_new env proc i h = (Some a, h(a \<mapsto> lwp_fresh env proc i))" "h a = None"
proof -
  obtain a where a: "le_lwp_malloc env i h = Some a"
    using assms(2,3) unfolding lwp_malloc_total_def by (meson not_None_eq)
  then have "h a = None" using assms(1,3) unfolding lwp_malloc_fresh_def by blast
  then show ?thesis
    using a assms(2)
    by (intro that [of a]) (simp_all add: lwp_new_def lwp_alloc_def lwp_malloc_total_def lwp_fresh_def)
qed

text \<open>
  What becomes of an old object whose id is gone, and what the object of a new
  id is: a dead object may give its memory to a new one.
\<close>

definition lwp_dead :: "track_lwp heap \<Rightarrow> int list \<Rightarrow> addr \<Rightarrow> bool" where
  "lwp_dead h is a \<longleftrightarrow> l_id (the (h a)) \<notin> set is \<and> l_ref_count (the (h a)) \<le> 0"

definition lwp_created ::
  "'a lwp_env_scheme \<Rightarrow> addr \<Rightarrow> int list \<Rightarrow> addr list \<Rightarrow> track_lwp heap \<Rightarrow> track_lwp heap \<Rightarrow> addr \<Rightarrow> bool" where
  "lwp_created env proc is as h h1 b \<longleftrightarrow>
     (\<exists>i \<in> set is. i \<notin> set (lwp_ids h as) \<and> h1 b = Some (lwp_fresh env proc i)) \<and>
     (h b = None \<or> b \<in> set as \<and> lwp_dead h is b)"

definition lwp_gone :: "track_lwp heap \<Rightarrow> addr list \<Rightarrow> track_lwp heap \<Rightarrow> addr \<Rightarrow> bool" where
  "lwp_gone h bs h1 a \<longleftrightarrow>
     (if l_ref_count (the (h a)) > 0
      then a \<notin> set bs \<and> h1 a = Some ((the (h a))\<lparr>l_removing := True\<rparr>)
      else a \<in> set bs \<or> h1 a = None)"

definition merged ::
  "'a lwp_env_scheme \<Rightarrow> addr \<Rightarrow> int list \<Rightarrow> addr list \<Rightarrow> track_lwp heap \<Rightarrow> addr list \<Rightarrow> track_lwp heap \<Rightarrow> bool" where
  "merged env proc is as h bs h1 \<longleftrightarrow>
     lwp_ids h1 bs = is \<and> distinct bs \<and>
     (\<forall>b \<in> set bs. b \<in> set as \<and> h1 b = h b \<or> lwp_created env proc is as h h1 b) \<and>
     (\<forall>a. a \<notin> set as \<longrightarrow> a \<notin> set bs \<longrightarrow> h1 a = h a) \<and>
     (\<forall>a \<in> set as. l_id (the (h a)) \<notin> set is \<longrightarrow> lwp_gone h bs h1 a)"

lemma lwp_createdI:
  "i \<in> set is \<Longrightarrow> i \<notin> set (lwp_ids h as) \<Longrightarrow> h1 b = Some (lwp_fresh env proc i) \<Longrightarrow>
   h b = None \<or> b \<in> set as \<and> lwp_dead h is b \<Longrightarrow> lwp_created env proc is as h h1 b"
  unfolding lwp_created_def by blast

lemma lwp_createdE:
  assumes "lwp_created env proc is as h h1 b"
  obtains i where "i \<in> set is" "i \<notin> set (lwp_ids h as)" "h1 b = Some (lwp_fresh env proc i)"
    "h b = None \<or> b \<in> set as \<and> lwp_dead h is b"
  using assms unfolding lwp_created_def by blast

lemma merged_cases:
  assumes "merged env proc is as h bs h1" "b \<in> set bs"
  obtains (kept) "b \<in> set as" "h1 b = h b" | (created) "lwp_created env proc is as h h1 b"
  using assms unfolding merged_def by blast

lemma merged_origin:
  assumes "merged env proc is as h bs h1" "b \<in> set bs"
  shows "b \<in> set as \<or> h b = None"
  using assms
proof (cases rule: merged_cases)
  case created
  then show ?thesis by (auto elim: lwp_createdE)
qed blast

lemma lwp_free_live:
  "h a = Some l \<Longrightarrow> lwp_free a h =
     Some (if l_ref_count l > 0 then (h(a \<mapsto> l\<lparr>l_removing := True\<rparr>), -1) else (h(a := None), 0))"
  by (simp add: lwp_free_def)

lemma merged_Nil: "merged env proc [] [] h [] h"
  by (simp add: merged_def lwp_ids_def)

lemma merged_keep:
  assumes m: "merged env proc is as h bs h1" and a: "a \<notin> set as" "h a = Some l" "l_id l = i"
    and i: "i \<notin> set is" "i \<notin> set (lwp_ids h as)"
  shows "merged env proc (i # is) (a # as) h (a # bs) h1"
proof -
  have notin: "a \<notin> set bs" using merged_origin [OF m, of a] a by auto
  then have h1: "h1 a = h a" using m a by (simp add: merged_def)
  have created: "lwp_created env proc (i # is) (a # as) h h1 b" if c: "lwp_created env proc is as h h1 b" for b
    using c
  proof (rule lwp_createdE)
    fix j assume j: "j \<in> set is" "j \<notin> set (lwp_ids h as)" "h1 b = Some (lwp_fresh env proc j)"
      "h b = None \<or> b \<in> set as \<and> lwp_dead h is b"
    have "b \<in> set as \<Longrightarrow> l_id (the (h b)) \<noteq> i" using i(2) by (auto simp: lwp_ids_def)
    then show ?thesis
      using j i a by (intro lwp_createdI [of j]) (auto simp: lwp_ids_def lwp_dead_def)
  qed
  show ?thesis
    unfolding merged_def
  proof (intro conjI allI ballI impI)
    show "lwp_ids h1 (a # bs) = i # is" using m h1 a by (simp add: merged_def lwp_ids_def)
    show "distinct (a # bs)" using m notin by (simp add: merged_def)
    show "b \<in> set (a # as) \<and> h1 b = h b \<or> lwp_created env proc (i # is) (a # as) h h1 b" if "b \<in> set (a # bs)" for b
      using that m h1 created unfolding merged_def by auto
    show "h1 x = h x" if "x \<notin> set (a # as)" "x \<notin> set (a # bs)" for x
      using that m by (simp add: merged_def)
    show "lwp_gone h (a # bs) h1 x" if "x \<in> set (a # as)" "l_id (the (h x)) \<notin> set (i # is)" for x
    proof -
      have x: "x \<in> set as" "l_id (the (h x)) \<notin> set is" "x \<noteq> a" using that a by auto
      then have "lwp_gone h bs h1 x" using m unfolding merged_def by blast
      then show ?thesis using x(3) by (simp add: lwp_gone_def)
    qed
  qed
qed

lemma merged_new:
  assumes m: "merged env proc is as (h(b \<mapsto> lwp_fresh env proc i)) bs h2"
    and b: "h b = None" "b \<notin> set as" and i: "i \<notin> set (lwp_ids h as)"
  shows "merged env proc (i # is) as h (b # bs) h2"
proof -
  let ?h = "h(b \<mapsto> lwp_fresh env proc i)"
  have notin: "b \<notin> set bs" using merged_origin [OF m, of b] b by auto
  then have h2: "h2 b = Some (lwp_fresh env proc i)" using m b by (simp add: merged_def)
  have same: "?h x = h x" if "x \<in> set as" for x using that b by auto
  have ids: "lwp_ids ?h as = lwp_ids h as" using same by (simp add: lwp_ids_def)
  have created: "lwp_created env proc (i # is) as h h2 x" if c: "lwp_created env proc is as ?h h2 x" for x
    using c
  proof (rule lwp_createdE)
    fix j assume j: "j \<in> set is" "j \<notin> set (lwp_ids ?h as)" "h2 x = Some (lwp_fresh env proc j)"
      "?h x = None \<or> x \<in> set as \<and> lwp_dead ?h is x"
    have "x \<in> set as \<Longrightarrow> l_id (the (h x)) \<noteq> i" using i by (auto simp: lwp_ids_def)
    then show ?thesis
      using j same [of x] unfolding ids
      by (intro lwp_createdI [of j]) (auto simp: lwp_dead_def split: if_splits)
  qed
  show ?thesis
    unfolding merged_def
  proof (intro conjI allI ballI impI)
    show "lwp_ids h2 (b # bs) = i # is" using m h2 by (simp add: merged_def lwp_ids_def)
    show "distinct (b # bs)" using m notin by (simp add: merged_def)
    show "x \<in> set as \<and> h2 x = h x \<or> lwp_created env proc (i # is) as h h2 x" if x: "x \<in> set (b # bs)" for x
    proof (cases "x = b")
      case True
      then show ?thesis using h2 b i by (simp add: lwp_created_def)
    next
      case False
      then have "x \<in> set as \<and> h2 x = ?h x \<or> lwp_created env proc is as ?h h2 x"
        using x m unfolding merged_def by auto
      then show ?thesis using same [of x] created by auto
    qed
    show "h2 x = h x" if "x \<notin> set as" "x \<notin> set (b # bs)" for x
      using that m by (simp add: merged_def)
    show "lwp_gone h (b # bs) h2 x" if x: "x \<in> set as" "l_id (the (h x)) \<notin> set (i # is)" for x
    proof -
      have "lwp_gone ?h bs h2 x" using m x same [OF x(1)] unfolding merged_def by auto
      then show ?thesis using same [OF x(1)] x(1) b(2) unfolding lwp_gone_def by auto
    qed
  qed
qed

lemma merged_free:
  assumes m: "merged env proc is as h1 bs h2" and a: "h a = Some l" "a \<notin> set as" "l_id l \<notin> set is"
    and h1: "h1 = (if l_ref_count l > 0 then h(a \<mapsto> l\<lparr>l_removing := True\<rparr>) else h(a := None))"
  shows "merged env proc is (a # as) h bs h2"
proof -
  have same: "h1 x = h x" if "x \<noteq> a" for x using that by (simp add: h1)
  have sas: "h1 x = h x" if "x \<in> set as" for x using that a(2) same by metis
  have ids: "lwp_ids h1 as = lwp_ids h as" using sas by (simp add: lwp_ids_def)
  have created: "lwp_created env proc is (a # as) h h2 x" if c: "lwp_created env proc is as h1 h2 x" for x
    using c
  proof (rule lwp_createdE)
    fix j assume j: "j \<in> set is" "j \<notin> set (lwp_ids h1 as)" "h2 x = Some (lwp_fresh env proc j)"
      "h1 x = None \<or> x \<in> set as \<and> lwp_dead h1 is x"
    have "h x = None \<or> x \<in> set (a # as) \<and> lwp_dead h is x"
    proof (cases "x = a")
      case True
      then show ?thesis using j(4) a by (auto simp: h1 lwp_dead_def split: if_splits)
    next
      case False
      then show ?thesis using j(4) same [OF False] by (auto simp: lwp_dead_def)
    qed
    moreover have "j \<noteq> l_id l" using j(1) a(3) by blast
    ultimately show ?thesis
      using j a unfolding ids by (intro lwp_createdI [of j]) (simp_all add: lwp_ids_def)
  qed
  show ?thesis
    unfolding merged_def
  proof (intro conjI allI ballI impI)
    show "lwp_ids h2 bs = is" "distinct bs" using m by (simp_all add: merged_def)
    show "x \<in> set (a # as) \<and> h2 x = h x \<or> lwp_created env proc is (a # as) h h2 x" if x: "x \<in> set bs" for x
    proof -
      have "x \<in> set as \<and> h2 x = h1 x \<or> lwp_created env proc is as h1 h2 x" using x m unfolding merged_def by blast
      then show ?thesis using sas [of x] created by auto
    qed
    show "h2 x = h x" if "x \<notin> set (a # as)" "x \<notin> set bs" for x
      using that m same [of x] by (simp add: merged_def)
    show "lwp_gone h bs h2 x" if x: "x \<in> set (a # as)" "l_id (the (h x)) \<notin> set is" for x
    proof (cases "x = a")
      case False
      then have x': "x \<in> set as" "h1 x = h x" using x same by auto
      then have "lwp_gone h1 bs h2 x" using m x unfolding merged_def by auto
      then show ?thesis using x' unfolding lwp_gone_def by auto
    next
      case True
      have "a \<in> set bs \<Longrightarrow> h1 a = None" using merged_origin [OF m, of a] a by auto
      moreover have "a \<notin> set bs \<Longrightarrow> h2 a = h1 a" using m a by (simp add: merged_def)
      ultimately show ?thesis
        using True a by (cases "a \<in> set bs") (simp_all add: lwp_gone_def h1 split: if_splits)
    qed
  qed
qed

lemma lwps_live_Cons:
  assumes "lwps_live proc h (a # as)"
  obtains l where "h a = Some l" "l_proc l = Some proc" "\<not> l_removing l" "a \<notin> set as" "lwps_live proc h as"
    "\<forall>j \<in> set (lwp_ids h as). l_id l < j"
proof -
  obtain l where l: "h a = Some l" "l_proc l = Some proc" "\<not> l_removing l"
    using assms by (auto simp: lwps_live_def)
  show ?thesis
    by (rule that [OF l]) (use assms l in \<open>auto simp: lwps_live_def lwp_ids_def\<close>)
qed

lemma lwps_live_cong:
  "(\<And>a. a \<in> set as \<Longrightarrow> h1 a = h a) \<Longrightarrow> lwps_live proc h1 as = lwps_live proc h as"
  unfolding lwps_live_def lwp_ids_def by (simp cong: map_cong)

text \<open>The merge of sorted lists.\<close>

lemma lwp_merge_result:
  assumes "lwp_malloc_fresh env" "lwp_malloc_total env" "lwps_live proc h as" "sorted_wrt (<) is"
    and "finite (dom h)"
  shows "\<exists>bs h1. lwp_merge env proc is (map Some as) h = Some (map Some bs, h1) \<and> merged env proc is as h bs h1"
  using assms(3-5)
proof (induction "length is + length as" arbitrary: "is" as h rule: less_induct)
  case less
  consider (empty) "is = []" "as = []" | (new_rest) i is' where "is = i # is'" "as = []"
    | (old_rest) a as' where "is = []" "as = a # as'" | (both) i is' a as' where "is = i # is'" "as = a # as'"
    by (cases "is"; cases as) auto
  then show ?case
  proof cases
    case empty
    then show ?thesis using merged_Nil by fastforce
  next
    case new_rest
    obtain b where b: "lwp_new env proc i h = (Some b, h(b \<mapsto> lwp_fresh env proc i))" "h b = None"
      using lwp_new_ok [OF assms(1,2) less.prems(3)] by blast
    obtain bs h1 where "lwp_merge env proc is' (map Some []) (h(b \<mapsto> lwp_fresh env proc i)) = Some (map Some bs, h1)"
        "merged env proc is' [] (h(b \<mapsto> lwp_fresh env proc i)) bs h1"
      using less.hyps [of is' "[]" "h(b \<mapsto> lwp_fresh env proc i)"] less.prems(2,3) new_rest
      by (auto simp: lwps_live_def lwp_ids_def)
    then show ?thesis
      using b new_rest merged_new [of env proc is' "[]" h b i bs h1]
      by (intro exI [of _ "b # bs"] exI [of _ h1]) (simp add: lwp_ids_def)
  next
    case old_rest
    obtain l where l: "h a = Some l" "a \<notin> set as'" "lwps_live proc h as'"
      using lwps_live_Cons [of proc h a as'] less.prems(1) old_rest by metis
    let ?h = "if l_ref_count l > 0 then h(a \<mapsto> l\<lparr>l_removing := True\<rparr>) else h(a := None)"
    have live: "lwps_live proc ?h as'" using l by (subst lwps_live_cong [of _ _ h]) auto
    have fin: "finite (dom ?h)" using less.prems(3) by (cases "l_ref_count l > 0") simp_all
    obtain bs h1 where "lwp_merge env proc [] (map Some as') ?h = Some (map Some bs, h1)" "merged env proc [] as' ?h bs h1"
      using less.hyps [OF _ live _ fin, of "[]"] old_rest by auto
    then show ?thesis
      using old_rest l merged_free [of env proc "[]" as' ?h bs h1 h a l]
      by (intro exI [of _ bs] exI [of _ h1]) (auto simp: lwp_free_live)
  next
    case both
    obtain l where l: "h a = Some l" "a \<notin> set as'" "lwps_live proc h as'" "\<forall>j \<in> set (lwp_ids h as'). l_id l < j"
      using lwps_live_Cons [of proc h a as'] less.prems(1) both by metis
    have srt: "sorted_wrt (<) is'" "\<forall>j \<in> set is'. i < j" using less.prems(2) both by auto
    consider (keep) "i = l_id l" | (new) "i < l_id l" | (free) "l_id l < i" by linarith
    then show ?thesis
    proof cases
      case keep
      obtain bs h1 where "lwp_merge env proc is' (map Some as') h = Some (map Some bs, h1)" "merged env proc is' as' h bs h1"
        using less.hyps [OF _ l(3) srt(1) less.prems(3)] both by auto
      then show ?thesis
        using both l keep srt(2) merged_keep [of env proc is' as' h bs h1 a l i]
        by (intro exI [of _ "a # bs"] exI [of _ h1]) auto
    next
      case new
      obtain b where b: "lwp_new env proc i h = (Some b, h(b \<mapsto> lwp_fresh env proc i))" "h b = None"
        using lwp_new_ok [OF assms(1,2) less.prems(3)] by blast
      let ?h = "h(b \<mapsto> lwp_fresh env proc i)"
      have bas: "b \<notin> set as" using less.prems(1) b(2) by (auto simp: lwps_live_def)
      then have live: "lwps_live proc ?h as" using less.prems(1) by (subst lwps_live_cong [of _ _ h]) auto
      obtain bs h1 where "lwp_merge env proc is' (map Some as) ?h = Some (map Some bs, h1)" "merged env proc is' as ?h bs h1"
        using less.hyps [OF _ live srt(1)] both less.prems(3) by auto
      moreover have "i \<notin> set (lwp_ids h as)" using l(1,4) new both by (auto simp: lwp_ids_def)
      ultimately show ?thesis
        using both l new b bas merged_new [of env proc is' as h b i bs h1]
        by (intro exI [of _ "b # bs"] exI [of _ h1]) auto
    next
      case free
      let ?h = "if l_ref_count l > 0 then h(a \<mapsto> l\<lparr>l_removing := True\<rparr>) else h(a := None)"
      have live: "lwps_live proc ?h as'" using l by (subst lwps_live_cong [of _ _ h]) auto
      have fin: "finite (dom ?h)" using less.prems(3) by (cases "l_ref_count l > 0") simp_all
      obtain bs h1 where r: "lwp_merge env proc is (map Some as') ?h = Some (map Some bs, h1)" "merged env proc is as' ?h bs h1"
        using less.hyps [OF _ live less.prems(2) fin] both by auto
      have "l_id l \<notin> set is" using free srt(2) both by auto
      then have "merged env proc is as h bs h1" using merged_free [of env proc "is" as' ?h bs h1 h a l] r(2) l both by simp
      moreover have "lwp_merge env proc is (map Some as) h = Some (map Some bs, h1)"
        using r(1) free l(1) both by (cases "l_ref_count l > 0") (auto simp: lwp_free_live)
      ultimately show ?thesis by blast
    qed
  qed
qed

text \<open>The threads of a process: the array is allocated when there are any, and has no NULL.\<close>

definition lwplist_ok :: "addr \<Rightarrow> proc_lwplist \<Rightarrow> track_lwp heap \<Rightarrow> addr list \<Rightarrow> bool" where
  "lwplist_ok proc ll h as \<longleftrightarrow>
     ll_nlwps ll = int (length as) \<and> lwps_live proc h as \<and>
     (case ll_id_arr ll of None \<Rightarrow> as = [] | Some arr \<Rightarrow> arr = map Some as)"

lemma lwp_enum_update_cases:
  assumes "lwp_malloc_fresh env" "lwp_malloc_total env" "lwplist_ok proc ll h as" "finite (dom h)"
    and "\<And>ids. le_lwp_enum env pid = Some ids \<Longrightarrow> distinct ids"
  obtains (same) "lwp_enum_update env pid proc ll h = Some (ll, h)"
      "le_lwp_enum env pid = None \<or> le_lwp_enum env pid = Some [] \<or> \<not> le_lwparr_ok env pid"
    | (update) ids bs h1 where "le_lwp_enum env pid = Some ids" "ids \<noteq> []" "le_lwparr_ok env pid"
      "lwp_enum_update env pid proc ll h
         = Some (ll\<lparr>ll_id_arr := Some (map Some bs), ll_nlwps := int (length ids)\<rparr>, h1)"
      "merged env proc (qsort int_cmp ids) as h bs h1"
proof (cases "le_lwp_enum env pid")
  case None
  then show ?thesis using same by (simp add: lwp_enum_update_def)
next
  case (Some ids)
  have len: "length (qsort int_cmp ids) = length ids" by (rule qs.length_eq)
  show ?thesis
  proof (cases "ids = [] \<or> \<not> le_lwparr_ok env pid")
    case True
    then show ?thesis using same Some len by (auto simp: lwp_enum_update_def)
  next
    case False
    have "sorted_wrt (<) (map (\<lambda>x. x) (qsort int_cmp ids))"
      by (rule qs.by_key_strict) (use int_cmp_le assms(5) [OF Some] in simp_all)
    then have srt: "sorted_wrt (<) (qsort int_cmp ids)" by simp
    have live: "lwps_live proc h as" using assms(3) by (simp add: lwplist_ok_def)
    obtain bs h1 where m: "lwp_merge env proc (qsort int_cmp ids) (map Some as) h = Some (map Some bs, h1)"
        "merged env proc (qsort int_cmp ids) as h bs h1"
      using lwp_merge_result [OF assms(1,2) live srt assms(4)] by blast
    have "(case ll_id_arr ll of None \<Rightarrow> Some []
        | Some arr \<Rightarrow> if ll_nlwps ll \<le> int (length arr) then Some (take (nat (ll_nlwps ll)) arr) else None)
       = Some (map Some as)"
      using assms(3) by (auto simp: lwplist_ok_def split: option.splits)
    moreover have "qsort int_cmp ids \<noteq> []" using False len by auto
    ultimately have "lwp_enum_update env pid proc ll h
         = Some (ll\<lparr>ll_id_arr := Some (map Some bs), ll_nlwps := int (length ids)\<rparr>, h1)"
      using Some False m(1) by (simp add: lwp_enum_update_def)
    then show ?thesis using update [OF Some _ _ _ m(2)] False by blast
  qed
qed

lemma merged_live:
  assumes "merged env proc is as h bs h1" "lwps_live proc h as" "sorted_wrt (<) is"
  shows "lwps_live proc h1 bs"
  unfolding lwps_live_def
proof (intro conjI ballI)
  fix b assume "b \<in> set bs"
  then show "\<exists>l. h1 b = Some l \<and> l_proc l = Some proc \<and> \<not> l_removing l"
  proof (rule merged_cases [OF assms(1)])
    assume "b \<in> set as" "h1 b = h b"
    then show ?thesis using assms(2) unfolding lwps_live_def by simp
  next
    assume "lwp_created env proc is as h h1 b"
    then show ?thesis by (rule lwp_createdE) simp
  qed
qed (use assms in \<open>simp_all add: merged_def\<close>)

text \<open>Looking up the object of an id in the array.\<close>

definition lwp_at :: "track_lwp heap \<Rightarrow> addr list \<Rightarrow> int \<Rightarrow> addr option" where
  "lwp_at h as i = List.find (\<lambda>a. l_id (the (h a)) = i) as"

lemma lwp_at_Some: "lwp_at h as i = Some a \<Longrightarrow> a \<in> set as \<and> l_id (the (h a)) = i"
  by (auto simp: lwp_at_def find_Some_iff)

lemma lwp_at_None: "lwp_at h as i = None \<longleftrightarrow> i \<notin> set (lwp_ids h as)"
  by (auto simp: lwp_at_def find_None_iff lwp_ids_def)

lemma lwp_at_unique:
  assumes "lwps_live proc h as" "a \<in> set as" "l_id (the (h a)) = i"
  shows "lwp_at h as i = Some a"
proof -
  have "inj_on (\<lambda>a. l_id (the (h a))) (set as)"
    using assms(1) unfolding lwps_live_def lwp_ids_def strict_sorted_iff by (simp add: distinct_map)
  moreover have "lwp_at h as i \<noteq> None" using assms by (auto simp: lwp_at_None lwp_ids_def)
  then obtain b where "lwp_at h as i = Some b" by blast
  ultimately show ?thesis using lwp_at_Some [of h as i b] assms by (simp add: inj_on_def)
qed

lemma merged_lookup:
  assumes "merged env proc is as h bs h1" "lwps_live proc h as" "sorted_wrt (<) is" "i \<in> set is"
  shows "(case lwp_at h as i of
       Some a \<Rightarrow> lwp_at h1 bs i = Some a \<and> h1 a = h a
     | None \<Rightarrow> \<exists>b. lwp_at h1 bs i = Some b \<and> h1 b = Some (lwp_fresh env proc i))"
proof -
  have live: "lwps_live proc h1 bs" by (rule merged_live [OF assms(1-3)])
  have "i \<in> set (lwp_ids h1 bs)" using assms(1,4) by (simp add: merged_def)
  then obtain b where b: "b \<in> set bs" "l_id (the (h1 b)) = i" by (auto simp: lwp_ids_def)
  then have at: "lwp_at h1 bs i = Some b" by (rule lwp_at_unique [OF live])
  from b(1) show ?thesis
  proof (rule merged_cases [OF assms(1)])
    assume k: "b \<in> set as" "h1 b = h b"
    then have "lwp_at h as i = Some b" using b(2) lwp_at_unique [OF assms(2)] by simp
    then show ?thesis using at k by simp
  next
    assume "lwp_created env proc is as h h1 b"
    then show ?thesis
    proof (rule lwp_createdE)
      fix j assume j: "j \<notin> set (lwp_ids h as)" "h1 b = Some (lwp_fresh env proc j)"
      then have "j = i" using b(2) by simp
      moreover have "lwp_at h as i = None" using j(1) \<open>j = i\<close> by (simp add: lwp_at_None)
      ultimately show ?thesis using at j(2) by simp
    qed
  qed
qed

text \<open>
  C3: Enumerating the threads of a process follows /proc: when the array can be
  allocated and /proc shows a nonempty list of distinct ids, afterwards the
  array holds exactly those ids in ascending order, a thread that was known
  keeps its object untouched, a new one has a fresh object, and the object of a
  thread that is gone is freed, or marked when it is still referenced; no
  other object changes.
\<close>

theorem lwp_enum_update_follows_proc:
  assumes "lwp_malloc_fresh env" "lwp_malloc_total env" "lwplist_ok proc ll h as" "finite (dom h)"
    and "le_lwp_enum env pid = Some ids" "ids \<noteq> []" "distinct ids" "le_lwparr_ok env pid"
  shows "\<exists>ll1 h1 bs. lwp_enum_update env pid proc ll h = Some (ll1, h1) \<and> lwplist_ok proc ll1 h1 bs \<and>
     lwp_ids h1 bs = qsort int_cmp ids \<and> set (lwp_ids h1 bs) = set ids \<and>
     (\<forall>i \<in> set ids. case lwp_at h as i of
         Some a \<Rightarrow> lwp_at h1 bs i = Some a \<and> h1 a = h a
       | None \<Rightarrow> \<exists>b. lwp_at h1 bs i = Some b \<and> h1 b = Some (lwp_fresh env proc i)) \<and>
     (\<forall>a \<in> set as. l_id (the (h a)) \<notin> set ids \<longrightarrow> lwp_gone h bs h1 a) \<and>
     (\<forall>a. a \<notin> set as \<union> set bs \<longrightarrow> h1 a = h a)"
proof -
  obtain bs h1 where u: "lwp_enum_update env pid proc ll h
         = Some (ll\<lparr>ll_id_arr := Some (map Some bs), ll_nlwps := int (length ids)\<rparr>, h1)"
      and m: "merged env proc (qsort int_cmp ids) as h bs h1"
  proof (rule lwp_enum_update_cases [OF assms(1-4), of pid])
    show "distinct xs" if "le_lwp_enum env pid = Some xs" for xs using that assms(5,7) by simp
  qed (use assms(5,6,8) that in simp_all)
  have srt: "sorted_wrt (<) (qsort int_cmp ids)"
    using qs.by_key_strict [of int_cmp "\<lambda>x. x" ids] assms(7) by (simp add: int_cmp_le)
  have set: "set (qsort int_cmp ids) = set ids" by (rule qs.set_eq)
  have live: "lwps_live proc h as" using assms(3) by (simp add: lwplist_ok_def)
  have live1: "lwps_live proc h1 bs" by (rule merged_live [OF m live srt])
  have ids: "lwp_ids h1 bs = qsort int_cmp ids" using m by (simp add: merged_def)
  then have "length bs = length ids" using qs.length_eq [of int_cmp ids] by (metis length_map lwp_ids_def)
  then have "lwplist_ok proc (ll\<lparr>ll_id_arr := Some (map Some bs), ll_nlwps := int (length ids)\<rparr>) h1 bs"
    using live1 by (simp add: lwplist_ok_def)
  moreover have "\<forall>i \<in> set ids. case lwp_at h as i of
         Some a \<Rightarrow> lwp_at h1 bs i = Some a \<and> h1 a = h a
       | None \<Rightarrow> \<exists>b. lwp_at h1 bs i = Some b \<and> h1 b = Some (lwp_fresh env proc i)"
    using merged_lookup [OF m live srt] set by blast
  moreover have "\<forall>a \<in> set as. l_id (the (h a)) \<notin> set ids \<longrightarrow> lwp_gone h bs h1 a"
    using m set by (simp add: merged_def)
  moreover have "\<forall>a. a \<notin> set as \<union> set bs \<longrightarrow> h1 a = h a" using m by (simp add: merged_def)
  ultimately show ?thesis
    using u ids set
    by (intro exI [of _ "ll\<lparr>ll_id_arr := Some (map Some bs), ll_nlwps := int (length ids)\<rparr>"]
        exI [of _ h1] exI [of _ bs] conjI) simp_all
qed

text \<open>A process that had thread 5, still referenced, and now shows 7 and 3.\<close>

definition lwp_env_demo :: lwp_env where
  "lwp_env_demo = \<lparr>le_lwp_enum = (\<lambda>_. Some [7, 3]), le_cpuid_max = 1,
     le_lwp_malloc = (\<lambda>_ h. Some (Suc (Max (insert 0 (dom h))))), le_lwparr_ok = (\<lambda>_. True)\<rparr>"

lemma lwp_env_demo_malloc: "lwp_malloc_fresh lwp_env_demo" "lwp_malloc_total lwp_env_demo"
proof -
  have "h (Suc (Max (insert 0 (dom h)))) = None" if "finite (dom h)" for h :: "track_lwp heap"
  proof (rule ccontr)
    assume "h (Suc (Max (insert 0 (dom h)))) \<noteq> None"
    then have "Suc (Max (insert 0 (dom h))) \<in> insert 0 (dom h)" by blast
    then have "Suc (Max (insert 0 (dom h))) \<le> Max (insert 0 (dom h))" by (rule Max_ge [rotated]) (use that in simp)
    then show False by simp
  qed
  then show "lwp_malloc_fresh lwp_env_demo" by (simp add: lwp_malloc_fresh_def lwp_env_demo_def)
  show "lwp_malloc_total lwp_env_demo" by (simp add: lwp_malloc_total_def lwp_env_demo_def)
qed

theorem lwp_enum_update_follows_proc_witness:
  "\<exists>ll1 h1 bs. lwp_enum_update lwp_env_demo 1 0
       \<lparr>ll_nlwps = 1, ll_sort_idx = 0, ll_id_arr = Some [Some 4], ll_sort_arr = None\<rparr>
       [4 \<mapsto> lwp_zero\<lparr>l_id := 5, l_proc := Some 0, l_ref_count := 1\<rparr>] = Some (ll1, h1) \<and>
     lwp_ids h1 bs = [3, 7]"
proof -
  let ?h = "[4 \<mapsto> lwp_zero\<lparr>l_id := 5, l_proc := Some 0, l_ref_count := 1\<rparr>]"
  have ok: "lwplist_ok 0 \<lparr>ll_nlwps = 1, ll_sort_idx = 0, ll_id_arr = Some [Some 4], ll_sort_arr = None\<rparr> ?h [4]"
    by (simp add: lwplist_ok_def lwps_live_def lwp_ids_def lwp_zero_def)
  have "qsort int_cmp [7, 3] = [3, 7]" by (simp add: qsort_def int_cmp_def)
  then show ?thesis
    using lwp_enum_update_follows_proc [OF lwp_env_demo_malloc ok, of 1 "[7, 3]"]
    by (auto simp: lwp_env_demo_def)
qed

section \<open>The life of a thread object\<close>

text \<open>
  One object under the operations of its users: threads of the program look it
  up while the process lists it (lwp_refcount_inc) and release it
  (lwp_refcount_dec), the process drops it from its list (lwp_free), and the
  thread may be flagged as quitting.  lf_holders counts the users that hold a
  reference; it is not part of the program.
\<close>

record lwp_life =
  lf_heap :: "track_lwp heap"
  lf_holders :: nat
  lf_listed :: bool

inductive lwp_step :: "addr \<Rightarrow> lwp_life \<Rightarrow> lwp_life \<Rightarrow> bool" for a where
  find: "lf_listed s \<Longrightarrow> lwp_refcount_inc a (lf_heap s) = Some (h, 0) \<Longrightarrow>
     lwp_step a s (s\<lparr>lf_heap := h, lf_holders := lf_holders s + 1\<rparr>)"
| find_quitting: "lf_listed s \<Longrightarrow> lwp_refcount_inc a (lf_heap s) = Some (h, -1) \<Longrightarrow>
     lwp_step a s (s\<lparr>lf_heap := h\<rparr>)"
| release: "lf_holders s > 0 \<Longrightarrow> lwp_refcount_dec a (lf_heap s) = Some h \<Longrightarrow>
     lwp_step a s (s\<lparr>lf_heap := h, lf_holders := lf_holders s - 1\<rparr>)"
| drop: "lf_listed s \<Longrightarrow> lwp_free a (lf_heap s) = Some (h, r) \<Longrightarrow>
     lwp_step a s (s\<lparr>lf_heap := h, lf_listed := False\<rparr>)"
| quit: "lf_listed s \<or> lf_holders s > 0 \<Longrightarrow> lwp_quitting_set a (lf_heap s) = Some h \<Longrightarrow>
     lwp_step a s (s\<lparr>lf_heap := h\<rparr>)"

inductive_cases lwp_stepE: "lwp_step a s s'"

definition lwp_life_ok :: "addr \<Rightarrow> lwp_life \<Rightarrow> bool" where
  "lwp_life_ok a s \<longleftrightarrow>
     (case lf_heap s a of
        None \<Rightarrow> \<not> lf_listed s \<and> lf_holders s = 0
      | Some l \<Rightarrow> (lf_listed s \<or> lf_holders s > 0) \<and> l_ref_count l = int (lf_holders s) \<and>
                  l_removing l = (\<not> lf_listed s))"

lemma lwp_life_step: "lwp_step a s s' \<Longrightarrow> lwp_life_ok a s \<Longrightarrow> lwp_life_ok a s'"
  by (erule lwp_stepE)
    (auto simp: lwp_life_ok_def lwp_refcount_inc_def lwp_refcount_dec_def lwp_free_def lwp_quitting_set_def
      Option.bind_eq_Some_conv Let_def split: option.splits if_splits)

text \<open>
  C23: Reference counting of threads is right: in every reachable state the
  object is allocated exactly as long as its process lists it or somebody holds
  a reference (so it is neither used after it was freed nor leaked), and every
  operation its users may then perform is defined.
\<close>

theorem lwp_refcount_safe:
  assumes "(lwp_step a)\<^sup>*\<^sup>* \<lparr>lf_heap = h(a \<mapsto> lwp_fresh env proc i), lf_holders = 0, lf_listed = True\<rparr> s"
  shows "(lf_heap s a \<noteq> None \<longleftrightarrow> lf_listed s \<or> lf_holders s > 0) \<and>
    (lf_listed s \<longrightarrow> lwp_refcount_inc a (lf_heap s) \<noteq> None \<and> lwp_free a (lf_heap s) \<noteq> None) \<and>
    (lf_holders s > 0 \<longrightarrow> lwp_refcount_dec a (lf_heap s) \<noteq> None)"
proof -
  have "lwp_life_ok a s"
    using assms
  proof (induction rule: rtranclp_induct)
    case base
    show ?case by (simp add: lwp_life_ok_def)
  next
    case (step s s')
    then show ?case by (blast intro: lwp_life_step)
  qed
  then show ?thesis
    by (auto simp: lwp_life_ok_def lwp_refcount_inc_def lwp_refcount_dec_def lwp_free_def Let_def
        split: option.splits)
qed

text \<open>A look-up, the drop while the reference is held, and the release that frees the object.\<close>

theorem lwp_refcount_safe_witness:
  "\<exists>s. (lwp_step 4)\<^sup>*\<^sup>* \<lparr>lf_heap = [4 \<mapsto> lwp_fresh lwp_env_demo 0 5], lf_holders = 0, lf_listed = True\<rparr> s \<and>
     \<not> lf_listed s \<and> lf_heap s 4 = None"
proof -
  let ?l = "lwp_fresh lwp_env_demo 0 5"
  let ?s0 = "\<lparr>lf_heap = [4 \<mapsto> ?l], lf_holders = 0, lf_listed = True\<rparr>"
  let ?s1 = "\<lparr>lf_heap = [4 \<mapsto> ?l\<lparr>l_ref_count := 1\<rparr>], lf_holders = 1, lf_listed = True\<rparr>"
  let ?s2 = "\<lparr>lf_heap = [4 \<mapsto> ?l\<lparr>l_ref_count := 1, l_removing := True\<rparr>], lf_holders = 1, lf_listed = False\<rparr>"
  let ?s3 = "\<lparr>lf_heap = Map.empty, lf_holders = 0, lf_listed = False\<rparr> :: lwp_life"
  have q: "\<not> l_quitting ?l" by (simp add: lwp_fresh_def lwp_zero_def)
  have "lwp_step 4 ?s0 ?s1"
    using lwp_step.find [of ?s0 4 "lf_heap ?s1"] q by (simp add: lwp_refcount_inc_def)
  moreover have "lwp_step 4 ?s1 ?s2"
    using lwp_step.drop [of ?s1 4 "lf_heap ?s2" "-1"] by (simp add: lwp_free_def)
  moreover have "lwp_step 4 ?s2 ?s3"
    using lwp_step.release [of ?s2 4 "lf_heap ?s3"] by (simp add: lwp_refcount_dec_def lwp_free_def)
  ultimately have r: "(lwp_step 4)\<^sup>*\<^sup>* ?s0 ?s3" by (meson r_into_rtranclp rtranclp_trans)
  have "lf_heap ?s3 4 = None" using lwp_refcount_safe [OF r] by simp
  then show ?thesis using r by (intro exI [of _ ?s3]) simp
qed

text \<open>
  When a thread object cannot be allocated its slot of the array stays
  NULL, and the next enumeration that reaches the slot dereferences it.
\<close>

theorem lwp_null_slot_undefined:
  assumes "le_lwp_enum env pid = Some ids" "ids \<noteq> []" "le_lwparr_ok env pid"
    and "ll_id_arr ll = Some (None # arr)" "0 < ll_nlwps ll" "ll_nlwps ll \<le> int (length arr) + 1"
  shows "lwp_enum_update env pid proc ll h = None"
proof -
  obtain i "is" where q: "qsort int_cmp ids = i # is"
    using assms(2) qs.length_eq [of int_cmp ids] by (cases "qsort int_cmp ids") auto
  obtain n where n: "nat (ll_nlwps ll) = Suc n" using assms(5) by (cases "nat (ll_nlwps ll)") auto
  show ?thesis using assms by (simp add: lwp_enum_update_def q n)
qed

text \<open>The allocation of thread 5 fails; the array has a NULL, and the second enumeration is undefined.\<close>

theorem lwp_null_slot_undefined_witness:
  "let env = lwp_env_demo\<lparr>le_lwp_enum := (\<lambda>_. Some [5]), le_lwp_malloc := (\<lambda>_ _. None)\<rparr>;
       ll = \<lparr>ll_nlwps = 1, ll_sort_idx = 0, ll_id_arr = Some [None], ll_sort_arr = None\<rparr>
   in lwp_enum_update env 1 0 lwplist_zero Map.empty = Some (ll, Map.empty) \<and>
      lwp_enum_update env 1 0 ll Map.empty = None"
proof -
  let ?env = "lwp_env_demo\<lparr>le_lwp_enum := (\<lambda>_. Some [5]), le_lwp_malloc := (\<lambda>_ _. None)\<rparr>"
  let ?ll = "\<lparr>ll_nlwps = 1, ll_sort_idx = 0, ll_id_arr = Some [None], ll_sort_arr = None\<rparr>"
  have "lwp_enum_update ?env 1 0 lwplist_zero Map.empty = Some (?ll, Map.empty)"
    by (simp add: lwp_enum_update_def lwp_env_demo_def qsort_def lwplist_zero_def lwp_new_def lwp_alloc_def)
  moreover have "lwp_enum_update ?env 1 0 ?ll Map.empty = None"
    by (rule lwp_null_slot_undefined [of _ _ "[5]" _ "[]"]) (simp_all add: lwp_env_demo_def)
  ultimately show ?thesis by simp
qed

section \<open>Counters grow with the processors\<close>

definition countval_at :: "count_value list \<Rightarrow> int \<Rightarrow> perf_count_id \<Rightarrow> u64" where
  "countval_at arr c j = (if 0 \<le> c \<and> c < int (length arr) then (arr ! nat c) j else 0)"

text \<open>Growing the array if needed and adding to one of its counters.\<close>

lemma countval_bump:
  assumes "int (length arr) = m" "0 \<le> cpu" "cpu < m \<or> cpu < node_max \<and> realloc_ok"
  obtains arr1 m1 arr2 where "countval_grow realloc_ok node_max cpu m arr = Some (arr1, m1)"
    "countval_add arr1 cpu i v = Some arr2" "int (length arr2) = m1"
    "\<And>c j. countval_at arr2 c j = countval_at arr c j + (if c = cpu \<and> j = i then v else 0)"
proof -
  define arr1 where "arr1 = (if cpu < m then arr else arr @ replicate (nat (node_max - m)) (\<lambda>_. 0))"
  define m1 where "m1 = (if cpu < m then m else node_max)"
  define arr2 where "arr2 = arr1[nat cpu := (arr1 ! nat cpu)(i := (arr1 ! nat cpu) i + v)]"
  have len: "int (length arr1) = m1" "cpu < int (length arr1)" using assms by (auto simp: arr1_def m1_def)
  have "take (nat m) arr = arr" using assms(1) [symmetric] by simp
  then have "countval_grow realloc_ok node_max cpu m arr = Some (arr1, m1)"
    using assms(3) by (auto simp: countval_grow_def arr1_def m1_def)
  moreover have "countval_add arr1 cpu i v = Some arr2"
    using len assms(2) by (simp add: countval_add_def arr_get_def arr_set_def arr2_def)
  moreover have "countval_at arr2 c j = countval_at arr c j + (if c = cpu \<and> j = i then v else 0)" for c j
  proof -
    have "countval_at arr1 c j = countval_at arr c j" by (auto simp: countval_at_def arr1_def nth_append)
    then show ?thesis using len assms(2) by (auto simp: countval_at_def arr2_def nth_list_update)
  qed
  ultimately show ?thesis using that len by (simp add: arr2_def)
qed

text \<open>
  Counting on a processor: the counter of that processor and identifier
  grows by the value modulo 2^64 and nothing else changes, the array having
  grown with zeros first when the processor is new; it is undefined when the
  processor is beyond what the node code knows.
\<close>

theorem lwp_countval_update_result:
  assumes "int (length (l_countval_arr l)) = l_cpuid_max l" "0 \<le> cpu"
  shows "if cpu < l_cpuid_max l \<or> cpu < node_max \<and> realloc_ok
     then \<exists>l1. lwp_countval_update realloc_ok node_max cpu i v l = Some (l1, 0) \<and>
            (\<forall>c j. countval_at (l_countval_arr l1) c j =
               countval_at (l_countval_arr l) c j + (if c = cpu \<and> j = i then v else 0)) \<and>
            int (length (l_countval_arr l1)) = l_cpuid_max l1
     else lwp_countval_update realloc_ok node_max cpu i v l = (if realloc_ok then None else Some (l, -1))"
proof (cases "cpu < l_cpuid_max l \<or> cpu < node_max \<and> realloc_ok")
  case True
  show ?thesis
  proof (rule countval_bump [OF assms True, of i v])
    fix arr1 m1 arr2
    assume "countval_grow realloc_ok node_max cpu (l_cpuid_max l) (l_countval_arr l) = Some (arr1, m1)"
      "countval_add arr1 cpu i v = Some arr2" "int (length arr2) = m1"
      "\<And>c j. countval_at arr2 c j = countval_at (l_countval_arr l) c j + (if c = cpu \<and> j = i then v else 0)"
    then show ?thesis using True by (simp add: lwp_countval_update_def)
  qed
next
  case False
  let ?new = "l_countval_arr l @ replicate (nat (node_max - l_cpuid_max l)) (\<lambda>_. 0)"
  have "take (nat (l_cpuid_max l)) (l_countval_arr l) = l_countval_arr l" using assms(1) [symmetric] by simp
  moreover have "countval_add ?new cpu i v = None" if realloc_ok
    using that False assms by (auto simp: countval_add_def arr_get_def)
  ultimately show ?thesis using False by (auto simp: lwp_countval_update_def countval_grow_def)
qed

theorem lwp_countval_update_result_witness:
  "\<exists>l1. lwp_countval_update True 2 1 PERF_COUNT_RMA 5 (lwp_zero\<lparr>l_cpuid_max := 1, l_countval_arr := [\<lambda>_. 7]\<rparr>)
       = Some (l1, 0) \<and> countval_at (l_countval_arr l1) 1 PERF_COUNT_RMA = 5 \<and>
     countval_at (l_countval_arr l1) 0 PERF_COUNT_RMA = 7"
proof -
  let ?l = "lwp_zero\<lparr>l_cpuid_max := 1, l_countval_arr := [\<lambda>_. 7]\<rparr>"
  obtain l1 where r: "lwp_countval_update True 2 1 PERF_COUNT_RMA 5 ?l = Some (l1, 0)"
    and at: "\<And>c j. countval_at (l_countval_arr l1) c j =
        countval_at (l_countval_arr ?l) c j + (if c = 1 \<and> j = PERF_COUNT_RMA then 5 else 0)"
    using lwp_countval_update_result [of ?l 1 2 True PERF_COUNT_RMA 5] by auto
  have "countval_at (l_countval_arr l1) 1 PERF_COUNT_RMA = 5" "countval_at (l_countval_arr l1) 0 PERF_COUNT_RMA = 7"
    unfolding at by (simp_all add: countval_at_def)
  then show ?thesis using r by blast
qed

end
