(* ===== verification/Proc.thy ===== *)
theory Proc
  imports Lwp DList
begin

text \<open>
  The tracked processes (common/proc.c, common/include/proc.h): a hash table of
  128 chains linked through the processes, the refresh of the table from /proc,
  look-up with a cache of the latest hit, reference counting, and the arrays
  sorted for display.

  The mutexes of the group and of a process are held for the length of an
  operation, so that an operation is one step.  The symbol table and the memory
  map of a process are kept beside it (Sym, ProcMap).
\<close>

section \<open>Processes and the group\<close>

record track_proc =
  p_ref_count :: int
  p_inited :: bool
  p_removing :: bool
  p_pid :: int
  p_cpuid_max :: int
  p_name :: string
  p_lwp_list :: proc_lwplist
  p_intval_ms :: int
  p_key :: u64
  p_countval_arr :: "count_value list"
  p_count_chain :: countchain
  p_llrec_grp :: llrecgrp
  p_pqos :: perf_pqos
  p_lwp_pqosed :: bool
  p_hash_prev :: ptr
  p_hash_next :: ptr

definition proc_zero :: track_proc where
  "proc_zero = \<lparr>p_ref_count = 0, p_inited = False, p_removing = False, p_pid = 0, p_cpuid_max = 0,
     p_name = [], p_lwp_list = lwplist_zero, p_intval_ms = 0, p_key = 0, p_countval_arr = [],
     p_count_chain = (\<lambda>_. darr_zero), p_llrec_grp = darr_zero, p_pqos = pqos_zero, p_lwp_pqosed = False,
     p_hash_prev = None, p_hash_next = None\<rparr>"

definition PROC_HASHTBL_SIZE :: nat where "PROC_HASHTBL_SIZE = 128"

definition PROC_HASHTBL_INDEX :: "int \<Rightarrow> int" where
  "PROC_HASHTBL_INDEX pid = pid smod int PROC_HASHTBL_SIZE"

record proc_group =
  pg_nprocs :: int
  pg_nlwps :: int
  pg_sort_idx :: int
  pg_inited :: bool
  pg_hashtbl :: "ptr list"
  pg_latest :: ptr
  pg_sort_arr :: "ptr list option"

text \<open>The group with the heaps of processes and threads.\<close>

record pstate =
  ps_group :: proc_group
  ps_procs :: "track_proc heap"
  ps_lwps :: "track_lwp heap"

text \<open>
  The surroundings: those of the threads, and the processes /proc shows, their
  names, the memory malloc finds for the process with a given pid, and whether
  the arrays of proc_group_refresh and of the sorting can be allocated.
\<close>

record proc_env = lwp_env +
  pe_proc_enum :: "int list option"
  pe_pname :: "int \<Rightarrow> string"
  pe_proc_malloc :: "int \<Rightarrow> track_proc heap \<Rightarrow> ptr"
  pe_exist_ok :: bool
  pe_sort_ok :: bool
  pe_alive :: "int \<Rightarrow> bool"

definition proc_malloc_fresh :: "'a proc_env_scheme \<Rightarrow> bool" where
  "proc_malloc_fresh env \<longleftrightarrow>
     (\<forall>i h a. finite (dom h) \<longrightarrow> pe_proc_malloc env i h = Some a \<longrightarrow> h a = None)"

definition proc_malloc_total :: "'a proc_env_scheme \<Rightarrow> bool" where
  "proc_malloc_total env \<longleftrightarrow>
     0 < le_cpuid_max env \<and> (\<forall>i h. finite (dom h) \<longrightarrow> pe_proc_malloc env i h \<noteq> None)"

definition proc_group_init :: proc_group where
  "proc_group_init = \<lparr>pg_nprocs = 0, pg_nlwps = 0, pg_sort_idx = 0, pg_inited = True,
     pg_hashtbl = replicate PROC_HASHTBL_SIZE None, pg_latest = None, pg_sort_arr = None\<rparr>"

abbreviation upd_group :: "(proc_group \<Rightarrow> proc_group) \<Rightarrow> pstate \<Rightarrow> pstate" where
  "upd_group f s \<equiv> s\<lparr>ps_group := f (ps_group s)\<rparr>"

definition upd_proc :: "addr \<Rightarrow> (track_proc \<Rightarrow> track_proc) \<Rightarrow> pstate \<Rightarrow> pstate option" where
  "upd_proc a f s = do { p \<leftarrow> ps_procs s a; Some (s\<lparr>ps_procs := (ps_procs s)(a \<mapsto> f p)\<rparr>) }"

section \<open>Walking threads and chains\<close>

text \<open>proc_lwp_traverse: the entries of the array that are not NULL, in order.\<close>

fun lwps_walk :: "(addr \<Rightarrow> 's \<Rightarrow> 's option) \<Rightarrow> ptr list \<Rightarrow> 's \<Rightarrow> 's option" where
  "lwps_walk f [] s = Some s"
| "lwps_walk f (None # ps) s = lwps_walk f ps s"
| "lwps_walk f (Some a # ps) s = do { s1 \<leftarrow> f a s; lwps_walk f ps s1 }"

definition proc_lwp_traverse :: "(addr \<Rightarrow> 's \<Rightarrow> 's option) \<Rightarrow> proc_lwplist \<Rightarrow> 's \<Rightarrow> 's option" where
  "proc_lwp_traverse f ll s =
     (case ll_id_arr ll of
        None \<Rightarrow> Some s
      | Some arr \<Rightarrow>
          if ll_nlwps ll \<le> int (length arr) then lwps_walk f (take (nat (ll_nlwps ll)) arr) s else None)"

text \<open>A loop along the links nxt, which are read before the body f runs.\<close>

partial_function (option) walk ::
  "(addr \<Rightarrow> 's \<Rightarrow> 's option) \<Rightarrow> ('s \<Rightarrow> addr \<Rightarrow> ptr option) \<Rightarrow> ptr \<Rightarrow> 's \<Rightarrow> 's option" where
  "walk f nxt p s =
     (case p of
        None \<Rightarrow> Some s
      | Some a \<Rightarrow> do { q \<leftarrow> nxt s a; s1 \<leftarrow> f a s; walk f nxt q s1 })"

definition hash_next :: "pstate \<Rightarrow> addr \<Rightarrow> ptr option" where
  "hash_next s a = map_option p_hash_next (ps_procs s a)"

text \<open>
  proc_traverse: all chains, stopping behind a chain when as many processes have
  been visited as the group says there are.  The state carries that count.  No
  function that is passed to proc_traverse asks for an early end.
\<close>

fun table_walk ::
  "(addr \<Rightarrow> pstate \<Rightarrow> pstate option) \<Rightarrow> nat \<Rightarrow> nat \<Rightarrow> pstate \<Rightarrow> nat \<Rightarrow> pstate option" where
  "table_walk f i 0 s j = Some s"
| "table_walk f i (Suc n) s j =
     do {
       p \<leftarrow> arr_get (pg_hashtbl (ps_group s)) (int i);
       (s1, j1) \<leftarrow> walk (\<lambda>a (s, j). do { s1 \<leftarrow> f a s; Some (s1, j + 1) }) (\<lambda>(s, _). hash_next s) p (s, j);
       if int j1 = pg_nprocs (ps_group s1) then Some s1 else table_walk f (i + 1) n s1 j1
     }"

definition proc_traverse :: "(addr \<Rightarrow> pstate \<Rightarrow> pstate option) \<Rightarrow> pstate \<Rightarrow> pstate option" where
  "proc_traverse f s = table_walk f 0 PROC_HASHTBL_SIZE s 0"

section \<open>Creating, finding and freeing processes\<close>

definition proc_alloc :: "'a proc_env_scheme \<Rightarrow> int \<Rightarrow> pstate \<Rightarrow> ptr \<times> pstate" where
  "proc_alloc env i s =
     (if le_cpuid_max env \<le> 0 then (None, s)
      else (case pe_proc_malloc env i (ps_procs s) of
              None \<Rightarrow> (None, s)
            | Some a \<Rightarrow>
                (Some a, s\<lparr>ps_procs := (ps_procs s)(a \<mapsto> proc_zero\<lparr>p_pid := -1,
                   p_countval_arr := replicate (nat (le_cpuid_max env)) (\<lambda>_. 0),
                   p_cpuid_max := le_cpuid_max env, p_inited := True\<rparr>)\<rparr>)))"

definition lwp_free_walk :: "addr \<Rightarrow> track_lwp heap \<Rightarrow> track_lwp heap option" where
  "lwp_free_walk a h = do { (h1, _) \<leftarrow> lwp_free a h; Some h1 }"

definition proc_free :: "addr \<Rightarrow> pstate \<Rightarrow> pstate option" where
  "proc_free a s =
     do {
       p \<leftarrow> ps_procs s a;
       if p_ref_count p > 0 then Some (s\<lparr>ps_procs := (ps_procs s)(a \<mapsto> p\<lparr>p_removing := True\<rparr>)\<rparr>)
       else do {
         lh \<leftarrow> proc_lwp_traverse lwp_free_walk (p_lwp_list p) (ps_lwps s);
         let g = ps_group s;
         Some (s\<lparr>ps_lwps := lh, ps_procs := (ps_procs s)(a := None),
                ps_group := g\<lparr>pg_nprocs := pg_nprocs g - 1, pg_nlwps := pg_nlwps g - ll_nlwps (p_lwp_list p)\<rparr>\<rparr>)
       }
     }"

definition proc_refcount_inc :: "addr \<Rightarrow> pstate \<Rightarrow> (pstate \<times> int) option" where
  "proc_refcount_inc a s =
     do {
       p \<leftarrow> ps_procs s a;
       if \<not> p_removing p
       then Some (s\<lparr>ps_procs := (ps_procs s)(a \<mapsto> p\<lparr>p_ref_count := p_ref_count p + 1\<rparr>)\<rparr>, 0)
       else Some (s, -1)
     }"

definition proc_refcount_dec :: "addr \<Rightarrow> pstate \<Rightarrow> pstate option" where
  "proc_refcount_dec a s =
     do {
       p \<leftarrow> ps_procs s a;
       let p1 = p\<lparr>p_ref_count := p_ref_count p - 1\<rparr>;
       let s1 = s\<lparr>ps_procs := (ps_procs s)(a \<mapsto> p1)\<rparr>;
       if p_ref_count p1 = 0 \<and> p_removing p1 then proc_free a s1 else Some s1
     }"

text \<open>The scan of a chain for a pid.\<close>

partial_function (option) chain_find :: "track_proc heap \<Rightarrow> int \<Rightarrow> ptr \<Rightarrow> ptr option" where
  "chain_find h pid p =
     (case p of
        None \<Rightarrow> Some None
      | Some a \<Rightarrow> do { r \<leftarrow> h a; if p_pid r = pid then Some (Some a) else chain_find h pid (p_hash_next r) })"

definition proc_lookup :: "int \<Rightarrow> pstate \<Rightarrow> ptr option" where
  "proc_lookup pid s =
     do {
       hit \<leftarrow> (case pg_latest (ps_group s) of
                 None \<Rightarrow> Some False
               | Some a \<Rightarrow> do { p \<leftarrow> ps_procs s a; Some (p_pid p = pid) });
       if hit then Some (pg_latest (ps_group s))
       else do {
         p \<leftarrow> arr_get (pg_hashtbl (ps_group s)) (PROC_HASHTBL_INDEX pid);
         chain_find (ps_procs s) pid p
       }
     }"

definition proc_find_nolock :: "int \<Rightarrow> pstate \<Rightarrow> (pstate \<times> ptr) option" where
  "proc_find_nolock pid s =
     do {
       r \<leftarrow> proc_lookup pid s;
       (case r of
          None \<Rightarrow> Some (s, None)
        | Some a \<Rightarrow>
            do {
              (s1, ret) \<leftarrow> proc_refcount_inc a s;
              if ret \<noteq> 0 then
                Some (if pg_latest (ps_group s1) = Some a then upd_group (\<lambda>g. g\<lparr>pg_latest := None\<rparr>) s1 else s1, None)
              else Some (upd_group (\<lambda>g. g\<lparr>pg_latest := Some a\<rparr>) s1, Some a)
            })
     }"

definition proc_find :: "int \<Rightarrow> pstate \<Rightarrow> (pstate \<times> ptr) option" where
  "proc_find pid s = proc_find_nolock pid s"

section \<open>The hash table\<close>

definition proc_group_add :: "addr \<Rightarrow> pstate \<Rightarrow> pstate option" where
  "proc_group_add a s =
     do {
       p \<leftarrow> ps_procs s a;
       let i = PROC_HASHTBL_INDEX (p_pid p);
       head \<leftarrow> arr_get (pg_hashtbl (ps_group s)) i;
       s1 \<leftarrow> (case head of None \<Rightarrow> Some s | Some b \<Rightarrow> upd_proc b (\<lambda>q. q\<lparr>p_hash_prev := Some a\<rparr>) s);
       s2 \<leftarrow> upd_proc a (\<lambda>q. q\<lparr>p_hash_next := head, p_hash_prev := None\<rparr>) s1;
       tbl \<leftarrow> arr_set (pg_hashtbl (ps_group s2)) i (Some a);
       Some (upd_group (\<lambda>g. g\<lparr>pg_hashtbl := tbl, pg_nprocs := pg_nprocs g + 1\<rparr>) s2)
     }"

definition proc_group_remove :: "addr \<Rightarrow> pstate \<Rightarrow> pstate option" where
  "proc_group_remove a s =
     do {
       p \<leftarrow> ps_procs s a;
       let i = PROC_HASHTBL_INDEX (p_pid p);
       let prev = p_hash_prev p;
       let nxt = p_hash_next p;
       s1 \<leftarrow> (case prev of
                Some b \<Rightarrow> upd_proc b (\<lambda>q. q\<lparr>p_hash_next := nxt\<rparr>) s
              | None \<Rightarrow> do { tbl \<leftarrow> arr_set (pg_hashtbl (ps_group s)) i nxt;
                             Some (upd_group (\<lambda>g. g\<lparr>pg_hashtbl := tbl\<rparr>) s) });
       s2 \<leftarrow> (case nxt of Some c \<Rightarrow> upd_proc c (\<lambda>q. q\<lparr>p_hash_prev := prev\<rparr>) s1 | None \<Rightarrow> Some s1);
       let s3 = upd_group (\<lambda>g. g\<lparr>pg_nprocs := pg_nprocs g - 1\<rparr>) s2;
       Some (if pg_latest (ps_group s3) = Some a then upd_group (\<lambda>g. g\<lparr>pg_latest := None\<rparr>) s3 else s3)
     }"

definition proc_obsolete :: "int \<Rightarrow> pstate \<Rightarrow> pstate option" where
  "proc_obsolete pid s =
     do {
       (s1, r) \<leftarrow> proc_find pid s;
       (case r of
          None \<Rightarrow> Some s1
        | Some a \<Rightarrow>
            do { s2 \<leftarrow> proc_refcount_dec a s1; s3 \<leftarrow> proc_group_remove a s2; proc_free a s3 })
     }"

section \<open>Refreshing the table\<close>

definition pid_find :: "int \<Rightarrow> int list \<Rightarrow> nat option option" where
  "pid_find pid xs = bsearch (\<lambda>x. Some (int_cmp pid x)) xs"

text \<open>The body of the first loop: a process that is gone is removed, others are marked in exist_arr.\<close>

definition refresh_visit :: "int list \<Rightarrow> addr \<Rightarrow> pstate \<times> bool list \<Rightarrow> (pstate \<times> bool list) option" where
  "refresh_visit procs_new a = (\<lambda>(s, ex).
     do {
       p \<leftarrow> ps_procs s a;
       r \<leftarrow> pid_find (p_pid p) procs_new;
       (case r of
          None \<Rightarrow> do { s1 \<leftarrow> proc_group_remove a s; s2 \<leftarrow> proc_free a s1; Some (s2, ex) }
        | Some j \<Rightarrow> do { ex1 \<leftarrow> arr_set ex (int j) True; Some (s, ex1) })
     })"

fun refresh_chains :: "int list \<Rightarrow> nat \<Rightarrow> nat \<Rightarrow> pstate \<times> bool list \<Rightarrow> (pstate \<times> bool list) option" where
  "refresh_chains procs_new i 0 sx = Some sx"
| "refresh_chains procs_new i (Suc n) sx =
     do {
       p \<leftarrow> arr_get (pg_hashtbl (ps_group (fst sx))) (int i);
       sx1 \<leftarrow> walk (refresh_visit procs_new) (\<lambda>(s, _). hash_next s) p sx;
       refresh_chains procs_new (i + 1) n sx1
     }"

text \<open>The second loop: the pids that were not found get a process.\<close>

fun refresh_add :: "'a proc_env_scheme \<Rightarrow> int list \<Rightarrow> bool list \<Rightarrow> pstate \<Rightarrow> pstate option" where
  "refresh_add env (pid # pids) (e # ex) s =
     (if e then refresh_add env pids ex s
      else
        (case proc_alloc env pid s of
           (None, s1) \<Rightarrow> refresh_add env pids ex s1
         | (Some a, s1) \<Rightarrow>
             do {
               s2 \<leftarrow> upd_proc a (\<lambda>p. p\<lparr>p_pid := pid, p_name := pe_pname env pid\<rparr>) s1;
               s3 \<leftarrow> proc_group_add a s2;
               refresh_add env pids ex s3
             }))"
| "refresh_add env _ _ s = Some s"

definition proc_lwp_refresh :: "'a proc_env_scheme \<Rightarrow> addr \<Rightarrow> pstate \<Rightarrow> pstate option" where
  "proc_lwp_refresh env a s =
     do {
       p \<leftarrow> ps_procs s a;
       (ll, h) \<leftarrow> lwp_enum_update env (p_pid p) a (p_lwp_list p) (ps_lwps s);
       Some (s\<lparr>ps_procs := (ps_procs s)(a \<mapsto> p\<lparr>p_lwp_list := ll\<rparr>), ps_lwps := h\<rparr>)
     }"

definition proc_nlwp :: "track_proc \<Rightarrow> int" where
  "proc_nlwp p = ll_nlwps (p_lwp_list p)"

definition proc_nlwps_sum :: "addr \<Rightarrow> pstate \<Rightarrow> pstate option" where
  "proc_nlwps_sum a s =
     do { p \<leftarrow> ps_procs s a; Some (upd_group (\<lambda>g. g\<lparr>pg_nlwps := pg_nlwps g + proc_nlwp p\<rparr>) s) }"

definition proc_group_refresh :: "'a proc_env_scheme \<Rightarrow> int list \<Rightarrow> pstate \<Rightarrow> pstate option" where
  "proc_group_refresh env pids s =
     (if pids = [] \<or> \<not> pe_exist_ok env then Some s
      else do {
        let procs_new = qsort int_cmp pids;
        (s1, ex) \<leftarrow> refresh_chains procs_new 0 PROC_HASHTBL_SIZE (s, replicate (length pids) False);
        s2 \<leftarrow> refresh_add env procs_new ex s1;
        let s3 = upd_group (\<lambda>g. g\<lparr>pg_nprocs := int (length pids), pg_nlwps := 0\<rparr>) s2;
        s4 \<leftarrow> proc_traverse (proc_lwp_refresh env) s3;
        proc_traverse proc_nlwps_sum s4
      })"

definition proc_enum_update :: "'a proc_env_scheme \<Rightarrow> int \<Rightarrow> pstate \<Rightarrow> pstate option" where
  "proc_enum_update env pid s =
     (if pid > 0 then if pe_alive env pid then Some s else proc_obsolete pid s
      else (case pe_proc_enum env of None \<Rightarrow> Some s | Some pids \<Rightarrow> proc_group_refresh env pids s))"

section \<open>Sorting and counting\<close>

text \<open>The scan of a chain into the next free slots of the array.\<close>

partial_function (option) sort_fill ::
  "track_proc heap \<Rightarrow> ptr \<Rightarrow> ptr list \<times> nat \<Rightarrow> (ptr list \<times> nat) option" where
  "sort_fill h p aj =
     (case p of
        None \<Rightarrow> Some aj
      | Some a \<Rightarrow>
          do {
            arr \<leftarrow> arr_set (fst aj) (int (snd aj)) (Some a);
            r \<leftarrow> h a;
            sort_fill h (p_hash_next r) (arr, snd aj + 1)
          })"

fun sort_chains :: "proc_group \<Rightarrow> track_proc heap \<Rightarrow> nat \<Rightarrow> nat \<Rightarrow> ptr list \<times> nat \<Rightarrow> (ptr list \<times> nat) option" where
  "sort_chains g h i 0 aj = Some aj"
| "sort_chains g h i (Suc n) aj =
     do {
       p \<leftarrow> arr_get (pg_hashtbl g) (int i);
       aj1 \<leftarrow> sort_fill h p aj;
       if int (snd aj1) = pg_nprocs g then Some aj1 else sort_chains g h (i + 1) n aj1
     }"

text \<open>Comparing what the entries of an array point to; qsort compares no NULL.\<close>

definition deref_all :: "('n heap) \<Rightarrow> ptr list \<Rightarrow> bool" where
  "deref_all h ps \<longleftrightarrow> (\<forall>p \<in> set ps. case p of None \<Rightarrow> False | Some a \<Rightarrow> h a \<noteq> None)"

definition ptr_val :: "('n heap) \<Rightarrow> ('n \<Rightarrow> int) \<Rightarrow> ptr \<Rightarrow> int" where
  "ptr_val h f p = f (the (h (the p)))"

definition proc_pid_cmp :: "track_proc heap \<Rightarrow> ptr \<Rightarrow> ptr \<Rightarrow> int" where
  "proc_pid_cmp h p q = int_cmp (ptr_val h p_pid p) (ptr_val h p_pid q)"

definition proc_key_cmp :: "track_proc heap \<Rightarrow> ptr \<Rightarrow> ptr \<Rightarrow> int" where
  "proc_key_cmp h p q = int_cmp (ptr_val h (\<lambda>r. uint (p_key r)) q) (ptr_val h (\<lambda>r. uint (p_key r)) p)"

definition lwp_key_cmp :: "track_lwp heap \<Rightarrow> ptr \<Rightarrow> ptr \<Rightarrow> int" where
  "lwp_key_cmp h p q = int_cmp (ptr_val h (\<lambda>r. uint (l_key r)) q) (ptr_val h (\<lambda>r. uint (l_key r)) p)"

text \<open>
  proc_sortkey: zalloc refuses a size of 0, and a negative count is a size that
  no allocation can satisfy.
\<close>

definition proc_sortkey :: "'a proc_env_scheme \<Rightarrow> pstate \<Rightarrow> pstate option" where
  "proc_sortkey env s =
     (let g = ps_group s; s0 = upd_group (\<lambda>g. g\<lparr>pg_sort_arr := None\<rparr>) s
      in if pg_nprocs g \<le> 0 \<or> \<not> pe_sort_ok env then Some s0
         else do {
           (arr, _) \<leftarrow> sort_chains g (ps_procs s) 0 PROC_HASHTBL_SIZE (replicate (nat (pg_nprocs g)) None, 0);
           if length arr > 1 \<and> \<not> deref_all (ps_procs s) arr then None
           else Some (upd_group (\<lambda>g. g\<lparr>pg_sort_arr :=
                  Some (qsort (proc_key_cmp (ps_procs s)) (qsort (proc_pid_cmp (ps_procs s)) arr)),
                  pg_sort_idx := 0\<rparr>) s0)
         })"

definition proc_sort_next :: "proc_group \<Rightarrow> (proc_group \<times> ptr) option" where
  "proc_sort_next g =
     (case pg_sort_arr g of
        None \<Rightarrow> Some (g, None)
      | Some arr \<Rightarrow>
          if pg_sort_idx g < pg_nprocs g
          then do { p \<leftarrow> arr_get arr (pg_sort_idx g); Some (g\<lparr>pg_sort_idx := pg_sort_idx g + 1\<rparr>, p) }
          else Some (g, None))"

definition proc_lwp_sortkey :: "bool \<Rightarrow> track_lwp heap \<Rightarrow> proc_lwplist \<Rightarrow> proc_lwplist option" where
  "proc_lwp_sortkey sort_ok h ll =
     (let l0 = ll\<lparr>ll_sort_arr := None\<rparr>
      in if ll_nlwps ll = 0 \<or> \<not> sort_ok then Some l0
         else do {
           arr \<leftarrow> ll_id_arr ll;
           if ll_nlwps ll < 0 \<or> ll_nlwps ll > int (length arr) then None
           else let a = take (nat (ll_nlwps ll)) arr
                in if length a > 1 \<and> \<not> deref_all h a then None
                   else Some (l0\<lparr>ll_sort_arr := Some (qsort (lwp_key_cmp h) a), ll_sort_idx := 0\<rparr>)
         })"

text \<open>
  The key of a process.  The ratios are computed in double precision; ratio1000
  stands for the conversion of ratio (1000 * x, y) to uint64_t.
\<close>

definition proc_key_compute ::
  "(u64 \<Rightarrow> u64 \<Rightarrow> u64) \<Rightarrow> node_group \<Rightarrow> sort_key \<Rightarrow> track_proc \<Rightarrow> track_proc option" where
  "proc_key_compute ratio1000 g sortkey p =
     (let sum = \<lambda>u. node_countval_sum g (p_countval_arr p) NODE_ALL u;
          quot = \<lambda>u v. do { x \<leftarrow> sum u; y \<leftarrow> sum v; Some (p\<lparr>p_key := ratio1000 x y\<rparr>) };
          val = \<lambda>u. do { x \<leftarrow> sum u; Some (p\<lparr>p_key := x\<rparr>) }
      in case sortkey of
           SORT_KEY_CPU \<Rightarrow> val UI_COUNT_CLK
         | SORT_KEY_PID \<Rightarrow> Some (p\<lparr>p_key := word_of_int (p_pid p)\<rparr>)
         | SORT_KEY_RPI \<Rightarrow> quot UI_COUNT_RMA UI_COUNT_IR
         | SORT_KEY_LPI \<Rightarrow> quot UI_COUNT_LMA UI_COUNT_IR
         | SORT_KEY_CPI \<Rightarrow> quot UI_COUNT_CLK UI_COUNT_IR
         | SORT_KEY_RMA \<Rightarrow> val UI_COUNT_RMA
         | SORT_KEY_LMA \<Rightarrow> val UI_COUNT_LMA
         | SORT_KEY_RL \<Rightarrow> quot UI_COUNT_RMA UI_COUNT_LMA
         | SORT_KEY_INVALID \<Rightarrow> Some p)"

definition proc_key_visit ::
  "(u64 \<Rightarrow> u64 \<Rightarrow> u64) \<Rightarrow> node_group \<Rightarrow> sort_key \<Rightarrow> addr \<Rightarrow> pstate \<Rightarrow> pstate option" where
  "proc_key_visit r1000 g sortkey a s =
     do {
       p \<leftarrow> ps_procs s a;
       p1 \<leftarrow> proc_key_compute r1000 g sortkey p;
       Some (s\<lparr>ps_procs := (ps_procs s)(a \<mapsto> p1)\<rparr>)
     }"

definition proc_resort ::
  "'a proc_env_scheme \<Rightarrow> (u64 \<Rightarrow> u64 \<Rightarrow> u64) \<Rightarrow> node_group \<Rightarrow> sort_key \<Rightarrow> pstate \<Rightarrow> pstate option" where
  "proc_resort env r1000 g sortkey s =
     do { s1 \<leftarrow> proc_traverse (proc_key_visit r1000 g sortkey) s; proc_sortkey env s1 }"

definition lwp_key_visit :: "node_group \<Rightarrow> sort_key \<Rightarrow> addr \<Rightarrow> track_lwp heap \<Rightarrow> track_lwp heap option" where
  "lwp_key_visit g sortkey a h = do { l \<leftarrow> h a; l1 \<leftarrow> lwp_key_compute g sortkey l; Some (h(a \<mapsto> l1)) }"

definition proc_lwp_resort :: "'a proc_env_scheme \<Rightarrow> node_group \<Rightarrow> sort_key \<Rightarrow> addr \<Rightarrow> pstate \<Rightarrow> pstate option" where
  "proc_lwp_resort env g sortkey a s =
     do {
       p \<leftarrow> ps_procs s a;
       h \<leftarrow> proc_lwp_traverse (lwp_key_visit g sortkey) (p_lwp_list p) (ps_lwps s);
       ll \<leftarrow> proc_lwp_sortkey (pe_sort_ok env) h (p_lwp_list p);
       Some (s\<lparr>ps_lwps := h, ps_procs := (ps_procs s)(a \<mapsto> p\<lparr>p_lwp_list := ll\<rparr>)\<rparr>)
     }"

text \<open>proc_lwp_find: binary search for a thread by id, and a reference to it.\<close>

definition lwp_id_cmp :: "track_lwp heap \<Rightarrow> int \<Rightarrow> ptr \<Rightarrow> int option" where
  "lwp_id_cmp h lwpid p = do { a \<leftarrow> p; l \<leftarrow> h a; Some (int_cmp lwpid (l_id l)) }"

definition proc_lwp_find :: "proc_lwplist \<Rightarrow> int \<Rightarrow> track_lwp heap \<Rightarrow> (track_lwp heap \<times> ptr) option" where
  "proc_lwp_find ll lwpid h =
     do {
       arr \<leftarrow> (case ll_id_arr ll of
                 None \<Rightarrow> if ll_nlwps ll = 0 then Some [] else None
               | Some arr \<Rightarrow> if ll_nlwps ll \<le> int (length arr) then Some (take (nat (ll_nlwps ll)) arr) else None);
       r \<leftarrow> bsearch (lwp_id_cmp h lwpid) arr;
       (case r of
          None \<Rightarrow> Some (h, None)
        | Some j \<Rightarrow>
            do {
              a \<leftarrow> arr ! j;
              (h1, ret) \<leftarrow> lwp_refcount_inc a h;
              Some (h1, if ret \<noteq> 0 then None else Some a)
            })
     }"

definition proc_lwp_count :: "pstate \<Rightarrow> int \<times> int" where
  "proc_lwp_count s = (pg_nprocs (ps_group s), pg_nlwps (ps_group s))"

definition proc_countval_update ::
  "bool \<Rightarrow> int \<Rightarrow> int \<Rightarrow> perf_count_id \<Rightarrow> u64 \<Rightarrow> track_proc \<Rightarrow> (track_proc \<times> int) option" where
  "proc_countval_update realloc_ok node_max cpu i v p =
     (case countval_grow realloc_ok node_max cpu (p_cpuid_max p) (p_countval_arr p) of
        None \<Rightarrow> Some (p, -1)
      | Some (arr, m) \<Rightarrow>
          do {
            arr1 \<leftarrow> countval_add arr cpu i v;
            Some (p\<lparr>p_countval_arr := arr1, p_cpuid_max := m\<rparr>, 0)
          })"

definition proc_intval_get :: "track_proc \<Rightarrow> int" where
  "proc_intval_get p = p_intval_ms p"

definition upd_lwp :: "(track_lwp \<Rightarrow> track_lwp) \<Rightarrow> addr \<Rightarrow> track_lwp heap \<Rightarrow> track_lwp heap option" where
  "upd_lwp f a h = do { l \<leftarrow> h a; Some (h(a \<mapsto> f l)) }"

definition lwp_intval_update :: "int \<Rightarrow> proc_lwplist \<Rightarrow> track_lwp heap \<Rightarrow> track_lwp heap option" where
  "lwp_intval_update intval_ms ll h = proc_lwp_traverse (upd_lwp (intval_update intval_ms)) ll h"

definition proc_intval_visit :: "int \<Rightarrow> addr \<Rightarrow> pstate \<Rightarrow> pstate option" where
  "proc_intval_visit intval_ms a s =
     do {
       p \<leftarrow> ps_procs s a;
       h \<leftarrow> lwp_intval_update intval_ms (p_lwp_list p) (ps_lwps s);
       Some (s\<lparr>ps_procs := (ps_procs s)(a \<mapsto> p\<lparr>p_intval_ms := intval_ms\<rparr>), ps_lwps := h\<rparr>)
     }"

definition proc_intval_update :: "int \<Rightarrow> pstate \<Rightarrow> pstate option" where
  "proc_intval_update intval_ms s = proc_traverse (proc_intval_visit intval_ms) s"

definition profiling_clear :: "addr \<Rightarrow> pstate \<Rightarrow> pstate option" where
  "profiling_clear a s =
     do {
       p \<leftarrow> ps_procs s a;
       h \<leftarrow> proc_lwp_traverse
              (upd_lwp (\<lambda>l. l\<lparr>l_countval_arr := replicate (length (l_countval_arr l)) (\<lambda>_. 0)\<rparr>)) (p_lwp_list p) (ps_lwps s);
       Some (s\<lparr>ps_procs := (ps_procs s)(a \<mapsto> p\<lparr>p_countval_arr := replicate (length (p_countval_arr p)) (\<lambda>_. 0)\<rparr>),
              ps_lwps := h\<rparr>)
     }"

definition proc_profiling_clear :: "pstate \<Rightarrow> pstate option" where
  "proc_profiling_clear s = proc_traverse profiling_clear s"

text \<open>proc_group_fini frees every process it reaches, and the sorted array.\<close>

definition proc_group_fini :: "pstate \<Rightarrow> pstate option" where
  "proc_group_fini s =
     (if \<not> pg_inited (ps_group s) then Some s
      else do { s1 \<leftarrow> proc_traverse proc_free s; Some (upd_group (\<lambda>g. g\<lparr>pg_sort_arr := None\<rparr>) s1) })"

end
