(* ===== verification/ProcTab.thy ===== *)
theory ProcTab
  imports Proc
begin

text \<open>
  The correctness of the process table of proc.c: the invariant of the hash
  table, what every operation does to it, and the refresh from /proc.
\<close>

section \<open>The chains as lists of addresses\<close>

interpretation hl: dnodes p_hash_next p_hash_prev
  "\<lambda>q p. p\<lparr>p_hash_next := q\<rparr>" "\<lambda>q p. p\<lparr>p_hash_prev := q\<rparr>"
  by unfold_locales simp_all

abbreviation chain :: "track_proc heap \<Rightarrow> addr list \<Rightarrow> bool" where
  "chain h xs \<equiv> dseg p_hash_next p_hash_prev h None xs None"

definition chains_ok :: "pstate \<Rightarrow> addr list list \<Rightarrow> bool" where
  "chains_ok s chs \<longleftrightarrow>
     length chs = PROC_HASHTBL_SIZE \<and> pg_hashtbl (ps_group s) = map (\<lambda>c. firstp c None) chs \<and>
     (\<forall>c \<in> set chs. chain (ps_procs s) c) \<and> distinct (concat chs)"

text \<open>A process without its links, and heaps that differ in links only.\<close>

definition pay :: "track_proc \<Rightarrow> track_proc" where
  "pay p = p\<lparr>p_hash_prev := None, p_hash_next := None\<rparr>"

definition same_pay :: "track_proc heap \<Rightarrow> track_proc heap \<Rightarrow> addr \<Rightarrow> bool" where
  "same_pay h h1 a \<longleftrightarrow> map_option pay (h1 a) = map_option pay (h a)"

lemma pay_eqD:
  "pay p = pay q \<Longrightarrow> p_pid p = p_pid q \<and> p_removing p = p_removing q \<and> p_ref_count p = p_ref_count q \<and>
     p_lwp_list p = p_lwp_list q \<and> p_countval_arr p = p_countval_arr q \<and> p_name p = p_name q"
  by (cases p, cases q) (simp add: pay_def)

lemma pay_simps [simp]:
  "pay (p\<lparr>p_hash_next := q\<rparr>) = pay p" "pay (p\<lparr>p_hash_prev := q\<rparr>) = pay p"
  by (simp_all add: pay_def)

lemma same_pay_refl [simp]: "same_pay h h a"
  by (simp add: same_pay_def)

lemma same_pay_trans: "same_pay h h1 a \<Longrightarrow> same_pay h1 h2 a \<Longrightarrow> same_pay h h2 a"
  by (simp add: same_pay_def)

lemma same_pay_Some:
  assumes "same_pay h h1 a" "h a = Some p"
  obtains q where "h1 a = Some q" "pay q = pay p"
  using assms by (auto simp: same_pay_def)

lemma same_pay_upd: "h b = Some p \<Longrightarrow> pay q = pay p \<Longrightarrow> same_pay h (h(b \<mapsto> q)) a"
  by (simp add: same_pay_def)

lemma same_pay_dom: "(\<And>a. same_pay h h1 a) \<Longrightarrow> dom h1 = dom h"
proof -
  assume s: "\<And>a. same_pay h h1 a"
  have "h1 a = None \<longleftrightarrow> h a = None" for a
    using s [of a] by (metis map_option_is_None same_pay_def)
  then show ?thesis unfolding dom_def by simp
qed

lemma chains_ok_head:
  assumes "chains_ok s (pre @ c # post)"
  shows "arr_get (pg_hashtbl (ps_group s)) (int (length pre)) = Some (firstp c None)"
    "arr_set (pg_hashtbl (ps_group s)) (int (length pre)) r
       = Some (map (\<lambda>c. firstp c None) pre @ r # map (\<lambda>c. firstp c None) post)"
  using assms by (simp_all add: chains_ok_def nth_append list_update_append)

text \<open>The other chains do not contain the nodes of a chain.\<close>

lemma chains_ok_other:
  assumes "distinct (concat (pre @ c # post))" "c1 \<in> set (pre @ post)" "a \<in> set c"
  shows "a \<notin> set c1"
proof
  assume a: "a \<in> set c1"
  have "distinct (concat pre @ c @ concat post)" using assms(1) by simp
  then have "set (concat pre) \<inter> set c = {}" "set c \<inter> set (concat post) = {}"
    unfolding distinct_append set_append by blast+
  then have "a \<notin> set (concat pre)" "a \<notin> set (concat post)"
    using assms(3) by (meson disjoint_iff)+
  then show False using a assms(2) by auto
qed

lemma chain_distinct:
  assumes "chains_ok s chs" "c \<in> set chs" shows "distinct c"
proof -
  obtain pre post where "chs = pre @ c # post" using split_list [OF assms(2)] by blast
  then show ?thesis using assms(1) by (simp add: chains_ok_def)
qed

section \<open>Adding and removing\<close>

lemma proc_group_remove_ok:
  assumes ok: "chains_ok s (pre @ (xs @ a # ys) # post)"
    and pa: "ps_procs s a = Some p" "PROC_HASHTBL_INDEX (p_pid p) = int (length pre)"
  obtains s1 where "proc_group_remove a s = Some s1" "chains_ok s1 (pre @ (xs @ ys) # post)"
    "\<And>b. same_pay (ps_procs s) (ps_procs s1) b" "ps_lwps s1 = ps_lwps s"
    "pg_nprocs (ps_group s1) = pg_nprocs (ps_group s) - 1"
    "pg_latest (ps_group s1) = (if pg_latest (ps_group s) = Some a then None else pg_latest (ps_group s))"
proof -
  let ?h = "ps_procs s" and ?c = "xs @ a # ys"
  define h1 where "h1 = (if xs = [] then ?h else ?h(last xs \<mapsto> (the (?h (last xs)))\<lparr>p_hash_next := firstp ys None\<rparr>))"
  define h2 where "h2 = (case ys of [] \<Rightarrow> h1 | c # _ \<Rightarrow> h1(c \<mapsto> (the (h1 c))\<lparr>p_hash_prev := lastp None xs\<rparr>))"
  have ch: "chain ?h ?c" and dcc: "distinct (concat (pre @ ?c # post))"
    using ok by (simp_all add: chains_ok_def)
  have dist: "distinct ?c" by (rule chain_distinct [OF ok]) simp
  obtain n where n: "?h a = Some n" "p_hash_prev n = lastp None xs" "p_hash_next n = firstp ys None"
    by (rule dseg_node [OF ch])
  then have links: "p_hash_prev p = lastp None xs" "p_hash_next p = firstp ys None" using pa by simp_all
  have dom: "set ?c \<subseteq> dom ?h" by (rule dseg_dom [OF ch])
  have last: "?h (last xs) \<noteq> None" if "xs \<noteq> []"
  proof -
    have "last xs \<in> set ?c" using that by simp
    then show ?thesis using dom by blast
  qed
  have hd: "ys = c # zs \<Longrightarrow> ?h c \<noteq> None" for c zs using dom by auto
  have p1: "same_pay ?h h1 b" for b
    using last by (cases "?h (last xs)") (auto simp: h1_def same_pay_def)
  have h1c: "ys = c # zs \<Longrightarrow> h1 c \<noteq> None" for c zs
    using hd [of c zs] p1 [of c] by (auto simp: same_pay_def)
  have p2: "same_pay ?h h2 b" for b
  proof (cases ys)
    case (Cons c zs)
    then obtain q where "h1 c = Some q" using h1c by blast
    then have "same_pay h1 h2 b" using Cons by (auto simp: h2_def intro!: same_pay_upd)
    then show ?thesis by (rule same_pay_trans [OF p1])
  qed (simp add: h2_def p1)
  have seg: "chain h2 (xs @ ys)"
    by (rule hl.unlink [OF ch dist h1_def]) (simp add: h2_def split: list.splits)
  have other: "h2 b = ?h b" if "b \<notin> set ?c" for b
    using that by (auto simp: h2_def h1_def split: list.splits)
  define s2 where "s2 = s\<lparr>ps_procs := h2, ps_group := (ps_group s)\<lparr>
     pg_hashtbl := map (\<lambda>c. firstp c None) (pre @ (xs @ ys) # post),
     pg_nprocs := pg_nprocs (ps_group s) - 1,
     pg_latest := (if pg_latest (ps_group s) = Some a then None else pg_latest (ps_group s))\<rparr>\<rparr>"
  have tbl: "pg_hashtbl (ps_group s) = map (\<lambda>c. firstp c None) (pre @ ?c # post)"
    using ok by (simp add: chains_ok_def)
  have run: "proc_group_remove a s = Some s2"
  proof (cases xs rule: rev_cases)
    case Nil
    then show ?thesis
      using pa links chains_ok_head(2) [OF ok] h1c
      by (cases ys) (auto simp: proc_group_remove_def upd_proc_def s2_def h2_def h1_def)
  next
    case (snoc zs b)
    then have "firstp (xs @ ys) None = firstp ?c None" by (simp add: firstp_append)
    then show ?thesis
      using pa links last h1c tbl snoc
      by (cases ys) (auto simp: proc_group_remove_def upd_proc_def s2_def h2_def h1_def)
  qed
  have "chains_ok s2 (pre @ (xs @ ys) # post)"
    unfolding chains_ok_def
  proof (intro conjI ballI)
    fix c assume "c \<in> set (pre @ (xs @ ys) # post)"
    then consider "c = xs @ ys" | "c \<in> set (pre @ post)" by auto
    then show "chain (ps_procs s2) c"
    proof cases
      case 2
      then have "chain ?h c" using ok by (auto simp: chains_ok_def)
      moreover have "h2 b = ?h b" if "b \<in> set c" for b
        by (rule other) (use chains_ok_other [OF dcc 2] that in blast)
      then have "chain h2 c = chain ?h c" by (rule dseg_cong)
      ultimately show ?thesis by (simp add: s2_def)
    qed (simp add: s2_def seg)
  qed (use ok in \<open>auto simp: chains_ok_def s2_def\<close>)
  then show ?thesis
    by (rule that [OF run]) (simp_all add: s2_def p2)
qed


lemma proc_group_add_ok:
  assumes ok: "chains_ok s (pre @ c # post)"
    and pa: "ps_procs s a = Some p" "PROC_HASHTBL_INDEX (p_pid p) = int (length pre)"
    and new: "a \<notin> set (concat (pre @ c # post))"
  obtains s1 where "proc_group_add a s = Some s1" "chains_ok s1 (pre @ (a # c) # post)"
    "\<And>b. same_pay (ps_procs s) (ps_procs s1) b" "ps_lwps s1 = ps_lwps s"
    "pg_nprocs (ps_group s1) = pg_nprocs (ps_group s) + 1"
    "pg_latest (ps_group s1) = pg_latest (ps_group s)"
proof -
  let ?h = "ps_procs s"
  have ch: "chain ?h c" and dcc: "distinct (concat (pre @ c # post))"
    using ok by (simp_all add: chains_ok_def)
  have dist: "distinct c" by (rule chain_distinct [OF ok]) simp
  have ac: "a \<notin> set c" using new by simp
  define h1 where "h1 = (case c of [] \<Rightarrow> ?h | b # _ \<Rightarrow> ?h(b \<mapsto> (the (?h b))\<lparr>p_hash_prev := Some a\<rparr>))"
  define h2 where "h2 = h1(a \<mapsto> p\<lparr>p_hash_next := firstp c None, p_hash_prev := None\<rparr>)"
  have hd: "c = b # bs \<Longrightarrow> ?h b \<noteq> None" for b bs using dseg_dom [OF ch] by auto
  have h1a: "h1 a = Some p" using pa ac by (cases c) (simp_all add: h1_def)
  have p1: "same_pay ?h h1 b" for b
    using hd by (cases c) (auto simp: h1_def same_pay_def)
  have p2: "same_pay ?h h2 b" for b
    using h1a by (intro same_pay_trans [OF p1]) (auto simp: h2_def same_pay_def)
  have seg: "chain h2 (a # c)"
    using ch dist ac hd by (cases c) (auto simp: h2_def h1_def split: option.splits)
  have other: "h2 b = ?h b" if "b \<notin> set (a # c)" for b
    using that by (auto simp: h2_def h1_def split: list.splits)
  define s2 where "s2 = s\<lparr>ps_procs := h2, ps_group := (ps_group s)\<lparr>
     pg_hashtbl := map (\<lambda>c. firstp c None) (pre @ (a # c) # post),
     pg_nprocs := pg_nprocs (ps_group s) + 1\<rparr>\<rparr>"
  have tbl: "pg_hashtbl (ps_group s) = map (\<lambda>c. firstp c None) (pre @ c # post)"
    using ok by (simp add: chains_ok_def)
  have run: "proc_group_add a s = Some s2"
    using pa tbl h1a hd
    by (cases c) (auto simp: proc_group_add_def upd_proc_def s2_def h2_def h1_def nth_append list_update_append)
  have "chains_ok s2 (pre @ (a # c) # post)"
    unfolding chains_ok_def
  proof (intro conjI ballI)
    fix d assume "d \<in> set (pre @ (a # c) # post)"
    then consider "d = a # c" | "d \<in> set (pre @ post)" by auto
    then show "chain (ps_procs s2) d"
    proof cases
      case 2
      then have "chain ?h d" using ok by (auto simp: chains_ok_def)
      moreover have "h2 b = ?h b" if "b \<in> set d" for b
        by (rule other) (use chains_ok_other [OF dcc 2] new 2 that in auto)
      then have "chain h2 d = chain ?h d" by (rule dseg_cong)
      ultimately show ?thesis by (simp add: s2_def)
    next
      case 1
      then show ?thesis using seg by (simp add: s2_def del: dseg.simps)
    qed
  qed (use ok new in \<open>auto simp: chains_ok_def s2_def\<close>)
  then show ?thesis
    by (rule that [OF run]) (simp_all add: s2_def p2)
qed

section \<open>Walking the table\<close>

lemma walk_None [simp]: "walk f nxt None s = Some s"
  by (subst walk.simps) simp

lemma walk_Some: "walk f nxt (Some a) s = do { q \<leftarrow> nxt s a; s1 \<leftarrow> f a s; walk f nxt q s1 }"
  by (subst walk.simps) simp

lemma chain_find_None [simp]: "chain_find h pid None = Some None"
  by (subst chain_find.simps) simp

lemma chain_find_Some:
  "chain_find h pid (Some a)
     = do { r \<leftarrow> h a; if p_pid r = pid then Some (Some a) else chain_find h pid (p_hash_next r) }"
  by (subst chain_find.simps) simp

text \<open>Running f on the addresses of a list, one after the other.\<close>

fun visits :: "(addr \<Rightarrow> 's \<Rightarrow> 's option) \<Rightarrow> addr list \<Rightarrow> 's \<Rightarrow> 's option" where
  "visits f [] s = Some s"
| "visits f (a # as) s = do { s1 \<leftarrow> f a s; visits f as s1 }"

lemma visits_append: "visits f (xs @ ys) s = do { s1 \<leftarrow> visits f xs s; visits f ys s1 }"
  by (induction xs arbitrary: s) (auto split: bind_splits)

lemma lwps_walk_visits: "lwps_walk f (map Some as) s = visits f as s"
  by (induction as arbitrary: s) (auto split: bind_splits)

text \<open>The links of the nodes that are still to come must not change under f.\<close>

lemma walk_visits:
  assumes "J s" "\<And>a s s1. J s \<Longrightarrow> a \<in> set c \<Longrightarrow> f a s = Some s1 \<Longrightarrow> J s1"
    and "\<And>s. J s \<Longrightarrow> dseg nx pv (hp s) p c None" "\<And>s a. nxt s a = map_option nx (hp s a)"
  shows "walk f nxt (firstp c None) s = visits f c s"
  using assms(1,2,3)
proof (induction c arbitrary: s p)
  case (Cons a c)
  have "dseg nx pv (hp s) p (a # c) None" by (rule Cons.prems(3) [OF Cons.prems(1)])
  then have nx: "nxt s a = Some (firstp c None)" by (simp add: assms(4) split: option.splits)
  have "walk f nxt (firstp c None) s1 = visits f c s1" if "f a s = Some s1" for s1
  proof (rule Cons.IH [where p = "Some a"])
    show "J s1" by (rule Cons.prems(2) [OF Cons.prems(1) _ that]) simp
    show "dseg nx pv (hp s) (Some a) c None" if "J s" for s
      using Cons.prems(3) [OF that] by (simp split: option.splits)
    show "J s'" if "J s" "b \<in> set c" "f b s = Some s'" for b s s'
      by (rule Cons.prems(2) [OF that(1) _ that(3)]) (simp add: that(2))
  qed
  then show ?case by (cases "f a s") (simp_all add: walk_Some nx)
qed simp

lemma table_walk_visits:
  assumes "J s" "\<And>a s s1. J s \<Longrightarrow> a \<in> set (concat chs) \<Longrightarrow> f a s = Some s1 \<Longrightarrow> J s1"
    and "\<And>s. J s \<Longrightarrow> chains_ok s chs \<and> pg_nprocs (ps_group s) = int (length (concat chs))"
    and "chs = pre @ post" "j = length (concat pre)"
  shows "table_walk f (length pre) (length post) s j = visits f (concat post) s"
  using assms(1,4,5)
proof (induction post arbitrary: pre s j)
  case step: (Cons c post)
  let ?g = "\<lambda>a (s, j). do { s1 \<leftarrow> f a s; Some (s1, j + 1 :: nat) }"
  have cnt: "visits ?g xs (s, k) = map_option (\<lambda>s1. (s1, k + length xs)) (visits f xs s)" for xs s k
    by (induction xs arbitrary: s k) (auto split: bind_splits)
  have ok: "chains_ok s (pre @ c # post)" using assms(3) [OF step.prems(1)] step.prems(2) by simp
  have w: "walk ?g (\<lambda>(s, _). hash_next s) (firstp c None) (s, j) = visits ?g c (s, j)"
  proof (rule walk_visits [where J = "\<lambda>(s, _). J s" and hp = "\<lambda>(s, _). ps_procs s" and p = None])
    show "case sj1 of (s, _) \<Rightarrow> J s"
      if "case sj of (s, _) \<Rightarrow> J s" "a \<in> set c" "?g a sj = Some sj1" for a sj sj1
    proof -
      note h = that
      obtain t k where sj: "sj = (t, k)" by (cases sj)
      then obtain t1 where "f a t = Some t1" "sj1 = (t1, k + 1)" using h(3) by (auto split: bind_splits)
      then show ?thesis using assms(2) [of t a t1] h(1,2) sj step.prems(2) by simp
    qed
    show "dseg p_hash_next p_hash_prev (case sj of (s, _) \<Rightarrow> ps_procs s) None c None"
      if "case sj of (s, _) \<Rightarrow> J s" for sj
      using that assms(3) step.prems(2) by (auto simp: chains_ok_def)
  qed (use step.prems(1) in \<open>auto simp: hash_next_def\<close>)
  have w2: "walk ?g (\<lambda>(s, _). hash_next s) (firstp c None) (s, j)
      = map_option (\<lambda>s1. (s1, j + length c)) (visits f c s)"
    by (simp only: w cnt)
  have inv1: "J s1" if "visits f c s = Some s1" for s1
  proof -
    have "J s1" if "visits f xs s = Some s1" "set xs \<subseteq> set c" "J s" for xs s
      using that
    proof (induction xs arbitrary: s)
      case (Cons x xs)
      then obtain s2 where s2: "f x s = Some s2" "visits f xs s2 = Some s1" by (auto split: bind_splits)
      have "J s2" by (rule assms(2) [OF Cons.prems(3) _ s2(1)]) (use Cons.prems(2) step.prems(2) in auto)
      then show ?case using Cons.IH s2(2) Cons.prems(2) by simp
    qed simp
    then show ?thesis using that step.prems(1) by blast
  qed
  show ?case
  proof (cases "visits f c s")
    case None
    then show ?thesis using chains_ok_head(1) [OF ok] w2 by (simp add: visits_append)
  next
    case (Some s1)
    note i1 = inv1 [OF Some]
    have n: "pg_nprocs (ps_group s1) = int (length (concat chs))" using assms(3) [OF i1] by blast
    have IH: "table_walk f (length (pre @ [c])) (length post) s1 (length (concat (pre @ [c])))
        = visits f (concat post) s1"
      by (rule step.IH [OF i1]) (use step.prems in simp_all)
    have "int (j + length c) = pg_nprocs (ps_group s1) \<Longrightarrow> visits f (concat post) s1 = Some s1"
    proof -
      assume "int (j + length c) = pg_nprocs (ps_group s1)"
      then have "concat post = []" using n step.prems(2,3) by simp
      then show ?thesis by (simp only: visits.simps)
    qed
    then show ?thesis
      using chains_ok_head(1) [OF ok] w2 Some IH step.prems(3)
      by (auto simp: visits_append)
  qed
qed simp

lemma proc_traverse_visits:
  assumes "J s" "\<And>a s s1. J s \<Longrightarrow> a \<in> set (concat chs) \<Longrightarrow> f a s = Some s1 \<Longrightarrow> J s1"
    and "\<And>s. J s \<Longrightarrow> chains_ok s chs \<and> pg_nprocs (ps_group s) = int (length (concat chs))"
  shows "proc_traverse f s = visits f (concat chs) s"
proof -
  have "length chs = PROC_HASHTBL_SIZE" using assms(3) [OF assms(1)] by (simp add: chains_ok_def)
  moreover have "table_walk f (length ([] :: addr list list)) (length chs) s 0 = visits f (concat chs) s"
    by (rule table_walk_visits [where J = J and chs = chs])
      (fact assms(1), (rule assms(2); assumption), (rule assms(3); assumption), simp_all)
  ultimately show ?thesis by (simp add: proc_traverse_def)
qed


section \<open>A well-formed table\<close>

definition lwps_of :: "track_proc \<Rightarrow> addr list" where
  "lwps_of p = (case ll_id_arr (p_lwp_list p) of None \<Rightarrow> [] | Some arr \<Rightarrow> map the arr)"

definition proc_ok :: "track_proc heap \<Rightarrow> track_lwp heap \<Rightarrow> nat \<Rightarrow> addr \<Rightarrow> bool" where
  "proc_ok h lh i a \<longleftrightarrow> (\<exists>p. h a = Some p \<and> PROC_HASHTBL_INDEX (p_pid p) = int i \<and> \<not> p_removing p \<and>
     lwplist_ok a (p_lwp_list p) lh (lwps_of p))"

abbreviation pid_at :: "track_proc heap \<Rightarrow> addr \<Rightarrow> int" where
  "pid_at h a \<equiv> p_pid (the (h a))"

definition tbl_ok :: "pstate \<Rightarrow> addr list list \<Rightarrow> bool" where
  "tbl_ok s chs \<longleftrightarrow> chains_ok s chs \<and>
     (\<forall>i < PROC_HASHTBL_SIZE. \<forall>a \<in> set (chs ! i). proc_ok (ps_procs s) (ps_lwps s) i a) \<and>
     distinct (map (pid_at (ps_procs s)) (concat chs)) \<and>
     set_option (pg_latest (ps_group s)) \<subseteq> set (concat chs) \<and>
     finite (dom (ps_procs s)) \<and> finite (dom (ps_lwps s))"

lemma pid_index:
  "0 \<le> pid \<Longrightarrow> PROC_HASHTBL_INDEX pid = int (nat pid mod 128)"
  "0 \<le> pid \<Longrightarrow> nat pid mod 128 < PROC_HASHTBL_SIZE"
  by (simp_all add: PROC_HASHTBL_INDEX_def PROC_HASHTBL_SIZE_def smod_nonneg zmod_int)

lemma tbl_ok_split:
  assumes "tbl_ok s chs" "i < PROC_HASHTBL_SIZE"
  obtains pre c post where "chs = pre @ c # post" "i = length pre" "c = chs ! i"
proof -
  have "i < length chs" using assms by (simp add: tbl_ok_def chains_ok_def)
  then show ?thesis by (intro that [OF id_take_nth_drop]) simp_all
qed

lemma tbl_ok_proc:
  assumes "tbl_ok s (pre @ c # post)" "a \<in> set c"
  shows "proc_ok (ps_procs s) (ps_lwps s) (length pre) a"
proof -
  have "length pre < PROC_HASHTBL_SIZE" using assms(1) by (auto simp: tbl_ok_def chains_ok_def)
  then show ?thesis using assms unfolding tbl_ok_def by (metis nth_append_length)
qed

lemma tbl_ok_member:
  assumes "tbl_ok s chs" "a \<in> set (concat chs)"
  obtains pre c post where "chs = pre @ c # post" "a \<in> set c"
    "proc_ok (ps_procs s) (ps_lwps s) (length pre) a"
proof -
  obtain c where "c \<in> set chs" "a \<in> set c" using assms(2) by auto
  then show ?thesis using that assms(1) tbl_ok_proc by (metis split_list)
qed

text \<open>The process with a pid.\<close>

definition proc_at :: "track_proc heap \<Rightarrow> addr list list \<Rightarrow> int \<Rightarrow> addr option" where
  "proc_at h chs pid = List.find (\<lambda>a. pid_at h a = pid) (concat chs)"

lemma proc_at_Some: "proc_at h chs pid = Some a \<Longrightarrow> a \<in> set (concat chs) \<and> pid_at h a = pid"
  unfolding proc_at_def find_Some_iff by (metis nth_mem)

lemma proc_at_None: "proc_at h chs pid = None \<longleftrightarrow> pid \<notin> pid_at h ` set (concat chs)"
  unfolding proc_at_def find_None_iff by auto

lemma proc_at_unique:
  assumes "distinct (map (pid_at h) (concat chs))" "a \<in> set (concat chs)" "pid_at h a = pid"
  shows "proc_at h chs pid = Some a"
proof -
  obtain b where "proc_at h chs pid = Some b" using assms proc_at_None [of h chs pid] by blast
  then show ?thesis
    using proc_at_Some [of h chs pid b] assms unfolding distinct_map inj_on_def by metis
qed

lemma chain_find_result:
  assumes "chain h c" shows "chain_find h pid (firstp c None) = Some (List.find (\<lambda>a. pid_at h a = pid) c)"
proof -
  have "chain_find h pid (firstp c None) = Some (List.find (\<lambda>a. pid_at h a = pid) c)"
    if "dseg p_hash_next p_hash_prev h p c None" for p
    using that by (induction c arbitrary: p) (auto simp: chain_find_Some split: option.splits)
  then show ?thesis using assms by blast
qed

lemma proc_lookup_result:
  assumes ok: "tbl_ok s chs" and pid: "0 \<le> pid"
  shows "proc_lookup pid s = Some (proc_at (ps_procs s) chs pid)"
proof -
  let ?h = "ps_procs s"
  obtain pre c post where chs: "chs = pre @ c # post" "nat pid mod 128 = length pre"
    by (rule tbl_ok_split [OF ok pid_index(2) [OF pid]])
  have cok: "chains_ok s (pre @ c # post)" and dp: "distinct (map (pid_at ?h) (concat chs))"
    using ok chs(1) by (simp_all add: tbl_ok_def)
  have chain: "chain ?h c" using cok by (simp add: chains_ok_def)
  have at: "List.find (\<lambda>a. pid_at ?h a = pid) c = proc_at ?h chs pid"
  proof (cases "proc_at ?h chs pid")
    case None
    then have "List.find (\<lambda>a. pid_at ?h a = pid) c = None"
      unfolding proc_at_None find_None_iff chs(1) by auto
    then show ?thesis using None by simp
  next
    case (Some a)
    note a = proc_at_Some [OF Some]
    obtain pre1 c1 post1 where c1: "chs = pre1 @ c1 # post1" "a \<in> set c1" "proc_ok ?h (ps_lwps s) (length pre1) a"
      by (rule tbl_ok_member [OF ok conjunct1 [OF a]])
    obtain p where "?h a = Some p" "PROC_HASHTBL_INDEX (p_pid p) = int (length pre1)"
      using c1(3) unfolding proc_ok_def by blast
    then have "int (length pre1) = int (length pre)" using a pid_index(1) [OF pid] chs(2) by simp
    then have "a \<in> set c" using c1(1,2) chs(1) by simp
    then obtain b where b: "List.find (\<lambda>a. pid_at ?h a = pid) c = Some b"
      using a by (metis (mono_tags, lifting) find_None_iff not_None_eq)
    then have "b \<in> set c" "pid_at ?h b = pid" unfolding find_Some_iff by auto
    then have "proc_at ?h chs pid = Some b" using chs(1) by (intro proc_at_unique [OF dp]) simp_all
    then show ?thesis using b by simp
  qed
  have scan: "do { p \<leftarrow> arr_get (pg_hashtbl (ps_group s)) (PROC_HASHTBL_INDEX pid); chain_find ?h pid p }
      = Some (proc_at ?h chs pid)"
    using chains_ok_head(1) [OF cok] chain_find_result [OF chain] at pid_index(1) [OF pid] chs(2) by simp
  show ?thesis
  proof (cases "pg_latest (ps_group s)")
    case None
    then show ?thesis using scan by (simp add: proc_lookup_def)
  next
    case (Some a)
    then have a: "a \<in> set (concat chs)" using ok by (simp add: tbl_ok_def)
    then obtain p where p: "?h a = Some p" by (rule tbl_ok_member [OF ok]) (auto simp: proc_ok_def)
    show ?thesis
    proof (cases "p_pid p = pid")
      case True
      then have "proc_at ?h chs pid = Some a" using p a by (intro proc_at_unique [OF dp]) simp_all
      then show ?thesis using Some p True by (simp add: proc_lookup_def)
    next
      case False
      then show ?thesis using Some p scan by (simp add: proc_lookup_def)
    qed
  qed
qed

text \<open>Updating a process without touching its links, pid, removing flag and threads.\<close>

lemma tbl_ok_upd:
  assumes ok: "tbl_ok s chs" and a: "ps_procs s a = Some p"
    and q: "p_hash_next q = p_hash_next p" "p_hash_prev q = p_hash_prev p" "p_pid q = p_pid p"
      "p_removing q = p_removing p" "p_lwp_list q = p_lwp_list p"
    and l: "set_option (pg_latest g) \<subseteq> set (concat chs)" "pg_hashtbl g = pg_hashtbl (ps_group s)"
  shows "tbl_ok (s\<lparr>ps_procs := (ps_procs s)(a \<mapsto> q), ps_group := g\<rparr>) chs"
proof -
  let ?h = "ps_procs s" and ?h1 = "(ps_procs s)(a \<mapsto> q)"
  have seg: "chain ?h1 c = chain ?h c" if "c \<in> set chs" for c
  proof (rule dseg_links)
    fix b assume "b \<in> set c"
    moreover have "chain ?h c" using ok that by (simp add: tbl_ok_def chains_ok_def)
    ultimately have "b \<in> dom ?h" using dseg_dom by blast
    then show "\<exists>n n'. ?h b = Some n \<and> ?h1 b = Some n' \<and> p_hash_next n' = p_hash_next n \<and> p_hash_prev n' = p_hash_prev n"
      using a q by auto
  qed
  have pid: "pid_at ?h1 b = pid_at ?h b" for b using a q by simp
  have pok: "proc_ok ?h1 (ps_lwps s) i b = proc_ok ?h (ps_lwps s) i b" for i b
    using a q by (auto simp: proc_ok_def lwps_of_def)
  have "chains_ok (s\<lparr>ps_procs := ?h1, ps_group := g\<rparr>) chs"
    using ok seg l(2) unfolding tbl_ok_def chains_ok_def by simp
  moreover have "distinct (map (pid_at ?h1) (concat chs))"
    using ok pid unfolding tbl_ok_def by presburger
  moreover have "\<forall>i < PROC_HASHTBL_SIZE. \<forall>b \<in> set (chs ! i). proc_ok ?h1 (ps_lwps s) i b"
    using ok pok unfolding tbl_ok_def by blast
  moreover have "finite (dom ?h1)" "finite (dom (ps_lwps s))" using ok by (simp_all add: tbl_ok_def)
  ultimately show ?thesis using l(1) by (simp add: tbl_ok_def)
qed

end
