(* ===== verification/ProcRef.thy ===== *)
theory ProcRef
  imports ProcTab
begin

text \<open>
  The refresh of the process table from /proc: proc_group_refresh removes the
  processes that are gone, adds the new ones and brings the threads of every
  process up to date.
\<close>

section \<open>Frames\<close>

text \<open>The process at an address and the threads that belong to it are as before.\<close>

definition keeps :: "pstate \<Rightarrow> pstate \<Rightarrow> addr \<Rightarrow> bool" where
  "keeps s s1 a \<longleftrightarrow> same_pay (ps_procs s) (ps_procs s1) a \<and>
     (\<forall>x l. ps_lwps s x = Some l \<longrightarrow> l_proc l = Some a \<longrightarrow> ps_lwps s1 x = Some l)"

lemma keeps_refl [simp, c_frame]: "keeps s s a"
  by (simp add: keeps_def)

lemma keeps_trans: "keeps s s1 a \<Longrightarrow> keeps s1 s2 a \<Longrightarrow> keeps s s2 a"
  unfolding keeps_def using same_pay_trans by blast

lemma keeps_pid: "keeps s s1 a \<Longrightarrow> ps_procs s a = Some p \<Longrightarrow> pid_at (ps_procs s1) a = p_pid p"
  by (auto simp: keeps_def elim!: same_pay_Some dest!: pay_eqD)

lemma keeps_proc_ok:
  assumes k: "keeps s s1 a" and ok: "proc_ok (ps_procs s) (ps_lwps s) i a"
  shows "proc_ok (ps_procs s1) (ps_lwps s1) i a"
proof -
  obtain p where p: "ps_procs s a = Some p" "PROC_HASHTBL_INDEX (p_pid p) = int i" "\<not> p_removing p"
    "lwplist_ok a (p_lwp_list p) (ps_lwps s) (lwps_of p)"
    using ok by (auto simp: proc_ok_def)
  obtain q where q: "ps_procs s1 a = Some q" "pay q = pay p"
    using k p(1) by (auto simp: keeps_def elim: same_pay_Some)
  note e = pay_eqD [OF q(2)]
  have same: "ps_lwps s1 x = ps_lwps s x" if "x \<in> set (lwps_of p)" for x
    using p(4) k that unfolding lwplist_ok_def lwps_live_def keeps_def by metis
  have "lwps_of q = lwps_of p" using e by (simp add: lwps_of_def)
  moreover have "lwplist_ok a (p_lwp_list p) (ps_lwps s1) (lwps_of p)"
    using p(4) lwps_live_cong [of "lwps_of p" "ps_lwps s1" "ps_lwps s" a] same by (simp add: lwplist_ok_def)
  ultimately show ?thesis using q(1) e p by (simp add: proc_ok_def)
qed

section \<open>Dropping a process\<close>

definition lwp_release :: "track_lwp \<Rightarrow> track_lwp option" where
  "lwp_release l = (if l_ref_count l > 0 then Some (l\<lparr>l_removing := True\<rparr>) else None)"

lemma free_visits:
  assumes "lwps_live a h as"
  shows "visits lwp_free_walk as h = Some (\<lambda>x. if x \<in> set as then lwp_release (the (h x)) else h x)"
  using assms
proof (induction as arbitrary: h)
  case (Cons x xs)
  obtain l where l: "h x = Some l" using Cons.prems by (auto simp: lwps_live_def)
  let ?h1 = "h(x := lwp_release l)"
  have f: "lwp_free_walk x h = Some ?h1"
    using l by (simp add: lwp_free_walk_def lwp_free_live lwp_release_def)
  have x: "x \<notin> set xs" using Cons.prems by (simp add: lwps_live_def)
  then have "lwps_live a ?h1 xs = lwps_live a h xs" by (intro lwps_live_cong) auto
  moreover have "lwps_live a h xs" using Cons.prems by (auto simp: lwps_live_def lwp_ids_def)
  ultimately have "lwps_live a ?h1 xs" by blast
  then have "visits lwp_free_walk xs ?h1
      = Some (\<lambda>y. if y \<in> set xs then lwp_release (the (?h1 y)) else ?h1 y)"
    by (rule Cons.IH)
  moreover have "(\<lambda>y. if y \<in> set xs then lwp_release (the (?h1 y)) else ?h1 y)
      = (\<lambda>y. if y \<in> set (x # xs) then lwp_release (the (h y)) else h y)"
    using x l by (auto simp: fun_eq_iff)
  ultimately show ?case using f by simp
qed simp

lemma traverse_visits:
  assumes "lwplist_ok a ll h as"
  shows "proc_lwp_traverse f ll s = visits f as s"
  using assms by (auto simp: proc_lwp_traverse_def lwplist_ok_def lwps_walk_visits split: option.splits)

text \<open>What is left of a process that was dropped: nothing, or a marked object that is still referenced.\<close>

definition gone_proc :: "track_proc heap \<Rightarrow> track_proc heap \<Rightarrow> addr \<Rightarrow> bool" where
  "gone_proc h h1 a \<longleftrightarrow>
     (if p_ref_count (the (h a)) > 0
      then map_option pay (h1 a) = Some (pay ((the (h a))\<lparr>p_removing := True\<rparr>))
      else h1 a = None)"

lemma gone_proc_keeps:
  assumes "gone_proc h (ps_procs s1) a" "keeps s1 s2 a" shows "gone_proc h (ps_procs s2) a"
  using assms by (auto simp: gone_proc_def keeps_def same_pay_def)

lemma gone_proc_start:
  assumes "keeps s s1 a" "ps_procs s a = Some p" "gone_proc (ps_procs s1) h a"
  shows "gone_proc (ps_procs s) h a"
proof -
  obtain q where q: "ps_procs s1 a = Some q" "pay q = pay p"
    using assms(1,2) by (auto simp: keeps_def elim: same_pay_Some)
  have "pay (q\<lparr>p_removing := True\<rparr>) = pay (p\<lparr>p_removing := True\<rparr>)"
    using q(2) by (cases p, cases q) (simp add: pay_def)
  then show ?thesis using assms q pay_eqD [OF q(2)] by (simp add: gone_proc_def)
qed

lemma proc_free_ok:
  assumes p: "ps_procs s a = Some p" and ll: "lwplist_ok a (p_lwp_list p) (ps_lwps s) (lwps_of p)"
  obtains s1 where "proc_free a s = Some s1" "gone_proc (ps_procs s) (ps_procs s1) a"
    "\<And>b. b \<noteq> a \<Longrightarrow> keeps s s1 b" "\<And>b. b \<noteq> a \<Longrightarrow> ps_procs s1 b = ps_procs s b"
    "pg_hashtbl (ps_group s1) = pg_hashtbl (ps_group s)" "pg_latest (ps_group s1) = pg_latest (ps_group s)"
    "dom (ps_procs s1) \<subseteq> dom (ps_procs s)" "dom (ps_lwps s1) \<subseteq> dom (ps_lwps s)"
proof (cases "p_ref_count p > 0")
  case True
  show ?thesis
    by (rule that [of "s\<lparr>ps_procs := (ps_procs s)(a \<mapsto> p\<lparr>p_removing := True\<rparr>)\<rparr>"])
      (use p True in \<open>auto simp: proc_free_def gone_proc_def keeps_def same_pay_def\<close>)
next
  case False
  let ?as = "lwps_of p"
  have live: "lwps_live a (ps_lwps s) ?as" using ll by (simp add: lwplist_ok_def)
  let ?lh = "\<lambda>x. if x \<in> set ?as then lwp_release (the (ps_lwps s x)) else ps_lwps s x"
  let ?g = "ps_group s"
  let ?s1 = "s\<lparr>ps_lwps := ?lh, ps_procs := (ps_procs s)(a := None),
     ps_group := ?g\<lparr>pg_nprocs := pg_nprocs ?g - 1, pg_nlwps := pg_nlwps ?g - ll_nlwps (p_lwp_list p)\<rparr>\<rparr>"
  have own: "l_proc l = Some a" if "x \<in> set ?as" "ps_lwps s x = Some l" for x l
    using live that by (auto simp: lwps_live_def)
  have dom: "x \<in> set ?as \<Longrightarrow> ps_lwps s x \<noteq> None" for x using live by (auto simp: lwps_live_def)
  have run: "proc_free a s = Some ?s1"
    using p False by (simp add: proc_free_def traverse_visits [OF ll] free_visits [OF live] Let_def)
  have "keeps s ?s1 b" if "b \<noteq> a" for b
    using that own by (auto simp: keeps_def same_pay_def)
  moreover have "dom ?lh \<subseteq> dom (ps_lwps s)" using dom by (auto split: if_splits)
  ultimately show ?thesis
    by (intro that [OF run]) (use p False in \<open>auto simp: gone_proc_def\<close>)
qed


lemma proc_drop_ok:
  assumes ok: "tbl_ok s (pre @ (xs @ a # ys) # post)"
  obtains s1 s2 where "proc_group_remove a s = Some s1" "proc_free a s1 = Some s2"
    "tbl_ok s2 (pre @ (xs @ ys) # post)" "gone_proc (ps_procs s) (ps_procs s2) a"
    "\<And>b. b \<noteq> a \<Longrightarrow> keeps s s2 b"
proof -
  let ?chs = "pre @ (xs @ ys) # post"
  have cok: "chains_ok s (pre @ (xs @ a # ys) # post)" using ok by (simp add: tbl_ok_def)
  have pok: "proc_ok (ps_procs s) (ps_lwps s) (length pre) a" by (rule tbl_ok_proc [OF ok]) simp
  then obtain p where p: "ps_procs s a = Some p" "PROC_HASHTBL_INDEX (p_pid p) = int (length pre)"
    unfolding proc_ok_def by blast
  obtain s1 where s1: "proc_group_remove a s = Some s1" "chains_ok s1 ?chs"
    "\<And>b. same_pay (ps_procs s) (ps_procs s1) b" "ps_lwps s1 = ps_lwps s"
    "pg_nprocs (ps_group s1) = pg_nprocs (ps_group s) - 1"
    "pg_latest (ps_group s1) = (if pg_latest (ps_group s) = Some a then None else pg_latest (ps_group s))"
    by (rule proc_group_remove_ok [OF cok p]) blast
  have k1: "keeps s s1 b" for b using s1(3,4) by (simp add: keeps_def)
  obtain q where q: "ps_procs s1 a = Some q" "lwplist_ok a (p_lwp_list q) (ps_lwps s1) (lwps_of q)"
    using keeps_proc_ok [OF k1 pok] by (auto simp: proc_ok_def)
  obtain s2 where s2: "proc_free a s1 = Some s2" "gone_proc (ps_procs s1) (ps_procs s2) a"
    "\<And>b. b \<noteq> a \<Longrightarrow> keeps s1 s2 b" "\<And>b. b \<noteq> a \<Longrightarrow> ps_procs s2 b = ps_procs s1 b"
    "pg_hashtbl (ps_group s2) = pg_hashtbl (ps_group s1)" "pg_latest (ps_group s2) = pg_latest (ps_group s1)"
    "dom (ps_procs s2) \<subseteq> dom (ps_procs s1)" "dom (ps_lwps s2) \<subseteq> dom (ps_lwps s1)"
    by (rule proc_free_ok [OF q]) blast
  have k2: "keeps s s2 b" if "b \<noteq> a" for b by (rule keeps_trans [OF k1 s2(3) [OF that]])
  have dist: "distinct (concat (pre @ (xs @ a # ys) # post))" using cok by (simp add: chains_ok_def)
  then have na: "a \<notin> set (concat ?chs)" by auto
  have "chain (ps_procs s2) c" if "c \<in> set ?chs" for c
  proof -
    have "ps_procs s2 b = ps_procs s1 b" if "b \<in> set c" for b
      by (rule s2(4)) (use na that \<open>c \<in> set ?chs\<close> in auto)
    then have "chain (ps_procs s2) c = chain (ps_procs s1) c" by (rule dseg_cong)
    then show ?thesis using s1(2) that unfolding chains_ok_def by blast
  qed
  then have c2: "chains_ok s2 ?chs" using s1(2) s2(5) unfolding chains_ok_def by simp
  have sub: "set (concat ?chs) \<subseteq> set (concat (pre @ (xs @ a # ys) # post))" by auto
  have pk: "proc_ok (ps_procs s2) (ps_lwps s2) i b" if "i < PROC_HASHTBL_SIZE" "b \<in> set (?chs ! i)" for i b
  proof -
    have "i < length ?chs" using that(1) c2 by (simp add: chains_ok_def)
    then have "b \<in> set (concat ?chs)" using that(2) nth_mem [of i ?chs] by auto
    then have "b \<noteq> a" using na by blast
    moreover have "b \<in> set ((pre @ (xs @ a # ys) # post) ! i)"
      using that(2) by (auto simp: nth_append nth_Cons' split: if_splits)
    then have "proc_ok (ps_procs s) (ps_lwps s) i b" using ok that(1) unfolding tbl_ok_def by blast
    ultimately show ?thesis using keeps_proc_ok [OF k2] by blast
  qed
  have pid: "pid_at (ps_procs s2) b = pid_at (ps_procs s) b" if "b \<in> set (concat ?chs)" for b
  proof -
    have "b \<in> set (concat (pre @ (xs @ a # ys) # post))" using that sub by blast
    then obtain r where "ps_procs s b = Some r" by (rule tbl_ok_member [OF ok]) (auto simp: proc_ok_def)
    moreover have "b \<noteq> a" using that na by blast
    ultimately show ?thesis using keeps_pid [OF k2] by simp
  qed
  have "distinct (map (pid_at (ps_procs s)) (concat ?chs))"
    using ok by (simp add: tbl_ok_def)
  moreover have "map (pid_at (ps_procs s2)) (concat ?chs) = map (pid_at (ps_procs s)) (concat ?chs)"
    using pid by (intro map_cong refl)
  ultimately have d2: "distinct (map (pid_at (ps_procs s2)) (concat ?chs))" by metis
  have l2: "set_option (pg_latest (ps_group s2)) \<subseteq> set (concat ?chs)"
    using ok s1(6) s2(6) by (auto simp: tbl_ok_def split: if_splits)
  have "dom (ps_procs s1) = dom (ps_procs s)" by (rule same_pay_dom [OF s1(3)])
  then have "finite (dom (ps_procs s2))" "finite (dom (ps_lwps s2))"
    using ok s2(7,8) s1(4) by (auto simp: tbl_ok_def intro: finite_subset)
  then have "tbl_ok s2 ?chs" using c2 pk d2 l2 unfolding tbl_ok_def by blast
  moreover have "gone_proc (ps_procs s) (ps_procs s2) a" by (rule gone_proc_start [OF k1 p(1) s2(2)])
  ultimately show ?thesis using s1(1) s2(1) k2 that by blast
qed


section \<open>The first loop: processes that are gone\<close>

lemma pid_find_result:
  assumes "sorted_wrt (<) (is :: int list)"
  obtains (found) j where "pid_find pid is = Some (Some j)" "j < length is" "is ! j = pid" "pid \<in> set is"
    | (absent) "pid_find pid is = Some None" "pid \<notin> set is"
proof -
  have "sorted (map (\<lambda>x. x) is)" using assms by (simp add: strict_sorted_iff)
  then show ?thesis
    by (rule bsearch_correct [where k = pid and cmp = "\<lambda>x. Some (int_cmp pid x)"])
      (use found absent in \<open>auto simp: pid_find_def int_cmp_sgn\<close>)
qed

definition dropped :: "track_proc heap \<Rightarrow> int list \<Rightarrow> addr list \<Rightarrow> addr set" where
  "dropped h is as = {a \<in> set as. pid_at h a \<notin> set is}"

definition refreshed :: "pstate \<Rightarrow> pstate \<Rightarrow> int list \<Rightarrow> addr list \<Rightarrow> bool" where
  "refreshed s s1 is as \<longleftrightarrow>
     (\<forall>a. a \<notin> dropped (ps_procs s) is as \<longrightarrow> keeps s s1 a) \<and>
     (\<forall>a \<in> dropped (ps_procs s) is as. gone_proc (ps_procs s) (ps_procs s1) a)"

definition marked :: "track_proc heap \<Rightarrow> int list \<Rightarrow> addr list \<Rightarrow> bool list \<Rightarrow> bool list \<Rightarrow> bool" where
  "marked h is as ex ex1 \<longleftrightarrow> length ex1 = length ex \<and>
     (\<forall>j < length is. ex1 ! j = (ex ! j \<or> is ! j \<in> pid_at h ` set as))"

lemma refreshed_Nil: "refreshed s s is []"
  unfolding refreshed_def dropped_def by (intro conjI allI impI) simp_all

lemma refreshed_trans:
  assumes r: "refreshed s s1 is xs" "refreshed s1 s2 is ys"
    and d: "set xs \<inter> set ys = {}" and live: "set ys \<subseteq> dom (ps_procs s)"
  shows "refreshed s s2 is (xs @ ys)"
proof -
  have k: "keeps s s1 a" if "a \<in> set ys" for a
    using r(1) d that unfolding refreshed_def dropped_def by blast
  have dy: "a \<in> dropped (ps_procs s) is ys \<longleftrightarrow> a \<in> dropped (ps_procs s1) is ys" for a
  proof (cases "a \<in> set ys")
    case True
    then obtain p where "ps_procs s a = Some p" using live by blast
    then show ?thesis using True keeps_pid [OF k [OF True]] by (simp add: dropped_def)
  qed (simp add: dropped_def)
  have un: "dropped (ps_procs s) is (xs @ ys) = dropped (ps_procs s) is xs \<union> dropped (ps_procs s) is ys"
    by (auto simp: dropped_def)
  show ?thesis
    unfolding refreshed_def un
  proof (intro conjI allI impI ballI)
    fix a assume "a \<notin> dropped (ps_procs s) is xs \<union> dropped (ps_procs s) is ys"
    then have "keeps s s1 a" "keeps s1 s2 a" using r dy unfolding refreshed_def by blast+
    then show "keeps s s2 a" by (rule keeps_trans)
  next
    fix a assume "a \<in> dropped (ps_procs s) is xs \<union> dropped (ps_procs s) is ys"
    then consider "a \<in> dropped (ps_procs s) is xs" "a \<notin> dropped (ps_procs s1) is ys"
      | "a \<in> dropped (ps_procs s1) is ys" "a \<in> set ys"
      using dy d unfolding dropped_def by blast
    then show "gone_proc (ps_procs s) (ps_procs s2) a"
    proof cases
      case 1
      then have "gone_proc (ps_procs s) (ps_procs s1) a" "keeps s1 s2 a"
        using r unfolding refreshed_def by blast+
      then show ?thesis by (rule gone_proc_keeps)
    next
      case 2
      then have "gone_proc (ps_procs s1) (ps_procs s2) a" using r(2) unfolding refreshed_def by blast
      moreover obtain p where "ps_procs s a = Some p" using 2 live by blast
      ultimately show ?thesis by (intro gone_proc_start [OF k [OF 2(2)]])
    qed
  qed
qed

lemma pids_keep:
  assumes "\<And>a. a \<in> set as \<Longrightarrow> keeps s s1 a" "set as \<subseteq> dom (ps_procs s)" "a \<in> set as"
  shows "pid_at (ps_procs s1) a = pid_at (ps_procs s) a"
proof -
  obtain p where "ps_procs s a = Some p" using assms(2,3) by blast
  then show ?thesis using keeps_pid [OF assms(1) [OF assms(3)]] by simp
qed

lemma tbl_ok_live: "tbl_ok s chs \<Longrightarrow> a \<in> set (concat chs) \<Longrightarrow> a \<in> dom (ps_procs s)"
  by (rule tbl_ok_member [of s chs a]) (auto simp: proc_ok_def)

lemma tbl_ok_next:
  assumes "tbl_ok s (pre @ (xs @ a # ys) # post)" shows "hash_next s a = Some (firstp ys None)"
proof -
  have "chain (ps_procs s) (xs @ a # ys)" using assms by (simp add: tbl_ok_def chains_ok_def)
  then show ?thesis by (rule dseg_node) (simp add: hash_next_def)
qed

lemma refresh_walk:
  assumes "sorted_wrt (<) (is :: int list)" "length ex = length is"
    and "tbl_ok s (pre @ (kept @ todo) # post)"
  shows "\<exists>s1 ex1. walk (refresh_visit is) (\<lambda>(s, _). hash_next s) (firstp todo None) (s, ex) = Some (s1, ex1) \<and>
     tbl_ok s1 (pre @ (kept @ filter (\<lambda>a. pid_at (ps_procs s) a \<in> set is) todo) # post) \<and>
     refreshed s s1 is todo \<and> marked (ps_procs s) is todo ex ex1"
  using assms(2,3)
proof (induction todo arbitrary: kept s ex)
  case Nil
  have "refreshed s s is []" by (simp add: refreshed_Nil)
  then show ?case using Nil by (simp add: marked_def)
next
  case (Cons a todo)
  note ok = Cons.prems(2)
  have nxt: "hash_next s a = Some (firstp todo None)" by (rule tbl_ok_next [OF ok])
  have live: "set (a # todo) \<subseteq> dom (ps_procs s)" using tbl_ok_live [OF ok] by auto
  then obtain p where p: "ps_procs s a = Some p" by auto
  have dist: "a \<notin> set todo" using ok by (auto simp: tbl_ok_def chains_ok_def)
  from assms(1) show ?case
  proof (cases rule: pid_find_result [of "is" "p_pid p"])
    case (found j)
    have ok1: "tbl_ok s (pre @ ((kept @ [a]) @ todo) # post)" using ok by simp
    obtain s1 ex1 where w: "walk (refresh_visit is) (\<lambda>(s, _). hash_next s) (firstp todo None) (s, ex[j := True]) = Some (s1, ex1)"
      and t: "tbl_ok s1 (pre @ ((kept @ [a]) @ filter (\<lambda>a. pid_at (ps_procs s) a \<in> set is) todo) # post)"
      and r: "refreshed s s1 is todo" and m: "marked (ps_procs s) is todo (ex[j := True]) ex1"
      using Cons.IH [OF _ ok1, of "ex[j := True]"] Cons.prems(1) by auto
    have v: "refresh_visit is a (s, ex) = Some (s, ex[j := True])"
      using p found Cons.prems(1) by (simp add: refresh_visit_def)
    have "dropped (ps_procs s) is (a # todo) = dropped (ps_procs s) is todo"
      using p found by (auto simp: dropped_def)
    then have "refreshed s s1 is (a # todo)" using r by (simp add: refreshed_def)
    moreover have "marked (ps_procs s) is (a # todo) ex ex1"
      using m p found Cons.prems(1) by (auto simp: marked_def nth_list_update)
        (metis assms(1) nth_eq_iff_index_eq strict_sorted_iff)+
    ultimately show ?thesis using w t v nxt p found by (simp add: walk_Some)
  next
    case absent
    obtain s1 s2 where d: "proc_group_remove a s = Some s1" "proc_free a s1 = Some s2"
      "tbl_ok s2 (pre @ (kept @ todo) # post)" "gone_proc (ps_procs s) (ps_procs s2) a"
      "\<And>b. b \<noteq> a \<Longrightarrow> keeps s s2 b"
      by (rule proc_drop_ok [OF ok]) blast
    have pids: "pid_at (ps_procs s2) b = pid_at (ps_procs s) b" if "b \<in> set todo" for b
      using pids_keep [of todo s s2 b] d(5) dist live that by (metis set_subset_Cons subset_trans)
    obtain s3 ex1 where w: "walk (refresh_visit is) (\<lambda>(s, _). hash_next s) (firstp todo None) (s2, ex) = Some (s3, ex1)"
      and t: "tbl_ok s3 (pre @ (kept @ filter (\<lambda>a. pid_at (ps_procs s2) a \<in> set is) todo) # post)"
      and r: "refreshed s2 s3 is todo" and m: "marked (ps_procs s2) is todo ex ex1"
      using Cons.IH [OF Cons.prems(1) d(3)] by blast
    have v: "refresh_visit is a (s, ex) = Some (s2, ex)"
      using p absent d(1,2) by (simp add: refresh_visit_def)
    have f: "filter (\<lambda>a. pid_at (ps_procs s2) a \<in> set is) todo = filter (\<lambda>a. pid_at (ps_procs s) a \<in> set is) (a # todo)"
      using pids p absent by (auto cong: filter_cong)
    have da: "dropped (ps_procs s) is [a] = {a}" using p absent by (auto simp: dropped_def)
    have "refreshed s s2 is [a]" unfolding refreshed_def da using d(4,5) by blast
    then have "refreshed s s3 is ([a] @ todo)"
      by (rule refreshed_trans [OF _ r]) (use dist live in auto)
    moreover have "marked (ps_procs s) is (a # todo) ex ex1"
    proof -
      have "pid_at (ps_procs s2) ` set todo = pid_at (ps_procs s) ` set todo" using pids by (intro image_cong) auto
      then show ?thesis using m p absent nth_mem by (fastforce simp: marked_def)
    qed
    ultimately show ?thesis using w t f v nxt by (simp add: walk_Some)
  qed
qed


lemma refresh_chains_ok:
  assumes "sorted_wrt (<) (is :: int list)" "length ex = length is" "tbl_ok s (pre @ post)"
  shows "\<exists>s1 ex1. refresh_chains is (length pre) (length post) (s, ex) = Some (s1, ex1) \<and>
     tbl_ok s1 (pre @ map (filter (\<lambda>a. pid_at (ps_procs s) a \<in> set is)) post) \<and>
     refreshed s s1 is (concat post) \<and> marked (ps_procs s) is (concat post) ex ex1"
  using assms(2,3)
proof (induction post arbitrary: pre s ex)
  case Nil
  then show ?case using refreshed_Nil by (simp add: marked_def)
next
  case (Cons c post)
  let ?P = "\<lambda>s a. pid_at (ps_procs s) a \<in> set is"
  have ok: "tbl_ok s (pre @ ([] @ c) # post)" using Cons.prems(2) by simp
  obtain s1 ex1 where w: "walk (refresh_visit is) (\<lambda>(s, _). hash_next s) (firstp c None) (s, ex) = Some (s1, ex1)"
    and t: "tbl_ok s1 (pre @ ([] @ filter (?P s) c) # post)"
    and r: "refreshed s s1 is c" and m: "marked (ps_procs s) is c ex ex1"
    using refresh_walk [OF assms(1) Cons.prems(1) ok] by blast
  have len: "length ex1 = length is" using m Cons.prems(1) by (simp add: marked_def)
  have t': "tbl_ok s1 ((pre @ [filter (?P s) c]) @ post)" using t by simp
  obtain s2 ex2 where w2: "refresh_chains is (length (pre @ [filter (?P s) c])) (length post) (s1, ex1) = Some (s2, ex2)"
    and t2: "tbl_ok s2 ((pre @ [filter (?P s) c]) @ map (filter (?P s1)) post)"
    and r2: "refreshed s1 s2 is (concat post)" and m2: "marked (ps_procs s1) is (concat post) ex1 ex2"
    using Cons.IH [OF len t'] by blast
  have "distinct (concat (pre @ c # post))" using Cons.prems(2) by (simp add: tbl_ok_def chains_ok_def)
  then have dist: "set c \<inter> set (concat post) = {}" by auto
  have live: "set (concat post) \<subseteq> dom (ps_procs s)" using tbl_ok_live [OF Cons.prems(2)] by auto
  have k: "keeps s s1 a" if "a \<in> set (concat post)" for a
    using r dist that unfolding refreshed_def dropped_def by blast
  note pids = pids_keep [OF k live]
  have f: "map (filter (?P s1)) post = map (filter (?P s)) post"
  proof (intro map_cong refl filter_cong)
    fix d a assume "d \<in> set post" "a \<in> set d"
    then have "a \<in> set (concat post)" by auto
    then show "?P s1 a = ?P s a" using pids by simp
  qed
  have "refreshed s s2 is (c @ concat post)" by (rule refreshed_trans [OF r r2 dist live])
  moreover have "marked (ps_procs s) is (c @ concat post) ex ex2"
  proof -
    have "pid_at (ps_procs s1) ` set (concat post) = pid_at (ps_procs s) ` set (concat post)"
      using pids by (intro image_cong refl)
    then show ?thesis using m m2 by (simp add: marked_def image_Un)
  qed
  moreover have "arr_get (pg_hashtbl (ps_group s)) (int (length pre)) = Some (firstp c None)"
    by (rule chains_ok_head(1) [of s pre c post]) (use Cons.prems(2) in \<open>simp only: tbl_ok_def\<close>)
  ultimately show ?case using w w2 t2 f by simp
qed

section \<open>The second loop: new processes\<close>

definition proc_fresh :: "'a proc_env_scheme \<Rightarrow> int \<Rightarrow> track_proc" where
  "proc_fresh env pid = proc_zero\<lparr>p_countval_arr := replicate (nat (le_cpuid_max env)) (\<lambda>_. 0),
     p_cpuid_max := le_cpuid_max env, p_inited := True, p_pid := pid, p_name := pe_pname env pid\<rparr>"

lemma proc_fresh_simps [simp]:
  "p_pid (proc_fresh env pid) = pid" "\<not> p_removing (proc_fresh env pid)"
  "p_lwp_list (proc_fresh env pid) = lwplist_zero" "p_ref_count (proc_fresh env pid) = 0"
  by (simp_all add: proc_fresh_def proc_zero_def)

lemma lwps_of_zero [simp]: "p_lwp_list p = lwplist_zero \<Longrightarrow> lwps_of p = []"
  by (simp add: lwps_of_def lwplist_zero_def)

lemma lwplist_ok_zero [simp]: "lwplist_ok a lwplist_zero h []"
  by (simp add: lwplist_ok_def lwplist_zero_def lwps_live_def lwp_ids_def)

definition proc_created :: "'a proc_env_scheme \<Rightarrow> pstate \<Rightarrow> pstate \<Rightarrow> addr \<Rightarrow> bool" where
  "proc_created env s s1 a \<longleftrightarrow> ps_procs s a = None \<and>
     (\<exists>p. ps_procs s1 a = Some p \<and> pay p = pay (proc_fresh env (p_pid p)))"

lemma proc_new_ok:
  assumes env: "proc_malloc_fresh env" "proc_malloc_total env"
    and ok: "tbl_ok s chs" and pid: "0 \<le> pid" "pid \<notin> pid_at (ps_procs s) ` set (concat chs)"
  obtains a s1 s2 s3 chs1 where "proc_alloc env pid s = (Some a, s1)"
    "upd_proc a (\<lambda>p. p\<lparr>p_pid := pid, p_name := pe_pname env pid\<rparr>) s1 = Some s2"
    "proc_group_add a s2 = Some s3" "tbl_ok s3 chs1" "set (concat chs1) = insert a (set (concat chs))"
    "ps_procs s a = None" "map_option pay (ps_procs s3 a) = Some (pay (proc_fresh env pid))"
    "ps_lwps s3 = ps_lwps s" "\<forall>b. b \<noteq> a \<longrightarrow> keeps s s3 b"
proof -
  obtain a where m: "pe_proc_malloc env pid (ps_procs s) = Some a"
    using env(2) ok unfolding proc_malloc_total_def tbl_ok_def by (meson not_None_eq)
  then have new: "ps_procs s a = None" using env(1) ok unfolding proc_malloc_fresh_def tbl_ok_def by blast
  define s1 where "s1 = snd (proc_alloc env pid s)"
  have al: "proc_alloc env pid s = (Some a, s1)"
    using m env(2) by (simp add: proc_alloc_def proc_malloc_total_def s1_def)
  define s2 where "s2 = s\<lparr>ps_procs := (ps_procs s)(a \<mapsto> proc_fresh env pid)\<rparr>"
  have up: "upd_proc a (\<lambda>p. p\<lparr>p_pid := pid, p_name := pe_pname env pid\<rparr>) s1 = Some s2"
    using m env(2) by (simp add: s1_def s2_def proc_alloc_def proc_malloc_total_def upd_proc_def proc_fresh_def)
  have na: "a \<notin> set (concat chs)" using tbl_ok_live [OF ok] new by auto
  obtain pre c post where chs: "chs = pre @ c # post" "nat pid mod 128 = length pre"
    by (rule tbl_ok_split [OF ok pid_index(2) [OF pid(1)]])
  have "chain (ps_procs s2) d = chain (ps_procs s) d" if "d \<in> set chs" for d
    using na that by (intro dseg_cong) (auto simp: s2_def)
  then have c2: "chains_ok s2 (pre @ c # post)"
    using ok chs(1) by (simp add: tbl_ok_def chains_ok_def) (simp add: s2_def)
  have p2: "ps_procs s2 a = Some (proc_fresh env pid)" by (simp add: s2_def)
  obtain s3 where s3: "proc_group_add a s2 = Some s3" "chains_ok s3 (pre @ (a # c) # post)"
    "\<And>b. same_pay (ps_procs s2) (ps_procs s3) b" "ps_lwps s3 = ps_lwps s2"
    "pg_nprocs (ps_group s3) = pg_nprocs (ps_group s2) + 1" "pg_latest (ps_group s3) = pg_latest (ps_group s2)"
    by (rule proc_group_add_ok [OF c2 p2]) (use pid_index(1) [OF pid(1)] chs na in simp_all)
  let ?chs = "pre @ (a # c) # post"
  have set: "set (concat ?chs) = insert a (set (concat chs))" using chs(1) by auto
  have keep: "keeps s s3 b" if "b \<noteq> a" for b
    using s3(3) [of b] s3(4) that by (simp add: keeps_def same_pay_def s2_def)
  obtain q where q: "ps_procs s3 a = Some q" "pay q = pay (proc_fresh env pid)"
    by (rule same_pay_Some [OF s3(3) p2])
  note e = pay_eqD [OF q(2)]
  have pk: "proc_ok (ps_procs s3) (ps_lwps s3) i b" if "i < PROC_HASHTBL_SIZE" "b \<in> set (?chs ! i)" for i b
  proof (cases "b = a")
    case True
    have "i = length pre"
    proof (rule ccontr)
      assume "i \<noteq> length pre"
      then have "b \<in> set (chs ! i)" using that(2) chs(1) by (auto simp: nth_append nth_Cons' split: if_splits)
      moreover have "i < length chs" using that(1) ok by (simp add: tbl_ok_def chains_ok_def)
      ultimately show False using na True nth_mem by fastforce
    qed
    then show ?thesis using q e True pid_index(1) [OF pid(1)] chs(2) by (simp add: proc_ok_def)
  next
    case False
    then have "b \<in> set (chs ! i)" using that(2) chs(1) by (auto simp: nth_append nth_Cons' split: if_splits)
    then show ?thesis using ok that(1) keeps_proc_ok [OF keep [OF False]] unfolding tbl_ok_def by blast
  qed
  have pids: "pid_at (ps_procs s3) b = pid_at (ps_procs s) b" if "b \<in> set (concat chs)" for b
  proof (rule pids_keep [of "concat chs"])
    show "keeps s s3 x" if "x \<in> set (concat chs)" for x by (rule keep) (use na that in blast)
    show "set (concat chs) \<subseteq> dom (ps_procs s)" using tbl_ok_live [OF ok] by blast
  qed (fact that)
  have "mset (concat ?chs) = mset (a # concat chs)" using chs(1) by simp
  then have "distinct (map (pid_at (ps_procs s3)) (concat ?chs)) = distinct (map (pid_at (ps_procs s3)) (a # concat chs))"
    by (metis mset_eq_imp_distinct_iff mset_map)
  moreover have "map (pid_at (ps_procs s3)) (concat chs) = map (pid_at (ps_procs s)) (concat chs)"
    using pids by (intro map_cong refl)
  ultimately have d3: "distinct (map (pid_at (ps_procs s3)) (concat ?chs))"
    using ok pid(2) q e pids by (simp add: tbl_ok_def image_iff)
  have "dom (ps_procs s3) = dom (ps_procs s2)" by (rule same_pay_dom [OF s3(3)])
  then have fin: "finite (dom (ps_procs s3))" "finite (dom (ps_lwps s3))"
    using ok s3(4) by (simp_all add: tbl_ok_def s2_def)
  have "set_option (pg_latest (ps_group s3)) \<subseteq> set (concat ?chs)"
    using ok s3(6) set by (auto simp: tbl_ok_def s2_def)
  then have "tbl_ok s3 ?chs" using s3(2) pk d3 fin unfolding tbl_ok_def by blast
  moreover have "map_option pay (ps_procs s3 a) = Some (pay (proc_fresh env pid))" using q by simp
  moreover have "ps_lwps s3 = ps_lwps s" using s3(4) by (simp add: s2_def)
  ultimately show ?thesis using al up s3(1) set new keep that by blast
qed


text \<open>The pids the first loop did not mark.\<close>

definition missing :: "int list \<Rightarrow> bool list \<Rightarrow> int set" where
  "missing pids ex = {pid. (pid, False) \<in> set (zip pids ex)}"

lemma missing_subset: "missing pids ex \<subseteq> set pids"
  by (auto simp: missing_def dest: set_zip_leftD)

lemma missing_marked:
  assumes "marked h is as (replicate (length is) False) ex1"
  shows "missing is ex1 = set is - pid_at h ` set as"
proof -
  have len: "length ex1 = length is" and m: "\<And>j. j < length is \<Longrightarrow> ex1 ! j = (is ! j \<in> pid_at h ` set as)"
    using assms by (simp_all add: marked_def)
  have "pid \<in> missing is ex1 \<longleftrightarrow> (\<exists>j < length is. is ! j = pid \<and> \<not> ex1 ! j)" for pid
    using len by (auto simp: missing_def in_set_zip)
  then have "pid \<in> missing is ex1 \<longleftrightarrow> pid \<in> set is - pid_at h ` set as" for pid
    unfolding in_set_conv_nth Diff_iff using m by metis
  then show ?thesis by blast
qed

lemma refresh_add_ok:
  assumes env: "proc_malloc_fresh env" "proc_malloc_total env"
    and "tbl_ok s chs" "length ex = length pids" "distinct pids" "\<forall>pid \<in> set pids. 0 \<le> pid"
    and "missing pids ex \<inter> pid_at (ps_procs s) ` set (concat chs) = {}"
  shows "\<exists>s1 chs1. refresh_add env pids ex s = Some s1 \<and> tbl_ok s1 chs1 \<and>
     pid_at (ps_procs s1) ` set (concat chs1)
       = pid_at (ps_procs s) ` set (concat chs) \<union> missing pids ex \<and>
     set (concat chs) \<subseteq> set (concat chs1) \<and>
     (\<forall>a. ps_procs s a \<noteq> None \<longrightarrow> keeps s s1 a) \<and>
     (\<forall>a \<in> set (concat chs1) - set (concat chs). proc_created env s s1 a) \<and>
     (\<forall>a. ps_procs s a = None \<longrightarrow> a \<notin> set (concat chs1) \<longrightarrow> ps_procs s1 a = None)"
  using assms(3-7)
proof (induction pids arbitrary: s chs ex)
  case Nil
  then show ?case by (intro exI [of _ s] exI [of _ chs] conjI) (simp_all add: missing_def)
next
  case (Cons pid pids)
  obtain e es where ex: "ex = e # es" using Cons.prems(2) by (cases ex) simp_all
  have rest: "length es = length pids" "distinct pids" "\<forall>pid \<in> set pids. 0 \<le> pid"
    using Cons.prems(2-4) ex by simp_all
  have js: "missing (pid # pids) ex = (if e then {} else {pid}) \<union> missing pids es"
    using ex by (auto simp: missing_def)
  have absent: "missing pids es \<inter> pid_at (ps_procs s) ` set (concat chs) = {}"
    using Cons.prems(5) js by blast
  show ?case
  proof (cases e)
    case True
    then show ?thesis using Cons.IH [OF Cons.prems(1) rest absent] js ex by (simp del: fun_upd_apply)
  next
    case False
    then have p0: "0 \<le> pid" "pid \<notin> pid_at (ps_procs s) ` set (concat chs)"
      using Cons.prems(4,5) js by auto
    obtain a s1 s2 s3 chs3 where st: "proc_alloc env pid s = (Some a, s1)"
      "upd_proc a (\<lambda>p. p\<lparr>p_pid := pid, p_name := pe_pname env pid\<rparr>) s1 = Some s2"
      "proc_group_add a s2 = Some s3"
      and t3: "tbl_ok s3 chs3" and set3: "set (concat chs3) = insert a (set (concat chs))"
      and new: "ps_procs s a = None" and pa: "map_option pay (ps_procs s3 a) = Some (pay (proc_fresh env pid))"
      and lw: "ps_lwps s3 = ps_lwps s" and keep: "\<forall>b. b \<noteq> a \<longrightarrow> keeps s s3 b"
      by (rule proc_new_ok [OF env Cons.prems(1) p0]) blast
    have live: "b \<in> dom (ps_procs s)" if "b \<in> set (concat chs)" for b
      by (rule tbl_ok_live [OF Cons.prems(1) that])
    have na: "a \<notin> set (concat chs)" using live new by auto
    have pids: "pid_at (ps_procs s3) b = pid_at (ps_procs s) b" if "b \<in> set (concat chs)" for b
    proof (rule pids_keep [of "concat chs"])
      show "keeps s s3 x" if "x \<in> set (concat chs)" for x using keep na that by metis
      show "set (concat chs) \<subseteq> dom (ps_procs s)" using live by blast
    qed (fact that)
    obtain q where q: "ps_procs s3 a = Some q" "pay q = pay (proc_fresh env pid)" using pa by auto
    then have pida: "pid_at (ps_procs s3) a = pid" using pay_eqD [OF q(2)] by simp
    have pidset: "pid_at (ps_procs s3) ` set (concat chs3) = insert pid (pid_at (ps_procs s) ` set (concat chs))"
      using set3 pida pids by (metis (no_types, lifting) image_cong image_insert)
    have absent3: "missing pids es \<inter> pid_at (ps_procs s3) ` set (concat chs3) = {}"
      using absent Cons.prems(3) missing_subset [of pids es] unfolding pidset by auto
    obtain s4 chs4 where r: "refresh_add env pids es s3 = Some s4" "tbl_ok s4 chs4"
      "pid_at (ps_procs s4) ` set (concat chs4)
         = pid_at (ps_procs s3) ` set (concat chs3) \<union> missing pids es"
      "set (concat chs3) \<subseteq> set (concat chs4)"
      and k4: "\<forall>a. ps_procs s3 a \<noteq> None \<longrightarrow> keeps s3 s4 a"
      and n4: "\<forall>a \<in> set (concat chs4) - set (concat chs3). proc_created env s3 s4 a"
      and o4: "\<forall>a. ps_procs s3 a = None \<longrightarrow> a \<notin> set (concat chs4) \<longrightarrow> ps_procs s4 a = None"
      using Cons.IH [OF t3 rest absent3] by blast
    have same3: "ps_procs s3 b = None \<longleftrightarrow> ps_procs s b = None" if "b \<noteq> a" for b
      using keep that unfolding keeps_def same_pay_def by (metis map_option_is_None)
    show ?thesis
    proof (intro exI [of _ s4] exI [of _ chs4] conjI allI impI ballI)
      show "refresh_add env (pid # pids) ex s = Some s4" using st r(1) ex False by simp
      show "pid_at (ps_procs s4) ` set (concat chs4) = pid_at (ps_procs s) ` set (concat chs)
         \<union> missing (pid # pids) ex"
        unfolding r(3) pidset js using False by auto
      show "set (concat chs) \<subseteq> set (concat chs4)" using r(4) set3 by blast
      show "keeps s s4 b" if "ps_procs s b \<noteq> None" for b
      proof -
        have "b \<noteq> a" using that new by blast
        then have "keeps s s3 b" "ps_procs s3 b \<noteq> None" using keep same3 that by auto
        moreover have "keeps s3 s4 b" using k4 calculation(2) by blast
        ultimately have "keeps s s3 b" "keeps s3 s4 b" by blast+
        then show ?thesis by (rule keeps_trans)
      qed
      show "proc_created env s s4 b" if "b \<in> set (concat chs4) - set (concat chs)" for b
      proof (cases "b = a")
        case True
        have "keeps s3 s4 a" using k4 q by simp
        then obtain q4 where "ps_procs s4 a = Some q4" "pay q4 = pay q"
          using q(1) by (auto simp: keeps_def elim: same_pay_Some)
        then show ?thesis using True new q(2) pay_eqD [of q4 "proc_fresh env pid"] by (simp add: proc_created_def)
      next
        case False
        then have "proc_created env s3 s4 b" using n4 that set3 by blast
        then show ?thesis using same3 [OF False] by (simp add: proc_created_def)
      qed
      show "ps_procs s4 b = None" if "ps_procs s b = None" "b \<notin> set (concat chs4)" for b
      proof -
        have "b \<noteq> a" using that(2) r(4) set3 by blast
        then show ?thesis using o4 that same3 by blast
      qed
    qed (fact r(2))
  qed
qed


section \<open>The threads of every process\<close>

text \<open>The array of a process shows what /proc last showed of its threads.\<close>

definition lwps_follow :: "'a proc_env_scheme \<Rightarrow> pstate \<Rightarrow> addr \<Rightarrow> bool" where
  "lwps_follow env s a \<longleftrightarrow> (\<forall>p ids. ps_procs s a = Some p \<longrightarrow> le_lwp_enum env (p_pid p) = Some ids \<longrightarrow>
     ids \<noteq> [] \<longrightarrow> le_lwparr_ok env (p_pid p) \<longrightarrow>
       lwp_ids (ps_lwps s) (lwps_of p) = qsort int_cmp ids)"

text \<open>A process that kept its object: only its links and its list of threads may differ.\<close>

definition kept_proc :: "track_proc heap \<Rightarrow> track_proc heap \<Rightarrow> addr \<Rightarrow> bool" where
  "kept_proc h h1 a \<longleftrightarrow> (\<exists>p q. h a = Some p \<and> h1 a = Some q \<and> pay q = pay (p\<lparr>p_lwp_list := p_lwp_list q\<rparr>))"

lemma pay_lwp_list: "pay q = pay p \<Longrightarrow> pay (q\<lparr>p_lwp_list := l\<rparr>) = pay (p\<lparr>p_lwp_list := l\<rparr>)"
  by (cases p, cases q) (simp add: pay_def)

lemma kept_proc_keeps:
  assumes "keeps s s1 a" "ps_procs s a = Some p" shows "kept_proc (ps_procs s) (ps_procs s1) a"
proof -
  obtain q where q: "ps_procs s1 a = Some q" "pay q = pay p"
    using assms by (auto simp: keeps_def elim: same_pay_Some)
  have "pay (p\<lparr>p_lwp_list := p_lwp_list q\<rparr>) = pay p" using pay_eqD [OF q(2)] by simp
  then show ?thesis using assms(2) q by (simp add: kept_proc_def)
qed

lemma kept_proc_trans:
  assumes "kept_proc h h1 a" "kept_proc h1 h2 a" shows "kept_proc h h2 a"
proof -
  obtain p q r where pq: "h a = Some p" "h1 a = Some q" "pay q = pay (p\<lparr>p_lwp_list := p_lwp_list q\<rparr>)"
    and r: "h2 a = Some r" "pay r = pay (q\<lparr>p_lwp_list := p_lwp_list r\<rparr>)"
    using assms by (auto simp: kept_proc_def)
  have "pay r = pay (p\<lparr>p_lwp_list := p_lwp_list r\<rparr>)"
    using r(2) pay_lwp_list [OF pq(3), of "p_lwp_list r"] by simp
  then show ?thesis using pq(1) r(1) by (simp add: kept_proc_def)
qed

lemma kept_proc_pid: "kept_proc h h1 a \<Longrightarrow> pid_at h1 a = pid_at h a"
  by (auto simp: kept_proc_def dest!: pay_eqD)

definition lwp_env_ok :: "'a lwp_env_scheme \<Rightarrow> bool" where
  "lwp_env_ok env \<longleftrightarrow> lwp_malloc_fresh env \<and> lwp_malloc_total env \<and>
     (\<forall>pid ids. le_lwp_enum env pid = Some ids \<longrightarrow> distinct ids)"

lemma finite_merged:
  assumes "merged env proc is as h bs h1" "finite (dom h)" shows "finite (dom h1)"
proof -
  have "dom h1 \<subseteq> dom h \<union> set as \<union> set bs" using assms(1) by (fastforce simp: merged_def)
  then show ?thesis using assms(2) by (meson finite_UnI finite_set finite_subset)
qed

lemma proc_lwp_refresh_ok:
  assumes env: "lwp_env_ok env" and ok: "tbl_ok s chs" and a: "a \<in> set (concat chs)"
  obtains s1 where "proc_lwp_refresh env a s = Some s1" "tbl_ok s1 chs" "ps_group s1 = ps_group s"
    "lwps_follow env s1 a" "kept_proc (ps_procs s) (ps_procs s1) a"
    "\<forall>b. b \<noteq> a \<longrightarrow> keeps s s1 b \<and> ps_procs s1 b = ps_procs s b"
proof -
  obtain pre c post where "chs = pre @ c # post" "a \<in> set c" and
    pok: "proc_ok (ps_procs s) (ps_lwps s) (length pre) a" by (rule tbl_ok_member [OF ok a])
  then obtain p where p: "ps_procs s a = Some p" "PROC_HASHTBL_INDEX (p_pid p) = int (length pre)"
    "\<not> p_removing p" and ll: "lwplist_ok a (p_lwp_list p) (ps_lwps s) (lwps_of p)"
    by (auto simp: proc_ok_def)
  have fin: "finite (dom (ps_lwps s))" using ok by (simp add: tbl_ok_def)
  have e: "lwp_malloc_fresh env" "lwp_malloc_total env"
    "\<And>ids. le_lwp_enum env (p_pid p) = Some ids \<Longrightarrow> distinct ids"
    using env by (simp_all add: lwp_env_ok_def)
  obtain l1 h1 as1 where u: "lwp_enum_update env (p_pid p) a (p_lwp_list p) (ps_lwps s) = Some (l1, h1)"
    and l1: "lwplist_ok a l1 h1 as1" "lwps_of (p\<lparr>p_lwp_list := l1\<rparr>) = as1"
    and foll: "\<And>ids. le_lwp_enum env (p_pid p) = Some ids \<Longrightarrow> ids \<noteq> [] \<Longrightarrow> le_lwparr_ok env (p_pid p) \<Longrightarrow>
        lwp_ids h1 as1 = qsort int_cmp ids"
    and oth: "\<And>x l. ps_lwps s x = Some l \<Longrightarrow> l_proc l \<noteq> Some a \<Longrightarrow> h1 x = Some l"
    and fin1: "finite (dom h1)"
  proof (rule lwp_enum_update_cases [OF e(1,2) ll fin e(3)])
    assume "lwp_enum_update env (p_pid p) a (p_lwp_list p) (ps_lwps s) = Some (p_lwp_list p, ps_lwps s)"
      and "le_lwp_enum env (p_pid p) = None \<or> le_lwp_enum env (p_pid p) = Some [] \<or> \<not> le_lwparr_ok env (p_pid p)"
    then show thesis using ll fin by (intro that [of "p_lwp_list p" "ps_lwps s" "lwps_of p"]) auto
  next
    fix ids bs h1
    assume i: "le_lwp_enum env (p_pid p) = Some ids" "ids \<noteq> []"
      and r: "lwp_enum_update env (p_pid p) a (p_lwp_list p) (ps_lwps s)
         = Some ((p_lwp_list p)\<lparr>ll_id_arr := Some (map Some bs), ll_nlwps := int (length ids)\<rparr>, h1)"
      and m: "merged env a (qsort int_cmp ids) (lwps_of p) (ps_lwps s) bs h1"
    have live: "lwps_live a (ps_lwps s) (lwps_of p)" using ll by (simp add: lwplist_ok_def)
    have "sorted_wrt (<) (map (\<lambda>x. x) (qsort int_cmp ids))"
      by (rule qs.by_key_strict) (use e(3) [OF i(1)] int_cmp_le in simp_all)
    then have srt: "sorted_wrt (<) (qsort int_cmp ids)" by simp
    have lids: "lwp_ids h1 bs = qsort int_cmp ids" using m by (simp add: merged_def)
    then have "length bs = length ids" using qs.length_eq [of int_cmp ids] by (metis length_map lwp_ids_def)
    then have "lwplist_ok a ((p_lwp_list p)\<lparr>ll_id_arr := Some (map Some bs), ll_nlwps := int (length ids)\<rparr>) h1 bs"
      using merged_live [OF m live srt] by (simp add: lwplist_ok_def)
    moreover have "h1 x = Some l" if "ps_lwps s x = Some l" "l_proc l \<noteq> Some a" for x l
    proof -
      have "x \<notin> set (lwps_of p)" using live that by (auto simp: lwps_live_def)
      moreover have "x \<notin> set bs" using merged_origin [OF m, of x] calculation that(1) by auto
      ultimately show ?thesis using m that(1) by (simp add: merged_def)
    qed
    ultimately show thesis
      using r lids i finite_merged [OF m fin]
      by (intro that [OF r, of bs]) (auto simp: lwps_of_def comp_def)
  qed (assumption)
  let ?q = "p\<lparr>p_lwp_list := l1\<rparr>"
  define s1 where "s1 = s\<lparr>ps_procs := (ps_procs s)(a \<mapsto> ?q), ps_lwps := h1\<rparr>"
  have run: "proc_lwp_refresh env a s = Some s1" using p(1) u by (simp add: proc_lwp_refresh_def s1_def)
  have keep: "keeps s s1 b \<and> ps_procs s1 b = ps_procs s b" if "b \<noteq> a" for b
    using that oth by (auto simp: keeps_def same_pay_def s1_def)
  have pk: "proc_ok (ps_procs s1) (ps_lwps s1) i b" if "i < PROC_HASHTBL_SIZE" "b \<in> set (chs ! i)" for i b
  proof -
    have old: "proc_ok (ps_procs s) (ps_lwps s) i b" using ok that unfolding tbl_ok_def by blast
    show ?thesis
    proof (cases "b = a")
      case True
      then show ?thesis using old p l1 by (auto simp: proc_ok_def s1_def lwps_of_def)
    next
      case False
      then show ?thesis using keeps_proc_ok [OF _ old] keep by blast
    qed
  qed
  have seg: "chain (ps_procs s1) d = chain (ps_procs s) d" if "d \<in> set chs" for d
  proof (rule dseg_links)
    fix b assume "b \<in> set d"
    then have "b \<in> dom (ps_procs s)" using tbl_ok_live [OF ok, of b] that by auto
    then show "\<exists>n n'. ps_procs s b = Some n \<and> ps_procs s1 b = Some n' \<and> p_hash_next n' = p_hash_next n \<and> p_hash_prev n' = p_hash_prev n"
      using p(1) by (auto simp: s1_def)
  qed
  have "chains_ok s1 chs" using ok seg unfolding tbl_ok_def chains_ok_def by (simp add: s1_def)
  moreover have "pid_at (ps_procs s1) b = pid_at (ps_procs s) b" for b using p(1) by (simp add: s1_def)
  then have "distinct (map (pid_at (ps_procs s1)) (concat chs))" using ok unfolding tbl_ok_def by presburger
  moreover have "finite (dom (ps_procs s1))" "finite (dom (ps_lwps s1))"
    "set_option (pg_latest (ps_group s1)) \<subseteq> set (concat chs)"
    using ok fin1 by (simp_all add: tbl_ok_def s1_def)
  ultimately have "tbl_ok s1 chs" using pk unfolding tbl_ok_def by blast
  moreover have "lwps_follow env s1 a" using foll l1(2) by (simp add: lwps_follow_def s1_def)
  moreover have "kept_proc (ps_procs s) (ps_procs s1) a" using p(1) by (simp add: kept_proc_def s1_def)
  moreover have "ps_group s1 = ps_group s" by (simp add: s1_def)
  ultimately show ?thesis using run keep that by blast
qed


lemma lwps_follow_keeps:
  assumes "lwps_follow env s a" "keeps s s1 a" "ps_procs s1 a = ps_procs s a"
    and "proc_ok (ps_procs s) (ps_lwps s) i a"
  shows "lwps_follow env s1 a"
proof -
  obtain p where p: "ps_procs s a = Some p" "lwplist_ok a (p_lwp_list p) (ps_lwps s) (lwps_of p)"
    using assms(4) by (auto simp: proc_ok_def)
  have "ps_lwps s1 x = ps_lwps s x" if "x \<in> set (lwps_of p)" for x
    using p(2) assms(2) that unfolding lwplist_ok_def lwps_live_def keeps_def by metis
  then have "lwp_ids (ps_lwps s1) (lwps_of p) = lwp_ids (ps_lwps s) (lwps_of p)" by (simp add: lwp_ids_def)
  then show ?thesis using assms(1,3) p(1) by (simp add: lwps_follow_def)
qed

lemma lwp_refresh_visits:
  assumes env: "lwp_env_ok env" and "tbl_ok s chs" "set as \<subseteq> set (concat chs)" "distinct as"
  shows "\<exists>s1. visits (proc_lwp_refresh env) as s = Some s1 \<and> tbl_ok s1 chs \<and> ps_group s1 = ps_group s \<and>
     (\<forall>a \<in> set as. lwps_follow env s1 a \<and> kept_proc (ps_procs s) (ps_procs s1) a) \<and>
     (\<forall>b. b \<notin> set as \<longrightarrow> keeps s s1 b \<and> ps_procs s1 b = ps_procs s b)"
  using assms(2-4)
proof (induction as arbitrary: s)
  case (Cons a as)
  have a: "a \<in> set (concat chs)" using Cons.prems(2) by auto
  obtain s1 where s1: "proc_lwp_refresh env a s = Some s1" "tbl_ok s1 chs" "ps_group s1 = ps_group s"
    "lwps_follow env s1 a" "kept_proc (ps_procs s) (ps_procs s1) a"
    "\<forall>b. b \<noteq> a \<longrightarrow> keeps s s1 b \<and> ps_procs s1 b = ps_procs s b"
    by (rule proc_lwp_refresh_ok [OF env Cons.prems(1) a])
  obtain s2 where s2: "visits (proc_lwp_refresh env) as s1 = Some s2" "tbl_ok s2 chs" "ps_group s2 = ps_group s1"
    and f2: "\<forall>b \<in> set as. lwps_follow env s2 b \<and> kept_proc (ps_procs s1) (ps_procs s2) b"
    and k2: "\<forall>b. b \<notin> set as \<longrightarrow> keeps s1 s2 b \<and> ps_procs s2 b = ps_procs s1 b"
    using Cons.IH [OF s1(2)] Cons.prems(2,3) by auto
  have na: "a \<notin> set as" using Cons.prems(3) by simp
  show ?case
  proof (intro exI [of _ s2] conjI ballI allI impI)
    show "visits (proc_lwp_refresh env) (a # as) s = Some s2" using s1(1) s2(1) by simp
    fix b assume b: "b \<in> set (a # as)"
    show "lwps_follow env s2 b"
    proof (cases "b \<in> set as")
      case False
      obtain i where "proc_ok (ps_procs s1) (ps_lwps s1) i a" using tbl_ok_member [OF s1(2) a] by metis
      moreover have "b = a" using b False by simp
      ultimately show ?thesis using lwps_follow_keeps [OF s1(4)] k2 na by metis
    qed (use f2 in blast)
    show "kept_proc (ps_procs s) (ps_procs s2) b"
    proof (cases "b = a")
      case True
      then show ?thesis using s1(5) k2 na by (simp add: kept_proc_def)
    next
      case False
      then have "kept_proc (ps_procs s1) (ps_procs s2) b" "ps_procs s1 b = ps_procs s b" using f2 s1(6) b by auto
      then show ?thesis by (simp add: kept_proc_def)
    qed
  next
    fix b assume "b \<notin> set (a # as)"
    then have "keeps s s1 b" "keeps s1 s2 b" "ps_procs s1 b = ps_procs s b" "ps_procs s2 b = ps_procs s1 b"
      using s1(6) k2 by auto
    then show "keeps s s2 b" "ps_procs s2 b = ps_procs s b" using keeps_trans by auto
  qed (use s1(3) s2(2,3) in simp_all)
qed simp

lemma nlwps_sum_visits:
  assumes "set as \<subseteq> dom (ps_procs s)"
  shows "visits proc_nlwps_sum as s = Some (upd_group (\<lambda>g. g\<lparr>pg_nlwps := pg_nlwps g +
     sum_list (map (\<lambda>a. proc_nlwp (the (ps_procs s a))) as)\<rparr>) s)"
  using assms
proof (induction as arbitrary: s)
  case (Cons a as)
  then obtain p where "ps_procs s a = Some p" by auto
  then show ?case using Cons by (simp add: proc_nlwps_sum_def add.assoc)
qed simp

lemma tbl_ok_group:
  assumes "tbl_ok s chs" shows "tbl_ok (upd_group (\<lambda>g. g\<lparr>pg_nprocs := n, pg_nlwps := m\<rparr>) s) chs"
  using assms by (simp add: tbl_ok_def chains_ok_def)

lemma traverse_refresh:
  assumes env: "lwp_env_ok env" and "tbl_ok s chs" "pg_nprocs (ps_group s) = int (length (concat chs))"
  shows "proc_traverse (proc_lwp_refresh env) s = visits (proc_lwp_refresh env) (concat chs) s"
proof (rule proc_traverse_visits [where J = "\<lambda>t. tbl_ok t chs \<and> ps_group t = ps_group s"])
  fix a t t1
  assume t: "tbl_ok t chs \<and> ps_group t = ps_group s" "a \<in> set (concat chs)" "proc_lwp_refresh env a t = Some t1"
  obtain t2 where "proc_lwp_refresh env a t = Some t2" "tbl_ok t2 chs" "ps_group t2 = ps_group t"
    by (rule proc_lwp_refresh_ok [OF env _ t(2)]) (use t(1) in blast)+
  then show "tbl_ok t1 chs \<and> ps_group t1 = ps_group s" using t(1,3) by simp
qed (use assms in \<open>auto simp: tbl_ok_def\<close>)

lemma traverse_sum:
  assumes "tbl_ok s chs" "pg_nprocs (ps_group s) = int (length (concat chs))"
  shows "proc_traverse proc_nlwps_sum s = visits proc_nlwps_sum (concat chs) s"
proof (rule proc_traverse_visits [where J = "\<lambda>t. chains_ok t chs \<and> pg_nprocs (ps_group t) = pg_nprocs (ps_group s)"])
  fix a t t1
  assume "chains_ok t chs \<and> pg_nprocs (ps_group t) = pg_nprocs (ps_group s)" "proc_nlwps_sum a t = Some t1"
  then show "chains_ok t1 chs \<and> pg_nprocs (ps_group t1) = pg_nprocs (ps_group s)"
    by (auto simp: proc_nlwps_sum_def chains_ok_def split: bind_splits)
qed (use assms in \<open>auto simp: tbl_ok_def\<close>)

section \<open>The refresh\<close>

definition gone_after :: "pstate \<Rightarrow> pstate \<Rightarrow> addr list list \<Rightarrow> addr \<Rightarrow> bool" where
  "gone_after s s1 chs1 a \<longleftrightarrow>
     (if p_ref_count (the (ps_procs s a)) > 0
      then a \<notin> set (concat chs1) \<and> map_option p_removing (ps_procs s1 a) = Some True
      else a \<in> set (concat chs1) \<or> ps_procs s1 a = None)"

definition proc_env_ok :: "'a proc_env_scheme \<Rightarrow> bool" where
  "proc_env_ok env \<longleftrightarrow> proc_malloc_fresh env \<and> proc_malloc_total env \<and> pe_exist_ok env \<and> lwp_env_ok env"

text \<open>The two loops over the table.\<close>

lemma refresh_loops:
  assumes env: "proc_env_ok env" and ok: "tbl_ok s chs"
    and pids: "distinct pids" "\<forall>pid \<in> set pids. 0 \<le> pid"
  obtains s1 ex s2 chs2 where
    "refresh_chains (qsort int_cmp pids) 0 PROC_HASHTBL_SIZE (s, replicate (length pids) False) = Some (s1, ex)"
    "refresh_add env (qsort int_cmp pids) ex s1 = Some s2" "tbl_ok s2 chs2"
    "pid_at (ps_procs s2) ` set (concat chs2) = set pids"
    "\<forall>a \<in> set (concat chs). pid_at (ps_procs s) a \<in> set pids \<longrightarrow> a \<in> set (concat chs2) \<and> keeps s s2 a"
    "\<forall>a \<in> set (concat chs). pid_at (ps_procs s) a \<notin> set pids \<longrightarrow> gone_after s s2 chs2 a"
proof -
  let ?is = "qsort int_cmp pids" and ?h = "ps_procs s"
  have set: "set ?is = set pids" by (rule qs.set_eq)
  have len: "length (replicate (length pids) False) = length ?is" by (simp add: qs.length_eq)
  have "sorted_wrt (<) (map (\<lambda>x. x) ?is)" by (rule qs.by_key_strict) (use int_cmp_le pids in simp_all)
  then have srt: "sorted_wrt (<) ?is" by simp
  let ?chs1 = "map (filter (\<lambda>a. pid_at ?h a \<in> set ?is)) chs"
  obtain s1 ex where c: "refresh_chains ?is (length ([] :: addr list list)) (length chs) (s, replicate (length pids) False) = Some (s1, ex)"
    and t1: "tbl_ok s1 ([] @ ?chs1)" and r: "refreshed s s1 ?is (concat chs)"
    and m: "marked ?h ?is (concat chs) (replicate (length pids) False) ex"
    using refresh_chains_ok [OF srt len, of s "[]" chs] ok by auto
  have ok1: "tbl_ok s1 ?chs1" using t1 by simp
  have in1: "a \<in> set (concat ?chs1) \<longleftrightarrow> a \<in> set (concat chs) \<and> pid_at ?h a \<in> set pids" for a
    using set by auto
  have nd: "a \<notin> dropped ?h ?is (concat chs)" if "a \<in> set (concat ?chs1)" for a
  proof -
    have "pid_at ?h a \<in> set pids" using that in1 by blast
    then show ?thesis by (simp add: dropped_def set)
  qed
  have live: "a \<in> dom ?h" if "a \<in> set (concat chs)" for a by (rule tbl_ok_live [OF ok that])
  have k1: "keeps s s1 a" if "a \<in> set (concat ?chs1)" for a
    using r nd that unfolding refreshed_def by blast
  have p1: "pid_at (ps_procs s1) a = pid_at ?h a" if "a \<in> set (concat ?chs1)" for a
  proof (rule pids_keep [OF _ _ that])
    show "set (concat ?chs1) \<subseteq> dom ?h" using live in1 by blast
  qed (rule k1)
  have ps1: "pid_at (ps_procs s1) ` set (concat ?chs1) = pid_at ?h ` set (concat chs) \<inter> set pids"
  proof -
    have "pid_at (ps_procs s1) ` set (concat ?chs1) = pid_at ?h ` set (concat ?chs1)"
      using p1 by (intro image_cong refl)
    also have "\<dots> = pid_at ?h ` set (concat chs) \<inter> set pids" using in1 by blast
    finally show ?thesis .
  qed
  have miss: "missing ?is ex = set pids - pid_at ?h ` set (concat chs)"
    using missing_marked [of ?h ?is "concat chs" ex] m len set by simp
  have lex: "length ex = length ?is" using m len by (simp add: marked_def)
  have dis: "distinct ?is" "\<forall>pid \<in> set ?is. 0 \<le> pid" using pids set by (simp_all add: qs.distinct_eq)
  have mi: "missing ?is ex \<inter> pid_at (ps_procs s1) ` set (concat ?chs1) = {}" using miss ps1 by blast
  have env': "proc_malloc_fresh env" "proc_malloc_total env" using env by (simp_all add: proc_env_ok_def)
  obtain s2 chs2 where a: "refresh_add env ?is ex s1 = Some s2" "tbl_ok s2 chs2"
    "pid_at (ps_procs s2) ` set (concat chs2) = pid_at (ps_procs s1) ` set (concat ?chs1) \<union> missing ?is ex"
    "set (concat ?chs1) \<subseteq> set (concat chs2)"
    and k2: "\<forall>a. ps_procs s1 a \<noteq> None \<longrightarrow> keeps s1 s2 a"
    and n2: "\<forall>a \<in> set (concat chs2) - set (concat ?chs1). proc_created env s1 s2 a"
    and o2: "\<forall>a. ps_procs s1 a = None \<longrightarrow> a \<notin> set (concat chs2) \<longrightarrow> ps_procs s2 a = None"
    using refresh_add_ok [OF env' ok1 lex dis mi] by blast
  have "pid_at (ps_procs s2) ` set (concat chs2) = set pids" unfolding a(3) ps1 miss by blast
  moreover have "\<forall>a \<in> set (concat chs). pid_at ?h a \<in> set pids \<longrightarrow> a \<in> set (concat chs2) \<and> keeps s s2 a"
  proof (intro ballI impI)
    fix x assume "x \<in> set (concat chs)" "pid_at ?h x \<in> set pids"
    then have x: "x \<in> set (concat ?chs1)" using in1 by blast
    then have "ps_procs s1 x \<noteq> None" using tbl_ok_live [OF ok1] by blast
    then have "keeps s s2 x" using keeps_trans [OF k1 [OF x]] k2 by blast
    then show "x \<in> set (concat chs2) \<and> keeps s s2 x" using a(4) x by blast
  qed
  moreover have "\<forall>a \<in> set (concat chs). pid_at ?h a \<notin> set pids \<longrightarrow> gone_after s s2 chs2 a"
  proof (intro ballI impI)
    fix x assume x: "x \<in> set (concat chs)" "pid_at ?h x \<notin> set pids"
    then have "x \<in> dropped ?h ?is (concat chs)" using set by (simp add: dropped_def)
    then have g: "gone_proc ?h (ps_procs s1) x" using r unfolding refreshed_def by blast
    show "gone_after s s2 chs2 x"
    proof (cases "p_ref_count (the (?h x)) > 0")
      case True
      then obtain q where q: "ps_procs s1 x = Some q" "pay q = pay ((the (?h x))\<lparr>p_removing := True\<rparr>)"
        using g by (auto simp: gone_proc_def)
      then have "keeps s1 s2 x" using k2 by simp
      then obtain q2 where q2: "ps_procs s2 x = Some q2" "pay q2 = pay q"
        using q(1) by (auto simp: keeps_def elim: same_pay_Some)
      have "p_removing q2" using pay_eqD [OF q2(2)] pay_eqD [OF q(2)] by simp
      moreover have "x \<notin> set (concat chs2)"
        using n2 q(1) x in1 unfolding proc_created_def by (metis DiffI option.distinct(1))
      ultimately show ?thesis using True q2(1) by (simp add: gone_after_def)
    next
      case False
      then have "ps_procs s1 x = None" using g by (simp add: gone_proc_def)
      then have "x \<notin> set (concat chs2) \<Longrightarrow> ps_procs s2 x = None" by (rule o2 [rule_format])
      then have "x \<in> set (concat chs2) \<or> ps_procs s2 x = None"
        by (cases "x \<in> set (concat chs2)") (simp_all only: disj_not1 simp_thms)
      then show ?thesis using False unfolding gone_after_def by simp
    qed
  qed
  moreover have "length chs = PROC_HASHTBL_SIZE" using ok by (simp add: tbl_ok_def chains_ok_def)
  then have "refresh_chains ?is 0 PROC_HASHTBL_SIZE (s, replicate (length pids) False) = Some (s1, ex)"
    using c by simp
  ultimately show ?thesis using a(1,2) that by blast
qed


text \<open>
  C2: Refreshing the process table.  If /proc shows a nonempty list of
  distinct pids, memory does not run out and the table is well formed, the
  refresh is defined and leaves a well-formed table that holds exactly those
  pids; a process that was known keeps its object, with its counters and
  references, and a process that is gone is freed (its memory may be reused) or,
  if it is still referenced, taken out of the table and marked.  The counts of processes and threads are those of the table,
  and the array of threads of every process is what /proc shows, in ascending
  order.
\<close>

theorem proc_group_refresh_follows_proc:
  assumes env: "proc_env_ok env" and ok: "tbl_ok s chs"
    and pids: "pids \<noteq> []" "distinct pids" "\<forall>pid \<in> set pids. 0 \<le> pid"
  shows "\<exists>s1 chs1. proc_group_refresh env pids s = Some s1 \<and> tbl_ok s1 chs1 \<and>
     pid_at (ps_procs s1) ` set (concat chs1) = set pids \<and>
     pg_nprocs (ps_group s1) = int (length (concat chs1)) \<and>
     pg_nlwps (ps_group s1) = sum_list (map (\<lambda>a. proc_nlwp (the (ps_procs s1 a))) (concat chs1)) \<and>
     (\<forall>a \<in> set (concat chs). if pid_at (ps_procs s) a \<in> set pids
        then a \<in> set (concat chs1) \<and> kept_proc (ps_procs s) (ps_procs s1) a else gone_after s s1 chs1 a) \<and>
     (\<forall>a \<in> set (concat chs1). lwps_follow env s1 a)"
proof -
  obtain s1 ex s2 chs2 where l: "refresh_chains (qsort int_cmp pids) 0 PROC_HASHTBL_SIZE (s, replicate (length pids) False) = Some (s1, ex)"
    "refresh_add env (qsort int_cmp pids) ex s1 = Some s2" and t2: "tbl_ok s2 chs2"
    and ps: "pid_at (ps_procs s2) ` set (concat chs2) = set pids"
    and kept: "\<forall>a \<in> set (concat chs). pid_at (ps_procs s) a \<in> set pids \<longrightarrow> a \<in> set (concat chs2) \<and> keeps s s2 a"
    and gone: "\<forall>a \<in> set (concat chs). pid_at (ps_procs s) a \<notin> set pids \<longrightarrow> gone_after s s2 chs2 a"
    by (rule refresh_loops [OF env ok pids(2,3)]) blast
  define s3 where "s3 = upd_group (\<lambda>g. g\<lparr>pg_nprocs := int (length pids), pg_nlwps := 0\<rparr>) s2"
  have t3: "tbl_ok s3 chs2" unfolding s3_def by (rule tbl_ok_group [OF t2])
  have dp: "distinct (map (pid_at (ps_procs s2)) (concat chs2))" using t2 by (simp add: tbl_ok_def)
  then have "length (map (pid_at (ps_procs s2)) (concat chs2)) = length pids"
    using ps pids(2) by (metis distinct_card set_map)
  then have cnt: "length (concat chs2) = length pids" by (simp only: length_map)
  have n3: "pg_nprocs (ps_group s3) = int (length (concat chs2))" unfolding cnt by (simp add: s3_def)
  have lenv: "lwp_env_ok env" using env by (simp add: proc_env_ok_def)
  have dc: "distinct (concat chs2)" using dp by (simp add: distinct_map)
  obtain s4 where s4: "visits (proc_lwp_refresh env) (concat chs2) s3 = Some s4" "tbl_ok s4 chs2" "ps_group s4 = ps_group s3"
    and f4: "\<forall>a \<in> set (concat chs2). lwps_follow env s4 a \<and> kept_proc (ps_procs s3) (ps_procs s4) a"
    and k4: "\<forall>b. b \<notin> set (concat chs2) \<longrightarrow> keeps s3 s4 b \<and> ps_procs s4 b = ps_procs s3 b"
    using lwp_refresh_visits [OF lenv t3 subset_refl dc] by blast
  have n4: "pg_nprocs (ps_group s4) = int (length (concat chs2))" using s4(3) n3 by simp
  have live: "set (concat chs2) \<subseteq> dom (ps_procs s4)" using tbl_ok_live [OF s4(2)] by blast
  define s5 where "s5 = upd_group (\<lambda>g. g\<lparr>pg_nlwps := pg_nlwps g +
     sum_list (map (\<lambda>a. proc_nlwp (the (ps_procs s4 a))) (concat chs2))\<rparr>) s4"
  have s5: "visits proc_nlwps_sum (concat chs2) s4 = Some s5" unfolding s5_def by (rule nlwps_sum_visits [OF live])
  have p5: "ps_procs s5 = ps_procs s4" "ps_lwps s5 = ps_lwps s4" by (simp_all add: s5_def)
  have len: "length pids = length (qsort int_cmp pids)" by (simp add: qs.length_eq)
  have run: "proc_group_refresh env pids s = Some s5"
    using l pids(1) env s4(1) s5 traverse_refresh [OF lenv t3 n3] traverse_sum [OF s4(2) n4]
    by (simp add: proc_group_refresh_def proc_env_ok_def Let_def flip: s3_def)
  have t5: "tbl_ok s5 chs2" using s4(2) by (simp add: s5_def tbl_ok_def chains_ok_def)
  have k34: "kept_proc (ps_procs s2) (ps_procs s4) a" if "a \<in> set (concat chs2)" for a
  proof -
    have "ps_procs s3 = ps_procs s2" by (simp add: s3_def)
    then show ?thesis using f4 that by metis
  qed
  have ids: "pid_at (ps_procs s5) ` set (concat chs2) = set pids"
  proof -
    have "pid_at (ps_procs s5) ` set (concat chs2) = pid_at (ps_procs s2) ` set (concat chs2)"
      unfolding p5 by (intro image_cong refl kept_proc_pid k34)
    then show ?thesis using ps by simp
  qed
  have fate: "if pid_at (ps_procs s) a \<in> set pids
      then a \<in> set (concat chs2) \<and> kept_proc (ps_procs s) (ps_procs s5) a else gone_after s s5 chs2 a"
    if a: "a \<in> set (concat chs)" for a
  proof (cases "pid_at (ps_procs s) a \<in> set pids")
    case True
    then have in2: "a \<in> set (concat chs2)" and "keeps s s2 a" using kept a by blast+
    moreover obtain p where "ps_procs s a = Some p" using tbl_ok_live [OF ok a] by blast
    ultimately have "kept_proc (ps_procs s) (ps_procs s2) a" by (intro kept_proc_keeps)
    then have "kept_proc (ps_procs s) (ps_procs s4) a" using k34 [OF in2] by (rule kept_proc_trans)
    then show ?thesis using True in2 p5(1) by metis
  next
    case False
    then have g: "gone_after s s2 chs2 a" using gone a by blast
    have "a \<notin> set (concat chs2) \<Longrightarrow> ps_procs s5 a = ps_procs s2 a" using k4 p5(1) by (simp add: s3_def)
    then have "gone_after s s5 chs2 a" using g unfolding gone_after_def by metis
    then show ?thesis using False by metis
  qed
  have foll: "lwps_follow env s5 a" if "a \<in> set (concat chs2)" for a
    using f4 that p5 unfolding lwps_follow_def by metis
  have "pg_nprocs (ps_group s5) = int (length (concat chs2))" using n4 by (simp add: s5_def)
  moreover have "pg_nlwps (ps_group s5) = sum_list (map (\<lambda>a. proc_nlwp (the (ps_procs s5 a))) (concat chs2))"
    using s4(3) unfolding p5 by (simp add: s5_def s3_def)
  ultimately show ?thesis
    using run t5 ids fate foll by (intro exI [of _ s5] exI [of _ chs2] conjI ballI) blast+
qed

text \<open>An empty table, and /proc showing the processes 7 and 135, which share a chain.\<close>

definition proc_env_demo :: proc_env where
  "proc_env_demo = \<lparr>le_lwp_enum = (\<lambda>pid. Some [pid + 1, pid]), le_cpuid_max = 1,
     le_lwp_malloc = (\<lambda>_ h. Some (Suc (Max (insert 0 (dom h))))), le_lwparr_ok = (\<lambda>_. True),
     pe_proc_enum = Some [135, 7], pe_pname = (\<lambda>_. ''p''),
     pe_proc_malloc = (\<lambda>_ h. Some (Suc (Max (insert 0 (dom h))))),
     pe_exist_ok = True, pe_sort_ok = True, pe_alive = (\<lambda>_. True)\<rparr>"

definition pstate_empty :: pstate where
  "pstate_empty = \<lparr>ps_group = proc_group_init, ps_procs = Map.empty, ps_lwps = Map.empty\<rparr>"

lemma malloc_next: "finite (dom h) \<Longrightarrow> h (Suc (Max (insert 0 (dom h)))) = None"
proof (rule ccontr)
  assume fin: "finite (dom h)" and "h (Suc (Max (insert 0 (dom h)))) \<noteq> None"
  then have "Suc (Max (insert 0 (dom h))) \<in> insert 0 (dom h)" by blast
  then have "Suc (Max (insert 0 (dom h))) \<le> Max (insert 0 (dom h))" by (rule Max_ge [rotated]) (use fin in simp)
  then show False by simp
qed

lemma proc_env_demo_ok: "proc_env_ok proc_env_demo"
  unfolding proc_env_ok_def lwp_env_ok_def proc_malloc_fresh_def proc_malloc_total_def
    lwp_malloc_fresh_def lwp_malloc_total_def
  by (simp add: proc_env_demo_def malloc_next)

lemma tbl_ok_empty: "tbl_ok pstate_empty (replicate PROC_HASHTBL_SIZE [])"
  by (simp add: tbl_ok_def chains_ok_def pstate_empty_def proc_group_init_def)

theorem proc_group_refresh_follows_proc_witness:
  "\<exists>s1 chs1. proc_group_refresh proc_env_demo [135, 7] pstate_empty = Some s1 \<and> tbl_ok s1 chs1 \<and>
     pid_at (ps_procs s1) ` set (concat chs1) = {135, 7}"
  using proc_group_refresh_follows_proc [OF proc_env_demo_ok tbl_ok_empty, of "[135, 7]"] by auto

end
