(* ===== verification/ProcUse.thy ===== *)
theory ProcUse
  imports ProcRef
begin

text \<open>
  The uses of the process table: looking processes and threads up, and sorting
  them for display.
\<close>

section \<open>A small table\<close>

text \<open>
  The processes 7 and 135 in one chain, and a process at address 3 that was
  removed while somebody held a reference to it.
\<close>

definition proc_demo :: "int \<Rightarrow> track_proc" where
  "proc_demo pid = proc_zero\<lparr>p_pid := pid, p_key := word_of_int pid\<rparr>"

definition table_demo :: pstate where
  "table_demo = \<lparr>
     ps_group = \<lparr>pg_nprocs = 2, pg_nlwps = 0, pg_sort_idx = 0, pg_inited = True,
       pg_hashtbl = replicate 7 None @ Some 2 # replicate 120 None, pg_latest = None, pg_sort_arr = None\<rparr>,
     ps_procs = [1 \<mapsto> (proc_demo 7)\<lparr>p_hash_prev := Some 2\<rparr>,
                 2 \<mapsto> (proc_demo 135)\<lparr>p_hash_next := Some 1\<rparr>,
                 3 \<mapsto> (proc_demo 9)\<lparr>p_removing := True, p_ref_count := 1\<rparr>],
     ps_lwps = Map.empty\<rparr>"

definition chains_demo :: "addr list list" where
  "chains_demo = replicate 7 [] @ [2, 1] # replicate 120 []"

lemma concat_demo [simp]: "concat chains_demo = [2, 1]"
  by (simp add: chains_demo_def)

lemma table_demo_ok: "tbl_ok table_demo chains_demo"
proof -
  have "chains_ok table_demo chains_demo"
    by (simp add: chains_ok_def chains_demo_def table_demo_def proc_demo_def proc_zero_def PROC_HASHTBL_SIZE_def)
  moreover have "proc_ok (ps_procs table_demo) (ps_lwps table_demo) i a"
    if "i < PROC_HASHTBL_SIZE" "a \<in> set (chains_demo ! i)" for i a
  proof -
    have "i = 7 \<and> (a = 1 \<or> a = 2)"
      using that by (auto simp: chains_demo_def PROC_HASHTBL_SIZE_def nth_append nth_Cons' split: if_splits)
    then show ?thesis
      by (auto simp: proc_ok_def table_demo_def proc_demo_def proc_zero_def pid_index)
  qed
  moreover have "distinct (map (pid_at (ps_procs table_demo)) (concat chains_demo))"
    by (simp add: table_demo_def proc_demo_def)
  moreover have "set_option (pg_latest (ps_group table_demo)) \<subseteq> set (concat chains_demo)"
    "finite (dom (ps_procs table_demo))" "finite (dom (ps_lwps table_demo))"
    by (simp_all add: table_demo_def)
  ultimately show ?thesis unfolding tbl_ok_def by blast
qed

section \<open>Walking the table\<close>

text \<open>
  C29: Walking the process table visits every process exactly once.  If the
  number of processes the group counts is the number of processes in its
  chains, and the visited function keeps the chains and that number, then
  proc_traverse terminates and is the same as visiting the processes of the
  chains one after the other, in spite of its early exit.
\<close>

theorem proc_traverse_visits_all:
  assumes "J s" "\<And>a s s1. J s \<Longrightarrow> a \<in> set (concat chs) \<Longrightarrow> f a s = Some s1 \<Longrightarrow> J s1"
    and "\<And>s. J s \<Longrightarrow> chains_ok s chs \<and> pg_nprocs (ps_group s) = int (length (concat chs))"
  shows "proc_traverse f s = visits f (concat chs) s"
  using assms by (rule proc_traverse_visits)

theorem proc_traverse_visits_all_witness:
  "proc_traverse proc_nlwps_sum table_demo = visits proc_nlwps_sum [2, 1] table_demo"
proof -
  have "proc_traverse proc_nlwps_sum table_demo = visits proc_nlwps_sum (concat chains_demo) table_demo"
  proof (rule proc_traverse_visits_all [where J = "\<lambda>s. chains_ok s chains_demo \<and> pg_nprocs (ps_group s) = 2"])
    show "chains_ok table_demo chains_demo \<and> pg_nprocs (ps_group table_demo) = 2"
      using table_demo_ok unfolding tbl_ok_def by (simp add: table_demo_def)
    show "chains_ok s1 chains_demo \<and> pg_nprocs (ps_group s1) = 2"
      if "chains_ok s chains_demo \<and> pg_nprocs (ps_group s) = 2" "proc_nlwps_sum a s = Some s1" for a s s1
      using that by (auto simp: proc_nlwps_sum_def chains_ok_def split: bind_splits)
  qed simp
  then show ?thesis by simp
qed

section \<open>Looking a process up\<close>

text \<open>
  In a well-formed table proc_find returns the
  process with the given pid, whether it is the cached one or has to be searched
  in its chain, takes a reference to it and makes it the cached one; if there is
  none it returns NULL and changes nothing.  The table stays well formed.
\<close>

lemma proc_find_result:
  assumes "tbl_ok s chs" "0 \<le> pid"
  shows "case proc_at (ps_procs s) chs pid of
       None \<Rightarrow> proc_find pid s = Some (s, None)
     | Some a \<Rightarrow>
         \<exists>p s1. ps_procs s a = Some p \<and> p_pid p = pid \<and> proc_find pid s = Some (s1, Some a) \<and>
           s1 = s\<lparr>ps_procs := (ps_procs s)(a \<mapsto> p\<lparr>p_ref_count := p_ref_count p + 1\<rparr>),
                  ps_group := (ps_group s)\<lparr>pg_latest := Some a\<rparr>\<rparr> \<and> tbl_ok s1 chs"
proof (cases "proc_at (ps_procs s) chs pid")
  case None
  then show ?thesis by (simp add: proc_find_def proc_find_nolock_def proc_lookup_result [OF assms])
next
  case (Some a)
  note a = proc_at_Some [OF Some]
  obtain p where p: "ps_procs s a = Some p" "\<not> p_removing p"
    by (rule tbl_ok_member [OF assms(1) conjunct1 [OF a]]) (auto simp: proc_ok_def)
  let ?s1 = "s\<lparr>ps_procs := (ps_procs s)(a \<mapsto> p\<lparr>p_ref_count := p_ref_count p + 1\<rparr>),
     ps_group := (ps_group s)\<lparr>pg_latest := Some a\<rparr>\<rparr>"
  have "tbl_ok ?s1 chs" using a by (intro tbl_ok_upd [OF assms(1) p(1)]) simp_all
  moreover have "proc_find pid s = Some (?s1, Some a)"
    using p Some
    by (simp add: proc_find_def proc_find_nolock_def proc_lookup_result [OF assms] proc_refcount_inc_def)
  ultimately show ?thesis using Some p a by simp
qed

section \<open>Looking a thread up\<close>

text \<open>
  The binary search of proc_lwp_find finds the
  thread with the given id in the sorted array of a process if it has one; the
  caller gets it with a reference, unless it is quitting, and NULL otherwise.
\<close>

lemma proc_lwp_find_result:
  assumes "lwplist_ok proc ll h as"
  shows "proc_lwp_find ll lwpid h = Some (case lwp_at h as lwpid of
       None \<Rightarrow> (h, None)
     | Some a \<Rightarrow> let l = the (h a) in
         if l_quitting l then (h, None) else (h(a \<mapsto> l\<lparr>l_ref_count := l_ref_count l + 1\<rparr>), Some a))"
proof -
  let ?f = "\<lambda>p. l_id (the (h (the p)))"
  have live: "lwps_live proc h as" using assms by (simp add: lwplist_ok_def)
  have arr: "(case ll_id_arr ll of
       None \<Rightarrow> if ll_nlwps ll = 0 then Some [] else None
     | Some arr \<Rightarrow> if ll_nlwps ll \<le> int (length arr) then Some (take (nat (ll_nlwps ll)) arr) else None) = Some (map Some as)"
    using assms by (auto simp: lwplist_ok_def split: option.splits)
  have srt: "sorted (map ?f (map Some as))"
    using live by (simp add: lwps_live_def lwp_ids_def strict_sorted_iff comp_def)
  have cmp: "lwp_id_cmp h lwpid p = Some (sgn (lwpid - ?f p))" if "p \<in> set (map Some as)" for p
    using that live by (auto simp: lwp_id_cmp_def lwps_live_def int_cmp_sgn)
  show ?thesis
  proof (rule bsearch_correct [OF srt cmp])
    fix i assume found: "bsearch (lwp_id_cmp h lwpid) (map Some as) = Some (Some i)" "i < length (map Some as)"
      "?f (map Some as ! i) = lwpid"
    define a where "a = as ! i"
    have i: "i < length as" "l_id (the (h a)) = lwpid" using found by (simp_all add: a_def)
    then have "a \<in> set as" by (simp add: a_def)
    then obtain l where l: "h a = Some l" "\<not> l_removing l" using live by (auto simp: lwps_live_def)
    have at: "lwp_at h as lwpid = Some a" by (rule lwp_at_unique [OF live \<open>a \<in> set as\<close> i(2)])
    have "map Some as ! i = Some a" using i(1) by (simp add: a_def)
    then show ?thesis
      using arr found(1) at l by (simp add: proc_lwp_find_def lwp_refcount_inc_def)
  next
    assume absent: "bsearch (lwp_id_cmp h lwpid) (map Some as) = Some None" "lwpid \<notin> ?f ` set (map Some as)"
    then have "lwp_at h as lwpid = None" by (auto simp: lwp_at_None lwp_ids_def image_image)
    then show ?thesis using arr absent(1) by (simp add: proc_lwp_find_def)
  qed (assumption)
qed

section \<open>Sorting\<close>

lemma sort_fill_None [simp]: "sort_fill h None aj = Some aj"
  by (subst sort_fill.simps) simp

lemma sort_fill_Some: "sort_fill h (Some a) aj =
    do { arr \<leftarrow> arr_set (fst aj) (int (snd aj)) (Some a); r \<leftarrow> h a; sort_fill h (p_hash_next r) (arr, snd aj + 1) }"
  by (subst sort_fill.simps) simp

lemma sort_fill_result:
  assumes "dseg p_hash_next p_hash_prev h p c None"
  shows "sort_fill h (firstp c None) (xs @ replicate n None, length xs)
     = (if length c \<le> n then Some (xs @ map Some c @ replicate (n - length c) None, length xs + length c) else None)"
  using assms
proof (induction c arbitrary: p xs n)
  case (Cons a c)
  obtain r where r: "h a = Some r" "p_hash_next r = firstp c None"
    and seg: "dseg p_hash_next p_hash_prev h (Some a) c None"
    using Cons.prems by (auto split: option.splits)
  show ?case
  proof (cases n)
    case 0
    then show ?thesis by (simp add: sort_fill_Some)
  next
    case (Suc m)
    have "sort_fill h (firstp c None) ((xs @ [Some a]) @ replicate m None, length (xs @ [Some a]))
      = (if length c \<le> m then Some ((xs @ [Some a]) @ map Some c @ replicate (m - length c) None,
           length (xs @ [Some a]) + length c) else None)"
      by (rule Cons.IH [OF seg])
    then show ?thesis using r Suc by (simp add: sort_fill_Some list_update_append)
  qed
qed simp

text \<open>The chains are copied until as many processes are found as the group counts.\<close>

lemma sort_chains_all:
  assumes "chains_ok s (pre @ post)" "pg_nprocs (ps_group s) = int (length (concat pre) + length (concat post))"
  shows "sort_chains (ps_group s) (ps_procs s) (length pre) (length post)
      (map Some (concat pre) @ replicate (length (concat post)) None, length (concat pre))
     = Some (map Some (concat (pre @ post)), length (concat (pre @ post)))"
  using assms
proof (induction post arbitrary: pre)
  case (Cons c post)
  have seg: "chain (ps_procs s) c" using Cons.prems(1) by (simp add: chains_ok_def)
  have "sort_fill (ps_procs s) (firstp c None)
      (map Some (concat pre) @ replicate (length (concat (c # post))) None, length (map Some (concat pre) :: ptr list))
    = Some (map Some (concat (pre @ [c])) @ replicate (length (concat post)) None, length (concat (pre @ [c])))"
    unfolding sort_fill_result [OF seg] by simp
  then have fill: "sort_fill (ps_procs s) (firstp c None)
      (map Some (concat pre) @ replicate (length (concat (c # post))) None, length (concat pre))
    = Some (map Some (concat (pre @ [c])) @ replicate (length (concat post)) None, length (concat (pre @ [c])))"
    by (simp only: length_map)
  have IH: "sort_chains (ps_group s) (ps_procs s) (length (pre @ [c])) (length post)
      (map Some (concat (pre @ [c])) @ replicate (length (concat post)) None, length (concat (pre @ [c])))
     = Some (map Some (concat ((pre @ [c]) @ post)), length (concat ((pre @ [c]) @ post)))"
    by (rule Cons.IH) (use Cons.prems in simp_all)
  show ?case
  proof (cases "concat post = []")
    case True
    then have "map Some (concat post) = replicate (length (concat post)) None"
      by (simp only: list.size replicate_0 list.map)
    moreover have "length (concat post) = 0" using True by (simp only: list.size)
    then have "int (length (concat (pre @ [c]))) = pg_nprocs (ps_group s)" using Cons.prems(2) by simp
    ultimately show ?thesis using fill chains_ok_head(1) [OF Cons.prems(1)] True
      by (simp del: concat_eq_Nil_conv)
  next
    case False
    then have "int (length (concat (pre @ [c]))) \<noteq> pg_nprocs (ps_group s)" using Cons.prems(2) by simp
    then show ?thesis using fill chains_ok_head(1) [OF Cons.prems(1)] IH by simp
  qed
qed simp

lemma sort_chains_over:
  assumes "chains_ok s (pre @ ds @ c # post)" "pg_nprocs (ps_group s) = int (length (concat pre) + n)"
    and "length (concat ds) < n" "n < length (concat ds) + length c"
  shows "sort_chains (ps_group s) (ps_procs s) (length pre) (length (ds @ c # post))
      (map Some (concat pre) @ replicate n None, length (concat pre)) = None"
  using assms
proof (induction ds arbitrary: pre n)
  case Nil
  have seg: "chain (ps_procs s) c" using Nil.prems(1) by (simp add: chains_ok_def)
  have ok: "chains_ok s (pre @ c # post)" using Nil.prems(1) by simp
  have "sort_fill (ps_procs s) (firstp c None)
      (map Some (concat pre) @ replicate n None, length (map Some (concat pre) :: ptr list)) = None"
    unfolding sort_fill_result [OF seg] using Nil.prems(4) by simp
  then show ?case using chains_ok_head(1) [OF ok] by simp
next
  case (Cons d ds)
  have seg: "chain (ps_procs s) d" using Cons.prems(1) by (simp add: chains_ok_def)
  have ok: "chains_ok s (pre @ d # ds @ c # post)" using Cons.prems(1) by simp
  have "sort_fill (ps_procs s) (firstp d None)
      (map Some (concat pre) @ replicate n None, length (map Some (concat pre) :: ptr list))
    = Some (map Some (concat (pre @ [d])) @ replicate (n - length d) None, length (concat (pre @ [d])))"
    unfolding sort_fill_result [OF seg] using Cons.prems(3) by simp
  then have fill: "sort_fill (ps_procs s) (firstp d None) (map Some (concat pre) @ replicate n None, length (concat pre))
    = Some (map Some (concat (pre @ [d])) @ replicate (n - length d) None, length (concat (pre @ [d])))"
    by (simp only: length_map)
  have "sort_chains (ps_group s) (ps_procs s) (length (pre @ [d])) (length (ds @ c # post))
      (map Some (concat (pre @ [d])) @ replicate (n - length d) None, length (concat (pre @ [d]))) = None"
    by (rule Cons.IH) (use Cons.prems in auto)
  moreover have "int (length (concat (pre @ [d]))) \<noteq> pg_nprocs (ps_group s)" using Cons.prems(2,3) by auto
  ultimately show ?case using fill chains_ok_head(1) [OF ok] by simp
qed


lemma table_sort_chains:
  assumes "chains_ok s chs" "pg_nprocs (ps_group s) = int (length (concat chs))"
  shows "sort_chains (ps_group s) (ps_procs s) 0 PROC_HASHTBL_SIZE
      (replicate (nat (pg_nprocs (ps_group s))) None, 0) = Some (map Some (concat chs), length (concat chs))"
proof -
  have "length chs = PROC_HASHTBL_SIZE" using assms(1) by (simp add: chains_ok_def)
  then show ?thesis using sort_chains_all [of s "[]" chs] assms by simp
qed

lemma table_sorted:
  assumes "tbl_ok s chs" "pg_nprocs (ps_group s) = int (length (concat chs))" "concat chs \<noteq> []" "pe_sort_ok env"
  shows "\<exists>as g. proc_sortkey env s = Some (s\<lparr>ps_group := g\<rparr>) \<and> mset as = mset (concat chs) \<and>
     sorted_wrt (\<lambda>a b. p_key (the (ps_procs s b)) \<le> p_key (the (ps_procs s a))) as \<and>
     pg_sort_idx g = 0 \<and>
     (\<forall>k < length as. proc_sort_next (g\<lparr>pg_sort_idx := int k\<rparr>) = Some (g\<lparr>pg_sort_idx := int (k + 1)\<rparr>, Some (as ! k))) \<and>
     proc_sort_next (g\<lparr>pg_sort_idx := int (length as)\<rparr>) = Some (g\<lparr>pg_sort_idx := int (length as)\<rparr>, None)"
proof -
  let ?h = "ps_procs s" and ?arr = "map Some (concat chs)"
  let ?ps = "qsort (proc_key_cmp ?h) (qsort (proc_pid_cmp ?h) ?arr)"
  define as where "as = map the ?ps"
  have mps: "mset ?ps = mset ?arr" by (simp only: qs.perm)
  have "mset as = image_mset the (mset ?ps)" by (simp only: as_def mset_map)
  also have "\<dots> = image_mset the (mset ?arr)" by (simp only: mps)
  also have "\<dots> = mset (map the ?arr)" by (simp only: mset_map)
  also have "map the ?arr = concat chs" by (simp add: map_idI)
  finally have mas: "mset as = mset (concat chs)" .
  have "set ?ps = set ?arr" by (simp only: qs.set_eq)
  then have "Some (the p) = p" if "p \<in> set ?ps" for p using that by (metis ex_map_conv option.sel)
  then have "map (\<lambda>p. Some (the p)) ?ps = ?ps" by (intro map_idI)
  then have ps: "?ps = map Some as" by (simp only: as_def map_map comp_def)
  have "sorted (map (\<lambda>p. - ptr_val ?h (\<lambda>r. uint (p_key r)) p) ?ps)"
    by (rule qs.by_key) (auto simp: proc_key_cmp_def int_cmp_le)
  then have srt: "sorted_wrt (\<lambda>a b. p_key (the (?h b)) \<le> p_key (the (?h a))) as"
    unfolding ps by (simp add: sorted_wrt_map ptr_val_def word_le_def)
  have len: "int (length as) = pg_nprocs (ps_group s)" using mas assms(2) by (metis size_mset)
  have der: "deref_all ?h ?arr"
    using tbl_ok_live [OF assms(1)] by (auto simp: deref_all_def)
  define g where "g = (ps_group s)\<lparr>pg_sort_arr := Some (map Some as), pg_sort_idx := 0\<rparr>"
  have "pg_nprocs (ps_group s) > 0" using assms(2,3) by (cases "concat chs") simp_all
  moreover have "chains_ok s chs" using assms(1) by (simp add: tbl_ok_def)
  ultimately have "proc_sortkey env s = Some (s\<lparr>ps_group := g\<rparr>)"
    using table_sort_chains [OF _ assms(2)] assms(4) der ps by (simp add: proc_sortkey_def g_def Let_def)
  then show ?thesis
    using mas srt len by (intro exI [of _ as] exI [of _ g] conjI) (auto simp: g_def proc_sort_next_def arr_get_def)
qed

text \<open>
  C28: Sorting the processes.  If the number of processes the group counts is the
  number of processes in the table, proc_sortkey produces an array of all of them
  ordered by descending key, and proc_sort_next hands them out in that order and
  then returns NULL.
\<close>

theorem proc_sortkey_sorted:
  assumes "tbl_ok s chs" "pg_nprocs (ps_group s) = int (length (concat chs))" "concat chs \<noteq> []" "pe_sort_ok env"
  shows "\<exists>as g. proc_sortkey env s = Some (s\<lparr>ps_group := g\<rparr>) \<and> mset as = mset (concat chs) \<and>
     sorted_wrt (\<lambda>a b. p_key (the (ps_procs s b)) \<le> p_key (the (ps_procs s a))) as \<and>
     pg_sort_idx g = 0 \<and>
     (\<forall>k < length as. proc_sort_next (g\<lparr>pg_sort_idx := int k\<rparr>) = Some (g\<lparr>pg_sort_idx := int (k + 1)\<rparr>, Some (as ! k))) \<and>
     proc_sort_next (g\<lparr>pg_sort_idx := int (length as)\<rparr>) = Some (g\<lparr>pg_sort_idx := int (length as)\<rparr>, None)"
  by (rule table_sorted [OF assms])

theorem proc_sortkey_sorted_witness:
  "\<exists>as g. proc_sortkey proc_env_demo table_demo = Some (table_demo\<lparr>ps_group := g\<rparr>) \<and> mset as = {#1, 2#} \<and>
     sorted_wrt (\<lambda>a b. p_key (the (ps_procs table_demo b)) \<le> p_key (the (ps_procs table_demo a))) as"
proof -
  have n: "pg_nprocs (ps_group table_demo) = int (length (concat chains_demo))" by simp (simp add: table_demo_def)
  have "concat chains_demo \<noteq> []" "pe_sort_ok proc_env_demo" by (simp_all add: proc_env_demo_def)
  then obtain as g where "proc_sortkey proc_env_demo table_demo = Some (table_demo\<lparr>ps_group := g\<rparr>)"
    "mset as = mset (concat chains_demo)"
    "sorted_wrt (\<lambda>a b. p_key (the (ps_procs table_demo b)) \<le> p_key (the (ps_procs table_demo a))) as"
    using proc_sortkey_sorted [OF table_demo_ok n] by blast
  moreover have "mset (concat chains_demo) = {#1, 2#}" by simp
  ultimately show ?thesis by metis
qed

text \<open>
  C32: A late release makes the sorting write past its array.  When the last
  reference to a process that was already taken out of the table is released,
  proc_free lowers the number of processes although the refresh had already set
  it to the number of processes left.  The table is still well formed, but until
  the next refresh proc_sortkey allocates one slot too few and, if the last
  nonempty chain holds two processes or more, stores behind the array.
\<close>

theorem late_release_overflows_sort:
  assumes ok: "tbl_ok s (pre @ c # post)" "concat post = []" "2 \<le> length c"
    and n: "pg_nprocs (ps_group s) = int (length (concat (pre @ c # post)))"
    and p: "ps_procs s a = Some p" "p_removing p" "p_ref_count p = 1" "a \<notin> set (concat (pre @ c # post))"
    and ll: "lwplist_ok a (p_lwp_list p) (ps_lwps s) (lwps_of p)" and "pe_sort_ok env"
  shows "\<exists>s1. proc_refcount_dec a s = Some s1 \<and> chains_ok s1 (pre @ c # post) \<and>
     pg_nprocs (ps_group s1) = int (length (concat (pre @ c # post))) - 1 \<and> proc_sortkey env s1 = None"
proof -
  let ?chs = "pre @ c # post"
  let ?p = "p\<lparr>p_ref_count := 0\<rparr>"
  let ?s0 = "s\<lparr>ps_procs := (ps_procs s)(a \<mapsto> ?p)\<rparr>"
  have live: "lwps_live a (ps_lwps s) (lwps_of p)" using ll by (simp add: lwplist_ok_def)
  let ?lh = "\<lambda>x. if x \<in> set (lwps_of p) then lwp_release (the (ps_lwps s x)) else ps_lwps s x"
  let ?g = "ps_group s"
  define s1 where "s1 = s\<lparr>ps_lwps := ?lh, ps_procs := (ps_procs s)(a := None),
     ps_group := ?g\<lparr>pg_nprocs := pg_nprocs ?g - 1, pg_nlwps := pg_nlwps ?g - ll_nlwps (p_lwp_list p)\<rparr>\<rparr>"
  have run: "proc_refcount_dec a s = Some s1"
    using p by (simp add: proc_refcount_dec_def proc_free_def traverse_visits [OF ll] free_visits [OF live] Let_def s1_def)
  have same: "chain (ps_procs s1) d = chain (ps_procs s) d" if "d \<in> set ?chs" for d
    using p(4) that by (intro dseg_cong) (auto simp: s1_def)
  have c1: "chains_ok s1 ?chs" using ok(1) same unfolding tbl_ok_def chains_ok_def by (simp add: s1_def)
  have n1: "pg_nprocs (ps_group s1) = int (length (concat ?chs)) - 1" using n by (simp add: s1_def)
  define m where "m = length (concat ?chs) - 1"
  have lc: "length (concat ?chs) = length (concat pre) + length c" using ok(2) by simp
  have "length ?chs = PROC_HASHTBL_SIZE" using c1 by (simp only: chains_ok_def)
  moreover have "sort_chains (ps_group s1) (ps_procs s1) (length ([] :: addr list list)) (length (pre @ c # post))
      (map Some (concat []) @ replicate m None, length (concat ([] :: addr list list))) = None"
    by (rule sort_chains_over) (use c1 n1 lc ok(3) in \<open>simp_all add: m_def del: concat_append\<close>)
  ultimately have over: "sort_chains (ps_group s1) (ps_procs s1) 0 PROC_HASHTBL_SIZE (replicate m None, 0) = None"
    by simp
  have nn: "pg_nprocs (ps_group s1) = int m" "0 < m" using n1 lc ok(3) by (simp_all add: m_def)
  then have "proc_sortkey env s1 = None" using over assms(10) by (simp add: proc_sortkey_def Let_def)
  then show ?thesis using run c1 n1 by blast
qed

theorem late_release_overflows_sort_witness:
  "\<exists>s1. proc_refcount_dec 3 table_demo = Some s1 \<and> chains_ok s1 chains_demo \<and> proc_sortkey proc_env_demo s1 = None"
proof -
  have t: "tbl_ok table_demo (replicate 7 [] @ [2, 1] # replicate 120 [])"
    using table_demo_ok by (simp only: chains_demo_def)
  have "\<exists>s1. proc_refcount_dec 3 table_demo = Some s1 \<and>
     chains_ok s1 (replicate 7 [] @ [2, 1] # replicate 120 []) \<and>
     pg_nprocs (ps_group s1) = int (length (concat (replicate 7 [] @ [2, 1] # replicate 120 []) :: addr list)) - 1 \<and>
     proc_sortkey proc_env_demo s1 = None"
    by (rule late_release_overflows_sort [OF t, where p = "(proc_demo 9)\<lparr>p_removing := True, p_ref_count := 1\<rparr>"])
      (simp_all add: table_demo_def proc_demo_def proc_zero_def proc_env_demo_def)
  then show ?thesis unfolding chains_demo_def by blast
qed

end
