(* ===== verification/Perf.thy ===== *)
theory Perf
  imports Types
begin

text \<open>
  The perf control structure (common/perf.c and the client half of
  common/os/os_perf.c): a mailbox with one task for the perf thread and a
  status the perf thread reports.  The functions here are the ones the display
  thread calls: they post a task and, mostly, wait until the status is the one
  they ask for.  What the perf thread does meanwhile is an environment: for a
  posted task, the control structure seen at each return of
  pthread_cond_timedwait and whether that return was a timeout.
\<close>

section \<open>State\<close>

datatype perf_status =
    PERF_STATUS_IDLE | PERF_STATUS_PROFILING_STARTED | PERF_STATUS_PROFILING_PART_STARTED
  | PERF_STATUS_PROFILING_MULTI_STARTED | PERF_STATUS_PROFILING_FAILED
  | PERF_STATUS_CALLCHAIN_STARTED | PERF_STATUS_CALLCHAIN_FAILED | PERF_STATUS_LL_STARTED
  | PERF_STATUS_LL_FAILED | PERF_STATUS_PQOS_CMT_STARTED | PERF_STATUS_PQOS_CMT_FAILED
  | PERF_STATUS_UNCORE_STARTED | PERF_STATUS_UNCORE_FAILED

datatype perf_taskid =
    PERF_INVALID_ID | PERF_PROFILING_START_ID | PERF_PROFILING_PARTPAUSE_ID
  | PERF_PROFILING_MULTIPAUSE_ID | PERF_PROFILING_RESTORE_ID | PERF_PROFILING_MULTI_RESTORE_ID
  | PERF_PROFILING_SMPL_ID | PERF_CALLCHAIN_START_ID | PERF_CALLCHAIN_SMPL_ID
  | PERF_LL_START_ID | PERF_LL_SMPL_ID | PERF_STOP_ID | PERF_QUIT_ID
  | PERF_PQOS_CMT_START_ID | PERF_PQOS_CMT_SMPL_ID | PERF_PQOS_CMT_STOP_ID
  | PERF_UNCORE_START_ID | PERF_UNCORE_SMPL_ID | PERF_UNCORE_STOP_ID

text \<open>The union perf_task_t as one record; every task is zeroed before its fields are set.\<close>

record perf_task =
  t_id :: perf_taskid
  t_dispflag1 :: bool
  t_count_id :: perf_count_id
  t_count_ids :: "perf_count_id list"
  t_pid :: int
  t_lwpid :: int
  t_flags :: int
  t_nid :: int

definition task_zero :: perf_task where
  "task_zero = \<lparr>t_id = PERF_INVALID_ID, t_dispflag1 = False, t_count_id = PERF_COUNT_CORE_CLK,
     t_count_ids = [], t_pid = 0, t_lwpid = 0, t_flags = 0, t_nid = 0\<rparr>"

record perf_ctl =
  pc_status :: perf_status
  pc_task :: perf_task
  pc_inited :: bool
  pc_last_ms :: nat
  pc_last_ms_pqos :: nat

text \<open>The values of the second display flag, which the perf thread sets for sampling requests.\<close>

datatype flag2 = FLAG2_PROFILING_DATA_READY | FLAG2_PROFILING_DATA_FAIL

text \<open>
  The environment of a client call: the wake-ups after posting a task; the
  control structure and flag after a blocking wait for the second display flag;
  the clock; and, from the process group, the CMT task number of a tracked
  process and of a tracked thread (None if it is not tracked) and the processes
  in the order of CPU use with their CMT task numbers.
\<close>

record perf_env =
  pe_wakes :: "perf_ctl \<Rightarrow> (perf_ctl \<times> bool) list"
  pe_flag2 :: "perf_ctl \<Rightarrow> perf_ctl \<times> flag2"
  pe_now :: nat
  pe_proc :: "int \<Rightarrow> int option"
  pe_lwp :: "int \<Rightarrow> int \<Rightarrow> int option"
  pe_active :: "(int \<times> int) list"

definition PERF_PQOS_CMT_MAX :: nat where
  "PERF_PQOS_CMT_MAX = 10"

section \<open>Mailbox and status\<close>

definition task_valid :: "perf_task \<Rightarrow> bool" where
  "task_valid t = (case t_id t of PERF_INVALID_ID \<Rightarrow> False | _ \<Rightarrow> True)"

definition perf_task_set :: "perf_task \<Rightarrow> perf_ctl \<Rightarrow> perf_ctl" where
  "perf_task_set t c = c\<lparr>pc_task := t\<rparr>"

definition perf_status_set :: "perf_status \<Rightarrow> perf_ctl \<Rightarrow> perf_ctl" where
  "perf_status_set s c = c\<lparr>pc_status := s\<rparr>"

definition perf_status_set_no_signal :: "perf_status \<Rightarrow> perf_ctl \<Rightarrow> perf_ctl" where
  "perf_status_set_no_signal s c = c\<lparr>pc_status := s\<rparr>"

definition status_failed :: "perf_status \<Rightarrow> bool" where
  "status_failed s =
     (case s of
        PERF_STATUS_PROFILING_FAILED \<Rightarrow> True
      | PERF_STATUS_LL_FAILED \<Rightarrow> True
      | PERF_STATUS_CALLCHAIN_FAILED \<Rightarrow> True
      | _ \<Rightarrow> False)"

text \<open>
  The waiting loop, over the wake-ups: it checks the status only after
  pthread_cond_timedwait has returned.  No more wake-ups means that the caller
  is still blocked.
\<close>

fun perf_status_wait :: "perf_status \<Rightarrow> (perf_ctl \<times> bool) list \<Rightarrow> (perf_ctl \<times> int) option" where
  "perf_status_wait want [] = None"
| "perf_status_wait want ((c, timedout) # ws) =
     (if pc_status c = want then Some (c, 0)
      else if status_failed (pc_status c) then Some (c, -1)
      else if timedout then Some (c, -1)
      else perf_status_wait want ws)"

text \<open>The perf thread takes a valid task out of the mailbox by invalidating its number.\<close>

definition perf_task_take :: "perf_ctl \<Rightarrow> (perf_task \<times> perf_ctl) option" where
  "perf_task_take c =
     (if task_valid (pc_task c)
      then Some (pc_task c, c\<lparr>pc_task := (pc_task c)\<lparr>t_id := PERF_INVALID_ID\<rparr>\<rparr>)
      else None)"

section \<open>Requests that wait for the perf thread\<close>

definition perf_request :: "perf_env \<Rightarrow> perf_task \<Rightarrow> perf_status \<Rightarrow> perf_ctl \<Rightarrow> (perf_ctl \<times> int) option" where
  "perf_request env t want c = perf_status_wait want (pe_wakes env (perf_task_set t c))"

definition os_perf_allstop :: "perf_env \<Rightarrow> perf_ctl \<Rightarrow> (perf_ctl \<times> int) option" where
  "os_perf_allstop env = perf_request env (task_zero\<lparr>t_id := PERF_STOP_ID\<rparr>) PERF_STATUS_IDLE"

definition perf_allstop :: "perf_env \<Rightarrow> perf_ctl \<Rightarrow> (perf_ctl \<times> int) option" where
  "perf_allstop = os_perf_allstop"

definition perf_profiling_start :: "perf_env \<Rightarrow> perf_ctl \<Rightarrow> (perf_ctl \<times> int) option" where
  "perf_profiling_start env =
     perf_request env (task_zero\<lparr>t_id := PERF_PROFILING_START_ID\<rparr>) PERF_STATUS_PROFILING_STARTED"

definition perf_ll_start :: "perf_env \<Rightarrow> int \<Rightarrow> perf_ctl \<Rightarrow> (perf_ctl \<times> int) option" where
  "perf_ll_start env pid =
     perf_request env (task_zero\<lparr>t_id := PERF_LL_START_ID, t_pid := pid\<rparr>) PERF_STATUS_LL_STARTED"

definition os_perf_profiling_partpause ::
  "perf_env \<Rightarrow> perf_count_id \<Rightarrow> perf_ctl \<Rightarrow> (perf_ctl \<times> int) option" where
  "os_perf_profiling_partpause env i =
     perf_request env (task_zero\<lparr>t_id := PERF_PROFILING_PARTPAUSE_ID, t_count_id := i\<rparr>)
       PERF_STATUS_PROFILING_PART_STARTED"

definition os_perf_profiling_multipause ::
  "perf_env \<Rightarrow> perf_count_id list \<Rightarrow> perf_ctl \<Rightarrow> (perf_ctl \<times> int) option" where
  "os_perf_profiling_multipause env is =
     perf_request env (task_zero\<lparr>t_id := PERF_PROFILING_MULTIPAUSE_ID, t_count_ids := is\<rparr>)
       PERF_STATUS_PROFILING_MULTI_STARTED"

definition os_perf_profiling_restore ::
  "perf_env \<Rightarrow> perf_count_id \<Rightarrow> perf_ctl \<Rightarrow> (perf_ctl \<times> int) option" where
  "os_perf_profiling_restore env i =
     perf_request env (task_zero\<lparr>t_id := PERF_PROFILING_RESTORE_ID, t_count_id := i\<rparr>)
       PERF_STATUS_PROFILING_STARTED"

definition os_perf_profiling_multi_restore ::
  "perf_env \<Rightarrow> perf_count_id list \<Rightarrow> perf_ctl \<Rightarrow> (perf_ctl \<times> int) option" where
  "os_perf_profiling_multi_restore env is =
     perf_request env (task_zero\<lparr>t_id := PERF_PROFILING_MULTI_RESTORE_ID, t_count_ids := is\<rparr>)
       PERF_STATUS_PROFILING_STARTED"

definition perf_pqos_cmt_start ::
  "perf_env \<Rightarrow> int \<Rightarrow> int \<Rightarrow> int \<Rightarrow> perf_ctl \<Rightarrow> (perf_ctl \<times> int) option" where
  "perf_pqos_cmt_start env pid lwpid flags =
     perf_request env
       (task_zero\<lparr>t_id := PERF_PQOS_CMT_START_ID, t_pid := pid, t_lwpid := lwpid, t_flags := flags\<rparr>)
       PERF_STATUS_PQOS_CMT_STARTED"

definition perf_pqos_cmt_stop :: "perf_env \<Rightarrow> int \<Rightarrow> int \<Rightarrow> perf_ctl \<Rightarrow> (perf_ctl \<times> int) option" where
  "perf_pqos_cmt_stop env pid lwpid =
     perf_request env (task_zero\<lparr>t_id := PERF_PQOS_CMT_STOP_ID, t_pid := pid, t_lwpid := lwpid\<rparr>)
       PERF_STATUS_PROFILING_STARTED"

definition perf_uncore_stop :: "perf_env \<Rightarrow> int \<Rightarrow> perf_ctl \<Rightarrow> (perf_ctl \<times> int) option" where
  "perf_uncore_stop env nid =
     perf_request env (task_zero\<lparr>t_id := PERF_UNCORE_STOP_ID, t_nid := nid\<rparr>)
       PERF_STATUS_PROFILING_STARTED"

definition perf_uncore_start :: "perf_env \<Rightarrow> int \<Rightarrow> perf_ctl \<Rightarrow> (perf_ctl \<times> int) option" where
  "perf_uncore_start env nid =
     perf_request env (task_zero\<lparr>t_id := PERF_UNCORE_START_ID, t_nid := nid\<rparr>)
       PERF_STATUS_UNCORE_STARTED"

definition perf_uncore_setup :: "perf_env \<Rightarrow> int \<Rightarrow> perf_ctl \<Rightarrow> (perf_ctl \<times> int) option" where
  "perf_uncore_setup env nid c =
     do { (c1, r) \<leftarrow> perf_uncore_start env nid c; Some (c1, if r \<noteq> 0 then -1 else 0) }"

section \<open>Requests that only post a task\<close>

text \<open>perf_smpl_wait only sleeps and has no effect on the state.\<close>

definition perf_profiling_smpl :: "bool \<Rightarrow> perf_ctl \<Rightarrow> perf_ctl \<times> int" where
  "perf_profiling_smpl use_dispflag1 c =
     (perf_task_set (task_zero\<lparr>t_id := PERF_PROFILING_SMPL_ID, t_dispflag1 := use_dispflag1\<rparr>) c, 0)"

definition perf_ll_smpl :: "int \<Rightarrow> int \<Rightarrow> perf_ctl \<Rightarrow> perf_ctl \<times> int" where
  "perf_ll_smpl pid lwpid c =
     (perf_task_set (task_zero\<lparr>t_id := PERF_LL_SMPL_ID, t_pid := pid, t_lwpid := lwpid\<rparr>) c, 0)"

definition perf_pqos_cmt_smpl :: "int \<Rightarrow> int \<Rightarrow> perf_ctl \<Rightarrow> perf_ctl \<times> int" where
  "perf_pqos_cmt_smpl pid lwpid c =
     (perf_task_set (task_zero\<lparr>t_id := PERF_PQOS_CMT_SMPL_ID, t_pid := pid, t_lwpid := lwpid\<rparr>) c, 0)"

definition perf_uncore_smpl :: "int \<Rightarrow> perf_ctl \<Rightarrow> perf_ctl \<times> int" where
  "perf_uncore_smpl nid c =
     (perf_task_set (task_zero\<lparr>t_id := PERF_UNCORE_SMPL_ID, t_nid := nid\<rparr>) c, 0)"

section \<open>Queries of the status\<close>

definition os_profiling_started :: "perf_ctl \<Rightarrow> bool" where
  "os_profiling_started c \<longleftrightarrow>
     pc_status c = PERF_STATUS_PROFILING_PART_STARTED \<or>
     pc_status c = PERF_STATUS_PROFILING_STARTED \<or>
     pc_status c = PERF_STATUS_PQOS_CMT_STARTED"

definition perf_profiling_started :: "perf_ctl \<Rightarrow> bool" where
  "perf_profiling_started = os_profiling_started"

definition perf_callchain_started :: "perf_ctl \<Rightarrow> bool" where
  "perf_callchain_started c \<longleftrightarrow> pc_status c = PERF_STATUS_CALLCHAIN_STARTED"

definition perf_ll_started :: "perf_ctl \<Rightarrow> bool" where
  "perf_ll_started c \<longleftrightarrow> pc_status c = PERF_STATUS_LL_STARTED"

definition perf_pqos_cmt_started :: "perf_ctl \<Rightarrow> bool" where
  "perf_pqos_cmt_started c \<longleftrightarrow> pc_status c = PERF_STATUS_PQOS_CMT_STARTED"

definition perf_uncore_started :: "perf_ctl \<Rightarrow> bool" where
  "perf_uncore_started c \<longleftrightarrow> pc_status c = PERF_STATUS_UNCORE_STARTED"

section \<open>Pausing a counter\<close>

definition perf_profiling_partpause ::
  "perf_env \<Rightarrow> ui_count_id \<Rightarrow> perf_ctl \<Rightarrow> (perf_ctl \<times> int) option" where
  "perf_profiling_partpause env u c =
     (case get_ui_perf_count_map u of (n, is) \<Rightarrow>
        if n = -1 then Some (c, -1)
        else if n > 1 then os_perf_profiling_multipause env is c
        else os_perf_profiling_partpause env (is ! 0) c)"

definition perf_profiling_restore ::
  "perf_env \<Rightarrow> ui_count_id \<Rightarrow> perf_ctl \<Rightarrow> (perf_ctl \<times> int) option" where
  "perf_profiling_restore env u c =
     (case get_ui_perf_count_map u of (n, is) \<Rightarrow>
        if n = -1 then Some (c, -1)
        else if n > 1 then os_perf_profiling_multi_restore env is c
        else os_perf_profiling_restore env (is ! 0) c)"

section \<open>Cache monitoring of processes\<close>

text \<open>
  perf_pqos_active_proc_setup starts monitoring for those of the ten busiest
  processes that are not monitored yet; the loop stops at the first failure.
\<close>

fun perf_pqos_start_all :: "perf_env \<Rightarrow> int list \<Rightarrow> int \<Rightarrow> perf_ctl \<Rightarrow> (perf_ctl \<times> int) option" where
  "perf_pqos_start_all env [] flags c = Some (c, 0)"
| "perf_pqos_start_all env (pid # pids) flags c =
     do {
       (c1, r) \<leftarrow> perf_pqos_cmt_start env pid 0 flags c;
       if r \<noteq> 0 then Some (c1, -1) else perf_pqos_start_all env pids flags c1
     }"

definition pqos_new_pids :: "(int \<times> int) list \<Rightarrow> int list" where
  "pqos_new_pids procs = map fst (filter (\<lambda>(pid, tid). tid = 0) (take PERF_PQOS_CMT_MAX procs))"

definition perf_pqos_active_proc_setup ::
  "perf_env \<Rightarrow> int \<Rightarrow> bool \<Rightarrow> perf_ctl \<Rightarrow> (perf_ctl \<times> int) option" where
  "perf_pqos_active_proc_setup env flags refresh c =
     (let pids = pqos_new_pids (pe_active env)
      in do {
        (c1, r) \<leftarrow> perf_pqos_start_all env pids flags c;
        if r \<noteq> 0 then Some (c1, -1)
        else Some (if pids \<noteq> [] \<and> \<not> refresh then c1\<lparr>pc_last_ms_pqos := pe_now env\<rparr> else c1, 0)
      })"

definition perf_pqos_proc_setup ::
  "perf_env \<Rightarrow> int \<Rightarrow> int \<Rightarrow> int \<Rightarrow> perf_ctl \<Rightarrow> (perf_ctl \<times> int) option" where
  "perf_pqos_proc_setup env pid lwpid flags c =
     (case pe_proc env pid of
        None \<Rightarrow> Some (c, -1)
      | Some tid \<Rightarrow>
          if lwpid = 0 \<and> tid \<noteq> 0 then Some (c\<lparr>pc_last_ms_pqos := pe_now env\<rparr>, 0)
          else if lwpid \<noteq> 0 \<and> pe_lwp env pid lwpid = None then Some (c, -1)
          else if lwpid \<noteq> 0 \<and> pe_lwp env pid lwpid \<noteq> Some 0
            then Some (c\<lparr>pc_last_ms_pqos := pe_now env\<rparr>, 0)
          else do {
            (c1, r) \<leftarrow> perf_pqos_cmt_start env pid lwpid flags c;
            Some (c1\<lparr>pc_last_ms_pqos := pe_now env\<rparr>, if r \<noteq> 0 then -1 else 0)
          })"

section \<open>What a request returns\<close>

text \<open>
  pthread_cond_timedwait with a deadline returns ETIMEDOUT once the deadline
  has passed: an environment is timely when every wait sees a timeout in the end.
\<close>

definition perf_timely :: "perf_env \<Rightarrow> bool" where
  "perf_timely env \<longleftrightarrow> (\<forall>c. list_ex snd (pe_wakes env c))"

text \<open>A wake-up that ends the wait.\<close>

definition wake_decides :: "perf_status \<Rightarrow> perf_ctl \<times> bool \<Rightarrow> bool" where
  "wake_decides want w \<longleftrightarrow> pc_status (fst w) = want \<or> status_failed (pc_status (fst w)) \<or> snd w"

lemma perf_status_wait_find:
  "perf_status_wait want ws =
     map_option (\<lambda>w. (fst w, if pc_status (fst w) = want then 0 else -1)) (find (wake_decides want) ws)"
  by (induction ws) (auto simp: wake_decides_def)

lemma find_None_list_ex: "find P xs = None \<longleftrightarrow> \<not> list_ex P xs"
  by (induction xs) auto

lemma perf_status_wait_returns:
  "list_ex snd ws \<Longrightarrow> \<exists>c r. perf_status_wait want ws = Some (c, r)"
  by (induction ws) (auto simp: perf_status_wait_find wake_decides_def)

lemma perf_request_returns:
  assumes "perf_timely env"
  obtains c' r where "perf_request env t want c = Some (c', r)"
  using assms perf_status_wait_returns by (auto simp: perf_request_def perf_timely_def) metis

lemma perf_request_some:
  "perf_timely env \<Longrightarrow> \<exists>c' r. perf_request env t want c = Some (c', r)"
  using perf_status_wait_returns by (simp add: perf_request_def perf_timely_def)

lemmas perf_request_defs =
  perf_allstop_def os_perf_allstop_def perf_profiling_start_def perf_ll_start_def
  os_perf_profiling_partpause_def os_perf_profiling_multipause_def os_perf_profiling_restore_def
  os_perf_profiling_multi_restore_def perf_pqos_cmt_start_def perf_pqos_cmt_stop_def
  perf_uncore_stop_def perf_uncore_start_def

lemma perf_calls_return:
  assumes "perf_timely env"
  shows "\<exists>c' r. perf_profiling_partpause env u c = Some (c', r)"
    and "\<exists>c' r. perf_profiling_restore env u c = Some (c', r)"
    and "\<exists>c' r. perf_uncore_setup env n c = Some (c', r)"
    and "\<exists>c' r. perf_pqos_proc_setup env p lw fl c = Some (c', r)"
proof -
  note R = perf_request_returns [OF assms]
  show "\<exists>c' r. perf_profiling_partpause env u c = Some (c', r)"
    unfolding perf_profiling_partpause_def perf_request_defs by (auto split: prod.split) (metis R)+
  show "\<exists>c' r. perf_profiling_restore env u c = Some (c', r)"
    unfolding perf_profiling_restore_def perf_request_defs by (auto split: prod.split) (metis R)+
  show "\<exists>c' r. perf_uncore_setup env n c = Some (c', r)"
    unfolding perf_uncore_setup_def perf_request_defs
    by (rule R [of "task_zero\<lparr>t_id := PERF_UNCORE_START_ID, t_nid := n\<rparr>" PERF_STATUS_UNCORE_STARTED c]) simp
  show "\<exists>c' r. perf_pqos_proc_setup env p lw fl c = Some (c', r)"
    unfolding perf_pqos_proc_setup_def perf_request_defs
    by (rule R [of "task_zero\<lparr>t_id := PERF_PQOS_CMT_START_ID, t_pid := p, t_lwpid := lw, t_flags := fl\<rparr>"
          PERF_STATUS_PQOS_CMT_STARTED c]) (auto split: option.split)
qed

lemma perf_pqos_start_all_returns:
  assumes "perf_timely env"
  shows "\<exists>c' r. perf_pqos_start_all env pids flags c = Some (c', r)"
proof (induction pids arbitrary: c)
  case (Cons pid pids)
  obtain c1 r1 where "perf_pqos_cmt_start env pid 0 flags c = Some (c1, r1)"
    using perf_request_returns [OF assms] unfolding perf_request_defs by metis
  then show ?case using Cons.IH [of c1] by auto
qed simp

lemma perf_pqos_active_proc_setup_returns:
  assumes "perf_timely env"
  shows "\<exists>c' r. perf_pqos_active_proc_setup env fl rf c = Some (c', r)"
  using perf_pqos_start_all_returns [OF assms, of "pqos_new_pids (pe_active env)" fl c]
  by (auto simp: perf_pqos_active_proc_setup_def)

section \<open>Properties\<close>

text \<open>
  Waiting for a status returns at the first wake-up that shows the wanted
  status, one of the failure statuses the code knows, or a timeout, with 0 for
  the wanted status (also when the wait has just timed out) and -1 otherwise;
  without such a wake-up it keeps waiting.
\<close>

theorem perf_status_wait_result:
  "perf_status_wait want ws =
     map_option (\<lambda>w. (fst w, if pc_status (fst w) = want then 0 else -1))
       (find (\<lambda>w. pc_status (fst w) = want \<or>
                  pc_status (fst w) \<in> {PERF_STATUS_PROFILING_FAILED, PERF_STATUS_LL_FAILED,
                                       PERF_STATUS_CALLCHAIN_FAILED} \<or> snd w) ws)"
proof -
  have "wake_decides want =
      (\<lambda>w. pc_status (fst w) = want \<or>
           pc_status (fst w) \<in> {PERF_STATUS_PROFILING_FAILED, PERF_STATUS_LL_FAILED,
                                PERF_STATUS_CALLCHAIN_FAILED} \<or> snd w)"
    by (auto simp: fun_eq_iff wake_decides_def status_failed_def split: perf_status.splits)
  then show ?thesis by (simp add: perf_status_wait_find)
qed

text \<open>
  A failed start of cache or uncore monitoring is not recognised as a
  failure: the waiter ignores every wake-up that reports it and only stops at
  the timeout, unlike for the other three kinds of counting.
\<close>

theorem pqos_failure_waits_for_timeout:
  assumes "list_all (\<lambda>w. \<not> snd w \<and> pc_status (fst w) \<in>
             {PERF_STATUS_PQOS_CMT_FAILED, PERF_STATUS_UNCORE_FAILED}) ws"
    and "want = PERF_STATUS_PQOS_CMT_STARTED \<or> want = PERF_STATUS_UNCORE_STARTED"
  shows "perf_status_wait want ws = None \<and>
         perf_status_wait want (ws @ [(c, True)]) = Some (c, if pc_status c = want then 0 else -1)"
  using assms by (induction ws) (auto simp: status_failed_def)

definition ctl_failed :: perf_ctl where
  "ctl_failed = \<lparr>pc_status = PERF_STATUS_PQOS_CMT_FAILED, pc_task = task_zero, pc_inited = True,
     pc_last_ms = 0, pc_last_ms_pqos = 0\<rparr>"

lemma pqos_failure_waits_for_timeout_witness:
  "perf_status_wait PERF_STATUS_PQOS_CMT_STARTED [(ctl_failed, False)] = None"
  using pqos_failure_waits_for_timeout
    [of "[(ctl_failed, False)]" PERF_STATUS_PQOS_CMT_STARTED ctl_failed]
  by (simp add: ctl_failed_def)

end
