(* ===== verification/Pf.thy ===== *)
theory Pf
  imports Node Perf Sample
begin

text \<open>
  The perf events of a processor and of the uncore units of a node
  (common/os/pfwrapper.c) and the operations the perf thread runs on every
  processor (first half of common/os/os_perf.c).

  The state of the kernel: the open event descriptors, the mapped ring buffers
  with their contents, and the events that are enabled.  What perf_event_open,
  mmap, ioctl and read answer is a parameter; what a successful call changes is
  written out.  MAP_FAILED and NULL are both None.
\<close>

section \<open>The kernel\<close>

record pkern = kern +
  k_on :: "int set"
  k_ring :: "addr \<Rightarrow> ring"

type_synonym pcpu_op = "unit pkern_ext cpu_op"

record pf_conf =
  pf_count_id :: perf_count_id
  pf_type :: u32
  pf_config :: u64
  pf_config1 :: u64
  pf_sample_period :: u64
  pf_exclude_guest :: bool

text \<open>The fields of struct perf_event_attr the program sets; the others are 0.\<close>

record perf_event_attr =
  at_type :: u32
  at_config :: u64
  at_config1 :: u64
  at_sample_period :: u64
  at_sample_type :: "string list"
  at_read_format :: "string list"
  at_size_set :: bool
  at_disabled :: bool
  at_inherit :: bool
  at_precise_ip :: nat
  at_exclude_guest :: bool

definition attr_zero :: perf_event_attr where
  "attr_zero = \<lparr>at_type = 0, at_config = 0, at_config1 = 0, at_sample_period = 0, at_sample_type = [],
     at_read_format = [], at_size_set = False, at_disabled = False, at_inherit = False, at_precise_ip = 0,
     at_exclude_guest = False\<rparr>"

datatype pf_ioctl = IOC_ENABLE | IOC_DISABLE | IOC_SET_OUTPUT int

record pf_env =
  pfe_open :: "pkern \<Rightarrow> perf_event_attr \<Rightarrow> int \<Rightarrow> int \<Rightarrow> int"
  pfe_mmap :: "pkern \<Rightarrow> int \<Rightarrow> int \<Rightarrow> ptr"
  pfe_ioctl :: "pkern \<Rightarrow> int \<Rightarrow> pf_ioctl \<Rightarrow> int"
  pfe_ring :: ring_conf
  pfe_conf :: "perf_count_id \<Rightarrow> pf_conf"
  pfe_ll_conf :: pf_conf

text \<open>
  What the kernel promises: a new descriptor is not in use, a new mapping is
  not in use.
\<close>

definition pf_fresh :: "pf_env \<Rightarrow> bool" where
  "pf_fresh env \<longleftrightarrow>
     (\<forall>k a c g. pfe_open env k a c g \<ge> 0 \<longrightarrow> pfe_open env k a c g \<notin> k_fds k) \<and>
     (\<forall>k fd n m. pfe_mmap env k fd n = Some m \<longrightarrow> m \<notin> k_maps k)"

definition pf_event_open :: "pf_env \<Rightarrow> perf_event_attr \<Rightarrow> int \<Rightarrow> int \<Rightarrow> pkern \<Rightarrow> pkern \<times> int" where
  "pf_event_open env attr cpuid group_fd k =
     (let fd = pfe_open env k attr cpuid group_fd
      in if fd < 0 then (k, fd)
         else (k\<lparr>k_fds := insert fd (k_fds k),
                 k_on := (if at_disabled attr then k_on k - {fd} else insert fd (k_on k))\<rparr>, fd))"

definition pf_close :: "int \<Rightarrow> pkern \<Rightarrow> pkern" where
  "pf_close fd k = k\<lparr>k_fds := k_fds k - {fd}\<rparr>"

definition pf_mmap :: "pf_env \<Rightarrow> int \<Rightarrow> pkern \<Rightarrow> pkern \<times> ptr" where
  "pf_mmap env fd k =
     (case pfe_mmap env k fd (rc_mapsize (pfe_ring env)) of
        None \<Rightarrow> (k, None)
      | Some m \<Rightarrow>
          (k\<lparr>k_maps := insert m (k_maps k),
             k_ring := (k_ring k)(m := \<lparr>rg_head = 0, rg_tail = 0,
               rg_data = replicate (nat (rc_mapsize (pfe_ring env) - rc_pagesize (pfe_ring env))) 0\<rparr>)\<rparr>, Some m))"

definition do_ioctl :: "pf_env \<Rightarrow> int \<Rightarrow> pf_ioctl \<Rightarrow> pkern \<Rightarrow> pkern \<times> int" where
  "do_ioctl env fd io k =
     (let r = pfe_ioctl env k fd io
      in (if r \<noteq> 0 then k
          else (case io of
                  IOC_ENABLE \<Rightarrow> k\<lparr>k_on := insert fd (k_on k)\<rparr>
                | IOC_DISABLE \<Rightarrow> k\<lparr>k_on := k_on k - {fd}\<rparr>
                | IOC_SET_OUTPUT _ \<Rightarrow> k), r))"

section \<open>Events of a processor\<close>

definition pf_profiling_setup :: "pf_env \<Rightarrow> perf_count_id \<Rightarrow> pf_conf \<Rightarrow> perf_cpu \<Rightarrow> pkern \<Rightarrow> perf_cpu \<times> pkern \<times> int" where
  "pf_profiling_setup env i conf c k =
     (let leader = (i = PERF_COUNT_CORE_CLK);
          attr = attr_zero\<lparr>at_type := pf_type conf, at_config := pf_config conf, at_config1 := pf_config1 conf,
                   at_sample_period := pf_sample_period conf,
                   at_sample_type := [''TID'', ''READ'', ''CALLCHAIN''],
                   at_read_format := [''GROUP'', ''TOTAL_TIME_ENABLED'', ''TOTAL_TIME_RUNNING''],
                   at_size_set := True, at_disabled := leader\<rparr>;
          group_fd = (if leader then -1 else cpu_fds c PERF_COUNT_CORE_CLK);
          (k1, fd) = pf_event_open env attr (cpu_cpuid c) group_fd k
      in if fd < 0 then (c\<lparr>cpu_fds := (cpu_fds c)(i := INVALID_FD)\<rparr>, k1, -1)
         else
           let c1 = c\<lparr>cpu_fds := (cpu_fds c)(i := fd)\<rparr>
           in if leader then
                (case pf_mmap env fd k1 of
                   (k2, None) \<Rightarrow>
                     (c1\<lparr>cpu_map_base := None, cpu_fds := (cpu_fds c1)(i := INVALID_FD)\<rparr>, pf_close fd k2, -1)
                 | (k2, Some m) \<Rightarrow>
                     (c1\<lparr>cpu_map_base := Some m, cpu_map_len := rc_mapsize (pfe_ring env),
                         cpu_map_mask := rc_mapmask (pfe_ring env)\<rparr>, k2, 0))
              else
                (case do_ioctl env fd (IOC_SET_OUTPUT (cpu_fds c1 PERF_COUNT_CORE_CLK)) k1 of
                   (k2, r) \<Rightarrow>
                     if r \<noteq> 0 then (c1\<lparr>cpu_fds := (cpu_fds c1)(i := INVALID_FD)\<rparr>, pf_close fd k2, -1)
                     else (c1, k2, 0)))"

definition pf_profiling_start :: "pf_env \<Rightarrow> perf_count_id \<Rightarrow> perf_cpu \<Rightarrow> pkern \<Rightarrow> pkern \<times> int" where
  "pf_profiling_start env i c k =
     (if cpu_fds c i \<noteq> INVALID_FD then do_ioctl env (cpu_fds c i) IOC_ENABLE k else (k, 0))"

definition pf_profiling_stop :: "pf_env \<Rightarrow> perf_count_id \<Rightarrow> perf_cpu \<Rightarrow> pkern \<Rightarrow> pkern \<times> int" where
  "pf_profiling_stop env i c k =
     (if cpu_fds c i \<noteq> INVALID_FD then do_ioctl env (cpu_fds c i) IOC_DISABLE k else (k, 0))"

definition pf_profiling_allstart :: "pf_env \<Rightarrow> perf_cpu \<Rightarrow> pkern \<Rightarrow> pkern \<times> int" where
  "pf_profiling_allstart env = pf_profiling_start env PERF_COUNT_CORE_CLK"

definition pf_profiling_allstop :: "pf_env \<Rightarrow> perf_cpu \<Rightarrow> pkern \<Rightarrow> pkern \<times> int" where
  "pf_profiling_allstop env = pf_profiling_stop env PERF_COUNT_CORE_CLK"

definition pf_ll_setup :: "pf_env \<Rightarrow> pf_conf \<Rightarrow> perf_cpu \<Rightarrow> pkern \<Rightarrow> perf_cpu \<times> pkern \<times> int" where
  "pf_ll_setup env conf c k =
     (let attr = attr_zero\<lparr>at_type := pf_type conf, at_config := pf_config conf, at_config1 := pf_config1 conf,
                   at_sample_period := pf_sample_period conf, at_precise_ip := 1,
                   at_exclude_guest := pf_exclude_guest conf,
                   at_sample_type := [''TID'', ''ADDR'', ''CPU'', ''WEIGHT'', ''CALLCHAIN'', ''DATA_SRC''],
                   at_disabled := True\<rparr>;
          (k1, fd) = pf_event_open env attr (cpu_cpuid c) (-1) k
      in if fd < 0 then (c\<lparr>cpu_fds := (cpu_fds c)(PERF_COUNT_CORE_CLK := INVALID_FD)\<rparr>, k1, -1)
         else
           let c1 = c\<lparr>cpu_fds := (cpu_fds c)(PERF_COUNT_CORE_CLK := fd)\<rparr>
           in (case pf_mmap env fd k1 of
                 (k2, None) \<Rightarrow>
                   (c1\<lparr>cpu_map_base := None, cpu_fds := (cpu_fds c1)(PERF_COUNT_CORE_CLK := INVALID_FD)\<rparr>, pf_close fd k2, -1)
               | (k2, Some m) \<Rightarrow>
                   (c1\<lparr>cpu_map_base := Some m, cpu_map_len := rc_mapsize (pfe_ring env),
                       cpu_map_mask := rc_mapmask (pfe_ring env)\<rparr>, k2, 0)))"

definition pf_ll_start :: "pf_env \<Rightarrow> perf_cpu \<Rightarrow> pkern \<Rightarrow> pkern \<times> int" where
  "pf_ll_start env c k =
     (if cpu_fds c PERF_COUNT_CORE_CLK \<noteq> INVALID_FD
      then do_ioctl env (cpu_fds c PERF_COUNT_CORE_CLK) IOC_ENABLE k else (k, 0))"

definition pf_ll_stop :: "pf_env \<Rightarrow> perf_cpu \<Rightarrow> pkern \<Rightarrow> pkern \<times> int" where
  "pf_ll_stop env c k =
     (if cpu_fds c PERF_COUNT_CORE_CLK \<noteq> INVALID_FD
      then do_ioctl env (cpu_fds c PERF_COUNT_CORE_CLK) IOC_DISABLE k else (k, 0))"

text \<open>Draining the ring of a processor; without a mapping the access is undefined.\<close>

definition cpu_ring :: "perf_cpu \<Rightarrow> 'a pkern_scheme \<Rightarrow> (addr \<times> ring) option" where
  "cpu_ring c k = do { m \<leftarrow> cpu_map_base c; if m \<in> k_maps k then Some (m, k_ring k m) else None }"

definition profiling_discard :: "pf_env \<Rightarrow> perf_cpu \<Rightarrow> pkern \<Rightarrow> pkern option" where
  "profiling_discard env c k =
     do {
       (m, r) \<leftarrow> cpu_ring c k;
       (r1, _) \<leftarrow> pf_profiling_record (pfe_ring env) (\<lambda>v _ _. v) r
                    \<lparr>pr_pid = 0, pr_tid = 0, pr_period = 0, pr_countval = (\<lambda>_. 0), pr_ip_num = 0, pr_ips = []\<rparr> None;
       Some (k\<lparr>k_ring := (k_ring k)(m := r1)\<rparr>)
     }"

section \<open>Operations on every processor\<close>

definition cpu_event_op :: "(perf_cpu \<Rightarrow> pkern \<Rightarrow> pkern \<times> int) \<Rightarrow> perf_cpu \<Rightarrow> pkern \<Rightarrow> perf_cpu \<times> pkern" where
  "cpu_event_op op c k =
     (if \<not> event_valid c then (c, k)
      else (case op c k of (k1, r) \<Rightarrow> if r \<noteq> 0 then pf_resource_free c k1 else (c, k1)))"

definition INVALID_CONFIG :: u64 where "INVALID_CONFIG = - 1"

fun profiling_setup_all ::
  "pf_env \<Rightarrow> perf_count_id list \<Rightarrow> perf_cpu \<Rightarrow> pkern \<Rightarrow> perf_cpu \<times> pkern \<times> int" where
  "profiling_setup_all env [] c k = (c, k, 0)"
| "profiling_setup_all env (i # is) c k =
     (if pf_config (pfe_conf env i) = INVALID_CONFIG then (c, k, 0)
      else (case pf_profiling_setup env i (pfe_conf env i) c k of
              (c1, k1, r) \<Rightarrow> if r \<noteq> 0 then (c1, k1, -1) else profiling_setup_all env is c1 k1))"

definition cpu_profiling_setup :: "pf_env \<Rightarrow> pcpu_op" where
  "cpu_profiling_setup env c k =
     (case profiling_setup_all env counter_ids (cpu_init c) k of
        (c1, k1, ret) \<Rightarrow>
          if ret \<noteq> 0 then (case pf_resource_free c1 k1 of (c2, k2) \<Rightarrow> Some (c2, k2, ret))
          else Some (c1, k1, ret))"

definition cpu_profiling_start :: "pf_env \<Rightarrow> pcpu_op" where
  "cpu_profiling_start env c k =
     (case cpu_event_op (pf_profiling_allstart env) c k of (c1, k1) \<Rightarrow> Some (c1, k1, 0))"

definition cpu_profiling_stop :: "pf_env \<Rightarrow> pcpu_op" where
  "cpu_profiling_stop env c k =
     (case cpu_event_op (pf_profiling_allstop env) c k of (c1, k1) \<Rightarrow> Some (c1, k1, 0))"

definition cpu_resource_free :: pcpu_op where
  "cpu_resource_free c k = (case pf_resource_free c k of (c1, k1) \<Rightarrow> Some (c1, k1, 0))"

definition cpu_profiling_setupstart :: "pf_env \<Rightarrow> pcpu_op" where
  "cpu_profiling_setupstart env c k =
     do {
       (c1, k1, r) \<leftarrow> cpu_profiling_setup env c k;
       if r \<noteq> 0 then Some (c1, k1, -1) else cpu_profiling_start env c1 k1
     }"

text \<open>The counters of a group apart from its leader, in the order of the loops from 1.\<close>

definition follower_ids :: "perf_count_id list" where
  "follower_ids = [PERF_COUNT_RMA, PERF_COUNT_CLK, PERF_COUNT_IR, PERF_COUNT_LMA]"

definition whole_group :: "perf_count_id \<Rightarrow> bool" where
  "whole_group i \<longleftrightarrow> i = PERF_COUNT_INVALID \<or> i = PERF_COUNT_CORE_CLK"

fun switch_events :: "pf_env \<Rightarrow> (perf_count_id \<Rightarrow> bool) \<Rightarrow> perf_count_id list \<Rightarrow> perf_cpu \<Rightarrow> pkern \<Rightarrow> pkern" where
  "switch_events env on [] c k = k"
| "switch_events env on (i # is) c k =
     switch_events env on is c
       (fst (if on i then pf_profiling_start env i c k else pf_profiling_stop env i c k))"

definition cpu_profiling_partpause :: "pf_env \<Rightarrow> perf_count_id \<Rightarrow> pcpu_op" where
  "cpu_profiling_partpause env i c k =
     (if whole_group i then (case pf_profiling_allstop env c k of (k1, r) \<Rightarrow> Some (c, k1, r))
      else Some (c, switch_events env (\<lambda>j. j = i) follower_ids c k, 0))"

definition UI_PERF_MAP_MAX :: nat where "UI_PERF_MAP_MAX = 2"

definition cpu_profiling_multipause :: "pf_env \<Rightarrow> perf_count_id list \<Rightarrow> pcpu_op" where
  "cpu_profiling_multipause env is c k =
     Some (c, switch_events env (\<lambda>j. j \<in> set (take UI_PERF_MAP_MAX is)) follower_ids c k, 0)"

definition cpu_profiling_restore :: "pf_env \<Rightarrow> perf_count_id \<Rightarrow> pcpu_op" where
  "cpu_profiling_restore env i c k =
     (if whole_group i then (case pf_profiling_allstart env c k of (k1, r) \<Rightarrow> Some (c, k1, r))
      else do {
        k1 \<leftarrow> profiling_discard env c (fst (pf_profiling_stop env i c k));
        Some (c, switch_events env (\<lambda>_. True) follower_ids c k1, 0)
      })"

fun stop_listed :: "pf_env \<Rightarrow> perf_count_id list \<Rightarrow> perf_cpu \<Rightarrow> pkern \<Rightarrow> pkern" where
  "stop_listed env [] c k = k"
| "stop_listed env (i # is) c k =
     stop_listed env is c (if \<not> whole_group i then fst (pf_profiling_stop env i c k) else k)"

definition cpu_profiling_multi_restore :: "pf_env \<Rightarrow> perf_count_id list \<Rightarrow> pcpu_op" where
  "cpu_profiling_multi_restore env is c k =
     do {
       k1 \<leftarrow> profiling_discard env c (stop_listed env (take UI_PERF_MAP_MAX is) c k);
       Some (c, switch_events env (\<lambda>_. True) follower_ids c k1, 0)
     }"

definition cpu_ll_setup :: "pf_env \<Rightarrow> pcpu_op" where
  "cpu_ll_setup env c k =
     (case pf_ll_setup env (pfe_ll_conf env) (cpu_init c) k of
        (c1, k1, r) \<Rightarrow>
          if r \<noteq> 0 then (case pf_resource_free c1 k1 of (c2, k2) \<Rightarrow> Some (c2, k2, -1))
          else Some (c1, k1, 0))"

definition cpu_ll_start :: "pf_env \<Rightarrow> pcpu_op" where
  "cpu_ll_start env c k = (case cpu_event_op (pf_ll_start env) c k of (c1, k1) \<Rightarrow> Some (c1, k1, 0))"

definition cpu_ll_stop :: "pf_env \<Rightarrow> pcpu_op" where
  "cpu_ll_stop env c k = (case cpu_event_op (pf_ll_stop env) c k of (c1, k1) \<Rightarrow> Some (c1, k1, 0))"

definition cpu_ll_setupstart :: "pf_env \<Rightarrow> pcpu_op" where
  "cpu_ll_setupstart env c k =
     do {
       (c1, k1, r) \<leftarrow> cpu_ll_setup env c k;
       if r \<noteq> 0 then Some (c1, k1, -1) else cpu_ll_start env c1 k1
     }"

section \<open>Uncore units\<close>

text \<open>
  The units of a node are opened on its first processor (cpuid below).
\<close>

text \<open>
  read_fd: the outcomes of the calls of read in order.  An interrupted call is
  repeated, a short read continued; no outcome left means that the loop is
  still running.
\<close>

datatype read_result = Read_eintr | Read_error | Read_data "byte list"

fun read_fd :: "read_result list \<Rightarrow> nat \<Rightarrow> byte list \<Rightarrow> byte list option option" where
  "read_fd rs 0 buf = Some (Some buf)"
| "read_fd [] (Suc left) buf = None"
| "read_fd (Read_eintr # rs) (Suc left) buf = read_fd rs (Suc left) buf"
| "read_fd (Read_error # rs) (Suc left) buf = Some None"
| "read_fd (Read_data bs # rs) (Suc left) buf = read_fd rs (Suc left - length bs) (buf @ bs)"

definition words3 :: "byte list \<Rightarrow> u64 list" where
  "words3 bs = [le64 (take 8 bs), le64 (take 8 (drop 8 bs)), le64 (take 8 (drop 16 bs))]"

definition qpi_reset :: "qpi_info \<Rightarrow> qpi_info" where
  "qpi_reset q = q\<lparr>qi_value_scaled := 0, qi_values := replicate 3 0\<rparr>"

definition imc_reset :: "imc_info \<Rightarrow> imc_info" where
  "imc_reset q = q\<lparr>ii_value_scaled := 0, ii_values := replicate 3 0\<rparr>"

fun pf_uncoreqpi_free :: "qpi_info list \<Rightarrow> pkern \<Rightarrow> qpi_info list \<times> pkern" where
  "pf_uncoreqpi_free [] k = ([], k)"
| "pf_uncoreqpi_free (q # qs) k =
     (case pf_uncoreqpi_free qs (if qi_fd q \<noteq> INVALID_FD then pf_close (qi_fd q) k else k) of
        (qs1, k1) \<Rightarrow> ((qpi_reset q)\<lparr>qi_fd := INVALID_FD\<rparr> # qs1, k1))"

fun pf_uncoreimc_free :: "imc_info list \<Rightarrow> pkern \<Rightarrow> imc_info list \<times> pkern" where
  "pf_uncoreimc_free [] k = ([], k)"
| "pf_uncoreimc_free (q # qs) k =
     (case pf_uncoreimc_free qs (if ii_fd q \<noteq> INVALID_FD then pf_close (ii_fd q) k else k) of
        (qs1, k1) \<Rightarrow> ((imc_reset q)\<lparr>ii_fd := INVALID_FD\<rparr> # qs1, k1))"

definition uncore_attr :: "int \<Rightarrow> int \<Rightarrow> perf_event_attr" where
  "uncore_attr typ config =
     attr_zero\<lparr>at_type := word_of_int typ, at_size_set := True, at_config := word_of_int config,
       at_disabled := True, at_inherit := True, at_read_format := [''TOTAL_TIME_ENABLED'', ''TOTAL_TIME_RUNNING'']\<rparr>"

fun pf_uncoreqpi_setup :: "pf_env \<Rightarrow> int \<Rightarrow> qpi_info list \<Rightarrow> pkern \<Rightarrow> qpi_info list \<times> pkern \<times> int" where
  "pf_uncoreqpi_setup env cpuid [] k = ([], k, 0)"
| "pf_uncoreqpi_setup env cpuid (q # qs) k =
     (if qi_type q = 0 then
        (case pf_uncoreqpi_setup env cpuid qs k of (qs1, k1, r) \<Rightarrow> (q # qs1, k1, r))
      else
        (case pf_event_open env (uncore_attr (qi_type q) (qi_config q)) cpuid (-1) k of
           (k1, fd) \<Rightarrow>
             if fd < 0 then ((qpi_reset q)\<lparr>qi_fd := INVALID_FD\<rparr> # qs, k1, -1)
             else (case pf_uncoreqpi_setup env cpuid qs k1 of
                     (qs1, k2, r) \<Rightarrow> ((qpi_reset q)\<lparr>qi_fd := fd\<rparr> # qs1, k2, r))))"

fun pf_uncoreimc_setup :: "pf_env \<Rightarrow> int \<Rightarrow> imc_info list \<Rightarrow> pkern \<Rightarrow> imc_info list \<times> pkern \<times> int" where
  "pf_uncoreimc_setup env cpuid [] k = ([], k, 0)"
| "pf_uncoreimc_setup env cpuid (q # qs) k =
     (if ii_type q = 0 then
        (case pf_uncoreimc_setup env cpuid qs k of (qs1, k1, r) \<Rightarrow> (q # qs1, k1, r))
      else
        (case pf_event_open env (uncore_attr (ii_type q) 0xff04) cpuid (-1) k of
           (k1, fd) \<Rightarrow>
             if fd < 0 then ((imc_reset q)\<lparr>ii_fd := INVALID_FD\<rparr> # qs, k1, -1)
             else (case pf_uncoreimc_setup env cpuid qs k1 of
                     (qs1, k2, r) \<Rightarrow> ((imc_reset q)\<lparr>ii_fd := fd\<rparr> # qs1, k2, r))))"

fun pf_uncore_start :: "pf_env \<Rightarrow> int list \<Rightarrow> pkern \<Rightarrow> pkern" where
  "pf_uncore_start env [] k = k"
| "pf_uncore_start env (fd # fds) k =
     pf_uncore_start env fds (if fd \<noteq> INVALID_FD then fst (do_ioctl env fd IOC_ENABLE k) else k)"

definition pf_uncoreqpi_start :: "pf_env \<Rightarrow> qpi_info list \<Rightarrow> pkern \<Rightarrow> pkern" where
  "pf_uncoreqpi_start env qs k = pf_uncore_start env (map qi_fd qs) k"

definition pf_uncoreimc_start :: "pf_env \<Rightarrow> imc_info list \<Rightarrow> pkern \<Rightarrow> pkern" where
  "pf_uncoreimc_start env qs k = pf_uncore_start env (map ii_fd qs) k"

text \<open>
  Sampling reads value, time enabled and time running of each open unit and
  stores the scaled increase; a unit whose read fails keeps its values.
\<close>

definition scaled_increase :: "(u64 \<Rightarrow> u64 \<Rightarrow> u64 \<Rightarrow> u64) \<Rightarrow> u64 list \<Rightarrow> u64 list \<Rightarrow> u64" where
  "scaled_increase scale new old = scale (new ! 0 - old ! 0) (new ! 1 - old ! 1) (new ! 2 - old ! 2)"

fun pf_uncoreqpi_smpl ::
  "(u64 \<Rightarrow> u64 \<Rightarrow> u64 \<Rightarrow> u64) \<Rightarrow> (int \<Rightarrow> read_result list) \<Rightarrow> qpi_info list \<Rightarrow> qpi_info list option" where
  "pf_uncoreqpi_smpl scale rd [] = Some []"
| "pf_uncoreqpi_smpl scale rd (q # qs) =
     do {
       q1 \<leftarrow> (if qi_fd q = INVALID_FD then Some q
              else do {
                res \<leftarrow> read_fd (rd (qi_fd q)) 24 [];
                Some (case res of
                        None \<Rightarrow> q
                      | Some b \<Rightarrow> q\<lparr>qi_value_scaled := scaled_increase scale (words3 b) (qi_values q),
                                    qi_values := words3 b\<rparr>)
              });
       qs1 \<leftarrow> pf_uncoreqpi_smpl scale rd qs;
       Some (q1 # qs1)
     }"

fun pf_uncoreimc_smpl ::
  "(u64 \<Rightarrow> u64 \<Rightarrow> u64 \<Rightarrow> u64) \<Rightarrow> (int \<Rightarrow> read_result list) \<Rightarrow> imc_info list \<Rightarrow> imc_info list option" where
  "pf_uncoreimc_smpl scale rd [] = Some []"
| "pf_uncoreimc_smpl scale rd (q # qs) =
     do {
       q1 \<leftarrow> (if ii_fd q = INVALID_FD then Some q
              else do {
                res \<leftarrow> read_fd (rd (ii_fd q)) 24 [];
                Some (case res of
                        None \<Rightarrow> q
                      | Some b \<Rightarrow> q\<lparr>ii_value_scaled := scaled_increase scale (words3 b) (ii_values q),
                                    ii_values := words3 b\<rparr>)
              });
       qs1 \<leftarrow> pf_uncoreimc_smpl scale rd qs;
       Some (q1 # qs1)
     }"

end
