(* ===== verification/PfRes.thy ===== *)
theory PfRes
  imports Pf
begin

text \<open>
  Kernel resources and who holds them.  The descriptors and mappings a slot
  names are multisets; an operation on a slot is balanced when what the kernel
  has gained is what the slot has gained.  The locale res_op states that
  contract and carries it over the walk over all processors; it is interpreted
  on every operation of Pf.
\<close>

section \<open>What a slot names\<close>

definition fdm :: "perf_cpu \<Rightarrow> int multiset" where
  "fdm c = mset (filter (\<lambda>fd. fd \<noteq> INVALID_FD) (map (cpu_fds c) counter_ids))"

definition mpm :: "perf_cpu \<Rightarrow> addr multiset" where
  "mpm c = (case cpu_map_base c of None \<Rightarrow> {#} | Some m \<Rightarrow> {#m#})"

definition fin_kern :: "'a kern_scheme \<Rightarrow> bool" where
  "fin_kern k \<longleftrightarrow> finite (k_fds k) \<and> finite (k_maps k)"

definition fdk :: "'a kern_scheme \<Rightarrow> int multiset" where "fdk k = mset_set (k_fds k)"
definition mpk :: "'a kern_scheme \<Rightarrow> addr multiset" where "mpk k = mset_set (k_maps k)"

definition owns :: "perf_cpu \<Rightarrow> 'a kern_scheme \<Rightarrow> bool" where
  "owns c k \<longleftrightarrow> fin_kern k \<and> fdm c \<subseteq># fdk k \<and> mpm c \<subseteq># mpk k"

definition holds_none :: "perf_cpu \<Rightarrow> bool" where
  "holds_none c \<longleftrightarrow> fdm c = {#} \<and> mpm c = {#}"

definition balanced :: "perf_cpu \<Rightarrow> 'a kern_scheme \<Rightarrow> perf_cpu \<Rightarrow> 'a kern_scheme \<Rightarrow> bool" where
  "balanced c k c' k' \<longleftrightarrow>
     fin_kern k' \<and> fdk k' + fdm c = fdk k + fdm c' \<and> mpk k' + mpm c = mpk k + mpm c'"

lemma balanced_refl: "fin_kern k \<Longrightarrow> balanced c k c k"
  by (simp add: balanced_def)

lemma balanced_owns: "balanced c k c' k' \<Longrightarrow> owns c k \<Longrightarrow> owns c' k'"
proof -
  assume b: "balanced c k c' k'" and o: "owns c k"
  then obtain A B where A: "fdk k = fdm c + A" and B: "mpk k = mpm c + B"
    by (metis owns_def subset_mset.le_iff_add)
  then have "fdk k' = fdm c' + A" "mpk k' = mpm c' + B" using b by (auto simp: balanced_def ac_simps)
  then show ?thesis using b by (simp add: owns_def balanced_def)
qed

lemma ms_bal_trans:
  fixes a :: "'a multiset"
  assumes "a1 + c = a + c1" "a2 + c1 = a1 + c2"
  shows "a2 + c = a + c2"
proof -
  have "(a2 + c) + c1 = (a2 + c1) + c" by (simp only: ac_simps)
  also have "\<dots> = (a1 + c2) + c" by (subst assms(2)) (rule refl)
  also have "\<dots> = (a1 + c) + c2" by (simp only: ac_simps)
  also have "\<dots> = (a + c1) + c2" by (subst assms(1)) (rule refl)
  also have "\<dots> = (a + c2) + c1" by (simp only: ac_simps)
  finally show ?thesis by simp
qed

lemma balanced_trans:
  "balanced c k c1 k1 \<Longrightarrow> balanced c1 k1 c2 k2 \<Longrightarrow> balanced c k c2 k2"
  unfolding balanced_def
  using ms_bal_trans [of "fdk k1" "fdm c" "fdk k" "fdm c1" "fdk k2" "fdm c2"]
    ms_bal_trans [of "mpk k1" "mpm c" "mpk k" "mpm c1" "mpk k2" "mpm c2"] by simp

lemma mset_set_diff_sub:
  assumes "finite A" "M \<subseteq># mset_set A"
  shows "mset_set (A - set_mset M) + M = mset_set A"
proof -
  have c: "count M x \<le> (if x \<in> A then 1 else 0)" for x
    using mset_subset_eq_count [OF assms(2), of x] assms(1) by (simp add: count_mset_set')
  have "count (mset_set (A - set_mset M) + M) x = count (mset_set A) x" for x
    using c [of x] assms(1) count_greater_zero_iff [of M x]
    by (cases "x \<in># M") (auto simp: count_mset_set' not_in_iff simp del: count_greater_zero_iff split: if_splits)
  then show ?thesis by (rule multiset_eqI)
qed

lemma filter_fds: "set_mset (fdm c) = cpu_fds c ` set counter_ids - {INVALID_FD}"
  by (auto simp: fdm_def)

lemma pf_resource_free_none:
  assumes "pf_resource_free c k = (c1, k1)"
  shows "fdm c1 = {#}" "mpm c1 = {#}" "holds_none c1"
proof -
  obtain c0 k0 where f: "close_fds counter_ids c k = (c0, k0)" by fastforce
  have "fdm c0 = {#}"
    using close_fds_frame(6) [OF f] by (simp add: fdm_def filter_empty_conv)
  then show "fdm c1 = {#}" "mpm c1 = {#}"
    using assms f by (auto simp: pf_resource_free_def mpm_def fdm_def split: option.splits)
  then show "holds_none c1" by (simp add: holds_none_def)
qed

lemma pf_resource_free_balanced:
  assumes "owns c k" "pf_resource_free c k = (c1, k1)"
  shows "balanced c k c1 k1"
proof -
  obtain c0 k0 where f: "close_fds counter_ids c k = (c0, k0)" by fastforce
  note fr = close_fds_frame [OF f]
  have k0: "k_fds k0 = k_fds k - set_mset (fdm c)" using fr by (simp add: filter_fds)
  have k1: "k_fds k1 = k_fds k0" "k_maps k1 = k_maps k - set_mset (mpm c)"
    using assms(2) f fr by (auto simp: pf_resource_free_def mpm_def split: option.splits)
  have "fdk k1 + fdm c = fdk k" "mpk k1 + mpm c = mpk k"
    using assms(1) mset_set_diff_sub by (auto simp: owns_def fin_kern_def fdk_def mpk_def k0 k1)
  then show ?thesis
    using pf_resource_free_none [OF assms(2)] assms(1) k0 k1
    by (simp add: balanced_def owns_def fin_kern_def)
qed

section \<open>Opening and closing\<close>

lemma do_ioctl_frame [simp]:
  "k_fds (fst (do_ioctl env fd io k)) = k_fds k" "k_maps (fst (do_ioctl env fd io k)) = k_maps k"
  "k_ring (fst (do_ioctl env fd io k)) = k_ring k"
  by (auto simp: do_ioctl_def Let_def split: pf_ioctl.splits)

lemma balanced_frame:
  "k_fds k' = k_fds k \<Longrightarrow> k_maps k' = k_maps k \<Longrightarrow> fin_kern k \<Longrightarrow> balanced c k c k'"
  by (simp add: balanced_def fin_kern_def fdk_def mpk_def)

lemma pf_profiling_switch_frame [simp]:
  "k_fds (fst (pf_profiling_start env i c k)) = k_fds k" "k_maps (fst (pf_profiling_start env i c k)) = k_maps k"
  "k_fds (fst (pf_profiling_stop env i c k)) = k_fds k" "k_maps (fst (pf_profiling_stop env i c k)) = k_maps k"
  "k_ring (fst (pf_profiling_start env i c k)) = k_ring k" "k_ring (fst (pf_profiling_stop env i c k)) = k_ring k"
  by (simp_all add: pf_profiling_start_def pf_profiling_stop_def)

lemma switch_events_frame [simp]:
  "k_fds (switch_events env on is c k) = k_fds k" "k_maps (switch_events env on is c k) = k_maps k"
  "k_ring (switch_events env on is c k) = k_ring k"
  by (induction env on "is" c k rule: switch_events.induct) simp_all

lemma stop_listed_frame [simp]:
  "k_fds (stop_listed env is c k) = k_fds k" "k_maps (stop_listed env is c k) = k_maps k"
  by (induction env "is" c k rule: stop_listed.induct) simp_all

lemma profiling_discard_frame:
  "profiling_discard env c k = Some k1 \<Longrightarrow> k_fds k1 = k_fds k \<and> k_maps k1 = k_maps k \<and> k_on k1 = k_on k"
  by (auto simp: profiling_discard_def split: bind_splits)

lemma cpu_event_op_balanced:
  assumes "owns c k" "cpu_event_op op c k = (c1, k1)"
    and "\<And>k2 r. op c k = (k2, r) \<Longrightarrow> k_fds k2 = k_fds k \<and> k_maps k2 = k_maps k"
  shows "balanced c k c1 k1"
proof -
  obtain k2 r where o: "op c k = (k2, r)" by fastforce
  have fr: "k_fds k2 = k_fds k" "k_maps k2 = k_maps k" using assms(3) [OF o] by auto
  then have b: "balanced c k c k2" using assms(1) by (simp add: balanced_frame owns_def)
  show ?thesis
    using assms(2) o b balanced_trans [OF b pf_resource_free_balanced [OF balanced_owns [OF b assms(1)]]] assms(1)
    by (auto simp: cpu_event_op_def balanced_refl owns_def split: if_splits)
qed

lemma cpu_event_op_cpuid: "cpu_event_op op c k = (c1, k1) \<Longrightarrow> cpu_cpuid c1 = cpu_cpuid c"
  by (auto simp: cpu_event_op_def split: if_splits prod.splits dest: pf_resource_free_cpuid)

text \<open>One more descriptor in the slot of the counter i, which named none.\<close>

lemma fdm_set:
  assumes "cpu_fds c i = INVALID_FD" "i \<in> set counter_ids" "fd \<noteq> INVALID_FD"
  shows "fdm (c\<lparr>cpu_fds := (cpu_fds c)(i := fd)\<rparr>) = add_mset fd (fdm c)"
  using assms by (cases i) (auto simp: fdm_def counter_ids_def)

lemma fdm_unset:
  "cpu_fds c i = INVALID_FD \<Longrightarrow> fdm (c\<lparr>cpu_fds := (cpu_fds c)(i := INVALID_FD)\<rparr>) = fdm c"
  by (simp add: fdm_def fun_upd_idem)

lemma fdm_upd [simp]:
  "fdm (c\<lparr>cpu_map_base := x\<rparr>) = fdm c" "fdm (c\<lparr>cpu_map_len := l\<rparr>) = fdm c" "fdm (c\<lparr>cpu_map_mask := l\<rparr>) = fdm c"
  "fdm (c\<lparr>cpu_cpuid := n\<rparr>) = fdm c" "fdm (c\<lparr>cpu_hotremove := b\<rparr>) = fdm c" "fdm (c\<lparr>cpu_hotadd := b\<rparr>) = fdm c"
  "mpm (c\<lparr>cpu_fds := f\<rparr>) = mpm c" "mpm (c\<lparr>cpu_map_len := l\<rparr>) = mpm c" "mpm (c\<lparr>cpu_map_mask := l\<rparr>) = mpm c"
  "mpm (c\<lparr>cpu_cpuid := n\<rparr>) = mpm c" "mpm (c\<lparr>cpu_hotremove := b\<rparr>) = mpm c" "mpm (c\<lparr>cpu_hotadd := b\<rparr>) = mpm c"
  by (simp_all add: fdm_def mpm_def)

lemma pf_event_open_result:
  assumes "pf_fresh env" "fin_kern k" "pf_event_open env attr cpu g k = (k1, fd)"
  shows "fin_kern k1 \<and> k_maps k1 = k_maps k \<and> k_ring k1 = k_ring k \<and>
    (if fd < 0 then k1 = k else fd \<notin> k_fds k \<and> k_fds k1 = insert fd (k_fds k))"
  using assms by (auto simp: pf_event_open_def Let_def pf_fresh_def fin_kern_def split: if_splits)

lemma fdk_insert: "finite (k_fds k) \<Longrightarrow> fd \<notin> k_fds k \<Longrightarrow> k_fds k1 = insert fd (k_fds k) \<Longrightarrow> fdk k1 = add_mset fd (fdk k)"
  by (simp add: fdk_def)

lemma cpu_same:
  "cpu_map_base c = None \<Longrightarrow> c\<lparr>cpu_map_base := None\<rparr> = c"
  "cpu_fds c i = v \<Longrightarrow> c\<lparr>cpu_fds := (cpu_fds c)(i := v)\<rparr> = c"
  by (cases c; simp add: fun_upd_idem)+

text \<open>Setting a counter up on a slot where it is not set up: one counter, one descriptor.\<close>

lemma pf_profiling_setup_result:
  assumes "pf_fresh env" "fin_kern k" "cpu_fds c i = INVALID_FD" "i \<in> set counter_ids"
    and "i = PERF_COUNT_CORE_CLK \<Longrightarrow> cpu_map_base c = None"
    and "pf_profiling_setup env i conf c k = (c1, k1, r)"
  shows "balanced c k c1 k1 \<and> cpu_cpuid c1 = cpu_cpuid c \<and> (r = 0 \<or> r = -1) \<and>
    (\<forall>j. j \<noteq> i \<longrightarrow> cpu_fds c1 j = cpu_fds c j) \<and> (i \<noteq> PERF_COUNT_CORE_CLK \<longrightarrow> cpu_map_base c1 = cpu_map_base c) \<and>
    (if r = 0 then cpu_fds c1 i \<noteq> INVALID_FD \<and> (i = PERF_COUNT_CORE_CLK \<longrightarrow> cpu_map_base c1 \<noteq> None)
     else cpu_fds c1 i = INVALID_FD)"
proof -
  define attr where "attr = attr_zero\<lparr>at_type := pf_type conf, at_config := pf_config conf, at_config1 := pf_config1 conf,
                   at_sample_period := pf_sample_period conf,
                   at_sample_type := [''TID'', ''READ'', ''CALLCHAIN''],
                   at_read_format := [''GROUP'', ''TOTAL_TIME_ENABLED'', ''TOTAL_TIME_RUNNING''],
                   at_size_set := True, at_disabled := (i = PERF_COUNT_CORE_CLK)\<rparr>"
  define g where "g = (if i = PERF_COUNT_CORE_CLK then -1 else cpu_fds c PERF_COUNT_CORE_CLK)"
  obtain k2 fd where o: "pf_event_open env attr (cpu_cpuid c) g k = (k2, fd)" by fastforce
  note or = pf_event_open_result [OF assms(1,2) o]
  note d = assms(6) [unfolded pf_profiling_setup_def Let_def, folded attr_def, folded g_def, unfolded o split]
  show ?thesis
  proof (cases "fd < 0")
    case True
    then show ?thesis using d or assms(2,3) by (auto simp: balanced_def fdm_unset)
  next
    case False
    then have fd: "fd \<noteq> INVALID_FD" "fd \<notin> k_fds k" "k_fds k2 = insert fd (k_fds k)" "k_maps k2 = k_maps k" "fin_kern k2"
      using or by (auto simp: INVALID_FD_def)
    have fk: "fdk k2 = add_mset fd (fdk k)" "mpk k2 = mpk k" using fd assms(2) by (auto simp: fdk_insert fin_kern_def mpk_def)
    have fm: "fdm (c\<lparr>cpu_fds := (cpu_fds c)(i := fd)\<rparr>) = add_mset fd (fdm c)" by (rule fdm_set [OF assms(3,4) fd(1)])
    have cl: "k_fds (pf_close fd k3) = k_fds k" "k_maps (pf_close fd k3) = k_maps k"
      if "k_fds k3 = insert fd (k_fds k)" "k_maps k3 = k_maps k" for k3
      using that fd(2) by (auto simp: pf_close_def)
    show ?thesis
    proof (cases "i = PERF_COUNT_CORE_CLK")
      case True
      have mb: "cpu_map_base c = None" by (rule assms(5) [OF True])
      show ?thesis
      proof (cases "pfe_mmap env k2 fd (rc_mapsize (pfe_ring env))")
        case None
        then have r: "c1 = c\<lparr>cpu_fds := (cpu_fds c)(i := fd), cpu_map_base := None,
            cpu_fds := ((cpu_fds c)(i := fd))(i := INVALID_FD)\<rparr>" "k1 = pf_close fd k2" "r = -1"
          using d False True by (auto simp: pf_mmap_def)
        have "c1 = c\<lparr>cpu_map_base := None\<rparr>\<lparr>cpu_fds := (cpu_fds c)(i := INVALID_FD)\<rparr>" using r(1) by simp
        then have "c1 = c" by (simp only: cpu_same(1) [OF mb] cpu_same(2) [OF assms(3)])
        then show ?thesis using r(2,3) cl [OF fd(3,4)] assms(2,3)
          by (auto simp: fin_kern_def intro!: balanced_frame)
      next
        case (Some m)
        then have mf: "m \<notin> k_maps k" using assms(1) fd(4) by (metis pf_fresh_def)
        have r: "c1 = c\<lparr>cpu_fds := (cpu_fds c)(i := fd), cpu_map_base := Some m, cpu_map_len := rc_mapsize (pfe_ring env),
            cpu_map_mask := rc_mapmask (pfe_ring env)\<rparr>"
          "k_fds k1 = k_fds k2" "k_maps k1 = insert m (k_maps k)" "r = 0"
          using d False True Some fd(4) by (auto simp: pf_mmap_def)
        have fm1: "fdm c1 = add_mset fd (fdm c)" "mpm c1 = {#m#}" "mpm c = {#}"
          using fm mb by (simp_all add: r(1) mpm_def fdm_def)
        have "fdk k1 = add_mset fd (fdk k)" "mpk k1 = add_mset m (mpk k)" "fin_kern k1"
          using fk r mf fd(5) assms(2) by (auto simp: fdk_def mpk_def fin_kern_def)
        then show ?thesis using fm1 r(1,4) fd(1) True by (simp add: balanced_def)
      qed
    next
      case nl: False
      obtain k3 q where io: "do_ioctl env fd (IOC_SET_OUTPUT (((cpu_fds c)(i := fd)) PERF_COUNT_CORE_CLK)) k2 = (k3, q)"
        by fastforce
      have k3: "k_fds k3 = insert fd (k_fds k)" "k_maps k3 = k_maps k"
        using do_ioctl_frame(1,2) [of env fd "IOC_SET_OUTPUT (((cpu_fds c)(i := fd)) PERF_COUNT_CORE_CLK)" k2] fd
        unfolding io by simp_all
      show ?thesis
      proof (cases "q = 0")
        case True
        then have r: "c1 = c\<lparr>cpu_fds := (cpu_fds c)(i := fd)\<rparr>" "k1 = k3" "r = 0"
          using d False nl io by auto
        have "fdk k1 = add_mset fd (fdk k)" "mpk k1 = mpk k" "fin_kern k1"
          using k3 r(2) fd(2,5) assms(2) by (auto simp: fdk_def mpk_def fin_kern_def)
        then show ?thesis using fm r fd(1) nl by (simp add: balanced_def)
      next
        case q: False
        then have r: "c1 = c\<lparr>cpu_fds := ((cpu_fds c)(i := fd))(i := INVALID_FD)\<rparr>" "k1 = pf_close fd k3" "r = -1"
          using d False nl io by auto
        have "c1 = c\<lparr>cpu_fds := (cpu_fds c)(i := INVALID_FD)\<rparr>" using r(1) by simp
        then have "c1 = c" by (simp only: cpu_same(2) [OF assms(3)])
        then show ?thesis using r(2,3) cl [OF k3] assms(2,3) by (auto intro!: balanced_frame)
      qed
    qed
  qed
qed

section \<open>Setting up a processor\<close>

lemma profiling_setup_all_result:
  assumes "pf_fresh env" "fin_kern k" "distinct is" "set is \<subseteq> set counter_ids"
    and "\<forall>i \<in> set is. cpu_fds c i = INVALID_FD"
    and "PERF_COUNT_CORE_CLK \<in> set is \<Longrightarrow> cpu_map_base c = None"
    and "profiling_setup_all env is c k = (c1, k1, r)"
  shows "balanced c k c1 k1 \<and> cpu_cpuid c1 = cpu_cpuid c \<and> (r = 0 \<or> r = -1) \<and>
    (\<forall>j. j \<notin> set is \<longrightarrow> cpu_fds c1 j = cpu_fds c j) \<and>
    (r = 0 \<longrightarrow> (\<forall>i \<in> set is. cpu_fds c1 i \<noteq> INVALID_FD \<longleftrightarrow>
       i \<in> set (takeWhile (\<lambda>i. pf_config (pfe_conf env i) \<noteq> INVALID_CONFIG) is)))"
  using assms(2-)
proof (induction "is" arbitrary: c k)
  case Nil
  then show ?case by (auto simp: balanced_refl)
next
  case (Cons i "is")
  show ?case
  proof (cases "pf_config (pfe_conf env i) = INVALID_CONFIG")
    case True
    then show ?thesis using Cons.prems by (auto simp: balanced_refl)
  next
    case False
    obtain c2 k2 q where s: "pf_profiling_setup env i (pfe_conf env i) c k = (c2, k2, q)" by (metis prod_cases3)
    have i: "cpu_fds c i = INVALID_FD" "i \<in> set counter_ids" "i = PERF_COUNT_CORE_CLK \<Longrightarrow> cpu_map_base c = None"
      using Cons.prems by auto
    note r = pf_profiling_setup_result [OF assms(1) Cons.prems(1) i s]
    show ?thesis
    proof (cases "q = 0")
      case q: False
      then show ?thesis using r s False Cons.prems(6) by auto
    next
      case True
      have rest: "profiling_setup_all env is c2 k2 = (c1, k1, r)" using Cons.prems(6) s True False by simp
      have ne: "i \<notin> set is" "distinct is" "set is \<subseteq> set counter_ids" using Cons.prems by auto
      have f2: "fin_kern k2" using r by (simp add: balanced_def)
      have inv: "\<forall>j \<in> set is. cpu_fds c2 j = INVALID_FD"
      proof
        fix j assume j: "j \<in> set is"
        then have "j \<noteq> i" using ne by auto
        then have "cpu_fds c2 j = cpu_fds c j" using r by simp
        then show "cpu_fds c2 j = INVALID_FD" using Cons.prems(4) j by simp
      qed
      have mb: "PERF_COUNT_CORE_CLK \<in> set is \<Longrightarrow> cpu_map_base c2 = None"
        using r ne Cons.prems(5) by (cases "i = PERF_COUNT_CORE_CLK") simp_all
      note p = f2 ne(2,3) inv mb
      from Cons.IH [OF p rest] show ?thesis
        using r True False ne balanced_trans [of c k c2 k2 c1 k1] by (auto simp: fun_eq_iff)
    qed
  qed
qed

lemma fdm_cpu_init [simp]: "fdm (cpu_init c) = {#}" "mpm (cpu_init c) = {#}" "cpu_cpuid (cpu_init c) = cpu_cpuid c"
  by (simp_all add: cpu_init_def fdm_def mpm_def)

lemma counter_ids_distinct [simp]: "distinct counter_ids" "PERF_COUNT_CORE_CLK \<in> set counter_ids"
  by (simp_all add: counter_ids_def)

lemma cpu_profiling_setup_balanced:
  assumes "pf_fresh env" "fin_kern k" "cpu_profiling_setup env c k = Some (c1, k1, r)"
  shows "balanced (cpu_init c) k c1 k1 \<and> cpu_cpuid c1 = cpu_cpuid c \<and> (r = 0 \<or> r = -1) \<and>
    (if r = 0 then \<forall>i \<in> set counter_ids. cpu_fds c1 i \<noteq> INVALID_FD \<longleftrightarrow>
        i \<in> set (takeWhile (\<lambda>i. pf_config (pfe_conf env i) \<noteq> INVALID_CONFIG) counter_ids)
     else holds_none c1)"
proof -
  obtain c2 k2 q where s: "profiling_setup_all env counter_ids (cpu_init c) k = (c2, k2, q)" by (metis prod_cases3)
  have "\<forall>i \<in> set counter_ids. cpu_fds (cpu_init c) i = INVALID_FD" "cpu_map_base (cpu_init c) = None"
    by (simp_all add: cpu_init_def)
  note r = profiling_setup_all_result [OF assms(1,2) counter_ids_distinct(1) subset_refl this s]
  have o: "owns c2 k2"
    by (rule balanced_owns [of "cpu_init c" k]) (use r assms(2) in \<open>auto simp: owns_def\<close>)
  show ?thesis
  proof (cases "q = 0")
    case True
    then show ?thesis using assms(3) s r by (auto simp: cpu_profiling_setup_def)
  next
    case False
    obtain c3 k3 where f: "pf_resource_free c2 k2 = (c3, k3)" by fastforce
    have "balanced (cpu_init c) k c3 k3"
      using r pf_resource_free_balanced [OF o f] balanced_trans by blast
    then show ?thesis
      using assms(3) s f r False pf_resource_free_none [OF f] pf_resource_free_cpuid [OF f]
      by (auto simp: cpu_profiling_setup_def)
  qed
qed

lemma pf_ll_setup_result:
  assumes "pf_fresh env" "fin_kern k" "cpu_fds c PERF_COUNT_CORE_CLK = INVALID_FD" "cpu_map_base c = None"
    and "pf_ll_setup env conf c k = (c1, k1, r)"
  shows "balanced c k c1 k1 \<and> cpu_cpuid c1 = cpu_cpuid c \<and> (r = 0 \<or> r = -1)"
proof -
  let ?i = PERF_COUNT_CORE_CLK
  define attr where "attr = attr_zero\<lparr>at_type := pf_type conf, at_config := pf_config conf, at_config1 := pf_config1 conf,
                   at_sample_period := pf_sample_period conf, at_precise_ip := 1,
                   at_exclude_guest := pf_exclude_guest conf,
                   at_sample_type := [''TID'', ''ADDR'', ''CPU'', ''WEIGHT'', ''CALLCHAIN'', ''DATA_SRC''],
                   at_disabled := True\<rparr>"
  obtain k2 fd where o: "pf_event_open env attr (cpu_cpuid c) (-1) k = (k2, fd)" by fastforce
  note or = pf_event_open_result [OF assms(1,2) o]
  note d = assms(5) [unfolded pf_ll_setup_def Let_def, folded attr_def, unfolded o split]
  show ?thesis
  proof (cases "fd < 0")
    case True
    then show ?thesis using d or assms(2,3) by (auto simp: balanced_def fdm_unset)
  next
    case False
    then have fd: "fd \<noteq> INVALID_FD" "fd \<notin> k_fds k" "k_fds k2 = insert fd (k_fds k)" "k_maps k2 = k_maps k" "fin_kern k2"
      using or by (auto simp: INVALID_FD_def)
    have fk: "fdk k2 = add_mset fd (fdk k)" using fd assms(2) by (auto simp: fdk_insert fin_kern_def)
    have fm: "fdm (c\<lparr>cpu_fds := (cpu_fds c)(?i := fd)\<rparr>) = add_mset fd (fdm c)"
      by (rule fdm_set [OF assms(3) counter_ids_distinct(2) fd(1)])
    show ?thesis
    proof (cases "pfe_mmap env k2 fd (rc_mapsize (pfe_ring env))")
      case None
      then have r: "c1 = c\<lparr>cpu_map_base := None\<rparr>\<lparr>cpu_fds := (cpu_fds c)(?i := INVALID_FD)\<rparr>"
          "k1 = pf_close fd k2" "r = -1" using d False by (auto simp: pf_mmap_def)
      have "c1 = c" unfolding r(1) by (simp only: cpu_same(1) [OF assms(4)] cpu_same(2) [OF assms(3)])
      then show ?thesis using r(2,3) fd assms(2)
        by (auto simp: fin_kern_def pf_close_def intro!: balanced_frame)
    next
      case (Some m)
      then have mf: "m \<notin> k_maps k" using assms(1) fd(4) by (metis pf_fresh_def)
      have r: "c1 = c\<lparr>cpu_fds := (cpu_fds c)(?i := fd), cpu_map_base := Some m, cpu_map_len := rc_mapsize (pfe_ring env),
            cpu_map_mask := rc_mapmask (pfe_ring env)\<rparr>"
        "k_fds k1 = k_fds k2" "k_maps k1 = insert m (k_maps k)" "r = 0"
        using d False Some fd(4) by (auto simp: pf_mmap_def)
      have fm1: "fdm c1 = add_mset fd (fdm c)" "mpm c1 = {#m#}" "mpm c = {#}"
        using fm assms(4) by (simp_all add: r(1) mpm_def fdm_def)
      have "fdk k1 = add_mset fd (fdk k)" "mpk k1 = add_mset m (mpk k)" "fin_kern k1"
        using fk r mf fd(5) assms(2) by (auto simp: fdk_def mpk_def fin_kern_def)
      then show ?thesis using fm1 r(1,4) by (simp add: balanced_def)
    qed
  qed
qed

lemma cpu_ll_setup_balanced:
  assumes "pf_fresh env" "fin_kern k" "cpu_ll_setup env c k = Some (c1, k1, r)"
  shows "balanced (cpu_init c) k c1 k1 \<and> cpu_cpuid c1 = cpu_cpuid c \<and> (r \<noteq> 0 \<longrightarrow> holds_none c1)"
proof -
  obtain c2 k2 q where s: "pf_ll_setup env (pfe_ll_conf env) (cpu_init c) k = (c2, k2, q)" by (metis prod_cases3)
  have "cpu_fds (cpu_init c) PERF_COUNT_CORE_CLK = INVALID_FD" "cpu_map_base (cpu_init c) = None"
    by (simp_all add: cpu_init_def)
  note r = pf_ll_setup_result [OF assms(1,2) this s]
  have o: "owns c2 k2"
    by (rule balanced_owns [of "cpu_init c" k]) (use r assms(2) in \<open>auto simp: owns_def\<close>)
  obtain c3 k3 where f: "pf_resource_free c2 k2 = (c3, k3)" by fastforce
  have "balanced (cpu_init c) k c3 k3"
    using r pf_resource_free_balanced [OF o f] balanced_trans by blast
  then show ?thesis
    using assms(3) s f r pf_resource_free_none [OF f] pf_resource_free_cpuid [OF f]
    by (auto simp: cpu_ll_setup_def split: if_splits)
qed

section \<open>The walk over all processors\<close>

text \<open>
  The slots cs hold exactly what the kernel has open, apart from A and B, which
  others hold.
\<close>

definition held_by :: "perf_cpu list \<Rightarrow> int multiset \<Rightarrow> addr multiset \<Rightarrow> 'a kern_scheme \<Rightarrow> bool" where
  "held_by cs A B k \<longleftrightarrow> fin_kern k \<and> fdk k = sum_list (map fdm cs) + A \<and> mpk k = sum_list (map mpm cs) + B"

lemma held_by_owns: "held_by (c # cs) A B k \<Longrightarrow> owns c k"
  by (auto simp: held_by_def owns_def ac_simps)

lemma held_by_step:
  assumes "held_by (c # cs) A B k" "balanced c k c1 k1"
  shows "held_by (c1 # cs) A B k1"
proof -
  have "fdk k1 + fdm c = (fdm c1 + sum_list (map fdm cs) + A) + fdm c"
    "mpk k1 + mpm c = (mpm c1 + sum_list (map mpm cs) + B) + mpm c"
    using assms by (auto simp: held_by_def balanced_def ac_simps)
  then show ?thesis using assms(2) by (simp add: held_by_def balanced_def)
qed

lemma held_by_shift: "held_by (c # cs) A B k \<longleftrightarrow> held_by cs (fdm c + A) (mpm c + B) k"
  by (simp add: held_by_def ac_simps)

lemma held_by_append:
  "held_by (cs @ ds) A B k \<longleftrightarrow> held_by cs (sum_list (map fdm ds) + A) (sum_list (map mpm ds) + B) k"
  by (simp add: held_by_def ac_simps)

text \<open>Slots the walk hands to no function: they are free or wait to be added.\<close>

definition idle_slot :: "perf_cpu \<Rightarrow> bool" where
  "idle_slot c \<longleftrightarrow> \<not> cpu_valid c \<or> cpu_hotadd c"

definition node_slots :: "node \<Rightarrow> perf_cpu list" where
  "node_slots n = (case n_cpus n of None \<Rightarrow> [] | Some cs \<Rightarrow> cs)"

definition all_slots :: "node list \<Rightarrow> perf_cpu list" where
  "all_slots ns = concat (map node_slots ns)"

lemma all_slots_simps [simp]: "all_slots [] = []" "all_slots (n # ns) = node_slots n @ all_slots ns"
  by (simp_all add: all_slots_def)

definition hot_kept :: "perf_cpu \<Rightarrow> perf_cpu \<Rightarrow> bool" where
  "hot_kept c c' \<longleftrightarrow> cpu_cpuid c' = cpu_cpuid c \<and> cpu_hotadd c' = cpu_hotadd c \<and> cpu_hotremove c' = cpu_hotremove c"

lemma hot_kept_refl [simp]: "hot_kept c c" by (simp add: hot_kept_def)

locale res_op =
  fixes op :: pcpu_op and pre post :: "perf_cpu \<Rightarrow> bool"
  assumes op_balanced: "pre c \<Longrightarrow> owns c k \<Longrightarrow> op c k = Some (c1, k1, r) \<Longrightarrow> balanced c k c1 k1"
    and op_hot: "pre c \<Longrightarrow> owns c k \<Longrightarrow> op c k = Some (c1, k1, r) \<Longrightarrow> hot_kept c c1"
    and op_post: "pre c \<Longrightarrow> owns c k \<Longrightarrow> op c k = Some (c1, k1, r) \<Longrightarrow> post c1"
begin

text \<open>A slot after the walk: the function has run on it, or it was free or waiting, or it was removed.\<close>

definition walked :: "perf_cpu \<Rightarrow> perf_cpu \<Rightarrow> bool" where
  "walked c c' \<longleftrightarrow>
     (if cpu_hotremove c then holds_none c' \<and> cpu_cpuid c' = INVALID_CPUID
      else if idle_slot c then c' = c
      else hot_kept c c' \<and> post c')"

lemma cpu_visit_op:
  assumes "held_by (c # cs) A B k" "\<not> cpu_hotremove c \<and> \<not> idle_slot c \<longrightarrow> pre c"
    and "cpu_visit (Some op) err None c k = Some (c1, k1, r)"
  shows "held_by (c1 # cs) A B k1 \<and> (r = 0 \<longrightarrow> walked c c1)"
proof -
  note o = held_by_owns [OF assms(1)]
  consider (rm) "cpu_hotremove c" | (idle) "\<not> cpu_hotremove c" "idle_slot c"
    | (run) "\<not> cpu_hotremove c" "\<not> idle_slot c" by blast
  then show ?thesis
  proof cases
    case rm
    obtain c2 k2 where f: "pf_resource_free c k = (c2, k2)" by fastforce
    have c1: "c1 = c2\<lparr>cpu_hotremove := False, cpu_cpuid := INVALID_CPUID\<rparr>" "k1 = k2"
      using assms(3) rm f by (simp_all add: cpu_visit_def)
    have "balanced c k c1 k1"
      using pf_resource_free_balanced [OF o f] by (simp add: c1 balanced_def fdm_def mpm_def)
    moreover have "holds_none c1" using pf_resource_free_none [OF f] by (simp add: c1 holds_none_def fdm_def mpm_def)
    ultimately show ?thesis using held_by_step [OF assms(1)] rm c1 by (simp add: walked_def)
  next
    case idle
    then show ?thesis using assms(1,3) by (auto simp: cpu_visit_def idle_slot_def walked_def split: if_splits)
  next
    case run
    then obtain q where q: "op c k = Some (c1, k1, q)" "r = (if err then q else 0)"
      using assms(3) by (auto simp: cpu_visit_def idle_slot_def split: bind_splits)
    have "pre c" using assms(2) run by simp
    then show ?thesis
      using op_balanced [OF _ o q(1)] op_hot [OF _ o q(1)] op_post [OF _ o q(1)] held_by_step [OF assms(1)] q(2) run
      by (auto simp: walked_def)
  qed
qed

lemma cpus_visit_op:
  assumes "held_by cs A B k" "\<forall>c \<in> set cs. \<not> cpu_hotremove c \<and> \<not> idle_slot c \<longrightarrow> pre c"
    and "cpus_visit (Some op) err None cs k = Some (cs1, k1, r)"
  shows "held_by cs1 A B k1 \<and> (r = 0 \<longrightarrow> list_all2 walked cs cs1)"
  using assms
proof (induction cs arbitrary: A B k cs1 k1 r)
  case (Cons c cs)
  from Cons.prems(3) obtain c1 k2 q where v: "cpu_visit (Some op) err None c k = Some (c1, k2, q)"
    by (auto split: bind_splits)
  have "\<not> cpu_hotremove c \<and> \<not> idle_slot c \<longrightarrow> pre c" using Cons.prems(2) by simp
  note h = cpu_visit_op [OF Cons.prems(1) this v]
  show ?case
  proof (cases "q = 0")
    case False
    then show ?thesis using Cons.prems(3) v h by simp
  next
    case True
    then obtain cs2 where rest: "cpus_visit (Some op) err None cs k2 = Some (cs2, k1, r)" "cs1 = c1 # cs2"
      using Cons.prems(3) v by (auto split: bind_splits)
    have "held_by cs (fdm c1 + A) (mpm c1 + B) k2" using h by (simp add: held_by_shift)
    from Cons.IH [OF this _ rest(1)] show ?thesis
      using Cons.prems(2) h True by (auto simp: rest(2) held_by_shift)
  qed
qed simp

definition node_walked :: "node \<Rightarrow> node \<Rightarrow> bool" where
  "node_walked n n' \<longleftrightarrow>
     (if NODE_VALID n then list_all2 walked (node_slots n) (node_slots n') else n' = n)"

lemma nodes_visit_op:
  assumes "held_by (all_slots ns) A B k"
    and "\<forall>n \<in> set ns. NODE_VALID n \<longrightarrow> (\<forall>c \<in> set (node_slots n). \<not> cpu_hotremove c \<and> \<not> idle_slot c \<longrightarrow> pre c)"
    and "nodes_visit (Some op) err None ns k = Some (ns1, k1, r)"
  shows "held_by (all_slots ns1) A B k1 \<and> (r = 0 \<longrightarrow> list_all2 node_walked ns ns1)"
  using assms
proof (induction ns arbitrary: A B k ns1 k1 r)
  case (Cons n ns)
  show ?case
  proof (cases "NODE_VALID n")
    case False
    then obtain ns2 where rest: "nodes_visit (Some op) err None ns k = Some (ns2, k1, r)" "ns1 = n # ns2"
      using Cons.prems(3) by (auto split: bind_splits)
    have "held_by (all_slots ns) (sum_list (map fdm (node_slots n)) + A) (sum_list (map mpm (node_slots n)) + B) k"
      using Cons.prems(1) by (simp add: held_by_def ac_simps)
    from Cons.IH [OF this _ rest(1)] show ?thesis
      using Cons.prems(2) False rest(2) by (auto simp: held_by_def ac_simps node_walked_def)
  next
    case True
    then obtain cs cs1 k2 q where v: "n_cpus n = Some cs" "cpus_visit (Some op) err None cs k = Some (cs1, k2, q)"
      using Cons.prems(3) by (auto split: bind_splits)
    then have ns: "node_slots n = cs" by (simp add: node_slots_def)
    define A1 B1 where "A1 = sum_list (map fdm (all_slots ns)) + A" "B1 = sum_list (map mpm (all_slots ns)) + B"
    have h0: "held_by cs A1 B1 k" using Cons.prems(1) by (simp add: ns held_by_append A1_B1_def)
    have p0: "\<forall>c \<in> set cs. \<not> cpu_hotremove c \<and> \<not> idle_slot c \<longrightarrow> pre c" using Cons.prems(2) True ns by auto
    note h = cpus_visit_op [OF h0 p0 v(2)]
    show ?thesis
    proof (cases "q = 0")
      case False
      then show ?thesis
        using Cons.prems(3) v True h by (auto simp: held_by_append A1_B1_def node_slots_def)
    next
      case q: True
      define n1 where "n1 = n\<lparr>n_cpus := Some cs1\<rparr>"
      define n2 where "n2 = (if n_hotremove n1 then n1\<lparr>n_nid := INVALID_NID, n_hotremove := False\<rparr> else n1)"
      obtain ns2 where rest: "nodes_visit (Some op) err None ns k2 = Some (ns2, k1, r)" "ns1 = n2 # ns2"
        using Cons.prems(3) v True q by (auto simp: n1_def n2_def Let_def split: bind_splits)
      have s2: "node_slots n2 = cs1" by (simp add: n1_def n2_def node_slots_def)
      have "held_by (all_slots ns) (sum_list (map fdm cs1) + A) (sum_list (map mpm cs1) + B) k2"
        using h by (simp add: held_by_def A1_B1_def ac_simps)
      from Cons.IH [OF this _ rest(1)] show ?thesis
        using Cons.prems(2) True h q s2 rest(2) ns by (auto simp: held_by_def ac_simps node_walked_def)
    qed
  qed
qed simp

end

section \<open>The operations keep the contract\<close>

lemma hot_kept_trans: "hot_kept a b \<Longrightarrow> hot_kept b c \<Longrightarrow> hot_kept a c"
  by (simp add: hot_kept_def)

lemma hot_kept_upd [simp]:
  "hot_kept c (c1\<lparr>cpu_fds := f\<rparr>) = hot_kept c c1" "hot_kept c (c1\<lparr>cpu_map_base := m\<rparr>) = hot_kept c c1"
  "hot_kept c (c1\<lparr>cpu_map_len := n\<rparr>) = hot_kept c c1" "hot_kept c (c1\<lparr>cpu_map_mask := n\<rparr>) = hot_kept c c1"
  by (simp_all add: hot_kept_def)

lemma pf_resource_free_hot:
  assumes "pf_resource_free c k = (c1, k1)"
  shows "hot_kept c c1"
proof -
  obtain c0 k0 where f: "close_fds counter_ids c k = (c0, k0)" by fastforce
  have "hot_kept c c0" using close_fds_frame(1-3) [OF f] by (simp add: hot_kept_def)
  then show ?thesis using assms f by (auto simp: pf_resource_free_def split: option.splits)
qed

lemma cpu_event_op_hot: "cpu_event_op op c k = (c1, k1) \<Longrightarrow> hot_kept c c1"
  by (auto simp: cpu_event_op_def split: if_splits prod.splits dest: pf_resource_free_hot)

lemma pf_profiling_setup_hot: "pf_profiling_setup env i conf c k = (c1, k1, r) \<Longrightarrow> hot_kept c c1"
  by (auto simp: pf_profiling_setup_def Let_def split: if_splits prod.splits option.splits)

lemma pf_ll_setup_hot: "pf_ll_setup env conf c k = (c1, k1, r) \<Longrightarrow> hot_kept c c1"
  by (auto simp: pf_ll_setup_def Let_def split: if_splits prod.splits option.splits)

lemma profiling_setup_all_hot: "profiling_setup_all env is c k = (c1, k1, r) \<Longrightarrow> hot_kept c c1"
proof (induction env "is" c k rule: profiling_setup_all.induct)
  case (2 env i "is" c k)
  then show ?case
    using pf_profiling_setup_hot [of env i "pfe_conf env i" c k] hot_kept_trans
    by (auto split: if_splits prod.splits)
qed simp

lemma hot_kept_init: "hot_kept (cpu_init c) c1 \<longleftrightarrow> hot_kept c c1"
  by (simp add: hot_kept_def cpu_init_def)

lemma cpu_profiling_setup_hot: "cpu_profiling_setup env c k = Some (c1, k1, r) \<Longrightarrow> hot_kept c c1"
  by (auto simp: cpu_profiling_setup_def hot_kept_init split: prod.splits if_splits
      dest!: profiling_setup_all_hot dest: pf_resource_free_hot hot_kept_trans)

lemma cpu_ll_setup_hot: "cpu_ll_setup env c k = Some (c1, k1, r) \<Longrightarrow> hot_kept c c1"
  by (auto simp: cpu_ll_setup_def hot_kept_init split: prod.splits if_splits
      dest!: pf_ll_setup_hot dest: pf_resource_free_hot hot_kept_trans)

lemma event_switch_frame:
  "pf_profiling_allstart env c k = (k2, r) \<Longrightarrow> k_fds k2 = k_fds k \<and> k_maps k2 = k_maps k"
  "pf_profiling_allstop env c k = (k2, r) \<Longrightarrow> k_fds k2 = k_fds k \<and> k_maps k2 = k_maps k"
  "pf_ll_start env c k = (k2, r) \<Longrightarrow> k_fds k2 = k_fds k \<and> k_maps k2 = k_maps k"
  "pf_ll_stop env c k = (k2, r) \<Longrightarrow> k_fds k2 = k_fds k \<and> k_maps k2 = k_maps k"
  using pf_profiling_switch_frame [of env PERF_COUNT_CORE_CLK c k]
  by (auto simp: pf_profiling_allstart_def pf_profiling_allstop_def pf_ll_start_def pf_ll_stop_def
      pf_profiling_start_def pf_profiling_stop_def split: if_splits)

lemma event_res_op:
  assumes "\<And>c k k2 r. op c k = (k2, r) \<Longrightarrow> k_fds k2 = k_fds k \<and> k_maps k2 = k_maps k"
  shows "res_op (\<lambda>c k. case cpu_event_op op c k of (c1, k1) \<Rightarrow> Some (c1, k1, 0)) (\<lambda>_. True) (\<lambda>_. True)"
proof (unfold_locales, goal_cases)
  case (1 c k c1 k1 r)
  then have "cpu_event_op op c k = (c1, k1)" by (auto split: prod.splits)
  then show ?case by (rule cpu_event_op_balanced [OF 1(2)]) (rule assms)
next
  case (2 c k c1 k1 r)
  then have "cpu_event_op op c k = (c1, k1)" by (auto split: prod.splits)
  then show ?case by (rule cpu_event_op_hot)
qed simp

lemma cpu_event_ops:
  "cpu_profiling_start env = (\<lambda>c k. case cpu_event_op (pf_profiling_allstart env) c k of (c1, k1) \<Rightarrow> Some (c1, k1, 0))"
  "cpu_profiling_stop env = (\<lambda>c k. case cpu_event_op (pf_profiling_allstop env) c k of (c1, k1) \<Rightarrow> Some (c1, k1, 0))"
  "cpu_ll_start env = (\<lambda>c k. case cpu_event_op (pf_ll_start env) c k of (c1, k1) \<Rightarrow> Some (c1, k1, 0))"
  "cpu_ll_stop env = (\<lambda>c k. case cpu_event_op (pf_ll_stop env) c k of (c1, k1) \<Rightarrow> Some (c1, k1, 0))"
  by (simp_all add: fun_eq_iff cpu_profiling_start_def cpu_profiling_stop_def cpu_ll_start_def cpu_ll_stop_def)

lemma balanced_setup: "holds_none c \<Longrightarrow> balanced (cpu_init c) k c1 k1 \<longleftrightarrow> balanced c k c1 k1"
  by (simp add: balanced_def holds_none_def)

interpretation stop_op: res_op "cpu_profiling_stop env" "\<lambda>_. True" "\<lambda>_. True"
  unfolding cpu_event_ops by (rule event_res_op) (rule event_switch_frame(2))

interpretation start_op: res_op "cpu_profiling_start env" "\<lambda>_. True" "\<lambda>_. True"
  unfolding cpu_event_ops by (rule event_res_op) (rule event_switch_frame(1))

interpretation ll_start_op: res_op "cpu_ll_start env" "\<lambda>_. True" "\<lambda>_. True"
  unfolding cpu_event_ops by (rule event_res_op) (rule event_switch_frame(3))

interpretation ll_stop_op: res_op "cpu_ll_stop env" "\<lambda>_. True" "\<lambda>_. True"
  unfolding cpu_event_ops by (rule event_res_op) (rule event_switch_frame(4))

interpretation free_op: res_op cpu_resource_free "\<lambda>_. True" holds_none
  by unfold_locales
    (auto simp: cpu_resource_free_def split: prod.splits
      intro: pf_resource_free_balanced pf_resource_free_hot pf_resource_free_none)

lemma setup_op: "pf_fresh env \<Longrightarrow> res_op (cpu_profiling_setup env) holds_none (\<lambda>_. True)"
  by unfold_locales
    (auto simp: owns_def dest: cpu_profiling_setup_balanced balanced_setup intro: cpu_profiling_setup_hot)

lemma ll_setup_op: "pf_fresh env \<Longrightarrow> res_op (cpu_ll_setup env) holds_none (\<lambda>_. True)"
  by unfold_locales
    (auto simp: owns_def dest: cpu_ll_setup_balanced balanced_setup intro: cpu_ll_setup_hot)

interpretation partpause_op: res_op "cpu_profiling_partpause env i" "\<lambda>_. True" "\<lambda>_. True"
  by unfold_locales
    (auto simp: cpu_profiling_partpause_def owns_def split: if_splits prod.splits
      intro!: balanced_frame dest: event_switch_frame)

interpretation multipause_op: res_op "cpu_profiling_multipause env is" "\<lambda>_. True" "\<lambda>_. True"
  by unfold_locales (auto simp: cpu_profiling_multipause_def owns_def intro!: balanced_frame)

interpretation restore_op: res_op "cpu_profiling_restore env i" "\<lambda>_. True" "\<lambda>_. True"
  by unfold_locales
    (auto simp: cpu_profiling_restore_def owns_def split: if_splits prod.splits bind_splits
      intro!: balanced_frame dest: event_switch_frame profiling_discard_frame)

interpretation multi_restore_op: res_op "cpu_profiling_multi_restore env is" "\<lambda>_. True" "\<lambda>_. True"
  by unfold_locales
    (auto simp: cpu_profiling_multi_restore_def owns_def split: bind_splits
      intro!: balanced_frame dest: profiling_discard_frame)

end
