(* ===== verification/PfUse.thy ===== *)
theory PfUse
  imports PfRes
begin

text \<open>
  What the operations on a processor achieve: setting up its counters opens all
  of them or none, pausing leaves one counter running and restoring brings all
  of them back; and the operations that read the ring of a processor without
  asking whether it has one.
\<close>

section \<open>All or nothing\<close>

lemma cpu_profiling_setup_total: "\<exists>c1 k1 r. cpu_profiling_setup env c k = Some (c1, k1, r)"
proof -
  obtain c1 k1 r where a: "profiling_setup_all env counter_ids (cpu_init c) k = (c1, k1, r)" by (metis prod_cases3)
  obtain c2 k2 where "pf_resource_free c1 k1 = (c2, k2)" by fastforce
  then show ?thesis using a by (simp add: cpu_profiling_setup_def)
qed

lemma mset_set_eqI: "finite A \<Longrightarrow> finite B \<Longrightarrow> mset_set A = mset_set B \<Longrightarrow> A = B"
  by (metis finite_set_mset_mset_set)

text \<open>
  C7: Setting the counters of a processor up is all or nothing.  On success every
  configured counter has a descriptor of its own, the ring buffer is mapped, and
  the kernel has opened exactly what the slot names.  If any call fails, what
  the calls before it opened and mapped has been released, and the slot names
  nothing.
\<close>

theorem cpu_profiling_setup_all_or_nothing:
  assumes "pf_fresh env" "fin_kern k"
  shows "\<exists>c1 k1 r. cpu_profiling_setup env c k = Some (c1, k1, r) \<and>
    (if r = 0 then
       (\<forall>i \<in> set counter_ids. cpu_fds c1 i \<noteq> INVALID_FD \<longleftrightarrow>
          i \<in> set (takeWhile (\<lambda>i. pf_config (pfe_conf env i) \<noteq> INVALID_CONFIG) counter_ids)) \<and>
       mset_set (k_fds k1) = mset_set (k_fds k) + fdm c1 \<and> mset_set (k_maps k1) = mset_set (k_maps k) + mpm c1
     else k_fds k1 = k_fds k \<and> k_maps k1 = k_maps k \<and> holds_none c1)"
proof -
  obtain c1 k1 r where s: "cpu_profiling_setup env c k = Some (c1, k1, r)"
    using cpu_profiling_setup_total by blast
  note b = cpu_profiling_setup_balanced [OF assms s]
  have bal: "fdk k1 = fdk k + fdm c1" "mpk k1 = mpk k + mpm c1" "fin_kern k1"
    using b by (auto simp: balanced_def)
  have "k_fds k1 = k_fds k \<and> k_maps k1 = k_maps k" if "holds_none c1"
    using that bal assms(2) mset_set_eqI by (auto simp: holds_none_def fdk_def mpk_def fin_kern_def)
  then show ?thesis using s b bal by (auto simp: fdk_def mpk_def)
qed

text \<open>A kernel that numbers descriptors and mappings upwards; the last counter cannot be opened.\<close>

definition next_free :: "int set \<Rightarrow> int" where
  "next_free S = (if S = {} then 3 else Max S + 1)"

definition pf_demo :: "(int \<Rightarrow> bool) \<Rightarrow> (int \<Rightarrow> int) \<Rightarrow> pf_env" where
  "pf_demo open_ok io =
     \<lparr>pfe_open = (\<lambda>k attr cpu g. if open_ok (next_free (k_fds k)) \<and> 0 \<le> next_free (k_fds k) \<and> next_free (k_fds k) \<notin> k_fds k
                   then next_free (k_fds k) else -1),
      pfe_mmap = (\<lambda>k fd n. if nat fd \<in> k_maps k then None else Some (nat fd)),
      pfe_ioctl = (\<lambda>k fd _. io fd), pfe_ring = record_conf,
      pfe_conf = (\<lambda>i. \<lparr>pf_count_id = i, pf_type = 4, pf_config = 1, pf_config1 = 0, pf_sample_period = 1000, pf_exclude_guest = False\<rparr>),
      pfe_ll_conf = \<lparr>pf_count_id = PERF_COUNT_INVALID, pf_type = 4, pf_config = 1, pf_config1 = 3, pf_sample_period = 1000, pf_exclude_guest = False\<rparr>\<rparr>"

lemma pf_demo_fresh: "pf_fresh (pf_demo open_ok io)"
  by (simp add: pf_fresh_def pf_demo_def)

definition kern_demo :: pkern where
  "kern_demo = \<lparr>k_fds = {}, k_maps = {}, k_on = {}, k_ring = (\<lambda>_. \<lparr>rg_head = 0, rg_tail = 0, rg_data = []\<rparr>)\<rparr>"

lemma kern_demo_fin: "fin_kern kern_demo" by (simp add: fin_kern_def kern_demo_def)

theorem cpu_profiling_setup_all_or_nothing_witness:
  "\<exists>c1 k1 r. cpu_profiling_setup (pf_demo (\<lambda>_. False) (\<lambda>_. 0)) perf_cpu_zero kern_demo = Some (c1, k1, r) \<and>
     (r = 0 \<or> k_fds k1 = {} \<and> k_maps k1 = {} \<and> holds_none c1)"
proof -
  from cpu_profiling_setup_all_or_nothing [OF pf_demo_fresh kern_demo_fin, of "\<lambda>_. False" "\<lambda>_. 0" perf_cpu_zero]
  obtain c1 k1 r where s: "cpu_profiling_setup (pf_demo (\<lambda>_. False) (\<lambda>_. 0)) perf_cpu_zero kern_demo = Some (c1, k1, r)"
    and "r \<noteq> 0 \<longrightarrow> k_fds k1 = k_fds kern_demo \<and> k_maps k1 = k_maps kern_demo \<and> holds_none c1"
    by (auto split: if_splits)
  then show ?thesis using s by (auto simp: kern_demo_def)
qed

section \<open>Pausing and restoring counters\<close>

text \<open>Switching events that can be switched: exactly the listed ones change.\<close>

definition switchable :: "pf_env \<Rightarrow> perf_cpu \<Rightarrow> bool" where
  "switchable env c \<longleftrightarrow> (\<forall>k fd io. pfe_ioctl env k fd io = 0) \<and> (\<forall>i \<in> set counter_ids. cpu_fds c i \<noteq> INVALID_FD) \<and>
     inj_on (cpu_fds c) (set counter_ids)"

lemma pf_switch_on:
  assumes "switchable env c" "i \<in> set counter_ids"
  shows "k_on (fst (pf_profiling_start env i c k)) = insert (cpu_fds c i) (k_on k)"
    and "k_on (fst (pf_profiling_stop env i c k)) = k_on k - {cpu_fds c i}"
  using assms by (simp_all add: switchable_def pf_profiling_start_def pf_profiling_stop_def do_ioctl_def)

lemma switch_events_on:
  assumes "switchable env c" "set is \<subseteq> set counter_ids"
  shows "k_on (switch_events env on is c k) =
    (k_on k - cpu_fds c ` {i \<in> set is. \<not> on i}) \<union> cpu_fds c ` {i \<in> set is. on i}"
  using assms(2)
proof (induction "is" arbitrary: k)
  case (Cons i "is")
  have i: "i \<in> set counter_ids" "set is \<subseteq> set counter_ids" using Cons.prems by auto
  have inj: "cpu_fds c j \<noteq> cpu_fds c i" if "j \<in> set is" "on j \<noteq> on i" for j
    using assms(1) i that by (auto simp: switchable_def inj_on_def)
  show ?case
    using Cons.IH [OF i(2)] inj pf_switch_on [OF assms(1) i(1), of k] by auto
qed simp

lemma follower_ids_sub: "set follower_ids \<subseteq> set counter_ids" "PERF_COUNT_CORE_CLK \<notin> set follower_ids"
  "i \<in> set follower_ids \<Longrightarrow> \<not> whole_group i"
  by (auto simp: follower_ids_def counter_ids_def whole_group_def)

text \<open>
  C27: Pausing for the call chains of a counter leaves that counter running and
  stops the other counters of the group apart from the leader; restoring then
  discards the samples in the ring and has all counters running again.
\<close>

theorem partpause_restore_events:
  assumes "switchable env c" "i \<in> set follower_ids"
    and "cpu_map_base c = Some m" "m \<in> k_maps k" "\<forall>rb \<in> set rbs. rb_ok rb"
    and "ring_at (pfe_ring env) (k_ring k m) (concat (map rb_words rbs))"
  shows "\<exists>k1 k2. cpu_profiling_partpause env i c k = Some (c, k1, 0) \<and>
     {j \<in> set follower_ids. cpu_fds c j \<in> k_on k1} = {i} \<and>
     cpu_profiling_restore env i c k1 = Some (c, k2, 0) \<and>
     (\<forall>j \<in> set follower_ids. cpu_fds c j \<in> k_on k2) \<and> avail (k_ring k2 m) = [] \<and>
     (cpu_fds c PERF_COUNT_CORE_CLK \<in> k_on k2 \<longleftrightarrow> cpu_fds c PERF_COUNT_CORE_CLK \<in> k_on k)"
proof -
  define k1 where "k1 = switch_events env (\<lambda>j. j = i) follower_ids c k"
  define k2 where "k2 = fst (pf_profiling_stop env i c k1)"
  note on = switch_events_on [OF assms(1) follower_ids_sub(1)]
  have inj: "cpu_fds c j = cpu_fds c l \<longleftrightarrow> j = l" if "j \<in> set counter_ids" "l \<in> set counter_ids" for j l
    using assms(1) that by (auto simp: switchable_def inj_on_def)
  have img: "cpu_fds c j \<in> cpu_fds c ` S \<longleftrightarrow> j \<in> S" if "j \<in> set counter_ids" "S \<subseteq> set counter_ids" for j S
    using inj that by blast
  have k1: "k_maps k1 = k_maps k" "k_ring k1 = k_ring k" by (simp_all add: k1_def)
  have o1: "k_on k1 = (k_on k - cpu_fds c ` {j \<in> set follower_ids. j \<noteq> i}) \<union> cpu_fds c ` {j \<in> set follower_ids. j = i}"
    unfolding k1_def by (rule on)
  have f1: "{j \<in> set follower_ids. cpu_fds c j \<in> k_on k1} = {i}"
    using assms(2) follower_ids_sub(1) by (auto simp: o1 img subset_iff inj)
  let ?stack = "\<lparr>pr_pid = 0, pr_tid = 0, pr_period = 0, pr_countval = (\<lambda>_. 0), pr_ip_num = 0, pr_ips = []\<rparr>"
  let ?r = "ring_adv (k_ring k m) (length (concat (map rb_words rbs)))"
  have dr: "pf_profiling_record (pfe_ring env) (\<lambda>v _ _. v) (k_ring k m) ?stack None = Some (?r, None)"
    using profiling_loop_drain [OF assms(6,5)] by (simp add: pf_profiling_record_def)
  have av: "avail ?r = []"
    using ring_at_adv [of "pfe_ring env" "k_ring k m" "concat (map rb_words rbs)" "[]"] assms(6) by (simp add: ring_at_def)
  define k3 where "k3 = k2\<lparr>k_ring := (k_ring k2)(m := ?r)\<rparr>"
  have d: "profiling_discard env c k2 = Some k3"
    using dr assms(3,4) k1 by (simp add: profiling_discard_def cpu_ring_def k2_def k3_def)
  define k4 where "k4 = switch_events env (\<lambda>_. True) follower_ids c k3"
  have o4: "k_on k4 = k_on k3 \<union> cpu_fds c ` set follower_ids" unfolding k4_def by (subst on) auto
  have o3: "k_on k3 = k_on k1 - {cpu_fds c i}"
    using pf_switch_on(2) [OF assms(1), of i k1] assms(2) follower_ids_sub(1) by (auto simp: k3_def k2_def)
  have lead: "cpu_fds c PERF_COUNT_CORE_CLK \<in> k_on k4 \<longleftrightarrow> cpu_fds c PERF_COUNT_CORE_CLK \<in> k_on k"
    using follower_ids_sub assms(2)
    by (auto simp: o4 o3 o1 img counter_ids_distinct(2) inj subset_iff)
  have "cpu_profiling_partpause env i c k = Some (c, k1, 0)"
    using follower_ids_sub(3) [OF assms(2)] by (simp add: cpu_profiling_partpause_def k1_def)
  moreover have "cpu_profiling_restore env i c k1 = Some (c, k4, 0)"
    using follower_ids_sub(3) [OF assms(2)] d by (simp add: cpu_profiling_restore_def k2_def k4_def)
  moreover have "\<forall>j \<in> set follower_ids. cpu_fds c j \<in> k_on k4" by (simp add: o4)
  moreover have "k_ring k4 m = ?r" by (simp add: k4_def k3_def)
  ultimately show ?thesis using f1 av lead by (intro exI [of _ k1] exI [of _ k4]) simp
qed

definition cpu_demo :: perf_cpu where
  "cpu_demo = perf_cpu_zero\<lparr>cpu_map_base := Some 7,
     cpu_fds := (\<lambda>i. case i of PERF_COUNT_INVALID \<Rightarrow> -1 | PERF_COUNT_CORE_CLK \<Rightarrow> 3 | PERF_COUNT_RMA \<Rightarrow> 4 | PERF_COUNT_CLK \<Rightarrow> 5
       | PERF_COUNT_IR \<Rightarrow> 6 | PERF_COUNT_LMA \<Rightarrow> 8)\<rparr>"

definition kern_run_demo :: pkern where
  "kern_run_demo = kern_demo\<lparr>k_fds := {3, 4, 5, 6, 8}, k_maps := {7}, k_on := {3, 4, 5, 6, 8},
     k_ring := (\<lambda>_. ring_of (concat (map rb_words rbs_demo)))\<rparr>"

theorem partpause_restore_events_witness:
  "\<exists>k1 k2. cpu_profiling_partpause (pf_demo (\<lambda>_. True) (\<lambda>_. 0)) PERF_COUNT_CLK cpu_demo kern_run_demo = Some (cpu_demo, k1, 0) \<and>
     {j \<in> set follower_ids. cpu_fds cpu_demo j \<in> k_on k1} = {PERF_COUNT_CLK} \<and>
     cpu_profiling_restore (pf_demo (\<lambda>_. True) (\<lambda>_. 0)) PERF_COUNT_CLK cpu_demo k1 = Some (cpu_demo, k2, 0) \<and>
     (\<forall>j \<in> set follower_ids. cpu_fds cpu_demo j \<in> k_on k2)"
proof -
  have s: "switchable (pf_demo (\<lambda>_. True) (\<lambda>_. 0)) cpu_demo"
    by (simp add: switchable_def pf_demo_def cpu_demo_def counter_ids_def INVALID_FD_def inj_on_def)
  have i: "PERF_COUNT_CLK \<in> set follower_ids" by (simp add: follower_ids_def)
  have m: "cpu_map_base cpu_demo = Some 7" "7 \<in> k_maps kern_run_demo"
    by (simp_all add: cpu_demo_def kern_run_demo_def)
  have rb: "\<forall>rb \<in> set rbs_demo. rb_ok rb"
    by (simp add: rbs_demo_def rb_ok_def PERF_RECORD_SAMPLE_def counter_ids_def)
  have "ring_at (pfe_ring (pf_demo (\<lambda>_. True) (\<lambda>_. 0))) (k_ring kern_run_demo 7) (concat (map rb_words rbs_demo))"
    using rbs_demo_at by (simp add: pf_demo_def kern_run_demo_def)
  from partpause_restore_events [OF s i m rb this] show ?thesis by blast
qed

section \<open>Rings that are not there\<close>

text \<open>
  Restoring counters reads the ring of every processor without asking whether
  it has one: on a processor whose events could not be set up, or were released
  because an ioctl failed, the mapping is MAP_FAILED and the access is undefined.
\<close>

theorem restore_without_ring_undefined:
  assumes "\<not> event_valid c" "\<not> whole_group i"
  shows "cpu_profiling_restore env i c k = None \<and> cpu_profiling_multi_restore env is c k = None"
  using assms by (simp add: cpu_profiling_restore_def cpu_profiling_multi_restore_def profiling_discard_def
      cpu_ring_def event_valid_def)

theorem restore_without_ring_undefined_witness:
  "\<exists>c1 k1. cpu_profiling_setupstart (pf_demo (\<lambda>_. False) (\<lambda>_. 0)) perf_cpu_zero kern_demo = Some (c1, k1, -1) \<and>
     cpu_profiling_restore (pf_demo (\<lambda>_. False) (\<lambda>_. 0)) PERF_COUNT_CLK c1 k1 = None"
proof -
  obtain c1 k1 r where s: "cpu_profiling_setup (pf_demo (\<lambda>_. False) (\<lambda>_. 0)) perf_cpu_zero kern_demo = Some (c1, k1, r)"
    using cpu_profiling_setup_total by blast
  have r: "r = -1"
    using s by (auto simp: cpu_profiling_setup_def counter_ids_def pf_demo_def INVALID_CONFIG_def pf_profiling_setup_def
        pf_event_open_def Let_def split: prod.splits)
  then have "holds_none c1" using cpu_profiling_setup_balanced [OF pf_demo_fresh kern_demo_fin s] by simp
  then have "\<not> event_valid c1" by (auto simp: holds_none_def mpm_def event_valid_def split: option.splits)
  from restore_without_ring_undefined [OF this, of PERF_COUNT_CLK] show ?thesis
    using s r by (simp add: cpu_profiling_setupstart_def whole_group_def)
qed

end
