(* ===== verification/Smpl.thy ===== *)
theory Smpl
  imports Pf ProcUse
begin

text \<open>
  The state of the perf thread and the sampling of a processor
  (cpu_profiling_smpl and cpu_ll_smpl of common/os/os_perf.c): the records of
  the ring buffer are attributed to the tracked process and thread they name
  and to the node of the processor.

  While the samples of a processor are attributed, its slot is not read through
  the node, so that it is handed over separately and written back by the walk.
\<close>

section \<open>State and surroundings\<close>

text \<open>
  The directories of /sys/fs/resctrl/mon_groups with the identifiers written to
  their task files, and the counter g_pqos_moni_id.
\<close>

record resctrl =
  rt_groups :: "int \<Rightarrow> int list option"
  rt_moni_id :: u32

datatype disp_note =
    Profiling_ready int | Profiling_fail | Ll_ready int | Ll_fail | Pqos_ready int | Flag2_set flag2

text \<open>
  th_ticks counts the readings of the clock, th_intval_ms is the local variable
  of perf_handler, th_disp what has been told to the display thread.
\<close>

record perf_thr =
  th_ctl :: perf_ctl
  th_ng :: node_group
  th_kern :: pkern
  th_ps :: pstate
  th_partpause :: bool
  th_recbuf :: "pf_profiling_rec list"
  th_llbuf :: "pf_ll_rec list"
  th_resctrl :: resctrl
  th_ticks :: nat
  th_intval_ms :: int
  th_disp :: "disp_note list"

record thr_env =
  te_pf :: pf_env
  te_proc :: proc_env
  te_scale :: "u64 \<Rightarrow> u64 \<Rightarrow> u64 \<Rightarrow> u64"
  te_stack :: pf_profiling_rec
  te_ll_stack :: pf_ll_rec
  te_period :: "perf_count_id \<Rightarrow> u64"
  te_chain_ok :: "int \<Rightarrow> bool"
  te_realloc_ok :: bool
  te_clock :: "nat \<Rightarrow> nat"
  te_read :: "int \<Rightarrow> read_result list"
  te_rmdir :: "int \<Rightarrow> bool"
  te_mkdir :: "int \<Rightarrow> bool"
  te_tasks :: "int \<Rightarrow> bool"
  te_mon :: "int \<Rightarrow> string \<Rightarrow> int \<Rightarrow> u64 option"

type_synonym thr_op = "perf_cpu \<Rightarrow> perf_thr \<Rightarrow> (perf_cpu \<times> perf_thr \<times> int) option"

section \<open>One record\<close>

abbreviation set_ps :: "perf_thr \<Rightarrow> pstate \<Rightarrow> perf_thr" where
  "set_ps st ps \<equiv> st\<lparr>th_ps := ps\<rparr>"

definition node_count :: "nat \<Rightarrow> perf_count_id \<Rightarrow> u64 \<Rightarrow> node_group \<Rightarrow> node_group" where
  "node_count n j v g = g\<lparr>ng_nodes := (ng_nodes g)[n := node_countval_update j v (ng_nodes g ! n)]\<rparr>"

text \<open>The three counters one increase goes to; the results of the updates are ignored.\<close>

definition smpl_count ::
  "thr_env \<Rightarrow> int \<Rightarrow> nat \<Rightarrow> addr \<Rightarrow> addr \<Rightarrow> perf_count_id \<Rightarrow> u64 \<Rightarrow> perf_thr \<Rightarrow> perf_thr option" where
  "smpl_count env cpuid n a l j v st =
     do {
       let ps = th_ps st;
       p \<leftarrow> ps_procs ps a;
       (p1, _) \<leftarrow> proc_countval_update (te_realloc_ok env) (node_cpuid_max (th_ng st)) cpuid j v p;
       w \<leftarrow> ps_lwps ps l;
       (w1, _) \<leftarrow> lwp_countval_update (te_realloc_ok env) (node_cpuid_max (th_ng st)) cpuid j v w;
       Some (st\<lparr>th_ps := ps\<lparr>ps_procs := (ps_procs ps)(a \<mapsto> p1), ps_lwps := (ps_lwps ps)(l \<mapsto> w1)\<rparr>,
                th_ng := node_count n j v (th_ng st)\<rparr>)
     }"

definition smpl_chain ::
  "thr_env \<Rightarrow> addr \<Rightarrow> addr \<Rightarrow> perf_count_id \<Rightarrow> u64 \<Rightarrow> pf_profiling_rec \<Rightarrow> pstate \<Rightarrow> pstate option" where
  "smpl_chain env a l j v rec ps =
     do {
       p \<leftarrow> ps_procs ps a;
       (pc, _) \<leftarrow> chain_add (te_chain_ok env) j v (pr_ips rec) (pr_ip_num rec) (p_count_chain p);
       w \<leftarrow> ps_lwps ps l;
       (wc, _) \<leftarrow> chain_add (te_chain_ok env) j v (pr_ips rec) (pr_ip_num rec) (l_count_chain w);
       Some (ps\<lparr>ps_procs := (ps_procs ps)(a \<mapsto> p\<lparr>p_count_chain := pc\<rparr>),
                ps_lwps := (ps_lwps ps)(l \<mapsto> w\<lparr>l_count_chain := wc\<rparr>)\<rparr>)
     }"

fun smpl_counters ::
  "thr_env \<Rightarrow> int \<Rightarrow> nat \<Rightarrow> addr \<Rightarrow> addr \<Rightarrow> pf_profiling_rec \<Rightarrow> count_value \<Rightarrow> perf_count_id list \<Rightarrow> perf_thr
     \<Rightarrow> perf_thr option" where
  "smpl_counters env cpuid n a l rec diff [] st = Some st"
| "smpl_counters env cpuid n a l rec diff (j # js) st =
     do {
       st1 \<leftarrow> (if \<not> th_partpause st then smpl_count env cpuid n a l j (diff j) st else Some st);
       st2 \<leftarrow> (if pr_ip_num rec > 0 \<and> diff j \<ge> te_period env j
               then do { ps \<leftarrow> smpl_chain env a l j (diff j) rec (th_ps st1); Some (set_ps st1 ps) }
               else Some st1);
       smpl_counters env cpuid n a l rec diff js st2
     }"

text \<open>
  proc_find and proc_lwp_find: the process and the thread of a record, both
  referenced, or None after what was referenced has been released.
\<close>

definition smpl_find :: "u32 \<Rightarrow> u32 \<Rightarrow> pstate \<Rightarrow> (pstate \<times> (addr \<times> addr) option) option" where
  "smpl_find pid tid ps =
     do {
       (ps1, pa) \<leftarrow> proc_find (sint pid) ps;
       (case pa of
          None \<Rightarrow> Some (ps1, None)
        | Some a \<Rightarrow>
            do {
              p \<leftarrow> ps_procs ps1 a;
              (h, la) \<leftarrow> proc_lwp_find (p_lwp_list p) (sint tid) (ps_lwps ps1);
              let ps2 = ps1\<lparr>ps_lwps := h\<rparr>;
              (case la of
                 None \<Rightarrow> do { ps3 \<leftarrow> proc_refcount_dec a ps2; Some (ps3, None) }
               | Some l \<Rightarrow> Some (ps2, Some (a, l)))
            })
     }"

definition smpl_release :: "addr \<Rightarrow> addr \<Rightarrow> pstate \<Rightarrow> pstate option" where
  "smpl_release a l ps =
     do {
       h \<leftarrow> lwp_refcount_dec l (ps_lwps ps);
       proc_refcount_dec a (ps\<lparr>ps_lwps := h\<rparr>)
     }"

section \<open>The records of a processor\<close>

definition smpl_one :: "thr_env \<Rightarrow> nat \<Rightarrow> pf_profiling_rec \<Rightarrow> thr_op" where
  "smpl_one env n rec c st =
     (case countval_diff c (pr_countval rec) of
        (c1, diff) \<Rightarrow>
          do {
            (ps1, found) \<leftarrow> smpl_find (pr_pid rec) (pr_tid rec) (th_ps st);
            (case found of
               None \<Rightarrow> Some (c1, set_ps st ps1, -1)
             | Some (a, l) \<Rightarrow>
                 do {
                   st1 \<leftarrow> smpl_counters env (cpu_cpuid c1) n a l rec diff counter_ids (set_ps st ps1);
                   ps2 \<leftarrow> smpl_release a l (th_ps st1);
                   Some (c1, set_ps st1 ps2, 0)
                 })
          })"

text \<open>
  The loop: a record of the identifiers -1 is skipped, and the first record
  whose process or thread is not tracked ends it.
\<close>

fun smpl_recs :: "thr_env \<Rightarrow> nat \<Rightarrow> pf_profiling_rec list \<Rightarrow> thr_op" where
  "smpl_recs env n [] c st = Some (c, st, 0)"
| "smpl_recs env n (rec # recs) c st =
     (if pr_pid rec = - 1 \<or> pr_tid rec = - 1 then smpl_recs env n recs c st
      else do {
        (c1, st1, r) \<leftarrow> smpl_one env n rec c st;
        if r \<noteq> 0 then Some (c1, st1, 0) else smpl_recs env n recs c1 st1
      })"

definition cpu_profiling_smpl :: "thr_env \<Rightarrow> thr_op" where
  "cpu_profiling_smpl env c st =
     (if \<not> event_valid c then Some (c, st, 0)
      else do {
        (m, r) \<leftarrow> cpu_ring c (th_kern st);
        (r1, out) \<leftarrow> pf_profiling_record (pfe_ring (te_pf env)) (te_scale env) r (te_stack env) (Some (th_recbuf st));
        (buf, num) \<leftarrow> out;
        let st1 = st\<lparr>th_kern := (th_kern st)\<lparr>k_ring := (k_ring (th_kern st))(m := r1)\<rparr>, th_recbuf := buf\<rparr>;
        if num = 0 then Some (c, st1, 0)
        else do {
          node \<leftarrow> node_by_cpu (th_ng st1) (cpu_cpuid c);
          (case node of
             None \<Rightarrow> Some (c, st1, 0)
           | Some n \<Rightarrow>
               do {
                 first \<leftarrow> arr_get buf 0;
                 smpl_recs env n (drop 1 (take (nat num) buf)) (countval_diff_base c (pr_countval first)) st1
               })
        }
      })"

section \<open>Latency samples\<close>

definition ll_wanted :: "perf_task \<Rightarrow> pf_ll_rec \<Rightarrow> bool" where
  "ll_wanted t rec \<longleftrightarrow>
     \<not> (t_pid t \<noteq> 0 \<and> t_pid t \<noteq> sint (lr_pid rec)) \<and>
     \<not> (t_pid t \<noteq> 0 \<and> t_lwpid t \<noteq> 0 \<and> t_lwpid t \<noteq> sint (lr_tid rec))"

definition ll_store :: "thr_env \<Rightarrow> addr \<Rightarrow> addr \<Rightarrow> pf_ll_rec \<Rightarrow> pstate \<Rightarrow> pstate option" where
  "ll_store env a l rec ps =
     do {
       p \<leftarrow> ps_procs ps a;
       (pg, _) \<leftarrow> llrec_add (te_chain_ok env) rec (p_llrec_grp p);
       w \<leftarrow> ps_lwps ps l;
       (wg, _) \<leftarrow> llrec_add (te_chain_ok env) rec (l_llrec_grp w);
       Some (ps\<lparr>ps_procs := (ps_procs ps)(a \<mapsto> p\<lparr>p_llrec_grp := pg\<rparr>),
                ps_lwps := (ps_lwps ps)(l \<mapsto> w\<lparr>l_llrec_grp := wg\<rparr>)\<rparr>)
     }"

fun ll_recs :: "thr_env \<Rightarrow> perf_task \<Rightarrow> pf_ll_rec list \<Rightarrow> pstate \<Rightarrow> pstate option" where
  "ll_recs env t [] ps = Some ps"
| "ll_recs env t (rec # recs) ps =
     (if \<not> ll_wanted t rec then ll_recs env t recs ps
      else do {
        (ps1, found) \<leftarrow> smpl_find (lr_pid rec) (lr_tid rec) ps;
        (case found of
           None \<Rightarrow> Some ps1
         | Some (a, l) \<Rightarrow>
             do {
               ps2 \<leftarrow> ll_store env a l rec ps1;
               ps3 \<leftarrow> smpl_release a l ps2;
               ll_recs env t recs ps3
             })
      })"

definition cpu_ll_smpl :: "thr_env \<Rightarrow> perf_task \<Rightarrow> thr_op" where
  "cpu_ll_smpl env t c st =
     do {
       (m, r) \<leftarrow> cpu_ring c (th_kern st);
       (r1, buf, num) \<leftarrow> pf_ll_record (pfe_ring (te_pf env)) r (te_ll_stack env) (th_llbuf st);
       let st1 = st\<lparr>th_kern := (th_kern st)\<lparr>k_ring := (k_ring (th_kern st))(m := r1)\<rparr>, th_llbuf := buf\<rparr>;
       if num = 0 then Some (c, st1, 0)
       else do {
         ps \<leftarrow> ll_recs env t (take (nat num) buf) (th_ps st1);
         Some (c, set_ps st1 ps, 0)
       }
     }"

section \<open>The walk over the slots\<close>

definition lift_op :: "pcpu_op \<Rightarrow> thr_op" where
  "lift_op op c st = do { (c1, k1, r) \<leftarrow> op c (th_kern st); Some (c1, st\<lparr>th_kern := k1\<rparr>, r) }"

definition slot_get :: "nat \<Rightarrow> nat \<Rightarrow> perf_thr \<Rightarrow> perf_cpu option" where
  "slot_get i j st =
     do { n \<leftarrow> arr_get (ng_nodes (th_ng st)) (int i); cs \<leftarrow> n_cpus n; arr_get cs (int j) }"

definition node_upd :: "nat \<Rightarrow> (node \<Rightarrow> node) \<Rightarrow> perf_thr \<Rightarrow> perf_thr" where
  "node_upd i f st =
     st\<lparr>th_ng := (th_ng st)\<lparr>ng_nodes := (ng_nodes (th_ng st))[i := f (ng_nodes (th_ng st) ! i)]\<rparr>\<rparr>"

definition slot_put :: "nat \<Rightarrow> nat \<Rightarrow> perf_cpu \<Rightarrow> perf_thr \<Rightarrow> perf_thr" where
  "slot_put i j c = node_upd i (\<lambda>n. n\<lparr>n_cpus := map_option (\<lambda>cs. cs[j := c]) (n_cpus n)\<rparr>)"

definition thr_visit :: "thr_op option \<Rightarrow> bool \<Rightarrow> thr_op option \<Rightarrow> thr_op" where
  "thr_visit func err_ret hotadd_func c st =
     (if cpu_hotremove c then
        (case pf_resource_free c (th_kern st) of
           (c1, k1) \<Rightarrow> Some (c1\<lparr>cpu_hotremove := False, cpu_cpuid := INVALID_CPUID\<rparr>, st\<lparr>th_kern := k1\<rparr>, 0))
      else do {
        (c1, st1) \<leftarrow>
          (case hotadd_func of
             Some f \<Rightarrow>
               if cpu_hotadd c then do { (c1, st1, _) \<leftarrow> f c st; Some (c1\<lparr>cpu_hotadd := False\<rparr>, st1) }
               else Some (c, st)
           | None \<Rightarrow> Some (c, st));
        (case func of
           Some f \<Rightarrow>
             if cpu_valid c1 \<and> \<not> cpu_hotadd c1 then
               do { (c2, st2, ret) \<leftarrow> f c1 st1; Some (c2, st2, if err_ret then ret else 0) }
             else Some (c1, st1, 0)
         | None \<Rightarrow> Some (c1, st1, 0))
      })"

text \<open>The loops over the slots of the node i from the slot j, and over the nodes from i; the last number counts down.\<close>

fun thr_slots :: "thr_op option \<Rightarrow> bool \<Rightarrow> thr_op option \<Rightarrow> nat \<Rightarrow> nat \<Rightarrow> nat \<Rightarrow> perf_thr \<Rightarrow> (perf_thr \<times> int) option" where
  "thr_slots func err hotadd i j 0 st = Some (st, 0)"
| "thr_slots func err hotadd i j (Suc m) st =
     do {
       c \<leftarrow> slot_get i j st;
       (c1, st1, ret) \<leftarrow> thr_visit func err hotadd c st;
       let st2 = slot_put i j c1 st1;
       if ret \<noteq> 0 then Some (st2, ret) else thr_slots func err hotadd i (j + 1) m st2
     }"

fun thr_nodes :: "thr_op option \<Rightarrow> bool \<Rightarrow> thr_op option \<Rightarrow> nat \<Rightarrow> nat \<Rightarrow> perf_thr \<Rightarrow> (perf_thr \<times> int) option" where
  "thr_nodes func err hotadd i 0 st = Some (st, 0)"
| "thr_nodes func err hotadd i (Suc m) st =
     do {
       n \<leftarrow> arr_get (ng_nodes (th_ng st)) (int i);
       if \<not> NODE_VALID n then thr_nodes func err hotadd (i + 1) m st
       else do {
         cs \<leftarrow> n_cpus n;
         (st1, ret) \<leftarrow> thr_slots func err hotadd i 0 (length cs) st;
         if ret \<noteq> 0 then Some (st1, ret)
         else thr_nodes func err hotadd (i + 1) m
                (node_upd i (\<lambda>n. if n_hotremove n then n\<lparr>n_nid := INVALID_NID, n_hotremove := False\<rparr> else n) st1)
       }
     }"

definition thr_cpu_traverse :: "thr_op option \<Rightarrow> bool \<Rightarrow> thr_op option \<Rightarrow> perf_thr \<Rightarrow> (perf_thr \<times> int) option" where
  "thr_cpu_traverse func err hotadd st = thr_nodes func err hotadd 0 (length (ng_nodes (th_ng st))) st"

end
