(* ===== verification/SmplUse.thy ===== *)
theory SmplUse
  imports Smpl PfUse
begin

text \<open>
  The samples of a processor are attributed to the processes, threads and node
  they belong to, each increase once.
\<close>

section \<open>What sampling leaves alone\<close>

definition pview :: "track_proc \<Rightarrow> int \<times> bool \<times> proc_lwplist \<times> ptr \<times> ptr" where
  "pview p = (p_pid p, p_removing p, p_lwp_list p, p_hash_prev p, p_hash_next p)"

definition lview :: "track_lwp \<Rightarrow> int \<times> bool \<times> bool \<times> ptr" where
  "lview l = (l_id l, l_removing l, l_quitting l, l_proc l)"

definition kept :: "pstate \<Rightarrow> pstate \<Rightarrow> bool" where
  "kept s s1 \<longleftrightarrow> (\<forall>b. map_option pview (ps_procs s1 b) = map_option pview (ps_procs s b)) \<and>
     (\<forall>l. map_option lview (ps_lwps s1 l) = map_option lview (ps_lwps s l)) \<and>
     pg_hashtbl (ps_group s1) = pg_hashtbl (ps_group s)"

lemma kept_refl [simp]: "kept s s" by (simp add: kept_def)

lemma kept_trans: "kept s s1 \<Longrightarrow> kept s1 s2 \<Longrightarrow> kept s s2" by (simp add: kept_def)

lemma kept_proc:
  assumes "kept s s1" "ps_procs s b = Some p"
  obtains q where "ps_procs s1 b = Some q" "p_pid q = p_pid p" "p_removing q = p_removing p"
    "p_lwp_list q = p_lwp_list p" "p_hash_prev q = p_hash_prev p" "p_hash_next q = p_hash_next p"
proof -
  have "map_option pview (ps_procs s1 b) = Some (pview p)" using assms by (simp add: kept_def)
  then show ?thesis using that by (auto simp: pview_def)
qed

lemma kept_lwp:
  assumes "kept s s1" "ps_lwps s l = Some w"
  obtains v where "ps_lwps s1 l = Some v" "l_id v = l_id w" "l_removing v = l_removing w"
    "l_quitting v = l_quitting w" "l_proc v = l_proc w"
proof -
  have "map_option lview (ps_lwps s1 l) = Some (lview w)" using assms by (simp add: kept_def)
  then show ?thesis using that by (auto simp: lview_def)
qed

lemma kept_dom: "kept s s1 \<Longrightarrow> dom (ps_procs s1) = dom (ps_procs s) \<and> dom (ps_lwps s1) = dom (ps_lwps s)"
proof -
  assume k: "kept s s1"
  have "ps_procs s1 b = None \<longleftrightarrow> ps_procs s b = None" for b
    using k by (simp add: kept_def) (metis map_option_is_None)
  moreover have "ps_lwps s1 b = None \<longleftrightarrow> ps_lwps s b = None" for b
    using k by (simp add: kept_def) (metis map_option_is_None)
  ultimately show ?thesis by (simp add: dom_def)
qed

lemma tbl_ok_listed:
  assumes "tbl_ok s chs" "a \<in> set (concat chs)"
  obtains p where "ps_procs s a = Some p" "\<not> p_removing p" "lwplist_ok a (p_lwp_list p) (ps_lwps s) (lwps_of p)"
proof (rule tbl_ok_member [OF assms])
  fix pre c post assume "proc_ok (ps_procs s) (ps_lwps s) (length pre) a"
  then show ?thesis using that by (auto simp: proc_ok_def)
qed

lemma kept_lwplist_ok:
  assumes "kept s s1" "lwplist_ok a ll (ps_lwps s) as"
  shows "lwplist_ok a ll (ps_lwps s1) as"
proof -
  have live: "lwps_live a (ps_lwps s) as" using assms(2) by (simp add: lwplist_ok_def)
  have ids: "lwp_ids (ps_lwps s1) as = lwp_ids (ps_lwps s) as"
    unfolding lwp_ids_def
  proof (rule map_cong [OF refl])
    fix x assume "x \<in> set as"
    then have "\<exists>l. ps_lwps s x = Some l" using live by (auto simp: lwps_live_def)
    then obtain l where l: "ps_lwps s x = Some l" by blast
    obtain v where "ps_lwps s1 x = Some v" "l_id v = l_id l" using kept_lwp [OF assms(1) l] by blast
    then show "l_id (the (ps_lwps s1 x)) = l_id (the (ps_lwps s x))" using l by simp
  qed
  have "\<exists>l. ps_lwps s1 x = Some l \<and> l_proc l = Some a \<and> \<not> l_removing l" if "x \<in> set as" for x
  proof -
    obtain l where l: "ps_lwps s x = Some l" "l_proc l = Some a" "\<not> l_removing l"
      using live \<open>x \<in> set as\<close> unfolding lwps_live_def by blast
    obtain v where "ps_lwps s1 x = Some v" "l_removing v = l_removing l" "l_proc v = l_proc l"
      using kept_lwp [OF assms(1) l(1)] by blast
    then show ?thesis using l by simp
  qed
  then have "lwps_live a (ps_lwps s1) as" using live ids by (simp add: lwps_live_def)
  then show ?thesis using assms(2) by (simp add: lwplist_ok_def)
qed

lemma tbl_ok_kept:
  assumes "tbl_ok s chs" "kept s s1" "set_option (pg_latest (ps_group s1)) \<subseteq> set (concat chs)"
  shows "tbl_ok s1 chs"
proof -
  have seg: "chain (ps_procs s1) c" if c: "c \<in> set chs" for c
  proof -
    have ch: "chain (ps_procs s) c" using assms(1) c by (simp add: tbl_ok_def chains_ok_def)
    have "chain (ps_procs s1) c = chain (ps_procs s) c"
    proof (rule dseg_links)
      fix b assume "b \<in> set c"
      then have "b \<in> dom (ps_procs s)" using dseg_dom [OF ch] by blast
      then obtain p where p: "ps_procs s b = Some p" by blast
      then show "\<exists>n n'. ps_procs s b = Some n \<and> ps_procs s1 b = Some n' \<and>
          p_hash_next n' = p_hash_next n \<and> p_hash_prev n' = p_hash_prev n"
        using kept_proc [OF assms(2) p] by metis
    qed
    then show ?thesis using ch by simp
  qed
  have "chains_ok s1 chs" using assms(1,2) seg by (simp add: tbl_ok_def chains_ok_def kept_def)
  moreover have "proc_ok (ps_procs s1) (ps_lwps s1) i a" if "i < PROC_HASHTBL_SIZE" "a \<in> set (chs ! i)" for i a
  proof -
    have "proc_ok (ps_procs s) (ps_lwps s) i a" using assms(1) that by (simp add: tbl_ok_def)
    then obtain p where p: "ps_procs s a = Some p" "PROC_HASHTBL_INDEX (p_pid p) = int i" "\<not> p_removing p"
      "lwplist_ok a (p_lwp_list p) (ps_lwps s) (lwps_of p)" by (auto simp: proc_ok_def)
    obtain q where q: "ps_procs s1 a = Some q" "p_pid q = p_pid p" "p_removing q = p_removing p" "p_lwp_list q = p_lwp_list p"
      using kept_proc [OF assms(2) p(1)] by blast
    have "lwps_of q = lwps_of p" using q by (simp add: lwps_of_def)
    then show ?thesis using kept_lwplist_ok [OF assms(2) p(4)] q p by (auto simp: proc_ok_def)
  qed
  moreover have me: "map (pid_at (ps_procs s1)) (concat chs) = map (pid_at (ps_procs s)) (concat chs)"
  proof (rule map_cong [OF refl])
    fix b assume "b \<in> set (concat chs)"
    then obtain p where p: "ps_procs s b = Some p" using tbl_ok_listed [OF assms(1)] by blast
    obtain q where "ps_procs s1 b = Some q" "p_pid q = p_pid p" using kept_proc [OF assms(2) p] by blast
    then show "pid_at (ps_procs s1) b = pid_at (ps_procs s) b" using p by simp
  qed
  moreover have "finite (dom (ps_procs s1))" "finite (dom (ps_lwps s1))"
    using assms(1) kept_dom [OF assms(2)] by (simp_all add: tbl_ok_def)
  moreover have "distinct (map (pid_at (ps_procs s1)) (concat chs))"
    unfolding me using assms(1) unfolding tbl_ok_def by blast
  ultimately show ?thesis using assms(3) unfolding tbl_ok_def by blast
qed

section \<open>Whom a sample belongs to\<close>

text \<open>The process and thread with these identifiers, if both are tracked and the thread is not quitting.\<close>

definition tracked :: "pstate \<Rightarrow> addr list list \<Rightarrow> u32 \<Rightarrow> u32 \<Rightarrow> (addr \<times> addr) option" where
  "tracked s chs pid tid =
     (case proc_at (ps_procs s) chs (sint pid) of
        None \<Rightarrow> None
      | Some a \<Rightarrow>
          (case lwp_at (ps_lwps s) (lwps_of (the (ps_procs s a))) (sint tid) of
             None \<Rightarrow> None
           | Some l \<Rightarrow> if l_quitting (the (ps_lwps s l)) then None else Some (a, l)))"

lemma tracked_kept:
  assumes "tbl_ok s chs" "kept s s1"
  shows "tracked s1 chs = tracked s chs"
proof (intro ext)
  fix pid tid
  have pa: "proc_at (ps_procs s1) chs x = proc_at (ps_procs s) chs x" for x
    unfolding proc_at_def
  proof (rule find_cong [OF refl])
    fix b assume "b \<in> set (concat chs)"
    then obtain p where p: "ps_procs s b = Some p" using tbl_ok_listed [OF assms(1)] by blast
    obtain q where "ps_procs s1 b = Some q" "p_pid q = p_pid p" using kept_proc [OF assms(2) p] by blast
    then show "(pid_at (ps_procs s1) b = x) = (pid_at (ps_procs s) b = x)" using p by simp
  qed
  show "tracked s1 chs pid tid = tracked s chs pid tid"
  proof (cases "proc_at (ps_procs s) chs (sint pid)")
    case None
    then show ?thesis by (simp add: tracked_def pa)
  next
    case (Some a)
    have "a \<in> set (concat chs)" using proc_at_Some [OF Some] by simp
    then obtain p where p: "ps_procs s a = Some p" "lwplist_ok a (p_lwp_list p) (ps_lwps s) (lwps_of p)"
      using tbl_ok_listed [OF assms(1)] by blast
    obtain q where q: "ps_procs s1 a = Some q" "p_lwp_list q = p_lwp_list p"
      using kept_proc [OF assms(2) p(1)] by blast
    then have lo: "lwps_of q = lwps_of p" by (simp add: lwps_of_def)
    have la: "lwp_at (ps_lwps s1) (lwps_of p) y = lwp_at (ps_lwps s) (lwps_of p) y" for y
      unfolding lwp_at_def
    proof (rule find_cong [OF refl])
      fix x assume "x \<in> set (lwps_of p)"
      then obtain l where l: "ps_lwps s x = Some l" using p(2) by (auto simp: lwplist_ok_def lwps_live_def)
      obtain v where "ps_lwps s1 x = Some v" "l_id v = l_id l" using kept_lwp [OF assms(2) l] by blast
      then show "(l_id (the (ps_lwps s1 x)) = y) = (l_id (the (ps_lwps s x)) = y)" using l by simp
    qed
    have lq: "l_quitting (the (ps_lwps s1 l)) = l_quitting (the (ps_lwps s l))"
      if "lwp_at (ps_lwps s) (lwps_of p) y = Some l" for l y
    proof -
      have "l \<in> set (lwps_of p)" using lwp_at_Some [OF that] by simp
      then obtain w where w: "ps_lwps s l = Some w" using p(2) by (auto simp: lwplist_ok_def lwps_live_def)
      obtain v where "ps_lwps s1 l = Some v" "l_quitting v = l_quitting w" using kept_lwp [OF assms(2) w] by blast
      then show ?thesis using w by simp
    qed
    show ?thesis using Some p q lo la lq by (auto simp: tracked_def pa split: option.splits)
  qed
qed

section \<open>Counts and room\<close>

definition pcount :: "pstate \<Rightarrow> addr \<Rightarrow> int \<Rightarrow> perf_count_id \<Rightarrow> u64" where
  "pcount s b c j = (case ps_procs s b of None \<Rightarrow> 0 | Some p \<Rightarrow> countval_at (p_countval_arr p) c j)"

definition lcount :: "pstate \<Rightarrow> addr \<Rightarrow> int \<Rightarrow> perf_count_id \<Rightarrow> u64" where
  "lcount s b c j = (case ps_lwps s b of None \<Rightarrow> 0 | Some l \<Rightarrow> countval_at (l_countval_arr l) c j)"

definition ncount :: "node_group \<Rightarrow> nat \<Rightarrow> perf_count_id \<Rightarrow> u64" where
  "ncount g n j = n_countval (ng_nodes g ! n) j"

text \<open>
  Room for n more call chains; the bound keeps the size of the doubled array
  below 2^31 bytes.
\<close>

definition chain_fit :: "nat \<Rightarrow> chainrec darr \<Rightarrow> bool" where
  "chain_fit n d \<longleftrightarrow> darr_ok d \<and> (da_max d = 0 \<or> PERF_REC_NUM \<le> da_max d) \<and> da_cur d + int n \<le> 3000000"

definition smpl_fit :: "nat \<Rightarrow> pstate \<Rightarrow> bool" where
  "smpl_fit n s \<longleftrightarrow>
     (\<forall>b p. ps_procs s b = Some p \<longrightarrow> int (length (p_countval_arr p)) = p_cpuid_max p \<and> (\<forall>j. chain_fit n (p_count_chain p j))) \<and>
     (\<forall>b l. ps_lwps s b = Some l \<longrightarrow> int (length (l_countval_arr l)) = l_cpuid_max l \<and> (\<forall>j. chain_fit n (l_count_chain l j)))"

lemma smpl_fit_less: "smpl_fit n s \<Longrightarrow> m \<le> n \<Longrightarrow> smpl_fit m s"
proof -
  assume fit: "smpl_fit n s" and le: "m \<le> n"
  have "chain_fit m d" if "chain_fit n d" for d using that le by (simp add: chain_fit_def)
  then show "smpl_fit m s" using fit unfolding smpl_fit_def by blast
qed

lemma length_darr_list: "darr_ok d \<Longrightarrow> int (length (darr_list d)) = da_cur d"
  by (auto simp: darr_ok_def darr_list_def split: option.splits)

lemma chain_push_fit:
  assumes "chain_fit (Suc n) d" "\<forall>m. ok m"
  obtains d1 where "array_push ok chainrec_bytes PERF_REC_NUM z v d = Some (d1, 0)" "chain_fit n d1"
proof -
  have ok: "darr_ok d" using assms(1) by (simp add: chain_fit_def)
  have sz: "0 < PERF_REC_NUM" "0 < chainrec_bytes" "chainrec_bytes = 272"
    by (simp_all add: PERF_REC_NUM_def chainrec_bytes_def IP_NUM_def)
  show ?thesis
  proof (cases "da_cur d = da_max d")
    case True
    have "da_max d \<le> 3000000" "PERF_REC_NUM \<le> da_max d \<or> da_max d = 0"
      using assms(1) True by (auto simp: chain_fit_def)
    then have "da_max d * 2 * chainrec_bytes < 2 ^ 31" "PERF_REC_NUM \<le> da_max d \<or> da_max d = 0"
      unfolding sz(3) by simp_all
    from array_alloc_result [OF ok sz(1,2) this, of ok z] obtain d2 where
      d2: "array_alloc ok chainrec_bytes PERF_REC_NUM z d = Some (d2, 0)" "darr_ok d2" "da_cur d2 < da_max d2"
        "darr_list d2 = darr_list d" "PERF_REC_NUM \<le> da_max d2" and "\<exists>arr. da_arr d2 = Some arr"
      using assms(2) by (metis (no_types, lifting))
    then obtain arr where arr: "da_arr d2 = Some arr" by blast
    have cur: "da_cur d2 = da_cur d" using length_darr_list d2(2,4) ok by metis
    have "array_push ok chainrec_bytes PERF_REC_NUM z v d = array_push ok chainrec_bytes PERF_REC_NUM z v d2"
      using d2(1,3) by (simp add: array_push_def) (simp add: array_alloc_def)
    then show ?thesis
      using that darr_push_stored(1) [OF d2(2,3) arr, of ok chainrec_bytes PERF_REC_NUM z v]
        darr_push_stored(2) [OF d2(2,3) arr, of v] d2(5) cur assms(1)
      by (simp add: chain_fit_def)
  next
    case False
    then obtain arr where arr: "da_arr d = Some arr" using ok by (auto simp: darr_ok_def split: option.splits)
    have lt: "da_cur d < da_max d" using ok arr False by (simp add: darr_ok_def)
    show ?thesis
      using that darr_push_stored(1) [OF ok lt arr, of ok chainrec_bytes PERF_REC_NUM z v]
        darr_push_stored(2) [OF ok lt arr, of v] assms(1)
      by (simp add: chain_fit_def)
  qed
qed

lemma chain_add_fit:
  assumes "\<forall>i. chain_fit (Suc n) (cc i)" "\<forall>m. ok m"
  obtains cc1 where "chain_add ok j v ips k cc = Some (cc1, 0)" "\<forall>i. chain_fit n (cc1 i)"
proof -
  let ?v = "\<lparr>ch_count_value = v, ch_callchain = \<lparr>cc_ip_num = k, cc_ips = ips\<rparr>\<rparr>"
  have "chain_fit (Suc n) (cc j)" using assms(1) by simp
  then obtain d1 where "array_push ok chainrec_bytes PERF_REC_NUM chainrec_zero ?v (cc j) = Some (d1, 0)" "chain_fit n d1"
    using assms(2) by (rule chain_push_fit)
  moreover have "chain_fit n (cc i)" for i using assms(1) by (auto simp: chain_fit_def dest: spec [of _ i])
  ultimately show ?thesis using that by (simp add: chain_add_def)
qed

section \<open>One increase\<close>

text \<open>The state after v has been counted for j on the processor cpu at the process a, the thread l and the node n.\<close>

definition counted :: "int \<Rightarrow> nat \<Rightarrow> addr \<Rightarrow> addr \<Rightarrow> (perf_count_id \<Rightarrow> u64) \<Rightarrow> perf_thr \<Rightarrow> perf_thr \<Rightarrow> bool" where
  "counted cpu n a l d st st1 \<longleftrightarrow>
     (\<forall>b c j. pcount (th_ps st1) b c j = pcount (th_ps st) b c j + (if b = a \<and> c = cpu then d j else 0)) \<and>
     (\<forall>b c j. lcount (th_ps st1) b c j = lcount (th_ps st) b c j + (if b = l \<and> c = cpu then d j else 0)) \<and>
     (\<forall>m j. ncount (th_ng st1) m j = ncount (th_ng st) m j + (if m = n then d j else 0))"

definition same_else :: "perf_thr \<Rightarrow> perf_thr \<Rightarrow> bool" where
  "same_else st st1 \<longleftrightarrow> kept (th_ps st) (th_ps st1) \<and>
     pg_latest (ps_group (th_ps st1)) = pg_latest (ps_group (th_ps st)) \<and>
     node_cpuid_max (th_ng st1) = node_cpuid_max (th_ng st) \<and>
     length (ng_nodes (th_ng st1)) = length (ng_nodes (th_ng st)) \<and> th_partpause st1 = th_partpause st \<and>
     th_kern st1 = th_kern st"

lemma counted_trans:
  "counted cpu n a l d st st1 \<Longrightarrow> counted cpu n a l e st1 st2 \<Longrightarrow> counted cpu n a l (\<lambda>j. d j + e j) st st2"
  by (auto simp: counted_def)

lemma counted_0: "th_ps st1 = th_ps st \<Longrightarrow> th_ng st1 = th_ng st \<Longrightarrow> counted cpu n a l (\<lambda>_. 0) st st1"
  by (simp add: counted_def)

lemma same_else_refl [simp]: "same_else st st"
  by (simp add: same_else_def)

lemma same_else_trans: "same_else st st1 \<Longrightarrow> same_else st1 st2 \<Longrightarrow> same_else st st2"
  using kept_trans by (auto simp: same_else_def)

lemma kept_upd:
  assumes "ps_procs s a = Some p" "ps_lwps s l = Some w" "pview p1 = pview p" "lview w1 = lview w"
  shows "kept s (s\<lparr>ps_procs := (ps_procs s)(a \<mapsto> p1), ps_lwps := (ps_lwps s)(l \<mapsto> w1)\<rparr>)"
  using assms by (simp add: kept_def)

lemma smpl_count_step:
  assumes "te_realloc_ok env" "0 \<le> cpu" "cpu < node_cpuid_max (th_ng st)" "n < length (ng_nodes (th_ng st))"
    and "smpl_fit m (th_ps st)" "ps_procs (th_ps st) a = Some p" "ps_lwps (th_ps st) l = Some w"
  obtains st1 where "smpl_count env cpu n a l j v st = Some st1" "same_else st st1" "smpl_fit m (th_ps st1)"
    "counted cpu n a l (\<lambda>i. if i = j then v else 0) st st1"
proof -
  let ?M = "node_cpuid_max (th_ng st)"
  have fp: "int (length (p_countval_arr p)) = p_cpuid_max p" and fl: "int (length (l_countval_arr w)) = l_cpuid_max w"
    using assms(5-7) by (auto simp: smpl_fit_def)
  have "cpu < p_cpuid_max p \<or> cpu < ?M \<and> te_realloc_ok env" "cpu < l_cpuid_max w \<or> cpu < ?M \<and> te_realloc_ok env"
    using assms(1,3) by auto
  then obtain pa pm pa1 la lm la1 where
    P: "countval_grow (te_realloc_ok env) ?M cpu (p_cpuid_max p) (p_countval_arr p) = Some (pa, pm)"
      "countval_add pa cpu j v = Some pa1" "int (length pa1) = pm"
      "\<And>c i. countval_at pa1 c i = countval_at (p_countval_arr p) c i + (if c = cpu \<and> i = j then v else 0)" and
    L: "countval_grow (te_realloc_ok env) ?M cpu (l_cpuid_max w) (l_countval_arr w) = Some (la, lm)"
      "countval_add la cpu j v = Some la1" "int (length la1) = lm"
      "\<And>c i. countval_at la1 c i = countval_at (l_countval_arr w) c i + (if c = cpu \<and> i = j then v else 0)"
    using countval_bump [OF fp assms(2)] countval_bump [OF fl assms(2)] by metis
  define p1 where "p1 = p\<lparr>p_countval_arr := pa1, p_cpuid_max := pm\<rparr>"
  define w1 where "w1 = w\<lparr>l_countval_arr := la1, l_cpuid_max := lm\<rparr>"
  define s1 where "s1 = (th_ps st)\<lparr>ps_procs := (ps_procs (th_ps st))(a \<mapsto> p1), ps_lwps := (ps_lwps (th_ps st))(l \<mapsto> w1)\<rparr>"
  define st1 where "st1 = st\<lparr>th_ps := s1, th_ng := node_count n j v (th_ng st)\<rparr>"
  have run: "smpl_count env cpu n a l j v st = Some st1"
    using P(1,2) L(1,2) assms(6,7)
    by (simp add: smpl_count_def Let_def proc_countval_update_def lwp_countval_update_def st1_def s1_def p1_def w1_def)
  have "kept (th_ps st) s1"
    unfolding s1_def by (rule kept_upd [OF assms(6,7)]) (simp_all add: p1_def w1_def pview_def lview_def)
  then have same: "same_else st st1"
    by (simp add: same_else_def st1_def s1_def node_count_def node_cpuid_max_def)
  have fit: "smpl_fit m (th_ps st1)"
    using assms(5-7) P(3) L(3) by (auto simp: smpl_fit_def st1_def s1_def p1_def w1_def)
  have "counted cpu n a l (\<lambda>i. if i = j then v else 0) st st1"
    using assms(4,6,7) P(4) L(4)
    by (auto simp: counted_def pcount_def lcount_def ncount_def st1_def s1_def p1_def w1_def node_count_def
        node_countval_update_def nth_list_update)
  then show ?thesis using that run same fit by blast
qed

lemma smpl_chain_step:
  assumes "\<forall>m. te_chain_ok env m" "smpl_fit (Suc m) s" "ps_procs s a = Some p" "ps_lwps s l = Some w"
  obtains s1 where "smpl_chain env a l j v rec s = Some s1" "kept s s1" "smpl_fit m s1"
    "pg_latest (ps_group s1) = pg_latest (ps_group s)" "pcount s1 = pcount s" "lcount s1 = lcount s"
proof -
  have "\<forall>i. chain_fit (Suc m) (p_count_chain p i)" "\<forall>i. chain_fit (Suc m) (l_count_chain w i)"
    using assms(2-4) by (auto simp: smpl_fit_def)
  then obtain pc lc where
    P: "chain_add (te_chain_ok env) j v (pr_ips rec) (pr_ip_num rec) (p_count_chain p) = Some (pc, 0)" "\<forall>i. chain_fit m (pc i)" and
    L: "chain_add (te_chain_ok env) j v (pr_ips rec) (pr_ip_num rec) (l_count_chain w) = Some (lc, 0)" "\<forall>i. chain_fit m (lc i)"
    using chain_add_fit [OF _ assms(1)] by metis
  define p1 where "p1 = p\<lparr>p_count_chain := pc\<rparr>"
  define w1 where "w1 = w\<lparr>l_count_chain := lc\<rparr>"
  define s1 where "s1 = s\<lparr>ps_procs := (ps_procs s)(a \<mapsto> p1), ps_lwps := (ps_lwps s)(l \<mapsto> w1)\<rparr>"
  have run: "smpl_chain env a l j v rec s = Some s1"
    using P(1) L(1) assms(3,4) by (simp add: smpl_chain_def s1_def p1_def w1_def)
  have k: "kept s s1"
    unfolding s1_def by (rule kept_upd [OF assms(3,4)]) (simp_all add: p1_def w1_def pview_def lview_def)
  have "smpl_fit m s" using smpl_fit_less [OF assms(2)] by simp
  then have f: "smpl_fit m s1"
    using P(2) L(2) assms(3,4) by (auto simp: smpl_fit_def s1_def p1_def w1_def)
  have "pcount s1 = pcount s" "lcount s1 = lcount s"
    using assms(3,4) by (auto simp: fun_eq_iff pcount_def lcount_def s1_def p1_def w1_def)
  then show ?thesis using that run k f by (simp add: s1_def)
qed


lemma smpl_counters_step:
  assumes "te_realloc_ok env" "\<forall>m. te_chain_ok env m" "0 \<le> cpu"
    and "cpu < node_cpuid_max (th_ng st)" "n < length (ng_nodes (th_ng st))" "distinct js"
    and "smpl_fit (m + length js) (th_ps st)" "ps_procs (th_ps st) a \<noteq> None" "ps_lwps (th_ps st) l \<noteq> None"
  shows "\<exists>st1. smpl_counters env cpu n a l rec diff js st = Some st1 \<and> same_else st st1 \<and> smpl_fit m (th_ps st1) \<and>
    counted cpu n a l (\<lambda>j. if j \<in> set js \<and> \<not> th_partpause st then diff j else 0) st st1"
  using assms(4-9)
proof (induction js arbitrary: st)
  case Nil
  then show ?case by (simp add: counted_0)
next
  case (Cons j js)
  obtain p w where pw: "ps_procs (th_ps st) a = Some p" "ps_lwps (th_ps st) l = Some w" using Cons.prems by blast
  have fit: "smpl_fit (Suc (m + length js)) (th_ps st)" using Cons.prems by simp
  obtain st1 where st1: "(if \<not> th_partpause st then smpl_count env cpu n a l j (diff j) st else Some st) = Some st1"
    "same_else st st1" "smpl_fit (Suc (m + length js)) (th_ps st1)"
    "counted cpu n a l (\<lambda>i. if i = j \<and> \<not> th_partpause st then diff j else 0) st st1"
  proof (cases "th_partpause st")
    case True
    then show ?thesis using that [of st] fit by (simp add: counted_0)
  next
    case False
    show ?thesis
      by (rule smpl_count_step [OF assms(1,3) Cons.prems(1,2) fit pw, of j "diff j"], rule that) (use False in simp_all)
  qed
  have k1: "kept (th_ps st) (th_ps st1)" using st1(2) by (simp add: same_else_def)
  obtain p1 w1 where pw1: "ps_procs (th_ps st1) a = Some p1" "ps_lwps (th_ps st1) l = Some w1"
    using kept_proc [OF k1 pw(1)] kept_lwp [OF k1 pw(2)] by metis
  obtain st2 where st2: "(if pr_ip_num rec > 0 \<and> diff j \<ge> te_period env j
       then do { ps \<leftarrow> smpl_chain env a l j (diff j) rec (th_ps st1); Some (set_ps st1 ps) }
       else Some st1) = Some st2" "same_else st1 st2" "smpl_fit (m + length js) (th_ps st2)"
    "counted cpu n a l (\<lambda>_. 0) st1 st2"
  proof (cases "pr_ip_num rec > 0 \<and> diff j \<ge> te_period env j")
    case True
    obtain s1 where s1: "smpl_chain env a l j (diff j) rec (th_ps st1) = Some s1" "kept (th_ps st1) s1"
      "smpl_fit (m + length js) s1" "pg_latest (ps_group s1) = pg_latest (ps_group (th_ps st1))"
      "pcount s1 = pcount (th_ps st1)" "lcount s1 = lcount (th_ps st1)"
      using smpl_chain_step [OF assms(2) st1(3) pw1] by blast
    show ?thesis
      by (rule that [of "set_ps st1 s1"]) (use True s1 in \<open>simp_all add: same_else_def counted_def\<close>)
  next
    case False
    show ?thesis
      by (rule that [of st1]) (use False smpl_fit_less [OF st1(3)] in \<open>auto simp: counted_0\<close>)
  qed
  have se: "same_else st st2" by (rule same_else_trans [OF st1(2) st2(2)])
  then have k2: "kept (th_ps st) (th_ps st2)" by (simp add: same_else_def)
  have ex: "ps_procs (th_ps st2) a \<noteq> None" "ps_lwps (th_ps st2) l \<noteq> None"
    by (rule kept_proc [OF k2 pw(1)], simp) (rule kept_lwp [OF k2 pw(2)], simp)
  have "\<exists>st3. smpl_counters env cpu n a l rec diff js st2 = Some st3 \<and> same_else st2 st3 \<and> smpl_fit m (th_ps st3) \<and>
    counted cpu n a l (\<lambda>j. if j \<in> set js \<and> \<not> th_partpause st2 then diff j else 0) st2 st3"
    by (rule Cons.IH) (use Cons.prems se st2(3) ex in \<open>simp_all add: same_else_def\<close>)
  then obtain st3 where st3: "smpl_counters env cpu n a l rec diff js st2 = Some st3" "same_else st2 st3"
    "smpl_fit m (th_ps st3)"
    "counted cpu n a l (\<lambda>j. if j \<in> set js \<and> \<not> th_partpause st2 then diff j else 0) st2 st3" by blast
  have pp: "th_partpause st2 = th_partpause st" using se by (simp add: same_else_def)
  note ct = counted_trans [OF counted_trans [OF st1(4) st2(4)] st3(4)]
  have de: "(\<lambda>i. (if i = j \<and> \<not> th_partpause st then diff j else 0) + 0 +
        (if i \<in> set js \<and> \<not> th_partpause st2 then diff i else 0))
      = (\<lambda>i. if i \<in> set (j # js) \<and> \<not> th_partpause st then diff i else 0)"
    using Cons.prems(3) pp by (auto simp: fun_eq_iff)
  have "counted cpu n a l (\<lambda>i. if i \<in> set (j # js) \<and> \<not> th_partpause st then diff i else 0) st st3"
    using ct unfolding de .
  moreover have "smpl_counters env cpu n a l rec diff (j # js) st = Some st3"
    by (simp only: smpl_counters.simps st1(1) st2(1) st3(1) Option.bind.bind_lunit)
  ultimately show ?case using same_else_trans [OF se st3(2)] st3(3) by blast
qed

section \<open>References\<close>

definition quiet :: "pstate \<Rightarrow> pstate \<Rightarrow> bool" where
  "quiet s s1 \<longleftrightarrow> kept s s1 \<and> pcount s1 = pcount s \<and> lcount s1 = lcount s \<and> (\<forall>m. smpl_fit m s \<longrightarrow> smpl_fit m s1)"

lemma quiet_refl [simp]: "quiet s s" by (simp add: quiet_def)

lemma quiet_trans: "quiet s s1 \<Longrightarrow> quiet s1 s2 \<Longrightarrow> quiet s s2"
  using kept_trans by (auto simp: quiet_def)

lemma quiet_proc_ref:
  assumes "ps_procs s a = Some p" "pg_hashtbl g = pg_hashtbl (ps_group s)"
  shows "quiet s (s\<lparr>ps_procs := (ps_procs s)(a \<mapsto> p\<lparr>p_ref_count := k\<rparr>), ps_group := g\<rparr>)"
  using assms by (auto simp: quiet_def kept_def pview_def pcount_def lcount_def smpl_fit_def fun_eq_iff)

lemma quiet_lwp_ref:
  assumes "ps_lwps s l = Some w"
  shows "quiet s (s\<lparr>ps_lwps := (ps_lwps s)(l \<mapsto> w\<lparr>l_ref_count := k\<rparr>)\<rparr>)"
  using assms by (auto simp: quiet_def kept_def lview_def pcount_def lcount_def smpl_fit_def fun_eq_iff)

lemma proc_release_quiet:
  assumes "ps_procs s a = Some p" "\<not> p_removing p"
  obtains s1 where "proc_refcount_dec a s = Some s1" "quiet s s1" "ps_group s1 = ps_group s"
proof -
  have "proc_refcount_dec a s = Some (s\<lparr>ps_procs := (ps_procs s)(a \<mapsto> p\<lparr>p_ref_count := p_ref_count p - 1\<rparr>), ps_group := ps_group s\<rparr>)"
    using assms by (simp add: proc_refcount_dec_def)
  then show ?thesis using that quiet_proc_ref [OF assms(1) refl] by simp
qed

lemma tracked_listed:
  assumes "tbl_ok s chs" "tracked s chs pid tid = Some (a, l)"
  obtains p w where "a \<in> set (concat chs)" "ps_procs s a = Some p" "\<not> p_removing p"
    "lwplist_ok a (p_lwp_list p) (ps_lwps s) (lwps_of p)" "ps_lwps s l = Some w" "\<not> l_removing w"
    "lwp_at (ps_lwps s) (lwps_of p) (sint tid) = Some l" "\<not> l_quitting w"
proof -
  have at: "proc_at (ps_procs s) chs (sint pid) = Some a"
    "lwp_at (ps_lwps s) (lwps_of (the (ps_procs s a))) (sint tid) = Some l" "\<not> l_quitting (the (ps_lwps s l))"
    using assms(2) by (auto simp: tracked_def split: option.splits if_splits)
  have a: "a \<in> set (concat chs)" using proc_at_Some [OF at(1)] by simp
  then obtain p where p: "ps_procs s a = Some p" "\<not> p_removing p" "lwplist_ok a (p_lwp_list p) (ps_lwps s) (lwps_of p)"
    using tbl_ok_listed [OF assms(1)] by blast
  have "l \<in> set (lwps_of p)" using lwp_at_Some [OF at(2)] p(1) by simp
  then obtain w where "ps_lwps s l = Some w" "\<not> l_removing w"
    using p(3) unfolding lwplist_ok_def lwps_live_def by blast
  then show ?thesis using that a p at by simp
qed

lemma smpl_find_result:
  assumes "tbl_ok s chs" "0 \<le> sint pid"
  obtains s1 where "smpl_find pid tid s = Some (s1, tracked s chs pid tid)" "quiet s s1" "tbl_ok s1 chs"
proof (cases "proc_at (ps_procs s) chs (sint pid)")
  case None
  then have "proc_find (sint pid) s = Some (s, None)" using proc_find_result [OF assms] by simp
  then show ?thesis using that [of s] None assms(1) by (simp add: smpl_find_def tracked_def)
next
  case (Some a)
  have a: "a \<in> set (concat chs)" using proc_at_Some [OF Some] by simp
  obtain p s1 where p: "ps_procs s a = Some p" "proc_find (sint pid) s = Some (s1, Some a)" "tbl_ok s1 chs"
    and s1: "s1 = s\<lparr>ps_procs := (ps_procs s)(a \<mapsto> p\<lparr>p_ref_count := p_ref_count p + 1\<rparr>),
        ps_group := (ps_group s)\<lparr>pg_latest := Some a\<rparr>\<rparr>"
    using proc_find_result [OF assms] Some by auto
  have q1: "quiet s s1" unfolding s1 by (rule quiet_proc_ref [OF p(1)]) simp
  obtain q where q: "ps_procs s1 a = Some q" "\<not> p_removing q" "lwplist_ok a (p_lwp_list q) (ps_lwps s1) (lwps_of q)"
    using tbl_ok_listed [OF p(3) a] by blast
  have same: "lwps_of q = lwps_of p" "ps_lwps s1 = ps_lwps s" using q(1) by (auto simp: s1 lwps_of_def)
  note lf = proc_lwp_find_result [OF q(3), of "sint tid", unfolded same]
  show ?thesis
  proof (cases "tracked s chs pid tid")
    case None
    then have "proc_lwp_find (p_lwp_list q) (sint tid) (ps_lwps s1) = Some (ps_lwps s1, None)"
      using Some p(1) same by (auto simp: same lf tracked_def Let_def split: option.splits if_splits)
    moreover obtain s2 where s2: "proc_refcount_dec a s1 = Some s2" "quiet s1 s2" "ps_group s2 = ps_group s1"
      using proc_release_quiet [OF q(1,2)] by blast
    moreover have "tbl_ok s2 chs"
      using tbl_ok_kept [OF p(3), of s2] s2 a by (simp add: quiet_def s1)
    ultimately show ?thesis
      using that [of s2] None p(2) q(1) quiet_trans [OF q1] by (simp add: smpl_find_def)
  next
    case t: (Some al)
    then obtain l where al: "al = (a, l)" using Some by (auto simp: tracked_def split: option.splits if_splits)
    obtain p' w where w: "ps_procs s a = Some p'" "ps_lwps s l = Some w" "lwp_at (ps_lwps s) (lwps_of p') (sint tid) = Some l"
      "\<not> l_quitting w" using tracked_listed [OF assms(1) t [unfolded al]] by metis
    let ?h = "(ps_lwps s1)(l \<mapsto> w\<lparr>l_ref_count := l_ref_count w + 1\<rparr>)"
    have f: "proc_lwp_find (p_lwp_list q) (sint tid) (ps_lwps s1) = Some (?h, Some l)"
      using w p(1) by (simp add: same lf Let_def)
    have q2: "quiet s1 (s1\<lparr>ps_lwps := ?h\<rparr>)" by (rule quiet_lwp_ref) (simp add: same(2) w(2))
    have "tbl_ok (s1\<lparr>ps_lwps := ?h\<rparr>) chs"
      by (rule tbl_ok_kept [OF p(3)]) (use q2 a in \<open>simp_all add: quiet_def s1\<close>)
    then show ?thesis
      using that [of "s1\<lparr>ps_lwps := ?h\<rparr>"] p(2) q(1) f quiet_trans [OF q1 q2] t al by (simp add: smpl_find_def)
  qed
qed

lemma smpl_release_quiet:
  assumes "tbl_ok s chs" "tracked s chs pid tid = Some (a, l)"
  obtains s1 where "smpl_release a l s = Some s1" "quiet s s1" "tbl_ok s1 chs"
proof -
  obtain p w where p: "ps_procs s a = Some p" "\<not> p_removing p" "ps_lwps s l = Some w" "\<not> l_removing w"
    using tracked_listed [OF assms] by metis
  let ?h = "(ps_lwps s)(l \<mapsto> w\<lparr>l_ref_count := l_ref_count w - 1\<rparr>)"
  have d: "lwp_refcount_dec l (ps_lwps s) = Some ?h" using p by (simp add: lwp_refcount_dec_def)
  have q1: "quiet s (s\<lparr>ps_lwps := ?h\<rparr>)" by (rule quiet_lwp_ref [OF p(3)])
  have "ps_procs (s\<lparr>ps_lwps := ?h\<rparr>) a = Some p" using p by simp
  then obtain s1 where s1: "proc_refcount_dec a (s\<lparr>ps_lwps := ?h\<rparr>) = Some s1" "quiet (s\<lparr>ps_lwps := ?h\<rparr>) s1"
    "ps_group s1 = ps_group s" by (rule proc_release_quiet [OF _ p(2)]) simp
  have q: "quiet s s1" by (rule quiet_trans [OF q1 s1(2)])
  moreover have "tbl_ok s1 chs"
    using tbl_ok_kept [OF assms(1), of s1] q s1(3) assms(1) by (simp add: quiet_def tbl_ok_def)
  moreover have "smpl_release a l s = Some s1" using d s1(1) by (simp add: smpl_release_def)
  ultimately show ?thesis using that by blast
qed


section \<open>All the records\<close>

text \<open>
  What sampling relies on, with room for m more call chains in every array: the
  allocations succeed, the processor and its node exist, the process table is
  well formed and the counting is not paused.
\<close>

definition smpl_ready :: "thr_env \<Rightarrow> addr list list \<Rightarrow> nat \<Rightarrow> nat \<Rightarrow> int \<Rightarrow> perf_thr \<Rightarrow> bool" where
  "smpl_ready env chs m n cpu st \<longleftrightarrow>
     te_realloc_ok env \<and> (\<forall>k. te_chain_ok env k) \<and> 0 \<le> cpu \<and> cpu < node_cpuid_max (th_ng st) \<and>
     n < length (ng_nodes (th_ng st)) \<and> tbl_ok (th_ps st) chs \<and> smpl_fit m (th_ps st) \<and> \<not> th_partpause st"

lemma smpl_ready_less: "smpl_ready env chs m n cpu st \<Longrightarrow> k \<le> m \<Longrightarrow> smpl_ready env chs k n cpu st"
  using smpl_fit_less by (auto simp: smpl_ready_def)

abbreviation reading_diff :: "count_value \<Rightarrow> count_value \<Rightarrow> count_value" where
  "reading_diff old v \<equiv> (\<lambda>j. if j \<in> set counter_ids \<and> old j \<le> v j then v j - old j else 0)"

lemma counter_ids_facts: "distinct counter_ids" "length counter_ids = 5"
  by (simp_all add: counter_ids_def)

lemma smpl_one_tracked:
  assumes ready: "smpl_ready env chs (m + 5) n (cpu_cpuid c) st" and pid: "0 \<le> sint (pr_pid rec)"
    and t: "tracked (th_ps st) chs (pr_pid rec) (pr_tid rec) = Some (a, l)"
  obtains st1 where "smpl_one env n rec c st = Some (c\<lparr>cpu_countval_last := pr_countval rec\<rparr>, st1, 0)"
    "smpl_ready env chs m n (cpu_cpuid c) st1" "kept (th_ps st) (th_ps st1)"
    "counted (cpu_cpuid c) n a l (reading_diff (cpu_countval_last c) (pr_countval rec)) st st1"
proof -
  let ?d = "\<lambda>j. if cpu_countval_last c j \<le> pr_countval rec j then pr_countval rec j - cpu_countval_last c j else 0"
  have ok: "tbl_ok (th_ps st) chs" using ready by (simp add: smpl_ready_def)
  obtain s1 where s1: "smpl_find (pr_pid rec) (pr_tid rec) (th_ps st) = Some (s1, Some (a, l))"
    "quiet (th_ps st) s1" "tbl_ok s1 chs" using smpl_find_result [OF ok pid, of "pr_tid rec"] t by metis
  have t1: "tracked s1 chs (pr_pid rec) (pr_tid rec) = Some (a, l)"
    using tracked_kept [OF ok, of s1] s1(2) t by (simp add: quiet_def)
  have ex: "ps_procs s1 a \<noteq> None" "ps_lwps s1 l \<noteq> None"
    by (rule tracked_listed [OF s1(3) t1], simp)+
  have fit: "smpl_fit (m + length counter_ids) s1"
    using ready s1(2) unfolding smpl_ready_def quiet_def counter_ids_facts by blast
  obtain st2 where st2: "smpl_counters env (cpu_cpuid c) n a l rec ?d counter_ids (set_ps st s1) = Some st2"
    "same_else (set_ps st s1) st2" "smpl_fit m (th_ps st2)"
    "counted (cpu_cpuid c) n a l (\<lambda>j. if j \<in> set counter_ids \<and> \<not> th_partpause (set_ps st s1) then ?d j else 0)
       (set_ps st s1) st2"
    using smpl_counters_step [of env "cpu_cpuid c" "set_ps st s1" n counter_ids m a l rec ?d] ready fit ex
    by (auto simp: smpl_ready_def counter_ids_facts)
  have k2: "kept s1 (th_ps st2)" "pg_latest (ps_group (th_ps st2)) = pg_latest (ps_group s1)"
    using st2(2) by (simp_all add: same_else_def)
  have ok2: "tbl_ok (th_ps st2) chs"
    by (rule tbl_ok_kept [OF s1(3) k2(1)]) (use s1(3) k2(2) in \<open>simp add: tbl_ok_def\<close>)
  have "tracked (th_ps st2) chs (pr_pid rec) (pr_tid rec) = Some (a, l)" using tracked_kept [OF s1(3) k2(1)] t1 by simp
  then obtain s3 where s3: "smpl_release a l (th_ps st2) = Some s3" "quiet (th_ps st2) s3" "tbl_ok s3 chs"
    by (rule smpl_release_quiet [OF ok2])
  have "smpl_one env n rec c st = Some (c\<lparr>cpu_countval_last := pr_countval rec\<rparr>, set_ps st2 s3, 0)"
    using s1(1) st2(1) s3(1) by (simp add: smpl_one_def countval_diff_def)
  moreover have "smpl_ready env chs m n (cpu_cpuid c) (set_ps st2 s3)"
    using ready st2(2,3) s3(2,3) by (simp add: smpl_ready_def same_else_def quiet_def)
  moreover have "kept (th_ps st) s3"
    using s1(2) k2(1) s3(2) unfolding quiet_def using kept_trans by blast
  moreover have "counted (cpu_cpuid c) n a l (reading_diff (cpu_countval_last c) (pr_countval rec)) st (set_ps st2 s3)"
    using st2(4) s1(2) s3(2) ready by (simp add: counted_def quiet_def smpl_ready_def)
  ultimately show ?thesis using that by simp
qed

lemma smpl_one_untracked:
  assumes ready: "smpl_ready env chs m n (cpu_cpuid c) st" and pid: "0 \<le> sint (pr_pid rec)"
    and t: "tracked (th_ps st) chs (pr_pid rec) (pr_tid rec) = None"
  obtains s1 where "smpl_one env n rec c st = Some (c\<lparr>cpu_countval_last := pr_countval rec\<rparr>, set_ps st s1, -1)"
    "tbl_ok s1 chs" "quiet (th_ps st) s1"
proof -
  have ok: "tbl_ok (th_ps st) chs" using ready by (simp add: smpl_ready_def)
  obtain s1 where s1: "smpl_find (pr_pid rec) (pr_tid rec) (th_ps st) = Some (s1, None)"
    "quiet (th_ps st) s1" "tbl_ok s1 chs" using smpl_find_result [OF ok pid, of "pr_tid rec"] t by metis
  then show ?thesis using that by (simp add: smpl_one_def countval_diff_def)
qed

text \<open>
  The reference: every record is credited to the process and the thread it
  names with the increase over the reading before; the first record of someone
  who is not tracked ends it.
\<close>

fun attributed :: "(u32 \<Rightarrow> u32 \<Rightarrow> (addr \<times> addr) option) \<Rightarrow> count_value \<Rightarrow> pf_profiling_rec list
    \<Rightarrow> (addr \<times> addr \<times> count_value) list" where
  "attributed look old [] = []"
| "attributed look old (rec # recs) =
     (if pr_pid rec = - 1 \<or> pr_tid rec = - 1 then attributed look old recs
      else case look (pr_pid rec) (pr_tid rec) of
        None \<Rightarrow> []
      | Some (a, l) \<Rightarrow> (a, l, reading_diff old (pr_countval rec)) # attributed look (pr_countval rec) recs)"

definition credit :: "(addr \<Rightarrow> addr \<Rightarrow> bool) \<Rightarrow> (addr \<times> addr \<times> count_value) list \<Rightarrow> perf_count_id \<Rightarrow> u64" where
  "credit P xs j = sum_list (map (\<lambda>(a, l, d). if P a l then d j else 0) xs)"

lemma credit_simps [simp]:
  "credit P [] j = 0" "credit P ((a, l, d) # xs) j = (if P a l then d j else 0) + credit P xs j"
  by (simp_all add: credit_def)

text \<open>
  C5: Sampling attributes every increase exactly once.  Given a well-formed
  process table and memory for the arrays, the loop of cpu_profiling_smpl runs
  to its end; the counters of every process, of every thread and of the node
  grow by exactly the increases the reference credits them with, in the slot of
  the sampled processor, and nothing else is counted.  In particular the records
  after the first one whose process or thread is not tracked (or is quitting)
  are not counted for anybody, although they may belong to tracked processes.
\<close>

theorem smpl_recs_attributes:
  assumes "smpl_ready env chs (5 * length recs) n (cpu_cpuid c) st"
    and "\<forall>rec \<in> set recs. pr_pid rec = - 1 \<or> 0 \<le> sint (pr_pid rec)"
  shows "\<exists>c1 st1. smpl_recs env n recs c st = Some (c1, st1, 0) \<and> tbl_ok (th_ps st1) chs \<and>
     (let xs = attributed (tracked (th_ps st) chs) (cpu_countval_last c) recs in
      (\<forall>b i j. pcount (th_ps st1) b i j =
         pcount (th_ps st) b i j + (if i = cpu_cpuid c then credit (\<lambda>a l. a = b) xs j else 0)) \<and>
      (\<forall>b i j. lcount (th_ps st1) b i j =
         lcount (th_ps st) b i j + (if i = cpu_cpuid c then credit (\<lambda>a l. l = b) xs j else 0)) \<and>
      (\<forall>m j. ncount (th_ng st1) m j = ncount (th_ng st) m j + (if m = n then credit (\<lambda>a l. True) xs j else 0)))"
  using assms
proof (induction recs arbitrary: c st)
  case Nil
  then show ?case by (auto simp: smpl_ready_def)
next
  case (Cons rec recs)
  have rest: "\<forall>rec \<in> set recs. pr_pid rec = - 1 \<or> 0 \<le> sint (pr_pid rec)" using Cons.prems(2) by simp
  have ok: "tbl_ok (th_ps st) chs" using Cons.prems(1) by (simp add: smpl_ready_def)
  show ?case
  proof (cases "pr_pid rec = - 1 \<or> pr_tid rec = - 1")
    case True
    then show ?thesis using Cons.IH [OF smpl_ready_less [OF Cons.prems(1)] rest] by simp
  next
    case False
    then have pid: "0 \<le> sint (pr_pid rec)" using Cons.prems(2) by auto
    show ?thesis
    proof (cases "tracked (th_ps st) chs (pr_pid rec) (pr_tid rec)")
      case None
      obtain s1 where "smpl_one env n rec c st = Some (c\<lparr>cpu_countval_last := pr_countval rec\<rparr>, set_ps st s1, -1)"
        "tbl_ok s1 chs" "quiet (th_ps st) s1" by (rule smpl_one_untracked [OF Cons.prems(1) pid None])
      then show ?thesis using False None by (simp add: quiet_def)
    next
      case (Some al)
      obtain a l where al: "al = (a, l)" by (cases al)
      have r5: "smpl_ready env chs (5 * length recs + 5) n (cpu_cpuid c) st" using Cons.prems(1) by (simp add: algebra_simps)
      obtain st1 where one: "smpl_one env n rec c st = Some (c\<lparr>cpu_countval_last := pr_countval rec\<rparr>, st1, 0)"
        and st1: "smpl_ready env chs (5 * length recs) n (cpu_cpuid c) st1" "kept (th_ps st) (th_ps st1)"
          "counted (cpu_cpuid c) n a l (reading_diff (cpu_countval_last c) (pr_countval rec)) st st1"
        by (rule smpl_one_tracked [OF r5 pid Some [unfolded al]])
      have "smpl_ready env chs (5 * length recs) n (cpu_cpuid (c\<lparr>cpu_countval_last := pr_countval rec\<rparr>)) st1"
        using st1(1) by simp
      note IH = Cons.IH [OF this rest, unfolded tracked_kept [OF ok st1(2)]]
      then show ?thesis
        using False one st1(3) Some al by (auto simp: counted_def Let_def add.assoc)
    qed
  qed
qed


section \<open>A concrete thread state\<close>

text \<open>The table of before, with the thread 7 of the process 7 at the address 4, and one node with one processor.\<close>

definition tracked_demo :: pstate where
  "tracked_demo = table_demo\<lparr>
     ps_procs := (ps_procs table_demo)(1 \<mapsto> (proc_demo 7)\<lparr>p_hash_prev := Some 2,
       p_lwp_list := lwplist_zero\<lparr>ll_nlwps := 1, ll_id_arr := Some [Some 4]\<rparr>,
       p_cpuid_max := 1, p_countval_arr := [\<lambda>_. 0]\<rparr>),
     ps_lwps := [4 \<mapsto> lwp_zero\<lparr>l_id := 7, l_proc := Some 1, l_cpuid_max := 1, l_countval_arr := [\<lambda>_. 0]\<rparr>]\<rparr>"

lemma tracked_demo_procs:
  "ps_procs tracked_demo 1 = Some ((proc_demo 7)\<lparr>p_hash_prev := Some 2,
     p_lwp_list := lwplist_zero\<lparr>ll_nlwps := 1, ll_id_arr := Some [Some 4]\<rparr>, p_cpuid_max := 1, p_countval_arr := [\<lambda>_. 0]\<rparr>)"
  "ps_procs tracked_demo 2 = Some ((proc_demo 135)\<lparr>p_hash_next := Some 1\<rparr>)"
  "ps_lwps tracked_demo 4 = Some (lwp_zero\<lparr>l_id := 7, l_proc := Some 1, l_cpuid_max := 1, l_countval_arr := [\<lambda>_. 0]\<rparr>)"
  by (simp_all add: tracked_demo_def table_demo_def)

lemmas tracked_demo_simps = tracked_demo_procs tracked_demo_procs [unfolded One_nat_def]

lemma tracked_demo_ok: "tbl_ok tracked_demo chains_demo"
proof -
  have "chains_ok tracked_demo chains_demo"
    by (simp add: chains_ok_def chains_demo_def tracked_demo_def table_demo_def proc_demo_def proc_zero_def PROC_HASHTBL_SIZE_def)
  moreover have "proc_ok (ps_procs tracked_demo) (ps_lwps tracked_demo) i a"
    if "i < PROC_HASHTBL_SIZE" "a \<in> set (chains_demo ! i)" for i a
  proof -
    have "i = 7 \<and> (a = 1 \<or> a = 2)"
      using that by (auto simp: chains_demo_def PROC_HASHTBL_SIZE_def nth_append nth_Cons' split: if_splits)
    then show ?thesis
      by (auto simp: proc_ok_def tracked_demo_simps proc_demo_def proc_zero_def pid_index lwplist_ok_def lwps_of_def
          lwps_live_def lwp_ids_def lwp_zero_def lwplist_zero_def)
  qed
  moreover have "distinct (map (pid_at (ps_procs tracked_demo)) (concat chains_demo))"
    by (simp add: tracked_demo_simps proc_demo_def)
  moreover have "set_option (pg_latest (ps_group tracked_demo)) \<subseteq> set (concat chains_demo)"
    "finite (dom (ps_procs tracked_demo))" "finite (dom (ps_lwps tracked_demo))"
    by (simp_all add: tracked_demo_def table_demo_def)
  ultimately show ?thesis unfolding tbl_ok_def by blast
qed

definition thr_env_demo :: thr_env where
  "thr_env_demo = \<lparr>te_pf = pf_demo (\<lambda>_. True) (\<lambda>_. 0), te_proc = proc_env_demo, te_scale = (\<lambda>v _ _. v),
     te_stack = \<lparr>pr_pid = 0, pr_tid = 0, pr_period = 0, pr_countval = (\<lambda>_. 0), pr_ip_num = 0, pr_ips = []\<rparr>,
     te_ll_stack = \<lparr>lr_pid = 0, lr_tid = 0, lr_addr = 0, lr_cpu = 0, lr_latency = 0, lr_ip_num = 0, lr_ips = []\<rparr>,
     te_period = (\<lambda>_. 1000), te_chain_ok = (\<lambda>_. True), te_realloc_ok = True, te_clock = (\<lambda>n. n),
     te_read = (\<lambda>_. []), te_rmdir = (\<lambda>_. True), te_mkdir = (\<lambda>_. True), te_tasks = (\<lambda>_. True),
     te_mon = (\<lambda>_ _ _. None)\<rparr>"

definition thr_demo :: perf_thr where
  "thr_demo = \<lparr>th_ctl = \<lparr>pc_status = PERF_STATUS_IDLE, pc_task = task_zero, pc_inited = True, pc_last_ms = 0, pc_last_ms_pqos = 0\<rparr>,
     th_ng = group_demo, th_kern = kern_demo, th_ps = tracked_demo, th_partpause = False, th_recbuf = [], th_llbuf = [],
     th_resctrl = \<lparr>rt_groups = (\<lambda>_. None), rt_moni_id = 0\<rparr>, th_ticks = 0, th_intval_ms = 0, th_disp = []\<rparr>"

definition rec_demo :: "u32 \<Rightarrow> u64 \<Rightarrow> pf_profiling_rec" where
  "rec_demo pid v = \<lparr>pr_pid = pid, pr_tid = pid, pr_period = 0, pr_countval = (\<lambda>_. v), pr_ip_num = 0, pr_ips = []\<rparr>"

lemma thr_demo_ready: "smpl_ready thr_env_demo chains_demo 15 0 0 thr_demo"
proof -
  have d: "chain_fit 15 darr_zero" by (simp add: chain_fit_def darr_ok_def darr_zero_def)
  have "smpl_fit 15 tracked_demo"
    using d by (auto simp: smpl_fit_def tracked_demo_def table_demo_def proc_demo_def proc_zero_def lwp_zero_def)
  then show ?thesis
    using tracked_demo_ok
    by (simp add: smpl_ready_def thr_env_demo_def thr_demo_def node_cpuid_max_def group_demo_def node_group_zero_def)
qed

theorem smpl_recs_attributes_witness:
  "\<exists>c1 st1. smpl_recs thr_env_demo 0 [rec_demo 7 100, rec_demo 9 130, rec_demo 7 170]
       (perf_cpu_zero\<lparr>cpu_countval_last := \<lambda>_. 40\<rparr>) thr_demo = Some (c1, st1, 0) \<and>
     pcount (th_ps st1) 1 0 PERF_COUNT_RMA = 60 \<and> ncount (th_ng st1) 0 PERF_COUNT_RMA = 60"
proof -
  let ?recs = "[rec_demo 7 100, rec_demo 9 130, rec_demo 7 170]"
  let ?c = "perf_cpu_zero\<lparr>cpu_countval_last := \<lambda>_. 40\<rparr>"
  have at: "proc_at (ps_procs tracked_demo) chains_demo 7 = Some 1" "proc_at (ps_procs tracked_demo) chains_demo 9 = None"
    "lwp_at (ps_lwps tracked_demo) [4] 7 = Some 4"
    by (simp_all add: proc_at_def lwp_at_def tracked_demo_simps proc_demo_def)
  have t: "tracked tracked_demo chains_demo 7 7 = Some (1, 4)" "tracked tracked_demo chains_demo 9 9 = None"
    by (simp_all add: tracked_def at tracked_demo_simps lwps_of_def lwplist_zero_def lwp_zero_def)
  have att: "attributed (tracked (th_ps thr_demo) chains_demo) (cpu_countval_last ?c) ?recs
      = [(1, 4, reading_diff (\<lambda>_. 40) (\<lambda>_. 100))]"
    by (simp add: thr_demo_def rec_demo_def t cong: if_cong)
  have z: "pcount (th_ps thr_demo) 1 0 PERF_COUNT_RMA = 0" "ncount (th_ng thr_demo) 0 PERF_COUNT_RMA = 0"
    by (simp_all add: pcount_def ncount_def thr_demo_def tracked_demo_simps group_demo_def node_zero_def countval_at_def)
  have r: "smpl_ready thr_env_demo chains_demo (5 * length ?recs) 0 (cpu_cpuid ?c) thr_demo"
    "\<forall>rec \<in> set ?recs. pr_pid rec = - 1 \<or> 0 \<le> sint (pr_pid rec)"
    using thr_demo_ready by (simp_all add: perf_cpu_zero_def rec_demo_def)
  obtain c1 st1 where run: "smpl_recs thr_env_demo 0 ?recs ?c thr_demo = Some (c1, st1, 0)"
    and p: "\<forall>b i j. pcount (th_ps st1) b i j = pcount (th_ps thr_demo) b i j +
       (if i = cpu_cpuid ?c then credit (\<lambda>a l. a = b) [(1, 4, reading_diff (\<lambda>_. 40) (\<lambda>_. 100))] j else 0)"
    and n: "\<forall>m j. ncount (th_ng st1) m j = ncount (th_ng thr_demo) m j +
       (if m = 0 then credit (\<lambda>a l. True) [(1, 4, reading_diff (\<lambda>_. 40) (\<lambda>_. 100))] j else 0)"
    using smpl_recs_attributes [OF r] unfolding att Let_def by blast
  have "pcount (th_ps st1) 1 0 PERF_COUNT_RMA = 60" "ncount (th_ng st1) 0 PERF_COUNT_RMA = 60"
    using p [rule_format, of 1 0 PERF_COUNT_RMA] n [rule_format, of 0 PERF_COUNT_RMA] z
    by (simp_all add: perf_cpu_zero_def counter_ids_def)
  then show ?thesis using run by blast
qed

end
