(* ===== verification/PerfThr.thy ===== *)
theory PerfThr
  imports SmplUse
begin

text \<open>
  The perf thread: perf_handler of common/perf.c with the os_ functions of
  common/os/os_perf.c that carry its tasks out, the clearing of the collected
  samples (common/proc.c) and the monitoring groups of the resctrl file system
  (common/os/os_util.c).

  Results of calls the code ignores are ignored here as well; messages to the
  debug log and the exit message are left out.
\<close>

section \<open>Clearing what was collected\<close>

definition callchain_clear :: "addr \<Rightarrow> pstate \<Rightarrow> pstate option" where
  "callchain_clear a s =
     do {
       p \<leftarrow> ps_procs s a;
       h \<leftarrow> proc_lwp_traverse (upd_lwp (\<lambda>l. l\<lparr>l_count_chain := perf_countchain_reset (l_count_chain l)\<rparr>))
              (p_lwp_list p) (ps_lwps s);
       Some (s\<lparr>ps_procs := (ps_procs s)(a \<mapsto> p\<lparr>p_count_chain := perf_countchain_reset (p_count_chain p)\<rparr>), ps_lwps := h\<rparr>)
     }"

definition proc_callchain_clear :: "pstate \<Rightarrow> pstate option" where
  "proc_callchain_clear s = proc_traverse callchain_clear s"

definition ll_clear :: "addr \<Rightarrow> pstate \<Rightarrow> pstate option" where
  "ll_clear a s =
     do {
       p \<leftarrow> ps_procs s a;
       h \<leftarrow> proc_lwp_traverse (upd_lwp (\<lambda>l. l\<lparr>l_llrec_grp := perf_llrecgrp_reset (l_llrec_grp l)\<rparr>))
              (p_lwp_list p) (ps_lwps s);
       Some (s\<lparr>ps_procs := (ps_procs s)(a \<mapsto> p\<lparr>p_llrec_grp := perf_llrecgrp_reset (p_llrec_grp p)\<rparr>), ps_lwps := h\<rparr>)
     }"

definition proc_ll_clear :: "ptr \<Rightarrow> pstate \<Rightarrow> pstate option" where
  "proc_ll_clear pa s = (case pa of Some a \<Rightarrow> ll_clear a s | None \<Rightarrow> proc_traverse ll_clear s)"

definition proc_pqos_func :: "ptr \<Rightarrow> (addr \<Rightarrow> pstate \<Rightarrow> pstate option) \<Rightarrow> pstate \<Rightarrow> pstate option" where
  "proc_pqos_func pa func s = (case pa of None \<Rightarrow> proc_traverse func s | Some _ \<Rightarrow> Some s)"

section \<open>Monitoring groups\<close>

text \<open>
  A monitoring group is a directory named after the identifier; nftw removes it
  (te_rmdir says whether that works), mkdir makes it unless it is still there,
  and te_tasks says whether its file of tasks can be opened and written.
\<close>

definition os_sysfs_cmt_task_set :: "thr_env \<Rightarrow> int \<Rightarrow> int \<Rightarrow> perf_pqos \<Rightarrow> resctrl \<Rightarrow> perf_pqos \<times> resctrl \<times> int" where
  "os_sysfs_cmt_task_set env pid lwpid pqos rt =
     (let rt0 = (if lwpid \<noteq> 0 \<or> pid \<noteq> 0 then rt else rt\<lparr>rt_moni_id := rt_moni_id rt + 1\<rparr>);
          tid = (if lwpid \<noteq> 0 then lwpid else if pid \<noteq> 0 then pid else sint (rt_moni_id rt0));
          pqos1 = pqos\<lparr>pq_task_id := tid\<rparr>;
          rt1 = (if te_rmdir env tid then rt0\<lparr>rt_groups := (rt_groups rt0)(tid := None)\<rparr> else rt0)
      in if rt_groups rt1 tid \<noteq> None \<or> \<not> te_mkdir env tid then (pqos1, rt1, -1)
         else if \<not> te_tasks env tid then (pqos1, rt1\<lparr>rt_groups := (rt_groups rt1)(tid \<mapsto> [])\<rparr>, -1)
         else (pqos1, rt1\<lparr>rt_groups := (rt_groups rt1)(tid \<mapsto> [if lwpid = 0 then pid else lwpid])\<rparr>, 0))"

text \<open>te_mon: the number in a file of the monitoring data, None if it cannot be read.\<close>

definition cmt_task_node_value :: "thr_env \<Rightarrow> int \<Rightarrow> int \<Rightarrow> string \<Rightarrow> u64 \<times> int" where
  "cmt_task_node_value env tid nid field = (case te_mon env tid field nid of None \<Rightarrow> (0, -1) | Some v \<Rightarrow> (v, 0))"

fun cmt_sum :: "thr_env \<Rightarrow> int \<Rightarrow> string \<Rightarrow> int \<Rightarrow> nat \<Rightarrow> u64 \<Rightarrow> u64" where
  "cmt_sum env tid field i 0 val = val"
| "cmt_sum env tid field i (Suc n) val =
     (case cmt_task_node_value env tid i field of
        (tmp, r) \<Rightarrow> cmt_sum env tid field (i + 1) n (if r = 0 then val + tmp else val))"

definition cmt_field_value :: "thr_env \<Rightarrow> nat \<Rightarrow> int \<Rightarrow> string \<Rightarrow> int \<Rightarrow> u64" where
  "cmt_field_value env nnodes_max tid field nid =
     (if nid = -1 then cmt_sum env tid field 0 nnodes_max 0 else fst (cmt_task_node_value env tid nid field))"

definition os_sysfs_cmt_task_value :: "thr_env \<Rightarrow> nat \<Rightarrow> perf_pqos \<Rightarrow> int \<Rightarrow> perf_pqos" where
  "os_sysfs_cmt_task_value env nnodes_max pq nid =
     (let val = \<lambda>field. cmt_field_value env nnodes_max (pq_task_id pq) field nid;
          occ = val ''llc_occupancy''; total = val ''mbm_total_bytes''; loc = val ''mbm_local_bytes''
      in pq\<lparr>pq_occupancy_scaled := occ,
            pq_totalbw_scaled := total - pq_totalbw pq, pq_totalbw := total,
            pq_localbw_scaled := loc - pq_localbw pq, pq_localbw := loc\<rparr>)"

definition pqos_record :: "thr_env \<Rightarrow> nat \<Rightarrow> perf_pqos \<Rightarrow> perf_pqos" where
  "pqos_record env nnodes_max pq = (if pq_task_id pq = 0 then pq else os_sysfs_cmt_task_value env nnodes_max pq (-1))"

definition os_pqos_cmt_proc_smpl :: "thr_env \<Rightarrow> nat \<Rightarrow> addr \<Rightarrow> pstate \<Rightarrow> pstate option" where
  "os_pqos_cmt_proc_smpl env nnodes_max a = upd_proc a (\<lambda>p. p\<lparr>p_pqos := pqos_record env nnodes_max (p_pqos p)\<rparr>)"

definition os_pqos_cmt_lwp_smpl :: "thr_env \<Rightarrow> nat \<Rightarrow> addr \<Rightarrow> track_lwp heap \<Rightarrow> track_lwp heap option" where
  "os_pqos_cmt_lwp_smpl env nnodes_max = upd_lwp (\<lambda>l. l\<lparr>l_pqos := pqos_record env nnodes_max (l_pqos l)\<rparr>)"

definition os_pqos_cmt_lwp_free :: "addr \<Rightarrow> track_lwp heap \<Rightarrow> track_lwp heap option" where
  "os_pqos_cmt_lwp_free l h = Some h"

definition os_pqos_cmt_proc_free :: "addr \<Rightarrow> pstate \<Rightarrow> pstate option" where
  "os_pqos_cmt_proc_free a s =
     do {
       p \<leftarrow> ps_procs s a;
       if p_lwp_pqosed p then do {
         h \<leftarrow> proc_lwp_traverse os_pqos_cmt_lwp_free (p_lwp_list p) (ps_lwps s);
         Some (s\<lparr>ps_lwps := h, ps_procs := (ps_procs s)(a \<mapsto> p\<lparr>p_lwp_pqosed := False\<rparr>)\<rparr>)
       }
       else Some s
     }"

section \<open>Small steps of the thread\<close>

definition set_status :: "perf_status \<Rightarrow> perf_thr \<Rightarrow> perf_thr" where
  "set_status s st = st\<lparr>th_ctl := perf_status_set s (th_ctl st)\<rparr>"

definition notify :: "disp_note \<Rightarrow> perf_thr \<Rightarrow> perf_thr" where
  "notify d st = st\<lparr>th_disp := th_disp st @ [d]\<rparr>"

definition clock :: "thr_env \<Rightarrow> perf_thr \<Rightarrow> nat \<times> perf_thr" where
  "clock env st = (te_clock env (th_ticks st), st\<lparr>th_ticks := th_ticks st + 1\<rparr>)"

definition elapsed :: "nat \<Rightarrow> nat \<Rightarrow> int" where
  "elapsed now last_ms = sint (word_of_int (int now - int last_ms) :: 32 word)"

definition stamp :: "thr_env \<Rightarrow> perf_thr \<Rightarrow> perf_thr" where
  "stamp env st = (case clock env st of (t, st1) \<Rightarrow> st1\<lparr>th_ctl := (th_ctl st1)\<lparr>pc_last_ms := t\<rparr>\<rparr>)"

definition on_ps :: "(pstate \<Rightarrow> pstate option) \<Rightarrow> perf_thr \<Rightarrow> perf_thr option" where
  "on_ps f st = map_option (set_ps st) (f (th_ps st))"

text \<open>A walk whose result is ignored.\<close>

definition walk_all :: "thr_op \<Rightarrow> thr_op option \<Rightarrow> perf_thr \<Rightarrow> perf_thr option" where
  "walk_all f hotadd st = map_option fst (thr_cpu_traverse (Some f) False hotadd st)"

section \<open>Counting on all processors\<close>

definition profiling_pause :: "thr_env \<Rightarrow> perf_thr \<Rightarrow> perf_thr option" where
  "profiling_pause env = walk_all (lift_op (cpu_profiling_stop (te_pf env))) None"

definition profiling_stop :: "thr_env \<Rightarrow> perf_thr \<Rightarrow> perf_thr option" where
  "profiling_stop env st = do { st1 \<leftarrow> profiling_pause env st; walk_all (lift_op cpu_resource_free) None st1 }"

definition profiling_start :: "thr_env \<Rightarrow> perf_thr \<Rightarrow> (perf_thr \<times> int) option" where
  "profiling_start env st =
     do {
       (st1, r) \<leftarrow> thr_cpu_traverse (Some (lift_op (cpu_profiling_setup (te_pf env)))) True None st;
       if r \<noteq> 0 then Some (st1, -1)
       else do {
         st2 \<leftarrow> profiling_pause env st1;
         (st3, r3) \<leftarrow> thr_cpu_traverse (Some (lift_op (cpu_profiling_start (te_pf env)))) True None st2;
         if r3 \<noteq> 0 then Some (st3, -1) else Some (stamp env st3, 0)
       }
     }"

definition profiling_smpl :: "thr_env \<Rightarrow> perf_thr \<Rightarrow> perf_thr option" where
  "profiling_smpl env st =
     (case clock env st of
        (now, st0) \<Rightarrow>
          let ms = elapsed now (pc_last_ms (th_ctl st0))
          in do {
            st1 \<leftarrow> on_ps (proc_intval_update ms) (st0\<lparr>th_intval_ms := ms\<rparr>);
            st2 \<leftarrow> walk_all (cpu_profiling_smpl env) (Some (lift_op (cpu_profiling_setupstart (te_pf env))))
                     (st1\<lparr>th_ng := node_intval_update ms (th_ng st1)\<rparr>);
            Some (stamp env st2)
          })"

definition profiling_partpause :: "thr_env \<Rightarrow> perf_task \<Rightarrow> perf_thr \<Rightarrow> perf_thr option" where
  "profiling_partpause env t st =
     map_option (th_partpause_update (\<lambda>_. True))
       (walk_all (lift_op (cpu_profiling_partpause (te_pf env) (t_count_id t))) None st)"

definition profiling_multipause :: "thr_env \<Rightarrow> perf_task \<Rightarrow> perf_thr \<Rightarrow> perf_thr option" where
  "profiling_multipause env t st =
     map_option (th_partpause_update (\<lambda>_. True))
       (walk_all (lift_op (cpu_profiling_multipause (te_pf env) (t_count_ids t))) None st)"

definition profiling_restore :: "thr_env \<Rightarrow> perf_task \<Rightarrow> perf_thr \<Rightarrow> perf_thr option" where
  "profiling_restore env t st =
     map_option (\<lambda>st1. stamp env (st1\<lparr>th_partpause := False\<rparr>))
       (walk_all (lift_op (cpu_profiling_restore (te_pf env) (t_count_id t))) None st)"

definition profiling_multi_restore :: "thr_env \<Rightarrow> perf_task \<Rightarrow> perf_thr \<Rightarrow> perf_thr option" where
  "profiling_multi_restore env t st =
     map_option (\<lambda>st1. stamp env (st1\<lparr>th_partpause := False\<rparr>))
       (walk_all (lift_op (cpu_profiling_multi_restore (te_pf env) (t_count_ids t))) None st)"

definition ll_start :: "thr_env \<Rightarrow> perf_thr \<Rightarrow> (perf_thr \<times> int) option" where
  "ll_start env st =
     do {
       (st1, r) \<leftarrow> thr_cpu_traverse (Some (lift_op (cpu_ll_setup (te_pf env)))) True None st;
       if r \<noteq> 0 then Some (st1, -1)
       else do {
         st2 \<leftarrow> walk_all (lift_op (cpu_ll_start (te_pf env))) None st1;
         Some (stamp env st2, 0)
       }
     }"

definition ll_stop :: "thr_env \<Rightarrow> perf_thr \<Rightarrow> perf_thr option" where
  "ll_stop env st =
     do { st1 \<leftarrow> walk_all (lift_op (cpu_ll_stop (te_pf env))) None st; walk_all (lift_op cpu_resource_free) None st1 }"

definition ll_smpl :: "thr_env \<Rightarrow> perf_task \<Rightarrow> perf_thr \<Rightarrow> perf_thr option" where
  "ll_smpl env t st =
     (case clock env st of
        (now, st0) \<Rightarrow>
          let ms = elapsed now (pc_last_ms (th_ctl st0))
          in do {
            st1 \<leftarrow> on_ps (proc_intval_update ms) (st0\<lparr>th_intval_ms := ms\<rparr>);
            st2 \<leftarrow> walk_all (cpu_ll_smpl env t) (Some (lift_op (cpu_ll_setupstart (te_pf env)))) st1;
            Some (stamp env st2)
          })"

section \<open>Counting on uncore units\<close>

definition uncore_free :: "nat \<Rightarrow> perf_thr \<Rightarrow> perf_thr" where
  "uncore_free i st =
     (let n = ng_nodes (th_ng st) ! i;
          (qs, k1) = pf_uncoreqpi_free (n_qpi n) (th_kern st);
          (is, k2) = pf_uncoreimc_free (n_imc n) k1
      in node_upd i (\<lambda>n. n\<lparr>n_qpi := qs, n_imc := is\<rparr>) (st\<lparr>th_kern := k2\<rparr>))"

fun uncore_stop_from :: "nat \<Rightarrow> nat \<Rightarrow> perf_thr \<Rightarrow> perf_thr" where
  "uncore_stop_from i 0 st = st"
| "uncore_stop_from i (Suc m) st =
     uncore_stop_from (i + 1) m (if NODE_VALID (ng_nodes (th_ng st) ! i) then uncore_free i st else st)"

definition uncore_stop_all :: "perf_thr \<Rightarrow> perf_thr" where
  "uncore_stop_all st = uncore_stop_from 0 (length (ng_nodes (th_ng st))) st"

definition os_uncore_stop :: "perf_task \<Rightarrow> perf_thr \<Rightarrow> perf_thr option" where
  "os_uncore_stop t st =
     (if t_nid t \<ge> 0 then do {
        n \<leftarrow> arr_get (ng_nodes (th_ng st)) (t_nid t);
        Some (if NODE_VALID n then uncore_free (nat (t_nid t)) st else st)
      }
      else Some (uncore_stop_all st))"

text \<open>
  The units are opened on the first processor of the node; the two start
  functions always succeed.
\<close>

definition uncore_start :: "thr_env \<Rightarrow> int \<Rightarrow> perf_thr \<Rightarrow> (perf_thr \<times> int) option" where
  "uncore_start env nid st =
     do {
       n \<leftarrow> arr_get (ng_nodes (th_ng st)) nid;
       if \<not> NODE_VALID n then Some (st, -1)
       else do {
         cs \<leftarrow> n_cpus n;
         c \<leftarrow> arr_get cs 0;
         (case pf_uncoreqpi_setup (te_pf env) (cpu_cpuid c) (n_qpi n) (th_kern st) of
            (qs, k1, r) \<Rightarrow>
              let st1 = node_upd (nat nid) (\<lambda>n. n\<lparr>n_qpi := qs\<rparr>) (st\<lparr>th_kern := k1\<rparr>)
              in if r \<noteq> 0 then Some (uncore_free (nat nid) st1, -1)
                 else (case pf_uncoreimc_setup (te_pf env) (cpu_cpuid c) (n_imc n) k1 of
                         (is, k2, r2) \<Rightarrow>
                           let st2 = node_upd (nat nid) (\<lambda>n. n\<lparr>n_imc := is\<rparr>) (st1\<lparr>th_kern := k2\<rparr>)
                           in if r2 \<noteq> 0 then Some (uncore_free (nat nid) st2, -1)
                              else Some (st2\<lparr>th_kern :=
                                pf_uncoreimc_start (te_pf env) is (pf_uncoreqpi_start (te_pf env) qs k2)\<rparr>, 0)))
       }
     }"

definition os_uncore_start :: "thr_env \<Rightarrow> perf_task \<Rightarrow> perf_thr \<Rightarrow> (perf_thr \<times> int) option" where
  "os_uncore_start env t st =
     do {
       (st1, r) \<leftarrow> uncore_start env (t_nid t) st;
       if r \<noteq> 0 then Some (set_status PERF_STATUS_UNCORE_FAILED st1, -1)
       else Some (set_status PERF_STATUS_UNCORE_STARTED st1, 0)
     }"

definition os_uncore_smpl :: "thr_env \<Rightarrow> perf_task \<Rightarrow> perf_thr \<Rightarrow> (perf_thr \<times> int) option" where
  "os_uncore_smpl env t st =
     do {
       n \<leftarrow> arr_get (ng_nodes (th_ng st)) (t_nid t);
       if \<not> NODE_VALID n then Some (st, -1)
       else do {
         qs \<leftarrow> pf_uncoreqpi_smpl (te_scale env) (te_read env) (n_qpi n);
         is \<leftarrow> pf_uncoreimc_smpl (te_scale env) (te_read env) (n_imc n);
         Some (notify (Profiling_ready (th_intval_ms st))
                 (node_upd (nat (t_nid t)) (\<lambda>n. n\<lparr>n_qpi := qs, n_imc := is\<rparr>) st), 0)
       }
     }"

section \<open>Cache monitoring\<close>

text \<open>Both references of a process and a thread are given back; the thread may be missing.\<close>

definition pqos_release :: "addr \<Rightarrow> ptr \<Rightarrow> pstate \<Rightarrow> pstate option" where
  "pqos_release a la ps =
     (case la of None \<Rightarrow> proc_refcount_dec a ps | Some l \<Rightarrow> smpl_release a l ps)"

definition pqos_cmt_start :: "thr_env \<Rightarrow> int \<Rightarrow> int \<Rightarrow> int \<Rightarrow> perf_thr \<Rightarrow> (perf_thr \<times> int) option" where
  "pqos_cmt_start env pid lwpid flags st =
     do {
       (ps1, pa) \<leftarrow> proc_find pid (th_ps st);
       (case pa of
          None \<Rightarrow> Some (set_ps st ps1, -1)
        | Some a \<Rightarrow>
            if lwpid = 0 then do {
              p \<leftarrow> ps_procs ps1 a;
              (case os_sysfs_cmt_task_set env pid lwpid (pqos_zero\<lparr>pq_flags := flags\<rparr>) (th_resctrl st) of
                 (pq, rt, r) \<Rightarrow> do {
                   ps2 \<leftarrow> pqos_release a None (ps1\<lparr>ps_procs := (ps_procs ps1)(a \<mapsto> p\<lparr>p_pqos := pq\<rparr>)\<rparr>);
                   Some (st\<lparr>th_ps := ps2, th_resctrl := rt\<rparr>, r)
                 })
            }
            else do {
              p \<leftarrow> ps_procs ps1 a;
              (h, la) \<leftarrow> proc_lwp_find (p_lwp_list p) lwpid (ps_lwps ps1);
              let ps2 = ps1\<lparr>ps_lwps := h\<rparr>;
              (case la of
                 None \<Rightarrow> do { ps3 \<leftarrow> proc_refcount_dec a ps2; Some (set_ps st ps3, -1) }
               | Some l \<Rightarrow> do {
                   w \<leftarrow> h l;
                   (case os_sysfs_cmt_task_set env pid lwpid (pqos_zero\<lparr>pq_flags := flags\<rparr>) (th_resctrl st) of
                      (pq, rt, r) \<Rightarrow> do {
                        ps3 \<leftarrow> pqos_release a (Some l)
                          (ps2\<lparr>ps_procs := (ps_procs ps2)(a \<mapsto> p\<lparr>p_lwp_pqosed := True\<rparr>),
                               ps_lwps := h(l \<mapsto> w\<lparr>l_pqos := pq\<rparr>)\<rparr>);
                        Some (st\<lparr>th_ps := ps3, th_resctrl := rt\<rparr>, r)
                      })
                 })
            })
     }"

definition os_pqos_cmt_start :: "thr_env \<Rightarrow> perf_task \<Rightarrow> perf_thr \<Rightarrow> (perf_thr \<times> int) option" where
  "os_pqos_cmt_start env t st =
     do {
       (st1, r) \<leftarrow> pqos_cmt_start env (t_pid t) (t_lwpid t) (t_flags t) st;
       if r \<noteq> 0 then Some (set_status PERF_STATUS_PQOS_CMT_FAILED st1, -1)
       else Some (set_status PERF_STATUS_PQOS_CMT_STARTED st1, 0)
     }"

text \<open>
  What sampling and stopping have in common: all processes, or the process or
  thread of the task, which is looked up and released again.
\<close>

definition pqos_on ::
  "(addr \<Rightarrow> pstate \<Rightarrow> pstate option) \<Rightarrow> (addr \<Rightarrow> track_lwp heap \<Rightarrow> track_lwp heap option) \<Rightarrow> perf_task \<Rightarrow> pstate
     \<Rightarrow> (pstate \<times> int) option" where
  "pqos_on on_proc on_lwp t ps =
     (if t_pid t = 0 then do { ps1 \<leftarrow> proc_pqos_func None on_proc ps; Some (ps1, 0) }
      else do {
        (ps1, pa) \<leftarrow> proc_find (t_pid t) ps;
        (case pa of
           None \<Rightarrow> Some (ps1, -1)
         | Some a \<Rightarrow>
             if t_lwpid t = 0 then do {
               ps2 \<leftarrow> on_proc a ps1;
               ps3 \<leftarrow> pqos_release a None ps2;
               Some (ps3, 0)
             }
             else do {
               p \<leftarrow> ps_procs ps1 a;
               (h, la) \<leftarrow> proc_lwp_find (p_lwp_list p) (t_lwpid t) (ps_lwps ps1);
               (case la of
                  None \<Rightarrow> do { ps2 \<leftarrow> proc_refcount_dec a (ps1\<lparr>ps_lwps := h\<rparr>); Some (ps2, -1) }
                | Some l \<Rightarrow> do {
                    h1 \<leftarrow> on_lwp l h;
                    ps2 \<leftarrow> pqos_release a (Some l) (ps1\<lparr>ps_lwps := h1\<rparr>);
                    Some (ps2, 0)
                  })
             })
      })"

definition os_pqos_cmt_smpl :: "thr_env \<Rightarrow> perf_task \<Rightarrow> perf_thr \<Rightarrow> (perf_thr \<times> int) option" where
  "os_pqos_cmt_smpl env t st =
     do {
       st1 \<leftarrow> on_ps (proc_enum_update (te_proc env) 0) st;
       let nmax = length (ng_nodes (th_ng st1));
       (ps, r) \<leftarrow> pqos_on (os_pqos_cmt_proc_smpl env nmax) (os_pqos_cmt_lwp_smpl env nmax) t (th_ps st1);
       let st2 = set_ps st1 ps;
       if r \<noteq> 0 then Some (notify (Pqos_ready 0) st2, -1)
       else
         (case clock env st2 of (now, st3) \<Rightarrow>
            case clock env (st3\<lparr>th_intval_ms := elapsed now (pc_last_ms_pqos (th_ctl st3))\<rparr>) of (now2, st4) \<Rightarrow>
              Some (notify (Pqos_ready (th_intval_ms st4))
                (st4\<lparr>th_ctl := (th_ctl st4)\<lparr>pc_last_ms_pqos := now2\<rparr>\<rparr>), 0))
     }"

definition os_pqos_proc_stop :: "perf_task \<Rightarrow> perf_thr \<Rightarrow> (perf_thr \<times> int) option" where
  "os_pqos_proc_stop t st =
     do {
       (ps, r) \<leftarrow> pqos_on os_pqos_cmt_proc_free os_pqos_cmt_lwp_free t (th_ps st);
       Some (set_ps st ps, r)
     }"

section \<open>The tasks\<close>

definition os_allstop :: "thr_env \<Rightarrow> perf_thr \<Rightarrow> perf_thr option" where
  "os_allstop env st =
     do {
       st1 \<leftarrow> (if perf_profiling_started (th_ctl st) then profiling_stop env st else Some st);
       st2 \<leftarrow> (if perf_ll_started (th_ctl st1) then ll_stop env st1 else Some st1);
       st3 \<leftarrow> (if perf_pqos_cmt_started (th_ctl st2) then on_ps (proc_pqos_func None os_pqos_cmt_proc_free) st2
               else Some st2);
       Some (if perf_uncore_started (th_ctl st3) then uncore_stop_all st3 else st3)
     }"

definition os_profiling_start :: "thr_env \<Rightarrow> perf_thr \<Rightarrow> (perf_thr \<times> int) option" where
  "os_profiling_start env st =
     (if perf_profiling_started (th_ctl st) then Some (set_status PERF_STATUS_PROFILING_STARTED st, 0)
      else do {
        st1 \<leftarrow> os_allstop env st;
        st2 \<leftarrow> on_ps (proc_ll_clear None) st1;
        (st3, r) \<leftarrow> profiling_start env st2;
        if r \<noteq> 0 then Some (set_status PERF_STATUS_PROFILING_FAILED st3, -1)
        else Some (set_status PERF_STATUS_PROFILING_STARTED st3, 0)
      })"

definition os_profiling_smpl :: "thr_env \<Rightarrow> perf_task \<Rightarrow> perf_thr \<Rightarrow> perf_thr option" where
  "os_profiling_smpl env t st =
     do {
       st1 \<leftarrow> on_ps (proc_enum_update (te_proc env) 0) st;
       st2 \<leftarrow> on_ps proc_callchain_clear st1;
       st3 \<leftarrow> on_ps proc_profiling_clear st2;
       st4 \<leftarrow> profiling_smpl env (st3\<lparr>th_ng := node_profiling_clear (th_ng st3)\<rparr>);
       Some (notify (if t_dispflag1 t then Profiling_ready (th_intval_ms st4)
                     else Flag2_set FLAG2_PROFILING_DATA_READY) st4)
     }"

definition os_profiling_partpause :: "thr_env \<Rightarrow> perf_task \<Rightarrow> perf_thr \<Rightarrow> perf_thr option" where
  "os_profiling_partpause env t st =
     map_option (set_status PERF_STATUS_PROFILING_PART_STARTED) (profiling_partpause env t st)"

definition os_profiling_multipause :: "thr_env \<Rightarrow> perf_task \<Rightarrow> perf_thr \<Rightarrow> perf_thr option" where
  "os_profiling_multipause env t st =
     map_option (set_status PERF_STATUS_PROFILING_MULTI_STARTED) (profiling_multipause env t st)"

definition os_profiling_restore :: "thr_env \<Rightarrow> perf_task \<Rightarrow> perf_thr \<Rightarrow> perf_thr option" where
  "os_profiling_restore env t st =
     do {
       st1 \<leftarrow> on_ps proc_callchain_clear st;
       st2 \<leftarrow> on_ps proc_profiling_clear st1;
       st3 \<leftarrow> profiling_restore env t st2;
       Some (set_status PERF_STATUS_PROFILING_STARTED st3)
     }"

definition os_profiling_multi_restore :: "thr_env \<Rightarrow> perf_task \<Rightarrow> perf_thr \<Rightarrow> perf_thr option" where
  "os_profiling_multi_restore env t st =
     do {
       st1 \<leftarrow> on_ps proc_callchain_clear st;
       st2 \<leftarrow> on_ps proc_profiling_clear st1;
       st3 \<leftarrow> profiling_multi_restore env t st2;
       Some (set_status PERF_STATUS_PROFILING_STARTED st3)
     }"

definition os_ll_start :: "thr_env \<Rightarrow> perf_thr \<Rightarrow> (perf_thr \<times> int) option" where
  "os_ll_start env st =
     do {
       st1 \<leftarrow> os_allstop env st;
       st2 \<leftarrow> on_ps proc_callchain_clear st1;
       st3 \<leftarrow> on_ps proc_profiling_clear st2;
       (st4, r) \<leftarrow> ll_start env (st3\<lparr>th_ng := node_profiling_clear (th_ng st3)\<rparr>);
       if r \<noteq> 0 then Some (set_status PERF_STATUS_LL_FAILED st4, -1)
       else Some (set_status PERF_STATUS_LL_STARTED st4, 0)
     }"

definition os_ll_smpl :: "thr_env \<Rightarrow> perf_task \<Rightarrow> perf_thr \<Rightarrow> (perf_thr \<times> int) option" where
  "os_ll_smpl env t st =
     (if \<not> perf_ll_started (th_ctl st) then Some (st, -1)
      else do {
        st1 \<leftarrow> on_ps (proc_enum_update (te_proc env) 0) st;
        st2 \<leftarrow> on_ps (proc_ll_clear None) st1;
        st3 \<leftarrow> ll_smpl env t st2;
        Some (notify (Ll_ready (th_intval_ms st3)) st3, 0)
      })"

text \<open>
  One turn of perf_handler.  None in the first place means that it waits for a
  task; the flag of the result that the thread has left its loop.  Call chains
  are not supported on Linux: their two functions only return.
\<close>

definition os_callchain_start :: "perf_thr \<Rightarrow> perf_thr \<times> int" where "os_callchain_start st = (st, 0)"
definition os_callchain_smpl :: "perf_thr \<Rightarrow> perf_thr \<times> int" where "os_callchain_smpl st = (st, 0)"

definition handle_task :: "thr_env \<Rightarrow> perf_task \<Rightarrow> perf_thr \<Rightarrow> (perf_thr \<times> bool) option" where
  "handle_task env t st =
     (let go = map_option (\<lambda>st1. (st1, False)); go2 = map_option (\<lambda>(st1, r). (st1, False)) in
      case t_id t of
        PERF_QUIT_ID \<Rightarrow> map_option (\<lambda>st1. (st1, True)) (os_allstop env st)
      | PERF_STOP_ID \<Rightarrow> go (map_option (set_status PERF_STATUS_IDLE) (os_allstop env st))
      | PERF_PROFILING_START_ID \<Rightarrow> map_option (\<lambda>(st1, r). (st1, r \<noteq> 0)) (os_profiling_start env st)
      | PERF_PROFILING_SMPL_ID \<Rightarrow> go (os_profiling_smpl env t st)
      | PERF_PROFILING_PARTPAUSE_ID \<Rightarrow> go (os_profiling_partpause env t st)
      | PERF_PROFILING_MULTIPAUSE_ID \<Rightarrow> go (os_profiling_multipause env t st)
      | PERF_PROFILING_RESTORE_ID \<Rightarrow> go (os_profiling_restore env t st)
      | PERF_PROFILING_MULTI_RESTORE_ID \<Rightarrow> go (os_profiling_multi_restore env t st)
      | PERF_CALLCHAIN_START_ID \<Rightarrow> go2 (Some (os_callchain_start st))
      | PERF_CALLCHAIN_SMPL_ID \<Rightarrow> go2 (Some (os_callchain_smpl st))
      | PERF_LL_START_ID \<Rightarrow> go2 (os_ll_start env st)
      | PERF_LL_SMPL_ID \<Rightarrow> go2 (os_ll_smpl env t st)
      | PERF_PQOS_CMT_START_ID \<Rightarrow> go2 (os_pqos_cmt_start env t st)
      | PERF_PQOS_CMT_SMPL_ID \<Rightarrow> go2 (os_pqos_cmt_smpl env t st)
      | PERF_PQOS_CMT_STOP_ID \<Rightarrow>
          go (map_option (\<lambda>(st1, r). set_status PERF_STATUS_PROFILING_STARTED st1) (os_pqos_proc_stop t st))
      | PERF_UNCORE_STOP_ID \<Rightarrow> go (map_option (set_status PERF_STATUS_PROFILING_STARTED) (os_uncore_stop t st))
      | PERF_UNCORE_START_ID \<Rightarrow> go2 (os_uncore_start env t st)
      | PERF_UNCORE_SMPL_ID \<Rightarrow> go2 (os_uncore_smpl env t st)
      | PERF_INVALID_ID \<Rightarrow> Some (st, False))"

definition perf_handler_turn :: "thr_env \<Rightarrow> perf_thr \<Rightarrow> (perf_thr \<times> bool) option option" where
  "perf_handler_turn env st =
     (case perf_task_take (th_ctl st) of
        None \<Rightarrow> None
      | Some (t, ctl) \<Rightarrow> Some (handle_task env t (st\<lparr>th_ctl := ctl\<rparr>)))"

end
