(* ===== verification/PerfThrUse.thy ===== *)
theory PerfThrUse
  imports PerfThr
begin

text \<open>
  The walk over the processors in the state of the thread is the walk over the
  node group alone for every operation that only uses the kernel; what stopping
  releases, and what it leaves open.
\<close>

section \<open>Two walks\<close>

abbreviation thr_put :: "perf_thr \<Rightarrow> node list \<Rightarrow> pkern \<Rightarrow> perf_thr" where
  "thr_put st ns k \<equiv> st\<lparr>th_ng := (th_ng st)\<lparr>ng_nodes := ns\<rparr>, th_kern := k\<rparr>"

lemma thr_visit_lift:
  "thr_visit (map_option lift_op f) err (map_option lift_op h) c st =
     map_option (\<lambda>(c1, k1, r). (c1, st\<lparr>th_kern := k1\<rparr>, r)) (cpu_visit f err h c (th_kern st))"
  by (cases f; cases h) (auto simp: thr_visit_def cpu_visit_def lift_op_def split: bind_splits prod.splits)

lemma thr_put_idem [simp]: "thr_put (thr_put st ns k) ns1 k1 = thr_put st ns1 k1"
  by simp

lemma slot_get_put:
  assumes "i < length ns" "n_cpus (ns ! i) = Some cs" "j < length cs"
  shows "slot_get i j (thr_put st ns k) = Some (cs ! j)"
    "slot_put i j c (thr_put st ns k) = thr_put st (ns[i := (ns ! i)\<lparr>n_cpus := Some (cs[j := c])\<rparr>]) k"
  using assms by (simp_all add: slot_get_def slot_put_def node_upd_def)

lemma thr_slots_lift:
  assumes "i < length ns" "n_cpus (ns ! i) = Some (pre @ cs)"
  shows "thr_slots (map_option lift_op f) err (map_option lift_op h) i (length pre) (length cs) (thr_put st ns k) =
    map_option (\<lambda>(cs1, k1, r). (thr_put st (ns[i := (ns ! i)\<lparr>n_cpus := Some (pre @ cs1)\<rparr>]) k1, r))
      (cpus_visit f err h cs k)"
  using assms
proof (induction cs arbitrary: pre ns k)
  case Nil
  then have "(ns ! i)\<lparr>n_cpus := Some pre\<rparr> = ns ! i" by simp
  then show ?case by simp
next
  case (Cons c cs)
  let ?st = "thr_put st ns k"
  have get: "slot_get i (length pre) ?st = Some c"
    using slot_get_put(1) [OF Cons.prems, of "length pre"] by simp
  show ?case
  proof (cases "cpu_visit f err h c k")
    case None
    then show ?thesis by (simp add: get thr_visit_lift)
  next
    case (Some v)
    obtain c1 k1 r where v: "v = (c1, k1, r)" by (cases v)
    let ?ns1 = "ns[i := (ns ! i)\<lparr>n_cpus := Some ((pre @ [c1]) @ cs)\<rparr>]"
    have put: "slot_put i (length pre) c1 (thr_put st ns k1) = thr_put st ?ns1 k1"
      using slot_get_put(2) [OF Cons.prems, where j = "length pre" and st = st and k = k1 and c = c1] by simp
    have vis: "thr_visit (map_option lift_op f) err (map_option lift_op h) c ?st = Some (c1, thr_put st ns k1, r)"
      using Some v by (simp add: thr_visit_lift)
    show ?thesis
    proof (cases "r = 0")
      case False
      then show ?thesis using Some v get vis put by simp
    next
      case True
      have "thr_slots (map_option lift_op f) err (map_option lift_op h) i (length (pre @ [c1])) (length cs) (thr_put st ?ns1 k1) =
        map_option (\<lambda>(cs1, k1, r). (thr_put st (?ns1[i := (?ns1 ! i)\<lparr>n_cpus := Some ((pre @ [c1]) @ cs1)\<rparr>]) k1, r))
          (cpus_visit f err h cs k1)"
        by (rule Cons.IH) (use Cons.prems in simp_all)
      then show ?thesis
        using Some v get vis put True Cons.prems(1)
        by (cases "cpus_visit f err h cs k1") auto
    qed
  qed
qed


lemma thr_nodes_lift:
  "thr_nodes (map_option lift_op f) err (map_option lift_op h) (length pre) (length ns) (thr_put st (pre @ ns) k) =
    map_option (\<lambda>(ns1, k1, r). (thr_put st (pre @ ns1) k1, r)) (nodes_visit f err h ns k)"
proof (induction ns arbitrary: pre k)
  case Nil
  then show ?case by simp
next
  case (Cons n ns)
  let ?f = "map_option lift_op f" and ?h = "map_option lift_op h"
  have step: "thr_nodes ?f err ?h (length pre + 1) (length ns) (thr_put st (pre @ m # ns) k1) =
      map_option (\<lambda>(ns1, k1, r). (thr_put st (pre @ m # ns1) k1, r)) (nodes_visit f err h ns k1)" for m k1
    using Cons.IH [where pre = "pre @ [m]" and k = k1] by simp
  show ?case
  proof (cases "NODE_VALID n")
    case False
    then show ?thesis using step [where m = n and ?k1.0 = k] by (cases "nodes_visit f err h ns k") auto
  next
    case True
    show ?thesis
    proof (cases "n_cpus n")
      case None
      then show ?thesis using True by simp
    next
      case (Some cs)
      have sl: "thr_slots ?f err ?h (length pre) 0 (length cs) (thr_put st (pre @ n # ns) k) =
          map_option (\<lambda>(cs1, k1, r). (thr_put st (pre @ n\<lparr>n_cpus := Some cs1\<rparr> # ns) k1, r)) (cpus_visit f err h cs k)"
        using thr_slots_lift [where i = "length pre" and ns = "pre @ n # ns" and pre = "[]" and cs = cs and f = f and err = err and h = h and st = st and k = k] Some by simp
      show ?thesis
      proof (cases "cpus_visit f err h cs k")
        case None
        then show ?thesis using True Some sl by simp
      next
        case v: (Some v)
        obtain cs1 k1 r where w: "v = (cs1, k1, r)" by (cases v)
        let ?n1 = "n\<lparr>n_cpus := Some cs1\<rparr>"
        let ?n2 = "if n_hotremove ?n1 then ?n1\<lparr>n_nid := INVALID_NID, n_hotremove := False\<rparr> else ?n1"
        have up: "node_upd (length pre) (\<lambda>n. if n_hotremove n then n\<lparr>n_nid := INVALID_NID, n_hotremove := False\<rparr> else n)
            (thr_put st (pre @ ?n1 # ns) k1) = thr_put st (pre @ ?n2 # ns) k1"
          by (simp add: node_upd_def)
        show ?thesis
          using True Some sl v w up step [where m = ?n2 and ?k1.0 = k1] by (cases "nodes_visit f err h ns k1") (auto simp: Let_def)
      qed
    qed
  qed
qed

lemma thr_cpu_traverse_eq:
  "thr_cpu_traverse (map_option lift_op f) err (map_option lift_op h) st =
    map_option (\<lambda>(g, k, r). (st\<lparr>th_ng := g, th_kern := k\<rparr>, r)) (node_cpu_traverse f err h (th_ng st) (th_kern st))"
proof -
  have "thr_put st ([] @ ng_nodes (th_ng st)) (th_kern st) = st" by simp
  then have "thr_nodes (map_option lift_op f) err (map_option lift_op h) 0 (length (ng_nodes (th_ng st))) st =
    map_option (\<lambda>(ns1, k1, r). (thr_put st ns1 k1, r)) (nodes_visit f err h (ng_nodes (th_ng st)) (th_kern st))"
    using thr_nodes_lift [where f = f and err = err and h = h and pre = "[]" and ns = "ng_nodes (th_ng st)" and st = st and k = "th_kern st"] by simp
  then show ?thesis
    by (cases "nodes_visit f err h (ng_nodes (th_ng st)) (th_kern st)")
      (auto simp: thr_cpu_traverse_def node_cpu_traverse_def)
qed


section \<open>What the processors hold\<close>

abbreviation thr_nodes_of :: "perf_thr \<Rightarrow> node list" where
  "thr_nodes_of st \<equiv> ng_nodes (th_ng st)"

text \<open>Every valid node has its array of processors.\<close>

definition arrays_ok :: "node list \<Rightarrow> bool" where
  "arrays_ok ns \<longleftrightarrow> (\<forall>n \<in> set ns. NODE_VALID n \<longrightarrow> n_cpus n \<noteq> None)"

text \<open>
  Slots that no walk reaches hold nothing: those of nodes that are not valid,
  and those that are free or wait to be added; and of a node that is to be
  removed every processor is.
\<close>

definition parked :: "node list \<Rightarrow> bool" where
  "parked ns \<longleftrightarrow> (\<forall>n \<in> set ns. \<forall>c \<in> set (node_slots n).
     (\<not> NODE_VALID n \<or> \<not> cpu_hotremove c \<and> idle_slot c \<longrightarrow> holds_none c) \<and>
     (n_hotremove n \<longrightarrow> cpu_hotremove c \<or> idle_slot c))"

lemma nodes_visit_frame:
  "nodes_visit f err None ns k = Some (ns1, k1, 0) \<Longrightarrow>
   list_all2 (\<lambda>n n1. if NODE_VALID n \<and> n_hotremove n then \<not> NODE_VALID n1 \<and> \<not> n_hotremove n1
      else n_nid n1 = n_nid n \<and> n_hotremove n1 = n_hotremove n) ns ns1"
proof (induction ns arbitrary: k ns1 k1)
  case (Cons n ns)
  show ?case
  proof (cases "NODE_VALID n")
    case False
    then obtain ns2 where "nodes_visit f err None ns k = Some (ns2, k1, 0)" "ns1 = n # ns2"
      using Cons.prems by (auto split: bind_splits)
    then show ?thesis using Cons.IH False by simp
  next
    case True
    then obtain cs cs1 k2 ns2 where "nodes_visit f err None ns k2 = Some (ns2, k1, 0)"
      "ns1 = (let n1 = n\<lparr>n_cpus := Some cs1\<rparr> in if n_hotremove n then n1\<lparr>n_nid := INVALID_NID, n_hotremove := False\<rparr> else n1) # ns2"
      using Cons.prems by (auto simp: Let_def split: bind_splits if_splits)
    then show ?thesis using Cons.IH True by (auto simp: Let_def NODE_VALID_def)
  qed
qed simp

text \<open>An operation that always has a result, and one that always has the result 0.\<close>

definition op_total :: "pcpu_op \<Rightarrow> bool" where "op_total op \<longleftrightarrow> (\<forall>c k. op c k \<noteq> None)"

lemma cpu_visit_total: "op_total op \<Longrightarrow> \<exists>c1 k1 r. cpu_visit (Some op) err None c k = Some (c1, k1, r) \<and> (\<not> err \<longrightarrow> r = 0)"
  by (auto simp: cpu_visit_def op_total_def split: prod.splits bind_splits) (metis not_None_eq)

lemma cpus_visit_total:
  "op_total op \<Longrightarrow> \<exists>cs1 k1 r. cpus_visit (Some op) err None cs k = Some (cs1, k1, r) \<and> (\<not> err \<longrightarrow> r = 0)"
proof (induction cs arbitrary: k)
  case (Cons c cs)
  obtain c1 k1 r where v: "cpu_visit (Some op) err None c k = Some (c1, k1, r)" "\<not> err \<longrightarrow> r = 0"
    using cpu_visit_total [OF Cons.prems] by blast
  obtain cs2 k2 r2 where "cpus_visit (Some op) err None cs k1 = Some (cs2, k2, r2)" "\<not> err \<longrightarrow> r2 = 0"
    using Cons.IH [OF Cons.prems] by blast
  then show ?case using v by auto
qed simp

lemma nodes_visit_total:
  "op_total op \<Longrightarrow> arrays_ok ns \<Longrightarrow>
   \<exists>ns1 k1 r. nodes_visit (Some op) err None ns k = Some (ns1, k1, r) \<and> (\<not> err \<longrightarrow> r = 0) \<and> arrays_ok ns1"
proof (induction ns arbitrary: k)
  case (Cons n ns)
  have a: "arrays_ok ns" using Cons.prems(2) by (simp add: arrays_ok_def)
  show ?case
  proof (cases "NODE_VALID n")
    case False
    then show ?thesis using Cons.IH [OF Cons.prems(1) a, of k] by (auto simp: arrays_ok_def)
  next
    case True
    then obtain cs where cs: "n_cpus n = Some cs" using Cons.prems(2) by (auto simp: arrays_ok_def)
    obtain cs1 k1 r where v: "cpus_visit (Some op) err None cs k = Some (cs1, k1, r)" "\<not> err \<longrightarrow> r = 0"
      using cpus_visit_total [OF Cons.prems(1)] by blast
    obtain ns2 k2 r2 where "nodes_visit (Some op) err None ns k1 = Some (ns2, k2, r2)" "\<not> err \<longrightarrow> r2 = 0" "arrays_ok ns2"
      using Cons.IH [OF Cons.prems(1) a] by blast
    then show ?thesis using v True cs a by (auto simp: arrays_ok_def Let_def)
  qed
qed (simp add: arrays_ok_def)


lemma list_all2_in: "list_all2 P xs ys \<Longrightarrow> y \<in> set ys \<Longrightarrow> \<exists>x \<in> set xs. P x y"
  by (induction xs ys rule: list_all2_induct) auto

context res_op
begin

lemma slot_walk_clean:
  assumes "\<not> cpu_hotremove c \<and> idle_slot c \<longrightarrow> holds_none c" "walked c c1"
  shows "(holds_none c1 \<or> post c1) \<and> (\<not> cpu_hotremove c1 \<and> idle_slot c1 \<longrightarrow> holds_none c1) \<and>
     (cpu_hotremove c \<or> idle_slot c \<longrightarrow> holds_none c1 \<and> idle_slot c1)"
  using assms by (auto simp: walked_def idle_slot_def hot_kept_def split: if_splits)

lemma walk_clean:
  assumes "list_all2 node_walked ns ns1" "parked ns"
    and "list_all2 (\<lambda>n n1. if NODE_VALID n \<and> n_hotremove n then \<not> NODE_VALID n1 \<and> \<not> n_hotremove n1
      else n_nid n1 = n_nid n \<and> n_hotremove n1 = n_hotremove n) ns ns1"
  shows "parked ns1 \<and> (\<forall>c \<in> set (all_slots ns1). holds_none c \<or> post c)"
proof -
  have step: "(\<forall>c \<in> set (node_slots n1). holds_none c \<or> post c) \<and> parked [n1]"
    if nw: "node_walked n n1" and fr: "if NODE_VALID n \<and> n_hotremove n then \<not> NODE_VALID n1 \<and> \<not> n_hotremove n1
      else n_nid n1 = n_nid n \<and> n_hotremove n1 = n_hotremove n" and pk: "parked [n]" for n n1
  proof (cases "NODE_VALID n")
    case False
    then show ?thesis using nw pk by (auto simp: node_walked_def parked_def)
  next
    case True
    have "\<exists>c \<in> set (node_slots n). walked c c1" if "c1 \<in> set (node_slots n1)" for c1
      using nw True that list_all2_in [of walked "node_slots n" "node_slots n1" c1] by (simp add: node_walked_def)
    then have sl: "(holds_none c1 \<or> post c1) \<and> (\<not> cpu_hotremove c1 \<and> idle_slot c1 \<longrightarrow> holds_none c1) \<and>
        (n_hotremove n \<longrightarrow> holds_none c1 \<and> idle_slot c1)" if "c1 \<in> set (node_slots n1)" for c1
      using slot_walk_clean pk True that unfolding parked_def by (metis list.set_intros(1))
    show ?thesis
    proof (cases "n_hotremove n")
      case True
      then show ?thesis using sl by (auto simp: parked_def)
    next
      case False
      then have "NODE_VALID n1" "\<not> n_hotremove n1" using fr True by (simp_all add: NODE_VALID_def)
      then show ?thesis using sl by (auto simp: parked_def)
    qed
  qed
  show ?thesis
    using assms
  proof (induction ns arbitrary: ns1)
    case (Cons n ns)
    then obtain n1 ms where ms: "ns1 = n1 # ms" "list_all2 node_walked ns ms" "node_walked n n1"
      by (auto simp: list_all2_Cons1)
    have pk: "parked ns" "parked [n]" using Cons.prems(2) by (auto simp: parked_def)
    have a: "parked ms \<and> (\<forall>c \<in> set (all_slots ms). holds_none c \<or> post c)"
      by (rule Cons.IH [OF ms(2) pk(1)]) (use Cons.prems(3) ms(1) in simp)
    have b: "(\<forall>c \<in> set (node_slots n1). holds_none c \<or> post c) \<and> parked [n1]"
      by (rule step [OF ms(3) _ pk(2)]) (use Cons.prems(3) ms(1) in simp)
    have "parked (n1 # ms)" using a b unfolding parked_def by simp
    then show ?case using a b ms(1) by auto
  qed (simp add: parked_def)
qed

lemma thr_walk:
  assumes "op_total op" "arrays_ok (thr_nodes_of st)" "parked (thr_nodes_of st)"
    and "held_by (all_slots (thr_nodes_of st)) A B (th_kern st)" "\<forall>c. pre c"
  obtains st1 where "walk_all (lift_op op) None st = Some st1" "arrays_ok (thr_nodes_of st1)" "parked (thr_nodes_of st1)"
    "held_by (all_slots (thr_nodes_of st1)) A B (th_kern st1)"
    "\<forall>c \<in> set (all_slots (thr_nodes_of st1)). holds_none c \<or> post c" "th_ctl st1 = th_ctl st"
proof -
  obtain ns1 k1 where v: "nodes_visit (Some op) False None (thr_nodes_of st) (th_kern st) = Some (ns1, k1, 0)" "arrays_ok ns1"
    using nodes_visit_total [OF assms(1,2), of False "th_kern st"] by auto
  have w: "held_by (all_slots ns1) A B k1 \<and> list_all2 node_walked (thr_nodes_of st) ns1"
    using nodes_visit_op [OF assms(4) _ v(1)] assms(5) by simp
  then have "parked ns1 \<and> (\<forall>c \<in> set (all_slots ns1). holds_none c \<or> post c)"
    by (intro walk_clean [OF _ assms(3) nodes_visit_frame [OF v(1)]]) simp
  moreover have "walk_all (lift_op op) None st = Some (st\<lparr>th_ng := (th_ng st)\<lparr>ng_nodes := ns1\<rparr>, th_kern := k1\<rparr>)"
    using thr_cpu_traverse_eq [where f = "Some op" and err = False and h = None and st = st] v(1)
    by (simp add: walk_all_def node_cpu_traverse_def)
  ultimately show ?thesis using that w v(2) by simp
qed

end


context res_op
begin

lemma traverse_held:
  assumes "thr_cpu_traverse (Some (lift_op op)) err None st = Some (st1, r)" "\<forall>c. pre c"
    and "held_by (all_slots (thr_nodes_of st)) A B (th_kern st)"
  shows "held_by (all_slots (thr_nodes_of st1)) A B (th_kern st1)"
  using assms(1) nodes_visit_op [OF assms(3)] assms(2)
    thr_cpu_traverse_eq [where f = "Some op" and err = err and h = None and st = st]
  by (auto simp: node_cpu_traverse_def split: bind_splits)

end

lemma ops_total:
  "op_total (cpu_profiling_stop env)" "op_total (cpu_profiling_start env)" "op_total (cpu_ll_stop env)"
  "op_total cpu_resource_free" "op_total (cpu_profiling_setup env)"
  by (auto simp: op_total_def cpu_profiling_stop_def cpu_profiling_start_def cpu_ll_stop_def cpu_resource_free_def
      cpu_profiling_setup_def split: prod.splits)


section \<open>What a new start forgets\<close>

definition active_slot :: "perf_cpu \<Rightarrow> bool" where
  "active_slot c \<longleftrightarrow> \<not> cpu_hotremove c \<and> \<not> idle_slot c"

definition init_slot :: "perf_cpu \<Rightarrow> perf_cpu" where
  "init_slot c = (if active_slot c then cpu_init c else c)"

definition init_nodes :: "node list \<Rightarrow> node list" where
  "init_nodes = map (\<lambda>n. if NODE_VALID n then n\<lparr>n_cpus := map_option (map init_slot) (n_cpus n)\<rparr> else n)"

definition lost :: "(perf_cpu \<Rightarrow> 'a multiset) \<Rightarrow> node list \<Rightarrow> 'a multiset" where
  "lost f ns = sum_list (map (\<lambda>n. if NODE_VALID n
     then sum_list (map (\<lambda>c. if active_slot c then f c else {#}) (node_slots n)) else {#}) ns)"

lemma cpu_init_idem: "cpu_init (cpu_init c) = cpu_init c" by (simp add: cpu_init_def)

lemma cpu_init_flags [simp]:
  "cpu_hotremove (cpu_init c) = cpu_hotremove c" "cpu_hotadd (cpu_init c) = cpu_hotadd c"
  by (simp_all add: cpu_init_def)

lemma setup_init: "cpu_profiling_setup env (cpu_init c) k = cpu_profiling_setup env c k"
  by (simp add: cpu_profiling_setup_def cpu_init_idem)

lemma cpu_visit_init:
  "cpu_visit (Some (cpu_profiling_setup env)) err None (init_slot c) k =
   cpu_visit (Some (cpu_profiling_setup env)) err None c k"
  by (auto simp: init_slot_def active_slot_def idle_slot_def cpu_visit_def setup_init)

lemma cpus_visit_init:
  "cpus_visit (Some (cpu_profiling_setup env)) err None cs k = Some (cs1, k1, 0) \<Longrightarrow>
   cpus_visit (Some (cpu_profiling_setup env)) err None (map init_slot cs) k = Some (cs1, k1, 0)"
  by (induction cs arbitrary: k cs1) (auto simp: cpu_visit_init split: bind_splits if_splits)

lemma nodes_visit_init:
  "nodes_visit (Some (cpu_profiling_setup env)) err None ns k = Some (ns1, k1, 0) \<Longrightarrow>
   nodes_visit (Some (cpu_profiling_setup env)) err None (init_nodes ns) k = Some (ns1, k1, 0)"
proof (induction ns arbitrary: k ns1)
  case (Cons n ns)
  show ?case
  proof (cases "NODE_VALID n")
    case False
    then show ?thesis using Cons by (auto simp: init_nodes_def split: bind_splits)
  next
    case True
    then obtain cs cs1 k2 where v: "n_cpus n = Some cs"
      "cpus_visit (Some (cpu_profiling_setup env)) err None cs k = Some (cs1, k2, 0)"
      using Cons.prems by (auto simp: Let_def split: bind_splits if_splits)
    then show ?thesis
      using Cons True cpus_visit_init [OF v(2)] by (auto simp: init_nodes_def Let_def NODE_VALID_def split: bind_splits if_splits)
  qed
qed (simp add: init_nodes_def)

lemma node_slots_init [simp]:
  "node_slots (n\<lparr>n_cpus := map_option (map init_slot) (n_cpus n)\<rparr>) = map init_slot (node_slots n)"
  by (simp add: node_slots_def split: option.splits)

lemma lost_slots:
  assumes "\<And>c. f (cpu_init c) = {#}"
  shows "sum_list (map f (all_slots ns)) = sum_list (map f (all_slots (init_nodes ns))) + lost f ns"
proof -
  have sl: "sum_list (map f cs) = sum_list (map f (map init_slot cs)) + sum_list (map (\<lambda>c. if active_slot c then f c else {#}) cs)" for cs
    using assms by (induction cs) (auto simp: init_slot_def)
  show ?thesis
  proof (induction ns)
    case (Cons n ns)
    then show ?case
      using sl [of "node_slots n"] by (auto simp: init_nodes_def lost_def)
  qed (simp add: init_nodes_def lost_def)
qed

lemma lost_in:
  assumes "n \<in> set ns" "NODE_VALID n" "c \<in> set (node_slots n)" "active_slot c" "x \<in># f c"
  shows "x \<in># lost f ns"
proof -
  have "f c \<in> set (map (\<lambda>c. if active_slot c then f c else {#}) (node_slots n))" using assms(3,4) by force
  then have "x \<in># sum_list (map (\<lambda>c. if active_slot c then f c else {#}) (node_slots n))"
    using assms(5) by (induction "node_slots n") auto
  then show ?thesis using assms(1,2) by (induction ns) (auto simp: lost_def)
qed


lemma setup_walk_forgets:
  assumes "pf_fresh (te_pf env)" "held_by (all_slots (thr_nodes_of st)) A B (th_kern st)"
    and "thr_cpu_traverse (Some (lift_op (cpu_profiling_setup (te_pf env)))) True None st = Some (st1, 0)"
  shows "held_by (all_slots (thr_nodes_of st1)) (lost fdm (thr_nodes_of st) + A) (lost mpm (thr_nodes_of st) + B) (th_kern st1)"
proof -
  let ?ns = "thr_nodes_of st" and ?op = "cpu_profiling_setup (te_pf env)"
  obtain ns1 k1 where v: "nodes_visit (Some ?op) True None ?ns (th_kern st) = Some (ns1, k1, 0)"
    "thr_nodes_of st1 = ns1" "th_kern st1 = k1"
    using assms(3) thr_cpu_traverse_eq [where f = "Some ?op" and err = True and h = None and st = st]
    by (auto simp: node_cpu_traverse_def split: bind_splits)
  have h: "held_by (all_slots (init_nodes ?ns)) (lost fdm ?ns + A) (lost mpm ?ns + B) (th_kern st)"
    using assms(2) lost_slots [of fdm ?ns] lost_slots [of mpm ?ns] by (simp add: held_by_def ac_simps)
  have sl: "holds_none (init_slot c)" if "\<not> cpu_hotremove (init_slot c)" "\<not> idle_slot (init_slot c)" for c
    using that by (simp add: init_slot_def active_slot_def holds_none_def split: if_splits)
  have "\<forall>n \<in> set (init_nodes ?ns). NODE_VALID n \<longrightarrow>
      (\<forall>c \<in> set (node_slots n). \<not> cpu_hotremove c \<and> \<not> idle_slot c \<longrightarrow> holds_none c)"
    using sl by (auto simp: init_nodes_def split: if_splits)
  then show ?thesis
    using res_op.nodes_visit_op [OF setup_op [OF assms(1)] h _ nodes_visit_init [OF v(1)]] v(2,3) by simp
qed

text \<open>
  A stop that stops nothing.  After several counters were paused at once, or
  after a start of latency sampling, of cache or of uncore monitoring has
  failed, os_allstop finds nothing to stop although the counters of the
  processors are open.  If counting then starts anew, setting the slots up
  overwrites the descriptors they hold: each of them is still open and in no
  slot any more, so that nothing can ever close it.
\<close>

theorem restart_forgets_descriptors:
  assumes "pc_status (th_ctl st) \<in> {PERF_STATUS_PROFILING_MULTI_STARTED, PERF_STATUS_LL_FAILED,
      PERF_STATUS_PQOS_CMT_FAILED, PERF_STATUS_UNCORE_FAILED}"
    and "pf_fresh (te_pf env)" "held_by (all_slots (thr_nodes_of st)) A B (th_kern st)"
    and "n \<in> set (thr_nodes_of st)" "NODE_VALID n" "c \<in> set (node_slots n)" "active_slot c" "fd \<in># fdm c"
    and "os_profiling_start env st = Some (st1, 0)"
  shows "os_allstop env st = Some st \<and> fd \<in> k_fds (th_kern st1) \<and>
     (\<forall>c1 \<in> set (all_slots (thr_nodes_of st1)). fd \<notin># fdm c1)"
proof -
  have stop: "os_allstop env st = Some st" "\<not> perf_profiling_started (th_ctl st)"
    using assms(1) by (auto simp: os_allstop_def perf_profiling_started_def os_profiling_started_def perf_ll_started_def
        perf_pqos_cmt_started_def perf_uncore_started_def)
  obtain z st3 where ps: "profiling_start env (set_ps st z) = Some (st3, 0)"
    and st3: "thr_nodes_of st1 = thr_nodes_of st3" "th_kern st1 = th_kern st3"
    using assms(9) stop by (auto simp: os_profiling_start_def on_ps_def set_status_def split: bind_splits if_splits)
  define st2 where "st2 = set_ps st z"
  have st2: "thr_nodes_of st2 = thr_nodes_of st" "th_kern st2 = th_kern st" by (simp_all add: st2_def)
  obtain st4 st5 st6 where
    w: "thr_cpu_traverse (Some (lift_op (cpu_profiling_setup (te_pf env)))) True None st2 = Some (st4, 0)"
      "profiling_pause env st4 = Some st5"
      "thr_cpu_traverse (Some (lift_op (cpu_profiling_start (te_pf env)))) True None st5 = Some (st6, 0)"
      "st3 = stamp env st6"
    using ps [folded st2_def] by (auto simp: profiling_start_def split: bind_splits if_splits)
  let ?A = "lost fdm (thr_nodes_of st) + A" and ?B = "lost mpm (thr_nodes_of st) + B"
  have "held_by (all_slots (thr_nodes_of st4)) ?A ?B (th_kern st4)"
    using setup_walk_forgets [OF assms(2) _ w(1)] assms(3) st2 by simp
  moreover obtain r5 where "thr_cpu_traverse (Some (lift_op (cpu_profiling_stop (te_pf env)))) False None st4 = Some (st5, r5)"
    using w(2) by (auto simp: profiling_pause_def walk_all_def)
  ultimately have "held_by (all_slots (thr_nodes_of st5)) ?A ?B (th_kern st5)"
    using stop_op.traverse_held by blast
  then have "held_by (all_slots (thr_nodes_of st6)) ?A ?B (th_kern st6)"
    using start_op.traverse_held w(3) by blast
  then have h: "held_by (all_slots (thr_nodes_of st1)) ?A ?B (th_kern st1)"
    using st3 w(4) by (simp add: stamp_def clock_def)
  have "fd \<in># lost fdm (thr_nodes_of st)" by (rule lost_in [OF assms(4-7)]) (rule assms(8))
  then have in1: "fd \<in># ?A" by simp
  have fin: "finite (k_fds (th_kern st1))" and eq: "mset_set (k_fds (th_kern st1)) = sum_list (map fdm (all_slots (thr_nodes_of st1))) + ?A"
    using h by (simp_all add: held_by_def fin_kern_def fdk_def)
  have "fd \<in># mset_set (k_fds (th_kern st1))" using in1 unfolding eq by simp
  then have k: "fd \<in> k_fds (th_kern st1)" using fin by simp
  have one: "count (sum_list (map fdm (all_slots (thr_nodes_of st1)))) fd + count ?A fd = 1"
    using k fin eq by (metis count_mset_set(1) count_union)
  have "1 \<le> count ?A fd" using in1 by (simp only: count_greater_eq_one_iff)
  then have "count (sum_list (map fdm (all_slots (thr_nodes_of st1)))) fd = 0" using one by simp
  then have "fd \<notin># fdm c1" if "c1 \<in> set (all_slots (thr_nodes_of st1))" for c1
    using that by (induction "all_slots (thr_nodes_of st1)") (auto simp: count_eq_zero_iff)
  then show ?thesis using stop(1) k by blast
qed


section \<open>Concrete runs\<close>

definition counting_demo :: "perf_status \<Rightarrow> perf_thr" where
  "counting_demo s = thr_demo\<lparr>th_ctl := (th_ctl thr_demo)\<lparr>pc_status := s\<rparr>, th_kern := kern_run_demo,
     th_ps := pstate_empty,
     th_ng := group_demo\<lparr>ng_nodes := [node_zero\<lparr>n_cpus := Some [cpu_demo, (cpu_init perf_cpu_zero)\<lparr>cpu_cpuid := -1\<rparr>]\<rparr>]\<rparr>\<rparr>"

lemma counting_demo_slots:
  "thr_nodes_of (counting_demo s) = [node_zero\<lparr>n_cpus := Some [cpu_demo, (cpu_init perf_cpu_zero)\<lparr>cpu_cpuid := -1\<rparr>]\<rparr>]"
  "all_slots (thr_nodes_of (counting_demo s)) = [cpu_demo, (cpu_init perf_cpu_zero)\<lparr>cpu_cpuid := -1\<rparr>]"
  by (simp_all add: counting_demo_def node_slots_def)

lemma cpu_demo_holds: "fdm cpu_demo = {#3, 4, 5, 6, 8#}" "mpm cpu_demo = {#7#}"
  by (simp_all add: fdm_def mpm_def cpu_demo_def counter_ids_def INVALID_FD_def)

lemma counting_demo_ok:
  "arrays_ok (thr_nodes_of (counting_demo s))" "parked (thr_nodes_of (counting_demo s))"
  "held_by (all_slots (thr_nodes_of (counting_demo s))) {#} {#} (th_kern (counting_demo s))"
  by (simp_all add: counting_demo_slots arrays_ok_def parked_def node_slots_def idle_slot_def holds_none_def
      held_by_def cpu_demo_holds fin_kern_def fdk_def mpk_def)
    (simp_all add: counting_demo_def kern_run_demo_def node_zero_def perf_cpu_zero_def cpu_demo_def cpu_init_def INVALID_CPUID_def
      NODE_VALID_def INVALID_NID_def)


lemma demo_setup:
  "\<exists>c1 k1. cpu_profiling_setup (pf_demo (\<lambda>_. True) (\<lambda>_. 0)) cpu_demo kern_run_demo = Some (c1, k1, 0)"
  by (simp add: cpu_profiling_setup_def counter_ids_def pf_demo_def INVALID_CONFIG_def pf_profiling_setup_def
      pf_event_open_def next_free_def pf_mmap_def do_ioctl_def kern_run_demo_def cpu_demo_def cpu_init_def Let_def)


text \<open>An operation whose result is always 0 never ends a walk early.\<close>

lemma cpus_visit_zero:
  assumes "\<forall>c k c1 k1 r. op c k = Some (c1, k1, r) \<longrightarrow> r = 0" "cpus_visit (Some op) err None cs k = Some (cs1, k1, r)"
  shows "r = 0"
  using assms(2)
  by (induction cs arbitrary: k cs1) (use assms(1) in \<open>auto simp: cpu_visit_def split: bind_splits if_splits prod.splits\<close>)

lemma nodes_visit_zero:
  assumes "\<forall>c k c1 k1 r. op c k = Some (c1, k1, r) \<longrightarrow> r = 0" "nodes_visit (Some op) err None ns k = Some (ns1, k1, r)"
  shows "r = 0"
  using assms(2)
proof (induction ns arbitrary: k ns1)
  case (Cons n ns)
  then show ?case using cpus_visit_zero [OF assms(1)] by (auto simp: Let_def split: bind_splits if_splits)
qed simp

lemma traverse_zero:
  assumes "op_total op" "\<forall>c k c1 k1 r. op c k = Some (c1, k1, r) \<longrightarrow> r = 0" "arrays_ok (thr_nodes_of st)"
  obtains st1 where "thr_cpu_traverse (Some (lift_op op)) err None st = Some (st1, 0)" "arrays_ok (thr_nodes_of st1)"
proof -
  obtain ns1 k1 r where v: "nodes_visit (Some op) err None (thr_nodes_of st) (th_kern st) = Some (ns1, k1, r)" "arrays_ok ns1"
    using nodes_visit_total [OF assms(1,3), of err "th_kern st"] by blast
  have "r = 0" by (rule nodes_visit_zero [OF assms(2) v(1)])
  then show ?thesis
    using that v thr_cpu_traverse_eq [where f = "Some op" and err = err and h = None and st = st]
    by (simp add: node_cpu_traverse_def)
qed

lemma switch_ops_zero:
  "\<forall>c k c1 k1 r. cpu_profiling_stop env c k = Some (c1, k1, r) \<longrightarrow> r = 0"
  "\<forall>c k c1 k1 r. cpu_profiling_start env c k = Some (c1, k1, r) \<longrightarrow> r = 0"
  by (auto simp: cpu_profiling_stop_def cpu_profiling_start_def split: prod.splits)

lemma profiling_start_runs:
  assumes "thr_cpu_traverse (Some (lift_op (cpu_profiling_setup (te_pf env)))) True None st = Some (st1, 0)"
    and "arrays_ok (thr_nodes_of st1)"
  shows "\<exists>st2. profiling_start env st = Some (st2, 0)"
proof -
  obtain st2 where st2: "thr_cpu_traverse (Some (lift_op (cpu_profiling_stop (te_pf env)))) False None st1 = Some (st2, 0)"
    "arrays_ok (thr_nodes_of st2)" by (rule traverse_zero [OF ops_total(1) switch_ops_zero(1) assms(2)])
  obtain st3 where "thr_cpu_traverse (Some (lift_op (cpu_profiling_start (te_pf env)))) True None st2 = Some (st3, 0)"
    by (rule traverse_zero [OF ops_total(2) switch_ops_zero(2) st2(2)])
  then show ?thesis using assms(1) st2(1) by (simp add: profiling_start_def profiling_pause_def walk_all_def)
qed

lemma demo_restarts:
  "\<exists>st1. os_profiling_start thr_env_demo (counting_demo PERF_STATUS_PROFILING_MULTI_STARTED) = Some (st1, 0)"
proof -
  let ?st = "counting_demo PERF_STATUS_PROFILING_MULTI_STARTED"
  have pf: "te_pf thr_env_demo = pf_demo (\<lambda>_. True) (\<lambda>_. 0)" by (simp add: thr_env_demo_def)
  obtain c1 k1 where c1: "cpu_profiling_setup (te_pf thr_env_demo) cpu_demo kern_run_demo = Some (c1, k1, 0)"
    using demo_setup pf by auto
  have fl: "cpu_valid cpu_demo" "\<not> cpu_hotadd cpu_demo" "\<not> cpu_hotremove cpu_demo"
    by (simp_all add: cpu_demo_def perf_cpu_zero_def INVALID_CPUID_def)
  have v: "cpu_visit (Some (cpu_profiling_setup (te_pf thr_env_demo))) True None cpu_demo kern_run_demo = Some (c1, k1, 0)"
    using c1 fl by (simp add: cpu_visit_def)
  have "proc_traverse ll_clear pstate_empty = visits ll_clear (concat (replicate PROC_HASHTBL_SIZE [])) pstate_empty"
    by (rule proc_traverse_visits [where J = "\<lambda>s. s = pstate_empty"])
      (use tbl_ok_empty in \<open>auto simp: tbl_ok_def pstate_empty_def proc_group_init_def\<close>)
  then have ll: "proc_ll_clear None (th_ps ?st) = Some (th_ps ?st)" by (simp add: proc_ll_clear_def counting_demo_def)
  obtain ns1 where t: "nodes_visit (Some (cpu_profiling_setup (te_pf thr_env_demo))) True None (thr_nodes_of ?st) (th_kern ?st)
      = Some (ns1, k1, 0)" "arrays_ok ns1"
    using v by (simp add: counting_demo_slots(1) NODE_VALID_def node_zero_def INVALID_NID_def cpu_visit_def cpu_init_def
        perf_cpu_zero_def INVALID_CPUID_def arrays_ok_def counting_demo_def Let_def)
  have "\<exists>st2. profiling_start thr_env_demo ?st = Some (st2, 0)"
    by (rule profiling_start_runs [where ?st1.0 = "thr_put ?st ns1 k1"])
      (use t thr_cpu_traverse_eq [where f = "Some (cpu_profiling_setup (te_pf thr_env_demo))" and err = True and h = None and st = ?st]
        in \<open>simp_all add: node_cpu_traverse_def\<close>)
  moreover have "os_allstop thr_env_demo ?st = Some ?st" "\<not> perf_profiling_started (th_ctl ?st)"
    by (simp_all add: os_allstop_def perf_profiling_started_def os_profiling_started_def perf_ll_started_def
        perf_pqos_cmt_started_def perf_uncore_started_def counting_demo_def)
  ultimately show ?thesis using ll by (auto simp: os_profiling_start_def on_ps_def)
qed

theorem restart_forgets_descriptors_witness:
  "\<exists>st1. os_profiling_start thr_env_demo (counting_demo PERF_STATUS_PROFILING_MULTI_STARTED) = Some (st1, 0) \<and>
     4 \<in> k_fds (th_kern st1) \<and> (\<forall>c1 \<in> set (all_slots (thr_nodes_of st1)). 4 \<notin># fdm c1)"
proof -
  let ?st = "counting_demo PERF_STATUS_PROFILING_MULTI_STARTED"
  obtain st1 where st1: "os_profiling_start thr_env_demo ?st = Some (st1, 0)" using demo_restarts by blast
  have "pc_status (th_ctl ?st) \<in> {PERF_STATUS_PROFILING_MULTI_STARTED, PERF_STATUS_LL_FAILED,
      PERF_STATUS_PQOS_CMT_FAILED, PERF_STATUS_UNCORE_FAILED}" by (simp add: counting_demo_def)
  moreover have "pf_fresh (te_pf thr_env_demo)" using pf_demo_fresh by (simp add: thr_env_demo_def)
  moreover let ?n = "node_zero\<lparr>n_cpus := Some [cpu_demo, (cpu_init perf_cpu_zero)\<lparr>cpu_cpuid := -1\<rparr>]\<rparr>"
  have "?n \<in> set (thr_nodes_of ?st)" "NODE_VALID ?n" "cpu_demo \<in> set (node_slots ?n)" "active_slot cpu_demo"
    by (simp_all add: counting_demo_slots(1) NODE_VALID_def node_zero_def INVALID_NID_def node_slots_def active_slot_def
        idle_slot_def cpu_demo_def perf_cpu_zero_def INVALID_CPUID_def)
  moreover have "4 \<in># fdm cpu_demo" by (simp add: cpu_demo_holds)
  ultimately show ?thesis
    using restart_forgets_descriptors [OF _ _ counting_demo_ok(3) _ _ _ _ _ st1] st1 by blast
qed

end
