(* ===== verification/ProcMap.thy ===== *)
theory ProcMap
  imports Util Clib
begin

text \<open>
  The address space of a tracked process (common/os/map.c): the entries of
  /proc/<pid>/maps with their attributes and names, the lookup of a buffer, the
  nodes the pages of a mapping lie on, and the distribution of accesses over
  the nodes.  The contents of the file, what malloc answers for a number of
  elements and the node of every page (numa_move_pages) are parameters.
\<close>

section \<open>Data\<close>

definition MAP_ENTRY_NUM :: int where "MAP_ENTRY_NUM = 64"
definition MAPFILE_LINE_SIZE :: nat where "MAPFILE_LINE_SIZE = 4096 + 1024"
definition PATH_MAX :: nat where "PATH_MAX = 4096"
definition NUMA_MOVE_NPAGES :: u32 where "NUMA_MOVE_NPAGES = 1024"

record numa_entry =
  ne_start_addr :: u64
  ne_end_addr :: u64
  ne_nid :: int

definition numa_entry_zero :: numa_entry where
  "numa_entry_zero = \<lparr>ne_start_addr = 0, ne_end_addr = 0, ne_nid = 0\<rparr>"

type_synonym numa_map = "numa_entry darr"

record map_entry =
  me_start_addr :: u64
  me_end_addr :: u64
  me_attr :: u32
  me_need_resolve :: bool
  me_numa_map :: numa_map
  me_desc :: string

definition map_entry_zero :: map_entry where
  "map_entry_zero = \<lparr>me_start_addr = 0, me_end_addr = 0, me_attr = 0, me_need_resolve = False,
     me_numa_map = darr_zero, me_desc = []\<rparr>"

text \<open>The sizes of map_entry_t and numa_entry_t on a 64-bit system.\<close>

definition map_entry_bytes :: int where "map_entry_bytes = 8 + 8 + 4 + 4 + 16 + int PATH_MAX"
definition numa_entry_bytes :: int where "numa_entry_bytes = 24"

record map_proc =
  mp_map :: "map_entry darr"
  mp_loaded :: bool

definition map_proc_zero :: map_proc where
  "map_proc_zero = \<lparr>mp_map = darr_zero, mp_loaded = False\<rparr>"

record map_nodedst =
  nd_naccess :: int
  nd_total_lat :: u32

text \<open>The attributes: bits for read, write and execute, and whether the mapping is shared.\<close>

definition MAP_R :: "u32 \<Rightarrow> bool" where "MAP_R attr = bit attr 3"
definition MAP_W :: "u32 \<Rightarrow> bool" where "MAP_W attr = bit attr 2"
definition MAP_X :: "u32 \<Rightarrow> bool" where "MAP_X attr = bit attr 1"
definition MAP_S :: "u32 \<Rightarrow> bool" where "MAP_S attr = bit attr 0"

section \<open>Buffers of characters\<close>

text \<open>
  A local array of characters: None is a byte that has not been written yet.
  Storing a string overwrites a prefix and leaves the rest as it was.
\<close>

type_synonym cbuf = "char option list"

definition buf_store :: "string \<Rightarrow> cbuf \<Rightarrow> cbuf" where
  "buf_store s b = map Some (s @ [CHR 0x00]) @ drop (length s + 1) b"

fun buf_str :: "cbuf \<Rightarrow> string option" where
  "buf_str [] = None"
| "buf_str (None # b) = None"
| "buf_str (Some c # b) = (if c = CHR 0x00 then Some [] else map_option (Cons c) (buf_str b))"

definition buf_char :: "cbuf \<Rightarrow> nat \<Rightarrow> char option" where
  "buf_char b i = (if i < length b then b ! i else None)"

section \<open>Reading a line of the file\<close>

text \<open>
  sscanf with conversions of the form %n[set], separated by blanks: the strings
  that were converted, until the first conversion that matches nothing.
\<close>

fun scan_sets :: "(nat \<times> (char \<Rightarrow> bool)) list \<Rightarrow> string \<Rightarrow> string list" where
  "scan_sets [] s = []"
| "scan_sets ((n, P) # cs) s =
     (let t = take n (takeWhile P s)
      in if t = [] then [] else t # scan_sets cs (dropWhile c_isspace (drop (length t) s)))"

definition maps_format :: "(nat \<times> (char \<Rightarrow> bool)) list" where
  "maps_format = replicate 5 (127, \<lambda>c. c \<noteq> CHR '' '') @ [(2047, \<lambda>c. c \<noteq> CHR 0x0A)]"

text \<open>sscanf(addr_str, "%63[^-]", s1) and sscanf(addr_str, "%*[^-]-%63s", s2).\<close>

definition scan_start :: "string \<Rightarrow> string option" where
  "scan_start str =
     (let t = takeWhile (\<lambda>c. c \<noteq> CHR ''-'') str in if t = [] then None else Some (take 63 t))"

definition scan_end :: "string \<Rightarrow> string option" where
  "scan_end str =
     (let t = takeWhile (\<lambda>c. c \<noteq> CHR ''-'') str; r = dropWhile (\<lambda>c. c \<noteq> CHR ''-'') str
      in if t = [] \<or> r = [] then None
         else let w = takeWhile (\<lambda>c. \<not> c_isspace c) (dropWhile c_isspace (tl r))
              in if w = [] then None else Some (take 63 w))"

text \<open>strtoull in base 16: blanks, a sign, the prefix 0x, digits; clamped, then negated.\<close>

definition xdigit_val :: "char \<Rightarrow> nat option" where
  "xdigit_val c =
     (if CHR ''0'' \<le> c \<and> c \<le> CHR ''9'' then Some (of_char c - 48)
      else if CHR ''a'' \<le> c \<and> c \<le> CHR ''f'' then Some (of_char c - 87)
      else if CHR ''A'' \<le> c \<and> c \<le> CHR ''F'' then Some (of_char c - 55)
      else None)"

fun xdigits :: "nat \<Rightarrow> string \<Rightarrow> nat" where
  "xdigits v [] = v"
| "xdigits v (c # s) = (case xdigit_val c of None \<Rightarrow> v | Some d \<Rightarrow> xdigits (16 * v + d) s)"

definition skip_0x :: "string \<Rightarrow> string" where
  "skip_0x s =
     (case s of
        a # b # c # r \<Rightarrow>
          if a = CHR ''0'' \<and> (b = CHR ''x'' \<or> b = CHR ''X'') \<and> xdigit_val c \<noteq> None then c # r else s
      | _ \<Rightarrow> s)"

definition strtoull16 :: "string \<Rightarrow> u64" where
  "strtoull16 str =
     (let s1 = dropWhile c_isspace str;
          neg = (s1 \<noteq> [] \<and> hd s1 = CHR ''-'');
          s2 = (if s1 \<noteq> [] \<and> (hd s1 = CHR ''-'' \<or> hd s1 = CHR ''+'') then tl s1 else s1);
          v = xdigits 0 (skip_0x s2)
      in if v \<ge> 2 ^ 64 then - 1
         else if neg then - of_nat v else of_nat v)"

text \<open>attr_bitmap reads four characters of the buffer.\<close>

definition attr_bitmap :: "cbuf \<Rightarrow> u32 option" where
  "attr_bitmap attr_str =
     do {
       c0 \<leftarrow> buf_char attr_str 0;
       c1 \<leftarrow> buf_char attr_str 1;
       c2 \<leftarrow> buf_char attr_str 2;
       c3 \<leftarrow> buf_char attr_str 3;
       let b = 0;
       let b = (if c0 = CHR ''r'' then set_bit 3 b else b);
       let b = (if c1 = CHR ''w'' then set_bit 2 b else b);
       let b = (if c2 = CHR ''x'' then set_bit 1 b else b);
       Some (if c3 = CHR ''p'' then unset_bit 0 b else if c3 = CHR ''s'' then set_bit 0 b else b)
     }"

section \<open>The table of mappings\<close>

definition map_entry_add ::
  "(int \<Rightarrow> bool) \<Rightarrow> map_entry darr \<Rightarrow> u64 \<Rightarrow> u64 \<Rightarrow> u32 \<Rightarrow> string \<Rightarrow> (map_entry darr \<times> int) option" where
  "map_entry_add ok mp start_addr end_addr attr path =
     array_push ok map_entry_bytes MAP_ENTRY_NUM map_entry_zero
       \<lparr>me_start_addr = start_addr, me_end_addr = end_addr, me_attr = attr, me_need_resolve = True,
        me_numa_map = darr_zero,
        me_desc = (if length path > 0 then take (PATH_MAX - 1) path else [])\<rparr> mp"

definition numa_map_fini :: "map_entry \<Rightarrow> map_entry" where
  "numa_map_fini entry = entry\<lparr>me_numa_map := darr_zero\<rparr>"

definition map_free :: "map_proc \<Rightarrow> map_proc" where
  "map_free mp = (if da_arr (mp_map mp) = None then mp else map_proc_zero)"

text \<open>
  The six local buffers in the order of the format (the first five hold 128
  bytes, the path 8192); a conversion that is not reached leaves its buffer as
  the line before left it.
\<close>

definition store_all :: "string list \<Rightarrow> cbuf list \<Rightarrow> cbuf list" where
  "store_all ts bufs = map (\<lambda>(t, b). buf_store t b) (zip ts bufs) @ drop (length ts) bufs"

definition map_bufs :: "cbuf list" where
  "map_bufs = replicate 5 (replicate 128 None) @ [replicate (2 * PATH_MAX) None]"

text \<open>One turn of the loop: the buffers and the entry of the line, None to leave for L_EXIT.\<close>

definition map_line :: "string \<Rightarrow> cbuf list \<Rightarrow> (cbuf list \<times> (u64 \<times> u64 \<times> u32 \<times> string) option) option" where
  "map_line line bufs =
     (let ts = scan_sets maps_format (cstr line); bufs1 = store_all ts bufs in
      if cstr line = [] then Some (bufs1, None)
      else do {
        addr_str \<leftarrow> buf_str (bufs1 ! 0);
        (case (scan_start addr_str, scan_end addr_str) of
           (Some s1, Some s2) \<Rightarrow>
             do {
               attr \<leftarrow> attr_bitmap (bufs1 ! 1);
               let bufs2 = (if length ts \<noteq> 6 then bufs1[5 := buf_store [] (bufs1 ! 5)] else bufs1);
               path_str \<leftarrow> buf_str (bufs2 ! 5);
               Some (bufs2, Some (strtoull16 s1, strtoull16 s2, attr, path_str))
             }
         | _ \<Rightarrow> Some (bufs1, None))
      })"

lemma fgets_drop_shorter:
  assumes "s \<noteq> []"
  shows "length (drop (length (fgets MAPFILE_LINE_SIZE s)) s) < length s"
proof -
  have "fgets MAPFILE_LINE_SIZE s \<noteq> []" using assms by (cases s) (simp_all add: fgets_def Let_def MAPFILE_LINE_SIZE_def)
  then have "0 < length (fgets MAPFILE_LINE_SIZE s)" by simp
  then show ?thesis using assms by (cases s) simp_all
qed

text \<open>The loop over the lines: the table, the number of entries added, and whether the end was reached.\<close>

function map_read_loop ::
  "(int \<Rightarrow> bool) \<Rightarrow> string \<Rightarrow> cbuf list \<Rightarrow> map_entry darr \<Rightarrow> nat \<Rightarrow> (map_entry darr \<times> nat \<times> bool) option" where
  "map_read_loop ok fp bufs d nadded =
     (if fp = [] then Some (d, nadded, True)
      else
        let line = fgets MAPFILE_LINE_SIZE fp in
        (case map_line line bufs of
           None \<Rightarrow> None
         | Some (bufs1, None) \<Rightarrow> Some (d, nadded, False)
         | Some (bufs1, Some (start_addr, end_addr, attr, path)) \<Rightarrow>
             (case map_entry_add ok d start_addr end_addr attr path of
                None \<Rightarrow> None
              | Some (d1, r) \<Rightarrow>
                  if r \<noteq> 0 then Some (d1, nadded, False)
                  else map_read_loop ok (drop (length line) fp) bufs1 d1 (nadded + 1))))"
  by pat_completeness auto

termination
  by (relation "measure (\<lambda>(_, fp, _, _, _). length fp)") (simp_all only: wf_measure in_measure case_prod_conv fgets_drop_shorter not_False_eq_True)

declare map_read_loop.simps [simp del]

definition map_read :: "(int \<Rightarrow> bool) \<Rightarrow> string option \<Rightarrow> (map_proc \<times> int) option" where
  "map_read ok file =
     (case file of
        None \<Rightarrow> Some (map_proc_zero, -1)
      | Some fp \<Rightarrow>
          do {
            (d, nadded, eof) \<leftarrow> map_read_loop ok fp map_bufs darr_zero 0;
            let mp = map_proc_zero\<lparr>mp_map := d\<rparr>;
            Some (if eof \<and> nadded > 0 then (mp\<lparr>mp_loaded := True\<rparr>, 0)
                  else (if nadded > 0 then map_free mp else mp, -1))
          })"

text \<open>The lookup of a buffer: the index of the mapping that is exactly the buffer.\<close>

definition entryaddr_cmp :: "u64 \<Rightarrow> map_entry \<Rightarrow> int" where
  "entryaddr_cmp addr entry =
     (if addr < me_start_addr entry then -1 else if addr \<ge> me_end_addr entry then 1 else 0)"

definition map_entry_find :: "map_proc \<Rightarrow> u64 \<Rightarrow> u64 \<Rightarrow> nat option option" where
  "map_entry_find mp addr sz =
     do {
       arr \<leftarrow> (case da_arr (mp_map mp) of
                None \<Rightarrow> if da_cur (mp_map mp) > 0 then None else Some []
              | Some arr \<Rightarrow> if da_cur (mp_map mp) \<le> int (length arr) then Some (take (nat (da_cur (mp_map mp))) arr)
                            else None);
       r \<leftarrow> bsearch (\<lambda>e. Some (entryaddr_cmp addr e)) arr;
       Some (case r of
               None \<Rightarrow> None
             | Some i \<Rightarrow> if me_start_addr (arr ! i) = addr \<and> me_end_addr (arr ! i) = addr + sz
                         then Some i else None)
     }"

fun keep_need_resolve :: "map_proc \<Rightarrow> map_entry list \<Rightarrow> map_entry list option" where
  "keep_need_resolve old [] = Some []"
| "keep_need_resolve old (e # es) =
     do {
       r \<leftarrow> map_entry_find old (me_start_addr e) (me_end_addr e - me_start_addr e);
       nr \<leftarrow> (case r of
               None \<Rightarrow> Some True
             | Some i \<Rightarrow> do { arr \<leftarrow> da_arr (mp_map old); Some (me_need_resolve (arr ! i)) });
       es1 \<leftarrow> keep_need_resolve old es;
       Some (e\<lparr>me_need_resolve := nr\<rparr> # es1)
     }"

text \<open>map_proc_load: the result is the table of the process and the return value.\<close>

definition map_proc_load :: "(int \<Rightarrow> bool) \<Rightarrow> string option \<Rightarrow> map_proc \<Rightarrow> (map_proc \<times> int) option" where
  "map_proc_load ok file mp =
     (if \<not> mp_loaded mp then
        do {
          (mp1, r) \<leftarrow> map_read ok file;
          Some (mp1, if r \<noteq> 0 then -1 else 0)
        }
      else
        do {
          (new_map, r) \<leftarrow> map_read ok file;
          if r \<noteq> 0 then Some (mp, -1)
          else do {
            arr \<leftarrow> da_arr (mp_map new_map);
            es \<leftarrow> keep_need_resolve mp (take (nat (da_cur (mp_map new_map))) arr);
            Some (new_map\<lparr>mp_map := (mp_map new_map)\<lparr>da_arr := Some (es @ drop (length es) arr)\<rparr>\<rparr>, 0)
          }
        })"

definition map_proc_fini :: "map_proc \<Rightarrow> map_proc" where
  "map_proc_fini mp = map_free mp"

section \<open>The nodes of the pages of a mapping\<close>

text \<open>
  numa_entry_add: pg is the size of a page.  The entry added last is the one the
  pointer entry of the callers refers to, so that an index stands for it.
\<close>

definition numa_entry_add :: "(int \<Rightarrow> bool) \<Rightarrow> u64 \<Rightarrow> numa_map \<Rightarrow> u64 \<Rightarrow> int \<Rightarrow> (numa_map \<times> int option) option" where
  "numa_entry_add ok pg nm addr nid =
     do {
       (nm1, r) \<leftarrow> array_push ok numa_entry_bytes MAP_ENTRY_NUM numa_entry_zero
         \<lparr>ne_start_addr = addr, ne_end_addr = addr + pg, ne_nid = nid\<rparr> nm;
       Some (nm1, if r \<noteq> 0 then None else Some (da_cur nm1 - 1))
     }"

text \<open>The loop over the pages; the list holds the address and the node of each.\<close>

fun numa_map_pages ::
  "(int \<Rightarrow> bool) \<Rightarrow> u64 \<Rightarrow> numa_map \<Rightarrow> int \<Rightarrow> (u64 \<times> int) list \<Rightarrow> (numa_map \<times> int option) option" where
  "numa_map_pages ok pg nm entry [] = Some (nm, Some entry)"
| "numa_map_pages ok pg nm entry ((addr, nid) # ps) =
     do {
       arr \<leftarrow> da_arr nm;
       e \<leftarrow> arr_get arr entry;
       if ne_nid e = nid \<and> ne_end_addr e = addr then
         do {
           arr1 \<leftarrow> arr_set arr entry (e\<lparr>ne_end_addr := ne_end_addr e + pg\<rparr>);
           numa_map_pages ok pg (nm\<lparr>da_arr := Some arr1\<rparr>) entry ps
         }
       else
         do {
           (nm1, r) \<leftarrow> numa_entry_add ok pg nm addr nid;
           (case r of None \<Rightarrow> Some (nm1, None) | Some entry1 \<Rightarrow> numa_map_pages ok pg nm1 entry1 ps)
         }
     }"

text \<open>Without an entry yet, the first page makes one; reading the first of no pages is outside the array.\<close>

definition numa_map_update ::
  "(int \<Rightarrow> bool) \<Rightarrow> u64 \<Rightarrow> numa_map \<Rightarrow> (u64 \<times> int) list \<Rightarrow> int option \<Rightarrow> (numa_map \<times> int option) option" where
  "numa_map_update ok pg nm pages last_entry =
     (case last_entry of
        Some entry \<Rightarrow> numa_map_pages ok pg nm entry pages
      | None \<Rightarrow>
          (case pages of
             [] \<Rightarrow> None
           | (addr, nid) # ps \<Rightarrow>
               do {
                 (nm1, r) \<leftarrow> numa_entry_add ok pg nm addr nid;
                 (case r of None \<Rightarrow> Some (nm1, None) | Some entry \<Rightarrow> numa_map_pages ok pg nm1 entry ps)
               }))"

text \<open>
  The addresses of the pages asked for in one turn: the index times the page
  size (an int) is computed in 32 bits.
\<close>

definition page_addrs :: "u64 \<Rightarrow> u32 \<Rightarrow> u32 \<Rightarrow> u32 \<Rightarrow> u64 list" where
  "page_addrs start_addr pgsize npages_moved npages_tomove =
     map (\<lambda>i. start_addr + ucast ((of_nat i + npages_moved) * pgsize)) [0..<unat npages_tomove]"

lemma moved_less:
  fixes m t :: u32
  assumes "m < t"
  shows "unat (m + min NUMA_MOVE_NPAGES (t - m)) = unat m + unat (min NUMA_MOVE_NPAGES (t - m))"
    and "0 < unat (min NUMA_MOVE_NPAGES (t - m))"
    and "unat m + unat (min NUMA_MOVE_NPAGES (t - m)) \<le> unat t"
    and "unat (min NUMA_MOVE_NPAGES (t - m)) = min 1024 (unat t - unat m)"
proof -
  have d: "unat (t - m) = unat t - unat m" using assms by (simp add: unat_sub less_imp_le)
  show u: "unat (min NUMA_MOVE_NPAGES (t - m)) = min 1024 (unat t - unat m)"
    using d by (simp add: NUMA_MOVE_NPAGES_def min_def word_le_nat_alt)
  have l: "unat m < unat t" using assms by (simp add: word_less_nat_alt)
  show "0 < unat (min NUMA_MOVE_NPAGES (t - m))" using u l by simp
  show le: "unat m + unat (min NUMA_MOVE_NPAGES (t - m)) \<le> unat t" using u l by simp
  have "unat t < 2 ^ 32" using unsigned_less [of t] by simp
  then show "unat (m + min NUMA_MOVE_NPAGES (t - m)) = unat m + unat (min NUMA_MOVE_NPAGES (t - m))"
    using le by (simp add: unat_word_ariths)
qed

text \<open>
  map_map2numa: query tells for a list of page addresses the nodes numa_move_pages
  reports, or None when it fails; entries of node_arr it does not write are 0.
  The result is the entry and the return value.
\<close>

function map2numa_loop ::
  "(int \<Rightarrow> bool) \<Rightarrow> u32 \<Rightarrow> (u64 list \<Rightarrow> int list option) \<Rightarrow> u64 \<Rightarrow> u32 \<Rightarrow> u32 \<Rightarrow> numa_map \<Rightarrow> int option \<Rightarrow>
   (numa_map \<times> int) option" where
  "map2numa_loop ok pgsize query start_addr npages_total npages_moved nm last_entry =
     (if \<not> npages_moved < npages_total then Some (nm, 0)
      else
        let npages_tomove = min NUMA_MOVE_NPAGES (npages_total - npages_moved);
            addr_arr = page_addrs start_addr pgsize npages_moved npages_tomove
        in (case query addr_arr of
              None \<Rightarrow> Some (nm, -1)
            | Some nodes \<Rightarrow>
                (case numa_map_update ok (ucast pgsize) nm
                   (zip addr_arr (nodes @ replicate (length addr_arr) 0)) last_entry of
                   None \<Rightarrow> None
                 | Some (nm1, None) \<Rightarrow> Some (nm1, -1)
                 | Some (nm1, Some entry) \<Rightarrow>
                     map2numa_loop ok pgsize query start_addr npages_total
                       (npages_moved + npages_tomove) nm1 (Some entry))))"
  by pat_completeness auto

termination
proof (relation "measure (\<lambda>(_, _, _, _, npages_total, npages_moved, _, _). unat npages_total - unat npages_moved)")
  fix npages_total npages_moved x :: u32
  assume "\<not> \<not> npages_moved < npages_total" "x = min NUMA_MOVE_NPAGES (npages_total - npages_moved)"
  then have "unat (npages_moved + x) > unat npages_moved" "unat npages_moved < unat npages_total"
    using moved_less [of npages_moved npages_total] by (simp_all add: word_less_nat_alt)
  then show "((a, b, c, d, npages_total, npages_moved + x, e, f), (a, b, c, d, npages_total, npages_moved, g, h))
      \<in> measure (\<lambda>(_, _, _, _, npages_total, npages_moved, _, _). unat npages_total - unat npages_moved)"
    for a :: "int \<Rightarrow> bool" and b :: u32 and c :: "u64 list \<Rightarrow> int list option" and d :: u64
      and e f g h
    by simp
qed simp_all

declare map2numa_loop.simps [simp del]

definition map_map2numa ::
  "(int \<Rightarrow> bool) \<Rightarrow> u32 \<Rightarrow> (u64 list \<Rightarrow> int list option) \<Rightarrow> map_entry \<Rightarrow> (map_entry \<times> int) option" where
  "map_map2numa ok pgsize query map_entry =
     (let e = numa_map_fini map_entry;
          npages_total = ucast ((me_end_addr e - me_start_addr e) div ucast pgsize)
      in do {
           (nm, r) \<leftarrow> map2numa_loop ok pgsize query (me_start_addr e) npages_total 0 (me_numa_map e) None;
           Some (e\<lparr>me_numa_map := nm\<rparr>, r)
         })"

section \<open>The distribution of accesses over the nodes\<close>

text \<open>
  query is as above; node numbers outside the array of nodedst are skipped.
  The counts are ints: one more than the largest is undefined.
\<close>

definition inc_int :: "int \<Rightarrow> int option" where
  "inc_int v = (if v + 1 < 2 ^ 31 then Some (v + 1) else None)"

fun nodedst_loop ::
  "nat \<Rightarrow> (int \<times> int) list \<Rightarrow> map_nodedst list \<Rightarrow> int \<Rightarrow> (map_nodedst list \<times> int) option" where
  "nodedst_loop nnodes [] dst tot = Some (dst, tot)"
| "nodedst_loop nnodes ((nid, lat) # ps) dst tot =
     (if 0 \<le> nid \<and> nid < int nnodes then
        do {
          n \<leftarrow> arr_get dst nid;
          k \<leftarrow> inc_int (nd_naccess n);
          dst1 \<leftarrow> arr_set dst nid (n\<lparr>nd_naccess := k, nd_total_lat := nd_total_lat n + word_of_int lat\<rparr>);
          tot1 \<leftarrow> inc_int tot;
          nodedst_loop nnodes ps dst1 tot1
        }
      else nodedst_loop nnodes ps dst tot)"

text \<open>
  The result: the array, the value stored at naccess_total (None: not written)
  and the return value.  zalloc refuses an empty array.
\<close>

definition map_addr2nodedst ::
  "bool \<Rightarrow> (u64 list \<Rightarrow> int list option) \<Rightarrow> u64 list \<Rightarrow> int list \<Rightarrow> map_nodedst list \<Rightarrow> nat \<Rightarrow>
   (map_nodedst list \<times> int option \<times> int) option" where
  "map_addr2nodedst ok query addr_arr lat_arr nodedst_arr nnodes =
     (if addr_arr = [] \<or> \<not> ok then Some (nodedst_arr, None, -1)
      else
        (case query addr_arr of
           None \<Rightarrow> Some (nodedst_arr, None, -1)
         | Some st \<Rightarrow>
             if length lat_arr < length addr_arr then None
             else do {
               (dst, tot) \<leftarrow> nodedst_loop nnodes
                 (zip (take (length addr_arr) (st @ replicate (length addr_arr) 0)) lat_arr) nodedst_arr 0;
               Some (dst, Some tot, 0)
             }))"

end
