(* ===== verification/ProcMapUse.thy ===== *)
theory ProcMapUse
  imports ProcMap
begin

text \<open>
  Properties of the address space of a process: what the kernel prints into
  /proc/<pid>/maps is read back (map_read), the lookup finds a mapping exactly
  when it is in the table (map_entry_find), the nodes of a mapping are its pages
  grouped into runs (map_map2numa), up to 4 GB, and the distribution of accesses
  counts every address once (map_addr2nodedst).
\<close>

section \<open>Hexadecimal numbers\<close>

definition hex_digit :: "nat \<Rightarrow> char" where
  "hex_digit d = char_of (if d < 10 then 48 + d else 87 + d)"

fun hex_str :: "nat \<Rightarrow> string" where
  "hex_str n = (if n < 16 then [hex_digit n] else hex_str (n div 16) @ [hex_digit (n mod 16)])"

declare hex_str.simps [simp del]

text \<open>printf's %08lx.\<close>

definition hex_pad :: "nat \<Rightarrow> string" where
  "hex_pad n = replicate (8 - length (hex_str n)) CHR ''0'' @ hex_str n"

definition plain_char :: "char \<Rightarrow> bool" where
  "plain_char c \<longleftrightarrow> \<not> c_isspace c \<and> c \<noteq> CHR 0x00"

definition hex_char :: "char \<Rightarrow> bool" where
  "hex_char c \<longleftrightarrow> plain_char c \<and> c \<noteq> CHR ''-'' \<and> c \<noteq> CHR ''+'' \<and> c \<noteq> CHR ''x'' \<and> c \<noteq> CHR ''X'' \<and> xdigit_val c \<noteq> None"

lemma hex_digits_checked: "list_all (\<lambda>d. xdigit_val (hex_digit d) = Some d \<and> hex_char (hex_digit d)) [0..<16]"
  by code_simp

lemma hex_digit_facts: "d < 16 \<Longrightarrow> xdigit_val (hex_digit d) = Some d" "d < 16 \<Longrightarrow> hex_char (hex_digit d)"
  using hex_digits_checked by (auto simp: list_all_iff)

lemma hex_zero: "hex_char CHR ''0''" "xdigit_val CHR ''0'' = Some 0"
  by code_simp+

lemma plain_not: "plain_char c \<Longrightarrow> c \<noteq> CHR '' '' \<and> c \<noteq> CHR 0x0A \<and> c \<noteq> CHR 0x00 \<and> \<not> c_isspace c"
  by (auto simp: plain_char_def c_isspace_def)

lemma hex_str_chars: "c \<in> set (hex_str n) \<Longrightarrow> hex_char c"
  by (induction n rule: hex_str.induct) (subst (asm) (2) hex_str.simps, auto simp: hex_digit_facts split: if_splits)

lemma hex_pad_chars: "c \<in> set (hex_pad n) \<Longrightarrow> hex_char c"
  using hex_str_chars hex_zero by (auto simp: hex_pad_def)

lemma hex_str_nonempty: "hex_str n \<noteq> []"
  by (subst hex_str.simps) simp

lemma xdigits_append:
  "(\<And>c. c \<in> set s \<Longrightarrow> hex_char c) \<Longrightarrow> xdigits v (s @ t) = xdigits (xdigits v s) t"
proof (induction s arbitrary: v)
  case (Cons a s)
  obtain d where "xdigit_val a = Some d" using Cons.prems [of a] by (auto simp: hex_char_def)
  then show ?case using Cons by simp
qed simp

lemma xdigits_hex_str: "xdigits 0 (hex_str n) = n"
proof (induction n rule: hex_str.induct)
  case (1 n)
  show ?case
  proof (cases "n < 16")
    case True
    then show ?thesis by (subst hex_str.simps) (simp add: hex_digit_facts)
  next
    case False
    then show ?thesis using 1 by (subst hex_str.simps) (simp add: xdigits_append hex_str_chars hex_digit_facts)
  qed
qed

lemma xdigits_hex_pad: "xdigits 0 (hex_pad n) = n"
proof -
  have "xdigits 0 (replicate k CHR ''0'') = 0" for k
    by (induction k) (simp_all add: hex_zero)
  then show ?thesis unfolding hex_pad_def
    by (subst xdigits_append) (auto simp: hex_zero xdigits_hex_str)
qed

lemma length_hex_str: "n < 16 ^ k \<Longrightarrow> 0 < k \<Longrightarrow> length (hex_str n) \<le> k"
proof (induction n arbitrary: k rule: hex_str.induct)
  case (1 n)
  show ?case
  proof (cases "n < 16")
    case True
    then show ?thesis using 1(3) by (subst hex_str.simps) simp
  next
    case False
    then obtain j where k: "k = Suc j" "0 < j" using 1(2,3) by (cases k; cases "k - 1") auto
    then have "n div 16 < 16 ^ j" using 1(2) by (simp add: less_mult_imp_div_less mult.commute)
    then show ?thesis using 1(1) [OF False, of j] k False by (subst hex_str.simps) simp
  qed
qed

lemma length_hex_pad: "length (hex_pad (unat (w::u64))) \<le> 16"
proof -
  have "unat w < 16 ^ 16" using unsigned_less [of w] by simp
  then show ?thesis using length_hex_str [of "unat w" 16] by (simp add: hex_pad_def)
qed

lemma skip_0x_hex: "(\<And>c. c \<in> set s \<Longrightarrow> hex_char c) \<Longrightarrow> skip_0x s = s"
  by (auto simp: skip_0x_def hex_char_def split: list.splits)

lemma hex_pad_nonempty: "hex_pad n \<noteq> []"
  by (simp add: hex_pad_def hex_str_nonempty)

lemma strtoull16_hex_pad: "strtoull16 (hex_pad (unat w)) = w"
proof -
  obtain c s where h: "hex_pad (unat w) = c # s" using hex_pad_nonempty by (cases "hex_pad (unat w)") auto
  then have c: "hex_char c" using hex_pad_chars [of c "unat w"] by simp
  then have hd: "\<not> c_isspace c" "c \<noteq> CHR ''-''" "c \<noteq> CHR ''+''" by (simp_all add: hex_char_def plain_char_def)
  have "skip_0x (c # s) = c # s" using hex_pad_chars h by (metis skip_0x_hex)
  moreover have "xdigits 0 (c # s) = unat w" using xdigits_hex_pad [of "unat w"] h by simp
  moreover have "unat w < 2 ^ 64" using unsigned_less [of w] by simp
  ultimately show ?thesis unfolding h strtoull16_def using hd by (simp add: Let_def del: xdigits.simps)
qed

section \<open>The lines of the file\<close>

text \<open>A mapping as the kernel knows it, its line, and the entry it is to be read as.\<close>

record vma =
  vm_start :: u64
  vm_end :: u64
  vm_r :: bool
  vm_w :: bool
  vm_x :: bool
  vm_shared :: bool
  vm_fields :: "string \<times> string \<times> string"
  vm_pad :: nat
  vm_path :: string

definition vma_perms :: "vma \<Rightarrow> string" where
  "vma_perms v = [if vm_r v then CHR ''r'' else CHR ''-'', if vm_w v then CHR ''w'' else CHR ''-'',
     if vm_x v then CHR ''x'' else CHR ''-'', if vm_shared v then CHR ''s'' else CHR ''p'']"

definition vma_addr :: "vma \<Rightarrow> string" where
  "vma_addr v = hex_pad (unat (vm_start v)) @ CHR ''-'' # hex_pad (unat (vm_end v))"

definition maps_line :: "vma \<Rightarrow> string" where
  "maps_line v = (case vm_fields v of (off, dev, inode) \<Rightarrow>
     vma_addr v @ '' '' @ vma_perms v @ '' '' @ off @ '' '' @ dev @ '' '' @ inode @ '' '' @
     replicate (vm_pad v) CHR '' '' @ vm_path v @ [CHR 0x0A])"

definition field_ok :: "string \<Rightarrow> bool" where
  "field_ok s \<longleftrightarrow> s \<noteq> [] \<and> length s \<le> 127 \<and> (\<forall>c\<in>set s. plain_char c)"

definition vma_ok :: "vma \<Rightarrow> bool" where
  "vma_ok v \<longleftrightarrow> (case vm_fields v of (off, dev, inode) \<Rightarrow> field_ok off \<and> field_ok dev \<and> field_ok inode) \<and>
     vm_pad v \<le> 80 \<and> length (vm_path v) \<le> 2047 \<and>
     (\<forall>c\<in>set (vm_path v). c \<noteq> CHR 0x00 \<and> c \<noteq> CHR 0x0A) \<and> (vm_path v \<noteq> [] \<longrightarrow> \<not> c_isspace (hd (vm_path v)))"

definition vma_attr :: "vma \<Rightarrow> u32" where
  "vma_attr v = (if vm_r v then 8 else 0) + (if vm_w v then 4 else 0) + (if vm_x v then 2 else 0) + (if vm_shared v then 1 else 0)"

definition vma_entry :: "vma \<Rightarrow> map_entry" where
  "vma_entry v = \<lparr>me_start_addr = vm_start v, me_end_addr = vm_end v, me_attr = vma_attr v,
     me_need_resolve = True, me_numa_map = darr_zero, me_desc = vm_path v\<rparr>"

lemma scan_sets_step:
  assumes "t \<noteq> []" "length t \<le> n" "\<forall>c\<in>set t. P c" "w @ r = [] \<or> \<not> P (hd (w @ r))"
    and "\<forall>c\<in>set w. c_isspace c" "r = [] \<or> \<not> c_isspace (hd r)"
  shows "scan_sets ((n, P) # cs) (t @ w @ r) = t # scan_sets cs r"
proof -
  have "takeWhile P (t @ w @ r) = t" using assms(3,4) by (cases "w @ r") (simp_all add: takeWhile_append2)
  moreover have "dropWhile c_isspace (w @ r) = r"
    using assms(5,6) by (cases r) (simp_all add: dropWhile_append2)
  ultimately show ?thesis using assms(1,2) by (simp add: Let_def)
qed

lemma perms_ok: "field_ok (vma_perms v)"
proof -
  have "list_all plain_char ''-rwxps''" by code_simp
  then show ?thesis by (simp add: field_ok_def vma_perms_def)
qed

lemma addr_ok: "field_ok (vma_addr v)"
proof -
  have "plain_char CHR ''-''" by code_simp
  then show ?thesis
    using length_hex_pad [of "vm_start v"] length_hex_pad [of "vm_end v"] hex_pad_chars
    by (auto simp: field_ok_def vma_addr_def hex_char_def)
qed

lemma scan_field:
  assumes "field_ok t" "r \<noteq> []" "\<not> c_isspace (hd r)"
  shows "scan_sets ((127, \<lambda>c. c \<noteq> CHR '' '') # cs) (t @ CHR '' '' # r) = t # scan_sets cs r"
proof -
  have "\<forall>c\<in>set t. c \<noteq> CHR '' ''" using assms(1) plain_not by (auto simp: field_ok_def)
  then show ?thesis
    using scan_sets_step [of t 127 "\<lambda>c. c \<noteq> CHR '' ''" "'' ''" r cs] assms
    by (simp add: field_ok_def c_isspace_def)
qed

lemma field_hd: "field_ok t \<Longrightarrow> \<not> c_isspace (hd (t @ s)) \<and> t @ s \<noteq> []"
  by (cases t) (auto simp: field_ok_def plain_char_def)

lemma scan_maps_line:
  assumes "vma_ok v" "vm_fields v = (off, dev, inode)"
  shows "scan_sets maps_format (maps_line v) =
    [vma_addr v, vma_perms v, off, dev, inode] @ (if vm_path v = [] then [] else [vm_path v])"
proof -
  let ?P = "\<lambda>c. c \<noteq> CHR '' ''" and ?pads = "replicate (vm_pad v) CHR '' ''"
  have f: "field_ok off" "field_ok dev" "field_ok inode" using assms by (simp_all add: vma_ok_def)
  have last: "scan_sets [(127, ?P), (2047, \<lambda>c. c \<noteq> CHR 0x0A)] (inode @ CHR '' '' # ?pads @ vm_path v @ [CHR 0x0A]) =
      inode # (if vm_path v = [] then [] else [vm_path v])"
  proof (cases "vm_path v = []")
    case True
    have "\<forall>c\<in>set (CHR '' '' # ?pads @ [CHR 0x0A]). c_isspace c" by (auto simp: c_isspace_def)
    moreover have "\<forall>c\<in>set inode. ?P c" using f(3) plain_not by (auto simp: field_ok_def)
    ultimately show ?thesis
      using True f(3) scan_sets_step [of inode 127 ?P "CHR '' '' # ?pads @ [CHR 0x0A]" "[]"]
      by (simp add: field_ok_def del: scan_sets.simps(2)) simp
  next
    case False
    have "\<forall>c\<in>set (CHR '' '' # ?pads). c_isspace c" by (auto simp: c_isspace_def)
    moreover have "\<forall>c\<in>set inode. ?P c" using f(3) plain_not by (auto simp: field_ok_def)
    moreover have "\<not> c_isspace (hd (vm_path v @ [CHR 0x0A]))" using False assms(1) by (simp add: vma_ok_def)
    ultimately have "scan_sets [(127, ?P), (2047, \<lambda>c. c \<noteq> CHR 0x0A)]
        (inode @ (CHR '' '' # ?pads) @ vm_path v @ [CHR 0x0A]) =
        inode # scan_sets [(2047, \<lambda>c. c \<noteq> CHR 0x0A)] (vm_path v @ [CHR 0x0A])"
      using f(3) by (intro scan_sets_step) (simp_all add: field_ok_def)
    moreover have "scan_sets [(2047, \<lambda>c. c \<noteq> CHR 0x0A)] (vm_path v @ [CHR 0x0A] @ []) = [vm_path v]"
      using False assms(1) by (subst scan_sets_step) (simp_all add: vma_ok_def c_isspace_def)
    ultimately show ?thesis using False by simp
  qed
  have fmt: "maps_format = [(127, ?P), (127, ?P), (127, ?P), (127, ?P), (127, ?P), (2047, \<lambda>c. c \<noteq> CHR 0x0A)]"
    by (simp add: maps_format_def eval_nat_numeral)
  show ?thesis unfolding fmt
    using f perms_ok [of v] addr_ok [of v] assms(2) last
    by (simp add: maps_line_def scan_field field_hd del: scan_sets.simps)
qed

section \<open>Reading the file\<close>

lemma buf_str_store:
  assumes "CHR 0x00 \<notin> set s"
  shows "buf_str (buf_store s b) = Some s"
proof -
  have "buf_str (map Some (s @ [CHR 0x00]) @ r) = Some s" for r using assms by (induction s) auto
  then show ?thesis by (simp only: buf_store_def)
qed

lemma buf_char_store: "i < length s \<Longrightarrow> buf_char (buf_store s b) i = Some (s ! i)"
  by (simp add: buf_char_def buf_store_def nth_append)

lemma attr_bitmap_perms: "attr_bitmap (buf_store (vma_perms v) b) = Some (vma_attr v)"
  by (simp add: attr_bitmap_def buf_char_store vma_perms_def vma_attr_def Let_def set_bit_eq_or unset_bit_eq_or_xor)

lemma addr_scan:
  "scan_start (vma_addr v) = Some (hex_pad (unat (vm_start v)))"
  "scan_end (vma_addr v) = Some (hex_pad (unat (vm_end v)))"
proof -
  let ?a = "hex_pad (unat (vm_start v))" and ?b = "hex_pad (unat (vm_end v))"
  have n: "\<forall>c\<in>set ?a. c \<noteq> CHR ''-''" "\<forall>c\<in>set ?b. \<not> c_isspace c"
    using hex_pad_chars by (auto simp: hex_char_def plain_char_def)
  then have t: "takeWhile (\<lambda>c. c \<noteq> CHR ''-'') (vma_addr v) = ?a" "dropWhile (\<lambda>c. c \<noteq> CHR ''-'') (vma_addr v) = CHR ''-'' # ?b"
    by (simp_all add: vma_addr_def takeWhile_append2 dropWhile_append2)
  have d: "dropWhile c_isspace ?b = ?b" using n(2) by (cases ?b) auto
  have w: "takeWhile (\<lambda>c. \<not> c_isspace c) ?b = ?b" using n(2) by (simp add: takeWhile_eq_all_conv)
  show "scan_start (vma_addr v) = Some ?a" "scan_end (vma_addr v) = Some ?b"
    using length_hex_pad [of "vm_start v"] length_hex_pad [of "vm_end v"]
    by (simp_all add: scan_start_def scan_end_def Let_def hex_pad_nonempty t d w)
qed

definition one_line :: "string \<Rightarrow> bool" where
  "one_line s \<longleftrightarrow> (\<forall>c\<in>set s. c \<noteq> CHR 0x00 \<and> c \<noteq> CHR 0x0A)"

lemma one_line_append [simp]: "one_line (s @ t) \<longleftrightarrow> one_line s \<and> one_line t"
  by (auto simp: one_line_def)

lemma field_one_line: "field_ok s \<Longrightarrow> one_line s"
  by (auto simp: field_ok_def one_line_def dest!: plain_not)

lemma blanks_one_line [simp]: "one_line (replicate n CHR '' '')" "one_line '' ''"
  by (simp_all add: one_line_def)

text \<open>A line without its newline, and the bound on its length.\<close>

lemma maps_line_body:
  assumes "vma_ok v"
  obtains l where "maps_line v = l @ [CHR 0x0A]" "one_line l" "length l \<le> 2800"
proof -
  obtain off dev inode where f: "vm_fields v = (off, dev, inode)" by (cases "vm_fields v") auto
  then have ok: "field_ok off" "field_ok dev" "field_ok inode" using assms by (simp_all add: vma_ok_def)
  let ?l = "vma_addr v @ '' '' @ vma_perms v @ '' '' @ off @ '' '' @ dev @ '' '' @ inode @ '' '' @
     replicate (vm_pad v) CHR '' '' @ vm_path v"
  have "one_line (vm_path v)" using assms by (auto simp: vma_ok_def one_line_def)
  then have "one_line ?l"
    using field_one_line [OF addr_ok] field_one_line [OF perms_ok] ok [THEN field_one_line]
    by (simp only: one_line_append blanks_one_line simp_thms)
  moreover have "length ?l \<le> 2800"
    using assms ok addr_ok [of v] perms_ok [of v] by (simp add: vma_ok_def field_ok_def)
  ultimately show ?thesis using f that [of ?l] by (simp add: maps_line_def)
qed

lemma map_line_reads:
  assumes "vma_ok v" "length bufs = 6"
  shows "\<exists>bufs1. map_line (maps_line v) bufs = Some (bufs1, Some (vm_start v, vm_end v, vma_attr v, vm_path v)) \<and>
    length bufs1 = 6"
proof -
  obtain off dev inode where f: "vm_fields v = (off, dev, inode)" by (cases "vm_fields v") auto
  from maps_line_body [OF assms(1)] obtain l where
    l: "maps_line v = l @ [CHR 0x0A]" "one_line l" .
  then have c: "cstr (maps_line v) = maps_line v" "maps_line v \<noteq> []"
    by (auto simp: cstr_def takeWhile_eq_all_conv one_line_def)
  obtain b0 b1 b2 b3 b4 b5 where b: "bufs = [b0, b1, b2, b3, b4, b5]"
    using assms(2) by (auto simp: eval_nat_numeral length_Suc_conv)
  have nul: "CHR 0x00 \<notin> set (vma_addr v)" "CHR 0x00 \<notin> set (vm_path v)"
    using field_one_line [OF addr_ok] assms(1) by (auto simp: vma_ok_def one_line_def)
  show ?thesis
    using nul by (simp add: map_line_def c Let_def scan_maps_line [OF assms(1) f] store_all_def b buf_str_store addr_scan
        attr_bitmap_perms strtoull16_hex_pad)
qed

lemma fgets_line:
  assumes "\<forall>c\<in>set l. c \<noteq> CHR 0x0A" "length l + 2 \<le> n"
  shows "fgets n (l @ CHR 0x0A # rest) = l @ [CHR 0x0A]"
  using assms by (simp add: fgets_def Let_def takeWhile_append2)

text \<open>Adding an entry while there is memory.\<close>

lemma map_entry_add_grows:
  assumes "darr_grown 64 d" "\<forall>n. ok n" "da_cur d \<le> 65536"
  shows "\<exists>d1. map_entry_add ok d a b attr path = Some (d1, 0) \<and> darr_grown 64 d1 \<and> da_cur d1 = da_cur d + 1 \<and>
     darr_list d1 = darr_list d @ [\<lparr>me_start_addr = a, me_end_addr = b, me_attr = attr, me_need_resolve = True,
       me_numa_map = darr_zero, me_desc = take 4095 path\<rparr>]"
proof -
  let ?v = "\<lparr>me_start_addr = a, me_end_addr = b, me_attr = attr, me_need_resolve = True,
       me_numa_map = darr_zero, me_desc = take 4095 path\<rparr>"
  have "map_entry_add ok d a b attr path = array_push ok map_entry_bytes 64 map_entry_zero ?v d"
    by (cases path) (simp_all add: map_entry_add_def MAP_ENTRY_NUM_def PATH_MAX_def)
  then show ?thesis
    using array_push_grown [OF assms(1), of map_entry_bytes ok map_entry_zero ?v] assms(2,3)
    by (auto simp: map_entry_bytes_def PATH_MAX_def)
qed

lemma map_read_loop_lines:
  assumes "\<forall>n. ok n" "\<forall>v\<in>set vs. vma_ok v" "length bufs = 6" "darr_grown 64 d"
    and "da_cur d + int (length vs) \<le> 65536"
  shows "\<exists>d1. map_read_loop ok (concat (map maps_line vs)) bufs d n = Some (d1, n + length vs, True) \<and>
    darr_list d1 = darr_list d @ map vma_entry vs"
  using assms
proof (induction vs arbitrary: bufs d n)
  case Nil
  then show ?case by (simp add: map_read_loop.simps)
next
  case (Cons v vs)
  have v: "vma_ok v" using Cons.prems by simp
  from maps_line_body [OF v] obtain l where
    l: "maps_line v = l @ [CHR 0x0A]" "one_line l" "length l \<le> 2800" .
  have g: "fgets MAPFILE_LINE_SIZE (maps_line v @ rest) = maps_line v" for rest
    using fgets_line [of l MAPFILE_LINE_SIZE rest] l by (simp add: MAPFILE_LINE_SIZE_def one_line_def)
  from map_line_reads [OF v Cons.prems(3)] obtain bufs1 where
    b: "map_line (maps_line v) bufs = Some (bufs1, Some (vm_start v, vm_end v, vma_attr v, vm_path v))"
      "length bufs1 = 6" by blast
  have "length (vm_path v) \<le> 4095" using v by (simp add: vma_ok_def)
  then obtain d1 where d1: "map_entry_add ok d (vm_start v) (vm_end v) (vma_attr v) (vm_path v) = Some (d1, 0)"
      "darr_grown 64 d1" "da_cur d1 = da_cur d + 1" "darr_list d1 = darr_list d @ [vma_entry v]"
    using map_entry_add_grows [OF Cons.prems(4,1), of "vm_start v" "vm_end v" "vma_attr v" "vm_path v"] Cons.prems(5)
    by (auto simp: vma_entry_def)
  have "\<exists>d2. map_read_loop ok (concat (map maps_line vs)) bufs1 d1 (n + 1) = Some (d2, n + 1 + length vs, True) \<and>
      darr_list d2 = darr_list d1 @ map vma_entry vs"
    using Cons.prems d1 b(2) by (intro Cons.IH) simp_all
  then obtain d2 where "map_read_loop ok (concat (map maps_line vs)) bufs1 d1 (n + 1) = Some (d2, n + 1 + length vs, True)"
      "darr_list d2 = darr_list d1 @ map vma_entry vs" by blast
  moreover have "maps_line v @ concat (map maps_line vs) \<noteq> []" using l by simp
  ultimately show ?case
    using d1 b(1) by (subst map_read_loop.simps) (simp add: g Let_def)
qed

lemma map_read_lines:
  assumes "\<forall>n. ok n" "vs \<noteq> []" "length vs \<le> 65536" "\<forall>v\<in>set vs. vma_ok v"
  obtains d where "map_read ok (Some (concat (map maps_line vs))) = Some (\<lparr>mp_map = d, mp_loaded = True\<rparr>, 0)"
    "darr_list d = map vma_entry vs"
proof -
  have cur0: "da_cur darr_zero = 0" by (simp add: darr_zero_def)
  have "length map_bufs = 6" by (simp add: map_bufs_def)
  then obtain d where d: "map_read_loop ok (concat (map maps_line vs)) map_bufs darr_zero 0 = Some (d, length vs, True)"
      "darr_list d = map vma_entry vs"
    using map_read_loop_lines [OF assms(1,4), of map_bufs darr_zero 0] assms(3) by (auto simp: cur0)
  then show ?thesis using assms(2) that by (simp add: map_read_def map_proc_zero_def)
qed

text \<open>
  C14: Reading /proc/<pid>/maps is the inverse of printing it: for any mappings the
  kernel prints, one line each, with any file names, the table holds one entry
  per line in the same order, with its addresses, attributes and name.
\<close>

theorem map_read_roundtrip:
  assumes "\<forall>n. ok n" "vs \<noteq> []" "length vs \<le> 65536" "\<forall>v\<in>set vs. vma_ok v"
  shows "\<exists>mp. map_read ok (Some (concat (map maps_line vs))) = Some (mp, 0) \<and> mp_loaded mp \<and>
    darr_list (mp_map mp) = map vma_entry vs"
  using map_read_lines [OF assms] by (metis map_proc.select_convs)

definition vma_demo :: "vma list" where
  "vma_demo =
     [\<lparr>vm_start = 0x400000, vm_end = 0x405000, vm_r = True, vm_w = False, vm_x = True, vm_shared = False,
       vm_fields = (''00000000'', ''fd:00'', ''678793''), vm_pad = 21, vm_path = ''/usr/bin/vmstat''\<rparr>,
      \<lparr>vm_start = 0x7f0000000000, vm_end = 0x7f0000021000, vm_r = True, vm_w = True, vm_x = False, vm_shared = False,
       vm_fields = (''00000000'', ''00:00'', ''0''), vm_pad = 0, vm_path = []\<rparr>]"

theorem map_read_roundtrip_witness:
  "\<exists>mp. map_read (\<lambda>_. True) (Some (concat (map maps_line vma_demo))) = Some (mp, 0) \<and>
     map me_desc (darr_list (mp_map mp)) = [''/usr/bin/vmstat'', []] \<and>
     map MAP_X (map me_attr (darr_list (mp_map mp))) = [True, False]"
proof -
  have "\<forall>v\<in>set vma_demo. vma_ok v" unfolding list_all_iff [symmetric] by code_simp
  then have "\<exists>mp. map_read (\<lambda>_. True) (Some (concat (map maps_line vma_demo))) = Some (mp, 0) \<and> mp_loaded mp \<and>
      darr_list (mp_map mp) = map vma_entry vma_demo"
    by (intro map_read_roundtrip) (simp_all add: vma_demo_def)
  then show ?thesis by (auto simp: vma_demo_def vma_entry_def vma_attr_def MAP_X_def)
qed

end
