(* ===== verification/MapNodes.thy ===== *)
theory MapNodes
  imports ProcMapUse
begin

text \<open>
  Properties of the table of mappings: the lookup of a buffer and what a reload
  keeps (map_entry_find, map_proc_load), the nodes of the pages of a mapping
  (map_map2numa) and the distribution of accesses (map_addr2nodedst).
\<close>

section \<open>The lookup\<close>

text \<open>The kernel lists disjoint mappings in the order of their addresses.\<close>

definition maps_sorted :: "map_entry list \<Rightarrow> bool" where
  "maps_sorted es \<longleftrightarrow> sorted_wrt (\<lambda>a b. me_end_addr a \<le> me_start_addr b) es \<and>
     (\<forall>e\<in>set es. me_start_addr e < me_end_addr e)"

definition is_map :: "u64 \<Rightarrow> u64 \<Rightarrow> map_entry \<Rightarrow> bool" where
  "is_map addr sz e \<longleftrightarrow> me_start_addr e = addr \<and> me_end_addr e = addr + sz"

lemma entryaddr_cmp_mono:
  assumes "maps_sorted es" "i \<le> j" "j < length es"
  shows "(entryaddr_cmp addr (es ! i) < 0 \<longrightarrow> entryaddr_cmp addr (es ! j) < 0) \<and>
    (entryaddr_cmp addr (es ! j) > 0 \<longrightarrow> entryaddr_cmp addr (es ! i) > 0)"
proof (cases "i = j")
  case False
  then have "me_end_addr (es ! i) \<le> me_start_addr (es ! j)"
    using assms by (simp add: maps_sorted_def sorted_wrt_iff_nth_less)
  moreover have "me_start_addr (es ! i) < me_end_addr (es ! i)" "me_start_addr (es ! j) < me_end_addr (es ! j)"
    using assms by (simp_all add: maps_sorted_def)
  ultimately show ?thesis unfolding entryaddr_cmp_def by (auto split: if_splits)
qed simp

lemma map_entry_find_result:
  assumes "darr_ok (mp_map mp)" "maps_sorted (darr_list (mp_map mp))"
  obtains (found) i where "map_entry_find mp addr sz = Some (Some i)" "i < length (darr_list (mp_map mp))"
      "is_map addr sz (darr_list (mp_map mp) ! i)"
    | (absent) "map_entry_find mp addr sz = Some None" "\<forall>e\<in>set (darr_list (mp_map mp)). \<not> is_map addr sz e"
proof -
  let ?es = "darr_list (mp_map mp)"
  have "(case da_arr (mp_map mp) of
       None \<Rightarrow> if da_cur (mp_map mp) > 0 then None else Some []
     | Some arr \<Rightarrow> if da_cur (mp_map mp) \<le> int (length arr) then Some (take (nat (da_cur (mp_map mp))) arr)
                   else None) = Some ?es"
    using assms(1) by (auto simp: darr_list_def darr_ok_def split: option.splits)
  then have f: "map_entry_find mp addr sz =
      do { r \<leftarrow> bsearch (\<lambda>e. Some (entryaddr_cmp addr e)) ?es;
           Some (case r of None \<Rightarrow> None | Some i \<Rightarrow> if is_map addr sz (?es ! i) then Some i else None) }"
    by (simp only: map_entry_find_def is_map_def bind.bind_lunit)
  have hit: "entryaddr_cmp addr e = 0" if "e \<in> set ?es" "is_map addr sz e" for e
    using that assms(2) by (auto simp: entryaddr_cmp_def is_map_def maps_sorted_def)
  have uniq: "i = j" if "i < length ?es" "j < length ?es" "entryaddr_cmp addr (?es ! i) = 0" "entryaddr_cmp addr (?es ! j) = 0" for i j
  proof (rule ccontr)
    assume "i \<noteq> j"
    then have "me_end_addr (?es ! i) \<le> me_start_addr (?es ! j) \<or> me_end_addr (?es ! j) \<le> me_start_addr (?es ! i)"
      using assms(2) that(1,2) by (cases i j rule: linorder_cases) (simp_all add: maps_sorted_def sorted_wrt_iff_nth_less)
    then show False using that(3,4) by (auto simp: entryaddr_cmp_def split: if_splits)
  qed
  show ?thesis
  proof (rule bsearch_mono [of ?es "\<lambda>e. Some (entryaddr_cmp addr e)" "\<lambda>i. entryaddr_cmp addr (?es ! i)"])
    show "(entryaddr_cmp addr (?es ! i) < 0 \<longrightarrow> entryaddr_cmp addr (?es ! j) < 0) \<and>
        (entryaddr_cmp addr (?es ! j) > 0 \<longrightarrow> entryaddr_cmp addr (?es ! i) > 0)" if "i \<le> j" "j < length ?es" for i j
      by (rule entryaddr_cmp_mono [OF assms(2) that])
  next
    fix i assume i: "bsearch (\<lambda>e. Some (entryaddr_cmp addr e)) ?es = Some (Some i)" "i < length ?es"
      "entryaddr_cmp addr (?es ! i) = 0"
    show thesis
    proof (cases "is_map addr sz (?es ! i)")
      case True
      then show thesis using found [of i] i f by simp
    next
      case False
      have "\<not> is_map addr sz e" if "e \<in> set ?es" for e
        using hit [OF that] that False uniq [of i] i(2,3) by (metis in_set_conv_nth)
      then show thesis using absent i f False by simp
    qed
  next
    assume "bsearch (\<lambda>e. Some (entryaddr_cmp addr e)) ?es = Some None" "\<forall>i<length ?es. entryaddr_cmp addr (?es ! i) \<noteq> 0"
    then show thesis using absent f hit by (metis (no_types, lifting) bind.bind_lunit in_set_conv_nth option.simps(4))
  qed simp
qed

lemma keep_need_resolve_result:
  assumes "darr_ok (mp_map mp)" "maps_sorted (darr_list (mp_map mp))"
  shows "keep_need_resolve mp es = Some (map (\<lambda>e. e\<lparr>me_need_resolve :=
     (\<forall>x\<in>set (darr_list (mp_map mp)). is_map (me_start_addr e) (me_end_addr e - me_start_addr e) x \<longrightarrow> me_need_resolve x)\<rparr>) es)"
proof (induction es)
  case (Cons e es)
  let ?l = "darr_list (mp_map mp)" and ?a = "me_start_addr e" and ?z = "me_end_addr e - me_start_addr e"
  show ?case
  proof (rule map_entry_find_result [OF assms, of ?a ?z])
    fix i assume found: "map_entry_find mp ?a ?z = Some (Some i)" "i < length ?l" "is_map ?a ?z (?l ! i)"
    have "x = ?l ! i" if x: "x \<in> set ?l" "is_map ?a ?z x" for x
    proof (rule ccontr)
      assume ne: "x \<noteq> ?l ! i"
      obtain j where j: "j < length ?l" "x = ?l ! j" using x(1) by (auto simp: in_set_conv_nth)
      then have "me_end_addr (?l ! i) \<le> me_start_addr (?l ! j) \<or> me_end_addr (?l ! j) \<le> me_start_addr (?l ! i)"
        using assms(2) found(2) ne by (cases i j rule: linorder_cases) (simp_all add: maps_sorted_def sorted_wrt_iff_nth_less)
      moreover have "me_start_addr (?l ! i) < me_end_addr (?l ! i)" "me_start_addr (?l ! j) < me_end_addr (?l ! j)"
        using assms(2) found(2) j by (simp_all add: maps_sorted_def)
      ultimately show False using x(2) found(3) j by (auto simp: is_map_def)
    qed
    then have "(\<forall>x\<in>set ?l. is_map ?a ?z x \<longrightarrow> me_need_resolve x) = me_need_resolve (?l ! i)"
      using found(2,3) nth_mem by blast
    moreover have "\<exists>arr. da_arr (mp_map mp) = Some arr \<and> arr ! i = ?l ! i"
      using found(2) by (auto simp: darr_list_def split: option.splits)
    ultimately show ?thesis using found(1) Cons.IH by auto
  next
    assume absent: "map_entry_find mp ?a ?z = Some None" "\<forall>e\<in>set ?l. \<not> is_map ?a ?z e"
    then have "(\<forall>x\<in>set ?l. is_map ?a ?z x \<longrightarrow> me_need_resolve x) = True" by blast
    then show ?thesis using absent(1) Cons.IH by simp
  qed
qed simp

text \<open>
  C24: Loading the mappings of a process again gives the mappings the kernel
  prints now; a mapping with the addresses of one in the old table keeps its
  mark need_resolve, so that its symbols are not read again, and every other one
  is marked.
\<close>

theorem map_proc_reload_keeps_marks:
  assumes "\<forall>n. ok n" "vs \<noteq> []" "length vs \<le> 65536" "\<forall>v\<in>set vs. vma_ok v"
    and "mp_loaded mp" "darr_ok (mp_map mp)" "maps_sorted (darr_list (mp_map mp))"
  shows "\<exists>mp1. map_proc_load ok (Some (concat (map maps_line vs))) mp = Some (mp1, 0) \<and> mp_loaded mp1 \<and>
    darr_list (mp_map mp1) = map (\<lambda>v. (vma_entry v)\<lparr>me_need_resolve :=
      (\<forall>x\<in>set (darr_list (mp_map mp)). me_start_addr x = vm_start v \<and> me_end_addr x = vm_end v \<longrightarrow> me_need_resolve x)\<rparr>) vs"
proof -
  from map_read_lines [OF assms(1-4)] obtain d where
    r: "map_read ok (Some (concat (map maps_line vs))) = Some (\<lparr>mp_map = d, mp_loaded = True\<rparr>, 0)"
      "darr_list d = map vma_entry vs" .
  obtain arr where arr: "da_arr d = Some arr" "take (nat (da_cur d)) arr = map vma_entry vs"
    using r(2) assms(2) by (auto simp: darr_list_def split: option.splits)
  let ?f = "\<lambda>e. e\<lparr>me_need_resolve :=
     (\<forall>x\<in>set (darr_list (mp_map mp)). is_map (me_start_addr e) (me_end_addr e - me_start_addr e) x \<longrightarrow> me_need_resolve x)\<rparr>"
  have l: "length (map ?f (map vma_entry vs)) = min (nat (da_cur d)) (length arr)"
    using arg_cong [OF arr(2), of length] by simp
  have "take (nat (da_cur d)) (map ?f (map vma_entry vs) @ drop (length (map ?f (map vma_entry vs))) arr) =
      map ?f (map vma_entry vs)"
    unfolding l by (cases "nat (da_cur d) \<le> length arr") (use l in simp_all)
  moreover have "map_proc_load ok (Some (concat (map maps_line vs))) mp =
      Some (\<lparr>mp_map = d\<lparr>da_arr := Some (map ?f (map vma_entry vs) @ drop (length (map ?f (map vma_entry vs))) arr)\<rparr>,
        mp_loaded = True\<rparr>, 0)"
    using assms(5) r arr keep_need_resolve_result [OF assms(6,7), of "map vma_entry vs"] by (simp add: map_proc_load_def)
  ultimately show ?thesis by (simp add: darr_list_def is_map_def vma_entry_def)
qed

definition old_demo :: map_proc where
  "old_demo = \<lparr>mp_map = \<lparr>da_arr = Some [(vma_entry (vma_demo ! 0))\<lparr>me_need_resolve := False\<rparr>], da_cur = 1, da_max = 1\<rparr>,
     mp_loaded = True\<rparr>"

theorem map_proc_reload_keeps_marks_witness:
  "\<exists>mp1. map_proc_load (\<lambda>_. True) (Some (concat (map maps_line vma_demo))) old_demo = Some (mp1, 0) \<and>
     map me_need_resolve (darr_list (mp_map mp1)) = [False, True]"
proof -
  have "\<forall>v\<in>set vma_demo. vma_ok v" unfolding list_all_iff [symmetric] by code_simp
  moreover have "darr_list (mp_map old_demo) = [(vma_entry (vma_demo ! 0))\<lparr>me_need_resolve := False\<rparr>]"
    by (simp add: old_demo_def darr_list_def)
  moreover have "mp_loaded old_demo" "darr_ok (mp_map old_demo)" by (simp_all add: old_demo_def darr_ok_def)
  moreover have "maps_sorted [(vma_entry (vma_demo ! 0))\<lparr>me_need_resolve := False\<rparr>]"
    by (simp add: maps_sorted_def vma_entry_def vma_demo_def)
  ultimately show ?thesis
    using map_proc_reload_keeps_marks [of "\<lambda>_. True" vma_demo old_demo]
    by (auto simp: vma_demo_def vma_entry_def)
qed

section \<open>The nodes of a mapping\<close>

text \<open>What the loop over the pages does with the list of entries.\<close>

definition run_add :: "u64 \<Rightarrow> numa_entry list \<Rightarrow> u64 \<times> int \<Rightarrow> numa_entry list" where
  "run_add pg es p =
     (if es \<noteq> [] \<and> ne_nid (last es) = snd p \<and> ne_end_addr (last es) = fst p
      then butlast es @ [(last es)\<lparr>ne_end_addr := ne_end_addr (last es) + pg\<rparr>]
      else es @ [\<lparr>ne_start_addr = fst p, ne_end_addr = fst p + pg, ne_nid = snd p\<rparr>])"

lemma numa_entry_add_grows:
  assumes "darr_grown 64 nm" "\<forall>n. ok n" "da_cur nm \<le> 2 ^ 21"
  shows "\<exists>nm1. numa_entry_add ok pg nm addr nid = Some (nm1, Some (da_cur nm1 - 1)) \<and> darr_grown 64 nm1 \<and>
     da_cur nm1 = da_cur nm + 1 \<and>
     darr_list nm1 = darr_list nm @ [\<lparr>ne_start_addr = addr, ne_end_addr = addr + pg, ne_nid = nid\<rparr>]"
proof -
  let ?v = "\<lparr>ne_start_addr = addr, ne_end_addr = addr + pg, ne_nid = nid\<rparr>"
  have "\<exists>d1. array_push ok numa_entry_bytes 64 numa_entry_zero ?v nm = Some (d1, 0) \<and> darr_grown 64 d1 \<and>
      darr_list d1 = darr_list nm @ [?v] \<and> da_cur d1 = da_cur nm + 1"
    by (rule array_push_grown) (use assms in \<open>simp_all add: numa_entry_bytes_def\<close>)
  then show ?thesis by (auto simp: numa_entry_add_def MAP_ENTRY_NUM_def)
qed

lemma numa_map_pages_runs:
  assumes "\<forall>n. ok n" "darr_grown 64 nm" "0 < da_cur nm" "da_cur nm + int (length ps) \<le> 2 ^ 21"
  shows "\<exists>nm1. numa_map_pages ok pg nm (da_cur nm - 1) ps = Some (nm1, Some (da_cur nm1 - 1)) \<and>
     darr_grown 64 nm1 \<and> 0 < da_cur nm1 \<and> da_cur nm1 \<le> da_cur nm + int (length ps) \<and>
     darr_list nm1 = foldl (run_add pg) (darr_list nm) ps"
  using assms
proof (induction ps arbitrary: nm)
  case (Cons p ps)
  obtain addr nid where p: "p = (addr, nid)" by (cases p)
  have ok: "darr_ok nm" using Cons.prems(2) by (simp add: darr_grown_def)
  then obtain arr where arr: "da_arr nm = Some arr" using Cons.prems(3) by (cases "da_arr nm") (auto simp: darr_ok_def)
  let ?i = "nat (da_cur nm - 1)"
  have i: "da_cur nm \<le> int (length arr)" "?i < length arr" "0 \<le> da_cur nm - 1" "Suc ?i = nat (da_cur nm)"
    using ok arr Cons.prems(3) by (auto simp: darr_ok_def)
  then have l: "darr_list nm = take ?i arr @ [arr ! ?i]"
    using arr by (simp add: darr_list_def take_Suc_conv_app_nth flip: i(4))
  then have la: "last (darr_list nm) = arr ! ?i" "butlast (darr_list nm) = take ?i arr" "darr_list nm \<noteq> []" by simp_all
  show ?case
  proof (cases "ne_nid (arr ! ?i) = nid \<and> ne_end_addr (arr ! ?i) = addr")
    case True
    let ?e = "(arr ! ?i)\<lparr>ne_end_addr := ne_end_addr (arr ! ?i) + pg\<rparr>"
    let ?nm = "nm\<lparr>da_arr := Some (arr[?i := ?e])\<rparr>"
    have n: "darr_grown 64 ?nm" "da_cur ?nm = da_cur nm"
      using Cons.prems(2) arr by (auto simp: darr_grown_def darr_ok_def)
    have "darr_list ?nm = take ?i arr @ [?e]"
      using i by (simp add: darr_list_def take_Suc_update flip: i(4))
    then have r: "darr_list ?nm = run_add pg (darr_list nm) p" using True by (simp add: run_add_def la p)
    have "numa_map_pages ok pg nm (da_cur nm - 1) (p # ps) = numa_map_pages ok pg ?nm (da_cur ?nm - 1) ps"
      using True i by (simp add: p arr arr_get_def arr_set_def)
    then show ?thesis using Cons.IH [OF Cons.prems(1) n(1)] n(2) Cons.prems(3,4) r by auto
  next
    case False
    have "da_cur nm \<le> 2 ^ 21" using Cons.prems(4) by simp
    then obtain nm1 where n: "numa_entry_add ok pg nm addr nid = Some (nm1, Some (da_cur nm1 - 1))" "darr_grown 64 nm1"
      "da_cur nm1 = da_cur nm + 1" and
      l1: "darr_list nm1 = darr_list nm @ [\<lparr>ne_start_addr = addr, ne_end_addr = addr + pg, ne_nid = nid\<rparr>]"
      using numa_entry_add_grows [OF Cons.prems(2,1)] by blast
    have r: "darr_list nm1 = run_add pg (darr_list nm) p"
      using False l1 by (auto simp: run_add_def la(1) p)
    have "numa_map_pages ok pg nm (da_cur nm - 1) (p # ps) = numa_map_pages ok pg nm1 (da_cur nm1 - 1) ps"
      using False i n(1) by (auto simp: p arr arr_get_def)
    moreover have "0 < da_cur nm1" "da_cur nm1 + int (length ps) \<le> 2 ^ 21" using n(3) Cons.prems(3,4) by simp_all
    ultimately show ?thesis using Cons.IH [OF Cons.prems(1) n(2)] n(3) r by auto
  qed
qed auto

text \<open>The two ways to enter the loop: with the entry added last, or with none.\<close>

lemma numa_map_update_runs:
  assumes "\<forall>n. ok n" "darr_grown 64 nm" "da_cur nm + int (length ps) \<le> 2 ^ 21" "ps \<noteq> []"
    and "e = (if da_cur nm = 0 then None else Some (da_cur nm - 1))"
  shows "\<exists>nm1. numa_map_update ok pg nm ps e = Some (nm1, Some (da_cur nm1 - 1)) \<and>
     darr_grown 64 nm1 \<and> 0 < da_cur nm1 \<and> da_cur nm1 \<le> da_cur nm + int (length ps) \<and>
     darr_list nm1 = foldl (run_add pg) (darr_list nm) ps"
proof -
  have len: "int (length (darr_list nm)) = da_cur nm" using assms(2) by (simp add: darr_grown_def darr_ok_length)
  show ?thesis
  proof (cases "da_cur nm = 0")
    case False
    then have "0 < da_cur nm" using len by linarith
    then show ?thesis using numa_map_pages_runs [OF assms(1,2) _ assms(3)] assms(5) False by (auto simp: numa_map_update_def)
  next
    case True
    obtain addr nid qs where ps: "ps = (addr, nid) # qs" using assms(4) by (cases ps) auto
    from numa_entry_add_grows [OF assms(2,1), of pg addr nid] True obtain nm1 where
      n: "numa_entry_add ok pg nm addr nid = Some (nm1, Some (da_cur nm1 - 1))" "darr_grown 64 nm1" "da_cur nm1 = 1"
        "darr_list nm1 = [\<lparr>ne_start_addr = addr, ne_end_addr = addr + pg, ne_nid = nid\<rparr>]"
      using len by auto
    have "darr_list nm1 = run_add pg (darr_list nm) (addr, nid)" using n(4) len True by (simp add: run_add_def)
    then show ?thesis
      using numa_map_pages_runs [OF assms(1) n(2), of qs pg] n(1,3) assms(3,5) True ps by (auto simp: numa_map_update_def)
  qed
qed

text \<open>The addresses that are asked for, page by page, with the 32-bit product of the source.\<close>

definition asked_addr :: "u64 \<Rightarrow> u32 \<Rightarrow> nat \<Rightarrow> u64" where
  "asked_addr start_addr pgsize i = start_addr + ucast ((of_nat i :: u32) * pgsize)"

lemma page_addrs_asked:
  "page_addrs start_addr pgsize m k = map (asked_addr start_addr pgsize) [unat m..<unat m + unat k]"
proof (rule nth_equalityI)
  fix i assume "i < length (page_addrs start_addr pgsize m k)"
  then have "i < unat k" by (simp add: page_addrs_def)
  then show "page_addrs start_addr pgsize m k ! i = map (asked_addr start_addr pgsize) [unat m..<unat m + unat k] ! i"
    by (simp add: page_addrs_def asked_addr_def add.commute)
qed (simp add: page_addrs_def)

lemma map2numa_loop_runs:
  assumes "\<forall>n. ok n" "\<forall>as. query as = Some (map node as)" "unat n \<le> 2 ^ 21" "m \<le> n" "darr_grown 64 nm"
    and "da_cur nm \<le> int (unat m)" "da_cur nm = 0 \<longleftrightarrow> m = 0" "e = (if da_cur nm = 0 then None else Some (da_cur nm - 1))"
    and "darr_list nm = foldl (run_add (ucast pgsize)) [] (map (\<lambda>i. (f i, node (f i))) [0..<unat m])"
    and "f = asked_addr start_addr pgsize"
  shows "\<exists>nm1. map2numa_loop ok pgsize query start_addr n m nm e = Some (nm1, 0) \<and>
     darr_list nm1 = foldl (run_add (ucast pgsize)) [] (map (\<lambda>i. (f i, node (f i))) [0..<unat n])"
  using assms
proof (induction ok pgsize query start_addr n m nm e rule: map2numa_loop.induct)
  case (1 ok pgsize query start_addr n m nm e)
  note prems = "1.prems"
  let ?g = "\<lambda>i. (f i, node (f i))"
  show ?case
  proof (cases "m < n")
    case False
    then have "m = n" using prems(4) by simp
    then show ?thesis using prems(9) by (subst map2numa_loop.simps) simp
  next
    case True
    define k where "k = min NUMA_MOVE_NPAGES (n - m)"
    define as where "as = page_addrs start_addr pgsize m k"
    note mv = moved_less [OF True, folded k_def]
    have as: "as = map f [unat m..<unat m + unat k]" "as \<noteq> []"
      using mv(2) by (simp_all add: as_def page_addrs_asked prems(10))
    have "zip xs (map node xs @ ys) = map (\<lambda>a. (a, node a)) xs" for xs ys by (induction xs) simp_all
    then have z: "zip as (map node as @ replicate (length as) 0) = map ?g [unat m..<unat m + unat k]"
      by (simp only:) (simp add: as(1) comp_def)
    have "int (unat n) \<le> int (2 ^ 21)" using prems(3) by (simp only: of_nat_le_iff)
    then have n21: "int (unat n) \<le> 2 ^ 21" by (simp only: of_nat_power of_nat_numeral)
    have len: "length (map ?g [unat m..<unat m + unat k]) = unat k" by simp
    have "da_cur nm + int (length (map ?g [unat m..<unat m + unat k])) \<le> 2 ^ 21"
      unfolding len using mv(3) prems(6) n21 by linarith
    then obtain nm1 where u: "numa_map_update ok (ucast pgsize) nm (map ?g [unat m..<unat m + unat k]) e =
        Some (nm1, Some (da_cur nm1 - 1))" "darr_grown 64 nm1" "0 < da_cur nm1" "da_cur nm1 \<le> da_cur nm + int (unat k)"
        "darr_list nm1 = foldl (run_add (ucast pgsize)) (darr_list nm) (map ?g [unat m..<unat m + unat k])"
      using numa_map_update_runs [OF prems(1,5) _ _ prems(8), of "map ?g [unat m..<unat m + unat k]" "ucast pgsize"] mv(2)
      by auto
    have l1: "darr_list nm1 = foldl (run_add (ucast pgsize)) [] (map ?g [0..<unat (m + k)])"
      unfolding mv(1) u(5) prems(9) upt_add_eq_append [OF le0, of "unat m" "unat k"] map_append foldl_append ..
    have le: "m + k \<le> n" using mv(1,3) by (simp add: word_le_nat_alt)
    have nz: "m + k \<noteq> 0" using mv(1,2) by (metis add_is_0 less_numeral_extra(3) unsigned_0)
    have c: "da_cur nm1 \<le> int (unat (m + k))" using u(4) prems(6) mv(1) by simp
    have uz: "numa_map_update ok (ucast pgsize) nm (zip as (map node as @ replicate (length as) 0)) e =
        Some (nm1, Some (da_cur nm1 - 1))" unfolding z by (rule u(1))
    have "map2numa_loop ok pgsize query start_addr n m nm e =
        map2numa_loop ok pgsize query start_addr n (m + k) nm1 (Some (da_cur nm1 - 1))"
      using u(1) prems(2) True by (subst map2numa_loop.simps) (simp add: Let_def z flip: k_def as_def)
    moreover have "\<exists>nm2. map2numa_loop ok pgsize query start_addr n (m + k) nm1 (Some (da_cur nm1 - 1)) = Some (nm2, 0) \<and>
        darr_list nm2 = foldl (run_add (ucast pgsize)) [] (map ?g [0..<unat n])"
      by (rule "1.IH" [OF _ k_def as_def _ _ _ _ prems(1-3) le u(2) c _ _ l1 prems(10)])
        (use True prems(2) u(3) uz nz in simp_all)
    ultimately show ?thesis by simp
  qed
qed

text \<open>The pages of an entry with the node they are on.\<close>

definition entry_pages :: "u64 \<Rightarrow> numa_entry \<Rightarrow> (u64 \<times> int) list" where
  "entry_pages pg e = map (\<lambda>j. (ne_start_addr e + of_nat j * pg, ne_nid e))
     [0..<unat (ne_end_addr e - ne_start_addr e) div unat pg]"

lemma unat_times:
  fixes pg :: "'a::len word"
  assumes "k * unat pg < 2 ^ LENGTH('a)" "0 < unat pg"
  shows "unat (of_nat k * pg) = k * unat pg"
proof -
  have "k * 1 \<le> k * unat pg" using assms(2) by (intro mult_le_mono2) simp
  then have "k < 2 ^ LENGTH('a)" using assms(1) by linarith
  then have "unat (of_nat k :: 'a word) = k" by (simp add: unat_of_nat take_bit_nat_eq_self)
  then show ?thesis using assms(1) by (simp add: unat_word_ariths)
qed

lemma entry_pages_run:
  assumes "ne_end_addr e = ne_start_addr e + of_nat k * pg" "k * unat pg < 2 ^ 64" "0 < unat pg"
  shows "entry_pages pg e = map (\<lambda>j. (ne_start_addr e + of_nat j * pg, ne_nid e)) [0..<k]"
  using assms unat_times [of k pg] by (simp add: entry_pages_def)

definition run_len :: "u64 \<Rightarrow> nat \<Rightarrow> numa_entry \<Rightarrow> bool" where
  "run_len pg n e \<longleftrightarrow> (\<exists>k. 0 < k \<and> k \<le> n \<and> ne_end_addr e = ne_start_addr e + of_nat k * pg)"

lemma run_add_pages:
  assumes "n * unat pg < 2 ^ 64" "0 < unat pg"
  shows "let es = foldl (run_add pg) [] (map (\<lambda>i. (s + of_nat i * pg, nd i)) [0..<n]) in
     concat (map (entry_pages pg) es) = map (\<lambda>i. (s + of_nat i * pg, nd i)) [0..<n] \<and>
     (0 < n \<longrightarrow> es \<noteq> [] \<and> ne_end_addr (last es) = s + of_nat n * pg) \<and>
     (\<forall>e\<in>set es. run_len pg n e) \<and> successively (\<lambda>a b. ne_nid a \<noteq> ne_nid b) es"
  using assms(1)
proof (induction n)
  case (Suc n)
  have small: "n * unat pg < 2 ^ 64" using Suc.prems by simp
  define es where "es = foldl (run_add pg) [] (map (\<lambda>i. (s + of_nat i * pg, nd i)) [0..<n])"
  have IH: "concat (map (entry_pages pg) es) = map (\<lambda>i. (s + of_nat i * pg, nd i)) [0..<n]"
    "0 < n \<Longrightarrow> es \<noteq> [] \<and> ne_end_addr (last es) = s + of_nat n * pg"
    "\<forall>e\<in>set es. run_len pg n e" "successively (\<lambda>a b. ne_nid a \<noteq> ne_nid b) es"
    using Suc.IH [OF small] by (simp_all add: Let_def es_def)
  let ?p = "(s + of_nat n * pg, nd n)"
  have step: "foldl (run_add pg) [] (map (\<lambda>i. (s + of_nat i * pg, nd i)) [0..<Suc n]) = run_add pg es ?p"
    by (simp add: es_def)
  have up: "\<forall>e\<in>set es. run_len pg (Suc n) e" using IH(3) by (fastforce simp: run_len_def)
  show ?case
  proof (cases "es \<noteq> [] \<and> ne_nid (last es) = nd n \<and> ne_end_addr (last es) = fst ?p")
    case False
    let ?e = "\<lparr>ne_start_addr = fst ?p, ne_end_addr = fst ?p + pg, ne_nid = nd n\<rparr>"
    have r: "run_add pg es ?p = es @ [?e]" using False by (auto simp: run_add_def)
    have e: "ne_end_addr ?e = ne_start_addr ?e + of_nat 1 * pg" by simp
    have "1 * unat pg < 2 ^ 64" using unsigned_less [of pg] by simp
    from entry_pages_run [OF e this assms(2)] have "entry_pages pg ?e = [?p]" by simp
    moreover have "run_len pg (Suc n) ?e" unfolding run_len_def by (rule exI [of _ 1]) simp
    moreover have "es = [] \<or> ne_nid (last es) \<noteq> nd n" using False IH(2) by (cases n) (auto simp: es_def)
    ultimately show ?thesis
      using IH(1,4) up unfolding step r by (simp add: Let_def successively_append_iff algebra_simps)
  next
    case True
    define b e where "b = butlast es" and "e = last es"
    have es: "es = b @ [e]" using True by (simp add: b_def e_def)
    let ?e = "e\<lparr>ne_end_addr := ne_end_addr e + pg\<rparr>"
    have r: "run_add pg es ?p = b @ [?e]" using True by (simp add: run_add_def b_def e_def)
    obtain k where k: "0 < k" "k \<le> n" "ne_end_addr e = ne_start_addr e + of_nat k * pg"
      using IH(3) es by (auto simp: run_len_def)
    have "Suc k * unat pg \<le> Suc n * unat pg" "k * unat pg \<le> n * unat pg" using k(2) by (intro mult_le_mono1; simp)+
    then have lt: "Suc k * unat pg < 2 ^ 64" "k * unat pg < 2 ^ 64" using Suc.prems small by linarith+
    have "ne_end_addr ?e = ne_start_addr ?e + of_nat (Suc k) * pg" using k(3) by (simp add: algebra_simps)
    from entry_pages_run [OF this lt(1) assms(2)] entry_pages_run [OF k(3) lt(2) assms(2)]
    have ep: "entry_pages pg ?e = entry_pages pg e @ [?p]" using k(3) True by (simp add: e_def)
    have "run_len pg (Suc n) ?e"
      unfolding run_len_def by (rule exI [of _ "Suc k"]) (use k in \<open>simp add: algebra_simps\<close>)
    moreover have "ne_end_addr ?e = s + of_nat (Suc n) * pg" using True by (simp add: e_def algebra_simps)
    moreover have "concat (map (entry_pages pg) (b @ [?e])) = map (\<lambda>i. (s + of_nat i * pg, nd i)) [0..<Suc n]"
      using IH(1) ep unfolding es by simp
    moreover have "successively (\<lambda>a b. ne_nid a \<noteq> ne_nid b) (b @ [?e])"
      using IH(4) unfolding es by (simp add: successively_append_iff)
    moreover have "\<forall>x\<in>set b. run_len pg (Suc n) x" using up es by simp
    ultimately show ?thesis unfolding step r by (simp add: Let_def)
  qed
qed simp

lemma unat_up: "unat (ucast (w :: u32) :: u64) = unat w"
proof -
  have "unat w < 2 ^ LENGTH(32)" by (rule unsigned_less)
  then show ?thesis by (simp add: unsigned_ucast_eq take_bit_nat_eq_self)
qed

lemma map_map2numa_runs:
  assumes "\<forall>n. ok n" "\<forall>as. query as = Some (map node as)"
    and "n = ucast ((me_end_addr e - me_start_addr e) div ucast pgsize)" "unat (n :: u32) \<le> 2 ^ 21"
    and "f = asked_addr (me_start_addr e) pgsize"
  shows "\<exists>nm. map_map2numa ok pgsize query e = Some (e\<lparr>me_numa_map := nm\<rparr>, 0) \<and>
     darr_list nm = foldl (run_add (ucast pgsize)) [] (map (\<lambda>i. (f i, node (f i))) [0..<unat n])"
proof -
  have "da_cur darr_zero = 0" by (simp add: darr_zero_def)
  then have "\<exists>nm1. map2numa_loop ok pgsize query (me_start_addr e) n 0 darr_zero None = Some (nm1, 0) \<and>
      darr_list nm1 = foldl (run_add (ucast pgsize)) [] (map (\<lambda>i. (f i, node (f i))) [0..<unat n])"
    by (intro map2numa_loop_runs [OF assms(1,2,4) _ _ _ _ _ _ assms(5)]) simp_all
  then show ?thesis using assms(3) by (auto simp: map_map2numa_def Let_def numa_map_fini_def)
qed

text \<open>
  C10: The nodes of a mapping of at most 4 GB: the entries are the pages of the
  mapping in order, each on the node the kernel reports for it, grouped into
  runs; neighbouring entries are on different nodes, so that no shorter list
  says the same.
\<close>

theorem map_map2numa_groups_pages:
  assumes "\<forall>n. ok n" "\<forall>as. query as = Some (map node as)" "2 ^ 12 \<le> unat pgsize"
    and "unat (me_end_addr e - me_start_addr e) \<le> 2 ^ 32"
  shows "\<exists>e1. map_map2numa ok pgsize query e = Some (e1, 0) \<and>
     concat (map (entry_pages (ucast pgsize)) (darr_list (me_numa_map e1))) =
       map (\<lambda>i. let a = me_start_addr e + of_nat i * ucast pgsize in (a, node a))
         [0..<unat (me_end_addr e - me_start_addr e) div unat pgsize] \<and>
     successively (\<lambda>a b. ne_nid a \<noteq> ne_nid b) (darr_list (me_numa_map e1))"
proof -
  define N where "N = unat (me_end_addr e - me_start_addr e) div unat pgsize"
  define n :: u32 where "n = ucast ((me_end_addr e - me_start_addr e) div ucast pgsize)"
  have N: "N * unat pgsize \<le> 2 ^ 32" using assms(4) by (simp add: N_def) (meson div_times_less_eq_dividend le_trans)
  then have "N * 2 ^ 12 \<le> 2 ^ 32" using assms(3) mult_le_mono2 [of "2 ^ 12" "unat pgsize" N] by linarith
  then have N20: "N \<le> 2 ^ 20" by simp
  have pg: "unat (ucast pgsize :: u64) = unat pgsize" by (rule unat_up)
  have "unat ((me_end_addr e - me_start_addr e) div ucast pgsize) = N" by (simp only: N_def unat_div pg)
  then have nN: "unat n = N" using N20 unfolding n_def unsigned_ucast_eq by (simp add: take_bit_nat_eq_self)
  have f: "asked_addr (me_start_addr e) pgsize i = me_start_addr e + of_nat i * ucast pgsize" if "i < N" for i
  proof -
    have "Suc i * unat pgsize \<le> N * unat pgsize" using that by (intro mult_le_mono1) simp
    then have i: "i * unat pgsize < 2 ^ 32" using N assms(3) by simp
    have "unat (ucast (of_nat i * pgsize :: u32) :: u64) = i * unat pgsize"
      using unat_times [of i pgsize] i assms(3) by (simp add: unat_up)
    moreover have "unat (of_nat i * ucast pgsize :: u64) = i * unat pgsize"
      using unat_times [of i "ucast pgsize :: u64"] i assms(3) by (simp add: pg)
    ultimately have "(ucast (of_nat i * pgsize :: u32) :: u64) = of_nat i * ucast pgsize" by (simp only: word_unat_eq_iff)
    then show ?thesis by (simp add: asked_addr_def)
  qed
  have eq: "map (\<lambda>i. (asked_addr (me_start_addr e) pgsize i, node (asked_addr (me_start_addr e) pgsize i))) [0..<unat n] =
      map (\<lambda>i. (me_start_addr e + of_nat i * ucast pgsize, node (me_start_addr e + of_nat i * ucast pgsize))) [0..<N]"
    unfolding nN by (rule map_cong) (simp_all add: f)
  have "unat n \<le> 2 ^ 21" using nN N20 by simp
  from map_map2numa_runs [OF assms(1,2) n_def this refl] obtain nm where
    "map_map2numa ok pgsize query e = Some (e\<lparr>me_numa_map := nm\<rparr>, 0)"
    "darr_list nm = foldl (run_add (ucast pgsize)) []
      (map (\<lambda>i. (me_start_addr e + of_nat i * ucast pgsize, node (me_start_addr e + of_nat i * ucast pgsize))) [0..<N])"
    unfolding eq by blast
  moreover have "N * unat (ucast pgsize :: u64) < 2 ^ 64" "0 < unat (ucast pgsize :: u64)" using N assms(3) by (simp_all add: pg)
  ultimately show ?thesis
    using run_add_pages [of N "ucast pgsize" "me_start_addr e" "\<lambda>i. node (me_start_addr e + of_nat i * ucast pgsize)"]
    by (simp add: Let_def flip: N_def)
qed

definition map_demo :: "u64 \<Rightarrow> map_entry" where
  "map_demo sz = map_entry_zero\<lparr>me_start_addr := 0x10000, me_end_addr := 0x10000 + sz\<rparr>"

definition query_demo :: "u64 list \<Rightarrow> int list option" where
  "query_demo as = Some (map (\<lambda>a. if a < 0x12000 then 0 else 1) as)"

theorem map_map2numa_groups_pages_witness:
  "\<exists>e1. map_map2numa (\<lambda>_. True) 4096 query_demo (map_demo 0x3000) = Some (e1, 0) \<and>
     concat (map (entry_pages 4096) (darr_list (me_numa_map e1))) = [(0x10000, 0), (0x11000, 0), (0x12000, 1)]"
proof -
  have "[0..<3] = [0, 1, 2::nat]" by (simp add: upt_rec)
  then show ?thesis
    using map_map2numa_groups_pages [of "\<lambda>_. True" query_demo "\<lambda>a. if a < 0x12000 then 0 else 1" 4096 "map_demo 0x3000"]
    by (auto simp: query_demo_def map_demo_def)
qed

text \<open>
  Beyond 4 GB the product of the page number and the page size wraps around
  in 32 bits: of a mapping one page longer than 4 GB the last page is never
  asked for, and the list ends with the first page a second time.
\<close>

theorem huge_mapping_repeats_first_page:
  assumes "\<forall>n. ok n" "\<forall>as. query as = Some (map node as)"
    and "me_end_addr e = me_start_addr e + 0x100001000"
  shows "\<exists>e1. map_map2numa ok 4096 query e = Some (e1, 0) \<and>
     last (darr_list (me_numa_map e1)) = \<lparr>ne_start_addr = me_start_addr e, ne_end_addr = me_start_addr e + 4096,
       ne_nid = node (me_start_addr e)\<rparr> \<and>
     me_end_addr e - 4096 \<notin> fst ` set (concat (map (entry_pages 4096) (darr_list (me_numa_map e1))))"
proof -
  let ?s = "me_start_addr e" and ?f = "asked_addr (me_start_addr e) 4096"
  define L where "L = foldl (run_add 4096) [] (map (\<lambda>i. (?s + of_nat i * 4096, node (?s + of_nat i * 4096))) [0..<2 ^ 20])"
  have f: "?f i = ?s + of_nat i * 4096" if "i < 2 ^ 20" for i
  proof -
    have i: "i * unat (4096 :: u32) < 2 ^ LENGTH(32)" "i * unat (4096 :: u64) < 2 ^ LENGTH(64)" using that by simp_all
    have "unat (ucast (of_nat i * 4096 :: u32) :: u64) = unat (of_nat i * 4096 :: u64)"
      using unat_times [OF i(1)] unat_times [OF i(2)] by (simp add: unat_up)
    then have "(ucast (of_nat i * 4096 :: u32) :: u64) = of_nat i * 4096" by (simp only: word_unat_eq_iff)
    then show ?thesis by (simp add: asked_addr_def)
  qed
  have wrap: "?f (2 ^ 20) = ?s" by (simp add: asked_addr_def)
  have n: "(0x100001 :: u32) = ucast ((me_end_addr e - ?s) div ucast (4096 :: u32))" "unat (0x100001 :: u32) = Suc (2 ^ 20)"
    by (simp_all add: assms(3))
  have "unat (0x100001 :: u32) \<le> 2 ^ 21" by simp
  from map_map2numa_runs [OF assms(1,2) n(1) this refl] obtain nm where
    nm: "map_map2numa ok 4096 query e = Some (e\<lparr>me_numa_map := nm\<rparr>, 0)"
      "darr_list nm = foldl (run_add 4096) [] (map (\<lambda>i. (?f i, node (?f i))) [0..<Suc (2 ^ 20)])"
    unfolding n(2) by auto
  have "map (\<lambda>i. (?f i, node (?f i))) [0..<2 ^ 20] = map (\<lambda>i. (?s + of_nat i * 4096, node (?s + of_nat i * 4096))) [0..<2 ^ 20]"
    by (rule map_cong) (simp_all add: f)
  then have l: "darr_list nm = run_add 4096 L (?s, node ?s)"
    unfolding nm(2) upt_Suc_append [OF le0] map_append foldl_append L_def by (simp only: wrap list.map foldl.simps)
  have "(2 ^ 20) * unat (4096 :: u64) < 2 ^ 64" "0 < unat (4096 :: u64)" by simp_all
  from run_add_pages [OF this, of ?s "\<lambda>i. node (?s + of_nat i * 4096)", folded L_def]
  have L: "concat (map (entry_pages 4096) L) = map (\<lambda>i. (?s + of_nat i * 4096, node (?s + of_nat i * 4096))) [0..<2 ^ 20]"
    "L \<noteq> []" "ne_end_addr (last L) = ?s + of_nat (2 ^ 20) * 4096"
    by (simp_all add: Let_def)
  let ?e = "\<lparr>ne_start_addr = ?s, ne_end_addr = ?s + 4096, ne_nid = node ?s\<rparr>"
  have r: "darr_list nm = L @ [?e]" unfolding l run_add_def using L(3) by simp
  have "entry_pages 4096 ?e = [(?s, node ?s)]" by (simp add: entry_pages_def)
  then have cov: "concat (map (entry_pages 4096) (darr_list nm)) =
      map (\<lambda>i. (?s + of_nat i * 4096, node (?s + of_nat i * 4096))) [0..<2 ^ 20] @ [(?s, node ?s)]"
    unfolding r map_append concat_append L(1) by simp
  have "?s + 0x100000000 \<noteq> ?s + of_nat i * 4096" if "i < 2 ^ 20" for i
  proof -
    have "i * unat (4096 :: u64) < 2 ^ LENGTH(64)" using that by simp
    from unat_times [OF this] have "unat (of_nat i * 4096 :: u64) < 2 ^ 32" using that by simp
    then have "(of_nat i * 4096 :: u64) \<noteq> 0x100000000" by auto
    then show ?thesis by simp
  qed
  then have "?s + 0x100000000 \<notin> fst ` set (concat (map (entry_pages 4096) (darr_list nm)))" unfolding cov by auto
  moreover have "last (darr_list nm) = ?e" using r by simp
  moreover have "me_end_addr e - 4096 = ?s + 0x100000000" by (simp add: assms(3))
  moreover have "me_numa_map (e\<lparr>me_numa_map := nm\<rparr>) = nm" by simp
  ultimately show ?thesis using nm(1) by metis
qed

theorem huge_mapping_repeats_first_page_witness:
  "\<exists>e1. map_map2numa (\<lambda>_. True) 4096 query_demo (map_demo 0x100001000) = Some (e1, 0) \<and>
     last (darr_list (me_numa_map e1)) = \<lparr>ne_start_addr = 0x10000, ne_end_addr = 0x11000, ne_nid = 0\<rparr>"
  using huge_mapping_repeats_first_page [of "\<lambda>_. True" query_demo "\<lambda>a. if a < 0x12000 then 0 else 1" "map_demo 0x100001000"]
  by (auto simp: query_demo_def map_demo_def)

section \<open>The distribution of accesses\<close>

text \<open>The accesses of a node among pairs of a node and a latency.\<close>

definition accesses :: "(int \<times> int) list \<Rightarrow> nat \<Rightarrow> int list" where
  "accesses ps n = map snd (filter (\<lambda>p. fst p = int n) ps)"

lemma nodedst_loop_result:
  assumes "nnodes \<le> length dst" "0 \<le> tot" "tot + int (length ps) < 2 ^ 31"
    and "\<forall>n<nnodes. nd_naccess (dst ! n) + int (length ps) < 2 ^ 31"
  shows "\<exists>dst1. nodedst_loop nnodes ps dst tot =
      Some (dst1, tot + int (length (filter (\<lambda>p. 0 \<le> fst p \<and> fst p < int nnodes) ps))) \<and>
    length dst1 = length dst \<and> (\<forall>n<length dst. nnodes \<le> n \<longrightarrow> dst1 ! n = dst ! n) \<and>
    (\<forall>n<nnodes. nd_naccess (dst1 ! n) = nd_naccess (dst ! n) + int (length (accesses ps n)) \<and>
       nd_total_lat (dst1 ! n) = nd_total_lat (dst ! n) + word_of_int (sum_list (accesses ps n)))"
  using assms
proof (induction ps arbitrary: dst tot)
  case (Cons p ps)
  obtain nid lat where p: "p = (nid, lat)" by (cases p)
  show ?case
  proof (cases "0 \<le> nid \<and> nid < int nnodes")
    case False
    then have "accesses (p # ps) n = accesses ps n" if "n < nnodes" for n using that by (auto simp: accesses_def p)
    moreover have "nodedst_loop nnodes (p # ps) dst tot = nodedst_loop nnodes ps dst tot"
      "filter (\<lambda>p. 0 \<le> fst p \<and> fst p < int nnodes) (p # ps) = filter (\<lambda>p. 0 \<le> fst p \<and> fst p < int nnodes) ps"
      using False by (auto simp: p)
    moreover have "tot + int (length ps) < 2 ^ 31" "\<forall>n<nnodes. nd_naccess (dst ! n) + int (length ps) < 2 ^ 31"
      using Cons.prems(3,4) by (simp, fastforce)
    ultimately show ?thesis using Cons.IH [OF Cons.prems(1,2)] by presburger
  next
    case True
    define k where "k = nat nid"
    have k1: "nid = int k" using True by (simp add: k_def)
    then have k: "nid = int k" "k < nnodes" "k < length dst" using True Cons.prems(1) by simp_all
    let ?v = "dst ! k"
    let ?v1 = "?v\<lparr>nd_naccess := nd_naccess ?v + 1, nd_total_lat := nd_total_lat ?v + word_of_int lat\<rparr>"
    have bound: "nd_naccess ?v + 1 < 2 ^ 31" "tot + 1 < 2 ^ 31" using Cons.prems k by force+
    have "nnodes \<le> length (dst[k := ?v1])" "0 \<le> tot + 1" "tot + 1 + int (length ps) < 2 ^ 31"
      "\<forall>n<nnodes. nd_naccess (dst[k := ?v1] ! n) + int (length ps) < 2 ^ 31"
      using Cons.prems k by (auto simp: nth_list_update)
    from Cons.IH [OF this] obtain dst1 where d: "nodedst_loop nnodes ps (dst[k := ?v1]) (tot + 1) =
        Some (dst1, tot + 1 + int (length (filter (\<lambda>p. 0 \<le> fst p \<and> fst p < int nnodes) ps)))"
      "length dst1 = length dst" "\<forall>n<length dst. nnodes \<le> n \<longrightarrow> dst1 ! n = dst[k := ?v1] ! n"
      "\<forall>n<nnodes. nd_naccess (dst1 ! n) = nd_naccess (dst[k := ?v1] ! n) + int (length (accesses ps n)) \<and>
       nd_total_lat (dst1 ! n) = nd_total_lat (dst[k := ?v1] ! n) + word_of_int (sum_list (accesses ps n))"
      by auto
    have l: "nodedst_loop nnodes (p # ps) dst tot = nodedst_loop nnodes ps (dst[k := ?v1]) (tot + 1)"
      using True k bound by (simp add: p inc_int_def)
    have a: "accesses (p # ps) n = (if n = k then lat # accesses ps n else accesses ps n)" for n
      by (auto simp: accesses_def p k(1))
    have "\<forall>n<nnodes. nd_naccess (dst1 ! n) = nd_naccess (dst ! n) + int (length (accesses (p # ps) n)) \<and>
       nd_total_lat (dst1 ! n) = nd_total_lat (dst ! n) + word_of_int (sum_list (accesses (p # ps) n))"
      using d(4) k(3) Cons.prems(1) by (simp add: a nth_list_update)
    moreover have "\<forall>n<length dst. nnodes \<le> n \<longrightarrow> dst1 ! n = dst ! n" using d(3) k(2) by auto
    ultimately show ?thesis using d(1,2) l True by (simp add: p)
  qed
qed (simp add: accesses_def)

text \<open>
  C25: The distribution of accesses over the nodes: every address counts for
  the node its page is on, with its latency, and the total is the number of
  addresses on one of the nodes; addresses without a node (a negative status)
  are left out.
\<close>

theorem map_addr2nodedst_counts:
  assumes "addrs \<noteq> []" "query addrs = Some st" "length st = length addrs" "length addrs = length lats"
    and "nnodes \<le> length dst" "int (length addrs) < 2 ^ 30" "\<forall>n<nnodes. nd_naccess (dst ! n) < 2 ^ 30"
  shows "\<exists>dst1. map_addr2nodedst True query addrs lats dst nnodes =
      Some (dst1, Some (int (length (filter (\<lambda>s. 0 \<le> s \<and> s < int nnodes) st))), 0) \<and>
    length dst1 = length dst \<and> (\<forall>n<length dst. nnodes \<le> n \<longrightarrow> dst1 ! n = dst ! n) \<and>
    (\<forall>n<nnodes. nd_naccess (dst1 ! n) = nd_naccess (dst ! n) + int (length (accesses (zip st lats) n)) \<and>
       nd_total_lat (dst1 ! n) = nd_total_lat (dst ! n) + word_of_int (sum_list (accesses (zip st lats) n)))"
proof -
  have "length (filter (\<lambda>p. P (fst p)) (zip xs ys)) = length (filter P xs)" if "length xs = length ys"
    for P :: "int \<Rightarrow> bool" and xs ys :: "int list"
    using that by (induction xs ys rule: list_induct2) simp_all
  from this [of st lats "\<lambda>s. 0 \<le> s \<and> s < int nnodes"]
  have f: "length (filter (\<lambda>p. 0 \<le> fst p \<and> fst p < int nnodes) (zip st lats)) =
      length (filter (\<lambda>s. 0 \<le> s \<and> s < int nnodes) st)" using assms(3,4) by simp
  have "length (zip st lats) = length addrs" using assms(3,4) by simp
  then have "0 + int (length (zip st lats)) < 2 ^ 31" "\<forall>n<nnodes. nd_naccess (dst ! n) + int (length (zip st lats)) < 2 ^ 31"
    using assms(6,7) by force+
  from nodedst_loop_result [OF assms(5) _ this] show ?thesis
    using assms(1-4) by (auto simp: map_addr2nodedst_def f)
qed

theorem map_addr2nodedst_counts_witness:
  "\<exists>dst1. map_addr2nodedst True query_demo [0x10000, 0x13000, 0x14000] [5, 100, 20]
       (replicate 2 \<lparr>nd_naccess = 0, nd_total_lat = 0\<rparr>) 2 = Some (dst1, Some 3, 0) \<and>
     dst1 = [\<lparr>nd_naccess = 1, nd_total_lat = 5\<rparr>, \<lparr>nd_naccess = 2, nd_total_lat = 120\<rparr>]"
proof -
  have z: "replicate 2 z = [z, z]" for z :: map_nodedst by (simp add: eval_nat_numeral)
  have n: "(\<forall>n<2. P n) \<longleftrightarrow> P 0 \<and> P (1::nat)" for P by (auto simp: less_2_cases_iff)
  from map_addr2nodedst_counts [of "[0x10000, 0x13000, 0x14000]" query_demo "[0, 1, 1]" "[5, 100, 20]" 2
      "[\<lparr>nd_naccess = 0, nd_total_lat = 0\<rparr>, \<lparr>nd_naccess = 0, nd_total_lat = 0\<rparr>]"]
  obtain dst1 where d: "map_addr2nodedst True query_demo [0x10000, 0x13000, 0x14000] [5, 100, 20]
       [\<lparr>nd_naccess = 0, nd_total_lat = 0\<rparr>, \<lparr>nd_naccess = 0, nd_total_lat = 0\<rparr>] 2 = Some (dst1, Some 3, 0)"
     "length dst1 = 2" "nd_naccess (dst1 ! 0) = 1" "nd_total_lat (dst1 ! 0) = 5" "nd_naccess (dst1 ! 1) = 2"
     "nd_total_lat (dst1 ! 1) = 120"
    by (auto simp: query_demo_def accesses_def n)
  then obtain a b where "dst1 = [a, b]" by (auto simp: eval_nat_numeral length_Suc_conv)
  with d show ?thesis unfolding z by (cases a; cases b) simp
qed

end
