(* ===== verification/Sym.thy ===== *)
theory Sym
  imports ProcMap
begin

unbundle bit_operations_syntax

text \<open>
  The symbols of a tracked process (common/os/sym.c): reading the symbol tables
  of ELF files, the table of the program and the list of libraries, and the
  resolution of an address.  A file is the string of its bytes; the file system,
  what malloc answers for a number of bytes and the doubling of arrays are
  parameters.  The functions for 32-bit and 64-bit files are written twice in
  the source and differ only in the layout of the structures of elf.h, which is
  a record here.  None is undefined behaviour: a read or write outside a
  buffer, a division by zero.
\<close>

section \<open>Files\<close>

text \<open>fseek refuses an offset that is negative as a long; fread of one object of n bytes.\<close>

definition fseek_ok :: "u64 \<Rightarrow> bool" where
  "fseek_ok off \<longleftrightarrow> unat off < 2 ^ 63"

definition fread :: "string \<Rightarrow> nat \<Rightarrow> nat \<Rightarrow> string option" where
  "fread file pos n = (if 0 < n \<and> pos + n \<le> length file then Some (take n (drop pos file)) else None)"

text \<open>A little-endian number of w bytes at an offset of a structure.\<close>

fun le_val :: "string \<Rightarrow> nat" where
  "le_val [] = 0"
| "le_val (c # cs) = of_char c + 256 * le_val cs"

definition field :: "string \<Rightarrow> nat \<times> nat \<Rightarrow> u64" where
  "field st f = of_nat (le_val (take (snd f) (drop (fst f) st)))"

text \<open>
  Sizes, and offset and width of the fields, of the structures of elf.h.
\<close>

record elf_layout =
  ehdr_size :: nat
  phdr_size :: nat
  shdr_size :: nat
  sym_size :: nat
  e_phoff :: "nat \<times> nat"
  e_shoff :: "nat \<times> nat"
  e_phnum :: "nat \<times> nat"
  e_shentsize :: "nat \<times> nat"
  e_shnum :: "nat \<times> nat"
  e_shstrndx :: "nat \<times> nat"
  p_type :: "nat \<times> nat"
  p_flags :: "nat \<times> nat"
  p_vaddr :: "nat \<times> nat"
  sh_name :: "nat \<times> nat"
  sh_offset :: "nat \<times> nat"
  sh_size :: "nat \<times> nat"
  sh_entsize :: "nat \<times> nat"
  st_name :: "nat \<times> nat"
  st_value :: "nat \<times> nat"
  st_size :: "nat \<times> nat"
  st_info :: "nat \<times> nat"

definition elf32 :: elf_layout where
  "elf32 = \<lparr>ehdr_size = 52, phdr_size = 32, shdr_size = 40, sym_size = 16,
     e_phoff = (28, 4), e_shoff = (32, 4), e_phnum = (44, 2), e_shentsize = (46, 2), e_shnum = (48, 2),
     e_shstrndx = (50, 2), p_type = (0, 4), p_flags = (24, 4), p_vaddr = (8, 4),
     sh_name = (0, 4), sh_offset = (16, 4), sh_size = (20, 4), sh_entsize = (36, 4),
     st_name = (0, 4), st_value = (4, 4), st_size = (8, 4), st_info = (12, 1)\<rparr>"

definition elf64 :: elf_layout where
  "elf64 = \<lparr>ehdr_size = 64, phdr_size = 56, shdr_size = 64, sym_size = 24,
     e_phoff = (32, 8), e_shoff = (40, 8), e_phnum = (56, 2), e_shentsize = (58, 2), e_shnum = (60, 2),
     e_shstrndx = (62, 2), p_type = (0, 4), p_flags = (4, 4), p_vaddr = (16, 8),
     sh_name = (0, 4), sh_offset = (24, 8), sh_size = (32, 8), sh_entsize = (56, 8),
     st_name = (0, 4), st_value = (8, 8), st_size = (16, 8), st_info = (4, 1)\<rparr>"

section \<open>Data\<close>

definition SYM_ITEM_NUM :: int where "SYM_ITEM_NUM = 1024"
definition SYM_NAME_SIZE :: nat where "SYM_NAME_SIZE = 32"
definition SYM_LIB_NUM :: int where "SYM_LIB_NUM = 16"
definition INVALID_LOADADDR :: u64 where "INVALID_LOADADDR = - 1"

datatype sym_class = SYM_CLASS_INVALID | SYM_CLASS_ELF32 | SYM_CLASS_ELF64
datatype sym_type = SYM_TYPE_FUNC | SYM_TYPE_OBJECT

record sym_item =
  si_name :: string
  si_type :: sym_type
  si_index :: nat
  si_off :: u64
  si_size :: u64

definition sym_item_zero :: sym_item where
  "sym_item_zero = \<lparr>si_name = [], si_type = SYM_TYPE_FUNC, si_index = 0, si_off = 0, si_size = 0\<rparr>"

text \<open>sizeof (sym_item_t) on a 64-bit system.\<close>

definition sym_item_bytes :: int where "sym_item_bytes = 32 + 4 + 4 + 8 + 8"

text \<open>The open file of a binary is an argument of the functions that read it.\<close>

record sym_binary =
  sb_items :: "sym_item darr"
  sb_path :: string

definition sym_binary_zero :: sym_binary where
  "sym_binary_zero = \<lparr>sb_items = darr_zero, sb_path = []\<rparr>"

definition sym_binary_fini :: "sym_binary \<Rightarrow> sym_binary" where
  "sym_binary_fini binary = sym_binary_zero"

section \<open>Reading an ELF file\<close>

definition magic_match :: "string \<Rightarrow> bool" where
  "magic_match ident \<longleftrightarrow> take 4 ident = [CHR 0x7F, CHR ''E'', CHR ''L'', CHR ''F'']"

definition elf_class :: "string \<Rightarrow> sym_class" where
  "elf_class file =
     (case fread file 0 16 of
        None \<Rightarrow> SYM_CLASS_INVALID
      | Some e_ident \<Rightarrow>
          if \<not> magic_match e_ident then SYM_CLASS_INVALID
          else if e_ident ! 4 = CHR 0x01 then SYM_CLASS_ELF32
          else if e_ident ! 4 = CHR 0x02 then SYM_CLASS_ELF64
          else SYM_CLASS_INVALID)"

text \<open>The first loadable segment with one of the flags, among the next n program headers from pos on.\<close>

fun seg_find :: "elf_layout \<Rightarrow> string \<Rightarrow> u64 \<Rightarrow> nat \<Rightarrow> nat \<Rightarrow> u64" where
  "seg_find L file flags pos 0 = INVALID_LOADADDR"
| "seg_find L file flags pos (Suc n) =
     (case fread file pos (phdr_size L) of
        None \<Rightarrow> INVALID_LOADADDR
      | Some phdr \<Rightarrow>
          if field phdr (p_type L) = 1 \<and> field phdr (p_flags L) AND flags \<noteq> 0 then field phdr (p_vaddr L)
          else seg_find L file flags (pos + phdr_size L) n)"

definition seg_loadaddr :: "elf_layout \<Rightarrow> string \<Rightarrow> u64 \<Rightarrow> nat \<Rightarrow> u64 \<Rightarrow> u64" where
  "seg_loadaddr L file phoff phnum flags =
     (if \<not> fseek_ok phoff then INVALID_LOADADDR else seg_find L file flags (unat phoff) phnum)"

definition elf32_seg_loadaddr :: "string \<Rightarrow> u64 \<Rightarrow> nat \<Rightarrow> u64 \<Rightarrow> u64" where
  "elf32_seg_loadaddr = seg_loadaddr elf32"

definition elf64_seg_loadaddr :: "string \<Rightarrow> u64 \<Rightarrow> nat \<Rightarrow> u64 \<Rightarrow> u64" where
  "elf64_seg_loadaddr = seg_loadaddr elf64"

text \<open>strncpy of at most n bytes: None when it reads behind the buffer.\<close>

fun strncpy :: "nat \<Rightarrow> string \<Rightarrow> string option" where
  "strncpy 0 s = Some []"
| "strncpy (Suc n) [] = None"
| "strncpy (Suc n) (c # s) = (if c = CHR 0x00 then Some [] else map_option (Cons c) (strncpy n s))"

definition sym_item_add ::
  "(int \<Rightarrow> bool) \<Rightarrow> sym_binary \<Rightarrow> string \<Rightarrow> u64 \<Rightarrow> u64 \<Rightarrow> sym_type \<Rightarrow> u64 \<Rightarrow> (sym_binary \<times> int) option" where
  "sym_item_add ok binary sym_name sym_addr sz sym_type load_addr =
     do {
       (items, r) \<leftarrow> array_alloc ok sym_item_bytes SYM_ITEM_NUM sym_item_zero (sb_items binary);
       if r \<noteq> 0 then Some (binary\<lparr>sb_items := items\<rparr>, -1)
       else do {
         arr \<leftarrow> da_arr items;
         item \<leftarrow> arr_get arr (da_cur items);
         name \<leftarrow> strncpy SYM_NAME_SIZE sym_name;
         arr1 \<leftarrow> arr_set arr (da_cur items)
           (item\<lparr>si_name := take (SYM_NAME_SIZE - 1) name, si_type := sym_type,
                 si_off := sym_addr - load_addr, si_size := sz\<rparr>);
         Some (binary\<lparr>sb_items := items\<lparr>da_arr := Some arr1, da_cur := da_cur items + 1\<rparr>\<rparr>, 0)
       }
     }"

text \<open>
  The loop over the n symbols from pos on; strtab is the buffer with the string
  table and a zero behind it.  Only functions of a size other than 0 are taken,
  and only when functions are asked for.
\<close>

fun copyout_loop ::
  "elf_layout \<Rightarrow> (int \<Rightarrow> bool) \<Rightarrow> string \<Rightarrow> string \<Rightarrow> u64 \<Rightarrow> sym_type \<Rightarrow> nat \<Rightarrow> nat \<Rightarrow> sym_binary \<Rightarrow> (sym_binary \<times> int) option" where
  "copyout_loop L ok file strtab load_addr ty pos 0 binary = Some (binary, 0)"
| "copyout_loop L ok file strtab load_addr ty pos (Suc n) binary =
     (case fread file pos (sym_size L) of
        None \<Rightarrow> Some (binary, -1)
      | Some st \<Rightarrow>
          let next = copyout_loop L ok file strtab load_addr ty (pos + sym_size L) n;
              kind = field st (st_info L) AND 0xf
          in if field st (st_size L) = 0 then next binary
             else (case ty of
                     SYM_TYPE_OBJECT \<Rightarrow> next binary
                   | SYM_TYPE_FUNC \<Rightarrow>
                       if kind = 2 \<or> kind = 10 then
                         do {
                           (b1, r) \<leftarrow> sym_item_add ok binary (drop (unat (field st (st_name L))) strtab)
                             (field st (st_value L)) (field st (st_size L)) ty load_addr;
                           if r \<noteq> 0 then Some (b1, -1) else next b1
                         }
                       else next binary))"

definition symtab_copyout ::
  "elf_layout \<Rightarrow> (nat \<Rightarrow> bool) \<Rightarrow> (int \<Rightarrow> bool) \<Rightarrow> string \<Rightarrow> sym_binary \<Rightarrow> u64 \<Rightarrow> int \<Rightarrow> u64 \<Rightarrow> u64 \<Rightarrow> u64 \<Rightarrow> sym_type \<Rightarrow>
   (sym_binary \<times> int) option" where
  "symtab_copyout L mem ok file binary symtab_off symtab_num strtab_off strtab_size load_addr ty =
     (if symtab_num = 0 then Some (binary, 0)
      else
        let n = unat (strtab_size + 1) in
        if n = 0 \<or> \<not> mem n then Some (binary, -1)
        else if \<not> fseek_ok strtab_off then Some (binary, -1)
        else (case fread file (unat strtab_off) (unat strtab_size) of
                None \<Rightarrow> Some (binary, -1)
              | Some s \<Rightarrow>
                  if \<not> fseek_ok symtab_off then Some (binary, -1)
                  else copyout_loop L ok file (s @ [CHR 0x00]) load_addr ty (unat symtab_off) (nat symtab_num) binary))"

definition elf32_symtab_copyout ::
  "(nat \<Rightarrow> bool) \<Rightarrow> (int \<Rightarrow> bool) \<Rightarrow> string \<Rightarrow> sym_binary \<Rightarrow> u64 \<Rightarrow> int \<Rightarrow> u64 \<Rightarrow> u64 \<Rightarrow> u64 \<Rightarrow> sym_type \<Rightarrow> (sym_binary \<times> int) option" where
  "elf32_symtab_copyout = symtab_copyout elf32"

definition elf64_symtab_copyout ::
  "(nat \<Rightarrow> bool) \<Rightarrow> (int \<Rightarrow> bool) \<Rightarrow> string \<Rightarrow> sym_binary \<Rightarrow> u64 \<Rightarrow> int \<Rightarrow> u64 \<Rightarrow> u64 \<Rightarrow> u64 \<Rightarrow> sym_type \<Rightarrow> (sym_binary \<times> int) option" where
  "elf64_symtab_copyout = symtab_copyout elf64"

definition sym_cmp :: "sym_item \<Rightarrow> sym_item \<Rightarrow> int" where
  "sym_cmp s1 s2 = (if si_off s1 < si_off s2 then -1 else if si_off s1 > si_off s2 then 1 else 0)"

text \<open>item_sort: the items in the order of their offsets, each with its index; None for a lost array.\<close>

definition item_sort :: "sym_binary \<Rightarrow> sym_binary option" where
  "item_sort binary =
     (let d = sb_items binary; n = nat (da_cur d) in
      case da_arr d of
        None \<Rightarrow> if n = 0 then Some binary else None
      | Some arr \<Rightarrow>
          if n \<le> length arr then
            let s = qsort sym_cmp (take n arr) in
            Some (binary\<lparr>sb_items := d\<lparr>da_arr := Some (map (\<lambda>i. (s ! i)\<lparr>si_index := i\<rparr>) [0..<n] @ drop n arr)\<rparr>\<rparr>)
          else None)"

text \<open>strcmp(s, lit) == 0 for a literal, byte by byte; None when s ends before a difference.\<close>

fun str_is :: "string \<Rightarrow> string \<Rightarrow> bool option" where
  "str_is s [] = (case s of [] \<Rightarrow> None | c # _ \<Rightarrow> Some (c = CHR 0x00))"
| "str_is [] (l # ls) = None"
| "str_is (c # s) (l # ls) = (if c = l then str_is s ls else Some False)"

text \<open>
  The walk over the section headers: offset and number of symbols of the last
  symbol table, and offset and size of the last string table.
\<close>

fun section_loop ::
  "elf_layout \<Rightarrow> string \<Rightarrow> string \<Rightarrow> nat \<Rightarrow> nat \<Rightarrow> u64 \<times> int \<times> u64 \<times> u64 \<Rightarrow> (u64 \<times> int \<times> u64 \<times> u64) option option" where
  "section_loop L file shstrtab pos 0 acc = Some (Some acc)"
| "section_loop L file shstrtab pos (Suc n) acc =
     (case fread file pos (shdr_size L) of
        None \<Rightarrow> Some None
      | Some shdr \<Rightarrow>
          do {
            let name = drop (unat (field shdr (sh_name L))) shstrtab;
            s1 \<leftarrow> str_is name ''.symtab'';
            issym \<leftarrow> (if s1 then Some True else str_is name ''.dynsym'');
            acc1 \<leftarrow> (if issym then
                       if field shdr (sh_entsize L) = 0 then None
                       else Some (field shdr (sh_offset L),
                              to_int32 (uint (field shdr (sh_size L) div field shdr (sh_entsize L))), snd (snd acc))
                     else Some acc);
            t1 \<leftarrow> str_is name ''.strtab'';
            isstr \<leftarrow> (if t1 then Some True else str_is name ''.dynstr'');
            let acc2 = (if isstr then (fst acc1, fst (snd acc1), field shdr (sh_offset L), field shdr (sh_size L)) else acc1);
            section_loop L file shstrtab (pos + shdr_size L) n acc2
          })"

definition binary_read ::
  "elf_layout \<Rightarrow> (nat \<Rightarrow> bool) \<Rightarrow> (int \<Rightarrow> bool) \<Rightarrow> string \<Rightarrow> sym_binary \<Rightarrow> sym_type \<Rightarrow> (sym_binary \<times> int) option" where
  "binary_read L mem ok file binary ty =
     (let fail = Some (binary, -1) in
      case fread file 0 (ehdr_size L) of
        None \<Rightarrow> fail
      | Some ehdr \<Rightarrow>
          if unat (field ehdr (e_shentsize L)) \<noteq> shdr_size L then fail
          else
            let load_addr = seg_loadaddr L file (field ehdr (e_phoff L)) (unat (field ehdr (e_phnum L))) 1;
                strhdr = field ehdr (e_shoff L) + field ehdr (e_shstrndx L) * of_nat (shdr_size L)
            in if load_addr = INVALID_LOADADDR then fail
               else if \<not> fseek_ok strhdr then fail
               else
                 (case fread file (unat strhdr) (shdr_size L) of
                    None \<Rightarrow> fail
                  | Some shdr \<Rightarrow>
                      let n = unat (field shdr (sh_size L)) in
                      if n = 0 \<or> \<not> mem n then fail
                      else if \<not> fseek_ok (field shdr (sh_offset L)) then fail
                      else
                        (case fread file (unat (field shdr (sh_offset L))) n of
                           None \<Rightarrow> fail
                         | Some shstrtab \<Rightarrow>
                             if \<not> fseek_ok (field ehdr (e_shoff L)) then fail
                             else
                               (case section_loop L file shstrtab (unat (field ehdr (e_shoff L)))
                                       (unat (field ehdr (e_shnum L))) (0, 0, 0, 0) of
                                  None \<Rightarrow> None
                                | Some None \<Rightarrow> fail
                                | Some (Some (symtab_off, symtab_num, strtab_off, strtab_size)) \<Rightarrow>
                                    do {
                                      (b1, r) \<leftarrow> symtab_copyout L mem ok file binary symtab_off symtab_num
                                        strtab_off strtab_size load_addr ty;
                                      if r \<noteq> 0 then Some (b1, -1)
                                      else do { b2 \<leftarrow> item_sort b1; Some (b2, 0) }
                                    }))))"

definition elf32_binary_read ::
  "(nat \<Rightarrow> bool) \<Rightarrow> (int \<Rightarrow> bool) \<Rightarrow> string \<Rightarrow> sym_binary \<Rightarrow> sym_type \<Rightarrow> (sym_binary \<times> int) option" where
  "elf32_binary_read = binary_read elf32"

definition elf64_binary_read ::
  "(nat \<Rightarrow> bool) \<Rightarrow> (int \<Rightarrow> bool) \<Rightarrow> string \<Rightarrow> sym_binary \<Rightarrow> sym_type \<Rightarrow> (sym_binary \<times> int) option" where
  "elf64_binary_read = binary_read elf64"

text \<open>The environment: the files by name, and what is found of memory.\<close>

record sym_env =
  se_files :: "string \<Rightarrow> string option"
  se_mem :: "nat \<Rightarrow> bool"
  se_grow :: "int \<Rightarrow> bool"

definition binary_sym_read :: "sym_env \<Rightarrow> sym_binary \<Rightarrow> sym_type \<Rightarrow> (sym_binary \<times> int) option" where
  "binary_sym_read env binary ty =
     (case se_files env (sb_path binary) of
        None \<Rightarrow> Some (binary, -1)
      | Some file \<Rightarrow>
          (case elf_class file of
             SYM_CLASS_INVALID \<Rightarrow> Some (binary, -1)
           | SYM_CLASS_ELF32 \<Rightarrow> elf32_binary_read (se_mem env) (se_grow env) file binary ty
           | SYM_CLASS_ELF64 \<Rightarrow> elf64_binary_read (se_mem env) (se_grow env) file binary ty))"

section \<open>The program and the libraries\<close>

text \<open>
  The list s_first_lib only grows at its head while processes use it: a pointer
  to a library is the number of libraries that were there before it, and the
  list of the model holds the oldest first.  The two arrays of a libref share
  their counts.  The references of a symbol table are None after sym_free,
  which leaves the freed pointers in place.
\<close>

record sym_libref =
  lr_libs :: "nat list option"
  lr_lib_loadaddr :: "u64 list option"
  lr_nlib_cur :: int
  lr_nlib_max :: int

record sym_t =
  sy_image :: sym_binary
  sy_image_loadaddr :: u64
  sy_libref :: "sym_libref option"
  sy_loaded :: bool

definition sym_zero :: sym_t where
  "sym_zero = \<lparr>sy_image = sym_binary_zero, sy_image_loadaddr = 0,
     sy_libref = Some \<lparr>lr_libs = None, lr_lib_loadaddr = None, lr_nlib_cur = 0, lr_nlib_max = 0\<rparr>, sy_loaded = False\<rparr>"

type_synonym libs = "sym_binary list"

definition sym_init :: libs where "sym_init = []"
definition sym_fini :: "libs \<Rightarrow> libs" where "sym_fini libs = []"

definition image_sym_read :: "sym_env \<Rightarrow> sym_t \<Rightarrow> map_entry \<Rightarrow> sym_type \<Rightarrow> (sym_t \<times> int) option" where
  "image_sym_read env sy me ty =
     do {
       (b, r) \<leftarrow> binary_sym_read env ((sy_image sy)\<lparr>sb_path := take (PATH_MAX - 1) (me_desc me)\<rparr>) ty;
       let s1 = sy\<lparr>sy_image := b\<rparr>;
       Some (if r \<noteq> 0 then (s1, -1)
             else (if MAP_X (me_attr me) then s1\<lparr>sy_image_loadaddr := me_start_addr me\<rparr> else s1, 0))
     }"

text \<open>lib_find walks from the newest library to the oldest.\<close>

fun lib_find_from :: "libs \<Rightarrow> string \<Rightarrow> nat \<Rightarrow> nat option" where
  "lib_find_from libs path 0 = None"
| "lib_find_from libs path (Suc n) = (if sb_path (libs ! n) = path then Some n else lib_find_from libs path n)"

definition lib_find :: "libs \<Rightarrow> string \<Rightarrow> nat option" where
  "lib_find libs path = lib_find_from libs path (length libs)"

text \<open>lib_add: ok tells whether the memory of the library itself is found.\<close>

definition lib_add :: "bool \<Rightarrow> sym_env \<Rightarrow> libs \<Rightarrow> string \<Rightarrow> sym_type \<Rightarrow> (libs \<times> nat option) option" where
  "lib_add ok env libs path ty =
     (if \<not> ok then Some (libs, None)
      else do {
        (b, r) \<leftarrow> binary_sym_read env (sym_binary_zero\<lparr>sb_path := take (PATH_MAX - 1) path\<rparr>) ty;
        Some (if r \<noteq> 0 then (libs, None) else (libs @ [b], Some (length libs)))
      })"

definition libref_add :: "(int \<Rightarrow> bool) \<Rightarrow> (int \<Rightarrow> bool) \<Rightarrow> sym_libref \<Rightarrow> nat \<Rightarrow> map_entry \<Rightarrow> (sym_libref \<times> int) option" where
  "libref_add ok1 ok2 ref lib me =
     do {
       (d1, r1) \<leftarrow> array_alloc ok1 8 SYM_LIB_NUM 0
         \<lparr>da_arr = lr_libs ref, da_cur = lr_nlib_cur ref, da_max = lr_nlib_max ref\<rparr>;
       let ref1 = ref\<lparr>lr_libs := da_arr d1, lr_nlib_cur := da_cur d1, lr_nlib_max := da_max d1\<rparr>;
       if r1 \<noteq> 0 then Some (ref1, -1)
       else do {
         (d2, r2) \<leftarrow> array_alloc ok2 8 SYM_LIB_NUM 0
           \<lparr>da_arr = lr_lib_loadaddr ref, da_cur = lr_nlib_cur ref, da_max = lr_nlib_max ref\<rparr>;
         let ref2 = ref1\<lparr>lr_lib_loadaddr := da_arr d2\<rparr>;
         if r2 \<noteq> 0 then Some (ref2, -1)
         else do {
           let i = lr_nlib_cur ref2;
           ls \<leftarrow> lr_libs ref2;
           ls1 \<leftarrow> arr_set ls i lib;
           as \<leftarrow> lr_lib_loadaddr ref2;
           as1 \<leftarrow> arr_set as i (me_start_addr me);
           Some (ref2\<lparr>lr_libs := Some ls1, lr_lib_loadaddr := Some as1, lr_nlib_cur := i + 1\<rparr>, 0)
         }
       }
     }"

definition libref_free :: "sym_t \<Rightarrow> sym_t" where
  "libref_free sy = sy\<lparr>sy_libref := None\<rparr>"

definition lib_sym_read :: "sym_env \<Rightarrow> libs \<Rightarrow> sym_t \<Rightarrow> map_entry \<Rightarrow> sym_type \<Rightarrow> (libs \<times> sym_t \<times> int) option" where
  "lib_sym_read env libs sy me ty =
     do {
       (libs1, lib) \<leftarrow> (case lib_find libs (me_desc me) of
                          Some lib \<Rightarrow> Some (libs, Some lib)
                        | None \<Rightarrow> lib_add (se_mem env 1) env libs (me_desc me) ty);
       (case lib of
          None \<Rightarrow> Some (libs1, sy, -1)
        | Some lib \<Rightarrow>
            do {
              ref \<leftarrow> sy_libref sy;
              (ref1, r) \<leftarrow> libref_add (se_grow env) (se_grow env) ref lib me;
              Some (libs1, sy\<lparr>sy_libref := Some ref1\<rparr>, if r \<noteq> 0 then -1 else 0)
            })
     }"

text \<open>
  sym_load: every mapping that still has to be resolved and can be executed is
  read, as a library when its name contains ".so"; failures are ignored.
\<close>

fun load_entries :: "sym_env \<Rightarrow> sym_type \<Rightarrow> map_entry list \<Rightarrow> libs \<Rightarrow> sym_t \<Rightarrow> (map_entry list \<times> libs \<times> sym_t) option" where
  "load_entries env ty [] libs sy = Some ([], libs, sy)"
| "load_entries env ty (e # es) libs sy =
     do {
       (e1, libs1, sym1) \<leftarrow>
         (if me_need_resolve e \<and> MAP_X (me_attr e) \<and> ty = SYM_TYPE_FUNC then
            do {
              (libs1, sym1) \<leftarrow>
                (if strstr (me_desc e) ''.so'' then
                   do { (libs1, sym1, _) \<leftarrow> lib_sym_read env libs sy e ty; Some (libs1, sym1) }
                 else do { (sym1, _) \<leftarrow> image_sym_read env sy e ty; Some (libs, sym1) });
              Some (e\<lparr>me_need_resolve := False\<rparr>, libs1, sym1)
            }
          else Some (e, libs, sy));
       (es1, libs2, sym2) \<leftarrow> load_entries env ty es libs1 sym1;
       Some (e1 # es1, libs2, sym2)
     }"

definition sym_load ::
  "sym_env \<Rightarrow> (int \<Rightarrow> bool) \<Rightarrow> string option \<Rightarrow> sym_type \<Rightarrow> map_proc \<times> libs \<times> sym_t \<Rightarrow> ((map_proc \<times> libs \<times> sym_t) \<times> int) option" where
  "sym_load env ok file ty st =
     (case st of (mp, libs, sy) \<Rightarrow>
        do {
          (mp1, r) \<leftarrow> map_proc_load ok file mp;
          if r \<noteq> 0 then Some ((mp1, libs, sy), -1)
          else do {
            arr \<leftarrow> da_arr (mp_map mp1);
            let n = nat (da_cur (mp_map mp1));
            (es, libs1, sym1) \<leftarrow> load_entries env ty (take n arr) libs sy;
            Some ((mp1\<lparr>mp_map := (mp_map mp1)\<lparr>da_arr := Some (es @ drop n arr)\<rparr>\<rparr>, libs1, sym1\<lparr>sy_loaded := True\<rparr>), 0)
          }
        })"

definition sym_free :: "sym_t \<Rightarrow> sym_t" where
  "sym_free sy =
     (if sy_loaded sy then (libref_free (sy\<lparr>sy_image := sym_binary_fini (sy_image sy)\<rparr>))\<lparr>sy_loaded := False\<rparr>
      else sy)"

section \<open>Resolving an address\<close>

definition off_cmp :: "u64 \<Rightarrow> sym_item \<Rightarrow> int" where
  "off_cmp off item = (if off \<ge> si_off item + si_size item then 1 else if off < si_off item then -1 else 0)"

text \<open>The items of a table; None for a lost array.\<close>

definition binary_items :: "sym_binary \<Rightarrow> sym_item list option" where
  "binary_items binary =
     (let n = nat (da_cur (sb_items binary)) in
      case da_arr (sb_items binary) of
        None \<Rightarrow> if n = 0 then Some [] else None
      | Some arr \<Rightarrow> if n \<le> length arr then Some (take n arr) else None)"

text \<open>
  The neighbours with the very offset: how many in front of index i, and how
  many from index i on.
\<close>

fun same_before :: "sym_item list \<Rightarrow> u64 \<Rightarrow> nat \<Rightarrow> nat" where
  "same_before xs off 0 = 0"
| "same_before xs off (Suc i) =
     (if i < length xs \<and> si_off (xs ! i) = off then Suc (same_before xs off i) else 0)"

definition same_from :: "sym_item list \<Rightarrow> u64 \<Rightarrow> nat \<Rightarrow> nat" where
  "same_from xs off i = length (takeWhile (\<lambda>it. si_off it = off) (drop i xs))"

text \<open>
  resolve: outer None is undefined, inner None the result NULL; the array of
  num items otherwise.  mem tells whether its memory is found.
\<close>

definition resolve :: "(nat \<Rightarrow> bool) \<Rightarrow> sym_binary \<Rightarrow> u64 \<Rightarrow> sym_item list option option" where
  "resolve mem binary off =
     do {
       items \<leftarrow> binary_items binary;
       r \<leftarrow> bsearch (\<lambda>it. Some (off_cmp off it)) items;
       (case r of
          None \<Rightarrow> Some None
        | Some k \<Rightarrow>
            let idx = si_index (items ! k);
                left = same_before items off idx;
                num = 1 + left + same_from items off (idx + 1);
                start = idx - left
            in if \<not> mem (nat sym_item_bytes * num) then Some None
               else if start + num \<le> length items then Some (Some (take num (drop start items)))
               else None)
     }"

fun resolve_libs :: "(nat \<Rightarrow> bool) \<Rightarrow> libs \<Rightarrow> u64 \<Rightarrow> (nat \<times> u64) list \<Rightarrow> (sym_item list \<times> u64) option option" where
  "resolve_libs mem libs addr [] = Some None"
| "resolve_libs mem libs addr ((lib, base) # ls) =
     (if lib < length libs then
        do {
          r \<leftarrow> resolve mem (libs ! lib) (addr - base);
          (case r of Some arr \<Rightarrow> Some (Some (arr, base)) | None \<Rightarrow> resolve_libs mem libs addr ls)
        }
      else None)"

definition libref_list :: "sym_libref \<Rightarrow> (nat \<times> u64) list option" where
  "libref_list ref =
     (let n = nat (lr_nlib_cur ref) in
      if n = 0 then Some []
      else do {
        ls \<leftarrow> lr_libs ref;
        as \<leftarrow> lr_lib_loadaddr ref;
        if n \<le> length ls \<and> n \<le> length as then Some (zip (take n ls) (take n as)) else None
      })"

definition sym_resolve :: "(nat \<Rightarrow> bool) \<Rightarrow> libs \<Rightarrow> sym_t \<Rightarrow> u64 \<Rightarrow> (sym_item list \<times> u64) option option" where
  "sym_resolve mem libs sy addr =
     (if \<not> sy_loaded sy then Some None
      else do {
        r \<leftarrow> resolve mem (sy_image sy) (addr - sy_image_loadaddr sy);
        (case r of
           Some arr \<Rightarrow> Some (Some (arr, sy_image_loadaddr sy))
         | None \<Rightarrow> do { ref \<leftarrow> sy_libref sy; ls \<leftarrow> libref_list ref; resolve_libs mem libs addr ls })
      })"

text \<open>The first item whose name does not start with an underscore, or the last one.\<close>

fun pick_item :: "sym_item list \<Rightarrow> sym_item option" where
  "pick_item [] = None"
| "pick_item (it # its) =
     (if si_name it = [] \<or> hd (si_name it) \<noteq> CHR ''_'' \<or> its = [] then Some it else pick_item its)"

definition resolve_unique :: "(nat \<Rightarrow> bool) \<Rightarrow> libs \<Rightarrow> sym_t \<Rightarrow> u64 \<Rightarrow> (sym_item \<times> u64) option option" where
  "resolve_unique mem libs sy addr =
     do {
       r \<leftarrow> sym_resolve mem libs sy addr;
       Some (case r of
               None \<Rightarrow> None
             | Some (arr, base) \<Rightarrow> map_option (\<lambda>it. (it, base)) (pick_item arr))
     }"

end
