(* ===== verification/SymUse.thy ===== *)
theory SymUse
  imports Sym ProcMapUse
begin

text \<open>
  Properties of the symbol tables: resolve answers the symbols an address lies
  in (resolve_finds), and loading the symbols of processes keeps every table of
  a library sorted with its indices and every reference to a library valid
  (sym_load_keeps_tables), so that resolving an address never reads outside an
  array (sym_resolve_safe).
\<close>

section \<open>Lookup in a sorted table\<close>

definition item_covers :: "u64 \<Rightarrow> sym_item \<Rightarrow> bool" where
  "item_covers off it \<longleftrightarrow> si_off it \<le> off \<and> off < si_off it + si_size it"

definition items_indexed :: "sym_item list \<Rightarrow> bool" where
  "items_indexed xs \<longleftrightarrow> sorted (map si_off xs) \<and> (\<forall>i<length xs. si_index (xs ! i) = i)"

text \<open>Two symbols share their addresses or have none in common.\<close>

definition items_apart :: "sym_item list \<Rightarrow> bool" where
  "items_apart xs \<longleftrightarrow> (\<forall>it\<in>set xs. si_off it < si_off it + si_size it) \<and>
     sorted_wrt (\<lambda>a b. si_off a = si_off b \<and> si_size a = si_size b \<or> si_off a + si_size a \<le> si_off b) xs"

lemma off_cmp_zero: "off_cmp off it = 0 \<longleftrightarrow> item_covers off it"
  by (auto simp: off_cmp_def item_covers_def)

lemma off_cmp_mono:
  assumes "items_apart xs" "i \<le> j" "j < length xs"
  shows "(off_cmp off (xs ! i) < 0 \<longrightarrow> off_cmp off (xs ! j) < 0) \<and>
    (off_cmp off (xs ! j) > 0 \<longrightarrow> off_cmp off (xs ! i) > 0)"
proof (cases "i = j")
  case False
  then have "si_off (xs ! i) = si_off (xs ! j) \<and> si_size (xs ! i) = si_size (xs ! j) \<or>
      si_off (xs ! i) + si_size (xs ! i) \<le> si_off (xs ! j)"
    using assms by (simp add: items_apart_def sorted_wrt_iff_nth_less)
  moreover have "si_off (xs ! i) < si_off (xs ! i) + si_size (xs ! i)" "si_off (xs ! j) < si_off (xs ! j) + si_size (xs ! j)"
    using assms by (simp_all add: items_apart_def)
  ultimately show ?thesis unfolding off_cmp_def by (auto split: if_splits)
qed simp

lemma same_before_le: "same_before xs off i \<le> i"
  by (induction i) auto

lemma same_before_block:
  "i \<le> length xs \<Longrightarrow> i - same_before xs off i \<le> j \<Longrightarrow> j < i \<Longrightarrow> si_off (xs ! j) = off"
proof (induction i)
  case (Suc i)
  then show ?case using same_before_le [of xs off i] by (cases "j = i") (auto split: if_splits)
qed simp

lemma same_before_stop:
  "i \<le> length xs \<Longrightarrow> same_before xs off i < i \<Longrightarrow> si_off (xs ! (i - same_before xs off i - 1)) \<noteq> off"
  by (induction i) auto

lemma same_from_le: "same_from xs off i \<le> length xs - i"
  using length_takeWhile_le [of "\<lambda>it. si_off it = off" "drop i xs"] by (simp add: same_from_def)

lemma same_from_block:
  assumes "i \<le> j" "j < i + same_from xs off i"
  shows "si_off (xs ! j) = off"
proof -
  have l: "j - i < length (takeWhile (\<lambda>it. si_off it = off) (drop i xs))" using assms by (simp add: same_from_def)
  then have "takeWhile (\<lambda>it. si_off it = off) (drop i xs) ! (j - i) = drop i xs ! (j - i)" by (rule takeWhile_nth)
  then have "drop i xs ! (j - i) \<in> set (takeWhile (\<lambda>it. si_off it = off) (drop i xs))" using l by (metis nth_mem)
  moreover have "i \<le> length xs" using assms same_from_le [of xs off i] by linarith
  ultimately show ?thesis using assms(1) by (auto dest: set_takeWhileD)
qed

lemma same_from_stop:
  assumes "i + same_from xs off i < length xs"
  shows "si_off (xs ! (i + same_from xs off i)) \<noteq> off"
  using nth_length_takeWhile [of "\<lambda>it. si_off it = off" "drop i xs"] assms by (simp add: same_from_def)

text \<open>What resolve copies: the item that was found and its neighbours with the very offset.\<close>

definition found_block :: "sym_item list \<Rightarrow> u64 \<Rightarrow> nat \<Rightarrow> sym_item list" where
  "found_block xs off k =
     take (1 + same_before xs off k + same_from xs off (k + 1)) (drop (k - same_before xs off k) xs)"

lemma resolve_block:
  assumes "binary_items b = Some xs" "\<forall>i<length xs. si_index (xs ! i) = i" "\<forall>n. mem n"
    and "bsearch (\<lambda>it. Some (off_cmp off it)) xs = Some (Some k)" "k < length xs"
  shows "resolve mem b off = Some (Some (found_block xs off k))"
  using assms same_before_le [of xs off k] same_from_le [of xs off "k + 1"]
  by (simp add: resolve_def Let_def found_block_def)

text \<open>In a sorted table, around an item at the very offset, the block is all items there.\<close>

lemma found_block_all:
  assumes "sorted (map si_off xs)" "k < length xs" "si_off (xs ! k) = off"
  shows "found_block xs off k = filter (\<lambda>it. si_off it = off) xs"
proof -
  define a n where "a = k - same_before xs off k" and "n = 1 + same_before xs off k + same_from xs off (k + 1)"
  have k: "a \<le> k" "k < a + n" "a + n = k + 1 + same_from xs off (k + 1)" "a + n \<le> length xs"
    using same_before_le [of xs off k] same_from_le [of xs off "k + 1"] assms(2) by (simp_all add: a_def n_def)
  have mono: "si_off (xs ! i) \<le> si_off (xs ! j)" if "i \<le> j" "j < length xs" for i j
    using assms(1) that by (auto simp: sorted_iff_nth_mono)
  have mid: "si_off (xs ! j) = off" if "a \<le> j" "j < a + n" for j
  proof (cases j k rule: linorder_cases)
    case less
    then show ?thesis using same_before_block [of k xs off j] that(1) assms(2) by (simp add: a_def)
  next
    case greater
    then show ?thesis using same_from_block [of "k + 1" j xs off] that(2) k(3) by simp
  qed (use assms(3) in simp)
  have before: "si_off (xs ! j) \<noteq> off" if "j < a" for j
  proof -
    have "si_off (xs ! (a - 1)) \<noteq> off"
      using same_before_stop [of k xs off] that assms(2) by (simp add: a_def)
    moreover have "si_off (xs ! (a - 1)) \<le> off" using mono [of "a - 1" k] k(1) assms(2,3) that by simp
    moreover have "si_off (xs ! j) \<le> si_off (xs ! (a - 1))" using mono [of j "a - 1"] that k(1) assms(2) by simp
    ultimately show ?thesis by simp
  qed
  have after: "si_off (xs ! j) \<noteq> off" if "a + n \<le> j" "j < length xs" for j
  proof -
    have "si_off (xs ! (a + n)) \<noteq> off" using same_from_stop [of "k + 1" xs off] that k(3) by simp
    moreover have "off \<le> si_off (xs ! (a + n))" using mono [of k "a + n"] k that assms(3) by simp
    moreover have "si_off (xs ! (a + n)) \<le> si_off (xs ! j)" using mono [of "a + n" j] that by simp
    ultimately show ?thesis by auto
  qed
  have xs: "xs = take a xs @ take n (drop a xs) @ drop (a + n) xs"
    by (metis add.commute append_take_drop_id drop_drop)
  have "filter (\<lambda>it. si_off it = off) (take a xs) = []"
    unfolding filter_empty_conv all_set_conv_all_nth using before by simp
  moreover have "filter (\<lambda>it. si_off it = off) (drop (a + n) xs) = []"
    unfolding filter_empty_conv all_set_conv_all_nth using after k(4) by simp
  moreover have "filter (\<lambda>it. si_off it = off) (take n (drop a xs)) = take n (drop a xs)"
    using mid k(4) by (auto simp: filter_id_conv in_set_conv_nth)
  ultimately have "filter (\<lambda>it. si_off it = off) xs = take n (drop a xs)"
    by (subst xs) (simp only: filter_append append_Nil append_Nil2)
  then show ?thesis by (simp add: found_block_def a_def n_def)
qed

lemma found_block_single:
  assumes "items_apart xs" "sorted (map si_off xs)" "k < length xs" "item_covers off (xs ! k)" "si_off (xs ! k) \<noteq> off"
  shows "found_block xs off k = [xs ! k]" and "\<forall>it\<in>set xs. si_off it \<noteq> off"
proof -
  have lt: "si_off (xs ! k) < off" using assms(4,5) by (auto simp: item_covers_def)
  have ne: "si_off (xs ! j) \<noteq> off" if "j < length xs" for j
  proof (cases "j \<le> k")
    case True
    then have "si_off (xs ! j) \<le> si_off (xs ! k)" using assms(2,3) by (auto simp: sorted_iff_nth_mono)
    then show ?thesis using lt by auto
  next
    case False
    then have "si_off (xs ! k) = si_off (xs ! j) \<or> si_off (xs ! k) + si_size (xs ! k) \<le> si_off (xs ! j)"
      using assms(1) that False unfolding items_apart_def sorted_wrt_iff_nth_less by (meson not_le)
    then show ?thesis using lt assms(4) by (auto simp: item_covers_def)
  qed
  then show "\<forall>it\<in>set xs. si_off it \<noteq> off" unfolding all_set_conv_all_nth by blast
  have "same_before xs off k = 0" using ne assms(3) by (cases k) auto
  moreover have "same_from xs off (k + 1) = 0"
    using same_from_block [of "k + 1" "k + 1" xs off] same_from_le [of xs off "k + 1"] ne [of "k + 1"] by (cases "k + 1 < length xs") auto
  ultimately show "found_block xs off k = [xs ! k]"
    using assms(3) by (simp add: found_block_def take_Suc_conv_app_nth)
qed

text \<open>
  C11: Resolving an offset in a table whose symbols share their addresses or have
  none in common finds a symbol exactly when one covers the offset; only such
  symbols are answered, and at the start of symbols all of them are.
\<close>

theorem resolve_finds:
  assumes "binary_items b = Some xs" "items_indexed xs" "items_apart xs" "\<forall>n. mem n"
  shows "\<exists>r. resolve mem b off = Some r \<and>
     (case r of
        None \<Rightarrow> \<forall>it\<in>set xs. \<not> item_covers off it
      | Some arr \<Rightarrow> arr \<noteq> [] \<and> set arr \<subseteq> {it \<in> set xs. item_covers off it} \<and>
          ((\<exists>it\<in>set xs. si_off it = off) \<longrightarrow> arr = filter (\<lambda>it. si_off it = off) xs))"
proof (rule bsearch_mono [of xs "\<lambda>it. Some (off_cmp off it)" "\<lambda>i. off_cmp off (xs ! i)"])
  show "(off_cmp off (xs ! i) < 0 \<longrightarrow> off_cmp off (xs ! j) < 0) \<and> (off_cmp off (xs ! j) > 0 \<longrightarrow> off_cmp off (xs ! i) > 0)"
    if "i \<le> j" "j < length xs" for i j by (rule off_cmp_mono [OF assms(3) that])
next
  fix k assume k: "bsearch (\<lambda>it. Some (off_cmp off it)) xs = Some (Some k)" "k < length xs" "off_cmp off (xs ! k) = 0"
  have s: "sorted (map si_off xs)" "\<forall>i<length xs. si_index (xs ! i) = i" using assms(2) by (simp_all add: items_indexed_def)
  have c: "item_covers off (xs ! k)" using k(3) by (simp add: off_cmp_zero)
  show ?thesis
  proof (cases "si_off (xs ! k) = off")
    case True
    have "item_covers off it" if "it \<in> set xs" "si_off it = off" for it
      using that assms(3) by (auto simp: items_apart_def item_covers_def)
    moreover have "filter (\<lambda>it. si_off it = off) xs \<noteq> []" using True nth_mem [OF k(2)] unfolding filter_empty_conv by blast
    ultimately show ?thesis
      using resolve_block [OF assms(1) s(2) assms(4) k(1,2)] found_block_all [OF s(1) k(2) True] by auto
  next
    case False
    from found_block_single [OF assms(3) s(1) k(2) c False] show ?thesis
      using resolve_block [OF assms(1) s(2) assms(4) k(1,2)] c k(2) by auto
  qed
next
  assume "bsearch (\<lambda>it. Some (off_cmp off it)) xs = Some None" "\<forall>i<length xs. off_cmp off (xs ! i) \<noteq> 0"
  then show ?thesis using assms(1) by (auto simp: resolve_def off_cmp_zero in_set_conv_nth)
qed simp

definition items_demo :: "sym_item list" where
  "items_demo =
     [\<lparr>si_name = ''_start'', si_type = SYM_TYPE_FUNC, si_index = 0, si_off = 0x100, si_size = 0x20\<rparr>,
      \<lparr>si_name = ''__memcpy'', si_type = SYM_TYPE_FUNC, si_index = 1, si_off = 0x200, si_size = 0x80\<rparr>,
      \<lparr>si_name = ''memcpy'', si_type = SYM_TYPE_FUNC, si_index = 2, si_off = 0x200, si_size = 0x80\<rparr>]"

definition binary_demo :: sym_binary where
  "binary_demo = sym_binary_zero\<lparr>sb_items := \<lparr>da_arr = Some items_demo, da_cur = 3, da_max = 3\<rparr>\<rparr>"

theorem resolve_finds_witness:
  "\<exists>arr. resolve (\<lambda>_. True) binary_demo 0x200 = Some (Some arr) \<and> map si_name arr = [''__memcpy'', ''memcpy'']"
proof -
  have b: "binary_items binary_demo = Some items_demo" by (simp add: binary_items_def binary_demo_def items_demo_def)
  have "(\<forall>i<length items_demo. P i) \<longleftrightarrow> P 0 \<and> P 1 \<and> P 2" for P
    by (auto simp: items_demo_def eval_nat_numeral less_Suc_eq)
  then have i: "items_indexed items_demo" by (simp add: items_indexed_def) (simp add: items_demo_def)
  have "items_apart items_demo" by (simp add: items_apart_def items_demo_def)
  from resolve_finds [OF b i this, where mem = "\<lambda>_. True" and off = "0x200"] show ?thesis
    by (auto simp: items_demo_def item_covers_def split: option.splits)
qed

section \<open>Well-formed tables\<close>

text \<open>
  A table is safe when its array is there and every index it stores is one of
  its items: also a table whose last reading broke off, which is not sorted.
\<close>

definition items_safe :: "sym_binary \<Rightarrow> bool" where
  "items_safe b \<longleftrightarrow> darr_ok (sb_items b) \<and>
     (\<forall>arr. da_arr (sb_items b) = Some arr \<longrightarrow>
        (\<forall>it\<in>set arr. si_index it = 0 \<or> int (si_index it) < da_cur (sb_items b)))"

definition lib_ok :: "sym_binary \<Rightarrow> bool" where
  "lib_ok b \<longleftrightarrow> items_safe b \<and> items_indexed (darr_list (sb_items b))"

definition ref_libs :: "sym_libref \<Rightarrow> nat darr" where
  "ref_libs ref = \<lparr>da_arr = lr_libs ref, da_cur = lr_nlib_cur ref, da_max = lr_nlib_max ref\<rparr>"

definition ref_addrs :: "sym_libref \<Rightarrow> u64 darr" where
  "ref_addrs ref = \<lparr>da_arr = lr_lib_loadaddr ref, da_cur = lr_nlib_cur ref, da_max = lr_nlib_max ref\<rparr>"

definition ref_ok :: "nat \<Rightarrow> sym_libref \<Rightarrow> bool" where
  "ref_ok n ref \<longleftrightarrow> darr_ok (ref_libs ref) \<and> darr_ok (ref_addrs ref) \<and> (\<forall>l\<in>set (darr_list (ref_libs ref)). l < n)"

definition sym_wf :: "libs \<Rightarrow> sym_t \<Rightarrow> bool" where
  "sym_wf libs sy \<longleftrightarrow> (\<forall>b\<in>set libs. lib_ok b) \<and> items_safe (sy_image sy) \<and>
     (\<exists>ref. sy_libref sy = Some ref \<and> ref_ok (length libs) ref)"

lemma sym_wf_init: "sym_wf sym_init sym_zero"
  by (simp add: sym_wf_def sym_init_def sym_zero_def items_safe_def sym_binary_zero_def ref_ok_def ref_libs_def ref_addrs_def
      darr_ok_def darr_list_def darr_zero_def)

text \<open>Making room while there is memory.\<close>

lemma array_alloc_all:
  assumes "array_alloc ok sz num z d = Some (d1, r)" "\<forall>n. ok n" "darr_ok d" "0 < num"
  shows "r = 0 \<and> darr_ok d1 \<and> da_cur d1 = da_cur d \<and> darr_list d1 = darr_list d \<and> da_cur d1 < da_max d1 \<and>
    (\<exists>arr. da_arr d1 = Some arr \<and> (\<forall>x\<in>set arr. x = z \<or> (\<exists>old. da_arr d = Some old \<and> x \<in> set old)))"
proof (cases "da_cur d = da_max d")
  case False
  then have "r = 0" "d1 = d" using assms(1) by (simp_all add: array_alloc_def)
  moreover have "\<exists>arr. da_arr d = Some arr" using assms(3) False by (cases "da_arr d") (simp_all add: darr_ok_def)
  ultimately show ?thesis using assms(3) False by (cases "da_arr d") (auto simp: darr_ok_def)
next
  case True
  show ?thesis
  proof (cases "da_arr d")
    case None
    then show ?thesis using assms True by (auto simp: array_alloc_def darr_ok_def darr_list_def)
  next
    case (Some arr)
    then have l: "length arr = nat (da_max d)" "0 < da_max d" using assms(3) by (auto simp: darr_ok_def)
    have "d1 = d\<lparr>da_arr := Some (take (nat (da_max d * 2)) arr @ replicate (nat (da_max d * 2) - length arr) z), da_max := da_max d * 2\<rparr>"
      "r = 0" using assms(1,2) True Some by (auto simp: array_alloc_def Let_def split: if_splits)
    then show ?thesis using assms True Some l by (auto simp: darr_ok_def darr_list_def nat_mult_distrib)
  qed
qed

lemma sym_item_add_safe:
  assumes "sym_item_add ok b name addr sz ty la = Some (b1, r)" "\<forall>n. ok n" "items_safe b"
  shows "items_safe b1 \<and> r = 0"
proof -
  from assms(1) obtain d r1 where a: "array_alloc ok sym_item_bytes SYM_ITEM_NUM sym_item_zero (sb_items b) = Some (d, r1)"
    by (auto simp: sym_item_add_def bind_eq_Some_conv)
  have d: "r1 = 0" "darr_ok d" "da_cur d = da_cur (sb_items b)" "da_cur d < da_max d"
    and ex: "\<exists>arr. da_arr d = Some arr \<and> (\<forall>x\<in>set arr. x = sym_item_zero \<or> (\<exists>old. da_arr (sb_items b) = Some old \<and> x \<in> set old))"
    using array_alloc_all [OF a assms(2)] assms(3) by (simp_all add: items_safe_def SYM_ITEM_NUM_def)
  then obtain arr where arr: "da_arr d = Some arr"
    "\<forall>x\<in>set arr. x = sym_item_zero \<or> (\<exists>old. da_arr (sb_items b) = Some old \<and> x \<in> set old)" by blast
  have idx: "\<forall>it\<in>set arr. si_index it = 0 \<or> int (si_index it) < da_cur d"
  proof
    fix it assume "it \<in> set arr"
    with arr(2) consider "it = sym_item_zero" | old where "da_arr (sb_items b) = Some old" "it \<in> set old" by blast
    then show "si_index it = 0 \<or> int (si_index it) < da_cur d"
      by cases (use assms(3) d(3) in \<open>auto simp: items_safe_def sym_item_zero_def\<close>)
  qed
  from assms(1) a arr(1) d(1) obtain item nm arr1 where
    u: "arr_get arr (da_cur d) = Some item"
      "arr_set arr (da_cur d) (item\<lparr>si_name := nm, si_type := ty, si_off := addr - la, si_size := sz\<rparr>) = Some arr1"
      "b1 = b\<lparr>sb_items := d\<lparr>da_arr := Some arr1, da_cur := da_cur d + 1\<rparr>\<rparr>" "r = 0"
    by (auto simp: sym_item_add_def bind_eq_Some_conv)
  have "item \<in> set arr" using u(1) by (auto simp: arr_get_Some)
  then have "si_index item = 0 \<or> int (si_index item) < da_cur d" using idx by blast
  then have "\<forall>it\<in>set arr1. si_index it = 0 \<or> int (si_index it) < da_cur d + 1"
    using u(2) idx set_update_subset_insert [of arr "nat (da_cur d)"] by (fastforce simp: arr_set_Some)
  then show ?thesis using u d arr(1) by (auto simp: items_safe_def darr_ok_def arr_set_Some)
qed

lemma copyout_safe:
  assumes "copyout_loop L ok file strtab la ty pos n b = Some (b1, r)" "\<forall>n. ok n" "items_safe b"
  shows "items_safe b1"
  using assms
proof (induction n arbitrary: pos b)
  case (Suc n)
  show ?case
  proof (cases "fread file pos (sym_size L)")
    case None
    then show ?thesis using Suc.prems by simp
  next
    case (Some st)
    then consider "copyout_loop L ok file strtab la ty (pos + sym_size L) n b = Some (b1, r)"
      | b2 r2 where "sym_item_add ok b (drop (unat (field st (st_name L))) strtab)
          (field st (st_value L)) (field st (st_size L)) ty la = Some (b2, r2)"
          "r2 \<noteq> 0 \<and> b1 = b2 \<or> copyout_loop L ok file strtab la ty (pos + sym_size L) n b2 = Some (b1, r)"
      using Suc.prems(1) by (auto simp: Let_def bind_eq_Some_conv split: if_splits sym_type.splits)
    then show ?thesis
    proof cases
      case 1
      then show ?thesis using Suc.IH Suc.prems(2,3) by blast
    next
      case 2
      from sym_item_add_safe [OF 2(1) Suc.prems(2,3)] 2(2) show ?thesis using Suc.IH Suc.prems(2) by blast
    qed
  qed
qed simp

lemma symtab_copyout_safe:
  assumes "symtab_copyout L mem ok file b so sn to ts la ty = Some (b1, r)" "\<forall>n. ok n" "items_safe b"
  shows "items_safe b1"
  using assms(1,3) copyout_safe [OF _ assms(2,3)]
  by (auto simp: symtab_copyout_def Let_def split: if_splits option.splits)

lemma item_sort_ok:
  assumes "item_sort b = Some b1" "items_safe b"
  shows "lib_ok b1"
proof (cases "da_arr (sb_items b)")
  case None
  then have "b1 = b" using assms(1) by (auto simp: item_sort_def Let_def split: if_splits)
  then show ?thesis using assms(2) None by (simp add: lib_ok_def items_indexed_def darr_list_def)
next
  case (Some arr)
  let ?d = "sb_items b" and ?n = "nat (da_cur (sb_items b))"
  define s where "s = qsort sym_cmp (take ?n arr)"
  have ok: "0 \<le> da_cur ?d" "da_cur ?d \<le> da_max ?d" "0 < da_max ?d" "int (length arr) = da_max ?d"
    using assms(2) Some by (simp_all add: items_safe_def darr_ok_def)
  then have n: "?n \<le> length arr" by simp
  then have len: "length s = ?n" by (simp add: s_def qs.length_eq)
  let ?new = "map (\<lambda>i. (s ! i)\<lparr>si_index := i\<rparr>) [0..<?n]"
  have b1: "b1 = b\<lparr>sb_items := ?d\<lparr>da_arr := Some (?new @ drop ?n arr)\<rparr>\<rparr>"
    using assms(1) Some n by (simp add: item_sort_def Let_def s_def)
  have "sorted (map (\<lambda>it. uint (si_off it)) s)"
    unfolding s_def by (rule qs.by_key) (auto simp: sym_cmp_def word_less_def word_le_def)
  then have "sorted (map si_off ?new)"
    using len by (auto simp: sorted_iff_nth_mono word_le_def)
  moreover have "darr_list (sb_items b1) = ?new" using b1 by (simp add: darr_list_def)
  ultimately have "items_indexed (darr_list (sb_items b1))" by (simp add: items_indexed_def)
  moreover have "items_safe b1"
    using ok n assms(2) Some set_drop_subset [of ?n arr] unfolding b1 items_safe_def by (auto simp: darr_ok_def)
  ultimately show ?thesis by (simp add: lib_ok_def)
qed

lemma binary_read_safe:
  assumes "binary_read L mem ok file b ty = Some (b1, r)" "\<forall>n. ok n" "items_safe b"
  shows "items_safe b1 \<and> (r = 0 \<longrightarrow> lib_ok b1)"
proof -
  consider "b1 = b" "r = -1"
    | so sn to ts la b2 r2 where "symtab_copyout L mem ok file b so sn to ts la ty = Some (b2, r2)"
        "r2 \<noteq> 0 \<and> b1 = b2 \<and> r = -1 \<or> r = 0 \<and> item_sort b2 = Some b1"
    using assms(1) unfolding binary_read_def Let_def
    by (simp only: split: option.splits if_splits prod.splits) (auto simp: bind_eq_Some_conv split: if_splits prod.splits)
  then show ?thesis
  proof cases
    case 2
    from symtab_copyout_safe [OF 2(1) assms(2,3)] 2(2) show ?thesis
      using item_sort_ok by (auto simp: lib_ok_def)
  qed (use assms(3) in simp)
qed

lemma binary_sym_read_safe:
  assumes "binary_sym_read env b ty = Some (b1, r)" "\<forall>n. se_grow env n" "items_safe b"
  shows "items_safe b1 \<and> (r = 0 \<longrightarrow> lib_ok b1)"
  using assms binary_read_safe
  by (auto simp: binary_sym_read_def elf32_binary_read_def elf64_binary_read_def split: option.splits sym_class.splits)

lemma image_sym_read_wf:
  assumes "image_sym_read env sy e ty = Some (sy1, r)" "\<forall>n. se_grow env n" "sym_wf libs sy"
  shows "sym_wf libs sy1"
proof -
  let ?b = "(sy_image sy)\<lparr>sb_path := take (PATH_MAX - 1) (me_desc e)\<rparr>"
  obtain b r1 where b: "binary_sym_read env ?b ty = Some (b, r1)" "sy_image sy1 = b" "sy_libref sy1 = sy_libref sy"
    using assms(1) by (auto simp: image_sym_read_def Let_def bind_eq_Some_conv split: if_splits)
  have "items_safe ?b" using assms(3) by (simp add: sym_wf_def items_safe_def)
  from binary_sym_read_safe [OF b(1) assms(2) this] b(2,3) assms(3) show ?thesis by (simp add: sym_wf_def)
qed

lemma libref_add_ok:
  assumes "libref_add ok1 ok2 ref lib e = Some (ref1, r)" "\<forall>n. ok1 n" "\<forall>n. ok2 n" "ref_ok n ref" "lib < n"
  shows "ref_ok n ref1"
proof -
  have d: "darr_ok (ref_libs ref)" "darr_ok (ref_addrs ref)" "\<forall>l\<in>set (darr_list (ref_libs ref)). l < n"
    using assms(4) by (simp_all add: ref_ok_def)
  obtain d1 r1 where a1: "array_alloc ok1 8 SYM_LIB_NUM 0 (ref_libs ref) = Some (d1, r1)"
    using assms(1) by (auto simp: libref_add_def ref_libs_def bind_eq_Some_conv)
  have d1: "r1 = 0" "darr_ok d1" "da_cur d1 = lr_nlib_cur ref" "darr_list d1 = darr_list (ref_libs ref)" "da_cur d1 < da_max d1"
    using array_alloc_all [OF a1 assms(2) d(1)] by (simp_all add: SYM_LIB_NUM_def ref_libs_def)
  obtain d2 r2 where a2: "array_alloc ok2 8 SYM_LIB_NUM 0 (ref_addrs ref) = Some (d2, r2)"
    using assms(1) a1 d1(1) by (auto simp: libref_add_def ref_libs_def ref_addrs_def bind_eq_Some_conv)
  have d2: "r2 = 0" "darr_ok d2" "da_cur d2 = lr_nlib_cur ref" "da_cur d2 < da_max d2"
    using array_alloc_all [OF a2 assms(3) d(2)] by (simp_all add: SYM_LIB_NUM_def ref_addrs_def)
  have "da_max d2 = da_max d1"
    using a1 a2 d1(1) d2(1) by (auto simp: array_alloc_def ref_libs_def ref_addrs_def Let_def split: if_splits option.splits)
      (use d in \<open>auto simp: darr_ok_def ref_libs_def ref_addrs_def\<close>)
  obtain ls as where arr: "da_arr d1 = Some ls" "da_arr d2 = Some as"
    using array_alloc_all [OF a1 assms(2) d(1)] array_alloc_all [OF a2 assms(3) d(2)] by (auto simp: SYM_LIB_NUM_def)
  let ?i = "nat (lr_nlib_cur ref)"
  have i: "?i < length ls" "?i < length as" "0 \<le> lr_nlib_cur ref"
    using d1 d2 arr by (auto simp: darr_ok_def)
  have r: "ref1 = \<lparr>lr_libs = Some (ls[?i := lib]), lr_lib_loadaddr = Some (as[?i := me_start_addr e]),
      lr_nlib_cur = lr_nlib_cur ref + 1, lr_nlib_max = da_max d1\<rparr>"
    using assms(1) a1 a2 d1(1,3) d2(1,3) arr i
    by (auto simp: libref_add_def ref_libs_def ref_addrs_def Let_def bind_eq_Some_conv arr_set_Some)
  have dd: "d1 = \<lparr>da_arr = Some ls, da_cur = lr_nlib_cur ref, da_max = da_max d1\<rparr>" using arr d1(3) by simp
  have rl: "ref_libs ref1 = d1\<lparr>da_arr := Some (ls[nat (da_cur d1) := lib]), da_cur := da_cur d1 + 1\<rparr>"
    using r arr d1(3) by (simp add: ref_libs_def)
  have ra: "ref_addrs ref1 = d2\<lparr>da_arr := Some (as[nat (da_cur d2) := me_start_addr e]), da_cur := da_cur d2 + 1\<rparr>"
    using r arr d2(3) \<open>da_max d2 = da_max d1\<close> by (simp add: ref_addrs_def)
  show ?thesis
    unfolding ref_ok_def rl ra
    using darr_push_stored(2,3) [OF d1(2,5) arr(1)] darr_push_stored(2) [OF d2(2,4) arr(2)] d1(4) d(3) assms(5) by auto
qed

lemma lib_find_less: "lib_find libs path = Some k \<Longrightarrow> k < length libs"
proof -
  have "lib_find_from libs path n = Some k \<Longrightarrow> k < n" for n by (induction n) (auto split: if_splits)
  then show "lib_find libs path = Some k \<Longrightarrow> k < length libs" by (simp add: lib_find_def)
qed

lemma ref_ok_mono: "ref_ok n ref \<Longrightarrow> n \<le> k \<Longrightarrow> ref_ok k ref"
  by (auto simp: ref_ok_def)

text \<open>What one library adds to the list: nothing, or one table at its end.\<close>

lemma lib_add_wf:
  assumes "lib_add okm env libs path ty = Some (libs1, lib)" "\<forall>n. se_grow env n" "sym_wf libs sy"
  shows "sym_wf libs1 sy \<and> (\<exists>new. libs1 = libs @ new) \<and> (\<forall>k. lib = Some k \<longrightarrow> k < length libs1)"
proof -
  let ?b = "sym_binary_zero\<lparr>sb_path := take (PATH_MAX - 1) path\<rparr>"
  have "items_safe ?b" by (simp add: items_safe_def sym_binary_zero_def) (simp add: darr_zero_def)
  then have "lib_ok b" if "binary_sym_read env ?b ty = Some (b, 0)" for b
    using binary_sym_read_safe [OF that assms(2)] by simp
  then show ?thesis
    using assms(1,3) ref_ok_mono [of "length libs" _ "Suc (length libs)"]
    by (auto simp: lib_add_def bind_eq_Some_conv sym_wf_def split: if_splits)
qed

lemma bind_pair_Some:
  "Option.bind X (\<lambda>(a, b). F a b) = Some z \<longleftrightarrow> (\<exists>a b. X = Some (a, b) \<and> F a b = Some z)"
  by (cases X) auto

lemma lib_sym_read_wf:
  assumes "lib_sym_read env libs sy e ty = Some (libs1, sy1, r)" "\<forall>n. se_grow env n" "sym_wf libs sy"
  shows "sym_wf libs1 sy1 \<and> (\<exists>new. libs1 = libs @ new)"
proof -
  obtain libs2 lib where lib: "(case lib_find libs (me_desc e) of Some lib \<Rightarrow> Some (libs, Some lib)
      | None \<Rightarrow> lib_add (se_mem env 1) env libs (me_desc e) ty) = Some (libs2, lib)"
    and rest: "(case lib of None \<Rightarrow> Some (libs2, sy, -1) | Some lib \<Rightarrow> do {
              ref \<leftarrow> sy_libref sy;
              (ref1, r) \<leftarrow> libref_add (se_grow env) (se_grow env) ref lib e;
              Some (libs2, sy\<lparr>sy_libref := Some ref1\<rparr>, if r \<noteq> 0 then -1 else 0)
            }) = Some (libs1, sy1, r)"
    using assms(1) [unfolded lib_sym_read_def, THEN bind_pair_Some [THEN iffD1]] by blast
  have l: "sym_wf libs2 sy" "\<exists>new. libs2 = libs @ new" "\<forall>k. lib = Some k \<longrightarrow> k < length libs2"
    using lib lib_add_wf [OF _ assms(2,3)] assms(3) lib_find_less by (fastforce split: option.splits)+
  show ?thesis
  proof (cases lib)
    case None
    then show ?thesis using rest l by auto
  next
    case (Some k)
    then obtain ref ref1 r1 where "sy_libref sy = Some ref"
      "libref_add (se_grow env) (se_grow env) ref k e = Some (ref1, r1)" "libs1 = libs2" "sy1 = sy\<lparr>sy_libref := Some ref1\<rparr>"
      using rest by (auto simp: bind_eq_Some_conv)
    then show ?thesis using libref_add_ok [OF _ assms(2,2)] l Some by (auto simp: sym_wf_def)
  qed
qed

lemma load_entries_wf:
  assumes "load_entries env ty es libs sy = Some (es1, libs1, sy1)" "\<forall>n. se_grow env n" "sym_wf libs sy"
  shows "sym_wf libs1 sy1 \<and> (\<exists>new. libs1 = libs @ new) \<and> length es1 = length es"
  using assms
proof (induction es arbitrary: libs sy es1)
  case (Cons e es)
  from Cons.prems(1) obtain e1 libs2 sy2 es2 where
    step: "(if me_need_resolve e \<and> MAP_X (me_attr e) \<and> ty = SYM_TYPE_FUNC then
            do {
              (libs1, sym1) \<leftarrow>
                (if strstr (me_desc e) ''.so'' then
                   do { (libs1, sym1, _) \<leftarrow> lib_sym_read env libs sy e ty; Some (libs1, sym1) }
                 else do { (sym1, _) \<leftarrow> image_sym_read env sy e ty; Some (libs, sym1) });
              Some (e\<lparr>me_need_resolve := False\<rparr>, libs1, sym1)
            }
          else Some (e, libs, sy)) = Some (e1, libs2, sy2)"
    and rest: "load_entries env ty es libs2 sy2 = Some (es2, libs1, sy1)" "es1 = e1 # es2"
    by (auto simp: bind_eq_Some_conv)
  have "sym_wf libs2 sy2 \<and> (\<exists>new. libs2 = libs @ new)"
    using step Cons.prems(3) lib_sym_read_wf [OF _ Cons.prems(2,3)] image_sym_read_wf [OF _ Cons.prems(2,3)]
    by (auto simp: bind_eq_Some_conv split: if_splits)
  then show ?case using Cons.IH [OF rest(1) Cons.prems(2)] rest(2) by auto
qed simp


text \<open>A concrete run: a mapping of a program whose file cannot be opened.\<close>

definition env_demo :: sym_env where
  "env_demo = \<lparr>se_files = (\<lambda>_. None), se_mem = (\<lambda>_. True), se_grow = (\<lambda>_. True)\<rparr>"


section \<open>Resolving\<close>

lemma bsearch_inside:
  obtains r where "bsearch (\<lambda>x. Some (c x)) xs = Some r" "\<And>i. r = Some i \<Longrightarrow> i < length xs"
proof -
  have "\<exists>r. bsearch_loop (\<lambda>x. Some (c x)) xs l u = Some r \<and> (\<forall>i. r = Some i \<longrightarrow> i < u)" for l u
  proof (induction "\<lambda>x. Some (c x)" xs l u rule: bsearch_loop.induct)
    case (1 xs l u)
    show ?case
    proof (cases "l < u")
      case True
      then have "(l + u) div 2 < u" by simp
      with True 1(1,2) [OF True refl] show ?thesis
        by (subst bsearch_loop.simps) (fastforce simp: Let_def)
    qed (simp add: bsearch_loop.simps)
  qed
  from this [of 0 "length xs"] that show ?thesis unfolding bsearch_def by blast
qed

lemma resolve_safe:
  assumes "items_safe b"
  obtains r where "resolve mem b off = Some r"
    "\<And>arr. r = Some arr \<Longrightarrow> arr \<noteq> [] \<and> set arr \<subseteq> set (darr_list (sb_items b))"
proof -
  let ?xs = "darr_list (sb_items b)"
  have b: "binary_items b = Some ?xs"
    using assms by (auto simp: binary_items_def items_safe_def darr_ok_def darr_list_def Let_def split: option.splits)
  have len: "int (length ?xs) = da_cur (sb_items b)" using assms darr_ok_length by (auto simp: items_safe_def)
  have idx: "si_index it < length ?xs" if it: "it \<in> set ?xs" for it
  proof -
    obtain arr where arr: "da_arr (sb_items b) = Some arr" "it \<in> set arr"
      using it by (cases "da_arr (sb_items b)") (auto simp: darr_list_def dest: in_set_takeD)
    then have "si_index it = 0 \<or> int (si_index it) < da_cur (sb_items b)" using assms by (auto simp: items_safe_def)
    moreover have "0 < length ?xs" using it by (cases ?xs) auto
    ultimately show ?thesis using len by linarith
  qed
  obtain r where r: "bsearch (\<lambda>it. Some (off_cmp off it)) ?xs = Some r" "\<And>i. r = Some i \<Longrightarrow> i < length ?xs"
    by (rule bsearch_inside [of "off_cmp off" ?xs]) blast
  show ?thesis
  proof (cases r)
    case None
    then show ?thesis using that [of None] b r(1) by (simp add: resolve_def)
  next
    case (Some k)
    let ?i = "si_index (?xs ! k)"
    have i: "?i < length ?xs" using idx r(2) [OF Some] by simp
    let ?blk = "found_block ?xs off ?i"
    have "?blk \<noteq> []" using i by (simp add: found_block_def)
    moreover have "set ?blk \<subseteq> set ?xs"
      unfolding found_block_def by (meson order_trans set_drop_subset set_take_subset)
    moreover have "resolve mem b off = Some (if mem (nat sym_item_bytes * (1 + same_before ?xs off ?i + same_from ?xs off (?i + 1)))
        then Some ?blk else None)"
    proof -
      have "?i - same_before ?xs off ?i + (1 + same_before ?xs off ?i + same_from ?xs off (?i + 1)) \<le> length ?xs"
        using i same_before_le [of ?xs off ?i] same_from_le [of ?xs off "?i + 1"] by linarith
      then show ?thesis using b r(1) Some by (simp add: resolve_def Let_def found_block_def del: One_nat_def)
    qed
    ultimately show ?thesis using that by (auto split: if_splits)
  qed
qed

definition table_items :: "libs \<Rightarrow> sym_t \<Rightarrow> sym_item set" where
  "table_items libs sy = (\<Union>b\<in>insert (sy_image sy) (set libs). set (darr_list (sb_items b)))"

lemma resolve_libs_safe:
  assumes "\<forall>b\<in>set libs. items_safe b" "\<forall>lb\<in>set ls. fst lb < length libs"
  shows "\<exists>r. resolve_libs mem libs addr ls = Some r \<and>
    (\<forall>arr base. r = Some (arr, base) \<longrightarrow> arr \<noteq> [] \<and> set arr \<subseteq> (\<Union>b\<in>set libs. set (darr_list (sb_items b))))"
  using assms(2)
proof (induction ls)
  case (Cons lb ls)
  obtain lib base where lb: "lb = (lib, base)" by (cases lb)
  then have l: "lib < length libs" using Cons.prems by simp
  then have "items_safe (libs ! lib)" using assms(1) by simp
  then obtain r where r: "resolve mem (libs ! lib) (addr - base) = Some r"
    "\<And>arr. r = Some arr \<Longrightarrow> arr \<noteq> [] \<and> set arr \<subseteq> set (darr_list (sb_items (libs ! lib)))"
    using resolve_safe [of "libs ! lib" mem "addr - base"] by blast
  have IH: "\<exists>r. resolve_libs mem libs addr ls = Some r \<and>
    (\<forall>arr base. r = Some (arr, base) \<longrightarrow> arr \<noteq> [] \<and> set arr \<subseteq> (\<Union>b\<in>set libs. set (darr_list (sb_items b))))"
    using Cons by simp
  show ?case
  proof (cases r)
    case None
    then show ?thesis using IH r(1) l lb by simp
  next
    case (Some arr)
    have "set arr \<subseteq> (\<Union>b\<in>set libs. set (darr_list (sb_items b)))" using r(2) [OF Some] l nth_mem by blast
    then show ?thesis using r Some l lb by simp
  qed
qed simp

lemma pick_item_mem: "arr \<noteq> [] \<Longrightarrow> \<exists>it\<in>set arr. pick_item arr = Some it"
  by (induction arr) auto

lemma resolve_unique_safe:
  assumes "sym_wf libs sy"
  shows "\<exists>r. resolve_unique mem libs sy addr = Some r \<and>
    (\<forall>it base. r = Some (it, base) \<longrightarrow> it \<in> table_items libs sy)"
proof -
  obtain ref where ref: "sy_libref sy = Some ref" "ref_ok (length libs) ref" and
    ok: "\<forall>b\<in>set libs. items_safe b" "items_safe (sy_image sy)"
    using assms by (auto simp: sym_wf_def lib_ok_def)
  obtain r where r: "resolve mem (sy_image sy) (addr - sy_image_loadaddr sy) = Some r"
    "\<And>arr. r = Some arr \<Longrightarrow> arr \<noteq> [] \<and> set arr \<subseteq> set (darr_list (sb_items (sy_image sy)))"
    using resolve_safe [OF ok(2)] by blast
  have "\<exists>ls. libref_list ref = Some ls \<and> (\<forall>lb\<in>set ls. fst lb < length libs)"
    using ref(2) by (auto simp: ref_ok_def libref_list_def ref_libs_def ref_addrs_def darr_ok_def darr_list_def Let_def
        split: option.splits dest: set_zip_leftD)
  then obtain ls where ls: "libref_list ref = Some ls" "\<forall>lb\<in>set ls. fst lb < length libs" by blast
  obtain r2 where r2: "resolve_libs mem libs addr ls = Some r2"
    "\<forall>arr base. r2 = Some (arr, base) \<longrightarrow> arr \<noteq> [] \<and> set arr \<subseteq> (\<Union>b\<in>set libs. set (darr_list (sb_items b)))"
    using resolve_libs_safe [OF ok(1) ls(2)] by blast
  have "\<exists>r. sym_resolve mem libs sy addr = Some r \<and>
      (\<forall>arr base. r = Some (arr, base) \<longrightarrow> arr \<noteq> [] \<and> set arr \<subseteq> table_items libs sy)"
  proof (cases "sy_loaded sy")
    case True
    then show ?thesis using r r2 ref(1) ls(1)
      by (cases r) (auto simp: sym_resolve_def table_items_def)
  qed (simp add: sym_resolve_def)
  then obtain rr where rr: "sym_resolve mem libs sy addr = Some rr"
    "\<forall>arr base. rr = Some (arr, base) \<longrightarrow> arr \<noteq> [] \<and> set arr \<subseteq> table_items libs sy" by blast
  show ?thesis
  proof (cases rr)
    case None
    then show ?thesis using rr(1) by (simp add: resolve_unique_def)
  next
    case (Some p)
    obtain arr base where p: "p = (arr, base)" by (cases p)
    then obtain it where "it \<in> set arr" "pick_item arr = Some it" using rr(2) Some pick_item_mem by blast
    then show ?thesis using rr Some p by (auto simp: resolve_unique_def)
  qed
qed

text \<open>
  C26: While the tables are well-formed, resolving any address of a process is
  defined: it never follows a pointer that is not there and never leaves an
  array, also after the reading of its program broke off half-way; what it
  answers is a symbol of the program or of one of the libraries.
\<close>

theorem sym_resolve_safe:
  assumes "sym_wf libs sy"
  shows "\<exists>r. resolve_unique mem libs sy addr = Some r \<and>
    (\<forall>it base. r = Some (it, base) \<longrightarrow> it \<in> table_items libs sy)"
  by (rule resolve_unique_safe [OF assms])

definition sym_demo :: sym_t where
  "sym_demo = sym_zero\<lparr>sy_image := binary_demo, sy_image_loadaddr := 0x400000, sy_loaded := True\<rparr>"

theorem sym_resolve_safe_witness:
  "\<exists>r. resolve_unique (\<lambda>_. True) sym_init sym_demo 0x400210 = Some r \<and>
     (\<forall>it base. r = Some (it, base) \<longrightarrow> it \<in> set items_demo)"
proof -
  have "sym_wf sym_init sym_demo"
    using sym_wf_init by (simp add: sym_wf_def sym_demo_def items_safe_def binary_demo_def items_demo_def darr_ok_def)
  from sym_resolve_safe [OF this, where mem = "\<lambda>_. True" and addr = "0x400210"] show ?thesis
    by (simp add: table_items_def sym_demo_def sym_init_def binary_demo_def items_demo_def darr_list_def)
qed

end
