(* ===== verification/Chain.thy ===== *)
theory Chain
  imports SymUse DList
begin

text \<open>
  The lists of call chains a call-chain window is made from (the second half of
  common/os/sym.c): an access is added to the first chain its addresses hit, or
  as a new chain with the names of its functions; the list is sorted by the
  number of accesses and taken apart chain by chain.  Chains are nodes of a
  heap with two links; the node malloc answers is an argument.
\<close>

section \<open>Data\<close>

record sym_callentry =
  ce_addr :: u64
  ce_size :: u64
  ce_name :: string

record sym_callchain =
  ca_entry_arr :: "sym_callentry list"
  ca_nentry :: nat
  ca_naccess :: int
  ca_prev :: ptr
  ca_next :: ptr

record sym_chainlist =
  cl_head :: ptr
  cl_tail :: ptr
  cl_num :: int

definition sym_chainlist_zero :: sym_chainlist where
  "sym_chainlist_zero = \<lparr>cl_head = None, cl_tail = None, cl_num = 0\<rparr>"

type_synonym chains = "sym_callchain heap"

interpretation ch: dnodes ca_next ca_prev "\<lambda>q c. c\<lparr>ca_next := q\<rparr>" "\<lambda>q c. c\<lparr>ca_prev := q\<rparr>"
  by unfold_locales simp_all

section \<open>Finding and making a chain\<close>

definition IP_HIT :: "u64 \<Rightarrow> u64 \<Rightarrow> u64 \<Rightarrow> bool" where
  "IP_HIT ip addr sz \<longleftrightarrow> ip \<ge> addr \<and> ip < addr + sz"

text \<open>The addresses are an argument with their number: the list of exactly ips_num of them.\<close>

fun ips_hit :: "sym_callentry list \<Rightarrow> u64 list \<Rightarrow> bool option" where
  "ips_hit es [] = Some True"
| "ips_hit [] (ip # ips) = None"
| "ips_hit (e # es) (ip # ips) = (if \<not> IP_HIT ip (ce_addr e) (ce_size e) then Some False else ips_hit es ips)"

definition ips_exist :: "sym_callchain \<Rightarrow> u64 list \<Rightarrow> bool option" where
  "ips_exist chain ips =
     (if length ips > ca_nentry chain then Some False else ips_hit (take (ca_nentry chain) (ca_entry_arr chain)) ips)"

partial_function (option) callchain_find :: "chains \<Rightarrow> u64 list \<Rightarrow> ptr \<Rightarrow> ptr option" where
  "callchain_find h ips p =
     (case p of
        None \<Rightarrow> Some None
      | Some a \<Rightarrow> do { c \<leftarrow> h a; hit \<leftarrow> ips_exist c ips; if hit then Some (Some a) else callchain_find h ips (ca_next c) })"

text \<open>The entry of an address: the function it lies in, or the address itself.\<close>

definition callentry :: "(nat \<Rightarrow> bool) \<Rightarrow> libs \<Rightarrow> sym_t \<Rightarrow> u64 \<Rightarrow> sym_callentry option" where
  "callentry mem libs sy ip =
     do {
       r \<leftarrow> resolve_unique mem libs sy ip;
       Some (case r of
               None \<Rightarrow> \<lparr>ce_addr = ip, ce_size = 8, ce_name = ''0x'' @ hex_str (unat ip)\<rparr>
             | Some (item, base_addr) \<Rightarrow>
                 \<lparr>ce_addr = base_addr + si_off item, ce_size = si_size item, ce_name = take (SYM_NAME_SIZE - 1) (si_name item)\<rparr>)
     }"

fun callentries :: "(nat \<Rightarrow> bool) \<Rightarrow> libs \<Rightarrow> sym_t \<Rightarrow> u64 list \<Rightarrow> sym_callentry list option" where
  "callentries mem libs sy [] = Some []"
| "callentries mem libs sy (ip # ips) =
     do { e \<leftarrow> callentry mem libs sy ip; es \<leftarrow> callentries mem libs sy ips; Some (e # es) }"

text \<open>The sizes of sym_callentry_t and sym_callchain_t; zalloc of no bytes answers NULL.\<close>

definition chain_alloc :: "(nat \<Rightarrow> bool) \<Rightarrow> libs \<Rightarrow> sym_t \<Rightarrow> u64 list \<Rightarrow> sym_callchain option option" where
  "chain_alloc mem libs sy ips =
     (if ips = [] \<or> \<not> mem (48 * length ips) then Some None
      else do {
        es \<leftarrow> callentries mem libs sy ips;
        Some (if \<not> mem 32 then None
              else Some \<lparr>ca_entry_arr = es, ca_nentry = length ips, ca_naccess = 0, ca_prev = None, ca_next = None\<rparr>)
      })"

section \<open>Linking\<close>

definition chainlist_attach_tail :: "addr \<Rightarrow> chains \<times> sym_chainlist \<Rightarrow> (chains \<times> sym_chainlist) option" where
  "chainlist_attach_tail a hl =
     (case hl of (h, l) \<Rightarrow>
        do {
          c \<leftarrow> h a;
          let tail = cl_tail l;
          let h1 = h(a \<mapsto> c\<lparr>ca_next := None, ca_prev := tail\<rparr>);
          (case tail of
             Some t \<Rightarrow> do { tc \<leftarrow> h1 t; Some (h1(t \<mapsto> tc\<lparr>ca_next := Some a\<rparr>), l\<lparr>cl_tail := Some a, cl_num := cl_num l + 1\<rparr>) }
           | None \<Rightarrow> Some (h1, l\<lparr>cl_head := Some a, cl_tail := Some a, cl_num := cl_num l + 1\<rparr>))
        })"

definition chainlist_detach :: "addr \<Rightarrow> chains \<times> sym_chainlist \<Rightarrow> (chains \<times> sym_chainlist) option" where
  "chainlist_detach a hl =
     (case hl of (h, l) \<Rightarrow>
        do {
          c \<leftarrow> h a;
          (h1, l1) \<leftarrow> (case ca_prev c of
                         Some p \<Rightarrow> do { pc \<leftarrow> h p; Some (h(p \<mapsto> pc\<lparr>ca_next := ca_next c\<rparr>), l) }
                       | None \<Rightarrow> Some (h, l\<lparr>cl_head := ca_next c\<rparr>));
          (h2, l2) \<leftarrow> (case ca_next c of
                         Some n \<Rightarrow> do { nc \<leftarrow> h1 n; Some (h1(n \<mapsto> nc\<lparr>ca_prev := ca_prev c\<rparr>), l1) }
                       | None \<Rightarrow> Some (h1, l1\<lparr>cl_tail := ca_prev c\<rparr>));
          c2 \<leftarrow> h2 a;
          Some (h2(a \<mapsto> c2\<lparr>ca_prev := None, ca_next := None\<rparr>), l2\<lparr>cl_num := cl_num l2 - 1\<rparr>)
        })"

section \<open>Adding an access\<close>

text \<open>new is the node malloc answers; the count of a chain is an int.\<close>

definition sym_callchain_add ::
  "(nat \<Rightarrow> bool) \<Rightarrow> libs \<Rightarrow> sym_t \<Rightarrow> u64 list \<Rightarrow> addr \<Rightarrow> chains \<times> sym_chainlist \<Rightarrow> ((chains \<times> sym_chainlist) \<times> int) option" where
  "sym_callchain_add mem libs sy ips new hl =
     (case hl of (h, l) \<Rightarrow>
        do {
          r \<leftarrow> callchain_find h ips (cl_head l);
          (case r of
             Some a \<Rightarrow>
               do {
                 c \<leftarrow> h a;
                 n \<leftarrow> inc_int (ca_naccess c);
                 Some ((h(a \<mapsto> c\<lparr>ca_naccess := n\<rparr>), l), 0)
               }
           | None \<Rightarrow>
               do {
                 ca \<leftarrow> chain_alloc mem libs sy ips;
                 (case ca of
                    None \<Rightarrow> Some ((h, l), -1)
                  | Some c \<Rightarrow> do { hl1 \<leftarrow> chainlist_attach_tail new (h(new \<mapsto> c), l); Some (hl1, 0) })
               })
        })"

section \<open>Sorting and taking apart\<close>

partial_function (option) max_access_from :: "chains \<Rightarrow> ptr \<Rightarrow> int \<Rightarrow> ptr \<Rightarrow> ptr option" where
  "max_access_from h p nmax found =
     (case p of
        None \<Rightarrow> Some found
      | Some a \<Rightarrow>
          do {
            c \<leftarrow> h a;
            if ca_naccess c > nmax then max_access_from h (ca_next c) (ca_naccess c) (Some a)
            else max_access_from h (ca_next c) nmax found
          })"

definition max_access_chain :: "chains \<Rightarrow> sym_chainlist \<Rightarrow> ptr option" where
  "max_access_chain h l = max_access_from h (cl_head l) (-1) None"

partial_function (option) resort_loop ::
  "chains \<Rightarrow> sym_chainlist \<Rightarrow> sym_chainlist \<Rightarrow> (chains \<times> sym_chainlist \<times> sym_chainlist) option" where
  "resort_loop h l s =
     (if cl_num l > 0 then
        do {
          r \<leftarrow> max_access_chain h l;
          (case r of
             None \<Rightarrow> Some (h, l, s)
           | Some p \<Rightarrow>
               do {
                 (h1, l1) \<leftarrow> chainlist_detach p (h, l);
                 (h2, s1) \<leftarrow> chainlist_attach_tail p (h1, s);
                 resort_loop h2 l1 s1
               })
        }
      else Some (h, l, s))"

definition sym_callchain_free :: "addr \<Rightarrow> chains \<Rightarrow> chains option" where
  "sym_callchain_free a h = do { _ \<leftarrow> h a; Some (h(a := None)) }"

partial_function (option) chainlist_free_from :: "ptr \<Rightarrow> chains \<Rightarrow> chains option" where
  "chainlist_free_from p h =
     (case p of
        None \<Rightarrow> Some h
      | Some a \<Rightarrow> do { c \<leftarrow> h a; h1 \<leftarrow> sym_callchain_free a h; chainlist_free_from (ca_next c) h1 })"

definition sym_chainlist_free :: "chains \<times> sym_chainlist \<Rightarrow> (chains \<times> sym_chainlist) option" where
  "sym_chainlist_free hl =
     (case hl of (h, l) \<Rightarrow> do { h1 \<leftarrow> chainlist_free_from (cl_head l) h; Some (h1, sym_chainlist_zero) })"

definition sym_callchain_resort :: "chains \<times> sym_chainlist \<Rightarrow> (chains \<times> sym_chainlist) option" where
  "sym_callchain_resort hl =
     (case hl of (h, l) \<Rightarrow>
        do {
          (h1, l1, sortlist) \<leftarrow> resort_loop h l sym_chainlist_zero;
          (h2, l2) \<leftarrow> sym_chainlist_free (h1, l1);
          Some (h2, sortlist)
        })"

definition sym_callchain_detach :: "chains \<times> sym_chainlist \<Rightarrow> ((chains \<times> sym_chainlist) \<times> ptr) option" where
  "sym_callchain_detach hl =
     (case hl of (h, l) \<Rightarrow>
        (case cl_head l of
           None \<Rightarrow> Some ((h, l), None)
         | Some a \<Rightarrow> do { hl1 \<leftarrow> chainlist_detach a (h, l); Some (hl1, Some a) }))"

text \<open>The number of chains and the sum of their entries.\<close>

partial_function (option) nentry_from :: "chains \<Rightarrow> ptr \<Rightarrow> nat \<times> nat \<Rightarrow> (nat \<times> nat) option" where
  "nentry_from h p acc =
     (case p of
        None \<Rightarrow> Some acc
      | Some a \<Rightarrow> do { c \<leftarrow> h a; nentry_from h (ca_next c) (fst acc + 1, snd acc + ca_nentry c) })"

definition sym_chainlist_nentry :: "chains \<times> sym_chainlist \<Rightarrow> (nat \<times> nat) option" where
  "sym_chainlist_nentry hl = nentry_from (fst hl) (cl_head (snd hl)) (0, 0)"

end
