(* ===== verification/ChainUse.thy ===== *)
theory ChainUse
  imports Chain
begin

text \<open>
  Properties of the lists of call chains: the linked lists refine lists of
  chains with their counts (chainlist_run_refines), where sorting is the stable
  sort by falling count, and the counts depend on the order of the samples
  (shorter_chain_joins_longer).
\<close>

section \<open>Well-formed lists\<close>

definition node_ok :: "sym_callchain \<Rightarrow> bool" where
  "node_ok c \<longleftrightarrow> ca_nentry c = length (ca_entry_arr c) \<and> 0 \<le> ca_naccess c"

definition cl_ok :: "chains \<Rightarrow> sym_chainlist \<Rightarrow> addr list \<Rightarrow> bool" where
  "cl_ok h l as \<longleftrightarrow> dseg ca_next ca_prev h None as None \<and> distinct as \<and> cl_head l = firstp as None \<and>
     cl_tail l = lastp None as \<and> cl_num l = int (length as) \<and> (\<forall>a\<in>set as. \<exists>c. h a = Some c \<and> node_ok c)"

definition core :: "sym_callchain \<Rightarrow> sym_callentry list \<times> nat \<times> int" where
  "core c = (ca_entry_arr c, ca_nentry c, ca_naccess c)"

text \<open>The two heaps differ in links only.\<close>

definition same_core :: "chains \<Rightarrow> chains \<Rightarrow> bool" where
  "same_core h h1 \<longleftrightarrow> (\<forall>a. map_option core (h1 a) = map_option core (h a))"

definition content :: "chains \<Rightarrow> addr list \<Rightarrow> (sym_callentry list \<times> int) list" where
  "content h as = map (\<lambda>a. (ca_entry_arr (the (h a)), ca_naccess (the (h a)))) as"

lemma same_core_refl [simp]: "same_core h h"
  by (simp add: same_core_def)

lemma same_core_trans: "same_core h h1 \<Longrightarrow> same_core h1 h2 \<Longrightarrow> same_core h h2"
  by (simp add: same_core_def)

lemma same_core_upd: "h a = Some c \<Longrightarrow> core c1 = core c \<Longrightarrow> same_core h (h(a \<mapsto> c1))"
  by (simp add: same_core_def)

lemma core_links [simp]: "core (c\<lparr>ca_next := q\<rparr>) = core c" "core (c\<lparr>ca_prev := q\<rparr>) = core c"
  by (simp_all add: core_def)

lemma same_core_node:
  assumes "same_core h h1" "h a = Some c"
  obtains c1 where "h1 a = Some c1" "ca_entry_arr c1 = ca_entry_arr c" "ca_nentry c1 = ca_nentry c" "ca_naccess c1 = ca_naccess c"
proof -
  have "map_option core (h1 a) = Some (core c)" using assms by (simp add: same_core_def)
  then show ?thesis using that by (auto simp: core_def)
qed

lemma same_core_None: "same_core h h1 \<Longrightarrow> h b = None \<Longrightarrow> h1 b = None"
  by (metis same_core_def option.map_disc_iff)

lemma content_same:
  assumes "same_core h h1" "\<forall>a\<in>set as. \<exists>c. h a = Some c"
  shows "content h1 as = content h as"
  unfolding content_def
proof (rule map_cong [OF refl])
  fix a assume "a \<in> set as"
  then obtain c where "h a = Some c" using assms(2) by blast
  then show "(ca_entry_arr (the (h1 a)), ca_naccess (the (h1 a))) = (ca_entry_arr (the (h a)), ca_naccess (the (h a)))"
    using same_core_node [OF assms(1)] by (metis option.sel)
qed

lemma nodes_same:
  assumes "same_core h h1" "\<forall>a\<in>set as. \<exists>c. h a = Some c \<and> node_ok c"
  shows "\<forall>a\<in>set as. \<exists>c. h1 a = Some c \<and> node_ok c"
proof
  fix a assume "a \<in> set as"
  then obtain c where c: "h a = Some c" "node_ok c" using assms(2) by blast
  then show "\<exists>c. h1 a = Some c \<and> node_ok c" using same_core_node [OF assms(1) c(1)] by (metis node_ok_def)
qed

lemma cl_ok_empty: "cl_ok h sym_chainlist_zero []"
  by (simp add: cl_ok_def sym_chainlist_zero_def)

section \<open>Linking\<close>

lemma attach_tail_ok:
  assumes "cl_ok h l as" "h a = Some c" "node_ok c" "a \<notin> set as"
  shows "\<exists>h1 l1. chainlist_attach_tail a (h, l) = Some (h1, l1) \<and> cl_ok h1 l1 (as @ [a]) \<and> same_core h h1 \<and>
    (\<forall>b. b \<notin> set as \<and> b \<noteq> a \<longrightarrow> h1 b = h b)"
proof (cases as rule: rev_cases)
  case Nil
  let ?h1 = "h(a \<mapsto> c\<lparr>ca_next := None, ca_prev := None\<rparr>)"
  have "chainlist_attach_tail a (h, l) = Some (?h1, l\<lparr>cl_head := Some a, cl_tail := Some a, cl_num := cl_num l + 1\<rparr>)"
    using assms(1,2) Nil by (simp add: chainlist_attach_tail_def cl_ok_def Let_def)
  moreover have "same_core h ?h1" using assms(2) by (simp add: same_core_upd)
  ultimately show ?thesis using assms Nil by (auto simp: cl_ok_def node_ok_def)
next
  case (snoc xs t)
  then obtain tc where t: "h t = Some tc" "a \<noteq> t" using assms(1,4) by (auto simp: cl_ok_def)
  let ?c = "c\<lparr>ca_next := None, ca_prev := Some t\<rparr>"
  let ?h1 = "h(t \<mapsto> tc\<lparr>ca_next := Some a\<rparr>, a \<mapsto> ?c)" and ?l1 = "l\<lparr>cl_tail := Some a, cl_num := cl_num l + 1\<rparr>"
  have e: "chainlist_attach_tail a (h, l) = Some (?h1, ?l1)"
    using assms(1,2) snoc t by (simp add: chainlist_attach_tail_def cl_ok_def Let_def fun_upd_twist)
  have d: "dseg ca_next ca_prev h None (xs @ [t]) None" "distinct (xs @ [t])" using assms(1) snoc by (simp_all add: cl_ok_def)
  have "dseg ca_next ca_prev ?h1 None (xs @ [t, a]) None"
    by (rule ch.append_node [OF d]) (use assms(4) snoc t in simp_all)
  moreover have sc: "same_core h ?h1"
    by (rule same_core_trans [of _ "h(t \<mapsto> tc\<lparr>ca_next := Some a\<rparr>)"]) (use t assms(2) in \<open>simp_all add: same_core_upd\<close>)
  moreover have "\<forall>b\<in>set as. \<exists>c. ?h1 b = Some c \<and> node_ok c" using nodes_same [OF sc] assms(1) unfolding cl_ok_def by blast
  ultimately have "cl_ok ?h1 ?l1 (as @ [a])"
    using assms snoc d by (simp add: cl_ok_def firstp_append lastp_append node_ok_def)
  then show ?thesis using e sc snoc by auto
qed

lemma detach_ok:
  assumes "cl_ok h l (xs @ a # ys)"
  shows "\<exists>h1 l1. chainlist_detach a (h, l) = Some (h1, l1) \<and> cl_ok h1 l1 (xs @ ys) \<and> same_core h h1 \<and>
    (\<forall>b. b \<notin> set (xs @ a # ys) \<longrightarrow> h1 b = h b)"
proof -
  have seg: "dseg ca_next ca_prev h None (xs @ a # ys) None" "distinct (xs @ a # ys)"
    and nodes: "\<forall>b\<in>set (xs @ a # ys). \<exists>c. h b = Some c \<and> node_ok c" using assms by (simp_all add: cl_ok_def)
  obtain c where c: "h a = Some c" "ca_prev c = lastp None xs" "ca_next c = firstp ys None"
    using dseg_node [OF seg(1)] by blast
  define h1 where "h1 = (if xs = [] then h else h(last xs \<mapsto> (the (h (last xs)))\<lparr>ca_next := firstp ys None\<rparr>))"
  define h2 where "h2 = (case ys of [] \<Rightarrow> h1 | n # _ \<Rightarrow> h1(n \<mapsto> (the (h1 n))\<lparr>ca_prev := lastp None xs\<rparr>))"
  have link: "dseg ca_next ca_prev h2 None (xs @ ys) None"
    by (rule ch.unlink [OF seg]) (simp_all add: h1_def h2_def)
  have la: "xs \<noteq> [] \<Longrightarrow> last xs \<in> set xs" by simp
  have upd: "same_core g (g(b \<mapsto> f (the (g b))))" if "\<exists>c. g b = Some c" "\<And>c. core (f c) = core c" for g b f
    using that same_core_upd by fastforce
  have sc1: "same_core h h1"
  proof (cases "xs = []")
    case False
    then have "\<exists>c. h (last xs) = Some c" using nodes la by auto
    from upd [of h "last xs" "\<lambda>c. c\<lparr>ca_next := firstp ys None\<rparr>", OF this] False show ?thesis by (simp add: h1_def)
  qed (simp add: h1_def)
  have n1: "\<exists>c. h1 b = Some c" if "b \<in> set (xs @ a # ys)" for b
    using that nodes same_core_node [OF sc1] by (metis (no_types))
  have sc2: "same_core h1 h2"
  proof (cases ys)
    case (Cons y zs)
    then have "\<exists>c. h1 y = Some c" using n1 by simp
    from upd [of h1 y "\<lambda>c. c\<lparr>ca_prev := lastp None xs\<rparr>", OF this] Cons show ?thesis by (simp add: h2_def)
  qed (simp add: h2_def)
  have sc: "same_core h h2" by (rule same_core_trans [OF sc1 sc2])
  have aa: "h1 a = Some c" "h2 a = Some c"
    using c(1) seg(2) la by (auto simp: h1_def h2_def split: list.splits)
  let ?h3 = "h2(a \<mapsto> c\<lparr>ca_prev := None, ca_next := None\<rparr>)"
  let ?l1 = "if xs = [] then l\<lparr>cl_head := firstp ys None\<rparr> else l"
  let ?l2 = "if ys = [] then ?l1\<lparr>cl_tail := lastp None xs\<rparr> else ?l1"
  have p: "(case ca_prev c of Some p \<Rightarrow> do { pc \<leftarrow> h p; Some (h(p \<mapsto> pc\<lparr>ca_next := ca_next c\<rparr>), l) }
      | None \<Rightarrow> Some (h, l\<lparr>cl_head := ca_next c\<rparr>)) = Some (h1, ?l1)"
  proof (cases "xs = []")
    case False
    then have "\<exists>c. h (last xs) = Some c" using nodes la by auto
    then obtain pc where "h (last xs) = Some pc" by blast
    then show ?thesis using False by (simp add: c lastp_def h1_def)
  qed (simp add: c h1_def)
  have n: "(case ca_next c of Some n \<Rightarrow> do { nc \<leftarrow> h1 n; Some (h1(n \<mapsto> nc\<lparr>ca_prev := ca_prev c\<rparr>), ?l1) }
      | None \<Rightarrow> Some (h1, ?l1\<lparr>cl_tail := ca_prev c\<rparr>)) = Some (h2, ?l2)"
  proof (cases ys)
    case (Cons y zs)
    then obtain nc where "h1 y = Some nc" using n1 [of y] by auto
    then show ?thesis using Cons by (simp add: c h2_def)
  qed (simp add: c h2_def)
  have e: "chainlist_detach a (h, l) = Some (?h3, ?l2\<lparr>cl_num := cl_num ?l2 - 1\<rparr>)"
    unfolding chainlist_detach_def using c(1) p n aa by (simp del: fun_upd_apply)
  have sc3: "same_core h ?h3"
    by (rule same_core_trans [OF sc]) (rule same_core_upd [where a = a and c = c], simp_all add: aa)
  have nin: "a \<notin> set (xs @ ys)" using seg(2) by simp
  have "cl_ok ?h3 (?l2\<lparr>cl_num := cl_num ?l2 - 1\<rparr>) (xs @ ys)"
    unfolding cl_ok_def
  proof (intro conjI)
    show "dseg ca_next ca_prev ?h3 None (xs @ ys) None" using link nin by simp
    show "\<forall>b\<in>set (xs @ ys). \<exists>c. ?h3 b = Some c \<and> node_ok c"
      using nodes_same [OF sc3, of "xs @ ys"] nodes by auto
  qed (use assms seg(2) in \<open>auto simp: cl_ok_def firstp_append lastp_append firstp_def lastp_def split: list.splits\<close>)
  moreover have "\<forall>b. b \<notin> set (xs @ a # ys) \<longrightarrow> ?h3 b = h b"
    using la by (auto simp: h1_def h2_def split: list.splits)
  ultimately show ?thesis using e sc3 by blast
qed

section \<open>The abstract list\<close>

text \<open>
  A chain takes an access when it has at least as many entries as the access
  has addresses and each of those lies in its entry.
\<close>

definition takes :: "sym_callentry list \<Rightarrow> u64 list \<Rightarrow> bool" where
  "takes es ips \<longleftrightarrow> length ips \<le> length es \<and> (\<forall>(e, ip)\<in>set (zip es ips). IP_HIT ip (ce_addr e) (ce_size e))"

fun abs_add :: "(u64 \<Rightarrow> sym_callentry) \<Rightarrow> u64 list \<Rightarrow> (sym_callentry list \<times> int) list \<Rightarrow> (sym_callentry list \<times> int) list" where
  "abs_add entry ips [] = (if ips = [] then [] else [(map entry ips, 0)])"
| "abs_add entry ips (c # cs) = (if takes (fst c) ips then (fst c, snd c + 1) # cs else c # abs_add entry ips cs)"

definition abs_resort :: "(sym_callentry list \<times> int) list \<Rightarrow> (sym_callentry list \<times> int) list" where
  "abs_resort cs = sort_key (\<lambda>c. - snd c) cs"

lemma ips_hit_takes: "length ips \<le> length es \<Longrightarrow> ips_hit es ips = Some (takes es ips)"
  by (induction es ips rule: ips_hit.induct) (auto simp: takes_def)

lemma ips_exist_takes: "node_ok c \<Longrightarrow> ips_exist c ips = Some (takes (ca_entry_arr c) ips)"
  using ips_hit_takes [of ips "ca_entry_arr c"] by (auto simp: ips_exist_def node_ok_def takes_def)

text \<open>The search stops at the first chain that takes the access.\<close>

lemma callchain_find_result:
  assumes "dseg ca_next ca_prev h p as None" "\<forall>a\<in>set as. \<exists>c. h a = Some c \<and> node_ok c"
  obtains (found) xs a ys c where "as = xs @ a # ys" "callchain_find h ips (firstp as None) = Some (Some a)" "h a = Some c"
      "takes (ca_entry_arr c) ips" "\<forall>x\<in>set xs. \<not> takes (ca_entry_arr (the (h x))) ips"
    | (absent) "callchain_find h ips (firstp as None) = Some None" "\<forall>x\<in>set as. \<not> takes (ca_entry_arr (the (h x))) ips"
  using assms
proof (induction as arbitrary: p thesis)
  case Nil
  show ?case by (rule Nil(2)) (simp_all add: callchain_find.simps)
next
  case (Cons b bs)
  from Cons.prems(4) obtain c where c: "h b = Some c" "node_ok c" by auto
  have nx: "ca_next c = firstp bs None" "dseg ca_next ca_prev h (Some b) bs None" using Cons.prems(3) c(1) by simp_all
  have s: "callchain_find h ips (firstp (b # bs) None) =
      (if takes (ca_entry_arr c) ips then Some (Some b) else callchain_find h ips (firstp bs None))"
    by (subst callchain_find.simps) (simp add: c ips_exist_takes nx)
  show ?case
  proof (cases "takes (ca_entry_arr c) ips")
    case True
    show ?thesis by (rule Cons.prems(1) [of "[]" b bs c]) (use True s c in simp_all)
  next
    case False
    show ?thesis
    proof (rule Cons.IH [OF _ _ nx(2)])
      show "\<forall>a\<in>set bs. \<exists>c. h a = Some c \<and> node_ok c" using Cons.prems(4) by simp
    next
      fix xs a ys c1
      assume "bs = xs @ a # ys" "callchain_find h ips (firstp bs None) = Some (Some a)" "h a = Some c1"
        "takes (ca_entry_arr c1) ips" "\<forall>x\<in>set xs. \<not> takes (ca_entry_arr (the (h x))) ips"
      then show thesis using Cons.prems(1) [of "b # xs" a ys c1] False s c by simp
    next
      assume "callchain_find h ips (firstp bs None) = Some None" "\<forall>x\<in>set bs. \<not> takes (ca_entry_arr (the (h x))) ips"
      then show thesis using Cons.prems(2) False s c by simp
    qed
  qed
qed

lemma abs_add_found:
  assumes "\<forall>c\<in>set xs. \<not> takes (fst c) ips" "takes (fst c) ips"
  shows "abs_add entry ips (xs @ c # ys) = xs @ (fst c, snd c + 1) # ys"
  using assms by (induction xs) auto

lemma abs_add_absent:
  assumes "\<forall>c\<in>set xs. \<not> takes (fst c) ips" "ips \<noteq> []"
  shows "abs_add entry ips xs = xs @ [(map entry ips, 0)]"
  using assms by (induction xs) auto

lemma abs_add_none: "abs_add entry [] cs = (case cs of [] \<Rightarrow> [] | c # cs \<Rightarrow> (fst c, snd c + 1) # cs)"
  by (cases cs) (simp_all add: takes_def)

section \<open>Adding\<close>

definition entry_of :: "(nat \<Rightarrow> bool) \<Rightarrow> libs \<Rightarrow> sym_t \<Rightarrow> u64 \<Rightarrow> sym_callentry" where
  "entry_of mem libs sy ip = the (callentry mem libs sy ip)"

lemma callentries_map:
  assumes "sym_wf libs sy"
  shows "callentries mem libs sy ips = Some (map (entry_of mem libs sy) ips)"
proof (induction ips)
  case (Cons ip ips)
  obtain r where "resolve_unique mem libs sy ip = Some r" using resolve_unique_safe [OF assms] by blast
  then show ?case using Cons by (simp add: entry_of_def callentry_def)
qed simp

lemma cl_ok_count:
  assumes "cl_ok h l as" "h a = Some c" "node_ok c" "0 \<le> n"
  shows "cl_ok (h(a \<mapsto> c\<lparr>ca_naccess := n\<rparr>)) l as"
proof -
  let ?h1 = "h(a \<mapsto> c\<lparr>ca_naccess := n\<rparr>)"
  have "dseg ca_next ca_prev ?h1 None as None = dseg ca_next ca_prev h None as None"
  proof (rule dseg_links)
    fix b assume "b \<in> set as"
    then obtain cb where "h b = Some cb" using assms(1) by (auto simp: cl_ok_def)
    then show "\<exists>n1 n'. h b = Some n1 \<and> ?h1 b = Some n' \<and> ca_next n' = ca_next n1 \<and> ca_prev n' = ca_prev n1"
      using assms(2) by auto
  qed
  then show ?thesis using assms by (auto simp: cl_ok_def node_ok_def)
qed

lemma callchain_add_ok:
  assumes wf: "sym_wf libs sy" and mem: "\<forall>n. mem n" and ok: "cl_ok h l as"
    and new: "h new = None" and small: "\<forall>c\<in>set (content h as). snd c < 2 ^ 31 - 1"
  shows "\<exists>h1 l1 as1 r. sym_callchain_add mem libs sy ips new (h, l) = Some ((h1, l1), r) \<and> cl_ok h1 l1 as1 \<and>
    content h1 as1 = abs_add (entry_of mem libs sy) ips (content h as) \<and> (\<forall>b. b \<noteq> new \<longrightarrow> h b = None \<longrightarrow> h1 b = None)"
proof -
  have d: "dseg ca_next ca_prev h None as None" "\<forall>a\<in>set as. \<exists>c. h a = Some c \<and> node_ok c" "cl_head l = firstp as None"
    "distinct as"
    using ok by (simp_all add: cl_ok_def)
  show ?thesis
  proof (rule callchain_find_result [OF d(1,2), of ips])
    fix xs a ys c
    assume f: "as = xs @ a # ys" "callchain_find h ips (firstp as None) = Some (Some a)" "h a = Some c"
      "takes (ca_entry_arr c) ips" "\<forall>x\<in>set xs. \<not> takes (ca_entry_arr (the (h x))) ips"
    have c: "node_ok c" using d(2) f(1,3) by force
    have "ca_naccess c < 2 ^ 31 - 1" using small f(1,3) by (simp add: content_def)
    then have i: "inc_int (ca_naccess c) = Some (ca_naccess c + 1)" by (simp add: inc_int_def)
    let ?h1 = "h(a \<mapsto> c\<lparr>ca_naccess := ca_naccess c + 1\<rparr>)"
    have "content ?h1 as = content h xs @ (ca_entry_arr c, ca_naccess c + 1) # content h ys"
      using d(4) f(1) by (auto simp: content_def)
    also have "\<dots> = abs_add (entry_of mem libs sy) ips (content h as)"
      using abs_add_found [of "content h xs" ips "(ca_entry_arr c, ca_naccess c)"] f by (auto simp: content_def)
    finally show ?thesis
      using cl_ok_count [OF ok f(3) c, of "ca_naccess c + 1"] c i f(2,3) d(3)
      by (intro exI [of _ ?h1] exI [of _ l] exI [of _ as] exI [of _ 0])
        (auto simp: sym_callchain_add_def node_ok_def)
  next
    assume f: "callchain_find h ips (firstp as None) = Some None" "\<forall>x\<in>set as. \<not> takes (ca_entry_arr (the (h x))) ips"
    show ?thesis
    proof (cases "ips = []")
      case True
      then have "as = []" using f(2) by (cases as) (auto simp: takes_def)
      then show ?thesis using f(1) d(3) ok True by (auto simp: sym_callchain_add_def chain_alloc_def content_def)
    next
      case False
      let ?c = "\<lparr>ca_entry_arr = map (entry_of mem libs sy) ips, ca_nentry = length ips, ca_naccess = 0, ca_prev = None, ca_next = None\<rparr>"
      let ?h0 = "h(new \<mapsto> ?c)"
      have nin: "new \<notin> set as" using d(2) new by auto
      have "cl_ok ?h0 l as" using ok nin by (auto simp: cl_ok_def)
      moreover have "?h0 new = Some ?c" "node_ok ?c" by (simp_all add: node_ok_def)
      ultimately obtain h1 l1 where a: "chainlist_attach_tail new (?h0, l) = Some (h1, l1)" "cl_ok h1 l1 (as @ [new])"
        "same_core ?h0 h1" "\<forall>b. b \<notin> set as \<and> b \<noteq> new \<longrightarrow> h1 b = ?h0 b"
        using attach_tail_ok [of ?h0 l as new ?c] nin by blast
      have "\<forall>b\<in>set (as @ [new]). \<exists>c. ?h0 b = Some c" using d(2) by auto
      then have "content h1 (as @ [new]) = content ?h0 (as @ [new])" by (rule content_same [OF a(3)])
      also have "\<dots> = content h as @ [(map (entry_of mem libs sy) ips, 0)]" using nin by (auto simp: content_def)
      also have "\<dots> = abs_add (entry_of mem libs sy) ips (content h as)"
        using abs_add_absent [of "content h as" ips] f(2) False by (auto simp: content_def)
      finally have "content h1 (as @ [new]) = abs_add (entry_of mem libs sy) ips (content h as)" .
      moreover have "sym_callchain_add mem libs sy ips new (h, l) = Some ((h1, l1), 0)"
        using f(1) d(3) False mem a(1) callentries_map [OF wf, of mem ips]
        by (simp add: sym_callchain_add_def chain_alloc_def)
      moreover have "\<forall>b. b \<noteq> new \<longrightarrow> h b = None \<longrightarrow> h1 b = None"
      proof (intro allI impI)
        fix b assume b: "b \<noteq> new" "h b = None"
        then have "b \<notin> set as" using d(2) by force
        then show "h1 b = None" using a(4) b by simp
      qed
      ultimately show ?thesis using a(2) by blast
    qed
  qed
qed

section \<open>Sorting\<close>

text \<open>The first chain with the most accesses, as the scan finds it.\<close>

lemma max_access_from_result:
  assumes "dseg ca_next ca_prev h p as None" "\<forall>a\<in>set as. \<exists>c. h a = Some c \<and> node_ok c"
    and "k = (\<lambda>a. ca_naccess (the (h a)))"
  shows "\<exists>r. max_access_from h (firstp as None) m found = Some r \<and>
    (r = found \<and> (\<forall>a\<in>set as. k a \<le> m) \<or>
     (\<exists>xs a ys. as = xs @ a # ys \<and> r = Some a \<and> m < k a \<and> (\<forall>x\<in>set xs. k x < k a) \<and> (\<forall>y\<in>set ys. k y \<le> k a)))"
  using assms(1,2)
proof (induction as arbitrary: p m found)
  case (Cons b bs)
  from Cons.prems obtain c where c: "h b = Some c" by auto
  have nx: "ca_next c = firstp bs None" "dseg ca_next ca_prev h (Some b) bs None" using Cons.prems(1) c by simp_all
  have kb: "k b = ca_naccess c" using c assms(3) by simp
  have bs: "\<forall>a\<in>set bs. \<exists>c. h a = Some c \<and> node_ok c" using Cons.prems(2) by simp
  let ?m = "if m < k b then k b else m" and ?f = "if m < k b then Some b else found"
  have s: "max_access_from h (firstp (b # bs) None) m found = max_access_from h (firstp bs None) ?m ?f"
    by (subst max_access_from.simps) (simp add: c nx kb)
  from Cons.IH [OF nx(2) bs, of ?m ?f] obtain r where r: "max_access_from h (firstp bs None) ?m ?f = Some r"
    "r = ?f \<and> (\<forall>a\<in>set bs. k a \<le> ?m) \<or>
     (\<exists>xs a ys. bs = xs @ a # ys \<and> r = Some a \<and> ?m < k a \<and> (\<forall>x\<in>set xs. k x < k a) \<and> (\<forall>y\<in>set ys. k y \<le> k a))"
    by blast
  from r(2) show ?case
  proof
    assume "r = ?f \<and> (\<forall>a\<in>set bs. k a \<le> ?m)"
    then have "m < k b \<and> r = Some b \<and> (\<forall>y\<in>set bs. k y \<le> k b) \<or> r = found \<and> (\<forall>a\<in>set (b # bs). k a \<le> m)"
      by (auto split: if_splits)
    moreover have "b # bs = [] @ b # bs" "\<forall>x\<in>set []. k x < k b" by simp_all
    ultimately show ?thesis using s r(1) by metis
  next
    assume "\<exists>xs a ys. bs = xs @ a # ys \<and> r = Some a \<and> ?m < k a \<and> (\<forall>x\<in>set xs. k x < k a) \<and> (\<forall>y\<in>set ys. k y \<le> k a)"
    then obtain xs a ys where x: "bs = xs @ a # ys" "r = Some a" "?m < k a" "\<forall>x\<in>set xs. k x < k a" "\<forall>y\<in>set ys. k y \<le> k a"
      by blast
    then have "b # bs = (b # xs) @ a # ys" "m < k a" "\<forall>x\<in>set (b # xs). k x < k a" by (auto split: if_splits)
    then show ?thesis using s r(1) x(2,5) by metis
  qed
qed (simp add: max_access_from.simps)

lemma max_access_chain_result:
  assumes "cl_ok h l as" "as \<noteq> []" "k = (\<lambda>a. ca_naccess (the (h a)))"
  obtains xs a ys where "as = xs @ a # ys" "max_access_chain h l = Some (Some a)"
    "\<forall>x\<in>set xs. k x < k a" "\<forall>y\<in>set ys. k y \<le> k a"
proof -
  have d: "dseg ca_next ca_prev h None as None" "\<forall>a\<in>set as. \<exists>c. h a = Some c \<and> node_ok c" "cl_head l = firstp as None"
    using assms(1) by (simp_all add: cl_ok_def)
  have "\<forall>a\<in>set as. 0 \<le> k a" using d(2) assms(3) by (auto simp: node_ok_def)
  moreover from assms(2) obtain b where "b \<in> set as" by (cases as) auto
  ultimately have "\<not> (\<forall>a\<in>set as. k a \<le> -1)" by force
  then show ?thesis
    using max_access_from_result [OF d(1,2) assms(3), of "-1" None] that d(3) by (auto simp: max_access_chain_def)
qed

lemma sort_key_first:
  fixes k :: "'a \<Rightarrow> 'b::linorder"
  assumes "\<forall>x\<in>set xs. k a < k x" "\<forall>y\<in>set ys. k a \<le> k y"
  shows "sort_key k (xs @ a # ys) = a # sort_key k (xs @ ys)"
  using assms(1)
proof (induction xs)
  case Nil
  have "insort_key k a (sort_key k ys) = a # sort_key k ys" using assms(2) by (intro insort_is_Cons) simp
  then show ?case by simp
next
  case (Cons x xs)
  then have "\<not> k x \<le> k a" by (simp add: not_le)
  then show ?case using Cons by simp
qed

lemma sort_key_same:
  assumes "\<And>x. x \<in> set xs \<Longrightarrow> f x = g x"
  shows "sort_key f xs = sort_key g xs"
proof -
  have ins: "insort_key f x ys = insort_key g x ys" if "f x = g x" "\<And>y. y \<in> set ys \<Longrightarrow> f y = g y" for x ys
    using that by (induction ys) simp_all
  show ?thesis using assms
  proof (induction xs)
    case (Cons x xs)
    have "insort_key f x (sort_key g xs) = insort_key g x (sort_key g xs)" using Cons.prems by (intro ins) simp_all
    then show ?case using Cons by simp
  qed simp
qed

lemma resort_loop_result:
  assumes "cl_ok h l as" "cl_ok h s bs" "set as \<inter> set bs = {}"
  shows "\<exists>h1 l1 s1 cs. resort_loop h l s = Some (h1, l1, s1) \<and> cl_ok h1 l1 [] \<and> cl_ok h1 s1 (bs @ cs) \<and> same_core h h1 \<and>
    cs = sort_key (\<lambda>a. - ca_naccess (the (h a))) as \<and> (\<forall>b. b \<notin> set as \<union> set bs \<longrightarrow> h1 b = h b)"
  using assms
proof (induction "length as" arbitrary: h l s as bs)
  case 0
  then show ?case by (subst resort_loop.simps) (auto simp: cl_ok_def)
next
  case (Suc n)
  define k where "k = (\<lambda>a. ca_naccess (the (h a)))"
  have "as \<noteq> []" using Suc.hyps(2) by auto
  from max_access_chain_result [OF Suc.prems(1) this k_def] obtain xs a ys where
    a: "as = xs @ a # ys" "max_access_chain h l = Some (Some a)" "\<forall>x\<in>set xs. k x < k a" "\<forall>y\<in>set ys. k y \<le> k a" .
  obtain h1 l1 where d: "chainlist_detach a (h, l) = Some (h1, l1)" "cl_ok h1 l1 (xs @ ys)" "same_core h h1"
    "\<forall>b. b \<notin> set as \<longrightarrow> h1 b = h b"
    using detach_ok [of h l xs a ys] Suc.prems(1) a(1) by blast
  have ab: "a \<notin> set bs" "a \<notin> set (xs @ ys)" using Suc.prems(1,3) a(1) by (auto simp: cl_ok_def)
  have s1: "cl_ok h1 s bs"
  proof -
    have "\<And>b. b \<in> set bs \<Longrightarrow> h1 b = h b" using d(4) Suc.prems(3) by blast
    then show ?thesis using Suc.prems(2) dseg_cong [of bs h1 h] unfolding cl_ok_def by force
  qed
  obtain c where c: "h a = Some c" "node_ok c" using Suc.prems(1) a(1) by (auto simp: cl_ok_def)
  from same_core_node [OF d(3) c(1)] obtain c1 where c1: "h1 a = Some c1" "node_ok c1" using c(2) by (metis node_ok_def)
  obtain h2 s2 where t: "chainlist_attach_tail a (h1, s) = Some (h2, s2)" "cl_ok h2 s2 (bs @ [a])" "same_core h1 h2"
    "\<forall>b. b \<notin> set bs \<and> b \<noteq> a \<longrightarrow> h2 b = h1 b"
    using attach_tail_ok [OF s1 c1 ab(1)] by blast
  have l2: "cl_ok h2 l1 (xs @ ys)"
  proof -
    have "\<And>b. b \<in> set (xs @ ys) \<Longrightarrow> h2 b = h1 b" using t(4) ab(2) Suc.prems(3) a(1) by auto
    then show ?thesis using d(2) dseg_cong [of "xs @ ys" h2 h1] unfolding cl_ok_def by force
  qed
  have sc: "same_core h h2" by (rule same_core_trans [OF d(3) t(3)])
  have "set (xs @ ys) \<inter> set (bs @ [a]) = {}" using ab Suc.prems(3) a(1) by auto
  moreover have "n = length (xs @ ys)" using Suc.hyps(2) a(1) by simp
  ultimately obtain h3 l3 s3 cs where r: "resort_loop h2 l1 s2 = Some (h3, l3, s3)" "cl_ok h3 l3 []" "cl_ok h3 s3 ((bs @ [a]) @ cs)"
    "same_core h2 h3" "cs = sort_key (\<lambda>a. - ca_naccess (the (h2 a))) (xs @ ys)"
    "\<forall>b. b \<notin> set (xs @ ys) \<union> set (bs @ [a]) \<longrightarrow> h3 b = h2 b"
    using Suc.hyps(1) [OF _ l2 t(2)] by blast
  have "resort_loop h l s = Some (h3, l3, s3)"
    using Suc.prems(1) a d(1) t(1) r(1) by (subst resort_loop.simps) (simp add: cl_ok_def)
  moreover have "a # cs = sort_key (\<lambda>a. - k a) as"
  proof -
    have "ca_naccess (the (h2 b)) = k b" if b: "b \<in> set (xs @ ys)" for b
    proof -
      have "\<exists>cb. h b = Some cb" using Suc.prems(1) b a(1) by (auto simp: cl_ok_def)
      then obtain cb where "h b = Some cb" by blast
      then show ?thesis using same_core_node [OF sc, of b cb] by (metis k_def option.sel)
    qed
    then have "cs = sort_key (\<lambda>a. - k a) (xs @ ys)" unfolding r(5) by (intro sort_key_same) simp_all
    then show ?thesis using sort_key_first [of xs "\<lambda>a. - k a" a ys] a by simp
  qed
  moreover have "\<forall>b. b \<notin> set as \<union> set bs \<longrightarrow> h3 b = h b" using r(6) t(4) d(4) a(1) by auto
  ultimately show ?case
    using r(2,3) same_core_trans [OF sc r(4)] by (auto simp: k_def)
qed

lemma map_sort_key: "sort_key g (map f xs) = map f (sort_key (\<lambda>x. g (f x)) xs)"
proof -
  have "insort_key g (f x) (map f ys) = map f (insort_key (\<lambda>x. g (f x)) x ys)" for x ys by (induction ys) simp_all
  then show ?thesis by (induction xs) simp_all
qed

lemma callchain_resort_ok:
  assumes "cl_ok h l as"
  shows "\<exists>h1 l1 as1. sym_callchain_resort (h, l) = Some (h1, l1) \<and> cl_ok h1 l1 as1 \<and>
    content h1 as1 = abs_resort (content h as) \<and> (\<forall>b. h b = None \<longrightarrow> h1 b = None)"
proof -
  define k where "k = (\<lambda>a. - ca_naccess (the (h a)))"
  have "set as \<inter> set [] = {}" by simp
  from resort_loop_result [OF assms cl_ok_empty this] obtain h1 l1 s1 where
    r: "resort_loop h l sym_chainlist_zero = Some (h1, l1, s1)" "cl_ok h1 l1 []" "cl_ok h1 s1 (sort_key k as)"
      "same_core h h1"
    by (auto simp: k_def)
  have "cl_head l1 = None" using r(2) by (simp add: cl_ok_def)
  then have e: "sym_callchain_resort (h, l) = Some (h1, s1)"
    using r(1) by (simp add: sym_callchain_resort_def sym_chainlist_free_def chainlist_free_from.simps)
  have "\<forall>a\<in>set (sort_key k as). \<exists>c. h a = Some c" using assms by (auto simp: cl_ok_def)
  then have "content h1 (sort_key k as) = content h (sort_key k as)" by (rule content_same [OF r(4)])
  also have "\<dots> = abs_resort (content h as)"
    unfolding abs_resort_def content_def map_sort_key by (simp add: k_def)
  finally have "content h1 (sort_key k as) = abs_resort (content h as)" .
  moreover have "\<forall>b. h b = None \<longrightarrow> h1 b = None" using same_core_None [OF r(4)] by blast
  ultimately show ?thesis using e r(3) by blast
qed

section \<open>Runs\<close>

text \<open>
  What the call-chain windows do with a list: add an access, sort, and take the
  first chain off and free it.  The third component is the next node malloc
  answers.
\<close>

datatype chain_op = Op_add "u64 list" | Op_resort | Op_take

type_synonym chain_state = "chains \<times> sym_chainlist \<times> addr"

definition chain_exec :: "(nat \<Rightarrow> bool) \<Rightarrow> libs \<Rightarrow> sym_t \<Rightarrow> chain_op \<Rightarrow> chain_state \<Rightarrow> chain_state option" where
  "chain_exec mem libs sy op st =
     (case st of (h, l, n) \<Rightarrow>
        (case op of
           Op_add ips \<Rightarrow> do { ((h1, l1), _) \<leftarrow> sym_callchain_add mem libs sy ips n (h, l); Some (h1, l1, n + 1) }
         | Op_resort \<Rightarrow> do { (h1, l1) \<leftarrow> sym_callchain_resort (h, l); Some (h1, l1, n) }
         | Op_take \<Rightarrow>
             do {
               ((h1, l1), p) \<leftarrow> sym_callchain_detach (h, l);
               h2 \<leftarrow> (case p of None \<Rightarrow> Some h1 | Some a \<Rightarrow> sym_callchain_free a h1);
               Some (h2, l1, n)
             }))"

fun chain_run :: "(nat \<Rightarrow> bool) \<Rightarrow> libs \<Rightarrow> sym_t \<Rightarrow> chain_op list \<Rightarrow> chain_state \<Rightarrow> chain_state option" where
  "chain_run mem libs sy [] st = Some st"
| "chain_run mem libs sy (op # ops) st = do { st1 \<leftarrow> chain_exec mem libs sy op st; chain_run mem libs sy ops st1 }"

fun abs_exec :: "(u64 \<Rightarrow> sym_callentry) \<Rightarrow> chain_op \<Rightarrow> (sym_callentry list \<times> int) list \<Rightarrow> (sym_callentry list \<times> int) list" where
  "abs_exec entry (Op_add ips) cs = abs_add entry ips cs"
| "abs_exec entry Op_resort cs = abs_resort cs"
| "abs_exec entry Op_take cs = tl cs"

definition chain_sim :: "int \<Rightarrow> chain_state \<Rightarrow> (sym_callentry list \<times> int) list \<Rightarrow> bool" where
  "chain_sim b st cs \<longleftrightarrow> (case st of (h, l, n) \<Rightarrow>
     \<exists>as. cl_ok h l as \<and> content h as = cs \<and> (\<forall>a\<ge>n. h a = None) \<and> (\<forall>c\<in>set cs. snd c \<le> b))"

lemma abs_add_bound: "(\<forall>c\<in>set cs. snd c \<le> b) \<Longrightarrow> 0 \<le> b \<Longrightarrow> \<forall>c\<in>set (abs_add entry ips cs). snd c \<le> b + 1"
  by (induction cs) auto

lemma detach_first:
  assumes "cl_ok h l (a # as)"
  shows "\<exists>h1 l1 h2. sym_callchain_detach (h, l) = Some ((h1, l1), Some a) \<and> sym_callchain_free a h1 = Some h2 \<and>
    cl_ok h2 l1 as \<and> content h2 as = content h as \<and> (\<forall>b. h b = None \<longrightarrow> h2 b = None)"
proof -
  have "cl_ok h l ([] @ a # as)" using assms by simp
  from detach_ok [OF this] obtain h1 l1 where d: "chainlist_detach a (h, l) = Some (h1, l1)" "cl_ok h1 l1 as" "same_core h h1"
    by auto
  have n: "\<forall>b\<in>set (a # as). \<exists>c. h b = Some c" "distinct (a # as)" "cl_head l = Some a" using assms by (auto simp: cl_ok_def)
  obtain c where "h a = Some c" using n(1) by auto
  then obtain c1 where c1: "h1 a = Some c1" using same_core_node [OF d(3)] by metis
  have "cl_ok (h1(a := None)) l1 as" using d(2) n(2) by (auto simp: cl_ok_def)
  moreover have "content (h1(a := None)) as = content h as"
    using content_same [OF d(3), of as] n by (auto simp: content_def)
  moreover have "\<forall>b. h b = None \<longrightarrow> h1 b = None" using same_core_None [OF d(3)] by blast
  ultimately show ?thesis using d(1) n(3) c1 by (auto simp: sym_callchain_detach_def sym_callchain_free_def)
qed

lemma chain_exec_sim:
  assumes "sym_wf libs sy" "\<forall>n. mem n" "chain_sim b st cs" "0 \<le> b" "b < 2 ^ 31 - 1"
  shows "\<exists>st1. chain_exec mem libs sy op st = Some st1 \<and> chain_sim (b + 1) st1 (abs_exec (entry_of mem libs sy) op cs)"
proof -
  obtain h l n where st: "st = (h, l, n)" by (cases st)
  from assms(3) obtain as where s: "cl_ok h l as" "content h as = cs" "\<forall>a\<ge>n. h a = None" "\<forall>c\<in>set cs. snd c \<le> b"
    by (auto simp: chain_sim_def st)
  show ?thesis
  proof (cases op)
    case (Op_add ips)
    have "h n = None" "\<forall>c\<in>set (content h as). snd c < 2 ^ 31 - 1" using s assms(5) by fastforce+
    from callchain_add_ok [OF assms(1,2) s(1) this, of ips] obtain h1 l1 as1 r where
      "sym_callchain_add mem libs sy ips n (h, l) = Some ((h1, l1), r)" "cl_ok h1 l1 as1"
      "content h1 as1 = abs_add (entry_of mem libs sy) ips cs" "\<forall>b. b \<noteq> n \<longrightarrow> h b = None \<longrightarrow> h1 b = None"
      using s(2) by blast
    then show ?thesis
      using s(3) abs_add_bound [OF s(4) assms(4), of "entry_of mem libs sy" ips] by (auto simp: chain_exec_def st Op_add chain_sim_def)
  next
    case Op_resort
    from callchain_resort_ok [OF s(1)] obtain h1 l1 as1 where
      "sym_callchain_resort (h, l) = Some (h1, l1)" "cl_ok h1 l1 as1" "content h1 as1 = abs_resort cs"
      "\<forall>b. h b = None \<longrightarrow> h1 b = None"
      using s(2) by blast
    moreover have "\<forall>c\<in>set (abs_resort cs). snd c \<le> b + 1" using s(4) by (auto simp: abs_resort_def)
    ultimately show ?thesis using s(3) by (auto simp: chain_exec_def st Op_resort chain_sim_def)
  next
    case Op_take
    have bound: "\<forall>c\<in>set (tl cs). snd c \<le> b + 1" using s(4) list.set_sel(2) by (cases cs) fastforce+
    show ?thesis
    proof (cases as)
      case Nil
      then show ?thesis using s by (auto simp: chain_exec_def st Op_take sym_callchain_detach_def cl_ok_def chain_sim_def content_def)
    next
      case (Cons a as1)
      from detach_first [of h l a as1] s(1) Cons obtain h1 l1 h2 where
        "sym_callchain_detach (h, l) = Some ((h1, l1), Some a)" "sym_callchain_free a h1 = Some h2" "cl_ok h2 l1 as1"
        "content h2 as1 = content h as1" "\<forall>b. h b = None \<longrightarrow> h2 b = None" by blast
      moreover have "tl cs = content h as1" using s(2) Cons by (auto simp: content_def)
      ultimately show ?thesis using s(3) bound by (auto simp: chain_exec_def st Op_take chain_sim_def)
    qed
  qed
qed

lemma chain_run_sim:
  assumes "sym_wf libs sy" "\<forall>n. mem n" "chain_sim b st cs" "0 \<le> b" "b + int (length ops) < 2 ^ 31"
  shows "\<exists>st1 b1. chain_run mem libs sy ops st = Some st1 \<and> chain_sim b1 st1 (fold (abs_exec (entry_of mem libs sy)) ops cs)"
  using assms(3-5)
proof (induction ops arbitrary: b st cs)
  case (Cons op ops)
  from Cons.prems(3) have "b < 2 ^ 31 - 1" by simp
  from chain_exec_sim [OF assms(1,2) Cons.prems(1,2) this] obtain st1 where
    s: "chain_exec mem libs sy op st = Some st1" "chain_sim (b + 1) st1 (abs_exec (entry_of mem libs sy) op cs)" by blast
  have "0 \<le> b + 1" "b + 1 + int (length ops) < 2 ^ 31" using Cons.prems(2,3) by simp_all
  from Cons.IH [OF s(2) this] s(1) show ?case by simp
qed auto

text \<open>
  C12: The lists of call chains refine plain lists: after any sequence of adding
  accesses, sorting and taking the first chain off, started on an empty list,
  no freed or missing node has been touched and the linked list holds the
  chains with their counts that the same sequence makes of a plain list, where
  sorting is the stable sort by falling count.
\<close>

theorem chainlist_run_refines:
  assumes "sym_wf libs sy" "\<forall>n. mem n" "length ops < 2 ^ 31"
  shows "\<exists>h l n as. chain_run mem libs sy ops (Map.empty, sym_chainlist_zero, 0) = Some (h, l, n) \<and> cl_ok h l as \<and>
    content h as = fold (abs_exec (entry_of mem libs sy)) ops []"
proof -
  have "chain_sim 0 (Map.empty, sym_chainlist_zero, 0) []"
    using cl_ok_empty by (auto simp: chain_sim_def content_def)
  from chain_run_sim [OF assms(1,2) this, of ops] assms(3) show ?thesis
    by (auto simp: chain_sim_def)
qed

text \<open>Without symbols every address is its own entry.\<close>

lemma entry_of_unloaded: "entry_of mem libs sym_zero ip = \<lparr>ce_addr = ip, ce_size = 8, ce_name = ''0x'' @ hex_str (unat ip)\<rparr>"
  by (simp add: entry_of_def callentry_def resolve_unique_def sym_resolve_def sym_zero_def)

theorem chainlist_run_refines_witness:
  "\<exists>h l n as. chain_run (\<lambda>_. True) sym_init sym_zero [Op_add [0x10], Op_add [0x20], Op_add [0x20], Op_resort]
       (Map.empty, sym_chainlist_zero, 0) = Some (h, l, n) \<and> cl_ok h l as \<and>
     map snd (content h as) = [1, 0] \<and> map (map ce_addr \<circ> fst) (content h as) = [[0x20], [0x10]]"
proof -
  have "fold (abs_exec (entry_of (\<lambda>_. True) sym_init sym_zero)) [Op_add [0x10], Op_add [0x20], Op_add [0x20], Op_resort] [] =
      [([entry_of (\<lambda>_. True) sym_init sym_zero 0x20], 1), ([entry_of (\<lambda>_. True) sym_init sym_zero 0x10], 0)]"
    by (simp add: entry_of_unloaded takes_def IP_HIT_def abs_resort_def)
  with chainlist_run_refines [OF sym_wf_init, where mem = "\<lambda>_. True" and ops = "[Op_add [0x10], Op_add [0x20], Op_add [0x20], Op_resort]"]
  show ?thesis by (fastforce simp: entry_of_unloaded)
qed

text \<open>
  A call chain is counted as another one that begins with it when that one
  was sampled first: the same two samples make one chain with a count of 1 in
  one order and two chains in the other.
\<close>

theorem shorter_chain_joins_longer:
  assumes "sym_wf libs sy" "\<forall>n. mem n" "ips \<noteq> []" "rest \<noteq> []" "e = entry_of mem libs sy"
    and "\<forall>ip\<in>set ips. IP_HIT ip (ce_addr (e ip)) (ce_size (e ip))"
  shows "(\<exists>h l n as. chain_run mem libs sy [Op_add (ips @ rest), Op_add ips] (Map.empty, sym_chainlist_zero, 0) = Some (h, l, n) \<and>
      cl_ok h l as \<and> content h as = [(map e (ips @ rest), 1)]) \<and>
    (\<exists>h l n as. chain_run mem libs sy [Op_add ips, Op_add (ips @ rest)] (Map.empty, sym_chainlist_zero, 0) = Some (h, l, n) \<and>
      cl_ok h l as \<and> content h as = [(map e ips, 0), (map e (ips @ rest), 0)])"
proof -
  have sim: "chain_sim 0 (Map.empty, sym_chainlist_zero, 0) []"
    using cl_ok_empty by (auto simp: chain_sim_def content_def)
  have "\<forall>(en, ip)\<in>set (zip (map e ips @ r) ips). IP_HIT ip (ce_addr en) (ce_size en)" for r
    using assms(6) by (induction ips) auto
  then have t: "takes (map e (ips @ rest)) ips" by (simp add: takes_def)
  have nt: "\<not> takes (map e ips) (ips @ rest)" using assms(4) by (simp add: takes_def)
  have "fold (abs_exec e) [Op_add (ips @ rest), Op_add ips] [] = [(map e (ips @ rest), 1)]"
    "fold (abs_exec e) [Op_add ips, Op_add (ips @ rest)] [] = [(map e ips, 0), (map e (ips @ rest), 0)]"
    using t nt assms(3) by simp_all
  then show ?thesis
    using chain_run_sim [OF assms(1,2) sim, of "[Op_add (ips @ rest), Op_add ips]"]
      chain_run_sim [OF assms(1,2) sim, of "[Op_add ips, Op_add (ips @ rest)]"]
    unfolding assms(5) chain_sim_def by (fastforce split: prod.splits)
qed

theorem shorter_chain_joins_longer_witness:
  "\<exists>h l n as. chain_run (\<lambda>_. True) sym_init sym_zero [Op_add [0x10, 0x20], Op_add [0x10]]
       (Map.empty, sym_chainlist_zero, 0) = Some (h, l, n) \<and> cl_ok h l as \<and> map snd (content h as) = [1]"
proof -
  let ?e = "entry_of (\<lambda>_. True) sym_init sym_zero"
  have "\<forall>ip\<in>set [0x10]. IP_HIT ip (ce_addr (?e ip)) (ce_size (?e ip))" by (simp add: entry_of_unloaded IP_HIT_def)
  from shorter_chain_joins_longer [OF sym_wf_init, of "\<lambda>_. True", OF _ _ _ refl this, of "[0x20]"]
  show ?thesis by fastforce
qed

end
