(* ===== verification/Reg.thy ===== *)
theory Reg
  imports Prelude
begin

text \<open>
  The screen regions (common/reg.c).  A region is a rectangle of the terminal
  with an optional scrolling state; the curses calls are recorded as a list of
  drawing events, in the order the code issues them.  The scrolling state is
  pure index arithmetic on C ints: C division and remainder (truncating) are
  sdiv and smod.  The lemmas show that the invariant reg_scroll_ok is kept by
  every scrolling operation, so that the highlighted line is always inside the
  visible part of the region.
\<close>

section \<open>State\<close>

datatype reg_align = ALIGN_LEFT | ALIGN_MIDDLE

text \<open>
  A drawing event: erase, print a non-empty string at a line and column with
  the attributes of the region or in reverse video, refresh, refresh without
  output, update of the whole screen, creation and deletion of the window.
\<close>

datatype draw =
    Werase
  | Attron nat
  | Mvwprintw int int string
  | Attroff nat
  | Wrefresh
  | Wnoutrefresh
  | Delwin

record scroll_line =
  enabled :: bool
  highlight :: int
  page_start :: int

text \<open>
  hdl is False for a NULL curses handle; line_get is the function the region
  was given by reg_buf_init, applied to its data buffer (it yields the text of
  a line); mode holds the curses attributes; screen is what was drawn so far.
\<close>

record win_reg =
  hdl :: bool
  begin_x :: int
  begin_y :: int
  ncols_scr :: int
  nlines_scr :: int
  mode :: nat
  nlines_total :: int
  line_get :: "int \<Rightarrow> string"
  scroll :: scroll_line
  screen :: "draw list"

definition A_HIGHLIGHT :: nat where
  "A_HIGHLIGHT = 2359296"

definition reg_draw :: "draw list \<Rightarrow> win_reg \<Rightarrow> win_reg" where
  "reg_draw ds r = r\<lparr>screen := screen r @ ds\<rparr>"

section \<open>Operations\<close>

text \<open>
  reg_init zeroes the structure and creates the window, which may fail: the
  outcome of subwin is the last argument.  The result is -1 or the first line
  below the region.
\<close>

definition reg_init :: "win_reg \<Rightarrow> int \<Rightarrow> int \<Rightarrow> int \<Rightarrow> int \<Rightarrow> nat \<Rightarrow> bool \<Rightarrow> int \<times> win_reg" where
  "reg_init r bx by ncols nlines md subwin_ok =
     (if ncols \<le> 0 \<or> nlines \<le> 0 then (-1, r)
      else (by + nlines,
        \<lparr>hdl = subwin_ok, begin_x = bx, begin_y = by, ncols_scr = ncols, nlines_scr = nlines,
         mode = md, nlines_total = 0, line_get = (\<lambda>_. []),
         scroll = \<lparr>enabled = False, highlight = 0, page_start = 0\<rparr>, screen = []\<rparr>))"

definition reg_buf_init :: "win_reg \<Rightarrow> (int \<Rightarrow> string) \<Rightarrow> win_reg" where
  "reg_buf_init r lg = r\<lparr>line_get := lg\<rparr>"

definition reg_scroll_init :: "win_reg \<Rightarrow> bool \<Rightarrow> win_reg" where
  "reg_scroll_init r en = r\<lparr>scroll := (scroll r)\<lparr>enabled := en, highlight := -1\<rparr>\<rparr>"

definition reg_erase :: "win_reg \<Rightarrow> win_reg" where
  "reg_erase r = (if hdl r then reg_draw [Werase] r else r)"

definition reg_refresh :: "win_reg \<Rightarrow> win_reg" where
  "reg_refresh r = (if hdl r then reg_draw [Wrefresh] r else r)"

definition reg_refresh_nout :: "win_reg \<Rightarrow> win_reg" where
  "reg_refresh_nout r = (if hdl r then reg_draw [Wnoutrefresh] r else r)"

definition reg_win_destroy :: "win_reg \<Rightarrow> win_reg" where
  "reg_win_destroy r = (if hdl r then reg_draw [Delwin] (r\<lparr>hdl := False\<rparr>) else r)"

definition reg_pos_x :: "win_reg \<Rightarrow> reg_align \<Rightarrow> string \<Rightarrow> int" where
  "reg_pos_x r align content =
     (if align = ALIGN_MIDDLE then (ncols_scr r - int (length content)) sdiv 2 else 0)"

definition reg_line_write :: "win_reg \<Rightarrow> int \<Rightarrow> reg_align \<Rightarrow> string \<Rightarrow> win_reg" where
  "reg_line_write r line align content =
     (if \<not> hdl r then r
      else reg_draw
        ((if mode r \<noteq> 0 then [Attron (mode r)] else []) @
         (if length content > 0 then [Mvwprintw line (reg_pos_x r align content) content] else []) @
         (if mode r \<noteq> 0 then [Attroff (mode r)] else [])) r)"

definition reg_highlight_write :: "win_reg \<Rightarrow> int \<Rightarrow> reg_align \<Rightarrow> string \<Rightarrow> win_reg" where
  "reg_highlight_write r line align content =
     (if \<not> hdl r then r
      else reg_draw
        (Attron A_HIGHLIGHT #
         (if length content > 0 then [Mvwprintw line (reg_pos_x r align content) content] else []) @
         [Attroff A_HIGHLIGHT]) r)"

definition reg_idx_highlight :: "win_reg \<Rightarrow> int \<Rightarrow> win_reg" where
  "reg_idx_highlight r idx =
     (if hdl r
      then reg_highlight_write r (idx - page_start (scroll r)) ALIGN_LEFT (line_get r idx)
      else r)"

definition reg_idx_lowlight :: "win_reg \<Rightarrow> int \<Rightarrow> win_reg" where
  "reg_idx_lowlight r idx =
     (if hdl r
      then reg_line_write r (idx - page_start (scroll r)) ALIGN_LEFT (line_get r idx)
      else r)"

text \<open>The for loop over the lines i .. idx_end - 1 is a fold over that interval.\<close>

definition reg_hidden_show :: "win_reg \<Rightarrow> int \<Rightarrow> win_reg" where
  "reg_hidden_show r idx_start =
     (if \<not> hdl r then r
      else
        let idx_end = (if idx_start + nlines_scr r > nlines_total r
                       then nlines_total r else idx_start + nlines_scr r)
        in fold (\<lambda>i r. reg_line_write r (i - idx_start) ALIGN_LEFT (line_get r i))
             [idx_start..idx_end - 1] (reg_erase r))"

datatype reg_scroll_dir = SCROLL_DOWN | SCROLL_UP

definition set_page_start :: "int \<Rightarrow> win_reg \<Rightarrow> win_reg" where
  "set_page_start p r = r\<lparr>scroll := (scroll r)\<lparr>page_start := p\<rparr>\<rparr>"

definition set_highlight :: "int \<Rightarrow> win_reg \<Rightarrow> win_reg" where
  "set_highlight i r = r\<lparr>scroll := (scroll r)\<lparr>highlight := i\<rparr>\<rparr>"

text \<open>The common end of a scroll step: redraw a shifted page, move the highlight.\<close>

definition reg_line_move :: "win_reg \<Rightarrow> int \<Rightarrow> int \<Rightarrow> bool \<Rightarrow> win_reg" where
  "reg_line_move r hl idx_next page_scroll =
     (let r1 = (if page_scroll then reg_hidden_show r (page_start (scroll r)) else r);
          r2 = reg_idx_lowlight r1 hl;
          r3 = reg_idx_highlight r2 idx_next
      in reg_refresh (set_highlight idx_next r3))"

definition reg_line_scroll :: "win_reg \<Rightarrow> reg_scroll_dir \<Rightarrow> win_reg" where
  "reg_line_scroll r dir =
     (if \<not> enabled (scroll r) \<or> \<not> hdl r then r
      else
        let hl = (if highlight (scroll r) = -1 then 0 else highlight (scroll r));
            ps = page_start (scroll r)
        in case dir of
             SCROLL_UP \<Rightarrow>
               let idx_next = hl - 1
               in if idx_next < 0 then r
                  else if idx_next < ps
                       then reg_line_move (set_page_start (ps - 1) r) hl idx_next True
                       else reg_line_move r hl idx_next False
           | SCROLL_DOWN \<Rightarrow>
               let idx_next = hl + 1
               in if idx_next \<ge> nlines_total r then r
                  else if (idx_next - ps) smod nlines_scr r = 0
                       then reg_line_move (set_page_start (ps + 1) r) hl idx_next True
                       else reg_line_move r hl idx_next False)"

text \<open>
  reg_scroll_show first brings page_start to the page of the highlighted line,
  then writes the lines start .. end - 1 and highlights one of them.  The first
  part yields the clipped highlight, the region, start and end.
\<close>

definition reg_scroll_range :: "win_reg \<Rightarrow> int \<Rightarrow> int \<times> win_reg \<times> int \<times> int" where
  "reg_scroll_range r nreqs =
     (if highlight (scroll r) \<noteq> -1 then
        let hl = (if highlight (scroll r) \<ge> nlines_total r
                  then nlines_total r - 1 else highlight (scroll r));
            ps = page_start (scroll r);
            ps' = (if hl \<ge> ps
                   then (let i = (hl - ps) sdiv nlines_scr r
                         in if i \<noteq> 0 then ps + nlines_scr r * i else ps)
                   else (hl sdiv nlines_scr r) * nlines_scr r);
            r' = set_page_start ps' r;
            e = ps' + min nreqs (nlines_scr r)
        in (hl, r', ps', if e > nlines_total r then nlines_total r else e)
      else (0, r, 0, min nreqs (nlines_scr r)))"

definition reg_scroll_show :: "win_reg \<Rightarrow> int \<Rightarrow> (int \<Rightarrow> string) \<Rightarrow> win_reg" where
  "reg_scroll_show r nreqs str_build =
     (case reg_scroll_range r nreqs of (hl, r1, start, stop) \<Rightarrow>
        let r2 = fold (\<lambda>i r. if i \<noteq> hl
                             then reg_line_write r (i - page_start (scroll r)) ALIGN_LEFT (str_build i)
                             else r)
                   [start..stop - 1] r1
        in if start \<le> hl \<and> hl < stop
           then set_highlight hl
                  (reg_highlight_write r2 (hl - page_start (scroll r2)) ALIGN_LEFT (str_build hl))
           else r2)"

section \<open>The scrolling state is touched only where the code touches it\<close>

named_theorems reg_frame

lemma reg_draw_frame [simp, reg_frame]:
  "scroll (reg_draw ds r) = scroll r" "hdl (reg_draw ds r) = hdl r"
  "nlines_scr (reg_draw ds r) = nlines_scr r" "nlines_total (reg_draw ds r) = nlines_total r"
  "screen (reg_draw ds r) = screen r @ ds" "mode (reg_draw ds r) = mode r"
  "line_get (reg_draw ds r) = line_get r" "ncols_scr (reg_draw ds r) = ncols_scr r"
  by (simp_all add: reg_draw_def)

lemma reg_write_frame [simp, reg_frame]:
  "scroll (reg_line_write r l a c) = scroll r" "hdl (reg_line_write r l a c) = hdl r"
  "nlines_scr (reg_line_write r l a c) = nlines_scr r"
  "nlines_total (reg_line_write r l a c) = nlines_total r"
  "line_get (reg_line_write r l a c) = line_get r"
  "scroll (reg_highlight_write r l a c) = scroll r" "hdl (reg_highlight_write r l a c) = hdl r"
  "nlines_scr (reg_highlight_write r l a c) = nlines_scr r"
  "nlines_total (reg_highlight_write r l a c) = nlines_total r"
  "line_get (reg_highlight_write r l a c) = line_get r"
  by (simp_all add: reg_line_write_def reg_highlight_write_def)

lemma fold_frame:
  "(\<And>i r. g (f i r) = g r) \<Longrightarrow> g (fold f xs r) = g r"
  by (induction xs arbitrary: r) simp_all

lemma reg_move_frame [simp, reg_frame]:
  "scroll (reg_line_move r hl i b) = (scroll r)\<lparr>highlight := i\<rparr>"
  "nlines_scr (reg_line_move r hl i b) = nlines_scr r"
  "nlines_total (reg_line_move r hl i b) = nlines_total r"
  by (simp_all add: reg_line_move_def Let_def reg_refresh_def set_highlight_def reg_idx_highlight_def
        reg_idx_lowlight_def reg_hidden_show_def reg_erase_def fold_frame [where g = scroll]
        fold_frame [where g = nlines_scr] fold_frame [where g = nlines_total])

section \<open>The invariant of the scrolling state\<close>

text \<open>
  The visible window [page_start, page_start + nlines_scr) starts at a
  non-negative line; a region that was never scrolled is at its top; otherwise
  the highlighted line lies in the visible window.
\<close>

definition reg_scroll_ok :: "win_reg \<Rightarrow> bool" where
  "reg_scroll_ok r \<longleftrightarrow>
     nlines_scr r > 0 \<and> nlines_total r \<ge> 0 \<and> page_start (scroll r) \<ge> 0 \<and>
     (if highlight (scroll r) = -1 then page_start (scroll r) = 0
      else page_start (scroll r) \<le> highlight (scroll r) \<and>
           highlight (scroll r) < page_start (scroll r) + nlines_scr r)"

lemma smod_eq_0_window:
  assumes "0 < n" "0 < a" "a \<le> (n::int)"
  shows "a smod n = 0 \<longleftrightarrow> a = n"
proof (cases "a = n")
  case False
  then have "a mod n = a" using assms by simp
  then show ?thesis using assms False by (simp add: smod_nonneg)
qed (use assms in \<open>simp add: smod_nonneg\<close>)

lemma sdiv_small: "0 \<le> a \<Longrightarrow> a < n \<Longrightarrow> a sdiv n = (0::int)"
  by (simp add: sdiv_nonneg)

lemma sdiv_page:
  assumes "0 < n" "0 \<le> (a::int)"
  shows "0 \<le> a sdiv n * n \<and> a sdiv n * n \<le> a \<and> a < a sdiv n * n + n"
proof -
  have "a div n * n + a mod n = a" "0 \<le> a mod n" "a mod n < n" "0 \<le> a div n"
    using assms by (simp_all add: pos_imp_zdiv_nonneg_iff)
  moreover from this(4) assms(1) have "0 \<le> a div n * n" by simp
  moreover have e: "a sdiv n = a div n" using assms by (simp add: sdiv_nonneg)
  ultimately show ?thesis unfolding e by linarith
qed

text \<open>The rows a list of drawing events prints at all lie inside a region of n lines.\<close>

definition rows_ok :: "int \<Rightarrow> draw list \<Rightarrow> bool" where
  "rows_ok n ds \<longleftrightarrow> list_all (\<lambda>d. case d of Mvwprintw l x c \<Rightarrow> 0 \<le> l \<and> l < n | _ \<Rightarrow> True) ds"

lemma rows_ok_simps [simp]:
  "rows_ok n []" "rows_ok n (ds @ es) = (rows_ok n ds \<and> rows_ok n es)"
  "rows_ok n (Werase # ds) = rows_ok n ds" "rows_ok n (Wrefresh # ds) = rows_ok n ds"
  "rows_ok n (Attron a # ds) = rows_ok n ds" "rows_ok n (Attroff a # ds) = rows_ok n ds"
  "rows_ok n (Mvwprintw l x c # ds) = (0 \<le> l \<and> l < n \<and> rows_ok n ds)"
  by (simp_all add: rows_ok_def)

lemma rows_line_write:
  "rows_ok n (screen r) \<Longrightarrow> 0 \<le> l \<Longrightarrow> l < n \<Longrightarrow> rows_ok n (screen (reg_line_write r l a c))"
  by (simp add: reg_line_write_def)

lemma rows_highlight_write:
  "rows_ok n (screen r) \<Longrightarrow> 0 \<le> l \<Longrightarrow> l < n \<Longrightarrow> rows_ok n (screen (reg_highlight_write r l a c))"
  by (simp add: reg_highlight_write_def)

lemma rows_fold:
  assumes "\<And>i r. i \<in> set is \<Longrightarrow> scroll r = sc \<Longrightarrow> rows_ok n (screen r) \<Longrightarrow>
             rows_ok n (screen (f i r)) \<and> scroll (f i r) = sc"
    and "rows_ok n (screen r)" "scroll r = sc"
  shows "rows_ok n (screen (fold f is r))"
  using assms by (induction "is" arbitrary: r) auto

lemma rows_hidden_show:
  assumes "rows_ok (nlines_scr r) (screen r)"
  shows "rows_ok (nlines_scr r) (screen (reg_hidden_show r s))"
proof -
  have "rows_ok (nlines_scr r) (screen (reg_erase r))"
    using assms by (simp add: reg_erase_def)
  then show ?thesis
    using assms
    by (auto simp: reg_hidden_show_def Let_def intro!: rows_fold [where sc = "scroll r"] rows_line_write)
      (simp_all add: reg_erase_def)
qed

lemma rows_line_move:
  assumes "rows_ok (nlines_scr r) (screen r)"
    and "page_start (scroll r) \<le> hl" "hl < page_start (scroll r) + nlines_scr r"
    and "page_start (scroll r) \<le> i" "i < page_start (scroll r) + nlines_scr r"
  shows "rows_ok (nlines_scr r) (screen (reg_line_move r hl i b))"
proof -
  define r1 where "r1 = (if b then reg_hidden_show r (page_start (scroll r)) else r)"
  have fr: "scroll r1 = scroll r" "nlines_scr r1 = nlines_scr r"
    by (simp_all add: r1_def reg_hidden_show_def reg_erase_def Let_def
        fold_frame [where g = scroll] fold_frame [where g = nlines_scr])
  have r1: "rows_ok (nlines_scr r) (screen r1)"
    using assms(1) rows_hidden_show by (simp add: r1_def)
  have r2: "rows_ok (nlines_scr r) (screen (reg_idx_lowlight r1 hl))"
    using r1 assms(2,3) by (simp add: reg_idx_lowlight_def fr rows_line_write)
  have "rows_ok (nlines_scr r) (screen (reg_idx_highlight (reg_idx_lowlight r1 hl) i))"
    using r2 assms(4,5)
    by (simp add: reg_idx_highlight_def rows_highlight_write)
      (simp add: reg_idx_lowlight_def fr rows_highlight_write)
  then show ?thesis
    by (simp add: reg_line_move_def Let_def reg_refresh_def set_highlight_def flip: r1_def)
qed

section \<open>Preservation\<close>

text \<open>
  A scroll step either does nothing or moves the highlight to a line i of the
  window that starts at ps.
\<close>

lemma reg_line_scroll_move:
  assumes ok: "reg_scroll_ok r"
  shows "reg_line_scroll r d = r \<or>
    (\<exists>ps hl i b. reg_line_scroll r d = reg_line_move (set_page_start ps r) hl i b \<and>
       0 \<le> ps \<and> ps \<le> i \<and> i < ps + nlines_scr r \<and>
       (2 \<le> nlines_scr r \<longrightarrow> ps \<le> hl \<and> hl < ps + nlines_scr r) \<and>
       (i < nlines_total r \<or> highlight (scroll r) \<noteq> -1 \<and> i < highlight (scroll r)))"
proof -
  let ?ps = "page_start (scroll r)" and ?n = "nlines_scr r"
  define hl where "hl = (if highlight (scroll r) = -1 then 0 else highlight (scroll r))"
  have n: "0 < ?n" "0 \<le> ?ps" "?ps \<le> hl" "hl < ?ps + ?n"
    using ok by (auto simp: reg_scroll_ok_def hl_def split: if_splits)
  have same: "set_page_start ?ps r = r" by (simp add: set_page_start_def)
  have md: "(hl + 1 - ?ps) smod ?n = 0 \<longleftrightarrow> hl + 1 - ?ps = ?n"
    using n by (intro smod_eq_0_window) auto
  consider (off) "\<not> enabled (scroll r) \<or> \<not> hdl r"
    | (up) "enabled (scroll r)" "hdl r" "d = SCROLL_UP"
    | (down) "enabled (scroll r)" "hdl r" "d = SCROLL_DOWN"
    by (cases d) auto
  then show ?thesis
  proof cases
    case off
    then show ?thesis by (simp add: reg_line_scroll_def)
  next
    case up
    then have eq: "reg_line_scroll r d =
        (if hl - 1 < 0 then r
         else if hl - 1 < ?ps then reg_line_move (set_page_start (?ps - 1) r) hl (hl - 1) True
         else reg_line_move (set_page_start ?ps r) hl (hl - 1) False)"
      by (simp add: reg_line_scroll_def hl_def same Let_def)
    consider "hl - 1 < 0" | "0 \<le> hl - 1" "hl - 1 < ?ps" | "?ps \<le> hl - 1" "0 \<le> hl - 1" by linarith
    then show ?thesis
    proof cases
      case 2
      then show ?thesis using n eq
        by (intro disjI2 exI [of _ "?ps - 1"] exI [of _ hl] exI [of _ "hl - 1"] exI [of _ True])
          (auto simp: hl_def split: if_splits)
    next
      case 3
      then show ?thesis using n eq
        by (intro disjI2 exI [of _ ?ps] exI [of _ hl] exI [of _ "hl - 1"] exI [of _ False])
          (auto simp: hl_def split: if_splits)
    qed (simp add: eq)
  next
    case down
    then have eq: "reg_line_scroll r d =
        (if hl + 1 \<ge> nlines_total r then r
         else if hl + 1 - ?ps = ?n then reg_line_move (set_page_start (?ps + 1) r) hl (hl + 1) True
         else reg_line_move (set_page_start ?ps r) hl (hl + 1) False)"
      using md by (simp add: reg_line_scroll_def hl_def same Let_def)
    consider "hl + 1 \<ge> nlines_total r" | "hl + 1 < nlines_total r" "hl + 1 - ?ps = ?n"
      | "hl + 1 < nlines_total r" "hl + 1 - ?ps \<noteq> ?n" by linarith
    then show ?thesis
    proof cases
      case 2
      then show ?thesis using n eq
        by (intro disjI2 exI [of _ "?ps + 1"] exI [of _ hl] exI [of _ "hl + 1"] exI [of _ True]) auto
    next
      case 3
      then show ?thesis using n eq
        by (intro disjI2 exI [of _ ?ps] exI [of _ hl] exI [of _ "hl + 1"] exI [of _ False]) auto
    qed (simp add: eq)
  qed
qed

lemma set_page_start_frame [simp, reg_frame]:
  "nlines_scr (set_page_start p r) = nlines_scr r"
  "nlines_total (set_page_start p r) = nlines_total r"
  "screen (set_page_start p r) = screen r" "page_start (scroll (set_page_start p r)) = p"
  by (simp_all add: set_page_start_def)

lemma reg_line_scroll_keeps:
  assumes "reg_scroll_ok r"
  shows "reg_scroll_ok (reg_line_scroll r d) \<and> nlines_scr (reg_line_scroll r d) = nlines_scr r \<and>
         nlines_total (reg_line_scroll r d) = nlines_total r"
  using reg_line_scroll_move [OF assms, of d] assms by (auto simp: reg_scroll_ok_def)

lemma reg_line_scroll_bound:
  assumes "reg_scroll_ok r" "highlight (scroll r) = -1 \<or> highlight (scroll r) < nlines_total r"
  shows "highlight (scroll (reg_line_scroll r d)) = -1 \<or>
         highlight (scroll (reg_line_scroll r d)) < nlines_total r"
  using reg_line_scroll_move [OF assms(1), of d] assms(2) by auto

lemma reg_line_scroll_rows:
  assumes "reg_scroll_ok r" "2 \<le> nlines_scr r" "rows_ok (nlines_scr r) (screen r)"
  shows "rows_ok (nlines_scr r) (screen (reg_line_scroll r d))"
proof (cases "reg_line_scroll r d = r")
  case False
  then obtain ps hl i b where
    "reg_line_scroll r d = reg_line_move (set_page_start ps r) hl i b"
    "2 \<le> nlines_scr r \<longrightarrow> ps \<le> hl \<and> hl < ps + nlines_scr r" "ps \<le> i" "i < ps + nlines_scr r"
    using reg_line_scroll_move [OF assms(1), of d] by blast
  then show ?thesis
    using rows_line_move [of "set_page_start ps r" hl i b] assms(2,3) by simp
qed (use assms(3) in simp)

lemma scroll_fold_write [simp]:
  "scroll (fold (\<lambda>i r. if i \<noteq> hl then reg_line_write r (g i r) a (c i) else r) is r) = scroll r"
  "nlines_scr (fold (\<lambda>i r. if i \<noteq> hl then reg_line_write r (g i r) a (c i) else r) is r) = nlines_scr r"
  "nlines_total (fold (\<lambda>i r. if i \<noteq> hl then reg_line_write r (g i r) a (c i) else r) is r)
     = nlines_total r"
  by (rule fold_frame, simp)+

text \<open>What reg_scroll_range computes when the invariant holds for the previous contents.\<close>

lemma reg_scroll_range_top:
  assumes "highlight (scroll r) = -1"
  shows "reg_scroll_range (r\<lparr>nlines_total := tot\<rparr>) tot =
           (0, r\<lparr>nlines_total := tot\<rparr>, 0, min tot (nlines_scr r))"
  using assms by (simp add: reg_scroll_range_def)

lemma reg_scroll_range_line:
  assumes ok: "reg_scroll_ok r" and "0 < tot" and h: "highlight (scroll r) \<noteq> -1"
  defines "hl \<equiv> min (highlight (scroll r)) (tot - 1)"
  defines "ps \<equiv> if page_start (scroll r) \<le> hl then page_start (scroll r)
                 else hl sdiv nlines_scr r * nlines_scr r"
  shows "reg_scroll_range (r\<lparr>nlines_total := tot\<rparr>) tot =
           (hl, set_page_start ps (r\<lparr>nlines_total := tot\<rparr>), ps,
            min (ps + min tot (nlines_scr r)) tot)"
proof -
  have z: "page_start (scroll r) \<le> hl \<Longrightarrow> (hl - page_start (scroll r)) sdiv nlines_scr r = 0"
    using ok h by (intro sdiv_small) (auto simp: reg_scroll_ok_def hl_def)
  have m: "\<And>x. (if tot < x then tot else x) = min x tot"
    by (simp add: min_def)
  have e: "hl = (if tot \<le> highlight (scroll r) then tot - 1 else highlight (scroll r))"
    by (simp add: hl_def)
  show ?thesis
  proof (cases "page_start (scroll r) \<le> hl"; cases "tot \<le> highlight (scroll r)")
    assume "page_start (scroll r) \<le> hl" "tot \<le> highlight (scroll r)"
    then show ?thesis
      using h z by (simp add: reg_scroll_range_def m ps_def Let_def e)
  next
    assume "page_start (scroll r) \<le> hl" "\<not> tot \<le> highlight (scroll r)"
    then show ?thesis
      using h z by (simp add: reg_scroll_range_def m ps_def Let_def e)
  qed (use h in \<open>simp_all add: reg_scroll_range_def m ps_def Let_def e\<close>)
qed

lemma reg_scroll_range_ok:
  assumes ok: "reg_scroll_ok r" and tot: "0 < tot"
    and rng: "reg_scroll_range (r\<lparr>nlines_total := tot\<rparr>) tot = (hl, r1, start, stop)"
  shows "0 \<le> hl \<and> hl < tot \<and> 0 \<le> start \<and>
    start \<le> hl \<and> hl < stop \<and> stop \<le> start + nlines_scr r \<and> stop \<le> tot \<and>
    r1 = set_page_start start (r\<lparr>nlines_total := tot\<rparr>)"
proof (cases "highlight (scroll r) = -1")
  case True
  then show ?thesis
    using ok tot rng by (auto simp: reg_scroll_ok_def reg_scroll_range_top set_page_start_def)
next
  case False
  define ps where "ps = (if page_start (scroll r) \<le> hl then page_start (scroll r)
                         else hl sdiv nlines_scr r * nlines_scr r)"
  have "hl = min (highlight (scroll r)) (tot - 1)"
    using trans [OF sym [OF rng] reg_scroll_range_line [OF ok tot False]] by (simp only: prod.inject)
  note eqs = this trans [OF sym [OF rng] reg_scroll_range_line [OF ok tot False], folded this,
      folded ps_def, unfolded prod.inject]
  have hl: "0 \<le> hl" "hl < tot" "hl < page_start (scroll r) + nlines_scr r"
    using ok tot False by (auto simp: eqs(1) reg_scroll_ok_def)
  have n: "0 < nlines_scr r" "0 \<le> page_start (scroll r)"
    using ok by (simp_all add: reg_scroll_ok_def)
  have "0 \<le> ps \<and> ps \<le> hl \<and> hl < ps + nlines_scr r"
    using hl(3) n(2) sdiv_page [OF n(1) hl(1)] by (simp add: ps_def)
  then show ?thesis
    using hl(1,2) n tot eqs(2) by (auto simp: set_page_start_def)
qed

text \<open>The effect of reg_scroll_show on the state, and the rows it prints.\<close>

lemma reg_scroll_show_state:
  fixes sb :: "int \<Rightarrow> string"
  assumes ok: "reg_scroll_ok r" and tot: "0 < tot"
    and rng: "reg_scroll_range (r\<lparr>nlines_total := tot\<rparr>) tot = (hl, r1, start, stop)"
  defines "r' \<equiv> reg_scroll_show (r\<lparr>nlines_total := tot\<rparr>) tot sb"
  shows "scroll r' = (scroll r)\<lparr>highlight := hl, page_start := start\<rparr>"
    and "nlines_scr r' = nlines_scr r" and "nlines_total r' = tot"
  using reg_scroll_range_ok [OF ok tot rng]
  by (simp_all add: r'_def reg_scroll_show_def rng set_highlight_def Let_def set_page_start_def)

lemma reg_scroll_show_keeps:
  fixes sb :: "int \<Rightarrow> string"
  assumes ok: "reg_scroll_ok r" and tot: "0 < tot"
  defines "r' \<equiv> reg_scroll_show (r\<lparr>nlines_total := tot\<rparr>) tot sb"
  shows "reg_scroll_ok r' \<and> 0 \<le> highlight (scroll r') \<and> highlight (scroll r') < nlines_total r' \<and>
         nlines_scr r' = nlines_scr r"
proof -
  obtain hl r1 start stop
    where rng: "reg_scroll_range (r\<lparr>nlines_total := tot\<rparr>) tot = (hl, r1, start, stop)"
    by (metis prod_cases4)
  show ?thesis
    using reg_scroll_range_ok [OF ok tot rng] reg_scroll_show_state [OF ok tot rng, of sb] ok tot
    by (simp add: r'_def reg_scroll_ok_def)
qed

lemma reg_scroll_show_rows:
  assumes ok: "reg_scroll_ok r" and tot: "0 < tot" and rows: "rows_ok (nlines_scr r) (screen r)"
  shows "rows_ok (nlines_scr r) (screen (reg_scroll_show (r\<lparr>nlines_total := tot\<rparr>) tot sb))"
proof -
  obtain hl r1 start stop
    where rng: "reg_scroll_range (r\<lparr>nlines_total := tot\<rparr>) tot = (hl, r1, start, stop)"
    by (metis prod_cases4)
  note R = reg_scroll_range_ok [OF ok tot rng]
  let ?r2 = "fold (\<lambda>i r. if i \<noteq> hl
               then reg_line_write r (i - page_start (scroll r)) ALIGN_LEFT (sb i) else r)
             [start..stop - 1] r1"
  have r1: "screen r1 = screen r" using R by (simp add: set_page_start_def)
  have "rows_ok (nlines_scr r) (screen ?r2)"
    using R rows by (intro rows_fold [where sc = "scroll r1"]) (auto simp: r1 intro!: rows_line_write)
  then show ?thesis
    using R by (auto simp: reg_scroll_show_def rng Let_def set_highlight_def rows_highlight_write)
qed

section \<open>Runs of a region\<close>

text \<open>
  What the windows do with a scrolling region after creating it: the user
  scrolls, or new data of a positive number of lines is shown.
\<close>

datatype reg_event = Scroll reg_scroll_dir | Show int "int \<Rightarrow> string"

fun reg_step :: "win_reg \<Rightarrow> reg_event \<Rightarrow> win_reg" where
  "reg_step r (Scroll d) = reg_line_scroll r d"
| "reg_step r (Show n sb) = reg_scroll_show (r\<lparr>nlines_total := n\<rparr>) n sb"

fun reg_event_ok :: "reg_event \<Rightarrow> bool" where
  "reg_event_ok (Show n sb) = (0 < n)"
| "reg_event_ok (Scroll d) = True"

definition reg_run_inv :: "int \<Rightarrow> win_reg \<Rightarrow> bool" where
  "reg_run_inv n r \<longleftrightarrow> nlines_scr r = n \<and> reg_scroll_ok r \<and> rows_ok n (screen r) \<and>
     (highlight (scroll r) = -1 \<or> highlight (scroll r) < nlines_total r)"

lemma reg_step_inv:
  assumes "reg_run_inv n r" "2 \<le> n" "reg_event_ok e"
  shows "reg_run_inv n (reg_step r e)"
proof (cases e)
  case (Scroll d)
  then show ?thesis
    using assms Scroll reg_line_scroll_keeps [of r d] reg_line_scroll_rows [of r d]
      reg_line_scroll_bound [of r d] by (auto simp: reg_run_inv_def)
next
  case (Show m sb)
  then show ?thesis
    using assms reg_scroll_show_keeps [of r m sb] reg_scroll_show_rows [of r m sb]
    by (auto simp: reg_run_inv_def)
qed

lemma reg_run_inv_fold:
  "reg_run_inv n r \<Longrightarrow> 2 \<le> n \<Longrightarrow> list_all reg_event_ok es \<Longrightarrow> reg_run_inv n (fold (\<lambda>e r. reg_step r e) es r)"
  by (induction es arbitrary: r) (simp_all add: reg_step_inv)

lemma reg_run_inv_start:
  assumes "0 < ncols" "0 < nlines"
  shows "reg_run_inv nlines (reg_scroll_init (snd (reg_init r0 bx by ncols nlines md ok)) True)"
  using assms by (simp add: reg_run_inv_def reg_scroll_ok_def reg_scroll_init_def reg_init_def)

section \<open>Properties\<close>



end
