(* ===== verification/Page.thy ===== *)
theory Page
  imports Types DList
begin

text \<open>
  The page list (common/page.c) and the creation and destruction of the window
  of a page (win_dyn_init, win_dyn_fini of common/win.c).  A page is a heap
  node with its command, its two links and its window; the list keeps head,
  tail, the current page, the page to run next and a count.  Every dereference
  is checked: an operation returns None when the C code would touch a NULL or
  freed page or window.
\<close>

section \<open>State\<close>

text \<open>
  The private data of a window (the dyn structures of win.h), with the fields
  other components read: the process and thread it is about, the address range
  of a latency window, the counter of a call-chain window, the highlighted line
  of the data region and the buffer ranges of a latency window (None while its
  buffer is NULL).
\<close>

record dyn =
  d_pid :: int
  d_lwpid :: int
  d_addr :: nat
  d_size :: nat
  d_countid :: ui_count_id
  d_highlight :: int
  d_lines :: "(nat \<times> nat) list option"

text \<open>The pointer to the private data: NULL, live, or pointing to freed memory.\<close>

datatype dynp = DynNull | DynLive dyn | DynFreed

text \<open>The window functions: one family per kind of window.\<close>

datatype win_fn =
    F_TOPNPROC | F_MONIPROC | F_MONILWP | F_TOPNLWP | F_NODEOVERVIEW | F_NODEDETAIL
  | F_CALLCHAIN | F_LAT | F_LATNODE | F_ACCDST | F_LLCALLCHAIN | F_PQOS_CMT | F_PQOS_MBM

record dyn_win =
  w_type :: win_type
  w_inited :: bool
  w_dyn :: dynp
  w_draw :: "win_fn option"
  w_scroll :: "win_fn option"
  w_scroll_enter :: "win_fn option"
  w_destroy :: "win_fn option"

record page =
  p_cmd :: cmd
  p_prev :: ptr
  p_next :: ptr
  p_win :: dyn_win

record page_list =
  pl_heap :: "page heap"
  pl_head :: ptr
  pl_tail :: ptr
  pl_cur :: ptr
  pl_next_run :: ptr
  pl_npages :: int

definition dyn_win_zero :: dyn_win where
  "dyn_win_zero = \<lparr>w_type = WIN_TYPE_RAW_NUM, w_inited = False, w_dyn = DynNull, w_draw = None,
     w_scroll = None, w_scroll_enter = None, w_destroy = None\<rparr>"

definition page_zero :: page where
  "page_zero = \<lparr>p_cmd = cmd_zero, p_prev = None, p_next = None, p_win = dyn_win_zero\<rparr>"

section \<open>Windows\<close>

text \<open>The private data a dyn_create function fills in from the command of the page.\<close>

definition dyn_of_cmd :: "cmd \<Rightarrow> dyn" where
  "dyn_of_cmd c = \<lparr>d_pid = c_pid c, d_lwpid = c_lwpid c, d_addr = c_addr c, d_size = c_size c,
     d_countid = (if c_id c = CMD_CALLCHAIN_ID then UI_COUNT_RMA else UI_COUNT_CORE_CLK),
     d_highlight = -1, d_lines = None\<rparr>"

text \<open>
  win_dyn_init: the type and the functions by command.  The argument ok tells
  whether the dyn_create function of the kind succeeds (its allocations, the
  screen regions and, for a node, that the node is valid); when it fails the
  dyn pointer is NULL and nothing else is set.  The result is 0 or -1.  A
  memory-bandwidth window for pid 0 keeps the type of the zeroed structure.
\<close>

definition win_set :: "win_type \<Rightarrow> win_fn \<Rightarrow> bool \<Rightarrow> bool \<Rightarrow> dyn_win \<Rightarrow> dyn_win" where
  "win_set ty f scr enter w =
     w\<lparr>w_type := ty, w_draw := Some f, w_scroll := (if scr then Some f else w_scroll w),
       w_scroll_enter := (if enter then Some f else w_scroll_enter w), w_destroy := Some f\<rparr>"

definition win_dyn_kind :: "cmd \<Rightarrow> dyn_win \<Rightarrow> dyn_win option" where
  "win_dyn_kind c w =
     (case c_id c of
        CMD_IR_NORMALIZE_ID \<Rightarrow> Some (win_set WIN_TYPE_TOPNPROC F_TOPNPROC True True w)
      | CMD_HOME_ID \<Rightarrow> Some (win_set WIN_TYPE_RAW_NUM F_TOPNPROC True True w)
      | CMD_MONITOR_ID \<Rightarrow>
          Some (if c_lwpid c = 0 then win_set WIN_TYPE_MONIPROC F_MONIPROC True True w
                else win_set WIN_TYPE_MONILWP F_MONILWP True False w)
      | CMD_LWP_ID \<Rightarrow> Some (win_set WIN_TYPE_TOPNLWP F_TOPNLWP True True w)
      | CMD_NODE_OVERVIEW_ID \<Rightarrow> Some (win_set WIN_TYPE_NODE_OVERVIEW F_NODEOVERVIEW True True w)
      | CMD_NODE_DETAIL_ID \<Rightarrow> Some (win_set WIN_TYPE_NODE_DETAIL F_NODEDETAIL False False w)
      | CMD_CALLCHAIN_ID \<Rightarrow> Some (win_set WIN_TYPE_CALLCHAIN F_CALLCHAIN True False w)
      | CMD_LAT_ID \<Rightarrow>
          Some (win_set (if c_lwpid c \<noteq> 0 then WIN_TYPE_LAT_LWP else WIN_TYPE_LAT_PROC)
                  F_LAT True True w)
      | CMD_LATNODE_ID \<Rightarrow>
          Some (win_set (if c_lwpid c \<noteq> 0 then WIN_TYPE_LATNODE_LWP else WIN_TYPE_LATNODE_PROC)
                  F_LATNODE True False w)
      | CMD_ACCDST_ID \<Rightarrow>
          Some (win_set (if c_lwpid c \<noteq> 0 then WIN_TYPE_ACCDST_LWP else WIN_TYPE_ACCDST_PROC)
                  F_ACCDST True False w)
      | CMD_LLCALLCHAIN_ID \<Rightarrow> Some (win_set WIN_TYPE_LLCALLCHAIN F_LLCALLCHAIN True False w)
      | CMD_PQOS_CMT_ID \<Rightarrow>
          Some (win_set (if c_pid c = 0 then WIN_TYPE_PQOS_CMT_TOPNPROC
                         else if c_lwpid c = 0 then WIN_TYPE_PQOS_CMT_MONIPROC
                         else WIN_TYPE_PQOS_CMT_MONILWP) F_PQOS_CMT True False w)
      | CMD_PQOS_MBM_ID \<Rightarrow>
          Some (win_set (if c_pid c = 0 then w_type w
                         else if c_lwpid c = 0 then WIN_TYPE_PQOS_MBM_MONIPROC
                         else WIN_TYPE_PQOS_MBM_MONILWP) F_PQOS_MBM True False w)
      | _ \<Rightarrow> None)"

definition win_dyn_init :: "bool \<Rightarrow> page \<Rightarrow> page \<times> int" where
  "win_dyn_init ok p =
     (case win_dyn_kind (p_cmd p) (p_win p) of
        None \<Rightarrow> (p, -1)
      | Some w \<Rightarrow>
          if ok then (p\<lparr>p_win := w\<lparr>w_dyn := DynLive (dyn_of_cmd (p_cmd p)), w_inited := True\<rparr>\<rparr>, 0)
          else (p\<lparr>p_win := (p_win p)\<lparr>w_dyn := DynNull\<rparr>\<rparr>, -1))"

text \<open>
  The destroy functions free the private data and leave the pointer as it is;
  freeing it twice is undefined.
\<close>

definition win_destroy :: "dyn_win \<Rightarrow> dyn_win option" where
  "win_destroy w =
     (case w_dyn w of
        DynNull \<Rightarrow> Some w
      | DynLive d \<Rightarrow> Some (w\<lparr>w_dyn := DynFreed\<rparr>)
      | DynFreed \<Rightarrow> None)"

definition win_dyn_fini :: "page \<Rightarrow> page option" where
  "win_dyn_fini p =
     (let w = p_win p in
      do {
        w' \<leftarrow> (if w_inited w \<and> w_destroy w \<noteq> None then win_destroy w else Some w);
        Some (p\<lparr>p_win := w'\<lparr>w_inited := False\<rparr>\<rparr>)
      })"

section \<open>Operations of the list\<close>

definition page_get :: "page_list \<Rightarrow> addr \<Rightarrow> page option" where
  "page_get l a = pl_heap l a"

definition page_put :: "addr \<Rightarrow> page \<Rightarrow> page_list \<Rightarrow> page_list" where
  "page_put a p l = l\<lparr>pl_heap := (pl_heap l)(a \<mapsto> p)\<rparr>"

definition page_list_init :: "page_list \<Rightarrow> page_list" where
  "page_list_init l =
     l\<lparr>pl_head := None, pl_tail := None, pl_cur := None, pl_next_run := None, pl_npages := 0\<rparr>"

definition page_free :: "ptr \<Rightarrow> page heap \<Rightarrow> page heap option" where
  "page_free q h =
     (case q of
        None \<Rightarrow> Some h
      | Some a \<Rightarrow> do { p \<leftarrow> h a; _ \<leftarrow> win_dyn_fini p; Some (h(a := None)) })"

text \<open>
  The freeing loop that page_list_fini and page_drop_next share: follow the
  next links from q, freeing each page; the second result counts the pages.
\<close>

partial_function (option) page_free_chain :: "ptr \<Rightarrow> page heap \<Rightarrow> int \<Rightarrow> (page heap \<times> int) option" where
  "page_free_chain q h k =
     (case q of
        None \<Rightarrow> Some (h, k)
      | Some a \<Rightarrow>
          do {
            p \<leftarrow> h a;
            h' \<leftarrow> page_free q h;
            page_free_chain (p_next p) h' (k + 1)
          })"

declare page_free_chain.simps [code]

definition page_list_fini :: "page_list \<Rightarrow> page_list option" where
  "page_list_fini l =
     do {
       (h, k) \<leftarrow> page_free_chain (pl_head l) (pl_heap l) 0;
       Some (page_list_init (l\<lparr>pl_heap := h\<rparr>))
     }"

definition page_append :: "addr \<Rightarrow> page_list \<Rightarrow> page_list option" where
  "page_append a l =
     do {
       p \<leftarrow> page_get l a;
       let l1 = page_put a (p\<lparr>p_prev := None, p_next := None\<rparr>) l;
       l2 \<leftarrow> (case pl_tail l1 of
                None \<Rightarrow> Some (l1\<lparr>pl_head := Some a\<rparr>)
              | Some t \<Rightarrow>
                  do {
                    pt \<leftarrow> page_get l1 t;
                    let l2 = page_put t (pt\<lparr>p_next := Some a\<rparr>) l1;
                    p' \<leftarrow> page_get l2 a;
                    Some (page_put a (p'\<lparr>p_prev := Some t\<rparr>) l2)
                  });
       Some (l2\<lparr>pl_tail := Some a, pl_npages := pl_npages l2 + 1\<rparr>)
     }"

definition page_drop_next :: "ptr \<Rightarrow> page_list \<Rightarrow> page_list option" where
  "page_drop_next q l =
     (case q of
        None \<Rightarrow> Some l
      | Some a \<Rightarrow>
          do {
            p \<leftarrow> page_get l a;
            (h, k) \<leftarrow> page_free_chain (p_next p) (pl_heap l) 0;
            let l1 = l\<lparr>pl_heap := h, pl_npages := pl_npages l - k\<rparr>;
            p' \<leftarrow> page_get l1 a;
            Some ((page_put a (p'\<lparr>p_next := None\<rparr>) l1)\<lparr>pl_tail := Some a\<rparr>)
          })"

text \<open>
  page_create: the argument is the address zalloc returns, None when it is out
  of memory; the second result is the pointer to the new page.
\<close>

definition page_create :: "ptr \<Rightarrow> cmd \<Rightarrow> page_list \<Rightarrow> (page_list \<times> ptr) option" where
  "page_create mem c l =
     (case mem of
        None \<Rightarrow> Some (l, None)
      | Some a \<Rightarrow>
          do {
            let l0 = page_put a (page_zero\<lparr>p_cmd := c\<rparr>) l;
            l1 \<leftarrow> page_drop_next (pl_cur l0) l0;
            l2 \<leftarrow> page_append a l1;
            Some (l2\<lparr>pl_next_run := Some a\<rparr>, Some a)
          })"

definition page_current_get :: "page_list \<Rightarrow> ptr" where
  "page_current_get l = pl_cur l"

definition page_current_set :: "ptr \<Rightarrow> page_list \<Rightarrow> page_list" where
  "page_current_set q l = l\<lparr>pl_cur := q\<rparr>"

definition page_next_set :: "ptr \<Rightarrow> page_list \<Rightarrow> page_list" where
  "page_next_set q l = l\<lparr>pl_next_run := q\<rparr>"

definition page_curprev_get :: "page_list \<Rightarrow> ptr option" where
  "page_curprev_get l =
     (case pl_cur l of None \<Rightarrow> Some None | Some a \<Rightarrow> map_option p_prev (page_get l a))"

text \<open>
  What showing a page depends on: the terminal size, whether the node group can
  be refreshed, whether the window can be created, what its draw function
  returns.  The draw function may change the private data it is given.
\<close>

record screen_env =
  g_scr_height :: int
  g_scr_width :: int
  node_refresh_ok :: bool
  dyn_create_ok :: bool
  draw_ok :: bool
  draw_data :: "dyn \<Rightarrow> dyn"

definition win_draw :: "screen_env \<Rightarrow> dyn_win \<Rightarrow> (dyn_win \<times> bool) option" where
  "win_draw env w =
     (case (w_draw w, w_dyn w) of
        (Some f, DynLive d) \<Rightarrow> Some (w\<lparr>w_dyn := DynLive (draw_data env d)\<rparr>, draw_ok env)
      | _ \<Rightarrow> None)"

text \<open>
  page_show; the sampling request is returned as a flag (os_page_smpl_start is
  called for this page), its outcome is ignored by the code.
\<close>

definition page_show :: "screen_env \<Rightarrow> addr \<Rightarrow> bool \<Rightarrow> page_list \<Rightarrow> (page_list \<times> bool \<times> bool) option" where
  "page_show env a smpl l =
     (if g_scr_height env < 24 \<or> g_scr_width env < 80 then Some (l, False, False)
      else if \<not> node_refresh_ok env then Some (l, False, False)
      else
        do {
          p \<leftarrow> page_get l a;
          let (p1, r) = (if w_inited (p_win p) then (p, 0) else win_dyn_init (dyn_create_ok env) p);
          let l1 = page_put a p1 l;
          if r \<noteq> 0 then Some (l1, False, False)
          else if smpl then Some (l1, True, True)
          else do {
            (w, ret) \<leftarrow> win_draw env (p_win p1);
            Some (page_put a (p1\<lparr>p_win := w\<rparr>) l1, ret, False)
          }
        })"

text \<open>The results are the list, the return value and whether sampling was started.\<close>

definition page_next_execute :: "screen_env \<Rightarrow> bool \<Rightarrow> page_list \<Rightarrow> (page_list \<times> bool \<times> bool) option" where
  "page_next_execute env smpl l =
     (case pl_next_run l of
        None \<Rightarrow> Some (l, False, False)
      | Some a \<Rightarrow>
          do {
            (l1, ret, started) \<leftarrow> page_show env a smpl l;
            Some (l1\<lparr>pl_cur := Some a, pl_next_run := (if smpl then Some a else None)\<rparr>, ret, started)
          })"

partial_function (option) page_win_destroy_from :: "ptr \<Rightarrow> page heap \<Rightarrow> page heap option" where
  "page_win_destroy_from q h =
     (case q of
        None \<Rightarrow> Some h
      | Some a \<Rightarrow>
          do {
            p \<leftarrow> h a;
            p' \<leftarrow> win_dyn_fini p;
            page_win_destroy_from (p_next p') (h(a \<mapsto> p'))
          })"

declare page_win_destroy_from.simps [code]

definition page_win_destroy :: "page_list \<Rightarrow> page_list option" where
  "page_win_destroy l =
     do { h \<leftarrow> page_win_destroy_from (pl_head l) (pl_heap l); Some (l\<lparr>pl_heap := h\<rparr>) }"

section \<open>Links\<close>

interpretation pg: dnodes p_next p_prev "\<lambda>q p. p\<lparr>p_next := q\<rparr>" "\<lambda>q p. p\<lparr>p_prev := q\<rparr>"
  by unfold_locales simp_all

abbreviation pseg :: "page heap \<Rightarrow> ptr \<Rightarrow> addr list \<Rightarrow> ptr \<Rightarrow> bool" where
  "pseg \<equiv> dseg p_next p_prev"

text \<open>
  A window may be destroyed when its data is not already freed, and drawn when
  it was created; both hold as long as an initialised window owns live data.
\<close>

definition win_ok :: "dyn_win \<Rightarrow> bool" where
  "win_ok w \<longleftrightarrow> (w_inited w \<longrightarrow> w_draw w \<noteq> None \<and> w_destroy w \<noteq> None \<and>
                    (case w_dyn w of DynLive d \<Rightarrow> True | _ \<Rightarrow> False))"

definition heap_wins_ok :: "(dyn_win \<Rightarrow> bool) \<Rightarrow> page heap \<Rightarrow> bool" where
  "heap_wins_ok Q h \<longleftrightarrow> (\<forall>a p. h a = Some p \<longrightarrow> Q (p_win p))"

lemma win_ok_zero [simp]: "win_ok dyn_win_zero"
  by (simp add: win_ok_def dyn_win_zero_def)

lemma win_dyn_fini_Some:
  assumes "win_ok (p_win p)"
  obtains w where "win_dyn_fini p = Some (p\<lparr>p_win := w\<rparr>)" "win_ok w" "\<not> w_inited w"
proof (cases "w_inited (p_win p)")
  case True
  then obtain d where "w_dyn (p_win p) = DynLive d" "w_destroy (p_win p) \<noteq> None"
    using assms by (auto simp: win_ok_def split: dynp.splits)
  then show ?thesis
    using True by (intro that [of "(p_win p)\<lparr>w_dyn := DynFreed, w_inited := False\<rparr>"])
      (auto simp: win_dyn_fini_def win_destroy_def win_ok_def)
next
  case False
  then show ?thesis
    by (intro that [of "(p_win p)\<lparr>w_inited := False\<rparr>"]) (simp_all add: win_dyn_fini_def win_ok_def)
qed

lemma page_free_chain_nil [simp]: "page_free_chain None h k = Some (h, k)"
  by (simp add: page_free_chain.simps)

lemma page_free_Some:
  assumes "h a = Some p" "win_ok (p_win p)"
  shows "page_free (Some a) h = Some (h(a := None))"
  using assms(1) win_dyn_fini_Some [OF assms(2)] by (fastforce simp: page_free_def)

lemma page_free_chain_ok:
  assumes "pseg h q ys None" "distinct ys" "\<And>a p. a \<in> set ys \<Longrightarrow> h a = Some p \<Longrightarrow> win_ok (p_win p)"
  shows "page_free_chain (firstp ys None) h k = Some (h |` (- set ys), k + int (length ys))"
  using assms
proof (induction ys arbitrary: q h k)
  case (Cons a ys)
  from Cons.prems(1) obtain p where p: "h a = Some p" "p_next p = firstp ys None"
    "pseg h (Some a) ys None"
    by (auto split: option.splits)
  have ok: "win_ok (p_win p)" using Cons.prems(3) [of a p] p(1) by simp
  have seg: "pseg (h(a := None)) (Some a) ys None"
    using p(3) Cons.prems(2) by simp
  have "page_free_chain (firstp ys None) (h(a := None)) (k + 1) =
          Some ((h(a := None)) |` (- set ys), k + 1 + int (length ys))"
  proof (rule Cons.IH [OF seg])
    show "distinct ys" using Cons.prems(2) by simp
    show "win_ok (p_win p')" if "b \<in> set ys" "(h(a := None)) b = Some p'" for b p'
      using that Cons.prems(2,3) by (cases "b = a") auto
  qed
  moreover have "(h(a := None)) |` (- set ys) = h |` (- set (a # ys))"
    by (auto simp: restrict_map_def fun_eq_iff)
  ultimately show ?case
    by (simp add: page_free_chain.simps [of "Some a"] p page_free_Some [of h a p, OF p(1) ok])
qed (simp add: restrict_map_def)

section \<open>The list invariant\<close>

text \<open>
  list_ok Q l xs: the pages in the heap are exactly those of xs (nothing leaks),
  linked in that order, with head, tail and count in step and sound windows.
  nav_ok adds that the current page is the last one and that the page to run
  next is the current one, if any.
\<close>

definition list_ok :: "(dyn_win \<Rightarrow> bool) \<Rightarrow> page_list \<Rightarrow> addr list \<Rightarrow> bool" where
  "list_ok Q l xs \<longleftrightarrow>
     pseg (pl_heap l) None xs None \<and> distinct xs \<and> dom (pl_heap l) = set xs \<and>
     pl_head l = firstp xs None \<and> pl_tail l = lastp None xs \<and> pl_npages l = int (length xs) \<and>
     heap_wins_ok Q (pl_heap l)"

definition nav_ok :: "(dyn_win \<Rightarrow> bool) \<Rightarrow> page_list \<Rightarrow> addr list \<Rightarrow> bool" where
  "nav_ok Q l xs \<longleftrightarrow> list_ok Q l xs \<and> pl_cur l = lastp None xs \<and>
     (pl_next_run l = None \<or> pl_next_run l = lastp None xs)"

text \<open>The abstract list: the commands of the pages, oldest first.\<close>

definition page_cmds :: "page_list \<Rightarrow> addr list \<Rightarrow> cmd list" where
  "page_cmds l xs = map (\<lambda>a. p_cmd (the (pl_heap l a))) xs"

lemma win_set_simps [simp]:
  "w_draw (win_set ty f s e w) = Some f" "w_destroy (win_set ty f s e w) = Some f"
  "w_dyn (win_set ty f s e w) = w_dyn w" "w_inited (win_set ty f s e w) = w_inited w"
  "w_type (win_set ty f s e w) = ty"
  by (simp_all add: win_set_def)

lemma win_dyn_kind_fields:
  "win_dyn_kind c w = Some w' \<Longrightarrow> w_draw w' \<noteq> None \<and> w_destroy w' \<noteq> None"
  by (auto simp: win_dyn_kind_def split: cmd_id.splits)

lemma win_dyn_init_ok:
  assumes "win_ok (p_win p)" "\<not> w_inited (p_win p)"
  obtains w r where "win_dyn_init ok p = (p\<lparr>p_win := w\<rparr>, r)" "win_ok w" "r = 0 \<Longrightarrow> w_inited w"
proof (cases "win_dyn_kind (p_cmd p) (p_win p)")
  case None
  then show ?thesis
    using that [of "p_win p" "-1"] assms by (simp add: win_dyn_init_def)
next
  case (Some w)
  note k = win_dyn_kind_fields [OF Some]
  show ?thesis
  proof (cases ok)
    case True
    then show ?thesis
      using that [of "w\<lparr>w_dyn := DynLive (dyn_of_cmd (p_cmd p)), w_inited := True\<rparr>" 0] Some k
      by (simp add: win_dyn_init_def win_ok_def)
  next
    case False
    then show ?thesis
      using that [of "(p_win p)\<lparr>w_dyn := DynNull\<rparr>" "-1"] Some assms
      by (simp add: win_dyn_init_def win_ok_def)
  qed
qed

lemma win_draw_ok:
  assumes "win_ok w" "w_inited w"
  obtains w' where "win_draw env w = Some (w', draw_ok env)" "win_ok w'"
  using assms by (auto simp: win_ok_def win_draw_def split: dynp.splits)

lemma page_put_put [simp]: "page_put a p (page_put a q l) = page_put a p l"
  by (simp add: page_put_def)

lemma page_put_self: "pl_heap l a = Some p \<Longrightarrow> page_put a p l = l"
  by (cases l) (auto simp: page_put_def fun_eq_iff)

lemma page_put_frame [simp]:
  "pl_cur (page_put a p l) = pl_cur l" "pl_next_run (page_put a p l) = pl_next_run l"
  by (simp_all add: page_put_def)

lemma list_ok_ptrs [simp]:
  "list_ok Q (l\<lparr>pl_cur := c, pl_next_run := n\<rparr>) xs = list_ok Q l xs"
  "list_ok Q (l\<lparr>pl_cur := c\<rparr>) xs = list_ok Q l xs" "list_ok Q (l\<lparr>pl_next_run := n\<rparr>) xs = list_ok Q l xs"
  "page_cmds (l\<lparr>pl_cur := c, pl_next_run := n\<rparr>) xs = page_cmds l xs"
  "page_cmds (l\<lparr>pl_cur := c\<rparr>) xs = page_cmds l xs" "page_cmds (l\<lparr>pl_next_run := n\<rparr>) xs = page_cmds l xs"
  by (simp_all add: list_ok_def page_cmds_def)


section \<open>Invariants of the windows\<close>

text \<open>
  A predicate on windows that implies soundness, holds of a zeroed window and
  is kept by creating and drawing a window is kept by every operation of the
  list.  The interface is interpreted below on soundness itself and on the
  stronger invariant of a program whose windows were not destroyed.
\<close>

locale page_inv =
  fixes Q :: "dyn_win \<Rightarrow> bool"
  assumes Q_ok: "Q w \<Longrightarrow> win_ok w"
    and Q_zero: "Q dyn_win_zero"
    and Q_init: "Q (p_win p) \<Longrightarrow> \<not> w_inited (p_win p) \<Longrightarrow> win_dyn_init b p = (p', r) \<Longrightarrow> Q (p_win p')"
    and Q_draw: "Q w \<Longrightarrow> w_inited w \<Longrightarrow> win_draw env w = Some (w', b') \<Longrightarrow> Q w'"
begin

lemma list_ok_Some:
  assumes "list_ok Q l xs" "a \<in> set xs"
  obtains p where "pl_heap l a = Some p" "Q (p_win p)"
  using assms unfolding list_ok_def heap_wins_ok_def by blast

lemma list_ok_empty: "list_ok Q (page_list_init (l\<lparr>pl_heap := \<lambda>_. None\<rparr>)) []"
  by (simp add: list_ok_def page_list_init_def heap_wins_ok_def)

lemma page_list_fini_ok:
  assumes "list_ok Q l xs"
  shows "page_list_fini l = Some (page_list_init (l\<lparr>pl_heap := \<lambda>_. None\<rparr>))"
proof -
  have "page_free_chain (pl_head l) (pl_heap l) 0 = Some (pl_heap l |` (- set xs), int (length xs))"
    using assms page_free_chain_ok [of "pl_heap l" None xs 0] Q_ok
    by (auto simp: list_ok_def heap_wins_ok_def)
  moreover have "pl_heap l |` (- set xs) = (\<lambda>_. None)"
    using assms by (auto simp: list_ok_def restrict_map_def fun_eq_iff dom_def)
  ultimately show ?thesis by (simp add: page_list_fini_def)
qed

text \<open>Dropping the pages behind one of them.\<close>

lemma page_drop_next_ok:
  assumes ok: "list_ok Q l (xs @ a # ys)"
  obtains l' where "page_drop_next (Some a) l = Some l'" "list_ok Q l' (xs @ [a])"
    "pl_cur l' = pl_cur l" "pl_next_run l' = pl_next_run l"
    "page_cmds l' (xs @ [a]) = page_cmds l (xs @ [a])"
proof -
  let ?h = "pl_heap l"
  from ok have seg: "pseg ?h None (xs @ a # ys) None" and dist: "distinct (xs @ a # ys)"
    by (simp_all add: list_ok_def)
  from seg obtain p where p: "?h a = Some p" "p_next p = firstp ys None" "pseg ?h (Some a) ys None"
    by (auto simp: dseg_append split: option.splits)
  let ?h1 = "?h |` (- set ys)"
  let ?h2 = "?h1(a \<mapsto> p\<lparr>p_next := None\<rparr>)"
  have fr: "page_free_chain (p_next p) ?h 0 = Some (?h1, int (length ys))"
    using ok p dist page_free_chain_ok [of ?h "Some a" ys 0] Q_ok
    by (auto simp: list_ok_def heap_wins_ok_def)
  have a1: "?h1 a = Some p" using p dist by (simp add: restrict_map_def)
  define l' where "l' = l\<lparr>pl_heap := ?h2, pl_npages := pl_npages l - int (length ys), pl_tail := Some a\<rparr>"
  have run: "page_drop_next (Some a) l = Some l'"
    using p(1) fr a1 by (simp add: page_drop_next_def page_get_def page_put_def l'_def)
  have "pseg ?h1 None (xs @ [a]) (firstp ys None)"
    using seg dist by (subst dseg_cong [where h = ?h])
      (auto simp: dseg_append restrict_map_def split: option.splits)
  then have seg2: "pseg ?h2 None (xs @ [a]) None"
    using dist a1 by (intro pg.relink_last [where q = "firstp ys None"]) auto
  have wins: "heap_wins_ok Q ?h2"
    using ok p(1) by (auto simp: list_ok_def heap_wins_ok_def restrict_map_def split: if_splits)
  have dom2: "dom ?h2 = set (xs @ [a])"
    using ok dist by (auto simp: list_ok_def dom_def restrict_map_def split: if_splits)
  have l': "pl_heap l' = ?h2" "pl_head l' = pl_head l" "pl_tail l' = Some a"
    "pl_npages l' = pl_npages l - int (length ys)"
    by (simp_all add: l'_def)
  have ok': "list_ok Q l' (xs @ [a])"
    unfolding list_ok_def l' using ok dist
    by (intro conjI seg2 dom2 wins) (simp_all add: list_ok_def firstp_append)
  have "page_cmds l' (xs @ [a]) = page_cmds l (xs @ [a])"
    using dist p(1) by (auto simp: page_cmds_def l'_def restrict_map_def)
  with run ok' show ?thesis using that [of l'] by (simp add: l'_def)
qed

text \<open>Appending a fresh page.\<close>

lemma page_append_ok:
  assumes ok: "list_ok Q l xs" and fresh: "pl_heap l a = None" and wp: "Q (p_win p)"
  obtains l' where "page_append a (page_put a p l) = Some l'" "list_ok Q l' (xs @ [a])"
    "pl_cur l' = pl_cur l" "pl_next_run l' = pl_next_run l"
    "page_cmds l' (xs @ [a]) = page_cmds l xs @ [p_cmd p]"
proof (cases xs rule: rev_cases)
  case Nil
  let ?l' = "l\<lparr>pl_heap := (pl_heap l)(a \<mapsto> p\<lparr>p_prev := None, p_next := None\<rparr>), pl_head := Some a,
     pl_tail := Some a, pl_npages := pl_npages l + 1\<rparr>"
  have "page_append a (page_put a p l) = Some ?l'"
    using ok Nil by (simp add: page_append_def page_get_def page_put_def list_ok_def)
  moreover have "list_ok Q ?l' (xs @ [a])"
    using ok Nil wp by (auto simp: list_ok_def heap_wins_ok_def)
  ultimately show ?thesis
    using Nil that [of ?l'] by (simp add: page_cmds_def)
next
  case (snoc ys t)
  have dist: "distinct (ys @ [t])" "a \<notin> set (ys @ [t])"
    using ok fresh snoc by (auto simp: list_ok_def)
  obtain pt where pt: "pl_heap l t = Some pt"
    using ok snoc by (auto simp: list_ok_def)
  let ?h' = "(pl_heap l)(t \<mapsto> pt\<lparr>p_next := Some a\<rparr>, a \<mapsto> p\<lparr>p_next := None, p_prev := Some t\<rparr>)"
  let ?l' = "l\<lparr>pl_heap := ?h', pl_tail := Some a, pl_npages := pl_npages l + 1\<rparr>"
  have "page_append a (page_put a p l) = Some ?l'"
    using ok snoc pt dist
    by (auto simp: page_append_def page_get_def page_put_def list_ok_def fun_upd_twist)
  moreover have "pseg ?h' None (ys @ [t, a]) None"
    using ok snoc dist pt by (intro pg.append_node) (auto simp: list_ok_def)
  then have "list_ok Q ?l' (xs @ [a])"
    using ok wp dist pt snoc by (auto simp: list_ok_def heap_wins_ok_def firstp_append lastp_append)
  moreover have "page_cmds ?l' (xs @ [a]) = page_cmds l xs @ [p_cmd p]"
    using snoc dist pt by (auto simp: page_cmds_def)
  ultimately show ?thesis using that [of ?l'] by simp
qed

text \<open>Creating a page when the current one is the last: nothing is dropped.\<close>

lemma page_drop_next_last:
  assumes "list_ok Q l xs" "q = lastp None xs" "a \<notin> set xs"
  shows "page_drop_next q (page_put a p l) = Some (page_put a p l)"
proof (cases xs rule: rev_cases)
  case (snoc ys t)
  with assms obtain pt where pt: "pl_heap l t = Some pt" "p_next pt = None"
    by (auto simp: list_ok_def dseg_append split: option.splits)
  then have same: "pt\<lparr>p_next := None\<rparr> = pt" by (cases pt) simp
  have tail: "pl_tail l = Some t" using assms(1) snoc by (simp add: list_ok_def)
  have "(page_put a p l)\<lparr>pl_tail := Some t\<rparr> = page_put a p l"
    using tail by (cases l) (simp add: page_put_def)
  moreover have "page_put t pt (page_put a p l) = page_put a p l"
    using pt assms(3) snoc by (cases l) (auto simp: page_put_def fun_eq_iff)
  moreover have "page_drop_next q (page_put a p l) =
      Some ((page_put t (pt\<lparr>p_next := None\<rparr>) (page_put a p l))\<lparr>pl_tail := Some t\<rparr>)"
    using assms snoc pt by (simp add: page_drop_next_def page_get_def page_put_def)
  ultimately show ?thesis unfolding same by simp
qed (use assms in \<open>simp add: page_drop_next_def\<close>)

lemma page_create_ok:
  assumes nav: "nav_ok Q l xs" and fresh: "pl_heap l a = None"
  obtains l' where "page_create (Some a) c l = Some (l', Some a)" "list_ok Q l' (xs @ [a])"
    "pl_cur l' = pl_cur l" "pl_next_run l' = Some a" "page_cmds l' (xs @ [a]) = page_cmds l xs @ [c]"
proof -
  let ?p = "page_zero\<lparr>p_cmd := c\<rparr>"
  have ok: "list_ok Q l xs" and cur: "pl_cur l = lastp None xs" using nav by (simp_all add: nav_ok_def)
  have a: "a \<notin> set xs" using ok fresh by (auto simp: list_ok_def)
  have wp: "Q (p_win ?p)" using Q_zero by (simp add: page_zero_def)
  obtain l1 where l1: "page_append a (page_put a ?p l) = Some l1" "list_ok Q l1 (xs @ [a])"
    "pl_cur l1 = pl_cur l" "pl_next_run l1 = pl_next_run l" "page_cmds l1 (xs @ [a]) = page_cmds l xs @ [p_cmd ?p]"
    using page_append_ok [OF ok fresh wp] .
  have "pl_cur (page_put a ?p l) = pl_cur l" by (simp add: page_put_def)
  then have "page_create (Some a) c l = Some (l1\<lparr>pl_next_run := Some a\<rparr>, Some a)"
    using l1(1) page_drop_next_last [OF ok cur a, of ?p] by (simp add: page_create_def)
  moreover have "list_ok Q (l1\<lparr>pl_next_run := Some a\<rparr>) (xs @ [a])"
    using l1(2) by (simp add: list_ok_def)
  moreover have "page_cmds (l1\<lparr>pl_next_run := Some a\<rparr>) (xs @ [a]) = page_cmds l xs @ [c]"
    using l1(5) by (simp add: page_cmds_def)
  ultimately show ?thesis
    using that [of "l1\<lparr>pl_next_run := Some a\<rparr>"] l1(3) by simp
qed

text \<open>Changing the window of a page.\<close>

lemma list_ok_window:
  assumes "list_ok Q l xs" "pl_heap l a = Some p" "Q w"
  shows "list_ok Q (page_put a (p\<lparr>p_win := w\<rparr>) l) xs"
    and "page_cmds (page_put a (p\<lparr>p_win := w\<rparr>) l) xs = page_cmds l xs"
proof -
  have "pseg ((pl_heap l)(a \<mapsto> p\<lparr>p_win := w\<rparr>)) None xs None = pseg (pl_heap l) None xs None"
  proof (rule dseg_links)
    fix b assume "b \<in> set xs"
    then obtain n where "pl_heap l b = Some n" using assms(1) by (auto simp: list_ok_def)
    then show "\<exists>n n'. pl_heap l b = Some n \<and> ((pl_heap l)(a \<mapsto> p\<lparr>p_win := w\<rparr>)) b = Some n' \<and>
                p_next n' = p_next n \<and> p_prev n' = p_prev n"
      using assms(2) by auto
  qed
  then show "list_ok Q (page_put a (p\<lparr>p_win := w\<rparr>) l) xs"
    using assms by (auto simp: list_ok_def page_put_def heap_wins_ok_def)
  show "page_cmds (page_put a (p\<lparr>p_win := w\<rparr>) l) xs = page_cmds l xs"
    using assms(2) by (auto simp: page_cmds_def page_put_def)
qed

lemma page_show_ok:
  assumes ok: "list_ok Q l xs" and a: "a \<in> set xs"
  obtains l' r st where "page_show env a smpl l = Some (l', r, st)" "list_ok Q l' xs"
    "page_cmds l' xs = page_cmds l xs" "pl_cur l' = pl_cur l" "pl_next_run l' = pl_next_run l"
proof (cases "g_scr_height env < 24 \<or> g_scr_width env < 80 \<or> \<not> node_refresh_ok env")
  case True
  then show ?thesis using that [of l False False] ok by (auto simp: page_show_def)
next
  case False
  obtain p where p: "pl_heap l a = Some p" "Q (p_win p)"
    using list_ok_Some [OF ok a] .
  obtain w r where w: "(if w_inited (p_win p) then (p, 0) else win_dyn_init (dyn_create_ok env) p)
      = (p\<lparr>p_win := w\<rparr>, r)" "Q w" "r = 0 \<Longrightarrow> w_inited w"
  proof (cases "w_inited (p_win p)")
    case True
    then show ?thesis using that [of "p_win p" 0] p by simp
  next
    case False
    obtain w r where w: "win_dyn_init (dyn_create_ok env) p = (p\<lparr>p_win := w\<rparr>, r)" "r = 0 \<Longrightarrow> w_inited w"
      using win_dyn_init_ok [OF Q_ok [OF p(2)] False] by metis
    moreover have "Q w" using Q_init [OF p(2) False w(1)] by simp
    ultimately show ?thesis using that False by simp
  qed
  let ?l1 = "page_put a (p\<lparr>p_win := w\<rparr>) l"
  have l1: "list_ok Q ?l1 xs" "page_cmds ?l1 xs = page_cmds l xs"
    using list_ok_window [OF ok p(1) w(2)] by simp_all
  show ?thesis
  proof (cases "r = 0 \<and> \<not> smpl")
    case True
    then obtain w' where w': "win_draw env w = Some (w', draw_ok env)" "Q w'"
      using win_draw_ok [OF Q_ok [OF w(2)] w(3)] Q_draw [OF w(2) w(3)] by metis
    have "list_ok Q (page_put a (p\<lparr>p_win := w'\<rparr>) l) xs"
      "page_cmds (page_put a (p\<lparr>p_win := w'\<rparr>) l) xs = page_cmds l xs"
      using list_ok_window [OF ok p(1) w'(2)] by simp_all
    then show ?thesis
      using that [of "page_put a (p\<lparr>p_win := w'\<rparr>) l" "draw_ok env" False] True False p w(1) w'(1)
      by (simp add: page_show_def page_get_def)
  next
    case no: False
    then show ?thesis
      using that [of ?l1 "r = 0" "r = 0"] False p w(1) l1 by (auto simp: page_show_def page_get_def Let_def)
  qed
qed

text \<open>Running the next page, when it is the last one: it becomes the current page.\<close>

lemma page_next_execute_ok:
  assumes ok: "list_ok Q l xs" and nx: "pl_next_run l = None \<and> pl_cur l = lastp None xs \<or>
     xs \<noteq> [] \<and> pl_next_run l = lastp None xs"
  obtains l' r st where "page_next_execute env smpl l = Some (l', r, st)" "nav_ok Q l' xs"
    "page_cmds l' xs = page_cmds l xs"
proof (cases "pl_next_run l")
  case None
  then have "pl_cur l = lastp None xs" using nx by (auto simp: lastp_def split: if_splits)
  then show ?thesis
    using that [of l False False] ok None by (simp add: page_next_execute_def nav_ok_def)
next
  case (Some a)
  then have a: "a \<in> set xs" "lastp None xs = Some a" using nx by (auto simp: lastp_def split: if_splits)
  obtain l' r st where s: "page_show env a smpl l = Some (l', r, st)" "list_ok Q l' xs"
    "page_cmds l' xs = page_cmds l xs"
    using page_show_ok [OF ok a(1)] by metis
  let ?l = "l'\<lparr>pl_cur := Some a, pl_next_run := (if smpl then Some a else None)\<rparr>"
  have "page_next_execute env smpl l = Some (?l, r, st)"
    using s(1) Some by (simp add: page_next_execute_def)
  moreover have "nav_ok Q ?l xs" using s(2) a(2) by (simp add: nav_ok_def)
  moreover have "page_cmds ?l xs = page_cmds l xs" using s(3) by simp
  ultimately show ?thesis using that [of ?l] by simp
qed

lemma page_curprev_get_last:
  assumes "nav_ok Q l (xs @ [a])"
  shows "page_curprev_get l = Some (lastp None xs)"
  using assms by (auto simp: nav_ok_def list_ok_def dseg_append page_curprev_get_def page_get_def
      split: option.splits)

end

interpretation pw: page_inv win_ok
proof
  show "win_ok (p_win p')" if "win_ok (p_win p)" "\<not> w_inited (p_win p)" "win_dyn_init b p = (p', r)"
    for p b p' r
    using win_dyn_init_ok [OF that(1,2), of b] that(3) by fastforce
  show "win_ok w'" if "win_ok w" "w_inited w" "win_draw env w = Some (w', r)" for env w w' r
    using win_draw_ok [OF that(1,2), of env] that(3) by fastforce
qed simp_all

text \<open>
  Before a resize destroys the windows, a window is either created or still
  has the type of the zeroed structure, so that code that switches on another
  type finds live data.
\<close>

definition win_live :: "dyn_win \<Rightarrow> bool" where
  "win_live w \<longleftrightarrow> win_ok w \<and> (w_inited w \<or> w_type w = WIN_TYPE_RAW_NUM)"

interpretation pv: page_inv win_live
proof
  show "win_live (p_win p')" if "win_live (p_win p)" "\<not> w_inited (p_win p)" "win_dyn_init b p = (p', r)"
    for p b p' r
    using that win_dyn_kind_fields [of "p_cmd p" "p_win p"]
    by (auto simp: win_live_def win_ok_def win_dyn_init_def split: option.splits if_splits)
  show "win_live w'" if "win_live w" "w_inited w" "win_draw env w = Some (w', r)" for env w w' r
    using that by (auto simp: win_live_def win_ok_def win_draw_def split: option.splits dynp.splits)
qed (simp_all add: win_live_def, simp add: dyn_win_zero_def)

text \<open>Destroying the windows of all pages, as on a resize of the terminal.\<close>

lemma page_win_destroy_from_ok:
  assumes "pseg h q ys None" "distinct ys" "heap_wins_ok win_ok h"
  obtains h' where "page_win_destroy_from (firstp ys None) h = Some h'" "heap_wins_ok win_ok h'"
    "\<And>b. b \<notin> set ys \<Longrightarrow> h' b = h b"
    "\<And>b. b \<in> set ys \<Longrightarrow> \<exists>p w. h b = Some p \<and> h' b = Some (p\<lparr>p_win := w\<rparr>) \<and>
         win_dyn_fini p = Some (p\<lparr>p_win := w\<rparr>) \<and> \<not> w_inited w"
  using assms
proof (induction ys arbitrary: q h thesis)
  case Nil
  then show ?case by (simp add: page_win_destroy_from.simps)
next
  case (Cons a ys)
  from Cons.prems(2) obtain p where p: "h a = Some p" "p_next p = firstp ys None"
    "pseg h (Some a) ys None"
    by (auto split: option.splits)
  obtain w where w: "win_dyn_fini p = Some (p\<lparr>p_win := w\<rparr>)" "win_ok w" "\<not> w_inited w"
    using win_dyn_fini_Some [of p] Cons.prems(4) p(1) by (metis heap_wins_ok_def)
  let ?h1 = "h(a \<mapsto> p\<lparr>p_win := w\<rparr>)"
  have 1: "pseg ?h1 (Some a) ys None" "distinct ys" "heap_wins_ok win_ok ?h1"
    using p(3) Cons.prems(3,4) w(2) by (auto simp: heap_wins_ok_def)
  obtain h' where h': "page_win_destroy_from (firstp ys None) ?h1 = Some h'" "heap_wins_ok win_ok h'"
    "\<And>b. b \<notin> set ys \<Longrightarrow> h' b = ?h1 b"
    "\<And>b. b \<in> set ys \<Longrightarrow> \<exists>p w. ?h1 b = Some p \<and> h' b = Some (p\<lparr>p_win := w\<rparr>) \<and>
         win_dyn_fini p = Some (p\<lparr>p_win := w\<rparr>) \<and> \<not> w_inited w"
    using Cons.IH [OF _ 1] by blast
  have run: "page_win_destroy_from (firstp (a # ys) None) h = Some h'"
    using p w h'(1) by (simp add: page_win_destroy_from.simps [of "Some a"])
  show ?case
  proof (rule Cons.prems(1) [OF run h'(2)])
    show "h' b = h b" if "b \<notin> set (a # ys)" for b using that h'(3) by simp
    show "\<exists>p w. h b = Some p \<and> h' b = Some (p\<lparr>p_win := w\<rparr>) \<and>
         win_dyn_fini p = Some (p\<lparr>p_win := w\<rparr>) \<and> \<not> w_inited w" if "b \<in> set (a # ys)" for b
    proof (cases "b = a")
      case True
      then have "h' b = Some (p\<lparr>p_win := w\<rparr>)" using h'(3) [of b] Cons.prems(3) by simp
      then show ?thesis using True p(1) w(1,3) by auto
    next
      case False
      then show ?thesis using that h'(4) [of b] by auto
    qed
  qed
qed

lemma page_win_destroy_ok:
  assumes "nav_ok win_ok l xs"
  obtains l' where "page_win_destroy l = Some l'" "nav_ok win_ok l' xs" "page_cmds l' xs = page_cmds l xs"
    "\<And>a p. pl_heap l' a = Some p \<Longrightarrow> \<not> w_inited (p_win p)"
    "\<And>a p. pl_heap l a = Some p \<Longrightarrow> pl_heap l' a = win_dyn_fini p" "pl_cur l' = pl_cur l"
proof -
  have ok: "list_ok win_ok l xs" using assms by (simp add: nav_ok_def)
  obtain h' where h': "page_win_destroy_from (firstp xs None) (pl_heap l) = Some h'" "heap_wins_ok win_ok h'"
    "\<And>b. b \<notin> set xs \<Longrightarrow> h' b = pl_heap l b"
    "\<And>b. b \<in> set xs \<Longrightarrow> \<exists>p w. pl_heap l b = Some p \<and> h' b = Some (p\<lparr>p_win := w\<rparr>) \<and>
         win_dyn_fini p = Some (p\<lparr>p_win := w\<rparr>) \<and> \<not> w_inited w"
    using page_win_destroy_from_ok [of "pl_heap l" None xs] ok by (auto simp: list_ok_def)
  let ?l = "l\<lparr>pl_heap := h'\<rparr>"
  have run: "page_win_destroy l = Some ?l"
    using h'(1) ok by (simp add: page_win_destroy_def list_ok_def)
  have "pseg h' None xs None = pseg (pl_heap l) None xs None"
    using h'(4) by (intro dseg_links) fastforce
  moreover have "dom h' = dom (pl_heap l)"
    using h'(3,4) ok by (auto simp: list_ok_def dom_def) (metis option.distinct(1))+
  ultimately have "nav_ok win_ok ?l xs"
    using assms h'(2) by (simp add: nav_ok_def list_ok_def)
  moreover have "page_cmds ?l xs = page_cmds l xs"
    using h'(4) by (force simp: page_cmds_def)
  moreover have "\<not> w_inited (p_win p)" if "pl_heap ?l a = Some p" for a p
    using that h'(3) [of a] h'(4) [of a] ok by (cases "a \<in> set xs") (auto simp: list_ok_def)
  moreover have "pl_heap ?l a = win_dyn_fini p" if "pl_heap l a = Some p" for a p
  proof -
    have "a \<in> set xs" using that ok by (auto simp: list_ok_def)
    then show ?thesis using that h'(4) [of a] by auto
  qed
  ultimately show ?thesis using that [of ?l] run by simp
qed

end
