(* ===== verification/Cmd.thy ===== *)
theory Cmd
  imports Page Perf
begin

text \<open>
  Commands (common/cmd.c, common/os/os_cmd.c, common/os/os_page.c): a hot-key
  becomes a command identifier, and cmd_execute looks up the type of the
  current window and the command in the table s_switch for a preparation
  (preop) and an operation (op) and calls them in that order.  They work on the
  page list and on the perf control structure; a preop may fill in the command,
  which the operation then stores in the new page.
\<close>

section \<open>State and environment\<close>

record cmd_state =
  cs_pages :: page_list
  cs_perf :: perf_ctl
  cs_sortkey :: sort_key

text \<open>
  The environment: the screen, the perf thread, the memory allocator (the
  address zalloc returns for a page, None when out of memory) and whether the
  processor supports cache monitoring.
\<close>

record cmd_env =
  ce_scr :: screen_env
  ce_perf :: perf_env
  ce_mem :: "page_list \<Rightarrow> ptr"
  g_cmt_enabled :: bool

definition PERF_PQOS_FLAG_LLC :: int where "PERF_PQOS_FLAG_LLC = 1"
definition PERF_PQOS_FLAG_TOTAL_BW :: int where "PERF_PQOS_FLAG_TOTAL_BW = 2"
definition PERF_PQOS_FLAG_LOCAL_BW :: int where "PERF_PQOS_FLAG_LOCAL_BW = 4"

section \<open>Starting the sampling for a page\<close>

text \<open>Sample the counters first, wait for the data, then go on with k.\<close>

definition smpl_after_profiling ::
  "perf_env \<Rightarrow> perf_ctl \<Rightarrow> (perf_ctl \<Rightarrow> (perf_ctl \<times> bool) option) \<Rightarrow> (perf_ctl \<times> bool) option" where
  "smpl_after_profiling env c k =
     (let (c1, r) = perf_profiling_smpl False c
      in if r \<noteq> 0 then Some (c1, False)
         else let (c2, f) = pe_flag2 env c1
              in if f \<noteq> FLAG2_PROFILING_DATA_READY then Some (c2, False) else k c2)"

definition smpl_ok :: "perf_ctl \<times> int \<Rightarrow> (perf_ctl \<times> bool) option" where
  "smpl_ok cr = (if snd cr = 0 then Some (fst cr, True) else Some (fst cr, False))"

definition os_page_smpl_start :: "perf_env \<Rightarrow> page \<Rightarrow> perf_ctl \<Rightarrow> (perf_ctl \<times> bool) option" where
  "os_page_smpl_start env p c =
     (let cmd = p_cmd p; type = w_type (p_win p)
      in if c_id cmd \<in> {CMD_HOME_ID, CMD_IR_NORMALIZE_ID, CMD_MONITOR_ID, CMD_LWP_ID,
                        CMD_NODE_OVERVIEW_ID, CMD_CALLCHAIN_ID}
         then smpl_ok (perf_profiling_smpl True c)
         else if c_id cmd = CMD_NODE_DETAIL_ID
         then smpl_after_profiling env c (\<lambda>c2. smpl_ok (perf_uncore_smpl (c_pid cmd) c2))
         else if c_id cmd \<in> {CMD_LAT_ID, CMD_LLCALLCHAIN_ID, CMD_LATNODE_ID, CMD_ACCDST_ID}
         then smpl_ok (perf_ll_smpl 0 0 c)
         else if c_id cmd = CMD_PQOS_CMT_ID
         then smpl_after_profiling env c (\<lambda>c2.
           if type = WIN_TYPE_PQOS_CMT_TOPNPROC
           then do {
             (c3, _) \<leftarrow> perf_pqos_active_proc_setup env (c_flags cmd) True c2;
             smpl_ok (perf_pqos_cmt_smpl 0 0 c3)
           }
           else if type = WIN_TYPE_PQOS_CMT_MONIPROC
           then smpl_ok (perf_pqos_cmt_smpl (c_pid cmd) 0 c2)
           else if type = WIN_TYPE_PQOS_CMT_MONILWP
           then smpl_ok (perf_pqos_cmt_smpl (c_pid cmd) (c_lwpid cmd) c2)
           else Some (c2, True))
         else if c_id cmd = CMD_PQOS_MBM_ID
         then smpl_after_profiling env c
                (\<lambda>c2. smpl_ok (perf_pqos_cmt_smpl (c_pid cmd) (c_lwpid cmd) c2))
         else Some (c, False))"

section \<open>Access to the current page\<close>

text \<open>The current page, for code that dereferences it unconditionally.\<close>

definition cur_page :: "cmd_state \<Rightarrow> page option" where
  "cur_page s = do { a \<leftarrow> pl_cur (cs_pages s); page_get (cs_pages s) a }"

text \<open>The private data of the current window (the DYN macros): it must be live.\<close>

definition cur_dyn :: "cmd_state \<Rightarrow> dyn option" where
  "cur_dyn s = do { p \<leftarrow> cur_page s; (case w_dyn (p_win p) of DynLive d \<Rightarrow> Some d | _ \<Rightarrow> None) }"

definition with_perf :: "cmd_state \<Rightarrow> (perf_ctl \<times> 'r) option \<Rightarrow> (cmd_state \<times> 'r) option" where
  "with_perf s r = map_option (\<lambda>(c, x). (s\<lparr>cs_perf := c\<rparr>, x)) r"

text \<open>page_next_execute, with the sampling page_show starts for the page it shows.\<close>

definition run_next :: "cmd_env \<Rightarrow> bool \<Rightarrow> cmd_state \<Rightarrow> (cmd_state \<times> bool) option" where
  "run_next env smpl s =
     do {
       (l, ret, started) \<leftarrow> page_next_execute (ce_scr env) smpl (cs_pages s);
       let s1 = s\<lparr>cs_pages := l\<rparr>;
       if started then do {
         p \<leftarrow> cur_page s1;
         (s2, _) \<leftarrow> with_perf s1 (os_page_smpl_start (ce_perf env) p (cs_perf s1));
         Some (s2, ret)
       } else Some (s1, ret)
     }"

section \<open>Operations\<close>

definition op_page_next :: "cmd_env \<Rightarrow> cmd \<Rightarrow> bool \<Rightarrow> cmd_state \<Rightarrow> (cmd_state \<times> int) option" where
  "op_page_next env c smpl s =
     do {
       (l, q) \<leftarrow> page_create (ce_mem env (cs_pages s)) c (cs_pages s);
       let s1 = s\<lparr>cs_pages := l\<rparr>;
       if q = None then Some (s1, -1)
       else do {
         (s2, ok) \<leftarrow> run_next env smpl s1;
         Some (s2, if ok then 0 else -1)
       }
     }"

definition op_page_prev :: "cmd_env \<Rightarrow> bool \<Rightarrow> cmd_state \<Rightarrow> (cmd_state \<times> int) option" where
  "op_page_prev env smpl s =
     do {
       q \<leftarrow> page_curprev_get (cs_pages s);
       if q = None then Some (s, 0)
       else do {
         l1 \<leftarrow> page_drop_next q (cs_pages s);
         let l2 = page_next_set q (page_current_set q l1);
         (s2, ok) \<leftarrow> run_next env smpl (s\<lparr>cs_pages := l2\<rparr>);
         Some (s2, if ok then 0 else -1)
       }
     }"

text \<open>op_refresh dereferences the current page when it starts the sampling.\<close>

definition op_refresh :: "cmd_env \<Rightarrow> cmd_state \<Rightarrow> (cmd_state \<times> int) option" where
  "op_refresh env s =
     (let s1 = s\<lparr>cs_pages := page_next_set (pl_cur (cs_pages s)) (cs_pages s)\<rparr>
      in do {
        p \<leftarrow> cur_page s1;
        (s2, started) \<leftarrow> with_perf s1 (os_page_smpl_start (ce_perf env) p (cs_perf s1));
        if started then Some (s2, 0)
        else do {
          (s3, ok) \<leftarrow> run_next env False s2;
          Some (s3, if ok then 0 else -1)
        }
      })"

definition s_rawnum_sortkey :: "sort_key list" where
  "s_rawnum_sortkey = [SORT_KEY_RMA, SORT_KEY_LMA, SORT_KEY_RL, SORT_KEY_CPI, SORT_KEY_CPU]"

definition s_topnproc_sortkey :: "sort_key list" where
  "s_topnproc_sortkey = [SORT_KEY_RPI, SORT_KEY_LPI, SORT_KEY_RL, SORT_KEY_CPI, SORT_KEY_CPU]"

text \<open>The position of a digit command: the distance of its number from CMD_1_ID.\<close>

definition cmd_digit :: "cmd_id \<Rightarrow> nat option" where
  "cmd_digit i = (case i of CMD_1_ID \<Rightarrow> Some 0 | CMD_2_ID \<Rightarrow> Some 1 | CMD_3_ID \<Rightarrow> Some 2
                  | CMD_4_ID \<Rightarrow> Some 3 | CMD_5_ID \<Rightarrow> Some 4 | _ \<Rightarrow> None)"

definition sortkey_set :: "cmd_id \<Rightarrow> page \<Rightarrow> sort_key \<Rightarrow> sort_key" where
  "sortkey_set i p key =
     (let arr = (if w_type (p_win p) = WIN_TYPE_RAW_NUM then s_rawnum_sortkey else s_topnproc_sortkey)
      in case cmd_digit i of None \<Rightarrow> key | Some n \<Rightarrow> arr ! n)"

definition op_sort :: "cmd_env \<Rightarrow> cmd \<Rightarrow> cmd_state \<Rightarrow> (cmd_state \<times> int) option" where
  "op_sort env c s =
     (if pl_cur (cs_pages s) = None then Some (s, 0)
      else do {
        p \<leftarrow> cur_page s;
        (s1, _) \<leftarrow> op_refresh env (s\<lparr>cs_sortkey := sortkey_set (c_id c) p (cs_sortkey s)\<rparr>);
        Some (s1, 0)
      })"

definition op_home :: "cmd_env \<Rightarrow> cmd \<Rightarrow> bool \<Rightarrow> cmd_state \<Rightarrow> (cmd_state \<times> int) option" where
  "op_home env c smpl s =
     do { l \<leftarrow> page_list_fini (cs_pages s); op_page_next env c smpl (s\<lparr>cs_pages := l\<rparr>) }"

definition s_callchain_ui_countid :: "ui_count_id list" where
  "s_callchain_ui_countid = [UI_COUNT_RMA, UI_COUNT_LMA, UI_COUNT_CLK, UI_COUNT_IR]"

definition callchain_countid_set :: "cmd_id \<Rightarrow> cmd_state \<Rightarrow> (cmd_state \<times> ui_count_id) option" where
  "callchain_countid_set i s =
     do {
       a \<leftarrow> pl_cur (cs_pages s);
       p \<leftarrow> page_get (cs_pages s) a;
       d \<leftarrow> cur_dyn s;
       let u = (case cmd_digit i of None \<Rightarrow> UI_COUNT_INVALID
                | Some n \<Rightarrow> if n < 4 then s_callchain_ui_countid ! n else UI_COUNT_INVALID);
       Some (s\<lparr>cs_pages := page_put a (p\<lparr>p_win := (p_win p)\<lparr>w_dyn := DynLive (d\<lparr>d_countid := u\<rparr>)\<rparr>\<rparr>)
                 (cs_pages s)\<rparr>, u)
     }"

definition os_op_callchain_count :: "cmd_env \<Rightarrow> cmd \<Rightarrow> cmd_state \<Rightarrow> (cmd_state \<times> int) option" where
  "os_op_callchain_count env c s =
     (if pl_cur (cs_pages s) = None then Some (s, 0)
      else do {
        (s1, u) \<leftarrow> callchain_countid_set (c_id c) s;
        if u = UI_COUNT_INVALID then Some (s1, 0)
        else do {
          (s2, _) \<leftarrow> with_perf s1 (perf_profiling_partpause (ce_perf env) u (cs_perf s1));
          (s3, _) \<leftarrow> op_refresh env s2;
          Some (s3, 0)
        }
      })"

definition os_op_switch2ll :: "cmd_env \<Rightarrow> cmd \<Rightarrow> bool \<Rightarrow> cmd_state \<Rightarrow> (cmd_state \<times> int) option" where
  "os_op_switch2ll env c smpl s =
     do {
       p \<leftarrow> cur_page s;
       (case w_type (p_win p) of
          WIN_TYPE_MONIPROC \<Rightarrow>
            do { d \<leftarrow> cur_dyn s; op_page_next env (c\<lparr>c_pid := d_pid d, c_lwpid := 0\<rparr>) smpl s }
        | WIN_TYPE_MONILWP \<Rightarrow>
            do { d \<leftarrow> cur_dyn s; op_page_next env (c\<lparr>c_pid := d_pid d, c_lwpid := d_lwpid d\<rparr>) smpl s }
        | _ \<Rightarrow> Some (s, -1))
     }"

text \<open>The highlighted line indexes the lines of the latency window.\<close>

definition os_op_switch2llcallchain :: "cmd_env \<Rightarrow> cmd \<Rightarrow> bool \<Rightarrow> cmd_state \<Rightarrow> (cmd_state \<times> int) option" where
  "os_op_switch2llcallchain env c smpl s =
     do {
       d \<leftarrow> cur_dyn s;
       (case d_lines d of
          None \<Rightarrow> Some (s, -1)
        | Some lines \<Rightarrow>
            if d_highlight d = -1 then Some (s, -1)
            else do {
              (ad, sz) \<leftarrow> arr_get lines (d_highlight d);
              op_page_next env
                (c\<lparr>c_pid := d_pid d, c_lwpid := d_lwpid d, c_addr := ad, c_size := sz\<rparr>) smpl s
            })
     }"

section \<open>Preparations\<close>

text \<open>
  A preop may change the command, the request to sample and the perf control
  structure.  Its return value is ignored by cmd_execute.
\<close>

definition os_preop_switch2profiling ::
  "cmd_env \<Rightarrow> cmd \<Rightarrow> cmd_state \<Rightarrow> (cmd \<times> bool \<times> cmd_state \<times> int) option" where
  "os_preop_switch2profiling env c s =
     do {
       (s1, b1) \<leftarrow> (if perf_pqos_cmt_started (cs_perf s)
                   then map_option (\<lambda>(s', _). (s', True))
                          (with_perf s (perf_pqos_cmt_stop (ce_perf env) 0 0 (cs_perf s)))
                   else Some (s, False));
       (s2, b2) \<leftarrow> (if perf_uncore_started (cs_perf s1)
                   then map_option (\<lambda>(s', _). (s', True))
                          (with_perf s1 (perf_uncore_stop (ce_perf env) (-1) (cs_perf s1)))
                   else Some (s1, b1));
       if \<not> perf_profiling_started (cs_perf s2) then do {
         (s3, _) \<leftarrow> with_perf s2 (perf_allstop (ce_perf env) (cs_perf s2));
         (s4, r) \<leftarrow> with_perf s3 (perf_profiling_start (ce_perf env) (cs_perf s3));
         Some (if r \<noteq> 0 then (c, b2, s4, -1) else (c, True, s4, 0))
       } else Some (c, b2, s2, 0)
     }"

definition os_preop_switch2ll ::
  "cmd_env \<Rightarrow> cmd \<Rightarrow> cmd_state \<Rightarrow> (cmd \<times> bool \<times> cmd_state \<times> int) option" where
  "os_preop_switch2ll env c s =
     (if \<not> perf_ll_started (cs_perf s) then do {
        (s1, _) \<leftarrow> with_perf s (perf_allstop (ce_perf env) (cs_perf s));
        (s2, r) \<leftarrow> with_perf s1 (perf_ll_start (ce_perf env) 0 (cs_perf s1));
        Some (if r \<noteq> 0 then (c, False, s2, -1) else (c, True, s2, 0))
      } else Some (c, False, s, 0))"

definition os_preop_switch2callchain ::
  "cmd_env \<Rightarrow> cmd \<Rightarrow> bool \<Rightarrow> cmd_state \<Rightarrow> (cmd \<times> bool \<times> cmd_state \<times> int) option" where
  "os_preop_switch2callchain env c smpl s =
     do {
       p \<leftarrow> cur_page s;
       let ty = w_type (p_win p);
       if ty = WIN_TYPE_MONIPROC \<or> ty = WIN_TYPE_MONILWP then do {
         d \<leftarrow> cur_dyn s;
         let c' = c\<lparr>c_pid := d_pid d, c_lwpid := (if ty = WIN_TYPE_MONIPROC then 0 else d_lwpid d)\<rparr>;
         (s1, r) \<leftarrow> with_perf s (perf_profiling_partpause (ce_perf env) UI_COUNT_RMA (cs_perf s));
         Some (c', True, s1, r)
       } else Some (c, smpl, s, -1)
     }"

definition os_preop_switch2accdst ::
  "cmd_env \<Rightarrow> cmd \<Rightarrow> bool \<Rightarrow> cmd_state \<Rightarrow> (cmd \<times> bool \<times> cmd_state \<times> int) option" where
  "os_preop_switch2accdst env c smpl s =
     do {
       p \<leftarrow> cur_page s;
       let ty = w_type (p_win p);
       if ty = WIN_TYPE_LAT_PROC \<or> ty = WIN_TYPE_LAT_LWP then do {
         d \<leftarrow> cur_dyn s;
         Some (c\<lparr>c_pid := d_pid d, c_lwpid := (if ty = WIN_TYPE_LAT_PROC then 0 else d_lwpid d)\<rparr>,
               smpl, s, 0)
       } else Some (c, smpl, s, -1)
     }"

definition os_preop_leavecallchain ::
  "cmd_env \<Rightarrow> cmd \<Rightarrow> cmd_state \<Rightarrow> (cmd \<times> bool \<times> cmd_state \<times> int) option" where
  "os_preop_leavecallchain env c s =
     do {
       d \<leftarrow> cur_dyn s;
       if d_countid d \<noteq> UI_COUNT_CORE_CLK then do {
         (s1, _) \<leftarrow> with_perf s (perf_profiling_restore (ce_perf env) (d_countid d) (cs_perf s));
         Some (c, True, s1, 0)
       } else Some (c, True, s, 0)
     }"

text \<open>Sampling before a change of the counters: -1 unless the data arrives.\<close>

definition preop_sample :: "cmd_env \<Rightarrow> cmd_state \<Rightarrow> cmd_state \<times> bool" where
  "preop_sample env s =
     (let (c1, r) = perf_profiling_smpl False (cs_perf s)
      in if r \<noteq> 0 then (s\<lparr>cs_perf := c1\<rparr>, False)
         else let (c2, f) = pe_flag2 (ce_perf env) c1
              in (s\<lparr>cs_perf := c2\<rparr>, f = FLAG2_PROFILING_DATA_READY))"

text \<open>
  The switch of os_preop_switch2pqoscmt over the window type: the command with
  the process and thread to monitor, or None for the default case.
\<close>

definition pqoscmt_fill :: "win_type \<Rightarrow> cmd \<Rightarrow> cmd_state \<Rightarrow> cmd option option" where
  "pqoscmt_fill ty c s =
     (if ty = WIN_TYPE_MONIPROC
      then do { d \<leftarrow> cur_dyn s;
                Some (Some (c\<lparr>c_pid := d_pid d, c_lwpid := 0, c_flags := PERF_PQOS_FLAG_LLC\<rparr>)) }
      else if ty = WIN_TYPE_RAW_NUM \<or> ty = WIN_TYPE_TOPNPROC
      then Some (Some (c\<lparr>c_pid := 0, c_lwpid := 0, c_flags := PERF_PQOS_FLAG_LLC\<rparr>))
      else if ty \<in> {WIN_TYPE_MONILWP, WIN_TYPE_PQOS_MBM_MONIPROC, WIN_TYPE_PQOS_MBM_MONILWP}
      then do { d \<leftarrow> cur_dyn s;
                Some (Some (c\<lparr>c_pid := d_pid d, c_lwpid := d_lwpid d, c_flags := PERF_PQOS_FLAG_LLC\<rparr>)) }
      else Some None)"

definition os_preop_switch2pqoscmt ::
  "cmd_env \<Rightarrow> cmd \<Rightarrow> bool \<Rightarrow> cmd_state \<Rightarrow> (cmd \<times> bool \<times> cmd_state \<times> int) option" where
  "os_preop_switch2pqoscmt env c smpl s =
     do {
       p \<leftarrow> cur_page s;
       c' \<leftarrow> pqoscmt_fill (w_type (p_win p)) c s;
       (case c' of
          None \<Rightarrow> Some (c, smpl, s, -1)
        | Some c1 \<Rightarrow>
            do {
              (s1, _) \<leftarrow> with_perf s
                 (perf_pqos_cmt_stop (ce_perf env) (c_pid c1) (c_lwpid c1) (cs_perf s));
              let (s2, ready) = preop_sample env s1;
              if \<not> ready then Some (c1, smpl, s2, -1)
              else do {
                (s3, r) \<leftarrow> with_perf s2
                  (if c_pid c1 = 0
                   then perf_pqos_active_proc_setup (ce_perf env) (c_flags c1) False (cs_perf s2)
                   else perf_pqos_proc_setup (ce_perf env) (c_pid c1) (c_lwpid c1) (c_flags c1)
                          (cs_perf s2));
                Some (c1, smpl, s3, r)
              }
            })
     }"

definition os_preop_switch2pqosmbm ::
  "cmd_env \<Rightarrow> cmd \<Rightarrow> bool \<Rightarrow> cmd_state \<Rightarrow> (cmd \<times> bool \<times> cmd_state \<times> int) option" where
  "os_preop_switch2pqosmbm env c smpl s =
     do {
       p \<leftarrow> cur_page s;
       let ty = w_type (p_win p);
       if ty = WIN_TYPE_PQOS_CMT_MONIPROC \<or> ty = WIN_TYPE_PQOS_CMT_MONILWP then do {
         let (s1, ready) = preop_sample env s;
         if \<not> ready then Some (c, smpl, s1, -1)
         else do {
           d \<leftarrow> cur_dyn s1;
           let c1 = c\<lparr>c_pid := d_pid d, c_lwpid := d_lwpid d,
                      c_flags := PERF_PQOS_FLAG_TOTAL_BW + PERF_PQOS_FLAG_LOCAL_BW\<rparr>;
           (s2, _) \<leftarrow> with_perf s1
              (perf_pqos_cmt_stop (ce_perf env) (c_pid c1) (c_lwpid c1) (cs_perf s1));
           (s3, r) \<leftarrow> with_perf s2
              (perf_pqos_proc_setup (ce_perf env) (c_pid c1) (c_lwpid c1) (c_flags c1) (cs_perf s2));
           Some (c1, smpl, s3, r)
         }
       } else Some (c, smpl, s, 0)
     }"

definition os_preop_switch2uncore ::
  "cmd_env \<Rightarrow> cmd \<Rightarrow> bool \<Rightarrow> cmd_state \<Rightarrow> (cmd \<times> bool \<times> cmd_state \<times> int) option" where
  "os_preop_switch2uncore env c smpl s =
     do {
       p \<leftarrow> cur_page s;
       if w_type (p_win p) = WIN_TYPE_NODE_OVERVIEW then do {
         let (s1, ready) = preop_sample env s;
         if \<not> ready then Some (c, smpl, s1, -1)
         else do {
           (s2, _) \<leftarrow> with_perf s1 (perf_uncore_stop (ce_perf env) (-1) (cs_perf s1));
           (s3, r) \<leftarrow> with_perf s2 (perf_uncore_setup (ce_perf env) (c_pid c) (cs_perf s2));
           Some (c, smpl, s3, r)
         }
       } else Some (c, smpl, s, 0)
     }"

section \<open>The switch table\<close>

text \<open>The functions the table points to; os-level functions that do nothing on Linux are kept.\<close>

datatype preop =
    P_switch2profiling | P_switch2ll | P_llrefresh | P_llmap_get | P_switch2ln | P_lnrefresh
  | P_lnmap_get | P_back2ll | P_switch2callchain | P_switch2accdst | P_switch2pqoscmt
  | P_switch2pqosmbm | P_switch2uncore | P_leavecallchain

datatype cmd_op =
    O_page_next | O_page_prev | O_refresh | O_llmap_stop | O_lnmap_stop | O_sort | O_home
  | O_switch2ll | O_callchain_count | O_switch2llcallchain

record switch =
  sw_preop :: "preop option"
  sw_op :: "cmd_op option"

text \<open>
  switch_table_init zeroes the table and makes assignments: the same ones for
  every window type in a loop, then some for a particular type.  The rows are
  independent, so the table is given by the assignments of each row in order.
\<close>

datatype switch_asg = SetPreop cmd_id "preop option" | SetOp cmd_id "cmd_op option"

fun switch_assign :: "switch_asg \<Rightarrow> (cmd_id \<Rightarrow> switch) \<Rightarrow> (cmd_id \<Rightarrow> switch)" where
  "switch_assign (SetPreop i v) row = row(i := (row i)\<lparr>sw_preop := v\<rparr>)"
| "switch_assign (SetOp i v) row = row(i := (row i)\<lparr>sw_op := v\<rparr>)"

definition switch_loop_asgs :: "switch_asg list" where
  "switch_loop_asgs =
    [SetOp CMD_RESIZE_ID (Some O_refresh),
     SetOp CMD_REFRESH_ID (Some O_refresh),
     SetOp CMD_BACK_ID (Some O_page_prev),
     SetPreop CMD_HOME_ID (Some P_switch2profiling),
     SetOp CMD_HOME_ID (Some O_home),
     SetPreop CMD_NODE_OVERVIEW_ID (Some P_switch2profiling),
     SetOp CMD_NODE_OVERVIEW_ID (Some O_page_next)]"

definition switch_type_asgs :: "win_type \<Rightarrow> switch_asg list" where
  "switch_type_asgs t =
    (case t of
      WIN_TYPE_RAW_NUM \<Rightarrow>
        [SetOp CMD_BACK_ID None,
         SetOp CMD_MONITOR_ID (Some O_page_next),
         SetOp CMD_IR_NORMALIZE_ID (Some O_page_next),
         SetOp CMD_1_ID (Some O_sort),
         SetOp CMD_2_ID (Some O_sort),
         SetOp CMD_3_ID (Some O_sort),
         SetOp CMD_4_ID (Some O_sort),
         SetOp CMD_5_ID (Some O_sort)]
    | WIN_TYPE_TOPNPROC \<Rightarrow>
        [SetOp CMD_MONITOR_ID (Some O_page_next),
         SetOp CMD_1_ID (Some O_sort),
         SetOp CMD_2_ID (Some O_sort),
         SetOp CMD_3_ID (Some O_sort),
         SetOp CMD_4_ID (Some O_sort),
         SetOp CMD_5_ID (Some O_sort)]
    | WIN_TYPE_MONIPROC \<Rightarrow>
        [SetPreop CMD_LAT_ID (Some P_switch2ll),
         SetOp CMD_LAT_ID (Some O_switch2ll),
         SetOp CMD_LWP_ID (Some O_page_next),
         SetPreop CMD_CALLCHAIN_ID (Some P_switch2callchain),
         SetOp CMD_CALLCHAIN_ID (Some O_page_next),
         SetPreop CMD_PQOS_CMT_ID (Some P_switch2pqoscmt),
         SetOp CMD_PQOS_CMT_ID (Some O_page_next)]
    | WIN_TYPE_TOPNLWP \<Rightarrow>
        [SetOp CMD_MONITOR_ID (Some O_page_next)]
    | WIN_TYPE_MONILWP \<Rightarrow>
        [SetPreop CMD_LAT_ID (Some P_switch2ll),
         SetOp CMD_LAT_ID (Some O_switch2ll),
         SetPreop CMD_CALLCHAIN_ID (Some P_switch2callchain),
         SetOp CMD_CALLCHAIN_ID (Some O_page_next),
         SetPreop CMD_PQOS_CMT_ID (Some P_switch2pqoscmt),
         SetOp CMD_PQOS_CMT_ID (Some O_page_next)]
    | WIN_TYPE_LAT_PROC \<Rightarrow>
        [SetPreop CMD_REFRESH_ID (Some P_llrefresh),
         SetPreop CMD_BACK_ID (Some P_switch2profiling),
         SetOp CMD_LLCALLCHAIN_ID (Some O_switch2llcallchain),
         SetPreop CMD_LATNODE_ID (Some P_switch2ln),
         SetOp CMD_LATNODE_ID (Some O_page_next),
         SetPreop CMD_ACCDST_ID (Some P_switch2accdst),
         SetOp CMD_ACCDST_ID (Some O_page_next),
         SetPreop CMD_MAP_GET_ID (Some P_llmap_get),
         SetOp CMD_MAP_GET_ID (Some O_refresh),
         SetOp CMD_MAP_STOP_ID (Some O_llmap_stop),
         SetPreop CMD_NODE_OVERVIEW_ID None,
         SetOp CMD_NODE_OVERVIEW_ID None]
    | WIN_TYPE_LAT_LWP \<Rightarrow>
        [SetPreop CMD_REFRESH_ID (Some P_llrefresh),
         SetPreop CMD_BACK_ID (Some P_switch2profiling),
         SetOp CMD_LLCALLCHAIN_ID (Some O_switch2llcallchain),
         SetPreop CMD_LATNODE_ID (Some P_switch2ln),
         SetOp CMD_LATNODE_ID (Some O_page_next),
         SetPreop CMD_ACCDST_ID (Some P_switch2accdst),
         SetOp CMD_ACCDST_ID (Some O_page_next),
         SetPreop CMD_MAP_GET_ID (Some P_llmap_get),
         SetOp CMD_MAP_GET_ID (Some O_refresh),
         SetOp CMD_MAP_STOP_ID (Some O_llmap_stop),
         SetPreop CMD_NODE_OVERVIEW_ID None,
         SetOp CMD_NODE_OVERVIEW_ID None]
    | WIN_TYPE_LATNODE_PROC \<Rightarrow>
        [SetPreop CMD_REFRESH_ID (Some P_lnrefresh),
         SetPreop CMD_BACK_ID (Some P_back2ll),
         SetPreop CMD_MAP_GET_ID (Some P_lnmap_get),
         SetOp CMD_MAP_GET_ID (Some O_refresh),
         SetOp CMD_MAP_STOP_ID (Some O_lnmap_stop),
         SetPreop CMD_NODE_OVERVIEW_ID None,
         SetOp CMD_NODE_OVERVIEW_ID None]
    | WIN_TYPE_LATNODE_LWP \<Rightarrow>
        [SetPreop CMD_REFRESH_ID (Some P_lnrefresh),
         SetPreop CMD_BACK_ID (Some P_back2ll),
         SetPreop CMD_MAP_GET_ID (Some P_lnmap_get),
         SetOp CMD_MAP_GET_ID (Some O_refresh),
         SetOp CMD_MAP_STOP_ID (Some O_lnmap_stop),
         SetPreop CMD_NODE_OVERVIEW_ID None,
         SetOp CMD_NODE_OVERVIEW_ID None]
    | WIN_TYPE_ACCDST_PROC \<Rightarrow>
        [SetPreop CMD_NODE_OVERVIEW_ID None,
         SetOp CMD_NODE_OVERVIEW_ID None]
    | WIN_TYPE_ACCDST_LWP \<Rightarrow>
        [SetPreop CMD_NODE_OVERVIEW_ID None,
         SetOp CMD_NODE_OVERVIEW_ID None]
    | WIN_TYPE_NODE_OVERVIEW \<Rightarrow>
        [SetPreop CMD_NODE_OVERVIEW_ID None,
         SetOp CMD_NODE_OVERVIEW_ID None,
         SetOp CMD_BACK_ID (Some O_page_prev),
         SetPreop CMD_NODE_DETAIL_ID (Some P_switch2uncore),
         SetOp CMD_NODE_DETAIL_ID (Some O_page_next)]
    | WIN_TYPE_NODE_DETAIL \<Rightarrow>
        [SetPreop CMD_BACK_ID (Some P_switch2profiling)]
    | WIN_TYPE_CALLCHAIN \<Rightarrow>
        [SetPreop CMD_BACK_ID (Some P_leavecallchain),
         SetPreop CMD_HOME_ID (Some P_leavecallchain),
         SetPreop CMD_NODE_OVERVIEW_ID None,
         SetOp CMD_NODE_OVERVIEW_ID None,
         SetOp CMD_1_ID (Some O_callchain_count),
         SetOp CMD_2_ID (Some O_callchain_count),
         SetOp CMD_3_ID (Some O_callchain_count),
         SetOp CMD_4_ID (Some O_callchain_count)]
    | WIN_TYPE_LLCALLCHAIN \<Rightarrow>
        [SetPreop CMD_NODE_OVERVIEW_ID None,
         SetOp CMD_NODE_OVERVIEW_ID None]
    | WIN_TYPE_PQOS_CMT_TOPNPROC \<Rightarrow>
        [SetPreop CMD_BACK_ID (Some P_switch2profiling)]
    | WIN_TYPE_PQOS_CMT_MONIPROC \<Rightarrow>
        [SetPreop CMD_BACK_ID (Some P_switch2profiling),
         SetPreop CMD_PQOS_MBM_ID (Some P_switch2pqosmbm),
         SetOp CMD_PQOS_MBM_ID (Some O_page_next)]
    | WIN_TYPE_PQOS_CMT_MONILWP \<Rightarrow>
        [SetPreop CMD_BACK_ID (Some P_switch2profiling),
         SetPreop CMD_PQOS_MBM_ID (Some P_switch2pqosmbm),
         SetOp CMD_PQOS_MBM_ID (Some O_page_next)]
    | WIN_TYPE_PQOS_MBM_MONIPROC \<Rightarrow>
        [SetPreop CMD_BACK_ID (Some P_switch2pqoscmt)]
    | WIN_TYPE_PQOS_MBM_MONILWP \<Rightarrow>
        [SetPreop CMD_BACK_ID (Some P_switch2pqoscmt)])"

definition s_switch :: "win_type \<Rightarrow> cmd_id \<Rightarrow> switch" where
  "s_switch t =
     fold switch_assign (switch_loop_asgs @ switch_type_asgs t) (\<lambda>_. \<lparr>sw_preop = None, sw_op = None\<rparr>)"

definition run_preop ::
  "cmd_env \<Rightarrow> preop \<Rightarrow> cmd \<Rightarrow> bool \<Rightarrow> cmd_state \<Rightarrow> (cmd \<times> bool \<times> cmd_state \<times> int) option" where
  "run_preop env f c smpl s =
     (case f of
        P_switch2profiling \<Rightarrow> os_preop_switch2profiling env c s
      | P_switch2ll \<Rightarrow> os_preop_switch2ll env c s
      | P_switch2callchain \<Rightarrow> os_preop_switch2callchain env c smpl s
      | P_switch2accdst \<Rightarrow> os_preop_switch2accdst env c smpl s
      | P_switch2pqoscmt \<Rightarrow> os_preop_switch2pqoscmt env c smpl s
      | P_switch2pqosmbm \<Rightarrow> os_preop_switch2pqosmbm env c smpl s
      | P_switch2uncore \<Rightarrow> os_preop_switch2uncore env c smpl s
      | P_leavecallchain \<Rightarrow> os_preop_leavecallchain env c s
      | _ \<Rightarrow> Some (c, smpl, s, 0))"

definition run_op :: "cmd_env \<Rightarrow> cmd_op \<Rightarrow> cmd \<Rightarrow> bool \<Rightarrow> cmd_state \<Rightarrow> (cmd_state \<times> int) option" where
  "run_op env f c smpl s =
     (case f of
        O_page_next \<Rightarrow> op_page_next env c smpl s
      | O_page_prev \<Rightarrow> op_page_prev env smpl s
      | O_refresh \<Rightarrow> op_refresh env s
      | O_sort \<Rightarrow> op_sort env c s
      | O_home \<Rightarrow> op_home env c smpl s
      | O_switch2ll \<Rightarrow> os_op_switch2ll env c smpl s
      | O_callchain_count \<Rightarrow> os_op_callchain_count env c s
      | O_switch2llcallchain \<Rightarrow> os_op_switch2llcallchain env c smpl s
      | _ \<Rightarrow> Some (s, 0))"

section \<open>Executing a command\<close>

definition callchain_id_get :: "page_list \<Rightarrow> cmd_id option" where
  "callchain_id_get l =
     (case pl_cur l of
        None \<Rightarrow> Some CMD_INVALID_ID
      | Some a \<Rightarrow>
          do {
            p \<leftarrow> page_get l a;
            Some (case w_type (p_win p) of
                    WIN_TYPE_MONIPROC \<Rightarrow> CMD_CALLCHAIN_ID
                  | WIN_TYPE_MONILWP \<Rightarrow> CMD_CALLCHAIN_ID
                  | WIN_TYPE_LAT_PROC \<Rightarrow> CMD_LLCALLCHAIN_ID
                  | WIN_TYPE_LAT_LWP \<Rightarrow> CMD_LLCALLCHAIN_ID
                  | _ \<Rightarrow> CMD_INVALID_ID)
          })"

definition cmd_id_get :: "bool \<Rightarrow> char \<Rightarrow> page_list \<Rightarrow> cmd_id option" where
  "cmd_id_get cmt ch l =
     (if ch = CHR ''h'' then Some CMD_HOME_ID
      else if ch = CHR ''r'' then Some CMD_REFRESH_ID
      else if ch = CHR ''q'' then Some CMD_QUIT_ID
      else if ch = CHR ''b'' then Some CMD_BACK_ID
      else if ch = CHR ''l'' then Some CMD_LAT_ID
      else if ch = CHR ''d'' then Some CMD_ACCDST_ID
      else if ch = CHR ''i'' then Some CMD_IR_NORMALIZE_ID
      else if ch = CHR ''n'' then Some CMD_NODE_OVERVIEW_ID
      else if ch = CHR ''c'' then callchain_id_get l
      else if ch = CHR ''m'' then Some CMD_MAP_GET_ID
      else if ch = CHR ''s'' then Some CMD_MAP_STOP_ID
      else if ch = CHR ''1'' then Some CMD_1_ID
      else if ch = CHR ''2'' then Some CMD_2_ID
      else if ch = CHR ''3'' then Some CMD_3_ID
      else if ch = CHR ''4'' then Some CMD_4_ID
      else if ch = CHR ''5'' then Some CMD_5_ID
      else if ch = CHR ''o'' then Some (if cmt then CMD_PQOS_CMT_ID else CMD_INVALID_ID)
      else if ch = CHR ''p'' then Some (if cmt then CMD_PQOS_MBM_ID else CMD_INVALID_ID)
      else Some CMD_INVALID_ID)"

text \<open>The type of the current window; before the first window it is taken to be the home window.\<close>

definition cur_win_type :: "cmd_state \<Rightarrow> win_type option" where
  "cur_win_type s =
     (case pl_cur (cs_pages s) of
        None \<Rightarrow> Some WIN_TYPE_RAW_NUM
      | Some a \<Rightarrow> map_option (\<lambda>p. w_type (p_win p)) (page_get (cs_pages s) a))"

text \<open>cmd_execute; the second result tells a bad command.\<close>

definition cmd_execute :: "cmd_env \<Rightarrow> cmd \<Rightarrow> cmd_state \<Rightarrow> (cmd_state \<times> bool) option" where
  "cmd_execute env c s =
     (if c_id c = CMD_INVALID_ID then Some (s, True)
      else do {
        ty \<leftarrow> cur_win_type s;
        let sw = s_switch ty (c_id c);
        (c1, smpl, s1, _) \<leftarrow> (case sw_preop sw of
                               None \<Rightarrow> Some (c, False, s, 0)
                             | Some f \<Rightarrow> run_preop env f c False s);
        (s2, _) \<leftarrow> (case sw_op sw of
                     None \<Rightarrow> Some (s1, 0)
                   | Some f \<Rightarrow> run_op env f c1 smpl s1);
        Some (s2, False)
      })"

section \<open>The switch table\<close>

lemmas s_switch_defs = s_switch_def switch_loop_asgs_def switch_type_asgs_def

text \<open>
  Which functions the table holds for which windows: what the safety of the
  functions depends on.
\<close>

definition switch_row_ok :: "win_type \<Rightarrow> cmd_id \<Rightarrow> switch \<Rightarrow> bool" where
  "switch_row_ok t i sw \<longleftrightarrow>
     (sw_op sw = Some O_switch2llcallchain \<longrightarrow> t = WIN_TYPE_LAT_PROC \<or> t = WIN_TYPE_LAT_LWP) \<and>
     (sw_op sw = Some O_callchain_count \<longrightarrow> t = WIN_TYPE_CALLCHAIN) \<and>
     (sw_op sw = Some O_switch2ll \<longrightarrow> t = WIN_TYPE_MONIPROC \<or> t = WIN_TYPE_MONILWP) \<and>
     (sw_preop sw = Some P_leavecallchain \<longrightarrow> t = WIN_TYPE_CALLCHAIN) \<and>
     (t = WIN_TYPE_RAW_NUM \<longrightarrow>
        (sw_preop sw = None \<or> sw_preop sw = Some P_switch2profiling) \<and>
        (sw_op sw = None \<or> sw_op sw = Some O_home \<or> sw_op sw = Some O_page_next \<or>
         sw_op sw = Some O_sort \<or>
         sw_op sw = Some O_refresh \<and> (i = CMD_REFRESH_ID \<or> i = CMD_RESIZE_ID)))"

lemma s_switch_row_ok: "switch_row_ok t i (s_switch t i)"
  by (cases t; simp add: s_switch_defs; cases i; simp add: switch_row_ok_def)

section \<open>Results of the operations\<close>

text \<open>
  A fresh address for every allocation, and waits that end: what zalloc and
  pthread_cond_timedwait guarantee.
\<close>

definition mem_fresh :: "cmd_env \<Rightarrow> bool" where
  "mem_fresh env \<longleftrightarrow> (\<forall>l a. ce_mem env l = Some a \<longrightarrow> pl_heap l a = None)"

text \<open>The identifiers of the commands in the page list: the user's path through the windows.\<close>

definition page_ids :: "page_list \<Rightarrow> addr list \<Rightarrow> cmd_id list" where
  "page_ids l xs = map c_id (page_cmds l xs)"

text \<open>
  An operation is good for an invariant of the windows when it returns, keeps
  the list invariant and turns the path into the expected one.
\<close>

definition op_good ::
  "(dyn_win \<Rightarrow> bool) \<Rightarrow> cmd_id list \<Rightarrow> (cmd_state \<times> 'r) option \<Rightarrow> bool" where
  "op_good Q ids r \<longleftrightarrow>
     (\<exists>s' x xs'. r = Some (s', x) \<and> nav_ok Q (cs_pages s') xs' \<and> page_ids (cs_pages s') xs' = ids)"

lemma op_goodI:
  "r = Some (s', x) \<Longrightarrow> nav_ok Q (cs_pages s') xs' \<Longrightarrow> page_ids (cs_pages s') xs' = ids \<Longrightarrow>
   op_good Q ids r"
  by (auto simp: op_good_def)

lemma op_goodE:
  assumes "op_good Q ids r"
  obtains s' x xs' where "r = Some (s', x)" "nav_ok Q (cs_pages s') xs'"
    "page_ids (cs_pages s') xs' = ids"
  using assms by (auto simp: op_good_def)

lemma with_perf_returns:
  "\<exists>c r. v = Some (c, r) \<Longrightarrow> \<exists>c r. with_perf s v = Some (s\<lparr>cs_perf := c\<rparr>, r)"
  by (auto simp: with_perf_def)

lemma os_page_smpl_start_returns:
  assumes "perf_timely env"
  shows "\<exists>c' b. os_page_smpl_start env p c = Some (c', b)"
proof -
  obtain c1 r1 where p: "perf_profiling_smpl False c = (c1, r1)" by force
  obtain c2 f where f: "pe_flag2 env c1 = (c2, f)" by force
  have ex: "\<exists>x y. smpl_ok z = Some (x, y)" for z by (auto simp: smpl_ok_def)
  obtain c3 r3 where a: "perf_pqos_active_proc_setup env (c_flags (p_cmd p)) True c2 = Some (c3, r3)"
    using perf_pqos_active_proc_setup_returns [OF assms] by blast
  have af: "\<exists>x y. smpl_after_profiling env c k = Some (x, y)"
    if "\<exists>x y. k c2 = Some (x, y)" for k
    using that by (auto simp: smpl_after_profiling_def p f)
  show ?thesis
    unfolding os_page_smpl_start_def Let_def
    by (auto intro!: af ex simp: a)
qed

text \<open>The current page under the list invariant.\<close>

lemma cur_page_Some:
  assumes "nav_ok Q (cs_pages s) xs" "xs \<noteq> []"
  obtains p where "cur_page s = Some p" "pl_heap (cs_pages s) (last xs) = Some p" "Q (p_win p)"
    "pl_cur (cs_pages s) = Some (last xs)"
proof -
  have "last xs \<in> set xs" "lastp None xs = Some (last xs)" using assms(2) by (simp_all add: lastp_def)
  then obtain p where p: "pl_heap (cs_pages s) (last xs) = Some p"
    using assms(1) by (auto simp: nav_ok_def list_ok_def)
  moreover have "Q (p_win p)" using assms(1) p by (auto simp: nav_ok_def list_ok_def heap_wins_ok_def)
  moreover have "pl_cur (cs_pages s) = Some (last xs)"
    using assms \<open>lastp None xs = _\<close> by (simp add: nav_ok_def)
  ultimately show ?thesis using that by (simp add: cur_page_def page_get_def)
qed

lemma cur_dyn_live:
  assumes "nav_ok win_live (cs_pages s) xs" "cur_page s = Some p" "w_type (p_win p) \<noteq> WIN_TYPE_RAW_NUM"
  obtains d where "cur_dyn s = Some d" "w_dyn (p_win p) = DynLive d"
proof -
  obtain a where "pl_heap (cs_pages s) a = Some p"
    using assms(2) by (auto simp: cur_page_def page_get_def Option.bind_eq_Some_conv)
  then have "win_live (p_win p)"
    using assms(1) by (auto simp: nav_ok_def list_ok_def heap_wins_ok_def)
  then show ?thesis
    using that assms(2,3) by (auto simp: cur_dyn_def win_live_def win_ok_def split: dynp.splits)
qed

text \<open>
  The operations, for every invariant of the windows that the list keeps.  In
  this locale the facts of page_inv are at hand.
\<close>

locale cmd_inv = page_inv +
  fixes env :: cmd_env
  assumes fresh: "mem_fresh env" and timely: "perf_timely (ce_perf env)"
begin

lemma run_next_good:
  assumes ok: "list_ok Q (cs_pages s) xs"
    and nx: "pl_next_run (cs_pages s) = None \<and> pl_cur (cs_pages s) = lastp None xs \<or>
       xs \<noteq> [] \<and> pl_next_run (cs_pages s) = lastp None xs"
  shows "op_good Q (page_ids (cs_pages s) xs) (run_next env smpl s)"
proof -
  obtain l' r st where l': "page_next_execute (ce_scr env) smpl (cs_pages s) = Some (l', r, st)"
    "nav_ok Q l' xs" "page_cmds l' xs = page_cmds (cs_pages s) xs"
    using page_next_execute_ok [OF ok nx] by metis
  let ?s1 = "s\<lparr>cs_pages := l'\<rparr>"
  have good: "nav_ok Q (cs_pages ?s1) xs" "page_ids (cs_pages ?s1) xs = page_ids (cs_pages s) xs"
    using l' by (simp_all add: page_ids_def)
  show ?thesis
  proof (cases st)
    case True
    then have "pl_next_run (cs_pages s) \<noteq> None"
      using l'(1) by (cases "pl_next_run (cs_pages s)") (simp_all add: page_next_execute_def)
    then have "xs \<noteq> []" using nx by auto
    then obtain p where p: "cur_page ?s1 = Some p" using cur_page_Some [OF good(1)] by metis
    obtain c b where "os_page_smpl_start (ce_perf env) p (cs_perf ?s1) = Some (c, b)"
      using os_page_smpl_start_returns [OF timely] by blast
    then have "run_next env smpl s = Some (?s1\<lparr>cs_perf := c\<rparr>, r)"
      using True l'(1) p by (simp add: run_next_def with_perf_def)
    then show ?thesis using good by (intro op_goodI [of _ "?s1\<lparr>cs_perf := c\<rparr>" r _ xs]) simp_all
  next
    case False
    then have "run_next env smpl s = Some (?s1, r)" using l'(1) by (simp add: run_next_def)
    then show ?thesis using good by (intro op_goodI [of _ ?s1 r _ xs]) simp_all
  qed
qed

lemma op_page_next_good:
  assumes nav: "nav_ok Q (cs_pages s) xs"
  shows "op_good Q (if ce_mem env (cs_pages s) = None then page_ids (cs_pages s) xs
                    else page_ids (cs_pages s) xs @ [c_id c]) (op_page_next env c smpl s)"
proof (cases "ce_mem env (cs_pages s)")
  case None
  then show ?thesis
    using nav by (intro op_goodI [of _ s "-1" _ xs]) (simp_all add: op_page_next_def page_create_def)
next
  case (Some a)
  then have fr: "pl_heap (cs_pages s) a = None" using fresh by (simp add: mem_fresh_def)
  obtain l' where l': "page_create (Some a) c (cs_pages s) = Some (l', Some a)"
    "list_ok Q l' (xs @ [a])" "pl_next_run l' = Some a"
    "page_cmds l' (xs @ [a]) = page_cmds (cs_pages s) xs @ [c]"
    using page_create_ok [OF nav fr] by metis
  let ?s1 = "s\<lparr>cs_pages := l'\<rparr>"
  have "op_good Q (page_ids (cs_pages ?s1) (xs @ [a])) (run_next env smpl ?s1)"
    using l'(2,3) by (intro run_next_good) simp_all
  then obtain s2 b xs2 where "run_next env smpl ?s1 = Some (s2, b)" "nav_ok Q (cs_pages s2) xs2"
    "page_ids (cs_pages s2) xs2 = page_ids (cs_pages s) xs @ [c_id c]"
    using l'(4) by (auto simp: page_ids_def elim!: op_goodE)
  then show ?thesis
    using Some l'(1) by (intro op_goodI [of _ s2 _ _ xs2]) (simp_all add: op_page_next_def)
qed

lemma op_page_prev_good:
  assumes nav: "nav_ok Q (cs_pages s) xs"
  shows "op_good Q (if 2 \<le> length xs then butlast (page_ids (cs_pages s) xs)
                    else page_ids (cs_pages s) xs) (op_page_prev env smpl s)"
proof (cases xs rule: rev_cases)
  case Nil
  then have "pl_cur (cs_pages s) = None" using nav by (simp add: nav_ok_def)
  then show ?thesis
    using nav Nil
    by (intro op_goodI [of _ s 0 _ xs]) (simp_all add: op_page_prev_def page_curprev_get_def)
next
  case (snoc ys a)
  have prev: "page_curprev_get (cs_pages s) = Some (lastp None ys)"
    using page_curprev_get_last nav snoc by simp
  show ?thesis
  proof (cases ys rule: rev_cases)
    case Nil
    then show ?thesis
      using nav snoc prev by (intro op_goodI [of _ s 0 _ xs]) (simp_all add: op_page_prev_def)
  next
    case (snoc zs b)
    have ok: "list_ok Q (cs_pages s) (zs @ b # [a])"
      using nav snoc \<open>xs = ys @ [a]\<close> by (simp add: nav_ok_def)
    obtain l1 where l1: "page_drop_next (Some b) (cs_pages s) = Some l1" "list_ok Q l1 (zs @ [b])"
      "page_cmds l1 (zs @ [b]) = page_cmds (cs_pages s) (zs @ [b])"
      using page_drop_next_ok [OF ok] by metis
    let ?s1 = "s\<lparr>cs_pages := page_next_set (Some b) (page_current_set (Some b) l1)\<rparr>"
    have "op_good Q (page_ids (cs_pages ?s1) (zs @ [b])) (run_next env smpl ?s1)"
      using l1(2) by (intro run_next_good) (simp_all add: page_next_set_def page_current_set_def)
    moreover have "page_ids (cs_pages ?s1) (zs @ [b]) = butlast (page_ids (cs_pages s) xs)"
      using l1(3) snoc \<open>xs = ys @ [a]\<close>
      by (simp add: page_ids_def page_cmds_def page_next_set_def page_current_set_def butlast_append)
    ultimately obtain s2 r xs2 where "run_next env smpl ?s1 = Some (s2, r)" "nav_ok Q (cs_pages s2) xs2"
      "page_ids (cs_pages s2) xs2 = butlast (page_ids (cs_pages s) xs)"
      by (auto elim!: op_goodE)
    then show ?thesis
      using prev snoc \<open>xs = ys @ [a]\<close> l1(1)
      by (intro op_goodI [of _ s2 _ _ xs2]) (simp_all add: op_page_prev_def)
  qed
qed

lemma op_refresh_good:
  assumes nav: "nav_ok Q (cs_pages s) xs" and ne: "xs \<noteq> []"
  shows "op_good Q (page_ids (cs_pages s) xs) (op_refresh env s)"
proof -
  let ?s1 = "s\<lparr>cs_pages := page_next_set (pl_cur (cs_pages s)) (cs_pages s)\<rparr>"
  have nav1: "nav_ok Q (cs_pages ?s1) xs" and ids: "page_ids (cs_pages ?s1) xs = page_ids (cs_pages s) xs"
    using nav by (simp_all add: nav_ok_def page_next_set_def page_ids_def)
  obtain p where p: "cur_page ?s1 = Some p" using cur_page_Some [OF nav1 ne] by metis
  obtain c b where c: "os_page_smpl_start (ce_perf env) p (cs_perf ?s1) = Some (c, b)"
    using os_page_smpl_start_returns [OF timely] by blast
  let ?s2 = "?s1\<lparr>cs_perf := c\<rparr>"
  have w: "with_perf ?s1 (os_page_smpl_start (ce_perf env) p (cs_perf ?s1)) = Some (?s2, b)"
    using c by (simp add: with_perf_def)
  show ?thesis
  proof (cases b)
    case True
    then have "op_refresh env s = Some (?s2, 0)" using p w by (simp add: op_refresh_def)
    then show ?thesis using nav1 ids by (intro op_goodI [of _ ?s2 0 _ xs]) simp_all
  next
    case False
    have "op_good Q (page_ids (cs_pages ?s2) xs) (run_next env False ?s2)"
      using nav ne by (intro run_next_good) (auto simp: nav_ok_def page_next_set_def)
    then obtain s3 r xs3 where "run_next env False ?s2 = Some (s3, r)" "nav_ok Q (cs_pages s3) xs3"
      "page_ids (cs_pages s3) xs3 = page_ids (cs_pages s) xs"
      using ids by (auto elim!: op_goodE)
    then show ?thesis
      using False p w by (intro op_goodI [of _ s3 _ _ xs3]) (simp_all add: op_refresh_def)
  qed
qed

lemma op_home_good:
  assumes nav: "nav_ok Q (cs_pages s) xs"
  shows "op_good Q (if ce_mem env (page_list_init ((cs_pages s)\<lparr>pl_heap := \<lambda>_. None\<rparr>)) = None then []
                    else [c_id c]) (op_home env c smpl s)"
proof -
  let ?l = "page_list_init ((cs_pages s)\<lparr>pl_heap := \<lambda>_. None\<rparr>)"
  have f: "page_list_fini (cs_pages s) = Some ?l"
    using page_list_fini_ok [of "cs_pages s" xs] nav by (simp add: nav_ok_def)
  have "nav_ok Q (cs_pages (s\<lparr>cs_pages := ?l\<rparr>)) []"
    using list_ok_empty by (simp add: nav_ok_def) (simp add: page_list_init_def)
  from op_page_next_good [OF this, of c smpl] f show ?thesis
    by (simp add: op_home_def page_ids_def page_cmds_def cong: if_cong)
qed

lemma op_sort_good:
  assumes nav: "nav_ok Q (cs_pages s) xs"
  shows "op_good Q (page_ids (cs_pages s) xs) (op_sort env c s)"
proof (cases "xs = []")
  case True
  then show ?thesis
    using nav by (intro op_goodI [of _ s 0 _ xs]) (simp_all add: op_sort_def nav_ok_def)
next
  case False
  obtain p where p: "cur_page s = Some p" "pl_cur (cs_pages s) = Some (last xs)"
    using cur_page_Some [OF nav False] by metis
  let ?s = "s\<lparr>cs_sortkey := sortkey_set (c_id c) p (cs_sortkey s)\<rparr>"
  have "op_good Q (page_ids (cs_pages ?s) xs) (op_refresh env ?s)"
    using nav False by (intro op_refresh_good) simp_all
  then obtain s3 r xs3 where "op_refresh env ?s = Some (s3, r)" "nav_ok Q (cs_pages s3) xs3"
    "page_ids (cs_pages s3) xs3 = page_ids (cs_pages s) xs"
    by (auto elim!: op_goodE)
  then show ?thesis
    using p by (intro op_goodI [of _ s3 0 _ xs3]) (simp_all add: op_sort_def)
qed

end

section \<open>Commands on live windows\<close>

text \<open>The highlighted line of a latency window is one of its lines.\<close>

definition cur_line_ok :: "cmd_state \<Rightarrow> bool" where
  "cur_line_ok s \<longleftrightarrow>
     (case cur_dyn s of
        None \<Rightarrow> True
      | Some d \<Rightarrow> (case d_lines d of
                    None \<Rightarrow> True
                  | Some ls \<Rightarrow> d_highlight d = -1 \<or> 0 \<le> d_highlight d \<and> d_highlight d < int (length ls)))"

text \<open>A preparation returns, keeps the pages and the identifier of the command.\<close>

definition preop_good :: "cmd_state \<Rightarrow> cmd \<Rightarrow> (cmd \<times> bool \<times> cmd_state \<times> int) option \<Rightarrow> bool" where
  "preop_good s c r \<longleftrightarrow>
     (\<exists>c' b s' x. r = Some (c', b, s', x) \<and> cs_pages s' = cs_pages s \<and> c_id c' = c_id c)"

lemma preop_goodI:
  "r = Some (c', b, s', x) \<Longrightarrow> cs_pages s' = cs_pages s \<Longrightarrow> c_id c' = c_id c \<Longrightarrow> preop_good s c r"
  by (auto simp: preop_good_def)

lemma with_perf_some:
  "\<exists>c' r. v = Some (c', r) \<Longrightarrow> \<exists>s' r. with_perf s v = Some (s', r)"
  by (auto simp: with_perf_def)

lemma with_perf_pages:
  "with_perf s v = Some (s', r) \<Longrightarrow> cs_pages s' = cs_pages s"
  by (auto simp: with_perf_def)

lemma preop_sample_pages: "preop_sample env s = (s', b) \<Longrightarrow> cs_pages s' = cs_pages s"
  by (auto simp: preop_sample_def Let_def split: prod.splits if_splits)

lemma cur_page_cong: "cs_pages s' = cs_pages s \<Longrightarrow> cur_page s' = cur_page s \<and> cur_dyn s' = cur_dyn s"
  by (simp add: cur_page_def cur_dyn_def)

text \<open>Each call of the perf layer the preparations make returns.\<close>

lemma perf_call_some:
  assumes "perf_timely e"
  shows "\<exists>s' r. with_perf s (perf_allstop e (cs_perf s)) = Some (s', r)"
    and "\<exists>s' r. with_perf s (perf_profiling_start e (cs_perf s)) = Some (s', r)"
    and "\<exists>s' r. with_perf s (perf_ll_start e p (cs_perf s)) = Some (s', r)"
    and "\<exists>s' r. with_perf s (perf_pqos_cmt_stop e p lw (cs_perf s)) = Some (s', r)"
    and "\<exists>s' r. with_perf s (perf_uncore_stop e n (cs_perf s)) = Some (s', r)"
    and "\<exists>s' r. with_perf s (perf_uncore_setup e n (cs_perf s)) = Some (s', r)"
    and "\<exists>s' r. with_perf s (perf_profiling_partpause e u (cs_perf s)) = Some (s', r)"
    and "\<exists>s' r. with_perf s (perf_profiling_restore e u (cs_perf s)) = Some (s', r)"
    and "\<exists>s' r. with_perf s (perf_pqos_proc_setup e p lw fl (cs_perf s)) = Some (s', r)"
    and "\<exists>s' r. with_perf s (perf_pqos_active_proc_setup e fl rf (cs_perf s)) = Some (s', r)"
  unfolding perf_request_defs
  by (rule with_perf_some, rule perf_request_some [OF assms] perf_calls_return [OF assms]
        perf_pqos_active_proc_setup_returns [OF assms])+

text \<open>Stepping through a preparation: a perf call returns and keeps the pages.\<close>

lemma bind_with_perf:
  assumes "\<exists>s' r. with_perf s v = Some (s', r)"
    and "\<And>s' r. cs_pages s' = cs_pages s \<Longrightarrow> preop_good s0 c (k s' r)"
  shows "preop_good s0 c (with_perf s v \<bind> (\<lambda>(s', r). k s' r))"
proof -
  obtain s' r where "with_perf s v = Some (s', r)" using assms(1) by blast
  then show ?thesis using assms(2) [of s' r] with_perf_pages by fastforce
qed

lemma preop_good_Some:
  "cs_pages s' = cs_pages s \<Longrightarrow> c_id c' = c_id c \<Longrightarrow> preop_good s c (Some (c', b, s', x))"
  by (simp add: preop_good_def)

lemma preop_good_if:
  "(P \<Longrightarrow> preop_good s c x) \<Longrightarrow> (\<not> P \<Longrightarrow> preop_good s c y) \<Longrightarrow> preop_good s c (if P then x else y)"
  by simp

lemma bind_sample:
  assumes "\<And>s' b. cs_pages s' = cs_pages s \<Longrightarrow> preop_good s0 c (k s' b)"
  shows "preop_good s0 c (let (s', b) = preop_sample env s in k s' b)"
  using assms preop_sample_pages by (fastforce split: prod.split)

lemma preop_good_let: "preop_good s c (k v) \<Longrightarrow> preop_good s c (let x = v in k x)"
  by simp

lemmas preop_good_intros = bind_with_perf bind_sample preop_good_let preop_good_if preop_good_Some

lemma preop_switch2ll_good:
  assumes "perf_timely (ce_perf env)"
  shows "preop_good s c (os_preop_switch2ll env c s)"
  unfolding os_preop_switch2ll_def
  by (intro preop_good_intros perf_call_some [OF assms]) (auto intro!: preop_good_Some split: if_splits)

lemma bind_opt_perf:
  assumes "\<exists>s' r. with_perf s v = Some (s', r)"
    and "\<And>s' b. cs_pages s' = cs_pages s \<Longrightarrow> preop_good s0 c (k s' b)"
  shows "preop_good s0 c ((if P then map_option (\<lambda>(s', _). (s', True)) (with_perf s v) else Some (s, b0))
           \<bind> (\<lambda>(s', b). k s' b))"
proof -
  obtain s' r where "with_perf s v = Some (s', r)" using assms(1) by blast
  then show ?thesis using assms(2) [of s' True] assms(2) [of s b0] with_perf_pages by fastforce
qed

lemma preop_switch2profiling_good:
  assumes "perf_timely (ce_perf env)"
  shows "preop_good s c (os_preop_switch2profiling env c s)"
  unfolding os_preop_switch2profiling_def
  by (intro bind_opt_perf preop_good_intros perf_call_some [OF assms])
    (auto intro!: preop_good_Some split: if_splits)

text \<open>Preparations that look at the current window.\<close>

lemma bind_known:
  "v = Some x \<Longrightarrow> preop_good s c (k x) \<Longrightarrow> preop_good s c (v \<bind> k)"
  by simp

lemma dyn_at_type:
  assumes "nav_ok win_live (cs_pages s) xs" "cur_page s = Some p" "w_type (p_win p) \<noteq> WIN_TYPE_RAW_NUM"
  obtains d where "\<And>s'. cs_pages s' = cs_pages s \<Longrightarrow> cur_dyn s' = Some d"
  using cur_dyn_live [OF assms] cur_page_cong by metis

lemma preop_switch2uncore_good:
  assumes "perf_timely (ce_perf env)" "cur_page s = Some p"
  shows "preop_good s c (os_preop_switch2uncore env c b s)"
  unfolding os_preop_switch2uncore_def assms(2) bind.bind_lunit
  by (intro preop_good_intros perf_call_some [OF assms(1)]) (auto intro!: preop_good_Some)

lemma preop_switch2callchain_good:
  assumes tm: "perf_timely (ce_perf env)" and nav: "nav_ok win_live (cs_pages s) xs"
    and p: "cur_page s = Some p"
  shows "preop_good s c (os_preop_switch2callchain env c b s)"
proof (cases "w_type (p_win p) = WIN_TYPE_RAW_NUM")
  case False
  then obtain d where d: "\<And>s'. cs_pages s' = cs_pages s \<Longrightarrow> cur_dyn s' = Some d"
    using dyn_at_type [OF nav p] by blast
  show ?thesis
    unfolding os_preop_switch2callchain_def p Let_def bind.bind_lunit d [OF refl]
    by (intro preop_good_intros perf_call_some [OF tm]) auto
qed (simp add: os_preop_switch2callchain_def p preop_good_Some)

lemma preop_switch2accdst_good:
  assumes nav: "nav_ok win_live (cs_pages s) xs" and p: "cur_page s = Some p"
  shows "preop_good s c (os_preop_switch2accdst env c b s)"
proof (cases "w_type (p_win p) = WIN_TYPE_RAW_NUM")
  case False
  then obtain d where d: "\<And>s'. cs_pages s' = cs_pages s \<Longrightarrow> cur_dyn s' = Some d"
    using dyn_at_type [OF nav p] by blast
  show ?thesis
    unfolding os_preop_switch2accdst_def p Let_def bind.bind_lunit d [OF refl]
    by (intro preop_good_intros) auto
qed (simp add: os_preop_switch2accdst_def p preop_good_Some)

lemma preop_switch2pqosmbm_good:
  assumes tm: "perf_timely (ce_perf env)" and nav: "nav_ok win_live (cs_pages s) xs"
    and p: "cur_page s = Some p"
  shows "preop_good s c (os_preop_switch2pqosmbm env c b s)"
proof (cases "w_type (p_win p) = WIN_TYPE_RAW_NUM")
  case False
  then obtain d where d: "\<And>s'. cs_pages s' = cs_pages s \<Longrightarrow> cur_dyn s' = Some d"
    using dyn_at_type [OF nav p] by blast
  show ?thesis
    unfolding os_preop_switch2pqosmbm_def p bind.bind_lunit
    by (intro preop_good_intros bind_known [OF d] perf_call_some [OF tm]) simp_all
qed (simp add: os_preop_switch2pqosmbm_def p preop_good_Some)

lemma pqoscmt_fill_Some:
  assumes nav: "nav_ok win_live (cs_pages s) xs" and p: "cur_page s = Some p"
  shows "\<exists>r. pqoscmt_fill (w_type (p_win p)) c s = Some r \<and> (\<forall>c1. r = Some c1 \<longrightarrow> c_id c1 = c_id c)"
proof (cases "w_type (p_win p) = WIN_TYPE_RAW_NUM")
  case False
  then obtain d where "cur_dyn s = Some d" using dyn_at_type [OF nav p] by blast
  then show ?thesis by (auto simp: pqoscmt_fill_def)
qed (simp add: pqoscmt_fill_def)

lemma preop_switch2pqoscmt_good:
  assumes tm: "perf_timely (ce_perf env)" and nav: "nav_ok win_live (cs_pages s) xs"
    and p: "cur_page s = Some p"
  shows "preop_good s c (os_preop_switch2pqoscmt env c b s)"
proof -
  obtain r where r: "pqoscmt_fill (w_type (p_win p)) c s = Some r"
    "\<And>c1. r = Some c1 \<Longrightarrow> c_id c1 = c_id c"
    using pqoscmt_fill_Some [OF nav p] by blast
  show ?thesis
  proof (cases r)
    case None
    then show ?thesis by (simp add: os_preop_switch2pqoscmt_def p r(1) preop_good_Some)
  next
    case (Some c1)
    have stp: "\<exists>s' r. with_perf s2 (if c_pid c1 = 0
           then perf_pqos_active_proc_setup (ce_perf env) (c_flags c1) False (cs_perf s2)
           else perf_pqos_proc_setup (ce_perf env) (c_pid c1) (c_lwpid c1) (c_flags c1) (cs_perf s2)) =
         Some (s', r)" for s2
      using perf_call_some(9,10) [OF tm] by simp
    show ?thesis
      unfolding os_preop_switch2pqoscmt_def p bind.bind_lunit r(1) Some option.case
      by (intro preop_good_intros perf_call_some [OF tm] stp) (use r(2) [OF Some] in auto)
  qed
qed

lemma preop_leavecallchain_good:
  assumes tm: "perf_timely (ce_perf env)" and d: "cur_dyn s = Some d"
  shows "preop_good s c (os_preop_leavecallchain env c s)"
  unfolding os_preop_leavecallchain_def d bind.bind_lunit
  by (intro preop_good_intros perf_call_some [OF tm]) auto

text \<open>Every preparation the table holds for the type of the current window.\<close>

lemma run_preop_good:
  assumes tm: "perf_timely (ce_perf env)" and nav: "nav_ok win_live (cs_pages s) xs"
    and ty: "cur_win_type s = Some t" and f: "sw_preop (s_switch t i) = Some f"
  shows "preop_good s c (run_preop env f c b s)"
proof (cases "xs = []")
  case True
  then have "t = WIN_TYPE_RAW_NUM" using nav ty by (simp add: nav_ok_def cur_win_type_def)
  then have "f = P_switch2profiling" using s_switch_row_ok [of t i] f by (simp add: switch_row_ok_def)
  then show ?thesis using preop_switch2profiling_good [OF tm] by (simp add: run_preop_def)
next
  case False
  obtain p where p0: "cur_page s = Some p" "pl_heap (cs_pages s) (last xs) = Some p"
    "pl_cur (cs_pages s) = Some (last xs)"
    using cur_page_Some [OF nav False] by metis
  then have p: "cur_page s = Some p" "w_type (p_win p) = t"
    using ty by (simp_all add: cur_win_type_def page_get_def)
  show ?thesis
  proof (cases "f = P_leavecallchain")
    case True
    then have "t = WIN_TYPE_CALLCHAIN" using s_switch_row_ok [of t i] f by (simp add: switch_row_ok_def)
    then obtain d where "cur_dyn s = Some d" using cur_dyn_live [OF nav p(1)] p(2) by auto
    then show ?thesis using True preop_leavecallchain_good [OF tm] by (simp add: run_preop_def)
  next
    case False
    note G = preop_switch2profiling_good [OF tm] preop_switch2ll_good [OF tm]
      preop_switch2callchain_good [OF tm nav p(1)] preop_switch2accdst_good [OF nav p(1)]
      preop_switch2pqoscmt_good [OF tm nav p(1)] preop_switch2pqosmbm_good [OF tm nav p(1)]
      preop_switch2uncore_good [OF tm p(1)]
    show ?thesis
      using False by (cases f) (simp_all add: run_preop_def G preop_good_Some)
  qed
qed

text \<open>Operations that read or write the private data of the current window.\<close>

lemma cmd_inv_live: "mem_fresh env \<Longrightarrow> perf_timely (ce_perf env) \<Longrightarrow> cmd_inv win_live env"
  by unfold_locales

lemma cur_dyn_SomeE:
  assumes "cur_dyn s = Some d"
  obtains a p where "pl_cur (cs_pages s) = Some a" "pl_heap (cs_pages s) a = Some p"
    "w_dyn (p_win p) = DynLive d"
proof (cases "pl_cur (cs_pages s)")
  case None
  then show ?thesis using assms by (simp add: cur_dyn_def cur_page_def)
next
  case (Some a)
  then obtain p where "pl_heap (cs_pages s) a = Some p"
    using assms by (cases "pl_heap (cs_pages s) a") (simp_all add: cur_dyn_def cur_page_def page_get_def)
  then show ?thesis
    using that assms Some by (cases "w_dyn (p_win p)") (simp_all add: cur_dyn_def cur_page_def page_get_def)
qed

lemma length_page_ids [simp]: "length (page_ids l xs) = length xs"
  by (simp add: page_ids_def page_cmds_def)

lemma callchain_countid_set_good:
  assumes nav: "nav_ok win_live (cs_pages s) xs" and d: "cur_dyn s = Some d"
  shows "\<exists>s1 u. callchain_countid_set i s = Some (s1, u) \<and> nav_ok win_live (cs_pages s1) xs \<and>
           page_ids (cs_pages s1) xs = page_ids (cs_pages s) xs"
proof -
  from d obtain a p where a: "pl_cur (cs_pages s) = Some a" "pl_heap (cs_pages s) a = Some p"
    "w_dyn (p_win p) = DynLive d"
    by (rule cur_dyn_SomeE)
  define u where "u = (case cmd_digit i of None \<Rightarrow> UI_COUNT_INVALID
      | Some n \<Rightarrow> if n < 4 then s_callchain_ui_countid ! n else UI_COUNT_INVALID)"
  let ?w = "(p_win p)\<lparr>w_dyn := DynLive (d\<lparr>d_countid := u\<rparr>)\<rparr>"
  let ?l = "page_put a (p\<lparr>p_win := ?w\<rparr>) (cs_pages s)"
  have "win_live (p_win p)"
    using nav a(2) by (auto simp: nav_ok_def list_ok_def heap_wins_ok_def)
  then have w: "win_live ?w" using a(3) by (auto simp: win_live_def win_ok_def)
  have ok: "list_ok win_live (cs_pages s) xs" using nav by (simp add: nav_ok_def)
  have "nav_ok win_live ?l xs" "page_ids ?l xs = page_ids (cs_pages s) xs"
    using pv.list_ok_window [OF ok a(2) w] nav by (simp_all add: nav_ok_def page_ids_def)
  moreover have "callchain_countid_set i s = Some (s\<lparr>cs_pages := ?l\<rparr>, u)"
    using a d by (simp add: callchain_countid_set_def page_get_def u_def Let_def)
  ultimately show ?thesis by (intro exI [of _ "s\<lparr>cs_pages := ?l\<rparr>"] exI [of _ u]) simp
qed

lemma op_callchain_count_good:
  assumes inv: "cmd_inv win_live env" and nav: "nav_ok win_live (cs_pages s) xs"
    and d: "cur_dyn s = Some d" and ne: "xs \<noteq> []"
  shows "op_good win_live (page_ids (cs_pages s) xs) (os_op_callchain_count env c s)"
proof -
  have tm: "perf_timely (ce_perf env)" using inv by (simp add: cmd_inv_def cmd_inv_axioms_def)
  obtain a where cur: "pl_cur (cs_pages s) = Some a" using cur_dyn_SomeE [OF d] by blast
  obtain s1 u where s1: "callchain_countid_set (c_id c) s = Some (s1, u)"
    "nav_ok win_live (cs_pages s1) xs" "page_ids (cs_pages s1) xs = page_ids (cs_pages s) xs"
    using callchain_countid_set_good [OF nav d] by blast
  show ?thesis
  proof (cases "u = UI_COUNT_INVALID")
    case True
    then show ?thesis
      using s1 cur by (intro op_goodI [of _ s1 0 _ xs]) (simp_all add: os_op_callchain_count_def)
  next
    case False
    obtain s2 r where s2: "with_perf s1 (perf_profiling_partpause (ce_perf env) u (cs_perf s1)) = Some (s2, r)"
      using perf_call_some(7) [OF tm] by blast
    then have "cs_pages s2 = cs_pages s1" by (rule with_perf_pages)
    then have "op_good win_live (page_ids (cs_pages s) xs) (op_refresh env s2)"
      using cmd_inv.op_refresh_good [OF inv, of s2 xs] s1(2,3) ne by simp
    then obtain s3 r3 xs3 where "op_refresh env s2 = Some (s3, r3)" "nav_ok win_live (cs_pages s3) xs3"
      "page_ids (cs_pages s3) xs3 = page_ids (cs_pages s) xs"
      by (auto elim!: op_goodE)
    then show ?thesis
      using False s1(1) s2 cur
      by (intro op_goodI [of _ s3 0 _ xs3]) (simp_all add: os_op_callchain_count_def)
  qed
qed

text \<open>The path after an operation; m tells whether a new page was made where one is asked for.\<close>

definition nav_next :: "cmd_op option \<Rightarrow> bool \<Rightarrow> cmd_id \<Rightarrow> cmd_id list \<Rightarrow> cmd_id list" where
  "nav_next f m i ids =
     (case f of
        Some O_page_next \<Rightarrow> if m then ids @ [i] else ids
      | Some O_switch2ll \<Rightarrow> if m then ids @ [i] else ids
      | Some O_switch2llcallchain \<Rightarrow> if m then ids @ [i] else ids
      | Some O_home \<Rightarrow> if m then [i] else []
      | Some O_page_prev \<Rightarrow> if 2 \<le> length ids then butlast ids else ids
      | _ \<Rightarrow> ids)"

definition nav_good :: "cmd_env \<Rightarrow> cmd_op option \<Rightarrow> cmd_id \<Rightarrow> cmd_id list \<Rightarrow> (cmd_state \<times> 'r) option \<Rightarrow> bool" where
  "nav_good env f i ids r \<longleftrightarrow>
     op_good win_live (nav_next f True i ids) r \<or>
     op_good win_live (nav_next f False i ids) r \<and>
       ((\<exists>l. ce_mem env l = None) \<or> f = Some O_switch2llcallchain)"

lemma nav_good_same: "op_good win_live ids r \<Longrightarrow> nav_next f True i ids = ids \<Longrightarrow> nav_good env f i ids r"
  by (simp add: nav_good_def)

lemma nav_good_push:
  assumes "op_good win_live (if ce_mem env l = None then ids else ids @ [i]) r"
    and "nav_next f True i ids = ids @ [i]" "nav_next f False i ids = ids"
  shows "nav_good env f i ids r"
  using assms by (auto simp: nav_good_def split: if_splits)

lemma run_op_good:
  assumes inv: "cmd_inv win_live env" and nav: "nav_ok win_live (cs_pages s) xs"
    and ty: "cur_win_type s = Some t" and f: "sw_op (s_switch t (c_id c)) = Some f"
    and ln: "cur_line_ok s" and ne: "xs = [] \<Longrightarrow> c_id c \<noteq> CMD_REFRESH_ID \<and> c_id c \<noteq> CMD_RESIZE_ID"
  shows "nav_good env (Some f) (c_id c) (page_ids (cs_pages s) xs) (run_op env f c b s)"
proof -
  note row = s_switch_row_ok [of t "c_id c"]
  have push: "nav_good env (Some f) (c_id c) (page_ids (cs_pages s) xs) (op_page_next env c' b s)"
    if "c_id c' = c_id c" "f = O_page_next \<or> f = O_switch2ll \<or> f = O_switch2llcallchain" for c'
    using cmd_inv.op_page_next_good [OF inv nav, of c' b] that
    by (intro nav_good_push [where l = "cs_pages s"]) (auto simp: nav_next_def)
  have curdyn: "\<exists>p d. cur_page s = Some p \<and> cur_dyn s = Some d \<and> w_type (p_win p) = t \<and> xs \<noteq> []"
    if "t \<noteq> WIN_TYPE_RAW_NUM"
  proof -
    have "xs \<noteq> []" using that nav ty by (auto simp: nav_ok_def cur_win_type_def)
    then obtain p where p: "cur_page s = Some p" "pl_heap (cs_pages s) (last xs) = Some p"
      "pl_cur (cs_pages s) = Some (last xs)"
      using cur_page_Some [OF nav] by metis
    then have "w_type (p_win p) = t" using ty by (simp add: cur_win_type_def page_get_def)
    then show ?thesis using cur_dyn_live [OF nav p(1)] that p(1) \<open>xs \<noteq> []\<close> by metis
  qed
  show ?thesis
  proof (cases f)
    case O_page_next
    then show ?thesis using push by (simp add: run_op_def)
  next
    case O_page_prev
    then show ?thesis
      using cmd_inv.op_page_prev_good [OF inv nav, of b]
      by (simp add: run_op_def nav_good_def nav_next_def)
  next
    case O_refresh
    have "xs \<noteq> []"
    proof
      assume "xs = []"
      then have "t = WIN_TYPE_RAW_NUM" using nav ty by (simp add: nav_ok_def cur_win_type_def)
      then show False using row f O_refresh ne [OF \<open>xs = []\<close>] by (simp add: switch_row_ok_def)
    qed
    then show ?thesis
      using cmd_inv.op_refresh_good [OF inv nav] O_refresh
      by (intro nav_good_same) (simp_all add: run_op_def nav_next_def)
  next
    case O_sort
    then show ?thesis
      using cmd_inv.op_sort_good [OF inv nav]
      by (intro nav_good_same) (simp_all add: run_op_def nav_next_def)
  next
    case O_home
    then show ?thesis
      using cmd_inv.op_home_good [OF inv nav, of c b]
      by (auto simp: run_op_def nav_good_def nav_next_def split: if_splits)
  next
    case O_switch2ll
    then have t: "t = WIN_TYPE_MONIPROC \<or> t = WIN_TYPE_MONILWP" using row f by (simp add: switch_row_ok_def)
    then obtain p d where "cur_page s = Some p" "cur_dyn s = Some d" "w_type (p_win p) = t"
      using curdyn by auto
    then show ?thesis
      using t O_switch2ll push by (auto simp: run_op_def os_op_switch2ll_def)
  next
    case O_callchain_count
    then have "t = WIN_TYPE_CALLCHAIN" using row f by (simp add: switch_row_ok_def)
    then obtain d where "cur_dyn s = Some d" "xs \<noteq> []" using curdyn by auto
    then show ?thesis
      using op_callchain_count_good [OF inv nav] O_callchain_count
      by (intro nav_good_same) (simp_all add: run_op_def nav_next_def)
  next
    case O_switch2llcallchain
    then have "t \<noteq> WIN_TYPE_RAW_NUM" using row f by (auto simp: switch_row_ok_def)
    then obtain d where d: "cur_dyn s = Some d" using curdyn by auto
    have stay: "nav_good env (Some f) (c_id c) (page_ids (cs_pages s) xs) (Some (s, -1::int))"
      using nav O_switch2llcallchain
      by (auto simp: nav_good_def nav_next_def op_good_def)
    show ?thesis
    proof (cases "d_lines d")
      case None
      then show ?thesis using d stay O_switch2llcallchain
        by (simp add: run_op_def os_op_switch2llcallchain_def)
    next
      case (Some ls)
      show ?thesis
      proof (cases "d_highlight d = -1")
        case True
        then show ?thesis using d stay O_switch2llcallchain Some
          by (simp add: run_op_def os_op_switch2llcallchain_def)
      next
        case False
        then have "0 \<le> d_highlight d \<and> d_highlight d < int (length ls)"
          using ln d Some by (simp add: cur_line_ok_def)
        then show ?thesis using d push O_switch2llcallchain Some False
          by (simp add: run_op_def os_op_switch2llcallchain_def arr_get_def split: prod.split)
      qed
    qed
  qed (use nav in \<open>simp_all add: run_op_def nav_good_def nav_next_def op_good_def, blast+\<close>)
qed

section \<open>A concrete state\<close>

text \<open>
  A perf thread that always reports the status asked for, an allocator that
  takes the next free number, and a screen of 80 by 24.
\<close>

definition want_of :: "perf_taskid \<Rightarrow> perf_status" where
  "want_of i =
     (case i of
        PERF_STOP_ID \<Rightarrow> PERF_STATUS_IDLE
      | PERF_LL_START_ID \<Rightarrow> PERF_STATUS_LL_STARTED
      | PERF_PROFILING_PARTPAUSE_ID \<Rightarrow> PERF_STATUS_PROFILING_PART_STARTED
      | PERF_PQOS_CMT_START_ID \<Rightarrow> PERF_STATUS_PQOS_CMT_STARTED
      | PERF_UNCORE_START_ID \<Rightarrow> PERF_STATUS_UNCORE_STARTED
      | _ \<Rightarrow> PERF_STATUS_PROFILING_STARTED)"

definition env_perf :: perf_env where
  "env_perf = \<lparr>pe_wakes = (\<lambda>c. [(c\<lparr>pc_status := want_of (t_id (pc_task c))\<rparr>, True)]),
     pe_flag2 = (\<lambda>c. (c, FLAG2_PROFILING_DATA_READY)), pe_now = 0, pe_proc = (\<lambda>_. None),
     pe_lwp = (\<lambda>_ _. None), pe_active = []\<rparr>"

definition env_demo :: cmd_env where
  "env_demo = \<lparr>ce_scr = \<lparr>g_scr_height = 24, g_scr_width = 80, node_refresh_ok = True,
       dyn_create_ok = True, draw_ok = True, draw_data = (\<lambda>d. d)\<rparr>,
     ce_perf = env_perf,
     ce_mem = (\<lambda>l. if pl_heap l (nat (pl_npages l)) = None then Some (nat (pl_npages l)) else None),
     g_cmt_enabled = False\<rparr>"

lemma env_demo_ok: "mem_fresh env_demo" "perf_timely (ce_perf env_demo)"
  by (auto simp: mem_fresh_def env_demo_def perf_timely_def env_perf_def)

interpretation demo: cmd_inv win_live env_demo
  by (rule cmd_inv_live [OF env_demo_ok])

definition pages_none :: page_list where
  "pages_none = \<lparr>pl_heap = (\<lambda>_. None), pl_head = None, pl_tail = None, pl_cur = None,
     pl_next_run = None, pl_npages = 0\<rparr>"

definition state_none :: cmd_state where
  "state_none = \<lparr>cs_pages = pages_none,
     cs_perf = \<lparr>pc_status = PERF_STATUS_PROFILING_STARTED, pc_task = task_zero, pc_inited = True,
       pc_last_ms = 0, pc_last_ms_pqos = 0\<rparr>, cs_sortkey = SORT_KEY_CPU\<rparr>"

lemma nav_ok_none: "nav_ok Q pages_none []"
  by (simp add: nav_ok_def list_ok_def pages_none_def heap_wins_ok_def)

section \<open>Properties\<close>



text \<open>
  Every window offers the home, refresh, resize and back commands, with the
  operation that goes home, refreshes (twice) and goes back; only the home
  window has no way back.
\<close>

theorem switch_table_total:
  "sw_op (s_switch t CMD_HOME_ID) = Some O_home \<and>
   sw_op (s_switch t CMD_REFRESH_ID) = Some O_refresh \<and>
   sw_op (s_switch t CMD_RESIZE_ID) = Some O_refresh \<and>
   sw_op (s_switch t CMD_BACK_ID) = (if t = WIN_TYPE_RAW_NUM then None else Some O_page_prev)"
  by (cases t; simp add: s_switch_defs)

text \<open>
  A refresh or resize command that arrives before the first window was
  created (there is no current page) dereferences a NULL page.
\<close>

theorem refresh_without_page_undefined:
  assumes "pl_cur (cs_pages s) = None" "c_id c = CMD_REFRESH_ID \<or> c_id c = CMD_RESIZE_ID"
  shows "cmd_execute env c s = None"
proof -
  have "sw_preop (s_switch WIN_TYPE_RAW_NUM (c_id c)) = None"
    "sw_op (s_switch WIN_TYPE_RAW_NUM (c_id c)) = Some O_refresh"
    using assms(2) by (auto simp: s_switch_defs)
  moreover have "op_refresh env s = None"
    using assms(1) by (simp add: op_refresh_def cur_page_def page_next_set_def)
  ultimately show ?thesis
    using assms by (auto simp: cmd_execute_def cur_win_type_def run_op_def)
qed

lemma refresh_without_page_undefined_witness:
  "cmd_execute env_demo (cmd_zero\<lparr>c_id := CMD_RESIZE_ID\<rparr>) state_none = None"
  by (rule refresh_without_page_undefined) (simp_all add: state_none_def pages_none_def)

text \<open>
  A resize destroys the windows of all pages but leaves their types and
  data pointers; until the current page is shown again, the latency command in
  a window that monitors a process reads freed memory.
\<close>

theorem latency_after_resize_undefined:
  assumes nav: "nav_ok win_ok (cs_pages s) xs" and cur: "cur_page s = Some p"
    and live: "w_inited (p_win p)"
    and ty: "w_type (p_win p) = WIN_TYPE_MONIPROC \<or> w_type (p_win p) = WIN_TYPE_MONILWP"
    and l': "page_win_destroy (cs_pages s) = Some l'" and perf: "perf_ll_started (cs_perf s)"
  shows "cmd_execute env (c\<lparr>c_id := CMD_LAT_ID\<rparr>) (s\<lparr>cs_pages := l'\<rparr>) = None"
proof -
  obtain a where a: "pl_cur (cs_pages s) = Some a" "pl_heap (cs_pages s) a = Some p"
    using cur by (cases "pl_cur (cs_pages s)") (simp_all add: cur_page_def page_get_def)
  have fini: "pl_heap l' a = win_dyn_fini p" "pl_cur l' = Some a"
    using page_win_destroy_ok [OF nav] a l' by (metis option.inject)+
  have "win_ok (p_win p)"
    using nav a(2) by (auto simp: nav_ok_def list_ok_def heap_wins_ok_def)
  then have "win_dyn_fini p = Some (p\<lparr>p_win := (p_win p)\<lparr>w_dyn := DynFreed, w_inited := False\<rparr>\<rparr>)"
    using live by (auto simp: win_ok_def win_dyn_fini_def win_destroy_def split: dynp.splits)
  then have h: "pl_heap l' a = Some (p\<lparr>p_win := (p_win p)\<lparr>w_dyn := DynFreed, w_inited := False\<rparr>\<rparr>)"
    using fini by simp
  let ?s = "s\<lparr>cs_pages := l'\<rparr>"
  have "cur_win_type ?s = Some (w_type (p_win p))" "cur_dyn ?s = None"
    "cur_page ?s = Some (p\<lparr>p_win := (p_win p)\<lparr>w_dyn := DynFreed, w_inited := False\<rparr>\<rparr>)"
    using h fini(2) by (simp_all add: cur_win_type_def cur_dyn_def cur_page_def page_get_def)
  moreover have "sw_preop (s_switch (w_type (p_win p)) CMD_LAT_ID) = Some P_switch2ll"
    "sw_op (s_switch (w_type (p_win p)) CMD_LAT_ID) = Some O_switch2ll"
    using ty by (auto simp: s_switch_defs)
  ultimately show ?thesis
    using ty perf
    by (auto simp: cmd_execute_def run_preop_def run_op_def os_preop_switch2ll_def os_op_switch2ll_def)
qed


definition page_moni :: page where
  "page_moni = \<lparr>p_cmd = cmd_zero\<lparr>c_id := CMD_MONITOR_ID, c_pid := 42\<rparr>, p_prev = None, p_next = None,
     p_win = \<lparr>w_type = WIN_TYPE_MONIPROC, w_inited = True,
       w_dyn = DynLive (dyn_of_cmd (cmd_zero\<lparr>c_id := CMD_MONITOR_ID, c_pid := 42\<rparr>)),
       w_draw = Some F_MONIPROC, w_scroll = Some F_MONIPROC, w_scroll_enter = Some F_MONIPROC,
       w_destroy = Some F_MONIPROC\<rparr>\<rparr>"

definition state_moni :: cmd_state where
  "state_moni = \<lparr>cs_pages = \<lparr>pl_heap = [0 \<mapsto> page_moni], pl_head = Some 0, pl_tail = Some 0,
       pl_cur = Some 0, pl_next_run = None, pl_npages = 1\<rparr>,
     cs_perf = \<lparr>pc_status = PERF_STATUS_LL_STARTED, pc_task = task_zero, pc_inited = True,
       pc_last_ms = 0, pc_last_ms_pqos = 0\<rparr>, cs_sortkey = SORT_KEY_CPU\<rparr>"

lemma latency_after_resize_undefined_witness:
  "\<exists>l'. page_win_destroy (cs_pages state_moni) = Some l' \<and>
        cmd_execute env_demo (cmd_zero\<lparr>c_id := CMD_LAT_ID\<rparr>) (state_moni\<lparr>cs_pages := l'\<rparr>) = None"
proof -
  have nav: "nav_ok win_ok (cs_pages state_moni) [0]"
    by (simp add: nav_ok_def list_ok_def state_moni_def heap_wins_ok_def win_ok_def page_moni_def)
  obtain l' where l': "page_win_destroy (cs_pages state_moni) = Some l'"
    using page_win_destroy_ok [OF nav] by metis
  have "cmd_execute env_demo (cmd_zero\<lparr>c_id := CMD_LAT_ID\<rparr>) (state_moni\<lparr>cs_pages := l'\<rparr>) = None"
    by (rule latency_after_resize_undefined [OF nav _ _ _ l', of page_moni])
      (simp_all add: cur_page_def page_get_def state_moni_def page_moni_def perf_ll_started_def)
  then show ?thesis using l' by blast
qed

end
