(* ===== verification/Disp.thy ===== *)
theory Disp
  imports Cmd
begin

text \<open>
  The display thread (common/disp.c): the mailbox through which the console
  thread, the perf thread and the signal handler tell it what to do, and its
  loop.  The deadline of its wait is left out: a wait may end by timeout at any
  moment.
\<close>

section \<open>The mailbox\<close>

datatype disp_flag =
    DISP_FLAG_NONE | DISP_FLAG_ERR | DISP_FLAG_QUIT
  | DISP_FLAG_PROFILING_DATA_READY | DISP_FLAG_PROFILING_DATA_FAIL
  | DISP_FLAG_CALLCHAIN_DATA_READY | DISP_FLAG_CALLCHAIN_DATA_FAIL
  | DISP_FLAG_LL_DATA_READY | DISP_FLAG_LL_DATA_FAIL
  | DISP_FLAG_PQOS_CMT_READY | DISP_FLAG_PQOS_CMT_FAIL
  | DISP_FLAG_CMD | DISP_FLAG_SCROLLUP | DISP_FLAG_SCROLLDOWN | DISP_FLAG_SCROLLENTER | DISP_FLAG_GETCH

record disp_ctl =
  dc_inited :: bool
  dc_cmd :: cmd
  dc_flag :: disp_flag
  dc_flag2 :: disp_flag
  dc_intval_ms :: int

definition disp_ctl_init :: "bool \<Rightarrow> bool \<Rightarrow> disp_ctl \<times> int" where
  "disp_ctl_init mutex_ok mutex2_ok =
     (let c = \<lparr>dc_inited = False, dc_cmd = cmd_zero, dc_flag = DISP_FLAG_NONE, dc_flag2 = DISP_FLAG_NONE, dc_intval_ms = 0\<rparr>
      in if mutex_ok \<and> mutex2_ok then (c\<lparr>dc_inited := True\<rparr>, 0) else (c, -1))"

definition disp_ctl_fini :: "disp_ctl \<Rightarrow> disp_ctl" where
  "disp_ctl_fini c = (if dc_inited c then c\<lparr>dc_inited := False\<rparr> else c)"

text \<open>
  One pass of the loop of dispthr_flagset_nolock: None means that the flag set
  before has not been taken, so that the lock is given up for a moment.
\<close>

definition dispthr_flagset_try :: "disp_flag \<Rightarrow> disp_ctl \<Rightarrow> disp_ctl option" where
  "dispthr_flagset_try f c =
     (if f \<noteq> DISP_FLAG_QUIT \<and> dc_flag c \<noteq> DISP_FLAG_NONE then None else Some (c\<lparr>dc_flag := f\<rparr>))"

text \<open>
  A notification: what is stored as soon as the lock is held, and the flag that
  is set when the flag before it has been taken.
\<close>

type_synonym post = "(disp_ctl \<Rightarrow> disp_ctl) \<times> disp_flag"

definition dispthr_flagset_lock :: "disp_flag \<Rightarrow> post" where
  "dispthr_flagset_lock f = (\<lambda>c. c, f)"

definition cmd_post :: "cmd_id \<Rightarrow> post" where
  "cmd_post i = (\<lambda>c. c\<lparr>dc_cmd := (dc_cmd c)\<lparr>c_id := i\<rparr>\<rparr>, DISP_FLAG_CMD)"

definition data_post :: "int \<Rightarrow> disp_flag \<Rightarrow> post" where
  "data_post intval_ms f = (\<lambda>c. c\<lparr>dc_intval_ms := intval_ms\<rparr>, f)"

definition disp_profiling_data_ready :: "int \<Rightarrow> post" where
  "disp_profiling_data_ready ms = data_post ms DISP_FLAG_PROFILING_DATA_READY"
definition disp_callchain_data_ready :: "int \<Rightarrow> post" where
  "disp_callchain_data_ready ms = data_post ms DISP_FLAG_CALLCHAIN_DATA_READY"
definition disp_ll_data_ready :: "int \<Rightarrow> post" where
  "disp_ll_data_ready ms = data_post ms DISP_FLAG_LL_DATA_READY"
definition disp_pqos_cmt_data_ready :: "int \<Rightarrow> post" where
  "disp_pqos_cmt_data_ready ms = data_post ms DISP_FLAG_PQOS_CMT_READY"

definition disp_profiling_data_fail :: post where
  "disp_profiling_data_fail = dispthr_flagset_lock DISP_FLAG_PROFILING_DATA_FAIL"
definition disp_callchain_data_fail :: post where
  "disp_callchain_data_fail = dispthr_flagset_lock DISP_FLAG_CALLCHAIN_DATA_FAIL"
definition disp_ll_data_fail :: post where
  "disp_ll_data_fail = dispthr_flagset_lock DISP_FLAG_LL_DATA_FAIL"
definition disp_pqos_cmt_data_fail :: post where
  "disp_pqos_cmt_data_fail = dispthr_flagset_lock DISP_FLAG_PQOS_CMT_FAIL"

definition disp_go_home :: post where "disp_go_home = cmd_post CMD_HOME_ID"
definition disp_dispthr_quit_start :: post where "disp_dispthr_quit_start = cmd_post CMD_QUIT_ID"

text \<open>What the console thread posts: for a character of the pipe (None for no notification), and for a key.\<close>

datatype pipe_char = PIPE_CHAR_QUIT | PIPE_CHAR_RESIZE

definition cons_pipe :: "pipe_char \<Rightarrow> post option" where
  "cons_pipe ch = (case ch of PIPE_CHAR_QUIT \<Rightarrow> None | PIPE_CHAR_RESIZE \<Rightarrow> Some (cmd_post CMD_RESIZE_ID))"

definition cons_key :: post where "cons_key = dispthr_flagset_lock DISP_FLAG_GETCH"

section \<open>The second flag\<close>

definition disp_flag2_set :: "disp_flag \<Rightarrow> disp_ctl \<Rightarrow> disp_ctl" where
  "disp_flag2_set f c = c\<lparr>dc_flag2 := f\<rparr>"

text \<open>The waiting loop, over the states after each return of pthread_cond_wait; no more of them: still waiting.\<close>

fun disp_flag2_wait :: "disp_ctl \<Rightarrow> disp_ctl list \<Rightarrow> (disp_ctl \<times> disp_flag) option" where
  "disp_flag2_wait c ws =
     (if dc_flag2 c \<noteq> DISP_FLAG_NONE then Some (c\<lparr>dc_flag2 := DISP_FLAG_NONE\<rparr>, dc_flag2 c)
      else case ws of [] \<Rightarrow> None | w # ws1 \<Rightarrow> disp_flag2_wait w ws1)"

section \<open>Start\<close>

text \<open>
  consthr_init_wait, over the flag after each wake-up and whether that was the
  timeout; the flag is left as it is.
\<close>

fun consthr_init_wait :: "disp_flag \<Rightarrow> (disp_flag \<times> bool) list \<Rightarrow> bool option" where
  "consthr_init_wait f ws =
     (if f = DISP_FLAG_CMD \<or> f = DISP_FLAG_QUIT then Some (f \<noteq> DISP_FLAG_QUIT)
      else case ws of
             [] \<Rightarrow> None
           | (f1, timedout) # ws1 \<Rightarrow> if timedout then Some False else consthr_init_wait f1 ws1)"

section \<open>One turn of the loop\<close>

text \<open>
  The surroundings of a turn: those of commands; whether curses can be started
  again; the next key (None when getch fails); the scrolling functions of the
  windows, which redraw lines.
\<close>

record disp_env =
  de_cmd :: cmd_env
  de_curses_ok :: bool
  de_key :: "int option"
  de_scroll :: "win_fn \<Rightarrow> bool \<Rightarrow> cmd_state \<Rightarrow> cmd_state option"
  de_enter :: "win_fn \<Rightarrow> cmd_state \<Rightarrow> cmd_state option"

definition cmd_received :: "disp_env \<Rightarrow> cmd \<Rightarrow> cmd_state \<Rightarrow> (cmd_state \<times> bool) option" where
  "cmd_received env c s =
     (if c_id c = CMD_QUIT_ID then Some (s, True)
      else if c_id c = CMD_RESIZE_ID then do {
        l \<leftarrow> page_win_destroy (cs_pages s);
        let s1 = s\<lparr>cs_pages := l\<rparr>;
        if de_curses_ok env then do { (s2, _) \<leftarrow> cmd_execute (de_cmd env) c s1; Some (s2, False) } else Some (s1, False)
      }
      else do { (s1, _) \<leftarrow> cmd_execute (de_cmd env) c s; Some (s1, False) })"

definition key_scroll :: "disp_env \<Rightarrow> bool \<Rightarrow> cmd_state \<Rightarrow> cmd_state option" where
  "key_scroll env up s =
     (if pl_cur (cs_pages s) = None then Some s
      else do { p \<leftarrow> cur_page s; (case w_scroll (p_win p) of None \<Rightarrow> Some s | Some f \<Rightarrow> de_scroll env f up s) })"

definition scroll_enter :: "disp_env \<Rightarrow> cmd_state \<Rightarrow> cmd_state option" where
  "scroll_enter env s =
     (if pl_cur (cs_pages s) = None then Some s
      else do { p \<leftarrow> cur_page s; (case w_scroll_enter (p_win p) of None \<Rightarrow> Some s | Some f \<Rightarrow> de_enter env f s) })"

text \<open>The character in lower case, as an unsigned char; the local command gets the identifier of a command key.\<close>

definition key_char :: "int \<Rightarrow> char" where
  "key_char k = (let b = nat (k mod 256) in char_of (if 65 \<le> b \<and> b \<le> 90 then b + 32 else b))"

definition handle_getch :: "disp_env \<Rightarrow> cmd \<Rightarrow> cmd_state \<Rightarrow> (cmd \<times> disp_flag) option" where
  "handle_getch env c s =
     (case de_key env of
        None \<Rightarrow> Some (c, DISP_FLAG_ERR)
      | Some k \<Rightarrow>
          do {
            i \<leftarrow> cmd_id_get (g_cmt_enabled (de_cmd env)) (key_char k) (cs_pages s);
            Some (if i \<noteq> CMD_INVALID_ID then (c\<lparr>c_id := i\<rparr>, DISP_FLAG_CMD)
                  else (c, if key_char k = CHR 0x02 then DISP_FLAG_SCROLLDOWN
                           else if key_char k = CHR 0x03 then DISP_FLAG_SCROLLUP
                           else if key_char k = CHR 0x0D then DISP_FLAG_SCROLLENTER else DISP_FLAG_NONE))
          })"

text \<open>How a turn ends: the loop goes on, it ends, or the thread calls disp_go_home on itself.\<close>

datatype disp_next = D_loop | D_exit | D_go_home

definition handle_flag :: "disp_env \<Rightarrow> disp_flag \<Rightarrow> cmd \<Rightarrow> cmd_state \<Rightarrow> (cmd_state \<times> disp_next) option" where
  "handle_flag env f c s =
     (case f of
        DISP_FLAG_QUIT \<Rightarrow> Some (s, D_exit)
      | DISP_FLAG_CMD \<Rightarrow> do { (s1, quit) \<leftarrow> cmd_received env c s; Some (s1, if quit then D_exit else D_loop) }
      | DISP_FLAG_PROFILING_DATA_READY \<Rightarrow> do { (s1, _) \<leftarrow> run_next (de_cmd env) False s; Some (s1, D_loop) }
      | DISP_FLAG_CALLCHAIN_DATA_READY \<Rightarrow> do { (s1, _) \<leftarrow> run_next (de_cmd env) False s; Some (s1, D_loop) }
      | DISP_FLAG_LL_DATA_READY \<Rightarrow> do { (s1, _) \<leftarrow> run_next (de_cmd env) False s; Some (s1, D_loop) }
      | DISP_FLAG_PQOS_CMT_READY \<Rightarrow> do { (s1, _) \<leftarrow> run_next (de_cmd env) False s; Some (s1, D_loop) }
      | DISP_FLAG_PROFILING_DATA_FAIL \<Rightarrow> Some (s, D_go_home)
      | DISP_FLAG_CALLCHAIN_DATA_FAIL \<Rightarrow> Some (s, D_go_home)
      | DISP_FLAG_LL_DATA_FAIL \<Rightarrow> Some (s, D_go_home)
      | DISP_FLAG_PQOS_CMT_FAIL \<Rightarrow> Some (s, D_go_home)
      | DISP_FLAG_SCROLLUP \<Rightarrow> do { s1 \<leftarrow> key_scroll env True s; Some (s1, D_loop) }
      | DISP_FLAG_SCROLLDOWN \<Rightarrow> do { s1 \<leftarrow> key_scroll env False s; Some (s1, D_loop) }
      | DISP_FLAG_SCROLLENTER \<Rightarrow> do { s1 \<leftarrow> scroll_enter env s; Some (s1, D_loop) }
      | _ \<Rightarrow> Some (s, D_loop))"

text \<open>
  After the flag has been taken: time_up says that the running time is over,
  timedout that the last wait has ended by timeout.  A key is turned into a flag
  of its own (its flag is never DISP_FLAG_GETCH again), a failing getch ends the
  thread.
\<close>

definition disp_turn ::
  "disp_env \<Rightarrow> bool \<Rightarrow> bool \<Rightarrow> disp_flag \<Rightarrow> cmd \<Rightarrow> cmd_state \<Rightarrow> (cmd \<times> cmd_state \<times> disp_next) option" where
  "disp_turn env time_up timedout f c s =
     (if time_up then Some (c, s, D_exit)
      else if timedout \<and> f = DISP_FLAG_NONE then
        if pl_cur (cs_pages s) = None then Some (c, s, D_loop)
        else do {
          (s1, _) \<leftarrow> cmd_execute (de_cmd env) (c\<lparr>c_id := CMD_REFRESH_ID\<rparr>) s;
          Some (c\<lparr>c_id := CMD_REFRESH_ID\<rparr>, s1, D_loop)
        }
      else if f = DISP_FLAG_GETCH then do {
        (c1, f1) \<leftarrow> handle_getch env c s;
        if f1 = DISP_FLAG_ERR then Some (c1, s, D_exit)
        else do { (s1, nx) \<leftarrow> handle_flag env f1 c1 s; Some (c1, s1, nx) }
      }
      else do { (s1, nx) \<leftarrow> handle_flag env f c s; Some (c, s1, nx) })"

end
