(* ===== verification/DispUse.thy ===== *)
theory DispUse
  imports Disp
begin

text \<open>
  The threads around the mailbox of the display thread as a step relation: what
  is always kept, what gets through, and how the threads get stuck.
\<close>

section \<open>The threads\<close>

datatype poster = Cons_thr | Perf_thr | Signal_handler

text \<open>
  The display thread waits in its loop, has taken a flag it handles now, waits
  in disp_go_home for a flag it would have to take itself, waits in perf_fini
  for the perf thread to end, or has ended.
\<close>

datatype disp_thr = Looping | Handling disp_flag bool | Going_home | Leaving | Gone

text \<open>
  ds_wait: the flag a thread wants to set while the one before has not been
  taken.  ds_posted and ds_taken record what has been posted and taken.
\<close>

record disp_sys =
  ds_ctl :: disp_ctl
  ds_wait :: "poster \<Rightarrow> disp_flag option"
  ds_thr :: disp_thr
  ds_cmd :: cmd
  ds_cs :: cmd_state
  ds_posted :: "disp_flag list"
  ds_taken :: "disp_flag list"

definition post_begin :: "poster \<Rightarrow> post \<Rightarrow> disp_sys \<Rightarrow> disp_sys" where
  "post_begin p po s =
     (let c = fst po (ds_ctl s); s1 = s\<lparr>ds_posted := ds_posted s @ [snd po]\<rparr>
      in case dispthr_flagset_try (snd po) c of
           None \<Rightarrow> s1\<lparr>ds_ctl := c, ds_wait := (ds_wait s)(p \<mapsto> snd po)\<rparr>
         | Some c1 \<Rightarrow> s1\<lparr>ds_ctl := c1\<rparr>)"

definition post_retry :: "poster \<Rightarrow> disp_sys \<Rightarrow> disp_sys option" where
  "post_retry p s =
     do {
       f \<leftarrow> ds_wait s p;
       c \<leftarrow> dispthr_flagset_try f (ds_ctl s);
       Some (s\<lparr>ds_ctl := c, ds_wait := (ds_wait s)(p := None)\<rparr>)
     }"

definition disp_take :: "bool \<Rightarrow> disp_sys \<Rightarrow> disp_sys" where
  "disp_take timedout s =
     (let f = dc_flag (ds_ctl s)
      in s\<lparr>ds_ctl := (ds_ctl s)\<lparr>dc_flag := DISP_FLAG_NONE\<rparr>, ds_thr := Handling f timedout,
           ds_cmd := (if f = DISP_FLAG_CMD then dc_cmd (ds_ctl s) else ds_cmd s),
           ds_taken := ds_taken s @ (if f = DISP_FLAG_NONE then [] else [f])\<rparr>)"

definition disp_handle :: "disp_env \<Rightarrow> bool \<Rightarrow> disp_flag \<Rightarrow> bool \<Rightarrow> disp_sys \<Rightarrow> disp_sys option" where
  "disp_handle env time_up f timedout s =
     do {
       (c, cs, nx) \<leftarrow> disp_turn env time_up timedout f (ds_cmd s) (ds_cs s);
       let s1 = s\<lparr>ds_cmd := c, ds_cs := cs\<rparr>;
       Some (case nx of
               D_loop \<Rightarrow> s1\<lparr>ds_thr := Looping\<rparr>
             | D_exit \<Rightarrow> s1\<lparr>ds_thr := Leaving\<rparr>
             | D_go_home \<Rightarrow>
                 let c = fst disp_go_home (ds_ctl s1); s2 = s1\<lparr>ds_posted := ds_posted s @ [snd disp_go_home]\<rparr>
                 in case dispthr_flagset_try (snd disp_go_home) c of
                      None \<Rightarrow> s2\<lparr>ds_ctl := c, ds_thr := Going_home\<rparr>
                    | Some c1 \<Rightarrow> s2\<lparr>ds_ctl := c1, ds_thr := Looping\<rparr>)
     }"

text \<open>Every notification the program posts has one of these flags.\<close>

definition real_flag :: "disp_flag \<Rightarrow> bool" where
  "real_flag f \<longleftrightarrow> f \<noteq> DISP_FLAG_NONE \<and> f \<noteq> DISP_FLAG_QUIT"

inductive disp_step :: "disp_sys \<Rightarrow> disp_sys \<Rightarrow> bool" where
  post: "ds_wait s p = None \<Longrightarrow> real_flag (snd po) \<Longrightarrow> dc_flag (fst po (ds_ctl s)) = dc_flag (ds_ctl s)
         \<Longrightarrow> disp_step s (post_begin p po s)"
| retry: "post_retry p s = Some s1 \<Longrightarrow> disp_step s s1"
| take: "ds_thr s = Looping \<Longrightarrow> disp_step s (disp_take timedout s)"
| handle: "ds_thr s = Handling f timedout \<Longrightarrow> disp_handle env time_up f timedout s = Some s1 \<Longrightarrow> disp_step s s1"
| home: "ds_thr s = Going_home \<Longrightarrow> dispthr_flagset_try DISP_FLAG_CMD (ds_ctl s) = Some c \<Longrightarrow>
         disp_step s (s\<lparr>ds_ctl := c, ds_thr := Looping\<rparr>)"
| leave: "ds_thr s = Leaving \<Longrightarrow> ds_wait s Perf_thr = None \<Longrightarrow>
         disp_step s (s\<lparr>ds_ctl := (ds_ctl s)\<lparr>dc_flag := DISP_FLAG_NONE\<rparr>, ds_thr := Gone\<rparr>)"

definition disp_start :: "cmd \<Rightarrow> cmd_state \<Rightarrow> disp_sys" where
  "disp_start c cs = \<lparr>ds_ctl = fst (disp_ctl_init True True), ds_wait = (\<lambda>_. None), ds_thr = Looping, ds_cmd = c,
     ds_cs = cs, ds_posted = [], ds_taken = []\<rparr>"

abbreviation disp_runs :: "disp_sys \<Rightarrow> disp_sys \<Rightarrow> bool" where "disp_runs \<equiv> disp_step\<^sup>*\<^sup>*"

section \<open>Every notification is taken once\<close>

definition opt_ms :: "disp_flag option \<Rightarrow> disp_flag multiset" where
  "opt_ms x = (case x of None \<Rightarrow> {#} | Some f \<Rightarrow> {#f#})"

definition waiting :: "disp_sys \<Rightarrow> disp_flag multiset" where
  "waiting s = opt_ms (ds_wait s Cons_thr) + opt_ms (ds_wait s Perf_thr) + opt_ms (ds_wait s Signal_handler)"

definition pending :: "disp_sys \<Rightarrow> disp_flag multiset" where
  "pending s = (if dc_flag (ds_ctl s) = DISP_FLAG_NONE then {#} else {#dc_flag (ds_ctl s)#}) + waiting s +
     (if ds_thr s = Going_home then {#DISP_FLAG_CMD#} else {#})"

lemma opt_ms_simps [simp]: "opt_ms None = {#}" "opt_ms (Some f) = {#f#}"
  by (simp_all add: opt_ms_def)

lemma waiting_upd:
  "ds_wait s p = None \<Longrightarrow> waiting (s\<lparr>ds_wait := (ds_wait s)(p \<mapsto> f)\<rparr>) = add_mset f (waiting s)"
  "ds_wait s p = Some f \<Longrightarrow> add_mset f (waiting (s\<lparr>ds_wait := (ds_wait s)(p := None)\<rparr>)) = waiting s"
  by (cases p; simp add: waiting_def)+

lemma waiting_frame [simp]:
  "waiting (s\<lparr>ds_ctl := c\<rparr>) = waiting s" "waiting (s\<lparr>ds_thr := t\<rparr>) = waiting s" "waiting (s\<lparr>ds_cmd := d\<rparr>) = waiting s"
  "waiting (s\<lparr>ds_cs := e\<rparr>) = waiting s" "waiting (s\<lparr>ds_posted := l\<rparr>) = waiting s" "waiting (s\<lparr>ds_taken := l\<rparr>) = waiting s"
  by (simp_all add: waiting_def)

definition mail_ok :: "disp_sys \<Rightarrow> bool" where
  "mail_ok s \<longleftrightarrow> ds_thr s \<noteq> Gone \<longrightarrow>
     mset (ds_posted s) = mset (ds_taken s) + pending s \<and> (\<forall>f \<in># pending s. real_flag f)"


lemma try_simps:
  "f \<noteq> DISP_FLAG_QUIT \<Longrightarrow> dispthr_flagset_try f c =
     (if dc_flag c = DISP_FLAG_NONE then Some (c\<lparr>dc_flag := f\<rparr>) else None)"
  by (simp add: dispthr_flagset_try_def)

lemma post_begin_pending:
  assumes "ds_wait s p = None" "real_flag (snd po)" "dc_flag (fst po (ds_ctl s)) = dc_flag (ds_ctl s)"
  shows "pending (post_begin p po s) = add_mset (snd po) (pending s)" "ds_thr (post_begin p po s) = ds_thr s"
    "ds_posted (post_begin p po s) = ds_posted s @ [snd po]" "ds_taken (post_begin p po s) = ds_taken s"
  using assms by (cases p; auto simp: post_begin_def Let_def try_simps real_flag_def pending_def waiting_def)+

lemma post_retry_pending:
  assumes "post_retry p s = Some s1" "\<forall>f \<in># pending s. real_flag f"
  shows "pending s1 = pending s \<and> ds_thr s1 = ds_thr s \<and> ds_posted s1 = ds_posted s \<and> ds_taken s1 = ds_taken s"
proof -
  obtain f where f: "ds_wait s p = Some f" using assms(1) by (auto simp: post_retry_def split: bind_splits)
  then have "f \<in># pending s" by (cases p) (simp_all add: pending_def waiting_def)
  then have "f \<noteq> DISP_FLAG_QUIT" "f \<noteq> DISP_FLAG_NONE" using assms(2) by (auto simp: real_flag_def)
  then show ?thesis
    using assms(1) f by (cases p) (auto simp: post_retry_def try_simps pending_def waiting_def split: if_splits)
qed

lemma disp_take_pending:
  assumes "ds_thr s = Looping"
  shows "mset (ds_taken (disp_take b s)) + pending (disp_take b s) = mset (ds_taken s) + pending s"
    "ds_posted (disp_take b s) = ds_posted s" "pending (disp_take b s) \<subseteq># pending s"
  using assms by (auto simp: disp_take_def Let_def pending_def waiting_def)

lemma disp_handle_pending:
  assumes "disp_handle env up f b s = Some s1" "ds_thr s = Handling f b"
  shows "mset (ds_posted s1) + pending s = mset (ds_posted s) + pending s1 \<and> ds_taken s1 = ds_taken s \<and>
     (\<forall>g \<in># pending s1. g \<in># pending s \<or> g = DISP_FLAG_CMD)"
  using assms
  by (auto simp: disp_handle_def Let_def try_simps disp_go_home_def cmd_post_def pending_def waiting_def
      split: bind_splits disp_next.splits if_splits)

lemma disp_step_mail_ok:
  assumes "disp_step s s1" "mail_ok s"
  shows "mail_ok s1"
  using assms
proof (induction rule: disp_step.induct)
  case (post s p po)
  then show ?case using post_begin_pending [OF post(1-3)] by (simp add: mail_ok_def)
next
  case (retry p s s1)
  then show ?case using post_retry_pending [OF retry(1)] by (auto simp: mail_ok_def post_retry_def split: bind_splits)
next
  case (take s b)
  then show ?case using disp_take_pending [OF take(1), of b] by (auto simp: mail_ok_def dest: mset_subset_eqD)
next
  case (handle s f b env up s1)
  have "mset (ds_posted s) = mset (ds_taken s) + pending s" "\<forall>f \<in># pending s. real_flag f"
    using handle by (simp_all add: mail_ok_def)
  then show ?case
    using disp_handle_pending [OF handle(2,1)] by (auto simp: mail_ok_def real_flag_def)
next
  case (home s c)
  then show ?case by (auto simp: mail_ok_def try_simps pending_def waiting_def split: if_splits)
next
  case (leave s)
  then show ?case by (simp add: mail_ok_def)
qed

lemma runs_mail_ok: "disp_runs s s1 \<Longrightarrow> mail_ok s \<Longrightarrow> mail_ok s1"
  by (induction rule: rtranclp_induct) (auto intro: disp_step_mail_ok)

lemma mail_ok_start: "mail_ok (disp_start c cs)"
  by (simp add: mail_ok_def disp_start_def disp_ctl_init_def pending_def waiting_def)

text \<open>
  C9: No notification is lost or invented.  However the console thread, the perf
  thread, the signal handler and the display thread interleave, until the
  display thread ends every flag that has been posted has been taken exactly
  once or is still to come: in the mailbox, or with a thread that waits to put
  it there.
\<close>

theorem notifications_conserved:
  assumes "disp_runs (disp_start c cs) s" "ds_thr s \<noteq> Gone"
  shows "mset (ds_posted s) = mset (ds_taken s) + pending s \<and> (\<forall>f \<in># pending s. real_flag f)"
  using runs_mail_ok [OF assms(1) mail_ok_start] assms(2) by (simp add: mail_ok_def)

section \<open>Getting stuck\<close>

definition hung :: "disp_sys \<Rightarrow> bool" where
  "hung s \<longleftrightarrow> dc_flag (ds_ctl s) \<noteq> DISP_FLAG_NONE \<and> (\<forall>p. ds_wait s p \<noteq> Some DISP_FLAG_QUIT) \<and>
     (ds_thr s = Going_home \<or> ds_thr s = Leaving \<and> ds_wait s Perf_thr \<noteq> None)"

lemma hung_step:
  assumes "disp_step s s1" "hung s"
  shows "hung s1 \<and> ds_thr s1 = ds_thr s \<and> dc_flag (ds_ctl s1) = dc_flag (ds_ctl s) \<and> ds_taken s1 = ds_taken s"
  using assms
proof (induction rule: disp_step.induct)
  case (post s p po)
  then show ?case by (auto simp: hung_def post_begin_def Let_def try_simps real_flag_def)
next
  case (retry p s s1)
  then obtain f where "ds_wait s p = Some f" "f \<noteq> DISP_FLAG_QUIT" by (auto simp: post_retry_def hung_def split: bind_splits)
  then show ?case using retry by (auto simp: post_retry_def try_simps hung_def split: bind_splits if_splits)
qed (auto simp: hung_def try_simps)

text \<open>
  C35: Two ways to hang.  If a flag is set while the display thread is in
  disp_go_home, or while it waits for the perf thread to end and the perf thread
  waits to post, then nobody will ever take that flag: whatever the threads do
  afterwards, the flag stays, nothing is taken and the display thread does not
  get any further.  Both states are reached from the start.
\<close>

theorem hung_forever:
  assumes "dc_flag (ds_ctl s) \<noteq> DISP_FLAG_NONE" "\<forall>p. ds_wait s p \<noteq> Some DISP_FLAG_QUIT"
    and "ds_thr s = Going_home \<or> ds_thr s = Leaving \<and> ds_wait s Perf_thr \<noteq> None" "disp_runs s s1"
  shows "ds_thr s1 = ds_thr s \<and> dc_flag (ds_ctl s1) = dc_flag (ds_ctl s) \<and> ds_taken s1 = ds_taken s"
proof -
  have "hung s" using assms(1-3) by (simp add: hung_def)
  with assms(4) have "hung s1 \<and> ds_thr s1 = ds_thr s \<and> dc_flag (ds_ctl s1) = dc_flag (ds_ctl s) \<and> ds_taken s1 = ds_taken s"
    by (induction rule: rtranclp_induct) (auto dest: hung_step)
  then show ?thesis by simp
qed

definition disp_env_demo :: "int \<Rightarrow> disp_env" where
  "disp_env_demo k = \<lparr>de_cmd = env_demo, de_curses_ok = True, de_key = Some k, de_scroll = (\<lambda>_ _ s. Some s),
     de_enter = (\<lambda>_ s. Some s)\<rparr>"

definition start_demo :: disp_sys where
  "start_demo = disp_start cmd_zero state_moni"

lemma start_demo_simps [simp]:
  "ds_thr start_demo = Looping" "ds_wait start_demo p = None" "dc_flag (ds_ctl start_demo) = DISP_FLAG_NONE"
  "ds_cs start_demo = state_moni" "dc_cmd (ds_ctl start_demo) = cmd_zero"
  by (simp_all add: start_demo_def disp_start_def disp_ctl_init_def)

definition home_demo :: disp_sys where
  "home_demo = the (disp_handle (disp_env_demo 0) False DISP_FLAG_PROFILING_DATA_FAIL False
     (post_begin Cons_thr cons_key (disp_take False (post_begin Perf_thr disp_profiling_data_fail start_demo))))"

lemmas post_defs = post_begin_def Let_def try_simps disp_profiling_data_fail_def dispthr_flagset_lock_def cons_key_def
  cmd_post_def disp_dispthr_quit_start_def disp_profiling_data_ready_def data_post_def real_flag_def

lemma home_demo_reached: "disp_runs start_demo home_demo"
proof -
  let ?a = "post_begin Perf_thr disp_profiling_data_fail start_demo"
  let ?c = "post_begin Cons_thr cons_key (disp_take False ?a)"
  have 1: "disp_step start_demo ?a" by (rule disp_step.post) (simp_all add: post_defs)
  have 2: "disp_step ?a (disp_take False ?a)" by (rule disp_step.take) (simp add: post_defs)
  have 3: "disp_step (disp_take False ?a) ?c"
    by (rule disp_step.post) (simp_all add: post_defs disp_take_def)
  have h: "disp_handle (disp_env_demo 0) False DISP_FLAG_PROFILING_DATA_FAIL False ?c = Some home_demo"
    by (simp add: home_demo_def disp_handle_def disp_turn_def handle_flag_def Let_def)
  have 4: "disp_step ?c home_demo"
    by (rule disp_step.handle [OF _ h]) (simp add: post_defs disp_take_def)
  show ?thesis using 1 2 3 4 by (meson converse_rtranclp_into_rtranclp r_into_rtranclp)
qed

lemma home_demo_state:
  "ds_thr home_demo = Going_home" "dc_flag (ds_ctl home_demo) = DISP_FLAG_GETCH" "ds_wait home_demo p = None"
  by (simp_all add: home_demo_def disp_handle_def disp_turn_def handle_flag_def disp_go_home_def post_defs disp_take_def)


theorem notifications_conserved_witness:
  "mset (ds_posted home_demo) = mset (ds_taken home_demo) + pending home_demo \<and> DISP_FLAG_GETCH \<in># pending home_demo"
  using notifications_conserved [of cmd_zero state_moni home_demo] home_demo_reached home_demo_state
  by (simp add: start_demo_def pending_def)

definition leaving_demo :: disp_sys where
  "leaving_demo = post_begin Perf_thr (disp_profiling_data_ready 5) (post_begin Cons_thr cons_key
     (the (disp_handle (disp_env_demo 113) False DISP_FLAG_GETCH False
        (disp_take False (post_begin Cons_thr cons_key start_demo)))))"

lemma q_key: "cmd_id_get b (key_char 113) l = Some CMD_QUIT_ID"
proof -
  have "key_char 113 = CHR ''q''" by code_simp
  then show ?thesis by (simp add: cmd_id_get_def)
qed

lemma leaving_demo_handled:
  "\<exists>s1. disp_handle (disp_env_demo 113) False DISP_FLAG_GETCH False (disp_take False (post_begin Cons_thr cons_key start_demo)) = Some s1 \<and>
     ds_thr s1 = Leaving \<and> dc_flag (ds_ctl s1) = DISP_FLAG_NONE \<and> (\<forall>p. ds_wait s1 p = None)"
  by (simp add: disp_handle_def disp_turn_def handle_getch_def handle_flag_def cmd_received_def disp_env_demo_def q_key
      post_defs disp_take_def)

lemma leaving_demo_reached:
  "disp_runs start_demo leaving_demo \<and> ds_thr leaving_demo = Leaving \<and> dc_flag (ds_ctl leaving_demo) = DISP_FLAG_GETCH \<and>
   ds_wait leaving_demo Perf_thr = Some DISP_FLAG_PROFILING_DATA_READY \<and> ds_wait leaving_demo Cons_thr = None \<and>
   ds_wait leaving_demo Signal_handler = None"
proof -
  let ?a = "post_begin Cons_thr cons_key start_demo"
  obtain b where b: "disp_handle (disp_env_demo 113) False DISP_FLAG_GETCH False (disp_take False ?a) = Some b"
    "ds_thr b = Leaving" "dc_flag (ds_ctl b) = DISP_FLAG_NONE" "\<forall>p. ds_wait b p = None"
    using leaving_demo_handled by blast
  let ?c = "post_begin Cons_thr cons_key b"
  have l: "leaving_demo = post_begin Perf_thr (disp_profiling_data_ready 5) ?c" by (simp add: leaving_demo_def b(1))
  have 1: "disp_step start_demo ?a" by (rule disp_step.post) (simp_all add: post_defs)
  have 2: "disp_step ?a (disp_take False ?a)" by (rule disp_step.take) (simp add: post_defs)
  have 3: "disp_step (disp_take False ?a) b" by (rule disp_step.handle [OF _ b(1)]) (simp add: post_defs disp_take_def)
  have 4: "disp_step b ?c" by (rule disp_step.post) (use b in \<open>simp_all add: post_defs\<close>)
  have 5: "disp_step ?c leaving_demo" unfolding l by (rule disp_step.post) (use b in \<open>simp_all add: post_defs\<close>)
  have "disp_runs start_demo leaving_demo" using 1 2 3 4 5 by (meson converse_rtranclp_into_rtranclp r_into_rtranclp)
  then show ?thesis using b by (simp add: l post_defs)
qed

theorem hung_forever_witness:
  "\<exists>s1 s2. disp_runs start_demo s1 \<and> disp_runs s1 (post_begin Signal_handler disp_dispthr_quit_start s1) \<and>
     ds_thr (post_begin Signal_handler disp_dispthr_quit_start s1) = Going_home \<and>
     disp_runs start_demo s2 \<and> disp_runs s2 (post_begin Signal_handler disp_dispthr_quit_start s2) \<and>
     ds_thr (post_begin Signal_handler disp_dispthr_quit_start s2) = Leaving"
proof -
  note l = leaving_demo_reached
  let ?q = "post_begin Signal_handler disp_dispthr_quit_start"
  have "ds_wait leaving_demo p \<noteq> Some DISP_FLAG_QUIT" for p using l by (cases p) simp_all
  moreover have h: "disp_runs home_demo (?q home_demo)"
    by (rule r_into_rtranclp, rule disp_step.post) (simp_all add: home_demo_state post_defs)
  moreover have g: "disp_runs leaving_demo (?q leaving_demo)"
    by (rule r_into_rtranclp, rule disp_step.post) (use l in \<open>simp_all add: post_defs\<close>)
  ultimately have "ds_thr (?q home_demo) = Going_home" "ds_thr (?q leaving_demo) = Leaving"
    using hung_forever [OF _ _ _ h] hung_forever [OF _ _ _ g] l by (simp_all add: home_demo_state)
  then show ?thesis using home_demo_reached h l g by blast
qed

section \<open>Lost commands\<close>

text \<open>
  A command overwrites the command before it.  The identifier of a command
  is stored before its flag can be set: if a command is posted while the one
  before has not been taken, the display thread takes the new one in its place,
  and the thread that posted it still waits to announce it, so that it is taken
  again; the command before it is never executed.
\<close>

theorem pending_command_replaced:
  assumes "ds_thr s = Looping" "dc_flag (ds_ctl s) = DISP_FLAG_CMD" "ds_wait s p = None"
  shows "let s1 = post_begin p (cmd_post i) s; s2 = disp_take b s1 in
     disp_step s s1 \<and> disp_step s1 s2 \<and> c_id (ds_cmd s2) = i \<and> c_id (dc_cmd (ds_ctl s2)) = i \<and>
     ds_wait s2 p = Some DISP_FLAG_CMD \<and> dc_flag (ds_ctl s2) = DISP_FLAG_NONE"
proof -
  have "disp_step s (post_begin p (cmd_post i) s)"
    by (rule disp_step.post) (use assms in \<open>simp_all add: post_defs\<close>)
  moreover have "disp_step (post_begin p (cmd_post i) s) (disp_take b (post_begin p (cmd_post i) s))"
    by (rule disp_step.take) (use assms in \<open>simp add: post_defs\<close>)
  ultimately show ?thesis using assms by (simp add: post_defs disp_take_def)
qed

text \<open>Ctrl-C, and a change of the size of the terminal before the display thread has seen it.\<close>

theorem pending_command_replaced_witness:
  "let s = post_begin Signal_handler disp_dispthr_quit_start start_demo in
     disp_runs start_demo s \<and> c_id (dc_cmd (ds_ctl s)) = CMD_QUIT_ID \<and>
     c_id (ds_cmd (disp_take False (post_begin Cons_thr (cmd_post CMD_RESIZE_ID) s))) = CMD_RESIZE_ID"
proof -
  let ?s = "post_begin Signal_handler disp_dispthr_quit_start start_demo"
  have "disp_step start_demo ?s" by (rule disp_step.post) (simp_all add: post_defs)
  moreover have "c_id (dc_cmd (ds_ctl ?s)) = CMD_QUIT_ID" "ds_thr ?s = Looping" "dc_flag (ds_ctl ?s) = DISP_FLAG_CMD"
    "ds_wait ?s Cons_thr = None" by (simp_all add: post_defs)
  ultimately show ?thesis
    using pending_command_replaced [where s = ?s and p = Cons_thr and b = False and i = CMD_RESIZE_ID] by (simp add: Let_def)
qed


section \<open>What gets through\<close>

text \<open>The steps that move a notification on, without new ones.\<close>

inductive disp_flow :: "disp_env \<Rightarrow> disp_sys \<Rightarrow> disp_sys \<Rightarrow> bool" for env where
  f_retry: "post_retry p s = Some s1 \<Longrightarrow> disp_flow env s s1"
| f_take: "ds_thr s = Looping \<Longrightarrow> dc_flag (ds_ctl s) \<noteq> DISP_FLAG_NONE \<Longrightarrow> disp_flow env s (disp_take False s)"
| f_handle: "ds_thr s = Handling f b \<Longrightarrow> disp_handle env False f b s = Some s1 \<Longrightarrow> disp_flow env s s1"

text \<open>A flag whose handling always succeeds and lets the loop go on.\<close>

definition loops :: "disp_env \<Rightarrow> disp_flag \<Rightarrow> bool" where
  "loops env f \<longleftrightarrow> (\<forall>b c cs. \<exists>c1 cs1. disp_turn env False b f c cs = Some (c1, cs1, D_loop))"

definition flowing :: "disp_env \<Rightarrow> disp_sys \<Rightarrow> bool" where
  "flowing env s \<longleftrightarrow> (\<forall>f \<in># pending s. real_flag f \<and> loops env f) \<and>
     (ds_thr s = Looping \<or> (\<exists>f b. ds_thr s = Handling f b \<and> loops env f))"

definition work :: "disp_sys \<Rightarrow> nat" where
  "work s = 3 * size (waiting s) + (if dc_flag (ds_ctl s) = DISP_FLAG_NONE then 0 else 2) +
     (case ds_thr s of Handling f b \<Rightarrow> 1 | _ \<Rightarrow> 0)"

lemma waiting_some: "waiting s \<noteq> {#} \<Longrightarrow> \<exists>p f. ds_wait s p = Some f \<and> f \<in># waiting s"
  by (auto simp: waiting_def opt_ms_def split: option.splits if_splits)

lemma disp_flow_step:
  assumes "disp_flow env s s1" "flowing env s"
  shows "flowing env s1 \<and> work s1 < work s \<and> mset (ds_taken s1) + pending s1 = mset (ds_taken s) + pending s"
  using assms
proof (induction rule: disp_flow.induct)
  case (f_retry p s s1)
  have real: "\<forall>f \<in># pending s. real_flag f" using f_retry(2) by (simp add: flowing_def)
  obtain f where f: "ds_wait s p = Some f" using f_retry(1) by (auto simp: post_retry_def split: bind_splits)
  then have "f \<in># pending s" by (cases p) (simp_all add: pending_def waiting_def)
  then have "f \<noteq> DISP_FLAG_QUIT" using real by (auto simp: real_flag_def)
  then have "work s1 < work s"
    using f_retry(1) f by (cases p) (auto simp: post_retry_def try_simps work_def waiting_def split: if_splits disp_thr.splits)
  then show ?case using post_retry_pending [OF f_retry(1) real] f_retry(2) by (simp add: flowing_def)
next
  case (f_take s)
  have "dc_flag (ds_ctl s) \<in># pending s" using f_take(2) by (simp add: pending_def)
  then have lp: "loops env (dc_flag (ds_ctl s))" using f_take(3) unfolding flowing_def by blast
  have "work (disp_take False s) < work s" using f_take(1,2) by (simp add: work_def disp_take_def Let_def)
  moreover have "\<forall>f \<in># pending (disp_take False s). real_flag f \<and> loops env f"
    using f_take(3) mset_subset_eqD [OF disp_take_pending(3) [OF f_take(1), of False]] unfolding flowing_def by blast
  then have "flowing env (disp_take False s)"
    using lp unfolding flowing_def by (intro conjI disjI2 exI [of _ "dc_flag (ds_ctl s)"] exI [of _ False])
      (auto simp: disp_take_def Let_def)
  ultimately show ?case using disp_take_pending(1) [OF f_take(1)] by simp
next
  case (f_handle s f b s1)
  have "loops env f" using f_handle(1,3) by (simp add: flowing_def)
  then obtain c1 cs1 where "disp_turn env False b f (ds_cmd s) (ds_cs s) = Some (c1, cs1, D_loop)"
    unfolding loops_def by blast
  then have "s1 = s\<lparr>ds_cmd := c1, ds_cs := cs1, ds_thr := Looping\<rparr>"
    using f_handle(2) by (simp add: disp_handle_def Let_def)
  then show ?case using f_handle(1,3) by (simp add: flowing_def work_def pending_def waiting_def)
qed

lemma disp_flow_progress:
  assumes "flowing env s" "work s \<noteq> 0"
  shows "\<exists>s1. disp_flow env s s1"
proof (cases "ds_thr s = Looping")
  case True
  show ?thesis
  proof (cases "dc_flag (ds_ctl s) = DISP_FLAG_NONE")
    case False
    then show ?thesis using True disp_flow.f_take by blast
  next
    case none: True
    then have "waiting s \<noteq> {#}" using assms(2) True by (auto simp: work_def)
    then obtain p f where pf: "ds_wait s p = Some f" "f \<in># waiting s" using waiting_some by blast
    then have "f \<in># pending s" by (simp add: pending_def)
    then have "f \<noteq> DISP_FLAG_QUIT" using assms(1) by (auto simp: flowing_def real_flag_def)
    then have "post_retry p s \<noteq> None" using pf(1) none by (simp add: post_retry_def try_simps)
    then show ?thesis using disp_flow.f_retry by blast
  qed
next
  case False
  then obtain f b where t: "ds_thr s = Handling f b" "loops env f" using assms(1) by (auto simp: flowing_def)
  then obtain c1 cs1 where "disp_turn env False b f (ds_cmd s) (ds_cs s) = Some (c1, cs1, D_loop)"
    unfolding loops_def by blast
  then have "disp_handle env False f b s \<noteq> None" by (simp add: disp_handle_def Let_def)
  then show ?thesis using t(1) disp_flow.f_handle by blast
qed

lemma work_0: "work s = 0 \<Longrightarrow> flowing env s \<Longrightarrow> pending s = {#} \<and> ds_thr s = Looping"
  by (auto simp: work_def pending_def flowing_def split: if_splits)



end
