(* ===== verification/WinText.thy ===== *)
theory WinText
  imports Types Sysfs Node ProcMapUse
begin

text \<open>
  The text of the windows (common/win.c, common/os/os_win.c): captions, the
  lines of the tables and the strings built for them.  snprintf cuts a text to
  the buffer it is given; %ws and %-ws fill a field of w columns on the left and
  on the right.

  Numbers in floating point are a type of their own: the operations on them and
  the digits printf writes for them are a parameter.
\<close>

section \<open>Formatted text\<close>

definition pad :: "nat \<Rightarrow> string \<Rightarrow> string" where
  "pad w s = replicate (w - length s) CHR '' '' @ s"

definition pad_right :: "nat \<Rightarrow> string \<Rightarrow> string" where
  "pad_right w s = s @ replicate (w - length s) CHR '' ''"

text \<open>The columns of a table: the k-th text in a field of the k-th width.\<close>

definition row :: "nat list \<Rightarrow> string list \<Rightarrow> string" where
  "row ws ss = concat (map2 pad ws ss)"

text \<open>The string a buffer of size bytes holds after snprintf.\<close>

definition snprintf :: "nat \<Rightarrow> string \<Rightarrow> string" where
  "snprintf sz s = take (sz - 1) s"

definition show_int :: "int \<Rightarrow> string" where
  "show_int i = (if i < 0 then CHR ''-'' # show_nat (nat (- i)) else show_nat (nat i))"

text \<open>%llX: the digits of %llx in capitals.\<close>

definition hex_upper :: "nat \<Rightarrow> string" where
  "hex_upper n = map (\<lambda>c. if of_char c \<ge> (97::nat) then char_of (of_char c - (32::nat)) else c) (hex_str n)"

text \<open>
  Floating point: the quotient ratio() computes, a quotient of two ints, the
  product by 100, the digits of %.nf; the cycles a number of processors makes in
  a number of milliseconds, and nanoseconds from cycles.
\<close>

record 'd floats =
  f_ratio :: "u64 \<Rightarrow> u64 \<Rightarrow> 'd"
  f_quot :: "int \<Rightarrow> int \<Rightarrow> 'd"
  f_percent :: "'d \<Rightarrow> 'd"
  f_show :: "nat \<Rightarrow> 'd \<Rightarrow> string"
  f_all_clks :: "int \<Rightarrow> int \<Rightarrow> u64"
  f_cyc2ns :: "int \<Rightarrow> u64"

abbreviation fpad :: "'d floats \<Rightarrow> nat \<Rightarrow> nat \<Rightarrow> 'd \<Rightarrow> string" where
  "fpad F w n x \<equiv> pad w (f_show F n x)"

section \<open>Captions\<close>

definition CAPTION_PID :: string where "CAPTION_PID = ''PID''"
definition CAPTION_LWP :: string where "CAPTION_LWP = ''LWP''"
definition CAPTION_RPI :: string where "CAPTION_RPI = ''RPI(K)''"
definition CAPTION_LPI :: string where "CAPTION_LPI = ''LPI(K)''"
definition CAPTION_CPI :: string where "CAPTION_CPI = ''CPI''"
definition CAPTION_CPU :: string where "CAPTION_CPU = ''CPU%%''"
definition CAPTION_NID :: string where "CAPTION_NID = ''NODE''"
definition CAPTION_PROC :: string where "CAPTION_PROC = ''PROC''"
definition CAPTION_ADDR :: string where "CAPTION_ADDR = ''ADDR''"
definition CAPTION_SIZE :: string where "CAPTION_SIZE = ''SIZE''"
definition CAPTION_RMA :: string where "CAPTION_RMA = ''RMA(K)''"
definition CAPTION_LMA :: string where "CAPTION_LMA = ''LMA(K)''"
definition CAPTION_RL :: string where "CAPTION_RL = ''RMA/LMA''"
definition CAPTION_DESC :: string where "CAPTION_DESC = ''DESC''"
definition CAPTION_BUFHIT :: string where "CAPTION_BUFHIT = ''ACCESS%%''"
definition CAPTION_AVGLAT :: string where "CAPTION_AVGLAT = ''LAT(ns)''"
definition CAPTION_MEM_ALL :: string where "CAPTION_MEM_ALL = ''MEM.ALL''"
definition CAPTION_MEM_FREE :: string where "CAPTION_MEM_FREE = ''MEM.FREE''"
definition CAPTION_LLC_OCCUPANCY :: string where "CAPTION_LLC_OCCUPANCY = ''LLC.OCCUPANCY(MB)''"
definition CAPTION_TOTAL_BW :: string where "CAPTION_TOTAL_BW = ''MBAND.TOTAL''"
definition CAPTION_LOCAL_BW :: string where "CAPTION_LOCAL_BW = ''MBAND.LOCAL''"

lemmas caption_defs = CAPTION_PID_def CAPTION_LWP_def CAPTION_RPI_def CAPTION_LPI_def CAPTION_CPI_def
  CAPTION_CPU_def CAPTION_NID_def CAPTION_PROC_def CAPTION_ADDR_def CAPTION_SIZE_def CAPTION_RMA_def
  CAPTION_LMA_def CAPTION_RL_def CAPTION_DESC_def CAPTION_BUFHIT_def CAPTION_AVGLAT_def CAPTION_MEM_ALL_def
  CAPTION_MEM_FREE_def CAPTION_LLC_OCCUPANCY_def CAPTION_TOTAL_BW_def CAPTION_LOCAL_BW_def

text \<open>The column the table is sorted by is marked with a star.\<close>

definition star :: "string \<Rightarrow> string" where
  "star s = snprintf 32 (CHR ''*'' # s)"

definition topnproc_row :: "string list \<Rightarrow> string" where
  "topnproc_row = row [10, 15, 11, 11, 11, 11, 11]"

definition topnproc_caption_build :: "sort_key \<Rightarrow> nat \<Rightarrow> string" where
  "topnproc_caption_build sortkey sz =
     snprintf sz (topnproc_row
       (case sortkey of
          SORT_KEY_CPU \<Rightarrow> [CAPTION_PID, CAPTION_PROC, CAPTION_RPI, CAPTION_LPI, CAPTION_RL, CAPTION_CPI, star CAPTION_CPU]
        | SORT_KEY_CPI \<Rightarrow> [CAPTION_PID, CAPTION_PROC, CAPTION_RPI, CAPTION_LPI, CAPTION_RL, star CAPTION_CPI, CAPTION_CPU]
        | SORT_KEY_RPI \<Rightarrow> [CAPTION_PID, CAPTION_PROC, star CAPTION_RPI, CAPTION_LPI, CAPTION_RL, CAPTION_CPI, CAPTION_CPU]
        | SORT_KEY_LPI \<Rightarrow> [CAPTION_PID, CAPTION_PROC, CAPTION_RPI, star CAPTION_LPI, CAPTION_RL, CAPTION_CPI, CAPTION_CPU]
        | SORT_KEY_RL \<Rightarrow> [CAPTION_PID, CAPTION_PROC, CAPTION_RPI, CAPTION_LPI, star CAPTION_RL, CAPTION_CPI, CAPTION_CPU]
        | _ \<Rightarrow> [CAPTION_PID, CAPTION_PROC, CAPTION_RPI, CAPTION_LPI, CAPTION_RL, CAPTION_CPI, CAPTION_CPU]))"

definition rawnum_caption_build :: "sort_key \<Rightarrow> nat \<Rightarrow> string" where
  "rawnum_caption_build sortkey sz =
     snprintf sz (topnproc_row
       (case sortkey of
          SORT_KEY_CPU \<Rightarrow> [CAPTION_PID, CAPTION_PROC, CAPTION_RMA, CAPTION_LMA, CAPTION_RL, CAPTION_CPI, star CAPTION_CPU]
        | SORT_KEY_CPI \<Rightarrow> [CAPTION_PID, CAPTION_PROC, CAPTION_RMA, CAPTION_LMA, CAPTION_RL, star CAPTION_CPI, CAPTION_CPU]
        | SORT_KEY_RMA \<Rightarrow> [CAPTION_PID, CAPTION_PROC, star CAPTION_RMA, CAPTION_LMA, CAPTION_RL, CAPTION_CPI, CAPTION_CPU]
        | SORT_KEY_LMA \<Rightarrow> [CAPTION_PID, CAPTION_PROC, CAPTION_RMA, star CAPTION_LMA, CAPTION_RL, CAPTION_CPI, CAPTION_CPU]
        | SORT_KEY_RL \<Rightarrow> [CAPTION_PID, CAPTION_PROC, CAPTION_RMA, CAPTION_LMA, star CAPTION_RL, CAPTION_CPI, CAPTION_CPU]
        | _ \<Rightarrow> [CAPTION_PID, CAPTION_PROC, CAPTION_RMA, CAPTION_LMA, CAPTION_RL, CAPTION_CPI, CAPTION_CPU]))"

definition moni_caption_build :: "nat \<Rightarrow> string" where
  "moni_caption_build sz = snprintf sz (row [5, 10, 10, 11, 11, 10, 10, 10]
     [CAPTION_NID, CAPTION_RPI, CAPTION_LPI, CAPTION_RMA, CAPTION_LMA, CAPTION_RL, CAPTION_CPI, CAPTION_CPU])"

definition topnlwp_caption_build :: "nat \<Rightarrow> string" where
  "topnlwp_caption_build sz = snprintf sz (row [10, 10, 10, 11, 11, 10, 10, 10]
     [CAPTION_LWP, CAPTION_RPI, CAPTION_LPI, CAPTION_RMA, CAPTION_LMA, CAPTION_RL, CAPTION_CPI, CAPTION_CPU])"

definition os_nodeoverview_caption_build :: "nat \<Rightarrow> string" where
  "os_nodeoverview_caption_build sz = snprintf sz (row [5, 12, 12, 11, 11, 11, 12]
     [CAPTION_NID, CAPTION_MEM_ALL, CAPTION_MEM_FREE, CAPTION_RMA, CAPTION_LMA, CAPTION_RL, CAPTION_CPU])"

definition pqos_cmt_caption_build :: "int \<Rightarrow> nat \<Rightarrow> string" where
  "pqos_cmt_caption_build lwpid sz = snprintf sz (row [10, 15, 11, 11, 21, 11]
     [if lwpid = 0 then CAPTION_PID else CAPTION_LWP, CAPTION_PROC, CAPTION_RMA, CAPTION_LMA, CAPTION_LLC_OCCUPANCY, CAPTION_CPU])"

definition pqos_mbm_caption_build :: "int \<Rightarrow> nat \<Rightarrow> string" where
  "pqos_mbm_caption_build lwpid sz = snprintf sz (row [10, 15, 10, 10, 14, 14, 10]
     [if lwpid = 0 then CAPTION_PID else CAPTION_LWP, CAPTION_PROC, CAPTION_RMA, CAPTION_LMA, CAPTION_TOTAL_BW, CAPTION_LOCAL_BW, CAPTION_CPU])"

text \<open>The captions of the latency windows and of the access distribution.\<close>

definition lat_caption :: "nat \<Rightarrow> string" where
  "lat_caption sz = snprintf sz (row [16, 8, 11, 11, 34]
     [CAPTION_ADDR, CAPTION_SIZE, CAPTION_BUFHIT, CAPTION_AVGLAT, CAPTION_DESC])"

definition latnode_caption :: "nat \<Rightarrow> string" where
  "latnode_caption sz = snprintf sz (row [16, 8, 8, 11, 11]
     [CAPTION_ADDR, CAPTION_SIZE, CAPTION_NID, CAPTION_BUFHIT, CAPTION_AVGLAT])"

definition accdst_caption :: "nat \<Rightarrow> string" where
  "accdst_caption sz = snprintf sz (row [5, 15, 15] [CAPTION_NID, CAPTION_BUFHIT, CAPTION_AVGLAT])"

section \<open>The lines of the tables\<close>

record 'd win_countvalue =
  cv_rpi :: 'd
  cv_lpi :: 'd
  cv_cpu :: 'd
  cv_cpi :: 'd
  cv_rma :: 'd
  cv_lma :: 'd
  cv_rl :: 'd

definition WIN_PROCNAME_SIZE :: nat where "WIN_PROCNAME_SIZE = 12"
definition WIN_DESCBUF_SIZE :: nat where "WIN_DESCBUF_SIZE = 32"
definition WIN_LINECHAR_MAX :: nat where "WIN_LINECHAR_MAX = 1024"
definition WIN_NLINES_MAX :: int where "WIN_NLINES_MAX = 4096"

text \<open>
  win_countvalue_fill: the metrics of a process or thread (its counters summed
  over a node or all nodes); the interval is in milliseconds.
\<close>

definition countvalue :: "'d floats \<Rightarrow> u64 \<Rightarrow> u64 \<Rightarrow> u64 \<Rightarrow> u64 \<Rightarrow> u64 \<Rightarrow> 'd win_countvalue" where
  "countvalue F rma lma clk ir all_clks =
     \<lparr>cv_rpi = f_ratio F (rma * 1000) ir, cv_lpi = f_ratio F (lma * 1000) ir, cv_cpu = f_ratio F clk all_clks,
      cv_cpi = f_ratio F clk ir, cv_rma = f_ratio F rma 1000, cv_lma = f_ratio F lma 1000, cv_rl = f_ratio F rma lma\<rparr>"

definition win_countvalue_fill ::
  "'d floats \<Rightarrow> node_group \<Rightarrow> count_value list \<Rightarrow> int \<Rightarrow> int \<Rightarrow> int \<Rightarrow> 'd win_countvalue option" where
  "win_countvalue_fill F g countval_arr nid ms ncpus =
     do {
       rma \<leftarrow> node_countval_sum g countval_arr nid UI_COUNT_RMA;
       lma \<leftarrow> node_countval_sum g countval_arr nid UI_COUNT_LMA;
       clk \<leftarrow> node_countval_sum g countval_arr nid UI_COUNT_CLK;
       ir \<leftarrow> node_countval_sum g countval_arr nid UI_COUNT_IR;
       Some (countvalue F rma lma clk ir (f_all_clks F ms ncpus))
     }"

definition win_node_countvalue :: "'d floats \<Rightarrow> node_group \<Rightarrow> node \<Rightarrow> 'd win_countvalue" where
  "win_node_countvalue F g n =
     countvalue F (node_countval_get n UI_COUNT_RMA) (node_countval_get n UI_COUNT_LMA)
       (node_countval_get n UI_COUNT_CLK) (node_countval_get n UI_COUNT_IR)
       (f_all_clks F (node_intval_get g) (node_ncpus n))"

text \<open>A line of the process tables; the name is what fits its buffer.\<close>

record 'd topnproc_line =
  tl_value :: "'d win_countvalue"
  tl_proc_name :: string
  tl_pid :: int
  tl_nlwp :: int

definition topnproc_data_build :: "'d floats \<Rightarrow> nat \<Rightarrow> 'd topnproc_line \<Rightarrow> string" where
  "topnproc_data_build F sz line =
     (let v = tl_value line
      in snprintf sz (pad 10 (show_int (tl_pid line)) @ pad 15 (tl_proc_name line) @ fpad F 11 1 (cv_rpi v) @
           fpad F 11 1 (cv_lpi v) @ fpad F 11 1 (cv_rl v) @ fpad F 11 2 (cv_cpi v) @ fpad F 10 1 (f_percent F (cv_cpu v))))"

definition rawnum_data_build :: "'d floats \<Rightarrow> nat \<Rightarrow> 'd topnproc_line \<Rightarrow> string" where
  "rawnum_data_build F sz line =
     (let v = tl_value line
      in snprintf sz (pad 10 (show_int (tl_pid line)) @ pad 15 (tl_proc_name line) @ fpad F 11 1 (cv_rma v) @
           fpad F 11 1 (cv_lma v) @ fpad F 11 1 (cv_rl v) @ fpad F 11 2 (cv_cpi v) @ fpad F 10 1 (f_percent F (cv_cpu v))))"

text \<open>A line of the windows of one process or thread: a node.\<close>

record 'd moni_line =
  ml_value :: "'d win_countvalue"
  ml_nid :: int
  ml_pid :: int

definition moni_data_build :: "'d floats \<Rightarrow> nat \<Rightarrow> 'd moni_line \<Rightarrow> node \<Rightarrow> string" where
  "moni_data_build F sz line n =
     (let v = ml_value line
      in snprintf sz (pad 5 (show_int (n_nid n)) @ fpad F 10 1 (cv_rpi v) @ fpad F 10 1 (cv_lpi v) @
           fpad F 11 1 (cv_rma v) @ fpad F 11 1 (cv_lma v) @ fpad F 10 1 (cv_rl v) @ fpad F 10 2 (cv_cpi v) @
           fpad F 9 1 (f_percent F (cv_cpu v))))"

record 'd topnlwp_line =
  wl_value :: "'d win_countvalue"
  wl_pid :: int
  wl_lwpid :: int

definition topnlwp_data_build :: "'d floats \<Rightarrow> nat \<Rightarrow> 'd topnlwp_line \<Rightarrow> string" where
  "topnlwp_data_build F sz line =
     (let v = wl_value line; tmp = snprintf 32 (show_int (wl_lwpid line))
      in snprintf sz (pad 10 tmp @ fpad F 10 1 (cv_rpi v) @ fpad F 10 1 (cv_lpi v) @ fpad F 11 1 (cv_rma v) @
           fpad F 11 1 (cv_lma v) @ fpad F 10 1 (cv_rl v) @ fpad F 10 2 (cv_cpi v) @
           fpad F 9 1 (f_percent F (cv_cpu v))))"

record 'd nodeoverview_line =
  nl_value :: "'d win_countvalue"
  nl_mem_all :: 'd
  nl_mem_free :: 'd
  nl_nid :: int

text \<open>offcore is plat_offcore_num(), the number of offcore counters of the processor.\<close>

definition os_nodeoverview_data_build :: "'d floats \<Rightarrow> int \<Rightarrow> nat \<Rightarrow> 'd nodeoverview_line \<Rightarrow> node \<Rightarrow> string" where
  "os_nodeoverview_data_build F offcore sz line n =
     (let v = nl_value line;
          mem_all = snprintf 32 (f_show F 1 (nl_mem_all line) @ ''G'');
          mem_free = snprintf 32 (f_show F 1 (nl_mem_free line) @ ''G'');
          cpu = f_percent F (cv_cpu v)
      in if offcore > 1
         then snprintf sz (pad 5 (show_int (n_nid n)) @ pad 12 mem_all @ pad 12 mem_free @ fpad F 11 1 (cv_rma v) @
                fpad F 11 1 (cv_lma v) @ fpad F 11 1 (cv_rl v) @ fpad F 11 1 cpu)
         else snprintf sz (pad 5 (show_int (n_nid n)) @ pad 12 mem_all @ pad 12 mem_free @ fpad F 11 1 (cv_rma v) @
                pad 11 ''-'' @ pad 11 ''-'' @ fpad F 11 1 cpu))"

record 'd pqos_cmt_proc_line =
  cl_value :: "'d win_countvalue"
  cl_llc_occupancy :: u64
  cl_pid :: int
  cl_lwpid :: int
  cl_nlwp :: int
  cl_fd :: int
  cl_proc_name :: string

definition pqos_cmt_proc_data_build :: "'d floats \<Rightarrow> nat \<Rightarrow> 'd pqos_cmt_proc_line \<Rightarrow> string" where
  "pqos_cmt_proc_data_build F sz line =
     (let v = cl_value line;
          id = snprintf 16 (show_int (if cl_lwpid line = 0 then cl_pid line else cl_lwpid line));
          tmp = snprintf 32 (if cl_fd line = INVALID_FD then id else CHR ''*'' # id)
      in snprintf sz (pad 10 tmp @ pad 15 (cl_proc_name line) @ fpad F 11 1 (cv_rma v) @ fpad F 11 1 (cv_lma v) @
           fpad F 21 1 (f_ratio F (cl_llc_occupancy line) 1048576) @ fpad F 10 1 (f_percent F (cv_cpu v))))"

record 'd pqos_mbm_proc_line =
  bl_value :: "'d win_countvalue"
  bl_totalbw_scaled :: u64
  bl_localbw_scaled :: u64
  bl_pid :: int
  bl_lwpid :: int
  bl_nlwp :: int
  bl_proc_name :: string

definition pqos_mbm_proc_data_build :: "'d floats \<Rightarrow> nat \<Rightarrow> 'd pqos_mbm_proc_line \<Rightarrow> string" where
  "pqos_mbm_proc_data_build F sz line =
     (let v = bl_value line;
          id = snprintf 16 (show_int (if bl_lwpid line = 0 then bl_pid line else bl_lwpid line));
          total_bw = snprintf 16 (f_show F 1 (f_ratio F (bl_totalbw_scaled line) 1048576) @ ''MB'');
          local_bw = snprintf 16 (f_show F 1 (f_ratio F (bl_localbw_scaled line) 1048576) @ ''MB'')
      in snprintf sz (pad 10 id @ pad 15 (bl_proc_name line) @ fpad F 10 1 (cv_rma v) @ fpad F 10 1 (cv_lma v) @
           pad 14 total_bw @ pad 14 local_bw @ fpad F 9 1 (f_percent F (cv_cpu v))))"

text \<open>A line of the latency windows: a memory area, or its part on a node.\<close>

record lat_line =
  la_addr :: u64
  la_size :: u64
  la_naccess :: int
  la_latency :: int
  la_nsamples :: int
  la_pid :: int
  la_lwpid :: int
  la_nid :: int
  la_nid_show :: bool
  la_desc :: string

definition lat_line_zero :: lat_line where
  "lat_line_zero = \<lparr>la_addr = 0, la_size = 0, la_naccess = 0, la_latency = 0, la_nsamples = 0, la_pid = 0,
     la_lwpid = 0, la_nid = 0, la_nid_show = False, la_desc = []\<rparr>"

definition KB_BYTES :: u64 where "KB_BYTES = 1024"

definition win_size2str :: "'d floats \<Rightarrow> u64 \<Rightarrow> nat \<Rightarrow> string" where
  "win_size2str F sz bufsize =
     (let i = sz div KB_BYTES; j = i div KB_BYTES
      in if i < KB_BYTES then snprintf bufsize (show_nat (unat i) @ ''K'')
         else if j < KB_BYTES then
           (if i mod KB_BYTES = 0 then snprintf bufsize (show_nat (unat j) @ ''M'')
            else snprintf bufsize (f_show F 1 (f_quot F (int (unat i)) (int (unat KB_BYTES))) @ ''M''))
         else
           (if j mod KB_BYTES = 0 then snprintf bufsize (show_nat (unat (j div KB_BYTES)) @ ''G'')
            else snprintf bufsize (f_show F 1 (f_quot F (int (unat j)) (int (unat KB_BYTES))) @ ''G'')))"

definition win_lat_str_build :: "'d floats \<Rightarrow> nat \<Rightarrow> lat_line \<Rightarrow> string" where
  "win_lat_str_build F sz line =
     (let hit = (if la_nsamples line > 0 then f_quot F (la_naccess line) (la_nsamples line) else f_quot F 0 1);
          lat = (if la_naccess line > 0 then la_latency line sdiv la_naccess line else 0);
          size_str = win_size2str F (la_size line) 32;
          ns = show_nat (unat (f_cyc2ns F lat));
          addr = pad 16 (hex_upper (unat (la_addr line)))
      in if \<not> la_nid_show line
         then snprintf sz (addr @ pad 8 size_str @ fpad F 10 1 (f_percent F hit) @ pad 11 ns @ pad 34 (la_desc line))
         else if la_nid line < 0
         then snprintf sz (addr @ pad 8 size_str @ pad 8 ''-'' @ fpad F 10 1 (f_percent F hit) @ pad 11 ns)
         else snprintf sz (addr @ pad 8 size_str @ pad 8 (show_int (la_nid line)) @ fpad F 10 1 (f_percent F hit) @ pad 11 ns))"

record 'd accdst_line =
  ad_nid :: int
  ad_access_ratio :: 'd
  ad_latency :: int

definition accdst_str_build :: "'d floats \<Rightarrow> nat \<Rightarrow> 'd accdst_line \<Rightarrow> string" where
  "accdst_str_build F sz line =
     snprintf sz (pad 5 (show_int (ad_nid line)) @ fpad F 14 1 (f_percent F (ad_access_ratio line)) @
       pad 15 (show_nat (unat (f_cyc2ns F (ad_latency line)))))"

text \<open>An empty line of the call chains is drawn as a blank.\<close>

definition win_callchain_str_build :: "nat \<Rightarrow> string \<Rightarrow> string" where
  "win_callchain_str_build sz content = snprintf sz (if length content > 0 then content else '' '')"

definition callchain_event_name :: "ui_count_id \<Rightarrow> string" where
  "callchain_event_name u =
     (case u of
        UI_COUNT_RMA \<Rightarrow> ''RMA''
      | UI_COUNT_CLK \<Rightarrow> ''Cycle''
      | UI_COUNT_IR \<Rightarrow> ''IR''
      | UI_COUNT_LMA \<Rightarrow> ''LMA''
      | _ \<Rightarrow> ''-'')"

section \<open>Cutting a path\<close>

text \<open>bufdesc_cut: the text that fits the buffer, or the end of the path from a slash on.\<close>

definition bufdesc_cut :: "nat \<Rightarrow> string \<Rightarrow> string" where
  "bufdesc_cut dst_size src_desc =
     (if length src_desc < dst_size then src_desc
      else
        let start = dropWhile (\<lambda>c. c \<noteq> CHR ''/'') (drop (length src_desc - dst_size + 1 + 2) src_desc)
        in if start \<noteq> [] then snprintf dst_size (''..'' @ start) else [])"

section \<open>The processors of a node\<close>

text \<open>
  print_buf appends to a buffer with the given rest of its size; once a text
  has not fit, nothing more is written.
\<close>

definition print_buf :: "string \<Rightarrow> string \<times> int \<Rightarrow> string \<times> int" where
  "print_buf s b =
     (case b of (dest, sz) \<Rightarrow>
        if sz \<le> 0 then b
        else if int (length s) \<ge> sz then (dest @ take (nat sz - 1) s, 0)
        else (dest @ s, sz - int (length s)))"

text \<open>The loop: k is the number of processors seen, l the length of the run that starts at start.\<close>

fun cpu_runs :: "int \<Rightarrow> int \<Rightarrow> int \<Rightarrow> int \<Rightarrow> int list \<Rightarrow> string \<times> int \<Rightarrow> string \<times> int" where
  "cpu_runs ncpus k start l [] b = b"
| "cpu_runs ncpus k start l (cpuid # ids) b =
     (if cpuid \<noteq> start + l then
        cpu_runs ncpus (k + 1) cpuid 1 ids
          (if k + 1 < ncpus then
             print_buf (if l = 1 then show_int start @ '' ''
                        else show_int start @ ''-'' @ show_int (start + l - 1) @ '' '') b
           else
             print_buf ('' '' @ show_int cpuid)
               (print_buf (if l = 1 then show_int start else show_int start @ ''-'' @ show_int (start + l - 1)) b))
      else if k + 1 = ncpus then
        cpu_runs ncpus (k + 1) start l ids (print_buf (show_int start @ ''-'' @ show_int (start + l)) b)
      else cpu_runs ncpus (k + 1) start (l + 1) ids b)"

text \<open>
  node_cpu_string: the identifiers of the online processors, sorted, as ranges;
  the array of node->ncpus of them is zeroed before it is filled.
\<close>

definition online_ids :: "perf_cpu list \<Rightarrow> int list" where
  "online_ids cs = map cpu_cpuid (filter (\<lambda>c. cpu_cpuid c \<noteq> INVALID_CPUID \<and> \<not> cpu_hotremove c) cs)"

definition node_cpu_string :: "bool \<Rightarrow> node \<Rightarrow> nat \<Rightarrow> string option" where
  "node_cpu_string mem n sz =
     (let ncpus = n_ncpus n
      in if ncpus = 0 then Some (take sz ''-'')
         else if \<not> mem \<or> ncpus < 0 then Some []
         else do {
           cs \<leftarrow> n_cpus n;
           let found = take (nat ncpus) (online_ids cs);
           let cpuid_arr = qsort int_cmp (found @ replicate (nat ncpus - length found) 0);
           Some (if ncpus = 1 then snprintf sz (show_int (hd cpuid_arr))
                 else fst (cpu_runs ncpus 1 (hd cpuid_arr) 1 (tl cpuid_arr) ([], int sz)))
         })"

end
