(* ===== verification/WinTextUse.thy ===== *)
theory WinTextUse
  imports WinText
begin

text \<open>
  Properties of the text of the windows: the processors of a node are written so
  that the reader of sysfs lists reads them back, a cut path fits its buffer and
  is the end of the path, and what the columns of the captions hold.
\<close>

section \<open>The processors of a node\<close>

text \<open>The runs of consecutive numbers, the first of them from a to b so far.\<close>

fun runs_from :: "nat \<Rightarrow> nat \<Rightarrow> nat list \<Rightarrow> (nat \<times> nat) list" where
  "runs_from a b [] = [(a, b)]"
| "runs_from a b (x # xs) = (if x = Suc b then runs_from a x xs else (a, b) # runs_from x x xs)"

fun blank_list :: "string list \<Rightarrow> string" where
  "blank_list [] = []"
| "blank_list [s] = s"
| "blank_list (s # ss) = s @ '' '' @ blank_list ss"

definition commas :: "string \<Rightarrow> string" where
  "commas s = map (\<lambda>c. if c = CHR '' '' then CHR '','' else c) s"

lemma runs_from_not_Nil [simp]: "runs_from a b xs \<noteq> []"
  by (induction xs arbitrary: a b) simp_all

lemma blank_list_Cons: "ss \<noteq> [] \<Longrightarrow> blank_list (s # ss) = s @ '' '' @ blank_list ss"
  by (cases ss) simp_all

lemma range_vals_snoc: "a \<le> b \<Longrightarrow> map int [a..<Suc b] @ [int (Suc b)] = map int [a..<Suc (Suc b)]"
  by simp

lemma runs_from_vals:
  assumes "a \<le> b"
  shows "cpulist_vals (runs_from a b xs) = map int [a..<Suc b] @ map int xs"
  using assms
proof (induction xs arbitrary: a b)
  case (Cons x xs)
  show ?case
  proof (cases "x = Suc b")
    case True
    then show ?thesis using Cons.IH [of a x] Cons.prems by simp
  next
    case False
    then show ?thesis using Cons.IH [of x x] by (simp add: cpulist_vals_def range_vals_def)
  qed
qed (simp add: cpulist_vals_def range_vals_def)

lemma runs_from_ok:
  assumes "a \<le> b" "b < 2 ^ 31 - 1" "\<forall>x\<in>set xs. x < 2 ^ 31 - 1"
  shows "ranges_ok (runs_from a b xs)"
  using assms
proof (induction xs arbitrary: a b)
  case (Cons x xs)
  have "ranges_ok (runs_from a x xs)" if "x = Suc b"
    by (rule Cons.IH) (use Cons.prems that in simp_all)
  moreover have "ranges_ok (runs_from x x xs)" by (rule Cons.IH) (use Cons.prems in simp_all)
  then have "ranges_ok ((a, b) # runs_from x x xs)" using Cons.prems by (simp add: ranges_ok_def)
  ultimately show ?case by simp
qed (simp add: ranges_ok_def)

text \<open>What is in the buffer when a text has been appended to a buffer of sz bytes.\<close>

definition buf_of :: "nat \<Rightarrow> string \<Rightarrow> string \<times> int" where
  "buf_of sz s = (snprintf sz s, if sz \<le> length s then 0 else int sz - int (length s))"

lemma print_buf_of: "print_buf t (buf_of sz s) = buf_of sz (s @ t)"
proof -
  have "take (sz - 1) s @ take (sz - length s - 1) t = take (sz - 1) (s @ t)" if "length s < sz"
    using that by simp
  moreover have "nat (int sz - int (length s)) - 1 = sz - length s - 1" if "length s < sz" using that by simp
  ultimately show ?thesis by (auto simp: print_buf_def buf_of_def snprintf_def)
qed

lemma show_int_nat [simp]: "show_int (int n) = show_nat n"
  by (simp add: show_int_def)

lemma cpu_runs_same:
  "cpuid = start + l \<Longrightarrow> k + 1 < ncpus \<Longrightarrow>
    cpu_runs ncpus k start l (cpuid # ids) b = cpu_runs ncpus (k + 1) start (l + 1) ids b"
  by simp

lemma cpu_runs_new:
  "cpuid \<noteq> start + l \<Longrightarrow> k + 1 < ncpus \<Longrightarrow>
    cpu_runs ncpus k start l (cpuid # ids) b = cpu_runs ncpus (k + 1) cpuid 1 ids
      (print_buf (if l = 1 then show_int start @ '' ''
                  else show_int start @ ''-'' @ show_int (start + l - 1) @ '' '') b)"
  by simp

lemma cpu_runs_text:
  assumes "a \<le> b" "xs \<noteq> []"
  shows "cpu_runs (k + int (length xs)) k (int a) (int (Suc b - a)) (map int xs) (buf_of sz s) =
    buf_of sz (s @ blank_list (map range_str (runs_from a b xs)))"
  using assms
proof (induction xs arbitrary: a b k s)
  case (Cons x xs)
  let ?seg = "range_str (a, b)"
  have l: "int a + int (Suc b - a) = int (Suc b)" "(int (Suc b - a) = 1) = (a = b)" "int a + int (Suc b - a) - 1 = int b"
    using Cons.prems(1) by auto
  have r: "?seg = (if int (Suc b - a) = 1 then show_int (int a)
      else show_int (int a) @ ''-'' @ show_int (int a + int (Suc b - a) - 1))"
    using l by (simp add: range_str_def)
  show ?case
  proof (cases "xs = []")
    case True
    have "range_str (a, Suc b) = show_int (int a) @ ''-'' @ show_int (int a + int (Suc b - a))"
      using Cons.prems(1) by (simp add: range_str_def l(1) del: of_nat_Suc)
    moreover have "range_str (x, x) = show_int (int x)" by (simp add: range_str_def)
    ultimately show ?thesis using True r l by (simp add: print_buf_of del: of_nat_Suc)
  next
    case False
    have k: "k + int (length (x # xs)) = (k + 1) + int (length xs)" "k + 1 < k + int (length (x # xs))"
      using False by simp_all
    show ?thesis
    proof (cases "x = Suc b")
      case True
      have s: "int (Suc b - a) + 1 = int (Suc x - a)" using True Cons.prems(1) by simp
      have "cpu_runs (k + int (length (x # xs))) k (int a) (int (Suc b - a)) (map int (x # xs)) (buf_of sz s) =
          cpu_runs (k + 1 + int (length xs)) (k + 1) (int a) (int (Suc x - a)) (map int xs) (buf_of sz s)"
        unfolding k(1) list.map s [symmetric] by (rule cpu_runs_same) (use l(1) True k in simp_all)
      also have "\<dots> = buf_of sz (s @ blank_list (map range_str (runs_from a x xs)))"
        by (rule Cons.IH) (use Cons.prems True False in auto)
      finally show ?thesis using True by simp
    next
      case neq: False
      have "print_buf (if int (Suc b - a) = 1 then show_int (int a) @ '' ''
          else show_int (int a) @ ''-'' @ show_int (int a + int (Suc b - a) - 1) @ '' '') (buf_of sz s) =
          buf_of sz (s @ ?seg @ '' '')"
        by (simp add: print_buf_of r)
      then have "cpu_runs (k + int (length (x # xs))) k (int a) (int (Suc b - a)) (map int (x # xs)) (buf_of sz s) =
          cpu_runs (k + 1 + int (length xs)) (k + 1) (int x) (int (Suc x - x)) (map int xs) (buf_of sz (s @ ?seg @ '' ''))"
        using cpu_runs_new [of "int x" "int a" "int (Suc b - a)" k "k + 1 + int (length xs)" "map int xs" "buf_of sz s"] l(1) neq k
        unfolding k(1) list.map by simp
      also have "\<dots> = buf_of sz ((s @ ?seg @ '' '') @ blank_list (map range_str (runs_from x x xs)))"
        by (rule Cons.IH) (use False in auto)
      finally show ?thesis using neq by (simp add: blank_list_Cons)
    qed
  qed
qed simp

text \<open>With a line end and commas for the blanks, the text is the list sysfs shows.\<close>

lemma commas_simps [simp]: "commas [] = []" "commas (s @ t) = commas s @ commas t"
  "commas (c # s) = (if c = CHR '' '' then CHR '','' else c) # commas s"
  by (simp_all add: commas_def)

lemma commas_range [simp]: "commas (range_str r) = range_str r"
proof -
  have "\<forall>c\<in>set (show_nat n). c \<noteq> CHR '' ''" for n
    using show_nat_props [of n] by (auto simp: c_isdigit_def)
  then have "c \<noteq> CHR '' ''" if "c \<in> set (range_str r)" for c
    using that by (auto simp: range_str_def split: if_splits)
  then show ?thesis by (auto simp: commas_def intro: map_idI)
qed

lemma cpulist_str_blank:
  "rs \<noteq> [] \<Longrightarrow> cpulist_str rs = commas (blank_list (map range_str rs)) @ [CHR 0x0A]"
  by (induction rs rule: cpulist_str.induct) simp_all

lemma qsort_sorted: "qsort int_cmp xs = sort xs"
proof -
  have "sorted (map (\<lambda>x. x) (qsort int_cmp xs))" by (rule qs.by_key) (rule int_cmp_le)
  then show ?thesis by (intro properties_for_sort [symmetric]) (simp_all add: qs.perm)
qed

lemma node_cpu_string_runs:
  assumes "n_cpus n = Some cs" "n_ncpus n = int (length (online_ids cs))" "online_ids cs \<noteq> []"
    and "sort (online_ids cs) = map int (a # xs)"
  shows "node_cpu_string True n sz = Some (snprintf sz (blank_list (map range_str (runs_from a a xs))))"
proof -
  have len: "length (online_ids cs) = Suc (length xs)"
    using arg_cong [OF assms(4), of length] by simp
  have arr: "qsort int_cmp (take (nat (n_ncpus n)) (online_ids cs) @
      replicate (nat (n_ncpus n) - length (take (nat (n_ncpus n)) (online_ids cs))) 0) = map int (a # xs)"
    using assms(2,4) by (simp add: qsort_sorted)
  have run: "cpu_runs (n_ncpus n) 1 (int a) 1 (map int xs) ([], int sz) =
      buf_of sz (blank_list (map range_str (runs_from a a xs)))" if "xs \<noteq> []" "sz \<noteq> 0"
    using cpu_runs_text [of a a xs 1 sz "[]"] that assms(2) len by (simp add: buf_of_def snprintf_def)
  have run0: "cpu_runs (n_ncpus n) 1 (int a) 1 (map int xs) ([], int sz) = ([], 0)" if "sz = 0"
  proof -
    have "fst (cpu_runs nc k st l ys ([], 0)) = []" for nc k st l ys
      by (induction ys arbitrary: k st l) (simp_all add: print_buf_def)
    moreover have "snd (cpu_runs nc k st l ys ([], 0)) = 0" for nc k st l ys
      by (induction ys arbitrary: k st l) (simp_all add: print_buf_def)
    ultimately show ?thesis using that by (simp add: prod_eq_iff)
  qed
  show ?thesis
  proof (cases "xs = []")
    case True
    then show ?thesis using assms arr len by (simp add: node_cpu_string_def Let_def range_str_def)
  next
    case False
    then show ?thesis using assms arr len run run0
      by (cases "sz = 0") (simp_all add: node_cpu_string_def Let_def buf_of_def snprintf_def)
  qed
qed

text \<open>
  The processors shown for a node are its online processors.  The text
  node_cpu_string writes, cut to its buffer, is the sorted list of the
  identifiers as ranges: with commas for the blanks and a line end it is a list
  in the format of sysfs, which the reader of those lists turns into exactly the
  identifiers.
\<close>

theorem node_cpu_string_roundtrip:
  assumes "n_cpus n = Some cs" "n_ncpus n = int (length (online_ids cs))" "online_ids cs \<noteq> []"
    and "distinct (online_ids cs)" "\<forall>i\<in>set (online_ids cs). 0 \<le> i \<and> i < 2 ^ 31 - 1"
    and "length (online_ids cs) \<le> length arr" "length arr < 2 ^ 31"
  obtains s where "node_cpu_string True n sz = Some (snprintf sz s)"
    and "str_int_extract True (commas s @ [CHR 0x0A]) arr =
      Some (sort (online_ids cs) @ drop (length (online_ids cs)) arr, Some (int (length (online_ids cs))))"
proof -
  let ?ids = "online_ids cs"
  obtain a xs where ax: "sort (map nat ?ids) = a # xs"
    using assms(3) by (cases "sort (map nat ?ids)") (auto dest: arg_cong [where f = length])
  have "map int (map nat ?ids) = ?ids" using assms(5) by (auto intro: map_idI)
  moreover have "sort (map int ys) = map int (sort ys)" for ys :: "nat list"
    by (rule properties_for_sort) (simp_all add: sorted_map)
  ultimately have s: "sort ?ids = map int (a # xs)" by (metis ax)
  let ?rs = "runs_from a a xs"
  have b: "\<forall>x\<in>set (a # xs). x < 2 ^ 31 - 1"
  proof
    fix x assume "x \<in> set (a # xs)"
    then have "int x \<in> set (sort ?ids)" unfolding s by auto
    then show "x < 2 ^ 31 - 1" using assms(5) by force
  qed
  have ok: "ranges_ok ?rs" by (rule runs_from_ok) (use b in simp_all)
  have v: "cpulist_vals ?rs = sort ?ids" using runs_from_vals [of a a xs] s by simp
  have "str_int_extract True (cpulist_str ?rs) arr = Some (sort ?ids @ drop (length ?ids) arr, Some (int (length ?ids)))"
    using str_int_loop_cpulist [OF ok, of arr "[]"] assms(6,7) v by (simp add: str_int_extract_def)
  then show thesis
    using that node_cpu_string_runs [OF assms(1-3) s] cpulist_str_blank [of ?rs] by simp
qed

text \<open>Processor 7 has been taken out and is still in its slot.\<close>

definition cpu_demo :: "int \<Rightarrow> bool \<Rightarrow> perf_cpu" where
  "cpu_demo i gone = perf_cpu_zero\<lparr>cpu_cpuid := i, cpu_hotremove := gone\<rparr>"

definition node_cpus_demo :: node where
  "node_cpus_demo = node_zero\<lparr>n_ncpus := 4, n_cpus := Some [cpu_demo 5 False, cpu_demo 0 False, cpu_demo 7 True,
     cpu_demo 2 False, cpu_demo INVALID_CPUID False, cpu_demo 1 False]\<rparr>"

theorem node_cpu_string_roundtrip_witness:
  "\<exists>s. node_cpu_string True node_cpus_demo 512 = Some (snprintf 512 s) \<and>
     str_int_extract True (commas s @ [CHR 0x0A]) (replicate 6 0) = Some ([0, 1, 2, 5, 0, 0], Some 4)"
proof -
  let ?cs = "[cpu_demo 5 False, cpu_demo 0 False, cpu_demo 7 True, cpu_demo 2 False,
    cpu_demo INVALID_CPUID False, cpu_demo 1 False]"
  have ids: "online_ids ?cs = [5, 0, 2, 1]"
    by (simp add: online_ids_def cpu_demo_def INVALID_CPUID_def)
  have n: "n_cpus node_cpus_demo = Some ?cs" "n_ncpus node_cpus_demo = int (length (online_ids ?cs))"
    by (simp_all only: ids) (simp_all add: node_cpus_demo_def)
  have "length (online_ids ?cs) \<le> length (replicate 6 (0::int))" "length (replicate 6 (0::int)) < 2 ^ 31"
    "online_ids ?cs \<noteq> []" "distinct (online_ids ?cs)" "\<forall>i\<in>set (online_ids ?cs). 0 \<le> i \<and> i < 2 ^ 31 - 1"
    by (simp_all only: ids) simp_all
  then obtain s where "node_cpu_string True node_cpus_demo 512 = Some (snprintf 512 s)"
    "str_int_extract True (commas s @ [CHR 0x0A]) (replicate 6 0) =
      Some (sort (online_ids ?cs) @ drop (length (online_ids ?cs)) (replicate 6 0), Some (int (length (online_ids ?cs))))"
    using node_cpu_string_roundtrip [OF n, of "replicate 6 0" 512] by metis
  moreover have "drop (length (online_ids ?cs)) (replicate 6 0) = [0, 0::int]" "length (online_ids ?cs) = 4"
    "sort (online_ids ?cs) = [0, 1, 2, 5]"
    by (simp_all only: ids) (simp_all add: numeral_eq_Suc)
  ultimately show ?thesis by force
qed

section \<open>Cutting a path\<close>

text \<open>
  The text fits its buffer: it is the whole path, or two dots and the end of the
  path from a slash on, or empty.
\<close>

lemma bufdesc_cut_fits:
  assumes "3 \<le> n"
  shows "length (bufdesc_cut n s) < n"
    and "bufdesc_cut n s = s \<or> bufdesc_cut n s = [] \<or>
      (\<exists>p t. s = p @ CHR ''/'' # t \<and> bufdesc_cut n s = ''../'' @ t)"
proof -
  let ?k = "length s - n + 1 + 2" and ?P = "\<lambda>c. c \<noteq> CHR ''/''"
  let ?t = "dropWhile ?P (drop ?k s)"
  have "length ?t \<le> length (drop ?k s)" by (rule length_dropWhile_le)
  then have len: "length ?t \<le> n - 3" if "\<not> length s < n" using that by simp
  have cut: "bufdesc_cut n s = ''..'' @ ?t" if "\<not> length s < n" "?t \<noteq> []"
    using that len assms by (simp add: bufdesc_cut_def Let_def snprintf_def)
  show "length (bufdesc_cut n s) < n"
  proof (cases "length s < n \<or> ?t = []")
    case True
    then show ?thesis using assms by (auto simp: bufdesc_cut_def Let_def)
  next
    case False
    then show ?thesis using cut len assms by auto
  qed
  show "bufdesc_cut n s = s \<or> bufdesc_cut n s = [] \<or>
      (\<exists>p t. s = p @ CHR ''/'' # t \<and> bufdesc_cut n s = ''../'' @ t)"
  proof (cases "length s < n \<or> ?t = []")
    case True
    then show ?thesis by (auto simp: bufdesc_cut_def Let_def)
  next
    case False
    then obtain c t where t: "?t = c # t" by (cases ?t) auto
    then have "c = CHR ''/''" using hd_dropWhile [of ?P "drop ?k s"] by simp
    then have t: "?t = CHR ''/'' # t" using t by (simp only:)
    obtain p where "s = p @ ?t" by (metis append.assoc append_take_drop_id takeWhile_dropWhile_id)
    then have "s = p @ CHR ''/'' # t" by (simp only: t)
    moreover have "bufdesc_cut n s = ''..'' @ CHR ''/'' # t" using cut False by (simp only: t) blast
    ultimately show ?thesis by auto
  qed
qed

section \<open>Columns\<close>

lemma length_pad [simp]: "length (pad w s) = max w (length s)"
  by (simp add: pad_def)

text \<open>
  The captions show a percent sign too many.  The captions of the process
  tables end with CPU%%: they are arguments of %s, and the region prints them
  with %s again, so that no step turns the two signs into one.  The caption has
  80 columns, one more than the lines below it.
\<close>

theorem caption_percent_twice:
  assumes "\<And>x n. length (f_show F n x) \<le> 10" "length (show_int (tl_pid line)) \<le> 10" "length (tl_proc_name line) \<le> 15"
  shows "length (topnproc_caption_build k 1024) = 80" "drop 75 (topnproc_caption_build k 1024) = ''CPU%%''"
    and "length (rawnum_caption_build k 1024) = 80" "drop 75 (rawnum_caption_build k 1024) = ''CPU%%''"
    and "length (topnproc_data_build F 1024 line) = 79" "length (rawnum_data_build F 1024 line) = 79"
proof -
  have l: "max w (length (f_show F n x)) = w" if "10 \<le> w" for w n x
    using assms(1) [of n x] that by simp
  show "length (topnproc_data_build F 1024 line) = 79" "length (rawnum_data_build F 1024 line) = 79"
    using assms(2,3) by (simp_all add: topnproc_data_build_def rawnum_data_build_def Let_def snprintf_def l)
  have "list_all (\<lambda>k. length (topnproc_caption_build k 1024) = 80 \<and> drop 75 (topnproc_caption_build k 1024) = ''CPU%%'' \<and>
      length (rawnum_caption_build k 1024) = 80 \<and> drop 75 (rawnum_caption_build k 1024) = ''CPU%%'')
    [SORT_KEY_INVALID, SORT_KEY_CPU, SORT_KEY_PID, SORT_KEY_RPI, SORT_KEY_LPI, SORT_KEY_CPI, SORT_KEY_RMA, SORT_KEY_LMA, SORT_KEY_RL]"
    by code_simp
  then show "length (topnproc_caption_build k 1024) = 80" "drop 75 (topnproc_caption_build k 1024) = ''CPU%%''"
      "length (rawnum_caption_build k 1024) = 80" "drop 75 (rawnum_caption_build k 1024) = ''CPU%%''"
    by (cases k; simp)+
qed

definition floats_demo :: "unit floats" where
  "floats_demo = \<lparr>f_ratio = (\<lambda>_ _. ()), f_quot = (\<lambda>_ _. ()), f_percent = (\<lambda>_. ()), f_show = (\<lambda>_ _. ''0.5''),
     f_all_clks = (\<lambda>_ _. 0), f_cyc2ns = (\<lambda>_. 0)\<rparr>"

definition line_demo :: "unit topnproc_line" where
  "line_demo = \<lparr>tl_value = countvalue floats_demo 0 0 0 0 0, tl_proc_name = ''numatop'', tl_pid = 4242, tl_nlwp = 3\<rparr>"

theorem caption_percent_twice_witness:
  "length (topnproc_data_build floats_demo 1024 line_demo) = 79 \<and>
     drop 75 (topnproc_caption_build SORT_KEY_CPU 1024) = ''CPU%%''"
proof -
  have "length (show_int (tl_pid line_demo)) \<le> 10" by (simp add: line_demo_def show_int_def show_nat.simps)
  then show ?thesis
    using caption_percent_twice(2) [of floats_demo line_demo SORT_KEY_CPU] caption_percent_twice(5) [of floats_demo line_demo]
    by (simp add: floats_demo_def line_demo_def)
qed

end
