(* ===== verification/WinLat.thy ===== *)
theory WinLat
  imports WinText MapNodes Recs Ring
begin

text \<open>
  The buffers of the latency windows (common/win.c, common/os/os_win.c): one
  line for every memory area of a process, or for every part of an area that
  lies on one node; the latency records are counted in the line of the area
  they hit, and the lines are sorted by their counts.  Then the addresses the
  access distribution is computed from, and its lines.
\<close>

section \<open>Creating the lines\<close>

text \<open>The elements of an array: reading beyond what is allocated is undefined.\<close>

definition darr_elems :: "'a darr \<Rightarrow> 'a list option" where
  "darr_elems d =
     (case da_arr d of
        None \<Rightarrow> if da_cur d > 0 then None else Some []
      | Some arr \<Rightarrow> if da_cur d \<le> int (length arr) then Some (take (nat (da_cur d)) arr) else None)"

text \<open>
  win_lat_buf_create: the lines of the mappings of a process; mem tells whether
  the buffer of that many lines can be allocated.  The inner None is NULL.
\<close>

definition lat_line_of :: "int \<Rightarrow> int \<Rightarrow> map_entry \<Rightarrow> lat_line" where
  "lat_line_of pid lwpid e =
     lat_line_zero\<lparr>la_pid := pid, la_lwpid := lwpid, la_addr := me_start_addr e,
       la_size := me_end_addr e - me_start_addr e, la_nid_show := False,
       la_desc := bufdesc_cut WIN_DESCBUF_SIZE (me_desc e)\<rparr>"

definition win_lat_buf_create :: "(int \<Rightarrow> bool) \<Rightarrow> int \<Rightarrow> map_proc \<Rightarrow> int \<Rightarrow> lat_line list option option" where
  "win_lat_buf_create mem pid mp lwpid =
     (if \<not> mem (da_cur (mp_map mp)) then Some None
      else do { es \<leftarrow> darr_elems (mp_map mp); Some (Some (map (lat_line_of pid lwpid) es)) })"

text \<open>latnode_buf_create: the parts of the mapping that is exactly the given area.\<close>

definition latnode_line_of :: "int \<Rightarrow> int \<Rightarrow> numa_entry \<Rightarrow> lat_line" where
  "latnode_line_of pid lwpid e =
     lat_line_zero\<lparr>la_pid := pid, la_lwpid := lwpid, la_nid_show := True, la_addr := ne_start_addr e,
       la_size := ne_end_addr e - ne_start_addr e, la_nid := ne_nid e\<rparr>"

definition latnode_buf_create ::
  "(int \<Rightarrow> bool) \<Rightarrow> int \<Rightarrow> map_proc \<Rightarrow> int \<Rightarrow> u64 \<Rightarrow> u64 \<Rightarrow> lat_line list option option" where
  "latnode_buf_create mem pid mp lwpid addr sz =
     do {
       r \<leftarrow> map_entry_find mp addr sz;
       (case r of
          None \<Rightarrow> Some None
        | Some i \<Rightarrow>
            do {
              arr \<leftarrow> da_arr (mp_map mp);
              let numa_map = me_numa_map (arr ! i);
              (if \<not> mem (da_cur numa_map) then Some None
               else do { es \<leftarrow> darr_elems numa_map; Some (Some (map (latnode_line_of pid lwpid) es)) })
            })
     }"

section \<open>Counting the records\<close>

definition bufaddr_cmp :: "u64 \<Rightarrow> lat_line \<Rightarrow> int" where
  "bufaddr_cmp addr line =
     (if addr < la_addr line then -1 else if addr \<ge> la_addr line + la_size line then 1 else 0)"

text \<open>
  os_lat_buf_hit: the totals are 64 bits wide, the latency of a line is an int
  the sum is cut to.
\<close>

definition os_lat_buf_hit :: "llrec \<Rightarrow> lat_line list \<times> u64 \<times> u64 \<Rightarrow> (lat_line list \<times> u64 \<times> u64) option" where
  "os_lat_buf_hit rec st =
     (case st of (lat_buf, total_lat, total_sample) \<Rightarrow>
        do {
          r \<leftarrow> bsearch (\<lambda>l. Some (bufaddr_cmp (lx_addr rec) l)) lat_buf;
          (case r of
             None \<Rightarrow> Some st
           | Some i \<Rightarrow>
               do {
                 n \<leftarrow> inc_int (la_naccess (lat_buf ! i));
                 let line = (lat_buf ! i)\<lparr>la_naccess := n,
                   la_latency := int_of_u64 (word_of_int (la_latency (lat_buf ! i)) + lx_latency rec)\<rparr>;
                 Some (lat_buf[i := line], total_lat + lx_latency rec, total_sample + 1)
               })
        })"

fun lat_buf_hits :: "llrec list \<Rightarrow> lat_line list \<times> u64 \<times> u64 \<Rightarrow> (lat_line list \<times> u64 \<times> u64) option" where
  "lat_buf_hits [] st = Some st"
| "lat_buf_hits (r # rs) st = do { st1 \<leftarrow> os_lat_buf_hit r st; lat_buf_hits rs st1 }"

text \<open>win_lat_buf_fill: the result is the buffer and the average latency.\<close>

definition win_lat_buf_fill :: "lat_line list \<Rightarrow> llrecgrp \<Rightarrow> (lat_line list \<times> int) option" where
  "win_lat_buf_fill lat_buf grp =
     do {
       rs \<leftarrow> darr_elems grp;
       (buf, total_lat, total_sample) \<leftarrow> lat_buf_hits rs (lat_buf, 0, 0);
       Some (map (\<lambda>l. l\<lparr>la_nsamples := int_of_u64 total_sample\<rparr>) buf,
             if total_sample > 0 then int_of_u64 (total_lat div total_sample) else 0)
     }"

definition win_lat_cmp :: "lat_line \<Rightarrow> lat_line \<Rightarrow> int" where
  "win_lat_cmp l1 l2 =
     (if la_naccess l1 < la_naccess l2 then 1 else if la_naccess l1 > la_naccess l2 then -1 else 0)"

text \<open>
  What lat_data_get and latnode_data_get put into the buffer of the window, and
  the average latency: None when the lines could not be made.
\<close>

definition lat_lines :: "lat_line list option \<Rightarrow> llrecgrp \<Rightarrow> (lat_line list \<times> int) option option" where
  "lat_lines buf grp =
     (case buf of
        None \<Rightarrow> Some None
      | Some lat_buf \<Rightarrow>
          do { (lat_buf1, lat) \<leftarrow> win_lat_buf_fill lat_buf grp; Some (Some (qsort win_lat_cmp lat_buf1, lat)) })"

section \<open>The access distribution\<close>

text \<open>
  llrec2addr: the addresses and latencies of the records; the inner None is the
  return value -1.  mem tells which of the two arrays can be allocated.
\<close>

definition llrec2addr :: "bool \<times> bool \<Rightarrow> llrecgrp \<Rightarrow> (u64 list \<times> int list) option option" where
  "llrec2addr mem grp =
     (if da_cur grp = 0 then Some (Some ([], []))
      else if \<not> fst mem \<or> \<not> snd mem then Some None
      else do {
        rs \<leftarrow> darr_elems grp;
        Some (Some (map lx_addr rs, map (\<lambda>r. int_of_u64 (lx_latency r)) rs))
      })"

definition accdst_line_zero :: "'d floats \<Rightarrow> 'd accdst_line" where
  "accdst_line_zero F = \<lparr>ad_nid = 0, ad_access_ratio = f_quot F 0 1, ad_latency = 0\<rparr>"

text \<open>The quotient of the latency is unsigned: the count is converted to it.\<close>

definition accdst_data_save ::
  "'d floats \<Rightarrow> node_group \<Rightarrow> map_nodedst list \<Rightarrow> int \<Rightarrow> int \<Rightarrow> int \<Rightarrow> 'd accdst_line option" where
  "accdst_data_save F g nodedst_arr nnodes_max naccess_total nid_idx =
     (case node_valid_get g nid_idx of
        None \<Rightarrow> Some (accdst_line_zero F)
      | Some k \<Rightarrow>
          let nid = n_nid (ng_nodes g ! k)
          in if nid < 0 \<or> nid \<ge> nnodes_max then Some (accdst_line_zero F)
             else do {
               d \<leftarrow> arr_get nodedst_arr nid;
               let naccess = nd_naccess d;
               Some \<lparr>ad_nid = nid,
                     ad_access_ratio = (if naccess_total > 0 then f_quot F naccess naccess_total else f_quot F 0 1),
                     ad_latency = (if naccess > 0 then sint (nd_total_lat d div word_of_int naccess) else 0)\<rparr>
             })"

end
