(* ===== verification/WinLatUse.thy ===== *)
theory WinLatUse
  imports WinLat WinTextUse
begin

text \<open>
  Properties of the latency windows: every record is counted in the line of the
  area it hits and in no other, so that the counts of the lines add up to the
  number of samples (lat_window_counts).
\<close>

section \<open>The binary search is a scan of all lines\<close>

definition in_area :: "u64 \<Rightarrow> lat_line \<Rightarrow> bool" where
  "in_area addr l \<longleftrightarrow> la_addr l \<le> addr \<and> addr < la_addr l + la_size l"

definition areas_ok :: "lat_line list \<Rightarrow> bool" where
  "areas_ok ls \<longleftrightarrow> sorted_wrt (\<lambda>a b. la_addr a + la_size a \<le> la_addr b) ls \<and>
     (\<forall>l\<in>set ls. la_addr l < la_addr l + la_size l)"

definition hit_line :: "llrec \<Rightarrow> lat_line \<Rightarrow> lat_line" where
  "hit_line r l =
     (if in_area (lx_addr r) l
      then l\<lparr>la_naccess := la_naccess l + 1,
             la_latency := int_of_u64 (word_of_int (la_latency l) + lx_latency r)\<rparr>
      else l)"

lemma hit_line_area [simp]:
  "la_addr (hit_line r l) = la_addr l" "la_size (hit_line r l) = la_size l"
  "in_area a (hit_line r l) = in_area a l"
  by (simp_all add: hit_line_def in_area_def)

lemma areas_ok_hit [simp]: "areas_ok (map (hit_line r) ls) = areas_ok ls"
  by (simp add: areas_ok_def sorted_wrt_map)

lemma bufaddr_cmp_zero: "bufaddr_cmp a l = 0 \<longleftrightarrow> in_area a l"
  by (auto simp: bufaddr_cmp_def in_area_def)

lemma areas_order:
  assumes "areas_ok ls" "i < j" "j < length ls"
  shows "la_addr (ls ! i) < la_addr (ls ! j)" "la_addr (ls ! i) + la_size (ls ! i) \<le> la_addr (ls ! j)"
    and "la_addr (ls ! j) < la_addr (ls ! j) + la_size (ls ! j)"
proof -
  show e: "la_addr (ls ! i) + la_size (ls ! i) \<le> la_addr (ls ! j)"
    using assms by (simp add: areas_ok_def sorted_wrt_iff_nth_less)
  have "la_addr (ls ! i) < la_addr (ls ! i) + la_size (ls ! i)" using assms by (simp add: areas_ok_def)
  then show "la_addr (ls ! i) < la_addr (ls ! j)" using e by simp
  show "la_addr (ls ! j) < la_addr (ls ! j) + la_size (ls ! j)" using assms by (simp add: areas_ok_def)
qed

lemma bufaddr_cmp_mono:
  assumes "areas_ok ls" "i \<le> j" "j < length ls"
  shows "(bufaddr_cmp a (ls ! i) < 0 \<longrightarrow> bufaddr_cmp a (ls ! j) < 0) \<and>
    (bufaddr_cmp a (ls ! j) > 0 \<longrightarrow> bufaddr_cmp a (ls ! i) > 0)"
proof (cases "i = j")
  case False
  then have "i < j" using assms(2) by simp
  note o = areas_order [OF assms(1) this assms(3)]
  show ?thesis unfolding bufaddr_cmp_def using o by (auto split: if_splits)
qed simp

lemma in_area_unique:
  assumes "areas_ok ls" "i < length ls" "j < length ls" "in_area a (ls ! i)" "in_area a (ls ! j)"
  shows "i = j"
proof (rule ccontr)
  have "\<not> in_area a (ls ! l)" if "k < l" "l < length ls" "in_area a (ls ! k)" for k l
    using areas_order [OF assms(1) that(1,2)] that(3) by (auto simp: in_area_def)
  moreover assume "i \<noteq> j"
  ultimately show False using assms(2-5) by (meson linorder_neqE_nat)
qed

lemma map_hit_one:
  assumes "areas_ok ls" "i < length ls" "in_area (lx_addr r) (ls ! i)"
  shows "map (hit_line r) ls = ls[i := hit_line r (ls ! i)]"
proof (rule nth_equalityI)
  fix j assume "j < length (map (hit_line r) ls)"
  then show "map (hit_line r) ls ! j = ls[i := hit_line r (ls ! i)] ! j"
    using in_area_unique [OF assms(1,2) _ assms(3), of j] by (cases "i = j") (auto simp: hit_line_def)
qed simp

definition hit_any :: "lat_line list \<Rightarrow> llrec \<Rightarrow> bool" where
  "hit_any ls r \<longleftrightarrow> (\<exists>l\<in>set ls. in_area (lx_addr r) l)"

lemma hit_any_hit [simp]: "hit_any (map (hit_line q) ls) = hit_any ls"
  by (simp add: hit_any_def fun_eq_iff)

lemma os_lat_buf_hit_lines:
  assumes "areas_ok ls" "\<forall>l\<in>set ls. la_naccess l + 1 < 2 ^ 31"
  shows "os_lat_buf_hit r (ls, tot, n) =
    Some (map (hit_line r) ls, tot + (if hit_any ls r then lx_latency r else 0), n + (if hit_any ls r then 1 else 0))"
proof (rule bsearch_mono [of ls "\<lambda>l. Some (bufaddr_cmp (lx_addr r) l)" "\<lambda>i. bufaddr_cmp (lx_addr r) (ls ! i)"])
  fix i assume b: "bsearch (\<lambda>l. Some (bufaddr_cmp (lx_addr r) l)) ls = Some (Some i)" "i < length ls"
    "bufaddr_cmp (lx_addr r) (ls ! i) = 0"
  then have a: "in_area (lx_addr r) (ls ! i)" by (simp add: bufaddr_cmp_zero)
  then have h: "hit_any ls r" using b(2) by (auto simp: hit_any_def)
  have n: "inc_int (la_naccess (ls ! i)) = Some (la_naccess (ls ! i) + 1)" using assms(2) b(2) by (simp add: inc_int_def)
  show ?thesis using map_hit_one [OF assms(1) b(2) a] a b(1) h n
    by (simp add: os_lat_buf_hit_def hit_line_def Let_def)
next
  assume b: "bsearch (\<lambda>l. Some (bufaddr_cmp (lx_addr r) l)) ls = Some None"
    "\<forall>i<length ls. bufaddr_cmp (lx_addr r) (ls ! i) \<noteq> 0"
  then have "\<not> in_area (lx_addr r) l" if "l \<in> set ls" for l using that by (metis bufaddr_cmp_zero in_set_conv_nth)
  then have "map (hit_line r) ls = ls" "\<not> hit_any ls r" by (auto simp: hit_line_def hit_any_def intro: map_idI)
  then show ?thesis using b(1) by (simp add: os_lat_buf_hit_def)
qed (use bufaddr_cmp_mono [OF assms(1)] in auto)

section \<open>All records\<close>

lemma lat_buf_hits_lines:
  assumes "areas_ok ls" "\<forall>l\<in>set ls. la_naccess l + int (length rs) < 2 ^ 31"
  shows "lat_buf_hits rs (ls, tot, n) =
    Some (map (fold hit_line rs) ls, tot + sum_list (map lx_latency (filter (hit_any ls) rs)),
          n + of_nat (length (filter (hit_any ls) rs)))"
  using assms
proof (induction rs arbitrary: ls tot n)
  case (Cons r rs)
  have b: "la_naccess l + 1 + int (length rs) < 2 ^ 31" if "l \<in> set ls" for l
    using bspec [OF Cons.prems(2) that] by simp
  have h: "la_naccess (hit_line r l) \<le> la_naccess l + 1" for l by (simp add: hit_line_def)
  have le: "\<forall>l\<in>set (map (hit_line r) ls). la_naccess l + int (length rs) < 2 ^ 31"
  proof
    fix l assume "l \<in> set (map (hit_line r) ls)"
    then obtain k where k: "k \<in> set ls" "l = hit_line r k" by auto
    show "la_naccess l + int (length rs) < 2 ^ 31" unfolding k(2) using b [OF k(1)] h [of k] by linarith
  qed
  have one: "\<forall>l\<in>set ls. la_naccess l + 1 < 2 ^ 31"
  proof
    fix l assume "l \<in> set ls"
    from b [OF this] show "la_naccess l + 1 < 2 ^ 31" by linarith
  qed
  have step: "os_lat_buf_hit r (ls, tot, n) = Some (map (hit_line r) ls,
      tot + (if hit_any ls r then lx_latency r else 0), n + (if hit_any ls r then 1 else 0))"
    using Cons.prems(1) one by (rule os_lat_buf_hit_lines)
  have "areas_ok (map (hit_line r) ls)" using Cons.prems(1) by simp
  note ih = Cons.IH [OF this le]
  show ?case unfolding lat_buf_hits.simps step bind.bind_lunit ih
    by (cases "hit_any ls r") (simp_all add: add.assoc)
qed simp

lemma take_bit_sum: "take_bit 32 (take_bit 64 a + take_bit 64 b) = take_bit 32 (a + b :: int)"
proof -
  have "take_bit 32 (take_bit 64 a + take_bit 64 b) = take_bit 32 (take_bit 32 (take_bit 64 a) + take_bit 32 (take_bit 64 b))"
    by (simp only: take_bit_add)
  then show ?thesis by (simp add: take_bit_add)
qed

lemma int_of_u64_add: "int_of_u64 (word_of_int (int_of_u64 s) + x) = int_of_u64 (s + x)"
proof -
  have add: "(ucast (a + b) :: 32 word) = ucast a + ucast b" for a b :: u64
    by transfer (simp add: take_bit_sum)
  have "(ucast (word_of_int (sint v) :: u64) :: 32 word) = v" for v :: "32 word"
    by (rule bit_word_eqI) (simp add: bit_simps)
  then show ?thesis by (simp add: int_of_u64_def add)
qed

text \<open>The line of an area after all records: how many of them hit it, and their latencies as an int.\<close>

definition hits :: "lat_line \<Rightarrow> llrec list \<Rightarrow> llrec list" where
  "hits l rs = filter (\<lambda>r. in_area (lx_addr r) l) rs"

lemma fold_hit_line:
  assumes "la_latency l = int_of_u64 s"
  shows "fold hit_line rs l = l\<lparr>la_naccess := la_naccess l + int (length (hits l rs)),
    la_latency := int_of_u64 (s + sum_list (map lx_latency (hits l rs)))\<rparr>"
  using assms
proof (induction rs arbitrary: l s)
  case (Cons r rs)
  show ?case
  proof (cases "in_area (lx_addr r) l")
    case True
    let ?l = "hit_line r l"
    have lat: "la_latency ?l = int_of_u64 (s + lx_latency r)"
      using True Cons.prems by (simp add: hit_line_def int_of_u64_add)
    have "hits ?l rs = hits l rs" by (simp add: hits_def)
    then show ?thesis using Cons.IH [OF lat] True
      by (simp add: hits_def hit_line_def add.assoc)
  next
    case False
    then have "hit_line r l = l" by (simp add: hit_line_def)
    then show ?thesis using Cons.IH [OF Cons.prems] False by (simp add: hits_def)
  qed
qed (simp add: hits_def)

lemma sum_hits:
  assumes "areas_ok ls"
  shows "sum_list (map (\<lambda>l. length (hits l rs)) ls) = length (filter (hit_any ls) rs)"
proof (induction rs)
  case (Cons r rs)
  have "sum_list (map (\<lambda>l. if in_area (lx_addr r) l then 1 else (0::nat)) ls) = (if hit_any ls r then 1 else 0)"
    using assms
  proof (induction ls)
    case (Cons l ls)
    have ok: "areas_ok ls" using Cons.prems by (simp add: areas_ok_def)
    have "\<not> hit_any ls r" if "in_area (lx_addr r) l"
      using that Cons.prems by (fastforce simp: hit_any_def in_area_def areas_ok_def)
    then show ?case using Cons.IH [OF ok] by (auto simp: hit_any_def)
  qed (simp add: hit_any_def)
  moreover have "length (hits l (r # rs)) = (if in_area (lx_addr r) l then 1 else 0) + length (hits l rs)" for l
    by (simp add: hits_def)
  ultimately show ?case using Cons.IH by (simp add: sum_list_addf)
qed (simp add: hits_def)

section \<open>The window of a process\<close>

lemma darr_elems_ok: "darr_ok d \<Longrightarrow> darr_elems d = Some (darr_list d)"
  by (auto simp: darr_elems_def darr_list_def darr_ok_def split: option.splits)

lemma lat_line_of_area [simp]:
  "la_addr (lat_line_of p w e) = me_start_addr e" "la_size (lat_line_of p w e) = me_end_addr e - me_start_addr e"
  "la_naccess (lat_line_of p w e) = 0" "la_latency (lat_line_of p w e) = 0"
  by (simp_all add: lat_line_of_def lat_line_zero_def)

lemma areas_ok_maps: "maps_sorted es \<Longrightarrow> areas_ok (map (lat_line_of p w) es)"
  by (simp add: areas_ok_def maps_sorted_def sorted_wrt_map)

lemma win_lat_cmp_le: "win_lat_cmp a b \<le> 0 \<longleftrightarrow> - la_naccess a \<le> - la_naccess b"
  by (simp add: win_lat_cmp_def)

lemma int_of_u64_nat: "n < 2 ^ 31 \<Longrightarrow> int_of_u64 (of_nat n) = int n"
proof -
  assume n: "n < 2 ^ 31"
  have "(ucast (of_nat n :: u64) :: 32 word) = of_nat n" by transfer simp
  then have "int_of_u64 (of_nat n) = sint (of_nat n :: 32 word)" by (simp add: int_of_u64_def)
  also have "\<dots> = int n" using n by (simp add: sint_uint unsigned_of_nat signed_take_bit_int_eq_self take_bit_nat_eq_self)
  finally show ?thesis .
qed

text \<open>
  The line the window shows for a mapping: the records whose address lies in
  it, the sum of their latencies, and the number of samples in any mapping.
\<close>

definition hits_of :: "map_entry \<Rightarrow> llrec list \<Rightarrow> llrec list" where
  "hits_of e rs = filter (\<lambda>r. me_start_addr e \<le> lx_addr r \<and> lx_addr r < me_end_addr e) rs"

definition nsamples_of :: "map_entry list \<Rightarrow> llrec list \<Rightarrow> nat" where
  "nsamples_of es rs = length (filter (\<lambda>r. \<exists>e\<in>set es. me_start_addr e \<le> lx_addr r \<and> lx_addr r < me_end_addr e) rs)"

definition counted_line :: "int \<Rightarrow> int \<Rightarrow> map_entry list \<Rightarrow> llrec list \<Rightarrow> map_entry \<Rightarrow> lat_line" where
  "counted_line pid lwpid es rs e =
     (lat_line_of pid lwpid e)\<lparr>la_naccess := int (length (hits_of e rs)),
       la_latency := int_of_u64 (sum_list (map lx_latency (hits_of e rs))),
       la_nsamples := int (nsamples_of es rs)\<rparr>"

lemma hits_lat_line: "hits (lat_line_of p w e) rs = hits_of e rs"
  by (simp add: hits_def hits_of_def in_area_def)

lemma hit_any_maps: "length (filter (hit_any (map (lat_line_of p w) es)) rs) = nsamples_of es rs"
proof -
  have "hit_any (map (lat_line_of p w) es) = (\<lambda>r. \<exists>e\<in>set es. me_start_addr e \<le> lx_addr r \<and> lx_addr r < me_end_addr e)"
    by (rule ext) (simp add: hit_any_def in_area_def)
  then show ?thesis by (simp add: nsamples_of_def)
qed

lemma win_lat_buf_fill_counts:
  assumes "maps_sorted es" "darr_ok grp" "length (darr_list grp) < 2 ^ 31"
  obtains lat where "win_lat_buf_fill (map (lat_line_of pid lwpid) es) grp =
    Some (map (counted_line pid lwpid es (darr_list grp)) es, lat)"
proof -
  let ?rs = "darr_list grp" and ?ls = "map (lat_line_of pid lwpid) es"
  have n: "nsamples_of es ?rs < 2 ^ 31"
    unfolding nsamples_of_def by (rule order.strict_trans1 [OF length_filter_le assms(3)])
  have small: "\<forall>l\<in>set ?ls. la_naccess l + int (length ?rs) < 2 ^ 31"
    using assms(3) by simp
  have h: "lat_buf_hits ?rs (?ls, 0, 0) = Some (map (fold hit_line ?rs) ?ls,
      sum_list (map lx_latency (filter (hit_any ?ls) ?rs)), of_nat (nsamples_of es ?rs))"
    using lat_buf_hits_lines [OF areas_ok_maps [OF assms(1)] small, of 0 0] by (simp add: hit_any_maps)
  have "la_latency (lat_line_of pid lwpid e) = int_of_u64 0" for e by (simp add: int_of_u64_def)
  from fold_hit_line [OF this, of ?rs]
  have f: "(fold hit_line ?rs (lat_line_of pid lwpid e))\<lparr>la_nsamples := int (nsamples_of es ?rs)\<rparr> =
      counted_line pid lwpid es ?rs e" for e
    by (simp add: counted_line_def hits_lat_line)
  show thesis
    by (rule that) (simp add: win_lat_buf_fill_def darr_elems_ok [OF assms(2)] h int_of_u64_nat [OF n] f)
qed

lemma sum_counted:
  assumes "maps_sorted es"
  shows "sum_list (map (\<lambda>e. int (length (hits_of e rs))) es) = int (nsamples_of es rs)"
proof -
  have "sum_list (map (\<lambda>e. length (hits_of e rs)) es) = nsamples_of es rs"
    using sum_hits [OF areas_ok_maps [OF assms], of rs 0 0]
    by (simp add: hit_any_maps comp_def hits_lat_line)
  moreover have "sum_list (map (\<lambda>e. int (f e)) es) = int (sum_list (map f es))" for f :: "map_entry \<Rightarrow> nat"
    by (induction es) simp_all
  ultimately show ?thesis by simp
qed

text \<open>
  C37: The latency window counts every sample once.  For a process whose
  mappings do not overlap, the window has one line per mapping, sorted by
  falling count; a line holds the number of latency records whose address lies
  in its mapping and the sum of their latencies, cut to an int, and the number
  of samples that all lines share is the sum of the counts, so that the
  percentages add up.  The binary search finds the line of every record.
\<close>

theorem lat_window_counts:
  assumes "darr_ok (mp_map mp)" "maps_sorted (darr_list (mp_map mp))" "mem (da_cur (mp_map mp))"
    and "darr_ok grp" "length (darr_list grp) < 2 ^ 31"
  obtains buf ls lat where "win_lat_buf_create mem pid mp lwpid = Some (Some buf)"
    and "lat_lines (Some buf) grp = Some (Some (ls, lat))"
    and "mset ls = image_mset (counted_line pid lwpid (darr_list (mp_map mp)) (darr_list grp)) (mset (darr_list (mp_map mp)))"
    and "sorted_wrt (\<lambda>a b. la_naccess b \<le> la_naccess a) ls"
    and "\<forall>l\<in>set ls. la_nsamples l = sum_list (map la_naccess ls)"
proof -
  let ?es = "darr_list (mp_map mp)" and ?rs = "darr_list grp"
  let ?buf = "map (lat_line_of pid lwpid) ?es" and ?ls = "map (counted_line pid lwpid ?es ?rs) ?es"
  obtain lat where fill: "win_lat_buf_fill ?buf grp = Some (?ls, lat)"
    using win_lat_buf_fill_counts [OF assms(2,4,5)] .
  let ?qs = "qsort win_lat_cmp ?ls"
  have m: "mset ?qs = mset ?ls" by (rule qs.perm)
  have srt: "sorted (map (\<lambda>l. - la_naccess l) ?qs)" by (rule qs.by_key) (rule win_lat_cmp_le)
  have "sum_list (map la_naccess ?qs) = sum_list (map la_naccess ?ls)"
    by (metis m mset_map sum_mset_sum_list)
  also have "\<dots> = int (nsamples_of ?es ?rs)"
    using sum_counted [OF assms(2), of ?rs] by (simp add: counted_line_def comp_def)
  finally have sum: "sum_list (map la_naccess ?qs) = int (nsamples_of ?es ?rs)" .
  show thesis
  proof (rule that)
    show "win_lat_buf_create mem pid mp lwpid = Some (Some ?buf)"
      using assms(1,3) by (simp add: win_lat_buf_create_def darr_elems_ok)
    show "lat_lines (Some ?buf) grp = Some (Some (?qs, lat))" by (simp add: lat_lines_def fill)
    show "mset ?qs = image_mset (counted_line pid lwpid ?es ?rs) (mset ?es)" using m by simp
    show "sorted_wrt (\<lambda>a b. la_naccess b \<le> la_naccess a) ?qs" using srt by (simp add: sorted_wrt_map)
    show "\<forall>l\<in>set ?qs. la_nsamples l = sum_list (map la_naccess ?qs)"
      unfolding sum qs.set_eq by (auto simp: counted_line_def)
  qed
qed

text \<open>Two mappings; one of the four records lies in neither.\<close>

definition lat_map_demo :: map_proc where
  "lat_map_demo = \<lparr>mp_map = \<lparr>da_arr = Some [map_entry_zero\<lparr>me_start_addr := 0x1000, me_end_addr := 0x3000\<rparr>,
     map_entry_zero\<lparr>me_start_addr := 0x3000, me_end_addr := 0x4000\<rparr>], da_cur = 2, da_max = 2\<rparr>, mp_loaded = True\<rparr>"

definition rec_demo :: "u64 \<Rightarrow> u64 \<Rightarrow> llrec" where
  "rec_demo addr lat = \<lparr>lx_addr = addr, lx_cpu = 0, lx_latency = lat, lx_callchain = callchain_zero\<rparr>"

definition grp_demo :: llrecgrp where
  "grp_demo = \<lparr>da_arr = Some [rec_demo 0x3FFF 200, rec_demo 0x1000 90, rec_demo 0x4000 70, rec_demo 0x3000 300],
     da_cur = 4, da_max = 4\<rparr>"

theorem lat_window_counts_witness:
  "\<exists>buf ls lat. win_lat_buf_create (\<lambda>_. True) 7 lat_map_demo 0 = Some (Some buf) \<and>
     lat_lines (Some buf) grp_demo = Some (Some (ls, lat)) \<and>
     mset (map (\<lambda>l. (la_addr l, la_naccess l, la_latency l)) ls) = {#(0x1000, 1, 90), (0x3000, 2, 500)#}"
proof -
  let ?es = "darr_list (mp_map lat_map_demo)" and ?rs = "darr_list grp_demo"
  have es: "?es = [map_entry_zero\<lparr>me_start_addr := 0x1000, me_end_addr := 0x3000\<rparr>,
      map_entry_zero\<lparr>me_start_addr := 0x3000, me_end_addr := 0x4000\<rparr>]"
    by (simp add: lat_map_demo_def darr_list_def)
  have rs: "?rs = [rec_demo 0x3FFF 200, rec_demo 0x1000 90, rec_demo 0x4000 70, rec_demo 0x3000 300]"
    by (simp add: grp_demo_def darr_list_def)
  have a: "darr_ok (mp_map lat_map_demo)" "darr_ok grp_demo" "length ?rs < 2 ^ 31"
    by (simp_all add: lat_map_demo_def grp_demo_def darr_ok_def darr_list_def)
  have b: "maps_sorted ?es" unfolding es by (simp add: maps_sorted_def map_entry_zero_def)
  obtain buf ls lat where w: "win_lat_buf_create (\<lambda>_. True) 7 lat_map_demo 0 = Some (Some buf)"
      "lat_lines (Some buf) grp_demo = Some (Some (ls, lat))"
      "mset ls = image_mset (counted_line 7 0 ?es ?rs) (mset ?es)"
    using lat_window_counts [OF a(1) b _ a(2,3), of "\<lambda>_. True" 7 0] by metis
  have "mset (map (\<lambda>l. (la_addr l, la_naccess l, la_latency l)) ls) =
      image_mset (\<lambda>l. (la_addr l, la_naccess l, la_latency l)) (image_mset (counted_line 7 0 ?es ?rs) (mset ?es))"
    by (simp add: w(3))
  also have "\<dots> = {#(0x1000, 1, 90), (0x3000, 2, 500)#}"
    unfolding es rs by (simp add: counted_line_def hits_of_def rec_demo_def map_entry_zero_def int_of_u64_def)
  finally show ?thesis using w(1,2) by blast
qed

end
