(* ===== verification/Win.thy ===== *)
theory Win
  imports Reg WinText WinLat Util ProcRef
begin

text \<open>
  What all windows share (common/win.c): the regions a window is made of, the
  title, the note and the warnings, and the state the window functions work on.

  The screen is given by its size (g_scr_width, g_scr_height) and by what subwin answers for a region at a
  line with a number of lines.  A window is created region by region from the
  top; when a region fails, what has been allocated is freed but the regions
  before it are not destroyed: they are the left value of the result.
\<close>

section \<open>The screen\<close>

definition A_BOLD :: nat where "A_BOLD = 2097152"
definition A_UNDERLINE :: nat where "A_UNDERLINE = 131072"

record scr =
  sc_width :: int
  sc_height :: int
  sc_subwin :: "int \<Rightarrow> int \<Rightarrow> bool"

text \<open>A region in zeroed memory.\<close>

definition reg_zero :: win_reg where
  "reg_zero = \<lparr>hdl = False, begin_x = 0, begin_y = 0, ncols_scr = 0, nlines_scr = 0, mode = 0, nlines_total = 0,
     line_get = (\<lambda>_. []), scroll = \<lparr>enabled = False, highlight = 0, page_start = 0\<rparr>, screen = []\<rparr>"

text \<open>
  reg_init over the full width: the line below the region and the region.  lay
  is a call whose result is tested, lay_any one whose result is ignored.
\<close>

definition lay_any :: "scr \<Rightarrow> int \<Rightarrow> int \<Rightarrow> nat \<Rightarrow> int \<times> win_reg" where
  "lay_any sc y nlines md = reg_init reg_zero 0 y (sc_width sc) nlines md (sc_subwin sc y nlines)"

definition lay :: "scr \<Rightarrow> int \<Rightarrow> int \<Rightarrow> nat \<Rightarrow> win_reg list \<Rightarrow> (int \<Rightarrow> win_reg \<Rightarrow> win_reg list + 'a) \<Rightarrow> win_reg list + 'a" where
  "lay sc y nlines md made k =
     (case lay_any sc y nlines md of (i, r) \<Rightarrow> if i < 0 then Inl made else k i r)"

definition scroll_reg :: "(int \<Rightarrow> string) \<Rightarrow> win_reg \<Rightarrow> win_reg" where
  "scroll_reg lg r = reg_scroll_init (reg_buf_init r lg) True"

text \<open>Erase a region, write a text in one of its lines, refresh it.\<close>

definition reg_text :: "win_reg \<Rightarrow> int \<Rightarrow> string \<Rightarrow> win_reg" where
  "reg_text r line s = reg_refresh_nout (reg_line_write (reg_erase r) line ALIGN_LEFT s)"

section \<open>State\<close>

text \<open>
  What the window functions are given: the screen, floating point, the
  surroundings of the processes, the key of the sorting (g_sortkey), the number
  of processors (g_ncpus), the number of offcore counters, whether cache
  monitoring is enabled, the interval as text (disp_intval), the bytes a line
  buffer holds before it is written, and which of the two allocations of a
  window succeed.
\<close>

record 'd win_env =
  we_scr :: scr
  we_floats :: "'d floats"
  we_proc :: proc_env
  we_ratio1000 :: "u64 \<Rightarrow> u64 \<Rightarrow> u64"
  we_sortkey :: sort_key
  we_ncpus :: int
  we_offcore :: int
  we_cmt_enabled :: bool
  we_intval :: string
  we_stack :: string
  we_buf_ok :: "int \<Rightarrow> bool"
  we_dyn_ok :: bool
  we_dst_ok :: bool
  we_rec_ok :: "bool \<times> bool"
  we_lwp_valid :: "int \<Rightarrow> int \<Rightarrow> bool"

text \<open>What is shown outside the regions of a window, in order.\<close>

datatype win_event =
    Ev_regs "win_reg list"
  | Ev_sleep nat
  | Ev_go_home
  | Ev_update_all

record win_st =
  ws_ps :: pstate
  ws_ng :: node_group
  ws_dump :: dump_ctl
  ws_title :: win_reg
  ws_note :: win_reg
  ws_first_load :: bool
  ws_log :: "win_event list"

definition win_log :: "win_event list \<Rightarrow> win_st \<Rightarrow> win_st" where
  "win_log es st = st\<lparr>ws_log := ws_log st @ es\<rparr>"

definition win_dump :: "string \<Rightarrow> win_st \<Rightarrow> win_st option" where
  "win_dump s st = do { d \<leftarrow> dump_write s (ws_dump st); Some (st\<lparr>ws_dump := d\<rparr>) }"

text \<open>The two forms of a line in the dump file.\<close>

definition dump_head :: "string \<Rightarrow> win_st \<Rightarrow> win_st option" where
  "dump_head s = win_dump ([CHR 0x0A] @ ''*** '' @ s @ [CHR 0x0A])"

definition dump_line :: "string \<Rightarrow> win_st \<Rightarrow> win_st option" where
  "dump_line s = win_dump (s @ [CHR 0x0A])"

section \<open>Title, note and warnings\<close>

definition NUMATOP_TITLE :: string where "NUMATOP_TITLE = ''NumaTOP v2.3, (C) 2022 Intel Corporation''"

definition NOTE_DEFAULT :: string where "NOTE_DEFAULT = ''Q: Quit; H: Home; B: Back; R: Refresh; N: Node''"
definition NOTE_TOPNPROC_RAW :: string where "NOTE_TOPNPROC_RAW = ''Q: Quit; H: Home; R: Refresh; I: IR Normalize; N: Node''"
definition NOTE_TOPNPROC :: string where "NOTE_TOPNPROC = NOTE_DEFAULT"
definition NOTE_TOPNLWP :: string where "NOTE_TOPNLWP = NOTE_DEFAULT"
definition NOTE_MONIPROC :: string where "NOTE_MONIPROC = ''Q: Quit; H: Home; B: Back; R: Refresh; N: Node; L: Latency; C: Call-Chain''"
definition NOTE_MONIPROC_LLC :: string where "NOTE_MONIPROC_LLC = ''Q;  H;  B;  R;  N: Node; L: Latency; C: Call-Chain; O: LLC OCCUPANCY''"
definition NOTE_MONILWP :: string where "NOTE_MONILWP = NOTE_MONIPROC"
definition NOTE_MONILWP_LLC :: string where "NOTE_MONILWP_LLC = NOTE_MONIPROC_LLC"
definition NOTE_NONODE :: string where "NOTE_NONODE = ''Q: Quit; H: Home; B: Back; R: Refresh''"
definition NOTE_PQOS_CMT_MONI :: string where "NOTE_PQOS_CMT_MONI = ''Q: Quit; H: Home; B: Back; R: Refresh; P: Memory Bandwidth''"
definition NOTE_INVALID_PID :: string where "NOTE_INVALID_PID = ''Invalid process id! (Q: Quit; H: Home)''"
definition NOTE_INVALID_LWPID :: string where "NOTE_INVALID_LWPID = ''Invalid lwp id! (Q: Quit; H: Home)''"
definition NOTE_INVALID_MAP :: string where "NOTE_INVALID_MAP = ''No memory mapping found! (Q: Quit; H: Home; B: Back)''"
definition NOTE_INVALID_NUMAMAP :: string where "NOTE_INVALID_NUMAMAP = ''No memory NUMA mapping found! (Q: Quit; H: Home; B: Back)''"

definition win_title_show :: "win_st \<Rightarrow> win_st" where
  "win_title_show st =
     st\<lparr>ws_title := reg_refresh_nout (reg_line_write (reg_erase (ws_title st)) 0 ALIGN_MIDDLE NUMATOP_TITLE)\<rparr>"

definition win_note_show :: "string option \<Rightarrow> win_st \<Rightarrow> win_st" where
  "win_note_show note st =
     (let content = (case note of Some s \<Rightarrow> s | None \<Rightarrow> NOTE_DEFAULT)
      in win_log [Ev_update_all]
           (st\<lparr>ws_note := reg_refresh (reg_line_write (reg_erase (ws_note st)) 0 ALIGN_LEFT content)\<rparr>))"

datatype warn_type =
    WARN_INVALID | WARN_PERF_DATA_FAIL | WARN_INVALID_PID | WARN_INVALID_LWPID | WARN_WAIT
  | WARN_WAIT_PERF_LL_RESULT | WARN_NOT_IMPL | WARN_GO_HOME | WARN_INVALID_NID | WARN_INVALID_MAP
  | WARN_INVALID_NUMAMAP | WARN_LL_NOT_SUPPORT | WARN_STOP

definition warn_text :: "warn_type \<Rightarrow> string" where
  "warn_text w =
     (case w of
        WARN_PERF_DATA_FAIL \<Rightarrow> ''Perf event counting is failed!''
      | WARN_INVALID_PID \<Rightarrow> ''Process exited, return to home window ...''
      | WARN_INVALID_LWPID \<Rightarrow> ''Thread exited, return to home window ...''
      | WARN_WAIT \<Rightarrow> ''Please wait ...''
      | WARN_WAIT_PERF_LL_RESULT \<Rightarrow> ''Retrieving latency data ...''
      | WARN_NOT_IMPL \<Rightarrow> ''Function is not implemented yet!''
      | WARN_INVALID_NID \<Rightarrow> ''Invalid node id, node might be offlined.''
      | WARN_INVALID_MAP \<Rightarrow> ''Cannot retrieve process address-space mapping.''
      | WARN_INVALID_NUMAMAP \<Rightarrow> ''Cannot retrieve process memory NUMA mapping.''
      | WARN_LL_NOT_SUPPORT \<Rightarrow> ''Sampling isn't working properly.''
      | WARN_STOP \<Rightarrow> ''Stopping ...''
      | _ \<Rightarrow> [])"

text \<open>
  win_warn_msg draws into two regions of its own and destroys them.  The second
  one is used even when reg_init has refused it and left it uninitialised: that
  is undefined.
\<close>

definition win_warn_msg :: "scr \<Rightarrow> warn_type \<Rightarrow> win_st \<Rightarrow> win_st option" where
  "win_warn_msg sc w st =
     (case lay_any sc 1 4 A_BOLD of (i, msg) \<Rightarrow>
        if i < 0 then Some st
        else (case lay_any sc i (sc_height sc - i - 2) 0 of (j, pd) \<Rightarrow>
          if j < 0 then None
          else
            let pad1 = reg_text pd 0 [];
                msg1 = reg_text msg 1 (warn_text w)
            in Some (win_log [Ev_regs [pad1, msg1], Ev_update_all, Ev_regs [reg_win_destroy msg1, reg_win_destroy pad1]] st)))"

definition GO_HOME_WAIT :: nat where "GO_HOME_WAIT = 3"

definition win_invalid_proc :: "scr \<Rightarrow> win_st \<Rightarrow> win_st option" where
  "win_invalid_proc sc st =
     do {
       st1 \<leftarrow> win_warn_msg sc WARN_INVALID_PID st;
       Some (win_log [Ev_sleep GO_HOME_WAIT, Ev_go_home] (win_note_show (Some NOTE_INVALID_PID) st1))
     }"

definition win_invalid_lwp :: "scr \<Rightarrow> win_st \<Rightarrow> win_st option" where
  "win_invalid_lwp sc st =
     do {
       st1 \<leftarrow> win_warn_msg sc WARN_INVALID_LWPID st;
       Some (win_log [Ev_sleep GO_HOME_WAIT, Ev_go_home] (win_note_show (Some NOTE_INVALID_LWPID) st1))
     }"

text \<open>The region of load_msg_show is uninitialised when reg_init refuses it.\<close>

definition load_msg_show :: "scr \<Rightarrow> win_st \<Rightarrow> win_st option" where
  "load_msg_show sc st =
     (case lay_any sc 1 (sc_height sc - 1) A_BOLD of (i, r) \<Rightarrow>
        if i < 0 then None
        else let r1 = reg_refresh (reg_line_write (reg_erase r) 1 ALIGN_LEFT ''Loading ...'')
             in Some (win_log [Ev_regs [r1], Ev_regs [reg_win_destroy r1]] st))"

text \<open>The title and the note are made once; they are static, so that a failure leaves them as they were.\<close>

definition win_fix_init :: "scr \<Rightarrow> win_st \<Rightarrow> win_st" where
  "win_fix_init sc st =
     (let note = snd (reg_init (ws_note st) 0 (sc_height sc - 1) (sc_width sc) 1 A_HIGHLIGHT
            (sc_subwin sc (sc_height sc - 1) 1));
          title = snd (reg_init (ws_title st) 0 0 (sc_width sc) 1 0 (sc_subwin sc 0 1))
      in win_log [Ev_update_all] (st\<lparr>ws_note := note, ws_title := title\<rparr>))"

definition win_fix_fini :: "win_st \<Rightarrow> win_st" where
  "win_fix_fini st = st\<lparr>ws_note := reg_win_destroy (ws_note st), ws_title := reg_win_destroy (ws_title st)\<rparr>"

end
