(* ===== verification/WinProc.thy ===== *)
theory WinProc
  imports Win
begin

text \<open>
  The windows on processes and threads (common/win.c): the table of processes,
  the nodes of one process or one thread, and the table of the threads of a
  process.  Each keeps a buffer of lines; a line outside the buffer is
  undefined.  A drawing function returns the window, the state and whether it
  was drawn; a note that has already been shown is reported by note_out.
\<close>

section \<open>Lines\<close>

definition value_zero :: "'d floats \<Rightarrow> 'd win_countvalue" where
  "value_zero F = (let z = f_ratio F 0 0 in \<lparr>cv_rpi = z, cv_lpi = z, cv_cpu = z, cv_cpi = z, cv_rma = z, cv_lma = z, cv_rl = z\<rparr>)"

text \<open>The name a line holds: the first bytes of the name of the process.\<close>

definition line_name :: "track_proc \<Rightarrow> string" where
  "line_name p = take (WIN_PROCNAME_SIZE - 1) (p_name p)"

text \<open>
  Filling a buffer from the sorted processes: until there are n lines or
  proc_sort_next has no more; and from the indices 0 to n - 1.
\<close>

fun sorted_lines ::
  "(track_proc \<Rightarrow> 'l option) \<Rightarrow> nat \<Rightarrow> int \<Rightarrow> pstate \<Rightarrow> 'l list \<Rightarrow> (pstate \<times> 'l list) option" where
  "sorted_lines save 0 i ps lines = Some (ps, lines)"
| "sorted_lines save (Suc n) i ps lines =
     do {
       (g, p) \<leftarrow> proc_sort_next (ps_group ps);
       let ps1 = ps\<lparr>ps_group := g\<rparr>;
       (case p of
          None \<Rightarrow> Some (ps1, lines)
        | Some a \<Rightarrow>
            do {
              pr \<leftarrow> ps_procs ps1 a;
              line \<leftarrow> save pr;
              lines1 \<leftarrow> arr_set lines i line;
              sorted_lines save n (i + 1) ps1 lines1
            })
     }"

fun indexed_lines :: "(int \<Rightarrow> 'l option) \<Rightarrow> nat \<Rightarrow> int \<Rightarrow> 'l list \<Rightarrow> 'l list option" where
  "indexed_lines save 0 i lines = Some lines"
| "indexed_lines save (Suc n) i lines =
     do { line \<leftarrow> save i; lines1 \<leftarrow> arr_set lines i line; indexed_lines save n (i + 1) lines1 }"

section \<open>The table of processes\<close>

record 'd dyn_topnproc =
  tp_summary :: win_reg
  tp_caption :: win_reg
  tp_data :: win_reg
  tp_hint :: win_reg
  tp_buf :: "'d topnproc_line list"

definition topnproc_line_zero :: "'d floats \<Rightarrow> 'd topnproc_line" where
  "topnproc_line_zero F = \<lparr>tl_value = value_zero F, tl_proc_name = [], tl_pid = 0, tl_nlwp = 0\<rparr>"

text \<open>The text of a line, by the type of the window.\<close>

definition topnproc_line_text :: "'d floats \<Rightarrow> 'd topnproc_line list \<Rightarrow> int \<Rightarrow> string" where
  "topnproc_line_text F lines idx = topnproc_data_build F WIN_LINECHAR_MAX (lines ! nat idx)"

definition rawnum_line_text :: "'d floats \<Rightarrow> 'd topnproc_line list \<Rightarrow> int \<Rightarrow> string" where
  "rawnum_line_text F lines idx = rawnum_data_build F WIN_LINECHAR_MAX (lines ! nat idx)"

definition topnproc_text :: "'d floats \<Rightarrow> win_type \<Rightarrow> 'd topnproc_line list \<Rightarrow> int \<Rightarrow> string" where
  "topnproc_text F ty lines idx =
     (if ty = WIN_TYPE_TOPNPROC then topnproc_line_text F lines idx else rawnum_line_text F lines idx)"

definition topnproc_dyn_create :: "'d win_env \<Rightarrow> win_type \<Rightarrow> win_reg list + 'd dyn_topnproc" where
  "topnproc_dyn_create env ty =
     (let sc = we_scr env; F = we_floats env; buf = replicate (nat WIN_NLINES_MAX) (topnproc_line_zero F)
      in if \<not> we_buf_ok env WIN_NLINES_MAX \<or> \<not> we_dyn_ok env then Inl []
         else
           lay sc 1 2 A_BOLD [] (\<lambda>i summary.
           lay sc i 2 (A_BOLD + A_UNDERLINE) [summary] (\<lambda>i caption.
           lay sc i (sc_height sc - i - 5) 0 [summary, caption] (\<lambda>i data.
           Inr \<lparr>tp_summary = summary, tp_caption = caption, tp_data = scroll_reg (topnproc_text F ty buf) data,
                tp_hint = snd (lay_any sc i (sc_height sc - i - 1) A_BOLD), tp_buf = buf\<rparr>))))"

definition topnproc_win_destroy :: "'d dyn_topnproc \<Rightarrow> win_reg list" where
  "topnproc_win_destroy dyn = map reg_win_destroy [tp_summary dyn, tp_caption dyn, tp_data dyn, tp_hint dyn]"

definition topnproc_data_save :: "'d win_env \<Rightarrow> node_group \<Rightarrow> track_proc \<Rightarrow> 'd topnproc_line option" where
  "topnproc_data_save env g p =
     do {
       v \<leftarrow> win_countvalue_fill (we_floats env) g (p_countval_arr p) NODE_ALL (proc_intval_get p) (we_ncpus env);
       Some \<lparr>tl_value = v, tl_proc_name = line_name p, tl_pid = p_pid p, tl_nlwp = proc_nlwp p\<rparr>
     }"

definition topnproc_data_show :: "'d win_env \<Rightarrow> win_type \<Rightarrow> 'd dyn_topnproc \<Rightarrow> win_st \<Rightarrow> ('d dyn_topnproc \<times> win_st) option" where
  "topnproc_data_show env ty dyn st =
     (let nprocs = min (fst (proc_lwp_count (ws_ps st))) WIN_NLINES_MAX;
          nlwps = snd (proc_lwp_count (ws_ps st));
          content = snprintf WIN_LINECHAR_MAX (''Monitoring '' @ show_int nprocs @ '' processes and '' @ show_int nlwps @
            '' threads (interval: '' @ we_intval env @ '')'');
          caption = (if ty = WIN_TYPE_TOPNPROC then topnproc_caption_build (we_sortkey env) WIN_LINECHAR_MAX
                     else rawnum_caption_build (we_sortkey env) WIN_LINECHAR_MAX)
      in do {
        st1 \<leftarrow> dump_head content st;
        st2 \<leftarrow> dump_line caption st1;
        ps1 \<leftarrow> proc_resort (we_proc env) (we_ratio1000 env) (ws_ng st2) (we_sortkey env) (ws_ps st2);
        (ps2, lines) \<leftarrow> sorted_lines (topnproc_data_save env (ws_ng st2)) (nat nprocs) 0 ps1 (tp_buf dyn);
        let data = reg_erase ((tp_data dyn)\<lparr>nlines_total := nprocs\<rparr>);
        let hint1 = reg_line_write (reg_erase (tp_hint dyn)) 1 ALIGN_LEFT
          (if ty = WIN_TYPE_TOPNPROC
           then ''<- Hotkey for sorting: 1(RPI), 2(LPI), 3(RMA/LMA), 4(CPI), 5(CPU%%) ->''
           else ''<- Hotkey for sorting: 1(RMA), 2(LMA), 3(RMA/LMA), 4(CPI), 5(CPU%%) ->'');
        let hint2 = reg_line_write hint1 2 ALIGN_LEFT ''CPU%% = system CPU utilization'';
        Some (\<lparr>tp_summary = reg_text (tp_summary dyn) 1 content, tp_caption = reg_text (tp_caption dyn) 1 caption,
               tp_data = reg_refresh_nout (reg_scroll_show data nprocs (topnproc_text (we_floats env) ty lines)),
               tp_hint = reg_refresh_nout hint2, tp_buf = lines\<rparr>,
              st2\<lparr>ws_ps := ps2\<rparr>)
      })"

definition topnproc_win_draw ::
  "'d win_env \<Rightarrow> win_type \<Rightarrow> 'd dyn_topnproc \<Rightarrow> win_st \<Rightarrow> ('d dyn_topnproc \<times> win_st \<times> bool) option" where
  "topnproc_win_draw env ty dyn st =
     (let st0 = win_title_show st
      in if ws_first_load st0 then
           do {
             st1 \<leftarrow> load_msg_show (we_scr env) (st0\<lparr>ws_first_load := False\<rparr>);
             Some (dyn, win_log [Ev_update_all] (win_note_show None st1), True)
           }
         else
           do {
             (dyn1, st1) \<leftarrow> topnproc_data_show env ty dyn st0;
             let note = (if ty = WIN_TYPE_TOPNPROC then NOTE_TOPNPROC else NOTE_TOPNPROC_RAW);
             Some (dyn1, win_log [Ev_update_all] (win_note_show (Some note) st1), True)
           })"

text \<open>The lines are read again when the window is scrolled.\<close>

definition topnproc_win_scroll :: "'d floats \<Rightarrow> win_type \<Rightarrow> reg_scroll_dir \<Rightarrow> 'd dyn_topnproc \<Rightarrow> 'd dyn_topnproc" where
  "topnproc_win_scroll F ty dir dyn =
     dyn\<lparr>tp_data := reg_line_scroll (reg_buf_init (tp_data dyn) (topnproc_text F ty (tp_buf dyn))) dir\<rparr>"

text \<open>
  The command a window executes when ENTER is hit on a line; its fields that are
  not set hold what was on the stack.  The outer None is undefined, the inner
  one that nothing is executed.
\<close>

definition topnproc_win_scrollenter :: "cmd \<Rightarrow> 'd dyn_topnproc \<Rightarrow> cmd option option" where
  "topnproc_win_scrollenter stack dyn =
     (let hl = highlight (scroll (tp_data dyn))
      in if hl = -1 then Some None
         else do {
           line \<leftarrow> arr_get (tp_buf dyn) hl;
           Some (Some (stack\<lparr>c_id := CMD_MONITOR_ID, c_pid := tl_pid line, c_lwpid := 0\<rparr>))
         })"

section \<open>The nodes of one process or thread\<close>

text \<open>dyn_moniproc_t and dyn_monilwp_t, which differ in the thread; a process has the thread 0.\<close>

record 'd dyn_moni =
  mo_pid :: int
  mo_lwpid :: int
  mo_msg :: win_reg
  mo_caption_cur :: win_reg
  mo_data_cur :: win_reg
  mo_hint :: win_reg
  mo_buf :: "'d moni_line list"

definition moni_line_zero :: "'d floats \<Rightarrow> 'd moni_line" where
  "moni_line_zero F = \<lparr>ml_value = value_zero F, ml_nid = 0, ml_pid = 0\<rparr>"

text \<open>moni_str_build writes nothing for an index without a node: the buffer keeps its bytes.\<close>

definition moni_text :: "'d win_env \<Rightarrow> node_group \<Rightarrow> 'd moni_line list \<Rightarrow> int \<Rightarrow> string" where
  "moni_text env g lines idx =
     (case node_valid_get g idx of
        None \<Rightarrow> we_stack env
      | Some k \<Rightarrow> moni_data_build (we_floats env) WIN_LINECHAR_MAX (lines ! nat idx) (ng_nodes g ! k))"

text \<open>The layout of both windows; the buffer has a line for every node there is at this moment.\<close>

definition moni_create :: "'d win_env \<Rightarrow> node_group \<Rightarrow> int \<Rightarrow> int \<Rightarrow> win_reg list + 'd dyn_moni" where
  "moni_create env g pid lwpid =
     (let sc = we_scr env; nnodes = node_num g;
          buf = replicate (nat nnodes) (moni_line_zero (we_floats env))
      in if \<not> we_buf_ok env nnodes \<or> \<not> we_dyn_ok env then Inl []
         else
           lay sc 1 2 A_BOLD [] (\<lambda>i msg.
           lay sc i 2 (A_BOLD + A_UNDERLINE) [msg] (\<lambda>i caption_cur.
           lay sc i nnodes 0 [msg, caption_cur] (\<lambda>i data_cur.
           Inr \<lparr>mo_pid = pid, mo_lwpid = lwpid, mo_msg = msg, mo_caption_cur = caption_cur,
                mo_data_cur = scroll_reg (moni_text env g buf) data_cur,
                mo_hint = snd (lay_any sc i (sc_height sc - i - 1) A_BOLD), mo_buf = buf\<rparr>))))"

definition moniproc_dyn_create :: "'d win_env \<Rightarrow> node_group \<Rightarrow> int \<Rightarrow> win_reg list + 'd dyn_moni" where
  "moniproc_dyn_create env g pid = moni_create env g pid 0"

definition monilwp_dyn_create :: "'d win_env \<Rightarrow> node_group \<Rightarrow> int \<Rightarrow> int \<Rightarrow> win_reg list + 'd dyn_moni" where
  "monilwp_dyn_create env g pid lwpid = moni_create env g pid lwpid"

definition moni_dyn_create :: "'d win_env \<Rightarrow> node_group \<Rightarrow> cmd \<Rightarrow> win_reg list + (win_type \<times> 'd dyn_moni)" where
  "moni_dyn_create env g c =
     (if c_lwpid c = 0 then map_sum id (Pair WIN_TYPE_MONIPROC) (moniproc_dyn_create env g (c_pid c))
      else map_sum id (Pair WIN_TYPE_MONILWP) (monilwp_dyn_create env g (c_pid c) (c_lwpid c)))"

definition moniproc_win_destroy :: "'d dyn_moni \<Rightarrow> win_reg list" where
  "moniproc_win_destroy dyn = map reg_win_destroy [mo_msg dyn, mo_caption_cur dyn, mo_data_cur dyn, mo_hint dyn]"

definition monilwp_win_destroy :: "'d dyn_moni \<Rightarrow> win_reg list" where
  "monilwp_win_destroy dyn = map reg_win_destroy [mo_msg dyn, mo_caption_cur dyn, mo_data_cur dyn, mo_hint dyn]"

definition moniproc_data_save :: "'d win_env \<Rightarrow> node_group \<Rightarrow> track_proc \<Rightarrow> int \<Rightarrow> 'd moni_line option" where
  "moniproc_data_save env g p nid_idx =
     (case node_valid_get g nid_idx of
        None \<Rightarrow> Some (moni_line_zero (we_floats env))
      | Some k \<Rightarrow>
          let n = ng_nodes g ! k
          in do {
               v \<leftarrow> win_countvalue_fill (we_floats env) g (p_countval_arr p) (n_nid n) (proc_intval_get p) (node_ncpus n);
               Some \<lparr>ml_value = v, ml_nid = n_nid n, ml_pid = p_pid p\<rparr>
             })"

definition monilwp_data_save :: "'d win_env \<Rightarrow> node_group \<Rightarrow> track_lwp \<Rightarrow> int \<Rightarrow> 'd moni_line option" where
  "monilwp_data_save env g l nid_idx =
     (case node_valid_get g nid_idx of
        None \<Rightarrow> Some (moni_line_zero (we_floats env))
      | Some k \<Rightarrow>
          let n = ng_nodes g ! k
          in do {
               v \<leftarrow> win_countvalue_fill (we_floats env) g (l_countval_arr l) (n_nid n) (lwp_intval_get l) 1;
               Some \<lparr>ml_value = v, ml_nid = n_nid n, ml_pid = 0\<rparr>
             })"

text \<open>
  The part the two windows share: message, caption, the lines of the nodes there
  are now, and the hint.
\<close>

definition moni_show ::
  "'d win_env \<Rightarrow> string \<Rightarrow> string \<Rightarrow> (int \<Rightarrow> 'd moni_line option) \<Rightarrow> 'd dyn_moni \<Rightarrow> win_st \<Rightarrow> ('d dyn_moni \<times> win_st) option" where
  "moni_show env msg hint save dyn st =
     (let content = snprintf WIN_LINECHAR_MAX msg;
          caption = moni_caption_build WIN_LINECHAR_MAX;
          nnodes = node_num (ws_ng st)
      in do {
        st1 \<leftarrow> dump_head content st;
        st2 \<leftarrow> dump_line caption st1;
        lines \<leftarrow> indexed_lines save (nat nnodes) 0 (mo_buf dyn);
        let data = reg_erase ((mo_data_cur dyn)\<lparr>nlines_total := nnodes\<rparr>);
        Some (dyn\<lparr>mo_msg := reg_text (mo_msg dyn) 1 content, mo_caption_cur := reg_text (mo_caption_cur dyn) 1 caption,
                mo_data_cur := reg_refresh_nout (reg_scroll_show data nnodes (moni_text env (ws_ng st) lines)),
                mo_hint := reg_text (mo_hint dyn) (nlines_scr (mo_hint dyn) - 2) hint, mo_buf := lines\<rparr>, st2)
      })"

definition moniproc_data_show ::
  "'d win_env \<Rightarrow> 'd dyn_moni \<Rightarrow> win_st \<Rightarrow> ('d dyn_moni \<times> win_st \<times> bool \<times> bool) option" where
  "moniproc_data_show env dyn st =
     do {
       (ps1, pa) \<leftarrow> proc_find (mo_pid dyn) (ws_ps st);
       let st1 = st\<lparr>ws_ps := ps1\<rparr>;
       (case pa of
          None \<Rightarrow> do { st2 \<leftarrow> win_invalid_proc (we_scr env) st1; Some (dyn, st2, True, False) }
        | Some a \<Rightarrow>
            do {
              p \<leftarrow> ps_procs ps1 a;
              (dyn2, st2) \<leftarrow> moni_show env
                 (''Monitoring the process '' @ [CHR 0x22] @ p_name p @ [CHR 0x22] @ '' ('' @ show_int (p_pid p) @
                  '') (interval: '' @ we_intval env @ '')'')
                 ''CPU%% = per-node CPU utilization'' (moniproc_data_save env (ws_ng st1) p) dyn st1;
              ps3 \<leftarrow> proc_refcount_dec a (ws_ps st2);
              Some (dyn2, st2\<lparr>ws_ps := ps3\<rparr>, False, True)
            })
     }"

definition monilwp_data_show ::
  "'d win_env \<Rightarrow> 'd dyn_moni \<Rightarrow> win_st \<Rightarrow> ('d dyn_moni \<times> win_st \<times> bool \<times> bool) option" where
  "monilwp_data_show env dyn st =
     do {
       (ps1, pa) \<leftarrow> proc_find (mo_pid dyn) (ws_ps st);
       let st1 = st\<lparr>ws_ps := ps1\<rparr>;
       (case pa of
          None \<Rightarrow> do { st2 \<leftarrow> win_invalid_proc (we_scr env) st1; Some (dyn, st2, True, False) }
        | Some a \<Rightarrow>
            do {
              p \<leftarrow> ps_procs ps1 a;
              (h, la) \<leftarrow> proc_lwp_find (p_lwp_list p) (mo_lwpid dyn) (ps_lwps ps1);
              let ps2 = ps1\<lparr>ps_lwps := h\<rparr>;
              (case la of
                 None \<Rightarrow>
                   do {
                     ps3 \<leftarrow> proc_refcount_dec a ps2;
                     st2 \<leftarrow> win_invalid_lwp (we_scr env) (st1\<lparr>ws_ps := ps3\<rparr>);
                     Some (dyn, st2, True, False)
                   }
               | Some w \<Rightarrow>
                   do {
                     l \<leftarrow> h w;
                     (dyn2, st2) \<leftarrow> moni_show env
                        (''Monitoring the thread '' @ show_int (mo_lwpid dyn) @ '' in '' @ [CHR 0x22] @ p_name p @ [CHR 0x22] @
                         '' (interval: '' @ we_intval env @ '')'')
                        ''CPU%% = per-CPU CPU utilization'' (monilwp_data_save env (ws_ng st1) l) dyn (st1\<lparr>ws_ps := ps2\<rparr>);
                     h3 \<leftarrow> lwp_refcount_dec w (ps_lwps (ws_ps st2));
                     ps3 \<leftarrow> proc_refcount_dec a ((ws_ps st2)\<lparr>ps_lwps := h3\<rparr>);
                     Some (dyn2, st2\<lparr>ws_ps := ps3\<rparr>, False, True)
                   })
            })
     }"

text \<open>The end of every drawing function: a note unless one was shown, and the update of the screen.\<close>

definition draw_end :: "string \<Rightarrow> ('w \<times> win_st \<times> bool \<times> bool) option \<Rightarrow> ('w \<times> win_st \<times> bool) option" where
  "draw_end note r =
     do {
       (dyn, st, note_out, ret) \<leftarrow> r;
       Some (dyn, win_log [Ev_update_all] (if \<not> note_out then win_note_show (Some note) st else st), ret)
     }"

definition moniproc_win_draw :: "'d win_env \<Rightarrow> 'd dyn_moni \<Rightarrow> win_st \<Rightarrow> ('d dyn_moni \<times> win_st \<times> bool) option" where
  "moniproc_win_draw env dyn st =
     draw_end (if we_cmt_enabled env then NOTE_MONIPROC_LLC else NOTE_MONIPROC)
       (moniproc_data_show env dyn (win_title_show st))"

definition monilwp_win_draw :: "'d win_env \<Rightarrow> 'd dyn_moni \<Rightarrow> win_st \<Rightarrow> ('d dyn_moni \<times> win_st \<times> bool) option" where
  "monilwp_win_draw env dyn st =
     draw_end (if we_cmt_enabled env then NOTE_MONILWP_LLC else NOTE_MONILWP)
       (monilwp_data_show env dyn (win_title_show st))"

definition moniproc_win_scroll :: "'d win_env \<Rightarrow> node_group \<Rightarrow> reg_scroll_dir \<Rightarrow> 'd dyn_moni \<Rightarrow> 'd dyn_moni" where
  "moniproc_win_scroll env g dir dyn =
     dyn\<lparr>mo_data_cur := reg_line_scroll (reg_buf_init (mo_data_cur dyn) (moni_text env g (mo_buf dyn))) dir\<rparr>"

definition monilwp_win_scroll :: "'d win_env \<Rightarrow> node_group \<Rightarrow> reg_scroll_dir \<Rightarrow> 'd dyn_moni \<Rightarrow> 'd dyn_moni" where
  "monilwp_win_scroll env g dir dyn =
     dyn\<lparr>mo_data_cur := reg_line_scroll (reg_buf_init (mo_data_cur dyn) (moni_text env g (mo_buf dyn))) dir\<rparr>"

definition moniproc_win_scrollenter :: "cmd \<Rightarrow> 'd dyn_moni \<Rightarrow> cmd option option" where
  "moniproc_win_scrollenter stack dyn =
     (let hl = highlight (scroll (mo_data_cur dyn))
      in if hl = -1 then Some None
         else do {
           line \<leftarrow> arr_get (mo_buf dyn) hl;
           Some (Some (stack\<lparr>c_id := CMD_LWP_ID, c_pid := ml_pid line\<rparr>))
         })"

section \<open>The threads of a process\<close>

record 'd dyn_topnlwp =
  tw_pid :: int
  tw_msg :: win_reg
  tw_caption :: win_reg
  tw_data :: win_reg
  tw_hint :: win_reg
  tw_buf :: "'d topnlwp_line list"

definition topnlwp_line_zero :: "'d floats \<Rightarrow> 'd topnlwp_line" where
  "topnlwp_line_zero F = \<lparr>wl_value = value_zero F, wl_pid = 0, wl_lwpid = 0\<rparr>"

definition topnlwp_text :: "'d floats \<Rightarrow> 'd topnlwp_line list \<Rightarrow> int \<Rightarrow> string" where
  "topnlwp_text F lines idx = topnlwp_data_build F WIN_LINECHAR_MAX (lines ! nat idx)"

definition topnlwp_dyn_create :: "'d win_env \<Rightarrow> cmd \<Rightarrow> win_reg list + 'd dyn_topnlwp" where
  "topnlwp_dyn_create env c =
     (let sc = we_scr env; F = we_floats env; buf = replicate (nat WIN_NLINES_MAX) (topnlwp_line_zero F)
      in if \<not> we_buf_ok env WIN_NLINES_MAX \<or> \<not> we_dyn_ok env then Inl []
         else
           lay sc 1 2 A_BOLD [] (\<lambda>i msg.
           lay sc i 2 (A_BOLD + A_UNDERLINE) [msg] (\<lambda>i caption.
           lay sc i (sc_height sc - i - 4) 0 [msg, caption] (\<lambda>i data.
           Inr \<lparr>tw_pid = c_pid c, tw_msg = msg, tw_caption = caption, tw_data = scroll_reg (topnlwp_text F buf) data,
                tw_hint = snd (lay_any sc i (sc_height sc - i - 1) A_BOLD), tw_buf = buf\<rparr>))))"

definition topnlwp_win_destroy :: "'d dyn_topnlwp \<Rightarrow> win_reg list" where
  "topnlwp_win_destroy dyn = map reg_win_destroy [tw_msg dyn, tw_caption dyn, tw_data dyn, tw_hint dyn]"

definition topnlwp_data_save :: "'d win_env \<Rightarrow> node_group \<Rightarrow> pstate \<Rightarrow> track_lwp \<Rightarrow> 'd topnlwp_line option" where
  "topnlwp_data_save env g ps l =
     do {
       a \<leftarrow> l_proc l;
       p \<leftarrow> ps_procs ps a;
       v \<leftarrow> win_countvalue_fill (we_floats env) g (l_countval_arr l) NODE_ALL (lwp_intval_get l) 1;
       Some \<lparr>wl_value = v, wl_pid = p_pid p, wl_lwpid = l_id l\<rparr>
     }"

text \<open>The lines from the sorted threads of the process at address a.\<close>

fun lwp_lines ::
  "(pstate \<Rightarrow> track_lwp \<Rightarrow> 'l option) \<Rightarrow> addr \<Rightarrow> nat \<Rightarrow> int \<Rightarrow> pstate \<Rightarrow> 'l list \<Rightarrow> (pstate \<times> 'l list) option" where
  "lwp_lines save a 0 i ps lines = Some (ps, lines)"
| "lwp_lines save a (Suc n) i ps lines =
     do {
       p \<leftarrow> ps_procs ps a;
       (ll, q) \<leftarrow> lwp_sort_next (p_lwp_list p);
       let ps1 = ps\<lparr>ps_procs := (ps_procs ps)(a \<mapsto> p\<lparr>p_lwp_list := ll\<rparr>)\<rparr>;
       (case q of
          None \<Rightarrow> Some (ps1, lines)
        | Some w \<Rightarrow>
            do {
              l \<leftarrow> ps_lwps ps1 w;
              line \<leftarrow> save ps1 l;
              lines1 \<leftarrow> arr_set lines i line;
              lwp_lines save a n (i + 1) ps1 lines1
            })
     }"

definition topnlwp_data_show ::
  "'d win_env \<Rightarrow> 'd dyn_topnlwp \<Rightarrow> win_st \<Rightarrow> ('d dyn_topnlwp \<times> win_st \<times> bool \<times> bool) option" where
  "topnlwp_data_show env dyn st =
     do {
       (ps1, pa) \<leftarrow> (if tw_pid dyn = -1 then Some (ws_ps st, None) else proc_find (tw_pid dyn) (ws_ps st));
       let st1 = st\<lparr>ws_ps := ps1\<rparr>;
       (case pa of
          None \<Rightarrow> do { st2 \<leftarrow> win_invalid_proc (we_scr env) st1; Some (dyn, st2, True, False) }
        | Some a \<Rightarrow>
            do {
              p \<leftarrow> ps_procs ps1 a;
              let nlwps = min (proc_nlwp p) WIN_NLINES_MAX;
              let content = snprintf WIN_LINECHAR_MAX (''Monitoring all threads in '' @ [CHR 0x22] @ p_name p @ [CHR 0x22] @
                '' ('' @ show_int (p_pid p) @ '') (interval: '' @ we_intval env @ '')'');
              let caption = topnlwp_caption_build WIN_LINECHAR_MAX;
              st2 \<leftarrow> dump_head content st1;
              st3 \<leftarrow> dump_line caption st2;
              ps2 \<leftarrow> proc_lwp_resort (we_proc env) (ws_ng st3) SORT_KEY_CPU a ps1;
              (ps3, lines) \<leftarrow> lwp_lines (topnlwp_data_save env (ws_ng st3)) a (nat nlwps) 0 ps2 (tw_buf dyn);
              let data = (reg_erase (tw_data dyn))\<lparr>nlines_total := nlwps\<rparr>;
              ps4 \<leftarrow> proc_refcount_dec a ps3;
              Some (dyn\<lparr>tw_msg := reg_text (tw_msg dyn) 1 content, tw_caption := reg_text (tw_caption dyn) 1 caption,
                      tw_data := reg_refresh_nout (reg_scroll_show data nlwps (topnlwp_text (we_floats env) lines)),
                      tw_hint := reg_text (tw_hint dyn) (nlines_scr (tw_hint dyn) - 2) ''CPU%% = per-CPU CPU utilization'',
                      tw_buf := lines\<rparr>, st3\<lparr>ws_ps := ps4\<rparr>, False, True)
            })
     }"

definition topnlwp_win_draw :: "'d win_env \<Rightarrow> 'd dyn_topnlwp \<Rightarrow> win_st \<Rightarrow> ('d dyn_topnlwp \<times> win_st \<times> bool) option" where
  "topnlwp_win_draw env dyn st = draw_end NOTE_TOPNLWP (topnlwp_data_show env dyn (win_title_show st))"

definition topnlwp_win_scroll :: "'d floats \<Rightarrow> reg_scroll_dir \<Rightarrow> 'd dyn_topnlwp \<Rightarrow> 'd dyn_topnlwp" where
  "topnlwp_win_scroll F dir dyn =
     dyn\<lparr>tw_data := reg_line_scroll (reg_buf_init (tw_data dyn) (topnlwp_text F (tw_buf dyn))) dir\<rparr>"

definition topnlwp_win_scrollenter :: "cmd \<Rightarrow> 'd dyn_topnlwp \<Rightarrow> cmd option option" where
  "topnlwp_win_scrollenter stack dyn =
     (let hl = highlight (scroll (tw_data dyn))
      in if hl = -1 then Some None
         else do {
           line \<leftarrow> arr_get (tw_buf dyn) hl;
           Some (Some (stack\<lparr>c_id := CMD_MONITOR_ID, c_pid := wl_pid line, c_lwpid := wl_lwpid line\<rparr>))
         })"

end
