(* ===== verification/WinNode.thy ===== *)
theory WinNode
  imports WinProc
begin

text \<open>
  The windows on nodes (common/win.c, common/os/os_win.c): the table of the
  nodes and the details of one node.  Both are drawn with the mutex of the node
  group held.
\<close>

section \<open>The table of nodes\<close>

record 'd dyn_nodeoverview =
  no_msg :: win_reg
  no_caption_cur :: win_reg
  no_data_cur :: win_reg
  no_hint :: win_reg
  no_buf :: "'d nodeoverview_line list"

definition GB_BYTES :: u64 where "GB_BYTES = 1024 * 1024 * 1024"

definition nodeoverview_line_zero :: "'d floats \<Rightarrow> 'd nodeoverview_line" where
  "nodeoverview_line_zero F =
     \<lparr>nl_value = value_zero F, nl_mem_all = f_ratio F 0 0, nl_mem_free = f_ratio F 0 0, nl_nid = 0\<rparr>"

definition nodeoverview_text :: "'d win_env \<Rightarrow> node_group \<Rightarrow> 'd nodeoverview_line list \<Rightarrow> int \<Rightarrow> string" where
  "nodeoverview_text env g lines idx =
     (case node_valid_get g idx of
        None \<Rightarrow> we_stack env
      | Some k \<Rightarrow> os_nodeoverview_data_build (we_floats env) (we_offcore env) WIN_LINECHAR_MAX
                    (lines ! nat idx) (ng_nodes g ! k))"

definition nodeoverview_dyn_create :: "'d win_env \<Rightarrow> node_group \<Rightarrow> win_reg list + 'd dyn_nodeoverview" where
  "nodeoverview_dyn_create env g =
     (let sc = we_scr env; nnodes = node_num g;
          buf = replicate (nat nnodes) (nodeoverview_line_zero (we_floats env))
      in if \<not> we_buf_ok env nnodes \<or> \<not> we_dyn_ok env then Inl []
         else
           lay sc 1 2 A_BOLD [] (\<lambda>i msg.
           lay sc i 2 (A_BOLD + A_UNDERLINE) [msg] (\<lambda>i caption_cur.
           lay sc i nnodes 0 [msg, caption_cur] (\<lambda>i data_cur.
           Inr \<lparr>no_msg = msg, no_caption_cur = caption_cur,
                no_data_cur = scroll_reg (nodeoverview_text env g buf) data_cur,
                no_hint = snd (lay_any sc i (sc_height sc - i - 1) A_BOLD), no_buf = buf\<rparr>))))"

definition nodeoverview_win_destroy :: "'d dyn_nodeoverview \<Rightarrow> win_reg list" where
  "nodeoverview_win_destroy dyn = map reg_win_destroy [no_msg dyn, no_caption_cur dyn, no_data_cur dyn, no_hint dyn]"

definition nodeoverview_data_save :: "'d win_env \<Rightarrow> node_group \<Rightarrow> int \<Rightarrow> 'd nodeoverview_line option" where
  "nodeoverview_data_save env g nid_idx =
     (case node_valid_get g nid_idx of
        None \<Rightarrow> Some (nodeoverview_line_zero (we_floats env))
      | Some k \<Rightarrow>
          let n = ng_nodes g ! k; F = we_floats env
          in do {
               meminfo \<leftarrow> node_meminfo_get g (n_nid n) meminfo_zero;
               Some \<lparr>nl_value = win_node_countvalue F g n, nl_mem_all = f_ratio F (mi_mem_total meminfo) GB_BYTES,
                     nl_mem_free = f_ratio F (mi_mem_free meminfo) GB_BYTES, nl_nid = n_nid n\<rparr>
             })"

definition nodeoverview_data_show ::
  "'d win_env \<Rightarrow> 'd dyn_nodeoverview \<Rightarrow> win_st \<Rightarrow> ('d dyn_nodeoverview \<times> win_st \<times> bool \<times> bool) option" where
  "nodeoverview_data_show env dyn st =
     (let content = snprintf WIN_LINECHAR_MAX (''Node Overview (interval: '' @ we_intval env @ '')'');
          caption = os_nodeoverview_caption_build WIN_LINECHAR_MAX;
          g = ws_ng st; nnodes = node_num g
      in do {
        st1 \<leftarrow> dump_head content st;
        st2 \<leftarrow> dump_line caption st1;
        lines \<leftarrow> indexed_lines (nodeoverview_data_save env g) (nat nnodes) 0 (no_buf dyn);
        let data = (reg_erase (no_data_cur dyn))\<lparr>nlines_total := nnodes\<rparr>;
        Some (\<lparr>no_msg = reg_text (no_msg dyn) 1 content, no_caption_cur = reg_text (no_caption_cur dyn) 1 caption,
               no_data_cur = reg_refresh_nout (reg_scroll_show data nnodes (nodeoverview_text env g lines)),
               no_hint = reg_text (no_hint dyn) (nlines_scr (no_hint dyn) - 2) ''CPU%% = per-node CPU utilization'',
               no_buf = lines\<rparr>, st2, False, True)
      })"

definition nodeoverview_win_draw ::
  "'d win_env \<Rightarrow> 'd dyn_nodeoverview \<Rightarrow> win_st \<Rightarrow> ('d dyn_nodeoverview \<times> win_st \<times> bool) option" where
  "nodeoverview_win_draw env dyn st = draw_end NOTE_NONODE (nodeoverview_data_show env dyn (win_title_show st))"

definition nodeoverview_win_scroll ::
  "'d win_env \<Rightarrow> node_group \<Rightarrow> reg_scroll_dir \<Rightarrow> 'd dyn_nodeoverview \<Rightarrow> 'd dyn_nodeoverview" where
  "nodeoverview_win_scroll env g dir dyn =
     dyn\<lparr>no_data_cur := reg_line_scroll (reg_buf_init (no_data_cur dyn) (nodeoverview_text env g (no_buf dyn))) dir\<rparr>"

text \<open>The number of the node is stored where other commands have the pid.\<close>

definition nodeoverview_win_scrollenter :: "cmd \<Rightarrow> 'd dyn_nodeoverview \<Rightarrow> cmd option option" where
  "nodeoverview_win_scrollenter stack dyn =
     (let hl = highlight (scroll (no_data_cur dyn))
      in if hl = -1 then Some None
         else do {
           line \<leftarrow> arr_get (no_buf dyn) hl;
           Some (Some (stack\<lparr>c_id := CMD_NODE_DETAIL_ID, c_pid := nl_nid line\<rparr>))
         })"

section \<open>The details of a node\<close>

record dyn_nodedetail =
  nt_nid :: int
  nt_msg :: win_reg
  nt_node_data :: win_reg
  nt_hint :: win_reg

text \<open>A node that is not valid is told to the user; the state is returned in any case.\<close>

definition nodedetail_dyn_create :: "'d win_env \<Rightarrow> cmd \<Rightarrow> win_st \<Rightarrow> ((win_reg list + dyn_nodedetail) \<times> win_st) option" where
  "nodedetail_dyn_create env c st =
     (if \<not> we_dyn_ok env then Some (Inl [], st)
      else do {
        n \<leftarrow> node_get (ws_ng st) (c_pid c);
        let sc = we_scr env;
        if \<not> NODE_VALID n then do { st1 \<leftarrow> win_warn_msg sc WARN_INVALID_NID st; Some (Inl [], st1) }
        else Some
          (lay sc 1 2 (A_BOLD + A_UNDERLINE) [] (\<lambda>i msg.
           lay sc i (sc_height sc - i - 4) 0 [msg] (\<lambda>i node_data.
           Inr \<lparr>nt_nid = c_pid c, nt_msg = msg, nt_node_data = node_data, nt_hint = snd (lay_any sc i 3 A_BOLD)\<rparr>)), st)
      })"

definition nodedetail_win_destroy :: "dyn_nodedetail \<Rightarrow> win_reg list" where
  "nodedetail_win_destroy dyn = map reg_win_destroy [nt_msg dyn, nt_node_data dyn, nt_hint dyn]"

definition nodedetail_text :: "string \<Rightarrow> string \<Rightarrow> string" where
  "nodedetail_text title val = snprintf 256 (pad_right 30 title @ pad 15 val)"

definition nodedetail_line_show :: "string \<Rightarrow> string \<Rightarrow> win_reg \<times> int \<times> win_st \<Rightarrow> (win_reg \<times> int \<times> win_st) option" where
  "nodedetail_line_show title val rs =
     (case rs of (reg, line, st) \<Rightarrow>
        let s1 = nodedetail_text title val
        in do { st1 \<leftarrow> dump_line s1 st; Some (reg_line_write reg line ALIGN_LEFT s1, line + 1, st1) })"

fun nodedetail_lines :: "(string \<times> string) list \<Rightarrow> win_reg \<times> int \<times> win_st \<Rightarrow> (win_reg \<times> int \<times> win_st) option" where
  "nodedetail_lines [] rs = Some rs"
| "nodedetail_lines ((title, val) # ls) rs = do { rs1 \<leftarrow> nodedetail_line_show title val rs; nodedetail_lines ls rs1 }"

text \<open>
  The titles and values of the lines.  The memory sizes of a node that is not
  valid are not written; the line of the writeback memory shows the dirty one.
\<close>

definition nodedetail_rows :: "'d win_env \<Rightarrow> node_group \<Rightarrow> node \<Rightarrow> string \<Rightarrow> node_meminfo \<Rightarrow> (string \<times> string) list" where
  "nodedetail_rows env g n cpus meminfo =
     (let F = we_floats env; v = win_node_countvalue F g n;
          gb = \<lambda>k x. f_show F k (f_ratio F x GB_BYTES) @ ''G''
      in [(''CPU:'', cpus),
          (''CPU%:'', f_show F 1 (f_percent F (cv_cpu v)) @ ''%''),
          (''RMA:'', f_show F 1 (cv_rma v) @ ''K''),
          (''LMA:'', if we_offcore env > 1 then f_show F 1 (cv_lma v) @ ''K'' else ''-''),
          (''MEM total:'', gb 1 (mi_mem_total meminfo)),
          (''MEM free:'', gb 1 (mi_mem_free meminfo)),
          (''MEM active:'', gb 2 (mi_active meminfo)),
          (''MEM inactive:'', gb 2 (mi_inactive meminfo)),
          (''Dirty:'', gb 2 (mi_dirty meminfo)),
          (''Writeback:'', gb 2 (mi_dirty meminfo)),
          (''Mapped:'', gb 2 (mi_mapped meminfo))] @
         map (\<lambda>j. (''QPI/UPI '' @ show_nat j @ '' bandwidth:'',
                    f_show F 1 (f_ratio F (qi_value_scaled (n_qpi n ! j) * 8) (1024 * 1024)) @ ''MB'')) [0..<length (n_qpi n)] @
         [(''Memory controller bandwidth:'',
           f_show F 1 (f_ratio F (sum_list (map (\<lambda>u. ii_value_scaled u * 64) (n_imc n))) (1024 * 1024)) @ ''MB'')])"

definition os_nodedetail_data :: "'d win_env \<Rightarrow> dyn_nodedetail \<Rightarrow> win_st \<Rightarrow> (win_reg \<times> win_st) option" where
  "os_nodedetail_data env dyn st =
     do {
       n \<leftarrow> node_get (ws_ng st) (nt_nid dyn);
       meminfo \<leftarrow> node_meminfo_get (ws_ng st) (n_nid n) meminfo_zero;
       cpus \<leftarrow> node_cpu_string (we_buf_ok env (n_ncpus n)) n 512;
       (reg, _, st1) \<leftarrow> nodedetail_lines (nodedetail_rows env (ws_ng st) n cpus meminfo) (reg_erase (nt_node_data dyn), 1, st);
       Some (reg_refresh_nout reg, st1)
     }"

definition nodedetail_data_show ::
  "'d win_env \<Rightarrow> dyn_nodedetail \<Rightarrow> win_st \<Rightarrow> (dyn_nodedetail \<times> win_st \<times> bool \<times> bool) option" where
  "nodedetail_data_show env dyn st =
     (let content = snprintf WIN_LINECHAR_MAX (''Node'' @ show_int (nt_nid dyn) @ '' information (interval: '' @ we_intval env @ '')'')
      in do {
        st1 \<leftarrow> dump_head content st;
        (node_data, st2) \<leftarrow> os_nodedetail_data env dyn st1;
        Some (dyn\<lparr>nt_msg := reg_text (nt_msg dyn) 1 content, nt_node_data := node_data,
                nt_hint := reg_text (nt_hint dyn) 1 ''CPU%% = per-node CPU utilization''\<rparr>, st2, False, False)
      })"

definition nodedetail_win_draw :: "'d win_env \<Rightarrow> dyn_nodedetail \<Rightarrow> win_st \<Rightarrow> (dyn_nodedetail \<times> win_st \<times> bool) option" where
  "nodedetail_win_draw env dyn st = draw_end NOTE_NONODE (nodedetail_data_show env dyn (win_title_show st))"

end
