(* ===== verification/WinPqos.thy ===== *)
theory WinPqos
  imports WinProc
begin

text \<open>
  The windows of cache monitoring (common/win.c): the last-level cache of the
  processes, of one process or of one thread, and the memory bandwidth of one
  process or thread.
\<close>

record 'd dyn_pqos_cmt_proc =
  pc_pid :: int
  pc_lwpid :: int
  pc_summary :: win_reg
  pc_caption :: win_reg
  pc_data :: win_reg
  pc_hint :: win_reg
  pc_buf :: "'d pqos_cmt_proc_line list"

section \<open>Cache occupancy\<close>

text \<open>The descriptor of a zeroed line is 0, which is not INVALID_FD.\<close>

definition pqos_cmt_line_zero :: "'d floats \<Rightarrow> 'd pqos_cmt_proc_line" where
  "pqos_cmt_line_zero F = \<lparr>cl_value = value_zero F, cl_llc_occupancy = 0, cl_pid = 0, cl_lwpid = 0, cl_nlwp = 0,
     cl_fd = 0, cl_proc_name = []\<rparr>"

definition pqos_cmt_text :: "'d floats \<Rightarrow> 'd pqos_cmt_proc_line list \<Rightarrow> int \<Rightarrow> string" where
  "pqos_cmt_text F lines idx = pqos_cmt_proc_data_build F WIN_LINECHAR_MAX (lines ! nat idx)"

definition pqos_cmt_proc_data_save ::
  "'d win_env \<Rightarrow> node_group \<Rightarrow> track_lwp option \<Rightarrow> track_proc \<Rightarrow> 'd pqos_cmt_proc_line option" where
  "pqos_cmt_proc_data_save env g lwp p =
     (case lwp of
        None \<Rightarrow>
          do {
            v \<leftarrow> win_countvalue_fill (we_floats env) g (p_countval_arr p) NODE_ALL (proc_intval_get p) (we_ncpus env);
            Some \<lparr>cl_value = v, cl_llc_occupancy = pq_occupancy_scaled (p_pqos p), cl_pid = p_pid p, cl_lwpid = 0,
                  cl_nlwp = proc_nlwp p, cl_fd = 0, cl_proc_name = line_name p\<rparr>
          }
      | Some l \<Rightarrow>
          do {
            v \<leftarrow> win_countvalue_fill (we_floats env) g (l_countval_arr l) NODE_ALL (lwp_intval_get l) (we_ncpus env);
            Some \<lparr>cl_value = v, cl_llc_occupancy = pq_occupancy_scaled (l_pqos l), cl_pid = p_pid p, cl_lwpid = l_id l,
                  cl_nlwp = proc_nlwp p, cl_fd = 0, cl_proc_name = line_name p\<rparr>
          })"

definition pqos_cmt_dyn_create_proc ::
  "'d win_env \<Rightarrow> int \<Rightarrow> int \<Rightarrow> win_reg list + (win_type \<times> 'd dyn_pqos_cmt_proc)" where
  "pqos_cmt_dyn_create_proc env pid lwpid =
     (let sc = we_scr env; F = we_floats env; buf = replicate (nat WIN_NLINES_MAX) (pqos_cmt_line_zero F);
          ty = (if pid = 0 then WIN_TYPE_PQOS_CMT_TOPNPROC
                else if lwpid = 0 then WIN_TYPE_PQOS_CMT_MONIPROC else WIN_TYPE_PQOS_CMT_MONILWP)
      in if \<not> we_buf_ok env WIN_NLINES_MAX \<or> \<not> we_dyn_ok env then Inl []
         else
           lay sc 1 2 A_BOLD [] (\<lambda>i summary.
           lay sc i 2 (A_BOLD + A_UNDERLINE) [summary] (\<lambda>i caption.
           lay sc i (sc_height sc - i - 5) 0 [summary, caption] (\<lambda>i data.
           Inr (ty, \<lparr>pc_pid = pid, pc_lwpid = lwpid, pc_summary = summary, pc_caption = caption,
                pc_data = scroll_reg (pqos_cmt_text F buf) data,
                pc_hint = snd (lay_any sc i (sc_height sc - i - 1) A_BOLD), pc_buf = buf\<rparr>)))))"

definition pqos_cmt_dyn_create :: "'d win_env \<Rightarrow> cmd \<Rightarrow> win_reg list + (win_type \<times> 'd dyn_pqos_cmt_proc)" where
  "pqos_cmt_dyn_create env c = pqos_cmt_dyn_create_proc env (c_pid c) (c_lwpid c)"

definition pqos_cmt_win_destroy :: "'d dyn_pqos_cmt_proc \<Rightarrow> win_reg list" where
  "pqos_cmt_win_destroy dyn = map reg_win_destroy [pc_summary dyn, pc_caption dyn, pc_data dyn, pc_hint dyn]"

text \<open>
  The line of one process or thread: what is found is referenced for as long as
  it is read.  The left value of the result is the state after an invalid
  process or thread has been told to the user.
\<close>

definition pqos_one ::
  "'d win_env \<Rightarrow> int \<Rightarrow> int \<Rightarrow> (node_group \<Rightarrow> track_lwp option \<Rightarrow> track_proc \<Rightarrow> 'l option) \<Rightarrow> 'l list \<Rightarrow> win_st \<Rightarrow>
   (win_st + ('l list \<times> win_st)) option" where
  "pqos_one env pid lwpid save lines st =
     do {
       (ps1, pa) \<leftarrow> proc_find pid (ws_ps st);
       let st1 = st\<lparr>ws_ps := ps1\<rparr>;
       (case pa of
          None \<Rightarrow> do { st2 \<leftarrow> win_invalid_proc (we_scr env) st1; Some (Inl st2) }
        | Some a \<Rightarrow>
            do {
              p \<leftarrow> ps_procs ps1 a;
              (if lwpid = 0 then
                 do {
                   line \<leftarrow> save (ws_ng st) None p;
                   lines1 \<leftarrow> arr_set lines 0 line;
                   ps2 \<leftarrow> proc_refcount_dec a ps1;
                   Some (Inr (lines1, st1\<lparr>ws_ps := ps2\<rparr>))
                 }
               else
                 do {
                   (h, la) \<leftarrow> proc_lwp_find (p_lwp_list p) lwpid (ps_lwps ps1);
                   let ps2 = ps1\<lparr>ps_lwps := h\<rparr>;
                   (case la of
                      None \<Rightarrow>
                        do {
                          ps3 \<leftarrow> proc_refcount_dec a ps2;
                          st2 \<leftarrow> win_invalid_lwp (we_scr env) (st1\<lparr>ws_ps := ps3\<rparr>);
                          Some (Inl st2)
                        }
                    | Some w \<Rightarrow>
                        do {
                          l \<leftarrow> h w;
                          line \<leftarrow> save (ws_ng st) (Some l) p;
                          lines1 \<leftarrow> arr_set lines 0 line;
                          h3 \<leftarrow> lwp_refcount_dec w h;
                          ps3 \<leftarrow> proc_refcount_dec a (ps2\<lparr>ps_lwps := h3\<rparr>);
                          Some (Inr (lines1, st1\<lparr>ws_ps := ps3\<rparr>))
                        })
                 })
            })
     }"

definition PERF_PQOS_CMT_MAX :: int where "PERF_PQOS_CMT_MAX = 10"

definition pqos_cmt_data_show ::
  "'d win_env \<Rightarrow> 'd dyn_pqos_cmt_proc \<Rightarrow> win_st \<Rightarrow> ('d dyn_pqos_cmt_proc \<times> win_st \<times> bool \<times> bool) option" where
  "pqos_cmt_data_show env dyn st =
     (let pid = pc_pid dyn; lwpid = pc_lwpid dyn; F = we_floats env;
          nprocs = (if pid = 0 then min (fst (proc_lwp_count (ws_ps st))) WIN_NLINES_MAX else 1);
          content = snprintf WIN_LINECHAR_MAX
            ((if pid = 0 then ''Monitoring processes with LLC occupancy (interval: ''
              else if lwpid = 0 then ''Monitoring a process with LLC occupancy (interval: ''
              else ''Monitoring a thread with LLC occupancy (interval: '') @ we_intval env @ '')'');
          caption = pqos_cmt_caption_build lwpid WIN_LINECHAR_MAX;
          dyn1 = dyn\<lparr>pc_summary := reg_text (pc_summary dyn) 1 content, pc_caption := reg_text (pc_caption dyn) 1 caption,
                   pc_data := reg_erase ((pc_data dyn)\<lparr>nlines_total := nprocs\<rparr>)\<rparr>
      in do {
        st1 \<leftarrow> dump_head content st;
        st2 \<leftarrow> dump_line caption st1;
        r \<leftarrow> (if pid = 0 then
                do {
                  ps1 \<leftarrow> proc_resort (we_proc env) (we_ratio1000 env) (ws_ng st2) SORT_KEY_CPU (ws_ps st2);
                  (ps2, lines) \<leftarrow> sorted_lines (pqos_cmt_proc_data_save env (ws_ng st2) None) (nat nprocs) 0 ps1 (pc_buf dyn);
                  Some (Inr (lines, st2\<lparr>ws_ps := ps2\<rparr>))
                }
              else pqos_one env pid lwpid (pqos_cmt_proc_data_save env) (pc_buf dyn) st2);
        (case r of
           Inl st3 \<Rightarrow> Some (dyn1, st3, True, False)
         | Inr (lines, st3) \<Rightarrow>
             let hint0 = reg_erase (pc_hint dyn);
                 hint1 = (if pid = 0 then reg_line_write hint0 1 ALIGN_LEFT
                            (snprintf WIN_LINECHAR_MAX (''-- Track '' @ show_int PERF_PQOS_CMT_MAX @
                               '' active processes'' @ [CHR 0x27] @ ''s LLC occupancy (marked with *) --''))
                          else hint0);
                 hint2 = reg_refresh_nout (reg_line_write hint1 2 ALIGN_LEFT ''CPU%% = system CPU utilization'')
             in Some (dyn1\<lparr>pc_data := reg_refresh_nout (reg_scroll_show (pc_data dyn1) nprocs (pqos_cmt_text F lines)),
                        pc_hint := hint2, pc_buf := lines\<rparr>,
                      if pid = 0 then st3 else win_note_show (Some NOTE_PQOS_CMT_MONI) st3, pid \<noteq> 0, True))
      })"

definition pqos_cmt_win_draw ::
  "'d win_env \<Rightarrow> 'd dyn_pqos_cmt_proc \<Rightarrow> win_st \<Rightarrow> ('d dyn_pqos_cmt_proc \<times> win_st \<times> bool) option" where
  "pqos_cmt_win_draw env dyn st = draw_end NOTE_NONODE (pqos_cmt_data_show env dyn (win_title_show st))"

definition pqos_cmt_win_scroll :: "'d floats \<Rightarrow> reg_scroll_dir \<Rightarrow> 'd dyn_pqos_cmt_proc \<Rightarrow> 'd dyn_pqos_cmt_proc" where
  "pqos_cmt_win_scroll F dir dyn =
     dyn\<lparr>pc_data := reg_line_scroll (reg_buf_init (pc_data dyn) (pqos_cmt_text F (pc_buf dyn))) dir\<rparr>"

section \<open>Memory bandwidth\<close>

record 'd dyn_pqos_mbm_proc =
  pb_pid :: int
  pb_lwpid :: int
  pb_summary :: win_reg
  pb_caption :: win_reg
  pb_data :: win_reg
  pb_hint :: win_reg
  pb_buf :: "'d pqos_mbm_proc_line list"

definition pqos_mbm_line_zero :: "'d floats \<Rightarrow> 'd pqos_mbm_proc_line" where
  "pqos_mbm_line_zero F = \<lparr>bl_value = value_zero F, bl_totalbw_scaled = 0, bl_localbw_scaled = 0, bl_pid = 0,
     bl_lwpid = 0, bl_nlwp = 0, bl_proc_name = []\<rparr>"

definition pqos_mbm_text :: "'d floats \<Rightarrow> 'd pqos_mbm_proc_line list \<Rightarrow> int \<Rightarrow> string" where
  "pqos_mbm_text F lines idx = pqos_mbm_proc_data_build F WIN_LINECHAR_MAX (lines ! nat idx)"

definition pqos_mbm_proc_data_save ::
  "'d win_env \<Rightarrow> node_group \<Rightarrow> track_lwp option \<Rightarrow> track_proc \<Rightarrow> 'd pqos_mbm_proc_line option" where
  "pqos_mbm_proc_data_save env g lwp p =
     (case lwp of
        None \<Rightarrow>
          do {
            v \<leftarrow> win_countvalue_fill (we_floats env) g (p_countval_arr p) NODE_ALL (proc_intval_get p) (we_ncpus env);
            Some \<lparr>bl_value = v, bl_totalbw_scaled = pq_totalbw_scaled (p_pqos p),
                  bl_localbw_scaled = pq_localbw_scaled (p_pqos p), bl_pid = p_pid p, bl_lwpid = 0,
                  bl_nlwp = proc_nlwp p, bl_proc_name = line_name p\<rparr>
          }
      | Some l \<Rightarrow>
          do {
            v \<leftarrow> win_countvalue_fill (we_floats env) g (l_countval_arr l) NODE_ALL (lwp_intval_get l) (we_ncpus env);
            Some \<lparr>bl_value = v, bl_totalbw_scaled = pq_totalbw_scaled (l_pqos l),
                  bl_localbw_scaled = pq_localbw_scaled (l_pqos l), bl_pid = p_pid p, bl_lwpid = 0,
                  bl_nlwp = proc_nlwp p, bl_proc_name = line_name p\<rparr>
          })"

text \<open>For the pid 0 the type of the window is not set.\<close>

definition pqos_mbm_dyn_create_proc ::
  "'d win_env \<Rightarrow> int \<Rightarrow> int \<Rightarrow> win_type \<Rightarrow> win_reg list + (win_type \<times> 'd dyn_pqos_mbm_proc)" where
  "pqos_mbm_dyn_create_proc env pid lwpid ty0 =
     (let sc = we_scr env; F = we_floats env; buf = replicate (nat WIN_NLINES_MAX) (pqos_mbm_line_zero F);
          ty = (if pid = 0 then ty0
                else if lwpid = 0 then WIN_TYPE_PQOS_MBM_MONIPROC else WIN_TYPE_PQOS_MBM_MONILWP)
      in if \<not> we_buf_ok env WIN_NLINES_MAX \<or> \<not> we_dyn_ok env then Inl []
         else
           lay sc 1 2 A_BOLD [] (\<lambda>i summary.
           lay sc i 2 (A_BOLD + A_UNDERLINE) [summary] (\<lambda>i caption.
           lay sc i (sc_height sc - i - 5) 0 [summary, caption] (\<lambda>i data.
           Inr (ty, \<lparr>pb_pid = pid, pb_lwpid = lwpid, pb_summary = summary, pb_caption = caption,
                pb_data = scroll_reg (pqos_mbm_text F buf) data,
                pb_hint = snd (lay_any sc i (sc_height sc - i - 1) A_BOLD), pb_buf = buf\<rparr>)))))"

definition pqos_mbm_dyn_create :: "'d win_env \<Rightarrow> cmd \<Rightarrow> win_type \<Rightarrow> win_reg list + (win_type \<times> 'd dyn_pqos_mbm_proc)" where
  "pqos_mbm_dyn_create env c ty0 = pqos_mbm_dyn_create_proc env (c_pid c) (c_lwpid c) ty0"

definition pqos_mbm_win_destroy :: "'d dyn_pqos_mbm_proc \<Rightarrow> win_reg list" where
  "pqos_mbm_win_destroy dyn = map reg_win_destroy [pb_summary dyn, pb_caption dyn, pb_data dyn, pb_hint dyn]"

definition pqos_mbm_data_show ::
  "'d win_env \<Rightarrow> 'd dyn_pqos_mbm_proc \<Rightarrow> win_st \<Rightarrow> ('d dyn_pqos_mbm_proc \<times> win_st \<times> bool \<times> bool) option" where
  "pqos_mbm_data_show env dyn st =
     (let pid = pb_pid dyn; lwpid = pb_lwpid dyn; F = we_floats env;
          nprocs = (if pid = 0 then 0 else 1);
          content = (if pid = 0 then []
            else snprintf WIN_LINECHAR_MAX
              ((if lwpid = 0 then ''Monitoring a process with memory bandwidth (interval: ''
                else ''Monitoring a thread with memory bandwidth (interval: '') @ we_intval env @ '')''));
          caption = pqos_mbm_caption_build lwpid WIN_LINECHAR_MAX;
          data = (if pid = 0 then pb_data dyn else (pb_data dyn)\<lparr>nlines_total := 1\<rparr>);
          dyn1 = dyn\<lparr>pb_summary := reg_text (pb_summary dyn) 1 content, pb_caption := reg_text (pb_caption dyn) 1 caption,
                   pb_data := reg_erase data\<rparr>
      in do {
        st1 \<leftarrow> dump_head content st;
        st2 \<leftarrow> dump_line caption st1;
        r \<leftarrow> (if pid = 0 then Some (Inr (pb_buf dyn, st2))
              else pqos_one env pid lwpid (pqos_mbm_proc_data_save env) (pb_buf dyn) st2);
        (case r of
           Inl st3 \<Rightarrow> Some (dyn1, st3, True, False)
         | Inr (lines, st3) \<Rightarrow>
             let hint0 = reg_erase (pb_hint dyn);
                 hint1 = (if pid = 0 then reg_line_write hint0 1 ALIGN_LEFT
                            (snprintf WIN_LINECHAR_MAX (''-- Track '' @ show_int PERF_PQOS_CMT_MAX @
                               '' active processes'' @ [CHR 0x27] @ ''s LLC occupancy (marked with *) --''))
                          else hint0);
                 hint2 = reg_refresh_nout (reg_line_write hint1 2 ALIGN_LEFT
                           ''CPU%% = system CPU utilization; MBAND = Memory Bandwidth'')
             in Some (dyn1\<lparr>pb_data := reg_refresh_nout (reg_scroll_show (pb_data dyn1) nprocs (pqos_mbm_text F lines)),
                        pb_hint := hint2, pb_buf := lines\<rparr>, st3, False, True))
      })"

definition pqos_mbm_win_draw ::
  "'d win_env \<Rightarrow> 'd dyn_pqos_mbm_proc \<Rightarrow> win_st \<Rightarrow> ('d dyn_pqos_mbm_proc \<times> win_st \<times> bool) option" where
  "pqos_mbm_win_draw env dyn st = draw_end NOTE_NONODE (pqos_mbm_data_show env dyn (win_title_show st))"

definition pqos_mbm_win_scroll :: "'d floats \<Rightarrow> reg_scroll_dir \<Rightarrow> 'd dyn_pqos_mbm_proc \<Rightarrow> 'd dyn_pqos_mbm_proc" where
  "pqos_mbm_win_scroll F dir dyn =
     dyn\<lparr>pb_data := reg_line_scroll (reg_buf_init (pb_data dyn) (pqos_mbm_text F (pb_buf dyn))) dir\<rparr>"

end
