(* ===== verification/WinChain.thy ===== *)
theory WinChain
  imports WinProc ChainUse
begin

text \<open>
  The windows of call chains (common/win.c, common/os/os_win.c): the chains
  counted for a process or thread, and those of the accesses to one memory area.

  The process a window shows has a table of its mappings and one of its symbols,
  kept here by the address of the process.  The list of chains a window is drawn
  from lives in a heap of its own, so that what is left in it has leaked.
\<close>

section \<open>State and surroundings\<close>

text \<open>
  What is found of memory for the mappings, the file /proc/<pid>/maps, the size
  of a page, the nodes the kernel reports for pages, the symbols, the memory of
  resolving and of chains, the node malloc answers for the n-th chain, and
  whether latency sampling has been started.
\<close>

record mem_env =
  wm_map_ok :: "int \<Rightarrow> bool"
  wm_map_file :: "int \<Rightarrow> string option"
  wm_pgsize :: u32
  wm_query :: "int \<Rightarrow> u64 list \<Rightarrow> int list option"
  wm_query_ok :: bool
  wm_sym :: sym_env
  wm_sym_mem :: "nat \<Rightarrow> bool"
  wm_new :: "nat \<Rightarrow> addr"
  wm_ll_started :: bool

record mem_st =
  ms_map :: "addr \<Rightarrow> map_proc"
  ms_sym :: "addr \<Rightarrow> sym_t"
  ms_libs :: libs

definition NOTE_CALLCHAIN :: string where "NOTE_CALLCHAIN = NOTE_NONODE"
definition NOTE_LLCALLCHAIN :: string where "NOTE_LLCALLCHAIN = ''Q: Quit; H: Home; B: Back; R: Refresh''"

text \<open>Giving back the references to a thread, when there is one, and to its process.\<close>

definition lwp_put :: "ptr \<Rightarrow> pstate \<Rightarrow> pstate option" where
  "lwp_put la ps =
     (case la of None \<Rightarrow> Some ps
      | Some w \<Rightarrow> do { h \<leftarrow> lwp_refcount_dec w (ps_lwps ps); Some (ps\<lparr>ps_lwps := h\<rparr>) })"

text \<open>The thread a reference was taken to.\<close>

definition lwp_deref :: "ptr \<Rightarrow> pstate \<Rightarrow> track_lwp option option" where
  "lwp_deref la ps = (case la of None \<Rightarrow> Some None | Some w \<Rightarrow> map_option Some (ps_lwps ps w))"

section \<open>Showing a list of chains\<close>

definition chain_text :: "string list \<Rightarrow> int \<Rightarrow> string" where
  "chain_text lines idx = win_callchain_str_build WIN_LINECHAR_MAX (lines ! nat idx)"

text \<open>Writing lines into the buffer from an index on.\<close>

fun put_lines :: "string list \<Rightarrow> int \<Rightarrow> string list \<Rightarrow> string list option" where
  "put_lines [] j buf = Some buf"
| "put_lines (s # ss) j buf = do { buf1 \<leftarrow> arr_set buf j s; put_lines ss (j + 1) buf1 }"

text \<open>The lines of a chain: its number, its functions and an empty line.\<close>

definition chain_head :: "nat \<Rightarrow> string" where
  "chain_head i = snprintf WIN_LINECHAR_MAX (''<- call-chain '' @ show_nat (i + 1) @ '': ->'')"

definition chain_block :: "nat \<Rightarrow> sym_callchain \<Rightarrow> string list option" where
  "chain_block i c =
     (if ca_nentry c \<le> length (ca_entry_arr c)
      then Some (chain_head i # map (\<lambda>e. take (WIN_LINECHAR_MAX - 1) (ce_name e)) (take (ca_nentry c) (ca_entry_arr c)) @ [[]])
      else None)"

text \<open>The loop over the chains: n of them are left, the next is number i, its first line is j.\<close>

fun chain_lines ::
  "nat \<Rightarrow> nat \<Rightarrow> int \<Rightarrow> string list \<Rightarrow> chains \<times> sym_chainlist \<Rightarrow> (string list \<times> chains \<times> sym_chainlist) option" where
  "chain_lines 0 i j buf hl = Some (buf, hl)"
| "chain_lines (Suc n) i j buf hl =
     do {
       (hl1, p) \<leftarrow> sym_callchain_detach hl;
       (case p of
          None \<Rightarrow> Some (buf, hl1)
        | Some a \<Rightarrow>
            do {
              c \<leftarrow> fst hl1 a;
              block \<leftarrow> chain_block i c;
              buf1 \<leftarrow> put_lines block j buf;
              h \<leftarrow> sym_callchain_free a (fst hl1);
              chain_lines n (i + 1) (j + int (length block)) buf1 (h, snd hl1)
            })
     }"

text \<open>
  chainlist_show: the region and its buffer, the state, what is left of the
  chains, and the return value.
\<close>

definition chainlist_show ::
  "(int \<Rightarrow> bool) \<Rightarrow> chains \<times> sym_chainlist \<Rightarrow> win_reg \<Rightarrow> string list \<Rightarrow> win_st \<Rightarrow>
   (win_reg \<times> string list \<times> win_st \<times> (chains \<times> sym_chainlist) \<times> int) option" where
  "chainlist_show ok hl reg lines st =
     do {
       hl1 \<leftarrow> sym_callchain_resort hl;
       (nchain, nentry) \<leftarrow> sym_chainlist_nentry hl1;
       let reg1 = reg_erase reg;
       if nentry = 0 then
         do {
           let content = snprintf WIN_LINECHAR_MAX ''<- Detecting call-chain ... -> '';
           st1 \<leftarrow> dump_line content st;
           Some (reg_refresh_nout (reg_line_write reg1 0 ALIGN_LEFT content), lines, st1, hl1, 0)
         }
       else
         let nlines = nentry + 2 * nchain
         in if \<not> ok (int nlines) then Some (reg1, lines, st, hl1, -1)
            else
              do {
                (buf, hl2) \<leftarrow> chain_lines nchain 0 0 (replicate nlines []) hl1;
                let reg2 = reg1\<lparr>nlines_total := int nlines - 1\<rparr>;
                hl3 \<leftarrow> sym_chainlist_free hl2;
                Some (reg_refresh_nout (reg_scroll_show reg2 (int nlines - 1) (chain_text buf)), buf, st, hl3, 0)
              }
     }"

section \<open>Collecting the chains\<close>

text \<open>The addresses of a record; reading beyond the array of a record is undefined.\<close>

definition chain_ips :: "callchain \<Rightarrow> u64 list option" where
  "chain_ips cc = (if cc_ip_num cc \<le> length (cc_ips cc) then Some (take (cc_ip_num cc) (cc_ips cc)) else None)"

fun chain_adds ::
  "mem_env \<Rightarrow> libs \<Rightarrow> sym_t \<Rightarrow> nat \<Rightarrow> callchain list \<Rightarrow> chains \<times> sym_chainlist \<Rightarrow> (chains \<times> sym_chainlist) option" where
  "chain_adds me libs sy k [] hl = Some hl"
| "chain_adds me libs sy k (cc # ccs) hl =
     do {
       ips \<leftarrow> chain_ips cc;
       (hl1, _) \<leftarrow> sym_callchain_add (wm_sym_mem me) libs sy ips (wm_new me k) hl;
       chain_adds me libs sy (k + 1) ccs hl1
     }"

text \<open>The chains of several counters, one group after the other.\<close>

fun chain_groups :: "countchain \<Rightarrow> perf_count_id list \<Rightarrow> callchain list option" where
  "chain_groups cc [] = Some []"
| "chain_groups cc (i # is) =
     do { rs \<leftarrow> darr_elems (cc i); ccs \<leftarrow> chain_groups cc is; Some (map ch_callchain rs @ ccs) }"

text \<open>The mappings and symbols of the process at address a are loaded.\<close>

definition mem_sym_load :: "mem_env \<Rightarrow> addr \<Rightarrow> int \<Rightarrow> mem_st \<Rightarrow> (mem_st \<times> int) option" where
  "mem_sym_load me a pid ms =
     do {
       ((mp, libs, sy), r) \<leftarrow> sym_load (wm_sym me) (wm_map_ok me) (wm_map_file me pid) SYM_TYPE_FUNC
         (ms_map ms a, ms_libs ms, ms_sym ms a);
       Some (\<lparr>ms_map = (ms_map ms)(a := mp), ms_sym = (ms_sym ms)(a := sy), ms_libs = libs\<rparr>, r)
     }"

section \<open>The chains of a process or thread\<close>

record dyn_callchain =
  ck_pid :: int
  ck_lwpid :: int
  ck_ui_countid :: ui_count_id
  ck_msg :: win_reg
  ck_caption :: win_reg
  ck_pad :: win_reg
  ck_data :: win_reg
  ck_hint :: win_reg
  ck_buf :: "string list"

definition callchain_dyn_create :: "'d win_env \<Rightarrow> cmd \<Rightarrow> win_reg list + dyn_callchain" where
  "callchain_dyn_create env c =
     (let sc = we_scr env
      in if \<not> we_dyn_ok env then Inl []
         else
           lay sc 1 2 A_BOLD [] (\<lambda>i msg.
           lay sc i 2 (A_BOLD + A_UNDERLINE) [msg] (\<lambda>i caption.
           lay sc i 1 0 [msg, caption] (\<lambda>i padreg.
           lay sc i (sc_height sc - i - 4) 0 [msg, caption, padreg] (\<lambda>i data.
           Inr \<lparr>ck_pid = c_pid c, ck_lwpid = c_lwpid c, ck_ui_countid = UI_COUNT_RMA, ck_msg = msg,
                ck_caption = caption, ck_pad = padreg, ck_data = scroll_reg (chain_text []) data,
                ck_hint = snd (lay_any sc i (sc_height sc - i - 1) A_BOLD), ck_buf = []\<rparr>)))))"

definition callchain_win_destroy :: "dyn_callchain \<Rightarrow> win_reg list" where
  "callchain_win_destroy dyn =
     map reg_win_destroy [ck_msg dyn, ck_caption dyn, ck_pad dyn, ck_data dyn, ck_hint dyn]"

definition os_callchain_list_show ::
  "'d win_env \<Rightarrow> mem_env \<Rightarrow> addr \<Rightarrow> track_proc \<Rightarrow> track_lwp option \<Rightarrow> dyn_callchain \<times> mem_st \<Rightarrow> win_st \<Rightarrow>
   ((dyn_callchain \<times> mem_st) \<times> win_st \<times> (chains \<times> sym_chainlist) \<times> int) option" where
  "os_callchain_list_show env me a p lwp dm st =
     (case dm of (dyn, ms) \<Rightarrow>
        do {
          let content = snprintf WIN_LINECHAR_MAX ''Call-chain list:'';
          st1 \<leftarrow> dump_line content st;
          st2 \<leftarrow> dump_line [] st1;
          let dyn1 = dyn\<lparr>ck_caption := reg_text (ck_caption dyn) 1 content,
            ck_pad := reg_refresh_nout (reg_erase (ck_pad dyn))\<rparr>;
          let count_chain = (case lwp of Some l \<Rightarrow> l_count_chain l | None \<Rightarrow> p_count_chain p);
          (ms1, r) \<leftarrow> mem_sym_load me a (p_pid p) ms;
          if r \<noteq> 0 then Some ((dyn1, ms1), st2, (Map.empty, sym_chainlist_zero), -1)
          else
            do {
              let (n, ids) = get_ui_perf_count_map (ck_ui_countid dyn);
              ccs \<leftarrow> chain_groups count_chain (take (nat n) ids);
              hl \<leftarrow> chain_adds me (ms_libs ms1) (ms_sym ms1 a) 0 ccs (Map.empty, sym_chainlist_zero);
              (data, lines, st3, hl1, _) \<leftarrow> chainlist_show (we_buf_ok env) hl (ck_data dyn1) (ck_buf dyn1) st2;
              Some ((dyn1\<lparr>ck_data := data, ck_buf := lines\<rparr>, ms1), st3, hl1, 0)
            }
        })"

definition callchain_data_show ::
  "'d win_env \<Rightarrow> mem_env \<Rightarrow> dyn_callchain \<times> mem_st \<Rightarrow> win_st \<Rightarrow> ((dyn_callchain \<times> mem_st) \<times> win_st \<times> bool \<times> bool) option" where
  "callchain_data_show env me dm st =
     (case dm of (dyn, ms) \<Rightarrow>
        do {
          (ps1, pa) \<leftarrow> proc_find (ck_pid dyn) (ws_ps st);
          let st1 = st\<lparr>ws_ps := ps1\<rparr>;
          (case pa of
             None \<Rightarrow> do { st2 \<leftarrow> win_invalid_proc (we_scr env) st1; Some (dm, st2, True, True) }
           | Some a \<Rightarrow>
               do {
                 p \<leftarrow> ps_procs ps1 a;
                 (h, la) \<leftarrow> (if ck_lwpid dyn > 0 then proc_lwp_find (p_lwp_list p) (ck_lwpid dyn) (ps_lwps ps1)
                            else Some (ps_lwps ps1, None));
                 let ps2 = ps1\<lparr>ps_lwps := h\<rparr>;
                 if ck_lwpid dyn > 0 \<and> la = None then
                   do {
                     ps3 \<leftarrow> proc_refcount_dec a ps2;
                     st2 \<leftarrow> win_invalid_lwp (we_scr env) (st1\<lparr>ws_ps := ps3\<rparr>);
                     Some (dm, st2, True, True)
                   }
                 else
                   do {
                     lwp \<leftarrow> lwp_deref la ps2;
                     let event = callchain_event_name (ck_ui_countid dyn);
                     let content = snprintf WIN_LINECHAR_MAX
                       (if ck_lwpid dyn = 0
                        then ''Call-chain when process generates '' @ [CHR 0x22] @ event @ [CHR 0x22] @ '' (pid: '' @
                          show_int (ck_pid dyn) @ '', interval: '' @ we_intval env @ '')''
                        else ''Call-chain when thread generates '' @ [CHR 0x22] @ event @ [CHR 0x22] @ '' (lwpid: '' @
                          show_int (ck_lwpid dyn) @ '', interval: '' @ we_intval env @ '')'');
                     st2 \<leftarrow> dump_head content (st1\<lparr>ws_ps := ps2\<rparr>);
                     ((dyn1, ms1), st3, _, _) \<leftarrow> os_callchain_list_show env me a p lwp
                       (dyn\<lparr>ck_msg := reg_text (ck_msg dyn) 1 content\<rparr>, ms) st2;
                     let dyn2 = dyn1\<lparr>ck_hint := reg_text (ck_hint dyn1) 1
                       ''Switch call-chain by: 1(RMA), 2(LMA), 3(CYCLE), 4(IR)''\<rparr>;
                     ps3 \<leftarrow> lwp_put la (ws_ps st3);
                     ps4 \<leftarrow> proc_refcount_dec a ps3;
                     Some ((dyn2, ms1), st3\<lparr>ws_ps := ps4\<rparr>, False, True)
                   }
               })
        })"

definition callchain_win_draw ::
  "'d win_env \<Rightarrow> mem_env \<Rightarrow> dyn_callchain \<times> mem_st \<Rightarrow> win_st \<Rightarrow> ((dyn_callchain \<times> mem_st) \<times> win_st \<times> bool) option" where
  "callchain_win_draw env me dm st = draw_end NOTE_CALLCHAIN (callchain_data_show env me dm (win_title_show st))"

definition callchain_win_scroll :: "reg_scroll_dir \<Rightarrow> dyn_callchain \<Rightarrow> dyn_callchain" where
  "callchain_win_scroll dir dyn =
     dyn\<lparr>ck_data := reg_line_scroll (reg_buf_init (ck_data dyn) (chain_text (ck_buf dyn))) dir\<rparr>"

section \<open>The chains of the accesses to a memory area\<close>

record dyn_llcallchain =
  lk_pid :: int
  lk_lwpid :: int
  lk_addr :: u64
  lk_size :: u64
  lk_desc :: string
  lk_msg :: win_reg
  lk_buf_caption :: win_reg
  lk_buf_data :: win_reg
  lk_chain_caption :: win_reg
  lk_pad :: win_reg
  lk_chain_data :: win_reg
  lk_buf :: "string list"

text \<open>desc is the description of the area the command carries.\<close>

definition os_llcallchain_dyn_create :: "'d win_env \<Rightarrow> cmd \<Rightarrow> string \<Rightarrow> win_reg list + dyn_llcallchain" where
  "os_llcallchain_dyn_create env c desc =
     (let sc = we_scr env
      in if \<not> we_dyn_ok env then Inl []
         else
           lay sc 1 2 A_BOLD [] (\<lambda>i msg.
           lay sc i 2 (A_BOLD + A_UNDERLINE) [msg] (\<lambda>i buf_caption.
           lay sc i 1 0 [msg, buf_caption] (\<lambda>i buf_data.
           lay sc i 2 (A_BOLD + A_UNDERLINE) [msg, buf_caption, buf_data] (\<lambda>i chain_caption.
           lay sc i 1 0 [msg, buf_caption, buf_data, chain_caption] (\<lambda>i padreg.
           lay sc i (sc_height sc - i - 2) 0 [msg, buf_caption, buf_data, chain_caption, padreg] (\<lambda>_ chain_data.
           Inr \<lparr>lk_pid = c_pid c, lk_lwpid = c_lwpid c, lk_addr = of_nat (c_addr c), lk_size = of_nat (c_size c),
                lk_desc = take (WIN_DESCBUF_SIZE - 1) desc, lk_msg = msg, lk_buf_caption = buf_caption,
                lk_buf_data = buf_data, lk_chain_caption = chain_caption, lk_pad = padreg,
                lk_chain_data = scroll_reg (chain_text []) chain_data, lk_buf = []\<rparr>)))))))"

definition os_llcallchain_win_destroy :: "dyn_llcallchain \<Rightarrow> win_reg list" where
  "os_llcallchain_win_destroy dyn =
     map reg_win_destroy [lk_msg dyn, lk_buf_caption dyn, lk_buf_data dyn, lk_chain_caption dyn, lk_pad dyn, lk_chain_data dyn]"

text \<open>The records of a process or of one of its threads.\<close>

definition ll_group :: "track_proc \<Rightarrow> track_lwp option \<Rightarrow> llrecgrp" where
  "ll_group p lwp = (case lwp of Some l \<Rightarrow> l_llrec_grp l | None \<Rightarrow> p_llrec_grp p)"

definition lwp_id0 :: "track_lwp option \<Rightarrow> int" where
  "lwp_id0 lwp = (case lwp of Some l \<Rightarrow> l_id l | None \<Rightarrow> 0)"

definition llcallchain_bufinfo_show ::
  "'d win_env \<Rightarrow> map_proc \<Rightarrow> track_proc \<Rightarrow> track_lwp option \<Rightarrow> dyn_llcallchain \<Rightarrow> win_st \<Rightarrow>
   (dyn_llcallchain \<times> win_st \<times> int) option" where
  "llcallchain_bufinfo_show env mp p lwp dyn st =
     do {
       let content = lat_caption WIN_LINECHAR_MAX;
       st1 \<leftarrow> dump_line content st;
       let dyn1 = dyn\<lparr>lk_buf_caption := reg_text (lk_buf_caption dyn) 1 content\<rparr>;
       let reg = reg_erase (lk_buf_data dyn);
       buf \<leftarrow> win_lat_buf_create (we_buf_ok env) (p_pid p) mp (lwp_id0 lwp);
       (case buf of
          None \<Rightarrow> Some (dyn1\<lparr>lk_buf_data := reg\<rparr>, st1, -1)
        | Some lat_buf \<Rightarrow>
            do {
              (lat_buf1, _) \<leftarrow> win_lat_buf_fill lat_buf (ll_group p lwp);
              r \<leftarrow> bsearch (\<lambda>l. Some (bufaddr_cmp (lk_addr dyn) l)) lat_buf1;
              (case r of
                 None \<Rightarrow> Some (dyn1\<lparr>lk_buf_data := reg_refresh_nout reg\<rparr>, st1, 0)
               | Some i \<Rightarrow>
                   do {
                     let line = win_lat_str_build (we_floats env) WIN_LINECHAR_MAX (lat_buf1 ! i);
                     st2 \<leftarrow> dump_line line st1;
                     Some (dyn1\<lparr>lk_buf_data := reg_refresh_nout (reg_line_write reg 0 ALIGN_LEFT line)\<rparr>, st2, 0)
                   })
            })
     }"

definition llcallchain_list_show ::
  "'d win_env \<Rightarrow> mem_env \<Rightarrow> addr \<Rightarrow> track_proc \<Rightarrow> track_lwp option \<Rightarrow> dyn_llcallchain \<times> mem_st \<Rightarrow> win_st \<Rightarrow>
   ((dyn_llcallchain \<times> mem_st) \<times> win_st \<times> (chains \<times> sym_chainlist) \<times> int) option" where
  "llcallchain_list_show env me a p lwp dm st =
     (case dm of (dyn, ms) \<Rightarrow>
        do {
          let content = snprintf WIN_LINECHAR_MAX ''Call-chain list:'';
          st1 \<leftarrow> dump_line content st;
          st2 \<leftarrow> dump_line [] st1;
          let dyn1 = dyn\<lparr>lk_chain_caption := reg_text (lk_chain_caption dyn) 1 content,
            lk_pad := reg_refresh_nout (reg_erase (lk_pad dyn))\<rparr>;
          (ms1, r) \<leftarrow> mem_sym_load me a (p_pid p) ms;
          if r \<noteq> 0 then Some ((dyn1, ms1), st2, (Map.empty, sym_chainlist_zero), -1)
          else
            do {
              rs \<leftarrow> darr_elems (ll_group p lwp);
              let hits = filter (\<lambda>rec. \<not> (lx_addr rec < lk_addr dyn \<or> lx_addr rec \<ge> lk_addr dyn + lk_size dyn)) rs;
              hl \<leftarrow> chain_adds me (ms_libs ms1) (ms_sym ms1 a) 0 (map lx_callchain hits) (Map.empty, sym_chainlist_zero);
              (data, lines, st3, hl1, _) \<leftarrow> chainlist_show (we_buf_ok env) hl (lk_chain_data dyn1) (lk_buf dyn1) st2;
              Some ((dyn1\<lparr>lk_chain_data := data, lk_buf := lines\<rparr>, ms1), st3, hl1, 0)
            }
        })"

definition llcallchain_data_show ::
  "'d win_env \<Rightarrow> mem_env \<Rightarrow> dyn_llcallchain \<times> mem_st \<Rightarrow> win_st \<Rightarrow>
   ((dyn_llcallchain \<times> mem_st) \<times> win_st \<times> bool \<times> bool) option" where
  "llcallchain_data_show env me dm st =
     (case dm of (dyn, ms) \<Rightarrow>
        do {
          (ps1, pa) \<leftarrow> proc_find (lk_pid dyn) (ws_ps st);
          let st1 = st\<lparr>ws_ps := ps1\<rparr>;
          (case pa of
             None \<Rightarrow>
               do {
                 st2 \<leftarrow> win_warn_msg (we_scr env) WARN_INVALID_PID st1;
                 Some (dm, win_note_show (Some NOTE_INVALID_PID) st2, True, True)
               }
           | Some a \<Rightarrow>
               do {
                 p \<leftarrow> ps_procs ps1 a;
                 (h, la) \<leftarrow> (if lk_lwpid dyn > 0 then proc_lwp_find (p_lwp_list p) (lk_lwpid dyn) (ps_lwps ps1)
                            else Some (ps_lwps ps1, None));
                 let ps2 = ps1\<lparr>ps_lwps := h\<rparr>;
                 if lk_lwpid dyn > 0 \<and> la = None then
                   do {
                     ps3 \<leftarrow> proc_refcount_dec a ps2;
                     st2 \<leftarrow> win_warn_msg (we_scr env) WARN_INVALID_LWPID (st1\<lparr>ws_ps := ps3\<rparr>);
                     Some (dm, win_note_show (Some NOTE_INVALID_LWPID) st2, True, True)
                   }
                 else
                   do {
                     lwp \<leftarrow> lwp_deref la ps2;
                     let content = snprintf WIN_LINECHAR_MAX
                       (if la = None
                        then ''Call-chain when process accesses the memory area (pid: '' @ show_int (lk_pid dyn) @
                          '') (interval: '' @ we_intval env @ '')''
                        else ''Call-chain when thread accesses the memory area (lwpid: '' @ show_int (lk_lwpid dyn) @
                          '') (interval: '' @ we_intval env @ '')'');
                     st2 \<leftarrow> dump_head content (st1\<lparr>ws_ps := ps2\<rparr>);
                     (dyn1, st3, _) \<leftarrow> llcallchain_bufinfo_show env (ms_map ms a) p lwp
                       (dyn\<lparr>lk_msg := reg_text (lk_msg dyn) 1 content\<rparr>) st2;
                     (dm1, st4, _, _) \<leftarrow> llcallchain_list_show env me a p lwp (dyn1, ms) st3;
                     ps3 \<leftarrow> lwp_put la (ws_ps st4);
                     ps4 \<leftarrow> proc_refcount_dec a ps3;
                     Some (dm1, st4\<lparr>ws_ps := ps4\<rparr>, False, True)
                   }
               })
        })"

definition os_llcallchain_win_draw ::
  "'d win_env \<Rightarrow> mem_env \<Rightarrow> dyn_llcallchain \<times> mem_st \<Rightarrow> win_st \<Rightarrow> ((dyn_llcallchain \<times> mem_st) \<times> win_st \<times> bool) option" where
  "os_llcallchain_win_draw env me dm st = draw_end NOTE_LLCALLCHAIN (llcallchain_data_show env me dm (win_title_show st))"

definition os_llcallchain_win_scroll :: "reg_scroll_dir \<Rightarrow> dyn_llcallchain \<Rightarrow> dyn_llcallchain" where
  "os_llcallchain_win_scroll dir dyn =
     dyn\<lparr>lk_chain_data := reg_line_scroll (reg_buf_init (lk_chain_data dyn) (chain_text (lk_buf dyn))) dir\<rparr>"

end
