(* ===== verification/WinArea.thy ===== *)
theory WinArea
  imports WinChain
begin

text \<open>
  The windows on memory areas (common/win.c, common/os/os_win.c): the latency of
  the areas of a process or thread, the parts of one area on the nodes, and the
  distribution of the accesses over the nodes.
\<close>

definition NOTE_LAT :: string where "NOTE_LAT = ''Q: Quit; H: Home; B: Back; R: Refresh; C: Call-Chain; D: Distribution''"
definition NOTE_LATNODE :: string where "NOTE_LATNODE = ''Q: Quit; H: Home; B: Back; R: Refresh''"
definition NOTE_ACCDST :: string where "NOTE_ACCDST = NOTE_NONODE"

section \<open>Latency of the areas\<close>

record dyn_lat =
  lt_pid :: int
  lt_lwpid :: int
  lt_msg :: win_reg
  lt_caption :: win_reg
  lt_data :: win_reg
  lt_buf :: "lat_line list"

definition lat_text :: "'d floats \<Rightarrow> lat_line list \<Rightarrow> int \<Rightarrow> string" where
  "lat_text F lines idx = win_lat_str_build F WIN_LINECHAR_MAX (lines ! nat idx)"

text \<open>The result of creating the region of the lines is ignored.\<close>

definition lat_dyn_create :: "'d win_env \<Rightarrow> cmd \<Rightarrow> win_reg list + (win_type \<times> dyn_lat)" where
  "lat_dyn_create env c =
     (let sc = we_scr env
      in if \<not> we_dyn_ok env then Inl []
         else
           lay sc 1 2 A_BOLD [] (\<lambda>i msg.
           lay sc i 2 (A_BOLD + A_UNDERLINE) [msg] (\<lambda>i caption.
           Inr (if c_lwpid c \<noteq> 0 then WIN_TYPE_LAT_LWP else WIN_TYPE_LAT_PROC,
             \<lparr>lt_pid = c_pid c, lt_lwpid = c_lwpid c, lt_msg = msg, lt_caption = caption,
              lt_data = scroll_reg (lat_text (we_floats env) []) (snd (lay_any sc i (sc_height sc - i - 2) 0)),
              lt_buf = []\<rparr>))))"

definition lat_win_destroy :: "dyn_lat \<Rightarrow> win_reg list" where
  "lat_win_destroy dyn = map reg_win_destroy [lt_msg dyn, lt_caption dyn, lt_data dyn]"

text \<open>The result: the window, the state and the average latency, None when it is not known.\<close>

definition lat_data_get ::
  "'d win_env \<Rightarrow> map_proc \<Rightarrow> track_proc \<Rightarrow> track_lwp option \<Rightarrow> dyn_lat \<Rightarrow> win_st \<Rightarrow> (dyn_lat \<times> win_st \<times> int option) option" where
  "lat_data_get env mp p lwp dyn st =
     do {
       let caption = reg_refresh_nout (reg_erase (lt_caption dyn));
       let data = reg_refresh_nout (reg_erase (lt_data dyn));
       buf \<leftarrow> win_lat_buf_create (we_buf_ok env) (p_pid p) mp (lwp_id0 lwp);
       r \<leftarrow> lat_lines buf (ll_group p lwp);
       (case r of
          None \<Rightarrow> Some (dyn\<lparr>lt_caption := caption, lt_data := data\<rparr>, st, None)
        | Some (lines, lat) \<Rightarrow>
            do {
              let content = lat_caption WIN_LINECHAR_MAX;
              st1 \<leftarrow> dump_line content st;
              let n = int (length lines);
              Some (dyn\<lparr>lt_caption := reg_refresh_nout (reg_line_write caption 1 ALIGN_LEFT content),
                      lt_data := reg_refresh_nout
                        (reg_scroll_show (data\<lparr>nlines_total := n\<rparr>) n (lat_text (we_floats env) lines)),
                      lt_buf := lines\<rparr>, st1, Some lat)
            })
     }"

definition win_lat_data_show ::
  "'d win_env \<Rightarrow> map_proc \<Rightarrow> track_proc \<Rightarrow> dyn_lat \<Rightarrow> win_st \<Rightarrow> (dyn_lat \<times> win_st \<times> bool \<times> bool) option" where
  "win_lat_data_show env mp p dyn st =
     do {
       (h, la) \<leftarrow> (if lt_lwpid dyn \<noteq> 0 then proc_lwp_find (p_lwp_list p) (lt_lwpid dyn) (ps_lwps (ws_ps st))
                  else Some (ps_lwps (ws_ps st), None));
       let st1 = st\<lparr>ws_ps := (ws_ps st)\<lparr>ps_lwps := h\<rparr>\<rparr>;
       if lt_lwpid dyn \<noteq> 0 \<and> (la = None \<or> \<not> we_lwp_valid env (p_pid p) (lt_lwpid dyn)) then
         do { st2 \<leftarrow> win_invalid_lwp (we_scr env) st1; Some (dyn, st2, True, False) }
       else
         do {
           lwp \<leftarrow> lwp_deref la (ws_ps st1);
           (dyn1, st2, lat) \<leftarrow> lat_data_get env mp p lwp dyn (st1\<lparr>ws_dump := dump_cache_enable (ws_dump st1)\<rparr>);
           let st3 = st2\<lparr>ws_dump := dump_cache_disable (ws_dump st2)\<rparr>;
           let lat_str = (case lat of None \<Rightarrow> ''unknown''
             | Some l \<Rightarrow> snprintf 32 (show_nat (unat (f_cyc2ns (we_floats env) l)) @ ''ns''));
           let content = snprintf WIN_LINECHAR_MAX
             ((case lwp of None \<Rightarrow> ''Monitoring memory areas (pid: '' @ show_int (p_pid p)
               | Some l \<Rightarrow> ''Monitoring memory areas (lwpid: '' @ show_int (l_id l)) @
              '', AVG.LAT: '' @ lat_str @ '', interval: '' @ we_intval env @ '')'');
           st4 \<leftarrow> dump_head content st3;
           d \<leftarrow> dump_cache_flush (ws_dump st4);
           ps1 \<leftarrow> lwp_put la (ws_ps st4);
           Some (dyn1\<lparr>lt_msg := reg_text (lt_msg dyn1) 1 content\<rparr>, st4\<lparr>ws_dump := d, ws_ps := ps1\<rparr>, False, True)
         }
     }"

text \<open>A warning and a note: what the windows of memory areas say when they cannot be drawn.\<close>

definition warn_note :: "scr \<Rightarrow> warn_type \<Rightarrow> string \<Rightarrow> win_st \<Rightarrow> win_st option" where
  "warn_note sc w note st = do { st1 \<leftarrow> win_warn_msg sc w st; Some (win_note_show (Some note) st1) }"

definition os_lat_win_draw ::
  "'d win_env \<Rightarrow> mem_env \<Rightarrow> dyn_lat \<times> mem_st \<Rightarrow> win_st \<Rightarrow> ((dyn_lat \<times> mem_st) \<times> win_st \<times> bool) option" where
  "os_lat_win_draw env me dm st =
     (case dm of (dyn, ms) \<Rightarrow>
        if \<not> wm_ll_started me then
          do { st1 \<leftarrow> warn_note (we_scr env) WARN_LL_NOT_SUPPORT NOTE_LAT st; Some (dm, st1, False) }
        else
          do {
            (ps1, pa) \<leftarrow> proc_find (lt_pid dyn) (ws_ps st);
            let st1 = st\<lparr>ws_ps := ps1\<rparr>;
            (case pa of
               None \<Rightarrow>
                 do { st2 \<leftarrow> warn_note (we_scr env) WARN_INVALID_PID NOTE_INVALID_PID st1; Some (dm, st2, False) }
             | Some a \<Rightarrow>
                 do {
                   p \<leftarrow> ps_procs ps1 a;
                   (mp, r) \<leftarrow> map_proc_load (wm_map_ok me) (wm_map_file me (p_pid p)) (ms_map ms a);
                   let ms1 = ms\<lparr>ms_map := (ms_map ms)(a := mp)\<rparr>;
                   if r \<noteq> 0 then
                     do {
                       ps2 \<leftarrow> proc_refcount_dec a ps1;
                       st2 \<leftarrow> warn_note (we_scr env) WARN_INVALID_MAP NOTE_INVALID_MAP (st1\<lparr>ws_ps := ps2\<rparr>);
                       Some ((dyn, ms1), st2, False)
                     }
                   else
                     do {
                       (dyn1, st2, note_out, ret) \<leftarrow> win_lat_data_show env mp p dyn (win_title_show st1);
                       let st3 = (if \<not> note_out then win_note_show (Some NOTE_LAT) st2 else st2);
                       ps2 \<leftarrow> proc_refcount_dec a (ws_ps st3);
                       Some ((dyn1, ms1), win_log [Ev_update_all] (st3\<lparr>ws_ps := ps2\<rparr>), ret)
                     }
                 })
          })"

definition lat_win_scroll :: "'d floats \<Rightarrow> reg_scroll_dir \<Rightarrow> dyn_lat \<Rightarrow> dyn_lat" where
  "lat_win_scroll F dir dyn =
     dyn\<lparr>lt_data := reg_line_scroll (reg_buf_init (lt_data dyn) (lat_text F (lt_buf dyn))) dir\<rparr>"

definition lat_win_scrollenter :: "cmd \<Rightarrow> dyn_lat \<Rightarrow> cmd option option" where
  "lat_win_scrollenter stack dyn =
     (let hl = highlight (scroll (lt_data dyn))
      in if hl = -1 then Some None
         else do {
           line \<leftarrow> arr_get (lt_buf dyn) hl;
           Some (Some (stack\<lparr>c_id := CMD_LATNODE_ID, c_pid := la_pid line, c_lwpid := la_lwpid line,
             c_addr := unat (la_addr line), c_size := unat (la_size line)\<rparr>))
         })"

section \<open>The parts of an area on the nodes\<close>

record dyn_latnode =
  ln_pid :: int
  ln_lwpid :: int
  ln_addr :: u64
  ln_size :: u64
  ln_msg :: win_reg
  ln_note :: win_reg
  ln_caption :: win_reg
  ln_data :: win_reg
  ln_buf :: "lat_line list"

definition latnode_dyn_create :: "'d win_env \<Rightarrow> cmd \<Rightarrow> win_reg list + (win_type \<times> dyn_latnode)" where
  "latnode_dyn_create env c =
     (let sc = we_scr env
      in if \<not> we_dyn_ok env then Inl []
         else
           lay sc 1 2 A_BOLD [] (\<lambda>i msg.
           lay sc i 2 A_BOLD [msg] (\<lambda>i note.
           lay sc i 2 (A_BOLD + A_UNDERLINE) [msg, note] (\<lambda>i caption.
           Inr (if c_lwpid c \<noteq> 0 then WIN_TYPE_LATNODE_LWP else WIN_TYPE_LATNODE_PROC,
             \<lparr>ln_pid = c_pid c, ln_lwpid = c_lwpid c, ln_addr = of_nat (c_addr c), ln_size = of_nat (c_size c),
              ln_msg = msg, ln_note = note, ln_caption = caption,
              ln_data = scroll_reg (lat_text (we_floats env) []) (snd (lay_any sc i (sc_height sc - i - 2) 0)),
              ln_buf = []\<rparr>)))))"

definition latnode_win_destroy :: "dyn_latnode \<Rightarrow> win_reg list" where
  "latnode_win_destroy dyn = map reg_win_destroy [ln_msg dyn, ln_note dyn, ln_caption dyn, ln_data dyn]"

definition latnode_data_get ::
  "'d win_env \<Rightarrow> map_proc \<Rightarrow> track_proc \<Rightarrow> track_lwp option \<Rightarrow> dyn_latnode \<Rightarrow> (dyn_latnode \<times> int) option" where
  "latnode_data_get env mp p lwp dyn =
     do {
       let caption = reg_refresh_nout (reg_erase (ln_caption dyn));
       let data = reg_refresh_nout (reg_erase (ln_data dyn));
       buf \<leftarrow> latnode_buf_create (we_buf_ok env) (p_pid p) mp (lwp_id0 lwp) (ln_addr dyn) (ln_size dyn);
       r \<leftarrow> lat_lines buf (ll_group p lwp);
       Some (case r of
          None \<Rightarrow>
            (dyn\<lparr>ln_caption := reg_refresh_nout (reg_line_write caption 1 ALIGN_LEFT
                  ''Failed to get the process NUMA mapping!''), ln_data := data\<rparr>, -1)
        | Some (lines, lat) \<Rightarrow>
            let n = int (length lines)
            in (dyn\<lparr>ln_caption := reg_refresh_nout (reg_line_write caption 1 ALIGN_LEFT (latnode_caption WIN_LINECHAR_MAX)),
                  ln_data := reg_refresh_nout
                    (reg_scroll_show (data\<lparr>nlines_total := n\<rparr>) n (lat_text (we_floats env) lines)),
                  ln_buf := lines\<rparr>, 0))
     }"

definition latnode_data_show ::
  "'d win_env \<Rightarrow> map_proc \<Rightarrow> track_proc \<Rightarrow> dyn_latnode \<Rightarrow> win_st \<Rightarrow> (dyn_latnode \<times> win_st \<times> bool \<times> bool) option" where
  "latnode_data_show env mp p dyn st =
     do {
       (h, la) \<leftarrow> (if ln_lwpid dyn \<noteq> 0 then proc_lwp_find (p_lwp_list p) (ln_lwpid dyn) (ps_lwps (ws_ps st))
                  else Some (ps_lwps (ws_ps st), None));
       let st1 = st\<lparr>ws_ps := (ws_ps st)\<lparr>ps_lwps := h\<rparr>\<rparr>;
       if ln_lwpid dyn \<noteq> 0 \<and> la = None then
         do { st2 \<leftarrow> warn_note (we_scr env) WARN_INVALID_LWPID NOTE_INVALID_LWPID st1; Some (dyn, st2, True, False) }
       else
         do {
           lwp \<leftarrow> lwp_deref la (ws_ps st1);
           let content1 = snprintf WIN_LINECHAR_MAX
             (''Break down of memory area for physical memory on node (interval: '' @ we_intval env @ '')'');
           st2 \<leftarrow> dump_head content1 st1;
           let area = ''Memory area('' @ hex_upper (unat (ln_addr dyn)) @ '', '' @ win_size2str (we_floats env) (ln_size dyn) 32;
           let content2 = snprintf WIN_LINECHAR_MAX
             (area @ (case lwp of Some l \<Rightarrow> ''), thread('' @ show_int (l_id l) | None \<Rightarrow> ''), process('' @ show_int (p_pid p)) @ '')'');
           st3 \<leftarrow> dump_head content2 st2;
           (dyn1, _) \<leftarrow> latnode_data_get env mp p lwp
             (dyn\<lparr>ln_msg := reg_text (ln_msg dyn) 1 content1, ln_note := reg_text (ln_note dyn) 1 content2\<rparr>);
           ps1 \<leftarrow> lwp_put la (ws_ps st3);
           Some (dyn1, st3\<lparr>ws_ps := ps1\<rparr>, False, True)
         }
     }"

text \<open>The pages of the area are asked for at every drawing; the entry found is the i-th mapping.\<close>

definition os_latnode_win_draw ::
  "'d win_env \<Rightarrow> mem_env \<Rightarrow> dyn_latnode \<times> mem_st \<Rightarrow> win_st \<Rightarrow> ((dyn_latnode \<times> mem_st) \<times> win_st \<times> bool) option" where
  "os_latnode_win_draw env me dm st =
     (case dm of (dyn, ms) \<Rightarrow>
        do {
          (ps1, pa) \<leftarrow> proc_find (ln_pid dyn) (ws_ps st);
          let st1 = st\<lparr>ws_ps := ps1\<rparr>;
          (case pa of
             None \<Rightarrow>
               do { st2 \<leftarrow> warn_note (we_scr env) WARN_INVALID_PID NOTE_INVALID_PID st1; Some (dm, st2, False) }
           | Some a \<Rightarrow>
               do {
                 p \<leftarrow> ps_procs ps1 a;
                 entry \<leftarrow> map_entry_find (ms_map ms a) (ln_addr dyn) (ln_size dyn);
                 (case entry of
                    None \<Rightarrow>
                      do {
                        ps2 \<leftarrow> proc_refcount_dec a ps1;
                        st2 \<leftarrow> warn_note (we_scr env) WARN_INVALID_MAP NOTE_INVALID_MAP (st1\<lparr>ws_ps := ps2\<rparr>);
                        Some (dm, st2, False)
                      }
                  | Some i \<Rightarrow>
                      do {
                        arr \<leftarrow> da_arr (mp_map (ms_map ms a));
                        (e, r) \<leftarrow> map_map2numa (wm_map_ok me) (wm_pgsize me) (wm_query me (p_pid p)) (arr ! i);
                        let mp = (ms_map ms a)\<lparr>mp_map := (mp_map (ms_map ms a))\<lparr>da_arr := Some (arr[i := e])\<rparr>\<rparr>;
                        let ms1 = ms\<lparr>ms_map := (ms_map ms)(a := mp)\<rparr>;
                        if r \<noteq> 0 then
                          do {
                            ps2 \<leftarrow> proc_refcount_dec a ps1;
                            st2 \<leftarrow> warn_note (we_scr env) WARN_INVALID_NUMAMAP NOTE_INVALID_NUMAMAP (st1\<lparr>ws_ps := ps2\<rparr>);
                            Some ((dyn, ms1), st2, False)
                          }
                        else
                          do {
                            (dyn1, st2, note_out, ret) \<leftarrow> latnode_data_show env mp p dyn (win_title_show st1);
                            let st3 = (if \<not> note_out then win_note_show (Some NOTE_LATNODE) st2 else st2);
                            ps2 \<leftarrow> proc_refcount_dec a (ws_ps st3);
                            Some ((dyn1, ms1), win_log [Ev_update_all] (st3\<lparr>ws_ps := ps2\<rparr>), ret)
                          }
                      })
               })
        })"

definition latnode_win_scroll :: "'d floats \<Rightarrow> reg_scroll_dir \<Rightarrow> dyn_latnode \<Rightarrow> dyn_latnode" where
  "latnode_win_scroll F dir dyn =
     dyn\<lparr>ln_data := reg_line_scroll (reg_buf_init (ln_data dyn) (lat_text F (ln_buf dyn))) dir\<rparr>"

section \<open>The distribution of the accesses\<close>

record 'd dyn_accdst =
  as_pid :: int
  as_lwpid :: int
  as_msg :: win_reg
  as_caption :: win_reg
  as_data :: win_reg
  as_hint :: win_reg
  as_buf :: "'d accdst_line list"

definition accdst_text :: "'d floats \<Rightarrow> 'd accdst_line list \<Rightarrow> int \<Rightarrow> string" where
  "accdst_text F lines idx = accdst_str_build F WIN_LINECHAR_MAX (lines ! nat idx)"

definition accdst_dyn_create :: "'d win_env \<Rightarrow> node_group \<Rightarrow> cmd \<Rightarrow> win_reg list + (win_type \<times> 'd dyn_accdst)" where
  "accdst_dyn_create env g c =
     (let sc = we_scr env; F = we_floats env; nnodes = node_num g; buf = replicate (nat nnodes) (accdst_line_zero F)
      in if \<not> we_buf_ok env nnodes \<or> \<not> we_dyn_ok env then Inl []
         else
           lay sc 1 2 A_BOLD [] (\<lambda>i msg.
           lay sc i 2 (A_BOLD + A_UNDERLINE) [msg] (\<lambda>i caption.
           lay sc i nnodes 0 [msg, caption] (\<lambda>i data.
           Inr (if c_lwpid c \<noteq> 0 then WIN_TYPE_ACCDST_LWP else WIN_TYPE_ACCDST_PROC,
             \<lparr>as_pid = c_pid c, as_lwpid = c_lwpid c, as_msg = msg, as_caption = caption,
              as_data = scroll_reg (accdst_text F buf) data,
              as_hint = snd (lay_any sc i (sc_height sc - i - 1) A_BOLD), as_buf = buf\<rparr>)))))"

definition accdst_win_destroy :: "'d dyn_accdst \<Rightarrow> win_reg list" where
  "accdst_win_destroy dyn = map reg_win_destroy [as_msg dyn, as_caption dyn, as_data dyn, as_hint dyn]"

text \<open>
  The accesses of the records by node: the array of the nodes and the number of
  all accesses.  None: an allocation or the query of the kernel failed.
\<close>

definition accdst_nodes ::
  "'d win_env \<Rightarrow> mem_env \<Rightarrow> int \<Rightarrow> nat \<Rightarrow> llrecgrp \<Rightarrow> (map_nodedst list \<times> int) option option" where
  "accdst_nodes env me pid nnodes_max grp =
     (if \<not> we_dst_ok env then Some None
      else
        do {
          r \<leftarrow> llrec2addr (we_rec_ok env) grp;
          (case r of
             None \<Rightarrow> Some None
           | Some (addrs, lats) \<Rightarrow>
               let dst = replicate nnodes_max \<lparr>nd_naccess = 0, nd_total_lat = 0\<rparr>
               in if length addrs > 0 then
                    do {
                      (dst1, tot, ret) \<leftarrow> map_addr2nodedst (wm_query_ok me) (wm_query me pid) addrs lats dst nnodes_max;
                      Some (if ret \<noteq> 0 then None else Some (dst1, case tot of Some n \<Rightarrow> n | None \<Rightarrow> 0))
                    }
                  else Some (Some (dst, 0)))
        })"

text \<open>The function always answers B_FALSE.\<close>

definition accdst_data_show ::
  "'d win_env \<Rightarrow> mem_env \<Rightarrow> track_proc \<Rightarrow> 'd dyn_accdst \<Rightarrow> win_st \<Rightarrow> ('d dyn_accdst \<times> win_st \<times> bool \<times> bool) option" where
  "accdst_data_show env me p dyn st =
     do {
       (h, la) \<leftarrow> (if as_lwpid dyn \<noteq> 0 then proc_lwp_find (p_lwp_list p) (as_lwpid dyn) (ps_lwps (ws_ps st))
                  else Some (ps_lwps (ws_ps st), None));
       let st1 = st\<lparr>ws_ps := (ws_ps st)\<lparr>ps_lwps := h\<rparr>\<rparr>;
       if as_lwpid dyn \<noteq> 0 \<and> la = None then
         do { st2 \<leftarrow> win_invalid_lwp (we_scr env) st1; Some (dyn, st2, True, False) }
       else
         do {
           lwp \<leftarrow> lwp_deref la (ws_ps st1);
           let g = ws_ng st1;
           let nnodes_max = length (ng_nodes g);
           r \<leftarrow> accdst_nodes env me (p_pid p) nnodes_max (ll_group p lwp);
           (dyn1, st4) \<leftarrow>
             (case r of
                None \<Rightarrow> Some (dyn, st1)
              | Some (nodedst_arr, naccess_total) \<Rightarrow>
                  do {
                    let content = snprintf WIN_LINECHAR_MAX
                      (''Memory access node distribution overview ('' @
                       (case lwp of None \<Rightarrow> ''pid: '' @ show_int (p_pid p) | Some l \<Rightarrow> ''lwpid: '' @ show_int (l_id l)) @
                       '', interval: '' @ we_intval env @ '')'');
                    st2 \<leftarrow> dump_head content st1;
                    st3 \<leftarrow> dump_line (accdst_caption WIN_LINECHAR_MAX) st2;
                    let nnodes = node_num g;
                    let data = (reg_erase (as_data dyn))\<lparr>nlines_total := nnodes\<rparr>;
                    lines \<leftarrow> indexed_lines (accdst_data_save (we_floats env) g nodedst_arr (int nnodes_max) naccess_total)
                      (nat nnodes) 0 (as_buf dyn);
                    Some (dyn\<lparr>as_msg := reg_text (as_msg dyn) 1 content,
                            as_caption := reg_text (as_caption dyn) 1 (accdst_caption WIN_LINECHAR_MAX),
                            as_data := reg_refresh_nout (reg_scroll_show data nnodes (accdst_text (we_floats env) lines)),
                            as_hint := reg_refresh_nout (reg_erase (as_hint dyn)), as_buf := lines\<rparr>, st3)
                  });
           ps1 \<leftarrow> lwp_put la (ws_ps st4);
           Some (dyn1, st4\<lparr>ws_ps := ps1\<rparr>, False, False)
         }
     }"

definition accdst_win_draw ::
  "'d win_env \<Rightarrow> mem_env \<Rightarrow> 'd dyn_accdst \<Rightarrow> win_st \<Rightarrow> ('d dyn_accdst \<times> win_st \<times> bool) option" where
  "accdst_win_draw env me dyn st =
     do {
       (ps1, pa) \<leftarrow> proc_find (as_pid dyn) (ws_ps st);
       let st1 = st\<lparr>ws_ps := ps1\<rparr>;
       (case pa of
          None \<Rightarrow> do { st2 \<leftarrow> win_invalid_proc (we_scr env) st1; Some (dyn, st2, False) }
        | Some a \<Rightarrow>
            do {
              p \<leftarrow> ps_procs ps1 a;
              (dyn1, st2, note_out, ret) \<leftarrow> accdst_data_show env me p dyn (win_title_show st1);
              let st3 = (if \<not> note_out then win_note_show (Some NOTE_ACCDST) st2 else st2);
              ps2 \<leftarrow> proc_refcount_dec a (ws_ps st3);
              Some (dyn1, win_log [Ev_update_all] (st3\<lparr>ws_ps := ps2\<rparr>), ret)
            })
     }"

definition accdst_win_scroll :: "'d floats \<Rightarrow> reg_scroll_dir \<Rightarrow> 'd dyn_accdst \<Rightarrow> 'd dyn_accdst" where
  "accdst_win_scroll F dir dyn =
     dyn\<lparr>as_data := reg_line_scroll (reg_buf_init (as_data dyn) (accdst_text F (as_buf dyn))) dir\<rparr>"

end
