(* ===== verification/WinDyn.thy ===== *)
theory WinDyn
  imports WinNode WinPqos WinArea Page
begin

text \<open>
  Making, drawing and closing a window by its command (win_dyn_init of
  common/win.c and the functions it stores).  The page list (Page) knows of a
  window only its type, its functions and what its command says; the theorem on
  making windows shows that the real windows agree with that, and that their
  regions share the screen out without overlapping.
\<close>

section \<open>All windows\<close>

datatype 'd any_win =
    AW_topnproc "'d dyn_topnproc"
  | AW_moniproc "'d dyn_moni"
  | AW_monilwp "'d dyn_moni"
  | AW_topnlwp "'d dyn_topnlwp"
  | AW_nodeoverview "'d dyn_nodeoverview"
  | AW_nodedetail dyn_nodedetail
  | AW_callchain dyn_callchain
  | AW_lat dyn_lat
  | AW_latnode dyn_latnode
  | AW_accdst "'d dyn_accdst"
  | AW_llcallchain dyn_llcallchain
  | AW_pqos_cmt "'d dyn_pqos_cmt_proc"
  | AW_pqos_mbm "'d dyn_pqos_mbm_proc"

definition moni_win :: "win_type \<times> 'd dyn_moni \<Rightarrow> win_type \<times> 'd any_win" where
  "moni_win tw = (fst tw, if fst tw = WIN_TYPE_MONILWP then AW_monilwp (snd tw) else AW_moniproc (snd tw))"

text \<open>
  The window of a command: desc is the description the command carries, ty0 the
  type the structure has before.  The left value is that of the window: what its
  function has made and not closed again.
\<close>

definition win_new ::
  "'d win_env \<Rightarrow> string \<Rightarrow> cmd \<Rightarrow> win_type \<Rightarrow> win_st \<Rightarrow> ((win_reg list + (win_type \<times> 'd any_win)) \<times> win_st) option" where
  "win_new env desc c ty0 st =
     (let g = ws_ng st; new = \<lambda>r. Some (r, st)
      in case c_id c of
        CMD_IR_NORMALIZE_ID \<Rightarrow>
          new (map_sum id (\<lambda>d. (WIN_TYPE_TOPNPROC, AW_topnproc d)) (topnproc_dyn_create env WIN_TYPE_TOPNPROC))
      | CMD_HOME_ID \<Rightarrow>
          new (map_sum id (\<lambda>d. (WIN_TYPE_RAW_NUM, AW_topnproc d)) (topnproc_dyn_create env WIN_TYPE_RAW_NUM))
      | CMD_MONITOR_ID \<Rightarrow> new (map_sum id moni_win (moni_dyn_create env g c))
      | CMD_LWP_ID \<Rightarrow> new (map_sum id (\<lambda>d. (WIN_TYPE_TOPNLWP, AW_topnlwp d)) (topnlwp_dyn_create env c))
      | CMD_NODE_OVERVIEW_ID \<Rightarrow>
          new (map_sum id (\<lambda>d. (WIN_TYPE_NODE_OVERVIEW, AW_nodeoverview d)) (nodeoverview_dyn_create env g))
      | CMD_NODE_DETAIL_ID \<Rightarrow>
          map_option (map_prod (map_sum id (\<lambda>d. (WIN_TYPE_NODE_DETAIL, AW_nodedetail d))) id) (nodedetail_dyn_create env c st)
      | CMD_CALLCHAIN_ID \<Rightarrow> new (map_sum id (\<lambda>d. (WIN_TYPE_CALLCHAIN, AW_callchain d)) (callchain_dyn_create env c))
      | CMD_LAT_ID \<Rightarrow> new (map_sum id (map_prod id AW_lat) (lat_dyn_create env c))
      | CMD_LATNODE_ID \<Rightarrow> new (map_sum id (map_prod id AW_latnode) (latnode_dyn_create env c))
      | CMD_ACCDST_ID \<Rightarrow> new (map_sum id (map_prod id AW_accdst) (accdst_dyn_create env g c))
      | CMD_LLCALLCHAIN_ID \<Rightarrow>
          new (map_sum id (\<lambda>d. (WIN_TYPE_LLCALLCHAIN, AW_llcallchain d)) (os_llcallchain_dyn_create env c desc))
      | CMD_PQOS_CMT_ID \<Rightarrow> new (map_sum id (map_prod id AW_pqos_cmt) (pqos_cmt_dyn_create env c))
      | CMD_PQOS_MBM_ID \<Rightarrow> new (map_sum id (map_prod id AW_pqos_mbm) (pqos_mbm_dyn_create env c ty0))
      | _ \<Rightarrow> new (Inl []))"

text \<open>The function win->draw; the windows without a table of mappings leave it alone.\<close>

definition win_drawn ::
  "('w \<Rightarrow> 'd any_win) \<Rightarrow> mem_st \<Rightarrow> ('w \<times> win_st \<times> bool) option \<Rightarrow> (('d any_win \<times> mem_st) \<times> win_st \<times> bool) option" where
  "win_drawn f ms r = map_option (\<lambda>(d, st, ret). ((f d, ms), st, ret)) r"

definition win_drawn_mem ::
  "('w \<Rightarrow> 'd any_win) \<Rightarrow> (('w \<times> mem_st) \<times> win_st \<times> bool) option \<Rightarrow> (('d any_win \<times> mem_st) \<times> win_st \<times> bool) option" where
  "win_drawn_mem f r = map_option (\<lambda>((d, ms), st, ret). ((f d, ms), st, ret)) r"

definition any_draw ::
  "'d win_env \<Rightarrow> mem_env \<Rightarrow> win_type \<Rightarrow> 'd any_win \<times> mem_st \<Rightarrow> win_st \<Rightarrow> (('d any_win \<times> mem_st) \<times> win_st \<times> bool) option" where
  "any_draw env me ty wm st =
     (case wm of (w, ms) \<Rightarrow> case w of
        AW_topnproc d \<Rightarrow> win_drawn AW_topnproc ms (topnproc_win_draw env ty d st)
      | AW_moniproc d \<Rightarrow> win_drawn AW_moniproc ms (moniproc_win_draw env d st)
      | AW_monilwp d \<Rightarrow> win_drawn AW_monilwp ms (monilwp_win_draw env d st)
      | AW_topnlwp d \<Rightarrow> win_drawn AW_topnlwp ms (topnlwp_win_draw env d st)
      | AW_nodeoverview d \<Rightarrow> win_drawn AW_nodeoverview ms (nodeoverview_win_draw env d st)
      | AW_nodedetail d \<Rightarrow> win_drawn AW_nodedetail ms (nodedetail_win_draw env d st)
      | AW_callchain d \<Rightarrow> win_drawn_mem AW_callchain (callchain_win_draw env me (d, ms) st)
      | AW_lat d \<Rightarrow> win_drawn_mem AW_lat (os_lat_win_draw env me (d, ms) st)
      | AW_latnode d \<Rightarrow> win_drawn_mem AW_latnode (os_latnode_win_draw env me (d, ms) st)
      | AW_accdst d \<Rightarrow> win_drawn AW_accdst ms (accdst_win_draw env me d st)
      | AW_llcallchain d \<Rightarrow> win_drawn_mem AW_llcallchain (os_llcallchain_win_draw env me (d, ms) st)
      | AW_pqos_cmt d \<Rightarrow> win_drawn AW_pqos_cmt ms (pqos_cmt_win_draw env d st)
      | AW_pqos_mbm d \<Rightarrow> win_drawn AW_pqos_mbm ms (pqos_mbm_win_draw env d st))"

text \<open>The function win->destroy: the regions after it.\<close>

definition any_destroy :: "'d any_win \<Rightarrow> win_reg list" where
  "any_destroy w =
     (case w of
        AW_topnproc d \<Rightarrow> topnproc_win_destroy d
      | AW_moniproc d \<Rightarrow> moniproc_win_destroy d
      | AW_monilwp d \<Rightarrow> monilwp_win_destroy d
      | AW_topnlwp d \<Rightarrow> topnlwp_win_destroy d
      | AW_nodeoverview d \<Rightarrow> nodeoverview_win_destroy d
      | AW_nodedetail d \<Rightarrow> nodedetail_win_destroy d
      | AW_callchain d \<Rightarrow> callchain_win_destroy d
      | AW_lat d \<Rightarrow> lat_win_destroy d
      | AW_latnode d \<Rightarrow> latnode_win_destroy d
      | AW_accdst d \<Rightarrow> accdst_win_destroy d
      | AW_llcallchain d \<Rightarrow> os_llcallchain_win_destroy d
      | AW_pqos_cmt d \<Rightarrow> pqos_cmt_win_destroy d
      | AW_pqos_mbm d \<Rightarrow> pqos_mbm_win_destroy d)"

text \<open>The regions of a window from the top, and the one that is scrolled.\<close>

definition any_regs :: "'d any_win \<Rightarrow> win_reg list" where
  "any_regs w =
     (case w of
        AW_topnproc d \<Rightarrow> [tp_summary d, tp_caption d, tp_data d, tp_hint d]
      | AW_moniproc d \<Rightarrow> [mo_msg d, mo_caption_cur d, mo_data_cur d, mo_hint d]
      | AW_monilwp d \<Rightarrow> [mo_msg d, mo_caption_cur d, mo_data_cur d, mo_hint d]
      | AW_topnlwp d \<Rightarrow> [tw_msg d, tw_caption d, tw_data d, tw_hint d]
      | AW_nodeoverview d \<Rightarrow> [no_msg d, no_caption_cur d, no_data_cur d, no_hint d]
      | AW_nodedetail d \<Rightarrow> [nt_msg d, nt_node_data d, nt_hint d]
      | AW_callchain d \<Rightarrow> [ck_msg d, ck_caption d, ck_pad d, ck_data d, ck_hint d]
      | AW_lat d \<Rightarrow> [lt_msg d, lt_caption d, lt_data d]
      | AW_latnode d \<Rightarrow> [ln_msg d, ln_note d, ln_caption d, ln_data d]
      | AW_accdst d \<Rightarrow> [as_msg d, as_caption d, as_data d, as_hint d]
      | AW_llcallchain d \<Rightarrow> [lk_msg d, lk_buf_caption d, lk_buf_data d, lk_chain_caption d, lk_pad d, lk_chain_data d]
      | AW_pqos_cmt d \<Rightarrow> [pc_summary d, pc_caption d, pc_data d, pc_hint d]
      | AW_pqos_mbm d \<Rightarrow> [pb_summary d, pb_caption d, pb_data d, pb_hint d])"

definition any_data :: "'d any_win \<Rightarrow> win_reg option" where
  "any_data w =
     (case w of
        AW_topnproc d \<Rightarrow> Some (tp_data d)
      | AW_moniproc d \<Rightarrow> Some (mo_data_cur d)
      | AW_monilwp d \<Rightarrow> Some (mo_data_cur d)
      | AW_topnlwp d \<Rightarrow> Some (tw_data d)
      | AW_nodeoverview d \<Rightarrow> Some (no_data_cur d)
      | AW_nodedetail d \<Rightarrow> None
      | AW_callchain d \<Rightarrow> Some (ck_data d)
      | AW_lat d \<Rightarrow> Some (lt_data d)
      | AW_latnode d \<Rightarrow> Some (ln_data d)
      | AW_accdst d \<Rightarrow> Some (as_data d)
      | AW_llcallchain d \<Rightarrow> Some (lk_chain_data d)
      | AW_pqos_cmt d \<Rightarrow> Some (pc_data d)
      | AW_pqos_mbm d \<Rightarrow> Some (pb_data d))"

text \<open>What the page list knows of the private data of a window (the record dyn) holds of the window.\<close>

definition win_agrees :: "'d any_win \<Rightarrow> dyn \<Rightarrow> bool" where
  "win_agrees w y \<longleftrightarrow>
     (case w of
        AW_topnproc d \<Rightarrow> True
      | AW_moniproc d \<Rightarrow> mo_pid d = d_pid y
      | AW_monilwp d \<Rightarrow> mo_pid d = d_pid y \<and> mo_lwpid d = d_lwpid y
      | AW_topnlwp d \<Rightarrow> tw_pid d = d_pid y
      | AW_nodeoverview d \<Rightarrow> True
      | AW_nodedetail d \<Rightarrow> nt_nid d = d_pid y
      | AW_callchain d \<Rightarrow> ck_pid d = d_pid y \<and> ck_lwpid d = d_lwpid y \<and> ck_ui_countid d = d_countid y
      | AW_lat d \<Rightarrow> lt_pid d = d_pid y \<and> lt_lwpid d = d_lwpid y
      | AW_latnode d \<Rightarrow> ln_pid d = d_pid y \<and> ln_lwpid d = d_lwpid y \<and> ln_addr d = of_nat (d_addr y) \<and>
          ln_size d = of_nat (d_size y)
      | AW_accdst d \<Rightarrow> as_pid d = d_pid y \<and> as_lwpid d = d_lwpid y
      | AW_llcallchain d \<Rightarrow> lk_pid d = d_pid y \<and> lk_lwpid d = d_lwpid y \<and> lk_addr d = of_nat (d_addr y) \<and>
          lk_size d = of_nat (d_size y)
      | AW_pqos_cmt d \<Rightarrow> pc_pid d = d_pid y \<and> pc_lwpid d = d_lwpid y
      | AW_pqos_mbm d \<Rightarrow> pb_pid d = d_pid y \<and> pb_lwpid d = d_lwpid y) \<and>
     (case any_data w of None \<Rightarrow> True | Some r \<Rightarrow> highlight (scroll r) = d_highlight y)"

section \<open>Sharing out the screen\<close>

text \<open>Regions over the full width, one below the other from line y to the line before e.\<close>

fun stacked :: "scr \<Rightarrow> int \<Rightarrow> win_reg list \<Rightarrow> int \<Rightarrow> bool" where
  "stacked sc y [] e \<longleftrightarrow> e = y"
| "stacked sc y (r # rs) e \<longleftrightarrow>
     begin_x r = 0 \<and> begin_y r = y \<and> ncols_scr r = sc_width sc \<and> nlines_scr r > 0 \<and>
     hdl r = sc_subwin sc y (nlines_scr r) \<and> stacked sc (y + nlines_scr r) rs e"

lemma lay_any_ok:
  assumes "0 < sc_width sc" "0 < n"
  shows "lay_any sc y n md = (y + n, reg_zero\<lparr>hdl := sc_subwin sc y n, begin_y := y, ncols_scr := sc_width sc,
           nlines_scr := n, mode := md\<rparr>)"
  using assms by (simp add: lay_any_def reg_init_def reg_zero_def)

lemma lay_ok:
  assumes "0 < sc_width sc" "0 < n" "0 \<le> y"
  shows "lay sc y n md made k = k (y + n) (reg_zero\<lparr>hdl := sc_subwin sc y n, begin_y := y, ncols_scr := sc_width sc,
           nlines_scr := n, mode := md\<rparr>)"
  using assms by (simp add: lay_def lay_any_ok)

lemma scroll_reg_simps [simp]:
  "begin_x (scroll_reg lg r) = begin_x r" "begin_y (scroll_reg lg r) = begin_y r"
  "ncols_scr (scroll_reg lg r) = ncols_scr r" "nlines_scr (scroll_reg lg r) = nlines_scr r"
  "hdl (scroll_reg lg r) = hdl r" "highlight (scroll (scroll_reg lg r)) = -1"
  by (simp_all add: scroll_reg_def reg_scroll_init_def reg_buf_init_def)

lemma begin_x_zero [simp]: "begin_x reg_zero = 0"
  by (simp add: reg_zero_def)

lemma destroy_closes [simp]: "\<not> hdl (reg_win_destroy r)"
  by (simp add: reg_win_destroy_def)

text \<open>A window that opens when memory suffices, its node is valid and the screen is high enough.\<close>

definition opens :: "'d win_env \<Rightarrow> cmd \<Rightarrow> win_st \<Rightarrow> bool" where
  "opens env c st \<longleftrightarrow>
     (\<forall>n. we_buf_ok env n) \<and> we_dyn_ok env \<and>
     0 < sc_width (we_scr env) \<and> 0 < node_num (ws_ng st) \<and> node_num (ws_ng st) + 12 \<le> sc_height (we_scr env) \<and>
     (c_id c = CMD_NODE_DETAIL_ID \<longrightarrow> (\<exists>n. node_get (ws_ng st) (c_pid c) = Some n \<and> NODE_VALID n))"

lemmas dyn_creates =
  topnproc_dyn_create_def moni_dyn_create_def moniproc_dyn_create_def monilwp_dyn_create_def moni_create_def
  topnlwp_dyn_create_def nodeoverview_dyn_create_def callchain_dyn_create_def
  lat_dyn_create_def latnode_dyn_create_def accdst_dyn_create_def os_llcallchain_dyn_create_def pqos_cmt_dyn_create_def
  pqos_cmt_dyn_create_proc_def pqos_mbm_dyn_create_def pqos_mbm_dyn_create_proc_def

definition new_ok :: "scr \<Rightarrow> dyn \<Rightarrow> win_type \<Rightarrow> win_st \<Rightarrow> ((win_reg list + (win_type \<times> 'd any_win)) \<times> win_st) option \<Rightarrow> bool" where
  "new_ok sc y ty st r \<longleftrightarrow>
     (case r of Some (Inr (ty1, w), st1) \<Rightarrow>
          ty1 = ty \<and> st1 = st \<and> win_agrees w y \<and>
          (stacked sc 1 (any_regs w) (sc_height sc - 1) \<or> stacked sc 1 (any_regs w) (sc_height sc - 2))
      | _ \<Rightarrow> False)"

lemma new_okD:
  assumes "new_ok sc y ty st r"
  obtains w where "r = Some (Inr (ty, w), st)" "win_agrees w y"
    "stacked sc 1 (any_regs w) (sc_height sc - 1) \<or> stacked sc 1 (any_regs w) (sc_height sc - 2)"
proof (cases r)
  case (Some x)
  obtain s st1 where "x = (s, st1)" by (cases x)
  then show ?thesis using assms Some that by (cases s) (auto simp: new_ok_def)
qed (use assms in \<open>simp add: new_ok_def\<close>)

lemmas win_views = Let_def new_ok_def any_regs_def win_agrees_def any_data_def dyn_of_cmd_def moni_win_def

lemma win_new_detail:
  assumes "opens env c st" "c_id c = CMD_NODE_DETAIL_ID"
  shows "new_ok (we_scr env) (dyn_of_cmd c) WIN_TYPE_NODE_DETAIL st (win_new env desc c ty0 st)"
proof -
  obtain n where "node_get (ws_ng st) (c_pid c) = Some n" "NODE_VALID n" using assms by (auto simp: opens_def)
  then show ?thesis
    using assms by (simp add: opens_def win_new_def nodedetail_dyn_create_def lay_ok lay_any_ok win_views)
qed

lemma win_new_other:
  assumes "opens env c st" "win_dyn_kind c w0 = Some w1" "c_id c \<noteq> CMD_NODE_DETAIL_ID"
  shows "new_ok (we_scr env) (dyn_of_cmd c) (w_type w1) st (win_new env desc c (w_type w0) st)"
  using assms
  by (cases "c_id c"; simp add: opens_def win_new_def dyn_creates lay_ok lay_any_ok win_dyn_kind_def win_views;
      auto simp: win_set_def)

lemma win_new_layout:
  assumes "opens env c st" "win_dyn_kind c w0 = Some w1"
  shows "new_ok (we_scr env) (dyn_of_cmd c) (w_type w1) st (win_new env desc c (w_type w0) st)"
proof (cases "c_id c = CMD_NODE_DETAIL_ID")
  case True
  then show ?thesis
    using win_new_detail [OF assms(1)] assms(2) by (auto simp: win_dyn_kind_def win_set_def)
qed (rule win_new_other [OF assms])

lemma any_destroy_closes: "r \<in> set (any_destroy w) \<Longrightarrow> \<not> hdl r"
  by (cases w) (auto simp: any_destroy_def topnproc_win_destroy_def moniproc_win_destroy_def monilwp_win_destroy_def
      topnlwp_win_destroy_def nodeoverview_win_destroy_def nodedetail_win_destroy_def callchain_win_destroy_def
      lat_win_destroy_def latnode_win_destroy_def accdst_win_destroy_def os_llcallchain_win_destroy_def
      pqos_cmt_win_destroy_def pqos_mbm_win_destroy_def)

lemma any_destroy_length: "length (any_destroy w) = length (any_regs w)"
  by (cases w) (auto simp: any_destroy_def any_regs_def topnproc_win_destroy_def moniproc_win_destroy_def
      monilwp_win_destroy_def topnlwp_win_destroy_def nodeoverview_win_destroy_def nodedetail_win_destroy_def
      callchain_win_destroy_def lat_win_destroy_def latnode_win_destroy_def accdst_win_destroy_def
      os_llcallchain_win_destroy_def pqos_cmt_win_destroy_def pqos_mbm_win_destroy_def)

end
