(* ===== verification/WinUse.thy ===== *)
theory WinUse
  imports WinDyn SmplUse
begin

text \<open>
  Drawing a window: the references it takes to the process and the thread it
  shows are given back, except on one path of the latency window.
\<close>

section \<open>What leaves the processes alone\<close>

named_theorems ps_frame

lemma win_dump_frame [ps_frame]: "win_dump s st = Some st1 \<Longrightarrow> ws_ps st1 = ws_ps st"
  by (auto simp: win_dump_def bind_eq_Some_conv)

lemma dump_head_frame [ps_frame]: "dump_head s st = Some st1 \<Longrightarrow> ws_ps st1 = ws_ps st"
  unfolding dump_head_def by (rule win_dump_frame)

lemma dump_line_frame [ps_frame]: "dump_line s st = Some st1 \<Longrightarrow> ws_ps st1 = ws_ps st"
  unfolding dump_line_def by (rule win_dump_frame)

lemma win_log_frame [simp]: "ws_ps (win_log es st) = ws_ps st"
  by (simp add: win_log_def)

lemma win_note_frame [simp]: "ws_ps (win_note_show n st) = ws_ps st"
  by (simp add: win_note_show_def Let_def)

lemma win_title_frame [simp]: "ws_ps (win_title_show st) = ws_ps st"
  by (simp add: win_title_show_def)

lemma win_warn_frame [ps_frame]: "win_warn_msg sc w st = Some st1 \<Longrightarrow> ws_ps st1 = ws_ps st"
  by (auto simp: win_warn_msg_def Let_def split: prod.splits if_splits)

lemma win_invalid_proc_frame [ps_frame]: "win_invalid_proc sc st = Some st1 \<Longrightarrow> ws_ps st1 = ws_ps st"
  by (auto simp: win_invalid_proc_def bind_eq_Some_conv dest: win_warn_frame)

lemma win_invalid_lwp_frame [ps_frame]: "win_invalid_lwp sc st = Some st1 \<Longrightarrow> ws_ps st1 = ws_ps st"
  by (auto simp: win_invalid_lwp_def bind_eq_Some_conv dest: win_warn_frame)

lemma warn_note_frame [ps_frame]: "warn_note sc w n st = Some st1 \<Longrightarrow> ws_ps st1 = ws_ps st"
  by (auto simp: warn_note_def bind_eq_Some_conv dest: win_warn_frame)

lemma moni_show_frame [ps_frame]: "moni_show env msg hint save dyn st = Some (dyn1, st1) \<Longrightarrow> ws_ps st1 = ws_ps st"
  by (auto simp: moni_show_def Let_def bind_eq_Some_conv dest!: ps_frame)

lemma chainlist_show_frame [ps_frame]:
  "chainlist_show ok hl reg lines st = Some (reg1, lines1, st1, hl1, r) \<Longrightarrow> ws_ps st1 = ws_ps st"
  by (auto simp: chainlist_show_def Let_def bind_eq_Some_conv split: if_splits dest!: dump_line_frame)

lemma callchain_list_frame [ps_frame]:
  "os_callchain_list_show env me a p lwp dm st = Some (dm1, st1, hl, r) \<Longrightarrow> ws_ps st1 = ws_ps st"
  by (cases dm; simp only: os_callchain_list_show_def prod.case Let_def bind_eq_Some_conv)
    (elim exE conjE, simp split: if_splits prod.splits, (elim exE conjE, simp add: bind_eq_Some_conv split: prod.splits)?,
     auto simp: bind_eq_Some_conv dest!: dump_line_frame chainlist_show_frame)

lemma llcallchain_list_frame [ps_frame]:
  "llcallchain_list_show env me a p lwp dm st = Some (dm1, st1, hl, r) \<Longrightarrow> ws_ps st1 = ws_ps st"
  by (cases dm; simp only: llcallchain_list_show_def prod.case Let_def bind_eq_Some_conv)
    (elim exE conjE, simp split: if_splits prod.splits, (elim exE conjE, simp add: bind_eq_Some_conv split: prod.splits)?,
     auto simp: bind_eq_Some_conv dest!: dump_line_frame chainlist_show_frame)

lemma bufinfo_frame [ps_frame]:
  "llcallchain_bufinfo_show env mp p lwp dyn st = Some (dyn1, st1, r) \<Longrightarrow> ws_ps st1 = ws_ps st"
  by (auto simp: llcallchain_bufinfo_show_def Let_def bind_eq_Some_conv split: if_splits prod.splits option.splits
      dest!: dump_line_frame)

lemma lat_data_get_frame [ps_frame]:
  "lat_data_get env mp p lwp dyn st = Some (dyn1, st1, r) \<Longrightarrow> ws_ps st1 = ws_ps st"
  by (auto simp: lat_data_get_def Let_def bind_eq_Some_conv split: option.splits prod.splits dest!: dump_line_frame)

lemma nodedetail_lines_frame [ps_frame]:
  "nodedetail_lines rows (reg, i, st) = Some (reg1, j, st1) \<Longrightarrow> ws_ps st1 = ws_ps st"
proof (induction rows arbitrary: reg i st)
  case (Cons row rows)
  obtain t v where "row = (t, v)" by (cases row)
  then show ?case
    using Cons by (fastforce simp: nodedetail_line_show_def Let_def bind_eq_Some_conv dest!: dump_line_frame)
qed simp

section \<open>References taken and given back\<close>

text \<open>Processes and threads are the same; only the process found last may be another.\<close>

definition same_refs :: "pstate \<Rightarrow> pstate \<Rightarrow> bool" where
  "same_refs ps ps1 \<longleftrightarrow> ps_procs ps1 = ps_procs ps \<and> ps_lwps ps1 = ps_lwps ps \<and>
     (\<exists>q. ps_group ps1 = (ps_group ps)\<lparr>pg_latest := q\<rparr>)"

lemma same_refs_refl [simp]: "same_refs ps ps"
  by (auto simp: same_refs_def intro: exI [of _ "pg_latest (ps_group ps)"])

text \<open>One reference more to the process at address a.\<close>

definition borrowed :: "addr \<Rightarrow> pstate \<Rightarrow> pstate \<Rightarrow> bool" where
  "borrowed a ps ps1 \<longleftrightarrow>
     (\<exists>p q. ps_procs ps a = Some p \<and> \<not> p_removing p \<and>
        ps_procs ps1 = (ps_procs ps)(a \<mapsto> p\<lparr>p_ref_count := p_ref_count p + 1\<rparr>) \<and> ps_lwps ps1 = ps_lwps ps \<and>
        ps_group ps1 = (ps_group ps)\<lparr>pg_latest := q\<rparr>)"

lemma proc_find_cases:
  assumes "proc_find pid ps = Some (ps1, pa)"
  shows "case pa of None \<Rightarrow> same_refs ps ps1 | Some a \<Rightarrow> borrowed a ps ps1"
proof -
  obtain r where r: "proc_lookup pid ps = Some r" "(case r of None \<Rightarrow> Some (ps, None)
      | Some a \<Rightarrow> do {
          (s1, ret) \<leftarrow> proc_refcount_inc a ps;
          if ret \<noteq> 0 then Some (if pg_latest (ps_group s1) = Some a then upd_group (\<lambda>g. g\<lparr>pg_latest := None\<rparr>) s1 else s1, None)
          else Some (upd_group (\<lambda>g. g\<lparr>pg_latest := Some a\<rparr>) s1, Some a) }) = Some (ps1, pa)"
    using assms by (auto simp: proc_find_def proc_find_nolock_def bind_eq_Some_conv)
  show ?thesis
  proof (cases r)
    case (Some a)
    then obtain p where p: "ps_procs ps a = Some p" using r(2) by (auto simp: proc_refcount_inc_def bind_eq_Some_conv)
    show ?thesis
    proof (cases "p_removing p")
      case True
      then have "pa = None" "ps1 = ps \<or> ps1 = upd_group (\<lambda>g. g\<lparr>pg_latest := None\<rparr>) ps"
        using r(2) Some p by (auto simp: proc_refcount_inc_def split: if_splits)
      moreover have "same_refs ps (upd_group (\<lambda>g. g\<lparr>pg_latest := None\<rparr>) ps)" by (auto simp: same_refs_def)
      ultimately show ?thesis by auto
    next
      case False
      then show ?thesis using r(2) Some p by (auto simp: proc_refcount_inc_def borrowed_def)
    qed
  qed (use r(2) in simp)
qed

lemma proc_find_None: "proc_find pid ps = Some (ps1, None) \<Longrightarrow> same_refs ps ps1"
  using proc_find_cases [of pid ps ps1 None] by simp

lemma proc_find_Some: "proc_find pid ps = Some (ps1, Some a) \<Longrightarrow> borrowed a ps ps1"
  using proc_find_cases [of pid ps ps1 "Some a"] by simp

lemma proc_back:
  assumes "borrowed a ps ps1" "proc_refcount_dec a ps1 = Some ps2"
  shows "same_refs ps ps2"
  using assms
  by (auto simp: borrowed_def proc_refcount_dec_def Let_def bind_eq_Some_conv same_refs_def fun_upd_idem split: if_splits)

lemma lwp_find_None:
  assumes "proc_lwp_find ll i h = Some (h1, None)"
  shows "h1 = h"
  using assms
  by (auto simp: proc_lwp_find_def bind_eq_Some_conv lwp_refcount_inc_def split: option.splits if_splits)

lemma lwp_find_Some:
  assumes "proc_lwp_find ll i h = Some (h1, Some w)"
  obtains l where "h w = Some l" "\<not> l_removing l" "h1 = h(w \<mapsto> l\<lparr>l_ref_count := l_ref_count l + 1\<rparr>)"
  using assms
  by (auto simp: proc_lwp_find_def bind_eq_Some_conv lwp_refcount_inc_def split: option.splits if_splits)

lemma lwp_back:
  assumes "proc_lwp_find ll i h = Some (h1, Some w)" "lwp_refcount_dec w h1 = Some h2"
  shows "h2 = h"
proof (rule lwp_find_Some [OF assms(1)])
  fix l assume "h w = Some l" "\<not> l_removing l" "h1 = h(w \<mapsto> l\<lparr>l_ref_count := l_ref_count l + 1\<rparr>)"
  then show ?thesis using assms(2) by (auto simp: lwp_refcount_dec_def Let_def fun_upd_idem split: if_splits)
qed

text \<open>The optional thread of a window: looking it up and putting it back.\<close>

lemma lwp_put_back:
  assumes "(if b then proc_lwp_find ll i h else Some (h, None)) = Some (h1, la)" "lwp_put la ps = Some ps1" "ps_lwps ps = h1"
  shows "ps1 = ps\<lparr>ps_lwps := h\<rparr>"
  using assms
  by (auto simp: lwp_put_def bind_eq_Some_conv split: if_splits option.splits dest: lwp_find_None lwp_back)

lemma lwp_none_back:
  assumes "(if b then proc_lwp_find ll i h else Some (h, None)) = Some (h1, None)"
  shows "h1 = h"
  using assms by (auto split: if_splits dest: lwp_find_None)

lemma pstate_lwps_idem [simp]: "ps\<lparr>ps_lwps := ps_lwps ps\<rparr> = ps"
  by simp

text \<open>
  The process and the thread of a window put back, one after the other: what was
  there before finding them.
\<close>

lemma both_back:
  assumes "borrowed a ps ps1"
    and "(if b then proc_lwp_find ll i (ps_lwps ps1) else Some (ps_lwps ps1, None)) = Some (h, la)"
    and "lwp_put la (ps1\<lparr>ps_lwps := h\<rparr>) = Some ps2" "proc_refcount_dec a ps2 = Some ps3"
  shows "same_refs ps ps3"
  using proc_back [OF assms(1)] assms(4) lwp_put_back [OF assms(2,3)] by simp

lemma proc_only_back:
  assumes "borrowed a ps ps1"
    and "(if b then proc_lwp_find ll i (ps_lwps ps1) else Some (ps_lwps ps1, None)) = Some (h, None)"
    and "proc_refcount_dec a (ps1\<lparr>ps_lwps := h\<rparr>) = Some ps2"
  shows "same_refs ps ps2"
  using proc_back [OF assms(1)] assms(3) lwp_none_back [OF assms(2)] by simp

section \<open>The windows on one process or thread\<close>

lemma draw_end_ps:
  assumes "draw_end note r = Some (w, st, ret)"
  obtains st1 note_out where "r = Some (w, st1, note_out, ret)" "ws_ps st = ws_ps st1"
  using assms by (auto simp: draw_end_def bind_eq_Some_conv)

lemma moniproc_refs:
  assumes "moniproc_win_draw env dyn st = Some (dyn1, st1, ret)"
  shows "same_refs (ws_ps st) (ws_ps st1)"
proof (rule draw_end_ps [OF assms [unfolded moniproc_win_draw_def]])
  fix st2 note_out
  assume d: "moniproc_data_show env dyn (win_title_show st) = Some (dyn1, st2, note_out, ret)" "ws_ps st1 = ws_ps st2"
  obtain ps1 pa where f: "proc_find (mo_pid dyn) (ws_ps st) = Some (ps1, pa)"
    using d(1) by (auto simp: moniproc_data_show_def bind_eq_Some_conv)
  show ?thesis
  proof (cases pa)
    case None
    then show ?thesis
      using d f proc_find_None [of "mo_pid dyn" "ws_ps st" ps1]
      by (auto simp: moniproc_data_show_def bind_eq_Some_conv dest: win_invalid_proc_frame)
  next
    case (Some a)
    note b = proc_find_Some [OF f [unfolded Some]]
    from d(1) f Some have "\<exists>ps. proc_refcount_dec a ps1 = Some ps \<and> ws_ps st2 = ps"
      by (auto simp: moniproc_data_show_def bind_eq_Some_conv dest!: moni_show_frame)
    then show ?thesis using proc_back [OF b] d(2) by auto
  qed
qed

lemma monilwp_refs:
  assumes "monilwp_win_draw env dyn st = Some (dyn1, st1, ret)"
  shows "same_refs (ws_ps st) (ws_ps st1)"
proof (rule draw_end_ps [OF assms [unfolded monilwp_win_draw_def]])
  fix st2 note_out
  assume d: "monilwp_data_show env dyn (win_title_show st) = Some (dyn1, st2, note_out, ret)" "ws_ps st1 = ws_ps st2"
  obtain ps1 pa where f: "proc_find (mo_pid dyn) (ws_ps st) = Some (ps1, pa)"
    using d(1) by (auto simp: monilwp_data_show_def Let_def bind_eq_Some_conv)
  show ?thesis
  proof (cases pa)
    case None
    then show ?thesis
      using d f proc_find_None [of "mo_pid dyn" "ws_ps st" ps1]
      by (auto simp: monilwp_data_show_def Let_def bind_eq_Some_conv dest: win_invalid_proc_frame)
  next
    case (Some a)
    note b = proc_find_Some [OF f [unfolded Some]]
    obtain p h la where l: "ps_procs ps1 a = Some p" "proc_lwp_find (p_lwp_list p) (mo_lwpid dyn) (ps_lwps ps1) = Some (h, la)"
      using d(1) f Some by (auto simp: monilwp_data_show_def Let_def bind_eq_Some_conv)
    then have l2: "(if True then proc_lwp_find (p_lwp_list p) (mo_lwpid dyn) (ps_lwps ps1) else Some (ps_lwps ps1, None)) = Some (h, la)"
      by simp
    show ?thesis
    proof (cases la)
      case None
      then obtain ps3 where "proc_refcount_dec a (ps1\<lparr>ps_lwps := h\<rparr>) = Some ps3" "ws_ps st2 = ps3"
        using d(1) f Some l by (auto simp: monilwp_data_show_def Let_def bind_eq_Some_conv dest!: win_invalid_lwp_frame)
      then show ?thesis using proc_only_back [OF b l2 [unfolded None]] d(2) by simp
    next
      case (Some w)
      then obtain ps3 ps4 where "lwp_put la (ps1\<lparr>ps_lwps := h\<rparr>) = Some ps3" "proc_refcount_dec a ps3 = Some ps4" "ws_ps st2 = ps4"
        using d(1) f \<open>pa = Some a\<close> l
        by (auto simp: monilwp_data_show_def Let_def bind_eq_Some_conv lwp_put_def dest!: moni_show_frame)
      then show ?thesis using both_back [OF b l2] d(2) by simp
    qed
  qed
qed

lemma callchain_refs:
  assumes "callchain_win_draw env me dm st = Some (dm1, st1, ret)"
  shows "same_refs (ws_ps st) (ws_ps st1)"
proof (rule draw_end_ps [OF assms [unfolded callchain_win_draw_def]])
  fix st2 note_out
  assume d: "callchain_data_show env me dm (win_title_show st) = Some (dm1, st2, note_out, ret)" "ws_ps st1 = ws_ps st2"
  obtain dyn ms where dm: "dm = (dyn, ms)" by (cases dm)
  let ?b = "ck_lwpid dyn > 0"
  obtain ps1 pa where f: "proc_find (ck_pid dyn) (ws_ps st) = Some (ps1, pa)"
    using d(1) by (auto simp: callchain_data_show_def dm Let_def bind_eq_Some_conv)
  show ?thesis
  proof (cases pa)
    case None
    then show ?thesis
      using d f proc_find_None [of "ck_pid dyn" "ws_ps st" ps1]
      by (auto simp: callchain_data_show_def dm Let_def bind_eq_Some_conv dest: win_invalid_proc_frame)
  next
    case (Some a)
    note b = proc_find_Some [OF f [unfolded Some]]
    obtain p h la where l: "ps_procs ps1 a = Some p"
        "(if ?b then proc_lwp_find (p_lwp_list p) (ck_lwpid dyn) (ps_lwps ps1) else Some (ps_lwps ps1, None)) = Some (h, la)"
      using d(1) f Some by (auto simp: callchain_data_show_def dm Let_def bind_eq_Some_conv)
    show ?thesis
    proof (cases "?b \<and> la = None")
      case True
      then obtain ps3 where "proc_refcount_dec a (ps1\<lparr>ps_lwps := h\<rparr>) = Some ps3" "ws_ps st2 = ps3"
        using d(1) f Some l by (auto simp: callchain_data_show_def dm Let_def bind_eq_Some_conv dest!: win_invalid_lwp_frame)
      then show ?thesis using proc_only_back [OF b l(2) [unfolded conjunct2 [OF True]]] d(2) by simp
    next
      case False
      then obtain ps3 ps4 where "lwp_put la (ps1\<lparr>ps_lwps := h\<rparr>) = Some ps3" "proc_refcount_dec a ps3 = Some ps4" "ws_ps st2 = ps4"
        using d(1) f Some l
        by (auto simp: callchain_data_show_def dm Let_def bind_eq_Some_conv dest!: dump_head_frame callchain_list_frame)
      then show ?thesis using both_back [OF b l(2)] d(2) by simp
    qed
  qed
qed

lemma llcallchain_refs:
  assumes "os_llcallchain_win_draw env me dm st = Some (dm1, st1, ret)"
  shows "same_refs (ws_ps st) (ws_ps st1)"
proof (rule draw_end_ps [OF assms [unfolded os_llcallchain_win_draw_def]])
  fix st2 note_out
  assume d: "llcallchain_data_show env me dm (win_title_show st) = Some (dm1, st2, note_out, ret)" "ws_ps st1 = ws_ps st2"
  obtain dyn ms where dm: "dm = (dyn, ms)" by (cases dm)
  let ?b = "lk_lwpid dyn > 0"
  obtain ps1 pa where f: "proc_find (lk_pid dyn) (ws_ps st) = Some (ps1, pa)"
    using d(1) by (auto simp: llcallchain_data_show_def dm Let_def bind_eq_Some_conv)
  show ?thesis
  proof (cases pa)
    case None
    then show ?thesis
      using d f proc_find_None [of "lk_pid dyn" "ws_ps st" ps1]
      by (auto simp: llcallchain_data_show_def dm Let_def bind_eq_Some_conv dest: win_warn_frame)
  next
    case (Some a)
    note b = proc_find_Some [OF f [unfolded Some]]
    obtain p h la where l: "ps_procs ps1 a = Some p"
        "(if ?b then proc_lwp_find (p_lwp_list p) (lk_lwpid dyn) (ps_lwps ps1) else Some (ps_lwps ps1, None)) = Some (h, la)"
      using d(1) f Some by (auto simp: llcallchain_data_show_def dm Let_def bind_eq_Some_conv)
    show ?thesis
    proof (cases "?b \<and> la = None")
      case True
      then obtain ps3 where "proc_refcount_dec a (ps1\<lparr>ps_lwps := h\<rparr>) = Some ps3" "ws_ps st2 = ps3"
        using d(1) f Some l by (auto simp: llcallchain_data_show_def dm Let_def bind_eq_Some_conv dest!: win_warn_frame)
      then show ?thesis using proc_only_back [OF b l(2) [unfolded conjunct2 [OF True]]] d(2) by simp
    next
      case False
      then obtain ps3 ps4 where "lwp_put la (ps1\<lparr>ps_lwps := h\<rparr>) = Some ps3" "proc_refcount_dec a ps3 = Some ps4" "ws_ps st2 = ps4"
        using d(1) f Some l
        by (auto simp: llcallchain_data_show_def dm Let_def bind_eq_Some_conv
            dest!: dump_head_frame llcallchain_list_frame bufinfo_frame)
      then show ?thesis using both_back [OF b l(2)] d(2) by simp
    qed
  qed
qed

text \<open>In the windows of memory areas the process is held while the thread is looked up and put back.\<close>

lemma thread_back:
  assumes "(if b then proc_lwp_find ll i (ps_lwps ps) else Some (ps_lwps ps, None)) = Some (h, la)"
    and "lwp_put la (ps\<lparr>ps_lwps := h\<rparr>) = Some ps1"
  shows "ps1 = ps"
  using lwp_put_back [OF assms] by simp

lemma accdst_show_ps:
  assumes "accdst_data_show env me p dyn st = Some (dyn1, st1, note_out, ret)"
  shows "ws_ps st1 = ws_ps st"
proof -
  let ?b = "as_lwpid dyn \<noteq> 0"
  obtain h la where l:
    "(if ?b then proc_lwp_find (p_lwp_list p) (as_lwpid dyn) (ps_lwps (ws_ps st)) else Some (ps_lwps (ws_ps st), None)) = Some (h, la)"
    using assms by (auto simp: accdst_data_show_def Let_def bind_eq_Some_conv)
  show ?thesis
  proof (cases "?b \<and> la = None")
    case True
    then show ?thesis
      using assms l lwp_none_back [OF l [unfolded conjunct2 [OF True]]]
      by (auto simp: accdst_data_show_def Let_def bind_eq_Some_conv dest!: win_invalid_lwp_frame)
  next
    case False
    then have "\<exists>ps1. lwp_put la ((ws_ps st)\<lparr>ps_lwps := h\<rparr>) = Some ps1 \<and> ws_ps st1 = ps1"
      using assms l
      by (auto simp: accdst_data_show_def Let_def bind_eq_Some_conv split: option.splits dest!: dump_head_frame dump_line_frame)
    then show ?thesis using thread_back [OF l] by auto
  qed
qed

lemma latnode_show_ps:
  assumes "latnode_data_show env mp p dyn st = Some (dyn1, st1, note_out, ret)"
  shows "ws_ps st1 = ws_ps st"
proof -
  let ?b = "ln_lwpid dyn \<noteq> 0"
  obtain h la where l:
    "(if ?b then proc_lwp_find (p_lwp_list p) (ln_lwpid dyn) (ps_lwps (ws_ps st)) else Some (ps_lwps (ws_ps st), None)) = Some (h, la)"
    using assms by (auto simp: latnode_data_show_def Let_def bind_eq_Some_conv)
  show ?thesis
  proof (cases "?b \<and> la = None")
    case True
    then show ?thesis
      using assms l lwp_none_back [OF l [unfolded conjunct2 [OF True]]]
      by (auto simp: latnode_data_show_def Let_def bind_eq_Some_conv dest!: warn_note_frame)
  next
    case False
    then have "\<exists>ps1. lwp_put la ((ws_ps st)\<lparr>ps_lwps := h\<rparr>) = Some ps1 \<and> ws_ps st1 = ps1"
      using assms l
      by (auto simp: latnode_data_show_def Let_def bind_eq_Some_conv dest!: dump_head_frame)
    then show ?thesis using thread_back [OF l] by auto
  qed
qed

text \<open>
  In the latency window the references balance only when the thread still is
  one of the kernel (os_procfs_lwp_valid).
\<close>

lemma lat_show_ps:
  assumes "win_lat_data_show env mp p dyn st = Some (dyn1, st1, note_out, ret)"
    and "lt_lwpid dyn = 0 \<or> we_lwp_valid env (p_pid p) (lt_lwpid dyn)"
  shows "ws_ps st1 = ws_ps st"
proof -
  let ?b = "lt_lwpid dyn \<noteq> 0"
  obtain h la where l:
    "(if ?b then proc_lwp_find (p_lwp_list p) (lt_lwpid dyn) (ps_lwps (ws_ps st)) else Some (ps_lwps (ws_ps st), None)) = Some (h, la)"
    using assms by (auto simp: win_lat_data_show_def Let_def bind_eq_Some_conv)
  show ?thesis
  proof (cases "?b \<and> la = None")
    case True
    then show ?thesis
      using assms l lwp_none_back [OF l [unfolded conjunct2 [OF True]]]
      by (auto simp: win_lat_data_show_def Let_def bind_eq_Some_conv dest!: win_invalid_lwp_frame)
  next
    case False
    then have "\<exists>ps1. lwp_put la ((ws_ps st)\<lparr>ps_lwps := h\<rparr>) = Some ps1 \<and> ws_ps st1 = ps1"
      using assms l
      by (auto simp: win_lat_data_show_def Let_def bind_eq_Some_conv split: if_splits dest!: dump_head_frame lat_data_get_frame)
    then show ?thesis using thread_back [OF l] by auto
  qed
qed

lemma accdst_refs:
  assumes "accdst_win_draw env me dyn st = Some (dyn1, st1, ret)"
  shows "same_refs (ws_ps st) (ws_ps st1)"
proof -
  obtain ps1 pa where f: "proc_find (as_pid dyn) (ws_ps st) = Some (ps1, pa)"
    using assms by (auto simp: accdst_win_draw_def bind_eq_Some_conv)
  show ?thesis
  proof (cases pa)
    case None
    then show ?thesis
      using assms f proc_find_None [of "as_pid dyn" "ws_ps st" ps1]
      by (auto simp: accdst_win_draw_def Let_def bind_eq_Some_conv dest: win_invalid_proc_frame)
  next
    case (Some a)
    from assms f Some have "\<exists>ps. proc_refcount_dec a ps1 = Some ps \<and> ws_ps st1 = ps"
      by (auto simp: accdst_win_draw_def Let_def bind_eq_Some_conv split: if_splits dest!: accdst_show_ps)
    then show ?thesis using proc_back [OF proc_find_Some [OF f [unfolded Some]]] by auto
  qed
qed

lemma latnode_refs:
  assumes "os_latnode_win_draw env me dm st = Some (dm1, st1, ret)"
  shows "same_refs (ws_ps st) (ws_ps st1)"
proof -
  obtain dyn ms where dm: "dm = (dyn, ms)" by (cases dm)
  obtain ps1 pa where f: "proc_find (ln_pid dyn) (ws_ps st) = Some (ps1, pa)"
    using assms by (auto simp: os_latnode_win_draw_def dm bind_eq_Some_conv)
  show ?thesis
  proof (cases pa)
    case None
    then show ?thesis
      using assms f proc_find_None [of "ln_pid dyn" "ws_ps st" ps1]
      by (auto simp: os_latnode_win_draw_def dm Let_def bind_eq_Some_conv dest: warn_note_frame)
  next
    case (Some a)
    obtain p entry where e: "ps_procs ps1 a = Some p" "map_entry_find (ms_map ms a) (ln_addr dyn) (ln_size dyn) = Some entry"
      using assms f Some by (auto simp: os_latnode_win_draw_def dm Let_def bind_eq_Some_conv)
    from assms f Some e have "\<exists>ps. proc_refcount_dec a ps1 = Some ps \<and> ws_ps st1 = ps"
      by (cases entry)
        (auto simp: os_latnode_win_draw_def dm Let_def bind_eq_Some_conv split: if_splits dest!: warn_note_frame latnode_show_ps)
    then show ?thesis using proc_back [OF proc_find_Some [OF f [unfolded Some]]] by auto
  qed
qed

lemma lat_refs:
  assumes "os_lat_win_draw env me (dyn, ms) st = Some (dm1, st1, ret)"
    and "lt_lwpid dyn = 0 \<or> (\<forall>pid. we_lwp_valid env pid (lt_lwpid dyn))"
  shows "same_refs (ws_ps st) (ws_ps st1)"
proof (cases "wm_ll_started me")
  case True
  obtain ps1 pa where f: "proc_find (lt_pid dyn) (ws_ps st) = Some (ps1, pa)"
    using assms True by (auto simp: os_lat_win_draw_def bind_eq_Some_conv)
  show ?thesis
  proof (cases pa)
    case None
    then show ?thesis
      using assms True f proc_find_None [of "lt_pid dyn" "ws_ps st" ps1]
      by (auto simp: os_lat_win_draw_def Let_def bind_eq_Some_conv dest: warn_note_frame)
  next
    case (Some a)
    have frame: "win_lat_data_show env mp p dyn st2 = Some (d, st3, no, r) \<Longrightarrow> ws_ps st3 = ws_ps st2" for mp p st2 d st3 no r
      using lat_show_ps assms(2) by metis
    from assms True f Some have "\<exists>ps. proc_refcount_dec a ps1 = Some ps \<and> ws_ps st1 = ps"
      by (auto simp: os_lat_win_draw_def Let_def bind_eq_Some_conv split: if_splits dest!: warn_note_frame frame)
    then show ?thesis using proc_back [OF proc_find_Some [OF f [unfolded Some]]] by auto
  qed
next
  case False
  then show ?thesis
    using assms by (auto simp: os_lat_win_draw_def bind_eq_Some_conv dest: warn_note_frame)
qed

lemma nodeoverview_refs:
  assumes "nodeoverview_win_draw env dyn st = Some (dyn1, st1, ret)"
  shows "same_refs (ws_ps st) (ws_ps st1)"
  by (rule draw_end_ps [OF assms [unfolded nodeoverview_win_draw_def]])
    (auto simp: nodeoverview_data_show_def Let_def bind_eq_Some_conv dest!: dump_head_frame dump_line_frame)

lemma nodedetail_refs:
  assumes "nodedetail_win_draw env dyn st = Some (dyn1, st1, ret)"
  shows "same_refs (ws_ps st) (ws_ps st1)"
  by (rule draw_end_ps [OF assms [unfolded nodedetail_win_draw_def]])
    (auto simp: nodedetail_data_show_def os_nodedetail_data_def Let_def bind_eq_Some_conv
      dest!: dump_head_frame nodedetail_lines_frame)

lemma pqos_one_refs:
  assumes "pqos_one env pid lwpid save lines st = Some r"
  shows "same_refs (ws_ps st) (ws_ps (case r of Inl st1 \<Rightarrow> st1 | Inr (_, st1) \<Rightarrow> st1))"
proof -
  obtain ps1 pa where f: "proc_find pid (ws_ps st) = Some (ps1, pa)"
    using assms by (auto simp: pqos_one_def bind_eq_Some_conv)
  show ?thesis
  proof (cases pa)
    case None
    then show ?thesis
      using assms f proc_find_None [of pid "ws_ps st" ps1]
      by (auto simp: pqos_one_def Let_def bind_eq_Some_conv dest: win_invalid_proc_frame)
  next
    case (Some a)
    note b = proc_find_Some [OF f [unfolded Some]]
    obtain p where p: "ps_procs ps1 a = Some p" using assms f Some by (auto simp: pqos_one_def Let_def bind_eq_Some_conv)
    show ?thesis
    proof (cases "lwpid = 0")
      case True
      then obtain ps2 where "proc_refcount_dec a ps1 = Some ps2" "ws_ps (case r of Inl st1 \<Rightarrow> st1 | Inr (_, st1) \<Rightarrow> st1) = ps2"
        using assms f Some p by (auto simp: pqos_one_def Let_def bind_eq_Some_conv)
      then show ?thesis using proc_back [OF b] by simp
    next
      case False
      obtain h la where l: "proc_lwp_find (p_lwp_list p) lwpid (ps_lwps ps1) = Some (h, la)"
        using assms f Some p False by (auto simp: pqos_one_def Let_def bind_eq_Some_conv)
      then have l2: "(if True then proc_lwp_find (p_lwp_list p) lwpid (ps_lwps ps1) else Some (ps_lwps ps1, None)) = Some (h, la)"
        by simp
      show ?thesis
      proof (cases la)
        case None
        then obtain ps3 where "proc_refcount_dec a (ps1\<lparr>ps_lwps := h\<rparr>) = Some ps3"
            "ws_ps (case r of Inl st1 \<Rightarrow> st1 | Inr (_, st1) \<Rightarrow> st1) = ps3"
          using assms f Some p l False by (auto simp: pqos_one_def Let_def bind_eq_Some_conv dest!: win_invalid_lwp_frame)
        then show ?thesis using proc_only_back [OF b l2 [unfolded None]] by simp
      next
        case (Some w)
        then obtain ps3 ps4 where "lwp_put la (ps1\<lparr>ps_lwps := h\<rparr>) = Some ps3" "proc_refcount_dec a ps3 = Some ps4"
            "ws_ps (case r of Inl st1 \<Rightarrow> st1 | Inr (_, st1) \<Rightarrow> st1) = ps4"
          using assms f \<open>pa = Some a\<close> p l False by (auto simp: pqos_one_def Let_def bind_eq_Some_conv lwp_put_def)
        then show ?thesis using both_back [OF b l2] by simp
      qed
    qed
  qed
qed

lemma pqos_cmt_refs:
  assumes "pqos_cmt_win_draw env dyn st = Some (dyn1, st1, ret)" "pc_pid dyn \<noteq> 0"
  shows "same_refs (ws_ps st) (ws_ps st1)"
proof (rule draw_end_ps [OF assms(1) [unfolded pqos_cmt_win_draw_def]])
  fix st2 note_out
  assume d: "pqos_cmt_data_show env dyn (win_title_show st) = Some (dyn1, st2, note_out, ret)" "ws_ps st1 = ws_ps st2"
  have "\<exists>r st3. pqos_one env (pc_pid dyn) (pc_lwpid dyn) (pqos_cmt_proc_data_save env) (pc_buf dyn) st3 = Some r \<and>
     ws_ps st3 = ws_ps st \<and> ws_ps st2 = ws_ps (case r of Inl st4 \<Rightarrow> st4 | Inr (_, st4) \<Rightarrow> st4)"
    using d(1) assms(2) unfolding pqos_cmt_data_show_def Let_def bind_eq_Some_conv
    apply (elim exE conjE)
    subgoal for st3 st4 r
      by (rule exI [of _ r], rule exI [of _ st4], cases r)
        (auto split: prod.splits if_splits dest!: dump_head_frame dump_line_frame)
    done
  then show ?thesis using pqos_one_refs d(2) by metis
qed

lemma pqos_mbm_refs:
  assumes "pqos_mbm_win_draw env dyn st = Some (dyn1, st1, ret)"
  shows "same_refs (ws_ps st) (ws_ps st1)"
proof (rule draw_end_ps [OF assms(1) [unfolded pqos_mbm_win_draw_def]])
  fix st2 note_out
  assume d: "pqos_mbm_data_show env dyn (win_title_show st) = Some (dyn1, st2, note_out, ret)" "ws_ps st1 = ws_ps st2"
  show ?thesis
  proof (cases "pb_pid dyn = 0")
    case True
    then show ?thesis
      using d by (auto simp: pqos_mbm_data_show_def Let_def bind_eq_Some_conv dest!: dump_head_frame dump_line_frame)
  next
    case False
    have "\<exists>r st3. pqos_one env (pb_pid dyn) (pb_lwpid dyn) (pqos_mbm_proc_data_save env) (pb_buf dyn) st3 = Some r \<and>
       ws_ps st3 = ws_ps st \<and> ws_ps st2 = ws_ps (case r of Inl st4 \<Rightarrow> st4 | Inr (_, st4) \<Rightarrow> st4)"
      using d(1) False unfolding pqos_mbm_data_show_def Let_def bind_eq_Some_conv
      apply (elim exE conjE)
      subgoal for st3 st4 r
        by (rule exI [of _ r], rule exI [of _ st4], cases r)
          (auto split: prod.splits if_splits dest!: dump_head_frame dump_line_frame)
      done
    then show ?thesis using pqos_one_refs d(2) by metis
  qed
qed

section \<open>All windows\<close>

text \<open>
  The windows that show one process or thread, or nodes: all but the tables of
  all processes and of all threads.  A latency window of a thread only as long
  as the thread is one of the kernel.
\<close>

definition shows_one :: "'d win_env \<Rightarrow> 'd any_win \<Rightarrow> bool" where
  "shows_one env w \<longleftrightarrow>
     (case w of
        AW_topnproc d \<Rightarrow> False
      | AW_topnlwp d \<Rightarrow> False
      | AW_pqos_cmt d \<Rightarrow> pc_pid d \<noteq> 0
      | AW_lat d \<Rightarrow> lt_lwpid d = 0 \<or> (\<forall>pid. we_lwp_valid env pid (lt_lwpid d))
      | _ \<Rightarrow> True)"

lemma any_draw_refs:
  assumes "any_draw env me ty (w, ms) st = Some (wm, st1, ret)" "shows_one env w"
  shows "same_refs (ws_ps st) (ws_ps st1)"
proof (cases w)
  case (AW_lat d)
  then show ?thesis
    using assms by (auto simp: any_draw_def win_drawn_mem_def shows_one_def dest!: lat_refs)
qed (use assms in \<open>auto simp: any_draw_def win_drawn_def win_drawn_mem_def shows_one_def
    dest: moniproc_refs monilwp_refs nodeoverview_refs nodedetail_refs callchain_refs latnode_refs accdst_refs
      llcallchain_refs pqos_cmt_refs pqos_mbm_refs\<close>)


text \<open>Plain numbers for floating point, a terminal of 80 columns and 24 lines, memory for everything.\<close>

definition floats_demo :: "nat floats" where
  "floats_demo = \<lparr>f_ratio = (\<lambda>x y. unat (x div y)), f_quot = (\<lambda>x y. nat (x div y)), f_percent = (\<lambda>x. x * 100),
     f_show = (\<lambda>_. show_nat), f_all_clks = (\<lambda>_ _. 1), f_cyc2ns = word_of_int\<rparr>"

definition scr_demo :: "int \<Rightarrow> scr" where
  "scr_demo h = \<lparr>sc_width = 80, sc_height = h, sc_subwin = (\<lambda>_ _. True)\<rparr>"

definition wenv_demo :: "int \<Rightarrow> nat win_env" where
  "wenv_demo h = \<lparr>we_scr = scr_demo h, we_floats = floats_demo, we_proc = proc_env_demo, we_ratio1000 = (\<lambda>x y. x div y),
     we_sortkey = SORT_KEY_CPU, we_ncpus = 1, we_offcore = 1, we_cmt_enabled = False, we_intval = ''5.0s'', we_stack = [],
     we_buf_ok = (\<lambda>_. True), we_dyn_ok = True, we_dst_ok = True, we_rec_ok = (True, True), we_lwp_valid = (\<lambda>_ _. False)\<rparr>"

definition wst_demo :: win_st where
  "wst_demo = \<lparr>ws_ps = tracked_demo, ws_ng = group_demo, ws_dump = dump_zero, ws_title = reg_zero, ws_note = reg_zero,
     ws_first_load = False, ws_log = []\<rparr>"

definition menv_demo :: mem_env where
  "menv_demo = \<lparr>wm_map_ok = (\<lambda>_. True), wm_map_file = (\<lambda>_. Some []), wm_pgsize = 4096, wm_query = (\<lambda>_ _. None),
     wm_query_ok = True, wm_sym = \<lparr>se_files = (\<lambda>_. None), se_mem = (\<lambda>_. True), se_grow = (\<lambda>_. True)\<rparr>,
     wm_sym_mem = (\<lambda>_. True), wm_new = (\<lambda>n. n), wm_ll_started = True\<rparr>"

definition ms_demo :: mem_st where
  "ms_demo = \<lparr>ms_map = (\<lambda>_. map_proc_zero), ms_sym = (\<lambda>_. sym_zero), ms_libs = []\<rparr>"

definition moni_demo :: "int \<Rightarrow> int \<Rightarrow> nat dyn_moni" where
  "moni_demo pid lwpid = \<lparr>mo_pid = pid, mo_lwpid = lwpid, mo_msg = reg_zero, mo_caption_cur = reg_zero, mo_data_cur = reg_zero,
     mo_hint = reg_zero, mo_buf = [moni_line_zero floats_demo]\<rparr>"

lemma tracked_demo_find:
  obtains s1 where "proc_find 7 tracked_demo = Some (s1, Some 1)"
    "ps_procs s1 1 = Some ((proc_demo 7)\<lparr>p_hash_prev := Some 2, p_ref_count := 1,
       p_lwp_list := lwplist_zero\<lparr>ll_nlwps := 1, ll_id_arr := Some [Some 4]\<rparr>, p_cpuid_max := 1, p_countval_arr := [\<lambda>_. 0]\<rparr>)"
    "ps_lwps s1 = ps_lwps tracked_demo"
proof -
  have at: "proc_at (ps_procs tracked_demo) chains_demo 7 = Some 1"
    by (rule proc_at_unique) (simp_all add: tracked_demo_simps proc_demo_def)
  then show ?thesis
    using proc_find_result [OF tracked_demo_ok, of 7]
    by (auto simp: tracked_demo_simps proc_demo_def proc_zero_def intro!: that)
qed

lemma group_demo_sums:
  "node_countval_sum group_demo [\<lambda>_. 0] 0 UI_COUNT_RMA = Some 0" "node_countval_sum group_demo [\<lambda>_. 0] 0 UI_COUNT_LMA = Some 0"
  "node_countval_sum group_demo [\<lambda>_. 0] 0 UI_COUNT_CLK = Some 0" "node_countval_sum group_demo [\<lambda>_. 0] 0 UI_COUNT_IR = Some 0"
  by code_simp+

lemma group_demo_node:
  "node_num group_demo = 1" "node_valid_get group_demo 0 = Some 0" "n_nid (ng_nodes group_demo ! 0) = 0"
  by (simp_all add: group_demo_def node_num_def node_valid_get_def NODE_VALID_def INVALID_NID_def node_zero_def)

lemma dump_demo:
  "dump_head s (st\<lparr>ws_dump := dump_zero\<rparr>) = Some (st\<lparr>ws_dump := dump_zero\<rparr>)"
  "dump_line s (st\<lparr>ws_dump := dump_zero\<rparr>) = Some (st\<lparr>ws_dump := dump_zero\<rparr>)"
  by (simp_all add: dump_head_def dump_line_def win_dump_def dump_write_def dump_zero_def)

lemma dump_none:
  "ws_dump st = dump_zero \<Longrightarrow> dump_head s st = Some st" "ws_dump st = dump_zero \<Longrightarrow> dump_line s st = Some st"
  using dump_demo [of s st] by (simp_all add: dump_head_def dump_line_def win_dump_def dump_write_def dump_zero_def)


section \<open>The latency window of a thread that has ended\<close>

text \<open>
  C38: the latency window of a thread keeps the thread for good.  When the thread
  is still tracked but has ended meanwhile (os_procfs_lwp_valid), the reference
  taken by proc_lwp_find is not given back: after the drawing the thread has one
  reference more than before, so that removing it from its process does not free
  it and no one is left to do so.
\<close>

theorem lat_window_keeps_thread:
  assumes "os_lat_win_draw env me (dyn, ms) st = Some (dm1, st1, ret)" "wm_ll_started me"
    and "proc_find (lt_pid dyn) (ws_ps st) = Some (ps1, Some a)" "ps_procs ps1 a = Some p"
    and "map_proc_load (wm_map_ok me) (wm_map_file me (p_pid p)) (ms_map ms a) = Some (mp, 0)"
    and "lt_lwpid dyn \<noteq> 0" "proc_lwp_find (p_lwp_list p) (lt_lwpid dyn) (ps_lwps ps1) = Some (h, Some w)"
    and "\<not> we_lwp_valid env (p_pid p) (lt_lwpid dyn)"
  shows "\<exists>l. ps_lwps (ws_ps st) w = Some l \<and>
     ps_lwps (ws_ps st1) = (ps_lwps (ws_ps st))(w \<mapsto> l\<lparr>l_ref_count := l_ref_count l + 1\<rparr>) \<and>
     (l_ref_count l \<ge> 0 \<longrightarrow>
        lwp_free w (ps_lwps (ws_ps st1)) =
          Some ((ps_lwps (ws_ps st))(w \<mapsto> l\<lparr>l_ref_count := l_ref_count l + 1, l_removing := True\<rparr>), -1))"
proof -
  have b: "borrowed a (ws_ps st) ps1" using assms(3) by (rule proc_find_Some)
  obtain ps2 where d: "proc_refcount_dec a (ps1\<lparr>ps_lwps := h\<rparr>) = Some ps2" "ws_ps st1 = ps2"
    using assms
    by (auto simp: os_lat_win_draw_def win_lat_data_show_def Let_def bind_eq_Some_conv dest!: win_invalid_lwp_frame)
  have "borrowed a ((ws_ps st)\<lparr>ps_lwps := h\<rparr>) (ps1\<lparr>ps_lwps := h\<rparr>)" using b by (auto simp: borrowed_def)
  then have h: "ps_lwps (ws_ps st1) = h" using proc_back d by (fastforce simp: same_refs_def)
  have "ps_lwps ps1 = ps_lwps (ws_ps st)" using b by (auto simp: borrowed_def)
  then show ?thesis using h by (auto simp: lwp_free_def intro: lwp_find_Some [OF assms(7)])
qed

definition lat_demo :: dyn_lat where
  "lat_demo = \<lparr>lt_pid = 7, lt_lwpid = 7, lt_msg = reg_zero, lt_caption = reg_zero, lt_data = reg_zero, lt_buf = []\<rparr>"

lemma maps_demo_load:
  obtains mp where "map_proc_load (\<lambda>_. True) (Some (concat (map maps_line vma_demo))) map_proc_zero = Some (mp, 0)"
proof -
  have "\<forall>v\<in>set vma_demo. vma_ok v" unfolding list_all_iff [symmetric] by code_simp
  then obtain d where "map_read (\<lambda>_. True) (Some (concat (map maps_line vma_demo))) = Some (\<lparr>mp_map = d, mp_loaded = True\<rparr>, 0)"
    by (rule map_read_lines [of "\<lambda>_. True" vma_demo, rotated 3]) (simp_all add: vma_demo_def)
  then show ?thesis using that by (simp add: map_proc_load_def map_proc_zero_def)
qed

lemma tracked_demo_lwp:
  obtains h where "proc_lwp_find (lwplist_zero\<lparr>ll_nlwps := 1, ll_id_arr := Some [Some 4]\<rparr>) 7 (ps_lwps tracked_demo) = Some (h, Some 4)"
proof -
  have "(case proc_lwp_find (lwplist_zero\<lparr>ll_nlwps := 1, ll_id_arr := Some [Some 4]\<rparr>) 7 (ps_lwps tracked_demo) of
      None \<Rightarrow> False | Some (h, q) \<Rightarrow> q = Some 4)"
    by code_simp
  then show ?thesis using that by (auto split: option.splits)
qed

theorem lat_window_keeps_thread_witness:
  "\<exists>me dm1 st1 ret. os_lat_win_draw (wenv_demo 24) me (lat_demo, ms_demo) wst_demo = Some (dm1, st1, ret) \<and>
     (\<exists>l h. ps_lwps tracked_demo 4 = Some l \<and> l_ref_count l = 0 \<and> lwp_free 4 (ps_lwps (ws_ps st1)) = Some (h, -1))"
proof -
  let ?me = "menv_demo\<lparr>wm_map_file := \<lambda>_. Some (concat (map maps_line vma_demo))\<rparr>"
  let ?p = "(proc_demo 7)\<lparr>p_hash_prev := Some 2, p_ref_count := 1,
       p_lwp_list := lwplist_zero\<lparr>ll_nlwps := 1, ll_id_arr := Some [Some 4]\<rparr>, p_cpuid_max := 1, p_countval_arr := [\<lambda>_. 0]\<rparr>"
  obtain s1 where s1: "proc_find 7 tracked_demo = Some (s1, Some 1)" "ps_procs s1 1 = Some ?p" "ps_lwps s1 = ps_lwps tracked_demo"
    by (rule tracked_demo_find)
  obtain mp where mp: "map_proc_load (\<lambda>_. True) (Some (concat (map maps_line vma_demo))) map_proc_zero = Some (mp, 0)"
    by (rule maps_demo_load)
  obtain h where h: "proc_lwp_find (lwplist_zero\<lparr>ll_nlwps := 1, ll_id_arr := Some [Some 4]\<rparr>) 7 (ps_lwps tracked_demo) = Some (h, Some 4)"
    by (rule tracked_demo_lwp)
  have p: "p_pid ?p = 7" "p_lwp_list ?p = lwplist_zero\<lparr>ll_nlwps := 1, ll_id_arr := Some [Some 4]\<rparr>"
    by (simp_all add: proc_demo_def)
  have "\<exists>r. os_lat_win_draw (wenv_demo 24) ?me (lat_demo, ms_demo) wst_demo = Some r"
    using s1 mp h p
    by (simp add: os_lat_win_draw_def win_lat_data_show_def wst_demo_def menv_demo_def ms_demo_def lat_demo_def wenv_demo_def
        win_title_show_def win_invalid_lwp_def win_warn_msg_def lay_any_ok scr_demo_def proc_refcount_dec_def win_note_show_def
        win_log_def proc_demo_def proc_zero_def Let_def) auto
  then obtain dm1 st1 ret where d: "os_lat_win_draw (wenv_demo 24) ?me (lat_demo, ms_demo) wst_demo = Some (dm1, st1, ret)"
    by (metis prod_cases3)
  have "wm_ll_started ?me" "proc_find (lt_pid lat_demo) (ws_ps wst_demo) = Some (s1, Some 1)"
    "map_proc_load (wm_map_ok ?me) (wm_map_file ?me (p_pid ?p)) (ms_map ms_demo 1) = Some (mp, 0)"
    "lt_lwpid lat_demo \<noteq> 0" "proc_lwp_find (p_lwp_list ?p) (lt_lwpid lat_demo) (ps_lwps s1) = Some (h, Some 4)"
    "\<not> we_lwp_valid (wenv_demo 24) (p_pid ?p) (lt_lwpid lat_demo)"
    using s1 mp h p by (simp_all add: menv_demo_def lat_demo_def wst_demo_def ms_demo_def wenv_demo_def)
  note k = lat_window_keeps_thread [OF d this(1,2) s1(2) this(3-6)]
  have "\<exists>l h. ps_lwps tracked_demo 4 = Some l \<and> l_ref_count l = 0 \<and> lwp_free 4 (ps_lwps (ws_ps st1)) = Some (h, -1)"
    using k by (auto simp: wst_demo_def tracked_demo_simps lwp_zero_def)
  then show ?thesis using d by blast
qed

end
