(* ===== verification/WinLayout.thy ===== *)
theory WinLayout
  imports WinUse
begin

text \<open>
  How windows share the screen, and what happens to windows whose nodes are
  hot-plugged while they are open.
\<close>

section \<open>The regions of a window\<close>

text \<open>
  C16: a window that opens shares out the screen and is what its page says it is.
  When memory suffices, the node of the command is valid and the terminal has
  twelve lines more than there are nodes, the command opens its window: the
  type is the one the page stores, the numbers of its process, thread, node or
  area are those of the command, nothing is highlighted, and the regions lie one
  below the other over the full width from the line below the title down to the
  line above the note (the windows of memory areas leave one line free).  No two
  regions share a line, each has the handle curses gave for it, and destroying
  the window closes them all.
\<close>

theorem windows_share_screen:
  assumes "opens env c st" "win_dyn_kind c w0 = Some w1"
  shows "\<exists>w e. win_new env desc c (w_type w0) st = Some (Inr (w_type w1, w), st) \<and>
     win_agrees w (dyn_of_cmd c) \<and> stacked (we_scr env) 1 (any_regs w) e \<and>
     (e = sc_height (we_scr env) - 1 \<or> e = sc_height (we_scr env) - 2) \<and>
     (\<forall>r\<in>set (any_destroy w). \<not> hdl r) \<and> length (any_destroy w) = length (any_regs w)"
proof -
  obtain w where w: "win_new env desc c (w_type w0) st = Some (Inr (w_type w1, w), st)" "win_agrees w (dyn_of_cmd c)"
    "stacked (we_scr env) 1 (any_regs w) (sc_height (we_scr env) - 1) \<or> stacked (we_scr env) 1 (any_regs w) (sc_height (we_scr env) - 2)"
    by (rule new_okD [OF win_new_layout [OF assms, of desc]])
  then show ?thesis using any_destroy_closes any_destroy_length [of w] by blast
qed

theorem windows_share_screen_witness:
  "\<exists>w e. win_new (wenv_demo 24) [] (cmd_zero\<lparr>c_id := CMD_LATNODE_ID, c_pid := 7, c_addr := 0x1000\<rparr>) WIN_TYPE_RAW_NUM wst_demo =
       Some (Inr (WIN_TYPE_LATNODE_PROC, w), wst_demo) \<and>
     stacked (scr_demo 24) 1 (any_regs w) e \<and> e \<in> {22, 23}"
proof -
  let ?c = "cmd_zero\<lparr>c_id := CMD_LATNODE_ID, c_pid := 7, c_addr := 0x1000\<rparr>"
  have o: "opens (wenv_demo 24) ?c wst_demo"
    by (simp add: opens_def wenv_demo_def scr_demo_def wst_demo_def group_demo_node)
  have k: "win_dyn_kind ?c dyn_win_zero = Some (win_set WIN_TYPE_LATNODE_PROC F_LATNODE True False dyn_win_zero)"
    by (simp add: win_dyn_kind_def cmd_zero_def)
  show ?thesis
    using windows_share_screen [OF o k, of "[]"]
    by (auto simp: win_set_def dyn_win_zero_def wenv_demo_def scr_demo_def)
qed

section \<open>A screen that is too small\<close>

text \<open>
  A window that does not fit leaks its regions.  On a terminal of six to ten
  lines the table of processes has no room for its lines: reg_init refuses the
  region, the function frees the window and returns NULL, but the summary and the
  caption have been created and are not destroyed; their handles are lost.
\<close>

theorem small_screen_leaks_regions:
  assumes "we_buf_ok env WIN_NLINES_MAX" "we_dyn_ok env" "0 < sc_width (we_scr env)"
    and "sc_height (we_scr env) \<le> 10" "\<And>y n. sc_subwin (we_scr env) y n"
  shows "\<exists>made. topnproc_dyn_create env ty = Inl made \<and> length made = 2 \<and> (\<forall>r\<in>set made. hdl r)"
  using assms by (simp add: topnproc_dyn_create_def lay_ok lay_any_def lay_def reg_init_def Let_def)

theorem small_screen_leaks_regions_witness:
  "\<exists>made. topnproc_dyn_create (wenv_demo 8) WIN_TYPE_RAW_NUM = Inl made \<and> length made = 2 \<and> (\<forall>r\<in>set made. hdl r)"
  using small_screen_leaks_regions [of "wenv_demo 8" WIN_TYPE_RAW_NUM] by (simp add: wenv_demo_def scr_demo_def)

section \<open>Nodes that come and go\<close>

lemma indexed_lines_over:
  assumes "int (length lines) < i + int n" "0 \<le> i" "i \<le> int (length lines)"
  shows "indexed_lines save n i lines = None"
  using assms
proof (induction n arbitrary: i lines)
  case (Suc n)
  show ?case
  proof (cases "save i")
    case (Some line)
    show ?thesis
    proof (cases "arr_set lines i line")
      case (Some lines1)
      then have "length lines1 = length lines" by (auto simp: arr_set_Some)
      moreover from Some have "i < int (length lines)" by (simp add: arr_set_Some)
      ultimately have "indexed_lines save n (i + 1) lines1 = None" using Suc by simp
      then show ?thesis using Some \<open>save i = Some line\<close> by simp
    qed (use Some in simp)
  qed simp
qed simp

lemma lay_Inr:
  assumes "lay sc y n md made k = Inr x"
  obtains i r where "k i r = Inr x"
  using assms by (auto simp: lay_def split: prod.splits if_splits)

lemma moni_create_buf:
  assumes "moni_create env g pid lwpid = Inr dyn"
  shows "length (mo_buf dyn) = nat (node_num g)" "mo_pid dyn = pid"
  using assms by (auto simp: moni_create_def Let_def split: if_splits elim!: lay_Inr)

lemma nodeoverview_create_buf:
  assumes "nodeoverview_dyn_create env g = Inr dyn"
  shows "length (no_buf dyn) = nat (node_num g)"
  using assms by (auto simp: nodeoverview_dyn_create_def Let_def split: if_splits elim!: lay_Inr)

lemma node_meminfo_invalid: "node_meminfo_get g INVALID_NID info = None"
  by (simp add: node_meminfo_get_def node_get_def arr_get_def INVALID_NID_def)

text \<open>
  C39: windows do not survive the hot-plugging of nodes.  The buffer of the table
  of nodes, or of the nodes of a process, has a line for every node there was when
  the window was created; drawing it fills a line for every node there is now, so
  that after a node has come online the next drawing writes behind the buffer.
  When the node whose details are shown goes offline, the drawing asks for the
  memory of node -1 and reads before the array of the nodes.
\<close>

theorem hotplug_breaks_windows:
  assumes "0 \<le> node_num g" "node_num g < node_num (ws_ng st)" "nodeoverview_dyn_create env g = Inr d1"
    and "moniproc_dyn_create env g pid = Inr d2" "proc_find pid (ws_ps st) = Some (ps1, Some a)"
    and "node_get (ws_ng st) (nt_nid d3) = Some n" "\<not> NODE_VALID n"
  shows "nodeoverview_win_draw env d1 st = None \<and> moniproc_win_draw env d2 st = None \<and> nodedetail_win_draw env d3 st = None"
proof (intro conjI)
  have t: "ws_ps (win_title_show st) = ws_ps st" "ws_ng (win_title_show st) = ws_ng st"
    by (simp_all add: win_title_show_def)
  have "indexed_lines save (nat (node_num (ws_ng st))) 0 (no_buf d1) = None" for save
    using assms(1,2) nodeoverview_create_buf [OF assms(3)] by (intro indexed_lines_over) simp_all
  then show "nodeoverview_win_draw env d1 st = None"
    by (simp add: nodeoverview_win_draw_def draw_end_def nodeoverview_data_show_def t Let_def bind_eq_None_conv)
  have "indexed_lines save (nat (node_num (ws_ng st))) 0 (mo_buf d2) = None" for save
    using assms(1,2) moni_create_buf [OF assms(4) [unfolded moniproc_dyn_create_def]] by (intro indexed_lines_over) simp_all
  then have "moni_show env msg hint save d2 (st1\<lparr>ws_ps := ps\<rparr>) = None" if "ws_ng st1 = ws_ng st" for msg hint save st1 ps
    using that by (auto simp: moni_show_def win_dump_def dump_head_def dump_line_def Let_def bind_eq_None_conv)
  then show "moniproc_win_draw env d2 st = None"
    using assms(5) moni_create_buf(2) [OF assms(4) [unfolded moniproc_dyn_create_def]]
    by (simp add: moniproc_win_draw_def draw_end_def moniproc_data_show_def t Let_def bind_eq_None_conv)
  have "n_nid n = INVALID_NID" using assms(7) by (simp add: NODE_VALID_def)
  then have "os_nodedetail_data env d3 st1 = None" if "ws_ng st1 = ws_ng st" for st1
    using that assms(6) node_meminfo_invalid by (simp add: os_nodedetail_data_def)
  then show "nodedetail_win_draw env d3 st = None"
    by (auto simp: nodedetail_win_draw_def draw_end_def nodedetail_data_show_def dump_head_def win_dump_def t Let_def
        bind_eq_None_conv)
qed

text \<open>A second node has come online; there is no third.\<close>

definition group_more :: node_group where
  "group_more = group_demo\<lparr>ng_nodes := [hd (ng_nodes group_demo), (hd (ng_nodes group_demo))\<lparr>n_nid := 1\<rparr>, node_zero\<lparr>n_nid := -1\<rparr>],
     ng_nnodes := 2\<rparr>"

theorem hotplug_breaks_windows_witness:
  "\<exists>d1 d2. nodeoverview_dyn_create (wenv_demo 24) group_demo = Inr d1 \<and> moniproc_dyn_create (wenv_demo 24) group_demo 7 = Inr d2 \<and>
     nodeoverview_win_draw (wenv_demo 24) d1 (wst_demo\<lparr>ws_ng := group_more\<rparr>) = None \<and>
     moniproc_win_draw (wenv_demo 24) d2 (wst_demo\<lparr>ws_ng := group_more\<rparr>) = None"
proof -
  let ?st = "wst_demo\<lparr>ws_ng := group_more\<rparr>"
  let ?d3 = "\<lparr>nt_nid = 2, nt_msg = reg_zero, nt_node_data = reg_zero, nt_hint = reg_zero\<rparr>"
  obtain d1 where d1: "nodeoverview_dyn_create (wenv_demo 24) group_demo = Inr d1"
    by (simp add: nodeoverview_dyn_create_def wenv_demo_def scr_demo_def lay_ok lay_any_ok group_demo_node Let_def)
  obtain d2 where d2: "moniproc_dyn_create (wenv_demo 24) group_demo 7 = Inr d2"
    by (simp add: moniproc_dyn_create_def moni_create_def wenv_demo_def scr_demo_def lay_ok lay_any_ok group_demo_node Let_def)
  obtain s1 where s1: "proc_find 7 tracked_demo = Some (s1, Some 1)" by (rule tracked_demo_find)
  have "nodeoverview_win_draw (wenv_demo 24) d1 ?st = None \<and> moniproc_win_draw (wenv_demo 24) d2 ?st = None \<and>
      nodedetail_win_draw (wenv_demo 24) ?d3 ?st = None"
    using s1
    by (intro hotplug_breaks_windows [OF _ _ d1 d2, of _ s1 1 _ "node_zero\<lparr>n_nid := -1\<rparr>"])
      (simp_all add: group_demo_node node_num_def group_more_def group_demo_def wst_demo_def node_get_def arr_get_def
        NODE_VALID_def INVALID_NID_def)
  then show ?thesis using d1 d2 by blast
qed

end
