(* ===== verification/WinTable.thy ===== *)
theory WinTable
  imports WinLayout ProcUse
begin

text \<open>The table of processes on the screen: all processes, in the order of the sorting key.\<close>

section \<open>Computing the keys\<close>

text \<open>The counters of a process can be added up.\<close>

definition countable_proc :: "node_group \<Rightarrow> track_proc \<Rightarrow> bool" where
  "countable_proc g p \<longleftrightarrow> (\<forall>u. node_countval_sum g (p_countval_arr p) NODE_ALL u \<noteq> None)"

definition key_of :: "(u64 \<Rightarrow> u64 \<Rightarrow> u64) \<Rightarrow> node_group \<Rightarrow> sort_key \<Rightarrow> track_proc \<Rightarrow> u64" where
  "key_of quo g sortkey p = p_key (the (proc_key_compute quo g sortkey p))"

lemma key_computed:
  assumes "countable_proc g p"
  shows "proc_key_compute quo g sortkey p = Some (p\<lparr>p_key := key_of quo g sortkey p\<rparr>)"
proof -
  have "\<exists>v. node_countval_sum g (p_countval_arr p) NODE_ALL u = Some v" for u
    using assms by (auto simp: countable_proc_def)
  then obtain v where "\<And>u. node_countval_sum g (p_countval_arr p) NODE_ALL u = Some (v u)" by metis
  then show ?thesis by (cases sortkey) (simp_all add: proc_key_compute_def key_of_def Let_def)
qed

lemma key_visits:
  assumes "tbl_ok s chs" "set xs \<subseteq> set (concat chs)" "distinct xs"
    and "\<And>a p. a \<in> set (concat chs) \<Longrightarrow> ps_procs s a = Some p \<Longrightarrow> countable_proc g p"
  shows "\<exists>s1. visits (proc_key_visit quo g key) xs s = Some s1 \<and> tbl_ok s1 chs \<and> ps_group s1 = ps_group s \<and>
     ps_lwps s1 = ps_lwps s \<and>
     (\<forall>x. ps_procs s1 x = (if x \<in> set xs then Some ((the (ps_procs s x))\<lparr>p_key := key_of quo g key (the (ps_procs s x))\<rparr>)
        else ps_procs s x))"
  using assms
proof (induction xs arbitrary: s)
  case (Cons a xs)
  obtain p where p: "ps_procs s a = Some p" using tbl_ok_live [OF Cons.prems(1)] Cons.prems(2) by auto
  define q where "q = p\<lparr>p_key := key_of quo g key p\<rparr>"
  let ?s = "s\<lparr>ps_procs := (ps_procs s)(a \<mapsto> q)\<rparr>"
  have f: "proc_key_visit quo g key a s = Some ?s"
    using p key_computed [OF Cons.prems(4) [OF _ p]] Cons.prems(2) by (simp add: proc_key_visit_def q_def)
  have "tbl_ok (s\<lparr>ps_procs := (ps_procs s)(a \<mapsto> q), ps_group := ps_group s\<rparr>) chs"
    by (rule tbl_ok_upd [OF Cons.prems(1) p]) (use Cons.prems(1) in \<open>auto simp: q_def tbl_ok_def\<close>)
  then have t: "tbl_ok ?s chs" by simp
  have c: "countable_proc g r" if "b \<in> set (concat chs)" "ps_procs ?s b = Some r" for b r
    using that Cons.prems(4) [of b] Cons.prems(4) [OF _ p] by (auto simp: q_def countable_proc_def split: if_splits)
  have "\<exists>s1. visits (proc_key_visit quo g key) xs ?s = Some s1 \<and> tbl_ok s1 chs \<and> ps_group s1 = ps_group ?s \<and>
      ps_lwps s1 = ps_lwps ?s \<and>
      (\<forall>x. ps_procs s1 x = (if x \<in> set xs then Some ((the (ps_procs ?s x))\<lparr>p_key := key_of quo g key (the (ps_procs ?s x))\<rparr>)
         else ps_procs ?s x))"
    by (rule Cons.IH [OF t _ _ c]) (use Cons.prems(2,3) in auto)
  then show ?case using f Cons.prems(3) p by (auto simp: q_def)
qed auto

lemma table_distinct: "tbl_ok s chs \<Longrightarrow> distinct (concat chs)"
  by (simp add: tbl_ok_def distinct_map)

lemma key_traverse:
  assumes "tbl_ok s chs" "pg_nprocs (ps_group s) = int (length (concat chs))"
    and "\<And>a p. a \<in> set (concat chs) \<Longrightarrow> ps_procs s a = Some p \<Longrightarrow> countable_proc g p"
  obtains s1 where "proc_traverse (proc_key_visit quo g key) s = Some s1" "tbl_ok s1 chs" "ps_group s1 = ps_group s"
    "ps_lwps s1 = ps_lwps s"
    "\<forall>a\<in>set (concat chs). ps_procs s1 a = Some ((the (ps_procs s a))\<lparr>p_key := key_of quo g key (the (ps_procs s a))\<rparr>)"
proof -
  let ?J = "\<lambda>t. tbl_ok t chs \<and> ps_group t = ps_group s \<and>
     (\<forall>a\<in>set (concat chs). \<forall>p. ps_procs t a = Some p \<longrightarrow> countable_proc g p)"
  have "proc_traverse (proc_key_visit quo g key) s = visits (proc_key_visit quo g key) (concat chs) s"
  proof (rule proc_traverse_visits [where J = ?J])
    show "?J s" using assms by blast
    fix t assume "?J t" then show "chains_ok t chs \<and> pg_nprocs (ps_group t) = int (length (concat chs))"
      using assms(2) by (simp add: tbl_ok_def)
  next
    fix a t t1 assume J: "?J t" and a: "a \<in> set (concat chs)" and f: "proc_key_visit quo g key a t = Some t1"
    obtain p where p: "ps_procs t a = Some p" using f by (auto simp: proc_key_visit_def bind_eq_Some_conv)
    have c: "\<And>b q. b \<in> set (concat chs) \<Longrightarrow> ps_procs t b = Some q \<Longrightarrow> countable_proc g q" using J by blast
    have "\<exists>s1. visits (proc_key_visit quo g key) [a] t = Some s1 \<and> tbl_ok s1 chs \<and> ps_group s1 = ps_group t \<and>
       ps_lwps s1 = ps_lwps t \<and>
       (\<forall>x. ps_procs s1 x = (if x \<in> set [a] then Some ((the (ps_procs t x))\<lparr>p_key := key_of quo g key (the (ps_procs t x))\<rparr>)
         else ps_procs t x))" by (rule key_visits [OF _ _ _ c]) (use J a in simp_all)
    then show "?J t1" using f J c p c [OF a p] by (auto simp: countable_proc_def split: if_splits)
  qed
  moreover have "\<exists>s1. visits (proc_key_visit quo g key) (concat chs) s = Some s1 \<and> tbl_ok s1 chs \<and> ps_group s1 = ps_group s \<and>
      ps_lwps s1 = ps_lwps s \<and>
      (\<forall>x. ps_procs s1 x = (if x \<in> set (concat chs)
         then Some ((the (ps_procs s x))\<lparr>p_key := key_of quo g key (the (ps_procs s x))\<rparr>) else ps_procs s x))"
    by (rule key_visits [OF assms(1) subset_refl table_distinct [OF assms(1)]]) (rule assms(3))
  ultimately show ?thesis using that by metis
qed

section \<open>Filling the lines\<close>

lemma sorted_lines_result:
  assumes "\<And>k. k < length as \<Longrightarrow> proc_sort_next (g\<lparr>pg_sort_idx := int k\<rparr>) = Some (g\<lparr>pg_sort_idx := int (k + 1)\<rparr>, Some (as ! k))"
    and "\<And>a. a \<in> set as \<Longrightarrow> \<exists>p. ps_procs s a = Some p \<and> save p = Some (ln a)"
    and "i + n \<le> length as" "length as \<le> length lines \<or> i + n \<le> length lines" "ps_group s = g\<lparr>pg_sort_idx := int i\<rparr>"
  shows "sorted_lines save n (int i) s lines =
    Some (s\<lparr>ps_group := g\<lparr>pg_sort_idx := int (i + n)\<rparr>\<rparr>, take i lines @ map ln (take n (drop i as)) @ drop (i + n) lines)"
  using assms(2-5)
proof (induction n arbitrary: i s lines)
  case 0
  then have "s\<lparr>ps_group := g\<lparr>pg_sort_idx := int i\<rparr>\<rparr> = s" by (metis pstate.surjective pstate.update_convs(1))
  then show ?case by simp
next
  case (Suc n)
  let ?s = "s\<lparr>ps_group := g\<lparr>pg_sort_idx := int (i + 1)\<rparr>\<rparr>"
  have i: "i < length as" "i < length lines" using Suc.prems(2,3) by auto
  obtain p where p: "ps_procs s (as ! i) = Some p" "save p = Some (ln (as ! i))" using Suc.prems(1) i by (meson nth_mem)
  have IH: "sorted_lines save n (int (i + 1)) ?s (lines[i := ln (as ! i)]) =
      Some (?s\<lparr>ps_group := g\<lparr>pg_sort_idx := int (i + 1 + n)\<rparr>\<rparr>, take (i + 1) (lines[i := ln (as ! i)]) @
        map ln (take n (drop (i + 1) as)) @ drop (i + 1 + n) (lines[i := ln (as ! i)]))"
    by (rule Suc.IH) (use Suc.prems in auto)
  have "drop i as = as ! i # drop (i + 1) as" using i by (simp add: Cons_nth_drop_Suc)
  then have "take (Suc n) (drop i as) = as ! i # take n (drop (i + 1) as)" by simp
  moreover have "take (i + 1) (lines[i := ln (as ! i)]) = take i lines @ [ln (as ! i)]"
    using i by (simp add: take_Suc_conv_app_nth)
  ultimately show ?case
    using IH assms(1) [OF i(1)] Suc.prems(4) p i by (simp add: arr_set_def add.commute)
qed

text \<open>A line depends on the counters of a process, not on its key.\<close>

definition topnproc_line_of :: "'d win_env \<Rightarrow> node_group \<Rightarrow> track_proc \<Rightarrow> 'd topnproc_line" where
  "topnproc_line_of env g p = the (topnproc_data_save env g p)"

lemma countvalue_defined:
  assumes "countable_proc g p"
  shows "\<exists>v. win_countvalue_fill F g (p_countval_arr p) NODE_ALL ms n = Some v"
proof -
  have "\<exists>v. node_countval_sum g (p_countval_arr p) NODE_ALL u = Some v" for u
    using assms by (auto simp: countable_proc_def)
  then obtain v where "\<And>u. node_countval_sum g (p_countval_arr p) NODE_ALL u = Some (v u)" by metis
  then show ?thesis by (simp add: win_countvalue_fill_def)
qed

lemma topnproc_line_saved:
  assumes "countable_proc g p"
  shows "topnproc_data_save env g (p\<lparr>p_key := k\<rparr>) = Some (topnproc_line_of env g p)"
proof -
  obtain v where "win_countvalue_fill (we_floats env) g (p_countval_arr p) NODE_ALL (proc_intval_get p) (we_ncpus env) = Some v"
    using countvalue_defined [OF assms] by blast
  moreover have "proc_intval_get (p\<lparr>p_key := k\<rparr>) = proc_intval_get p" by (simp add: proc_intval_get_def)
  ultimately show ?thesis
    by (simp add: topnproc_data_save_def topnproc_line_of_def line_name_def proc_nlwp_def)
qed

lemma sorted_table:
  assumes "tbl_ok s chs" "pg_nprocs (ps_group s) = int (length (concat chs))" "pe_sort_ok penv"
    and "\<And>a p. a \<in> set (concat chs) \<Longrightarrow> ps_procs s a = Some p \<Longrightarrow> countable_proc g p"
    and "n \<le> length (concat chs)" "n \<le> length lines"
  obtains as s1 s2 where "proc_resort penv quo g key s = Some s1" "mset as = mset (concat chs)"
    "sorted_wrt (\<lambda>a b. key_of quo g key (the (ps_procs s b)) \<le> key_of quo g key (the (ps_procs s a))) as"
    "sorted_lines (topnproc_data_save env g) n 0 s1 lines =
       Some (s2, map (\<lambda>a. topnproc_line_of env g (the (ps_procs s a))) (take n as) @ drop n lines)"
proof (cases "concat chs = []")
  case True
  obtain s1 where s1: "proc_traverse (proc_key_visit quo g key) s = Some s1" "ps_group s1 = ps_group s"
    by (rule key_traverse [OF assms(1,2,4)])
  have "pg_nprocs (ps_group s) = 0" using assms(2) True by (simp only: list.size)
  then have "proc_resort penv quo g key s = Some (upd_group (\<lambda>g. g\<lparr>pg_sort_arr := None\<rparr>) s1)"
    using s1 by (simp add: proc_resort_def proc_sortkey_def)
  moreover have "n = 0" using assms(5) True by (simp only: list.size)
  ultimately show ?thesis using True by (intro that [of _ "[]"]) (simp_all only: sorted_lines.simps, simp_all)
next
  case False
  obtain s1 where s1: "proc_traverse (proc_key_visit quo g key) s = Some s1" "tbl_ok s1 chs" "ps_group s1 = ps_group s"
    "\<forall>a\<in>set (concat chs). ps_procs s1 a = Some ((the (ps_procs s a))\<lparr>p_key := key_of quo g key (the (ps_procs s a))\<rparr>)"
    by (rule key_traverse [OF assms(1,2,4), where quo = quo and key = key])
  have n1: "pg_nprocs (ps_group s1) = int (length (concat chs))" using assms(2) s1(3) by simp
  obtain as g1 where t: "proc_sortkey penv s1 = Some (s1\<lparr>ps_group := g1\<rparr>)" "mset as = mset (concat chs)"
    "sorted_wrt (\<lambda>a b. p_key (the (ps_procs s1 b)) \<le> p_key (the (ps_procs s1 a))) as" "pg_sort_idx g1 = 0"
    "\<And>k. k < length as \<Longrightarrow> proc_sort_next (g1\<lparr>pg_sort_idx := int k\<rparr>) = Some (g1\<lparr>pg_sort_idx := int (k + 1)\<rparr>, Some (as ! k))"
    using table_sorted [OF s1(2) n1 False assms(3)] by blast
  have sa: "set as = set (concat chs)" using t(2) by (metis set_mset_mset)
  have la: "length as = length (concat chs)" using t(2) by (metis size_mset)
  have key: "p_key (the (ps_procs s1 a)) = key_of quo g key (the (ps_procs s a))" if "a \<in> set as" for a
    using bspec [OF s1(4), of a] that sa by simp
  have srt: "sorted_wrt (\<lambda>a b. key_of quo g key (the (ps_procs s b)) \<le> key_of quo g key (the (ps_procs s a))) as"
    by (rule sorted_wrt_mono_rel [OF _ t(3)]) (simp add: key)
  have saved: "\<exists>p. ps_procs s1 a = Some p \<and> topnproc_data_save env g p = Some (topnproc_line_of env g (the (ps_procs s a)))"
    if "a \<in> set as" for a
  proof -
    have a: "a \<in> set (concat chs)" using that sa by simp
    then obtain p where p: "ps_procs s a = Some p" using tbl_ok_live [OF assms(1)] by blast
    show ?thesis using bspec [OF s1(4) a] p topnproc_line_saved [OF assms(4) [OF a p]] by simp
  qed
  have "g1\<lparr>pg_sort_idx := int 0\<rparr> = g1" using t(4) by (cases g1) simp
  then have "sorted_lines (topnproc_data_save env g) n (int 0) (s1\<lparr>ps_group := g1\<rparr>) lines =
      Some ((s1\<lparr>ps_group := g1\<rparr>)\<lparr>ps_group := g1\<lparr>pg_sort_idx := int (0 + n)\<rparr>\<rparr>,
        take 0 lines @ map (\<lambda>a. topnproc_line_of env g (the (ps_procs s a))) (take n (drop 0 as)) @ drop (0 + n) lines)"
    using saved assms(5,6) la t(5) by (intro sorted_lines_result) simp_all
  then show ?thesis
    using t(1,2) s1(1) srt by (intro that [of "s1\<lparr>ps_group := g1\<rparr>" as]) (simp_all add: proc_resort_def)
qed

lemma scroll_show_total [simp]:
  "nlines_total (reg_scroll_show r n f) = nlines_total r" "nlines_total (reg_refresh_nout r) = nlines_total r"
  "nlines_total (reg_erase r) = nlines_total r"
proof -
  have "nlines_total (fst (snd (reg_scroll_range r n))) = nlines_total r"
    by (simp add: reg_scroll_range_def set_page_start_def Let_def)
  then show "nlines_total (reg_scroll_show r n f) = nlines_total r"
    by (simp add: reg_scroll_show_def set_highlight_def Let_def fold_frame [where g = nlines_total] split_beta)
qed (simp_all add: reg_refresh_nout_def reg_erase_def)

text \<open>
  C17: the table of processes shows the busiest first.  When the counters of all
  processes can be added up, drawing the table succeeds; its lines are those of the
  processes of the table in the order of descending keys, computed from the
  counters by the sorting key the user has chosen, each process once; at most 4096
  lines are written, so that the buffer never overflows, and as many are shown.
\<close>

theorem process_table_shows_sorted:
  assumes "tbl_ok (ws_ps st) chs" "pg_nprocs (ps_group (ws_ps st)) = int (length (concat chs))" "pe_sort_ok (we_proc env)"
    and "\<And>a p. a \<in> set (concat chs) \<Longrightarrow> ps_procs (ws_ps st) a = Some p \<Longrightarrow> countable_proc (ws_ng st) p"
    and "length (tp_buf dyn) = nat WIN_NLINES_MAX" "\<not> ws_first_load st" "dc_fout (ws_dump st) = None"
  shows "\<exists>as dyn1 st1. topnproc_win_draw env ty dyn st = Some (dyn1, st1, True) \<and> mset as = mset (concat chs) \<and>
     sorted_wrt (\<lambda>a b. key_of (we_ratio1000 env) (ws_ng st) (we_sortkey env) (the (ps_procs (ws_ps st) b)) \<le>
                       key_of (we_ratio1000 env) (ws_ng st) (we_sortkey env) (the (ps_procs (ws_ps st) a))) as \<and>
     tp_buf dyn1 = map (\<lambda>a. topnproc_line_of env (ws_ng st) (the (ps_procs (ws_ps st) a))) (take (nat WIN_NLINES_MAX) as) @
       drop (length as) (tp_buf dyn) \<and>
     nlines_total (tp_data dyn1) = min (int (length as)) WIN_NLINES_MAX"
proof -
  let ?n = "min (length (concat chs)) (nat WIN_NLINES_MAX)"
  have n: "nat (min (int (length (concat chs))) WIN_NLINES_MAX) = ?n" by (simp add: WIN_NLINES_MAX_def min_def)
  obtain as s1 s2 where r: "proc_resort (we_proc env) (we_ratio1000 env) (ws_ng st) (we_sortkey env) (ws_ps st) = Some s1"
    "mset as = mset (concat chs)"
    "sorted_wrt (\<lambda>a b. key_of (we_ratio1000 env) (ws_ng st) (we_sortkey env) (the (ps_procs (ws_ps st) b)) \<le>
                       key_of (we_ratio1000 env) (ws_ng st) (we_sortkey env) (the (ps_procs (ws_ps st) a))) as"
    "sorted_lines (topnproc_data_save env (ws_ng st)) ?n 0 s1 (tp_buf dyn) =
       Some (s2, map (\<lambda>a. topnproc_line_of env (ws_ng st) (the (ps_procs (ws_ps st) a))) (take ?n as) @ drop ?n (tp_buf dyn))"
    by (rule sorted_table [OF assms(1-4), where n = ?n and lines = "tp_buf dyn" and env = env]) (use assms(5) in auto)
  have la: "length as = length (concat chs)" using r(2) by (metis size_mset)
  have buf: "map f (take ?n as) @ drop ?n (tp_buf dyn) = map f (take (nat WIN_NLINES_MAX) as) @ drop (length as) (tp_buf dyn)" for f
    using assms(5) la by (cases "length as \<le> nat WIN_NLINES_MAX") (simp_all add: min_def)
  have w: "win_dump x t = Some t" if "dc_fout (ws_dump t) = None" for x t
    using that by (simp add: win_dump_def dump_write_def)
  show ?thesis
    using r assms(2,6,7) n la
    by (intro exI [of _ as]) (simp add: topnproc_win_draw_def topnproc_data_show_def win_title_show_def dump_head_def dump_line_def w
        proc_lwp_count_def Let_def buf)
qed

text \<open>The processes 7 and 135, the second of which is busier.\<close>

definition proc7_demo :: track_proc where "proc7_demo = (proc_demo 7)\<lparr>p_hash_prev := Some 2\<rparr>"
definition proc135_demo :: track_proc where "proc135_demo = (proc_demo 135)\<lparr>p_hash_next := Some 1\<rparr>"

definition busy_demo :: pstate where
  "busy_demo = table_demo\<lparr>ps_procs := (ps_procs table_demo)
     (1 \<mapsto> proc7_demo\<lparr>p_countval_arr := [\<lambda>_. 10]\<rparr>, 2 \<mapsto> proc135_demo\<lparr>p_countval_arr := [\<lambda>_. 20]\<rparr>)\<rparr>"

lemma busy_demo_ok: "tbl_ok busy_demo chains_demo"
proof -
  have procs: "ps_procs table_demo 1 = Some proc7_demo" "ps_procs table_demo 2 = Some proc135_demo"
    by (simp_all add: table_demo_def proc7_demo_def proc135_demo_def)
  have latest: "pg_latest (ps_group table_demo) = None" by (simp add: table_demo_def)
  have one: "tbl_ok (table_demo\<lparr>ps_procs := (ps_procs table_demo)(1 \<mapsto> proc7_demo\<lparr>p_countval_arr := [\<lambda>_. 10]\<rparr>),
      ps_group := ps_group table_demo\<rparr>) chains_demo" (is "tbl_ok ?s _")
    by (rule tbl_ok_upd [OF table_demo_ok procs(1)]) (simp_all add: latest)
  have two: "ps_procs ?s 2 = Some proc135_demo" using procs(2) by simp
  have "tbl_ok (?s\<lparr>ps_procs := (ps_procs ?s)(2 \<mapsto> proc135_demo\<lparr>p_countval_arr := [\<lambda>_. 20]\<rparr>), ps_group := ps_group ?s\<rparr>) chains_demo"
    by (rule tbl_ok_upd [OF one two]) (simp_all add: latest)
  then show ?thesis by (simp add: busy_demo_def)
qed

lemma busy_demo_procs:
  "ps_procs busy_demo 1 = Some (proc7_demo\<lparr>p_countval_arr := [\<lambda>_. 10]\<rparr>)"
  "ps_procs busy_demo 2 = Some (proc135_demo\<lparr>p_countval_arr := [\<lambda>_. 20]\<rparr>)"
  by (simp_all add: busy_demo_def)

definition group_busy :: node_group where
  "group_busy = group_demo\<lparr>ng_nodes := [(hd (ng_nodes group_demo))\<lparr>n_ncpus := 1\<rparr>]\<rparr>"

lemma busy_sums:
  "node_countval_sum group_busy [\<lambda>_. 10] NODE_ALL u \<noteq> None" "node_countval_sum group_busy [\<lambda>_. 20] NODE_ALL u \<noteq> None"
  by (cases u; code_simp)+

lemma busy_clk:
  "node_countval_sum group_busy [\<lambda>_. 10] NODE_ALL UI_COUNT_CLK = Some 10"
  "node_countval_sum group_busy [\<lambda>_. 20] NODE_ALL UI_COUNT_CLK = Some 20"
  by code_simp+

definition topn_demo :: "nat dyn_topnproc" where
  "topn_demo = \<lparr>tp_summary = reg_zero, tp_caption = reg_zero, tp_data = reg_zero, tp_hint = reg_zero,
     tp_buf = replicate (nat WIN_NLINES_MAX) (topnproc_line_zero floats_demo)\<rparr>"

theorem process_table_shows_sorted_witness:
  "\<exists>dyn1 st1. topnproc_win_draw (wenv_demo 24) WIN_TYPE_RAW_NUM topn_demo (wst_demo\<lparr>ws_ps := busy_demo, ws_ng := group_busy\<rparr>) = Some (dyn1, st1, True) \<and>
     map tl_pid (take 2 (tp_buf dyn1)) = [135, 7] \<and> nlines_total (tp_data dyn1) = 2"
proof -
  let ?st = "wst_demo\<lparr>ws_ps := busy_demo, ws_ng := group_busy\<rparr>"
  let ?key = "\<lambda>a. key_of (we_ratio1000 (wenv_demo 24)) (ws_ng ?st) (we_sortkey (wenv_demo 24)) (the (ps_procs (ws_ps ?st) a))"
  let ?line = "\<lambda>a. topnproc_line_of (wenv_demo 24) (ws_ng ?st) (the (ps_procs (ws_ps ?st) a))"
  have n: "pg_nprocs (ps_group busy_demo) = int (length (concat chains_demo))"
    unfolding concat_demo by (simp add: busy_demo_def table_demo_def)
  have c: "countable_proc (ws_ng ?st) p" if "a \<in> set (concat chains_demo)" "ps_procs (ws_ps ?st) a = Some p" for a p
  proof -
    have "a = 2 \<or> a = 1" using that(1) unfolding concat_demo by auto
    then show ?thesis using that(2) busy_sums busy_demo_procs by (auto simp: countable_proc_def wst_demo_def)
  qed
  obtain as dyn1 st1 where r: "topnproc_win_draw (wenv_demo 24) WIN_TYPE_RAW_NUM topn_demo ?st = Some (dyn1, st1, True)"
    "mset as = mset (concat chains_demo)" "sorted_wrt (\<lambda>a b. ?key b \<le> ?key a) as"
    "tp_buf dyn1 = map ?line (take (nat WIN_NLINES_MAX) as) @ drop (length as) (tp_buf topn_demo)"
    "nlines_total (tp_data dyn1) = min (int (length as)) WIN_NLINES_MAX"
    using process_table_shows_sorted [of ?st chains_demo "wenv_demo 24" topn_demo WIN_TYPE_RAW_NUM] busy_demo_ok n c
    by (auto simp: topn_demo_def wst_demo_def wenv_demo_def proc_env_demo_def dump_zero_def)
  have k: "?key 1 = 10" "?key 2 = 20"
    by (simp_all add: key_of_def proc_key_compute_def wenv_demo_def wst_demo_def busy_demo_procs busy_clk Let_def
        busy_demo_procs [unfolded One_nat_def])
  have "length as = 2" "set as = {1, 2}" using r(2) unfolding concat_demo by (metis size_mset length_Cons list.size(3) numeral_2_eq_2, metis set_mset_mset list.set insert_commute)
  then obtain x y where "as = [x, y]" by (auto simp: numeral_2_eq_2 length_Suc_conv)
  then have "as = [2, 1]" using r(3) k \<open>set as = {1, 2}\<close> by (auto simp: doubleton_eq_iff)
  moreover have "tl_pid (topnproc_line_of env g p) = p_pid p" if "countable_proc g p" for env :: "nat win_env" and g p
    using countvalue_defined [OF that, of "we_floats env" "proc_intval_get p" "we_ncpus env"]
    by (auto simp: topnproc_line_of_def topnproc_data_save_def)
  then have "tl_pid (?line 1) = 7" "tl_pid (?line 2) = 135"
    using c [of 1] c [of 2] busy_demo_procs unfolding concat_demo
    by (simp_all add: wst_demo_def proc7_demo_def proc135_demo_def proc_demo_def)
  ultimately show ?thesis using r by (simp add: WIN_NLINES_MAX_def)
qed

end
