(* ===== verification/WinChainUse.thy ===== *)
theory WinChainUse
  imports WinChain
begin

text \<open>
  What a call-chain window shows of a list of chains (chainlist_show of
  common/win.c): all chains, the most frequent first, and none of them is left
  behind unless the buffer for the lines is refused
  (chainlist_show_lists_all).
\<close>

section \<open>The lines of a list\<close>

definition name_line :: "sym_callentry \<Rightarrow> string" where
  "name_line e = take (WIN_LINECHAR_MAX - 1) (ce_name e)"

fun blocks :: "nat \<Rightarrow> (sym_callentry list \<times> int) list \<Rightarrow> string list" where
  "blocks i [] = []"
| "blocks i (c # cs) = (chain_head i # map name_line (fst c) @ [[]]) @ blocks (i + 1) cs"

definition entries :: "(sym_callentry list \<times> int) list \<Rightarrow> nat" where
  "entries cs = (\<Sum>c\<leftarrow>cs. length (fst c))"

lemma length_blocks: "length (blocks i cs) = entries cs + 2 * length cs"
  by (induction cs arbitrary: i) (simp_all add: entries_def)

lemma content_Nil [simp]: "content h [] = []"
  by (simp add: content_def)

lemma length_content [simp]: "length (content h as) = length as"
  by (simp add: content_def)

lemma content_Cons: "content h (a # as) = (ca_entry_arr (the (h a)), ca_naccess (the (h a))) # content h as"
  by (simp add: content_def)

lemma entries_resort: "entries (abs_resort cs) = entries cs"
proof -
  have "mset (abs_resort cs) = mset cs" by (simp add: abs_resort_def)
  then have "mset (map (\<lambda>c. length (fst c)) (abs_resort cs)) = mset (map (\<lambda>c. length (fst c)) cs)" by simp
  then have "sum_mset (mset (map (\<lambda>c. length (fst c)) (abs_resort cs))) = sum_mset (mset (map (\<lambda>c. length (fst c)) cs))"
    by (rule arg_cong)
  then show ?thesis unfolding entries_def sum_mset_sum_list .
qed

lemma nentry_from_result:
  assumes "dseg ca_next ca_prev h p as None" "\<forall>a\<in>set as. \<exists>c. h a = Some c \<and> node_ok c"
  shows "nentry_from h (firstp as None) (m, n) = Some (m + length as, n + entries (content h as))"
  using assms
proof (induction as arbitrary: p m n)
  case (Cons a as)
  then obtain c where c: "h a = Some c" "node_ok c" by auto
  have "ca_next c = firstp as None" "dseg ca_next ca_prev h (Some a) as None" using Cons.prems(1) c(1) by simp_all
  then show ?case using Cons.IH Cons.prems(2) c
    by (subst nentry_from.simps) (simp add: content_Cons entries_def node_ok_def)
qed (simp add: nentry_from.simps entries_def)

lemma nentry_result: "cl_ok h l as \<Longrightarrow> sym_chainlist_nentry (h, l) = Some (length as, entries (content h as))"
  using nentry_from_result [of h None as 0 0] by (simp add: sym_chainlist_nentry_def cl_ok_def)

lemma put_lines_inside:
  "length ss \<le> length ys \<Longrightarrow> put_lines ss (int (length xs)) (xs @ ys) = Some (xs @ ss @ drop (length ss) ys)"
proof (induction ss arbitrary: xs ys)
  case (Cons s ss)
  then obtain y zs where y: "ys = y # zs" by (cases ys) auto
  have "put_lines ss (int (length (xs @ [s]))) ((xs @ [s]) @ zs) = Some ((xs @ [s]) @ ss @ drop (length ss) zs)"
    using Cons.IH [of zs "xs @ [s]"] Cons.prems y by simp
  then show ?case by (simp add: y add.commute)
qed simp

lemma detach_keeps_node:
  assumes "cl_ok h l (a # as)" "sym_callchain_detach (h, l) = Some ((h1, l1), Some a)"
  shows "\<exists>c1. h1 a = Some c1 \<and> node_ok c1 \<and> ca_entry_arr c1 = ca_entry_arr (the (h a))"
proof -
  have "cl_ok h l ([] @ a # as)" using assms(1) by simp
  from detach_ok [OF this] obtain h2 l2 where d: "chainlist_detach a (h, l) = Some (h2, l2)" "same_core h h2" by auto
  obtain c where c: "h a = Some c" "node_ok c" "cl_head l = Some a" using assms(1) by (auto simp: cl_ok_def)
  then have "h2 = h1" using assms(2) d(1) by (simp add: sym_callchain_detach_def)
  then show ?thesis using same_core_node [OF d(2) c(1)] c by (metis node_ok_def option.sel)
qed

lemma chain_lines_result:
  assumes "cl_ok h l as" "length ys = entries (content h as) + 2 * length as"
  shows "\<exists>h1 l1. chain_lines (length as) i (int (length xs)) (xs @ ys) (h, l) = Some (xs @ blocks i (content h as), h1, l1) \<and>
    cl_ok h1 l1 [] \<and> (\<forall>b. h b = None \<or> b \<in> set as \<longrightarrow> h1 b = None)"
  using assms
proof (induction as arbitrary: h l i xs ys)
  case (Cons a as)
  from detach_first [OF Cons.prems(1)] obtain h1 l1 h2 where
    d: "sym_callchain_detach (h, l) = Some ((h1, l1), Some a)" "sym_callchain_free a h1 = Some h2"
      "cl_ok h2 l1 as" "content h2 as = content h as" "\<forall>b. h b = None \<longrightarrow> h2 b = None" by blast
  from detach_keeps_node [OF Cons.prems(1) d(1)] obtain c1 where
    c: "h1 a = Some c1" "node_ok c1" "ca_entry_arr c1 = ca_entry_arr (the (h a))" by blast
  have gone: "h2 a = None" using d(2) c(1) by (auto simp: sym_callchain_free_def)
  let ?b = "chain_head i # map name_line (ca_entry_arr c1) @ [[]]"
  have b: "chain_block i c1 = Some ?b" using c(2) by (simp add: chain_block_def node_ok_def name_line_def)
  have len: "length ys = length ?b + (entries (content h2 as) + 2 * length as)"
    using Cons.prems(2) c(3) d(4) by (simp add: content_Cons entries_def)
  then have "put_lines ?b (int (length xs)) (xs @ ys) = Some ((xs @ ?b) @ drop (length ?b) ys)"
    using put_lines_inside [of ?b ys xs] by simp
  moreover obtain h3 l3 where r: "chain_lines (length as) (i + 1) (int (length (xs @ ?b))) ((xs @ ?b) @ drop (length ?b) ys) (h2, l1) =
      Some ((xs @ ?b) @ blocks (i + 1) (content h2 as), h3, l3)" "cl_ok h3 l3 []"
      "\<forall>b. h2 b = None \<or> b \<in> set as \<longrightarrow> h3 b = None"
    using Cons.IH [OF d(3), of "drop (length ?b) ys" "i + 1" "xs @ ?b"] len by auto
  ultimately have "chain_lines (length (a # as)) i (int (length xs)) (xs @ ys) (h, l) =
      Some (xs @ blocks i (content h (a # as)), h3, l3)"
    using d(1,2) c(1,3) b d(4) by (simp add: content_Cons algebra_simps)
  then show ?case using r(2,3) d(5) gone by auto
qed (simp add: entries_def)

text \<open>Sorting moves the chains about and keeps their nodes.\<close>

lemma resort_dom:
  assumes "cl_ok h l as" "dom h = set as"
  obtains h1 l1 as1 where "sym_callchain_resort (h, l) = Some (h1, l1)" "cl_ok h1 l1 as1"
    "content h1 as1 = abs_resort (content h as)" "dom h1 = set as1"
proof -
  from callchain_resort_ok [OF assms(1)] obtain h1 l1 as1 where
    r: "sym_callchain_resort (h, l) = Some (h1, l1)" "cl_ok h1 l1 as1" "content h1 as1 = abs_resort (content h as)"
      "\<forall>b. h b = None \<longrightarrow> h1 b = None" by blast
  have "length (content h1 as1) = length (content h as)" by (simp add: r(3) abs_resort_def)
  then have n: "card (set as1) = card (set as)"
    using assms(1) r(2) by (simp add: cl_ok_def distinct_card)
  have s: "set as1 \<subseteq> dom h1" "dom h1 \<subseteq> set as" using r(2,4) assms(2) by (fastforce simp: cl_ok_def)+
  then have "set as1 = set as" using n by (metis List.finite_set card_subset_eq order_trans)
  then show ?thesis using that r s by auto
qed

lemma free_nothing: "cl_ok h l [] \<Longrightarrow> sym_chainlist_free (h, l) = Some (h, sym_chainlist_zero)"
  by (simp add: sym_chainlist_free_def cl_ok_def chainlist_free_from.simps)

text \<open>
  C20: A call-chain window shows every chain it was given, the most frequent
  first: when the list has entries and memory for the lines is found, the buffer
  of the window is exactly the numbered chains one after the other, each line
  of it was written inside the buffer, scrolling ends at its last line but one,
  and every chain has been freed.  When the buffer is refused all chains stay
  allocated, although the list that names them is gone.
\<close>

theorem chainlist_show_lists_all:
  assumes "cl_ok h l as" "dom h = set as" "cs = abs_resort (content h as)" "entries cs > 0"
  shows "(ok (int (length (blocks 0 cs))) \<longrightarrow>
      (\<exists>reg1 l1. chainlist_show ok (h, l) reg lines st = Some (reg1, blocks 0 cs, st, (Map.empty, l1), 0))) \<and>
    (\<not> ok (int (length (blocks 0 cs))) \<longrightarrow>
      (\<exists>h1 l1. chainlist_show ok (h, l) reg lines st = Some (reg_erase reg, lines, st, (h1, l1), -1) \<and>
        card (dom h1) = length cs))"
proof -
  from resort_dom [OF assms(1,2)] obtain h1 l1 as1 where
    r: "sym_callchain_resort (h, l) = Some (h1, l1)" "cl_ok h1 l1 as1" "content h1 as1 = cs" "dom h1 = set as1"
    using assms(3) by metis
  have n: "sym_chainlist_nentry (h1, l1) = Some (length as1, entries cs)" using nentry_result [OF r(2)] r(3) by simp
  have len: "length (blocks 0 cs) = entries cs + 2 * length as1" using r(3) by (auto simp: length_blocks)
  have "length (replicate (entries cs + 2 * length as1) ([] :: string)) = entries (content h1 as1) + 2 * length as1" using r(3) by simp
  from chain_lines_result [OF r(2) this, of 0 "[]"] obtain h2 l2 where
    l: "chain_lines (length as1) 0 0 (replicate (entries cs + 2 * length as1) []) (h1, l1) = Some (blocks 0 cs, h2, l2)"
      "cl_ok h2 l2 []" "\<forall>b. h1 b = None \<or> b \<in> set as1 \<longrightarrow> h2 b = None"
    using r(3) by auto
  have "h2 = Map.empty" using l(3) r(4) by (metis domIff ext)
  moreover have "card (dom h1) = length cs" using r by (auto simp: cl_ok_def distinct_card)
  ultimately show ?thesis
    using r(1) n l(1) assms(4) free_nothing [OF l(2)] len by (auto simp: chainlist_show_def Let_def)
qed

definition demo_chain :: "string \<Rightarrow> int \<Rightarrow> ptr \<Rightarrow> ptr \<Rightarrow> sym_callchain" where
  "demo_chain s n p q = \<lparr>ca_entry_arr = [\<lparr>ce_addr = 0x10, ce_size = 8, ce_name = s\<rparr>], ca_nentry = 1, ca_naccess = n,
     ca_prev = p, ca_next = q\<rparr>"

theorem chainlist_show_lists_all_witness:
  "\<forall>reg st. \<exists>buf reg1 l1. chainlist_show (\<lambda>_. True) ([1 \<mapsto> demo_chain ''f'' 0 None (Some 2), 2 \<mapsto> demo_chain ''g'' 3 (Some 1) None],
       \<lparr>cl_head = Some 1, cl_tail = Some 2, cl_num = 2\<rparr>) reg [] st = Some (reg1, buf, st, (Map.empty, l1), 0) \<and>
     buf ! 1 = ''g'' \<and> buf ! 4 = ''f''"
proof (intro allI)
  fix reg st
  let ?h = "[1 \<mapsto> demo_chain ''f'' 0 None (Some 2), 2 \<mapsto> demo_chain ''g'' 3 (Some 1) None]"
  let ?e = "\<lambda>s. [\<lparr>ce_addr = 0x10, ce_size = 8, ce_name = s\<rparr>]"
  have c: "abs_resort (content ?h [1, 2]) = [(?e ''g'', 3), (?e ''f'', 0)]"
    by (simp add: content_def demo_chain_def abs_resort_def)
  have ok: "cl_ok ?h \<lparr>cl_head = Some 1, cl_tail = Some 2, cl_num = 2\<rparr> [1, 2]"
    by (simp add: cl_ok_def demo_chain_def node_ok_def lastp_def)
  have dom: "dom ?h = set [1, 2 :: nat]" by auto
  have "\<exists>reg1 l1. chainlist_show (\<lambda>_. True) (?h, \<lparr>cl_head = Some 1, cl_tail = Some 2, cl_num = 2\<rparr>) reg [] st =
      Some (reg1, blocks 0 [(?e ''g'', 3), (?e ''f'', 0)], st, (Map.empty, l1), 0)"
    using chainlist_show_lists_all [OF ok dom c [symmetric], of "\<lambda>_. True" reg "[]" st]
    by (simp add: entries_def del: blocks.simps)
  moreover have "blocks 0 [(?e ''g'', 3), (?e ''f'', 0)] ! 1 = ''g''" "blocks 0 [(?e ''g'', 3), (?e ''f'', 0)] ! 4 = ''f''"
    by (simp_all add: name_line_def WIN_LINECHAR_MAX_def)
  ultimately show "\<exists>buf reg1 l1. chainlist_show (\<lambda>_. True) (?h, \<lparr>cl_head = Some 1, cl_tail = Some 2, cl_num = 2\<rparr>) reg [] st =
      Some (reg1, buf, st, (Map.empty, l1), 0) \<and> buf ! 1 = ''g'' \<and> buf ! 4 = ''f''"
    by blast
qed

end
