(* ===== verification/Plat.thy ===== *)
theory Plat
  imports Pf Util
begin

text \<open>
  The processors numatop knows (src/x86, common/os/plat.c): telling the type of
  the processor from cpuid, the tables with the events of every type, and the
  configuration of the counters made from them (profiling_init, ll_init of
  common/os/os_perf.c).
\<close>

section \<open>The type of the processor\<close>

datatype cpu_type =
    CPU_UNSUP | CPU_WSM_EX | CPU_SNB_EP | CPU_NHM_EX | CPU_NHM_EP | CPU_WSM_EP
  | CPU_IVB_EX | CPU_HSX | CPU_BDX | CPU_SKX | CPU_ICX | CPU_SPR | CPU_EMR
  | CPU_GNR | CPU_SRF | CPU_ZEN | CPU_ZEN3 | CPU_ZEN4

text \<open>The registers eax, ebx, ecx, edx after cpuid with a number in eax.\<close>

type_synonym cpuid = "u32 \<Rightarrow> u32 \<times> u32 \<times> u32 \<times> u32"

definition CPU_FAMILY :: "u32 \<Rightarrow> nat" where "CPU_FAMILY eax = unat (take_bit 4 (drop_bit 8 eax))"
definition CPU_MODEL :: "u32 \<Rightarrow> nat" where "CPU_MODEL eax = unat (take_bit 4 (drop_bit 4 eax))"
definition CPU_EXT_FAMILY :: "u32 \<Rightarrow> nat" where "CPU_EXT_FAMILY eax = unat (take_bit 8 (drop_bit 20 eax))"
definition CPU_EXT_MODEL :: "u32 \<Rightarrow> nat" where "CPU_EXT_MODEL eax = unat (take_bit 4 (drop_bit 16 eax))"

definition reg_chars :: "u32 \<Rightarrow> string" where
  "reg_chars w = map (\<lambda>i. char_of (unat (take_bit 8 (drop_bit (8 * i) w)))) [0, 1, 2, 3]"

definition family6_type :: "nat \<Rightarrow> cpu_type" where
  "family6_type model =
     (if model = 26 then CPU_NHM_EP
      else if model = 44 then CPU_WSM_EP
      else if model = 45 then CPU_SNB_EP
      else if model = 46 then CPU_NHM_EX
      else if model = 47 then CPU_WSM_EX
      else if model = 62 then CPU_IVB_EX
      else if model = 63 then CPU_HSX
      else if model = 79 then CPU_BDX
      else if model = 85 then CPU_SKX
      else if model = 106 then CPU_ICX
      else if model = 143 then CPU_SPR
      else if model = 207 then CPU_EMR
      else if model = 173 then CPU_GNR
      else if model = 175 then CPU_SRF
      else CPU_UNSUP)"

definition cpu_type_get :: "cpuid \<Rightarrow> cpu_type" where
  "cpu_type_get cpuid =
     (case cpuid 0 of (_, ebx, ecx, edx) \<Rightarrow>
        let vendor = reg_chars ebx @ reg_chars ecx @ reg_chars edx
        in if vendor \<noteq> ''GenuntelineI'' \<and> vendor \<noteq> ''AuthcAMDenti'' then CPU_UNSUP
           else
             case cpuid 1 of (eax, _, _, _) \<Rightarrow>
               let family = CPU_FAMILY eax;
                   model = CPU_MODEL eax;
                   model1 = (if family = 6 \<or> family = 15 then model + CPU_EXT_MODEL eax * 16 else model);
                   family1 = (if family = 15 then family + CPU_EXT_FAMILY eax else family)
               in if family1 = 6 then family6_type model1
                  else if family1 = 23 then CPU_ZEN
                  else if family1 = 25 then
                    (if model1 \<le> 15 \<or> 32 \<le> model1 \<and> model1 \<le> 47 \<or> 64 \<le> model1 \<and> model1 \<le> 95
                     then CPU_ZEN3 else CPU_ZEN4)
                  else if family1 \<ge> 26 then CPU_ZEN4
                  else CPU_UNSUP)"

text \<open>What becomes of s_cpu_type, and the return value.\<close>

definition plat_detect :: "cpuid \<Rightarrow> cpu_type \<Rightarrow> cpu_type \<times> int" where
  "plat_detect cpuid s_cpu_type =
     (let cpu_type = cpu_type_get cpuid
      in if cpu_type = CPU_UNSUP then (s_cpu_type, -1) else (cpu_type, 0))"

section \<open>Events\<close>

definition PERF_TYPE_HARDWARE :: u32 where "PERF_TYPE_HARDWARE = 0"
definition PERF_TYPE_RAW :: u32 where "PERF_TYPE_RAW = 4"
definition PERF_COUNT_HW_CPU_CYCLES :: u64 where "PERF_COUNT_HW_CPU_CYCLES = 0"
definition PERF_COUNT_HW_INSTRUCTIONS :: u64 where "PERF_COUNT_HW_INSTRUCTIONS = 1"
definition PERF_COUNT_HW_REF_CPU_CYCLES :: u64 where "PERF_COUNT_HW_REF_CPU_CYCLES = 9"
definition INVALID_CODE_UMASK :: u64 where "INVALID_CODE_UMASK = -1"
definition LL_THRESH :: u64 where "LL_THRESH = 128"
definition LL_PERIOD :: u64 where "LL_PERIOD = 1000"

definition PLAT_EVENT_DESC_SIZE :: nat where "PLAT_EVENT_DESC_SIZE = 64"

record plat_event_config =
  pl_type :: u32
  pl_config :: u64
  pl_other_attr :: u64
  pl_extra_value :: u64
  pl_sample_period :: u64
  pl_exclude_guest :: bool
  pl_desc :: string

text \<open>An initialiser of the tables, in the order of the structure.\<close>

definition event :: "u32 \<Rightarrow> u64 \<Rightarrow> u64 \<Rightarrow> u64 \<Rightarrow> u64 \<Rightarrow> bool \<Rightarrow> string \<Rightarrow> plat_event_config" where
  "event t c a x p g d = \<lparr>pl_type = t, pl_config = c, pl_other_attr = a, pl_extra_value = x, pl_sample_period = p,
     pl_exclude_guest = g, pl_desc = d\<rparr>"

section \<open>The tables\<close>

definition clk_event :: plat_event_config where
  "clk_event = event PERF_TYPE_HARDWARE PERF_COUNT_HW_CPU_CYCLES 0x53 0 0 False ''cpu_clk_unhalted.core''"

definition ref_event :: plat_event_config where
  "ref_event = event PERF_TYPE_HARDWARE PERF_COUNT_HW_REF_CPU_CYCLES 0x53 0 0 False ''cpu_clk_unhalted.ref''"

definition ir_event :: plat_event_config where
  "ir_event = event PERF_TYPE_HARDWARE PERF_COUNT_HW_INSTRUCTIONS 0x53 0 0 False ''instr_retired.any''"

text \<open>The tables of the Intel processors differ in their two off-core events.\<close>

definition intel_config :: "u64 \<Rightarrow> u64 \<Rightarrow> u64 \<Rightarrow> u64 \<Rightarrow> plat_event_config list" where
  "intel_config c1 x1 c2 x2 =
     [clk_event, event PERF_TYPE_RAW c1 0x53 x1 0 False ''off_core_response_0'', ref_event, ir_event,
      event PERF_TYPE_RAW c2 0x53 x2 0 False ''off_core_response_1'']"

definition s_nhm_profiling :: "plat_event_config list" where
  "s_nhm_profiling =
     [clk_event, event PERF_TYPE_RAW 0x01B7 0x53 0x2011 0 False ''off_core_response_0'', ref_event, ir_event,
      event PERF_TYPE_RAW INVALID_CODE_UMASK 0 0 0 False ''off_core_response_1'']"

definition s_wsmex_profiling :: "plat_event_config list" where
  "s_wsmex_profiling = intel_config 0x01B7 0x2011 0x01BB 0x5011"
definition s_wsmep_profiling :: "plat_event_config list" where
  "s_wsmep_profiling = intel_config 0x01B7 0x2011 0x01BB 0x5011"
definition s_snb_ep_config :: "plat_event_config list" where
  "s_snb_ep_config = intel_config 0x01B7 0x67f800001 0x01BB 0x600400001"
definition s_bdw_config :: "plat_event_config list" where
  "s_bdw_config = intel_config 0x01B7 0x638000001 0x01BB 0x604000001"
definition s_skl_config :: "plat_event_config list" where
  "s_skl_config = intel_config 0x01B7 0x638000001 0x01BB 0x1f84000001"
definition s_icx_config :: "plat_event_config list" where
  "s_icx_config = intel_config 0x01B7 0x730000001 0x01BB 0x104000001"
definition s_spr_config :: "plat_event_config list" where
  "s_spr_config = intel_config 0x012A 0x730000001 0x012B 0x104000001"
definition s_srf_config :: "plat_event_config list" where
  "s_srf_config = intel_config 0x01B7 0x730000001 0x02B7 0x184000001"

definition s_zen_config :: "plat_event_config list" where
  "s_zen_config =
     [event PERF_TYPE_HARDWARE PERF_COUNT_HW_CPU_CYCLES 0 0 0 False ''LsNotHaltedCyc'',
      event PERF_TYPE_RAW 0x4043 0 0 0 False ''LsDmndFillsFromSys.DRAM_IO_Far'',
      event PERF_TYPE_HARDWARE PERF_COUNT_HW_CPU_CYCLES 0 0 0 False ''LsNotHaltedCyc'',
      event PERF_TYPE_HARDWARE PERF_COUNT_HW_INSTRUCTIONS 0x53 0 0 False ''ExRetOps'',
      event PERF_TYPE_RAW 0x0843 0 0 0 False ''LsDmndFillsFromSys.DRAM_IO_Near'']"

definition s_zen3_config :: "plat_event_config list" where
  "s_zen3_config =
     [event PERF_TYPE_HARDWARE PERF_COUNT_HW_CPU_CYCLES 0 0 0 False ''LsNotHaltedCyc'',
      event PERF_TYPE_RAW 0x4044 0 0 0 False ''LsAnyFillsFromSys.MemIoRemote'',
      event PERF_TYPE_HARDWARE PERF_COUNT_HW_CPU_CYCLES 0 0 0 False ''LsNotHaltedCyc'',
      event PERF_TYPE_HARDWARE PERF_COUNT_HW_INSTRUCTIONS 0x53 0 0 False ''ExRetOps'',
      event PERF_TYPE_RAW 0x0844 0 0 0 False ''LsAnyFillsFromSys.MemIoLocal'']"

definition s_zen4_config :: "plat_event_config list" where
  "s_zen4_config =
     [event PERF_TYPE_HARDWARE PERF_COUNT_HW_CPU_CYCLES 0 0 0 False ''LsNotHaltedCyc'',
      event PERF_TYPE_RAW 0x4044 0 0 0 False ''LsAnyFillsFromSys.MemIoRemote'',
      event PERF_TYPE_RAW 0x100000120 0 0 0 False ''LsNotHaltedP0Cyc.P0FreqCyc'',
      event PERF_TYPE_HARDWARE PERF_COUNT_HW_INSTRUCTIONS 0x53 0 0 False ''ExRetOps'',
      event PERF_TYPE_RAW 0x0844 0 0 0 False ''LsAnyFillsFromSys.MemIoLocal'']"

definition s_nhm_ll :: plat_event_config where
  "s_nhm_ll = event PERF_TYPE_RAW 0x100B 0x53 LL_THRESH 0 True ''mem_inst_retired.latency_above_threshold''"
definition s_wsm_ll :: plat_event_config where
  "s_wsm_ll = event PERF_TYPE_RAW 0x100B 0x53 LL_THRESH 0 True ''mem_inst_retired.latency_above_threshold''"
definition s_snb_ll :: plat_event_config where
  "s_snb_ll = event PERF_TYPE_RAW 0x01CD 0x53 LL_THRESH 0 True ''mem_trans_retired.latency_above_threshold''"
definition s_bdw_ll :: plat_event_config where
  "s_bdw_ll = event PERF_TYPE_RAW 0x01CD 0x53 LL_THRESH 0 True ''mem_trans_retired.latency_above_threshold''"
definition s_skl_ll :: plat_event_config where
  "s_skl_ll = event PERF_TYPE_RAW 0x01CD 0x53 LL_THRESH 0 True ''mem_trans_retired.latency_above_threshold''"
definition s_srf_ll :: plat_event_config where
  "s_srf_ll = event PERF_TYPE_RAW 0x05D0 0x53 LL_THRESH 0 True ''mem_trans_retired.latency_above_threshold''"
definition s_zen_ll :: plat_event_config where
  "s_zen_ll = event 0 0 0 0 (LL_THRESH * 10) False ''IbsOpCntCycles''"

section \<open>Looking an event up\<close>

definition count_no :: "perf_count_id \<Rightarrow> int" where
  "count_no i =
     (case i of PERF_COUNT_INVALID \<Rightarrow> -1 | PERF_COUNT_CORE_CLK \<Rightarrow> 0 | PERF_COUNT_RMA \<Rightarrow> 1 | PERF_COUNT_CLK \<Rightarrow> 2
      | PERF_COUNT_IR \<Rightarrow> 3 | PERF_COUNT_LMA \<Rightarrow> 4)"

text \<open>The sampling period and the guests are not copied.\<close>

definition plat_config_get ::
  "plat_event_config list \<Rightarrow> perf_count_id \<Rightarrow> plat_event_config \<Rightarrow> plat_event_config option" where
  "plat_config_get cfg_arr i cfg =
     do {
       e \<leftarrow> arr_get cfg_arr (count_no i);
       Some (cfg\<lparr>pl_type := pl_type e, pl_config := pl_config e, pl_other_attr := pl_other_attr e,
         pl_extra_value := pl_extra_value e, pl_desc := take (PLAT_EVENT_DESC_SIZE - 1) (pl_desc e)\<rparr>)
     }"

text \<open>
  The functions of the processors.  nhm.c has a copy of plat_config_get of its own
  (config_get), which is the same.
\<close>

definition nhmex_profiling_config :: "perf_count_id \<Rightarrow> plat_event_config \<Rightarrow> plat_event_config option" where
  "nhmex_profiling_config = plat_config_get s_nhm_profiling"
definition nhmep_profiling_config :: "perf_count_id \<Rightarrow> plat_event_config \<Rightarrow> plat_event_config option" where
  "nhmep_profiling_config = plat_config_get s_nhm_profiling"
definition wsmex_profiling_config :: "perf_count_id \<Rightarrow> plat_event_config \<Rightarrow> plat_event_config option" where
  "wsmex_profiling_config = plat_config_get s_wsmex_profiling"
definition wsmep_profiling_config :: "perf_count_id \<Rightarrow> plat_event_config \<Rightarrow> plat_event_config option" where
  "wsmep_profiling_config = plat_config_get s_wsmep_profiling"
definition snbep_profiling_config :: "perf_count_id \<Rightarrow> plat_event_config \<Rightarrow> plat_event_config option" where
  "snbep_profiling_config = plat_config_get s_snb_ep_config"
definition bdw_profiling_config :: "perf_count_id \<Rightarrow> plat_event_config \<Rightarrow> plat_event_config option" where
  "bdw_profiling_config = plat_config_get s_bdw_config"
definition skl_profiling_config :: "perf_count_id \<Rightarrow> plat_event_config \<Rightarrow> plat_event_config option" where
  "skl_profiling_config = plat_config_get s_skl_config"
definition icx_profiling_config :: "perf_count_id \<Rightarrow> plat_event_config \<Rightarrow> plat_event_config option" where
  "icx_profiling_config = plat_config_get s_icx_config"
definition spr_profiling_config :: "perf_count_id \<Rightarrow> plat_event_config \<Rightarrow> plat_event_config option" where
  "spr_profiling_config = plat_config_get s_spr_config"
definition srf_profiling_config :: "perf_count_id \<Rightarrow> plat_event_config \<Rightarrow> plat_event_config option" where
  "srf_profiling_config = plat_config_get s_srf_config"
definition zen_profiling_config :: "perf_count_id \<Rightarrow> plat_event_config \<Rightarrow> plat_event_config option" where
  "zen_profiling_config = plat_config_get s_zen_config"
definition zen3_profiling_config :: "perf_count_id \<Rightarrow> plat_event_config \<Rightarrow> plat_event_config option" where
  "zen3_profiling_config = plat_config_get s_zen3_config"
definition zen4_profiling_config :: "perf_count_id \<Rightarrow> plat_event_config \<Rightarrow> plat_event_config option" where
  "zen4_profiling_config = plat_config_get s_zen4_config"

definition nhmex_ll_config :: "plat_event_config \<Rightarrow> plat_event_config" where "nhmex_ll_config cfg = s_nhm_ll"
definition nhmep_ll_config :: "plat_event_config \<Rightarrow> plat_event_config" where "nhmep_ll_config cfg = s_nhm_ll"
definition wsmex_ll_config :: "plat_event_config \<Rightarrow> plat_event_config" where "wsmex_ll_config cfg = s_wsm_ll"
definition wsmep_ll_config :: "plat_event_config \<Rightarrow> plat_event_config" where "wsmep_ll_config cfg = s_wsm_ll"
definition snbep_ll_config :: "plat_event_config \<Rightarrow> plat_event_config" where "snbep_ll_config cfg = s_snb_ll"
definition bdw_ll_config :: "plat_event_config \<Rightarrow> plat_event_config" where "bdw_ll_config cfg = s_bdw_ll"
definition skl_ll_config :: "plat_event_config \<Rightarrow> plat_event_config" where "skl_ll_config cfg = s_skl_ll"
definition srf_ll_config :: "plat_event_config \<Rightarrow> plat_event_config" where "srf_ll_config cfg = s_srf_ll"
definition icx_ll_config :: "plat_event_config \<Rightarrow> plat_event_config" where "icx_ll_config cfg = skl_ll_config cfg"
definition spr_ll_config :: "plat_event_config \<Rightarrow> plat_event_config" where "spr_ll_config cfg = skl_ll_config cfg"

definition nhm_offcore_num :: int where "nhm_offcore_num = 1"
definition wsm_offcore_num :: int where "wsm_offcore_num = 2"
definition snb_offcore_num :: int where "snb_offcore_num = 2"
definition bdw_offcore_num :: int where "bdw_offcore_num = 2"
definition skl_offcore_num :: int where "skl_offcore_num = 2"
definition srf_offcore_num :: int where "srf_offcore_num = 2"
definition zen_offcore_num :: int where "zen_offcore_num = 2"
definition icx_offcore_num :: int where "icx_offcore_num = skl_offcore_num"
definition spr_offcore_num :: int where "spr_offcore_num = skl_offcore_num"

lemmas plat_functions =
    nhmex_profiling_config_def nhmep_profiling_config_def wsmex_profiling_config_def wsmep_profiling_config_def
  snbep_profiling_config_def bdw_profiling_config_def skl_profiling_config_def icx_profiling_config_def
  spr_profiling_config_def srf_profiling_config_def zen_profiling_config_def zen3_profiling_config_def
  zen4_profiling_config_def
    nhmex_ll_config_def nhmep_ll_config_def wsmex_ll_config_def wsmep_ll_config_def snbep_ll_config_def
  bdw_ll_config_def skl_ll_config_def srf_ll_config_def icx_ll_config_def spr_ll_config_def
  nhm_offcore_num_def wsm_offcore_num_def snb_offcore_num_def bdw_offcore_num_def skl_offcore_num_def srf_offcore_num_def zen_offcore_num_def icx_offcore_num_def spr_offcore_num_def

text \<open>The tables of functions by the type of the processor; None is a NULL function.\<close>

definition s_plat_profiling_config ::
  "cpu_type \<Rightarrow> (perf_count_id \<Rightarrow> plat_event_config \<Rightarrow> plat_event_config option) option" where
  "s_plat_profiling_config t =
     (case t of
        CPU_UNSUP \<Rightarrow> None
      | CPU_WSM_EX \<Rightarrow> Some wsmex_profiling_config
      | CPU_SNB_EP \<Rightarrow> Some snbep_profiling_config
      | CPU_NHM_EX \<Rightarrow> Some nhmex_profiling_config
      | CPU_NHM_EP \<Rightarrow> Some nhmep_profiling_config
      | CPU_WSM_EP \<Rightarrow> Some wsmep_profiling_config
      | CPU_IVB_EX \<Rightarrow> Some snbep_profiling_config
      | CPU_HSX \<Rightarrow> Some snbep_profiling_config
      | CPU_BDX \<Rightarrow> Some bdw_profiling_config
      | CPU_SKX \<Rightarrow> Some skl_profiling_config
      | CPU_ICX \<Rightarrow> Some icx_profiling_config
      | CPU_SPR \<Rightarrow> Some spr_profiling_config
      | CPU_EMR \<Rightarrow> Some spr_profiling_config
      | CPU_GNR \<Rightarrow> Some spr_profiling_config
      | CPU_SRF \<Rightarrow> Some srf_profiling_config
      | CPU_ZEN \<Rightarrow> Some zen_profiling_config
      | CPU_ZEN3 \<Rightarrow> Some zen3_profiling_config
      | CPU_ZEN4 \<Rightarrow> Some zen4_profiling_config)"

text \<open>The number of the IBS unit, from the first 31 bytes of a file.\<close>

definition zen_ibs_op_pmu_type :: "string option \<Rightarrow> int" where
  "zen_ibs_op_pmu_type file =
     (case file of
        None \<Rightarrow> -1
      | Some text \<Rightarrow>
          let buf = take 31 text
          in if buf = [] then -1 else let t = name_id buf in if t = 0 then -1 else t)"

definition zen_ll_config :: "string option \<Rightarrow> plat_event_config \<Rightarrow> plat_event_config" where
  "zen_ll_config file cfg = s_zen_ll\<lparr>pl_type := word_of_int (zen_ibs_op_pmu_type file)\<rparr>"

definition s_plat_ll_config :: "string option \<Rightarrow> cpu_type \<Rightarrow> (plat_event_config \<Rightarrow> plat_event_config) option" where
  "s_plat_ll_config file t =
     (case t of
        CPU_UNSUP \<Rightarrow> None
      | CPU_WSM_EX \<Rightarrow> Some wsmex_ll_config
      | CPU_SNB_EP \<Rightarrow> Some snbep_ll_config
      | CPU_NHM_EX \<Rightarrow> Some nhmex_ll_config
      | CPU_NHM_EP \<Rightarrow> Some nhmep_ll_config
      | CPU_WSM_EP \<Rightarrow> Some wsmep_ll_config
      | CPU_IVB_EX \<Rightarrow> Some snbep_ll_config
      | CPU_HSX \<Rightarrow> Some snbep_ll_config
      | CPU_BDX \<Rightarrow> Some bdw_ll_config
      | CPU_SKX \<Rightarrow> Some skl_ll_config
      | CPU_ICX \<Rightarrow> Some icx_ll_config
      | CPU_SPR \<Rightarrow> Some spr_ll_config
      | CPU_EMR \<Rightarrow> Some spr_ll_config
      | CPU_GNR \<Rightarrow> Some spr_ll_config
      | CPU_SRF \<Rightarrow> Some srf_ll_config
      | CPU_ZEN \<Rightarrow> Some (zen_ll_config file)
      | CPU_ZEN3 \<Rightarrow> Some (zen_ll_config file)
      | CPU_ZEN4 \<Rightarrow> Some (zen_ll_config file))"

definition s_plat_offcore_num :: "cpu_type \<Rightarrow> int option" where
  "s_plat_offcore_num t =
     (case t of
        CPU_UNSUP \<Rightarrow> None
      | CPU_WSM_EX \<Rightarrow> Some wsm_offcore_num
      | CPU_SNB_EP \<Rightarrow> Some snb_offcore_num
      | CPU_NHM_EX \<Rightarrow> Some nhm_offcore_num
      | CPU_NHM_EP \<Rightarrow> Some nhm_offcore_num
      | CPU_WSM_EP \<Rightarrow> Some wsm_offcore_num
      | CPU_IVB_EX \<Rightarrow> Some snb_offcore_num
      | CPU_HSX \<Rightarrow> Some snb_offcore_num
      | CPU_BDX \<Rightarrow> Some bdw_offcore_num
      | CPU_SKX \<Rightarrow> Some skl_offcore_num
      | CPU_ICX \<Rightarrow> Some icx_offcore_num
      | CPU_SPR \<Rightarrow> Some spr_offcore_num
      | CPU_EMR \<Rightarrow> Some spr_offcore_num
      | CPU_GNR \<Rightarrow> Some spr_offcore_num
      | CPU_SRF \<Rightarrow> Some srf_offcore_num
      | CPU_ZEN \<Rightarrow> Some zen_offcore_num
      | CPU_ZEN3 \<Rightarrow> Some zen_offcore_num
      | CPU_ZEN4 \<Rightarrow> Some zen_offcore_num)"

definition plat_profiling_config :: "cpu_type \<Rightarrow> perf_count_id \<Rightarrow> plat_event_config \<Rightarrow> plat_event_config option" where
  "plat_profiling_config s_cpu_type i cfg =
     (case s_plat_profiling_config s_cpu_type of None \<Rightarrow> Some cfg | Some pfn \<Rightarrow> pfn i cfg)"

definition plat_ll_config :: "string option \<Rightarrow> cpu_type \<Rightarrow> plat_event_config \<Rightarrow> plat_event_config" where
  "plat_ll_config file s_cpu_type cfg = (case s_plat_ll_config file s_cpu_type of None \<Rightarrow> cfg | Some pfn \<Rightarrow> pfn cfg)"

definition plat_offcore_num :: "cpu_type \<Rightarrow> int" where
  "plat_offcore_num s_cpu_type = (case s_plat_offcore_num s_cpu_type of None \<Rightarrow> 0 | Some n \<Rightarrow> n)"

section \<open>The configuration of the counters\<close>

definition SMPL_PERIOD_INFINITE :: u64 where "SMPL_PERIOD_INFINITE = 0xFFFFFFFFFFFFFF"

text \<open>The rows by counter, the columns by precision.\<close>

definition sample_periods :: "(precise \<Rightarrow> u64) list" where
  "sample_periods =
     [\<lambda>p. SMPL_PERIOD_INFINITE,
      \<lambda>p. (case p of PRECISE_NORMAL \<Rightarrow> 10000 | PRECISE_HIGH \<Rightarrow> 5000 | PRECISE_LOW \<Rightarrow> 100000),
      \<lambda>p. (case p of PRECISE_NORMAL \<Rightarrow> 10000000 | PRECISE_HIGH \<Rightarrow> 1000000 | PRECISE_LOW \<Rightarrow> 100000000),
      \<lambda>p. (case p of PRECISE_NORMAL \<Rightarrow> 10000000 | PRECISE_HIGH \<Rightarrow> 1000000 | PRECISE_LOW \<Rightarrow> 100000000),
      \<lambda>p. (case p of PRECISE_NORMAL \<Rightarrow> 10000 | PRECISE_HIGH \<Rightarrow> 5000 | PRECISE_LOW \<Rightarrow> 100000)]"

definition g_sample_period :: "perf_count_id \<Rightarrow> precise \<Rightarrow> u64 option" where
  "g_sample_period i p = map_option (\<lambda>row. row p) (arr_get sample_periods (count_no i))"

text \<open>The code of the event with its unit mask in the low bits, its other attributes from bit 16 on.\<close>

definition conf_of :: "perf_count_id \<Rightarrow> u64 \<Rightarrow> plat_event_config \<Rightarrow> pf_conf \<Rightarrow> pf_conf" where
  "conf_of i period cfg conf =
     conf\<lparr>pf_count_id := i, pf_type := pl_type cfg,
       pf_config :=
         (if pl_type cfg = PERF_TYPE_RAW then
            (if pl_config cfg \<noteq> INVALID_CODE_UMASK then Bit_Operations.or (pl_config cfg) (push_bit 16 (pl_other_attr cfg))
             else INVALID_CONFIG)
          else if pl_type cfg = PERF_TYPE_HARDWARE then pl_config cfg
          else pf_config conf),
       pf_config1 := pl_extra_value cfg, pf_sample_period := period\<rparr>"

text \<open>The loop; cfg is the local variable, which keeps what the turn before has left in it.\<close>

fun profiling_init_from ::
  "cpu_type \<Rightarrow> precise \<Rightarrow> perf_count_id list \<Rightarrow> plat_event_config \<Rightarrow> (perf_count_id \<Rightarrow> pf_conf) \<Rightarrow>
   (perf_count_id \<Rightarrow> pf_conf) option" where
  "profiling_init_from t p [] cfg conf = Some conf"
| "profiling_init_from t p (i # is) cfg conf =
     do {
       cfg1 \<leftarrow> plat_profiling_config t i cfg;
       period \<leftarrow> g_sample_period i p;
       profiling_init_from t p is cfg1 (conf(i := conf_of i period cfg1 (conf i)))
     }"

definition profiling_counts :: "perf_count_id list" where
  "profiling_counts = [PERF_COUNT_CORE_CLK, PERF_COUNT_RMA, PERF_COUNT_CLK, PERF_COUNT_IR, PERF_COUNT_LMA]"

definition profiling_init ::
  "cpu_type \<Rightarrow> precise \<Rightarrow> plat_event_config \<Rightarrow> (perf_count_id \<Rightarrow> pf_conf) \<Rightarrow> (perf_count_id \<Rightarrow> pf_conf) option" where
  "profiling_init t p cfg conf = profiling_init_from t p profiling_counts cfg conf"

definition ll_init :: "string option \<Rightarrow> cpu_type \<Rightarrow> plat_event_config \<Rightarrow> pf_conf" where
  "ll_init file t cfg0 =
     (let cfg = plat_ll_config file t cfg0
      in \<lparr>pf_count_id = PERF_COUNT_INVALID, pf_type = pl_type cfg,
          pf_config = Bit_Operations.or (pl_config cfg) (push_bit 16 (pl_other_attr cfg)),
          pf_config1 = pl_extra_value cfg,
          pf_sample_period = (if pl_sample_period cfg = 0 then LL_PERIOD else pl_sample_period cfg),
          pf_exclude_guest = pl_exclude_guest cfg\<rparr>)"

lemmas plat_tables =
  s_nhm_profiling_def s_wsmex_profiling_def s_wsmep_profiling_def s_snb_ep_config_def s_bdw_config_def s_skl_config_def
  s_icx_config_def s_spr_config_def s_srf_config_def s_zen_config_def s_zen3_config_def s_zen4_config_def
  intel_config_def clk_event_def ref_event_def ir_event_def event_def plat_functions

lemmas plat_consts =
  PERF_TYPE_HARDWARE_def PERF_TYPE_RAW_def PERF_COUNT_HW_CPU_CYCLES_def PERF_COUNT_HW_INSTRUCTIONS_def
  PERF_COUNT_HW_REF_CPU_CYCLES_def INVALID_CODE_UMASK_def INVALID_CONFIG_def

section \<open>Every processor that is accepted can be counted on\<close>

text \<open>The event of a counter, by the type of the processor.\<close>

definition cfg_of :: "cpu_type \<Rightarrow> perf_count_id \<Rightarrow> plat_event_config" where
  "cfg_of t i = the (plat_profiling_config t i (event 0 0 0 0 0 False []))"

lemma profiling_table:
  assumes "t \<noteq> CPU_UNSUP"
  shows "\<exists>es. s_plat_profiling_config t = Some (plat_config_get es) \<and> length es = 5"
  using assms
  by (cases t) (simp_all add: s_plat_profiling_config_def plat_functions, (rule exI, rule conjI, rule refl, simp add: plat_tables)+)

lemma profiling_config_total:
  assumes "t \<noteq> CPU_UNSUP" "i \<noteq> PERF_COUNT_INVALID"
  shows "\<exists>es e. s_plat_profiling_config t = Some (plat_config_get es) \<and> arr_get es (count_no i) = Some e"
proof -
  have "0 \<le> count_no i \<and> count_no i < 5" using assms(2) by (cases i) (simp_all add: count_no_def)
  then show ?thesis using profiling_table [OF assms(1)] by (auto simp: arr_get_def)
qed

lemma period_total: "i \<noteq> PERF_COUNT_INVALID \<Longrightarrow> \<exists>n. g_sample_period i p = Some n"
  by (cases i) (simp_all add: g_sample_period_def count_no_def arr_get_def sample_periods_def)

definition counter_conf :: "cpu_type \<Rightarrow> precise \<Rightarrow> perf_count_id \<Rightarrow> pf_conf \<Rightarrow> pf_conf" where
  "counter_conf t p i conf = conf_of i (the (g_sample_period i p)) (cfg_of t i) conf"

lemma profiling_config_of:
  assumes "t \<noteq> CPU_UNSUP" "i \<noteq> PERF_COUNT_INVALID"
  obtains c n where "plat_profiling_config t i cfg = Some c" "g_sample_period i p = Some n"
    "conf_of i n c = counter_conf t p i"
proof -
  from profiling_config_total [OF assms] obtain es e where
    "s_plat_profiling_config t = Some (plat_config_get es)" "arr_get es (count_no i) = Some e" by blast
  moreover obtain n where "g_sample_period i p = Some n" using period_total [OF assms(2)] by blast
  ultimately show ?thesis
    using that by (auto simp: plat_profiling_config_def cfg_of_def plat_config_get_def conf_of_def counter_conf_def fun_eq_iff)
qed

lemma profiling_init_from_result:
  assumes "t \<noteq> CPU_UNSUP" "PERF_COUNT_INVALID \<notin> set is" "distinct is"
  shows "\<exists>conf1. profiling_init_from t p is cfg conf = Some conf1 \<and>
    (\<forall>i. conf1 i = (if i \<in> set is then counter_conf t p i (conf i) else conf i))"
  using assms(2,3)
proof (induction "is" arbitrary: cfg conf)
  case (Cons i "is")
  from Cons.prems have "i \<noteq> PERF_COUNT_INVALID" by auto
  from profiling_config_of [OF assms(1) this, of cfg p] obtain c n where
    c: "plat_profiling_config t i cfg = Some c" "g_sample_period i p = Some n" "conf_of i n c = counter_conf t p i" .
  let ?g = "conf(i := conf_of i n c (conf i))"
  have "PERF_COUNT_INVALID \<notin> set is" "distinct is" "i \<notin> set is" using Cons.prems by simp_all
  moreover from Cons.IH [OF this(1,2), of c ?g] obtain conf1 where
    r: "profiling_init_from t p is c ?g = Some conf1"
      "\<forall>j. conf1 j = (if j \<in> set is then counter_conf t p j (?g j) else ?g j)" by blast
  ultimately have "\<forall>j. conf1 j = (if j \<in> set (i # is) then counter_conf t p j (conf j) else conf j)"
    using c(3) by auto
  then show ?case using c(1,2) r(1) by (simp del: fun_upd_apply)
qed simp

lemma profiling_init_result:
  assumes "t \<noteq> CPU_UNSUP"
  shows "profiling_init t p cfg conf =
    Some (\<lambda>i. if i = PERF_COUNT_INVALID then conf i else counter_conf t p i (conf i))"
proof -
  have all: "i = PERF_COUNT_INVALID \<longleftrightarrow> i \<notin> set profiling_counts" for i by (cases i) (simp_all add: profiling_counts_def)
  have "PERF_COUNT_INVALID \<notin> set profiling_counts" "distinct profiling_counts" by (simp_all add: profiling_counts_def)
  from profiling_init_from_result [OF assms this, of p cfg conf] obtain conf1 where
    r: "profiling_init t p cfg conf = Some conf1"
      "\<forall>i. conf1 i = (if i \<in> set profiling_counts then counter_conf t p i (conf i) else conf i)"
    by (auto simp: profiling_init_def)
  then have "conf1 = (\<lambda>i. if i = PERF_COUNT_INVALID then conf i else counter_conf t p i (conf i))"
    using all by auto
  then show ?thesis using r(1) by simp
qed

section \<open>What is counted\<close>

text \<open>An event the kernel can be asked for.\<close>

definition countable :: "pf_conf \<Rightarrow> bool" where
  "countable c \<longleftrightarrow> pf_config c \<noteq> INVALID_CONFIG \<and> (pf_type c = PERF_TYPE_HARDWARE \<or> pf_type c = PERF_TYPE_RAW)"

lemma counter_fields:
  "pf_count_id (counter_conf t p i c) = i"
  "pf_sample_period (counter_conf t p i c) = the (g_sample_period i p)"
  "pf_type (counter_conf t p i c) = pl_type (cfg_of t i)"
  "pf_config1 (counter_conf t p i c) = pl_extra_value (cfg_of t i)"
  by (simp_all add: counter_conf_def conf_of_def)

lemma cfg_of_tables:
  "s_plat_profiling_config t = Some (plat_config_get es) \<Longrightarrow> arr_get es (count_no i) = Some e \<Longrightarrow>
   pl_type (cfg_of t i) = pl_type e \<and> pl_config (cfg_of t i) = pl_config e \<and>
   pl_other_attr (cfg_of t i) = pl_other_attr e \<and> pl_extra_value (cfg_of t i) = pl_extra_value e"
  by (simp add: cfg_of_def plat_profiling_config_def plat_config_get_def)

lemma counted_events:
  assumes "t \<noteq> CPU_UNSUP"
  shows "countable (counter_conf t p PERF_COUNT_CLK c)" "countable (counter_conf t p PERF_COUNT_IR c)"
    "countable (counter_conf t p PERF_COUNT_CORE_CLK c)" "countable (counter_conf t p PERF_COUNT_RMA c)"
    "countable (counter_conf t p PERF_COUNT_LMA c) \<longleftrightarrow> plat_offcore_num t = 2"
  using assms
  by (cases t; simp add: countable_def counter_conf_def conf_of_def cfg_of_def plat_profiling_config_def
      s_plat_profiling_config_def plat_config_get_def arr_get_def count_no_def plat_tables plat_consts plat_offcore_num_def
      s_plat_offcore_num_def)+

lemma offcore_bits:
  assumes "t \<notin> {CPU_UNSUP, CPU_ZEN, CPU_ZEN3, CPU_ZEN4}" "i = PERF_COUNT_RMA \<or> i = PERF_COUNT_LMA \<and> plat_offcore_num t = 2"
  shows "drop_bit 16 (pf_config (counter_conf t p i c)) = 0x53"
  using assms
  by (cases t; elim disjE conjE; simp add: counter_conf_def conf_of_def cfg_of_def plat_profiling_config_def
      s_plat_profiling_config_def plat_config_get_def arr_get_def count_no_def plat_tables plat_consts plat_offcore_num_def
      s_plat_offcore_num_def)

lemma offcore_differ:
  assumes "t \<noteq> CPU_UNSUP"
  shows "pf_config (counter_conf t p PERF_COUNT_RMA c) \<noteq> pf_config (counter_conf t p PERF_COUNT_LMA c1)"
  using assms
  by (cases t; simp add: counter_conf_def conf_of_def cfg_of_def plat_profiling_config_def
      s_plat_profiling_config_def plat_config_get_def arr_get_def count_no_def plat_tables plat_consts)

lemma period_positive: "i \<noteq> PERF_COUNT_INVALID \<Longrightarrow> the (g_sample_period i p) \<noteq> 0"
  by (cases i; cases p; simp add: g_sample_period_def arr_get_def count_no_def sample_periods_def SMPL_PERIOD_INFINITE_def)

lemma ll_period: "pf_sample_period (ll_init file t cfg) \<noteq> 0"
  by (simp add: ll_init_def LL_PERIOD_def Let_def)

lemma ll_latency:
  assumes "t \<notin> {CPU_UNSUP, CPU_ZEN, CPU_ZEN3, CPU_ZEN4}"
  shows "pf_type (ll_init file t cfg) = PERF_TYPE_RAW \<and> pf_config1 (ll_init file t cfg) = LL_THRESH"
  using assms
  by (cases t; simp add: ll_init_def plat_ll_config_def s_plat_ll_config_def event_def plat_functions s_nhm_ll_def s_wsm_ll_def
      s_snb_ll_def s_bdw_ll_def s_skl_ll_def s_srf_ll_def)

lemma detect_supported: "plat_detect cpuid s = (t, 0) \<Longrightarrow> t \<noteq> CPU_UNSUP"
  by (auto simp: plat_detect_def Let_def split: if_splits)

text \<open>
  C21: On every processor that plat_detect accepts the counters are configured
  completely, whatever the local variable and the configuration held before: each
  has its identifier and a positive sampling period, the clocks, the instructions
  and the remote accesses are events the kernel can be asked for, and the local
  accesses are one exactly when the processor has two off-core counters; the two
  kinds of accesses are different events.  On Intel processors the attribute bits
  of the off-core events stand above their code, and latency sampling starts at
  the threshold.
\<close>

theorem supported_processors_counted:
  assumes "plat_detect cpuid s = (t, 0)"
  shows "\<exists>conf. profiling_init t p cfg conf0 = Some conf \<and>
    (\<forall>i\<in>set profiling_counts. pf_count_id (conf i) = i \<and> pf_sample_period (conf i) \<noteq> 0) \<and>
    (\<forall>i\<in>{PERF_COUNT_CORE_CLK, PERF_COUNT_CLK, PERF_COUNT_IR, PERF_COUNT_RMA}. countable (conf i)) \<and>
    (countable (conf PERF_COUNT_LMA) \<longleftrightarrow> plat_offcore_num t = 2) \<and>
    pf_config (conf PERF_COUNT_RMA) \<noteq> pf_config (conf PERF_COUNT_LMA) \<and>
    pf_sample_period (ll_init file t cfg) \<noteq> 0 \<and>
    (t \<notin> {CPU_ZEN, CPU_ZEN3, CPU_ZEN4} \<longrightarrow>
       drop_bit 16 (pf_config (conf PERF_COUNT_RMA)) = 0x53 \<and> pf_config1 (ll_init file t cfg) = LL_THRESH)"
proof -
  have t: "t \<noteq> CPU_UNSUP" using assms by (rule detect_supported)
  have ids: "\<forall>i\<in>set profiling_counts. i \<noteq> PERF_COUNT_INVALID" by (simp add: profiling_counts_def)
  show ?thesis
    unfolding profiling_init_result [OF t]
    using counted_events [OF t] offcore_differ [OF t] ids period_positive t
    by (auto simp: counter_fields ll_period offcore_bits ll_latency)
qed

definition cpuid_demo :: cpuid where
  "cpuid_demo leaf = (if leaf = 0 then (0x16, 0x756e6547, 0x6c65746e, 0x49656e69) else (0x00050654, 0, 0, 0))"

lemma vendor_demo: "reg_chars 0x756e6547 @ reg_chars 0x6c65746e @ reg_chars 0x49656e69 = ''GenuntelineI''"
  by code_simp

lemma detect_demo: "plat_detect cpuid_demo s = (CPU_SKX, 0)"
proof -
  have "cpu_type_get cpuid_demo = CPU_SKX"
    unfolding cpu_type_get_def cpuid_demo_def
    by (simp add: vendor_demo CPU_FAMILY_def CPU_MODEL_def CPU_EXT_MODEL_def family6_type_def)
  then show ?thesis by (simp add: plat_detect_def)
qed

theorem supported_processors_counted_witness:
  "\<exists>conf. profiling_init CPU_SKX PRECISE_HIGH (event 0 0 0 0 0 False []) (\<lambda>_. ll_init None CPU_SKX (event 0 0 0 0 0 False [])) = Some conf \<and>
     countable (conf PERF_COUNT_LMA)"
proof -
  have "plat_offcore_num CPU_SKX = 2" by (simp add: plat_offcore_num_def s_plat_offcore_num_def plat_functions)
  then show ?thesis
    using supported_processors_counted [OF detect_demo, of PRECISE_HIGH "event 0 0 0 0 0 False []"
        "\<lambda>_. ll_init None CPU_SKX (event 0 0 0 0 0 False [])" None] by blast
qed

end
