(* ===== verification/Start.thy ===== *)
theory Start
  imports Plat
begin

text \<open>
  Start-up and shut-down (common/numatop.c and the functions it calls): the
  options, the order in which the parts are set up, and what is taken down again
  when one of them fails or the program ends.

  What the program holds of the system is written down as a list of
  acquisitions and releases.  The calls of the system that may fail are answered
  by the record start_env; the refresh of the nodes and the start of the
  profiling have theories of their own (Node, PerfThr), here they succeed or
  fail.
\<close>

section \<open>What the program holds\<close>

datatype res =
    R_log | R_dump | R_debug_mutex | R_dump_cache | R_resctrl
  | R_proc_mutex | R_proc_cond | R_node_mutex | R_nodes | R_pipe
  | R_profiling_recbuf | R_ll_recbuf | R_perf_mutex | R_perf_cond | R_status_mutex | R_status_cond | R_perf_thread
  | R_disp_mutex | R_disp_cond | R_disp_mutex2 | R_disp_cond2 | R_cons_thread | R_disp_thread
  | R_curses | R_pages

datatype act = Acq res | Rel res

record start_env =
  se_fopen :: "string \<Rightarrow> bool"
  se_cpuid :: cpuid
  se_debug_mutex :: bool
  se_dump_cache :: bool
  se_mount :: bool
  se_umount :: bool
  se_tasks :: bool
  se_proc_mutex :: bool
  se_proc_cond :: bool
  se_numa :: bool
  se_node_mutex :: bool
  se_nodes :: bool
  se_node_refresh :: bool
  se_pipe :: bool
  se_signal :: bool
  se_rlimit :: bool
  se_recbuf :: bool
  se_llbuf :: bool
  se_perf_mutex :: bool
  se_perf_cond :: bool
  se_status_mutex :: bool
  se_status_cond :: bool
  se_perf_thread :: bool
  se_profiling_start :: bool
  se_disp_mutex :: bool
  se_disp_cond :: bool
  se_disp_mutex2 :: bool
  se_disp_cond2 :: bool
  se_cons_thread :: bool
  se_disp_thread :: bool
  se_scr_large :: bool
  se_cons_ready :: bool

text \<open>
  The globals: the options, s_logfile and s_debug_ctl, s_dump_ctl, whether
  resctrl is mounted and cache monitoring enabled, and the flags inited.
\<close>

record start_st =
  ss_acts :: "act list"
  ss_sortkey :: sort_key
  ss_precise :: precise
  ss_run_secs :: int
  ss_cpu_type :: cpu_type
  ss_logfile :: bool
  ss_debuglevel :: int
  ss_debug_inited :: bool
  ss_dump_fout :: bool
  ss_dump_cache :: bool
  ss_mounted :: bool
  ss_cmt_enabled :: bool
  ss_proc_inited :: bool
  ss_node_inited :: bool
  ss_cons_inited :: bool
  ss_recbuf :: bool
  ss_llbuf :: bool
  ss_perf_inited :: bool
  ss_disp_inited :: bool
  ss_curses_init :: bool

definition acq :: "res \<Rightarrow> start_st \<Rightarrow> start_st" where "acq r st = st\<lparr>ss_acts := ss_acts st @ [Acq r]\<rparr>"
definition rel :: "res \<Rightarrow> start_st \<Rightarrow> start_st" where "rel r st = st\<lparr>ss_acts := ss_acts st @ [Rel r]\<rparr>"
definition rel_if :: "bool \<Rightarrow> res \<Rightarrow> start_st \<Rightarrow> start_st" where "rel_if b r st = (if b then rel r st else st)"

text \<open>Making something: whether it succeeded.\<close>

definition create :: "bool \<Rightarrow> res \<Rightarrow> start_st \<Rightarrow> start_st \<times> bool" where
  "create ok r st = (if ok then (acq r st, True) else (st, False))"

section \<open>Log, dump file and resctrl\<close>

definition debug_init :: "start_env \<Rightarrow> int \<Rightarrow> bool \<Rightarrow> start_st \<Rightarrow> start_st \<times> int" where
  "debug_init env level log st =
     (case create (se_debug_mutex env) R_debug_mutex (st\<lparr>ss_debug_inited := False\<rparr>) of
        (st1, ok) \<Rightarrow>
          if \<not> ok then (st1, -1)
          else (st1\<lparr>ss_debug_inited := True, ss_logfile := log, ss_debuglevel := level\<rparr>, 0))"

definition debug_fini :: "start_st \<Rightarrow> start_st" where
  "debug_fini st = rel_if (ss_debug_inited st) R_debug_mutex (rel_if (ss_logfile st) R_log st)"

definition dump_start :: "start_env \<Rightarrow> bool \<Rightarrow> start_st \<Rightarrow> start_st \<times> int" where
  "dump_start env dump st =
     (let st1 = st\<lparr>ss_dump_fout := dump, ss_dump_cache := False\<rparr>
      in if dump then
           (case create (se_dump_cache env) R_dump_cache st1 of
              (st2, ok) \<Rightarrow> if ok then (st2\<lparr>ss_dump_cache := True\<rparr>, 0) else (st2, -1))
         else (st1, 0))"

definition dump_fini :: "start_st \<Rightarrow> start_st" where
  "dump_fini st = rel_if (ss_dump_cache st) R_dump_cache (rel_if (ss_dump_fout st) R_dump st)"

definition resctrl_mounted :: "start_env \<Rightarrow> start_st \<Rightarrow> bool" where
  "resctrl_mounted env st = (ss_mounted st \<and> se_tasks env)"

definition os_cmt_init :: "start_env \<Rightarrow> start_st \<Rightarrow> start_st \<times> bool" where
  "os_cmt_init env st =
     (if resctrl_mounted env st then (st, True)
      else if \<not> se_mount env then (st, False)
      else let st1 = (acq R_resctrl st)\<lparr>ss_mounted := True\<rparr> in (st1, resctrl_mounted env st1))"

definition os_cmt_fini :: "start_env \<Rightarrow> start_st \<Rightarrow> start_st" where
  "os_cmt_fini env st =
     (if \<not> resctrl_mounted env st \<or> \<not> se_umount env then st else (rel R_resctrl st)\<lparr>ss_mounted := False\<rparr>)"

section \<open>Processes, nodes and the console\<close>

definition proc_group_start :: "start_env \<Rightarrow> start_st \<Rightarrow> start_st \<times> int" where
  "proc_group_start env st =
     (case create (se_proc_mutex env) R_proc_mutex (st\<lparr>ss_proc_inited := False\<rparr>) of
        (st1, ok) \<Rightarrow>
          if \<not> ok then (st1, -1)
          else
            (case create (se_proc_cond env) R_proc_cond st1 of
               (st2, ok) \<Rightarrow> if \<not> ok then (rel R_proc_mutex st2, -1) else (st2\<lparr>ss_proc_inited := True\<rparr>, 0)))"

definition proc_group_end :: "start_st \<Rightarrow> start_st" where
  "proc_group_end st = (if ss_proc_inited st then rel R_proc_cond (rel R_proc_mutex st) else st)"

definition node_group_start :: "start_env \<Rightarrow> start_st \<Rightarrow> start_st \<times> int" where
  "node_group_start env st =
     (if \<not> se_numa env then (st, -1)
      else
        case create (se_node_mutex env) R_node_mutex (st\<lparr>ss_node_inited := False\<rparr>) of
          (st1, ok) \<Rightarrow>
            if \<not> ok then (st1, -1)
            else
              (case create (se_nodes env) R_nodes st1 of
                 (st2, ok) \<Rightarrow>
                   if \<not> ok then (st2, -1)
                   else (st2\<lparr>ss_node_inited := True\<rparr>, if se_node_refresh env then 0 else -1)))"

definition node_group_end :: "start_st \<Rightarrow> start_st" where
  "node_group_end st = (if ss_node_inited st then rel R_nodes (rel R_node_mutex st) else st)"

definition disp_cons_ctl_init :: "start_env \<Rightarrow> start_st \<Rightarrow> start_st \<times> int" where
  "disp_cons_ctl_init env st =
     (case create (se_pipe env) R_pipe (st\<lparr>ss_cons_inited := False\<rparr>) of
        (st1, ok) \<Rightarrow> if \<not> ok then (st1, -1) else (st1\<lparr>ss_cons_inited := True\<rparr>, 0))"

definition disp_cons_ctl_fini :: "start_st \<Rightarrow> start_st" where
  "disp_cons_ctl_fini st = (if ss_cons_inited st then (rel R_pipe st)\<lparr>ss_cons_inited := False\<rparr> else st)"

section \<open>The perf thread\<close>

definition os_perf_fini :: "start_st \<Rightarrow> start_st" where
  "os_perf_fini st =
     (rel_if (ss_llbuf st) R_ll_recbuf (rel_if (ss_recbuf st) R_profiling_recbuf st))\<lparr>ss_recbuf := False, ss_llbuf := False\<rparr>"

definition os_perf_init :: "start_env \<Rightarrow> start_st \<Rightarrow> start_st \<times> int" where
  "os_perf_init env st =
     (let st0 = st\<lparr>ss_recbuf := False, ss_llbuf := False\<rparr>
      in if \<not> se_rlimit env then (st0, -1)
         else
           case create (se_recbuf env) R_profiling_recbuf st0 of
             (st1, ok) \<Rightarrow>
               if \<not> ok then (st1, -1)
               else
                 (case create (se_llbuf env) R_ll_recbuf (st1\<lparr>ss_recbuf := True\<rparr>) of
                    (st2, ok) \<Rightarrow>
                      if \<not> ok then ((rel R_profiling_recbuf st2)\<lparr>ss_recbuf := False\<rparr>, -1)
                      else (st2\<lparr>ss_llbuf := True\<rparr>, 0)))"

text \<open>A step of a chain that stops at the first failure: b tells whether the step before succeeded.\<close>

definition create_next :: "bool \<Rightarrow> bool \<Rightarrow> res \<Rightarrow> start_st \<Rightarrow> start_st \<times> bool" where
  "create_next b ok r st = (if b then create ok r st else (st, False))"

definition perf_init :: "start_env \<Rightarrow> start_st \<Rightarrow> start_st \<times> int" where
  "perf_init env st =
     (case os_perf_init env st of
        (st0, r) \<Rightarrow>
          if r \<noteq> 0 then (st0, -1)
          else
            let (st1, mutex_inited) = create (se_perf_mutex env) R_perf_mutex (st0\<lparr>ss_perf_inited := False\<rparr>);
                (st2, cond_inited) = create_next mutex_inited (se_perf_cond env) R_perf_cond st1;
                (st3, status_mutex_inited) = create_next cond_inited (se_status_mutex env) R_status_mutex st2;
                (st4, status_cond_inited) = create_next status_mutex_inited (se_status_cond env) R_status_cond st3;
                (st5, thr) = create_next status_cond_inited (se_perf_thread env) R_perf_thread st4
            in if thr \<and> se_profiling_start env then (st5\<lparr>ss_perf_inited := True\<rparr>, 0)
               else (os_perf_fini (rel_if status_cond_inited R_status_cond (rel_if status_mutex_inited R_status_mutex
                       (rel_if cond_inited R_perf_cond (rel_if mutex_inited R_perf_mutex st5)))), -1))"

definition perf_fini :: "start_st \<Rightarrow> start_st" where
  "perf_fini st =
     os_perf_fini
       (if ss_perf_inited st then
          (rel R_status_cond (rel R_status_mutex (rel R_perf_cond (rel R_perf_mutex (rel R_perf_thread st)))))
            \<lparr>ss_perf_inited := False\<rparr>
        else st)"

section \<open>The display and console threads\<close>

definition disp_ctl_start :: "start_env \<Rightarrow> start_st \<Rightarrow> start_st \<times> int" where
  "disp_ctl_start env st =
     (let (st1, mutex) = create (se_disp_mutex env) R_disp_mutex (st\<lparr>ss_disp_inited := False\<rparr>);
          (st2, cond) = create_next mutex (se_disp_cond env) R_disp_cond st1
      in if \<not> cond then (rel_if mutex R_disp_mutex st2, -1)
         else
           let (st3, mutex2) = create (se_disp_mutex2 env) R_disp_mutex2 st2;
               (st4, cond2) = create_next mutex2 (se_disp_cond2 env) R_disp_cond2 st3
           in if \<not> cond2 then (rel R_disp_cond (rel R_disp_mutex (rel_if mutex2 R_disp_mutex2 st4)), -1)
              else (st4\<lparr>ss_disp_inited := True\<rparr>, 0))"

definition disp_ctl_end :: "start_st \<Rightarrow> start_st" where
  "disp_ctl_end st =
     (if ss_disp_inited st then
        (rel R_disp_cond2 (rel R_disp_mutex2 (rel R_disp_cond (rel R_disp_mutex st))))\<lparr>ss_disp_inited := False\<rparr>
      else st)"

text \<open>The console thread is asked to quit and joined.\<close>

definition disp_consthr_quit :: "start_st \<Rightarrow> start_st" where
  "disp_consthr_quit st = rel R_cons_thread st"

definition disp_start :: "start_env \<Rightarrow> start_st \<Rightarrow> start_st \<times> int" where
  "disp_start env st =
     (case create (se_cons_thread env) R_cons_thread st of
        (st1, ok) \<Rightarrow>
          if \<not> ok then (st1, -1)
          else
            (case create (se_disp_thread env) R_disp_thread st1 of
               (st2, ok) \<Rightarrow> if \<not> ok then (disp_consthr_quit st2, -1) else (st2, 0)))"

definition disp_init :: "start_env \<Rightarrow> start_st \<Rightarrow> start_st \<times> int" where
  "disp_init env st =
     (case disp_ctl_start env st of
        (st1, r) \<Rightarrow>
          if r \<noteq> 0 then (st1, -1)
          else (case disp_start env st1 of (st2, r) \<Rightarrow> if r \<noteq> 0 then (disp_ctl_end st2, -1) else (st2, 0)))"

definition reg_curses_fini :: "start_st \<Rightarrow> start_st" where
  "reg_curses_fini st = (if ss_curses_init st then (rel R_curses st)\<lparr>ss_curses_init := False\<rparr> else st)"

text \<open>The first call of reg_curses_init: a terminal that is too small is left at once.\<close>

definition reg_curses_init :: "start_env \<Rightarrow> start_st \<Rightarrow> start_st \<times> bool" where
  "reg_curses_init env st =
     (let st1 = (acq R_curses st)\<lparr>ss_curses_init := True\<rparr>
      in if \<not> se_scr_large env then (reg_curses_fini st1, False) else (st1, True))"

text \<open>disp_handler from its first to its last line; what happens in its loop is the subject of Disp.\<close>

definition disp_thread :: "start_env \<Rightarrow> start_st \<Rightarrow> start_st" where
  "disp_thread env st =
     (let (st1, ok) = reg_curses_init env st;
          (st2, pagelist_inited) = (if ok \<and> se_cons_ready env then (acq R_pages st1, True) else (st1, False))
      in perf_fini (reg_curses_fini (rel_if pagelist_inited R_pages st2)))"

definition disp_dispthr_quit_wait :: "start_env \<Rightarrow> start_st \<Rightarrow> start_st" where
  "disp_dispthr_quit_wait env st = rel R_disp_thread (disp_thread env st)"

section \<open>The options\<close>

definition TIME_NSEC_MAX :: int where "TIME_NSEC_MAX = 2147483647"

record main_vars =
  mv_ret :: int
  mv_debug_level :: int
  mv_log :: bool
  mv_dump :: bool

definition c_tolower :: "char \<Rightarrow> char" where
  "c_tolower c = (if CHR ''A'' \<le> c \<and> c \<le> CHR ''Z'' then char_of (of_char c + 32 :: nat) else c)"

definition strcaseeq :: "string \<Rightarrow> string \<Rightarrow> bool" where
  "strcaseeq a b = (map c_tolower a = map c_tolower b)"

text \<open>
  One turn of the loop over the options: what getopt answers with optarg.  The
  last component is true when the turn leaves for L_EXIT0.  atoi of NULL is
  undefined.
\<close>

definition main_opt ::
  "start_env \<Rightarrow> char \<times> string option \<Rightarrow> start_st \<times> main_vars \<Rightarrow> ((start_st \<times> main_vars) \<times> bool) option" where
  "main_opt env opt sv =
     (case opt of (c, optarg) \<Rightarrow> case sv of (st, mv) \<Rightarrow>
        if c = CHR ''h'' then Some ((st, mv\<lparr>mv_ret := 0\<rparr>), True)
        else if c = CHR ''l'' then
          do { a \<leftarrow> optarg; let l = name_id a; Some ((st, mv\<lparr>mv_debug_level := l\<rparr>), l < 0 \<or> l > 2) }
        else if c = CHR ''f'' then
          (case optarg of
             None \<Rightarrow> Some (sv, True)
           | Some a \<Rightarrow>
               if mv_log mv \<or> \<not> se_fopen env a then Some (sv, True) else Some ((acq R_log st, mv\<lparr>mv_log := True\<rparr>), False))
        else if c = CHR ''s'' then
          (case optarg of
             None \<Rightarrow> Some (sv, True)
           | Some a \<Rightarrow>
               if strcaseeq a ''high'' then Some ((st\<lparr>ss_precise := PRECISE_HIGH\<rparr>, mv), False)
               else if strcaseeq a ''low'' then Some ((st\<lparr>ss_precise := PRECISE_LOW\<rparr>, mv), False)
               else if strcaseeq a ''normal'' then Some ((st\<lparr>ss_precise := PRECISE_NORMAL\<rparr>, mv), False)
               else Some (sv, True))
        else if c = CHR ''d'' then
          (case optarg of
             None \<Rightarrow> Some (sv, True)
           | Some a \<Rightarrow>
               if mv_dump mv \<or> \<not> se_fopen env a then Some (sv, True) else Some ((acq R_dump st, mv\<lparr>mv_dump := True\<rparr>), False))
        else if c = CHR ''t'' then
          do { a \<leftarrow> optarg; let s = name_id a; Some ((st\<lparr>ss_run_secs := s\<rparr>, mv), s \<le> 0) }
        else if c = CHR '':'' \<or> c = CHR ''?'' then Some (sv, True)
        else Some (sv, False))"

fun main_opts ::
  "start_env \<Rightarrow> (char \<times> string option) list \<Rightarrow> start_st \<times> main_vars \<Rightarrow> ((start_st \<times> main_vars) \<times> bool) option" where
  "main_opts env [] sv = Some (sv, False)"
| "main_opts env (opt # rest) sv =
     do { (sv1, out) \<leftarrow> main_opt env opt sv; if out then Some (sv1, True) else main_opts env rest sv1 }"

section \<open>main\<close>

text \<open>The labels at the end of main, each falling through to the ones before it.\<close>

definition L_EXIT0 :: "start_st \<times> main_vars \<Rightarrow> start_st" where
  "L_EXIT0 sv = (case sv of (st, mv) \<Rightarrow> rel_if (mv_log mv) R_log (rel_if (mv_dump mv) R_dump st))"

definition L_EXIT2 :: "start_st \<times> main_vars \<Rightarrow> start_st" where
  "L_EXIT2 sv = (case sv of (st, mv) \<Rightarrow> L_EXIT0 (debug_fini st, mv))"

definition L_EXIT3 :: "start_env \<Rightarrow> start_st \<times> main_vars \<Rightarrow> start_st" where
  "L_EXIT3 env sv =
     (case sv of (st, mv) \<Rightarrow>
        let st1 = dump_fini st in L_EXIT2 (if ss_cmt_enabled st1 then os_cmt_fini env st1 else st1, mv))"

definition L_EXIT5 :: "start_env \<Rightarrow> start_st \<times> main_vars \<Rightarrow> start_st" where
  "L_EXIT5 env sv = (case sv of (st, mv) \<Rightarrow> L_EXIT3 env (proc_group_end st, mv))"

definition L_EXIT6 :: "start_env \<Rightarrow> start_st \<times> main_vars \<Rightarrow> start_st" where
  "L_EXIT6 env sv = (case sv of (st, mv) \<Rightarrow> L_EXIT5 env (node_group_end st, mv))"

definition L_EXIT7 :: "start_env \<Rightarrow> start_st \<times> main_vars \<Rightarrow> start_st" where
  "L_EXIT7 env sv = (case sv of (st, mv) \<Rightarrow> L_EXIT6 env (disp_cons_ctl_fini st, mv))"

text \<open>From the signals on: what main returns.\<close>

definition main_threads :: "start_env \<Rightarrow> start_st \<times> main_vars \<Rightarrow> start_st \<times> int" where
  "main_threads env sv =
     (case sv of (st, mv) \<Rightarrow>
        if \<not> se_signal env then (L_EXIT7 env (st, mv), 1)
        else
          case perf_init env st of
            (st1, r) \<Rightarrow>
              if r \<noteq> 0 then (L_EXIT7 env (st1, mv), 1)
              else
                (case disp_init env st1 of
                   (st2, r) \<Rightarrow>
                     if r \<noteq> 0 then (L_EXIT7 env (perf_fini st2, mv), 1)
                     else
                       (L_EXIT7 env (disp_ctl_end (disp_consthr_quit (disp_dispthr_quit_wait env st2)), mv), 0)))"

text \<open>From map_init on, which cannot fail.\<close>

definition main_groups :: "start_env \<Rightarrow> start_st \<times> main_vars \<Rightarrow> start_st \<times> int" where
  "main_groups env sv =
     (case sv of (st, mv) \<Rightarrow>
        case proc_group_start env st of
          (st1, r) \<Rightarrow>
            if r \<noteq> 0 then (L_EXIT3 env (st1, mv), 1)
            else
              (case node_group_start env st1 of
                 (st2, r) \<Rightarrow>
                   if r \<noteq> 0 then (L_EXIT5 env (st2, mv), 1)
                   else
                     (case disp_cons_ctl_init env st2 of
                        (st3, r) \<Rightarrow> if r \<noteq> 0 then (L_EXIT6 env (st3, mv), 1) else main_threads env (st3, mv))))"

text \<open>main, given what getopt answers: None is undefined.\<close>

definition numatop_main :: "start_env \<Rightarrow> (char \<times> string option) list \<Rightarrow> start_st \<Rightarrow> (start_st \<times> int) option" where
  "numatop_main env opts st =
     do {
       ((st1, mv), out) \<leftarrow> main_opts env opts
         (st\<lparr>ss_sortkey := SORT_KEY_CPU, ss_precise := PRECISE_NORMAL, ss_run_secs := TIME_NSEC_MAX\<rparr>,
          \<lparr>mv_ret = 1, mv_debug_level = 0, mv_log = False, mv_dump = False\<rparr>);
       if out then Some (L_EXIT0 (st1, mv), mv_ret mv)
       else
         case plat_detect (se_cpuid env) (ss_cpu_type st1) of
           (t, r) \<Rightarrow>
             let st2 = st1\<lparr>ss_cpu_type := t\<rparr>
             in if r \<noteq> 0 then Some (L_EXIT0 (st2, mv), 2)
                else
                  (case debug_init env (mv_debug_level mv) (mv_log mv) st2 of
                     (st3, r) \<Rightarrow>
                       if r \<noteq> 0 then Some (L_EXIT0 (st3, mv), 1)
                       else
                         let mv1 = mv\<lparr>mv_log := False\<rparr>
                         in (case dump_start env (mv_dump mv1) st3 of
                               (st4, r) \<Rightarrow>
                                 if r \<noteq> 0 then Some (L_EXIT2 (st4, mv1), 1)
                                 else
                                   (case os_cmt_init env st4 of
                                      (st5, cmt) \<Rightarrow>
                                        Some (main_groups env (st5\<lparr>ss_cmt_enabled := cmt\<rparr>, mv1\<lparr>mv_dump := False\<rparr>)))))
     }"

end
