(* ===== verification/StartUse.thy ===== *)
theory StartUse
  imports Start
begin

text \<open>
  Whatever fails during start-up, what has been acquired is released again,
  each thing once, and no thread still runs when what it uses is taken away
  (clean_exit); the failures for which this does not hold are those of
  unclean_exit.
\<close>

section \<open>Orderly acts\<close>

text \<open>
  What a thread uses while it runs.  The perf thread posts to the display thread
  only after it has been asked for samples, which the display thread does; the
  display thread takes down the perf thread itself.
\<close>

fun uses :: "res \<Rightarrow> res set" where
  "uses R_perf_thread = {R_perf_mutex, R_perf_cond, R_status_mutex, R_status_cond, R_profiling_recbuf, R_ll_recbuf,
     R_node_mutex, R_nodes, R_proc_mutex, R_proc_cond, R_debug_mutex}"
| "uses R_disp_thread = {R_disp_mutex, R_disp_cond, R_disp_mutex2, R_disp_cond2, R_node_mutex, R_nodes, R_proc_mutex,
     R_proc_cond, R_debug_mutex}"
| "uses R_cons_thread = {R_pipe, R_disp_mutex, R_disp_cond, R_debug_mutex}"
| "uses _ = {}"

definition threads :: "res set" where "threads = {R_perf_thread, R_disp_thread, R_cons_thread}"

text \<open>Nothing is acquired twice, released without being held, or taken away from a thread.\<close>

fun judge :: "act list \<Rightarrow> res set \<Rightarrow> res set option" where
  "judge [] H = Some H"
| "judge (Acq r # as) H = (if r \<notin> H \<and> uses r \<subseteq> H then judge as (insert r H) else None)"
| "judge (Rel r # as) H = (if r \<in> H \<and> (\<forall>u\<in>threads. u \<in> H \<longrightarrow> r \<notin> uses u) then judge as (H - {r}) else None)"

definition held :: "start_st \<Rightarrow> res set option" where
  "held st = judge (ss_acts st) {}"

lemma judge_append: "judge (as @ bs) H = Option.bind (judge as H) (judge bs)"
  by (induction as H rule: judge.induct) auto

lemma held_acq [simp]: "held st = Some H \<Longrightarrow> r \<notin> H \<Longrightarrow> uses r \<subseteq> H \<Longrightarrow> held (acq r st) = Some (insert r H)"
  by (simp add: held_def acq_def judge_append)

lemma held_rel [simp]:
  "held st = Some H \<Longrightarrow> r \<in> H \<Longrightarrow> (\<forall>u\<in>threads. u \<in> H \<longrightarrow> r \<notin> uses u) \<Longrightarrow> held (rel r st) = Some (H - {r})"
  by (simp add: held_def rel_def judge_append)

lemma held_rel_if [simp]:
  "held st = Some H \<Longrightarrow> b \<longrightarrow> r \<in> H \<and> (\<forall>u\<in>threads. u \<in> H \<longrightarrow> r \<notin> uses u) \<Longrightarrow>
   held (rel_if b r st) = Some (if b then H - {r} else H)"
  by (simp add: rel_if_def)

text \<open>Changes of other fields.\<close>

lemma held_fields [simp]:
  "held (st\<lparr>ss_precise := p\<rparr>) = held st" "held (st\<lparr>ss_run_secs := s\<rparr>) = held st" "held (st\<lparr>ss_sortkey := k\<rparr>) = held st"
  "held (st\<lparr>ss_cpu_type := t\<rparr>) = held st" "held (st\<lparr>ss_logfile := b\<rparr>) = held st" "held (st\<lparr>ss_debuglevel := l\<rparr>) = held st"
  "held (st\<lparr>ss_debug_inited := b\<rparr>) = held st" "held (st\<lparr>ss_dump_fout := b\<rparr>) = held st" "held (st\<lparr>ss_dump_cache := b\<rparr>) = held st"
  "held (st\<lparr>ss_mounted := b\<rparr>) = held st" "held (st\<lparr>ss_cmt_enabled := b\<rparr>) = held st" "held (st\<lparr>ss_proc_inited := b\<rparr>) = held st"
  "held (st\<lparr>ss_node_inited := b\<rparr>) = held st" "held (st\<lparr>ss_cons_inited := b\<rparr>) = held st" "held (st\<lparr>ss_recbuf := b\<rparr>) = held st"
  "held (st\<lparr>ss_llbuf := b\<rparr>) = held st" "held (st\<lparr>ss_perf_inited := b\<rparr>) = held st" "held (st\<lparr>ss_disp_inited := b\<rparr>) = held st"
  "held (st\<lparr>ss_curses_init := b\<rparr>) = held st"
  by (simp_all add: held_def)

section \<open>States of a running program\<close>

text \<open>What is held from the setting up of cache monitoring on.\<close>

definition base :: "start_st \<Rightarrow> res set" where
  "base st = {r. r = R_debug_mutex \<or> ss_logfile st \<and> r = R_log \<or> ss_dump_fout st \<and> (r = R_dump \<or> r = R_dump_cache) \<or>
     ss_mounted st \<and> r = R_resctrl}"

definition early :: "res set" where "early = {R_debug_mutex, R_log, R_dump, R_dump_cache, R_resctrl}"

text \<open>Cache monitoring is enabled when resctrl has been mounted by the program itself.\<close>

definition ready :: "start_st \<Rightarrow> res set \<Rightarrow> bool" where
  "ready st S \<longleftrightarrow> held st = Some (base st \<union> S) \<and> S \<inter> early = {} \<and> ss_debug_inited st \<and>
     ss_dump_cache st = ss_dump_fout st \<and> ss_cmt_enabled st = ss_mounted st"

lemma base_early: "base st \<subseteq> early" "r \<notin> early \<Longrightarrow> r \<notin> base st" "R_debug_mutex \<in> base st"
  by (auto simp: base_def early_def)

lemma base_acts [simp]: "base (acq r st) = base st" "base (rel r st) = base st"
  by (simp_all add: base_def acq_def rel_def)

lemma acts_fields [simp]:
  "ss_debug_inited (acq r st) = ss_debug_inited st" "ss_debug_inited (rel r st) = ss_debug_inited st"
  "ss_logfile (acq r st) = ss_logfile st" "ss_logfile (rel r st) = ss_logfile st"
  "ss_dump_cache (acq r st) = ss_dump_cache st" "ss_dump_cache (rel r st) = ss_dump_cache st"
  "ss_dump_fout (acq r st) = ss_dump_fout st" "ss_dump_fout (rel r st) = ss_dump_fout st"
  "ss_cmt_enabled (acq r st) = ss_cmt_enabled st" "ss_cmt_enabled (rel r st) = ss_cmt_enabled st"
  "ss_mounted (acq r st) = ss_mounted st" "ss_mounted (rel r st) = ss_mounted st"
  "ss_proc_inited (acq r st) = ss_proc_inited st" "ss_proc_inited (rel r st) = ss_proc_inited st"
  "ss_node_inited (acq r st) = ss_node_inited st" "ss_node_inited (rel r st) = ss_node_inited st"
  "ss_cons_inited (acq r st) = ss_cons_inited st" "ss_cons_inited (rel r st) = ss_cons_inited st"
  "ss_recbuf (acq r st) = ss_recbuf st" "ss_recbuf (rel r st) = ss_recbuf st"
  "ss_llbuf (acq r st) = ss_llbuf st" "ss_llbuf (rel r st) = ss_llbuf st"
  "ss_perf_inited (acq r st) = ss_perf_inited st" "ss_perf_inited (rel r st) = ss_perf_inited st"
  "ss_disp_inited (acq r st) = ss_disp_inited st" "ss_disp_inited (rel r st) = ss_disp_inited st"
  "ss_curses_init (acq r st) = ss_curses_init st" "ss_curses_init (rel r st) = ss_curses_init st"
  by (simp_all add: acq_def rel_def)

lemma ready_acq [simp]:
  assumes "ready st S" "r \<notin> S" "r \<notin> early" "uses r \<subseteq> insert R_debug_mutex S"
  shows "ready (acq r st) (insert r S)"
proof -
  have "r \<notin> base st \<union> S" "uses r \<subseteq> base st \<union> S" using assms base_early(2,3) by blast+
  then have "held (acq r st) = Some (insert r (base st \<union> S))" using assms(1) by (simp add: ready_def)
  then show ?thesis using assms(1,3) by (simp add: ready_def)
qed

lemma ready_rel [simp]:
  assumes "ready st S" "r \<in> S" "\<forall>u\<in>threads. u \<in> S \<longrightarrow> r \<notin> uses u"
  shows "ready (rel r st) (S - {r})"
proof -
  have r: "r \<notin> early" using assms(1,2) by (auto simp: ready_def)
  have "\<forall>u\<in>threads. u \<in> base st \<union> S \<longrightarrow> r \<notin> uses u" using assms(3) base_early(1) by (auto simp: threads_def early_def)
  then have "held (rel r st) = Some (base st \<union> S - {r})" using assms(1,2) by (simp add: ready_def)
  moreover have "base st \<union> S - {r} = base st \<union> (S - {r})" using base_early(2) [OF r] by auto
  ultimately show ?thesis using assms(1) by (auto simp: ready_def)
qed

lemma ready_rel_if: "ready st S \<Longrightarrow> b \<longrightarrow> r \<in> S \<and> (\<forall>u\<in>threads. u \<in> S \<longrightarrow> r \<notin> uses u) \<Longrightarrow>
    ready (rel_if b r st) (if b then S - {r} else S)"
  by (simp add: rel_if_def)

lemma ready_fields [simp]:
  "ready (st\<lparr>ss_proc_inited := b\<rparr>) S = ready st S" "ready (st\<lparr>ss_node_inited := b\<rparr>) S = ready st S"
  "ready (st\<lparr>ss_cons_inited := b\<rparr>) S = ready st S" "ready (st\<lparr>ss_recbuf := b\<rparr>) S = ready st S"
  "ready (st\<lparr>ss_llbuf := b\<rparr>) S = ready st S" "ready (st\<lparr>ss_perf_inited := b\<rparr>) S = ready st S"
  "ready (st\<lparr>ss_disp_inited := b\<rparr>) S = ready st S" "ready (st\<lparr>ss_curses_init := b\<rparr>) S = ready st S"
  by (simp_all add: ready_def base_def)

section \<open>The labels\<close>

definition procs :: "res set" where "procs = {R_proc_mutex, R_proc_cond}"
definition nodes :: "res set" where "nodes = {R_node_mutex, R_nodes}"

lemma debug_fini_clean:
  assumes "held st = Some H" "ss_debug_inited st" "H \<subseteq> {R_debug_mutex, R_log}" "R_debug_mutex \<in> H" "R_log \<in> H \<longleftrightarrow> ss_logfile st"
  shows "held (debug_fini st) = Some {}"
proof -
  have t: "\<forall>u\<in>threads. u \<notin> H" using assms(3) by (auto simp: threads_def)
  have "held (rel_if (ss_logfile st) R_log st) = Some (if ss_logfile st then H - {R_log} else H)"
    using assms t by (intro held_rel_if) auto
  then have "held (debug_fini st) = Some ((if ss_logfile st then H - {R_log} else H) - {R_debug_mutex})"
    using assms t unfolding debug_fini_def rel_if_def by (auto split: if_splits)
  then show ?thesis using assms(3,5) by auto
qed

lemma no_threads: "H \<subseteq> early \<Longrightarrow> \<forall>u\<in>threads. u \<in> H \<longrightarrow> r \<notin> uses u"
  by (auto simp: threads_def early_def)

lemma dump_fini_held:
  assumes "held st = Some (base st)" "ss_dump_cache st = ss_dump_fout st"
  shows "held (dump_fini st) = Some (base st - {R_dump, R_dump_cache})"
proof (cases "ss_dump_fout st")
  case True
  then have m: "R_dump \<in> base st" "R_dump_cache \<in> base st - {R_dump}" by (simp_all add: base_def)
  have "held (rel R_dump st) = Some (base st - {R_dump})"
    by (rule held_rel [OF assms(1) m(1)]) (rule no_threads [OF base_early(1)])
  then have "held (rel R_dump_cache (rel R_dump st)) = Some (base st - {R_dump} - {R_dump_cache})"
    by (rule held_rel [OF _ m(2)]) (rule no_threads, use base_early(1) in blast)
  then show ?thesis using True assms(2) by (simp add: dump_fini_def rel_if_def set_diff_eq)
next
  case False
  then have "base st - {R_dump, R_dump_cache} = base st" by (auto simp: base_def)
  then show ?thesis using False assms by (simp add: dump_fini_def rel_if_def)
qed

lemma cmt_fini_held:
  assumes "held st = Some H" "R_resctrl \<in> H" "H \<subseteq> early" "ss_mounted st" "se_umount env" "se_tasks env"
  shows "held (os_cmt_fini env st) = Some (H - {R_resctrl})"
proof -
  have "held (rel R_resctrl st) = Some (H - {R_resctrl})" by (rule held_rel [OF assms(1,2) no_threads [OF assms(3)]])
  then show ?thesis using assms(4-6) by (simp add: os_cmt_fini_def resctrl_mounted_def)
qed

lemma exit3_clean:
  assumes "ready st {}" "se_umount env" "se_tasks env" "\<not> mv_log mv" "\<not> mv_dump mv"
  shows "held (L_EXIT3 env (st, mv)) = Some {}"
proof -
  have h: "held st = Some (base st)" and f: "ss_debug_inited st" "ss_dump_cache st = ss_dump_fout st" "ss_cmt_enabled st = ss_mounted st"
    using assms(1) by (simp_all add: ready_def)
  define st1 where "st1 = (if ss_cmt_enabled (dump_fini st) then os_cmt_fini env (dump_fini st) else dump_fini st)"
  have d: "ss_debug_inited (dump_fini st)" "ss_logfile (dump_fini st) = ss_logfile st" "ss_mounted (dump_fini st) = ss_mounted st"
    "ss_cmt_enabled (dump_fini st) = ss_mounted st"
    using f by (simp_all add: dump_fini_def rel_if_def)
  have c: "ss_debug_inited st1" "ss_logfile st1 = ss_logfile st" using d by (simp_all add: st1_def os_cmt_fini_def)
  have "held st1 = Some (base st - {R_dump, R_dump_cache} - {R_resctrl})"
  proof (cases "ss_mounted st")
    case True
    show ?thesis
      unfolding st1_def d(4) if_P [OF True]
      by (rule cmt_fini_held [OF dump_fini_held [OF h f(2)] _ _ _ assms(2,3)]) (use True d(3) base_early(1) in \<open>auto simp: base_def\<close>)
  next
    case False
    then have "R_resctrl \<notin> base st" by (simp add: base_def)
    then show ?thesis using dump_fini_held [OF h f(2)] False d(4) by (simp add: st1_def)
  qed
  then have "held (debug_fini st1) = Some {}"
    by (rule debug_fini_clean) (use c in \<open>auto simp: base_def\<close>)
  then show ?thesis
    using assms(4,5) by (simp add: L_EXIT3_def L_EXIT2_def L_EXIT0_def rel_if_def st1_def Let_def)
qed

lemma exit5_clean:
  assumes "ready st procs" "ss_proc_inited st" "se_umount env" "se_tasks env" "\<not> mv_log mv" "\<not> mv_dump mv"
  shows "held (L_EXIT5 env (st, mv)) = Some {}"
proof -
  have "ready (rel R_proc_cond (rel R_proc_mutex st)) (procs - {R_proc_mutex} - {R_proc_cond})"
    using assms(1) by (intro ready_rel) (auto simp: procs_def threads_def)
  moreover have "procs - {R_proc_mutex} - {R_proc_cond} = {}" by (auto simp: procs_def)
  ultimately show ?thesis using assms exit3_clean by (simp add: L_EXIT5_def proc_group_end_def)
qed

lemma exit6_clean:
  assumes "ready st (procs \<union> nodes)" "ss_proc_inited st" "ss_node_inited st" "se_umount env" "se_tasks env" "\<not> mv_log mv" "\<not> mv_dump mv"
  shows "held (L_EXIT6 env (st, mv)) = Some {}"
proof -
  have "ready (rel R_nodes (rel R_node_mutex st)) (procs \<union> nodes - {R_node_mutex} - {R_nodes})"
    using assms(1) by (intro ready_rel) (auto simp: nodes_def procs_def threads_def)
  moreover have "procs \<union> nodes - {R_node_mutex} - {R_nodes} = procs" by (auto simp: nodes_def procs_def)
  ultimately show ?thesis using assms exit5_clean by (simp add: L_EXIT6_def node_group_end_def)
qed

definition groups :: "res set" where "groups = procs \<union> nodes \<union> {R_pipe}"

lemma exit7_clean:
  assumes "ready st groups" "ss_proc_inited st" "ss_node_inited st" "ss_cons_inited st" "se_umount env" "se_tasks env"
    "\<not> mv_log mv" "\<not> mv_dump mv"
  shows "held (L_EXIT7 env (st, mv)) = Some {}"
proof -
  have "ready (rel R_pipe st) (groups - {R_pipe})"
    using assms(1) by (intro ready_rel) (auto simp: groups_def nodes_def procs_def threads_def)
  moreover have "groups - {R_pipe} = procs \<union> nodes" by (auto simp: groups_def nodes_def procs_def)
  ultimately show ?thesis using assms exit6_clean by (simp add: L_EXIT7_def disp_cons_ctl_fini_def)
qed

section \<open>Setting up and taking down the threads\<close>

text \<open>The set of ready as a function, so that a sequence of acts can be evaluated.\<close>

definition late :: "start_st \<Rightarrow> res set option" where
  "late st = (if ready st (the (held st) - early) then Some (the (held st) - early) else None)"

lemma late_ready: "late st = Some S \<longleftrightarrow> ready st S"
proof
  assume r: "ready st S"
  then have "the (held st) - early = S" using base_early(1) by (auto simp: ready_def)
  then show "late st = Some S" using r by (simp add: late_def)
qed (auto simp: late_def split: if_splits)

lemma late_acq:
  "late st = Some S \<Longrightarrow> r \<notin> S \<Longrightarrow> r \<notin> early \<Longrightarrow> uses r \<subseteq> insert R_debug_mutex S \<Longrightarrow> late (acq r st) = Some (insert r S)"
  by (simp add: late_ready)

lemma late_rel:
  "late st = Some S \<Longrightarrow> r \<in> S \<Longrightarrow> \<forall>u\<in>threads. u \<in> S \<longrightarrow> r \<notin> uses u \<Longrightarrow> late (rel r st) = Some (S - {r})"
  by (simp add: late_ready)

lemma late_fields:
  "late (st\<lparr>ss_proc_inited := b\<rparr>) = late st" "late (st\<lparr>ss_node_inited := b\<rparr>) = late st"
  "late (st\<lparr>ss_cons_inited := b\<rparr>) = late st" "late (st\<lparr>ss_recbuf := b\<rparr>) = late st"
  "late (st\<lparr>ss_llbuf := b\<rparr>) = late st" "late (st\<lparr>ss_perf_inited := b\<rparr>) = late st"
  "late (st\<lparr>ss_disp_inited := b\<rparr>) = late st" "late (st\<lparr>ss_curses_init := b\<rparr>) = late st"
  by (simp_all add: late_def)

lemma rel_fields: "rel r (st\<lparr>ss_perf_inited := b\<rparr>) = (rel r st)\<lparr>ss_perf_inited := b\<rparr>"
  by (simp add: rel_def)

lemmas late_simps = late_acq late_rel late_fields early_def threads_def insert_Diff_if create_def create_next_def rel_if_def

definition same_groups :: "start_st \<Rightarrow> start_st \<Rightarrow> bool" where
  "same_groups st st1 \<longleftrightarrow> ss_proc_inited st1 = ss_proc_inited st \<and> ss_node_inited st1 = ss_node_inited st \<and>
     ss_cons_inited st1 = ss_cons_inited st"

definition bufs :: "res set" where "bufs = {R_profiling_recbuf, R_ll_recbuf}"
definition perf_res :: "res set" where
  "perf_res = {R_profiling_recbuf, R_ll_recbuf, R_perf_mutex, R_perf_cond, R_status_mutex, R_status_cond, R_perf_thread}"

lemma os_perf_init_late:
  assumes "late st = Some groups" "os_perf_init env st = (st1, r)"
  shows "same_groups st st1 \<and> (r \<noteq> 0 \<longrightarrow> late st1 = Some groups) \<and>
    (r = 0 \<longrightarrow> late st1 = Some (insert R_ll_recbuf (insert R_profiling_recbuf groups)) \<and> ss_recbuf st1 \<and> ss_llbuf st1)"
  using assms
  by (auto simp: os_perf_init_def Let_def late_simps groups_def procs_def nodes_def same_groups_def split: if_splits)

lemma os_perf_fini_late:
  assumes "late st = Some (insert R_ll_recbuf (insert R_profiling_recbuf groups))" "ss_recbuf st" "ss_llbuf st"
  shows "late (os_perf_fini st) = Some groups"
  using assms by (simp add: os_perf_fini_def late_simps groups_def procs_def nodes_def)

lemma perf_init_late:
  assumes "late st = Some groups" "perf_init env st = (st1, r)" "se_profiling_start env"
  shows "same_groups st st1 \<and> (r \<noteq> 0 \<longrightarrow> late st1 = Some groups) \<and>
    (r = 0 \<longrightarrow> late st1 = Some (perf_res \<union> groups) \<and> ss_recbuf st1 \<and> ss_llbuf st1 \<and> ss_perf_inited st1)"
proof -
  obtain st0 r0 where o: "os_perf_init env st = (st0, r0)" by fastforce
  note p = os_perf_init_late [OF assms(1) o]
  show ?thesis
  proof (cases "r0 = 0")
    case False
    then show ?thesis using assms(2) o p by (simp add: perf_init_def)
  next
    case True
    with p have s: "late st0 = Some (insert R_ll_recbuf (insert R_profiling_recbuf groups))" "ss_recbuf st0" "ss_llbuf st0" "same_groups st st0"
      by simp_all
    show ?thesis
      using assms(2,3) o True s
      by (auto simp: perf_init_def Let_def late_simps groups_def procs_def nodes_def same_groups_def perf_res_def os_perf_fini_def
          split: if_splits)
  qed
qed

text \<open>A sequence of releases of things no running thread uses.\<close>

lemma late_rels:
  assumes "late st = Some S" "set rs \<subseteq> S" "distinct rs" "\<forall>u\<in>threads. u \<in> S \<longrightarrow> uses u \<inter> set rs = {}"
  shows "late (fold rel rs st) = Some (S - set rs)"
  using assms
proof (induction rs arbitrary: st S)
  case (Cons r rs)
  have "late (rel r st) = Some (S - {r})" by (rule late_rel [OF Cons.prems(1)]) (use Cons.prems in auto)
  then have "late (fold rel rs (rel r st)) = Some (S - {r} - set rs)" by (rule Cons.IH) (use Cons.prems in auto)
  then show ?case by (simp add: Diff_insert2 Diff_insert [symmetric] insert_commute set_diff_eq)
qed simp

definition disp_ctl :: "res set" where "disp_ctl = {R_disp_mutex, R_disp_cond, R_disp_mutex2, R_disp_cond2}"

lemmas late_sets = perf_res_def bufs_def groups_def procs_def nodes_def disp_ctl_def threads_def

lemma perf_fini_late:
  assumes "late st = Some (perf_res \<union> groups \<union> T)" "T \<subseteq> insert R_disp_thread (insert R_cons_thread disp_ctl)"
    and "ss_recbuf st" "ss_llbuf st" "ss_perf_inited st"
  shows "late (perf_fini st) = Some (groups \<union> T) \<and> same_groups st (perf_fini st) \<and> ss_disp_inited (perf_fini st) = ss_disp_inited st"
proof -
  let ?rs = "[R_perf_mutex, R_perf_cond, R_status_mutex, R_status_cond, R_profiling_recbuf, R_ll_recbuf]"
  have "late (rel R_perf_thread st) = Some (perf_res \<union> groups \<union> T - {R_perf_thread})"
    by (rule late_rel [OF assms(1)]) (auto simp: late_sets)
  then have "late (fold rel ?rs (rel R_perf_thread st)) = Some (perf_res \<union> groups \<union> T - {R_perf_thread} - set ?rs)"
    by (rule late_rels) (auto simp: late_sets)
  moreover have "perf_res \<union> groups \<union> T - {R_perf_thread} - set ?rs = groups \<union> T" using assms(2) by (auto simp: late_sets)
  moreover have "late (perf_fini st) = late (fold rel ?rs (rel R_perf_thread st))"
    using assms(3-5) by (simp add: perf_fini_def os_perf_fini_def rel_if_def late_fields rel_fields)
  ultimately show ?thesis
    using assms(3-5) by (simp add: perf_fini_def os_perf_fini_def rel_if_def same_groups_def)
qed

definition perf_up :: "start_st \<Rightarrow> bool" where
  "perf_up st \<longleftrightarrow> ss_recbuf st \<and> ss_llbuf st \<and> ss_perf_inited st"

definition disp_frame :: "start_st \<Rightarrow> start_st \<Rightarrow> bool" where
  "disp_frame st st1 \<longleftrightarrow> same_groups st st1 \<and> perf_up st1 = perf_up st"

lemma disp_ctl_start_late:
  assumes "late st = Some (perf_res \<union> groups)" "disp_ctl_start env st = (st1, r)"
  shows "disp_frame st st1 \<and> (r \<noteq> 0 \<longrightarrow> late st1 = Some (perf_res \<union> groups)) \<and>
    (r = 0 \<longrightarrow> late st1 = Some (perf_res \<union> groups \<union> disp_ctl) \<and> ss_disp_inited st1)"
  using assms
  by (auto simp: disp_ctl_start_def Let_def late_simps late_sets disp_frame_def same_groups_def perf_up_def split: if_splits)

lemma disp_ctl_end_late:
  assumes "late st = Some (S \<union> disp_ctl)" "S \<inter> disp_ctl = {}" "ss_disp_inited st" "R_disp_thread \<notin> S" "R_cons_thread \<notin> S"
  shows "late (disp_ctl_end st) = Some S \<and> disp_frame st (disp_ctl_end st)"
proof -
  let ?rs = "[R_disp_mutex, R_disp_cond, R_disp_mutex2, R_disp_cond2]"
  have "late (fold rel ?rs st) = Some (S \<union> disp_ctl - set ?rs)"
    by (rule late_rels [OF assms(1)]) (use assms(2,4,5) in \<open>auto simp: late_sets\<close>)
  moreover have "S \<union> disp_ctl - set ?rs = S" using assms(2) by (auto simp: disp_ctl_def)
  ultimately show ?thesis using assms(3) by (simp add: disp_ctl_end_def late_fields disp_frame_def same_groups_def perf_up_def)
qed

lemma disp_start_late:
  assumes "late st = Some (perf_res \<union> groups \<union> disp_ctl)" "disp_start env st = (st1, r)"
  shows "disp_frame st st1 \<and> ss_disp_inited st1 = ss_disp_inited st \<and> (r \<noteq> 0 \<longrightarrow> late st1 = Some (perf_res \<union> groups \<union> disp_ctl)) \<and>
    (r = 0 \<longrightarrow> late st1 = Some (insert R_disp_thread (insert R_cons_thread (perf_res \<union> groups \<union> disp_ctl))))"
  using assms
  by (auto simp: disp_start_def disp_consthr_quit_def late_simps late_sets disp_frame_def same_groups_def perf_up_def split: if_splits)

lemma disp_init_late:
  assumes "late st = Some (perf_res \<union> groups)" "disp_init env st = (st1, r)"
  shows "disp_frame st st1 \<and> (r \<noteq> 0 \<longrightarrow> late st1 = Some (perf_res \<union> groups)) \<and>
    (r = 0 \<longrightarrow> late st1 = Some (perf_res \<union> groups \<union> insert R_disp_thread (insert R_cons_thread disp_ctl)) \<and> ss_disp_inited st1)"
proof -
  obtain st2 r2 where c: "disp_ctl_start env st = (st2, r2)" by fastforce
  note p = disp_ctl_start_late [OF assms(1) c]
  show ?thesis
  proof (cases "r2 = 0")
    case False
    then show ?thesis using assms(2) c p by (auto simp: disp_init_def)
  next
    case True
    obtain st3 r3 where d: "disp_start env st2 = (st3, r3)" by fastforce
    from True p have l: "late st2 = Some (perf_res \<union> groups \<union> disp_ctl)" by simp
    note q = disp_start_late [OF l d]
    show ?thesis
    proof (cases "r3 = 0")
      case False
      have "(perf_res \<union> groups) \<inter> disp_ctl = {}" by (auto simp: late_sets)
      then have "late (disp_ctl_end st3) = Some (perf_res \<union> groups) \<and> disp_frame st3 (disp_ctl_end st3)"
        using disp_ctl_end_late [of st3 "perf_res \<union> groups"] q p True False by (auto simp: late_sets)
      then show ?thesis using assms(2) c d p q True False by (auto simp: disp_init_def disp_frame_def same_groups_def)
    next
      case z: True
      have "insert R_disp_thread (insert R_cons_thread (perf_res \<union> groups \<union> disp_ctl)) =
          perf_res \<union> groups \<union> insert R_disp_thread (insert R_cons_thread disp_ctl)" by auto
      then show ?thesis using assms(2) c d p q True z by (auto simp: disp_init_def disp_frame_def same_groups_def)
    qed
  qed
qed

text \<open>The display thread leaves the screen, drops its pages and takes the perf thread down.\<close>

lemma disp_thread_late:
  assumes "late st = Some (perf_res \<union> groups \<union> T)" "T = insert R_disp_thread (insert R_cons_thread disp_ctl)" "perf_up st"
  shows "late (disp_thread env st) = Some (groups \<union> T) \<and> same_groups st (disp_thread env st) \<and>
    ss_disp_inited (disp_thread env st) = ss_disp_inited st"
proof -
  let ?S = "perf_res \<union> groups \<union> T"
  let ?st1 = "(acq R_curses st)\<lparr>ss_curses_init := True\<rparr>"
  have fresh: "R_curses \<notin> ?S" "R_pages \<notin> insert R_curses ?S" using assms(2) by (auto simp: late_sets)
  have c: "late ?st1 = Some (insert R_curses ?S)"
    using late_acq [OF assms(1) fresh(1)] by (simp add: late_fields early_def)
  have fini: "late (rel R_curses st2) = Some ?S" if "late st2 = Some (insert R_curses ?S)" for st2
  proof -
    have "late (rel R_curses st2) = Some (insert R_curses ?S - {R_curses})"
      by (rule late_rel [OF that]) (use assms(2) in \<open>auto simp: late_sets\<close>)
    then show ?thesis using fresh(1) by simp
  qed
  have pages: "late (rel R_pages (acq R_pages ?st1)) = Some (insert R_curses ?S)"
  proof -
    have "late (acq R_pages ?st1) = Some (insert R_pages (insert R_curses ?S))"
      by (rule late_acq [OF c fresh(2)]) (simp_all add: early_def)
    then have "late (rel R_pages (acq R_pages ?st1)) = Some (insert R_pages (insert R_curses ?S) - {R_pages})"
      by (rule late_rel) (use assms(2) in \<open>auto simp: late_sets\<close>)
    then show ?thesis using fresh(2) by simp
  qed
  define st2 where "st2 = reg_curses_fini (if se_scr_large env \<and> se_cons_ready env then rel R_pages (acq R_pages ?st1) else ?st1)"
  have "late st2 = Some ?S" using fini [OF c] fini [OF pages] by (simp add: st2_def reg_curses_fini_def late_fields acq_def)
  moreover have "same_groups st st2" "ss_disp_inited st2 = ss_disp_inited st" "perf_up st2"
    using assms(3) by (simp_all add: st2_def reg_curses_fini_def same_groups_def perf_up_def)
  moreover have "disp_thread env st = perf_fini st2"
    by (simp add: disp_thread_def reg_curses_init_def st2_def Let_def rel_if_def reg_curses_fini_def)
  ultimately show ?thesis
    using perf_fini_late [of st2 T] assms(2) by (auto simp: perf_up_def same_groups_def)
qed

lemma main_threads_clean:
  assumes "late st = Some groups" "ss_proc_inited st" "ss_node_inited st" "ss_cons_inited st" "se_umount env" "se_tasks env"
    "se_profiling_start env" "\<not> mv_log mv" "\<not> mv_dump mv" "main_threads env (st, mv) = (st9, ret)"
  shows "held st9 = Some {}"
proof -
  have fin: "held (L_EXIT7 env (st1, mv)) = Some {}" if "late st1 = Some groups" "same_groups st st1" for st1
    using exit7_clean [of st1 env mv] that assms by (simp add: late_ready same_groups_def)
  obtain st1 r1 where p: "perf_init env st = (st1, r1)" by fastforce
  note p1 = perf_init_late [OF assms(1) p assms(7)]
  obtain st2 r2 where d: "disp_init env st1 = (st2, r2)" by fastforce
  consider "\<not> se_signal env" | "se_signal env" "r1 \<noteq> 0" | "se_signal env" "r1 = 0" "r2 \<noteq> 0" | "se_signal env" "r1 = 0" "r2 = 0" by blast
  then show ?thesis
  proof cases
    case 1
    then show ?thesis using assms(10) fin [OF assms(1)] by (auto simp: main_threads_def same_groups_def)
  next
    case 2
    then show ?thesis using assms(10) p fin p1 by (auto simp: main_threads_def)
  next
    case 3
    have l1: "late st1 = Some (perf_res \<union> groups)" using p1 3 by simp
    note d1 = disp_init_late [OF l1 d]
    have "late (perf_fini st2) = Some groups \<and> same_groups st2 (perf_fini st2)"
      using perf_fini_late [of st2 "{}"] d1 p1 3 by (auto simp: disp_frame_def perf_up_def)
    then show ?thesis using assms(10) p d 3 fin [of "perf_fini st2"] d1 p1 by (auto simp: main_threads_def disp_frame_def same_groups_def)
  next
    case 4
    have l1: "late st1 = Some (perf_res \<union> groups)" using p1 4 by simp
    note d1 = disp_init_late [OF l1 d]
    let ?T = "insert R_disp_thread (insert R_cons_thread disp_ctl)"
    have t: "late (disp_thread env st2) = Some (groups \<union> ?T)" "same_groups st2 (disp_thread env st2)" "ss_disp_inited (disp_thread env st2)"
      using disp_thread_late [of st2 ?T env] d1 p1 4 by (auto simp: disp_frame_def perf_up_def)
    let ?st3 = "rel R_cons_thread (rel R_disp_thread (disp_thread env st2))"
    have "late ?st3 = Some (groups \<union> ?T - {R_disp_thread} - {R_cons_thread})"
      by (intro late_rel t(1)) (auto simp: late_sets)
    moreover have "groups \<union> ?T - {R_disp_thread} - {R_cons_thread} = groups \<union> disp_ctl" by (auto simp: late_sets)
    ultimately have "late (disp_ctl_end ?st3) = Some groups \<and> disp_frame ?st3 (disp_ctl_end ?st3)"
      using t(3) by (intro disp_ctl_end_late) (auto simp: late_sets)
    then show ?thesis
      using assms(10) p d 4 fin [of "disp_ctl_end ?st3"] d1 p1 t(2)
      by (auto simp: main_threads_def disp_consthr_quit_def disp_dispthr_quit_wait_def disp_frame_def same_groups_def)
  qed
qed

text \<open>The set-up of the nodes does not fail after it has acquired anything.\<close>

definition nodes_ok :: "start_env \<Rightarrow> bool" where
  "nodes_ok env \<longleftrightarrow> (se_numa env \<and> se_node_mutex env \<longrightarrow> se_nodes env \<and> se_node_refresh env)"

lemma main_groups_clean:
  assumes "ready st {}" "se_umount env" "se_tasks env" "se_profiling_start env" "nodes_ok env"
    "\<not> mv_log mv" "\<not> mv_dump mv" "main_groups env (st, mv) = (st9, ret)"
  shows "held st9 = Some {}"
proof -
  obtain st1 r1 where p: "proc_group_start env st = (st1, r1)" by fastforce
  have p1: "r1 \<noteq> 0 \<longrightarrow> late st1 = Some {}" "r1 = 0 \<longrightarrow> late st1 = Some procs \<and> ss_proc_inited st1"
    using p assms(1) by (auto simp: proc_group_start_def late_simps late_sets late_ready [symmetric] split: if_splits)
  obtain st2 r2 where n: "node_group_start env st1 = (st2, r2)" by fastforce
  have n1: "late st2 = Some (if r2 = 0 then procs \<union> nodes else procs)" "r2 = 0 \<longrightarrow> ss_node_inited st2" "ss_proc_inited st2"
    if "r1 = 0"
    using n p1 that assms(5)
    by (auto simp: node_group_start_def nodes_ok_def late_simps late_sets split: if_splits)
  obtain st3 r3 where c: "disp_cons_ctl_init env st2 = (st3, r3)" by fastforce
  have c1: "late st3 = Some (if r3 = 0 then groups else procs \<union> nodes)" "r3 = 0 \<longrightarrow> ss_cons_inited st3" "ss_proc_inited st3"
    "ss_node_inited st3" if "r1 = 0" "r2 = 0"
    using c n1 that by (auto simp: disp_cons_ctl_init_def late_simps late_sets split: if_splits)
  consider "r1 \<noteq> 0" | "r1 = 0" "r2 \<noteq> 0" | "r1 = 0" "r2 = 0" "r3 \<noteq> 0" | "r1 = 0" "r2 = 0" "r3 = 0" by blast
  then show ?thesis
  proof cases
    case 1
    then show ?thesis using assms p p1 exit3_clean [of st1 env mv] by (auto simp: main_groups_def late_ready)
  next
    case 2
    then show ?thesis using assms p n n1 exit5_clean [of st2 env mv] by (auto simp: main_groups_def late_ready)
  next
    case 3
    then show ?thesis using assms p n c c1 exit6_clean [of st3 env mv] by (auto simp: main_groups_def late_ready)
  next
    case 4
    have "late st3 = Some groups" "ss_cons_inited st3" "ss_proc_inited st3" "ss_node_inited st3" using c1 4 by auto
    then show ?thesis using assms p n c 4 main_threads_clean [of st3 env mv st9 ret] by (auto simp: main_groups_def)
  qed
qed

section \<open>From the options on\<close>

text \<open>The files main has opened.\<close>

definition opened :: "main_vars \<Rightarrow> res set" where
  "opened mv = {r. mv_log mv \<and> r = R_log \<or> mv_dump mv \<and> r = R_dump}"

lemma opened_early: "opened mv \<subseteq> early" "r \<noteq> R_log \<Longrightarrow> r \<noteq> R_dump \<Longrightarrow> r \<notin> opened mv"
  by (auto simp: opened_def early_def)

lemma main_opt_held:
  assumes "held st = Some (opened mv)" "main_opt env opt (st, mv) = Some ((st1, mv1), out)"
  shows "held st1 = Some (opened mv1) \<and> ss_mounted st1 = ss_mounted st"
proof -
  have log: "held (acq R_log st) = Some (opened (mv\<lparr>mv_log := True\<rparr>))" if "\<not> mv_log mv"
  proof -
    have "held (acq R_log st) = Some (insert R_log (opened mv))" by (rule held_acq [OF assms(1)]) (use that in \<open>auto simp: opened_def\<close>)
    moreover have "insert R_log (opened mv) = opened (mv\<lparr>mv_log := True\<rparr>)" by (auto simp: opened_def)
    ultimately show ?thesis by simp
  qed
  have dump: "held (acq R_dump st) = Some (opened (mv\<lparr>mv_dump := True\<rparr>))" if "\<not> mv_dump mv"
  proof -
    have "held (acq R_dump st) = Some (insert R_dump (opened mv))" by (rule held_acq [OF assms(1)]) (use that in \<open>auto simp: opened_def\<close>)
    moreover have "insert R_dump (opened mv) = opened (mv\<lparr>mv_dump := True\<rparr>)" by (auto simp: opened_def)
    ultimately show ?thesis by simp
  qed
  have rest: "opened (mv\<lparr>mv_ret := i\<rparr>) = opened mv" "opened (mv\<lparr>mv_debug_level := i\<rparr>) = opened mv" for i
    by (simp_all add: opened_def)
  show ?thesis
    using assms log dump rest
    by (auto simp: main_opt_def bind_eq_Some_conv Let_def split: prod.splits if_splits option.splits)
qed

lemma main_opts_held:
  assumes "held st = Some (opened mv)" "main_opts env opts (st, mv) = Some ((st1, mv1), out)"
  shows "held st1 = Some (opened mv1) \<and> ss_mounted st1 = ss_mounted st"
  using assms
proof (induction opts arbitrary: st mv)
  case (Cons opt opts)
  obtain st2 mv2 out2 where o: "main_opt env opt (st, mv) = Some ((st2, mv2), out2)"
    using Cons.prems(2) by (auto simp: bind_eq_Some_conv)
  note h = main_opt_held [OF Cons.prems(1) o]
  show ?case
  proof (cases out2)
    case True
    then show ?thesis using Cons.prems(2) o h by simp
  next
    case False
    then show ?thesis using Cons.IH [of st2 mv2] Cons.prems(2) o h by simp
  qed
qed simp

lemma exit0_clean:
  assumes "held st = Some (opened mv)"
  shows "held (L_EXIT0 (st, mv)) = Some {}"
proof -
  have "held (rel_if (mv_dump mv) R_dump st) = Some (if mv_dump mv then opened mv - {R_dump} else opened mv)"
    by (rule held_rel_if [OF assms]) (use no_threads [OF opened_early(1)] in \<open>auto simp: opened_def\<close>)
  moreover have "(if mv_dump mv then opened mv - {R_dump} else opened mv) = (if mv_log mv then {R_log} else {})"
    by (auto simp: opened_def)
  ultimately have "held (rel_if (mv_dump mv) R_dump st) = Some (if mv_log mv then {R_log} else {})" by simp
  then show ?thesis by (auto simp: L_EXIT0_def rel_if_def threads_def)
qed

lemma main_after_options:
  assumes "held st2 = Some (opened mv)" "\<not> ss_mounted st2" "debug_init env l (mv_log mv) st2 = (st3, 0)"
    and "mv1 = mv\<lparr>mv_log := False\<rparr>" "dump_start env (mv_dump mv) st3 = (st4, r)"
  shows "(r \<noteq> 0 \<longrightarrow> held (L_EXIT2 (st4, mv1)) = Some {}) \<and>
    (r = 0 \<longrightarrow> held st4 = Some (base st4) \<and> \<not> ss_mounted st4 \<and> ss_debug_inited st4 \<and> ss_dump_cache st4 = ss_dump_fout st4)"
proof -
  have "held (acq R_debug_mutex st2) = Some (insert R_debug_mutex (opened mv))"
    by (rule held_acq [OF assms(1)]) (auto simp: opened_def)
  then have d: "held st3 = Some (insert R_debug_mutex (opened mv))" "ss_debug_inited st3" "ss_logfile st3 = mv_log mv" "\<not> ss_mounted st3"
    using assms(2,3) by (auto simp: debug_init_def create_def acq_def held_def split: if_splits)
  let ?st = "st3\<lparr>ss_dump_fout := mv_dump mv, ss_dump_cache := False\<rparr>"
  have c: "held (acq R_dump_cache ?st) = Some (insert R_dump_cache (insert R_debug_mutex (opened mv)))"
    by (rule held_acq) (use d(1) in \<open>auto simp: opened_def\<close>)
  show ?thesis
  proof (intro conjI impI)
    assume "r \<noteq> 0"
    then have r: "mv_dump mv" "st4 = ?st" using assms(5) by (auto simp: dump_start_def create_def Let_def split: if_splits)
    have h: "held st4 = Some (insert R_debug_mutex (opened mv))" using d(1) r(2) by simp
    have t: "\<forall>u\<in>threads. u \<in> H \<longrightarrow> x \<notin> uses u" if "H \<subseteq> insert R_debug_mutex (opened mv)" for H x
      by (rule no_threads) (use that opened_early(1) [of mv] in \<open>auto simp: early_def\<close>)
    have "held (rel_if (mv_log mv) R_log st4) = Some (if mv_log mv then insert R_debug_mutex (opened mv) - {R_log} else insert R_debug_mutex (opened mv))"
      by (rule held_rel_if [OF h]) (use t in \<open>auto simp: opened_def\<close>)
    moreover have "(if mv_log mv then insert R_debug_mutex (opened mv) - {R_log} else insert R_debug_mutex (opened mv)) =
        {R_debug_mutex, R_dump}" using r(1) by (auto simp: opened_def)
    ultimately have "held (rel_if (mv_log mv) R_log st4) = Some {R_debug_mutex, R_dump}" by simp
    then have "held (debug_fini st4) = Some {R_dump}" using d(2,3) r(2) by (auto simp: debug_fini_def rel_if_def threads_def)
    moreover have "{R_dump} = opened mv1" using r(1) assms(4) by (auto simp: opened_def)
    ultimately show "held (L_EXIT2 (st4, mv1)) = Some {}" using exit0_clean by (simp add: L_EXIT2_def)
  next
    assume "r = 0"
    then have r: "st4 = (if mv_dump mv then (acq R_dump_cache ?st)\<lparr>ss_dump_cache := True\<rparr> else ?st)"
      using assms(5) by (auto simp: dump_start_def create_def Let_def split: if_splits)
    show "held st4 = Some (base st4)" using c d r by (auto simp: base_def opened_def)
    show "\<not> ss_mounted st4" "ss_debug_inited st4" "ss_dump_cache st4 = ss_dump_fout st4" using d r by auto
  qed
qed

lemma cmt_init_ready:
  assumes "held st = Some (base st)" "\<not> ss_mounted st" "ss_debug_inited st" "ss_dump_cache st = ss_dump_fout st" "se_tasks env"
    and "os_cmt_init env st = (st1, cmt)"
  shows "ready (st1\<lparr>ss_cmt_enabled := cmt\<rparr>) {}"
proof (cases "se_mount env")
  case False
  then show ?thesis using assms by (auto simp: os_cmt_init_def resctrl_mounted_def ready_def base_def)
next
  case True
  have "R_resctrl \<notin> base st" using assms(2) by (simp add: base_def)
  then have "held (acq R_resctrl st) = Some (insert R_resctrl (base st))" by (intro held_acq [OF assms(1)]) auto
  moreover have r: "st1 = (acq R_resctrl st)\<lparr>ss_mounted := True\<rparr>" "cmt"
    using True assms(2,5,6) by (simp_all add: os_cmt_init_def resctrl_mounted_def Let_def)
  moreover have "base (st1\<lparr>ss_cmt_enabled := cmt\<rparr>) = insert R_resctrl (base st)" by (auto simp: r(1) base_def)
  ultimately show ?thesis using assms(3,4) by (simp add: ready_def)
qed

text \<open>Failures after which something is left behind or taken away from a running thread.\<close>

definition tidy :: "start_env \<Rightarrow> bool" where
  "tidy env \<longleftrightarrow> se_umount env \<and> se_tasks env \<and> se_profiling_start env \<and> nodes_ok env"

definition start_zero :: start_st where
  "start_zero = \<lparr>ss_acts = [], ss_sortkey = SORT_KEY_INVALID, ss_precise = PRECISE_NORMAL, ss_run_secs = 0,
     ss_cpu_type = CPU_UNSUP, ss_logfile = False, ss_debuglevel = 0, ss_debug_inited = False, ss_dump_fout = False,
     ss_dump_cache = False, ss_mounted = False, ss_cmt_enabled = False, ss_proc_inited = False, ss_node_inited = False,
     ss_cons_inited = False, ss_recbuf = False, ss_llbuf = False, ss_perf_inited = False, ss_disp_inited = False,
     ss_curses_init = False\<rparr>"

lemma main_clean:
  assumes "numatop_main env opts start_zero = Some (st9, ret)" "tidy env"
  shows "held st9 = Some {}"
proof -
  let ?st0 = "start_zero\<lparr>ss_sortkey := SORT_KEY_CPU, ss_precise := PRECISE_NORMAL, ss_run_secs := TIME_NSEC_MAX\<rparr>"
  let ?mv0 = "\<lparr>mv_ret = 1, mv_debug_level = 0, mv_log = False, mv_dump = False\<rparr>"
  obtain st1 mv out where o: "main_opts env opts (?st0, ?mv0) = Some ((st1, mv), out)"
    using assms(1) by (auto simp: numatop_main_def bind_eq_Some_conv)
  have "held ?st0 = Some (opened ?mv0)" "\<not> ss_mounted ?st0" by (simp_all add: held_def start_zero_def opened_def)
  then have h: "held st1 = Some (opened mv)" "\<not> ss_mounted st1" using main_opts_held [OF _ o] by simp_all
  obtain t r0 where p: "plat_detect (se_cpuid env) (ss_cpu_type st1) = (t, r0)" by fastforce
  let ?st2 = "st1\<lparr>ss_cpu_type := t\<rparr>" and ?mv1 = "mv\<lparr>mv_log := False\<rparr>"
  have h2: "held ?st2 = Some (opened mv)" "\<not> ss_mounted ?st2" using h by simp_all
  obtain st3 r3 where d: "debug_init env (mv_debug_level mv) (mv_log mv) ?st2 = (st3, r3)" by fastforce
  obtain st4 r4 where u: "dump_start env (mv_dump mv) st3 = (st4, r4)" by fastforce
  obtain st5 cmt where c: "os_cmt_init env st4 = (st5, cmt)" by fastforce
  consider "out" | "\<not> out" "r0 \<noteq> 0" | "\<not> out" "r0 = 0" "r3 \<noteq> 0" | "\<not> out" "r0 = 0" "r3 = 0" "r4 \<noteq> 0" | "\<not> out" "r0 = 0" "r3 = 0" "r4 = 0"
    by blast
  then show ?thesis
  proof cases
    case 1
    then show ?thesis using assms(1) o exit0_clean [OF h(1)] by (auto simp: numatop_main_def)
  next
    case 2
    then show ?thesis using assms(1) o p exit0_clean [OF h2(1)] by (auto simp: numatop_main_def Let_def)
  next
    case 3
    then have "held st3 = Some (opened mv)" using d h2(1) by (auto simp: debug_init_def create_def split: if_splits)
    then show ?thesis using 3 assms(1) o p d exit0_clean [of st3 mv] by (auto simp: numatop_main_def Let_def)
  next
    case 4
    have "held (L_EXIT2 (st4, ?mv1)) = Some {}" using main_after_options [OF h2 _ refl u] d 4 by simp
    then show ?thesis using 4 assms(1) o p d u by (auto simp: numatop_main_def Let_def)
  next
    case 5
    have s: "held st4 = Some (base st4)" "\<not> ss_mounted st4" "ss_debug_inited st4" "ss_dump_cache st4 = ss_dump_fout st4"
      using main_after_options [OF h2 _ refl u] d 5 by simp_all
    have "ready (st5\<lparr>ss_cmt_enabled := cmt\<rparr>) {}"
      by (rule cmt_init_ready [OF s _ c]) (use assms(2) in \<open>simp add: tidy_def\<close>)
    moreover have "main_groups env (st5\<lparr>ss_cmt_enabled := cmt\<rparr>, ?mv1\<lparr>mv_dump := False\<rparr>) = (st9, ret)"
      using 5 assms(1) o p d u c by (auto simp: numatop_main_def Let_def)
    ultimately show ?thesis
      using assms(2) main_groups_clean [of "st5\<lparr>ss_cmt_enabled := cmt\<rparr>" env "?mv1\<lparr>mv_dump := False\<rparr>" st9 ret]
      by (simp add: tidy_def)
  qed
qed

text \<open>getopt gives every option that takes an argument one.\<close>

definition args_given :: "(char \<times> string option) list \<Rightarrow> bool" where
  "args_given opts \<longleftrightarrow> (\<forall>(c, a)\<in>set opts. c = CHR ''l'' \<or> c = CHR ''t'' \<longrightarrow> a \<noteq> None)"

lemma main_opt_total:
  assumes "c = CHR ''l'' \<or> c = CHR ''t'' \<longrightarrow> a \<noteq> None"
  shows "main_opt env (c, a) sv \<noteq> None"
proof (cases a)
  case None
  then show ?thesis using assms by (simp add: main_opt_def split: prod.split del: not_None_eq)
next
  case (Some s)
  then show ?thesis by (simp add: main_opt_def Let_def split: prod.split del: not_None_eq)
qed

lemma main_opts_total:
  assumes "args_given opts"
  shows "\<exists>r. main_opts env opts sv = Some r"
  using assms
proof (induction opts arbitrary: sv)
  case (Cons opt opts)
  have "main_opt env opt sv \<noteq> None" using Cons.prems main_opt_total by (cases opt) (simp add: args_given_def)
  then obtain sv1 out where "main_opt env opt sv = Some (sv1, out)" by auto
  moreover have "args_given opts" using Cons.prems by (simp add: args_given_def)
  ultimately show ?case using Cons.IH [of sv1] by auto
qed auto

lemma main_total:
  assumes "args_given opts"
  shows "\<exists>st ret. numatop_main env opts st0 = Some (st, ret)"
proof -
  obtain st1 mv out where "main_opts env opts (st0\<lparr>ss_sortkey := SORT_KEY_CPU, ss_precise := PRECISE_NORMAL,
      ss_run_secs := TIME_NSEC_MAX\<rparr>, \<lparr>mv_ret = 1, mv_debug_level = 0, mv_log = False, mv_dump = False\<rparr>) = Some ((st1, mv), out)"
    using main_opts_total [OF assms] by (metis surj_pair)
  then show ?thesis by (simp add: numatop_main_def Let_def split: prod.splits)
qed


text \<open>Everything the system is asked for succeeds.\<close>

definition all_well :: start_env where
  "all_well = \<lparr>se_fopen = \<lambda>_. True, se_cpuid = cpuid_demo, se_debug_mutex = True, se_dump_cache = True, se_mount = True,
     se_umount = True, se_tasks = True, se_proc_mutex = True, se_proc_cond = True, se_numa = True, se_node_mutex = True,
     se_nodes = True, se_node_refresh = True, se_pipe = True, se_signal = True, se_rlimit = True, se_recbuf = True,
     se_llbuf = True, se_perf_mutex = True, se_perf_cond = True, se_status_mutex = True, se_status_cond = True,
     se_perf_thread = True, se_profiling_start = True, se_disp_mutex = True, se_disp_cond = True, se_disp_mutex2 = True,
     se_disp_cond2 = True, se_cons_thread = True, se_disp_thread = True, se_scr_large = True, se_cons_ready = True\<rparr>"


lemmas main_steps =
  numatop_main_def main_groups_def main_threads_def Let_def create_def create_next_def rel_if_def debug_init_def debug_fini_def
  dump_start_def dump_fini_def resctrl_mounted_def os_cmt_init_def os_cmt_fini_def proc_group_start_def proc_group_end_def
  node_group_start_def node_group_end_def disp_cons_ctl_init_def disp_cons_ctl_fini_def os_perf_fini_def os_perf_init_def
  perf_init_def perf_fini_def disp_ctl_start_def disp_ctl_end_def disp_consthr_quit_def disp_start_def disp_init_def
  reg_curses_fini_def reg_curses_init_def disp_thread_def disp_dispthr_quit_wait_def L_EXIT0_def L_EXIT2_def L_EXIT3_def
  L_EXIT5_def L_EXIT6_def L_EXIT7_def acq_def rel_def



end
